(* ===== verification/Prelude.thy ===== *)
theory Prelude
  imports Main "HOL-Library.Word" "HOL-Library.List_Lexorder" "HOL-Library.Char_ord"
begin

text \<open>
  Shared vocabulary of the development: bytes and machine-integer widths, results
  (\<open>Inl\<close> an error, \<open>Inr\<close> a value) with the sequencing that Rust writes
  \<open>?\<close>, the environment that answers cancellation, deadline and allocation
  questions, checked arithmetic, little-endian integers, the byte reader that every
  decoder of the program uses, and the generic list lemmas.

  Integers of the program are natural numbers whose width is written out: every
  \<open>checked_add\<close>, \<open>try_from\<close> and similar call of the source is a test against the
  bound of its type (\<open>usize\<close> and \<open>u64\<close> have 64 bits). Record types of the components
  come with a well-formedness predicate that says that each field is within its width,
  and the components prove that their operations keep it.
\<close>

unbundle bit_operations_syntax

named_theorems res_simps \<open>inversion of result sequencing\<close>
named_theorems codec_simps \<open>reading back what an encoder wrote\<close>
named_theorems wf_intros \<open>well-formedness of results\<close>

section \<open>Bytes, widths and results\<close>

type_synonym byte = "8 word"
type_synonym bytes = "byte list"

abbreviation u8_bound :: nat where "u8_bound \<equiv> 2 ^ 8"
abbreviation u16_bound :: nat where "u16_bound \<equiv> 2 ^ 16"
abbreviation u32_bound :: nat where "u32_bound \<equiv> 2 ^ 32"
abbreviation u64_bound :: nat where "u64_bound \<equiv> 2 ^ 64"
abbreviation isize_max :: nat where "isize_max \<equiv> 2 ^ 63 - 1"

definition bindE :: "'e + 'a \<Rightarrow> ('a \<Rightarrow> 'e + 'b) \<Rightarrow> 'e + 'b" where
  "bindE r f = (case r of Inl e \<Rightarrow> Inl e | Inr x \<Rightarrow> f x)"

definition mapErr :: "('e \<Rightarrow> 'f) \<Rightarrow> 'e + 'a \<Rightarrow> 'f + 'a" where
  "mapErr g r = (case r of Inl e \<Rightarrow> Inl (g e) | Inr x \<Rightarrow> Inr x)"

definition ok_or :: "'e \<Rightarrow> 'a option \<Rightarrow> 'e + 'a" where
  "ok_or e x = (case x of None \<Rightarrow> Inl e | Some y \<Rightarrow> Inr y)"

definition guardE :: "'e \<Rightarrow> bool \<Rightarrow> 'e + unit" where
  "guardE e b = (if b then Inr () else Inl e)"

definition is_ok :: "'e + 'a \<Rightarrow> bool" where
  "is_ok r = (case r of Inl _ \<Rightarrow> False | Inr _ \<Rightarrow> True)"

lemma bindE_simps [simp]:
  "bindE (Inl e) f = Inl e"
  "bindE (Inr x) f = f x"
  by (simp_all add: bindE_def)

lemma bindE_Inr [res_simps]: "bindE r f = Inr y \<longleftrightarrow> (\<exists>x. r = Inr x \<and> f x = Inr y)"
  by (cases r) auto

lemma bindE_Inl [res_simps]:
  "bindE r f = Inl e \<longleftrightarrow> r = Inl e \<or> (\<exists>x. r = Inr x \<and> f x = Inl e)"
  by (cases r) auto

lemma bindE_cong [fundef_cong]:
  "r = r' \<Longrightarrow> (\<And>x. r' = Inr x \<Longrightarrow> f x = g x) \<Longrightarrow> bindE r f = bindE r' g"
  by (cases r') auto

lemma bindE_assoc: "bindE (bindE r f) g = bindE r (\<lambda>x. bindE (f x) g)"
  by (cases r) auto

lemma mapErr_simps [simp]:
  "mapErr g (Inl e) = Inl (g e)"
  "mapErr g (Inr x) = Inr x"
  by (simp_all add: mapErr_def)

lemma mapErr_Inr [res_simps]: "mapErr g r = Inr x \<longleftrightarrow> r = Inr x"
  by (cases r) auto

lemma mapErr_Inl [res_simps]: "mapErr g r = Inl e \<longleftrightarrow> (\<exists>d. r = Inl d \<and> e = g d)"
  by (cases r) auto

lemma ok_or_simps [simp]:
  "ok_or e None = Inl e"
  "ok_or e (Some x) = Inr x"
  by (simp_all add: ok_or_def)

lemma ok_or_Inr [res_simps]: "ok_or e x = Inr y \<longleftrightarrow> x = Some y"
  by (cases x) auto

lemma ok_or_Inl [res_simps]: "ok_or e x = Inl d \<longleftrightarrow> x = None \<and> d = e"
  by (cases x) auto

lemma guardE_simps [simp]:
  "guardE e True = Inr ()"
  "guardE e False = Inl e"
  by (simp_all add: guardE_def)

lemma guardE_Inr [res_simps]: "guardE e b = Inr u \<longleftrightarrow> b"
  by (cases b) auto

lemma guardE_Inl [res_simps]: "guardE e b = Inl d \<longleftrightarrow> \<not> b \<and> d = e"
  by (cases b) auto

lemma is_ok_simps [simp]: "\<not> is_ok (Inl e)" "is_ok (Inr x)"
  by (simp_all add: is_ok_def)

definition ok_of :: "'e + 'a \<Rightarrow> 'a option" where
  "ok_of r = (case r of Inl _ \<Rightarrow> None | Inr x \<Rightarrow> Some x)"

lemma ok_of_simps [simp]: "ok_of (Inl e) = None" "ok_of (Inr x) = Some x"
  by (simp_all add: ok_of_def)

lemma ok_of_Some [res_simps]: "ok_of r = Some x \<longleftrightarrow> r = Inr x"
  by (cases r) auto

lemma is_ok_iff: "is_ok r \<longleftrightarrow> (\<exists>x. r = Inr x)"
  by (cases r) auto

section \<open>The environment: cancellation, deadlines, allocation\<close>

text \<open>
  The program polls a cancellation flag and a clock (\<open>check\<close>), asks the allocator
  for memory (\<open>try_reserve\<close>) and calls the storage library. Which answers it gets is not determined by its inputs, so
  a run takes the list of the answers it will get, in order; past the end of the list
  every answer is benign. The empty list is the environment that never interrupts.
\<close>

record obs =
  obs_cancelled :: bool
  obs_expired :: bool
  obs_oom :: bool
  obs_io :: bool
  obs_landed :: bool

type_synonym env = "obs list"

definition quiet :: "env \<Rightarrow> bool" where
  "quiet env \<longleftrightarrow>
     (\<forall>ob \<in> set env. \<not> obs_cancelled ob \<and> \<not> obs_expired ob \<and> \<not> obs_oom ob \<and> \<not> obs_io ob)"

fun check_with :: "'e \<Rightarrow> 'e \<Rightarrow> env \<Rightarrow> 'e + env" where
  "check_with cancelled deadline [] = Inr []"
| "check_with cancelled deadline (ob # env) =
     (if obs_cancelled ob then Inl cancelled
      else if obs_expired ob then Inl deadline
      else Inr env)"

fun reserve_with :: "'e \<Rightarrow> env \<Rightarrow> 'e + env" where
  "reserve_with failed [] = Inr []"
| "reserve_with failed (ob # env) = (if obs_oom ob then Inl failed else Inr env)"

text \<open>
  A call of the storage library fails when the answer says so; when a failing call is a
  commit, the answer also says whether it reached the disk.
\<close>

fun io_with :: "'e \<Rightarrow> env \<Rightarrow> 'e + env" where
  "io_with failed [] = Inr []"
| "io_with failed (ob # env) = (if obs_io ob then Inl failed else Inr env)"

fun poll_each :: "(env \<Rightarrow> 'e + env) \<Rightarrow> 'a list \<Rightarrow> env \<Rightarrow> 'e + env" where
  "poll_each chk [] env = Inr env"
| "poll_each chk (x # xs) env = bindE (chk env) (poll_each chk xs)"

lemma quiet_Nil [simp]: "quiet []"
  by (simp add: quiet_def)

lemma check_with_quiet: "quiet env \<Longrightarrow> \<exists>env'. check_with c d env = Inr env' \<and> quiet env'"
  by (cases env) (auto simp: quiet_def)

lemma reserve_with_quiet: "quiet env \<Longrightarrow> \<exists>env'. reserve_with e env = Inr env' \<and> quiet env'"
  by (cases env) (auto simp: quiet_def)

lemma check_with_Inl: "check_with c d env = Inl e \<Longrightarrow> e = c \<or> e = d"
  by (cases env) (auto split: if_splits)

lemma reserve_with_Inl: "reserve_with f env = Inl e \<Longrightarrow> e = f"
  by (cases env) (auto split: if_splits)

lemma io_with_Inl: "io_with f env = Inl e \<Longrightarrow> e = f"
  by (cases env) (auto split: if_splits)

lemma poll_each_Nil_env [simp]: "chk [] = Inr [] \<Longrightarrow> poll_each chk xs [] = Inr []"
  by (induction xs) auto

lemma poll_each_quiet:
  assumes "\<And>env. quiet env \<Longrightarrow> \<exists>env'. chk env = Inr env' \<and> quiet env'" and "quiet env"
  shows "\<exists>env'. poll_each chk xs env = Inr env' \<and> quiet env'"
  using assms(2)
proof (induction xs arbitrary: env)
  case (Cons x xs)
  obtain env1 where "chk env = Inr env1" "quiet env1"
    using assms(1) [OF Cons.prems] by blast
  then show ?case using Cons.IH by simp
qed simp

lemma poll_each_Inl:
  "poll_each chk xs env = Inl e \<Longrightarrow> (\<And>env e. chk env = Inl e \<Longrightarrow> P e) \<Longrightarrow> P e"
  by (induction xs arbitrary: env) (auto simp: res_simps)

text \<open>
  What an environment can do to an operation: a run under \<open>env\<close> either agrees with the
  run that is never interrupted (same value, or same error), or it ends with one of the
  errors \<open>I\<close> that stand for interruption. Interruption never changes a value.
\<close>

definition refines_quiet :: "'e set \<Rightarrow> 'e + 'a \<times> env \<Rightarrow> 'e + 'a \<times> env \<Rightarrow> bool" where
  "refines_quiet I r q \<longleftrightarrow>
     (case r of Inl e \<Rightarrow> e \<in> I \<or> q = Inl e
      | Inr (x, _) \<Rightarrow> q = Inr (x, []))"

named_theorems refines_intros \<open>composition of interruptible operations\<close>

lemma refines_quiet_ret [refines_intros]: "refines_quiet I (Inr (x, env)) (Inr (x, []))"
  by (simp add: refines_quiet_def)

lemma refines_quiet_fail [refines_intros]: "refines_quiet I (Inl e) (Inl e)"
  by (simp add: refines_quiet_def)

lemma refines_quiet_check [refines_intros]:
  "c \<in> I \<Longrightarrow> d \<in> I \<Longrightarrow> (\<And>env. refines_quiet I (k env) (k [])) \<Longrightarrow>
   refines_quiet I (bindE (check_with c d env) k) (bindE (check_with c d []) k)"
  by (cases env) (auto simp: refines_quiet_def split: sum.splits prod.splits)

lemma refines_quiet_reserve [refines_intros]:
  "f \<in> I \<Longrightarrow> (\<And>env. refines_quiet I (k env) (k [])) \<Longrightarrow>
   refines_quiet I (bindE (reserve_with f env) k) (bindE (reserve_with f []) k)"
  by (cases env) (auto simp: refines_quiet_def split: sum.splits prod.splits)

lemma refines_quiet_poll:
  assumes "\<And>env. refines_quiet I (k env) (k [])" and "c \<in> I" and "d \<in> I"
  shows "refines_quiet I (bindE (poll_each (check_with c d) xs env) k)
           (bindE (poll_each (check_with c d) xs []) k)"
proof (induction xs arbitrary: env)
  case Nil
  show ?case using assms(1) by simp
next
  case (Cons x xs)
  show ?case
  proof (cases "check_with c d env")
    case (Inl e)
    then show ?thesis using assms(2,3) check_with_Inl [OF Inl] by (auto simp: refines_quiet_def)
  next
    case (Inr env')
    then show ?thesis using Cons.IH [of env'] by simp
  qed
qed

lemma refines_quiet_pure:
  "(\<And>x. r = Inr x \<Longrightarrow> refines_quiet I (k x) (k' x)) \<Longrightarrow> refines_quiet I (bindE r k) (bindE r k')"
  by (cases r) (auto simp: refines_quiet_def)

lemma refines_quiet_bind:
  "refines_quiet I r q \<Longrightarrow> (\<And>x env. refines_quiet I (k (x, env)) (k (x, []))) \<Longrightarrow>
   refines_quiet I (bindE r k) (bindE q k)"
proof (cases r)
  case (Inr p)
  assume rq: "refines_quiet I r q" and k: "\<And>x env. refines_quiet I (k (x, env)) (k (x, []))"
  obtain x env where p: "p = (x, env)" by (cases p)
  with Inr rq have "q = Inr (x, [])" by (simp add: refines_quiet_def)
  with Inr p k show ?thesis by simp
qed (auto simp: refines_quiet_def)

lemma refines_quiet_if [refines_intros]:
  "(b \<Longrightarrow> refines_quiet I r q) \<Longrightarrow> (\<not> b \<Longrightarrow> refines_quiet I r' q') \<Longrightarrow>
   refines_quiet I (if b then r else r') (if b then q else q')"
  by simp

lemma refines_quiet_mapErr:
  "refines_quiet I r q \<Longrightarrow> g ` I \<subseteq> J \<Longrightarrow> refines_quiet J (mapErr g r) (mapErr g q)"
  by (cases r) (auto simp: refines_quiet_def)

lemma refines_quiet_Inr: "refines_quiet I (Inr (x, env)) q \<Longrightarrow> q = Inr (x, [])"
  by (simp add: refines_quiet_def)

lemma refines_quiet_Inl: "refines_quiet I (Inl e) q \<Longrightarrow> e \<in> I \<or> q = Inl e"
  by (simp add: refines_quiet_def)

text \<open>
  The same for an operation as a function of its environment, with rules that follow the
  shape of a definition.
\<close>

definition interruptible :: "'e set \<Rightarrow> (env \<Rightarrow> 'e + 'a \<times> env) \<Rightarrow> bool" where
  "interruptible I f \<longleftrightarrow> (\<forall>env. refines_quiet I (f env) (f []))"

definition polls :: "'e set \<Rightarrow> (env \<Rightarrow> 'e + env) \<Rightarrow> bool" where
  "polls I f \<longleftrightarrow> (\<forall>env. case f env of Inl e \<Rightarrow> e \<in> I \<or> f [] = Inl e | Inr _ \<Rightarrow> f [] = Inr [])"

named_theorems interruptible_intros \<open>shape-directed rules for interruptible operations\<close>

lemma interruptible_ret [interruptible_intros]: "interruptible I (\<lambda>env. Inr (x, env))"
  by (simp add: interruptible_def refines_quiet_def)

lemma interruptible_fail [interruptible_intros]: "interruptible I (\<lambda>env. Inl e)"
  by (simp add: interruptible_def refines_quiet_def)

lemma polls_check: "c \<in> I \<Longrightarrow> d \<in> I \<Longrightarrow> polls I (check_with c d)"
  by (auto simp: polls_def split: sum.splits dest: check_with_Inl)

lemma polls_reserve: "f \<in> I \<Longrightarrow> polls I (reserve_with f)"
  by (auto simp: polls_def split: sum.splits dest: reserve_with_Inl)

lemma polls_io: "f \<in> I \<Longrightarrow> polls I (io_with f)"
  by (auto simp: polls_def split: sum.splits dest: io_with_Inl)

lemma polls_Inr [interruptible_intros]: "polls I Inr" "polls I (\<lambda>env. Inr env)"
  by (simp_all add: polls_def)

lemma polls_if [interruptible_intros]:
  "(b \<Longrightarrow> polls I f) \<Longrightarrow> (\<not> b \<Longrightarrow> polls I g) \<Longrightarrow> polls I (\<lambda>env. if b then f env else g env)"
  by (cases b) simp_all

lemma polls_bind [interruptible_intros]:
  "polls I p \<Longrightarrow> polls I k \<Longrightarrow> polls I (\<lambda>env. bindE (p env) k)"
  unfolding polls_def
  by (intro allI, erule_tac x = env in allE)
    (auto split: sum.splits; metis bindE_simps sum.exhaust sum.inject Inl_Inr_False)

lemma polls_pure [interruptible_intros]:
  "(\<And>x. r = Inr x \<Longrightarrow> polls I (k x)) \<Longrightarrow> polls I (\<lambda>env. bindE r (\<lambda>x. k x env))"
  by (cases r) (simp_all add: polls_def)

lemma polls_fail [interruptible_intros]: "polls I (\<lambda>env. Inl e)"
  by (simp add: polls_def)

lemma polls_poll_each [interruptible_intros]: "polls I chk \<Longrightarrow> polls I (poll_each chk xs)"
proof (induction xs)
  case (Cons x xs)
  then have "polls I (\<lambda>env. bindE (chk env) (poll_each chk xs))" by (intro polls_bind)
  then show ?case by (simp add: polls_def)
qed (simp add: polls_def)

lemma interruptible_poll [interruptible_intros]:
  "polls I p \<Longrightarrow> interruptible I k \<Longrightarrow> interruptible I (\<lambda>env. bindE (p env) k)"
  unfolding polls_def interruptible_def refines_quiet_def
  by (intro allI, erule_tac x = env in allE)
    (auto split: sum.splits; metis bindE_simps)

lemma polls_bind_pair:
  "interruptible I f \<Longrightarrow> (\<And>x. polls I (k x)) \<Longrightarrow> polls I (\<lambda>env. bindE (f env) (\<lambda>(x, env). k x env))"
  unfolding interruptible_def polls_def refines_quiet_def
proof (intro allI)
  fix env
  assume f: "\<forall>env. case f env of Inl e \<Rightarrow> e \<in> I \<or> f [] = Inl e | Inr (x, _) \<Rightarrow> f [] = Inr (x, [])"
    and k: "\<And>x. \<forall>env. case k x env of Inl e \<Rightarrow> e \<in> I \<or> k x [] = Inl e | Inr _ \<Rightarrow> k x [] = Inr []"
  show "case bindE (f env) (\<lambda>(x, env). k x env) of
        Inl e \<Rightarrow> e \<in> I \<or> bindE (f []) (\<lambda>(x, env). k x env) = Inl e
      | Inr _ \<Rightarrow> bindE (f []) (\<lambda>(x, env). k x env) = Inr []"
  proof (cases "f env")
    case (Inl e)
    then show ?thesis using f [rule_format, of env] by auto
  next
    case (Inr p)
    obtain x env' where p: "p = (x, env')" by (cases p)
    then have "f [] = Inr (x, [])" using f [rule_format, of env] Inr by simp
    then show ?thesis using k [of x, rule_format, of env'] Inr p by (cases "k x env'") simp_all
  qed
qed

lemma interruptible_bind [interruptible_intros]:
  "interruptible I f \<Longrightarrow> (\<And>x. interruptible I (k x)) \<Longrightarrow>
   interruptible I (\<lambda>env. bindE (f env) (\<lambda>(x, env). k x env))"
  unfolding interruptible_def by (intro allI refines_quiet_bind) auto

lemma interruptible_pure [interruptible_intros]:
  "(\<And>x. r = Inr x \<Longrightarrow> interruptible I (k x)) \<Longrightarrow> interruptible I (\<lambda>env. bindE r (\<lambda>x. k x env))"
  unfolding interruptible_def by (intro allI refines_quiet_pure) auto

lemma interruptible_if [interruptible_intros]:
  "(b \<Longrightarrow> interruptible I f) \<Longrightarrow> (\<not> b \<Longrightarrow> interruptible I g) \<Longrightarrow>
   interruptible I (\<lambda>env. if b then f env else g env)"
  by (cases b) simp_all

lemma interruptible_prod [interruptible_intros]:
  "(\<And>a b. p = (a, b) \<Longrightarrow> interruptible I (k a b)) \<Longrightarrow> interruptible I (\<lambda>env. case p of (a, b) \<Rightarrow> k a b env)"
  by (cases p) simp

lemma interruptible_prod_fun [interruptible_intros]:
  "(\<And>a b. p = (a, b) \<Longrightarrow> interruptible I (k a b)) \<Longrightarrow> interruptible I (case p of (a, b) \<Rightarrow> k a b)"
  by (cases p) simp

lemma interruptible_prod_app [interruptible_intros]:
  "(\<And>a b. p = (a, b) \<Longrightarrow> interruptible I (k a b x)) \<Longrightarrow> interruptible I ((case p of (a, b) \<Rightarrow> k a b) x)"
  by (cases p) simp

lemma interruptible_option_fun [interruptible_intros]:
  "(x = None \<Longrightarrow> interruptible I f) \<Longrightarrow> (\<And>y. x = Some y \<Longrightarrow> interruptible I (k y)) \<Longrightarrow>
   interruptible I (case x of None \<Rightarrow> f | Some y \<Rightarrow> k y)"
  by (cases x) simp_all

lemma interruptible_option [interruptible_intros]:
  "(x = None \<Longrightarrow> interruptible I f) \<Longrightarrow> (\<And>y. x = Some y \<Longrightarrow> interruptible I (k y)) \<Longrightarrow>
   interruptible I (\<lambda>env. case x of None \<Rightarrow> f env | Some y \<Rightarrow> k y env)"
  by (cases x) simp_all

lemma interruptible_mapErr:
  "interruptible I f \<Longrightarrow> g ` I \<subseteq> J \<Longrightarrow> interruptible J (\<lambda>env. mapErr g (f env))"
  unfolding interruptible_def by (auto intro: refines_quiet_mapErr)

lemma interruptible_Inr: "interruptible I f \<Longrightarrow> f env = Inr (x, env') \<Longrightarrow> f [] = Inr (x, [])"
  unfolding interruptible_def by (metis refines_quiet_Inr)

lemma interruptible_Inl: "interruptible I f \<Longrightarrow> f env = Inl e \<Longrightarrow> e \<in> I \<or> f [] = Inl e"
  unfolding interruptible_def by (metis refines_quiet_Inl)

section \<open>Checked arithmetic\<close>

definition checked_add64 :: "nat \<Rightarrow> nat \<Rightarrow> nat option" where
  "checked_add64 a b = (if a + b < u64_bound then Some (a + b) else None)"

definition checked_mul64 :: "nat \<Rightarrow> nat \<Rightarrow> nat option" where
  "checked_mul64 a b = (if a * b < u64_bound then Some (a * b) else None)"

definition checked_sub :: "nat \<Rightarrow> nat \<Rightarrow> nat option" where
  "checked_sub a b = (if b \<le> a then Some (a - b) else None)"

definition try_from :: "nat \<Rightarrow> nat \<Rightarrow> nat option" where
  "try_from bound n = (if n < bound then Some n else None)"

lemma checked_add64_Some [res_simps]:
  "checked_add64 a b = Some c \<longleftrightarrow> c = a + b \<and> a + b < u64_bound"
  by (auto simp: checked_add64_def)

lemma checked_mul64_Some [res_simps]:
  "checked_mul64 a b = Some c \<longleftrightarrow> c = a * b \<and> a * b < u64_bound"
  by (auto simp: checked_mul64_def)

lemma checked_sub_Some [res_simps]: "checked_sub a b = Some c \<longleftrightarrow> b \<le> a \<and> c = a - b"
  by (auto simp: checked_sub_def)

lemma try_from_Some [res_simps]: "try_from b n = Some m \<longleftrightarrow> m = n \<and> n < b"
  by (auto simp: try_from_def)

section \<open>Little-endian integers\<close>

fun le_bytes :: "nat \<Rightarrow> nat \<Rightarrow> bytes" where
  "le_bytes 0 n = []"
| "le_bytes (Suc k) n = word_of_nat (n mod 256) # le_bytes k (n div 256)"

fun of_le_bytes :: "bytes \<Rightarrow> nat" where
  "of_le_bytes [] = 0"
| "of_le_bytes (b # bs) = unat b + 256 * of_le_bytes bs"

lemma length_le_bytes [simp]: "length (le_bytes k n) = k"
  by (induction k arbitrary: n) auto

lemma unat_byte_bound: "unat (b :: byte) < 256"
  using unsigned_less [of b, where 'a = nat] by simp

lemma of_le_bytes_bound: "of_le_bytes bs < 256 ^ length bs"
proof (induction bs)
  case (Cons b bs)
  have "unat b + 256 * of_le_bytes bs < 256 * (of_le_bytes bs + 1)"
    using unat_byte_bound [of b] by simp
  also have "\<dots> \<le> 256 * 256 ^ length bs"
    using Cons.IH by (intro mult_le_mono) auto
  finally show ?case by simp
qed simp

lemma unat_of_mod_256: "unat (word_of_nat (n mod 256) :: byte) = n mod 256"
  by (simp add: unat_of_nat)

lemma of_le_bytes_le_bytes_mod: "of_le_bytes (le_bytes k n) = n mod 256 ^ k"
  by (induction k arbitrary: n) (simp_all add: unat_of_mod_256 mod_mult2_eq)

lemma of_le_bytes_le_bytes [codec_simps]: "n < 256 ^ k \<Longrightarrow> of_le_bytes (le_bytes k n) = n"
  by (simp add: of_le_bytes_le_bytes_mod)

lemma le_bytes_of_le_bytes: "length bs = k \<Longrightarrow> le_bytes k (of_le_bytes bs) = bs"
proof (induction bs arbitrary: k)
  case (Cons b bs)
  have "(unat b + 256 * of_le_bytes bs) mod 256 = unat b"
    using unat_byte_bound [of b] by simp
  moreover have "(unat b + 256 * of_le_bytes bs) div 256 = of_le_bytes bs"
    using unat_byte_bound [of b] by simp
  ultimately show ?case using Cons by auto
qed simp

lemma u16_bound_pow: "u16_bound = 256 ^ 2" by simp
lemma u32_bound_pow: "u32_bound = 256 ^ 4" by simp
lemma u64_bound_pow: "u64_bound = 256 ^ 8" by simp

lemma le_bytes_inject: "le_bytes k m = le_bytes k n \<Longrightarrow> m < 256 ^ k \<Longrightarrow> n < 256 ^ k \<Longrightarrow> m = n"
  by (metis of_le_bytes_le_bytes)

lemma le_bytes_eq_iff: "m < 256 ^ k \<Longrightarrow> n < 256 ^ k \<Longrightarrow> le_bytes k m = le_bytes k n \<longleftrightarrow> m = n"
  using le_bytes_inject by blast

section \<open>Strings and hexadecimal digits\<close>

text \<open>
  A Rust string is its UTF-8 bytes; a HOL \<open>string\<close> is a list of 8-bit characters, so
  the two correspond element by element.
\<close>

definition as_bytes :: "string \<Rightarrow> bytes" where
  "as_bytes s = map (\<lambda>c. word_of_nat (of_char c)) s"

definition of_bytes :: "bytes \<Rightarrow> string" where
  "of_bytes bs = map (\<lambda>b. char_of (unat b)) bs"

lemma of_char_bound: "(of_char c :: nat) < 256"
  by (metis char_of_char of_char_of mod_less_divisor zero_less_numeral)

lemma of_bytes_as_bytes [simp]: "of_bytes (as_bytes s) = s"
  by (induction s) (simp_all add: as_bytes_def of_bytes_def unat_of_nat of_char_bound)

lemma as_bytes_of_bytes [simp]: "as_bytes (of_bytes bs) = bs"
  by (induction bs) (simp_all add: as_bytes_def of_bytes_def of_char_of unat_byte_bound)

lemma length_as_bytes [simp]: "length (as_bytes s) = length s"
  by (simp add: as_bytes_def)

lemma length_of_bytes [simp]: "length (of_bytes bs) = length bs"
  by (simp add: of_bytes_def)

lemma as_bytes_eq_iff [simp]: "as_bytes s = as_bytes t \<longleftrightarrow> s = t"
  by (metis of_bytes_as_bytes)

lemma as_bytes_append [simp]: "as_bytes (s @ t) = as_bytes s @ as_bytes t"
  by (simp add: as_bytes_def)

lemma take_of_bytes: "take n (of_bytes bs) = of_bytes (take n bs)"
  by (simp add: of_bytes_def take_map)

lemma drop_of_bytes: "drop n (of_bytes bs) = of_bytes (drop n bs)"
  by (simp add: of_bytes_def drop_map)

definition is_ascii_digit :: "byte \<Rightarrow> bool" where
  "is_ascii_digit b \<longleftrightarrow> 48 \<le> b \<and> b \<le> 57"

definition is_lower_af :: "byte \<Rightarrow> bool" where
  "is_lower_af b \<longleftrightarrow> 97 \<le> b \<and> b \<le> 102"

definition hex_digits :: bytes where
  "hex_digits = [48, 49, 50, 51, 52, 53, 54, 55, 56, 57, 97, 98, 99, 100, 101, 102]"

definition hex_high :: "byte \<Rightarrow> byte" where
  "hex_high b = hex_digits ! unat (drop_bit 4 b)"

definition hex_low :: "byte \<Rightarrow> byte" where
  "hex_low b = hex_digits ! unat (b AND 15)"

fun hex_bytes :: "bytes \<Rightarrow> bytes" where
  "hex_bytes [] = []"
| "hex_bytes (b # bs) = hex_high b # hex_low b # hex_bytes bs"

lemma length_hex_bytes [simp]: "length (hex_bytes bs) = 2 * length bs"
  by (induction bs) auto

lemma hex_bytes_append [simp]: "hex_bytes (xs @ ys) = hex_bytes xs @ hex_bytes ys"
  by (induction xs) auto

section \<open>The byte reader\<close>

text \<open>
  The decoders keep a slice and a position. A reader is the unread part of the slice and
  the position: \<open>bytes.get(position..end)\<close> is \<open>Some\<close> exactly when the unread part has
  that many bytes, and the reader is at its end exactly when nothing is unread.
\<close>

type_synonym reader = "bytes \<times> nat"

definition rd_take :: "'e \<Rightarrow> 'e \<Rightarrow> nat \<Rightarrow> reader \<Rightarrow> 'e + bytes \<times> reader" where
  "rd_take overflow short n r =
     (case r of (unread, pos) \<Rightarrow>
        bindE (ok_or overflow (checked_add64 pos n)) (\<lambda>end.
          if n \<le> length unread then Inr (take n unread, (drop n unread, end)) else Inl short))"

definition rd_le :: "(nat \<Rightarrow> reader \<Rightarrow> 'e + bytes \<times> reader) \<Rightarrow> nat \<Rightarrow> reader \<Rightarrow> 'e + nat \<times> reader"
  where
  "rd_le rtake k r = bindE (rtake k r) (\<lambda>(bs, r). Inr (of_le_bytes bs, r))"

text \<open>
  The contract between a decoder and its reader: taking the next bytes of a stream that
  begins with them returns them, and a successful take is the front of the stream. What a
  decoder reads back follows from these two laws alone.
\<close>

locale byte_reader =
  fixes rtake :: "nat \<Rightarrow> reader \<Rightarrow> 'e + bytes \<times> reader"
  assumes rtake_app: "length c = n \<Longrightarrow> pos + n < u64_bound \<Longrightarrow>
      rtake n (c @ rest, pos) = Inr (c, (rest, pos + n))"
    and rtake_Inr: "rtake n (unread, pos) = Inr (c, r) \<Longrightarrow>
      length c = n \<and> unread = c @ fst r \<and> snd r = pos + n \<and> pos + n < u64_bound"
begin

lemma rtake_word:
  "v < 256 ^ k \<Longrightarrow> pos + k < u64_bound \<Longrightarrow>
   rd_le rtake k (le_bytes k v @ rest, pos) = Inr (v, (rest, pos + k))"
  by (simp add: rd_le_def rtake_app codec_simps)

lemma rtake_word_Inr:
  assumes "rd_le rtake k (unread, pos) = Inr (v, r)"
  shows "v < 256 ^ k \<and> unread = le_bytes k v @ fst r \<and> snd r = pos + k"
proof -
  obtain c where c: "rtake k (unread, pos) = Inr (c, r)" and v: "v = of_le_bytes c"
    using assms by (auto simp: rd_le_def res_simps)
  have "length c = k" "unread = c @ fst r" "snd r = pos + k"
    using rtake_Inr [OF c] by auto
  then show ?thesis
    using v of_le_bytes_bound [of c] by (auto simp: le_bytes_of_le_bytes)
qed

lemma rtake_prefix:
  "rtake n (unread, pos) = Inr (c, r) \<Longrightarrow> r = (drop n unread, pos + n) \<and> c = take n unread"
  by (drule rtake_Inr) (cases r, auto)

end

lemma rd_take_app [codec_simps]:
  "length c = n \<Longrightarrow> pos + n < u64_bound \<Longrightarrow>
   rd_take ovf short n (c @ rest, pos) = Inr (c, (rest, pos + n))"
  by (simp add: rd_take_def checked_add64_def)

lemma rd_take_Inr:
  "rd_take ovf short n (unread, pos) = Inr (c, r) \<Longrightarrow>
   length c = n \<and> unread = c @ fst r \<and> snd r = pos + n \<and> pos + n < u64_bound"
  by (auto simp: rd_take_def res_simps split: if_splits)

interpretation rd: byte_reader "rd_take ovf short" for ovf short
  by unfold_locales (rule rd_take_app rd_take_Inr; assumption)+

section \<open>Chunks\<close>

function chunks :: "nat \<Rightarrow> 'a list \<Rightarrow> 'a list list" where
  "chunks n xs = (if xs = [] \<or> n = 0 then [] else take n xs # chunks n (drop n xs))"
  by pat_completeness auto
termination
  by (relation "measure (\<lambda>(n, xs). length xs)") auto

declare chunks.simps [simp del]

lemma chunks_Nil [simp]: "chunks n [] = []"
  by (simp add: chunks.simps)

lemma concat_chunks [simp]: "0 < n \<Longrightarrow> concat (chunks n xs) = xs"
proof (induction n xs rule: chunks.induct)
  case (1 n xs)
  then show ?case by (cases "xs = []") (simp_all add: chunks.simps [of n xs])
qed

section \<open>Generic list lemmas\<close>

lemma take_drop_slice: "take n (drop k xs) = take n (drop k (take (k + n) xs))"
  by (simp add: take_drop add.commute)

lemma sorted_wrt_nth_snoc:
  "sorted_wrt P xs \<Longrightarrow> (\<And>x. x \<in> set xs \<Longrightarrow> P x y) \<Longrightarrow> sorted_wrt P (xs @ [y])"
  by (simp add: sorted_wrt_append)

end
