(* ===== verification/Utf8.thy ===== *)
theory Utf8
  imports Prelude
begin

text \<open>
  The part of Rust's string library the program relies on: UTF-8 validity
  (\<open>String::from_utf8\<close>, \<open>std::str::from_utf8\<close>), scalar boundaries
  (\<open>str::is_char_boundary\<close>) and checked slices (\<open>str::get\<close>). Validity is the
  well-formed byte sequences of the Unicode standard, as the library documents. The lemmas
  say that cutting valid text at scalar boundaries gives valid text.
\<close>

definition is_cont :: "byte \<Rightarrow> bool" where
  "is_cont b \<longleftrightarrow> 0x80 \<le> b \<and> b \<le> 0xBF"

definition second3_ok :: "byte \<Rightarrow> byte \<Rightarrow> bool" where
  "second3_ok b0 b1 \<longleftrightarrow> is_cont b1 \<and> (b0 = 0xE0 \<longrightarrow> 0xA0 \<le> b1) \<and> (b0 = 0xED \<longrightarrow> b1 \<le> 0x9F)"

definition second4_ok :: "byte \<Rightarrow> byte \<Rightarrow> bool" where
  "second4_ok b0 b1 \<longleftrightarrow> is_cont b1 \<and> (b0 = 0xF0 \<longrightarrow> 0x90 \<le> b1) \<and> (b0 = 0xF4 \<longrightarrow> b1 \<le> 0x8F)"

fun scalar_width :: "bytes \<Rightarrow> nat option" where
  "scalar_width [] = None"
| "scalar_width (b0 # r) =
     (if b0 < 0x80 then Some 1
      else if 0xC2 \<le> b0 \<and> b0 \<le> 0xDF then
        (case r of b1 # _ \<Rightarrow> if is_cont b1 then Some 2 else None | _ \<Rightarrow> None)
      else if 0xE0 \<le> b0 \<and> b0 \<le> 0xEF then
        (case r of b1 # b2 # _ \<Rightarrow> if second3_ok b0 b1 \<and> is_cont b2 then Some 3 else None
         | _ \<Rightarrow> None)
      else if 0xF0 \<le> b0 \<and> b0 \<le> 0xF4 then
        (case r of b1 # b2 # b3 # _ \<Rightarrow>
           if second4_ok b0 b1 \<and> is_cont b2 \<and> is_cont b3 then Some 4 else None
         | _ \<Rightarrow> None)
      else None)"

lemma scalar_width_bounds: "scalar_width bs = Some n \<Longrightarrow> 1 \<le> n \<and> n \<le> 4 \<and> n \<le> length bs"
  by (cases bs) (auto split: if_splits list.splits)

function utf8_valid :: "bytes \<Rightarrow> bool" where
  "utf8_valid bs = (bs = [] \<or>
     (case scalar_width bs of None \<Rightarrow> False | Some n \<Rightarrow> utf8_valid (drop n bs)))"
  by pat_completeness auto
termination
  by (relation "measure length") (auto dest!: scalar_width_bounds)

declare utf8_valid.simps [simp del]

definition is_char_boundary :: "bytes \<Rightarrow> nat \<Rightarrow> bool" where
  "is_char_boundary text i \<longleftrightarrow>
     i = 0 \<or> i = length text \<or> (i < length text \<and> \<not> is_cont (text ! i))"

definition str_get :: "bytes \<Rightarrow> nat \<Rightarrow> nat \<Rightarrow> bytes option" where
  "str_get text i j =
     (if i \<le> j \<and> is_char_boundary text i \<and> is_char_boundary text j
      then Some (take (j - i) (drop i text)) else None)"

section \<open>Shape of one scalar\<close>

lemma scalar_width_head: "scalar_width (b # r) = Some n \<Longrightarrow> \<not> is_cont b"
  by (auto simp: is_cont_def word_le_nat_alt word_less_nat_alt split: if_splits)

lemma scalar_width_tail:
  "scalar_width bs = Some n \<Longrightarrow> 0 < i \<Longrightarrow> i < n \<Longrightarrow> is_cont (bs ! i)"
  by (cases bs)
    (auto simp: second3_ok_def second4_ok_def numeral_eq_Suc less_Suc_eq nth_Cons'
      split: if_splits list.splits)

lemma scalar_width_append: "scalar_width bs = Some n \<Longrightarrow> scalar_width (bs @ ys) = Some n"
  by (cases bs) (auto split: if_splits list.splits)

lemma scalar_width_take:
  "scalar_width bs = Some n \<Longrightarrow> n \<le> m \<Longrightarrow> scalar_width (take m bs) = Some n"
  by (cases bs)
    (auto simp: take_Cons' take_Suc_conv_app_nth split: if_splits list.splits nat.splits)

lemma utf8_valid_Nil [simp]: "utf8_valid []"
  by (simp add: utf8_valid.simps)

lemma utf8_valid_step:
  "scalar_width bs = Some n \<Longrightarrow> utf8_valid bs \<longleftrightarrow> utf8_valid (drop n bs)"
  by (subst utf8_valid.simps) auto

lemma utf8_valid_obtain:
  assumes "utf8_valid bs" and "bs \<noteq> []"
  obtains n where "scalar_width bs = Some n" "utf8_valid (drop n bs)" "1 \<le> n" "n \<le> 4" "n \<le> length bs"
  using assms scalar_width_bounds by (subst (asm) utf8_valid.simps) (auto split: option.splits)

section \<open>Cutting and joining at boundaries\<close>

lemma utf8_valid_append: "utf8_valid xs \<Longrightarrow> utf8_valid ys \<Longrightarrow> utf8_valid (xs @ ys)"
proof (induction xs rule: utf8_valid.induct)
  case (1 xs)
  show ?case
  proof (cases "xs = []")
    case False
    then obtain n where n: "scalar_width xs = Some n" "utf8_valid (drop n xs)" "n \<le> length xs"
      using "1.prems"(1) utf8_valid_obtain by blast
    then have "utf8_valid (drop n xs @ ys)" using "1.IH" "1.prems"(2) False by blast
    then show ?thesis
      using n utf8_valid_step [OF scalar_width_append [OF n(1)]] by simp
  qed (use "1.prems" in simp)
qed

lemma is_char_boundary_drop:
  "is_char_boundary bs i \<Longrightarrow> n \<le> i \<Longrightarrow> is_char_boundary (drop n bs) (i - n)"
  by (auto simp: is_char_boundary_def)

lemma boundary_not_inside_scalar:
  assumes "scalar_width bs = Some n" and "is_char_boundary bs i" and "i \<noteq> 0"
  shows "n \<le> i"
proof (rule ccontr)
  assume "\<not> n \<le> i"
  then have "i < n" by simp
  then have "is_cont (bs ! i)" "i < length bs"
    using scalar_width_tail [OF assms(1)] scalar_width_bounds [OF assms(1)] assms(3) by auto
  then show False using assms(2,3) by (simp add: is_char_boundary_def)
qed

lemma utf8_valid_cut:
  "utf8_valid bs \<Longrightarrow> is_char_boundary bs i \<Longrightarrow> utf8_valid (take i bs) \<and> utf8_valid (drop i bs)"
proof (induction bs arbitrary: i rule: utf8_valid.induct)
  case (1 bs)
  show ?case
  proof (cases "bs = [] \<or> i = 0")
    case False
    then obtain n where n: "scalar_width bs = Some n" "utf8_valid (drop n bs)" "1 \<le> n" "n \<le> length bs"
      using "1.prems"(1) utf8_valid_obtain by blast
    have ni: "n \<le> i" using boundary_not_inside_scalar [OF n(1) "1.prems"(2)] False by simp
    have ih: "utf8_valid (take (i - n) (drop n bs)) \<and> utf8_valid (drop (i - n) (drop n bs))"
      using "1.IH" n is_char_boundary_drop [OF "1.prems"(2) ni] False by blast
    have "scalar_width (take i bs) = Some n" using scalar_width_take [OF n(1) ni] .
    from utf8_valid_step [OF this] ih ni show ?thesis
      by (simp add: drop_take)
  qed (use "1.prems" in auto)
qed

lemma is_char_boundary_mono: "is_char_boundary text i \<Longrightarrow> i \<le> length text"
  by (auto simp: is_char_boundary_def)

lemma is_char_boundary_take:
  "is_char_boundary bs i \<Longrightarrow> i \<le> j \<Longrightarrow> is_char_boundary (take j bs) i"
  by (auto simp: is_char_boundary_def)

lemma str_get_valid:
  assumes "utf8_valid text" and "str_get text i j = Some s"
  shows "utf8_valid s"
proof -
  have b: "i \<le> j" "is_char_boundary text i" "is_char_boundary text j"
    and s: "s = take (j - i) (drop i text)"
    using assms(2) by (auto simp: str_get_def split: if_splits)
  have "utf8_valid (drop i text)" using utf8_valid_cut [OF assms(1) b(2)] by blast
  then show ?thesis
    using utf8_valid_cut is_char_boundary_drop [OF b(3) b(1)] s by blast
qed

lemma boundary_after_ascii:
  assumes "utf8_valid bs" and "i < length bs" and "bs ! i < 0x80"
  shows "is_char_boundary bs (Suc i)"
proof -
  have "is_char_boundary bs i"
    using assms(2,3) by (auto simp: is_char_boundary_def is_cont_def not_le)
  then have "utf8_valid (drop i bs)" using utf8_valid_cut assms(1) by blast
  moreover have d: "drop i bs = bs ! i # drop (Suc i) bs"
    using assms(2) by (simp add: Cons_nth_drop_Suc)
  ultimately have v: "utf8_valid (drop (Suc i) bs)"
    using assms(3) utf8_valid_step [of "drop i bs" 1] by simp
  show ?thesis
  proof (cases "Suc i < length bs")
    case True
    then have "drop (Suc i) bs = bs ! Suc i # drop (Suc (Suc i)) bs"
      by (simp add: Cons_nth_drop_Suc)
    with v obtain n where "scalar_width (bs ! Suc i # drop (Suc (Suc i)) bs) = Some n"
      using utf8_valid_obtain by (metis list.distinct(1))
    from scalar_width_head [OF this] True show ?thesis by (simp add: is_char_boundary_def)
  qed (use assms(2) in \<open>auto simp: is_char_boundary_def\<close>)
qed

text \<open>From any boundary before the end, the next boundary is at most four bytes away.\<close>

lemma next_boundary_within_four:
  assumes "utf8_valid bs" and "is_char_boundary bs i" and "i < length bs"
  obtains n where "1 \<le> n" "n \<le> 4" "is_char_boundary bs (i + n)" "i + n \<le> length bs"
    "\<And>k. 0 < k \<Longrightarrow> k < n \<Longrightarrow> \<not> is_char_boundary bs (i + k)"
proof -
  have v: "utf8_valid (drop i bs)" using utf8_valid_cut assms by blast
  moreover have "drop i bs \<noteq> []" using assms(3) by simp
  ultimately obtain n where n: "scalar_width (drop i bs) = Some n" "utf8_valid (drop n (drop i bs))"
      "1 \<le> n" "n \<le> 4" "n \<le> length (drop i bs)"
    using utf8_valid_obtain by blast
  have "is_char_boundary bs (i + n)"
  proof (cases "i + n < length bs")
    case True
    then have "drop n (drop i bs) = bs ! (i + n) # drop (Suc (i + n)) bs"
      by (simp add: Cons_nth_drop_Suc add.commute)
    with n(2) obtain m where "scalar_width (bs ! (i + n) # drop (Suc (i + n)) bs) = Some m"
      using utf8_valid_obtain by (metis list.distinct(1))
    from scalar_width_head [OF this] True show ?thesis by (simp add: is_char_boundary_def)
  next
    case False
    then show ?thesis using n(5) assms(3) by (auto simp: is_char_boundary_def)
  qed
  moreover have "\<not> is_char_boundary bs (i + k)" if "0 < k" "k < n" for k
    using scalar_width_tail [OF n(1) that] that n(5) assms(3) by (auto simp: is_char_boundary_def)
  ultimately show ?thesis using n assms(3) by (intro that [of n]) auto
qed

end
