(* ===== verification/Materializer.thy ===== *)
theory Materializer
  imports Utf8
begin

text \<open>
  The exact UTF-8 transform (crate \<open>search-materializer\<close>): limits, the binary-control
  refusal, the logical-line scan and \<open>materialize_utf8\<close>. The scan is related to a
  reference function on byte lists that cuts the text into logical lines.
\<close>

section \<open>Model: errors, limits and products\<close>

datatype MaterializationError =
  InvalidLimits | InputTooLarge | OutputTooLarge | BinaryContent | InvalidUtf8
| TooManyLines | AllocationFailed | OffsetOverflow | Cancelled | Deadline

fun mat_code :: "MaterializationError \<Rightarrow> string" where
  "mat_code InvalidLimits = ''MATERIALIZATION_INVALID_LIMITS''"
| "mat_code InputTooLarge = ''MATERIALIZATION_INPUT_TOO_LARGE''"
| "mat_code OutputTooLarge = ''MATERIALIZATION_OUTPUT_TOO_LARGE''"
| "mat_code BinaryContent = ''MATERIALIZATION_BINARY_CONTENT''"
| "mat_code InvalidUtf8 = ''MATERIALIZATION_INVALID_UTF8''"
| "mat_code TooManyLines = ''MATERIALIZATION_TOO_MANY_LINES''"
| "mat_code AllocationFailed = ''MATERIALIZATION_ALLOCATION_FAILED''"
| "mat_code OffsetOverflow = ''MATERIALIZATION_OFFSET_OVERFLOW''"
| "mat_code Cancelled = ''MATERIALIZATION_CANCELLED''"
| "mat_code Deadline = ''MATERIALIZATION_DEADLINE''"

record MaterializationLimits =
  ml_max_input_bytes :: nat
  ml_max_output_bytes :: nat
  ml_max_lines :: nat

record LineSpan =
  ls_index :: nat
  ls_start :: nat
  ls_end :: nat
  ls_content_end :: nat

record MaterializedText =
  mt_text :: bytes
  mt_lines :: "LineSpan list"

text \<open>A \<open>LineSpan\<close> is four \<open>u64\<close> fields.\<close>

definition size_of_LineSpan :: nat where
  "size_of_LineSpan = 32"

definition mul_fits_isize :: "nat \<Rightarrow> nat \<Rightarrow> nat option" where
  "mul_fits_isize n sz =
     Option.bind (checked_mul64 n sz) (\<lambda>b. if b \<le> isize_max then Some b else None)"

definition limits_validate :: "MaterializationLimits \<Rightarrow> MaterializationError + unit" where
  "limits_validate l =
     (if ml_max_input_bytes l = 0 \<or> ml_max_output_bytes l = 0 \<or> ml_max_lines l = 0
      then Inl InvalidLimits
      else bindE (ok_or OffsetOverflow (mul_fits_isize (ml_max_lines l) size_of_LineSpan))
             (\<lambda>_. Inr ()))"

section \<open>Model: scanning\<close>

definition mat_check :: "env \<Rightarrow> MaterializationError + env" where
  "mat_check = check_with Cancelled Deadline"

definition is_binary_control :: "byte \<Rightarrow> bool" where
  "is_binary_control b \<longleftrightarrow> b < 0x20 \<and> \<not> (b = 9 \<or> b = 10 \<or> b = 13 \<or> b = 0x0c)"

fun reject_chunk :: "nat \<Rightarrow> nat \<Rightarrow> bytes \<Rightarrow> MaterializationError + nat" where
  "reject_chunk threshold controls [] = Inr controls"
| "reject_chunk threshold controls (b # bs) =
     (if b = 0 then Inl BinaryContent
      else if is_binary_control b then
        (if threshold \<le> controls + 1 then Inl BinaryContent
         else reject_chunk threshold (controls + 1) bs)
      else reject_chunk threshold controls bs)"

fun reject_chunks :: "nat \<Rightarrow> nat \<Rightarrow> bytes list \<Rightarrow> env \<Rightarrow> MaterializationError + env" where
  "reject_chunks threshold controls [] env = Inr env"
| "reject_chunks threshold controls (c # cs) env =
     bindE (mat_check env) (\<lambda>env.
     bindE (reject_chunk threshold controls c) (\<lambda>controls.
       reject_chunks threshold controls cs env))"

definition control_threshold :: "bytes \<Rightarrow> nat" where
  "control_threshold bs = max ((length bs + 99) div 100) 4"

definition reject_binary_controls :: "bytes \<Rightarrow> env \<Rightarrow> MaterializationError + env" where
  "reject_binary_controls bs env = reject_chunks (control_threshold bs) 0 (chunks 1024 bs) env"

text \<open>The line inventory is a vector: its elements and its capacity.\<close>

definition push_line ::
  "LineSpan list \<times> nat \<Rightarrow> nat \<Rightarrow> nat \<Rightarrow> nat \<Rightarrow> nat \<Rightarrow> env \<Rightarrow>
   MaterializationError + (LineSpan list \<times> nat) \<times> env" where
  "push_line v start content_end end maximum env =
     (case v of (lines, capacity) \<Rightarrow>
      if maximum \<le> length lines then Inl TooManyLines
      else bindE (if length lines = capacity
          then bindE (reserve_with AllocationFailed env)
                 (\<lambda>env. Inr (capacity + min (max capacity 16) (maximum - length lines), env))
          else Inr (capacity, env)) (\<lambda>(capacity, env).
        bindE (ok_or OffsetOverflow (try_from u64_bound (length lines))) (\<lambda>index.
        bindE (ok_or OffsetOverflow (try_from u64_bound start)) (\<lambda>start.
        bindE (ok_or OffsetOverflow (try_from u64_bound end)) (\<lambda>end.
        bindE (ok_or OffsetOverflow (try_from u64_bound content_end)) (\<lambda>content_end.
          Inr ((lines @ [\<lparr>ls_index = index, ls_start = start, ls_end = end,
                  ls_content_end = content_end\<rparr>], capacity), env)))))))"

text \<open>Length of the line terminator at an index; 0 when the byte ends no line.\<close>

definition terminator :: "bytes \<Rightarrow> nat \<Rightarrow> nat" where
  "terminator bs index =
     (if bs ! index = 13 \<and> Suc index < length bs \<and> bs ! Suc index = 10 then 2
      else if bs ! index = 10 \<or> bs ! index = 13 then 1 else 0)"

function scan_loop ::
  "bytes \<Rightarrow> nat \<Rightarrow> LineSpan list \<times> nat \<Rightarrow> nat \<Rightarrow> nat \<Rightarrow> env \<Rightarrow>
   MaterializationError + ((LineSpan list \<times> nat) \<times> nat) \<times> env" where
  "scan_loop bs maximum v start index env =
     (if index < length bs then
        bindE (if index mod 1024 = 0 then mat_check env else Inr env) (\<lambda>env.
          if terminator bs index = 0 then scan_loop bs maximum v start (index + 1) env
          else bindE (ok_or OffsetOverflow (checked_add64 index (terminator bs index))) (\<lambda>end.
            bindE (push_line v start index end maximum env) (\<lambda>(v, env).
              scan_loop bs maximum v end end env)))
      else Inr ((v, start), env))"
  by pat_completeness auto
termination
  by (relation "measure (\<lambda>(bs, _, _, _, index, _). length bs - index)") (auto simp: res_simps)

declare scan_loop.simps [simp del]

definition scan_lines ::
  "bytes \<Rightarrow> MaterializationLimits \<Rightarrow> env \<Rightarrow> MaterializationError + LineSpan list \<times> env" where
  "scan_lines bs l env =
     bindE (scan_loop bs (ml_max_lines l) ([], 0) 0 0 env) (\<lambda>((v, start), env).
     bindE (if start < length bs
            then push_line v start (length bs) (length bs) (ml_max_lines l) env
            else Inr (v, env)) (\<lambda>(v, env).
     bindE (mat_check env) (\<lambda>env. Inr (fst v, env))))"

definition materialize_utf8 ::
  "bytes \<Rightarrow> MaterializationLimits \<Rightarrow> env \<Rightarrow> MaterializationError + MaterializedText \<times> env" where
  "materialize_utf8 bs l env =
     bindE (mat_check env) (\<lambda>env.
     bindE (limits_validate l) (\<lambda>_.
     if ml_max_input_bytes l < length bs then Inl InputTooLarge
     else if ml_max_output_bytes l < length bs then Inl OutputTooLarge
     else
       bindE (reject_binary_controls bs env) (\<lambda>env.
       bindE (if utf8_valid bs then Inr bs else Inl InvalidUtf8) (\<lambda>text.
       bindE (mat_check env) (\<lambda>env.
       bindE (scan_lines text l env) (\<lambda>(lines, env).
         Inr (\<lparr>mt_text = text, mt_lines = lines\<rparr>, env)))))))"

section \<open>Reference: logical lines of a text\<close>

definition ends_line :: "byte \<Rightarrow> bool" where
  "ends_line b \<longleftrightarrow> b = 10 \<or> b = 13"

definition line_content :: "bytes \<Rightarrow> nat" where
  "line_content bs = length (takeWhile (\<lambda>b. \<not> ends_line b) bs)"

text \<open>Length of the first logical line, its terminator included.\<close>

definition line_length :: "bytes \<Rightarrow> nat" where
  "line_length bs =
     (let c = line_content bs in if c < length bs then c + terminator bs c else c)"

lemma terminator_pos: "terminator bs i = 0 \<longleftrightarrow> \<not> ends_line (bs ! i)"
  by (auto simp: terminator_def ends_line_def)

lemma line_content_le: "line_content bs \<le> length bs"
  by (simp add: line_content_def length_takeWhile_le)

lemma terminator_bound: "i < length bs \<Longrightarrow> i + terminator bs i \<le> length bs"
  by (auto simp: terminator_def)

lemma line_content_ends: "line_content bs < length bs \<Longrightarrow> ends_line (bs ! line_content bs)"
  unfolding line_content_def using nth_length_takeWhile by blast

lemma line_length_bounds: "bs \<noteq> [] \<Longrightarrow> 0 < line_length bs \<and> line_length bs \<le> length bs"
  using line_content_le [of bs] line_content_ends [of bs] terminator_bound [of "line_content bs" bs]
  by (auto simp: line_length_def Let_def terminator_pos)

function split_lines :: "bytes \<Rightarrow> bytes list" where
  "split_lines bs =
     (if bs = [] then [] else take (line_length bs) bs # split_lines (drop (line_length bs) bs))"
  by pat_completeness auto
termination
  by (relation "measure length") (auto simp: line_length_bounds)

declare split_lines.simps [simp del]

fun line_spans :: "nat \<Rightarrow> nat \<Rightarrow> bytes list \<Rightarrow> LineSpan list" where
  "line_spans i off [] = []"
| "line_spans i off (l # ls) =
     \<lparr>ls_index = i, ls_start = off, ls_end = off + length l,
       ls_content_end = off + line_content l\<rparr> # line_spans (Suc i) (off + length l) ls"

definition text_lines :: "bytes \<Rightarrow> LineSpan list" where
  "text_lines bs = line_spans 0 0 (split_lines bs)"

section \<open>Interruption never changes a product\<close>

abbreviation mat_interrupts :: "MaterializationError set" where
  "mat_interrupts \<equiv> {Cancelled, Deadline, AllocationFailed}"

lemmas refines_rules = refines_intros refines_quiet_pure refines_quiet_bind

lemma mat_check_Nil [simp]: "mat_check [] = Inr []"
  by (simp add: mat_check_def)

lemma push_line_refines:
  "refines_quiet mat_interrupts (push_line v s c e m env) (push_line v s c e m [])"
  by (cases v; cases env)
    (auto simp: push_line_def refines_quiet_def bindE_def ok_or_def split: sum.splits option.splits)

lemma mat_check_refines:
  "(\<And>env. refines_quiet mat_interrupts (k env) (k [])) \<Longrightarrow>
   refines_quiet mat_interrupts (bindE (mat_check env) k) (k [])"
  using refines_quiet_check [of Cancelled mat_interrupts Deadline k env] by (simp add: mat_check_def)

lemma scan_loop_refines:
  "refines_quiet mat_interrupts (scan_loop bs m v start index env) (scan_loop bs m v start index [])"
proof (induction "length bs - index" arbitrary: v start index env rule: less_induct)
  case less
  let ?step = "\<lambda>env. if terminator bs index = 0 then scan_loop bs m v start (index + 1) env
      else bindE (ok_or OffsetOverflow (checked_add64 index (terminator bs index))) (\<lambda>end.
        bindE (push_line v start index end m env) (\<lambda>(v, env). scan_loop bs m v end end env))"
  show ?case
  proof (cases "index < length bs")
    case True
    have step: "refines_quiet mat_interrupts (?step env) (?step [])" for env
    proof (intro refines_quiet_if refines_quiet_pure refines_quiet_bind push_line_refines)
      show "refines_quiet mat_interrupts (scan_loop bs m v start (index + 1) env)
          (scan_loop bs m v start (index + 1) [])"
        using True by (intro less.hyps) simp
    next
      fix end' w env'
      assume "ok_or OffsetOverflow (checked_add64 index (terminator bs index)) = Inr end'"
        and "terminator bs index \<noteq> 0"
      then show "refines_quiet mat_interrupts
          (case (w, env') of (v, env) \<Rightarrow> scan_loop bs m v end' end' env)
          (case (w, []) of (v, env) \<Rightarrow> scan_loop bs m v end' end' env)"
        using True less.hyps [of end' w end' env'] by (simp add: res_simps)
    qed
    show ?thesis
      using True step mat_check_refines [of ?step env, OF step]
      by (cases "index mod 1024 = 0")
        (simp_all add: scan_loop.simps [of bs m v start index env] scan_loop.simps [of bs m v start index "[]"])
  next
    case False
    then show ?thesis
      by (simp add: scan_loop.simps [of bs m v start index env] scan_loop.simps [of bs m v start index "[]"]
          refines_quiet_ret)
  qed
qed

lemma mat_check_ret_refines:
  "refines_quiet mat_interrupts (bindE (mat_check env) (\<lambda>env. Inr (x, env))) (Inr (x, []))"
  by (rule mat_check_refines) (rule refines_quiet_ret)

lemma scan_lines_refines:
  "refines_quiet mat_interrupts (scan_lines bs l env) (scan_lines bs l [])"
  unfolding scan_lines_def
  by (rule refines_quiet_bind [OF scan_loop_refines], clarsimp split: prod.splits)
    (intro conjI impI allI refines_quiet_bind [OF push_line_refines]
      refines_quiet_bind [OF refines_quiet_ret];
     simp add: mat_check_ret_refines split: prod.splits)

lemma reject_chunks_refines:
  "(\<And>env. refines_quiet mat_interrupts (k env) (k [])) \<Longrightarrow>
   refines_quiet mat_interrupts (bindE (reject_chunks t c cs env) k) (bindE (reject_chunks t c cs []) k)"
proof (induction cs arbitrary: c env)
  case (Cons x xs)
  let ?k = "\<lambda>env. bindE (bindE (reject_chunk t c x) (\<lambda>c. reject_chunks t c xs env)) k"
  have "refines_quiet mat_interrupts (bindE (mat_check env) ?k) (?k [])"
    by (rule mat_check_refines)
      (simp add: bindE_assoc, rule refines_quiet_pure, rule Cons.IH, rule Cons.prems)
  then show ?case by (simp add: bindE_assoc)
qed simp

lemma materialize_utf8_refines:
  "refines_quiet mat_interrupts (materialize_utf8 bs l env) (materialize_utf8 bs l [])"
proof -
  have tail: "refines_quiet mat_interrupts
      (bindE (mat_check env) (\<lambda>env. bindE (scan_lines t l env)
         (\<lambda>(lines, env). Inr (\<lparr>mt_text = t, mt_lines = lines\<rparr>, env))))
      (bindE (scan_lines t l []) (\<lambda>(lines, env). Inr (\<lparr>mt_text = t, mt_lines = lines\<rparr>, env)))"
    for t env
    by (rule mat_check_refines, rule refines_quiet_bind [OF scan_lines_refines])
      (simp add: refines_quiet_ret)
  show ?thesis
    unfolding materialize_utf8_def mat_check_Nil bindE_simps(2)
    by (rule mat_check_refines)
      (intro refines_quiet_pure refines_quiet_if refines_quiet_fail reject_chunks_refines
        | simp add: reject_binary_controls_def tail reject_chunks_refines refines_quiet_pure)+
qed

section \<open>The scan computes the logical lines\<close>

lemma line_content_at:
  assumes "start \<le> index" and "index < length bs" and "ends_line (bs ! index)"
    and "\<And>i. start \<le> i \<Longrightarrow> i < index \<Longrightarrow> \<not> ends_line (bs ! i)"
  shows "line_content (drop start bs) = index - start"
proof -
  have "takeWhile (\<lambda>b. \<not> ends_line b) (drop start bs) = take (index - start) (drop start bs)"
    by (rule takeWhile_eq_take_P_nth) (use assms in auto)
  then show ?thesis using assms(1,2) by (simp add: line_content_def)
qed

lemma line_content_all:
  assumes "\<And>i. start \<le> i \<Longrightarrow> i < length bs \<Longrightarrow> \<not> ends_line (bs ! i)" and "start \<le> length bs"
  shows "line_content (drop start bs) = length bs - start"
proof -
  have "takeWhile (\<lambda>b. \<not> ends_line b) (drop start bs) = drop start bs"
    using assms by (auto simp: takeWhile_eq_all_conv in_set_conv_nth)
  then show ?thesis by (metis line_content_def length_drop)
qed

lemma terminator_drop:
  "start \<le> index \<Longrightarrow> index < length bs \<Longrightarrow>
   terminator (drop start bs) (index - start) = terminator bs index"
  by (simp add: terminator_def Suc_diff_le [symmetric]) (auto simp: less_diff_conv2)

lemma split_lines_at:
  assumes "start \<le> index" and "index < length bs" and "ends_line (bs ! index)"
    and "\<And>i. start \<le> i \<Longrightarrow> i < index \<Longrightarrow> \<not> ends_line (bs ! i)"
  defines "len \<equiv> index - start + terminator bs index"
  shows "split_lines (drop start bs) = take len (drop start bs) # split_lines (drop (start + len) bs)"
    and "line_length (drop start bs) = len"
proof -
  show "line_length (drop start bs) = len"
    using assms line_content_at [OF assms(1-4)] terminator_drop [OF assms(1,2)]
    by (auto simp: line_length_def Let_def)
  then show "split_lines (drop start bs) =
      take len (drop start bs) # split_lines (drop (start + len) bs)"
    using assms(1,2) by (subst split_lines.simps) (simp add: add.commute)
qed

lemma line_content_take_line:
  assumes "bs \<noteq> []"
  shows "line_content (take (line_length bs) bs) = line_content bs"
proof (cases "line_content bs < length bs")
  case True
  then have c: "line_length bs = line_content bs + terminator bs (line_content bs)"
      "terminator bs (line_content bs) \<noteq> 0"
    using line_content_ends [OF True] by (auto simp: line_length_def Let_def terminator_pos)
  have "takeWhile (\<lambda>b. \<not> ends_line b) (take (line_length bs) bs) =
      take (line_content bs) (take (line_length bs) bs)"
  proof (rule takeWhile_eq_take_P_nth)
    fix i assume "i < line_content bs" "i < length (take (line_length bs) bs)"
    then have "i < length (takeWhile (\<lambda>b. \<not> ends_line b) bs)" by (simp add: line_content_def)
    then have "\<not> ends_line (bs ! i)" using nth_mem set_takeWhileD takeWhile_nth by metis
    with \<open>i < length (take (line_length bs) bs)\<close> show "\<not> ends_line (take (line_length bs) bs ! i)"
      by simp
  next
    assume "line_content bs < length (take (line_length bs) bs)"
    then show "\<not> \<not> ends_line (take (line_length bs) bs ! line_content bs)"
      using line_content_ends [OF True] by simp
  qed
  then show ?thesis using True c by (simp add: line_content_def)
next
  case False
  then show ?thesis using line_content_le [of bs] by (simp add: line_length_def Let_def)
qed

lemma push_line_quiet:
  assumes "s \<le> c" and "c \<le> e" and "e < u64_bound" and "m < u64_bound"
  shows "\<exists>cap'. push_line (lines, cap) s c e m [] =
    (if m \<le> length lines then Inl TooManyLines
     else Inr ((lines @ [\<lparr>ls_index = length lines, ls_start = s, ls_end = e, ls_content_end = c\<rparr>], cap'), []))"
  using assms by (simp add: push_line_def try_from_def)

text \<open>The loop followed by the line that the end of the text closes.\<close>

definition scan_all ::
  "bytes \<Rightarrow> nat \<Rightarrow> LineSpan list \<times> nat \<Rightarrow> nat \<Rightarrow> nat \<Rightarrow>
   MaterializationError + (LineSpan list \<times> nat) \<times> env" where
  "scan_all bs m v start index =
     bindE (scan_loop bs m v start index []) (\<lambda>((v, start), env).
       if start < length bs then push_line v start (length bs) (length bs) m env else Inr (v, env))"

lemma split_lines_last:
  assumes "start < length bs" and "\<And>i. start \<le> i \<Longrightarrow> i < length bs \<Longrightarrow> \<not> ends_line (bs ! i)"
  shows "split_lines (drop start bs) = [drop start bs]"
    and "line_content (drop start bs) = length bs - start"
proof -
  show c: "line_content (drop start bs) = length bs - start"
    using line_content_all assms by simp
  then have "line_length (drop start bs) = length bs - start"
    by (simp add: line_length_def Let_def)
  then show "split_lines (drop start bs) = [drop start bs]"
    using assms(1) by (subst split_lines.simps) (simp add: split_lines.simps)
qed

lemma scan_all_quiet:
  assumes "length bs < u64_bound" "m < u64_bound" "length lines \<le> m"
    and "start \<le> index" "index \<le> length bs"
    and "\<And>i. start \<le> i \<Longrightarrow> i < index \<Longrightarrow> \<not> ends_line (bs ! i)"
  shows "\<exists>cap'. scan_all bs m (lines, cap) start index =
    (if length lines + length (split_lines (drop start bs)) \<le> m
     then Inr ((lines @ line_spans (length lines) start (split_lines (drop start bs)), cap'), [])
     else Inl TooManyLines)"
  using assms(3-)
proof (induction "length bs - index" arbitrary: lines cap start index rule: less_induct)
  case less
  note unfold_loop = scan_all_def scan_loop.simps [of bs m "(lines, cap)" start index "[]"]
  consider (stop) "index = length bs" | (skip) "index < length bs" "terminator bs index = 0"
    | (cut) "index < length bs" "terminator bs index \<noteq> 0"
    using less.prems by fastforce
  then show ?case
  proof cases
    case stop
    show ?thesis
    proof (cases "start < length bs")
      case True
      note last = split_lines_last [OF True]
      obtain cap' where "push_line (lines, cap) start (length bs) (length bs) m [] =
          (if m \<le> length lines then Inl TooManyLines
           else Inr ((lines @ [\<lparr>ls_index = length lines, ls_start = start, ls_end = length bs,
             ls_content_end = length bs\<rparr>], cap'), []))"
        using push_line_quiet [of start "length bs" "length bs" m lines cap] True assms by auto
      then show ?thesis
        using True stop last less.prems(4) by (auto simp: scan_all_def scan_loop.simps [of bs])
    next
      case False
      then show ?thesis using stop less.prems by (simp add: unfold_loop split_lines.simps)
    qed
  next
    case skip
    have "\<not> ends_line (bs ! i)" if "start \<le> i" "i < Suc index" for i
      using that skip less.prems(4) by (auto simp: less_Suc_eq terminator_pos)
    then show ?thesis
      using less.hyps [of "Suc index" lines start cap] skip less.prems by (simp add: unfold_loop)
  next
    case cut
    let ?e = "index + terminator bs index"
    have ends: "ends_line (bs ! index)" using cut by (simp add: terminator_pos)
    have e_le: "?e \<le> length bs" using terminator_bound [OF cut(1)] .
    note here = split_lines_at [OF less.prems(2) cut(1) ends less.prems(4)]
    have e_eq: "start + (index - start + terminator bs index) = ?e" using less.prems(2) by simp
    let ?span = "\<lparr>ls_index = length lines, ls_start = start, ls_end = ?e, ls_content_end = index\<rparr>"
    have content: "line_content (take (index - start + terminator bs index) (drop start bs)) = index - start"
      using line_content_take_line [of "drop start bs"] here(2) cut(1) less.prems
        line_content_at [OF less.prems(2) cut(1) ends less.prems(4)] by simp
    have spans: "line_spans (length lines) start (split_lines (drop start bs)) =
        ?span # line_spans (Suc (length lines)) ?e (split_lines (drop ?e bs))"
      using here(1) content e_eq e_le less.prems by simp
    have count: "length (split_lines (drop start bs)) = Suc (length (split_lines (drop ?e bs)))"
      using here(1) e_eq by simp
    have loop: "scan_all bs m (lines, cap) start index =
        bindE (push_line (lines, cap) start index ?e m []) (\<lambda>(v, env). bindE (scan_loop bs m v ?e ?e env)
          (\<lambda>((v, start), env). if start < length bs
             then push_line v start (length bs) (length bs) m env else Inr (v, env)))"
      using cut e_le assms(1) by (simp add: unfold_loop checked_add64_def bindE_assoc split_def)
    obtain cap1 where push: "push_line (lines, cap) start index ?e m [] =
        (if m \<le> length lines then Inl TooManyLines else Inr ((lines @ [?span], cap1), []))"
      using push_line_quiet [of start index ?e m lines cap] less.prems e_le assms by auto
    show ?thesis
    proof (cases "m \<le> length lines")
      case True
      then show ?thesis using push count unfolding loop by simp
    next
      case False
      have "\<exists>cap'. scan_all bs m (lines @ [?span], cap1) ?e ?e =
        (if length (lines @ [?span]) + length (split_lines (drop ?e bs)) \<le> m
         then Inr (((lines @ [?span]) @ line_spans (length (lines @ [?span])) ?e (split_lines (drop ?e bs)), cap'), [])
         else Inl TooManyLines)"
        using False cut e_le by (intro less.hyps) auto
      moreover have "scan_all bs m (lines, cap) start index = scan_all bs m (lines @ [?span], cap1) ?e ?e"
        using push False unfolding loop by (simp add: scan_all_def)
      ultimately show ?thesis using spans count by auto
    qed
  qed
qed

lemma scan_lines_quiet:
  assumes "length bs < u64_bound" and "ml_max_lines l < u64_bound"
  shows "scan_lines bs l [] =
    (if length (split_lines bs) \<le> ml_max_lines l then Inr (text_lines bs, []) else Inl TooManyLines)"
proof -
  have "\<exists>cap'. scan_all bs (ml_max_lines l) ([], 0) 0 0 =
      (if length (split_lines bs) \<le> ml_max_lines l
       then Inr ((line_spans 0 0 (split_lines bs), cap'), []) else Inl TooManyLines)"
    using scan_all_quiet [of bs "ml_max_lines l" "[]" 0 0 0] assms
    by (cases "length (split_lines bs) \<le> ml_max_lines l") simp_all
  then obtain cap' where "scan_all bs (ml_max_lines l) ([], 0) 0 0 =
      (if length (split_lines bs) \<le> ml_max_lines l
       then Inr ((line_spans 0 0 (split_lines bs), cap'), []) else Inl TooManyLines)" ..
  moreover have "scan_lines bs l [] = bindE (scan_all bs (ml_max_lines l) ([], 0) 0 0)
      (\<lambda>(v, env). bindE (mat_check env) (\<lambda>env. Inr (fst v, env)))"
    by (simp add: scan_lines_def scan_all_def bindE_assoc split_def)
  ultimately show ?thesis by (simp add: text_lines_def)
qed

section \<open>The binary-control refusal counts controls\<close>

definition is_binary :: "bytes \<Rightarrow> bool" where
  "is_binary bs \<longleftrightarrow>
     0 \<in> set bs \<or> control_threshold bs \<le> length (filter is_binary_control bs)"

lemma reject_chunk_append:
  "reject_chunk t c (xs @ ys) = bindE (reject_chunk t c xs) (\<lambda>c. reject_chunk t c ys)"
  by (induction xs arbitrary: c) auto

lemma reject_chunks_quiet:
  "reject_chunks t c cs [] = bindE (reject_chunk t c (concat cs)) (\<lambda>_. Inr [])"
  by (induction cs arbitrary: c) (auto simp: reject_chunk_append bindE_assoc)

lemma reject_chunk_result:
  "c < t \<Longrightarrow> reject_chunk t c bs =
     (if 0 \<in> set bs \<or> t \<le> c + length (filter is_binary_control bs) then Inl BinaryContent
      else Inr (c + length (filter is_binary_control bs)))"
  by (induction bs arbitrary: c) auto

lemma reject_binary_controls_quiet:
  "reject_binary_controls bs [] = (if is_binary bs then Inl BinaryContent else Inr [])"
  by (simp add: reject_binary_controls_def reject_chunks_quiet reject_chunk_result is_binary_def
      control_threshold_def)

section \<open>The line inventory partitions the text\<close>

lemma split_lines_Nil [simp]: "split_lines [] = []"
  by (simp add: split_lines.simps)

lemma concat_split_lines [simp]: "concat (split_lines bs) = bs"
proof (induction bs rule: split_lines.induct)
  case (1 bs)
  then show ?case by (cases "bs = []") (simp_all add: split_lines.simps [of bs])
qed

lemma split_lines_Nil_iff [simp]: "split_lines bs = [] \<longleftrightarrow> bs = []"
  by (cases "bs = []") (simp_all add: split_lines.simps [of bs])

lemma split_lines_nonempty: "l \<in> set (split_lines bs) \<Longrightarrow> l \<noteq> []"
proof (induction bs rule: split_lines.induct)
  case (1 bs)
  show ?case
  proof (cases "bs = []")
    case False
    then show ?thesis
      using 1 line_length_bounds [of bs] by (auto simp: split_lines.simps [of bs])
  qed (use 1 in simp)
qed

lemma length_line_spans [simp]: "length (line_spans i off ls) = length ls"
  by (induction ls arbitrary: i off) auto

lemma line_spans_nth:
  "k < length ls \<Longrightarrow> line_spans i off ls ! k =
     \<lparr>ls_index = i + k, ls_start = off + length (concat (take k ls)),
      ls_end = off + length (concat (take (Suc k) ls)),
      ls_content_end = off + length (concat (take k ls)) + line_content (ls ! k)\<rparr>"
proof (induction ls arbitrary: i off k)
  case (Cons l ls)
  then show ?case by (cases k) auto
qed simp

abbreviation line_cut :: "bytes \<Rightarrow> nat \<Rightarrow> nat" where
  "line_cut bs k \<equiv> length (concat (take k (split_lines bs)))"

lemma line_cut_0: "line_cut bs 0 = 0"
  by simp

lemma line_cut_all: "line_cut bs (length (split_lines bs)) = length bs"
  by simp

lemma line_cut_Suc:
  "k < length (split_lines bs) \<Longrightarrow> line_cut bs (Suc k) = line_cut bs k + length (split_lines bs ! k)"
  by (simp add: take_Suc_conv_app_nth)

lemma line_cut_less:
  "k < length (split_lines bs) \<Longrightarrow> line_cut bs k < line_cut bs (Suc k)"
  using line_cut_Suc split_lines_nonempty [of "split_lines bs ! k" bs] by simp

lemma line_cut_mono: "j \<le> k \<Longrightarrow> line_cut bs j \<le> line_cut bs k"
  by (metis le_iff_add length_append sum_list.append take_add concat_append le_add1)

lemma line_cut_le: "line_cut bs k \<le> length bs"
  by (metis append_take_drop_id concat_append concat_split_lines le_add1 length_append)

lemma length_text_lines [simp]: "length (text_lines bs) = length (split_lines bs)"
  by (simp add: text_lines_def)

lemma text_lines_nth:
  "k < length (split_lines bs) \<Longrightarrow> text_lines bs ! k =
     \<lparr>ls_index = k, ls_start = line_cut bs k, ls_end = line_cut bs (Suc k),
      ls_content_end = line_cut bs k + line_content (split_lines bs ! k)\<rparr>"
  by (simp add: text_lines_def line_spans_nth)

lemma drop_line_cut:
  "drop (line_cut bs k) bs = concat (drop k (split_lines bs))"
  by (metis append_eq_conv_conj append_take_drop_id concat_append concat_split_lines)

lemma split_lines_concat_drop: "split_lines (concat (drop k (split_lines bs))) = drop k (split_lines bs)"
proof (induction bs arbitrary: k rule: split_lines.induct)
  case (1 bs)
  show ?case
  proof (cases "bs = []")
    case False
    note s = split_lines.simps [of bs]
    show ?thesis
    proof (cases k)
      case 0
      then show ?thesis by simp
    next
      case (Suc j)
      then have "drop k (split_lines bs) = drop j (split_lines (drop (line_length bs) bs))"
        using False s by simp
      then show ?thesis using "1.IH" False by simp
    qed
  qed simp
qed

text \<open>A line that is not the last one ends with a line feed or a carriage return.\<close>

lemma line_length_terminated:
  assumes "line_length bs < length bs"
  shows "ends_line (bs ! (line_length bs - 1)) \<and> 0 < line_length bs"
proof -
  have c: "line_content bs < length bs"
    using assms by (auto simp: line_length_def Let_def split: if_splits)
  then have e: "ends_line (bs ! line_content bs)" by (rule line_content_ends)
  then show ?thesis using c
    by (auto simp: line_length_def Let_def terminator_def ends_line_def split: if_splits)
qed

lemma line_cut_boundary:
  assumes "utf8_valid bs" and "k \<le> length (split_lines bs)"
  shows "is_char_boundary bs (line_cut bs k)"
proof (cases "k = 0 \<or> k = length (split_lines bs)")
  case True
  then show ?thesis by (auto simp: is_char_boundary_def)
next
  case False
  then obtain j where j: "k = Suc j" and jl: "j < length (split_lines bs)" "k < length (split_lines bs)"
    using assms(2) by (cases k) auto
  obtain r0 where r0: "r0 = concat (drop j (split_lines bs))" by blast
  let ?r = r0
  have r: "?r = drop (line_cut bs j) bs" by (simp add: r0 drop_line_cut)
  have sl: "split_lines ?r = split_lines bs ! j # drop k (split_lines bs)"
    using split_lines_concat_drop [of j bs] jl j r0 by (simp add: Cons_nth_drop_Suc)
  then have ne: "?r \<noteq> []" by auto
  have ll: "split_lines bs ! j = take (line_length ?r) ?r"
      "split_lines (drop (line_length ?r) ?r) \<noteq> []"
    using split_lines.simps [of ?r] ne sl jl drop_eq_Nil [of k "split_lines bs"]
    by (simp_all del: split_lines_Nil_iff drop_eq_Nil, linarith?)
  then have less: "line_length ?r < length ?r" by auto
  have len: "length (split_lines bs ! j) = line_length ?r" using ll(1) less by simp
  have cut: "line_cut bs k = line_cut bs j + line_length ?r"
    using line_cut_Suc [OF jl(1)] len j by simp
  obtain m where m: "line_length ?r = Suc m"
    using line_length_terminated [OF less] by (cases "line_length ?r") auto
  let ?i = "line_cut bs j + m"
  have i: "?i < length bs" "Suc ?i = line_cut bs k"
    using less cut m r by auto
  have "ends_line (?r ! m)" using line_length_terminated [OF less] m by simp
  then have "ends_line (bs ! ?i)" using r i(1) by simp
  then have "bs ! ?i < 0x80" by (auto simp: ends_line_def)
  from boundary_after_ascii [OF assms(1) i(1) this] show ?thesis by (simp add: i(2))
qed

section \<open>The transform\<close>

definition materialized :: "bytes \<Rightarrow> MaterializedText" where
  "materialized bs = \<lparr>mt_text = bs, mt_lines = text_lines bs\<rparr>"

lemma limits_validate_bound:
  "limits_validate l = Inr u \<Longrightarrow> ml_max_lines l < u64_bound \<and> 0 < ml_max_lines l"
  by (auto simp: limits_validate_def mul_fits_isize_def size_of_LineSpan_def res_simps
      bind_eq_Some_conv split: if_splits)

lemma materialize_utf8_quiet:
  assumes "length bs < u64_bound" and "limits_validate l = Inr ()"
  shows "materialize_utf8 bs l [] =
    (if ml_max_input_bytes l < length bs then Inl InputTooLarge
     else if ml_max_output_bytes l < length bs then Inl OutputTooLarge
     else if is_binary bs then Inl BinaryContent
     else if \<not> utf8_valid bs then Inl InvalidUtf8
     else if ml_max_lines l < length (split_lines bs) then Inl TooManyLines
     else Inr (materialized bs, []))"
  using assms limits_validate_bound [OF assms(2)]
  by (simp add: materialize_utf8_def reject_binary_controls_quiet scan_lines_quiet materialized_def)

lemma materialize_utf8_Inr:
  assumes "materialize_utf8 bs l env = Inr (p, env')" and "length bs < u64_bound"
  shows "p = materialized bs \<and> utf8_valid bs \<and> \<not> is_binary bs \<and>
    length bs \<le> ml_max_input_bytes l \<and> length bs \<le> ml_max_output_bytes l \<and>
    length (split_lines bs) \<le> ml_max_lines l \<and> materialize_utf8 bs l [] = Inr (p, [])"
proof -
  have q: "materialize_utf8 bs l [] = Inr (p, [])"
    using materialize_utf8_refines [of bs l env] assms(1) refines_quiet_Inr by metis
  then have "limits_validate l = Inr ()"
    by (auto simp: materialize_utf8_def res_simps)
  from materialize_utf8_quiet [OF assms(2) this] q show ?thesis
    by (auto split: if_splits)
qed

section \<open>Properties of the transform\<close>

text \<open>The bytes of a line, of its content and of its terminator.\<close>

definition line_bytes :: "bytes \<Rightarrow> LineSpan \<Rightarrow> bytes" where
  "line_bytes bs l = take (ls_end l - ls_start l) (drop (ls_start l) bs)"

definition content_bytes :: "bytes \<Rightarrow> LineSpan \<Rightarrow> bytes" where
  "content_bytes bs l = take (ls_content_end l - ls_start l) (drop (ls_start l) bs)"

definition terminator_bytes :: "bytes \<Rightarrow> LineSpan \<Rightarrow> bytes" where
  "terminator_bytes bs l = take (ls_end l - ls_content_end l) (drop (ls_content_end l) bs)"

lemma line_bytes_nth:
  assumes "k < length (split_lines bs)"
  shows "line_bytes bs (text_lines bs ! k) = split_lines bs ! k"
proof -
  have "drop (line_cut bs k) bs = split_lines bs ! k @ concat (drop (Suc k) (split_lines bs))"
    using drop_line_cut [of k bs] assms by (metis Cons_nth_drop_Suc concat.simps(2))
  then show ?thesis using assms line_cut_Suc [OF assms] by (simp add: line_bytes_def text_lines_nth)
qed

lemma split_line_shape:
  assumes "k < length (split_lines bs)"
  shows "\<exists>r. r = drop (line_cut bs k) bs \<and> r \<noteq> [] \<and> split_lines bs ! k = take (line_length r) r"
proof -
  obtain r where r: "r = drop (line_cut bs k) bs" by blast
  have s: "split_lines r = split_lines bs ! k # drop (Suc k) (split_lines bs)"
    using split_lines_concat_drop [of k bs] assms r by (simp add: drop_line_cut Cons_nth_drop_Suc)
  then have ne: "r \<noteq> []" by auto
  then show ?thesis using s split_lines.simps [of r] r by auto
qed

lemma line_parts:
  assumes "k < length (split_lines bs)"
  defines "l \<equiv> text_lines bs ! k"
  shows "line_bytes bs l = content_bytes bs l @ terminator_bytes bs l"
    and "\<forall>b \<in> set (content_bytes bs l). b \<noteq> 10 \<and> b \<noteq> 13"
    and "terminator_bytes bs l \<in> {[10], [13], [13, 10]} \<or>
      terminator_bytes bs l = [] \<and> Suc k = length (split_lines bs)"
proof -
  obtain r where r: "r = drop (line_cut bs k) bs" "r \<noteq> []" "split_lines bs ! k = take (line_length r) r"
    using split_line_shape [OF assms(1)] by blast
  let ?c = "line_content r" and ?n = "line_length r"
  have c: "line_content (split_lines bs ! k) = ?c" using r line_content_take_line by simp
  have n: "?c \<le> ?n" "?n \<le> length r"
    using line_length_bounds [OF r(2)] line_content_le [of r] by (auto simp: line_length_def Let_def)
  have cut: "line_cut bs (Suc k) = line_cut bs k + ?n" using line_cut_Suc [OF assms(1)] r(3) n by simp
  have cb: "content_bytes bs l = take ?c r"
    using assms(1) c r(1) by (simp add: content_bytes_def l_def text_lines_nth)
  have tb: "terminator_bytes bs l = take (?n - ?c) (drop ?c r)"
    using assms(1) c cut r(1) by (simp add: terminator_bytes_def l_def text_lines_nth add.commute)
  have "line_bytes bs l = take ?n r" using line_bytes_nth [OF assms(1)] r(3) by (simp add: l_def)
  moreover have "take ?n r = take ?c r @ take (?n - ?c) (drop ?c r)"
    using n(1) take_add [of ?c "?n - ?c" r] by simp
  ultimately show "line_bytes bs l = content_bytes bs l @ terminator_bytes bs l" using cb tb by simp
  have "take ?c r = takeWhile (\<lambda>b. \<not> ends_line b) r"
    by (metis line_content_def takeWhile_eq_take)
  then show "\<forall>b \<in> set (content_bytes bs l). b \<noteq> 10 \<and> b \<noteq> 13"
    using cb by (auto simp: ends_line_def dest!: set_takeWhileD)
  show "terminator_bytes bs l \<in> {[10], [13], [13, 10]} \<or>
      terminator_bytes bs l = [] \<and> Suc k = length (split_lines bs)"
  proof (cases "?c < length r")
    case True
    note e = line_content_ends [OF True]
    have "drop ?c r = r ! ?c # drop (Suc ?c) r" using True by (simp add: Cons_nth_drop_Suc)
    moreover have "Suc ?c < length r \<Longrightarrow> drop (Suc ?c) r = r ! Suc ?c # drop (Suc (Suc ?c)) r"
      by (simp add: Cons_nth_drop_Suc)
    moreover have "?n - ?c = terminator r ?c" using True by (simp add: line_length_def Let_def)
    ultimately show ?thesis using tb e
      by (auto simp: terminator_def ends_line_def numeral_2_eq_2)
  next
    case False
    then have "?n = length r" "?c = length r"
      using line_content_le [of r] by (auto simp: line_length_def Let_def)
    moreover have "\<not> Suc k < length (split_lines bs)"
    proof
      assume "Suc k < length (split_lines bs)"
      from line_cut_less [OF this] show False
        using cut r(1) \<open>?n = length r\<close> line_cut_le [where bs = bs and k = "Suc (Suc k)"] by auto
    qed
    ultimately show ?thesis using tb assms(1) by auto
  qed
qed

text \<open>
  What the answers of the environment can cause: an interruption error needs an answer of its
  own kind among those the run was given, and a run leaves no answer that was not given to it.
\<close>

definition mat_cause :: "env \<Rightarrow> MaterializationError \<Rightarrow> bool" where
  "mat_cause env e \<longleftrightarrow>
     (case e of
        Cancelled \<Rightarrow> \<exists>ob \<in> set env. obs_cancelled ob
      | Deadline \<Rightarrow> \<exists>ob \<in> set env. obs_expired ob
      | AllocationFailed \<Rightarrow> \<exists>ob \<in> set env. obs_oom ob
      | _ \<Rightarrow> True)"

definition mat_caused :: "(env \<Rightarrow> MaterializationError + 'a) \<Rightarrow> ('a \<Rightarrow> env) \<Rightarrow> bool" where
  "mat_caused f left \<longleftrightarrow>
     (\<forall>env. case f env of Inl e \<Rightarrow> mat_cause env e | Inr x \<Rightarrow> set (left x) \<subseteq> set env)"

named_theorems caused_intros \<open>composition of operations whose errors have a cause\<close>

lemma mat_cause_mono: "mat_cause env' e \<Longrightarrow> set env' \<subseteq> set env \<Longrightarrow> mat_cause env e"
  by (auto simp: mat_cause_def split: MaterializationError.splits)

lemma mat_causedD:
  "mat_caused f left \<Longrightarrow> f env = Inl e \<Longrightarrow> mat_cause env e"
  "mat_caused f left \<Longrightarrow> f env = Inr x \<Longrightarrow> set (left x) \<subseteq> set env"
  unfolding mat_caused_def by (drule spec [of _ env], simp)+

lemma mat_causedI:
  "(\<And>env e. f env = Inl e \<Longrightarrow> mat_cause env e) \<Longrightarrow> (\<And>env x. f env = Inr x \<Longrightarrow> set (left x) \<subseteq> set env) \<Longrightarrow>
   mat_caused f left"
  by (simp add: mat_caused_def split: sum.splits)

lemma caused_bind [caused_intros]:
  assumes f: "mat_caused f snd" and k: "\<And>x. mat_caused (\<lambda>env. k (x, env)) left"
  shows "mat_caused (\<lambda>env. bindE (f env) k) left"
proof (rule mat_causedI)
  fix env e assume "bindE (f env) k = Inl e"
  then show "mat_cause env e"
    using mat_causedD [OF f] mat_causedD(1) [OF k] mat_cause_mono by (fastforce simp: res_simps)
next
  fix env x assume "bindE (f env) k = Inr x"
  then obtain y env' where y: "f env = Inr (y, env')" "k (y, env') = Inr x" by (auto simp: res_simps)
  then show "set (left x) \<subseteq> set env"
    using mat_causedD(2) [OF f y(1)] mat_causedD(2) [OF k y(2)] by simp
qed

lemma caused_poll [caused_intros]:
  assumes f: "mat_caused f id" and k: "mat_caused k left"
  shows "mat_caused (\<lambda>env. bindE (f env) k) left"
proof -
  have "mat_caused (\<lambda>env. bindE (bindE (f env) (\<lambda>env. Inr ((), env))) (\<lambda>(x, env). k env)) left"
  proof (rule caused_bind)
    show "mat_caused (\<lambda>env. bindE (f env) (\<lambda>env. Inr ((), env))) snd"
      using mat_causedD [OF f] by (fastforce intro!: mat_causedI simp: res_simps)
  qed (use k in simp)
  then show ?thesis by (simp add: bindE_assoc)
qed

lemma caused_pure [caused_intros]:
  "(\<And>e. r = Inl e \<Longrightarrow> e \<notin> mat_interrupts) \<Longrightarrow> (\<And>x. r = Inr x \<Longrightarrow> mat_caused (k x) left) \<Longrightarrow>
   mat_caused (\<lambda>env. bindE r (\<lambda>x. k x env)) left"
  by (cases r) (auto simp: mat_caused_def mat_cause_def split: MaterializationError.splits)

lemma caused_if [caused_intros]:
  "(b \<Longrightarrow> mat_caused f left) \<Longrightarrow> (\<not> b \<Longrightarrow> mat_caused g left) \<Longrightarrow>
   mat_caused (\<lambda>env. if b then f env else g env) left"
  by (cases b) simp_all

lemma caused_ret [caused_intros]: "mat_caused (\<lambda>env. Inr (x, env)) snd"
  by (simp add: mat_caused_def)

lemma caused_fail [caused_intros]: "e \<notin> mat_interrupts \<Longrightarrow> mat_caused (\<lambda>env. Inl e) left"
  by (auto simp: mat_caused_def mat_cause_def split: MaterializationError.splits)

lemma caused_check [caused_intros]: "mat_caused mat_check id"
  unfolding mat_caused_def mat_check_def
proof
  fix env show "case check_with Cancelled Deadline env of Inl e \<Rightarrow> mat_cause env e | Inr x \<Rightarrow> set (id x) \<subseteq> set env"
    by (cases env) (auto simp: mat_cause_def)
qed

lemma caused_reserve [caused_intros]: "mat_caused (reserve_with AllocationFailed) id"
  unfolding mat_caused_def
proof
  fix env show "case reserve_with AllocationFailed env of Inl e \<Rightarrow> mat_cause env e | Inr x \<Rightarrow> set (id x) \<subseteq> set env"
    by (cases env) (auto simp: mat_cause_def)
qed

lemma caused_push_line [caused_intros]: "mat_caused (push_line v s c e m) snd"
proof -
  have "set env' \<subseteq> set env" if "reserve_with AllocationFailed env = Inr env'" for env env'
    using that mat_causedD(2) [OF caused_reserve] by fastforce
  moreover have "mat_cause env er" if "reserve_with AllocationFailed env = Inl er" for env er
    using that mat_causedD(1) [OF caused_reserve] by blast
  moreover have "mat_cause env TooManyLines" "mat_cause env OffsetOverflow" for env
    by (simp_all add: mat_cause_def)
  ultimately show ?thesis
    by (cases v) (auto intro!: mat_causedI simp: push_line_def res_simps subset_eq split: if_splits)
qed

lemma caused_scan_loop [caused_intros]: "mat_caused (scan_loop bs m v start index) snd"
proof (induction "length bs - index" arbitrary: v start index rule: less_induct)
  case less
  have eq: "scan_loop bs m v start index = (\<lambda>env.
      if index < length bs then
        bindE (if index mod 1024 = 0 then mat_check env else Inr env) (\<lambda>env.
          if terminator bs index = 0 then scan_loop bs m v start (index + 1) env
          else bindE (ok_or OffsetOverflow (checked_add64 index (terminator bs index))) (\<lambda>end.
            bindE (push_line v start index end m env) (\<lambda>(v, env). scan_loop bs m v end end env)))
      else Inr ((v, start), env))"
    by (rule ext) (simp add: scan_loop.simps [of bs m v start index])
  have poll: "mat_caused (\<lambda>env. if index mod 1024 = 0 then mat_check env else Inr env) id"
    using caused_check by (cases "index mod 1024 = 0") (simp_all add: mat_caused_def)
  show ?case unfolding eq
  proof (intro caused_if caused_ret caused_poll [OF poll] caused_pure)
    fix end' assume i: "index < length bs" "terminator bs index \<noteq> 0"
      "ok_or OffsetOverflow (checked_add64 index (terminator bs index)) = Inr end'"
    then have "length bs - end' < length bs - index" by (auto simp: res_simps)
    then show "mat_caused (\<lambda>env. bindE (push_line v start index end' m env)
        (\<lambda>(v, env). scan_loop bs m v end' end' env)) snd"
      using less.hyps by (intro caused_bind caused_push_line) simp
  next
    assume "index < length bs" "terminator bs index = 0"
    then show "mat_caused (\<lambda>env. scan_loop bs m v start (index + 1) env) snd"
      using less.hyps [of "index + 1"] by simp
  qed (simp add: res_simps)
qed

lemma caused_scan_lines [caused_intros]: "mat_caused (scan_lines bs l) snd"
proof -
  have push: "mat_caused (\<lambda>env. if start < length bs then push_line v start (length bs) (length bs) (ml_max_lines l) env
      else Inr (v, env)) snd" for v start
    by (intro caused_if caused_push_line caused_ret)
  have "mat_caused (\<lambda>env. bindE (mat_check env) (\<lambda>env. Inr (fst w, env))) snd" for w :: "LineSpan list \<times> nat"
    by (intro caused_poll caused_check caused_ret)
  then have "mat_caused (\<lambda>env. bindE (if start < length bs then push_line v start (length bs) (length bs) (ml_max_lines l) env
      else Inr (v, env)) (\<lambda>(v, env). bindE (mat_check env) (\<lambda>env. Inr (fst v, env)))) snd" for v start
    by (intro caused_bind push) simp
  then show ?thesis unfolding scan_lines_def [abs_def]
    by (intro caused_bind caused_scan_loop) (auto simp: split_paired_all)
qed

lemma reject_chunk_error: "reject_chunk t c bs = Inl e \<Longrightarrow> e = BinaryContent"
  by (induction bs arbitrary: c) (auto split: if_splits)

lemma caused_reject_chunks: "mat_caused (reject_chunks t c cs) id"
proof (induction cs arbitrary: c)
  case (Cons x cs)
  have "mat_caused (\<lambda>env. bindE (mat_check env) (\<lambda>env. bindE (reject_chunk t c x) (\<lambda>c. reject_chunks t c cs env))) id"
    by (intro caused_poll caused_check caused_pure Cons.IH) (auto dest: reject_chunk_error)
  then show ?case by (simp add: mat_caused_def del: id_apply)
qed (simp add: mat_caused_def)

lemma caused_materialize: "mat_caused (materialize_utf8 bs l) snd"
proof -
  have rest: "mat_caused (\<lambda>env. bindE (scan_lines t l env) (\<lambda>(lines, env). Inr (\<lparr>mt_text = t, mt_lines = lines\<rparr>, env))) snd" for t
    by (intro caused_bind caused_scan_lines) (simp add: caused_ret)
  have body: "mat_caused (\<lambda>env. bindE (if utf8_valid bs then Inr bs else Inl InvalidUtf8) (\<lambda>text.
      bindE (mat_check env) (\<lambda>env. bindE (scan_lines text l env)
        (\<lambda>(lines, env). Inr (\<lparr>mt_text = text, mt_lines = lines\<rparr>, env))))) snd"
    by (rule caused_pure [OF _ caused_poll [OF caused_check rest]]) (auto split: if_splits)
  have "e \<notin> mat_interrupts" if "limits_validate l = Inl e" for e
    using that by (auto simp: limits_validate_def res_simps split: if_splits)
  note pure = caused_pure [OF this]
  show ?thesis unfolding materialize_utf8_def [abs_def] reject_binary_controls_def
    by (rule caused_poll [OF caused_check], rule pure, assumption)
      (intro caused_if caused_fail caused_poll [OF caused_reject_chunks body]; simp)
qed

text \<open>The result that the input and the ceilings determine, by the documented checks in their order.\<close>

definition materialization_of :: "bytes \<Rightarrow> MaterializationLimits \<Rightarrow> MaterializationError + MaterializedText" where
  "materialization_of bs l =
     (if ml_max_input_bytes l = 0 \<or> ml_max_output_bytes l = 0 \<or> ml_max_lines l = 0 then Inl InvalidLimits
      else if isize_max < ml_max_lines l * size_of_LineSpan then Inl OffsetOverflow
      else if ml_max_input_bytes l < length bs then Inl InputTooLarge
      else if ml_max_output_bytes l < length bs then Inl OutputTooLarge
      else if 0 \<in> set bs \<or> control_threshold bs \<le> length (filter is_binary_control bs) then Inl BinaryContent
      else if \<not> utf8_valid bs then Inl InvalidUtf8
      else if ml_max_lines l < length (split_lines bs) then Inl TooManyLines
      else Inr \<lparr>mt_text = bs, mt_lines = text_lines bs\<rparr>)"

lemma limits_validate_iff:
  "limits_validate l =
     (if ml_max_input_bytes l = 0 \<or> ml_max_output_bytes l = 0 \<or> ml_max_lines l = 0 then Inl InvalidLimits
      else if isize_max < ml_max_lines l * size_of_LineSpan then Inl OffsetOverflow else Inr ())"
  by (auto simp: limits_validate_def mul_fits_isize_def checked_mul64_def ok_or_def size_of_LineSpan_def)

lemma materialize_uninterrupted:
  assumes "length bs < u64_bound"
  shows "materialize_utf8 bs l [] = (case materialization_of bs l of Inl e \<Rightarrow> Inl e | Inr m \<Rightarrow> Inr (m, []))"
proof (cases "limits_validate l")
  case (Inl e)
  then show ?thesis by (auto simp: materialize_utf8_def limits_validate_iff materialization_of_def split: if_splits)
next
  case (Inr u)
  then have "limits_validate l = Inr ()" by simp
  from materialize_utf8_quiet [OF assms this] this show ?thesis
    by (auto simp: materialization_of_def limits_validate_iff is_binary_def materialized_def split: if_splits)
qed

text \<open>
  C23: The complete behaviour of \<open>materialize_utf8\<close> on any input that fits in memory, any
  ceilings and any environment. It returns what the input and the ceilings determine
  (\<open>materialization_of\<close>): the refusal of a zero ceiling, of a line ceiling whose inventory
  cannot be addressed, of input over the input ceiling, output over the output ceiling, binary
  content (a NUL byte, or control bytes from the threshold on), invalid UTF-8 and more logical
  lines than allowed, in this order, and otherwise the unchanged bytes with their logical-line
  inventory. The only other results are the three interruptions, each only when the environment
  gives that answer: \<open>Cancelled\<close> a cancelled flag, \<open>Deadline\<close> an expired clock,
  \<open>AllocationFailed\<close> a refused allocation. With none of these answers the determined result
  is returned.
\<close>

theorem materialize_utf8_behaviour:
  assumes "length bs < u64_bound"
  shows "case materialize_utf8 bs l env of
      Inr (m, _) \<Rightarrow> materialization_of bs l = Inr m
    | Inl e \<Rightarrow> materialization_of bs l = Inl e \<or>
        e = Cancelled \<and> (\<exists>ob \<in> set env. obs_cancelled ob) \<or>
        e = Deadline \<and> (\<exists>ob \<in> set env. obs_expired ob) \<or>
        e = AllocationFailed \<and> (\<exists>ob \<in> set env. obs_oom ob)"
proof (cases "materialize_utf8 bs l env")
  case (Inl e)
  then have "mat_cause env e" using mat_causedD(1) [OF caused_materialize] by blast
  moreover have "e \<in> mat_interrupts \<or> materialize_utf8 bs l [] = Inl e"
    using materialize_utf8_refines [of bs l env] Inl by (simp add: refines_quiet_def)
  ultimately show ?thesis using Inl materialize_uninterrupted [OF assms, of l]
    by (auto simp: mat_cause_def split: sum.splits)
next
  case (Inr r)
  obtain m env' where r: "r = (m, env')" by (cases r)
  then have "materialize_utf8 bs l [] = Inr (m, [])"
    using materialize_utf8_refines [of bs l env] Inr by (simp add: refines_quiet_def)
  then show ?thesis using Inr r materialize_uninterrupted [OF assms, of l] by (auto split: sum.splits)
qed

text \<open>
  The line inventory of a materialized text is exact, whatever the environment: lines are
  numbered from 0, their bytes concatenate to the unchanged input, every line is a content
  without line feed and carriage return followed by one of the three terminators (only the
  last line may have none), and lines start and end at scalar boundaries.
\<close>

theorem materialized_lines_exact:
  assumes "materialize_utf8 bs l env = Inr (p, env')" and "length bs < u64_bound"
  shows "mt_text p = bs \<and> concat (map (line_bytes bs) (mt_lines p)) = bs \<and>
    (\<forall>k < length (mt_lines p). let s = mt_lines p ! k in
       ls_index s = k \<and> line_bytes bs s = content_bytes bs s @ terminator_bytes bs s \<and>
       (\<forall>b \<in> set (content_bytes bs s). b \<noteq> 10 \<and> b \<noteq> 13) \<and>
       (terminator_bytes bs s \<in> {[10], [13], [13, 10]} \<or>
        terminator_bytes bs s = [] \<and> Suc k = length (mt_lines p)) \<and>
       is_char_boundary bs (ls_start s) \<and> is_char_boundary bs (ls_end s))"
proof -
  have p: "p = materialized bs" "utf8_valid bs" using materialize_utf8_Inr [OF assms] by auto
  have "map (line_bytes bs) (text_lines bs) = split_lines bs"
    by (rule nth_equalityI) (simp_all add: line_bytes_nth)
  moreover have "is_char_boundary bs (ls_start (text_lines bs ! k)) \<and> is_char_boundary bs (ls_end (text_lines bs ! k))"
    if "k < length (split_lines bs)" for k
    using line_cut_boundary [OF p(2), of k] line_cut_boundary [OF p(2), of "Suc k"] that
    by (simp add: text_lines_nth)
  ultimately show ?thesis
    using line_parts [of _ bs] p(1) by (simp add: materialized_def Let_def) (simp add: text_lines_nth)
qed

definition ex_lines_text :: bytes where
  "ex_lines_text = [97, 13, 10, 98, 10, 99]"

definition ex_mat_limits :: MaterializationLimits where
  "ex_mat_limits = \<lparr>ml_max_input_bytes = 64, ml_max_output_bytes = 64, ml_max_lines = 8\<rparr>"

lemma ex_mat_ok: "limits_validate ex_mat_limits = Inr ()" "length ex_lines_text < u64_bound"
  by (simp_all add: limits_validate_def ex_mat_limits_def mul_fits_isize_def checked_mul64_def
      size_of_LineSpan_def ex_lines_text_def)

lemma ex_split_lines: "split_lines ex_lines_text = [[97, 13, 10], [98, 10], [99]]"
  by (simp add: ex_lines_text_def split_lines.simps line_length_def line_content_def ends_line_def
      terminator_def)

lemma ex_materialized: "materialize_utf8 ex_lines_text ex_mat_limits [] = Inr (materialized ex_lines_text, [])"
  unfolding materialize_utf8_quiet [OF ex_mat_ok(2,1)] ex_split_lines
  by (simp add: ex_lines_text_def ex_mat_limits_def is_binary_def is_binary_control_def
      control_threshold_def utf8_valid.simps)

theorem materialize_utf8_behaviour_witness:
  "\<exists>m. materialize_utf8 ex_lines_text ex_mat_limits [] = Inr (m, []) \<and>
     mt_lines m =
       [\<lparr>ls_index = 0, ls_start = 0, ls_end = 3, ls_content_end = 1\<rparr>,
        \<lparr>ls_index = 1, ls_start = 3, ls_end = 5, ls_content_end = 4\<rparr>,
        \<lparr>ls_index = 2, ls_start = 5, ls_end = 6, ls_content_end = 6\<rparr>]"
proof -
  have "materialization_of ex_lines_text ex_mat_limits = Inr \<lparr>mt_text = ex_lines_text, mt_lines =
       [\<lparr>ls_index = 0, ls_start = 0, ls_end = 3, ls_content_end = 1\<rparr>,
        \<lparr>ls_index = 1, ls_start = 3, ls_end = 5, ls_content_end = 4\<rparr>,
        \<lparr>ls_index = 2, ls_start = 5, ls_end = 6, ls_content_end = 6\<rparr>]\<rparr>"
    unfolding materialization_of_def text_lines_def ex_split_lines
    by (simp add: ex_lines_text_def ex_mat_limits_def is_binary_control_def size_of_LineSpan_def
        control_threshold_def utf8_valid.simps line_content_def ends_line_def)
  moreover have "materialization_of ex_lines_text ex_mat_limits = Inr (materialized ex_lines_text)"
    using materialize_utf8_behaviour [OF ex_mat_ok(2), of ex_mat_limits "[]"] by (simp add: ex_materialized)
  ultimately have "mt_lines (materialized ex_lines_text) =
       [\<lparr>ls_index = 0, ls_start = 0, ls_end = 3, ls_content_end = 1\<rparr>,
        \<lparr>ls_index = 1, ls_start = 3, ls_end = 5, ls_content_end = 4\<rparr>,
        \<lparr>ls_index = 2, ls_start = 5, ls_end = 6, ls_content_end = 6\<rparr>]" by simp
  then show ?thesis using ex_materialized by blast
qed

theorem materialized_lines_exact_witness:
  "\<exists>p. materialize_utf8 ex_lines_text ex_mat_limits [] = Inr (p, []) \<and> mt_text p = ex_lines_text \<and>
     concat (map (line_bytes ex_lines_text) (mt_lines p)) = ex_lines_text"
  using materialized_lines_exact [OF ex_materialized ex_mat_ok(2)] ex_materialized by blast

end
