(* ===== verification/Registry.thy ===== *)
theory Registry
  imports Prelude
begin

text \<open>
  The typed current-source values every other component shares (crate
  \<open>search-source-registry\<close>): preparation settings, object references, native file keys
  and source rows. Each record has a predicate \<open>wf_\<dots>\<close> that says that its fields are
  values of their Rust types (integer widths and array lengths).
\<close>

section \<open>Bounds and settings\<close>

definition SOURCE_OBJECT_FORMAT_VERSION :: nat where
  "SOURCE_OBJECT_FORMAT_VERSION = 1"

definition MAX_SOURCE_OBJECT_BYTES :: nat where
  "MAX_SOURCE_OBJECT_BYTES = 8 * 1024 * 1024"

definition MAX_PREPARATION_UNIT_BYTES :: nat where
  "MAX_PREPARATION_UNIT_BYTES = 64 * 1024"

record PreparationSettings =
  utf8_version :: nat
  line_unitizer_version :: nat
  preferred_unit_bytes :: nat
  max_unit_bytes :: nat

definition default_settings :: PreparationSettings where
  "default_settings = \<lparr>utf8_version = 1, line_unitizer_version = 1,
     preferred_unit_bytes = 16 * 1024, max_unit_bytes = MAX_PREPARATION_UNIT_BYTES\<rparr>"

definition is_supported :: "PreparationSettings \<Rightarrow> bool" where
  "is_supported s \<longleftrightarrow> utf8_version s = 1 \<and> line_unitizer_version s = 1 \<and>
     0 < preferred_unit_bytes s \<and> preferred_unit_bytes s \<le> max_unit_bytes s \<and>
     max_unit_bytes s \<le> MAX_PREPARATION_UNIT_BYTES"

definition wf_settings :: "PreparationSettings \<Rightarrow> bool" where
  "wf_settings s \<longleftrightarrow> utf8_version s < u16_bound \<and> line_unitizer_version s < u16_bound \<and>
     preferred_unit_bytes s < u32_bound \<and> max_unit_bytes s < u32_bound"

section \<open>Object references\<close>

datatype ObjectKind = Source | Prepared

fun kind_tag :: "ObjectKind \<Rightarrow> byte" where
  "kind_tag Source = 1"
| "kind_tag Prepared = 2"

definition kind_from_tag :: "byte \<Rightarrow> ObjectKind option" where
  "kind_from_tag t = (if t = 1 then Some Source else if t = 2 then Some Prepared else None)"

fun kind_name :: "ObjectKind \<Rightarrow> string" where
  "kind_name Source = ''source''"
| "kind_name Prepared = ''prepared''"

record ObjectRef =
  format_version :: nat
  obj_kind :: ObjectKind
  digest :: bytes
  byte_length :: nat

definition object_source :: "bytes \<Rightarrow> nat \<Rightarrow> ObjectRef" where
  "object_source d n = \<lparr>format_version = SOURCE_OBJECT_FORMAT_VERSION, obj_kind = Source,
     digest = d, byte_length = n\<rparr>"

definition object_prepared :: "bytes \<Rightarrow> nat \<Rightarrow> ObjectRef" where
  "object_prepared d n = \<lparr>format_version = SOURCE_OBJECT_FORMAT_VERSION, obj_kind = Prepared,
     digest = d, byte_length = n\<rparr>"

definition wf_object :: "ObjectRef \<Rightarrow> bool" where
  "wf_object o' \<longleftrightarrow> format_version o' < u16_bound \<and> length (digest o') = 32 \<and>
     byte_length o' < u64_bound"

section \<open>Native file keys\<close>

datatype NativeFileKey =
  Unix (device: nat) (inode: nat)
| Windows (volume_serial: nat) (file_index: nat)

fun wf_key :: "NativeFileKey \<Rightarrow> bool" where
  "wf_key (Unix d i) \<longleftrightarrow> d < u64_bound \<and> i < u64_bound"
| "wf_key (Windows v f) \<longleftrightarrow> v < u32_bound \<and> f < u64_bound"

fun key_to_bytes :: "NativeFileKey \<Rightarrow> bytes" where
  "key_to_bytes (Unix d i) = 1 # le_bytes 8 d @ le_bytes 8 i"
| "key_to_bytes (Windows v f) = 2 # le_bytes 4 v @ [0, 0, 0, 0] @ le_bytes 8 f"

text \<open>\<open>from_bytes\<close> takes an array of 17 bytes.\<close>

definition key_from_bytes :: "bytes \<Rightarrow> NativeFileKey option" where
  "key_from_bytes bs =
     (let tag = bs ! 0; slice = (\<lambda>i j. take (j - i) (drop i bs)) in
      if tag = 1 then Some (Unix (of_le_bytes (slice 1 9)) (of_le_bytes (slice 9 17)))
      else if tag = 2 \<and> slice 5 9 = [0, 0, 0, 0]
      then Some (Windows (of_le_bytes (slice 1 5)) (of_le_bytes (slice 9 17)))
      else None)"

section \<open>Current source rows\<close>

record CurrentSourceRecord =
  source_namespace_id :: bytes
  source_id :: bytes
  row_revision :: nat
  registration_revision :: nat
  locator :: bytes
  file_key :: NativeFileKey
  object_ref :: ObjectRef

definition wf_source :: "CurrentSourceRecord \<Rightarrow> bool" where
  "wf_source r \<longleftrightarrow> length (source_namespace_id r) = 16 \<and> length (source_id r) = 16 \<and>
     row_revision r < u64_bound \<and> registration_revision r < u64_bound \<and>
     wf_key (file_key r) \<and> wf_object (object_ref r)"

section \<open>Laws\<close>

lemma default_settings_supported: "is_supported default_settings"
  by (simp add: default_settings_def is_supported_def MAX_PREPARATION_UNIT_BYTES_def)

lemma supported_wf: "is_supported s \<Longrightarrow> wf_settings s"
  by (auto simp: is_supported_def wf_settings_def MAX_PREPARATION_UNIT_BYTES_def)

lemma kind_from_tag_inverse [simp]: "kind_from_tag (kind_tag k) = Some k"
  by (cases k) (simp_all add: kind_from_tag_def)

lemma kind_from_tag_Some: "kind_from_tag t = Some k \<Longrightarrow> t = kind_tag k"
  by (auto simp: kind_from_tag_def split: if_splits)

lemma kind_tag_eq_iff [simp]: "kind_tag k = kind_tag l \<longleftrightarrow> k = l"
  by (cases k; cases l) auto

lemma length_key_to_bytes [simp]: "length (key_to_bytes k) = 17"
  by (cases k) auto

lemma key_from_to_bytes [codec_simps]: "wf_key k \<Longrightarrow> key_from_bytes (key_to_bytes k) = Some k"
  by (cases k) (simp_all add: key_from_bytes_def of_le_bytes_le_bytes)

lemma bytes_17_split:
  assumes "length bs = 17"
  obtains t a b c where "bs = t # a @ b @ c" "length a = 4" "length b = 4" "length c = 8"
proof -
  obtain t r where r: "bs = t # r" "length r = 16" using assms by (cases bs) auto
  have "take 4 r @ take 4 (drop 4 r) @ drop 8 r = r"
    using append_take_drop_id [of 4 "drop 4 r"] by simp
  then show ?thesis using r by (intro that [of t "take 4 r" "take 4 (drop 4 r)" "drop 8 r"]) simp_all
qed

lemma key_to_from_bytes:
  assumes "length bs = 17" and "key_from_bytes bs = Some k"
  shows "key_to_bytes k = bs \<and> wf_key k"
proof -
  obtain t a b c where bs: "bs = t # a @ b @ c" and len: "length a = 4" "length b = 4" "length c = 8"
    using bytes_17_split [OF assms(1)] .
  have bounds: "of_le_bytes (a @ b) < 2 ^ 64" "of_le_bytes c < 2 ^ 64" "of_le_bytes a < 2 ^ 32"
    using of_le_bytes_bound [of "a @ b"] of_le_bytes_bound [of c] of_le_bytes_bound [of a] len
    by simp_all
  have "le_bytes 8 (of_le_bytes (a @ b)) = a @ b" "le_bytes 8 (of_le_bytes c) = c"
      "le_bytes 4 (of_le_bytes a) = a"
    using len by (simp_all add: le_bytes_of_le_bytes)
  with assms(2) bs len bounds show ?thesis
    by (auto simp: key_from_bytes_def split: if_splits)
qed

end
