(* ===== verification/Unitizer.thy ===== *)
theory Unitizer
  imports Materializer Registry
begin

text \<open>
  Preparation of a materialized text (crate \<open>search-unitizer\<close>): errors
  (\<open>error.rs\<close>), ceilings (\<open>prepared.rs\<close>) and the line-preferred unit layout
  (\<open>layout.rs\<close>). The lemmas show that the layout covers the text without gap or overlap,
  cuts only at scalar boundaries, keeps the hard unit size and records the logical lines of
  every unit.
\<close>

section \<open>Model: errors and ceilings\<close>

datatype PreparationError =
  BinaryContent | InvalidUtf8 | InputTooLarge | OutputTooLarge | TooManyLines | TooManyUnits
| UnitTooLarge | EncodedTooLarge | InvalidSettings | InvalidLimits | AllocationFailed
| OffsetOverflow | Cancelled | Deadline | InvalidArtifact | BindingMismatch | IntegrityFailure

fun prep_code :: "PreparationError \<Rightarrow> string" where
  "prep_code BinaryContent = ''PREPARATION_BINARY_CONTENT''"
| "prep_code InvalidUtf8 = ''PREPARATION_INVALID_UTF8''"
| "prep_code InputTooLarge = ''PREPARATION_INPUT_TOO_LARGE''"
| "prep_code OutputTooLarge = ''PREPARATION_OUTPUT_TOO_LARGE''"
| "prep_code TooManyLines = ''PREPARATION_TOO_MANY_LINES''"
| "prep_code TooManyUnits = ''PREPARATION_TOO_MANY_UNITS''"
| "prep_code UnitTooLarge = ''PREPARATION_UNIT_TOO_LARGE''"
| "prep_code EncodedTooLarge = ''PREPARATION_ENCODED_TOO_LARGE''"
| "prep_code InvalidSettings = ''PREPARATION_SETTINGS_INVALID''"
| "prep_code InvalidLimits = ''PREPARATION_LIMITS_INVALID''"
| "prep_code AllocationFailed = ''PREPARATION_ALLOCATION_FAILED''"
| "prep_code OffsetOverflow = ''PREPARATION_OFFSET_OVERFLOW''"
| "prep_code Cancelled = ''PREPARATION_CANCELLED''"
| "prep_code Deadline = ''PREPARATION_DEADLINE''"
| "prep_code InvalidArtifact = ''PREPARATION_ARTIFACT_INVALID''"
| "prep_code BindingMismatch = ''PREPARATION_BINDING_MISMATCH''"
| "prep_code IntegrityFailure = ''PREPARATION_INTEGRITY_FAILURE''"

fun prep_of_mat :: "MaterializationError \<Rightarrow> PreparationError" where
  "prep_of_mat MaterializationError.InvalidLimits = InvalidLimits"
| "prep_of_mat MaterializationError.InputTooLarge = InputTooLarge"
| "prep_of_mat MaterializationError.OutputTooLarge = OutputTooLarge"
| "prep_of_mat MaterializationError.BinaryContent = BinaryContent"
| "prep_of_mat MaterializationError.InvalidUtf8 = InvalidUtf8"
| "prep_of_mat MaterializationError.TooManyLines = TooManyLines"
| "prep_of_mat MaterializationError.AllocationFailed = AllocationFailed"
| "prep_of_mat MaterializationError.OffsetOverflow = OffsetOverflow"
| "prep_of_mat MaterializationError.Cancelled = Cancelled"
| "prep_of_mat MaterializationError.Deadline = Deadline"

record PreparationLimits =
  pl_max_input_bytes :: nat
  pl_max_output_bytes :: nat
  pl_max_lines :: nat
  pl_max_units :: nat
  pl_max_encoded_bytes :: nat

record UnitSpan =
  us_start :: nat
  us_end :: nat
  us_line_start :: nat
  us_line_end :: nat
  us_starts_at_line :: bool
  us_ends_at_line :: bool

text \<open>A \<open>UnitSpan\<close> is four 8-byte fields and two booleans, aligned to 8 bytes.\<close>

definition size_of_UnitSpan :: nat where
  "size_of_UnitSpan = 40"

definition prep_limits_validate :: "PreparationLimits \<Rightarrow> PreparationError + unit" where
  "prep_limits_validate l =
     (if pl_max_input_bytes l = 0 \<or> pl_max_output_bytes l = 0 \<or> pl_max_lines l = 0
         \<or> pl_max_units l = 0 \<or> pl_max_encoded_bytes l = 0
      then Inl InvalidLimits
      else bindE (ok_or OffsetOverflow (mul_fits_isize (pl_max_lines l) size_of_LineSpan)) (\<lambda>_.
           bindE (ok_or OffsetOverflow (mul_fits_isize (pl_max_units l) size_of_UnitSpan)) (\<lambda>_.
           Inr ())))"

definition check_text_length :: "PreparationLimits \<Rightarrow> nat \<Rightarrow> PreparationError + unit" where
  "check_text_length l n =
     (if pl_max_input_bytes l < n then Inl InputTooLarge
      else if pl_max_output_bytes l < n then Inl OutputTooLarge
      else Inr ())"

definition prep_check :: "env \<Rightarrow> PreparationError + env" where
  "prep_check = check_with Cancelled Deadline"

section \<open>Model: unit layout\<close>

text \<open>
  \<open>partition_point\<close> of the slice library on a slice partitioned by the predicate; the
  lemmas below show that line inventories are partitioned by the predicates used.
\<close>

definition partition_point :: "('a \<Rightarrow> bool) \<Rightarrow> 'a list \<Rightarrow> nat" where
  "partition_point P xs = length (takeWhile P xs)"

definition get_at :: "'a list \<Rightarrow> nat \<Rightarrow> 'a option" where
  "get_at xs i = (if i < length xs then Some (xs ! i) else None)"

fun back_to_boundary :: "bytes \<Rightarrow> nat \<Rightarrow> nat \<Rightarrow> nat" where
  "back_to_boundary bs start 0 = 0"
| "back_to_boundary bs start (Suc e) =
     (if start < Suc e \<and> \<not> is_char_boundary bs (Suc e)
      then back_to_boundary bs start e else Suc e)"

function forward_to_boundary :: "bytes \<Rightarrow> nat \<Rightarrow> nat \<Rightarrow> nat" where
  "forward_to_boundary bs hard e =
     (if e \<le> hard \<and> \<not> is_char_boundary bs e then forward_to_boundary bs hard (e + 1) else e)"
  by pat_completeness auto
termination
  by (relation "measure (\<lambda>(bs, hard, e). Suc hard - e)") auto

declare forward_to_boundary.simps [simp del]

definition scalar_end :: "bytes \<Rightarrow> nat \<Rightarrow> nat \<Rightarrow> nat \<Rightarrow> PreparationError + nat" where
  "scalar_end bs start preferred hard =
     (let e = back_to_boundary bs start preferred in
      bindE (if e \<le> start
             then bindE (ok_or OffsetOverflow (checked_add64 start 1))
                    (\<lambda>e. Inr (forward_to_boundary bs hard e))
             else Inr e)
        (\<lambda>e. if e \<le> start \<or> hard < e then Inl UnitTooLarge else Inr e))"

definition choose_end :: "bytes \<Rightarrow> LineSpan list \<Rightarrow> nat \<Rightarrow> nat \<Rightarrow> nat \<Rightarrow> PreparationError + nat" where
  "choose_end bs lines start preferred_bytes hard_bytes =
     bindE (ok_or OffsetOverflow (checked_add64 start preferred_bytes)) (\<lambda>p.
     bindE (ok_or OffsetOverflow (checked_add64 start hard_bytes)) (\<lambda>h.
       let preferred = min p (length bs); hard = min h (length bs) in
       if hard = length bs \<and> length bs - start \<le> preferred_bytes then Inr (length bs)
       else
         bindE (ok_or OffsetOverflow (try_from u64_bound preferred)) (\<lambda>preferred64.
         bindE (ok_or OffsetOverflow (try_from u64_bound start)) (\<lambda>start64.
         bindE (ok_or OffsetOverflow (try_from u64_bound hard)) (\<lambda>hard64.
           let after = partition_point (\<lambda>l. ls_end l \<le> preferred64) lines;
               before = Option.bind (checked_sub after 1) (get_at lines) in
           case before of
             Some l \<Rightarrow>
               if start64 < ls_end l then ok_or OffsetOverflow (try_from u64_bound (ls_end l))
               else (case get_at lines after of
                   Some l \<Rightarrow> if ls_end l \<le> hard64
                     then ok_or OffsetOverflow (try_from u64_bound (ls_end l))
                     else scalar_end bs start preferred hard
                 | None \<Rightarrow> scalar_end bs start preferred hard)
           | None \<Rightarrow> (case get_at lines after of
                   Some l \<Rightarrow> if ls_end l \<le> hard64
                     then ok_or OffsetOverflow (try_from u64_bound (ls_end l))
                     else scalar_end bs start preferred hard
                 | None \<Rightarrow> scalar_end bs start preferred hard))))))"

text \<open>The logical lines of the first and of the last byte of a unit.\<close>

definition unit_lines ::
  "LineSpan list \<Rightarrow> nat \<Rightarrow> nat \<Rightarrow> PreparationError + LineSpan \<times> LineSpan" where
  "unit_lines lines start end =
     bindE (ok_or OffsetOverflow (try_from u64_bound start)) (\<lambda>start64.
     bindE (ok_or OffsetOverflow (try_from u64_bound end)) (\<lambda>end64.
     bindE (ok_or InvalidArtifact
       (get_at lines (partition_point (\<lambda>l. ls_end l \<le> start64) lines))) (\<lambda>first.
     bindE (ok_or InvalidArtifact
       (get_at lines (partition_point (\<lambda>l. ls_end l < end64) lines))) (\<lambda>last.
       Inr (first, last)))))"

definition unit_span :: "nat \<Rightarrow> nat \<Rightarrow> LineSpan \<Rightarrow> LineSpan \<Rightarrow> PreparationError + UnitSpan" where
  "unit_span start end first final =
     bindE (ok_or OffsetOverflow (checked_add64 (ls_index final) 1)) (\<lambda>line_end.
       Inr \<lparr>us_start = start, us_end = end, us_line_start = ls_index first,
            us_line_end = line_end, us_starts_at_line = (ls_start first = start),
            us_ends_at_line = (ls_end final = end)\<rparr>)"

function unitize_loop ::
  "bytes \<Rightarrow> LineSpan list \<Rightarrow> nat \<Rightarrow> nat \<Rightarrow> nat \<Rightarrow> UnitSpan list \<times> nat \<Rightarrow> nat \<Rightarrow> env \<Rightarrow>
   PreparationError + UnitSpan list \<times> env" where
  "unitize_loop bs lines preferred hard max_units v start env =
     (case v of (units, capacity) \<Rightarrow>
      if start < length bs then
        bindE (prep_check env) (\<lambda>env.
        if max_units \<le> length units then Inl TooManyUnits
        else bindE (choose_end bs lines start preferred hard) (\<lambda>end.
        if end \<le> start \<or> hard < end - start then Inl UnitTooLarge
        else bindE (unit_lines lines start end) (\<lambda>(first, last).
        bindE (if length units = capacity
          then bindE (reserve_with AllocationFailed env)
                 (\<lambda>env. Inr (capacity + min (max capacity 16) (max_units - length units), env))
          else Inr (capacity, env)) (\<lambda>(capacity, env).
        bindE (unit_span start end first last) (\<lambda>u.
        unitize_loop bs lines preferred hard max_units (units @ [u], capacity) end env)))))
      else Inr (units, env))"
  by pat_completeness auto
termination
  by (relation "measure (\<lambda>(bs, _, _, _, _, _, start, _). length bs - start)") auto

declare unitize_loop.simps [simp del]

definition unitize_text ::
  "MaterializedText \<Rightarrow> PreparationSettings \<Rightarrow> PreparationLimits \<Rightarrow> env \<Rightarrow>
   PreparationError + UnitSpan list \<times> env" where
  "unitize_text product settings limits env =
     bindE (ok_or OffsetOverflow (try_from u64_bound (preferred_unit_bytes settings))) (\<lambda>preferred.
     bindE (ok_or OffsetOverflow (try_from u64_bound (max_unit_bytes settings))) (\<lambda>hard.
     bindE (unitize_loop (mt_text product) (mt_lines product) preferred hard
              (pl_max_units limits) ([], 0) 0 env) (\<lambda>(units, env).
     bindE (prep_check env) (\<lambda>env. Inr (units, env)))))"

section \<open>Positions between the cuts of an inventory\<close>

text \<open>
  What the layout and the decoder need of a line inventory: an increasing sequence of cuts
  from 0 to the length. A position lies in exactly one line, and so does an end position.
\<close>

locale cuts =
  fixes cut :: "nat \<Rightarrow> nat" and n :: nat
  assumes cut_0: "cut 0 = 0"
    and cut_step: "k < n \<Longrightarrow> cut k < cut (Suc k)"
begin

lemma cut_less: "j < k \<Longrightarrow> k \<le> n \<Longrightarrow> cut j < cut k"
proof (induction k)
  case (Suc k)
  then show ?case using cut_step [of k] by (cases "j = k") auto
qed simp

lemma cut_le: "j \<le> k \<Longrightarrow> k \<le> n \<Longrightarrow> cut j \<le> cut k"
  using cut_less [of j k] by (cases "j = k") auto

lemma start_unique:
  assumes "p < n" "q < n" "cut p \<le> x" "x < cut (Suc p)" "cut q \<le> x" "x < cut (Suc q)"
  shows "p = q"
proof (rule ccontr)
  assume "p \<noteq> q"
  then consider "Suc p \<le> q" | "Suc q \<le> p" by linarith
  then show False using cut_le [of "Suc p" q] cut_le [of "Suc q" p] assms by cases auto
qed

lemma end_unique:
  assumes "p < n" "q < n" "cut p < x" "x \<le> cut (Suc p)" "cut q < x" "x \<le> cut (Suc q)"
  shows "p = q"
proof (rule ccontr)
  assume "p \<noteq> q"
  then consider "Suc p \<le> q" | "Suc q \<le> p" by linarith
  then show False using cut_le [of "Suc p" q] cut_le [of "Suc q" p] assms by cases auto
qed

lemma no_cut_between:
  assumes "p < n" "cut p \<le> x" "y < cut (Suc p)" "k \<le> n"
  shows "\<not> (x < cut k \<and> cut k \<le> y)"
proof (cases "k \<le> p")
  case True
  then show ?thesis using cut_le [of k p] assms by auto
next
  case False
  then show ?thesis using cut_le [of "Suc p" k] assms by auto
qed

end

interpretation ln: cuts "\<lambda>k. line_cut bs k" "length (split_lines bs)" for bs
  by unfold_locales (simp, rule line_cut_less)

section \<open>The inventory search finds the line of a position\<close>

definition line_at :: "bytes \<Rightarrow> nat \<Rightarrow> nat" where
  "line_at bs x = partition_point (\<lambda>l. ls_end l \<le> x) (text_lines bs)"

definition line_of_end :: "bytes \<Rightarrow> nat \<Rightarrow> nat" where
  "line_of_end bs x = partition_point (\<lambda>l. ls_end l < x) (text_lines bs)"

lemma partition_point_text_lines:
  fixes bs P
  defines "p \<equiv> partition_point (\<lambda>l. P (ls_end l)) (text_lines bs)"
  shows "p \<le> length (split_lines bs)" and "k < p \<Longrightarrow> P (line_cut bs (Suc k))"
    and "p < length (split_lines bs) \<Longrightarrow> \<not> P (line_cut bs (Suc p))"
proof -
  let ?t = "takeWhile (\<lambda>l. P (ls_end l)) (text_lines bs)"
  have len: "length ?t \<le> length (split_lines bs)"
    using length_takeWhile_le [of _ "text_lines bs"] by simp
  then show "p \<le> length (split_lines bs)" by (simp add: p_def partition_point_def)
  show "P (line_cut bs (Suc k))" if "k < p"
  proof -
    have k: "k < length ?t" using that by (simp add: p_def partition_point_def)
    then have "P (ls_end (text_lines bs ! k))"
      by (metis nth_mem set_takeWhileD takeWhile_nth)
    then show ?thesis using k len by (simp add: text_lines_nth)
  qed
  show "\<not> P (line_cut bs (Suc p))" if "p < length (split_lines bs)"
    using nth_length_takeWhile [of "\<lambda>l. P (ls_end l)" "text_lines bs"] that
    by (simp add: p_def partition_point_def text_lines_nth)
qed

lemma line_at_props:
  "line_at bs x \<le> length (split_lines bs)"
  "line_cut bs (line_at bs x) \<le> x"
  "line_at bs x < length (split_lines bs) \<Longrightarrow> x < line_cut bs (Suc (line_at bs x))"
  using partition_point_text_lines [where P = "\<lambda>e. e \<le> x" and bs = bs]
  by (simp_all add: line_at_def) (cases "line_at bs x"; simp add: line_at_def)

lemma line_of_end_props:
  "line_of_end bs x \<le> length (split_lines bs)"
  "0 < x \<Longrightarrow> line_cut bs (line_of_end bs x) < x"
  "line_of_end bs x < length (split_lines bs) \<Longrightarrow> x \<le> line_cut bs (Suc (line_of_end bs x))"
  using partition_point_text_lines [where P = "\<lambda>e. e < x" and bs = bs]
  by (simp_all add: line_of_end_def) (cases "line_of_end bs x"; simp add: line_of_end_def)

lemma line_at_less: "x < length bs \<Longrightarrow> line_at bs x < length (split_lines bs)"
  using line_at_props(1,2) [where bs = bs and x = x] by (cases "line_at bs x = length (split_lines bs)") auto

lemma line_of_end_less: "0 < x \<Longrightarrow> x \<le> length bs \<Longrightarrow> line_of_end bs x < length (split_lines bs)"
  using line_of_end_props(1,2) [where bs = bs and x = x] by (cases "line_of_end bs x = length (split_lines bs)") auto

section \<open>The end of a unit\<close>

definition text_small :: "bytes \<Rightarrow> bool" where
  "text_small bs \<longleftrightarrow> length bs \<le> MAX_SOURCE_OBJECT_BYTES"

lemma text_small_bound: "text_small bs \<Longrightarrow> length bs + MAX_PREPARATION_UNIT_BYTES < u64_bound"
  by (simp add: text_small_def MAX_SOURCE_OBJECT_BYTES_def MAX_PREPARATION_UNIT_BYTES_def)

lemma get_at_text_lines:
  "get_at (text_lines bs) k = (if k < length (split_lines bs) then
     Some \<lparr>ls_index = k, ls_start = line_cut bs k, ls_end = line_cut bs (Suc k),
       ls_content_end = line_cut bs k + line_content (split_lines bs ! k)\<rparr> else None)"
  by (simp add: get_at_def text_lines_nth)

lemma line_cut_bound: "length bs < u64_bound \<Longrightarrow> line_cut bs k < u64_bound"
  using line_cut_le [where bs = bs and k = k] by linarith

lemma choose_end_cases:
  assumes "start < length bs" and "text_small bs" and "preferred \<le> hard"
    and "hard \<le> MAX_PREPARATION_UNIT_BYTES"
  shows "choose_end bs (text_lines bs) start preferred hard =
    (let a = line_at bs (start + preferred) in
     if length bs - start \<le> preferred then Inr (length bs)
     else if start < line_cut bs a then Inr (line_cut bs a)
     else if line_cut bs (Suc a) \<le> start + hard then Inr (line_cut bs (Suc a))
     else scalar_end bs start (start + preferred) (min (start + hard) (length bs)))"
proof (cases "length bs - start \<le> preferred")
  case True
  then show ?thesis using assms text_small_bound [OF assms(2)]
    by (simp add: choose_end_def checked_add64_def)
next
  case False
  let ?a = "line_at bs (start + preferred)"
  have pos: "start + preferred < length bs" using False by simp
  have fits: "start + preferred < u64_bound" "start + hard < u64_bound" "length bs < u64_bound"
    using assms text_small_bound [OF assms(2)] by simp_all
  have a: "?a < length (split_lines bs)" using line_at_less [OF pos] .
  have before: "Option.bind (checked_sub ?a 1) (get_at (text_lines bs)) =
      (if ?a = 0 then None else get_at (text_lines bs) (?a - 1))"
    by (auto simp: checked_sub_def)
  have le: "line_cut bs (Suc ?a) \<le> min (start + hard) (length bs) \<longleftrightarrow> line_cut bs (Suc ?a) \<le> start + hard"
    using line_cut_le [where bs = bs and k = "Suc ?a"] by simp
  have pp: "partition_point (\<lambda>l. ls_end l \<le> start + preferred) (text_lines bs) = ?a"
    by (simp add: line_at_def)
  have mins: "min (start + preferred) (length bs) = start + preferred"
      "min (start + hard) (length bs) < u64_bound"
      "min (start + hard) (length bs) = length bs \<and> length bs - start \<le> preferred \<longleftrightarrow> False"
    using pos fits False by auto
  have cb: "line_cut bs k < u64_bound" for k by (rule line_cut_bound [OF fits(3)])
  show ?thesis
    unfolding choose_end_def Let_def
    apply (simp only: checked_add64_def fits if_True ok_or_simps bindE_simps mins if_False try_from_def pp before)
    using False pos a cb fits(1) line_cut_le [where bs = bs and k = "Suc ?a"]
    by (cases "?a") (simp_all add: get_at_text_lines)
qed

lemma back_to_boundary_props:
  "back_to_boundary bs start e \<le> e"
  "start < back_to_boundary bs start e \<Longrightarrow> is_char_boundary bs (back_to_boundary bs start e)"
  "back_to_boundary bs start e < k \<Longrightarrow> k \<le> e \<Longrightarrow> \<not> is_char_boundary bs k"
  by (induction e) (auto simp: le_Suc_eq split: if_splits)

lemma forward_to_boundary_props:
  "e \<le> forward_to_boundary bs hard e"
  "forward_to_boundary bs hard e \<le> hard \<Longrightarrow> is_char_boundary bs (forward_to_boundary bs hard e)"
  "is_char_boundary bs k \<Longrightarrow> e \<le> k \<Longrightarrow> forward_to_boundary bs hard e \<le> k"
proof (induction bs hard e rule: forward_to_boundary.induct)
  case (1 bs hard e)
  { case 1 then show ?case using "1.IH"(1) by (subst forward_to_boundary.simps) auto }
  { case 2 then show ?case using "1.IH"(2) by (subst (asm) forward_to_boundary.simps, subst forward_to_boundary.simps) (auto split: if_splits) }
  { case 3
    show ?case
    proof (cases "e \<le> hard \<and> \<not> is_char_boundary bs e")
      case True
      then have "e + 1 \<le> k" using 3 by (cases "e = k") auto
      then show ?thesis using "1.IH"(3) True 3 by (subst forward_to_boundary.simps) simp
    next
      case False
      then show ?thesis using 3 by (subst forward_to_boundary.simps) auto
    qed }
qed

lemma scalar_end_props:
  assumes "utf8_valid bs" "is_char_boundary bs start" "start < length bs" "length bs < u64_bound - 1"
    and "preferred \<le> hard" "hard \<le> length bs"
  shows "scalar_end bs start preferred hard = Inr e \<Longrightarrow>
      start < e \<and> e \<le> hard \<and> is_char_boundary bs e"
    and "scalar_end bs start preferred hard = Inl x \<Longrightarrow> x = UnitTooLarge \<and> hard < start + 4 \<and> hard < length bs"
proof -
  let ?b = "back_to_boundary bs start preferred" and ?f = "forward_to_boundary bs hard (start + 1)"
  note b = back_to_boundary_props [where bs = bs and start = start and e = preferred]
  note f = forward_to_boundary_props [where bs = bs and hard = hard and e = "start + 1"]
  have "start < e \<and> e \<le> hard \<and> is_char_boundary bs e" if "scalar_end bs start preferred hard = Inr e"
  proof (cases "?b \<le> start")
    case True
    with that assms f show ?thesis
      by (auto simp: scalar_end_def Let_def checked_add64_def split: if_splits)
  next
    case False
    with that b show ?thesis by (auto simp: scalar_end_def Let_def split: if_splits)
  qed
  then show "scalar_end bs start preferred hard = Inr e \<Longrightarrow>
      start < e \<and> e \<le> hard \<and> is_char_boundary bs e" .
  show "x = UnitTooLarge \<and> hard < start + 4 \<and> hard < length bs"
    if x: "scalar_end bs start preferred hard = Inl x"
  proof -
    obtain n where n: "1 \<le> n" "n \<le> 4" "is_char_boundary bs (start + n)" "start + n \<le> length bs"
      using next_boundary_within_four [OF assms(1-3)] by blast
    then have "?f \<le> start + n" using f(3) [of "start + n"] by simp
    moreover have "?b \<le> start \<and> hard < ?f \<and> x = UnitTooLarge"
      using x assms(3,4,5) b(1) f(1)
      by (auto simp: scalar_end_def Let_def checked_add64_def split: if_splits)
    ultimately show ?thesis using n by auto
  qed
qed

text \<open>
  Where a unit may end: after its start, within the hard size, at a scalar boundary, and at
  a line end whenever the hard size reaches one.
\<close>

definition good_end :: "bytes \<Rightarrow> nat \<Rightarrow> nat \<Rightarrow> nat \<Rightarrow> bool" where
  "good_end bs hard start e \<longleftrightarrow> start < e \<and> e \<le> length bs \<and> e - start \<le> hard \<and>
     is_char_boundary bs e \<and>
     ((\<exists>k \<in> {..length (split_lines bs)}. start < line_cut bs k \<and> line_cut bs k \<le> start + hard) \<longrightarrow>
      (\<exists>k \<in> {..length (split_lines bs)}. e = line_cut bs k))"

lemma good_end_cut:
  "utf8_valid bs \<Longrightarrow> k \<le> length (split_lines bs) \<Longrightarrow> start < line_cut bs k \<Longrightarrow>
   line_cut bs k \<le> start + hard \<Longrightarrow> good_end bs hard start (line_cut bs k)"
  using line_cut_boundary [of bs k] line_cut_le [where bs = bs and k = k] by (auto simp: good_end_def)

lemma choose_end_good:
  assumes "utf8_valid bs" "is_char_boundary bs start" "start < length bs" "text_small bs"
    and "preferred \<le> hard" "hard \<le> MAX_PREPARATION_UNIT_BYTES"
  shows "choose_end bs (text_lines bs) start preferred hard = Inr e \<Longrightarrow> good_end bs hard start e"
    and "choose_end bs (text_lines bs) start preferred hard = Inl x \<Longrightarrow> x = UnitTooLarge \<and> hard < 4"
proof -
  let ?a = "line_at bs (start + preferred)" and ?h = "min (start + hard) (length bs)"
  note eq = choose_end_cases [OF assms(3-6), unfolded Let_def]
  have small: "length bs < u64_bound - 1"
    using text_small_bound [OF assms(4)] by (simp add: MAX_PREPARATION_UNIT_BYTES_def)
  consider (all) "length bs - start \<le> preferred"
    | (line) "start + preferred < length bs" "start < line_cut bs ?a"
    | (beyond) "start + preferred < length bs" "line_cut bs ?a \<le> start" "line_cut bs (Suc ?a) \<le> start + hard"
    | (scalar) "start + preferred < length bs" "line_cut bs ?a \<le> start" "start + hard < line_cut bs (Suc ?a)"
    by linarith
  then have "(choose_end bs (text_lines bs) start preferred hard = Inr e \<longrightarrow> good_end bs hard start e) \<and>
    (choose_end bs (text_lines bs) start preferred hard = Inl x \<longrightarrow> x = UnitTooLarge \<and> hard < 4)"
  proof cases
    case all
    then show ?thesis using eq assms good_end_cut [OF assms(1) order_refl, of start hard] by auto
  next
    case line
    then have "good_end bs hard start (line_cut bs ?a)"
      using line_at_props(1,2) [where bs = bs and x = "start + preferred"] assms(5)
      by (intro good_end_cut [OF assms(1)]) auto
    then show ?thesis using eq line by auto
  next
    case beyond
    then have "good_end bs hard start (line_cut bs (Suc ?a))"
      using line_at_props(3) [OF line_at_less [OF beyond(1)]] line_at_less [OF beyond(1)]
      by (intro good_end_cut [OF assms(1)]) auto
    then show ?thesis using eq beyond by auto
  next
    case scalar
    have sc: "choose_end bs (text_lines bs) start preferred hard = scalar_end bs start (start + preferred) ?h"
      unfolding eq using scalar by auto
    have none: "\<not> (\<exists>k \<in> {..length (split_lines bs)}. start < line_cut bs k \<and> line_cut bs k \<le> start + hard)"
      using ln.no_cut_between [OF line_at_less [OF scalar(1)] scalar(2,3)] by auto
    have le: "start + preferred \<le> ?h" "?h \<le> length bs" using scalar assms(5) by auto
    note p = scalar_end_props [OF assms(1,2,3) small le]
    show ?thesis unfolding sc good_end_def using p none by fastforce
  qed
  then show "choose_end bs (text_lines bs) start preferred hard = Inr e \<Longrightarrow> good_end bs hard start e"
    and "choose_end bs (text_lines bs) start preferred hard = Inl x \<Longrightarrow> x = UnitTooLarge \<and> hard < 4"
    by blast+
qed

section \<open>The layout of a text\<close>

definition span_of :: "bytes \<Rightarrow> nat \<Rightarrow> nat \<Rightarrow> UnitSpan" where
  "span_of bs s e = \<lparr>us_start = s, us_end = e, us_line_start = line_at bs s,
     us_line_end = Suc (line_of_end bs e), us_starts_at_line = (line_cut bs (line_at bs s) = s),
     us_ends_at_line = (line_cut bs (Suc (line_of_end bs e)) = e)\<rparr>"

definition fit_end :: "bytes \<Rightarrow> nat \<Rightarrow> nat \<Rightarrow> nat \<Rightarrow> bool" where
  "fit_end bs hard s e \<longleftrightarrow> s < e \<and> e \<le> length bs \<and> e - s \<le> hard \<and> is_char_boundary bs e"

fun units_from :: "(nat \<Rightarrow> nat \<Rightarrow> bool) \<Rightarrow> bytes \<Rightarrow> nat \<Rightarrow> UnitSpan list \<Rightarrow> bool" where
  "units_from Q bs s [] \<longleftrightarrow> s = length bs"
| "units_from Q bs s (u # us) \<longleftrightarrow>
     u = span_of bs s (us_end u) \<and> Q s (us_end u) \<and> units_from Q bs (us_end u) us"

lemma good_end_fit: "good_end bs hard s e \<Longrightarrow> fit_end bs hard s e"
  by (simp add: good_end_def fit_end_def)

lemma units_from_mono: "units_from P bs s us \<Longrightarrow> (\<And>s e. P s e \<Longrightarrow> Q s e) \<Longrightarrow> units_from Q bs s us"
  by (induction us arbitrary: s) auto

lemma length_split_lines: "length (split_lines bs) \<le> length bs"
proof -
  have "k \<le> length (split_lines bs) \<Longrightarrow> k \<le> line_cut bs k" for k
  proof (induction k)
    case (Suc k)
    then show ?case using line_cut_less [of k bs] by simp
  qed simp
  from this [OF order_refl] show ?thesis by simp
qed

lemma unit_lines_span:
  assumes "s < e" "e \<le> length bs" "length bs < u64_bound"
  shows "bindE (unit_lines (text_lines bs) s e) (\<lambda>(first, final). unit_span s e first final) = Inr (span_of bs s e)"
    and "\<exists>x. unit_lines (text_lines bs) s e = Inr x"
proof -
  have l: "line_at bs s < length (split_lines bs)" "line_of_end bs e < length (split_lines bs)"
    using assms line_at_less line_of_end_less by auto
  have "Suc (line_of_end bs e) < u64_bound" "s < u64_bound" "e < u64_bound"
    using l(2) length_split_lines [of bs] assms by linarith+
  with l show "bindE (unit_lines (text_lines bs) s e) (\<lambda>(first, final). unit_span s e first final) = Inr (span_of bs s e)"
    and "\<exists>x. unit_lines (text_lines bs) s e = Inr x"
    by (simp_all add: unit_lines_def unit_span_def span_of_def try_from_def get_at_text_lines
        line_at_def [symmetric] line_of_end_def [symmetric] checked_add64_def)
qed

abbreviation prep_interrupts :: "PreparationError set" where
  "prep_interrupts \<equiv> {Cancelled, Deadline, AllocationFailed}"

lemma prep_check_Nil [simp]: "prep_check [] = Inr []"
  by (simp add: prep_check_def)

lemma polls_prep_check [interruptible_intros]: "polls prep_interrupts prep_check"
  unfolding prep_check_def by (rule polls_check) auto

lemma polls_prep_reserve [interruptible_intros]:
  "polls prep_interrupts (reserve_with AllocationFailed)"
  by (rule polls_reserve) simp

lemma unitize_loop_interruptible:
  "interruptible prep_interrupts (unitize_loop bs lines preferred hard m v s)"
proof (induction "length bs - s" arbitrary: v s rule: less_induct)
  case less
  have eq: "unitize_loop bs lines preferred hard m v s = (\<lambda>env.
     case v of (units, capacity) \<Rightarrow>
      if s < length bs then
        bindE (prep_check env) (\<lambda>env.
        if m \<le> length units then Inl TooManyUnits
        else bindE (choose_end bs lines s preferred hard) (\<lambda>e.
        if e \<le> s \<or> hard < e - s then Inl UnitTooLarge
        else bindE (unit_lines lines s e) (\<lambda>(first, final).
        bindE (if length units = capacity
          then bindE (reserve_with AllocationFailed env)
                 (\<lambda>env. Inr (capacity + min (max capacity 16) (m - length units), env))
          else Inr (capacity, env)) (\<lambda>(capacity, env).
        bindE (unit_span s e first final) (\<lambda>u.
        unitize_loop bs lines preferred hard m (units @ [u], capacity) e env)))))
      else Inr (units, env))"
    by (rule ext) (simp only: unitize_loop.simps [of bs lines preferred hard m v s])
  show ?case
    by (rule ssubst [where P = "interruptible prep_interrupts", OF eq])
      ((intro interruptible_intros less.hyps | simp add: split_def)+, auto)
qed

lemma unitize_text_interruptible: "interruptible prep_interrupts (unitize_text p s l)"
  unfolding unitize_text_def
  by (intro interruptible_intros unitize_loop_interruptible)

text \<open>What a run that is not interrupted gives from a position on.\<close>

definition layout_result ::
  "bytes \<Rightarrow> nat \<Rightarrow> nat \<Rightarrow> UnitSpan list \<Rightarrow> nat \<Rightarrow> PreparationError + UnitSpan list \<times> env \<Rightarrow> bool" where
  "layout_result bs hard m units s res \<longleftrightarrow>
     (case res of
        Inr (r, env) \<Rightarrow> \<exists>us. r = units @ us \<and> units_from (good_end bs hard) bs s us \<and> env = [] \<and>
          (us = [] \<or> length r \<le> m)
      | Inl x \<Rightarrow> x = UnitTooLarge \<and> hard < 4 \<or>
          x = TooManyUnits \<and> m < length units + (length bs - s))"

lemma layout_result_Cons:
  assumes "layout_result bs hard m (units @ [span_of bs s e]) e res" and "good_end bs hard s e"
    and "length units < m"
  shows "layout_result bs hard m units s res"
proof (cases res)
  case (Inl x)
  then show ?thesis using assms by (auto simp: layout_result_def good_end_def)
next
  case (Inr p)
  then obtain us where us: "fst p = (units @ [span_of bs s e]) @ us"
      "units_from (good_end bs hard) bs e us" "snd p = []" "us = [] \<or> length (fst p) \<le> m"
    using assms(1) by (cases p) (auto simp: layout_result_def)
  have "us_end (span_of bs s e) = e" by (simp add: span_of_def)
  then have "units_from (good_end bs hard) bs s (span_of bs s e # us)" using us(2) assms(2) by simp
  moreover have "length (fst p) \<le> m" using us assms(3) by auto
  ultimately show ?thesis using Inr us
    by (cases p) (auto simp: layout_result_def intro!: exI [of _ "span_of bs s e # us"])
qed

lemma unitize_loop_quiet:
  assumes "utf8_valid bs" "text_small bs" "preferred \<le> hard" "hard \<le> MAX_PREPARATION_UNIT_BYTES"
  shows "is_char_boundary bs s \<Longrightarrow>
    layout_result bs hard m units s (unitize_loop bs (text_lines bs) preferred hard m (units, cap) s [])"
proof (induction "length bs - s" arbitrary: units cap s rule: less_induct)
  case less
  have small: "length bs < u64_bound"
    using text_small_bound [OF assms(2)] by (simp add: MAX_PREPARATION_UNIT_BYTES_def)
  note loop = unitize_loop.simps [of bs "text_lines bs" preferred hard m "(units, cap)" s "[]"]
  let ?c = "choose_end bs (text_lines bs) s preferred hard"
  consider (stop) "s = length bs" | (full) "s < length bs" "m \<le> length units"
    | (err) x where "s < length bs" "length units < m" "?c = Inl x"
    | (unit) e where "s < length bs" "length units < m" "?c = Inr e"
    using is_char_boundary_mono [OF less.prems] by (cases ?c) force+
  then show ?case
  proof cases
    case (err x)
    then show ?thesis using choose_end_good(2) [OF assms(1) less.prems err(1) assms(2-4) err(3)]
      by (simp add: loop layout_result_def)
  next
    case (unit e)
    have g: "good_end bs hard s e"
      using choose_end_good(1) [OF assms(1) less.prems unit(1) assms(2-4) unit(3)] .
    then have e: "s < e" "e \<le> length bs" "e - s \<le> hard" "is_char_boundary bs e"
      by (auto simp: good_end_def)
    obtain a b where ab: "unit_lines (text_lines bs) s e = Inr (a, b)"
      using unit_lines_span(2) [OF e(1,2) small] by (metis surj_pair)
    then have sp: "unit_span s e a b = Inr (span_of bs s e)"
      using unit_lines_span(1) [OF e(1,2) small] by simp
    let ?cap = "if length units = cap then cap + min (max cap 16) (m - length units) else cap"
    have "unitize_loop bs (text_lines bs) preferred hard m (units, cap) s [] =
        unitize_loop bs (text_lines bs) preferred hard m (units @ [span_of bs s e], ?cap) e []"
      using unit e by (simp add: loop ab sp)
    moreover have "length bs - e < length bs - s" using e by simp
    ultimately show ?thesis
      using layout_result_Cons [OF less.hyps g unit(2)] e(4) by metis
  qed (simp_all add: unitize_loop.simps [of bs] layout_result_def)
qed

lemma unitize_text_Inr:
  assumes "unitize_text (materialized bs) settings limits env = Inr (units, env')"
    and "utf8_valid bs" "text_small bs" "is_supported settings"
  shows "units_from (good_end bs (max_unit_bytes settings)) bs 0 units \<and>
    length units \<le> pl_max_units limits \<and> unitize_text (materialized bs) settings limits [] = Inr (units, [])"
proof -
  have q: "unitize_text (materialized bs) settings limits [] = Inr (units, [])"
    using interruptible_Inr [OF unitize_text_interruptible assms(1)] .
  have s: "preferred_unit_bytes settings \<le> max_unit_bytes settings"
      "max_unit_bytes settings \<le> MAX_PREPARATION_UNIT_BYTES"
      "preferred_unit_bytes settings < u64_bound" "max_unit_bytes settings < u64_bound"
    using assms(4) by (auto simp: is_supported_def MAX_PREPARATION_UNIT_BYTES_def)
  have b: "is_char_boundary bs 0" by (simp add: is_char_boundary_def)
  obtain env1 where "unitize_loop bs (text_lines bs) (preferred_unit_bytes settings)
      (max_unit_bytes settings) (pl_max_units limits) ([], 0) 0 [] = Inr (units, env1)"
    using q s by (auto simp: unitize_text_def materialized_def try_from_def res_simps)
  with unitize_loop_quiet [OF assms(2,3) s(1,2) b, of "pl_max_units limits" "[]" 0] q show ?thesis
    by (auto simp: layout_result_def)
qed

lemma unitize_text_total:
  assumes "utf8_valid bs" "text_small bs" "is_supported settings" "4 \<le> max_unit_bytes settings"
    and "length bs \<le> pl_max_units limits"
  shows "\<exists>units. unitize_text (materialized bs) settings limits [] = Inr (units, [])"
proof -
  have s: "preferred_unit_bytes settings \<le> max_unit_bytes settings"
      "max_unit_bytes settings \<le> MAX_PREPARATION_UNIT_BYTES"
      "preferred_unit_bytes settings < u64_bound" "max_unit_bytes settings < u64_bound"
    using assms(3) by (auto simp: is_supported_def MAX_PREPARATION_UNIT_BYTES_def)
  have b: "is_char_boundary bs 0" by (simp add: is_char_boundary_def)
  obtain res where res: "res = unitize_loop bs (text_lines bs) (preferred_unit_bytes settings)
      (max_unit_bytes settings) (pl_max_units limits) ([], 0) 0 []" by blast
  have "layout_result bs (max_unit_bytes settings) (pl_max_units limits) [] 0 res"
    unfolding res by (rule unitize_loop_quiet [OF assms(1,2) s(1,2) b])
  then obtain units where "res = Inr (units, [])"
    using assms(4,5) by (auto simp: layout_result_def split: sum.splits prod.splits)
  then show ?thesis using res s by (simp add: unitize_text_def materialized_def try_from_def)
qed

lemma units_from_slices:
  "units_from Q bs s us \<Longrightarrow> (\<And>s e. Q s e \<Longrightarrow> s < e \<and> e \<le> length bs) \<Longrightarrow> s \<le> length bs \<Longrightarrow>
   concat (map (\<lambda>u. take (us_end u - us_start u) (drop (us_start u) bs)) us) = drop s bs"
proof (induction us arbitrary: s)
  case (Cons u us)
  let ?e = "us_end u"
  have e: "s < ?e" "?e \<le> length bs" "us_start u = s"
    using Cons.prems(1) Cons.prems(2) [of s ?e] by (auto simp: span_of_def) (metis UnitSpan.select_convs(1))
  have "take (?e - s) (drop s bs) @ drop ?e bs = drop s bs"
    using e append_take_drop_id [of "?e - s" "drop s bs"] by simp
  moreover have "units_from Q bs ?e us" using Cons.prems(1) by simp
  ultimately show ?case using Cons.IH [OF _ Cons.prems(2) e(2)] e by simp
qed simp

section \<open>How many units a text has\<close>

text \<open>
  A unit is short only when it ends at a line end behind which a long line follows, and then the
  unit after it is long enough: two units in a row cover almost the preferred size, so the number
  of units is bounded by the size of the text.
\<close>

definition unit_bound :: "nat \<Rightarrow> nat \<Rightarrow> nat" where
  "unit_bound preferred n = 2 * (n div (preferred - 3)) + 2"

lemma unit_bound_step:
  assumes "3 < preferred" "s + (preferred - 3) \<le> e" "e \<le> n"
  shows "unit_bound preferred (n - e) + 2 \<le> unit_bound preferred (n - s)"
proof -
  let ?q = "preferred - 3"
  have "(n - e) div ?q + 1 = (n - e + ?q) div ?q" using assms(1) div_add_self2 [of ?q "n - e"] by linarith
  also have "\<dots> \<le> (n - s) div ?q" by (rule div_le_mono) (use assms in linarith)
  finally show ?thesis by (simp add: unit_bound_def)
qed

lemma scalar_end_spaced:
  assumes "utf8_valid bs" "is_char_boundary bs start" "start < length bs" "length bs < u64_bound - 1"
    and "start + preferred \<le> hard" "hard \<le> length bs" "start + preferred < length bs" "3 < preferred"
    and "scalar_end bs start (start + preferred) hard = Inr e"
  shows "start + (preferred - 3) \<le> e"
proof -
  let ?b = "back_to_boundary bs start (start + preferred)"
  note b = back_to_boundary_props [where bs = bs and start = start and e = "start + preferred"]
  have "start < ?b"
  proof (rule ccontr)
    assume no: "\<not> start < ?b"
    obtain n where "1 \<le> n" "n \<le> 4" "is_char_boundary bs (start + n)"
      using next_boundary_within_four [OF assms(1-3)] by blast
    then show False using b(3) [of "start + n"] no assms(8) by auto
  qed
  then have e: "e = ?b" "is_char_boundary bs ?b" using assms(9) b(2) by (auto simp: scalar_end_def Let_def split: if_splits)
  have "?b < length bs" using b(1) assms(7) by linarith
  then obtain n where "1 \<le> n" "n \<le> 4" "is_char_boundary bs (?b + n)"
    using next_boundary_within_four [OF assms(1) e(2)] by blast
  then show ?thesis using b(3) [of "?b + n"] e(1) assms(8) by (cases "?b + n \<le> start + preferred") auto
qed

lemma choose_end_spaced:
  assumes "utf8_valid bs" "is_char_boundary bs start" "start < length bs" "text_small bs"
    and "preferred \<le> hard" "hard \<le> MAX_PREPARATION_UNIT_BYTES" "3 < preferred"
    and "choose_end bs (text_lines bs) start preferred hard = Inr e"
  shows "e = length bs \<or> start + (preferred - 3) \<le> e \<or>
    (\<exists>a < length (split_lines bs). e = line_cut bs a \<and> start + preferred < line_cut bs (Suc a))"
proof -
  let ?a = "line_at bs (start + preferred)"
  note eq = choose_end_cases [OF assms(3-6), unfolded Let_def]
  have small: "length bs < u64_bound - 1"
    using text_small_bound [OF assms(4)] by (simp add: MAX_PREPARATION_UNIT_BYTES_def)
  show ?thesis
  proof (cases "length bs - start \<le> preferred")
    case False
    then have pos: "start + preferred < length bs" by simp
    note a = line_at_less [OF pos] line_at_props(3) [OF line_at_less [OF pos]]
    have sc: "start + (preferred - 3) \<le> e" if "scalar_end bs start (start + preferred) (min (start + hard) (length bs)) = Inr e"
      using scalar_end_spaced [OF assms(1-3) small _ _ pos assms(7) that] assms(5) pos by simp
    show ?thesis using eq assms(8) False a sc by (auto split: if_splits)
  qed (use eq assms(8) in auto)
qed

lemma unitize_loop_step:
  assumes "utf8_valid bs" "text_small bs" "preferred \<le> hard" "hard \<le> MAX_PREPARATION_UNIT_BYTES" "4 \<le> hard"
    and "is_char_boundary bs s" "s < length bs" "length units < m"
  shows "\<exists>e cap'. choose_end bs (text_lines bs) s preferred hard = Inr e \<and> good_end bs hard s e \<and>
    unitize_loop bs (text_lines bs) preferred hard m (units, cap) s [] =
      unitize_loop bs (text_lines bs) preferred hard m (units @ [span_of bs s e], cap') e []"
proof -
  have small: "length bs < u64_bound"
    using text_small_bound [OF assms(2)] by (simp add: MAX_PREPARATION_UNIT_BYTES_def)
  note good = choose_end_good [OF assms(1,6,7,2-4)]
  obtain e where c: "choose_end bs (text_lines bs) s preferred hard = Inr e"
    using good(2) assms(5) by (cases "choose_end bs (text_lines bs) s preferred hard") force+
  have g: "good_end bs hard s e" using good(1) [OF c] .
  then have e: "s < e" "e \<le> length bs" "e - s \<le> hard" by (auto simp: good_end_def)
  obtain a b where ab: "unit_lines (text_lines bs) s e = Inr (a, b)"
    using unit_lines_span(2) [OF e(1,2) small] by (metis surj_pair)
  then have sp: "unit_span s e a b = Inr (span_of bs s e)"
    using unit_lines_span(1) [OF e(1,2) small] by simp
  show ?thesis using c g assms(7,8) e
    by (intro exI [of _ e] exI [of _ "if length units = cap then cap + min (max cap 16) (m - length units) else cap"])
      (simp add: unitize_loop.simps [of bs "text_lines bs" preferred hard m "(units, cap)" s "[]"] ab sp)
qed

lemma unitize_loop_done: "unitize_loop bs lines preferred hard m (units, cap) (length bs) [] = Inr (units, [])"
  by (simp add: unitize_loop.simps [of bs])

lemma unitize_loop_bounded:
  assumes "utf8_valid bs" "text_small bs" "preferred \<le> hard" "hard \<le> MAX_PREPARATION_UNIT_BYTES" "3 < preferred"
  shows "is_char_boundary bs s \<Longrightarrow> s \<le> length bs \<Longrightarrow>
    length units + unit_bound preferred (length bs - s) \<le> m \<Longrightarrow>
    \<exists>us. unitize_loop bs (text_lines bs) preferred hard m (units, cap) s [] = Inr (units @ us, []) \<and>
      length us \<le> unit_bound preferred (length bs - s)"
proof (induction "length bs - s" arbitrary: units cap s rule: less_induct)
  case less
  let ?loop = "unitize_loop bs (text_lines bs) preferred hard m" and ?n = "length bs"
  have four: "4 \<le> hard" using assms(3,5) by simp
  note step = unitize_loop_step [OF assms(1-4) four]
  note spaced = choose_end_spaced [OF assms(1) _ _ assms(2-5)]
  have two: "2 \<le> unit_bound preferred k" for k by (simp add: unit_bound_def)
  show ?case
  proof (cases "s = ?n")
    case True
    then show ?thesis by (simp add: unitize_loop_done)
  next
    case False
    then have s: "s < ?n" "length units < m" using less.prems two [of "?n - s"] by linarith+
    obtain e cap' where e: "choose_end bs (text_lines bs) s preferred hard = Inr e" "good_end bs hard s e"
        "?loop (units, cap) s [] = ?loop (units @ [span_of bs s e], cap') e []"
      using step [OF less.prems(1) s] by blast
    have g: "s < e" "e \<le> ?n" "is_char_boundary bs e" using e(2) by (auto simp: good_end_def)
    consider (all) "e = ?n" | (far) "s + (preferred - 3) \<le> e"
      | (line) a where "e \<noteq> ?n" "a < length (split_lines bs)" "e = line_cut bs a" "s + preferred < line_cut bs (Suc a)"
      using spaced [OF less.prems(1) s(1) e(1)] by blast
    then show ?thesis
    proof cases
      case all
      then show ?thesis using e(3) two [of "?n - s"] by (auto simp: unitize_loop_done)
    next
      case far
      note b = unit_bound_step [OF assms(5) far g(2)]
      obtain us where "?loop (units @ [span_of bs s e], cap') e [] = Inr ((units @ [span_of bs s e]) @ us, [])"
          "length us \<le> unit_bound preferred (?n - e)"
        using less.hyps [of e "units @ [span_of bs s e]" cap'] g s b less.prems(3) by fastforce
      then show ?thesis using e(3) b by (intro exI [of _ "span_of bs s e # us"]) simp
    next
      case line
      then have t: "e < ?n" "length (units @ [span_of bs s e]) < m"
        using g less.prems(3) two [of "?n - s"] by auto
      obtain f cap2 where f: "choose_end bs (text_lines bs) e preferred hard = Inr f" "good_end bs hard e f"
          "?loop (units @ [span_of bs s e], cap') e [] = ?loop ((units @ [span_of bs s e]) @ [span_of bs e f], cap2) f []"
        using step [OF g(3) t] by blast
      have h: "e < f" "f \<le> ?n" "is_char_boundary bs f" using f(2) by (auto simp: good_end_def)
      have far: "f = ?n \<or> s + (preferred - 3) \<le> f"
      proof -
        have "f = ?n \<or> s + (preferred - 3) \<le> f" if "f = line_cut bs k" for k
        proof -
          have "a < k" using h(1) line(3) that line_cut_mono [of k a bs] by (cases "a < k") auto
          then show ?thesis using line_cut_mono [of "Suc a" k bs] line(4) that by linarith
        qed
        then show ?thesis using spaced [OF g(3) t(1) f(1)] g(1) by fastforce
      qed
      let ?us = "units @ [span_of bs s e] @ [span_of bs e f]"
      show ?thesis
      proof (cases "f = ?n")
        case True
        then show ?thesis using e(3) f(3) two [of "?n - s"]
          by (intro exI [of _ "[span_of bs s e, span_of bs e f]"]) (simp add: unitize_loop_done)
      next
        case False
        then have b: "unit_bound preferred (?n - f) + 2 \<le> unit_bound preferred (?n - s)"
          using unit_bound_step [OF assms(5) _ h(2)] far by blast
        obtain us where "?loop (?us, cap2) f [] = Inr (?us @ us, [])" "length us \<le> unit_bound preferred (?n - f)"
          using less.hyps [of f ?us cap2] g h s b less.prems(3) by fastforce
        then show ?thesis using e(3) f(3) b by (intro exI [of _ "span_of bs s e # span_of bs e f # us"]) simp
      qed
    qed
  qed
qed

lemma unitize_text_bounded:
  assumes "utf8_valid bs" "text_small bs" "is_supported settings" "3 < preferred_unit_bytes settings"
    and "unit_bound (preferred_unit_bytes settings) (length bs) \<le> pl_max_units limits"
  shows "\<exists>units. unitize_text (materialized bs) settings limits [] = Inr (units, []) \<and>
    length units \<le> unit_bound (preferred_unit_bytes settings) (length bs)"
proof -
  have s: "preferred_unit_bytes settings \<le> max_unit_bytes settings"
      "max_unit_bytes settings \<le> MAX_PREPARATION_UNIT_BYTES"
      "preferred_unit_bytes settings < u64_bound" "max_unit_bytes settings < u64_bound"
    using assms(3) by (auto simp: is_supported_def MAX_PREPARATION_UNIT_BYTES_def)
  have b: "is_char_boundary bs 0" by (simp add: is_char_boundary_def)
  show ?thesis
    using unitize_loop_bounded [OF assms(1,2) s(1,2) assms(4) b, of "[]" "pl_max_units limits" 0] assms(5) s
    by (auto simp: unitize_text_def materialized_def try_from_def)
qed

end
