(* ===== verification/Artifact.thy ===== *)
theory Artifact
  imports Unitizer
begin

text \<open>
  The prepared artifact (crate \<open>search-unitizer\<close>, \<open>prepared.rs\<close> and
  \<open>prepared/\<close>): \<open>prepare_utf8\<close> materializes, unitizes and encodes one source;
  \<open>decode_prepared_utf8\<close> accepts a saved artifact without rebuilding the layout, with a
  line cursor of its own. BLAKE3 is the parameter \<open>blake3\<close>; hashing a text chunk by
  chunk gives the hash of the text, so the chunks only carry the polls.
\<close>

section \<open>Model: framing (\<open>wire.rs\<close>)\<close>

definition MAGIC :: bytes where
  "MAGIC = as_bytes ''ELSPRP01''"

definition VERSION :: nat where
  "VERSION = 1"

definition BINDING_BYTES :: nat where
  "BINDING_BYTES = 16 + 16 + 8 + 2 + 1 + 32 + 8"

definition SETTINGS_BYTES :: nat where
  "SETTINGS_BYTES = 2 + 2 + 4 + 4"

definition HEADER_BYTES :: nat where
  "HEADER_BYTES = length MAGIC + 2 + BINDING_BYTES + SETTINGS_BYTES + 8 + 8"

definition UNIT_BYTES :: nat where
  "UNIT_BYTES = 8 + 8 + 8 + 8 + 1 + 1"

definition encoded_size :: "nat \<Rightarrow> nat \<Rightarrow> PreparationError + nat" where
  "encoded_size txt units =
     ok_or OffsetOverflow
       (Option.bind (checked_mul64 units UNIT_BYTES) (\<lambda>sz.
        Option.bind (checked_add64 sz HEADER_BYTES) (\<lambda>sz. checked_add64 sz txt)))"

definition put_usize :: "bytes \<Rightarrow> nat \<Rightarrow> PreparationError + bytes" where
  "put_usize out v =
     bindE (ok_or OffsetOverflow (try_from u64_bound v)) (\<lambda>v. Inr (out @ le_bytes 8 v))"

definition art_take :: "nat \<Rightarrow> reader \<Rightarrow> PreparationError + bytes \<times> reader" where
  "art_take = rd_take OffsetOverflow InvalidArtifact"

definition art_uint :: "nat \<Rightarrow> reader \<Rightarrow> PreparationError + nat \<times> reader" where
  "art_uint k = rd_le art_take k"

definition art_usize :: "reader \<Rightarrow> PreparationError + nat \<times> reader" where
  "art_usize r = bindE (art_uint 8 r) (\<lambda>(v, r).
     bindE (ok_or OffsetOverflow (try_from u64_bound v)) (\<lambda>v. Inr (v, r)))"

definition art_boolean :: "reader \<Rightarrow> PreparationError + bool \<times> reader" where
  "art_boolean r = bindE (art_take 1 r) (\<lambda>(b, r).
     if b = [0] then Inr (False, r) else if b = [1] then Inr (True, r) else Inl InvalidArtifact)"

definition at_end :: "reader \<Rightarrow> bool" where
  "at_end r \<longleftrightarrow> fst r = []"

section \<open>Model: validation and digests (\<open>prepared.rs\<close>)\<close>

record PreparedUtf8 =
  pu_text :: bytes
  pu_units :: "UnitSpan list"

definition validate ::
  "CurrentSourceRecord \<Rightarrow> PreparationSettings \<Rightarrow> PreparationLimits \<Rightarrow> env \<Rightarrow>
   PreparationError + env" where
  "validate source settings limits env =
     bindE (prep_check env) (\<lambda>env.
     bindE (prep_limits_validate limits) (\<lambda>_.
     if \<not> is_supported settings then Inl InvalidSettings
     else if registration_revision source = 0 \<or> obj_kind (object_ref source) \<noteq> Source
         \<or> format_version (object_ref source) \<noteq> SOURCE_OBJECT_FORMAT_VERSION
         \<or> MAX_SOURCE_OBJECT_BYTES < byte_length (object_ref source)
     then Inl BindingMismatch
     else bindE (ok_or OffsetOverflow (try_from u64_bound (byte_length (object_ref source)))) (\<lambda>len.
          bindE (check_text_length limits len) (\<lambda>_. Inr env))))"

definition verify_digest ::
  "(bytes \<Rightarrow> bytes) \<Rightarrow> CurrentSourceRecord \<Rightarrow> bytes \<Rightarrow> env \<Rightarrow> PreparationError + env" where
  "verify_digest blake3 source bs env =
     bindE (poll_each prep_check (chunks 8192 bs) env) (\<lambda>env.
     bindE (prep_check env) (\<lambda>env.
     if blake3 bs \<noteq> digest (object_ref source) then Inl IntegrityFailure else Inr env))"

section \<open>Model: encoding (\<open>encode.rs\<close>)\<close>

fun put_chunks :: "bytes \<Rightarrow> bytes list \<Rightarrow> env \<Rightarrow> PreparationError + bytes \<times> env" where
  "put_chunks out [] env = Inr (out, env)"
| "put_chunks out (c # cs) env = bindE (prep_check env) (\<lambda>env. put_chunks (out @ c) cs env)"

definition byte_of_bool :: "bool \<Rightarrow> byte" where
  "byte_of_bool b = (if b then 1 else 0)"

definition put_unit :: "bytes \<Rightarrow> UnitSpan \<Rightarrow> PreparationError + bytes" where
  "put_unit out u =
     bindE (put_usize out (us_start u)) (\<lambda>out.
     bindE (put_usize out (us_end u)) (\<lambda>out.
     Inr (out @ le_bytes 8 (us_line_start u) @ le_bytes 8 (us_line_end u) @
          [byte_of_bool (us_starts_at_line u)] @ [byte_of_bool (us_ends_at_line u)])))"

fun put_units :: "bytes \<Rightarrow> UnitSpan list \<Rightarrow> env \<Rightarrow> PreparationError + bytes \<times> env" where
  "put_units out [] env = Inr (out, env)"
| "put_units out (u # us) env =
     bindE (prep_check env) (\<lambda>env. bindE (put_unit out u) (\<lambda>out. put_units out us env))"

definition binding_bytes :: "CurrentSourceRecord \<Rightarrow> PreparationSettings \<Rightarrow> bytes" where
  "binding_bytes source settings =
     MAGIC @ le_bytes 2 VERSION @ source_namespace_id source @ source_id source @
     le_bytes 8 (registration_revision source) @
     le_bytes 2 (format_version (object_ref source)) @ [kind_tag (obj_kind (object_ref source))] @
     digest (object_ref source) @ le_bytes 8 (byte_length (object_ref source)) @
     le_bytes 2 (utf8_version settings) @ le_bytes 2 (line_unitizer_version settings) @
     le_bytes 4 (preferred_unit_bytes settings) @ le_bytes 4 (max_unit_bytes settings)"

definition encode ::
  "CurrentSourceRecord \<Rightarrow> PreparationSettings \<Rightarrow> MaterializedText \<Rightarrow> UnitSpan list \<Rightarrow>
   PreparationLimits \<Rightarrow> env \<Rightarrow> PreparationError + bytes \<times> env" where
  "encode source settings product units limits env =
     bindE (prep_check env) (\<lambda>env.
     bindE (encoded_size (length (mt_text product)) (length units)) (\<lambda>sz.
     if pl_max_encoded_bytes limits < sz then Inl EncodedTooLarge
     else
       bindE (reserve_with AllocationFailed env) (\<lambda>env.
       bindE (put_usize (binding_bytes source settings) (length (mt_text product))) (\<lambda>out.
       bindE (put_usize out (length units)) (\<lambda>out.
       bindE (put_chunks out (chunks 8192 (mt_text product)) env) (\<lambda>(out, env).
       bindE (put_units out units env) (\<lambda>(out, env).
       bindE (prep_check env) (\<lambda>env. Inr (out, env)))))))))"

definition mat_limits :: "PreparationLimits \<Rightarrow> MaterializationLimits" where
  "mat_limits l = \<lparr>ml_max_input_bytes = pl_max_input_bytes l,
     ml_max_output_bytes = pl_max_output_bytes l, ml_max_lines = pl_max_lines l\<rparr>"

definition prepare_utf8 ::
  "(bytes \<Rightarrow> bytes) \<Rightarrow> CurrentSourceRecord \<Rightarrow> bytes \<Rightarrow> PreparationSettings \<Rightarrow>
   PreparationLimits \<Rightarrow> env \<Rightarrow> PreparationError + bytes \<times> env" where
  "prepare_utf8 blake3 source verified settings limits env =
     bindE (validate source settings limits env) (\<lambda>env.
     if try_from u64_bound (length verified) \<noteq> Some (byte_length (object_ref source))
     then Inl BindingMismatch
     else
       bindE (verify_digest blake3 source verified env) (\<lambda>env.
       bindE (mapErr prep_of_mat (materialize_utf8 verified (mat_limits limits) env)) (\<lambda>(product, env).
       bindE (unitize_text product settings limits env) (\<lambda>(units, env).
       encode source settings product units limits env))))"

section \<open>Model: the line cursor of the decoder (\<open>decode.rs\<close>)\<close>

record Line =
  l_start :: nat
  l_end :: nat
  l_index :: nat

function next_scan :: "bytes \<Rightarrow> nat \<Rightarrow> env \<Rightarrow> PreparationError + nat \<times> env" where
  "next_scan bs off env =
     (if off < length bs then
        bindE (if off mod 1024 = 0 then prep_check env else Inr env) (\<lambda>env.
          if terminator bs off = 0 then next_scan bs (off + 1) env
          else Inr (off + terminator bs off, env))
      else Inr (off, env))"
  by pat_completeness auto
termination
  by (relation "measure (\<lambda>(bs, off, env). length bs - off)") auto

declare next_scan.simps [simp del]

text \<open>The cursor is an offset and the index of the next line.\<close>

definition lines_next ::
  "bytes \<Rightarrow> nat \<Rightarrow> nat \<times> nat \<Rightarrow> env \<Rightarrow>
   PreparationError + (Line option \<times> nat \<times> nat) \<times> env" where
  "lines_next bs maximum st env =
     (case st of (off, index) \<Rightarrow>
      bindE (prep_check env) (\<lambda>env.
      if off = length bs then Inr ((None, st), env)
      else bindE (ok_or OffsetOverflow (try_from u64_bound index)) (\<lambda>i.
      if maximum \<le> i then Inl TooManyLines
      else bindE (next_scan bs off env) (\<lambda>(off', env).
           bindE (ok_or OffsetOverflow (checked_add64 index 1)) (\<lambda>index'.
           Inr ((Some \<lparr>l_start = off, l_end = off', l_index = index\<rparr>, (off', index')), env))))))"

text \<open>\<open>while c line.end { line = lines.next()? or InvalidArtifact }\<close>\<close>

function advance ::
  "(nat \<Rightarrow> bool) \<Rightarrow> bytes \<Rightarrow> nat \<Rightarrow> Line \<Rightarrow> nat \<times> nat \<Rightarrow> env \<Rightarrow>
   PreparationError + (Line \<times> nat \<times> nat) \<times> env" where
  "advance c bs maximum line st env =
     (if c (l_end line) then
        bindE (lines_next bs maximum st env) (\<lambda>((found, st), env).
        bindE (ok_or InvalidArtifact found) (\<lambda>line.
        advance c bs maximum line st env))
      else Inr ((line, st), env))"
  by pat_completeness auto
termination
  by (relation "measure (\<lambda>(c, bs, maximum, line, st, env). maximum - snd st)")
    (auto simp: lines_next_def res_simps split: if_splits)

declare advance.simps [simp del]

section \<open>Model: acceptance (\<open>decode.rs\<close>)\<close>

definition expect ::
  "PreparationError \<Rightarrow> (reader \<Rightarrow> PreparationError + 'a \<times> reader) \<Rightarrow> 'a \<Rightarrow> reader \<Rightarrow>
   PreparationError + reader" where
  "expect e get v r = bindE (get r) (\<lambda>(x, r). if x \<noteq> v then Inl e else Inr r)"

definition read_binding ::
  "CurrentSourceRecord \<Rightarrow> PreparationSettings \<Rightarrow> reader \<Rightarrow> PreparationError + reader" where
  "read_binding source settings r =
     bindE (expect InvalidArtifact (art_take (length MAGIC)) MAGIC r) (\<lambda>r.
     bindE (expect InvalidArtifact (art_uint 2) VERSION r) (\<lambda>r.
     bindE (expect BindingMismatch (art_take 16) (source_namespace_id source) r) (\<lambda>r.
     bindE (expect BindingMismatch (art_take 16) (source_id source) r) (\<lambda>r.
     bindE (expect BindingMismatch (art_uint 8) (registration_revision source) r) (\<lambda>r.
     bindE (expect BindingMismatch (art_uint 2) (format_version (object_ref source)) r) (\<lambda>r.
     bindE (expect BindingMismatch (art_take 1) [kind_tag (obj_kind (object_ref source))] r) (\<lambda>r.
     bindE (expect BindingMismatch (art_take 32) (digest (object_ref source)) r) (\<lambda>r.
     bindE (expect BindingMismatch (art_uint 8) (byte_length (object_ref source)) r) (\<lambda>r.
     bindE (expect BindingMismatch (art_uint 2) (utf8_version settings) r) (\<lambda>r.
     bindE (expect BindingMismatch (art_uint 2) (line_unitizer_version settings) r) (\<lambda>r.
     bindE (expect BindingMismatch (art_uint 4) (preferred_unit_bytes settings) r) (\<lambda>r.
     expect BindingMismatch (art_uint 4) (max_unit_bytes settings) r))))))))))))"

definition read_unit :: "reader \<Rightarrow> PreparationError + UnitSpan \<times> reader" where
  "read_unit r =
     bindE (art_usize r) (\<lambda>(s, r).
     bindE (art_usize r) (\<lambda>(e, r).
     bindE (art_uint 8 r) (\<lambda>(ls, r).
     bindE (art_uint 8 r) (\<lambda>(le, r).
     bindE (art_boolean r) (\<lambda>(sb, r).
     bindE (art_boolean r) (\<lambda>(eb, r).
     Inr (\<lparr>us_start = s, us_end = e, us_line_start = ls, us_line_end = le,
           us_starts_at_line = sb, us_ends_at_line = eb\<rparr>, r)))))))"

definition accept_unit ::
  "bytes \<Rightarrow> nat \<Rightarrow> nat \<Rightarrow> nat \<Rightarrow> Line option \<Rightarrow> nat \<times> nat \<Rightarrow> UnitSpan \<Rightarrow> env \<Rightarrow>
   PreparationError + (Line \<times> nat \<times> nat) \<times> env" where
  "accept_unit txt hard maximum expected_start current st u env =
     (if us_start u \<noteq> expected_start \<or> us_end u \<le> us_start u \<or> length txt < us_end u
         \<or> hard < us_end u - us_start u \<or> \<not> is_char_boundary txt (us_start u)
         \<or> \<not> is_char_boundary txt (us_end u)
      then Inl InvalidArtifact
      else
        bindE (ok_or InvalidArtifact current) (\<lambda>first.
        bindE (advance (\<lambda>e. e \<le> us_start u) txt maximum first st env) (\<lambda>((first, st), env).
        bindE (advance (\<lambda>e. e < us_end u) txt maximum first st env) (\<lambda>((final, st), env).
        if us_line_start u \<noteq> l_index first
           \<or> Some (us_line_end u) \<noteq> checked_add64 (l_index final) 1
           \<or> us_starts_at_line u \<noteq> (us_start u = l_start first)
           \<or> us_ends_at_line u \<noteq> (us_end u = l_end final)
        then Inl InvalidArtifact
        else Inr ((final, st), env)))))"

fun read_units_loop ::
  "nat \<Rightarrow> bytes \<Rightarrow> nat \<Rightarrow> nat \<Rightarrow> UnitSpan list \<Rightarrow> nat \<Rightarrow> Line option \<Rightarrow> nat \<times> nat \<Rightarrow> reader \<Rightarrow>
   env \<Rightarrow> PreparationError + (UnitSpan list \<times> nat \<times> reader) \<times> env" where
  "read_units_loop 0 txt hard maximum units start current st r env = Inr ((units, start, r), env)"
| "read_units_loop (Suc n) txt hard maximum units start current st r env =
     bindE (prep_check env) (\<lambda>env.
     bindE (read_unit r) (\<lambda>(u, r).
     bindE (accept_unit txt hard maximum start current st u env) (\<lambda>((final, st), env).
     read_units_loop n txt hard maximum (units @ [u]) (us_end u) (Some final) st r env)))"

definition read_units ::
  "bytes \<Rightarrow> nat \<Rightarrow> PreparationSettings \<Rightarrow> PreparationLimits \<Rightarrow> reader \<Rightarrow> env \<Rightarrow>
   PreparationError + (UnitSpan list \<times> reader) \<times> env" where
  "read_units txt count settings limits r env =
     (if (txt = []) \<noteq> (count = 0) then Inl InvalidArtifact
      else
        bindE (ok_or OffsetOverflow (try_from u64_bound (max_unit_bytes settings))) (\<lambda>hard.
        bindE (reserve_with AllocationFailed env) (\<lambda>env.
        bindE (lines_next txt (pl_max_lines limits) (0, 0) env) (\<lambda>((current, st), env).
        bindE (read_units_loop count txt hard (pl_max_lines limits) [] 0 current st r env)
          (\<lambda>((units, expected_start, r), env).
        if expected_start \<noteq> length txt then Inl InvalidArtifact
        else Inr ((units, r), env))))))"

definition decode ::
  "(bytes \<Rightarrow> bytes) \<Rightarrow> bytes \<Rightarrow> CurrentSourceRecord \<Rightarrow> PreparationSettings \<Rightarrow>
   PreparationLimits \<Rightarrow> env \<Rightarrow> PreparationError + PreparedUtf8 \<times> env" where
  "decode blake3 artifact source settings limits env =
     (if pl_max_encoded_bytes limits < length artifact then Inl EncodedTooLarge
      else if length artifact < HEADER_BYTES then Inl InvalidArtifact
      else
        bindE (read_binding source settings (artifact, 0)) (\<lambda>r.
        bindE (art_usize r) (\<lambda>(text_length, r).
        bindE (art_usize r) (\<lambda>(unit_count, r).
        if pl_max_units limits < unit_count then Inl TooManyUnits
        else bindE (check_text_length limits text_length) (\<lambda>_.
        if try_from u64_bound text_length \<noteq> Some (byte_length (object_ref source))
        then Inl BindingMismatch
        else bindE (encoded_size text_length unit_count) (\<lambda>sz.
        if sz \<noteq> length artifact then Inl InvalidArtifact
        else bindE (prep_check env) (\<lambda>env.
        bindE (art_take text_length r) (\<lambda>(txt, r).
        bindE (guardE InvalidArtifact (utf8_valid txt)) (\<lambda>_.
        bindE (verify_digest blake3 source txt env) (\<lambda>env.
        bindE (read_units txt unit_count settings limits r env) (\<lambda>((units, r), env).
        if \<not> at_end r then Inl InvalidArtifact
        else bindE (prep_check env) (\<lambda>env.
        Inr (\<lparr>pu_text = txt, pu_units = units\<rparr>, env)))))))))))))"

definition decode_prepared_utf8 ::
  "(bytes \<Rightarrow> bytes) \<Rightarrow> bytes \<Rightarrow> CurrentSourceRecord \<Rightarrow> PreparationSettings \<Rightarrow>
   PreparationLimits \<Rightarrow> env \<Rightarrow> PreparationError + PreparedUtf8 \<times> env" where
  "decode_prepared_utf8 blake3 artifact source settings limits env =
     bindE (validate source settings limits env) (\<lambda>env.
     decode blake3 artifact source settings limits env)"

section \<open>Interruption never changes a result\<close>

lemma polls_verify_digest [interruptible_intros]:
  "polls prep_interrupts (verify_digest blake3 source bs)"
  unfolding verify_digest_def [abs_def]
  by (intro interruptible_intros)

lemma polls_validate [interruptible_intros]:
  "polls prep_interrupts (validate source settings limits)"
  unfolding validate_def [abs_def]
  by (intro interruptible_intros)

lemma put_chunks_interruptible [interruptible_intros]:
  "interruptible prep_interrupts (put_chunks out cs)"
proof (induction cs arbitrary: out)
  case (Cons c cs)
  have eq: "put_chunks out (c # cs) = (\<lambda>env. bindE (prep_check env) (put_chunks (out @ c) cs))"
    by (rule ext) simp
  show ?case unfolding eq by (intro interruptible_intros Cons.IH)
qed (use interruptible_ret in \<open>simp add: interruptible_def refines_quiet_def\<close>)

lemma put_units_interruptible [interruptible_intros]:
  "interruptible prep_interrupts (put_units out us)"
proof (induction us arbitrary: out)
  case (Cons u us)
  have eq: "put_units out (u # us) =
      (\<lambda>env. bindE (prep_check env) (\<lambda>env. bindE (put_unit out u) (\<lambda>out. put_units out us env)))"
    by (rule ext) simp
  show ?case unfolding eq by (intro interruptible_intros Cons.IH)
qed (simp add: interruptible_def refines_quiet_def)

lemma materialize_interruptible [interruptible_intros]:
  "interruptible prep_interrupts (\<lambda>env. mapErr prep_of_mat (materialize_utf8 bs l env))"
  by (rule interruptible_mapErr [of mat_interrupts])
    (auto simp: interruptible_def materialize_utf8_refines)

lemma prepare_interruptible:
  "interruptible prep_interrupts (prepare_utf8 blake3 source bs settings limits)"
  unfolding prepare_utf8_def [abs_def] encode_def [abs_def]
  by (intro interruptible_intros unitize_text_interruptible)

lemma next_scan_interruptible [interruptible_intros]:
  "interruptible prep_interrupts (next_scan bs off)"
proof (induction "length bs - off" arbitrary: off rule: less_induct)
  case less
  have eq: "next_scan bs off = (\<lambda>env. if off < length bs then
        bindE (if off mod 1024 = 0 then prep_check env else Inr env) (\<lambda>env.
          if terminator bs off = 0 then next_scan bs (off + 1) env
          else Inr (off + terminator bs off, env))
      else Inr (off, env))"
    by (rule ext) (subst next_scan.simps, rule refl)
  show ?case
    by (rule ssubst [where P = "interruptible prep_interrupts", OF eq])
      (intro interruptible_intros less.hyps; simp)
qed

lemma lines_next_interruptible [interruptible_intros]:
  "interruptible prep_interrupts (lines_next bs maximum st)"
  unfolding lines_next_def [abs_def]
  by (intro interruptible_intros)

lemma lines_next_index:
  "lines_next bs maximum st [] = Inr ((Some l, st'), env') \<Longrightarrow> maximum - snd st' < maximum - snd st"
  by (cases st) (auto simp: lines_next_def res_simps split: if_splits)

lemma advance_interruptible [interruptible_intros]:
  "interruptible prep_interrupts (advance c bs maximum line st)"
proof (induction "maximum - snd st" arbitrary: line st rule: less_induct)
  case less
  have "refines_quiet prep_interrupts (advance c bs maximum line st env) (advance c bs maximum line st [])" for env
  proof (cases "c (l_end line)")
    case True
    note unf = advance.simps [of c bs maximum line st env] advance.simps [of c bs maximum line st "[]"]
    show ?thesis
    proof (cases "lines_next bs maximum st env")
      case (Inl e)
      then show ?thesis
        using interruptible_Inl [OF lines_next_interruptible Inl] True
        by (auto simp: unf refines_quiet_def)
    next
      case (Inr p)
      obtain found st' env' where p: "p = ((found, st'), env')" by (metis surj_pair)
      have q: "lines_next bs maximum st [] = Inr ((found, st'), [])"
        using interruptible_Inr [OF lines_next_interruptible] Inr p by blast
      have "refines_quiet prep_interrupts
          (bindE (ok_or InvalidArtifact found) (\<lambda>line. advance c bs maximum line st' env'))
          (bindE (ok_or InvalidArtifact found) (\<lambda>line. advance c bs maximum line st' []))"
        using less.hyps [of st'] lines_next_index [of bs maximum st] q
        by (intro refines_quiet_pure) (auto simp: res_simps interruptible_def)
      then show ?thesis using True Inr p q by (simp add: unf)
    qed
  qed (simp add: advance.simps [of c bs maximum line st] refines_quiet_def)
  then show ?case by (simp add: interruptible_def)
qed

lemma accept_unit_interruptible [interruptible_intros]:
  "interruptible prep_interrupts (accept_unit txt hard maximum start current st u)"
  unfolding accept_unit_def [abs_def]
  by (intro interruptible_intros)

lemma read_units_loop_interruptible [interruptible_intros]:
  "interruptible prep_interrupts (read_units_loop n txt hard maximum units start current st r)"
proof (induction n arbitrary: units start current st r)
  case (Suc n)
  have eq: "read_units_loop (Suc n) txt hard maximum units start current st r = (\<lambda>env.
     bindE (prep_check env) (\<lambda>env.
     bindE (read_unit r) (\<lambda>(u, r).
     bindE (accept_unit txt hard maximum start current st u env) (\<lambda>((final, st), env).
     read_units_loop n txt hard maximum (units @ [u]) (us_end u) (Some final) st r env))))"
    by (rule ext) simp
  show ?case unfolding eq by (intro interruptible_intros Suc.IH)
qed (simp add: interruptible_def refines_quiet_def)

lemma decode_interruptible:
  "interruptible prep_interrupts (decode_prepared_utf8 blake3 art source settings limits)"
  unfolding decode_prepared_utf8_def [abs_def] decode_def [abs_def] read_units_def [abs_def]
  by (intro interruptible_intros)

section \<open>The cursor enumerates the logical lines\<close>

definition line_of :: "bytes \<Rightarrow> nat \<Rightarrow> Line" where
  "line_of bs k = \<lparr>l_start = line_cut bs k, l_end = line_cut bs (Suc k), l_index = k\<rparr>"

definition cursor_after :: "bytes \<Rightarrow> nat \<Rightarrow> nat \<times> nat" where
  "cursor_after bs k = (line_cut bs k, k)"

lemma next_scan_from:
  assumes "start \<le> off" "off \<le> length bs" "start < length bs"
    and "\<And>i. start \<le> i \<Longrightarrow> i < off \<Longrightarrow> \<not> ends_line (bs ! i)"
  shows "next_scan bs off [] = Inr (start + line_length (drop start bs), [])"
  using assms
proof (induction "length bs - off" arbitrary: off rule: less_induct)
  case less
  note unf = next_scan.simps [of bs off "[]"]
  consider (stop) "off = length bs" | (skip) "off < length bs" "terminator bs off = 0"
    | (cut) "off < length bs" "terminator bs off \<noteq> 0"
    using less.prems(2) by linarith
  then show ?case
  proof cases
    case stop
    have "line_content (drop start bs) = length bs - start"
      using line_content_all [of start bs] less.prems stop by simp
    then show ?thesis using stop less.prems by (simp add: unf line_length_def Let_def next_scan.simps)
  next
    case skip
    then have "\<not> ends_line (bs ! i)" if "start \<le> i" "i < Suc off" for i
      using that less.prems(4) by (auto simp: terminator_pos less_Suc_eq)
    then show ?thesis using less.hyps [of "Suc off"] skip less.prems by (simp add: unf)
  next
    case cut
    then have "ends_line (bs ! off)" by (simp add: terminator_pos)
    from split_lines_at(2) [OF less.prems(1) cut(1) this less.prems(4)]
    show ?thesis using cut less.prems by (simp add: unf)
  qed
qed

lemma line_length_at_cut:
  assumes "k < length (split_lines bs)"
  shows "line_cut bs k + line_length (drop (line_cut bs k) bs) = line_cut bs (Suc k)"
proof -
  obtain r where r: "r = drop (line_cut bs k) bs" by blast
  have "split_lines r = split_lines bs ! k # drop (Suc k) (split_lines bs)"
    using split_lines_concat_drop [of k bs] assms r by (simp add: drop_line_cut Cons_nth_drop_Suc)
  moreover have ne: "r \<noteq> []" using calculation by auto
  ultimately have "split_lines bs ! k = take (line_length r) r"
    using split_lines.simps [of r] by simp
  then have "length (split_lines bs ! k) = line_length r"
    using line_length_bounds [OF ne] by simp
  then show ?thesis using line_cut_Suc [OF assms] r by simp
qed

lemma lines_next_cursor:
  assumes "length bs < u64_bound" "k \<le> length (split_lines bs)"
  shows "lines_next bs maximum (cursor_after bs k) [] =
    (if k = length (split_lines bs) then Inr ((None, cursor_after bs k), [])
     else if maximum \<le> k then Inl TooManyLines
     else Inr ((Some (line_of bs k), cursor_after bs (Suc k)), []))"
proof (cases "k = length (split_lines bs)")
  case False
  then have k: "k < length (split_lines bs)" using assms(2) by simp
  have lt: "line_cut bs k < length bs"
    using line_cut_less [OF k] line_cut_le [where bs = bs and k = "Suc k"] by linarith
  have "next_scan bs (line_cut bs k) [] = Inr (line_cut bs (Suc k), [])"
    using next_scan_from [of "line_cut bs k" "line_cut bs k" bs] lt line_length_at_cut [OF k] by simp
  moreover have "Suc k < u64_bound" using k length_split_lines [of bs] assms(1) by linarith
  ultimately show ?thesis using lt False
    by (simp add: lines_next_def cursor_after_def line_of_def try_from_def checked_add64_def)
qed (simp add: lines_next_def cursor_after_def)

text \<open>
  Advancing stops at the first line from \<open>k\<close> on whose end does not satisfy the condition.
\<close>

definition stops_at :: "(nat \<Rightarrow> bool) \<Rightarrow> bytes \<Rightarrow> nat \<Rightarrow> nat \<Rightarrow> bool" where
  "stops_at c bs k p \<longleftrightarrow> k \<le> p \<and> p < length (split_lines bs) \<and> \<not> c (line_cut bs (Suc p)) \<and>
     (\<forall>j. k \<le> j \<and> j < p \<longrightarrow> c (line_cut bs (Suc j)))"

lemma advance_step:
  assumes "length bs < u64_bound" "k < length (split_lines bs)" "c (line_cut bs (Suc k))"
  shows "advance c bs maximum (line_of bs k) (cursor_after bs (Suc k)) [] =
    (if Suc k = length (split_lines bs) then Inl InvalidArtifact
     else if maximum \<le> Suc k then Inl TooManyLines
     else advance c bs maximum (line_of bs (Suc k)) (cursor_after bs (Suc (Suc k))) [])"
  using assms lines_next_cursor [OF assms(1), of "Suc k" maximum]
  by (subst advance.simps) (simp add: line_of_def)

lemma advance_stop:
  "\<not> c (line_cut bs (Suc k)) \<Longrightarrow>
   advance c bs maximum (line_of bs k) st env = Inr ((line_of bs k, st), env)"
  by (subst advance.simps) (simp add: line_of_def)

lemma advance_reaches:
  assumes "length bs < u64_bound" "stops_at c bs k p" "p < maximum"
  shows "advance c bs maximum (line_of bs k) (cursor_after bs (Suc k)) [] =
    Inr ((line_of bs p, cursor_after bs (Suc p)), [])"
  using assms(2)
proof (induction "p - k" arbitrary: k)
  case 0
  then show ?case by (simp add: stops_at_def advance_stop)
next
  case (Suc d)
  then have kp: "k < p" "k < length (split_lines bs)" "c (line_cut bs (Suc k))"
    by (auto simp: stops_at_def)
  moreover have "stops_at c bs (Suc k) p" using Suc.prems kp(1) by (auto simp: stops_at_def)
  ultimately show ?case
    using advance_step [where c = c, OF assms(1) kp(2,3), of maximum] Suc.hyps(1) [of "Suc k"] Suc.hyps(2)
      Suc.prems assms(3) by (auto simp: stops_at_def)
qed

lemma advance_Inr:
  assumes "length bs < u64_bound"
    and "advance c bs maximum (line_of bs k) (cursor_after bs (Suc k)) [] = Inr ((l, st), env)"
    and "k < length (split_lines bs)"
  shows "\<exists>p. stops_at c bs k p \<and> l = line_of bs p \<and> st = cursor_after bs (Suc p) \<and> env = []"
  using assms(2,3)
proof (induction "length (split_lines bs) - k" arbitrary: k)
  case (Suc d)
  show ?case
  proof (cases "c (line_cut bs (Suc k))")
    case True
    then have next': "Suc k < length (split_lines bs)"
        "advance c bs maximum (line_of bs (Suc k)) (cursor_after bs (Suc (Suc k))) [] = Inr ((l, st), env)"
      using advance_step [where c = c, OF assms(1) Suc.prems(2) True] Suc.prems by (auto split: if_splits)
    then obtain p where p: "stops_at c bs (Suc k) p" "l = line_of bs p" "st = cursor_after bs (Suc p)" "env = []"
      using Suc.hyps(1) [of "Suc k"] Suc.hyps(2) by fastforce
    then have "stops_at c bs k p" using True by (auto simp: stops_at_def) (metis Suc_leI le_neq_implies_less)
    with p show ?thesis by blast
  next
    case False
    then show ?thesis using Suc.prems by (auto simp: advance_stop stops_at_def)
  qed
qed simp

lemma stops_at_line_at:
  assumes "line_cut bs k \<le> s" "s < length bs" "k \<le> length (split_lines bs)"
  shows "stops_at (\<lambda>e. e \<le> s) bs k p \<longleftrightarrow> p = line_at bs s"
proof -
  let ?q = "line_at bs s"
  note q = line_at_less [OF assms(2)] line_at_props(2,3) [where bs = bs and x = s]
  have kq: "k \<le> ?q"
  proof (rule ccontr)
    assume "\<not> k \<le> ?q"
    then show False using line_cut_mono [of "Suc ?q" k bs] q assms(1) by auto
  qed
  have "line_cut bs p \<le> s" if "stops_at (\<lambda>e. e \<le> s) bs k p"
  proof (cases "p = k")
    case False
    moreover have "k \<le> p" using that by (simp add: stops_at_def)
    ultimately obtain j where "p = Suc j" "k \<le> j" by (cases p) auto
    then show ?thesis using that by (auto simp: stops_at_def)
  qed (simp add: assms(1))
  then have "stops_at (\<lambda>e. e \<le> s) bs k p \<Longrightarrow> p = ?q"
    using q ln.start_unique [of p bs ?q s] by (auto simp: stops_at_def)
  moreover have "stops_at (\<lambda>e. e \<le> s) bs k ?q"
  proof -
    have "line_cut bs (Suc j) \<le> s" if "j < ?q" for j
      using line_cut_mono [of "Suc j" ?q bs] that q(2) by linarith
    then show ?thesis using kq q by (auto simp: stops_at_def)
  qed
  ultimately show ?thesis by blast
qed

lemma stops_at_line_of_end:
  assumes "line_cut bs k < e" "e \<le> length bs" "k \<le> length (split_lines bs)"
  shows "stops_at (\<lambda>x. x < e) bs k p \<longleftrightarrow> p = line_of_end bs e"
proof -
  let ?q = "line_of_end bs e"
  have pos: "0 < e" using assms(1) by simp
  note q = line_of_end_less [OF pos assms(2)] line_of_end_props(2,3) [where bs = bs and x = e]
  have kq: "k \<le> ?q"
  proof (rule ccontr)
    assume "\<not> k \<le> ?q"
    then show False using line_cut_mono [of "Suc ?q" k bs] q assms(1) by auto
  qed
  have "line_cut bs p < e" if "stops_at (\<lambda>x. x < e) bs k p"
  proof (cases "p = k")
    case False
    moreover have "k \<le> p" using that by (simp add: stops_at_def)
    ultimately obtain j where "p = Suc j" "k \<le> j" by (cases p) auto
    then show ?thesis using that by (auto simp: stops_at_def)
  qed (simp add: assms(1))
  then have "stops_at (\<lambda>x. x < e) bs k p \<Longrightarrow> p = ?q"
    using q pos ln.end_unique [of p bs ?q e] by (auto simp: stops_at_def)
  moreover have "stops_at (\<lambda>x. x < e) bs k ?q"
  proof -
    have "line_cut bs (Suc j) < e" if "j < ?q" for j
      using line_cut_mono [of "Suc j" ?q bs] that q(2) pos by linarith
    then show ?thesis using kq q by (auto simp: stops_at_def)
  qed
  ultimately show ?thesis by blast
qed

section \<open>Accepting one unit\<close>

lemma accept_unit_span:
  assumes "length bs < u64_bound" "fit_end bs hard s e" "is_char_boundary bs s"
    and "line_cut bs k \<le> s" "k < length (split_lines bs)" "length (split_lines bs) \<le> maximum"
  defines "q \<equiv> line_of_end bs e"
  shows "accept_unit bs hard maximum s (Some (line_of bs k)) (cursor_after bs (Suc k)) (span_of bs s e) [] =
    Inr ((line_of bs q, cursor_after bs (Suc q)), [])"
proof -
  let ?p = "line_at bs s"
  have e: "s < e" "e \<le> length bs" "s < length bs" using assms(2) by (auto simp: fit_end_def)
  have p: "?p < length (split_lines bs)" "line_cut bs ?p \<le> s"
    using line_at_less [OF e(3)] line_at_props(2) by blast+
  have q: "q < length (split_lines bs)" unfolding q_def using line_of_end_less e by simp
  have "stops_at (\<lambda>x. x \<le> s) bs k ?p"
    using stops_at_line_at [OF assms(4) e(3)] assms(5) by simp
  then have a1: "advance (\<lambda>x. x \<le> s) bs maximum (line_of bs k) (cursor_after bs (Suc k)) [] =
      Inr ((line_of bs ?p, cursor_after bs (Suc ?p)), [])"
    using advance_reaches [OF assms(1)] p assms(6) by simp
  have "line_cut bs ?p < e" using p(2) e(1) by linarith
  then have "stops_at (\<lambda>x. x < e) bs ?p q"
    using stops_at_line_of_end e(2) p(1) by (simp add: q_def)
  then have a2: "advance (\<lambda>x. x < e) bs maximum (line_of bs ?p) (cursor_after bs (Suc ?p)) [] =
      Inr ((line_of bs q, cursor_after bs (Suc q)), [])"
    using advance_reaches [OF assms(1)] q assms(6) by simp
  have "Suc q < u64_bound" using q length_split_lines [of bs] assms(1) by linarith
  then show ?thesis using assms(2,3) e a1 a2
    by (auto simp: accept_unit_def fit_end_def span_of_def line_of_def checked_add64_def q_def)
qed

lemma accept_unit_Inr:
  assumes "length bs < u64_bound" "line_cut bs k \<le> s" "k < length (split_lines bs)"
    and "accept_unit bs hard maximum s (Some (line_of bs k)) (cursor_after bs (Suc k)) u [] =
      Inr ((final, st), env)"
  defines "q \<equiv> line_of_end bs (us_end u)"
  shows "u = span_of bs s (us_end u) \<and> fit_end bs hard s (us_end u) \<and> final = line_of bs q \<and>
    st = cursor_after bs (Suc q) \<and> env = []"
proof -
  obtain first st1 env1 where g: "us_start u = s" "fit_end bs hard s (us_end u)"
    and a1: "advance (\<lambda>x. x \<le> s) bs maximum (line_of bs k) (cursor_after bs (Suc k)) [] = Inr ((first, st1), env1)"
    and a2: "advance (\<lambda>x. x < us_end u) bs maximum first st1 env1 = Inr ((final, st), env)"
    and f: "us_line_start u = l_index first" "checked_add64 (l_index final) 1 = Some (us_line_end u)"
      "us_starts_at_line u = (s = l_start first)" "us_ends_at_line u = (us_end u = l_end final)"
    using assms(4)
    by (auto simp: accept_unit_def res_simps fit_end_def simp del: checked_add64_Some split: if_splits)
  have s: "s < us_end u" "us_end u \<le> length bs" "s < length bs" using g(2) by (auto simp: fit_end_def)
  have p: "line_at bs s < length (split_lines bs)" "line_cut bs (line_at bs s) \<le> s"
    using line_at_less [OF s(3)] line_at_props(2) by blast+
  from advance_Inr [OF assms(1) a1 assms(3)]
  have 1: "first = line_of bs (line_at bs s)" "st1 = cursor_after bs (Suc (line_at bs s))" "env1 = []"
    using stops_at_line_at [OF assms(2) s(3)] assms(3) by auto
  have "line_cut bs (line_at bs s) < us_end u" using p(2) s(1) by linarith
  with advance_Inr [OF assms(1) a2 [unfolded 1] p(1)]
  have 2: "final = line_of bs q" "st = cursor_after bs (Suc q)" "env = []"
    using stops_at_line_of_end [OF _ s(2)] p(1) by (auto simp: q_def)
  have "u = span_of bs s (us_end u)"
    using f g(1) 1 2 by (cases u) (auto simp: span_of_def line_of_def q_def res_simps)
  then show ?thesis using g(2) 2 by blast
qed

section \<open>Units on the wire\<close>

definition unit_bytes :: "UnitSpan \<Rightarrow> bytes" where
  "unit_bytes u = le_bytes 8 (us_start u) @ le_bytes 8 (us_end u) @ le_bytes 8 (us_line_start u) @
     le_bytes 8 (us_line_end u) @ [byte_of_bool (us_starts_at_line u)] @ [byte_of_bool (us_ends_at_line u)]"

definition wf_unit :: "UnitSpan \<Rightarrow> bool" where
  "wf_unit u \<longleftrightarrow> us_start u < u64_bound \<and> us_end u < u64_bound \<and> us_line_start u < u64_bound \<and>
     us_line_end u < u64_bound"

lemma length_unit_bytes [simp]: "length (unit_bytes u) = UNIT_BYTES"
  by (simp add: unit_bytes_def UNIT_BYTES_def)

lemma art_take_app [codec_simps]:
  "length c = n \<Longrightarrow> pos + n < u64_bound \<Longrightarrow> art_take n (c @ rest, pos) = Inr (c, (rest, pos + n))"
  unfolding art_take_def by (rule rd.rtake_app)

lemma art_uint_app [codec_simps]:
  "v < 256 ^ k \<Longrightarrow> pos + k < u64_bound \<Longrightarrow> art_uint k (le_bytes k v @ rest, pos) = Inr (v, (rest, pos + k))"
  unfolding art_uint_def art_take_def by (rule rd.rtake_word)

lemma art_usize_app [codec_simps]:
  "v < u64_bound \<Longrightarrow> pos + 8 < u64_bound \<Longrightarrow> art_usize (le_bytes 8 v @ rest, pos) = Inr (v, (rest, pos + 8))"
  by (simp add: art_usize_def art_uint_app try_from_def)

lemma art_boolean_app [codec_simps]:
  "pos + 1 < u64_bound \<Longrightarrow> art_boolean (byte_of_bool b # rest, pos) = Inr (b, (rest, pos + 1))"
  using art_take_app [of "[byte_of_bool b]" 1 pos rest] by (simp add: art_boolean_def byte_of_bool_def)

lemma art_take_Inr:
  "art_take n r = Inr (c, r') \<Longrightarrow> length c = n \<and> fst r = c @ fst r' \<and> snd r' = snd r + n"
  unfolding art_take_def using rd.rtake_Inr by (cases r) fastforce

lemma art_uint_Inr:
  "art_uint k r = Inr (v, r') \<Longrightarrow> v < 256 ^ k \<and> fst r = le_bytes k v @ fst r' \<and> snd r' = snd r + k"
  unfolding art_uint_def art_take_def using rd.rtake_word_Inr by (cases r) fastforce

lemma art_usize_Inr:
  "art_usize r = Inr (v, r') \<Longrightarrow> v < u64_bound \<and> fst r = le_bytes 8 v @ fst r' \<and> snd r' = snd r + 8"
  by (auto simp: art_usize_def res_simps dest!: art_uint_Inr)

lemma art_boolean_Inr:
  "art_boolean r = Inr (b, r') \<Longrightarrow> fst r = byte_of_bool b # fst r' \<and> snd r' = snd r + 1"
  by (auto simp: art_boolean_def res_simps byte_of_bool_def dest!: art_take_Inr split: if_splits)

lemma read_unit_app [codec_simps]:
  "wf_unit u \<Longrightarrow> pos + UNIT_BYTES < u64_bound \<Longrightarrow>
   read_unit (unit_bytes u @ rest, pos) = Inr (u, (rest, pos + UNIT_BYTES))"
  by (cases u) (simp add: read_unit_def unit_bytes_def wf_unit_def UNIT_BYTES_def art_usize_app
      art_uint_app art_boolean_app)

lemma read_unit_Inr:
  "read_unit r = Inr (u, r') \<Longrightarrow>
   wf_unit u \<and> fst r = unit_bytes u @ fst r' \<and> snd r' = snd r + UNIT_BYTES"
  by (auto simp: read_unit_def unit_bytes_def wf_unit_def UNIT_BYTES_def res_simps
      dest!: art_usize_Inr art_uint_Inr art_boolean_Inr)

lemma span_of_wf:
  assumes "length bs < u64_bound" "s < e" "e \<le> length bs"
  shows "wf_unit (span_of bs s e)"
proof -
  have "line_at bs s < length (split_lines bs)" "line_of_end bs e < length (split_lines bs)"
    using assms line_at_less line_of_end_less by auto
  then show ?thesis using assms length_split_lines [of bs] by (simp add: wf_unit_def span_of_def)
qed

section \<open>Accepting the inventory\<close>

lemma read_units_loop_app:
  assumes "length bs < u64_bound" "length (split_lines bs) \<le> maximum"
  shows "units_from (fit_end bs hard) bs s us \<Longrightarrow> is_char_boundary bs s \<Longrightarrow> line_cut bs k \<le> s \<Longrightarrow>
    k < length (split_lines bs) \<Longrightarrow> pos + UNIT_BYTES * length us < u64_bound \<Longrightarrow>
    read_units_loop (length us) bs hard maximum acc s (Some (line_of bs k)) (cursor_after bs (Suc k))
      (concat (map unit_bytes us) @ rest, pos) [] =
    Inr ((acc @ us, length bs, (rest, pos + UNIT_BYTES * length us)), [])"
proof (induction us arbitrary: acc s k pos)
  case (Cons u us)
  let ?e = "us_end u" and ?q = "line_of_end bs (us_end u)"
  have u: "u = span_of bs s ?e" "fit_end bs hard s ?e" "units_from (fit_end bs hard) bs ?e us"
    using Cons.prems(1) by auto
  then have e: "s < ?e" "?e \<le> length bs" "is_char_boundary bs ?e" by (auto simp: fit_end_def)
  have w: "wf_unit u" using span_of_wf [OF assms(1) e(1,2)] u(1) by simp
  have acc: "accept_unit bs hard maximum s (Some (line_of bs k)) (cursor_after bs (Suc k)) u [] =
      Inr ((line_of bs ?q, cursor_after bs (Suc ?q)), [])"
    using accept_unit_span [OF assms(1) u(2) Cons.prems(2-4) assms(2)] u(1) by simp
  have q: "?q < length (split_lines bs)" "line_cut bs ?q \<le> ?e"
    using line_of_end_less [of ?e bs] line_of_end_props(2) [of ?e bs] e by auto
  have pos: "pos + UNIT_BYTES < u64_bound" "(pos + UNIT_BYTES) + UNIT_BYTES * length us < u64_bound"
    using Cons.prems(5) by simp_all
  show ?case
    using Cons.IH [OF u(3) e(3) q(2,1) pos(2)] acc read_unit_app [OF w pos(1)]
    by (simp add: ac_simps)
qed simp

lemma read_units_loop_Inr:
  assumes "length bs < u64_bound"
  shows "read_units_loop n bs hard maximum acc s (Some (line_of bs k)) (cursor_after bs (Suc k)) r [] =
      Inr ((units, length bs, r'), env) \<Longrightarrow> line_cut bs k \<le> s \<Longrightarrow> k < length (split_lines bs) \<Longrightarrow>
    \<exists>us. units = acc @ us \<and> length us = n \<and> units_from (fit_end bs hard) bs s us \<and>
      fst r = concat (map unit_bytes us) @ fst r'"
proof (induction n arbitrary: acc s k r)
  case (Suc n)
  obtain u r1 final st env1 where u: "read_unit r = Inr (u, r1)"
    and a: "accept_unit bs hard maximum s (Some (line_of bs k)) (cursor_after bs (Suc k)) u [] =
      Inr ((final, st), env1)"
    and l: "read_units_loop n bs hard maximum (acc @ [u]) (us_end u) (Some final) st r1 env1 =
      Inr ((units, length bs, r'), env)"
    using Suc.prems(1) by (auto simp: res_simps)
  note s = accept_unit_Inr [OF assms Suc.prems(2,3) a]
  have e: "s < us_end u" "us_end u \<le> length bs" using s by (auto simp: fit_end_def)
  let ?q = "line_of_end bs (us_end u)"
  have q: "?q < length (split_lines bs)" "line_cut bs ?q \<le> us_end u"
    using line_of_end_less [of "us_end u" bs] line_of_end_props(2) [of "us_end u" bs] e by auto
  obtain us where "units = (acc @ [u]) @ us" "length us = n" "units_from (fit_end bs hard) bs (us_end u) us"
      "fst r1 = concat (map unit_bytes us) @ fst r'"
    using Suc.IH [of "acc @ [u]" "us_end u" ?q r1] l s q by auto
  then show ?case using s read_unit_Inr [OF u] by (intro exI [of _ "u # us"]) auto
qed auto

lemma units_from_Nil: "units_from (fit_end bs hard) bs s us \<Longrightarrow> s \<le> length bs \<Longrightarrow> us = [] \<longleftrightarrow> s = length bs"
  by (cases us) (auto simp: fit_end_def)

lemma read_units_app:
  assumes "length bs < u64_bound" "length (split_lines bs) \<le> pl_max_lines limits"
    and "units_from (fit_end bs (max_unit_bytes settings)) bs 0 us" "max_unit_bytes settings < u64_bound"
    and "pos + UNIT_BYTES * length us < u64_bound"
  shows "read_units bs (length us) settings limits (concat (map unit_bytes us) @ rest, pos) [] =
    Inr ((us, (rest, pos + UNIT_BYTES * length us)), [])"
proof -
  have emp: "us = [] \<longleftrightarrow> bs = []" using units_from_Nil [OF assms(3)] by auto
  have nx: "lines_next bs (pl_max_lines limits) (0, 0) [] =
      (if bs = [] then Inr ((None, (0, 0)), []) else Inr ((Some (line_of bs 0), cursor_after bs (Suc 0)), []))"
    using lines_next_cursor [OF assms(1), of 0 "pl_max_lines limits"] assms(2)
    by (auto simp: cursor_after_def split: if_splits)
  show ?thesis
  proof (cases "bs = []")
    case True
    then show ?thesis using emp nx assms(4) by (simp add: read_units_def try_from_def)
  next
    case False
    have "is_char_boundary bs 0" by (simp add: is_char_boundary_def)
    with read_units_loop_app [OF assms(1,2,3) this, of 0 pos "[]" rest] False assms(4,5)
    show ?thesis using emp nx by (simp add: read_units_def try_from_def)
  qed
qed

lemma read_units_Inr:
  assumes "length bs < u64_bound"
    and "read_units bs n settings limits r [] = Inr ((units, r'), env)"
  shows "length units = n \<and> units_from (fit_end bs (max_unit_bytes settings)) bs 0 units \<and>
    fst r = concat (map unit_bytes units) @ fst r'"
proof (cases "bs = []")
  case True
  then show ?thesis using assms(2) by (auto simp: read_units_def res_simps split: if_splits)
next
  case False
  obtain cur st env1 where nx: "lines_next bs (pl_max_lines limits) (0, 0) [] = Inr ((cur, st), env1)"
    and l: "read_units_loop n bs (max_unit_bytes settings) (pl_max_lines limits) [] 0 cur st r env1 =
      Inr ((units, length bs, r'), env)"
    using assms(2) by (auto simp: read_units_def res_simps split: if_splits)
  have "cur = Some (line_of bs 0)" "st = cursor_after bs (Suc 0)" "env1 = []"
    using lines_next_cursor [OF assms(1), of 0 "pl_max_lines limits"] nx False
    by (auto simp: cursor_after_def split: if_splits)
  with read_units_loop_Inr [OF assms(1), of n "max_unit_bytes settings" "pl_max_lines limits" "[]" 0 0 r] l False
  show ?thesis by auto
qed

section \<open>The whole artifact\<close>

definition artifact_bytes ::
  "CurrentSourceRecord \<Rightarrow> PreparationSettings \<Rightarrow> bytes \<Rightarrow> UnitSpan list \<Rightarrow> bytes" where
  "artifact_bytes source settings txt units =
     binding_bytes source settings @ le_bytes 8 (length txt) @ le_bytes 8 (length units) @ txt @
     concat (map unit_bytes units)"

lemma length_MAGIC [simp]: "length MAGIC = 8"
  by (simp add: MAGIC_def)

lemma HEADER_BYTES_val: "HEADER_BYTES = 121"
  by (simp add: HEADER_BYTES_def BINDING_BYTES_def SETTINGS_BYTES_def)

lemma length_binding_bytes [simp]: "wf_source source \<Longrightarrow> length (binding_bytes source settings) = 105"
  by (simp add: binding_bytes_def wf_source_def wf_object_def)

lemma length_artifact_bytes [simp]:
  "wf_source source \<Longrightarrow>
   length (artifact_bytes source settings txt units) = length units * UNIT_BYTES + HEADER_BYTES + length txt"
  by (induction units) (simp_all add: artifact_bytes_def HEADER_BYTES_val)

lemma encoded_size_eq:
  "encoded_size n m =
     (if m * UNIT_BYTES + HEADER_BYTES + n < u64_bound then Inr (m * UNIT_BYTES + HEADER_BYTES + n)
      else Inl OffsetOverflow)"
  by (auto simp: encoded_size_def checked_mul64_def checked_add64_def)

lemma expect_app:
  "get (c @ rest, pos) = Inr (v, r) \<Longrightarrow> expect e get v (c @ rest, pos) = Inr r"
  by (simp add: expect_def)

lemma expect_Inr: "expect e get v r = Inr r' \<Longrightarrow> get r = Inr (v, r')"
  by (auto simp: expect_def res_simps split: if_splits)

lemma read_binding_app [codec_simps]:
  assumes "wf_source source" "wf_settings settings"
  shows "read_binding source settings (binding_bytes source settings @ rest, 0) = Inr (rest, 105)"
proof -
  have k: "art_take (Suc 0) (kind_tag k # r, pos) = Inr ([kind_tag k], (r, pos + 1))"
    if "pos + 1 < u64_bound" for k r pos
    using art_take_app [of "[kind_tag k]" 1 pos r] that by simp
  show ?thesis using assms
    by (simp add: read_binding_def binding_bytes_def wf_source_def wf_object_def wf_settings_def
        expect_def art_take_app art_uint_app k VERSION_def)
qed

lemma read_binding_Inr:
  "read_binding source settings r = Inr r' \<Longrightarrow>
   fst r = binding_bytes source settings @ fst r' \<and> snd r' = snd r + 105"
  unfolding read_binding_def bindE_Inr
  by (elim exE conjE) (auto simp: binding_bytes_def dest!: expect_Inr art_take_Inr art_uint_Inr)

lemma binding_bytes_inject:
  assumes "binding_bytes source settings = binding_bytes source' settings'"
    and "wf_source source" "wf_source source'" "wf_settings settings" "wf_settings settings'"
  shows "source_namespace_id source = source_namespace_id source' \<and> source_id source = source_id source' \<and>
    registration_revision source = registration_revision source' \<and>
    object_ref source = object_ref source' \<and> settings = settings'"
  using assms
  by (simp add: binding_bytes_def wf_source_def wf_object_def wf_settings_def le_bytes_eq_iff)

lemma put_usize_quiet: "v < u64_bound \<Longrightarrow> put_usize out v = Inr (out @ le_bytes 8 v)"
  by (simp add: put_usize_def try_from_def)

lemma put_chunks_quiet: "put_chunks out cs [] = Inr (out @ concat cs, [])"
  by (induction cs arbitrary: out) simp_all

lemma put_units_quiet:
  "\<forall>u \<in> set us. wf_unit u \<Longrightarrow> put_units out us [] = Inr (out @ concat (map unit_bytes us), [])"
  by (induction us arbitrary: out)
    (simp_all add: put_unit_def put_usize_quiet wf_unit_def unit_bytes_def)

lemma encode_quiet:
  assumes "wf_source source" "\<forall>u \<in> set units. wf_unit u"
  shows "encode source settings (materialized bs) units limits [] =
    (let sz = length (artifact_bytes source settings bs units) in
     if u64_bound \<le> sz then Inl OffsetOverflow
     else if pl_max_encoded_bytes limits < sz then Inl EncodedTooLarge
     else Inr (artifact_bytes source settings bs units, []))"
proof (cases "length units * UNIT_BYTES + HEADER_BYTES + length bs < u64_bound")
  case True
  then have "length bs < u64_bound" "length units < u64_bound" by (simp_all add: UNIT_BYTES_def)
  then show ?thesis using True assms
    by (simp add: encode_def encoded_size_eq Let_def materialized_def put_usize_quiet put_chunks_quiet
        put_units_quiet artifact_bytes_def del: length_artifact_bytes)
      (simp add: HEADER_BYTES_val UNIT_BYTES_def length_concat comp_def sum_list_triv)
qed (use assms in \<open>simp add: encode_def encoded_size_eq Let_def materialized_def\<close>)

section \<open>Preparation\<close>

text \<open>The conditions that \<open>validate\<close> checks of a source, settings and ceilings.\<close>

definition admitted :: "CurrentSourceRecord \<Rightarrow> PreparationSettings \<Rightarrow> PreparationLimits \<Rightarrow> bool" where
  "admitted source settings limits \<longleftrightarrow>
     prep_limits_validate limits = Inr () \<and> is_supported settings \<and>
     registration_revision source \<noteq> 0 \<and> obj_kind (object_ref source) = Source \<and>
     format_version (object_ref source) = SOURCE_OBJECT_FORMAT_VERSION \<and>
     byte_length (object_ref source) \<le> MAX_SOURCE_OBJECT_BYTES \<and>
     byte_length (object_ref source) \<le> pl_max_input_bytes limits \<and>
     byte_length (object_ref source) \<le> pl_max_output_bytes limits"

lemma validate_quiet: "is_ok (validate source settings limits []) \<longleftrightarrow> admitted source settings limits"
  "validate source settings limits [] = Inr env \<Longrightarrow> env = []"
  by (auto simp: validate_def admitted_def is_ok_iff res_simps check_text_length_def try_from_def
      MAX_SOURCE_OBJECT_BYTES_def split: if_splits)

lemma validate_admitted: "admitted source settings limits \<Longrightarrow> validate source settings limits [] = Inr []"
  using validate_quiet [of source settings limits] by (auto simp: is_ok_iff)

lemma verify_digest_quiet:
  "verify_digest blake3 source bs [] =
     (if blake3 bs = digest (object_ref source) then Inr [] else Inl IntegrityFailure)"
  by (simp add: verify_digest_def)

lemma prep_limits_mat: "prep_limits_validate l = Inr () \<Longrightarrow> limits_validate (mat_limits l) = Inr ()"
  by (auto simp: prep_limits_validate_def limits_validate_def mat_limits_def res_simps split: if_splits)

text \<open>The input text a source row names, and the text conditions of the transform.\<close>

definition input_of :: "(bytes \<Rightarrow> bytes) \<Rightarrow> CurrentSourceRecord \<Rightarrow> bytes \<Rightarrow> bool" where
  "input_of blake3 source bs \<longleftrightarrow>
     length bs = byte_length (object_ref source) \<and> blake3 bs = digest (object_ref source)"

definition preparable :: "bytes \<Rightarrow> PreparationLimits \<Rightarrow> bool" where
  "preparable bs limits \<longleftrightarrow>
     \<not> is_binary bs \<and> utf8_valid bs \<and> length (split_lines bs) \<le> pl_max_lines limits"

lemma units_from_good_wf:
  "units_from (good_end bs hard) bs s us \<Longrightarrow> length bs < u64_bound \<Longrightarrow> \<forall>u \<in> set us. wf_unit u"
proof (induction us arbitrary: s)
  case (Cons u us)
  then have u: "u = span_of bs s (us_end u)" "s < us_end u" "us_end u \<le> length bs"
    by (auto simp: good_end_def)
  then have "wf_unit u" using span_of_wf [OF Cons.prems(2) u(2,3)] by simp
  then show ?case using Cons by auto
qed simp

lemma prepare_quiet:
  assumes "wf_source source" "admitted source settings limits" "input_of blake3 source bs" "preparable bs limits"
    and "unitize_text (materialized bs) settings limits [] = Inr (units, [])"
  shows "prepare_utf8 blake3 source bs settings limits [] =
    (if u64_bound \<le> length (artifact_bytes source settings bs units) then Inl OffsetOverflow
     else if pl_max_encoded_bytes limits < length (artifact_bytes source settings bs units)
     then Inl EncodedTooLarge
     else Inr (artifact_bytes source settings bs units, []))"
proof -
  have small: "text_small bs" "length bs < u64_bound"
    using assms(2,3) by (auto simp: admitted_def input_of_def text_small_def MAX_SOURCE_OBJECT_BYTES_def)
  have "materialize_utf8 bs (mat_limits limits) [] = Inr (materialized bs, [])"
    using materialize_utf8_quiet [OF small(2) prep_limits_mat] assms(2,3,4)
    by (simp add: admitted_def input_of_def preparable_def mat_limits_def)
  moreover have "\<forall>u \<in> set units. wf_unit u"
    using unitize_text_Inr [OF assms(5)] assms(2,4) small units_from_good_wf
    by (auto simp: admitted_def preparable_def)
  ultimately show ?thesis
    using assms small validate_admitted [OF assms(2)]
    by (simp add: prepare_utf8_def verify_digest_quiet input_of_def encode_quiet Let_def try_from_def
        del: length_artifact_bytes)
qed

lemma prepare_Inr:
  assumes "prepare_utf8 blake3 source bs settings limits env = Inr (art, env')" "wf_source source"
  obtains units where "art = artifact_bytes source settings bs units"
    "units_from (good_end bs (max_unit_bytes settings)) bs 0 units"
    "length units \<le> pl_max_units limits" "length art \<le> pl_max_encoded_bytes limits" "length art < u64_bound"
    "admitted source settings limits" "input_of blake3 source bs" "preparable bs limits"
    "unitize_text (materialized bs) settings limits [] = Inr (units, [])"
proof -
  have q: "prepare_utf8 blake3 source bs settings limits [] = Inr (art, [])"
    using interruptible_Inr [OF prepare_interruptible assms(1)] .
  obtain env1 where v: "validate source settings limits [] = Inr env1"
    using q by (auto simp: prepare_utf8_def res_simps)
  have adm: "admitted source settings limits" "env1 = []"
    using validate_quiet [of source settings limits] v by (auto simp: is_ok_iff)
  have inp: "input_of blake3 source bs"
    using q v adm by (auto simp: prepare_utf8_def input_of_def verify_digest_quiet res_simps split: if_splits)
  have small: "text_small bs" "length bs < u64_bound"
    using adm inp by (auto simp: admitted_def input_of_def text_small_def MAX_SOURCE_OBJECT_BYTES_def)
  obtain product env2 where m: "materialize_utf8 bs (mat_limits limits) [] = Inr (product, env2)"
    using q v adm inp by (auto simp: prepare_utf8_def input_of_def verify_digest_quiet res_simps split: if_splits)
  note pm = materialize_utf8_Inr [OF m small(2)]
  have prod: "product = materialized bs" "env2 = []" using pm m by auto
  have prepb: "preparable bs limits" using pm by (simp add: preparable_def mat_limits_def)
  obtain units env3 where u: "unitize_text (materialized bs) settings limits [] = Inr (units, env3)"
    using q v adm inp m prod by (auto simp: prepare_utf8_def input_of_def verify_digest_quiet res_simps split: if_splits)
  have us: "units_from (good_end bs (max_unit_bytes settings)) bs 0 units" "length units \<le> pl_max_units limits"
    "unitize_text (materialized bs) settings limits [] = Inr (units, [])"
    using unitize_text_Inr [OF u] prepb small(1) adm(1) by (auto simp: preparable_def admitted_def)
  from prepare_quiet [OF assms(2) adm(1) inp prepb us(3)] q
  have "art = artifact_bytes source settings bs units" "length art \<le> pl_max_encoded_bytes limits" "length art < u64_bound"
    by (auto split: if_splits)
  with us adm inp prepb show ?thesis using that by blast
qed

section \<open>Acceptance\<close>

lemma decode_app:
  assumes "wf_source source" "admitted source settings limits" "input_of blake3 source bs" "utf8_valid bs"
    and "units_from (fit_end bs (max_unit_bytes settings)) bs 0 units"
    and "length (split_lines bs) \<le> pl_max_lines limits" "length units \<le> pl_max_units limits"
    and "length (artifact_bytes source settings bs units) \<le> pl_max_encoded_bytes limits"
    and "length (artifact_bytes source settings bs units) < u64_bound"
  shows "decode_prepared_utf8 blake3 (artifact_bytes source settings bs units) source settings limits [] =
    Inr (\<lparr>pu_text = bs, pu_units = units\<rparr>, [])"
proof -
  have len: "length bs = byte_length (object_ref source)" "blake3 bs = digest (object_ref source)"
    using assms(3) by (auto simp: input_of_def)
  have fits: "length bs < u64_bound" "length units < u64_bound"
      "105 + 8 + 8 + length bs + UNIT_BYTES * length units < u64_bound"
    using assms(1,9) by (simp_all add: UNIT_BYTES_def HEADER_BYTES_val)
  have sup: "wf_settings settings" "max_unit_bytes settings < u64_bound"
    using assms(2) supported_wf by (auto simp: admitted_def is_supported_def MAX_PREPARATION_UNIT_BYTES_def)
  note ru = read_units_app [OF fits(1) assms(6,5) sup(2), of "121 + length bs" "[]"]
  have bind: "read_binding source settings (artifact_bytes source settings bs units, 0) =
      Inr (le_bytes 8 (length bs) @ le_bytes 8 (length units) @ bs @ concat (map unit_bytes units), 105)"
    unfolding artifact_bytes_def by (rule read_binding_app [OF assms(1) sup(1)])
  have sz: "encoded_size (length bs) (length units) = Inr (length (artifact_bytes source settings bs units))"
    using assms(1,9) by (simp add: encoded_size_eq)
  have hd: "HEADER_BYTES \<le> length (artifact_bytes source settings bs units)"
    using assms(1) by simp
  have ctl: "check_text_length limits (length bs) = Inr ()"
    using assms(2) len(1) by (simp add: admitted_def check_text_length_def)
  show ?thesis
    using validate_admitted [OF assms(2)] assms(4,7,8) ru fits hd
    by (simp add: decode_prepared_utf8_def decode_def bind sz ctl art_usize_app art_take_app try_from_def len(1) [symmetric] len(2)
        verify_digest_quiet at_end_def del: length_artifact_bytes)
qed

lemma decode_Inr:
  assumes "decode_prepared_utf8 blake3 art source settings limits env = Inr (p, env')"
  shows "art = artifact_bytes source settings (pu_text p) (pu_units p) \<and> utf8_valid (pu_text p) \<and>
    input_of blake3 source (pu_text p) \<and> admitted source settings limits \<and>
    units_from (fit_end (pu_text p) (max_unit_bytes settings)) (pu_text p) 0 (pu_units p)"
proof -
  have q: "decode_prepared_utf8 blake3 art source settings limits [] = Inr (p, [])"
    using interruptible_Inr [OF decode_interruptible assms] .
  then have "is_ok (validate source settings limits [])"
    by (auto simp: decode_prepared_utf8_def res_simps)
  then have adm: "admitted source settings limits" by (simp add: validate_quiet)
  obtain r1 tlen r2 n r3 body r4 units r5 env1 where
      b: "read_binding source settings (art, 0) = Inr r1"
    and tlen: "art_usize r1 = Inr (tlen, r2)" and n: "art_usize r2 = Inr (n, r3)"
    and len: "try_from u64_bound tlen = Some (byte_length (object_ref source))"
    and t: "art_take tlen r3 = Inr (body, r4)" and v: "utf8_valid body" "blake3 body = digest (object_ref source)"
    and u: "read_units body n settings limits r4 [] = Inr ((units, r5), env1)"
    and e: "at_end r5" and p: "p = \<lparr>pu_text = body, pu_units = units\<rparr>"
    using q validate_admitted [OF adm]
    by (auto simp: decode_prepared_utf8_def decode_def res_simps verify_digest_quiet simp del: try_from_Some
        split: if_splits)
  have tx: "length body = tlen" "tlen = byte_length (object_ref source)" "length body < u64_bound"
    using art_take_Inr [OF t] len by (auto simp: res_simps)
  note us = read_units_Inr [OF tx(3) u]
  have "art = binding_bytes source settings @ le_bytes 8 (length body) @ le_bytes 8 n @ body @
      concat (map unit_bytes units)"
    using read_binding_Inr [OF b] art_usize_Inr [OF tlen] art_usize_Inr [OF n] art_take_Inr [OF t] us e
    by (simp add: at_end_def)
  then show ?thesis using p v tx us adm by (simp add: artifact_bytes_def input_of_def)
qed

section \<open>Ceilings only refuse\<close>

lemma unitize_loop_limits:
  assumes "unitize_loop bs lines pr hard m1 (units, c1) s [] = Inr (r1, e1)"
    and "unitize_loop bs lines pr hard m2 (units, c2) s [] = Inr (r2, e2)"
  shows "r1 = r2"
  using assms
proof (induction "length bs - s" arbitrary: units c1 c2 s rule: less_induct)
  case less
  note loop = unitize_loop.simps [of bs lines pr hard _ _ s "[]"]
  show ?case
  proof (cases "s < length bs")
    case True
    obtain e a b u where c: "choose_end bs lines s pr hard = Inr e" "s < e"
      and l: "unit_lines lines s e = Inr (a, b)" "unit_span s e a b = Inr u"
      using less.prems(1) True by (auto simp: loop res_simps split: if_splits)
    obtain c1' c2' where "unitize_loop bs lines pr hard m1 (units @ [u], c1') e [] = Inr (r1, e1)"
        "unitize_loop bs lines pr hard m2 (units @ [u], c2') e [] = Inr (r2, e2)"
      using less.prems True c l by (auto simp: loop split: if_splits)
    then show ?thesis using less.hyps [of e "units @ [u]" c1' c2'] c(2) True by simp
  next
    case False
    then show ?thesis using less.prems by (simp add: loop)
  qed
qed

lemma unitize_text_limits:
  assumes "unitize_text p settings l1 [] = Inr (u1, e1)" "unitize_text p settings l2 [] = Inr (u2, e2)"
  shows "u1 = u2"
  using assms unitize_loop_limits by (fastforce simp: unitize_text_def res_simps)

section \<open>Properties of the prepared artifact\<close>

definition limits_le :: "PreparationLimits \<Rightarrow> PreparationLimits \<Rightarrow> bool" where
  "limits_le l m \<longleftrightarrow> pl_max_input_bytes l \<le> pl_max_input_bytes m \<and>
     pl_max_output_bytes l \<le> pl_max_output_bytes m \<and> pl_max_lines l \<le> pl_max_lines m \<and>
     pl_max_units l \<le> pl_max_units m \<and> pl_max_encoded_bytes l \<le> pl_max_encoded_bytes m"

text \<open>
  C2: Whatever \<open>prepare_utf8\<close> produces, under any environment, \<open>decode_prepared_utf8\<close>
  accepts for the same source and settings and for all ceilings at least as large, and gives
  back exactly the verified input bytes and the units that the unitizer laid out over them.
\<close>

theorem prepare_decode_roundtrip:
  assumes "prepare_utf8 blake3 source bs settings limits env = Inr (art, env')"
    and "wf_source source" "limits_le limits limits'" "prep_limits_validate limits' = Inr ()"
  shows "\<exists>units. unitize_text (materialized bs) settings limits [] = Inr (units, []) \<and>
    decode_prepared_utf8 blake3 art source settings limits' [] =
      Inr (\<lparr>pu_text = bs, pu_units = units\<rparr>, [])"
proof -
  obtain units where u: "art = artifact_bytes source settings bs units"
      "units_from (good_end bs (max_unit_bytes settings)) bs 0 units"
      "length units \<le> pl_max_units limits" "length art \<le> pl_max_encoded_bytes limits" "length art < u64_bound"
      "admitted source settings limits" "input_of blake3 source bs" "preparable bs limits"
      "unitize_text (materialized bs) settings limits [] = Inr (units, [])"
    using prepare_Inr [OF assms(1,2)] .
  have "units_from (fit_end bs (max_unit_bytes settings)) bs 0 units"
    using units_from_mono [OF u(2)] good_end_fit by blast
  moreover have "admitted source settings limits'"
    using u(6) assms(3,4) by (auto simp: admitted_def limits_le_def)
  ultimately show ?thesis
    using decode_app [OF assms(2) _ u(7)] u(1,3,4,5,8,9) assms(3)
    by (auto simp: preparable_def limits_le_def)
qed

text \<open>
  C3: Acceptance is exact: bytes that \<open>decode_prepared_utf8\<close> accepts are the encoding of the
  returned text and units for the expected source and settings (no other bytes, no trailing
  bytes), the text is valid UTF-8 of the length and digest of the source row, and the units
  partition it at scalar boundaries within the hard unit size, each with its true logical
  lines.
\<close>

theorem decode_accepts_only_encodings:
  assumes "decode_prepared_utf8 blake3 art source settings limits env = Inr (p, env')"
  shows "art = artifact_bytes source settings (pu_text p) (pu_units p) \<and>
    utf8_valid (pu_text p) \<and> length (pu_text p) = byte_length (object_ref source) \<and>
    blake3 (pu_text p) = digest (object_ref source) \<and>
    units_from (fit_end (pu_text p) (max_unit_bytes settings)) (pu_text p) 0 (pu_units p)"
  using decode_Inr [OF assms] by (simp add: input_of_def)

text \<open>
  C24: An artifact is bound to its source registration and settings: what was prepared for one
  source and one choice of settings is never accepted for a source with another namespace,
  identity, registration revision or input object, nor for other settings.
\<close>

theorem artifact_is_bound:
  assumes "prepare_utf8 blake3 source bs settings limits env = Inr (art, env1)"
    and "decode_prepared_utf8 blake3' art source' settings' limits' env' = Inr (p, env2)"
    and "wf_source source" "wf_source source'" "wf_settings settings" "wf_settings settings'"
  shows "source_namespace_id source' = source_namespace_id source \<and> source_id source' = source_id source \<and>
    registration_revision source' = registration_revision source \<and>
    object_ref source' = object_ref source \<and> settings' = settings \<and> pu_text p = bs"
proof -
  obtain units where art: "art = artifact_bytes source settings bs units"
    and adm: "admitted source settings limits" "input_of blake3 source bs"
    using prepare_Inr [OF assms(1,3)] by metis
  have art': "art = artifact_bytes source' settings' (pu_text p) (pu_units p)"
    using decode_Inr [OF assms(2)] by blast
  have eq: "binding_bytes source settings = binding_bytes source' settings'"
    using art art' assms(3,4) by (simp add: artifact_bytes_def)
  moreover have rest: "le_bytes 8 (length bs) @ le_bytes 8 (length units) @ bs @ concat (map unit_bytes units) =
      le_bytes 8 (length (pu_text p)) @ le_bytes 8 (length (pu_units p)) @ pu_text p @ concat (map unit_bytes (pu_units p))"
    using art art' eq by (simp add: artifact_bytes_def)
  moreover have "length bs = length (pu_text p)"
  proof -
    have "length bs < u64_bound" "length (pu_text p) < u64_bound"
      using adm decode_Inr [OF assms(2)]
      by (auto simp: admitted_def input_of_def MAX_SOURCE_OBJECT_BYTES_def)
    then show ?thesis using rest le_bytes_inject [of 8 "length bs" "length (pu_text p)"] by simp
  qed
  ultimately show ?thesis
    using binding_bytes_inject [OF eq assms(3-6)] by simp
qed

text \<open>
  Ceilings are fail-only: two successful preparations of the same input for the same source
  and settings give the same artifact bytes, whatever their ceilings and environments.
\<close>

theorem prepare_ignores_ceilings:
  assumes "prepare_utf8 blake3 source bs settings limits1 env1 = Inr (art1, env1')"
    and "prepare_utf8 blake3 source bs settings limits2 env2 = Inr (art2, env2')"
    and "wf_source source"
  shows "art1 = art2"
proof -
  obtain units1 where 1: "art1 = artifact_bytes source settings bs units1"
      "unitize_text (materialized bs) settings limits1 [] = Inr (units1, [])"
    using prepare_Inr [OF assms(1,3)] by metis
  obtain units2 where 2: "art2 = artifact_bytes source settings bs units2"
      "unitize_text (materialized bs) settings limits2 [] = Inr (units2, [])"
    using prepare_Inr [OF assms(2,3)] by metis
  from unitize_text_limits [OF 1(2) 2(2)] show ?thesis using 1(1) 2(1) by simp
qed

lemma units_from_length:
  "units_from (good_end bs hard) bs s us \<Longrightarrow> s \<le> length bs \<Longrightarrow> length us + s \<le> length bs"
proof (induction us arbitrary: s)
  case (Cons u us)
  then have "s < us_end u" "us_end u \<le> length bs" by (auto simp: good_end_def)
  with Cons show ?case by fastforce
qed simp

text \<open>The bytes of the input named by a source row that the transform can prepare.\<close>

definition fits_ceilings :: "bytes \<Rightarrow> PreparationLimits \<Rightarrow> bool" where
  "fits_ceilings bs limits \<longleftrightarrow>
     length bs \<le> pl_max_units limits \<and>
     HEADER_BYTES + length bs + UNIT_BYTES * length bs \<le> pl_max_encoded_bytes limits"

text \<open>
  The number of units of a text is bounded by its size (\<open>unit_bound\<close>), so every text within the
  input ceiling is prepared when the ceilings hold that many units.
\<close>

lemma prepare_total_bounded:
  assumes "wf_source source" "admitted source settings limits" "input_of blake3 source bs"
    and "preparable bs limits" "3 < preferred_unit_bytes settings"
    and "unit_bound (preferred_unit_bytes settings) (length bs) \<le> pl_max_units limits"
    and "HEADER_BYTES + length bs + UNIT_BYTES * unit_bound (preferred_unit_bytes settings) (length bs) \<le> pl_max_encoded_bytes limits"
    and "pl_max_encoded_bytes limits < u64_bound"
  shows "\<exists>units. prepare_utf8 blake3 source bs settings limits [] =
    Inr (artifact_bytes source settings bs units, []) \<and>
    units_from (good_end bs (max_unit_bytes settings)) bs 0 units \<and>
    length units \<le> unit_bound (preferred_unit_bytes settings) (length bs)"
proof -
  let ?n = "unit_bound (preferred_unit_bytes settings) (length bs)"
  have small: "text_small bs"
    using assms(2,3) by (auto simp: admitted_def input_of_def text_small_def)
  obtain units where u: "unitize_text (materialized bs) settings limits [] = Inr (units, [])" "length units \<le> ?n"
    using unitize_text_bounded [OF _ small _ assms(5,6)] assms(2,4) by (auto simp: admitted_def preparable_def)
  have g: "units_from (good_end bs (max_unit_bytes settings)) bs 0 units"
    using unitize_text_Inr [OF u(1) _ small] assms(2,4) by (auto simp: admitted_def preparable_def)
  have "UNIT_BYTES * length units \<le> UNIT_BYTES * ?n" using u(2) by (rule mult_le_mono2)
  then have "HEADER_BYTES + length bs + UNIT_BYTES * length units \<le> pl_max_encoded_bytes limits"
    using assms(7) by linarith
  then have le: "length (artifact_bytes source settings bs units) \<le> pl_max_encoded_bytes limits"
    using assms(1) by (simp add: ac_simps)
  then show ?thesis
    using prepare_quiet [OF assms(1-4) u(1)] assms(8) g u(2) by auto
qed

lemma prepare_total_aux:
  assumes "wf_source source" "admitted source settings limits" "input_of blake3 source bs"
    and "preparable bs limits" "fits_ceilings bs limits" "4 \<le> max_unit_bytes settings"
  shows "\<exists>units. prepare_utf8 blake3 source bs settings limits [] =
    Inr (artifact_bytes source settings bs units, []) \<and>
    units_from (good_end bs (max_unit_bytes settings)) bs 0 units"
proof -
  have small: "text_small bs"
    using assms(2,3) by (auto simp: admitted_def input_of_def text_small_def)
  obtain units where u: "unitize_text (materialized bs) settings limits [] = Inr (units, [])"
    using unitize_text_total [OF _ small _ assms(6)] assms(2,4,5)
    by (auto simp: admitted_def preparable_def fits_ceilings_def)
  have g: "units_from (good_end bs (max_unit_bytes settings)) bs 0 units"
    using unitize_text_Inr [OF u _ small] assms(2,4) by (auto simp: admitted_def preparable_def)
  have "UNIT_BYTES * length units \<le> UNIT_BYTES * length bs"
    using units_from_length [OF g] by simp
  then have le: "length (artifact_bytes source settings bs units) \<le> HEADER_BYTES + length bs + UNIT_BYTES * length bs"
    using assms(1) by (simp add: mult.commute)
  moreover have "HEADER_BYTES + length bs + UNIT_BYTES * length bs < u64_bound"
    using small by (simp add: text_small_def MAX_SOURCE_OBJECT_BYTES_def UNIT_BYTES_def HEADER_BYTES_val)
  ultimately show ?thesis
    using prepare_quiet [OF assms(1-4) u] assms(5) g by (auto simp: fits_ceilings_def)
qed

text \<open>
  Preparation succeeds on every input it is meant for: for an admitted source, verified
  bytes that are UTF-8 text without binary controls, a hard unit size of at least one scalar
  and ceilings that hold the worst-case layout, an uninterrupted \<open>prepare_utf8\<close> returns an
  artifact.
\<close>

theorem prepare_succeeds:
  assumes "wf_source source" "admitted source settings limits" "input_of blake3 source bs"
    and "preparable bs limits" "fits_ceilings bs limits" "4 \<le> max_unit_bytes settings"
  shows "\<exists>units. prepare_utf8 blake3 source bs settings limits [] =
    Inr (artifact_bytes source settings bs units, [])"
  using prepare_total_aux [OF assms] by blast

definition unit_slice :: "bytes \<Rightarrow> UnitSpan \<Rightarrow> bytes" where
  "unit_slice bs u = take (us_end u - us_start u) (drop (us_start u) bs)"

text \<open>
  A unit stands at its offsets with the right logical lines: it is not empty, starts in the
  first of its lines and ends in the last of them, and its flags say whether it starts and ends
  at the boundaries of these lines.
\<close>

definition unit_placed :: "bytes \<Rightarrow> UnitSpan \<Rightarrow> bool" where
  "unit_placed bs u \<longleftrightarrow>
     us_start u < us_end u \<and> us_end u \<le> length bs \<and>
     us_line_start u < us_line_end u \<and> us_line_end u \<le> length (text_lines bs) \<and>
     (let first = text_lines bs ! us_line_start u; final = text_lines bs ! (us_line_end u - 1) in
        ls_start first \<le> us_start u \<and> us_start u < ls_end first \<and>
        ls_start final < us_end u \<and> us_end u \<le> ls_end final \<and>
        us_starts_at_line u = (us_start u = ls_start first) \<and>
        us_ends_at_line u = (us_end u = ls_end final))"

lemma span_placed:
  assumes "s < e" "e \<le> length bs"
  shows "unit_placed bs (span_of bs s e)"
proof -
  let ?a = "line_at bs s" and ?b = "line_of_end bs e"
  have a: "?a < length (split_lines bs)" "line_cut bs ?a \<le> s" "s < line_cut bs (Suc ?a)"
    using line_at_less [where x = s and bs = bs] line_at_props [where x = s and bs = bs] assms by auto
  have b: "?b < length (split_lines bs)" "line_cut bs ?b < e" "e \<le> line_cut bs (Suc ?b)"
    using line_of_end_less [where x = e and bs = bs] line_of_end_props [where x = e and bs = bs] assms by auto
  have "line_cut bs (Suc ?b) \<le> line_cut bs ?a" if "Suc ?b \<le> ?a" using line_cut_mono [OF that] .
  then have "?a < Suc ?b" using a b assms(1) by fastforce
  then show ?thesis using a b assms by (auto simp: unit_placed_def span_of_def text_lines_nth)
qed

lemma units_from_placed:
  "units_from (good_end bs hard) bs s us \<Longrightarrow> is_char_boundary bs s \<Longrightarrow> i < length us \<Longrightarrow>
   us_start (us ! i) = (if i = 0 then s else us_end (us ! (i - 1))) \<and>
   (Suc i = length us \<longrightarrow> us_end (us ! i) = length bs) \<and> unit_placed bs (us ! i) \<and>
   us_end (us ! i) - us_start (us ! i) \<le> hard \<and>
   is_char_boundary bs (us_start (us ! i)) \<and> is_char_boundary bs (us_end (us ! i))"
proof (induction us arbitrary: s i)
  case (Cons u us)
  have u: "u = span_of bs s (us_end u)" "good_end bs hard s (us_end u)" "units_from (good_end bs hard) bs (us_end u) us"
    using Cons.prems(1) by auto
  have start: "us_start u = s" using u(1) by (metis UnitSpan.select_convs(1) span_of_def)
  have here: "unit_placed bs u" using span_placed [of s "us_end u" bs] u(1,2) by (simp add: good_end_def)
  have e: "is_char_boundary bs (us_end u)" "us_end u - s \<le> hard" using u(2) by (simp_all add: good_end_def)
  show ?case
  proof (cases i)
    case 0
    then show ?thesis using here e start Cons.prems(2) u(3) by (cases us) auto
  next
    case (Suc j)
    then have at: "(u # us) ! i = us ! j" "Suc i = length (u # us) \<longleftrightarrow> Suc j = length us" by simp_all
    have prev: "(if i = 0 then s else us_end ((u # us) ! (i - 1))) = (if j = 0 then us_end u else us_end (us ! (j - 1)))"
      using Suc by (cases j) simp_all
    have "j < length us" using Cons.prems(3) Suc by simp
    from Cons.IH [OF u(3) e(1) this] show ?thesis unfolding at prev .
  qed
qed simp

text \<open>
  C21: The layout of a text covers it exactly: for a supported choice of settings, the units
  that \<open>unitize_text\<close> returns start at 0, each starts where the one before ends and the last
  ends at the end of the text, so their slices concatenate to the text; every slice is
  non-empty valid UTF-8 of at most the hard unit size; and the logical lines of every unit are
  right: its first line contains its first byte, its last line its last byte, and its flags say
  whether it starts and ends at these lines' boundaries.
\<close>

theorem unitize_covers_text:
  assumes "unitize_text (materialized bs) settings limits env = Inr (units, env')"
    and "utf8_valid bs" "length bs \<le> MAX_SOURCE_OBJECT_BYTES" "is_supported settings"
  shows "concat (map (unit_slice bs) units) = bs \<and> length units \<le> pl_max_units limits \<and>
    (\<forall>i < length units. let u = units ! i in
       us_start u = (if i = 0 then 0 else us_end (units ! (i - 1))) \<and>
       (Suc i = length units \<longrightarrow> us_end u = length bs) \<and> unit_placed bs u \<and>
       utf8_valid (unit_slice bs u) \<and> unit_slice bs u \<noteq> [] \<and> length (unit_slice bs u) \<le> max_unit_bytes settings)"
proof -
  let ?h = "max_unit_bytes settings"
  have g: "units_from (good_end bs ?h) bs 0 units" "length units \<le> pl_max_units limits"
    using unitize_text_Inr [OF assms(1,2)] assms(3,4) by (auto simp: text_small_def)
  have "concat (map (unit_slice bs) units) = drop 0 bs"
    unfolding unit_slice_def [abs_def] by (rule units_from_slices [OF g(1)]) (auto simp: good_end_def)
  moreover have "utf8_valid (unit_slice bs u) \<and> unit_slice bs u \<noteq> [] \<and> length (unit_slice bs u) \<le> ?h"
    if "unit_placed bs u" "us_end u - us_start u \<le> ?h"
      "is_char_boundary bs (us_start u)" "is_char_boundary bs (us_end u)" for u
  proof -
    have "str_get bs (us_start u) (us_end u) = Some (unit_slice bs u)"
      using that by (simp add: str_get_def unit_slice_def unit_placed_def)
    with str_get_valid [OF assms(2)] that show ?thesis by (auto simp: unit_slice_def unit_placed_def)
  qed
  moreover note units_from_placed [OF g(1)]
  moreover have "is_char_boundary bs 0" by (simp add: is_char_boundary_def)
  ultimately show ?thesis using g(2) unfolding Let_def drop_0 by blast
qed

text \<open>
  Line preference: a unit ends inside a logical line only when no logical line ends within
  the hard unit size after the start of the unit.
\<close>

theorem unitize_prefers_lines:
  assumes "unitize_text (materialized bs) settings limits env = Inr (units, env')"
    and "utf8_valid bs" "length bs \<le> MAX_SOURCE_OBJECT_BYTES" "is_supported settings"
    and "u \<in> set units" "\<not> us_ends_at_line u"
  shows "\<forall>l \<in> set (text_lines bs). us_start u < ls_end l \<longrightarrow> us_start u + max_unit_bytes settings < ls_end l"
proof -
  let ?h = "max_unit_bytes settings" and ?n = "length (split_lines bs)"
  have g: "units_from (good_end bs ?h) bs 0 units"
    using unitize_text_Inr [OF assms(1,2)] assms(3,4) by (auto simp: text_small_def)
  have "u \<in> set us \<Longrightarrow> units_from (good_end bs ?h) bs s us \<Longrightarrow>
      u = span_of bs (us_start u) (us_end u) \<and> good_end bs ?h (us_start u) (us_end u)" for us s
  proof (induction us arbitrary: s)
    case (Cons v vs)
    then have "us_start v = s" by (metis units_from.simps(2) UnitSpan.select_convs(1) span_of_def)
    with Cons show ?case by auto
  qed simp
  from this [OF assms(5) g] have u: "u = span_of bs (us_start u) (us_end u)"
      "good_end bs ?h (us_start u) (us_end u)" by auto
  have "us_end u \<noteq> line_cut bs k" if k: "k \<le> ?n" for k
  proof
    assume e: "us_end u = line_cut bs k"
    have pos: "0 < us_end u" "us_end u \<le> length bs" using u(2) by (auto simp: good_end_def)
    then obtain j where j: "k = Suc j" using e by (cases k) auto
    then have "line_cut bs j < us_end u" using e k line_cut_less [of j bs] by simp
    then have "line_of_end bs (us_end u) = j"
      using ln.end_unique [of "line_of_end bs (us_end u)" bs j "us_end u"] line_of_end_less [OF pos]
        line_of_end_props(2,3) [where x = "us_end u" and bs = bs] pos e k j by auto
    then have "us_ends_at_line u" using u(1) e j
      by (metis UnitSpan.select_convs(6) span_of_def)
    then show False using assms(6) by simp
  qed
  then have none: "\<not> (us_start u < line_cut bs k \<and> line_cut bs k \<le> us_start u + ?h)" if "k \<le> ?n" for k
    using u(2) that by (auto simp: good_end_def)
  show ?thesis
  proof (intro ballI impI)
    fix l assume "l \<in> set (text_lines bs)" and l: "us_start u < ls_end l"
    then obtain k where "k < ?n" "l = text_lines bs ! k" by (auto simp: in_set_conv_nth)
    then show "us_start u + ?h < ls_end l" using none [of "Suc k"] l by (simp add: text_lines_nth)
  qed
qed

section \<open>A concrete preparation\<close>

definition ex_text :: bytes where
  "ex_text = [97, 98, 10, 99, 100, 101, 102, 103]"

definition ex_hash :: "bytes \<Rightarrow> bytes" where
  "ex_hash bs = replicate 31 7 @ [word_of_nat (length bs)]"

definition ex_source :: CurrentSourceRecord where
  "ex_source = \<lparr>source_namespace_id = replicate 16 1, source_id = replicate 16 2,
     row_revision = 1, registration_revision = 1, locator = as_bytes ''a.txt'', file_key = Unix 1 2,
     object_ref = object_source (ex_hash ex_text) 8\<rparr>"

definition ex_settings :: PreparationSettings where
  "ex_settings = \<lparr>utf8_version = 1, line_unitizer_version = 1, preferred_unit_bytes = 2,
     max_unit_bytes = 4\<rparr>"

definition ex_limits :: PreparationLimits where
  "ex_limits = \<lparr>pl_max_input_bytes = 64, pl_max_output_bytes = 64, pl_max_lines = 8,
     pl_max_units = 8, pl_max_encoded_bytes = 1024\<rparr>"

lemma ex_split: "split_lines ex_text = [[97, 98, 10], [99, 100, 101, 102, 103]]"
  by (simp add: ex_text_def split_lines.simps line_length_def line_content_def ends_line_def terminator_def)

lemma ex_valid: "utf8_valid ex_text"
  by (simp add: ex_text_def utf8_valid.simps)

lemma ex_wf: "wf_source ex_source" "is_supported ex_settings" "prep_limits_validate ex_limits = Inr ()"
  by (simp_all add: ex_source_def wf_source_def wf_object_def object_source_def ex_hash_def
      SOURCE_OBJECT_FORMAT_VERSION_def ex_settings_def is_supported_def MAX_PREPARATION_UNIT_BYTES_def
      prep_limits_validate_def ex_limits_def mul_fits_isize_def checked_mul64_def size_of_LineSpan_def
      size_of_UnitSpan_def)

lemma ex_admitted: "admitted ex_source ex_settings ex_limits" "input_of ex_hash ex_source ex_text"
  using ex_wf
  by (simp_all add: admitted_def input_of_def ex_source_def ex_limits_def ex_text_def object_source_def
      MAX_SOURCE_OBJECT_BYTES_def)

lemma ex_preparable: "preparable ex_text ex_limits" "fits_ceilings ex_text ex_limits"
proof -
  have "\<not> is_binary ex_text"
    by (simp add: is_binary_def ex_text_def is_binary_control_def control_threshold_def)
  then show "preparable ex_text ex_limits"
    by (simp add: preparable_def ex_valid ex_split) (simp add: ex_limits_def)
  show "fits_ceilings ex_text ex_limits"
    by (simp add: fits_ceilings_def ex_text_def ex_limits_def HEADER_BYTES_val UNIT_BYTES_def)
qed

lemma ex_prepared:
  "\<exists>art. prepare_utf8 ex_hash ex_source ex_text ex_settings ex_limits [] = Inr (art, [])"
  using prepare_total_aux [OF ex_wf(1) ex_admitted ex_preparable] by (auto simp: ex_settings_def)

lemma ex_units:
  "unitize_text (materialized ex_text) ex_settings ex_limits [] =
     Inr ([\<lparr>us_start = 0, us_end = 3, us_line_start = 0, us_line_end = 1,
            us_starts_at_line = True, us_ends_at_line = True\<rparr>,
          \<lparr>us_start = 3, us_end = 5, us_line_start = 1, us_line_end = 2,
            us_starts_at_line = True, us_ends_at_line = False\<rparr>,
          \<lparr>us_start = 5, us_end = 8, us_line_start = 1, us_line_end = 2,
            us_starts_at_line = False, us_ends_at_line = True\<rparr>], [])"
proof -
  let ?ls = "text_lines ex_text"
  have ls: "?ls = [\<lparr>ls_index = 0, ls_start = 0, ls_end = 3, ls_content_end = 2\<rparr>,
      \<lparr>ls_index = 1, ls_start = 3, ls_end = 8, ls_content_end = 8\<rparr>]"
    by (simp add: text_lines_def ex_split line_content_def ends_line_def)
  have len: "length ex_text = 8" by (simp add: ex_text_def)
  note ev = ls len choose_end_def checked_add64_def partition_point_def get_at_def checked_sub_def
    try_from_def unit_lines_def unit_span_def
  have c: "choose_end ex_text ?ls 0 2 4 = Inr 3" "choose_end ex_text ?ls 5 2 4 = Inr 8"
    by (simp_all add: ev)
  have "is_char_boundary ex_text 5"
    by (simp add: ex_text_def is_char_boundary_def is_cont_def)
  then have "back_to_boundary ex_text 3 5 = 5"
    using back_to_boundary.simps(2) [of ex_text 3 4] by simp
  then have c3: "choose_end ex_text ?ls 3 2 4 = Inr 5"
    by (simp add: ev scalar_end_def Let_def)
  note step = unitize_loop.simps [of ex_text ?ls 2 4 8]
  have "unitize_loop ex_text ?ls 2 4 8 ([], 0) 0 [] =
      unitize_loop ex_text ?ls 2 4 8 ([\<lparr>us_start = 0, us_end = 3, us_line_start = 0, us_line_end = 1,
            us_starts_at_line = True, us_ends_at_line = True\<rparr>], 8) 3 []"
    by (subst step) (simp add: len c, simp add: ev)
  also have "\<dots> = unitize_loop ex_text ?ls 2 4 8 ([\<lparr>us_start = 0, us_end = 3, us_line_start = 0, us_line_end = 1,
            us_starts_at_line = True, us_ends_at_line = True\<rparr>,
          \<lparr>us_start = 3, us_end = 5, us_line_start = 1, us_line_end = 2,
            us_starts_at_line = True, us_ends_at_line = False\<rparr>], 8) 5 []"
    by (subst step) (simp add: len c3, simp add: ev, simp add: numeral_2_eq_2)
  also have "\<dots> = Inr ([\<lparr>us_start = 0, us_end = 3, us_line_start = 0, us_line_end = 1,
            us_starts_at_line = True, us_ends_at_line = True\<rparr>,
          \<lparr>us_start = 3, us_end = 5, us_line_start = 1, us_line_end = 2,
            us_starts_at_line = True, us_ends_at_line = False\<rparr>,
          \<lparr>us_start = 5, us_end = 8, us_line_start = 1, us_line_end = 2,
            us_starts_at_line = False, us_ends_at_line = True\<rparr>], [])"
    by (subst step) (simp add: len c, simp add: ev unitize_loop.simps [of _ _ _ _ _ _ 8])
  finally show ?thesis
    by (simp add: unitize_text_def ex_settings_def ex_limits_def materialized_def try_from_def)
qed

lemma ex_decoded:
  assumes "prepare_utf8 ex_hash ex_source ex_text ex_settings ex_limits [] = Inr (art, [])"
  shows "\<exists>p. decode_prepared_utf8 ex_hash art ex_source ex_settings ex_limits [] = Inr (p, [])"
proof -
  obtain units where "art = artifact_bytes ex_source ex_settings ex_text units"
      "units_from (good_end ex_text (max_unit_bytes ex_settings)) ex_text 0 units"
      "length units \<le> pl_max_units ex_limits" "length art \<le> pl_max_encoded_bytes ex_limits" "length art < u64_bound"
    using prepare_Inr [OF assms ex_wf(1)] .
  moreover have "units_from (fit_end ex_text (max_unit_bytes ex_settings)) ex_text 0 units"
    using units_from_mono [OF calculation(2)] good_end_fit by blast
  ultimately show ?thesis
    using decode_app [OF ex_wf(1) ex_admitted ex_valid] ex_preparable by (auto simp: preparable_def)
qed

theorem prepare_decode_roundtrip_witness:
  "\<exists>art units. prepare_utf8 ex_hash ex_source ex_text ex_settings ex_limits [] = Inr (art, []) \<and>
     unitize_text (materialized ex_text) ex_settings ex_limits [] = Inr (units, []) \<and>
     decode_prepared_utf8 ex_hash art ex_source ex_settings ex_limits [] =
       Inr (\<lparr>pu_text = ex_text, pu_units = units\<rparr>, [])"
  using ex_prepared prepare_decode_roundtrip [OF _ ex_wf(1) _ ex_wf(3)]
  by (metis (no_types, lifting) limits_le_def order_refl)

theorem decode_accepts_only_encodings_witness:
  "\<exists>art p. decode_prepared_utf8 ex_hash art ex_source ex_settings ex_limits [] = Inr (p, []) \<and>
     art = artifact_bytes ex_source ex_settings (pu_text p) (pu_units p) \<and> length (pu_text p) = 8"
proof -
  obtain art where "prepare_utf8 ex_hash ex_source ex_text ex_settings ex_limits [] = Inr (art, [])"
    using ex_prepared by blast
  then obtain p where p: "decode_prepared_utf8 ex_hash art ex_source ex_settings ex_limits [] = Inr (p, [])"
    using ex_decoded by blast
  from decode_accepts_only_encodings [OF p] show ?thesis
    using p by (intro exI [of _ art] exI [of _ p]) (simp add: ex_source_def object_source_def)
qed

theorem artifact_is_bound_witness:
  "\<exists>art p. prepare_utf8 ex_hash ex_source ex_text ex_settings ex_limits [] = Inr (art, []) \<and>
     decode_prepared_utf8 ex_hash art ex_source ex_settings ex_limits [] = Inr (p, []) \<and>
     pu_text p = ex_text"
proof -
  obtain art where a: "prepare_utf8 ex_hash ex_source ex_text ex_settings ex_limits [] = Inr (art, [])"
    using ex_prepared by blast
  then obtain p where p: "decode_prepared_utf8 ex_hash art ex_source ex_settings ex_limits [] = Inr (p, [])"
    using ex_decoded by blast
  from artifact_is_bound [OF a p] show ?thesis
    using a p ex_wf supported_wf by blast
qed

theorem prepare_ignores_ceilings_witness:
  "\<exists>art. prepare_utf8 ex_hash ex_source ex_text ex_settings ex_limits [] = Inr (art, []) \<and>
     prepare_utf8 ex_hash ex_source ex_text ex_settings (ex_limits\<lparr>pl_max_lines := 9\<rparr>) [] = Inr (art, [])"
proof -
  let ?l = "ex_limits\<lparr>pl_max_lines := 9\<rparr>"
  have v: "prep_limits_validate ?l = Inr ()"
    by (simp add: prep_limits_validate_def ex_limits_def mul_fits_isize_def checked_mul64_def
        size_of_LineSpan_def size_of_UnitSpan_def)
  have "admitted ex_source ex_settings ?l" "preparable ex_text ?l" "fits_ceilings ex_text ?l"
    using ex_admitted ex_preparable v
    by (auto simp: admitted_def preparable_def fits_ceilings_def ex_limits_def)
  then obtain art2 where 2: "prepare_utf8 ex_hash ex_source ex_text ex_settings ?l [] = Inr (art2, [])"
    using prepare_total_aux [OF ex_wf(1) _ ex_admitted(2), of ex_settings ?l] by (auto simp: ex_settings_def)
  obtain art where 1: "prepare_utf8 ex_hash ex_source ex_text ex_settings ex_limits [] = Inr (art, [])"
    using ex_prepared by blast
  from prepare_ignores_ceilings [OF 1 2 ex_wf(1)] show ?thesis using 1 2 by blast
qed

theorem prepare_succeeds_witness:
  "\<exists>units. prepare_utf8 ex_hash ex_source ex_text ex_settings ex_limits [] =
     Inr (artifact_bytes ex_source ex_settings ex_text units, [])"
  by (rule prepare_succeeds [OF ex_wf(1) ex_admitted ex_preparable]) (simp add: ex_settings_def)

theorem unitize_covers_text_witness:
  "\<exists>units. unitize_text (materialized ex_text) ex_settings ex_limits [] = Inr (units, []) \<and>
     length units = 3 \<and> concat (map (unit_slice ex_text) units) = ex_text"
proof -
  have "length ex_text \<le> MAX_SOURCE_OBJECT_BYTES"
    by (simp add: ex_text_def MAX_SOURCE_OBJECT_BYTES_def)
  from unitize_covers_text [OF ex_units ex_valid this ex_wf(2)] ex_units show ?thesis by fastforce
qed

lemma ex_line_ends: "map ls_end (text_lines ex_text) = [3, 8]"
  by (simp add: text_lines_def ex_split)

theorem unitize_prefers_lines_witness:
  "8 \<in> ls_end ` set (text_lines ex_text) \<and> 3 + max_unit_bytes ex_settings < 8"
proof -
  have "8 \<in> set (map ls_end (text_lines ex_text))" using ex_line_ends by simp
  then obtain l where l: "l \<in> set (text_lines ex_text)" "ls_end l = 8" by auto
  have "\<forall>l \<in> set (text_lines ex_text). 3 < ls_end l \<longrightarrow> 3 + max_unit_bytes ex_settings < ls_end l"
    using unitize_prefers_lines [OF ex_units ex_valid _ ex_wf(2), of "\<lparr>us_start = 3, us_end = 5,
      us_line_start = 1, us_line_end = 2, us_starts_at_line = True, us_ends_at_line = False\<rparr>"]
    by (simp add: ex_text_def MAX_SOURCE_OBJECT_BYTES_def)
  then have "3 + max_unit_bytes ex_settings < 8" using l by fastforce
  then show ?thesis using l by force
qed

end
