(* ===== verification/Store.thy ===== *)
theory Store
  imports Prelude
begin

text \<open>
  The embedded key-value store as its documentation describes it and the control database
  uses it: named tables ordered by key, read transactions on a snapshot, and write
  transactions whose effects are kept all together by \<open>commit\<close> or not at all. A write
  transaction is a working copy of the database; returning an error drops it. Table keys and
  values are bytes (string keys are their UTF-8 bytes, which have the same order).
\<close>

section \<open>Tables\<close>

type_synonym table = "(bytes \<times> bytes) list"

definition tbl_get :: "table \<Rightarrow> bytes \<Rightarrow> bytes option" where
  "tbl_get t k = map_of t k"

fun tbl_put :: "bytes \<Rightarrow> bytes \<Rightarrow> table \<Rightarrow> table" where
  "tbl_put k v [] = [(k, v)]"
| "tbl_put k v (e # t) =
     (if k < fst e then (k, v) # e # t
      else if k = fst e then (k, v) # t
      else e # tbl_put k v t)"

definition tbl_del :: "bytes \<Rightarrow> table \<Rightarrow> table" where
  "tbl_del k t = filter (\<lambda>e. fst e \<noteq> k) t"

definition tbl_ok :: "table \<Rightarrow> bool" where
  "tbl_ok t \<longleftrightarrow> sorted_wrt (<) (map fst t)"

text \<open>What the program relies on of a table.\<close>

locale table_laws =
  fixes get :: "'t \<Rightarrow> 'k \<Rightarrow> 'v option" and put :: "'k \<Rightarrow> 'v \<Rightarrow> 't \<Rightarrow> 't"
    and del :: "'k \<Rightarrow> 't \<Rightarrow> 't" and ok :: "'t \<Rightarrow> bool" and items :: "'t \<Rightarrow> ('k \<times> 'v) list"
  assumes get_put: "ok t \<Longrightarrow> get (put k v t) j = (if j = k then Some v else get t j)"
    and get_del: "ok t \<Longrightarrow> get (del k t) j = (if j = k then None else get t j)"
    and ok_put: "ok t \<Longrightarrow> ok (put k v t)"
    and ok_del: "ok t \<Longrightarrow> ok (del k t)"
    and items_get: "ok t \<Longrightarrow> (k, v) \<in> set (items t) \<longleftrightarrow> get t k = Some v"
    and items_distinct: "ok t \<Longrightarrow> distinct (map fst (items t))"
begin

lemma get_put_same [simp]: "ok t \<Longrightarrow> get (put k v t) k = Some v"
  by (simp add: get_put)

lemma all_put:
  "ok t \<Longrightarrow> (\<forall>j w. get t j = Some w \<longrightarrow> P j w) \<Longrightarrow> P k v \<Longrightarrow> get (put k v t) j = Some w \<Longrightarrow> P j w"
  by (auto simp: get_put split: if_splits)

lemma all_del: "ok t \<Longrightarrow> get (del k t) j = Some w \<Longrightarrow> get t j = Some w \<and> j \<noteq> k"
  by (auto simp: get_del split: if_splits)

end

lemma set_tbl_put_keys: "fst ` set (tbl_put k v t) = insert k (fst ` set t)"
  by (induction t) auto

lemma tbl_ok_put: "tbl_ok t \<Longrightarrow> tbl_ok (tbl_put k v t)"
proof (induction t)
  case (Cons e t)
  then have ih: "tbl_ok (tbl_put k v t)" by (simp add: tbl_ok_def)
  show ?case
  proof (cases "fst e < k")
    case True
    have "\<forall>x \<in> fst ` set (tbl_put k v t). fst e < x"
      using True Cons.prems by (auto simp: set_tbl_put_keys tbl_ok_def)
    then show ?thesis using True ih by (auto simp: tbl_ok_def)
  next
    case False
    then consider "k < fst e" | "k = fst e" by force
    then show ?thesis using Cons.prems by cases (auto simp: tbl_ok_def)
  qed
qed (simp add: tbl_ok_def)

lemma tbl_get_put: "tbl_ok t \<Longrightarrow> tbl_get (tbl_put k v t) j = (if j = k then Some v else tbl_get t j)"
  by (induction t) (auto simp: tbl_get_def tbl_ok_def)

lemma tbl_get_del: "tbl_get (tbl_del k t) j = (if j = k then None else tbl_get t j)"
  by (induction t) (auto simp: tbl_get_def tbl_del_def)

lemma tbl_ok_del: "tbl_ok t \<Longrightarrow> tbl_ok (tbl_del k t)"
  by (induction t) (auto simp: tbl_ok_def tbl_del_def)

lemma tbl_ok_distinct: "tbl_ok t \<Longrightarrow> distinct (map fst t)"
  by (induction t) (auto simp: tbl_ok_def)

lemma tbl_get_iff: "tbl_ok t \<Longrightarrow> (k, v) \<in> set t \<longleftrightarrow> tbl_get t k = Some v"
  using tbl_ok_distinct [of t] by (auto simp: tbl_get_def dest: map_of_SomeD)

interpretation tb: table_laws tbl_get tbl_put tbl_del tbl_ok "\<lambda>t. t"
  by unfold_locales
    (auto simp: tbl_get_put tbl_get_del tbl_ok_put tbl_ok_del tbl_ok_distinct tbl_get_iff)

lemma tbl_ok_Nil [simp]: "tbl_ok []"
  by (simp add: tbl_ok_def)

lemma tbl_get_Nil [simp]: "tbl_get [] k = None"
  by (simp add: tbl_get_def)

section \<open>Databases\<close>

record Database =
  db_tables :: "(string \<times> table) list"
  db_multimaps :: "string list"

definition list_tables :: "Database \<Rightarrow> string list" where
  "list_tables db = map fst (db_tables db)"

definition get_table :: "Database \<Rightarrow> string \<Rightarrow> table option" where
  "get_table db name = map_of (db_tables db) name"

fun set_entry :: "string \<Rightarrow> table \<Rightarrow> (string \<times> table) list \<Rightarrow> (string \<times> table) list" where
  "set_entry name t [] = [(name, t)]"
| "set_entry name t (e # es) = (if fst e = name then (name, t) # es else e # set_entry name t es)"

definition set_table :: "string \<Rightarrow> table \<Rightarrow> Database \<Rightarrow> Database" where
  "set_table name t db = db\<lparr>db_tables := set_entry name t (db_tables db)\<rparr>"

definition db_ok :: "Database \<Rightarrow> bool" where
  "db_ok db \<longleftrightarrow> distinct (list_tables db) \<and> (\<forall>e \<in> set (db_tables db). tbl_ok (snd e))"

text \<open>A table of a write transaction: opening it creates it.\<close>

definition the_table :: "Database \<Rightarrow> string \<Rightarrow> table" where
  "the_table db name = (case get_table db name of Some t \<Rightarrow> t | None \<Rightarrow> [])"

lemma map_of_set_entry: "map_of (set_entry name t es) n = (if n = name then Some t else map_of es n)"
  by (induction es) auto

lemma get_set_table: "get_table (set_table name t db) n = (if n = name then Some t else get_table db n)"
  by (simp add: get_table_def set_table_def map_of_set_entry)

lemma the_table_set: "the_table (set_table name t db) n = (if n = name then t else the_table db n)"
  by (simp add: the_table_def get_set_table)

lemma set_entry_names: "set (map fst (set_entry name t es)) = insert name (set (map fst es))"
  by (induction es) auto

lemma set_entry_names_in: "name \<in> set (map fst es) \<Longrightarrow> map fst (set_entry name t es) = map fst es"
  by (induction es) auto

lemma set_entry_distinct: "distinct (map fst es) \<Longrightarrow> distinct (map fst (set_entry name t es))"
proof (induction es)
  case (Cons e es)
  then show ?case using set_entry_names [of name t es] by auto
qed simp

lemma set_entry_set: "e \<in> set (set_entry name t es) \<Longrightarrow> e = (name, t) \<or> e \<in> set es"
  by (induction es) (auto split: if_splits)

lemma db_ok_set_table: "db_ok db \<Longrightarrow> tbl_ok t \<Longrightarrow> db_ok (set_table name t db)"
  by (auto simp: db_ok_def list_tables_def set_table_def set_entry_distinct dest!: set_entry_set)

lemma db_ok_get: "db_ok db \<Longrightarrow> get_table db n = Some t \<Longrightarrow> tbl_ok t"
  by (auto simp: db_ok_def get_table_def dest!: map_of_SomeD)

lemma db_ok_the [simp]: "db_ok db \<Longrightarrow> tbl_ok (the_table db n)"
  by (auto simp: the_table_def db_ok_get split: option.splits)

section \<open>Reads and writes that may fail\<close>

definition r_open :: "'e \<Rightarrow> Database \<Rightarrow> string \<Rightarrow> env \<Rightarrow> 'e + table \<times> env" where
  "r_open e db name env = bindE (io_with e env) (\<lambda>env.
     bindE (ok_or e (get_table db name)) (\<lambda>t. Inr (t, env)))"

definition r_get :: "'e \<Rightarrow> table \<Rightarrow> bytes \<Rightarrow> env \<Rightarrow> 'e + bytes option \<times> env" where
  "r_get e t k env = bindE (io_with e env) (\<lambda>env. Inr (tbl_get t k, env))"

definition w_open :: "'e \<Rightarrow> string \<Rightarrow> Database \<Rightarrow> env \<Rightarrow> 'e + Database \<times> env" where
  "w_open e name db env = bindE (io_with e env) (\<lambda>env.
     Inr (if get_table db name = None then set_table name [] db else db, env))"

definition w_get :: "'e \<Rightarrow> string \<Rightarrow> bytes \<Rightarrow> Database \<Rightarrow> env \<Rightarrow> 'e + bytes option \<times> env" where
  "w_get e name k db env = bindE (io_with e env) (\<lambda>env. Inr (tbl_get (the_table db name) k, env))"

definition w_insert :: "'e \<Rightarrow> string \<Rightarrow> bytes \<Rightarrow> bytes \<Rightarrow> Database \<Rightarrow> env \<Rightarrow> 'e + Database \<times> env" where
  "w_insert e name k v db env = bindE (io_with e env) (\<lambda>env.
     Inr (set_table name (tbl_put k v (the_table db name)) db, env))"

definition w_remove ::
  "'e \<Rightarrow> string \<Rightarrow> bytes \<Rightarrow> Database \<Rightarrow> env \<Rightarrow> 'e + (bytes option \<times> Database) \<times> env" where
  "w_remove e name k db env = bindE (io_with e env) (\<lambda>env.
     Inr ((tbl_get (the_table db name) k, set_table name (tbl_del k (the_table db name)) db), env))"

text \<open>
  A commit either succeeds, and the database is the working copy, or reports a failure, and
  then the database may be the old one or the working copy.
\<close>

fun w_commit :: "Database \<Rightarrow> Database \<Rightarrow> env \<Rightarrow> (bool \<times> Database) \<times> env" where
  "w_commit work db [] = ((True, work), [])"
| "w_commit work db (ob # env) =
     (if obs_io ob then ((False, if obs_landed ob then work else db), env) else ((True, work), env))"

lemma w_commit_cases:
  assumes "w_commit work db env = ((ok, db'), env')"
  shows "(ok \<and> db' = work) \<or> (\<not> ok \<and> (db' = work \<or> db' = db))"
  using assms by (cases env) (auto split: if_splits)

named_theorems store_defs \<open>table access\<close>

lemmas [store_defs] = r_open_def r_get_def w_open_def w_get_def w_insert_def w_remove_def

end
