(* ===== verification/SourceControl.thy ===== *)
theory SourceControl
  imports Store Registry
begin

text \<open>
  Current-source rows of the control database (crate \<open>search-control-redb\<close>,
  \<open>current_source.rs\<close>): locators, the table catalogue, the row codec, reading of one
  and of all sources, the compare-and-swap commit of a source head, the removal of captured
  sources and the admitted selections. Locators are the native path bytes of Unix (a path is
  its bytes, absolute when it starts with a slash). The JSON library is the pair of
  parameters \<open>to_vec\<close> and \<open>from_slice\<close>; random identities are arguments.
\<close>

section \<open>Model: constants and errors\<close>

definition META_TABLE_NAME :: string where "META_TABLE_NAME = ''plain_control_meta''"
definition SOURCE_STATE :: string where "SOURCE_STATE = ''source_state''"
definition SOURCE_ROWS :: string where "SOURCE_ROWS = ''current_source_rows''"
definition SOURCE_LOCATORS :: string where "SOURCE_LOCATORS = ''current_source_locators''"
definition PREPARATIONS :: string where "PREPARATIONS = ''current_preparations''"
definition SOURCE_SCHEMA_VERSION :: bytes where "SOURCE_SCHEMA_VERSION = [1]"
definition SCHEMA_VERSION_KEY :: bytes where "SCHEMA_VERSION_KEY = as_bytes ''schema_version''"
definition NAMESPACE_KEY :: bytes where "NAMESPACE_KEY = as_bytes ''source_namespace_id''"
definition WANTED_REVISION_KEY :: bytes where "WANTED_REVISION_KEY = as_bytes ''wanted_corpus_revision''"
definition SELECTION_PREFIX :: bytes where "SELECTION_PREFIX = as_bytes ''admitted_selection:''"
definition MAX_LOCATOR_BYTES :: nat where "MAX_LOCATOR_BYTES = 32 * 1024"
definition MAX_CURRENT_SOURCES :: nat where "MAX_CURRENT_SOURCES = 4096"
definition MAX_CURRENT_SOURCE_BYTES :: nat where "MAX_CURRENT_SOURCE_BYTES = 16 * 1024 * 1024"

definition PUBLICATION_TABLE_NAMES :: "string list" where
  "PUBLICATION_TABLE_NAMES = [''publication_state'', ''generation_sources'', ''generation_pages'',
     ''generation_evidence'', ''retired_generations'']"

datatype SourceControlError =
  InvalidLocator | UnsupportedPlatform | UnsupportedSchema | Corrupt | Stale | Database
| RandomUnavailable | RevisionExhausted | InventoryLimit | Deadline | Cancelled

fun source_control_code :: "SourceControlError \<Rightarrow> string" where
  "source_control_code InvalidLocator = ''SOURCE_LOCATOR_INVALID''"
| "source_control_code UnsupportedPlatform = ''SOURCE_PLATFORM_UNSUPPORTED''"
| "source_control_code UnsupportedSchema = ''SOURCE_SCHEMA_UNSUPPORTED''"
| "source_control_code Corrupt = ''SOURCE_CONTROL_CORRUPT''"
| "source_control_code Stale = ''SOURCE_STALE''"
| "source_control_code Database = ''SOURCE_CONTROL_IO''"
| "source_control_code RandomUnavailable = ''SOURCE_ID_GENERATION_FAILED''"
| "source_control_code RevisionExhausted = ''SOURCE_REVISION_EXHAUSTED''"
| "source_control_code InventoryLimit = ''SOURCE_INVENTORY_LIMIT''"
| "source_control_code Deadline = ''SOURCE_CONTROL_DEADLINE''"
| "source_control_code Cancelled = ''SOURCE_CONTROL_CANCELLED''"

record SourceCapture =
  sc_namespace_id :: bytes
  sc_source_id :: bytes
  sc_locator :: bytes
  sc_expected_namespace :: "bytes option"
  sc_expected_row_revision :: "nat option"
  sc_expected_registration_revision :: "nat option"

datatype SelectionKind = File | Tree

record AdmittedSelection =
  as_path :: bytes
  as_kind :: SelectionKind

record StoredSelection =
  ss_version :: nat
  ss_locator :: bytes
  ss_kind :: SelectionKind

definition sc_check :: "env \<Rightarrow> SourceControlError + env" where
  "sc_check = check_with Cancelled Deadline"

definition sc_io :: "env \<Rightarrow> SourceControlError + env" where
  "sc_io = io_with Database"

definition random_id :: "bytes option \<Rightarrow> SourceControlError + bytes" where
  "random_id r = ok_or RandomUnavailable r"

section \<open>Model: locators and catalogue\<close>

definition is_absolute :: "bytes \<Rightarrow> bool" where
  "is_absolute path \<longleftrightarrow> (case path of b # _ \<Rightarrow> b = 47 | [] \<Rightarrow> False)"

definition source_locator_bytes :: "bytes \<Rightarrow> SourceControlError + bytes" where
  "source_locator_bytes path =
     (if \<not> is_absolute path then Inl InvalidLocator
      else if path = [] \<or> MAX_LOCATOR_BYTES < length path then Inl InvalidLocator
      else Inr path)"

definition source_path_from_locator :: "bytes \<Rightarrow> SourceControlError + bytes" where
  "source_path_from_locator loc =
     (if loc = [] \<or> MAX_LOCATOR_BYTES < length loc then Inl InvalidLocator
      else if \<not> is_absolute loc then Inl Corrupt
      else Inr loc)"

definition catalogue_names :: "string list \<Rightarrow> bool \<Rightarrow> SourceControlError + bool" where
  "catalogue_names names has_multimap =
     (if has_multimap then Inl UnsupportedSchema
      else
        let publication_count = length (filter (\<lambda>n. n \<in> set PUBLICATION_TABLE_NAMES) names) in
        if publication_count \<noteq> 0 \<and> publication_count \<noteq> length PUBLICATION_TABLE_NAMES
        then Inl UnsupportedSchema
        else
          let names = sort (filter (\<lambda>n. n \<notin> set PUBLICATION_TABLE_NAMES) names) in
          if length names = 1 \<and> names ! 0 = META_TABLE_NAME then Inr False
          else
            let expected = sort [META_TABLE_NAME, SOURCE_STATE, SOURCE_ROWS, SOURCE_LOCATORS] in
            if names = expected then Inr True
            else
              let expected = sort (expected @ [PREPARATIONS]) in
              if names = expected then Inr True else Inl UnsupportedSchema)"

section \<open>Model: the row codec\<close>

definition sc_take :: "nat \<Rightarrow> reader \<Rightarrow> SourceControlError + bytes \<times> reader" where
  "sc_take = rd_take Corrupt Corrupt"

definition sc_uint :: "nat \<Rightarrow> reader \<Rightarrow> SourceControlError + nat \<times> reader" where
  "sc_uint k = rd_le sc_take k"

definition sc_byte :: "reader \<Rightarrow> SourceControlError + byte \<times> reader" where
  "sc_byte r = bindE (sc_take 1 r) (\<lambda>(b, r). Inr (b ! 0, r))"

definition encode_record :: "CurrentSourceRecord \<Rightarrow> SourceControlError + bytes" where
  "encode_record rec =
     (if row_revision rec = 0 \<or> registration_revision rec = 0
         \<or> obj_kind (object_ref rec) \<noteq> Source
         \<or> format_version (object_ref rec) \<noteq> SOURCE_OBJECT_FORMAT_VERSION
         \<or> locator rec = [] \<or> MAX_LOCATOR_BYTES < length (locator rec)
      then Inl Corrupt
      else bindE (ok_or Corrupt (try_from u32_bound (length (locator rec)))) (\<lambda>locator_length.
        Inr ([1] @ source_namespace_id rec @ source_id rec @
             le_bytes 8 (registration_revision rec) @ le_bytes 8 (row_revision rec) @
             le_bytes 4 locator_length @ locator rec @ key_to_bytes (file_key rec) @
             le_bytes 2 (format_version (object_ref rec)) @ [kind_tag (obj_kind (object_ref rec))] @
             digest (object_ref rec) @ le_bytes 8 (byte_length (object_ref rec)))))"

definition decode_record :: "bytes \<Rightarrow> SourceControlError + CurrentSourceRecord" where
  "decode_record bs =
     bindE (sc_byte (bs, 0)) (\<lambda>(v, r).
     if v \<noteq> 1 then Inl UnsupportedSchema
     else
       bindE (sc_take 16 r) (\<lambda>(ns, r).
       bindE (sc_take 16 r) (\<lambda>(sid, r).
       bindE (sc_uint 8 r) (\<lambda>(registration, r).
       bindE (sc_uint 8 r) (\<lambda>(row, r).
       bindE (sc_uint 4 r) (\<lambda>(n, r).
       bindE (ok_or Corrupt (try_from u64_bound n)) (\<lambda>n.
       bindE (sc_take n r) (\<lambda>(loc, r).
       bindE (sc_take 17 r) (\<lambda>(kb, r).
       bindE (ok_or Corrupt (key_from_bytes kb)) (\<lambda>key.
       bindE (sc_uint 2 r) (\<lambda>(fmt, r).
       bindE (sc_byte r) (\<lambda>(tag, r).
       bindE (ok_or UnsupportedSchema (kind_from_tag tag)) (\<lambda>kind.
       bindE (sc_take 32 r) (\<lambda>(d, r).
       bindE (sc_uint 8 r) (\<lambda>(len, r).
       if fst r \<noteq> [] \<or> row = 0 \<or> registration = 0 \<or> fmt \<noteq> SOURCE_OBJECT_FORMAT_VERSION
          \<or> kind \<noteq> Source \<or> MAX_SOURCE_OBJECT_BYTES < len
       then Inl Corrupt
       else Inr \<lparr>source_namespace_id = ns, source_id = sid, row_revision = row,
              registration_revision = registration, locator = loc, file_key = key,
              object_ref = \<lparr>format_version = fmt, obj_kind = kind, digest = d, byte_length = len\<rparr>\<rparr>
       )))))))))))))))"

section \<open>Model: reading\<close>

definition read_source_schema :: "Database \<Rightarrow> env \<Rightarrow> SourceControlError + bool \<times> env" where
  "read_source_schema db env =
     bindE (sc_io env) (\<lambda>env. bindE (sc_io env) (\<lambda>env.
     bindE (catalogue_names (list_tables db) (db_multimaps db \<noteq> [])) (\<lambda>b. Inr (b, env))))"

definition id16 :: "bytes \<Rightarrow> SourceControlError + bytes" where
  "id16 bs = (if length bs = 16 then Inr bs else Inl Corrupt)"

definition read_namespace :: "Database \<Rightarrow> env \<Rightarrow> SourceControlError + bytes option \<times> env" where
  "read_namespace db env =
     bindE (r_open Corrupt db SOURCE_STATE env) (\<lambda>(t, env).
     bindE (r_get Database t SCHEMA_VERSION_KEY env) (\<lambda>(version, env).
     bindE (r_get Database t NAMESPACE_KEY env) (\<lambda>(namespace, env).
     case (version, namespace) of
       (None, None) \<Rightarrow> Inr (None, env)
     | (Some v, Some ns) \<Rightarrow>
         if v = SOURCE_SCHEMA_VERSION then bindE (id16 ns) (\<lambda>ns. Inr (Some ns, env)) else Inl Corrupt
     | _ \<Rightarrow> Inl Corrupt)))"

definition read_source_by_id ::
  "Database \<Rightarrow> bytes \<Rightarrow> env \<Rightarrow> SourceControlError + CurrentSourceRecord option \<times> env" where
  "read_source_by_id db sid env =
     bindE (r_open Corrupt db SOURCE_ROWS env) (\<lambda>(t, env).
     bindE (r_get Database t sid env) (\<lambda>(v, env).
     case v of None \<Rightarrow> Inr (None, env)
     | Some bs \<Rightarrow> bindE (decode_record bs) (\<lambda>source.
         if source_id source \<noteq> sid then Inl Corrupt else Inr (Some source, env))))"

definition u64_value :: "bytes \<Rightarrow> SourceControlError + nat" where
  "u64_value bs = (if length bs = 8 then Inr (of_le_bytes bs) else Inl Corrupt)"

definition wanted_revision :: "Database \<Rightarrow> env \<Rightarrow> SourceControlError + nat \<times> env" where
  "wanted_revision db env =
     bindE (r_open Corrupt db SOURCE_STATE env) (\<lambda>(t, env).
     bindE (r_get Database t WANTED_REVISION_KEY env) (\<lambda>(v, env).
     case v of None \<Rightarrow> Inr (0, env) | Some bs \<Rightarrow> bindE (u64_value bs) (\<lambda>n. Inr (n, env))))"

definition write_wanted_revision :: "Database \<Rightarrow> env \<Rightarrow> SourceControlError + (nat \<times> Database) \<times> env" where
  "write_wanted_revision db env =
     bindE (w_open Database SOURCE_STATE db env) (\<lambda>(db, env).
     bindE (w_get Database SOURCE_STATE WANTED_REVISION_KEY db env) (\<lambda>(v, env).
     case v of None \<Rightarrow> Inr ((0, db), env)
     | Some bs \<Rightarrow> bindE (u64_value bs) (\<lambda>n. Inr ((n, db), env))))"

definition advance_wanted_revision :: "Database \<Rightarrow> env \<Rightarrow> SourceControlError + Database \<times> env" where
  "advance_wanted_revision db env =
     bindE (write_wanted_revision db env) (\<lambda>((n, db), env).
     bindE (ok_or RevisionExhausted (checked_add64 n 1)) (\<lambda>next.
     bindE (w_open Database SOURCE_STATE db env) (\<lambda>(db, env).
     w_insert Database SOURCE_STATE WANTED_REVISION_KEY (le_bytes 8 next) db env)))"

definition load_locator_row ::
  "Database \<Rightarrow> bytes \<Rightarrow> env \<Rightarrow> SourceControlError + CurrentSourceRecord option \<times> env" where
  "load_locator_row db loc env =
     bindE (r_open Corrupt db SOURCE_LOCATORS env) (\<lambda>(lt, env).
     bindE (r_get Database lt loc env) (\<lambda>(v, env).
     case v of None \<Rightarrow> Inr (None, env)
     | Some sid \<Rightarrow>
         bindE (id16 sid) (\<lambda>sid.
         bindE (r_open Corrupt db SOURCE_ROWS env) (\<lambda>(rt, env).
         bindE (r_get Database rt sid env) (\<lambda>(row, env).
         bindE (ok_or Corrupt row) (\<lambda>row.
         bindE (decode_record row) (\<lambda>record.
         if source_id record \<noteq> sid \<or> locator record \<noteq> loc then Inl Corrupt
         else Inr (Some record, env))))))))"

definition capture_source_database ::
  "bytes option \<Rightarrow> bytes option \<Rightarrow> Database \<Rightarrow> bytes \<Rightarrow> env \<Rightarrow> SourceControlError + SourceCapture \<times> env" where
  "capture_source_database rnd1 rnd2 db loc env =
     bindE (sc_check env) (\<lambda>env.
     bindE (sc_io env) (\<lambda>env.
     bindE (sc_check env) (\<lambda>env.
     bindE (read_source_schema db env) (\<lambda>(is_current, env).
     if \<not> is_current then
       bindE (random_id rnd1) (\<lambda>ns. bindE (random_id rnd2) (\<lambda>sid.
       Inr (\<lparr>sc_namespace_id = ns, sc_source_id = sid, sc_locator = loc,
             sc_expected_namespace = None, sc_expected_row_revision = None,
             sc_expected_registration_revision = None\<rparr>, env)))
     else
       bindE (read_namespace db env) (\<lambda>(ns, env).
       bindE (ok_or Corrupt ns) (\<lambda>ns.
       bindE (load_locator_row db loc env) (\<lambda>(record, env).
       bindE (sc_check env) (\<lambda>env.
       bindE (case record of
           Some r \<Rightarrow> if source_namespace_id r \<noteq> ns then Inl Corrupt
             else Inr (source_id r, Some (row_revision r), Some (registration_revision r))
         | None \<Rightarrow> bindE (random_id rnd1) (\<lambda>sid. Inr (sid, None, None)))
         (\<lambda>(sid, row, registration).
       Inr (\<lparr>sc_namespace_id = ns, sc_source_id = sid, sc_locator = loc,
             sc_expected_namespace = Some ns, sc_expected_row_revision = row,
             sc_expected_registration_revision = registration\<rparr>, env))))))))))"

section \<open>Model: the inventory of all sources\<close>

text \<open>The rows already accepted, their reverse locators and the bytes charged so far.\<close>

fun inventory_rows ::
  "table \<Rightarrow> bytes \<Rightarrow> (bytes \<times> bytes) list \<Rightarrow> CurrentSourceRecord list \<Rightarrow> (bytes \<times> bytes) list \<Rightarrow> nat \<Rightarrow>
   env \<Rightarrow> SourceControlError + (CurrentSourceRecord list \<times> (bytes \<times> bytes) list) \<times> env" where
  "inventory_rows locators ns [] sources reverse charged env = Inr ((sources, reverse), env)"
| "inventory_rows locators ns ((sid, bs) # rows) sources reverse charged env =
     bindE (sc_check env) (\<lambda>env.
     bindE (sc_io env) (\<lambda>env.
     bindE (ok_or InventoryLimit (checked_add64 charged (length bs))) (\<lambda>charged.
     if MAX_CURRENT_SOURCES \<le> length sources \<or> MAX_CURRENT_SOURCE_BYTES < charged then Inl InventoryLimit
     else
       bindE (decode_record bs) (\<lambda>source.
       if sid \<noteq> source_id source \<or> source_namespace_id source \<noteq> ns then Inl Corrupt
       else
         bindE (r_get Database locators (locator source) env) (\<lambda>(indexed, env).
         bindE (ok_or Corrupt indexed) (\<lambda>indexed.
         if indexed \<noteq> source_id source then Inl Corrupt
         else
           bindE (ok_or InventoryLimit (checked_add64 charged (length (locator source)))) (\<lambda>charged.
           if MAX_CURRENT_SOURCE_BYTES < charged then Inl InventoryLimit
           else
             bindE (reserve_with InventoryLimit env) (\<lambda>env.
             inventory_rows locators ns rows (sources @ [source])
               ((source_id source, locator source) # reverse) charged env))))))))"

fun inventory_locators ::
  "(bytes \<times> bytes) list \<Rightarrow> (bytes \<times> bytes) list \<Rightarrow> nat \<Rightarrow> env \<Rightarrow>
   SourceControlError + ((bytes \<times> bytes) list \<times> nat) \<times> env" where
  "inventory_locators [] reverse count env = Inr ((reverse, count), env)"
| "inventory_locators ((loc, sid) # items) reverse count env =
     bindE (sc_check env) (\<lambda>env.
     bindE (sc_io env) (\<lambda>env.
     bindE (ok_or InventoryLimit (checked_add64 count 1)) (\<lambda>count.
     if MAX_CURRENT_SOURCES < count then Inl InventoryLimit
     else if map_of reverse sid \<noteq> Some loc then Inl Corrupt
     else inventory_locators items (filter (\<lambda>e. fst e \<noteq> sid) reverse) count env)))"

definition capture_sources_database ::
  "Database \<Rightarrow> env \<Rightarrow> SourceControlError + CurrentSourceRecord list \<times> env" where
  "capture_sources_database db env =
     bindE (sc_check env) (\<lambda>env.
     bindE (sc_io env) (\<lambda>env.
     bindE (read_source_schema db env) (\<lambda>(present, env).
     if \<not> present then Inr ([], env)
     else
       bindE (read_namespace db env) (\<lambda>(ns, env).
       bindE (ok_or Corrupt ns) (\<lambda>ns.
       bindE (r_open Corrupt db SOURCE_ROWS env) (\<lambda>(rows, env).
       bindE (r_open Corrupt db SOURCE_LOCATORS env) (\<lambda>(locators, env).
       bindE (sc_io env) (\<lambda>env.
       bindE (inventory_rows locators ns rows [] [] 0 env) (\<lambda>((sources, reverse), env).
       bindE (sc_io env) (\<lambda>env.
       bindE (inventory_locators locators reverse 0 env) (\<lambda>((reverse, count), env).
       if count \<noteq> length sources \<or> reverse \<noteq> [] then Inl Corrupt
       else bindE (sc_check env) (\<lambda>env. Inr (sources, env)))))))))))))"

section \<open>Model: the compare-and-swap commit\<close>

definition source_revisions ::
  "SourceCapture \<Rightarrow> Database \<Rightarrow> env \<Rightarrow> SourceControlError + ((nat \<times> nat) \<times> Database) \<times> env" where
  "source_revisions capture db env =
     bindE (w_open Database SOURCE_STATE db env) (\<lambda>(db, env).
     bindE (w_open Database SOURCE_ROWS db env) (\<lambda>(db, env).
     bindE (w_open Database SOURCE_LOCATORS db env) (\<lambda>(db, env).
     bindE (w_get Database SOURCE_STATE SCHEMA_VERSION_KEY db env) (\<lambda>(version, env).
     bindE (w_get Database SOURCE_STATE NAMESPACE_KEY db env) (\<lambda>(namespace, env).
     bindE (case (sc_expected_namespace capture, version, namespace) of
         (None, None, None) \<Rightarrow> Inr ()
       | (Some expected, Some v, Some ns) \<Rightarrow>
           if v = SOURCE_SCHEMA_VERSION \<and> ns = expected then Inr () else Inl Stale
       | _ \<Rightarrow> Inl Stale) (\<lambda>_.
     bindE (w_get Database SOURCE_LOCATORS (sc_locator capture) db env) (\<lambda>(existing, env).
     case (sc_expected_row_revision capture, sc_expected_registration_revision capture, existing) of
       (None, None, None) \<Rightarrow>
         bindE (w_get Database SOURCE_ROWS (sc_source_id capture) db env) (\<lambda>(row, env).
         if row \<noteq> None then Inl Stale else Inr (((1, 1), db), env))
     | (Some expected_row, Some expected_registration, Some sid) \<Rightarrow>
         if sid \<noteq> sc_source_id capture then Inl Stale
         else
           bindE (w_get Database SOURCE_ROWS (sc_source_id capture) db env) (\<lambda>(row, env).
           bindE (ok_or Stale row) (\<lambda>row.
           bindE (decode_record row) (\<lambda>current.
           if source_namespace_id current \<noteq> sc_namespace_id capture
              \<or> source_id current \<noteq> sc_source_id capture
              \<or> row_revision current \<noteq> expected_row
              \<or> registration_revision current \<noteq> expected_registration
              \<or> locator current \<noteq> sc_locator capture
           then Inl Stale
           else bindE (ok_or RevisionExhausted (checked_add64 expected_row 1)) (\<lambda>next.
             Inr (((next, expected_registration), db), env)))))
     | _ \<Rightarrow> Inl Stale)))))))"

text \<open>
  The body of the write transaction: \<open>Inl\<close> drops it, \<open>Inr (record, None)\<close> is the
  early return that keeps the current head and drops it too, and \<open>Inr (record, Some work)\<close>
  is ready to commit the working copy.
\<close>

definition commit_source_body ::
  "SourceCapture \<Rightarrow> NativeFileKey \<Rightarrow> ObjectRef \<Rightarrow> Database \<Rightarrow> env \<Rightarrow>
   SourceControlError + (CurrentSourceRecord \<times> Database option) \<times> env" where
  "commit_source_body capture key obj db env =
     bindE (sc_check env) (\<lambda>env.
     bindE (sc_io env) (\<lambda>env.
     bindE (sc_check env) (\<lambda>env.
     bindE (source_revisions capture db env) (\<lambda>(((row, registration), db), env).
     bindE (w_open Database SOURCE_STATE db env) (\<lambda>(db, env).
     bindE (w_open Database SOURCE_ROWS db env) (\<lambda>(db, env).
     bindE (w_open Database SOURCE_LOCATORS db env) (\<lambda>(db, env).
     bindE (if sc_expected_row_revision capture \<noteq> None then
         bindE (w_get Database SOURCE_ROWS (sc_source_id capture) db env) (\<lambda>(v, env).
         bindE (ok_or Stale v) (\<lambda>v.
         bindE (decode_record v) (\<lambda>current.
         Inr (if object_ref current = obj \<and> file_key current = key then Some current else None, env))))
       else Inr (None, env)) (\<lambda>(unchanged, env).
     case unchanged of Some current \<Rightarrow> Inr ((current, None), env)
     | None \<Rightarrow>
       (let record = \<lparr>source_namespace_id = sc_namespace_id capture, source_id = sc_source_id capture,
              row_revision = row, registration_revision = registration, locator = sc_locator capture,
              file_key = key, object_ref = obj\<rparr> in
        bindE (encode_record record) (\<lambda>encoded.
        bindE (if sc_expected_namespace capture = None then
            bindE (w_insert Database SOURCE_STATE SCHEMA_VERSION_KEY SOURCE_SCHEMA_VERSION db env)
              (\<lambda>(db, env). w_insert Database SOURCE_STATE NAMESPACE_KEY (sc_namespace_id capture) db env)
          else Inr (db, env)) (\<lambda>(db, env).
        bindE (w_insert Database SOURCE_ROWS (sc_source_id capture) encoded db env) (\<lambda>(db, env).
        bindE (w_insert Database SOURCE_LOCATORS (locator record) (sc_source_id capture) db env) (\<lambda>(db, env).
        bindE (advance_wanted_revision db env) (\<lambda>(db, env).
        bindE (sc_check env) (\<lambda>env. Inr ((record, Some db), env))))))))))))))))"

text \<open>The commit itself: the returned flag and the database afterwards.\<close>

definition commit_source_database ::
  "Database \<Rightarrow> SourceCapture \<Rightarrow> NativeFileKey \<Rightarrow> ObjectRef \<Rightarrow> env \<Rightarrow>
   SourceControlError + ((CurrentSourceRecord \<times> bool) \<times> Database) \<times> env" where
  "commit_source_database db capture key obj env =
     bindE (commit_source_body capture key obj db env) (\<lambda>((record, work), env).
     case work of None \<Rightarrow> Inr (((record, True), db), env)
     | Some work \<Rightarrow> (case w_commit work db env of
         ((ok, db'), env) \<Rightarrow> Inr (((record, ok), db'), env)))"

definition load_current_source_database ::
  "Database \<Rightarrow> bytes \<Rightarrow> env \<Rightarrow> SourceControlError + CurrentSourceRecord option \<times> env" where
  "load_current_source_database db loc env =
     bindE (sc_check env) (\<lambda>env.
     bindE (sc_io env) (\<lambda>env.
     bindE (read_source_schema db env) (\<lambda>(present, env).
     if \<not> present then Inr (None, env)
     else
       bindE (load_locator_row db loc env) (\<lambda>(record, env).
       bindE (sc_check env) (\<lambda>env. Inr (record, env))))))"

definition resolve_source_commit ::
  "CurrentSourceRecord \<Rightarrow> SourceControlError + CurrentSourceRecord option \<Rightarrow>
   SourceControlError + CurrentSourceRecord" where
  "resolve_source_commit record observed =
     (case observed of
        Inr (Some seen) \<Rightarrow> if seen = record then Inr record else Inl Stale
      | _ \<Rightarrow> Inl Database)"

text \<open>The result of an operation and the database it leaves.\<close>

definition commit_current_source ::
  "Database \<Rightarrow> SourceCapture \<Rightarrow> NativeFileKey \<Rightarrow> ObjectRef \<Rightarrow> env \<Rightarrow>
   (SourceControlError + CurrentSourceRecord) \<times> Database" where
  "commit_current_source db capture key obj env =
     (case bindE (sc_check env) (\<lambda>env. bindE (sc_io env) (\<lambda>env.
         commit_source_database db capture key obj env)) of
        Inl e \<Rightarrow> (Inl e, db)
      | Inr (((record, committed), db'), env) \<Rightarrow>
          if committed then (Inr record, db')
          else (resolve_source_commit record
                  (case bindE (sc_check env) (\<lambda>env. bindE (sc_io env) (\<lambda>env.
                      load_current_source_database db' (locator record) env)) of
                     Inl e \<Rightarrow> Inl e | Inr (seen, env) \<Rightarrow> Inr seen), db'))"

definition writer_commit_current_source ::
  "Database \<Rightarrow> SourceCapture \<Rightarrow> NativeFileKey \<Rightarrow> ObjectRef \<Rightarrow> env \<Rightarrow>
   (SourceControlError + CurrentSourceRecord) \<times> Database" where
  "writer_commit_current_source db capture key obj env =
     (case commit_source_database db capture key obj env of
        Inl e \<Rightarrow> (Inl e, db)
      | Inr (((record, committed), db'), env) \<Rightarrow> (if committed then Inr record else Inl Database, db'))"

section \<open>Model: removal\<close>

definition remove_source_preparation :: "bytes \<Rightarrow> Database \<Rightarrow> env \<Rightarrow> SourceControlError + Database \<times> env" where
  "remove_source_preparation sid db env =
     bindE (w_open Database PREPARATIONS db env) (\<lambda>(db, env).
     bindE (w_remove Database PREPARATIONS sid db env) (\<lambda>((_, db), env). Inr (db, env)))"

fun removal_guard ::
  "bytes \<Rightarrow> CurrentSourceRecord list \<Rightarrow> bytes list \<Rightarrow> bytes list \<Rightarrow> Database \<Rightarrow> env \<Rightarrow>
   SourceControlError + env" where
  "removal_guard ns [] ids locs db env = Inr env"
| "removal_guard ns (source # sources) ids locs db env =
     bindE (sc_check env) (\<lambda>env.
     if source_namespace_id source \<noteq> ns \<or> source_id source \<in> set ids \<or> locator source \<in> set locs
     then Inl Stale
     else
       bindE (w_get Database SOURCE_ROWS (source_id source) db env) (\<lambda>(row, env).
       bindE (ok_or Stale row) (\<lambda>row.
       bindE (decode_record row) (\<lambda>stored.
       if stored \<noteq> source then Inl Stale
       else
         bindE (w_get Database SOURCE_LOCATORS (locator source) db env) (\<lambda>(found, env).
         bindE (ok_or Stale found) (\<lambda>found.
         if found \<noteq> source_id source then Inl Stale
         else removal_guard ns sources (source_id source # ids) (locator source # locs) db env))))))"

fun removal_loop ::
  "CurrentSourceRecord list \<Rightarrow> Database \<Rightarrow> env \<Rightarrow> SourceControlError + Database \<times> env" where
  "removal_loop [] db env = Inr (db, env)"
| "removal_loop (source # sources) db env =
     bindE (sc_check env) (\<lambda>env.
     bindE (w_remove Database SOURCE_ROWS (source_id source) db env) (\<lambda>((row, db), env).
     if row = None then Inl Stale
     else
       bindE (w_remove Database SOURCE_LOCATORS (locator source) db env) (\<lambda>((found, db), env).
       if found = None then Inl Stale
       else
         bindE (remove_source_preparation (source_id source) db env) (\<lambda>(db, env).
         removal_loop sources db env))))"

definition remove_sources_body ::
  "CurrentSourceRecord list \<Rightarrow> Database \<Rightarrow> env \<Rightarrow> SourceControlError + Database \<times> env" where
  "remove_sources_body expected db env =
     bindE (sc_check env) (\<lambda>env.
     bindE (sc_io env) (\<lambda>env.
     bindE (sc_check env) (\<lambda>env.
     bindE (w_open Database SOURCE_STATE db env) (\<lambda>(db, env).
     bindE (w_get Database SOURCE_STATE SCHEMA_VERSION_KEY db env) (\<lambda>(version, env).
     bindE (ok_or Stale version) (\<lambda>version.
     bindE (w_get Database SOURCE_STATE NAMESPACE_KEY db env) (\<lambda>(ns, env).
     bindE (ok_or Stale ns) (\<lambda>ns.
     if version \<noteq> SOURCE_SCHEMA_VERSION then Inl Stale
     else
       bindE (id16 ns) (\<lambda>ns.
       bindE (w_open Database SOURCE_ROWS db env) (\<lambda>(db, env).
       bindE (w_open Database SOURCE_LOCATORS db env) (\<lambda>(db, env).
       bindE (removal_guard ns expected [] [] db env) (\<lambda>env.
       bindE (removal_loop expected db env) (\<lambda>(db, env).
       bindE (advance_wanted_revision db env) (\<lambda>(db, env).
       bindE (sc_check env) (\<lambda>env. Inr (db, env))))))))))))))))"

definition remove_sources_database ::
  "Database \<Rightarrow> CurrentSourceRecord list \<Rightarrow> env \<Rightarrow> SourceControlError + (bool \<times> Database) \<times> env" where
  "remove_sources_database db expected env =
     (if expected = [] then Inr ((True, db), env)
      else if MAX_CURRENT_SOURCES < length expected then Inl InventoryLimit
      else bindE (remove_sources_body expected db env) (\<lambda>(work, env). Inr (w_commit work db env)))"

definition remove_current_sources ::
  "Database \<Rightarrow> CurrentSourceRecord list \<Rightarrow> env \<Rightarrow> (SourceControlError + unit) \<times> Database" where
  "remove_current_sources db expected env =
     (case remove_sources_database db expected env of
        Inl e \<Rightarrow> (Inl e, db)
      | Inr ((ok, db'), env) \<Rightarrow> (if ok then Inr () else Inl Database, db'))"

section \<open>Model: admitted selections\<close>

definition selection_key :: "bytes \<Rightarrow> bytes" where
  "selection_key loc = SELECTION_PREFIX @ hex_bytes loc"

definition decode_selection ::
  "(bytes \<Rightarrow> StoredSelection option) \<Rightarrow> bytes \<Rightarrow> bytes \<Rightarrow> SourceControlError + AdmittedSelection" where
  "decode_selection from_slice key bs =
     bindE (ok_or Corrupt (from_slice bs)) (\<lambda>stored.
     if ss_version stored \<noteq> 1 \<or> selection_key (ss_locator stored) \<noteq> key then Inl Corrupt
     else bindE (source_path_from_locator (ss_locator stored)) (\<lambda>path.
       Inr \<lparr>as_path = path, as_kind = ss_kind stored\<rparr>))"

definition is_selection_key :: "bytes \<Rightarrow> bool" where
  "is_selection_key k \<longleftrightarrow> take (length SELECTION_PREFIX) k = SELECTION_PREFIX"

fun selections_loop ::
  "(bytes \<Rightarrow> StoredSelection option) \<Rightarrow> (bytes \<times> bytes) list \<Rightarrow> AdmittedSelection list \<Rightarrow> nat \<Rightarrow> env \<Rightarrow>
   SourceControlError + AdmittedSelection list \<times> env" where
  "selections_loop from_slice [] selections charged env = Inr (selections, env)"
| "selections_loop from_slice ((k, v) # items) selections charged env =
     bindE (sc_check env) (\<lambda>env.
     bindE (sc_io env) (\<lambda>env.
     if \<not> is_selection_key k then selections_loop from_slice items selections charged env
     else
       bindE (ok_or InventoryLimit (checked_add64 charged (length k + length v))) (\<lambda>charged.
       if MAX_CURRENT_SOURCES \<le> length selections \<or> MAX_CURRENT_SOURCE_BYTES < charged
       then Inl InventoryLimit
       else bindE (decode_selection from_slice k v) (\<lambda>s.
         selections_loop from_slice items (selections @ [s]) charged env))))"

definition capture_selections_database ::
  "(bytes \<Rightarrow> StoredSelection option) \<Rightarrow> Database \<Rightarrow> env \<Rightarrow>
   SourceControlError + AdmittedSelection list \<times> env" where
  "capture_selections_database from_slice db env =
     bindE (sc_check env) (\<lambda>env.
     bindE (sc_io env) (\<lambda>env.
     bindE (read_source_schema db env) (\<lambda>(present, env).
     if \<not> present then Inr ([], env)
     else
       bindE (read_namespace db env) (\<lambda>(ns, env).
       bindE (ok_or Corrupt ns) (\<lambda>_.
       bindE (r_open Corrupt db SOURCE_STATE env) (\<lambda>(state, env).
       bindE (sc_io env) (\<lambda>env.
       bindE (selections_loop from_slice state [] 0 env) (\<lambda>(selections, env).
       bindE (sc_check env) (\<lambda>env. Inr (selections, env))))))))))"

definition ensure_admission_schema ::
  "bytes option \<Rightarrow> Database \<Rightarrow> env \<Rightarrow> SourceControlError + Database \<times> env" where
  "ensure_admission_schema rnd db env =
     bindE (read_source_schema db env) (\<lambda>(exists, env).
     bindE (w_open Database SOURCE_STATE db env) (\<lambda>(db, env).
     if exists then
       bindE (w_get Database SOURCE_STATE SCHEMA_VERSION_KEY db env) (\<lambda>(version, env).
       bindE (w_get Database SOURCE_STATE NAMESPACE_KEY db env) (\<lambda>(ns, env).
       if version \<noteq> Some SOURCE_SCHEMA_VERSION \<or> (case ns of None \<Rightarrow> True | Some n \<Rightarrow> length n \<noteq> 16)
       then Inl Corrupt else Inr (db, env)))
     else
       bindE (w_insert Database SOURCE_STATE SCHEMA_VERSION_KEY SOURCE_SCHEMA_VERSION db env) (\<lambda>(db, env).
       bindE (random_id rnd) (\<lambda>ns.
       bindE (w_insert Database SOURCE_STATE NAMESPACE_KEY ns db env) (\<lambda>(db, env).
       bindE (w_open Database SOURCE_ROWS db env) (\<lambda>(db, env).
       w_open Database SOURCE_LOCATORS db env))))))"

fun admit_charge ::
  "bytes \<Rightarrow> (bytes \<times> bytes) list \<Rightarrow> nat \<Rightarrow> nat \<Rightarrow> env \<Rightarrow> SourceControlError + env" where
  "admit_charge key [] count charged env = Inr env"
| "admit_charge key ((k, v) # items) count charged env =
     bindE (sc_check env) (\<lambda>env.
     bindE (sc_io env) (\<lambda>env.
     bindE (if is_selection_key k \<and> k \<noteq> key
            then bindE (ok_or InventoryLimit (checked_add64 charged (length k + length v)))
                   (\<lambda>charged. Inr (count + 1, charged))
            else Inr (count, charged)) (\<lambda>(count, charged).
     if MAX_CURRENT_SOURCES < count \<or> MAX_CURRENT_SOURCE_BYTES < charged then Inl InventoryLimit
     else admit_charge key items count charged env)))"

definition admit_selection_body ::
  "(StoredSelection \<Rightarrow> bytes option) \<Rightarrow> (bytes \<Rightarrow> StoredSelection option) \<Rightarrow> bytes option \<Rightarrow>
   AdmittedSelection \<Rightarrow> Database \<Rightarrow> env \<Rightarrow> SourceControlError + Database option \<times> env" where
  "admit_selection_body to_vec from_slice rnd selection db env =
     bindE (sc_check env) (\<lambda>env.
     bindE (source_locator_bytes (as_path selection)) (\<lambda>loc.
     bindE (ok_or Corrupt (to_vec \<lparr>ss_version = 1, ss_locator = loc, ss_kind = as_kind selection\<rparr>)) (\<lambda>bs.
     bindE (sc_io env) (\<lambda>env.
     bindE (ensure_admission_schema rnd db env) (\<lambda>(db, env).
     bindE (w_open Database SOURCE_STATE db env) (\<lambda>(db, env).
     let key = selection_key loc in
     bindE (w_get Database SOURCE_STATE key db env) (\<lambda>(existing, env).
     bindE (case existing of None \<Rightarrow> Inr False
            | Some v \<Rightarrow> bindE (decode_selection from_slice key v) (\<lambda>s. Inr (s = selection))) (\<lambda>same.
     if same then Inr (None, env)
     else
       bindE (sc_io env) (\<lambda>env.
       bindE (admit_charge key (the_table db SOURCE_STATE) 1 (length key + length bs) env) (\<lambda>env.
       bindE (w_insert Database SOURCE_STATE key bs db env) (\<lambda>(db, env).
       bindE (sc_check env) (\<lambda>env. Inr (Some db, env)))))))))))))"

definition admit_selection ::
  "(StoredSelection \<Rightarrow> bytes option) \<Rightarrow> (bytes \<Rightarrow> StoredSelection option) \<Rightarrow> bytes option \<Rightarrow>
   AdmittedSelection \<Rightarrow> Database \<Rightarrow> env \<Rightarrow> (SourceControlError + unit) \<times> Database" where
  "admit_selection to_vec from_slice rnd selection db env =
     (case admit_selection_body to_vec from_slice rnd selection db env of
        Inl e \<Rightarrow> (Inl e, db)
      | Inr (None, env) \<Rightarrow> (Inr (), db)
      | Inr (Some work, env) \<Rightarrow> (case w_commit work db env of
          ((ok, db'), _) \<Rightarrow> (if ok then Inr () else Inl Database, db')))"

end
