(* ===== verification/SourceLaws.thy ===== *)
theory SourceLaws
  imports SourceControl
begin

text \<open>
  Laws of the current-source rows: the codec, the catalogue as a condition on the set of
  table names, and interruption. \<open>codec\<close> is the contract between a table and the records
  it stores: a stored record is read back, and reading returns only well-formed records.
\<close>

section \<open>The codec contract\<close>

locale codec =
  fixes enc :: "'a \<Rightarrow> 'e + bytes" and dec :: "bytes \<Rightarrow> 'e + 'a" and storable :: "'a \<Rightarrow> bool"
  assumes dec_enc: "storable x \<Longrightarrow> enc x = Inr bs \<Longrightarrow> dec bs = Inr x"
    and enc_dec: "dec bs = Inr x \<Longrightarrow> storable x \<Longrightarrow> enc x = Inr bs"
begin

lemma enc_inject: "storable x \<Longrightarrow> storable y \<Longrightarrow> enc x = Inr bs \<Longrightarrow> enc y = Inr bs \<Longrightarrow> x = y"
  using dec_enc by (metis sum.inject(2))

lemma dec_inject: "dec bs = Inr x \<Longrightarrow> dec cs = Inr x \<Longrightarrow> storable x \<Longrightarrow> bs = cs"
  using enc_dec by (metis sum.inject(2))

end

section \<open>The row codec\<close>

definition storable_source :: "CurrentSourceRecord \<Rightarrow> bool" where
  "storable_source r \<longleftrightarrow> wf_source r \<and> byte_length (object_ref r) \<le> MAX_SOURCE_OBJECT_BYTES \<and>
     locator r \<noteq> [] \<and> length (locator r) \<le> MAX_LOCATOR_BYTES"

lemma sc_take_app [codec_simps]:
  "length c = n \<Longrightarrow> pos + n < u64_bound \<Longrightarrow> sc_take n (c @ rest, pos) = Inr (c, (rest, pos + n))"
  unfolding sc_take_def by (rule rd.rtake_app)

lemma sc_uint_app [codec_simps]:
  "v < 256 ^ k \<Longrightarrow> pos + k < u64_bound \<Longrightarrow> sc_uint k (le_bytes k v @ rest, pos) = Inr (v, (rest, pos + k))"
  unfolding sc_uint_def sc_take_def by (rule rd.rtake_word)

lemma sc_uint_app_end [codec_simps]:
  "v < 256 ^ k \<Longrightarrow> pos + k < u64_bound \<Longrightarrow> sc_uint k (le_bytes k v, pos) = Inr (v, ([], pos + k))"
  using sc_uint_app [of v k pos "[]"] by simp

lemma sc_byte_app [codec_simps]:
  "pos + 1 < u64_bound \<Longrightarrow> sc_byte (b # rest, pos) = Inr (b, (rest, pos + 1))"
  using sc_take_app [of "[b]" 1 pos rest] by (simp add: sc_byte_def)

lemma sc_take_Inr:
  "sc_take n r = Inr (c, r') \<Longrightarrow> length c = n \<and> fst r = c @ fst r'"
  unfolding sc_take_def using rd.rtake_Inr by (cases r) fastforce

lemma sc_uint_Inr:
  "sc_uint k r = Inr (v, r') \<Longrightarrow> v < 256 ^ k \<and> fst r = le_bytes k v @ fst r'"
  unfolding sc_uint_def sc_take_def using rd.rtake_word_Inr by (cases r) fastforce

lemma sc_byte_Inr: "sc_byte r = Inr (b, r') \<Longrightarrow> fst r = b # fst r'"
  by (auto simp: sc_byte_def res_simps length_Suc_conv dest!: sc_take_Inr)

lemma encode_record_Inr:
  "encode_record r = Inr bs \<Longrightarrow> row_revision r \<noteq> 0 \<and> registration_revision r \<noteq> 0 \<and>
     obj_kind (object_ref r) = Source \<and> format_version (object_ref r) = SOURCE_OBJECT_FORMAT_VERSION \<and>
     locator r \<noteq> [] \<and> length (locator r) \<le> MAX_LOCATOR_BYTES"
  by (auto simp: encode_record_def split: if_splits)

lemma decode_encode_record:
  assumes "storable_source r" and "encode_record r = Inr bs"
  shows "decode_record bs = Inr r"
proof -
  note e = encode_record_Inr [OF assms(2)]
  have w: "length (source_namespace_id r) = 16" "length (source_id r) = 16" "row_revision r < u64_bound"
      "registration_revision r < u64_bound" "wf_key (file_key r)" "length (digest (object_ref r)) = 32"
      "byte_length (object_ref r) < u64_bound" "byte_length (object_ref r) \<le> MAX_SOURCE_OBJECT_BYTES"
    using assms(1) by (auto simp: storable_source_def wf_source_def wf_object_def)
  have n: "length (locator r) < u32_bound" using e by (simp add: MAX_LOCATOR_BYTES_def)
  show ?thesis using assms(2) e w n
    by (simp add: encode_record_def try_from_def decode_record_def sc_byte_app sc_take_app sc_uint_app
        sc_uint_app_end key_from_to_bytes MAX_LOCATOR_BYTES_def SOURCE_OBJECT_FORMAT_VERSION_def)
      (auto simp: try_from_def sc_byte_app sc_take_app sc_uint_app sc_uint_app_end key_from_to_bytes
        kind_from_tag_def SOURCE_OBJECT_FORMAT_VERSION_def intro!: CurrentSourceRecord.equality ObjectRef.equality)
qed

lemma decode_record_Inr:
  assumes "decode_record bs = Inr r"
  shows "wf_source r \<and> row_revision r \<noteq> 0 \<and> registration_revision r \<noteq> 0 \<and>
    obj_kind (object_ref r) = Source \<and> format_version (object_ref r) = SOURCE_OBJECT_FORMAT_VERSION \<and>
    byte_length (object_ref r) \<le> MAX_SOURCE_OBJECT_BYTES \<and>
    bs = [1] @ source_namespace_id r @ source_id r @
             le_bytes 8 (registration_revision r) @ le_bytes 8 (row_revision r) @
             le_bytes 4 (length (locator r)) @ locator r @ key_to_bytes (file_key r) @
             le_bytes 2 (format_version (object_ref r)) @ [kind_tag (obj_kind (object_ref r))] @
             digest (object_ref r) @ le_bytes 8 (byte_length (object_ref r))"
  using assms unfolding decode_record_def
  by (auto simp: res_simps wf_source_def wf_object_def MAX_SOURCE_OBJECT_BYTES_def
      split: if_splits dest!: sc_byte_Inr sc_take_Inr sc_uint_Inr kind_from_tag_Some
      dest: key_to_from_bytes)

lemma encode_decode_record:
  "decode_record bs = Inr r \<Longrightarrow> storable_source r \<Longrightarrow> encode_record r = Inr bs"
  using decode_record_Inr [of bs r]
  by (auto simp: storable_source_def encode_record_def try_from_def MAX_LOCATOR_BYTES_def)

interpretation rows: codec encode_record decode_record storable_source
  by unfold_locales (rule decode_encode_record encode_decode_record; assumption)+

section \<open>Interruption\<close>

abbreviation sc_interrupts :: "SourceControlError set" where
  "sc_interrupts \<equiv> {Cancelled, Deadline, Database, Corrupt, InventoryLimit}"

lemma sc_quiet [simp]: "sc_check [] = Inr []" "sc_io [] = Inr []"
  by (simp_all add: sc_check_def sc_io_def)

lemma sc_polls [interruptible_intros]:
  "polls sc_interrupts sc_check" "polls sc_interrupts sc_io"
  "polls sc_interrupts (reserve_with InventoryLimit)"
  unfolding sc_check_def sc_io_def by (auto intro: polls_check polls_io polls_reserve)

lemma store_interruptible:
  "e \<in> I \<Longrightarrow> interruptible I (r_open e db n)" "e \<in> I \<Longrightarrow> interruptible I (r_get e t k)"
  "e \<in> I \<Longrightarrow> interruptible I (w_open e n db)" "e \<in> I \<Longrightarrow> interruptible I (w_get e n k db)"
  "e \<in> I \<Longrightarrow> interruptible I (w_insert e n k v db)" "e \<in> I \<Longrightarrow> interruptible I (w_remove e n k db)"
  unfolding store_defs by (intro interruptible_intros polls_io; assumption)+

lemma sc_store_interruptible [interruptible_intros]:
  "interruptible sc_interrupts (r_open Corrupt db n)" "interruptible sc_interrupts (r_get Database t k)"
  "interruptible sc_interrupts (w_open Database n db)" "interruptible sc_interrupts (w_get Database n k db)"
  "interruptible sc_interrupts (w_insert Database n k v db)"
  "interruptible sc_interrupts (w_remove Database n k db)"
  by (auto intro: store_interruptible)

lemma read_interruptible [interruptible_intros]:
  "interruptible sc_interrupts (read_source_schema db)"
  "interruptible sc_interrupts (read_namespace db)"
  "interruptible sc_interrupts (load_locator_row db loc)"
  "interruptible sc_interrupts (read_source_by_id db sid)"
  unfolding read_source_schema_def read_namespace_def load_locator_row_def read_source_by_id_def
  by (intro interruptible_intros; simp split: option.splits)+

lemma advance_wanted_interruptible [interruptible_intros]:
  "interruptible sc_interrupts (advance_wanted_revision db)"
  unfolding advance_wanted_revision_def write_wanted_revision_def
  by (intro interruptible_intros)

lemma capture_source_interruptible:
  "interruptible sc_interrupts (capture_source_database r1 r2 db loc)"
  unfolding capture_source_database_def
  by (intro interruptible_intros)

lemma source_revisions_interruptible [interruptible_intros]:
  "interruptible sc_interrupts (source_revisions cap db)"
  unfolding source_revisions_def
  by (intro interruptible_intros)

lemma commit_source_interruptible:
  "interruptible sc_interrupts (commit_source_body cap key obj db)"
  unfolding commit_source_body_def Let_def
  by (intro interruptible_intros)

section \<open>Uninterrupted table access\<close>

definition ensure :: "string \<Rightarrow> Database \<Rightarrow> Database" where
  "ensure n db = (if get_table db n = None then set_table n [] db else db)"

definition put_in :: "string \<Rightarrow> bytes \<Rightarrow> bytes \<Rightarrow> Database \<Rightarrow> Database" where
  "put_in n k v db = set_table n (tbl_put k v (the_table db n)) db"

definition del_in :: "string \<Rightarrow> bytes \<Rightarrow> Database \<Rightarrow> Database" where
  "del_in n k db = set_table n (tbl_del k (the_table db n)) db"

lemma store_quiet [simp]:
  "r_open e db n [] = bindE (ok_or e (get_table db n)) (\<lambda>t. Inr (t, []))"
  "r_get e t k [] = Inr (tbl_get t k, [])"
  "w_open e n db [] = Inr (ensure n db, [])"
  "w_get e n k db [] = Inr (tbl_get (the_table db n) k, [])"
  "w_insert e n k v db [] = Inr (put_in n k v db, [])"
  "w_remove e n k db [] = Inr ((tbl_get (the_table db n) k, del_in n k db), [])"
  by (simp_all add: store_defs ensure_def put_in_def del_in_def)

lemma the_table_ensure [simp]: "the_table (ensure n db) m = the_table db m"
  by (auto simp: ensure_def the_table_def get_set_table)

lemma the_table_put_in: "the_table (put_in n k v db) m = (if m = n then tbl_put k v (the_table db n) else the_table db m)"
  by (simp add: put_in_def the_table_set)

lemma the_table_del_in: "the_table (del_in n k db) m = (if m = n then tbl_del k (the_table db n) else the_table db m)"
  by (simp add: del_in_def the_table_set)

lemma names_set_table: "set (list_tables (set_table n t db)) = insert n (set (list_tables db))"
  by (simp add: list_tables_def set_table_def set_entry_names del: set_map)

lemma names_ensure [simp]: "set (list_tables (ensure n db)) = insert n (set (list_tables db))"
proof (cases "get_table db n")
  case (Some t)
  then have "n \<in> set (list_tables db)"
    by (auto simp: get_table_def list_tables_def dest!: map_of_SomeD intro: rev_image_eqI)
  then show ?thesis using Some by (auto simp: ensure_def)
qed (simp add: ensure_def names_set_table)

lemma names_put_in [simp]: "set (list_tables (put_in n k v db)) = insert n (set (list_tables db))"
  by (simp add: put_in_def names_set_table)

lemma names_del_in [simp]: "set (list_tables (del_in n k db)) = insert n (set (list_tables db))"
  by (simp add: del_in_def names_set_table)

lemma ok_ensure [simp]: "db_ok db \<Longrightarrow> db_ok (ensure n db)"
  by (simp add: ensure_def db_ok_set_table)

lemma ok_put_in [simp]: "db_ok db \<Longrightarrow> db_ok (put_in n k v db)"
  by (simp add: put_in_def db_ok_set_table tb.ok_put)

lemma ok_del_in [simp]: "db_ok db \<Longrightarrow> db_ok (del_in n k db)"
  by (simp add: del_in_def db_ok_set_table tb.ok_del)

lemma multimaps_writes [simp]:
  "db_multimaps (ensure n db) = db_multimaps db" "db_multimaps (put_in n k v db) = db_multimaps db"
  "db_multimaps (del_in n k db) = db_multimaps db"
  by (simp_all add: ensure_def put_in_def del_in_def set_table_def)

lemma get_table_iff: "get_table db n \<noteq> None \<longleftrightarrow> n \<in> set (list_tables db)"
  by (auto simp: get_table_def list_tables_def map_of_eq_None_iff)

lemma get_table_the: "n \<in> set (list_tables db) \<Longrightarrow> get_table db n = Some (the_table db n)"
  using get_table_iff [of db n] by (auto simp: the_table_def)

section \<open>The catalogue is a condition on the set of names\<close>

lemmas table_name_defs = META_TABLE_NAME_def SOURCE_STATE_def SOURCE_ROWS_def SOURCE_LOCATORS_def
  PREPARATIONS_def PUBLICATION_TABLE_NAMES_def

lemma table_names_distinct [simp]:
  "SOURCE_STATE \<noteq> SOURCE_ROWS" "SOURCE_ROWS \<noteq> SOURCE_STATE" "SOURCE_STATE \<noteq> SOURCE_LOCATORS"
  "SOURCE_LOCATORS \<noteq> SOURCE_STATE" "SOURCE_ROWS \<noteq> SOURCE_LOCATORS" "SOURCE_LOCATORS \<noteq> SOURCE_ROWS"
  "PREPARATIONS \<noteq> SOURCE_STATE" "SOURCE_STATE \<noteq> PREPARATIONS" "PREPARATIONS \<noteq> SOURCE_ROWS"
  "SOURCE_ROWS \<noteq> PREPARATIONS" "PREPARATIONS \<noteq> SOURCE_LOCATORS" "SOURCE_LOCATORS \<noteq> PREPARATIONS"
  by (simp_all add: table_name_defs)

lemma state_keys_distinct [simp]:
  "SCHEMA_VERSION_KEY \<noteq> NAMESPACE_KEY" "NAMESPACE_KEY \<noteq> SCHEMA_VERSION_KEY"
  "WANTED_REVISION_KEY \<noteq> NAMESPACE_KEY" "NAMESPACE_KEY \<noteq> WANTED_REVISION_KEY"
  "WANTED_REVISION_KEY \<noteq> SCHEMA_VERSION_KEY" "SCHEMA_VERSION_KEY \<noteq> WANTED_REVISION_KEY"
  by (simp_all add: SCHEMA_VERSION_KEY_def NAMESPACE_KEY_def WANTED_REVISION_KEY_def)

abbreviation PUB :: "string set" where "PUB \<equiv> set PUBLICATION_TABLE_NAMES"
abbreviation BASE :: "string set" where
  "BASE \<equiv> {META_TABLE_NAME, SOURCE_STATE, SOURCE_ROWS, SOURCE_LOCATORS}"

text \<open>Operations on sources and preparations leave the publication tables alone.\<close>

definition keeps_pub :: "Database \<Rightarrow> Database \<Rightarrow> bool" where
  "keeps_pub db db' \<longleftrightarrow> (\<forall>n \<in> PUB. get_table db' n = get_table db n)"

lemma keeps_pub_refl [simp]: "keeps_pub db db"
  by (simp add: keeps_pub_def)

lemma keeps_pub_trans: "keeps_pub a b \<Longrightarrow> keeps_pub b c \<Longrightarrow> keeps_pub a c"
  by (simp add: keeps_pub_def)

lemma get_table_writes:
  "m \<noteq> n \<Longrightarrow> get_table (ensure n db) m = get_table db m"
  "m \<noteq> n \<Longrightarrow> get_table (put_in n k v db) m = get_table db m"
  "m \<noteq> n \<Longrightarrow> get_table (del_in n k db) m = get_table db m"
  by (simp_all add: ensure_def put_in_def del_in_def get_set_table)

lemma keeps_pub_writes [simp]:
  "n \<notin> PUB \<Longrightarrow> keeps_pub db (ensure n db') = keeps_pub db db'"
  "n \<notin> PUB \<Longrightarrow> keeps_pub db (put_in n k v db') = keeps_pub db db'"
  "n \<notin> PUB \<Longrightarrow> keeps_pub db (del_in n k db') = keeps_pub db db'"
  unfolding keeps_pub_def by (metis get_table_writes)+

lemma control_tables_not_pub [simp]:
  "SOURCE_STATE \<notin> PUB" "SOURCE_ROWS \<notin> PUB" "SOURCE_LOCATORS \<notin> PUB" "PREPARATIONS \<notin> PUB"
  by (simp_all add: table_name_defs)

definition pub_ok :: "string set \<Rightarrow> bool" where
  "pub_ok N \<longleftrightarrow> N \<inter> PUB = {} \<or> PUB \<subseteq> N"

lemma sort_eq_iff:
  fixes xs ys :: "'a::linorder list"
  assumes "distinct xs" "distinct ys"
  shows "sort xs = sort ys \<longleftrightarrow> set xs = set ys"
  using assms sorted_distinct_set_unique [of "sort xs" "sort ys"] by (metis distinct_sort set_sort sorted_sort)

lemma pub_count:
  assumes "distinct names"
  defines "c \<equiv> length (filter (\<lambda>n. n \<in> PUB) names)"
  shows "c = 0 \<or> c = length PUBLICATION_TABLE_NAMES \<longleftrightarrow> pub_ok (set names)"
proof -
  have d: "distinct PUBLICATION_TABLE_NAMES" by (simp add: PUBLICATION_TABLE_NAMES_def)
  have c: "c = card (set names \<inter> PUB)"
    using assms(1) distinct_card [of "filter (\<lambda>n. n \<in> PUB) names"] by (simp add: c_def Int_def)
  have "c = 0 \<longleftrightarrow> set names \<inter> PUB = {}" using c by simp
  moreover have "c = length PUBLICATION_TABLE_NAMES \<longleftrightarrow> PUB \<subseteq> set names"
    using c distinct_card [OF d] card_subset_eq [of PUB "set names \<inter> PUB"]
    by (metis Int_absorb1 List.finite_set inf_le2 le_infE order_refl)
  ultimately show ?thesis by (auto simp: pub_ok_def)
qed

lemma catalogue_names_set:
  assumes "distinct names"
  shows "catalogue_names names False =
    (if \<not> pub_ok (set names) then Inl UnsupportedSchema
     else if set names - PUB = {META_TABLE_NAME} then Inr False
     else if set names - PUB = BASE \<or> set names - PUB = BASE \<union> {PREPARATIONS} then Inr True
     else Inl UnsupportedSchema)"
proof -
  let ?f = "filter (\<lambda>n. n \<notin> PUB) names"
  have f: "distinct ?f" "set ?f = set names - PUB" using assms by auto
  have one: "length (sort ?f) = 1 \<and> sort ?f ! 0 = META_TABLE_NAME \<longleftrightarrow> set names - PUB = {META_TABLE_NAME}"
  proof -
    have "length (sort ?f) = 1 \<and> sort ?f ! 0 = META_TABLE_NAME \<longleftrightarrow> sort ?f = sort [META_TABLE_NAME]"
      by (cases "sort ?f") auto
    also have "\<dots> \<longleftrightarrow> set ?f = set [META_TABLE_NAME]" by (rule sort_eq_iff) (use f(1) in auto)
    finally show ?thesis using f(2) by simp
  qed
  have d4: "distinct [META_TABLE_NAME, SOURCE_STATE, SOURCE_ROWS, SOURCE_LOCATORS]"
    by (simp add: table_name_defs)
  have "PREPARATIONS \<notin> BASE" by (simp add: table_name_defs)
  with d4 have d5: "distinct (sort [META_TABLE_NAME, SOURCE_STATE, SOURCE_ROWS, SOURCE_LOCATORS] @ [PREPARATIONS])"
    by (simp del: sort_key_simps)
  have four: "sort ?f = sort [META_TABLE_NAME, SOURCE_STATE, SOURCE_ROWS, SOURCE_LOCATORS] \<longleftrightarrow>
      set names - PUB = BASE"
    using sort_eq_iff [OF f(1) d4] f(2) by simp
  have five: "sort ?f = sort (sort [META_TABLE_NAME, SOURCE_STATE, SOURCE_ROWS, SOURCE_LOCATORS] @ [PREPARATIONS]) \<longleftrightarrow>
      set names - PUB = BASE \<union> {PREPARATIONS}"
    using sort_eq_iff [OF f(1) d5] f(2) by (simp add: insert_commute)
  show ?thesis
    unfolding catalogue_names_def Let_def one four five using pub_count [OF assms] by auto
qed

end
