(* ===== verification/SourceSafety.thy ===== *)
theory SourceSafety
  imports SourceLaws
begin

text \<open>
  Safety of the current-source operations. The invariant \<open>control_ok\<close> says that a
  control database is fresh or that its rows and locators are inverse to each other within
  one namespace; \<open>sources_of\<close> is the abstract registry (locator to record) it stands for.
  Every operation keeps the invariant whatever the environment does, and acts on the
  registry as a map update, as a deletion or not at all.
\<close>

section \<open>The invariant and the abstract registry\<close>

abbreviation st_of :: "Database \<Rightarrow> bytes \<Rightarrow> bytes option" where
  "st_of db \<equiv> tbl_get (the_table db SOURCE_STATE)"
abbreviation rows_of :: "Database \<Rightarrow> bytes \<Rightarrow> bytes option" where
  "rows_of db \<equiv> tbl_get (the_table db SOURCE_ROWS)"
abbreviation locs_of :: "Database \<Rightarrow> bytes \<Rightarrow> bytes option" where
  "locs_of db \<equiv> tbl_get (the_table db SOURCE_LOCATORS)"
abbreviation preps_of :: "Database \<Rightarrow> bytes \<Rightarrow> bytes option" where
  "preps_of db \<equiv> tbl_get (the_table db PREPARATIONS)"

definition fresh_control :: "Database \<Rightarrow> bool" where
  "fresh_control db \<longleftrightarrow> pub_ok (set (list_tables db)) \<and> set (list_tables db) - PUB = {META_TABLE_NAME}"

definition current_schema :: "Database \<Rightarrow> bool" where
  "current_schema db \<longleftrightarrow> pub_ok (set (list_tables db)) \<and>
     (set (list_tables db) - PUB = BASE \<or> set (list_tables db) - PUB = BASE \<union> {PREPARATIONS})"

definition row_ok :: "bytes \<Rightarrow> Database \<Rightarrow> bytes \<Rightarrow> bytes \<Rightarrow> bool" where
  "row_ok ns db sid bs \<longleftrightarrow> (\<exists>r. decode_record bs = Inr r \<and> storable_source r \<and> source_id r = sid \<and>
     source_namespace_id r = ns \<and> locs_of db (locator r) = Some sid)"

definition locator_ok :: "Database \<Rightarrow> bytes \<Rightarrow> bytes \<Rightarrow> bool" where
  "locator_ok db loc sid \<longleftrightarrow> (\<exists>bs r. rows_of db sid = Some bs \<and> decode_record bs = Inr r \<and> locator r = loc)"

definition sources_inv :: "bytes \<Rightarrow> Database \<Rightarrow> bool" where
  "sources_inv ns db \<longleftrightarrow> length ns = 16 \<and> st_of db SCHEMA_VERSION_KEY = Some SOURCE_SCHEMA_VERSION \<and>
     st_of db NAMESPACE_KEY = Some ns \<and>
     (\<forall>bs. st_of db WANTED_REVISION_KEY = Some bs \<longrightarrow> length bs = 8) \<and>
     (\<forall>sid bs. rows_of db sid = Some bs \<longrightarrow> row_ok ns db sid bs) \<and>
     (\<forall>loc sid. locs_of db loc = Some sid \<longrightarrow> locator_ok db loc sid) \<and>
     (\<forall>sid bs. preps_of db sid = Some bs \<longrightarrow> rows_of db sid \<noteq> None)"

definition control_ok :: "Database \<Rightarrow> bool" where
  "control_ok db \<longleftrightarrow> db_ok db \<and> db_multimaps db = [] \<and>
     (fresh_control db \<or> current_schema db \<and> (\<exists>ns. sources_inv ns db))"

definition sources_of :: "Database \<Rightarrow> bytes \<Rightarrow> CurrentSourceRecord option" where
  "sources_of db loc =
     Option.bind (locs_of db loc) (\<lambda>sid.
     Option.bind (rows_of db sid) (\<lambda>bs. ok_of (decode_record bs)))"

definition wanted_of :: "Database \<Rightarrow> nat" where
  "wanted_of db = (case st_of db WANTED_REVISION_KEY of None \<Rightarrow> 0 | Some bs \<Rightarrow> of_le_bytes bs)"

lemma base_not_pub: "BASE \<inter> PUB = {}" "PREPARATIONS \<notin> PUB" "META_TABLE_NAME \<noteq> PREPARATIONS"
    "META_TABLE_NAME \<noteq> SOURCE_STATE" "META_TABLE_NAME \<noteq> SOURCE_ROWS" "META_TABLE_NAME \<noteq> SOURCE_LOCATORS"
  by (simp_all add: table_name_defs)

lemma not_listed: "n \<notin> set (list_tables db) \<Longrightarrow> the_table db n = []"
  using get_table_iff [of db n] by (auto simp: the_table_def)

lemma fresh_empty:
  assumes "fresh_control db" "n \<in> {SOURCE_STATE, SOURCE_ROWS, SOURCE_LOCATORS, PREPARATIONS}"
  shows "the_table db n = []"
proof (rule not_listed)
  have "n \<notin> PUB" "n \<noteq> META_TABLE_NAME" using assms(2) base_not_pub by auto
  then show "n \<notin> set (list_tables db)" using assms(1) unfolding fresh_control_def by blast
qed

lemma schema_of_control:
  assumes "control_ok db"
  shows "catalogue_names (list_tables db) (db_multimaps db \<noteq> []) = Inr (\<not> fresh_control db)"
  using assms catalogue_names_set [of "list_tables db"] base_not_pub
  by (auto simp: control_ok_def db_ok_def fresh_control_def current_schema_def)

lemma read_source_schema_quiet [simp]:
  "control_ok db \<Longrightarrow> read_source_schema db [] = Inr (\<not> fresh_control db, [])"
  by (simp add: read_source_schema_def schema_of_control)

lemma control_inv: "control_ok db \<Longrightarrow> \<not> fresh_control db \<Longrightarrow> \<exists>ns. sources_inv ns db"
  by (auto simp: control_ok_def)

lemma current_tables:
  "current_schema db \<Longrightarrow> n \<in> {SOURCE_STATE, SOURCE_ROWS, SOURCE_LOCATORS} \<Longrightarrow> get_table db n = Some (the_table db n)"
  unfolding current_schema_def by (rule get_table_the) blast

lemma control_db_ok: "control_ok db \<Longrightarrow> db_ok db"
  by (simp add: control_ok_def)

lemma sources_of_row:
  assumes "sources_inv ns db" "sources_of db loc = Some r"
  shows "locator r = loc \<and> source_namespace_id r = ns \<and> storable_source r \<and> locs_of db loc = Some (source_id r) \<and>
    (\<exists>bs. rows_of db (source_id r) = Some bs \<and> decode_record bs = Inr r)"
proof -
  obtain sid bs where l: "locs_of db loc = Some sid" "rows_of db sid = Some bs" "decode_record bs = Inr r"
    using assms(2) by (auto simp: sources_of_def bind_eq_Some_conv res_simps)
  have "row_ok ns db sid bs" "locator_ok db loc sid" using assms(1) l by (auto simp: sources_inv_def)
  then show ?thesis using l by (auto simp: row_ok_def locator_ok_def)
qed

lemma sources_of_None:
  assumes "sources_inv ns db"
  shows "sources_of db loc = None \<longleftrightarrow> locs_of db loc = None"
proof (cases "locs_of db loc")
  case (Some sid)
  then have "locator_ok db loc sid" using assms by (auto simp: sources_inv_def)
  then show ?thesis using Some by (auto simp: sources_of_def locator_ok_def)
qed (simp add: sources_of_def)

lemma load_locator_row_quiet:
  assumes "current_schema db" "sources_inv ns db"
  shows "load_locator_row db loc [] = Inr (sources_of db loc, [])"
proof (cases "sources_of db loc")
  case None
  then have "locs_of db loc = None" using sources_of_None [OF assms(2)] by blast
  then show ?thesis using None current_tables [OF assms(1)] by (simp add: load_locator_row_def)
next
  case (Some r)
  then obtain bs where r: "locator r = loc" "locs_of db loc = Some (source_id r)"
      "rows_of db (source_id r) = Some bs" "decode_record bs = Inr r" "storable_source r"
    using sources_of_row [OF assms(2)] by blast
  then show ?thesis using Some current_tables [OF assms(1)]
    by (simp add: load_locator_row_def id16_def storable_source_def wf_source_def)
qed

lemma read_namespace_quiet:
  "current_schema db \<Longrightarrow> sources_inv ns db \<Longrightarrow> read_namespace db [] = Inr (Some ns, [])"
  by (simp add: read_namespace_def current_tables sources_inv_def id16_def)

section \<open>The guards of a commit\<close>

definition namespace_guard :: "SourceCapture \<Rightarrow> Database \<Rightarrow> bool" where
  "namespace_guard cap db \<longleftrightarrow>
     (case sc_expected_namespace cap of
        None \<Rightarrow> st_of db SCHEMA_VERSION_KEY = None \<and> st_of db NAMESPACE_KEY = None
      | Some ns \<Rightarrow> st_of db SCHEMA_VERSION_KEY = Some SOURCE_SCHEMA_VERSION \<and> st_of db NAMESPACE_KEY = Some ns)"

definition new_guard :: "SourceCapture \<Rightarrow> Database \<Rightarrow> bool" where
  "new_guard cap db \<longleftrightarrow> sc_expected_row_revision cap = None \<and> sc_expected_registration_revision cap = None \<and>
     locs_of db (sc_locator cap) = None \<and> rows_of db (sc_source_id cap) = None"

definition head_guard :: "SourceCapture \<Rightarrow> Database \<Rightarrow> CurrentSourceRecord \<Rightarrow> bool" where
  "head_guard cap db cur \<longleftrightarrow> locs_of db (sc_locator cap) = Some (sc_source_id cap) \<and>
     (\<exists>bs. rows_of db (sc_source_id cap) = Some bs \<and> decode_record bs = Inr cur) \<and>
     source_namespace_id cur = sc_namespace_id cap \<and> source_id cur = sc_source_id cap \<and>
     sc_expected_row_revision cap = Some (row_revision cur) \<and>
     sc_expected_registration_revision cap = Some (registration_revision cur) \<and>
     locator cur = sc_locator cap"

definition opened :: "Database \<Rightarrow> Database" where
  "opened db = ensure SOURCE_LOCATORS (ensure SOURCE_ROWS (ensure SOURCE_STATE db))"

lemma the_table_opened [simp]: "the_table (opened db) n = the_table db n"
  by (simp add: opened_def)

lemma source_revisions_Inr:
  assumes "source_revisions cap db [] = Inr (((row, reg), db'), env)"
  shows "namespace_guard cap db \<and> db' = opened db \<and>
    (new_guard cap db \<and> row = 1 \<and> reg = 1 \<or>
     (\<exists>cur. head_guard cap db cur \<and> row = row_revision cur + 1 \<and> row_revision cur + 1 < u64_bound \<and>
        reg = registration_revision cur))"
  using assms unfolding source_revisions_def opened_def
  by (auto simp: res_simps namespace_guard_def new_guard_def head_guard_def split: option.splits if_splits)

text \<open>The record that a commit proposes and the working copy it makes.\<close>

definition head_record ::
  "SourceCapture \<Rightarrow> NativeFileKey \<Rightarrow> ObjectRef \<Rightarrow> nat \<Rightarrow> nat \<Rightarrow> CurrentSourceRecord" where
  "head_record cap key obj row reg = \<lparr>source_namespace_id = sc_namespace_id cap, source_id = sc_source_id cap,
     row_revision = row, registration_revision = reg, locator = sc_locator cap, file_key = key, object_ref = obj\<rparr>"

lemma advance_wanted_Inr:
  assumes "advance_wanted_revision db [] = Inr (db', env)"
  shows "db' = put_in SOURCE_STATE WANTED_REVISION_KEY (le_bytes 8 (wanted_of db + 1))
      (ensure SOURCE_STATE (ensure SOURCE_STATE db)) \<and> wanted_of db + 1 < u64_bound"
  using assms unfolding advance_wanted_revision_def write_wanted_revision_def
  by (auto simp: res_simps wanted_of_def u64_value_def split: option.splits if_splits)

definition base_write :: "SourceCapture \<Rightarrow> Database \<Rightarrow> Database" where
  "base_write cap db = (if sc_expected_namespace cap = None then
      put_in SOURCE_STATE NAMESPACE_KEY (sc_namespace_id cap)
        (put_in SOURCE_STATE SCHEMA_VERSION_KEY SOURCE_SCHEMA_VERSION (opened (opened db)))
    else opened (opened db))"

definition head_write :: "SourceCapture \<Rightarrow> bytes \<Rightarrow> Database \<Rightarrow> Database" where
  "head_write cap enc db =
     (let w = put_in SOURCE_LOCATORS (sc_locator cap) (sc_source_id cap)
                (put_in SOURCE_ROWS (sc_source_id cap) enc (base_write cap db)) in
      put_in SOURCE_STATE WANTED_REVISION_KEY (le_bytes 8 (wanted_of db + 1))
        (ensure SOURCE_STATE (ensure SOURCE_STATE w)))"

lemma wanted_of_cong:
  "st_of db WANTED_REVISION_KEY = st_of db' WANTED_REVISION_KEY \<Longrightarrow> wanted_of db = wanted_of db'"
  by (simp add: wanted_of_def)

lemma base_write_tables:
  assumes "db_ok db"
  shows "the_table (base_write cap db) SOURCE_ROWS = the_table db SOURCE_ROWS"
    and "the_table (base_write cap db) SOURCE_LOCATORS = the_table db SOURCE_LOCATORS"
    and "the_table (base_write cap db) PREPARATIONS = the_table db PREPARATIONS"
    and "st_of (base_write cap db) k = (if sc_expected_namespace cap = None \<and> k = NAMESPACE_KEY then Some (sc_namespace_id cap)
      else if sc_expected_namespace cap = None \<and> k = SCHEMA_VERSION_KEY then Some SOURCE_SCHEMA_VERSION else st_of db k)"
  using assms by (simp_all add: base_write_def the_table_put_in tb.get_put tb.ok_put)

lemma wanted_base_write: "db_ok db \<Longrightarrow> wanted_of (base_write cap db) = wanted_of db"
  by (rule wanted_of_cong) (simp add: base_write_tables)

definition unchanged_head ::
  "SourceCapture \<Rightarrow> NativeFileKey \<Rightarrow> ObjectRef \<Rightarrow> Database \<Rightarrow> SourceControlError + CurrentSourceRecord option" where
  "unchanged_head cap key obj db =
     (if sc_expected_row_revision cap \<noteq> None then
        bindE (ok_or Stale (rows_of db (sc_source_id cap))) (\<lambda>v.
        bindE (decode_record v) (\<lambda>cur.
        Inr (if object_ref cur = obj \<and> file_key cur = key then Some cur else None)))
      else Inr None)"

lemma commit_body_quiet:
  assumes "source_revisions cap db [] = Inr (((row, reg), opened db), [])"
  shows "commit_source_body cap key obj db [] =
    bindE (unchanged_head cap key obj db) (\<lambda>u.
      case u of Some cur \<Rightarrow> Inr ((cur, None), [])
      | None \<Rightarrow> bindE (encode_record (head_record cap key obj row reg)) (\<lambda>enc.
          bindE (advance_wanted_revision (put_in SOURCE_LOCATORS (sc_locator cap) (sc_source_id cap)
                (put_in SOURCE_ROWS (sc_source_id cap) enc (base_write cap db))) []) (\<lambda>(db, env).
          bindE (sc_check env) (\<lambda>env. Inr ((head_record cap key obj row reg, Some db), env)))))"
  unfolding commit_source_body_def
  by (cases "sc_expected_namespace cap"; cases "sc_expected_row_revision cap")
    (simp_all add: assms Let_def unchanged_head_def bindE_assoc base_write_def head_record_def
      opened_def [symmetric] cong: if_cong option.case_cong)

lemma commit_body_Some:
  assumes "commit_source_body cap key obj db [] = Inr ((rec, Some work), env)" "db_ok db"
  shows "\<exists>row reg enc. rec = head_record cap key obj row reg \<and> encode_record rec = Inr enc \<and>
    work = head_write cap enc db \<and> wanted_of db + 1 < u64_bound \<and> namespace_guard cap db \<and>
    (new_guard cap db \<and> row = 1 \<and> reg = 1 \<or>
     (\<exists>cur. head_guard cap db cur \<and> row = row_revision cur + 1 \<and> row_revision cur + 1 < u64_bound \<and>
        reg = registration_revision cur \<and> (object_ref cur \<noteq> obj \<or> file_key cur \<noteq> key)))"
proof -
  obtain row reg db1 env1 where sr: "source_revisions cap db [] = Inr (((row, reg), db1), env1)"
    using assms(1) by (auto simp: commit_source_body_def res_simps)
  note g = source_revisions_Inr [OF sr]
  have sr': "source_revisions cap db [] = Inr (((row, reg), opened db), [])"
    using interruptible_Inr [OF source_revisions_interruptible sr] sr g by simp
  obtain enc env2 where u: "unchanged_head cap key obj db = Inr None"
    and e: "encode_record (head_record cap key obj row reg) = Inr enc"
    and r: "rec = head_record cap key obj row reg"
    and w: "advance_wanted_revision (put_in SOURCE_LOCATORS (sc_locator cap) (sc_source_id cap)
                (put_in SOURCE_ROWS (sc_source_id cap) enc (base_write cap db))) [] = Inr (work, env2)"
    using assms(1) unfolding commit_body_quiet [OF sr'] by (auto simp: res_simps split: option.splits)
  have old: "object_ref cur \<noteq> obj \<or> file_key cur \<noteq> key" if "head_guard cap db cur" for cur
    using u that by (auto simp: unchanged_head_def head_guard_def split: if_splits)
  have "wanted_of (put_in SOURCE_LOCATORS (sc_locator cap) (sc_source_id cap)
                (put_in SOURCE_ROWS (sc_source_id cap) enc (base_write cap db))) = wanted_of db"
    by (subst wanted_base_write [OF assms(2), of cap, symmetric], rule wanted_of_cong) (simp add: the_table_put_in)
  with advance_wanted_Inr [OF w] have "work = head_write cap enc db" "wanted_of db + 1 < u64_bound"
    by (simp_all add: head_write_def)
  then show ?thesis using e r g old by blast
qed

lemma commit_body_None:
  assumes "commit_source_body cap key obj db [] = Inr ((rec, None), env)"
  shows "head_guard cap db rec \<and> object_ref rec = obj \<and> file_key rec = key \<and> namespace_guard cap db"
proof -
  obtain row reg db1 env1 where sr: "source_revisions cap db [] = Inr (((row, reg), db1), env1)"
    using assms by (auto simp: commit_source_body_def res_simps)
  note g = source_revisions_Inr [OF sr]
  have sr': "source_revisions cap db [] = Inr (((row, reg), opened db), [])"
    using interruptible_Inr [OF source_revisions_interruptible sr] sr g by simp
  have u: "unchanged_head cap key obj db = Inr (Some rec)"
    using assms unfolding commit_body_quiet [OF sr'] by (auto simp: res_simps split: option.splits)
  then have "sc_expected_row_revision cap \<noteq> None" by (auto simp: unchanged_head_def split: if_splits)
  then obtain cur where cur: "head_guard cap db cur" using g by (auto simp: new_guard_def)
  with u have "rec = cur" "object_ref rec = obj" "file_key rec = key"
    by (auto simp: unchanged_head_def head_guard_def split: if_splits)
  then show ?thesis using cur g by blast
qed

section \<open>A committed head keeps the invariant\<close>

definition wf_capture :: "SourceCapture \<Rightarrow> bool" where
  "wf_capture cap \<longleftrightarrow> length (sc_namespace_id cap) = 16 \<and> length (sc_source_id cap) = 16 \<and>
     (sc_expected_namespace cap = None \<longrightarrow> sc_expected_row_revision cap = None) \<and>
     (\<forall>ns. sc_expected_namespace cap = Some ns \<longrightarrow> ns = sc_namespace_id cap)"

definition wf_head :: "NativeFileKey \<Rightarrow> ObjectRef \<Rightarrow> bool" where
  "wf_head key obj \<longleftrightarrow> wf_key key \<and> wf_object obj \<and> byte_length obj \<le> MAX_SOURCE_OBJECT_BYTES"

lemma head_write_tables:
  assumes "db_ok db"
  shows "rows_of (head_write cap enc db) k = (if k = sc_source_id cap then Some enc else rows_of db k)"
    and "locs_of (head_write cap enc db) k = (if k = sc_locator cap then Some (sc_source_id cap) else locs_of db k)"
    and "preps_of (head_write cap enc db) k = preps_of db k"
    and "st_of (head_write cap enc db) k = (if k = WANTED_REVISION_KEY then Some (le_bytes 8 (wanted_of db + 1))
      else st_of (base_write cap db) k)"
    and "db_ok (head_write cap enc db)" "db_multimaps (head_write cap enc db) = db_multimaps db"
proof -
  have ok: "db_ok (base_write cap db)" using assms by (simp add: base_write_def opened_def)
  show "rows_of (head_write cap enc db) k = (if k = sc_source_id cap then Some enc else rows_of db k)"
    and "locs_of (head_write cap enc db) k = (if k = sc_locator cap then Some (sc_source_id cap) else locs_of db k)"
    and "preps_of (head_write cap enc db) k = preps_of db k"
    and "st_of (head_write cap enc db) k = (if k = WANTED_REVISION_KEY then Some (le_bytes 8 (wanted_of db + 1))
      else st_of (base_write cap db) k)"
    using assms ok by (simp_all add: head_write_def Let_def the_table_put_in base_write_tables tb.get_put)
  show "db_ok (head_write cap enc db)" "db_multimaps (head_write cap enc db) = db_multimaps db"
    using ok by (simp_all add: head_write_def Let_def) (simp add: base_write_def opened_def)
qed

lemma head_write_keeps: "keeps_pub db (head_write cap enc db)"
  by (simp add: head_write_def base_write_def opened_def Let_def)

lemma head_write_names:
  "set (list_tables (head_write cap enc db)) = set (list_tables db) \<union> {SOURCE_STATE, SOURCE_ROWS, SOURCE_LOCATORS}"
  by (auto simp: head_write_def Let_def base_write_def opened_def)

lemma current_schema_add:
  assumes "fresh_control db \<or> current_schema db"
    and "set (list_tables db') = set (list_tables db) \<union> {SOURCE_STATE, SOURCE_ROWS, SOURCE_LOCATORS}"
  shows "current_schema db'"
proof -
  have p: "set (list_tables db') - PUB = (set (list_tables db) - PUB) \<union> {SOURCE_STATE, SOURCE_ROWS, SOURCE_LOCATORS}"
    using assms(2) control_tables_not_pub by blast
  have "pub_ok (set (list_tables db'))"
    using assms control_tables_not_pub unfolding pub_ok_def fresh_control_def current_schema_def by blast
  then show ?thesis using assms(1) p unfolding current_schema_def fresh_control_def by auto
qed

lemma head_write_inv:
  assumes inv: "\<forall>sid bs. rows_of db sid = Some bs \<longrightarrow> row_ok ns db sid bs"
      "\<forall>loc sid. locs_of db loc = Some sid \<longrightarrow> locator_ok db loc sid"
      "\<forall>sid bs. preps_of db sid = Some bs \<longrightarrow> rows_of db sid \<noteq> None"
    and ok: "db_ok db" and guard: "new_guard cap db \<or> (\<exists>cur. head_guard cap db cur)"
    and rec: "decode_record enc = Inr rec" "storable_source rec" "source_id rec = sc_source_id cap"
      "source_namespace_id rec = ns" "locator rec = sc_locator cap"
  shows "(\<forall>sid bs. rows_of (head_write cap enc db) sid = Some bs \<longrightarrow> row_ok ns (head_write cap enc db) sid bs) \<and>
    (\<forall>loc sid. locs_of (head_write cap enc db) loc = Some sid \<longrightarrow> locator_ok (head_write cap enc db) loc sid) \<and>
    (\<forall>sid bs. preps_of (head_write cap enc db) sid = Some bs \<longrightarrow> rows_of (head_write cap enc db) sid \<noteq> None)"
proof (intro conjI allI impI)
  let ?w = "head_write cap enc db" and ?sid = "sc_source_id cap" and ?loc = "sc_locator cap"
  note t = head_write_tables [OF ok, of cap enc]
  fix sid bs assume r: "rows_of ?w sid = Some bs"
  show "row_ok ns ?w sid bs"
  proof (cases "sid = ?sid")
    case True
    then show ?thesis using r t rec by (auto simp: row_ok_def)
  next
    case False
    then have "row_ok ns db sid bs" using r t inv(1) by simp
    then obtain x where x: "decode_record bs = Inr x" "storable_source x" "source_id x = sid"
        "source_namespace_id x = ns" "locs_of db (locator x) = Some sid"
      unfolding row_ok_def by blast
    have "locator x \<noteq> ?loc"
      using guard x(5) False by (auto simp: new_guard_def head_guard_def)
    then show ?thesis using x t by (auto simp: row_ok_def)
  qed
next
  let ?w = "head_write cap enc db" and ?sid = "sc_source_id cap" and ?loc = "sc_locator cap"
  note t = head_write_tables [OF ok, of cap enc]
  fix loc sid assume l: "locs_of ?w loc = Some sid"
  show "locator_ok ?w loc sid"
  proof (cases "loc = ?loc")
    case True
    then show ?thesis using l t rec by (auto simp: locator_ok_def)
  next
    case False
    then have "locator_ok db loc sid" using l t inv(2) by simp
    then obtain bs x where x: "rows_of db sid = Some bs" "decode_record bs = Inr x" "locator x = loc"
      unfolding locator_ok_def by blast
    have "sid \<noteq> ?sid" using guard x False by (auto simp: new_guard_def head_guard_def)
    then show ?thesis using x t by (auto simp: locator_ok_def)
  qed
next
  fix sid bs assume "preps_of (head_write cap enc db) sid = Some bs"
  then show "rows_of (head_write cap enc db) sid \<noteq> None"
    using head_write_tables [OF ok, of cap enc] inv(3) by auto
qed

lemma head_guard_storable:
  assumes "sources_inv ns db" "head_guard cap db cur"
  shows "storable_source cur"
proof -
  obtain bs where bs: "rows_of db (sc_source_id cap) = Some bs" "decode_record bs = Inr cur"
    using assms(2) by (auto simp: head_guard_def)
  then have "row_ok ns db (sc_source_id cap) bs" using assms(1) unfolding sources_inv_def by blast
  then show ?thesis using bs(2) by (auto simp: row_ok_def)
qed

lemma commit_body_safe:
  assumes "commit_source_body cap key obj db [] = Inr ((rec, Some work), env)"
    and "control_ok db" "wf_capture cap" "wf_head key obj"
  shows "control_ok work \<and> sources_of work = (sources_of db)(sc_locator cap \<mapsto> rec) \<and>
    wanted_of work = wanted_of db + 1 \<and> storable_source rec \<and> locator rec = sc_locator cap \<and> \<not> fresh_control work"
proof -
  have ok: "db_ok db" using assms(2) by (rule control_db_ok)
  obtain row reg enc where r: "rec = head_record cap key obj row reg" and e: "encode_record rec = Inr enc"
    and w: "work = head_write cap enc db" "wanted_of db + 1 < u64_bound" and ng: "namespace_guard cap db"
    and g: "new_guard cap db \<and> row = 1 \<and> reg = 1 \<or>
     (\<exists>cur. head_guard cap db cur \<and> row = row_revision cur + 1 \<and> row_revision cur + 1 < u64_bound \<and>
        reg = registration_revision cur \<and> (object_ref cur \<noteq> obj \<or> file_key cur \<noteq> key))"
    using commit_body_Some [OF assms(1) ok] by blast
  have rr: "row < u64_bound \<and> reg < u64_bound"
    using g decode_record_Inr by (auto simp: head_guard_def wf_source_def)
  have st: "storable_source rec"
    using encode_record_Inr [OF e] assms(3,4) rr r
    by (simp add: storable_source_def wf_source_def head_record_def wf_capture_def wf_head_def)
  have dec: "decode_record enc = Inr rec" using rows.dec_enc [OF st e] .
  let ?ns = "sc_namespace_id cap"
  have base: "(\<forall>sid bs. rows_of db sid = Some bs \<longrightarrow> row_ok ?ns db sid bs) \<and>
      (\<forall>loc sid. locs_of db loc = Some sid \<longrightarrow> locator_ok db loc sid) \<and>
      (\<forall>sid bs. preps_of db sid = Some bs \<longrightarrow> rows_of db sid \<noteq> None) \<and>
      st_of (base_write cap db) SCHEMA_VERSION_KEY = Some SOURCE_SCHEMA_VERSION \<and>
      st_of (base_write cap db) NAMESPACE_KEY = Some ?ns"
  proof (cases "sc_expected_namespace cap")
    case None
    have "fresh_control db"
      using control_inv [OF assms(2)] ng None by (auto simp: namespace_guard_def sources_inv_def)
    then show ?thesis using fresh_empty None by (simp add: base_write_tables [OF ok])
  next
    case (Some n)
    then have n: "n = ?ns" "st_of db NAMESPACE_KEY = Some ?ns"
        "st_of db SCHEMA_VERSION_KEY = Some SOURCE_SCHEMA_VERSION"
      using assms(3) ng by (auto simp: wf_capture_def namespace_guard_def)
    then have "\<not> fresh_control db" using fresh_empty by fastforce
    then obtain ns where "sources_inv ns db" using control_inv [OF assms(2)] by blast
    then show ?thesis using n Some by (auto simp: sources_inv_def base_write_tables [OF ok])
  qed
  have gd: "new_guard cap db \<or> (\<exists>cur. head_guard cap db cur)" using g by blast
  have rf: "source_id rec = sc_source_id cap" "source_namespace_id rec = ?ns" "locator rec = sc_locator cap"
    using r by (simp_all add: head_record_def)
  note hw = head_write_inv [OF _ _ _ ok gd dec st rf] head_write_tables(4) [OF ok, of cap enc]
  have inv: "sources_inv ?ns work"
    unfolding sources_inv_def w(1) using hw base assms(3) by (simp add: wf_capture_def)
  have cur: "current_schema work"
    using current_schema_add [of db work] head_write_names w(1) assms(2) by (auto simp: control_ok_def)
  have nf: "\<not> fresh_control work"
    using inv fresh_empty [of work SOURCE_STATE] by (auto simp: sources_inv_def)
  have "sources_of work = (sources_of db)(sc_locator cap \<mapsto> rec)"
  proof
    fix loc
    show "sources_of work loc = ((sources_of db)(sc_locator cap \<mapsto> rec)) loc"
    proof (cases "loc = sc_locator cap")
      case True
      then show ?thesis using dec by (simp add: sources_of_def w(1) head_write_tables [OF ok])
    next
      case False
      have "rows_of work sid = rows_of db sid" if "locs_of db loc = Some sid" for sid
      proof -
        have "locator_ok db loc sid" using base that by blast
        then have "sid \<noteq> sc_source_id cap"
          using g False by (auto simp: locator_ok_def new_guard_def head_guard_def)
        then show ?thesis by (simp add: w(1) head_write_tables [OF ok])
      qed
      then show ?thesis using False
        by (cases "locs_of db loc") (simp_all add: sources_of_def w(1) head_write_tables [OF ok])
    qed
  qed
  moreover have "wanted_of work = wanted_of db + 1"
    using w by (simp add: wanted_of_def [of "head_write cap enc db"] head_write_tables [OF ok] of_le_bytes_le_bytes)
  ultimately show ?thesis
    using inv cur nf st r head_write_tables [OF ok, of cap enc] assms(2) w(1)
    by (auto simp: control_ok_def head_record_def)
qed

section \<open>Captures\<close>

definition rnd_ok :: "bytes option \<Rightarrow> bool" where
  "rnd_ok r \<longleftrightarrow> (\<forall>b. r = Some b \<longrightarrow> length b = 16)"

lemma capture_Inr:
  assumes "capture_source_database r1 r2 db loc env = Inr (cap, env')" "control_ok db" "rnd_ok r1" "rnd_ok r2"
  shows "wf_capture cap \<and> sc_locator cap = loc \<and>
    (fresh_control db \<longrightarrow> sc_expected_namespace cap = None \<and> sc_expected_row_revision cap = None) \<and>
    (\<not> fresh_control db \<longrightarrow> sources_inv (sc_namespace_id cap) db \<and> sc_expected_namespace cap = Some (sc_namespace_id cap)) \<and>
    (case sources_of db loc of
       None \<Rightarrow> sc_expected_row_revision cap = None \<and> sc_expected_registration_revision cap = None
     | Some r \<Rightarrow> sc_source_id cap = source_id r \<and> sc_expected_row_revision cap = Some (row_revision r) \<and>
         sc_expected_registration_revision cap = Some (registration_revision r))"
proof -
  have q: "capture_source_database r1 r2 db loc [] = Inr (cap, [])"
    using interruptible_Inr [OF capture_source_interruptible assms(1)] .
  show ?thesis
  proof (cases "fresh_control db")
    case True
    have "sources_of db loc = None" using fresh_empty [OF True] by (simp add: sources_of_def)
    then show ?thesis using q True assms
      by (auto simp: capture_source_database_def res_simps random_id_def wf_capture_def rnd_ok_def)
  next
    case False
    then obtain ns where inv: "sources_inv ns db" and cur: "current_schema db"
      using assms(2) by (auto simp: control_ok_def)
    have ns: "length ns = 16" using inv by (simp add: sources_inv_def)
    note eqs = read_namespace_quiet [OF cur inv] load_locator_row_quiet [OF cur inv, of loc]
    show ?thesis
    proof (cases "sources_of db loc")
      case None
      then show ?thesis using q False assms inv ns eqs
        by (auto simp: capture_source_database_def res_simps random_id_def wf_capture_def rnd_ok_def)
    next
      case (Some r)
      note r = sources_of_row [OF inv Some]
      show ?thesis using q False assms inv ns eqs Some r
        by (auto simp: capture_source_database_def res_simps wf_capture_def storable_source_def wf_source_def)
    qed
  qed
qed

section \<open>What a commit leaves\<close>

lemma head_guard_sources:
  "head_guard cap db cur \<Longrightarrow> sources_of db (sc_locator cap) = Some cur"
  by (auto simp: head_guard_def sources_of_def)

lemma commit_database_body:
  assumes "commit_source_database db cap key obj env = Inr (((rec, committed), db'), env')"
  shows "\<exists>w env1. commit_source_body cap key obj db env = Inr ((rec, w), env1) \<and>
    commit_source_body cap key obj db [] = Inr ((rec, w), [])"
proof -
  obtain rec' w env1 where b: "commit_source_body cap key obj db env = Inr ((rec', w), env1)"
    using assms by (cases "commit_source_body cap key obj db env") (auto simp: commit_source_database_def)
  moreover have "rec' = rec"
    using assms b by (auto simp: commit_source_database_def split: option.splits prod.splits)
  ultimately show ?thesis using interruptible_Inr [OF commit_source_interruptible b] by blast
qed

lemma commit_database_cases:
  assumes "commit_source_database db cap key obj env = Inr (((rec, committed), db'), env')"
    and "control_ok db" "wf_capture cap" "wf_head key obj"
  shows "(\<exists>cur. head_guard cap db cur \<and> rec = cur \<and> object_ref cur = obj \<and> file_key cur = key \<and> committed \<and> db' = db) \<or>
    (\<exists>work. commit_source_body cap key obj db [] = Inr ((rec, Some work), []) \<and>
       (db' = work \<or> \<not> committed \<and> db' = db))"
proof -
  obtain work env1 where b: "commit_source_body cap key obj db env = Inr ((rec, work), env1)"
    and q: "commit_source_body cap key obj db [] = Inr ((rec, work), [])"
    using commit_database_body [OF assms(1)] by blast
  show ?thesis
  proof (cases work)
    case None
    then show ?thesis using assms(1) b commit_body_None [of cap key obj db rec "[]"] q
      by (auto simp: commit_source_database_def)
  next
    case (Some w)
    then have "db' = w \<or> \<not> committed \<and> db' = db"
      using assms(1) b w_commit_cases [of w db env1] by (auto simp: commit_source_database_def split: prod.splits)
    then show ?thesis using q Some by blast
  qed
qed

lemma commit_database_safe:
  assumes "commit_source_database db cap key obj env = Inr (((rec, committed), db'), env')"
    and "control_ok db" "wf_capture cap" "wf_head key obj"
  shows "control_ok db' \<and> locator rec = sc_locator cap \<and>
    (sources_of db' = (sources_of db)(sc_locator cap \<mapsto> rec) \<or> \<not> committed \<and> db' = db)"
  using commit_database_cases [OF assms]
proof (elim disjE exE conjE)
  fix cur assume c: "head_guard cap db cur" "rec = cur" "db' = db"
  then show ?thesis using head_guard_sources [OF c(1)] assms(2)
    by (auto simp: map_upd_triv head_guard_def)
next
  fix work assume w: "commit_source_body cap key obj db [] = Inr ((rec, Some work), [])"
    and d: "db' = work"
  show ?thesis using commit_body_safe [OF w assms(2-4)] d by simp
next
  fix work assume w: "commit_source_body cap key obj db [] = Inr ((rec, Some work), [])"
    and d: "\<not> committed" "db' = db"
  show ?thesis using commit_body_safe [OF w assms(2-4)] d assms(2) by simp
qed

lemma load_current_Inr:
  assumes "load_current_source_database db loc env = Inr (x, env')" "control_ok db"
  shows "x = sources_of db loc"
proof -
  have "interruptible sc_interrupts (load_current_source_database db loc)"
    unfolding load_current_source_database_def by (intro interruptible_intros)
  from interruptible_Inr [OF this assms(1)]
  have q: "load_current_source_database db loc [] = Inr (x, [])" .
  show ?thesis
  proof (cases "fresh_control db")
    case True
    then show ?thesis using q assms(2) fresh_empty [OF True]
      by (auto simp: load_current_source_database_def sources_of_def)
  next
    case False
    then obtain ns where "sources_inv ns db" "current_schema db"
      using assms(2) by (auto simp: control_ok_def)
    from load_locator_row_quiet [OF this(2,1), of loc] show ?thesis
      using q False assms(2) by (auto simp: load_current_source_database_def)
  qed
qed

lemma commit_source_refines_registry_aux:
  assumes "commit_current_source db cap key obj env = (res, db')"
    and "control_ok db" "wf_capture cap" "wf_head key obj"
  shows "control_ok db' \<and>
    (case res of
       Inr rec \<Rightarrow> locator rec = sc_locator cap \<and> sources_of db' = (sources_of db)(sc_locator cap \<mapsto> rec)
     | Inl e \<Rightarrow> sources_of db' = sources_of db \<or>
         e \<in> {Stale, Database} \<and> (\<exists>rec. sources_of db' = (sources_of db)(sc_locator cap \<mapsto> rec)))"
proof -
  let ?run = "bindE (sc_check env) (\<lambda>env. bindE (sc_io env) (\<lambda>env. commit_source_database db cap key obj env))"
  show ?thesis
  proof (cases ?run)
    case (Inl e)
    then show ?thesis using assms(1,2) by (auto simp: commit_current_source_def)
  next
    case (Inr p)
    obtain rec committed db1 env1 where p: "p = (((rec, committed), db1), env1)" by (metis surj_pair)
    then obtain env0 where d: "commit_source_database db cap key obj env0 = Inr (((rec, committed), db1), env1)"
      using Inr by (auto simp: res_simps)
    note safe = commit_database_safe [OF d assms(2-4)]
    have db1: "db' = db1" using assms(1) Inr p by (auto simp: commit_current_source_def split: if_splits)
    show ?thesis
    proof (cases committed)
      case True
      then show ?thesis using assms(1) Inr p safe by (auto simp: commit_current_source_def)
    next
      case False
      obtain obs where o: "res = resolve_source_commit rec obs"
        and seen: "\<And>x. obs = Inr x \<Longrightarrow> x = sources_of db1 (locator rec)"
        using assms(1) Inr p False load_current_Inr [of db1 "locator rec"] safe
        by (fastforce simp: commit_current_source_def res_simps split: sum.splits)
      have "control_ok db1" "locator rec = sc_locator cap" using safe by auto
      moreover have "sources_of db1 = (sources_of db)(sc_locator cap \<mapsto> rec) \<or> sources_of db1 = sources_of db"
        using safe by auto
      ultimately show ?thesis
        using o seen db1 map_upd_triv [of "sources_of db" "sc_locator cap" rec]
        by (auto simp: resolve_source_commit_def split: sum.splits option.splits if_splits)
    qed
  qed
qed

lemma commit_success_body:
  assumes "commit_current_source db cap key obj env = (Inr rec, db')"
    and "control_ok db" "wf_capture cap" "wf_head key obj"
  shows "\<exists>w. commit_source_body cap key obj db [] = Inr ((rec, w), [])"
proof -
  obtain rec0 committed db1 env0 env1 where
      d: "commit_source_database db cap key obj env0 = Inr (((rec0, committed), db1), env1)" and r: "rec0 = rec"
    using assms(1) unfolding commit_current_source_def
    by (auto simp: res_simps resolve_source_commit_def split: sum.splits if_splits option.splits)
  from commit_database_body [OF d] r show ?thesis by blast
qed

lemma commit_source_cas_aux:
  assumes "capture_source_database r1 r2 db0 loc env0 = Inr (cap, env0')"
    and "commit_current_source db cap key obj env = (Inr rec, db')"
    and "control_ok db0" "control_ok db" "rnd_ok r1" "rnd_ok r2" "wf_head key obj"
  shows "object_ref rec = obj \<and> file_key rec = key \<and>
    (case (sources_of db0 loc, sources_of db loc) of
       (None, None) \<Rightarrow> row_revision rec = 1 \<and> registration_revision rec = 1
     | (Some c0, Some c) \<Rightarrow> source_id c = source_id c0 \<and> row_revision c = row_revision c0 \<and>
         registration_revision c = registration_revision c0 \<and>
         source_id rec = source_id c \<and> registration_revision rec = registration_revision c \<and>
         (rec = c \<or> row_revision rec = row_revision c + 1)
     | _ \<Rightarrow> False)"
proof -
  note cap = capture_Inr [OF assms(1,3,5,6)]
  have wf: "wf_capture cap" "sc_locator cap = loc" using cap by auto
  obtain w where w: "commit_source_body cap key obj db [] = Inr ((rec, w), [])"
    using commit_success_body [OF assms(2,4) wf(1) assms(7)] by blast
  have "(\<exists>cur. head_guard cap db cur \<and> rec = cur \<and> object_ref cur = obj \<and> file_key cur = key) \<or>
      new_guard cap db \<and> rec = head_record cap key obj 1 1 \<or>
      (\<exists>cur. head_guard cap db cur \<and>
         rec = head_record cap key obj (row_revision cur + 1) (registration_revision cur))"
    using w commit_body_None [of cap key obj db rec "[]"]
      commit_body_Some [of cap key obj db rec _ "[]", OF _ control_db_ok [OF assms(4)]] by (cases w) blast+
  then consider (head) cur where "head_guard cap db cur" "rec = cur" "object_ref cur = obj" "file_key cur = key"
    | (new) "new_guard cap db" "rec = head_record cap key obj 1 1"
    | (next') cur where "head_guard cap db cur"
        "rec = head_record cap key obj (row_revision cur + 1) (registration_revision cur)"
    by blast
  then show ?thesis
  proof cases
    case head
    then show ?thesis using cap wf head_guard_sources [OF head(1)]
      by (auto simp: head_guard_def split: option.splits)
  next
    case new
    have none: "sources_of db loc = None" using new(1) wf(2) by (simp add: sources_of_def new_guard_def)
    have "sources_of db0 loc = None"
      using cap new(1) by (auto simp: new_guard_def split: option.splits)
    then show ?thesis using none new(2) by (simp add: head_record_def)
  next
    case next'
    then show ?thesis using cap wf head_guard_sources [OF next'(1)]
      by (auto simp: head_guard_def head_record_def split: option.splits)
  qed
qed

lemma commit_error_unchanged:
  assumes "commit_current_source db cap key obj env = (Inl e, db')"
    and "\<And>rec work. commit_source_body cap key obj db [] \<noteq> Inr ((rec, Some work), [])"
    and "control_ok db" "wf_capture cap" "wf_head key obj"
  shows "db' = db"
proof (cases "bindE (sc_check env) (\<lambda>env. bindE (sc_io env) (\<lambda>env. commit_source_database db cap key obj env))")
  case (Inl x)
  then show ?thesis using assms(1) by (auto simp: commit_current_source_def)
next
  case (Inr p)
  obtain rec committed db1 env1 where p: "p = (((rec, committed), db1), env1)" by (metis surj_pair)
  then obtain env0 where d: "commit_source_database db cap key obj env0 = Inr (((rec, committed), db1), env1)"
    using Inr by (auto simp: res_simps)
  have "db1 = db" using commit_database_cases [OF d assms(3-5)] assms(2) by blast
  then show ?thesis using assms(1) Inr p by (auto simp: commit_current_source_def split: if_splits)
qed

section \<open>Properties of commits\<close>

text \<open>
  C7: Committing a source head is a map update on the registry of sources and keeps the
  database consistent, whatever is cancelled, expires or fails in storage: when
  \<open>commit_current_source\<close> returns a record, the registry afterwards maps the captured
  locator to that record and is otherwise unchanged; when it returns an error, the registry
  is unchanged, or a commit whose outcome is unknown has installed the proposed record.
\<close>

theorem commit_source_refines_registry:
  assumes "commit_current_source db cap key obj env = (res, db')"
    and "control_ok db" "wf_capture cap" "wf_head key obj"
  shows "control_ok db' \<and>
    (case res of
       Inr rec \<Rightarrow> locator rec = sc_locator cap \<and> sources_of db' = (sources_of db)(sc_locator cap \<mapsto> rec)
     | Inl e \<Rightarrow> sources_of db' = sources_of db \<or>
         e \<in> {Stale, Database} \<and> (\<exists>rec. sources_of db' = (sources_of db)(sc_locator cap \<mapsto> rec)))"
  by (rule commit_source_refines_registry_aux [OF assms])

text \<open>
  C8: Compare and swap: a head captured at one database is committed at a later one only when
  the registration is the same as at the capture. Either the locator was and still is
  unregistered, and the new record starts at row revision 1, or it still has the captured
  source identity, row revision and registration revision, and the record keeps identity and
  registration and either is the unchanged current head or has the next row revision and the
  proposed content.
\<close>

theorem commit_source_compares_and_swaps:
  assumes "capture_source_database r1 r2 db0 loc env0 = Inr (cap, env0')"
    and "commit_current_source db cap key obj env = (Inr rec, db')"
    and "control_ok db0" "control_ok db" "rnd_ok r1" "rnd_ok r2" "wf_head key obj"
  shows "object_ref rec = obj \<and> file_key rec = key \<and>
    (case (sources_of db0 loc, sources_of db loc) of
       (None, None) \<Rightarrow> row_revision rec = 1 \<and> registration_revision rec = 1
     | (Some c0, Some c) \<Rightarrow> source_id c = source_id c0 \<and> row_revision c = row_revision c0 \<and>
         registration_revision c = registration_revision c0 \<and>
         source_id rec = source_id c \<and> registration_revision rec = registration_revision c \<and>
         (rec = c \<or> row_revision rec = row_revision c + 1)
     | _ \<Rightarrow> False)"
  by (rule commit_source_cas_aux [OF assms])

text \<open>
  C9: No lost update: of two captures of one registration, the first commit that changes the
  head makes the other capture stale for good. The second commit returns an error and leaves
  the database as it was, so it never overwrites the newer head.
\<close>

theorem commit_source_no_lost_update:
  assumes "capture_source_database r1 r2 db0 loc env1 = Inr (cap1, env1')"
    and "capture_source_database r3 r4 db0 loc env2 = Inr (cap2, env2')"
    and "commit_current_source db0 cap1 key1 obj1 env3 = (Inr rec1, db1)"
    and "sources_of db0 loc \<noteq> Some rec1"
    and "commit_current_source db1 cap2 key2 obj2 env4 = (res, db2)"
    and "control_ok db0" "rnd_ok r1" "rnd_ok r2" "rnd_ok r3" "rnd_ok r4"
      "wf_head key1 obj1" "wf_head key2 obj2"
  shows "(\<exists>e. res = Inl e) \<and> db2 = db1 \<and> sources_of db2 loc = Some rec1"
proof -
  have c1: "wf_capture cap1" "sc_locator cap1 = loc"
    using capture_Inr [OF assms(1,6,7,8)] by auto
  have c2: "wf_capture cap2" "sc_locator cap2 = loc"
    using capture_Inr [OF assms(2,6,9,10)] by auto
  have ok1: "control_ok db1" and s1: "sources_of db1 loc = Some rec1"
    using commit_source_refines_registry_aux [OF assms(3,6) c1(1) assms(11)] c1(2) by auto
  note cas1 = commit_source_cas_aux [OF assms(1,3,6,6,7,8,11)]
  have stale: "\<not> (case (sources_of db0 loc, sources_of db1 loc) of
       (None, None) \<Rightarrow> True
     | (Some c0, Some c) \<Rightarrow> row_revision c = row_revision c0 | _ \<Rightarrow> False)"
    using cas1 s1 assms(4) by (auto split: option.splits)
  have nobody: "commit_source_body cap2 key2 obj2 db1 [] \<noteq> Inr ((rec, w), [])" for rec w
  proof
    assume b: "commit_source_body cap2 key2 obj2 db1 [] = Inr ((rec, w), [])"
    have "new_guard cap2 db1 \<or> (\<exists>cur. head_guard cap2 db1 cur)"
      using b commit_body_Some [OF _ control_db_ok [OF ok1]] commit_body_None by (cases w) blast+
    then show False
      using capture_Inr [OF assms(2,6,9,10)] stale c2(2) head_guard_sources [of cap2 db1]
      by (auto simp: new_guard_def head_guard_def sources_of_def split: option.splits)
  qed
  then have "\<exists>e. res = Inl e"
    using commit_success_body [OF _ ok1 c2(1) assms(12)] assms(5) nobody by (cases res) blast+
  with commit_error_unchanged [OF _ nobody ok1 c2(1) assms(12)] assms(5) s1 show ?thesis by auto
qed

end
