(* ===== verification/Contracts.thy ===== *)
theory Contracts
  imports Prelude
begin

text \<open>
  Source identities (crate \<open>search-contracts\<close>, \<open>ids.rs\<close> and \<open>error.rs\<close>): the canonical
  lowercase UUID spelling of 16 identity bytes, its parser, and the lowercase hexadecimal
  digests. An identity is its list of 16 bytes; the parser and the printer are inverse to
  each other in both directions, so the spelling is canonical.
\<close>

section \<open>Errors\<close>

datatype ContractErrorKind = MalformedPayload | InvalidCharacter

record ContractError =
  ce_kind :: ContractErrorKind
  ce_field :: string

definition contract_error :: "ContractErrorKind \<Rightarrow> string \<Rightarrow> ContractError" where
  "contract_error kind field = \<lparr>ce_kind = kind, ce_field = field\<rparr>"

definition malformed :: "string \<Rightarrow> ContractError" where
  "malformed field = contract_error MalformedPayload field"

section \<open>Hexadecimal digits\<close>

definition lower_hex :: "byte \<Rightarrow> byte option" where
  "lower_hex v = (if is_ascii_digit v then Some (v - 48)
                  else if is_lower_af v then Some (v - 97 + 10) else None)"

definition hex_encode :: "bytes \<Rightarrow> string" where
  "hex_encode bs = of_bytes (hex_bytes bs)"

definition digest_to_string :: "bytes \<Rightarrow> string" where
  "digest_to_string d = hex_encode d"

section \<open>UUIDs\<close>

definition uuid_dash :: "nat \<Rightarrow> bool" where
  "uuid_dash position \<longleftrightarrow> position = 8 \<or> position = 13 \<or> position = 18 \<or> position = 23"

definition uuid_invalid :: ContractError where
  "uuid_invalid = contract_error InvalidCharacter ''uuid''"

fun uuid_compact :: "nat \<Rightarrow> bytes \<Rightarrow> ContractError + bytes" where
  "uuid_compact position [] = Inr []"
| "uuid_compact position (b # bs) =
     (if uuid_dash position then uuid_compact (Suc position) bs
      else if \<not> is_ascii_digit b \<and> \<not> is_lower_af b then Inl uuid_invalid
      else bindE (uuid_compact (Suc position) bs) (\<lambda>compact. Inr (b # compact)))"

fun uuid_pairs :: "bytes \<Rightarrow> ContractError + bytes" where
  "uuid_pairs (h # l # rest) =
     bindE (ok_or (malformed ''uuid'') (lower_hex h)) (\<lambda>high.
     bindE (ok_or (malformed ''uuid'') (lower_hex l)) (\<lambda>low.
     bindE (uuid_pairs rest) (\<lambda>output. Inr ((push_bit 4 high OR low) # output))))"
| "uuid_pairs _ = Inr []"

definition uuid_shape :: "bytes \<Rightarrow> bool" where
  "uuid_shape bs \<longleftrightarrow> length bs = 36 \<and> bs ! 8 = 45 \<and> bs ! 13 = 45 \<and> bs ! 18 = 45 \<and> bs ! 23 = 45"

definition uuid_parse :: "string \<Rightarrow> ContractError + bytes" where
  "uuid_parse value =
     (let bs = as_bytes value in
      if \<not> uuid_shape bs then Inl uuid_invalid
      else bindE (uuid_compact 0 bs) uuid_pairs)"

definition uuid_to_string :: "bytes \<Rightarrow> string" where
  "uuid_to_string bs =
     (let hex = hex_encode bs in
        take 8 hex @ ''-'' @ take 4 (drop 8 hex) @ ''-'' @ take 4 (drop 12 hex) @ ''-'' @
        take 4 (drop 16 hex) @ ''-'' @ take 12 (drop 20 hex))"

section \<open>Properties of the digits\<close>

definition is_hex :: "byte \<Rightarrow> bool" where
  "is_hex b \<longleftrightarrow> is_ascii_digit b \<or> is_lower_af b"

lemma all_bytes_by_unat:
  assumes "list_all (\<lambda>n. P (word_of_nat n)) [0..<256]"
  shows "P (b :: byte)"
proof -
  have "P (word_of_nat n)" if "n < 256" for n
    using assms that by (simp add: list_all_iff)
  from this [OF unat_byte_bound [of b]] show ?thesis by simp
qed

lemma hex_digits_of_byte:
  "is_hex (hex_high b) \<and> is_hex (hex_low b) \<and>
   (case (lower_hex (hex_high b), lower_hex (hex_low b)) of
      (Some h, Some l) \<Rightarrow> push_bit 4 h OR l = b | _ \<Rightarrow> False)"
  by (rule all_bytes_by_unat, code_simp)

lemma lower_hex_value:
  "case lower_hex h of None \<Rightarrow> \<not> is_hex h
     | Some v \<Rightarrow> is_hex h \<and> unat v < 16 \<and> hex_digits ! unat v = h"
  by (rule all_bytes_by_unat, code_simp)

lemma nibbles_of_join:
  "list_all (\<lambda>h. list_all (\<lambda>l.
     drop_bit 4 (push_bit 4 (word_of_nat h :: byte) OR word_of_nat l) = (word_of_nat h :: byte) \<and>
     (push_bit 4 (word_of_nat h :: byte) OR word_of_nat l) AND 15 = (word_of_nat l :: byte)) [0..<16]) [0..<16]"
  by code_simp

lemma hex_of_join:
  assumes "unat (h :: byte) < 16" and "unat l < 16"
  shows "hex_high (push_bit 4 h OR l) = hex_digits ! unat h"
    and "hex_low (push_bit 4 h OR l) = hex_digits ! unat l"
proof -
  have *: "drop_bit 4 (push_bit 4 (word_of_nat m :: byte) OR word_of_nat n) = (word_of_nat m :: byte)"
    "(push_bit 4 (word_of_nat m :: byte) OR word_of_nat n) AND 15 = (word_of_nat n :: byte)"
    if "m < 16" "n < 16" for m n
    using nibbles_of_join that by (auto simp: list_all_iff)
  show "hex_high (push_bit 4 h OR l) = hex_digits ! unat h"
    using *(1) [OF assms] by (simp add: hex_high_def)
  show "hex_low (push_bit 4 h OR l) = hex_digits ! unat l"
    using *(2) [OF assms] by (simp add: hex_low_def)
qed

lemma uuid_pairs_hex_bytes [simp]: "uuid_pairs (hex_bytes bs) = Inr bs"
proof (induction bs)
  case (Cons b bs)
  obtain h l where "lower_hex (hex_high b) = Some h" "lower_hex (hex_low b) = Some l"
      "push_bit 4 h OR l = b"
    using hex_digits_of_byte [of b] by (auto split: option.splits)
  then show ?case using Cons.IH by simp
qed simp

lemma hex_bytes_uuid_pairs:
  "uuid_pairs c = Inr bs \<Longrightarrow> even (length c) \<Longrightarrow> hex_bytes bs = c"
proof (induction c arbitrary: bs rule: uuid_pairs.induct)
  case (1 h l rest)
  then obtain high low out where
    parts: "lower_hex h = Some high" "lower_hex l = Some low" "uuid_pairs rest = Inr out"
      "bs = (push_bit 4 high OR low) # out"
    by (auto simp: res_simps)
  then have "unat high < 16" "hex_digits ! unat high = h" "unat low < 16" "hex_digits ! unat low = l"
    using lower_hex_value [of h] lower_hex_value [of l] by auto
  then show ?case using parts "1.IH" "1.prems" by (auto simp: hex_of_join)
qed auto

lemma length_uuid_pairs: "uuid_pairs c = Inr bs \<Longrightarrow> length bs = length c div 2"
  by (induction c arbitrary: bs rule: uuid_pairs.induct) (auto simp: res_simps)

lemma hex_bytes_is_hex: "b \<in> set (hex_bytes bs) \<Longrightarrow> is_hex b"
  by (induction bs) (use hex_digits_of_byte in auto)

section \<open>Properties of the UUID spelling\<close>

lemma uuid_compact_append:
  assumes "\<And>i. i < length xs \<Longrightarrow> \<not> uuid_dash (p + i)"
  shows "uuid_compact p (xs @ ys) =
    (if list_all is_hex xs then bindE (uuid_compact (p + length xs) ys) (\<lambda>c. Inr (xs @ c))
     else Inl uuid_invalid)"
  using assms
proof (induction xs arbitrary: p)
  case Nil
  show ?case by (cases "uuid_compact p ys") auto
next
  case (Cons x xs)
  have "\<not> uuid_dash p" using Cons.prems [of 0] by simp
  moreover have "\<not> uuid_dash (Suc p + i)" if "i < length xs" for i
    using Cons.prems [of "Suc i"] that by simp
  note IH = Cons.IH [OF this]
  ultimately show ?case
    by (cases "uuid_compact (Suc (p + length xs)) ys") (auto simp: IH is_hex_def)
qed

lemma uuid_compact_dash: "uuid_dash p \<Longrightarrow> uuid_compact p (b # ys) = uuid_compact (Suc p) ys"
  by simp

text \<open>The 36 bytes of a spelling are five runs of digits separated by dashes.\<close>

lemma uuid_compact_shape:
  assumes "length a = 8" "length b = 4" "length c = 4" "length d = 4" "length e = 12"
  shows "uuid_compact 0 (a @ 45 # b @ 45 # c @ 45 # d @ 45 # e) =
    (if list_all is_hex (a @ b @ c @ d @ e) then Inr (a @ b @ c @ d @ e) else Inl uuid_invalid)"
proof -
  have e: "uuid_compact 24 e = (if list_all is_hex e then Inr e else Inl uuid_invalid)"
    using uuid_compact_append [of e 24 "[]"] assms by (auto simp: uuid_dash_def)
  have d: "uuid_compact 19 (d @ 45 # e) =
      (if list_all is_hex d then bindE (uuid_compact 24 e) (\<lambda>c. Inr (d @ c)) else Inl uuid_invalid)"
    using uuid_compact_append [of d 19 "45 # e"] assms by (auto simp: uuid_dash_def)
  have c: "uuid_compact 14 (c @ 45 # d @ 45 # e) =
      (if list_all is_hex c then bindE (uuid_compact 19 (d @ 45 # e)) (\<lambda>r. Inr (c @ r))
       else Inl uuid_invalid)"
    using uuid_compact_append [of c 14 "45 # d @ 45 # e"] assms by (auto simp: uuid_dash_def)
  have b: "uuid_compact 9 (b @ 45 # c @ 45 # d @ 45 # e) =
      (if list_all is_hex b then bindE (uuid_compact 14 (c @ 45 # d @ 45 # e)) (\<lambda>r. Inr (b @ r))
       else Inl uuid_invalid)"
    using uuid_compact_append [of b 9 "45 # c @ 45 # d @ 45 # e"] assms by (auto simp: uuid_dash_def)
  have "uuid_compact 0 (a @ 45 # b @ 45 # c @ 45 # d @ 45 # e) =
      (if list_all is_hex a
       then bindE (uuid_compact 9 (b @ 45 # c @ 45 # d @ 45 # e)) (\<lambda>r. Inr (a @ r))
       else Inl uuid_invalid)"
    using uuid_compact_append [of a 0 "45 # b @ 45 # c @ 45 # d @ 45 # e"] assms
    by (auto simp: uuid_dash_def)
  then show ?thesis unfolding b c d e by auto
qed

lemma split_at_nth: "k < length xs \<Longrightarrow> xs = take k xs @ xs ! k # drop (Suc k) xs"
  by (rule id_take_nth_drop)

lemma uuid_shape_split:
  assumes "uuid_shape bs"
  obtains a b c d e where "bs = a @ 45 # b @ 45 # c @ 45 # d @ 45 # e"
    "length a = 8" "length b = 4" "length c = 4" "length d = 4" "length e = 12"
proof -
  have len: "length bs = 36" and at: "bs ! 8 = 45" "bs ! 13 = 45" "bs ! 18 = 45" "bs ! 23 = 45"
    using assms by (auto simp: uuid_shape_def)
  have s8: "bs = take 8 bs @ 45 # drop 9 bs" using split_at_nth [of 8 bs] len at by simp
  have s13: "drop 9 bs = take 4 (drop 9 bs) @ 45 # drop 14 bs"
    using split_at_nth [of 4 "drop 9 bs"] len at by simp
  have s18: "drop 14 bs = take 4 (drop 14 bs) @ 45 # drop 19 bs"
    using split_at_nth [of 4 "drop 14 bs"] len at by simp
  have s23: "drop 19 bs = take 4 (drop 19 bs) @ 45 # drop 24 bs"
    using split_at_nth [of 4 "drop 19 bs"] len at by simp
  show ?thesis
  proof (rule that)
    show "bs = take 8 bs @ 45 # take 4 (drop 9 bs) @ 45 # take 4 (drop 14 bs) @ 45 #
        take 4 (drop 19 bs) @ 45 # drop 24 bs"
      using s8 s13 s18 s23 by simp
  qed (use len in simp_all)
qed

lemma uuid_shapeI:
  "length a = 8 \<Longrightarrow> length b = 4 \<Longrightarrow> length c = 4 \<Longrightarrow> length d = 4 \<Longrightarrow> length e = 12 \<Longrightarrow>
   uuid_shape (a @ 45 # b @ 45 # c @ 45 # d @ 45 # e)"
  by (simp add: uuid_shape_def nth_append)

definition uuid_layout :: "bytes \<Rightarrow> bytes" where
  "uuid_layout h = take 8 h @ 45 # take 4 (drop 8 h) @ 45 # take 4 (drop 12 h) @ 45 #
     take 4 (drop 16 h) @ 45 # take 12 (drop 20 h)"

lemma as_bytes_uuid_to_string: "as_bytes (uuid_to_string bs) = uuid_layout (hex_bytes bs)"
proof -
  have dash: "as_bytes (CHR ''-'' # s) = 45 # as_bytes s" for s by (simp add: as_bytes_def)
  show ?thesis
    by (simp add: uuid_to_string_def uuid_layout_def hex_encode_def take_of_bytes drop_of_bytes
        dash Let_def)
qed

lemma uuid_layout_runs:
  "length a = 8 \<Longrightarrow> length b = 4 \<Longrightarrow> length c = 4 \<Longrightarrow> length d = 4 \<Longrightarrow> length e = 12 \<Longrightarrow>
   uuid_layout (a @ b @ c @ d @ e) = a @ 45 # b @ 45 # c @ 45 # d @ 45 # e"
  by (simp add: uuid_layout_def)

lemma uuid_parse_to_string_aux:
  assumes "length bs = 16"
  shows "uuid_parse (uuid_to_string bs) = Inr bs"
proof -
  let ?h = "hex_bytes bs"
  have hex: "list_all is_hex ?h" by (auto simp: list_all_iff intro: hex_bytes_is_hex)
  have eq: "take 8 ?h @ take 4 (drop 8 ?h) @ take 4 (drop 12 ?h) @ take 4 (drop 16 ?h) @
      take 12 (drop 20 ?h) = ?h"
    using assms by (simp add: list_eq_iff_nth_eq nth_append)
  have "uuid_compact 0 (uuid_layout ?h) = Inr ?h"
    unfolding uuid_layout_def using assms hex
    by (subst uuid_compact_shape) (simp_all only: eq length_take length_drop length_hex_bytes, simp_all)
  moreover have "uuid_shape (uuid_layout ?h)"
    unfolding uuid_layout_def using assms by (intro uuid_shapeI) simp_all
  ultimately show ?thesis
    by (simp add: uuid_parse_def as_bytes_uuid_to_string)
qed

lemma uuid_to_string_parse_aux:
  assumes "uuid_parse s = Inr bs"
  shows "uuid_to_string bs = s \<and> length bs = 16"
proof -
  have sh: "uuid_shape (as_bytes s)" and "\<exists>c. uuid_compact 0 (as_bytes s) = Inr c \<and> uuid_pairs c = Inr bs"
    using assms by (auto simp: uuid_parse_def Let_def res_simps split: if_splits)
  then obtain h where h: "uuid_compact 0 (as_bytes s) = Inr h" "uuid_pairs h = Inr bs" by blast
  obtain a b c d e where runs: "as_bytes s = a @ 45 # b @ 45 # c @ 45 # d @ 45 # e"
    "length a = 8" "length b = 4" "length c = 4" "length d = 4" "length e = 12"
    using uuid_shape_split [OF sh] .
  then have hh: "h = a @ b @ c @ d @ e"
    using h(1) by (auto simp: uuid_compact_shape split: if_splits)
  then have "hex_bytes bs = a @ b @ c @ d @ e"
    using hex_bytes_uuid_pairs [OF h(2)] runs by simp
  then have "as_bytes (uuid_to_string bs) = as_bytes s"
    using runs by (simp add: as_bytes_uuid_to_string uuid_layout_runs)
  moreover have "length bs = 16"
    using length_uuid_pairs [OF h(2)] hh runs by simp
  ultimately show ?thesis by simp
qed

text \<open>
  The textual identity is canonical: \<open>uuid_parse\<close> accepts exactly the spellings that
  \<open>uuid_to_string\<close> prints, and returns exactly the 16 bytes that were printed. No other
  spelling (uppercase, missing dash, other length) of an identity is accepted.
\<close>

theorem uuid_spelling_canonical:
  "uuid_parse s = Inr bs \<longleftrightarrow> length bs = 16 \<and> s = uuid_to_string bs"
  using uuid_parse_to_string_aux uuid_to_string_parse_aux by metis

end
