(* ===== verification/SourceOps.thy ===== *)
theory SourceOps
  imports SourceSafety Contracts
begin

text \<open>
  Removal of captured sources, the inventory of all sources and admitted selections, on top
  of the invariant of the current-source rows; each is exact on the
  registry.
\<close>

section \<open>Removal\<close>

lemma removal_guard_interruptible:
  "polls sc_interrupts (removal_guard ns sources ids locs db)"
proof (induction sources arbitrary: ids locs)
  case (Cons s sources)
  have eq: "removal_guard ns (s # sources) ids locs db = (\<lambda>env.
     bindE (sc_check env) (\<lambda>env.
     if source_namespace_id s \<noteq> ns \<or> source_id s \<in> set ids \<or> locator s \<in> set locs
     then Inl Stale
     else
       bindE (w_get Database SOURCE_ROWS (source_id s) db env) (\<lambda>(row, env).
       bindE (ok_or Stale row) (\<lambda>row.
       bindE (decode_record row) (\<lambda>stored.
       if stored \<noteq> s then Inl Stale
       else
         bindE (w_get Database SOURCE_LOCATORS (locator s) db env) (\<lambda>(found, env).
         bindE (ok_or Stale found) (\<lambda>found.
         if found \<noteq> source_id s then Inl Stale
         else removal_guard ns sources (source_id s # ids) (locator s # locs) db env)))))))"
    by (rule ext) simp
  show ?case unfolding eq
    by (intro polls_bind polls_if polls_fail polls_pure polls_bind_pair Cons.IH sc_polls sc_store_interruptible)
qed (simp add: polls_def)

lemma remove_preparation_interruptible [interruptible_intros]:
  "interruptible sc_interrupts (remove_source_preparation sid db)"
  unfolding remove_source_preparation_def by (intro interruptible_intros)

lemma removal_loop_interruptible [interruptible_intros]:
  "interruptible sc_interrupts (removal_loop sources db)"
proof (induction sources arbitrary: db)
  case (Cons s sources)
  have eq: "removal_loop (s # sources) db = (\<lambda>env.
     bindE (sc_check env) (\<lambda>env.
     bindE (w_remove Database SOURCE_ROWS (source_id s) db env) (\<lambda>((row, db), env).
     if row = None then Inl Stale
     else
       bindE (w_remove Database SOURCE_LOCATORS (locator s) db env) (\<lambda>((found, db), env).
       if found = None then Inl Stale
       else
         bindE (remove_source_preparation (source_id s) db env) (\<lambda>(db, env).
         removal_loop sources db env)))))"
    by (rule ext) simp
  show ?case unfolding eq by (intro interruptible_intros Cons.IH)
qed (simp add: interruptible_def refines_quiet_def)

lemma remove_body_interruptible:
  "interruptible sc_interrupts (remove_sources_body expected db)"
  unfolding remove_sources_body_def
  by (intro interruptible_intros removal_guard_interruptible)

lemma removal_guard_Inr:
  "removal_guard ns sources ids locs db [] = Inr env \<Longrightarrow>
   env = [] \<and> distinct (map source_id sources) \<and> source_id ` set sources \<inter> set ids = {} \<and>
   (\<forall>s \<in> set sources. source_namespace_id s = ns \<and> locs_of db (locator s) = Some (source_id s) \<and>
     (\<exists>bs. rows_of db (source_id s) = Some bs \<and> decode_record bs = Inr s))"
proof (induction sources arbitrary: ids locs)
  case (Cons s sources)
  have "removal_guard ns sources (source_id s # ids) (locator s # locs) db [] = Inr env"
    using Cons.prems by (auto simp: res_simps split: if_splits)
  from Cons.IH [OF this] Cons.prems show ?case
    by (auto simp: res_simps split: if_splits)
qed simp

lemma removal_loop_Inr:
  assumes "removal_loop sources db [] = Inr (db', env)" "db_ok db"
  shows "env = [] \<and> db_ok db' \<and> db_multimaps db' = db_multimaps db \<and>
    rows_of db' k = (if k \<in> source_id ` set sources then None else rows_of db k) \<and>
    locs_of db' k = (if k \<in> locator ` set sources then None else locs_of db k) \<and>
    preps_of db' k = (if k \<in> source_id ` set sources then None else preps_of db k) \<and>
    st_of db' k = st_of db k \<and>
    set (list_tables db') = set (list_tables db) \<union>
      (if sources = [] then {} else {SOURCE_ROWS, SOURCE_LOCATORS, PREPARATIONS})"
  using assms
proof (induction sources arbitrary: db)
  case (Cons s sources)
  let ?d = "del_in PREPARATIONS (source_id s) (ensure PREPARATIONS
      (del_in SOURCE_LOCATORS (locator s) (del_in SOURCE_ROWS (source_id s) db)))"
  have "removal_loop sources ?d [] = Inr (db', env)" "db_ok ?d"
    using Cons.prems by (auto simp: res_simps remove_source_preparation_def split: if_splits)
  from Cons.IH [OF this] show ?case using Cons.prems(2)
    by (auto simp: the_table_del_in tbl_get_del)
qed simp

lemma removal_loop_keeps: "removal_loop sources db [] = Inr (db', env) \<Longrightarrow> db_ok db \<Longrightarrow> keeps_pub db db'"
proof (induction sources arbitrary: db)
  case (Cons s sources)
  let ?d = "del_in PREPARATIONS (source_id s) (ensure PREPARATIONS
      (del_in SOURCE_LOCATORS (locator s) (del_in SOURCE_ROWS (source_id s) db)))"
  have "removal_loop sources ?d [] = Inr (db', env)" "db_ok ?d"
    using Cons.prems by (auto simp: res_simps remove_source_preparation_def split: if_splits)
  moreover have "keeps_pub db ?d" by simp
  ultimately show ?case using Cons.IH keeps_pub_trans by blast
qed simp

lemma remove_body_Inr:
  assumes "remove_sources_body expected db [] = Inr (work, env)" "control_ok db" "expected \<noteq> []"
  shows "control_ok work \<and> (\<forall>s \<in> set expected. sources_of db (locator s) = Some s) \<and>
    sources_of work = sources_of db |` (- locator ` set expected) \<and> wanted_of work = wanted_of db + 1 \<and>
    (\<forall>k. preps_of work k = (if k \<in> source_id ` set expected then None else preps_of db k)) \<and>
    st_of work NAMESPACE_KEY = st_of db NAMESPACE_KEY"
proof -
  have ok: "db_ok db" using assms(2) by (rule control_db_ok)
  let ?o = "opened db"
  obtain ns db1 env1 env2 where v: "st_of db SCHEMA_VERSION_KEY = Some SOURCE_SCHEMA_VERSION" "st_of db NAMESPACE_KEY = Some ns"
    and g: "removal_guard ns expected [] [] ?o [] = Inr env1"
    and l: "removal_loop expected ?o env1 = Inr (db1, env2)"
    and a: "\<exists>env3. advance_wanted_revision db1 env2 = Inr (work, env3)"
    using assms(1) unfolding remove_sources_body_def opened_def
    by (auto simp: res_simps id16_def split: if_splits)
  note G = removal_guard_Inr [OF g]
  have l': "removal_loop expected ?o [] = Inr (db1, env2)" using l G by simp
  have oko: "db_ok ?o" using ok by (simp add: opened_def)
  note L = removal_loop_Inr [OF l' oko]
  have nf: "\<not> fresh_control db" using fresh_empty [of db SOURCE_STATE] v by auto
  then obtain ns' where inv: "sources_inv ns' db" and cur: "current_schema db"
    using assms(2) by (auto simp: control_ok_def)
  have ns: "ns' = ns" using inv v by (simp add: sources_inv_def)
  have wd: "work = put_in SOURCE_STATE WANTED_REVISION_KEY (le_bytes 8 (wanted_of db1 + 1))
      (ensure SOURCE_STATE (ensure SOURCE_STATE db1))" "wanted_of db1 + 1 < u64_bound"
    using a L advance_wanted_Inr by auto
  have w1: "wanted_of db1 = wanted_of db" using L by (intro wanted_of_cong) simp
  have ok1: "db_ok db1" using L by simp
  have rows: "rows_of work k = (if k \<in> source_id ` set expected then None else rows_of db k)"
    and locs: "locs_of work k = (if k \<in> locator ` set expected then None else locs_of db k)"
    and preps: "preps_of work k = (if k \<in> source_id ` set expected then None else preps_of db k)"
    and st: "st_of work k = (if k = WANTED_REVISION_KEY then Some (le_bytes 8 (wanted_of db + 1)) else st_of db k)" for k
    using removal_loop_Inr [OF l' oko, of k] ok1 by (simp_all add: wd(1) w1 the_table_put_in tb.get_put)
  have E: "sources_of db (locator s) = Some s" "locs_of db (locator s) = Some (source_id s)"
    if "s \<in> set expected" for s
    using G that by (auto simp: sources_of_def)
  have row: "row_ok ns work sid bs" if r: "rows_of work sid = Some bs" for sid bs
  proof -
    have n: "sid \<notin> source_id ` set expected" "rows_of db sid = Some bs" using r rows by (auto split: if_splits)
    then have "row_ok ns db sid bs" using inv ns unfolding sources_inv_def by blast
    then obtain x where x: "decode_record bs = Inr x" "storable_source x" "source_id x = sid"
        "source_namespace_id x = ns" "locs_of db (locator x) = Some sid" unfolding row_ok_def by blast
    have "locator x \<notin> locator ` set expected" using x(5) n(1) E(2) by fastforce
    then show ?thesis using x locs by (auto simp: row_ok_def)
  qed
  have loc: "locator_ok work loc sid" if r: "locs_of work loc = Some sid" for loc sid
  proof -
    have n: "loc \<notin> locator ` set expected" "locs_of db loc = Some sid" using r locs by (auto split: if_splits)
    then have "locator_ok db loc sid" using inv unfolding sources_inv_def by blast
    then obtain bs x where x: "rows_of db sid = Some bs" "decode_record bs = Inr x" "locator x = loc"
      unfolding locator_ok_def by blast
    have "sid \<notin> source_id ` set expected"
    proof
      assume "sid \<in> source_id ` set expected"
      then obtain s where "s \<in> set expected" "sid = source_id s" by blast
      then show False using G x n(1) by fastforce
    qed
    then show ?thesis using x rows by (auto simp: locator_ok_def)
  qed
  have invw: "sources_inv ns work"
    unfolding sources_inv_def
    using inv ns row loc st preps rows by (auto simp: sources_inv_def split: if_splits)
  have names: "set (list_tables work) = set (list_tables db) \<union> {SOURCE_STATE, SOURCE_ROWS, SOURCE_LOCATORS, PREPARATIONS}"
    using L assms(3) by (auto simp: wd(1) opened_def)
  have curw: "current_schema work"
  proof -
    have "pub_ok (set (list_tables work))"
      using cur names control_tables_not_pub base_not_pub(2) unfolding current_schema_def pub_ok_def by blast
    moreover have "set (list_tables work) - PUB = (set (list_tables db) - PUB) \<union> {SOURCE_STATE, SOURCE_ROWS, SOURCE_LOCATORS, PREPARATIONS}"
      using names control_tables_not_pub base_not_pub(2) by blast
    ultimately show ?thesis using cur unfolding current_schema_def by auto
  qed
  have src: "sources_of work = sources_of db |` (- locator ` set expected)"
  proof
    fix k
    show "sources_of work k = (sources_of db |` (- locator ` set expected)) k"
    proof (cases "k \<in> locator ` set expected")
      case True
      then show ?thesis by (simp add: sources_of_def locs)
    next
      case False
      have "rows_of work sid = rows_of db sid" if "locs_of db k = Some sid" for sid
        using loc [of k sid] locs False that rows by (auto simp: locator_ok_def split: if_splits)
      then show ?thesis using False by (cases "locs_of db k") (simp_all add: sources_of_def locs)
    qed
  qed
  have "wanted_of work = wanted_of db + 1"
    using wd(2) w1 by (simp add: wanted_of_def [of work] st of_le_bytes_le_bytes)
  moreover have "control_ok work"
    using invw curw ok1 L assms(2) by (auto simp: control_ok_def wd(1) opened_def)
  ultimately show ?thesis using src E(1) preps st by simp
qed

lemma remove_body_keeps:
  assumes "remove_sources_body expected db [] = Inr (work, env)" "db_ok db"
  shows "keeps_pub db work"
proof -
  let ?o = "opened db"
  obtain ns db1 env1 env2 env3 where g: "removal_guard ns expected [] [] ?o [] = Inr env1"
    and l: "removal_loop expected ?o env1 = Inr (db1, env2)" and a: "advance_wanted_revision db1 env2 = Inr (work, env3)"
    using assms(1) unfolding remove_sources_body_def opened_def
    by (auto simp: res_simps id16_def split: if_splits)
  have ok: "db_ok ?o" using assms(2) by (simp add: opened_def)
  have l': "removal_loop expected ?o [] = Inr (db1, env2)" using l removal_guard_Inr [OF g] by simp
  have "env2 = []" using removal_loop_Inr [OF l' ok] by simp
  then have "keeps_pub db1 work" using a by (auto dest!: advance_wanted_Inr)
  moreover have "keeps_pub db ?o" by (simp add: opened_def)
  ultimately show ?thesis using removal_loop_keeps [OF l' ok] keeps_pub_trans by blast
qed

text \<open>
  C25: Removal is exact: \<open>remove_current_sources\<close> succeeds only when every expected record is
  the current record of its locator, and then the registry is the old one without exactly
  those locators; on every other outcome the registry is unchanged, except that a commit
  whose outcome is unknown may have removed exactly those locators. The database stays
  consistent in every case.
\<close>

theorem remove_sources_exact:
  assumes "remove_current_sources db expected env = (res, db')" "control_ok db"
  shows "control_ok db' \<and>
    (case res of
       Inr _ \<Rightarrow> (\<forall>s \<in> set expected. sources_of db (locator s) = Some s) \<and>
         sources_of db' = sources_of db |` (- locator ` set expected)
     | Inl e \<Rightarrow> db' = db \<or> e = Database \<and> sources_of db' = sources_of db |` (- locator ` set expected))"
proof (cases "expected = []")
  case True
  then show ?thesis using assms
    by (auto simp: remove_current_sources_def remove_sources_database_def restrict_map_def)
next
  case False
  show ?thesis
  proof (cases "MAX_CURRENT_SOURCES < length expected \<or> (\<exists>e. remove_sources_body expected db env = Inl e)")
    case True
    then show ?thesis using assms False
      by (auto simp: remove_current_sources_def remove_sources_database_def split: if_splits)
  next
    case bounded: False
    then obtain work env1 where b: "remove_sources_body expected db env = Inr (work, env1)"
      by (cases "remove_sources_body expected db env") auto
    note R = remove_body_Inr [OF interruptible_Inr [OF remove_body_interruptible b] assms(2) False]
    obtain ok db1 env2 where c: "w_commit work db env1 = ((ok, db1), env2)" by (metis surj_pair)
    have "db' = db1" "res = (if ok then Inr () else Inl Database)"
      using assms(1) False bounded b c by (auto simp: remove_current_sources_def remove_sources_database_def)
    then show ?thesis using w_commit_cases [OF c] R assms(2) by auto
  qed
qed

section \<open>The inventory of all sources\<close>

lemma inventory_rows_interruptible [interruptible_intros]:
  "interruptible sc_interrupts (inventory_rows locators ns rows sources rv charged)"
proof (induction rows arbitrary: sources rv charged)
  case (Cons e rows)
  obtain sid bs where e: "e = (sid, bs)" by (cases e)
  have eq: "inventory_rows locators ns (e # rows) sources rv charged = (\<lambda>env.
     bindE (sc_check env) (\<lambda>env.
     bindE (sc_io env) (\<lambda>env.
     bindE (ok_or InventoryLimit (checked_add64 charged (length bs))) (\<lambda>charged.
     if MAX_CURRENT_SOURCES \<le> length sources \<or> MAX_CURRENT_SOURCE_BYTES < charged then Inl InventoryLimit
     else
       bindE (decode_record bs) (\<lambda>source.
       if sid \<noteq> source_id source \<or> source_namespace_id source \<noteq> ns then Inl Corrupt
       else
         bindE (r_get Database locators (locator source) env) (\<lambda>(indexed, env).
         bindE (ok_or Corrupt indexed) (\<lambda>indexed.
         if indexed \<noteq> source_id source then Inl Corrupt
         else
           bindE (ok_or InventoryLimit (checked_add64 charged (length (locator source)))) (\<lambda>charged.
           if MAX_CURRENT_SOURCE_BYTES < charged then Inl InventoryLimit
           else
             bindE (reserve_with InventoryLimit env) (\<lambda>env.
             inventory_rows locators ns rows (sources @ [source])
               ((source_id source, locator source) # rv) charged env)))))))))"
    by (rule ext) (simp add: e)
  show ?case unfolding eq by (intro interruptible_intros Cons.IH)
qed (simp add: interruptible_def refines_quiet_def)

lemma inventory_locators_interruptible [interruptible_intros]:
  "interruptible sc_interrupts (inventory_locators items rv count)"
proof (induction items arbitrary: rv count)
  case (Cons e items)
  obtain loc sid where e: "e = (loc, sid)" by (cases e)
  have eq: "inventory_locators (e # items) rv count = (\<lambda>env.
     bindE (sc_check env) (\<lambda>env.
     bindE (sc_io env) (\<lambda>env.
     bindE (ok_or InventoryLimit (checked_add64 count 1)) (\<lambda>count.
     if MAX_CURRENT_SOURCES < count then Inl InventoryLimit
     else if map_of rv sid \<noteq> Some loc then Inl Corrupt
     else inventory_locators items (filter (\<lambda>e. fst e \<noteq> sid) rv) count env))))"
    by (rule ext) (simp add: e)
  show ?case unfolding eq by (intro interruptible_intros Cons.IH)
qed (simp add: interruptible_def refines_quiet_def)

lemma capture_sources_interruptible:
  "interruptible sc_interrupts (capture_sources_database db)"
  unfolding capture_sources_database_def by (intro interruptible_intros)

definition row_entry :: "table \<Rightarrow> bytes \<Rightarrow> bytes \<times> bytes \<Rightarrow> CurrentSourceRecord \<Rightarrow> bool" where
  "row_entry locators ns e s \<longleftrightarrow> decode_record (snd e) = Inr s \<and> source_id s = fst e \<and>
     source_namespace_id s = ns \<and> tbl_get locators (locator s) = Some (fst e)"

lemma inventory_rows_Inr:
  "inventory_rows locators ns rows src rv charged [] = Inr ((sources, rv'), env) \<Longrightarrow>
   \<exists>new. env = [] \<and> sources = src @ new \<and> list_all2 (row_entry locators ns) rows new \<and>
     rv' = rev (map (\<lambda>s. (source_id s, locator s)) new) @ rv"
proof (induction rows arbitrary: src rv charged)
  case (Cons e rows)
  obtain sid bs where e: "e = (sid, bs)" by (cases e)
  obtain charged1 s idx charged' where d: "decode_record bs = Inr s" "sid = source_id s" "source_namespace_id s = ns"
    and i: "tbl_get locators (locator s) = Some idx" "idx = source_id s"
    and r: "inventory_rows locators ns rows (src @ [s]) ((source_id s, locator s) # rv) charged' [] =
      Inr ((sources, rv'), env)"
    using Cons.prems unfolding e inventory_rows.simps sc_quiet bindE_simps store_quiet reserve_with.simps prod.case
      bindE_Inr ok_or_Inr
    by (elim exE conjE) (simp only: bindE_Inr ok_or_Inr split: if_splits; blast)
  have s: "row_entry locators ns e s" using d i by (simp add: row_entry_def e)
  from Cons.IH [OF r] obtain new where "env = []" "sources = (src @ [s]) @ new"
      "list_all2 (row_entry locators ns) rows new"
      "rv' = rev (map (\<lambda>s. (source_id s, locator s)) new) @ ((source_id s, locator s) # rv)" by blast
  then show ?case using s by (intro exI [of _ "s # new"]) simp
qed simp

lemma inventory_locators_Inr:
  "inventory_locators items rv count [] = Inr ((rv', count'), env) \<Longrightarrow>
   env = [] \<and> (\<forall>e \<in> set items. (snd e, fst e) \<in> set rv)"
proof (induction items arbitrary: rv count)
  case (Cons e items)
  obtain loc sid where e: "e = (loc, sid)" by (cases e)
  have "inventory_locators items (filter (\<lambda>e. fst e \<noteq> sid) rv) (Suc count) [] = Inr ((rv', count'), env)"
    and "map_of rv sid = Some loc"
    using Cons.prems by (auto simp: e res_simps split: if_splits)
  with Cons.IH [OF this(1)] show ?case by (auto simp: e dest: map_of_SomeD)
qed simp

lemma capture_sources_Inr:
  assumes "capture_sources_database db env = Inr (sources, env')" "control_ok db \<or> db_ok db"
    and "read_source_schema db [] = Inr (True, [])"
  shows "\<exists>ns. list_all2 (row_entry (the_table db SOURCE_LOCATORS) ns) (the_table db SOURCE_ROWS) sources \<and>
    (\<forall>e \<in> set (the_table db SOURCE_LOCATORS). \<exists>s \<in> set sources. snd e = source_id s \<and> fst e = locator s)"
proof -
  have "capture_sources_database db [] = Inr (sources, [])"
    using interruptible_Inr [OF capture_sources_interruptible assms(1)] .
  then obtain ns locators rows rv env1 env1' rv' count env2 where
      t: "get_table db SOURCE_ROWS = Some rows" "get_table db SOURCE_LOCATORS = Some locators"
    and r: "inventory_rows locators ns rows [] [] 0 [] = Inr ((sources, rv), env1)"
    and io: "sc_io env1 = Inr env1'"
    and l: "inventory_locators locators rv 0 env1' = Inr ((rv', count), env2)"
    using assms(3) by (auto simp: capture_sources_database_def res_simps read_namespace_def
        split: if_splits option.splits)
  note R = inventory_rows_Inr [OF r]
  have l': "inventory_locators locators rv 0 [] = Inr ((rv', count), env2)" using R l io by auto
  have tt: "the_table db SOURCE_ROWS = rows" "the_table db SOURCE_LOCATORS = locators"
    using t by (simp_all add: the_table_def)
  show ?thesis using R inventory_locators_Inr [OF l'] by (auto simp: tt)
qed

lemma map_of_locators:
  assumes "distinct (map locator sources)"
  shows "map_of (map (\<lambda>s. (locator s, s)) sources) loc = Some s \<longleftrightarrow> s \<in> set sources \<and> locator s = loc"
  using assms by (induction sources) (auto simp: image_iff)

lemma capture_sources_registry:
  assumes "capture_sources_database db env = Inr (sources, env')" "db_ok db"
    and "read_source_schema db [] = Inr (True, [])"
  shows "distinct (map source_id sources) \<and> distinct (map locator sources) \<and>
    list_all2 (\<lambda>(key, bs) s. key = source_id s \<and> decode_record bs = Inr s) (the_table db SOURCE_ROWS) sources \<and>
    (\<exists>ns. \<forall>s \<in> set sources. source_namespace_id s = ns) \<and>
    locs_of db = map_of (map (\<lambda>s. (locator s, source_id s)) sources) \<and>
    sources_of db = map_of (map (\<lambda>s. (locator s, s)) sources)"
proof -
  obtain ns where a: "list_all2 (row_entry (the_table db SOURCE_LOCATORS) ns) (the_table db SOURCE_ROWS) sources"
    and l: "\<And>e. e \<in> set (the_table db SOURCE_LOCATORS) \<Longrightarrow> \<exists>s \<in> set sources. snd e = source_id s \<and> fst e = locator s"
    using capture_sources_Inr [OF assms(1) _ assms(3)] assms(2) by blast
  have okt: "tbl_ok (the_table db SOURCE_ROWS)" "tbl_ok (the_table db SOURCE_LOCATORS)" using assms(2) by simp_all
  have ids: "map source_id sources = map fst (the_table db SOURCE_ROWS)"
    using a by (induction rule: list_all2_induct) (auto simp: row_entry_def)
  then have d: "distinct (map source_id sources)" using tbl_ok_distinct [OF okt(1)] by simp
  have s: "rows_of db (source_id s) \<noteq> None \<and> (\<exists>bs. rows_of db (source_id s) = Some bs \<and> decode_record bs = Inr s) \<and>
      locs_of db (locator s) = Some (source_id s)" if mem: "s \<in> set sources" for s
  proof -
    obtain i where i: "i < length sources" "s = sources ! i" using mem by (auto simp: in_set_conv_nth)
    then have "row_entry (the_table db SOURCE_LOCATORS) ns (the_table db SOURCE_ROWS ! i) s"
      using a by (simp add: list_all2_conv_all_nth)
    moreover have "the_table db SOURCE_ROWS ! i \<in> set (the_table db SOURCE_ROWS)"
      using i a by (simp add: list_all2_lengthD)
    ultimately show ?thesis
      using tbl_get_iff [OF okt(1), of "source_id s"] by (cases "the_table db SOURCE_ROWS ! i") (auto simp: row_entry_def)
  qed
  have dl: "distinct (map locator sources)"
  proof -
    have "inj_on locator (set sources)"
    proof
      fix x y assume x: "x \<in> set sources" and y: "y \<in> set sources" and e: "locator x = locator y"
      then have "source_id x = source_id y" using s [OF x] s [OF y] by simp
      then show "x = y" using s [OF x] s [OF y] by auto
    qed
    then show ?thesis using d by (simp add: distinct_map)
  qed
  have "sources_of db loc = map_of (map (\<lambda>s. (locator s, s)) sources) loc" for loc
  proof (cases "locs_of db loc")
    case None
    then have no: "locator x \<noteq> loc" if "x \<in> set sources" for x using s [OF that] by auto
    have "map_of (map (\<lambda>s. (locator s, s)) sources) loc = None"
      unfolding map_of_eq_None_iff using no by fastforce
    then show ?thesis using None by (simp add: sources_of_def)
  next
    case (Some sid)
    then have "(loc, sid) \<in> set (the_table db SOURCE_LOCATORS)" using tbl_get_iff [OF okt(2)] by simp
    then obtain x where x: "x \<in> set sources" "source_id x = sid" "locator x = loc" using l by fastforce
    then have "map_of (map (\<lambda>s. (locator s, s)) sources) loc = Some x" using map_of_locators [OF dl] by blast
    then show ?thesis using Some x s [OF x(1)] by (auto simp: sources_of_def)
  qed
  moreover have "locs_of db loc = map_of (map (\<lambda>s. (locator s, source_id s)) sources) loc" for loc
  proof (cases "locs_of db loc")
    case None
    then have no: "locator x \<noteq> loc" if "x \<in> set sources" for x using s [OF that] by auto
    have "map_of (map (\<lambda>s. (locator s, source_id s)) sources) loc = None"
      unfolding map_of_eq_None_iff using no by fastforce
    then show ?thesis using None by simp
  next
    case (Some sid)
    then have "(loc, sid) \<in> set (the_table db SOURCE_LOCATORS)" using tbl_get_iff [OF okt(2)] by simp
    then obtain x where x: "x \<in> set sources" "source_id x = sid" "locator x = loc" using l by fastforce
    have "distinct (map fst (map (\<lambda>s. (locator s, source_id s)) sources))" using dl by (simp add: comp_def)
    moreover have "(loc, sid) \<in> set (map (\<lambda>s. (locator s, source_id s)) sources)" using x by auto
    ultimately show ?thesis using Some by simp
  qed
  moreover have "list_all2 (\<lambda>(key, bs) s. key = source_id s \<and> decode_record bs = Inr s) (the_table db SOURCE_ROWS) sources"
    using a by (rule list_all2_mono) (auto simp: row_entry_def)
  moreover have "\<forall>s \<in> set sources. source_namespace_id s = ns"
    using a by (induction rule: list_all2_induct) (auto simp: row_entry_def)
  ultimately show ?thesis using d dl by blast
qed

text \<open>
  C26: An accepted inventory is the whole registry and proves its indexes consistent: whenever
  \<open>capture_sources_database\<close> returns records for a database with source tables (no other
  assumption on their contents), the records have distinct identities and locators and one
  namespace, they are exactly the rows of the table in key order, every row decodes to the
  record of its key, and the locator index has exactly the entries of these records: no locator
  dangles or names another source, and no source lacks its locator.
\<close>

theorem inventory_is_registry:
  assumes "capture_sources_database db env = Inr (sources, env')" "db_ok db"
    and "read_source_schema db [] = Inr (True, [])"
  shows "distinct (map source_id sources) \<and> distinct (map locator sources) \<and>
    list_all2 (\<lambda>(key, bs) s. key = source_id s \<and> decode_record bs = Inr s) (the_table db SOURCE_ROWS) sources \<and>
    (\<exists>ns. \<forall>s \<in> set sources. source_namespace_id s = ns) \<and>
    locs_of db = map_of (map (\<lambda>s. (locator s, source_id s)) sources) \<and>
    sources_of db = map_of (map (\<lambda>s. (locator s, s)) sources)"
  by (rule capture_sources_registry [OF assms])

section \<open>Admitted selections\<close>

lemma admission_keys [simp]:
  "selection_key loc \<noteq> SCHEMA_VERSION_KEY" "selection_key loc \<noteq> NAMESPACE_KEY"
  "selection_key loc \<noteq> WANTED_REVISION_KEY" "is_selection_key (selection_key loc)"
  by (simp_all add: selection_key_def SELECTION_PREFIX_def SCHEMA_VERSION_KEY_def NAMESPACE_KEY_def
      WANTED_REVISION_KEY_def is_selection_key_def as_bytes_def)

lemma admission_keys_sym [simp]:
  "SCHEMA_VERSION_KEY \<noteq> selection_key loc" "NAMESPACE_KEY \<noteq> selection_key loc"
  "WANTED_REVISION_KEY \<noteq> selection_key loc"
  using admission_keys [of loc] by metis+

lemma control_keys_not_selections [simp]:
  "\<not> is_selection_key SCHEMA_VERSION_KEY" "\<not> is_selection_key NAMESPACE_KEY" "\<not> is_selection_key WANTED_REVISION_KEY"
  by (simp_all add: SELECTION_PREFIX_def SCHEMA_VERSION_KEY_def NAMESPACE_KEY_def WANTED_REVISION_KEY_def
      is_selection_key_def as_bytes_def)

lemma selection_key_inject [simp]: "selection_key p = selection_key q \<longleftrightarrow> p = q"
  by (metis selection_key_def same_append_eq uuid_pairs_hex_bytes sum.inject(2))

definition selection_of :: "(bytes \<Rightarrow> StoredSelection option) \<Rightarrow> Database \<Rightarrow> bytes \<Rightarrow> AdmittedSelection option" where
  "selection_of from_slice db path =
     Option.bind (st_of db (selection_key path)) (\<lambda>v. ok_of (decode_selection from_slice (selection_key path) v))"

lemma admit_charge_polls: "polls sc_interrupts (admit_charge key items count charged)"
proof (induction items arbitrary: count charged)
  case (Cons e items)
  obtain k v where e: "e = (k, v)" by (cases e)
  have eq: "admit_charge key (e # items) count charged = (\<lambda>env.
     bindE (sc_check env) (\<lambda>env.
     bindE (sc_io env) (\<lambda>env.
     bindE (if is_selection_key k \<and> k \<noteq> key
            then bindE (ok_or InventoryLimit (checked_add64 charged (length k + length v)))
                   (\<lambda>charged. Inr (count + 1, charged))
            else Inr (count, charged)) (\<lambda>x. (\<lambda>(count, charged) env.
     if MAX_CURRENT_SOURCES < count \<or> MAX_CURRENT_SOURCE_BYTES < charged then Inl InventoryLimit
     else admit_charge key items count charged env) x env))))"
    by (rule ext) (simp add: e split_def)
  show ?case unfolding eq
    by (intro polls_bind polls_pure sc_polls) (auto intro!: polls_if polls_fail Cons.IH simp: split_def)
qed (simp add: polls_def)

lemma ensure_schema_interruptible [interruptible_intros]:
  "interruptible sc_interrupts (ensure_admission_schema rnd db)"
  unfolding ensure_admission_schema_def by (intro interruptible_intros)

lemma admit_body_interruptible:
  "interruptible sc_interrupts (admit_selection_body to_vec from_slice rnd sel db)"
  unfolding admit_selection_body_def Let_def
  by (intro interruptible_intros admit_charge_polls)

lemma ensure_schema_Inr:
  assumes "ensure_admission_schema rnd db [] = Inr (db1, env)" "control_ok db" "rnd_ok rnd"
  shows "env = [] \<and> control_ok db1 \<and> \<not> fresh_control db1 \<and> sources_of db1 = sources_of db \<and>
    (\<forall>k. is_selection_key k \<longrightarrow> st_of db1 k = st_of db k) \<and> wanted_of db1 = wanted_of db \<and>
    (\<forall>k. preps_of db1 k = preps_of db k) \<and> (fresh_control db \<or> st_of db1 NAMESPACE_KEY = st_of db NAMESPACE_KEY)"
proof (cases "fresh_control db")
  case False
  then have d: "db1 = ensure SOURCE_STATE db" "env = []"
    using assms(1,2) by (auto simp: ensure_admission_schema_def split: if_splits)
  obtain ns where i: "current_schema db" "sources_inv ns db" using assms(2) False by (auto simp: control_ok_def)
  have "db1 = db" using current_tables [OF i(1), of SOURCE_STATE] by (simp add: d ensure_def)
  then show ?thesis using assms(2) False d by simp
next
  case True
  have ok: "db_ok db" using assms(2) by (rule control_db_ok)
  obtain ns where d: "db1 = ensure SOURCE_LOCATORS (ensure SOURCE_ROWS (put_in SOURCE_STATE NAMESPACE_KEY ns
      (put_in SOURCE_STATE SCHEMA_VERSION_KEY SOURCE_SCHEMA_VERSION (ensure SOURCE_STATE db))))"
    and r: "rnd = Some ns" "env = []"
    using assms(1,2) True by (auto simp: ensure_admission_schema_def random_id_def res_simps)
  have empty: "the_table db SOURCE_STATE = []" "the_table db SOURCE_ROWS = []"
      "the_table db SOURCE_LOCATORS = []" "the_table db PREPARATIONS = []"
    using fresh_empty [OF True] by simp_all
  have st: "st_of db1 k = (if k = NAMESPACE_KEY then Some ns else if k = SCHEMA_VERSION_KEY then Some SOURCE_SCHEMA_VERSION else None)" for k
    using empty by (simp add: d the_table_put_in tb.get_put tb.ok_put del: tbl_put.simps)
  have others: "the_table db1 SOURCE_ROWS = []" "the_table db1 SOURCE_LOCATORS = []"
      "the_table db1 PREPARATIONS = []"
    using empty by (simp_all add: d the_table_put_in)
  have inv: "sources_inv ns db1"
    using st others assms(3) r by (auto simp: sources_inv_def rnd_ok_def)
  have "set (list_tables db1) = set (list_tables db) \<union> {SOURCE_STATE, SOURCE_ROWS, SOURCE_LOCATORS}"
    by (auto simp: d)
  then have cur: "current_schema db1" using current_schema_add True by blast
  have nf: "\<not> fresh_control db1" using inv fresh_empty [of db1 SOURCE_STATE] by (auto simp: sources_inv_def)
  have "control_ok db1" using inv cur ok assms(2) by (auto simp: control_ok_def d)
  moreover have "sources_of db1 = sources_of db" using others empty by (auto simp: sources_of_def)
  moreover have "wanted_of db1 = wanted_of db" by (rule wanted_of_cong) (simp add: st empty)
  ultimately show ?thesis using nf r st empty others True by auto
qed

lemma put_selection_ok:
  fixes loc bs :: bytes
  assumes "control_ok db" "\<not> fresh_control db"
  defines "w \<equiv> put_in SOURCE_STATE (selection_key loc) bs (ensure SOURCE_STATE db)"
  shows "control_ok w \<and> sources_of w = sources_of db \<and>
    (\<forall>k. st_of w k = (if k = selection_key loc then Some bs else st_of db k)) \<and> wanted_of w = wanted_of db \<and>
    (\<forall>k. preps_of w k = preps_of db k)"
proof -
  have ok: "db_ok db" using assms(1) by (rule control_db_ok)
  obtain ns where i: "current_schema db" "sources_inv ns db" using assms(1,2) by (auto simp: control_ok_def)
  have st: "st_of w k = (if k = selection_key loc then Some bs else st_of db k)" for k
    using ok by (simp add: w_def the_table_put_in tb.get_put)
  have t: "the_table w n = the_table db n" if "n \<noteq> SOURCE_STATE" for n
    using that by (simp add: w_def the_table_put_in)
  have "sources_inv ns w" using i(2) st t by (simp add: sources_inv_def row_ok_def locator_ok_def)
  moreover have "set (list_tables w) = set (list_tables db)"
    using i(1) by (auto simp: w_def current_schema_def)
  then have "current_schema w" using i(1) by (simp add: current_schema_def)
  ultimately have "control_ok w" using ok assms(1) by (auto simp: control_ok_def w_def)
  moreover have "sources_of w = sources_of db" by (rule ext) (simp add: sources_of_def t)
  ultimately show ?thesis using st t by (simp add: wanted_of_def)
qed

lemma w_insert_val: "w_insert e n k v db env = Inr (db', env') \<Longrightarrow> db' = put_in n k v db"
  by (auto simp: w_insert_def put_in_def res_simps)

lemma admit_body_Inr:
  assumes "admit_selection_body to_vec from_slice rnd sel db [] = Inr (w, env)" "control_ok db" "rnd_ok rnd"
  shows "source_locator_bytes (as_path sel) = Inr (as_path sel) \<and>
    (case w of None \<Rightarrow> selection_of from_slice db (as_path sel) = Some sel
     | Some work \<Rightarrow> control_ok work \<and> sources_of work = sources_of db \<and>
        (\<exists>bs. to_vec \<lparr>ss_version = 1, ss_locator = as_path sel, ss_kind = as_kind sel\<rparr> = Some bs \<and>
          (\<forall>k. is_selection_key k \<longrightarrow> st_of work k = (if k = selection_key (as_path sel) then Some bs else st_of db k))) \<and>
        wanted_of work = wanted_of db \<and> (\<forall>k. preps_of work k = preps_of db k) \<and>
        (fresh_control db \<or> st_of work NAMESPACE_KEY = st_of db NAMESPACE_KEY))"
proof -
  obtain loc bs db1 env1 where l: "source_locator_bytes (as_path sel) = Inr loc"
    and v: "to_vec \<lparr>ss_version = 1, ss_locator = loc, ss_kind = as_kind sel\<rparr> = Some bs"
    and e: "ensure_admission_schema rnd db [] = Inr (db1, env1)"
    using assms(1) by (auto simp: admit_selection_body_def Let_def res_simps)
  have loc: "loc = as_path sel" using l by (auto simp: source_locator_bytes_def split: if_splits)
  note E = ensure_schema_Inr [OF e assms(2,3)]
  let ?key = "selection_key loc"
  consider (same) x where "w = None" "st_of db1 ?key = Some x" "decode_selection from_slice ?key x = Inr sel"
    | (put) "w = Some (put_in SOURCE_STATE ?key bs (ensure SOURCE_STATE db1))"
    using assms(1) l v e E
    by (auto simp: admit_selection_body_def Let_def res_simps split: if_splits option.splits
        dest!: w_insert_val)
  then show ?thesis
  proof cases
    case same
    then show ?thesis using E l loc by (auto simp: selection_of_def)
  next
    case put
    then show ?thesis using put_selection_ok [of db1 loc bs] E l v loc by auto
  qed
qed

lemma admit_body_keeps:
  assumes "admit_selection_body to_vec from_slice rnd sel db [] = Inr (Some work, env)" "control_ok db" "rnd_ok rnd"
  shows "keeps_pub db work"
proof -
  obtain loc bs db1 env1 where l: "source_locator_bytes (as_path sel) = Inr loc"
    and v: "to_vec \<lparr>ss_version = 1, ss_locator = loc, ss_kind = as_kind sel\<rparr> = Some bs"
    and e: "ensure_admission_schema rnd db [] = Inr (db1, env1)"
    using assms(1) by (auto simp: admit_selection_body_def Let_def res_simps)
  have "keeps_pub db db1"
    using e assms(2) by (auto simp: ensure_admission_schema_def res_simps split: if_splits)
  moreover have "work = put_in SOURCE_STATE (selection_key loc) bs (ensure SOURCE_STATE db1)"
    using assms(1) l v e ensure_schema_Inr [OF e assms(2,3)]
    by (auto simp: admit_selection_body_def Let_def res_simps split: if_splits option.splits dest!: w_insert_val)
  ultimately show ?thesis by simp
qed

text \<open>
  Admitting a selection records exactly it: when \<open>admit_selection\<close> succeeds, the desired
  selection of its path is the admitted one, the desired selections of all other paths and the
  registered sources are unchanged, and the database stays consistent in every outcome. The
  only assumption on the JSON library is that it reads back what it wrote.
\<close>

theorem admit_selection_records:
  assumes "admit_selection to_vec from_slice rnd sel db env = (res, db')" "control_ok db" "rnd_ok rnd"
    and json: "\<And>s bs. to_vec s = Some bs \<Longrightarrow> from_slice bs = Some s"
  shows "control_ok db' \<and> sources_of db' = sources_of db \<and>
    (res = Inr () \<longrightarrow> selection_of from_slice db' (as_path sel) = Some sel \<and>
       (\<forall>p. p \<noteq> as_path sel \<longrightarrow> selection_of from_slice db' p = selection_of from_slice db p))"
proof (cases "admit_selection_body to_vec from_slice rnd sel db env")
  case (Inl e)
  then show ?thesis using assms by (auto simp: admit_selection_def)
next
  case (Inr p)
  obtain w env1 where p: "p = (w, env1)" by (cases p)
  have q: "admit_selection_body to_vec from_slice rnd sel db [] = Inr (w, [])"
    using interruptible_Inr [OF admit_body_interruptible] Inr p by blast
  note A = admit_body_Inr [OF q assms(2,3)]
  show ?thesis
  proof (cases w)
    case None
    then show ?thesis using assms(1,2) Inr p A by (auto simp: admit_selection_def)
  next
    case (Some work)
    obtain ok db1 env2 where c: "w_commit work db env1 = ((ok, db1), env2)" by (metis surj_pair)
    have r: "db' = db1" "res = (if ok then Inr () else Inl Database)"
      using assms(1) Inr p Some c by (auto simp: admit_selection_def)
    obtain bs where v: "to_vec \<lparr>ss_version = 1, ss_locator = as_path sel, ss_kind = as_kind sel\<rparr> = Some bs"
      and s: "\<And>k. is_selection_key k \<Longrightarrow> st_of work k = (if k = selection_key (as_path sel) then Some bs else st_of db k)"
      and ok1: "control_ok work" "sources_of work = sources_of db"
      and l: "source_locator_bytes (as_path sel) = Inr (as_path sel)"
      using A Some by auto
    have "decode_selection from_slice (selection_key (as_path sel)) bs = Inr sel"
      using json [OF v] l
      by (auto simp: decode_selection_def source_path_from_locator_def source_locator_bytes_def split: if_splits)
    then have "selection_of from_slice work (as_path sel) = Some sel" using s by (simp add: selection_of_def)
    moreover have "selection_of from_slice work p' = selection_of from_slice db p'"
      if "p' \<noteq> as_path sel" for p'
      using s that by (simp add: selection_of_def)
    ultimately show ?thesis using r w_commit_cases [OF c] ok1 assms(2) by auto
  qed
qed

end
