(* ===== verification/Preparation.thy ===== *)
theory Preparation
  imports SourceControl
begin

text \<open>
  Preparation settings and outcomes of the control database (crate
  \<open>search-control-redb\<close>, \<open>current_preparation.rs\<close>): the row codec, the read view, the
  selection of settings and the conditional installation of an outcome.
\<close>

section \<open>Model: rows\<close>

datatype PreparationGap =
  GapBinaryContent | GapInvalidUtf8 | GapInputTooLarge | GapOutputTooLarge | GapTooManyLines
| GapTooManyUnits | GapUnitTooLarge | GapEncodedTooLarge

fun gap_code :: "PreparationGap \<Rightarrow> string" where
  "gap_code GapBinaryContent = ''binary_content''"
| "gap_code GapInvalidUtf8 = ''invalid_utf8''"
| "gap_code GapInputTooLarge = ''input_too_large''"
| "gap_code GapOutputTooLarge = ''output_too_large''"
| "gap_code GapTooManyLines = ''too_many_lines''"
| "gap_code GapTooManyUnits = ''too_many_units''"
| "gap_code GapUnitTooLarge = ''unit_too_large''"
| "gap_code GapEncodedTooLarge = ''encoded_too_large''"

fun gap_tag :: "PreparationGap \<Rightarrow> byte" where
  "gap_tag GapBinaryContent = 1"
| "gap_tag GapInvalidUtf8 = 2"
| "gap_tag GapInputTooLarge = 3"
| "gap_tag GapOutputTooLarge = 4"
| "gap_tag GapTooManyLines = 5"
| "gap_tag GapTooManyUnits = 6"
| "gap_tag GapUnitTooLarge = 7"
| "gap_tag GapEncodedTooLarge = 8"

definition gap_from_tag :: "byte \<Rightarrow> PreparationGap option" where
  "gap_from_tag t =
     (if t = 1 then Some GapBinaryContent else if t = 2 then Some GapInvalidUtf8
      else if t = 3 then Some GapInputTooLarge else if t = 4 then Some GapOutputTooLarge
      else if t = 5 then Some GapTooManyLines else if t = 6 then Some GapTooManyUnits
      else if t = 7 then Some GapUnitTooLarge else if t = 8 then Some GapEncodedTooLarge
      else None)"

datatype PreparationOutcome = Ready (artifact: ObjectRef) | Gap (reason: PreparationGap)

record BoundPreparationOutcome =
  bo_source_row_revision :: nat
  bo_registration_revision :: nat
  bo_input :: ObjectRef
  bo_settings :: PreparationSettings
  bo_result :: PreparationOutcome

definition matches_input :: "BoundPreparationOutcome \<Rightarrow> CurrentSourceRecord \<Rightarrow> PreparationSettings \<Rightarrow> bool" where
  "matches_input out source settings \<longleftrightarrow>
     (bo_registration_revision out, bo_input out, bo_settings out) =
     (registration_revision source, object_ref source, settings)"

record CurrentPreparation =
  cp_namespace_id :: bytes
  cp_source_id :: bytes
  cp_settings_revision :: nat
  cp_settings :: PreparationSettings
  cp_outcome_revision :: nat
  cp_outcome :: "BoundPreparationOutcome option"

record PreparationCapture =
  pc_source :: CurrentSourceRecord
  pc_settings :: PreparationSettings
  pc_settings_revision :: nat
  pc_expected_outcome_revision :: nat
  pc_expected_outcome :: "BoundPreparationOutcome option"

datatype PreparationControlError =
  NotRetained | NotSelected | InvalidSettings | UnsupportedSchema | Corrupt | Stale | Database
| RevisionExhausted | InvalidOutcome | Deadline | Cancelled

fun preparation_control_code :: "PreparationControlError \<Rightarrow> string" where
  "preparation_control_code NotRetained = ''PREPARATION_SOURCE_NOT_RETAINED''"
| "preparation_control_code NotSelected = ''PREPARATION_NOT_SELECTED''"
| "preparation_control_code InvalidSettings = ''PREPARATION_SETTINGS_INVALID''"
| "preparation_control_code UnsupportedSchema = ''PREPARATION_SCHEMA_UNSUPPORTED''"
| "preparation_control_code Corrupt = ''PREPARATION_CONTROL_CORRUPT''"
| "preparation_control_code Stale = ''PREPARATION_STALE''"
| "preparation_control_code Database = ''PREPARATION_CONTROL_IO''"
| "preparation_control_code RevisionExhausted = ''PREPARATION_REVISION_EXHAUSTED''"
| "preparation_control_code InvalidOutcome = ''PREPARATION_OUTCOME_INVALID''"
| "preparation_control_code Deadline = ''PREPARATION_DEADLINE''"
| "preparation_control_code Cancelled = ''PREPARATION_CANCELLED''"

definition pc_check :: "env \<Rightarrow> PreparationControlError + env" where
  "pc_check = check_with Cancelled Deadline"

definition pc_io :: "env \<Rightarrow> PreparationControlError + env" where
  "pc_io = io_with Database"

definition source_error :: "SourceControlError \<Rightarrow> PreparationControlError" where
  "source_error e =
     (if e = SourceControlError.UnsupportedSchema then UnsupportedSchema
      else if e = SourceControlError.Corrupt then Corrupt else Database)"

section \<open>Model: the codec\<close>

definition put_settings :: "PreparationSettings \<Rightarrow> bytes" where
  "put_settings s = le_bytes 2 (utf8_version s) @ le_bytes 2 (line_unitizer_version s) @
     le_bytes 4 (preferred_unit_bytes s) @ le_bytes 4 (max_unit_bytes s)"

definition put_object :: "ObjectRef \<Rightarrow> bytes" where
  "put_object o' = le_bytes 2 (format_version o') @ [kind_tag (obj_kind o')] @ digest o' @
     le_bytes 8 (byte_length o')"

definition valid_object :: "ObjectRef \<Rightarrow> ObjectKind \<Rightarrow> bool" where
  "valid_object o' kind \<longleftrightarrow> obj_kind o' = kind \<and> format_version o' = SOURCE_OBJECT_FORMAT_VERSION \<and>
     (kind \<noteq> Source \<or> byte_length o' \<le> MAX_SOURCE_OBJECT_BYTES) \<and>
     (kind \<noteq> Prepared \<or> 0 < byte_length o')"

definition prep_validate :: "CurrentPreparation \<Rightarrow> PreparationControlError + unit" where
  "prep_validate row =
     (if cp_settings_revision row = 0 \<or> \<not> is_supported (cp_settings row) then Inl Corrupt
      else case cp_outcome row of
        None \<Rightarrow> Inr ()
      | Some out \<Rightarrow>
          if cp_outcome_revision row = 0 \<or> bo_source_row_revision out = 0
             \<or> bo_registration_revision out = 0 \<or> \<not> is_supported (bo_settings out)
             \<or> \<not> valid_object (bo_input out) Source
          then Inl Corrupt
          else (case bo_result out of
              Ready art \<Rightarrow> if \<not> valid_object art Prepared then Inl InvalidOutcome else Inr ()
            | Gap _ \<Rightarrow> Inr ()))"

definition prep_encode :: "CurrentPreparation \<Rightarrow> PreparationControlError + bytes" where
  "prep_encode row =
     bindE (prep_validate row) (\<lambda>_.
       let head = [1] @ cp_namespace_id row @ cp_source_id row @ le_bytes 8 (cp_settings_revision row) @
             put_settings (cp_settings row) @ le_bytes 8 (cp_outcome_revision row) in
       case cp_outcome row of
         None \<Rightarrow> Inr (head @ [0])
       | Some out \<Rightarrow>
           Inr (head @ [case bo_result out of Ready _ \<Rightarrow> 1 | Gap _ \<Rightarrow> 2] @
             le_bytes 8 (bo_source_row_revision out) @ le_bytes 8 (bo_registration_revision out) @
             put_object (bo_input out) @ put_settings (bo_settings out) @
             (case bo_result out of Ready art \<Rightarrow> put_object art | Gap r \<Rightarrow> [gap_tag r])))"

definition pc_take :: "nat \<Rightarrow> reader \<Rightarrow> PreparationControlError + bytes \<times> reader" where
  "pc_take = rd_take Corrupt Corrupt"

definition pc_uint :: "nat \<Rightarrow> reader \<Rightarrow> PreparationControlError + nat \<times> reader" where
  "pc_uint k = rd_le pc_take k"

definition pc_byte :: "reader \<Rightarrow> PreparationControlError + byte \<times> reader" where
  "pc_byte r = bindE (pc_take 1 r) (\<lambda>(b, r). Inr (b ! 0, r))"

definition get_settings :: "reader \<Rightarrow> PreparationControlError + PreparationSettings \<times> reader" where
  "get_settings r =
     bindE (pc_uint 2 r) (\<lambda>(u, r). bindE (pc_uint 2 r) (\<lambda>(l, r).
     bindE (pc_uint 4 r) (\<lambda>(p, r). bindE (pc_uint 4 r) (\<lambda>(m, r).
     Inr (\<lparr>utf8_version = u, line_unitizer_version = l, preferred_unit_bytes = p,
           max_unit_bytes = m\<rparr>, r)))))"

definition get_object :: "reader \<Rightarrow> PreparationControlError + ObjectRef \<times> reader" where
  "get_object r =
     bindE (pc_uint 2 r) (\<lambda>(f, r). bindE (pc_byte r) (\<lambda>(t, r).
     bindE (ok_or Corrupt (kind_from_tag t)) (\<lambda>k.
     bindE (pc_take 32 r) (\<lambda>(d, r). bindE (pc_uint 8 r) (\<lambda>(n, r).
     Inr (\<lparr>format_version = f, obj_kind = k, digest = d, byte_length = n\<rparr>, r))))))"

definition get_result :: "byte \<Rightarrow> reader \<Rightarrow> PreparationControlError + PreparationOutcome \<times> reader" where
  "get_result tag r =
     (if tag = 1 then bindE (get_object r) (\<lambda>(art, r). Inr (Ready art, r))
      else if tag = 2 then bindE (pc_byte r) (\<lambda>(t, r).
        bindE (ok_or Corrupt (gap_from_tag t)) (\<lambda>g. Inr (Gap g, r)))
      else Inl Corrupt)"

definition get_outcome ::
  "byte \<Rightarrow> reader \<Rightarrow> PreparationControlError + BoundPreparationOutcome option \<times> reader" where
  "get_outcome tag r =
     (if tag = 0 then Inr (None, r)
      else
        bindE (pc_uint 8 r) (\<lambda>(row, r). bindE (pc_uint 8 r) (\<lambda>(reg, r).
        bindE (get_object r) (\<lambda>(inp, r). bindE (get_settings r) (\<lambda>(s, r).
        bindE (get_result tag r) (\<lambda>(res, r).
        Inr (Some \<lparr>bo_source_row_revision = row, bo_registration_revision = reg, bo_input = inp,
               bo_settings = s, bo_result = res\<rparr>, r)))))))"

definition prep_decode :: "bytes \<Rightarrow> PreparationControlError + CurrentPreparation" where
  "prep_decode bs =
     bindE (pc_byte (bs, 0)) (\<lambda>(v, r).
     if v \<noteq> 1 then Inl UnsupportedSchema
     else
       bindE (pc_take 16 r) (\<lambda>(ns, r). bindE (pc_take 16 r) (\<lambda>(sid, r).
       bindE (pc_uint 8 r) (\<lambda>(srev, r). bindE (get_settings r) (\<lambda>(s, r).
       bindE (pc_uint 8 r) (\<lambda>(orev, r). bindE (pc_byte r) (\<lambda>(tag, r).
       bindE (get_outcome tag r) (\<lambda>(out, r).
       if fst r \<noteq> [] then Inl Corrupt
       else
         (let row = \<lparr>cp_namespace_id = ns, cp_source_id = sid, cp_settings_revision = srev,
                cp_settings = s, cp_outcome_revision = orev, cp_outcome = out\<rparr> in
          bindE (prep_validate row) (\<lambda>_. Inr row))))))))))"

section \<open>Model: reading\<close>

definition read_database ::
  "Database \<Rightarrow> bytes \<Rightarrow> env \<Rightarrow>
   PreparationControlError + (CurrentSourceRecord \<times> CurrentPreparation option) \<times> env" where
  "read_database db sid env =
     bindE (pc_check env) (\<lambda>env.
     bindE (pc_io env) (\<lambda>env. bindE (pc_io env) (\<lambda>env. bindE (pc_io env) (\<lambda>env.
     bindE (mapErr source_error (catalogue_names (list_tables db) (db_multimaps db \<noteq> []))) (\<lambda>present.
     if \<not> present then Inl NotRetained
     else
       bindE (mapErr source_error (read_source_by_id db sid env)) (\<lambda>(source, env).
       bindE (ok_or NotRetained source) (\<lambda>source.
       bindE (mapErr source_error (read_namespace db env)) (\<lambda>(ns, env).
       bindE (ok_or Corrupt ns) (\<lambda>ns.
       if ns \<noteq> source_namespace_id source then Inl Corrupt
       else
         bindE (pc_io env) (\<lambda>env.
         bindE (case get_table db PREPARATIONS of
             None \<Rightarrow> Inr (None, env)
           | Some t \<Rightarrow> bindE (r_get Database t sid env) (\<lambda>(v, env).
               case v of None \<Rightarrow> Inr (None, env)
               | Some bs \<Rightarrow> bindE (prep_decode bs) (\<lambda>row. Inr (Some row, env)))) (\<lambda>(row, env).
         if (case row of None \<Rightarrow> False | Some r \<Rightarrow> cp_source_id r \<noteq> sid \<or> cp_namespace_id r \<noteq> ns)
         then Inl Corrupt
         else bindE (pc_check env) (\<lambda>env. Inr ((source, row), env)))))))))))))"

definition capture_view ::
  "CurrentSourceRecord \<Rightarrow> CurrentPreparation option \<Rightarrow> PreparationControlError + PreparationCapture" where
  "capture_view source row =
     bindE (ok_or NotSelected row) (\<lambda>row.
     Inr \<lparr>pc_source = source, pc_settings = cp_settings row, pc_settings_revision = cp_settings_revision row,
          pc_expected_outcome_revision = cp_outcome_revision row, pc_expected_outcome = cp_outcome row\<rparr>)"

definition writer_capture_preparation ::
  "Database \<Rightarrow> bytes \<Rightarrow> env \<Rightarrow> PreparationControlError + PreparationCapture \<times> env" where
  "writer_capture_preparation db sid env =
     bindE (read_database db sid env) (\<lambda>((source, row), env).
     bindE (capture_view source row) (\<lambda>c. Inr (c, env)))"

section \<open>Model: writing\<close>

definition write_source ::
  "bytes \<Rightarrow> Database \<Rightarrow> env \<Rightarrow> PreparationControlError + (CurrentSourceRecord \<times> Database) \<times> env" where
  "write_source sid db env =
     bindE (w_open Database SOURCE_STATE db env) (\<lambda>(db, env).
     bindE (w_get Database SOURCE_STATE SCHEMA_VERSION_KEY db env) (\<lambda>(version, env).
     bindE (ok_or Corrupt version) (\<lambda>version.
     if version \<noteq> SOURCE_SCHEMA_VERSION then Inl UnsupportedSchema
     else
       bindE (w_get Database SOURCE_STATE NAMESPACE_KEY db env) (\<lambda>(ns, env).
       bindE (ok_or Corrupt ns) (\<lambda>ns.
       bindE (w_open Database SOURCE_ROWS db env) (\<lambda>(db, env).
       bindE (w_get Database SOURCE_ROWS sid db env) (\<lambda>(v, env).
       bindE (ok_or NotRetained v) (\<lambda>v.
       bindE (mapErr source_error (decode_record v)) (\<lambda>source.
       if source_id source \<noteq> sid \<or> source_namespace_id source \<noteq> ns then Inl Corrupt
       else Inr ((source, db), env))))))))))"

definition find_row ::
  "bytes \<Rightarrow> Database \<Rightarrow> env \<Rightarrow> PreparationControlError + CurrentPreparation option \<times> env" where
  "find_row sid db env =
     bindE (w_get Database PREPARATIONS sid db env) (\<lambda>(v, env).
     case v of None \<Rightarrow> Inr (None, env)
     | Some bs \<Rightarrow> bindE (prep_decode bs) (\<lambda>row. Inr (Some row, env)))"

definition write_settings ::
  "bytes \<Rightarrow> PreparationSettings \<Rightarrow> CurrentSourceRecord \<Rightarrow> CurrentPreparation option \<Rightarrow> Database \<Rightarrow> env \<Rightarrow>
   PreparationControlError + (Database \<times> CurrentPreparation) \<times> env" where
  "write_settings sid settings source previous db env =
     bindE (pc_io env) (\<lambda>env.
     bindE (write_source sid db env) (\<lambda>((current, db), env).
     if source_namespace_id current \<noteq> source_namespace_id source
        \<or> registration_revision current \<noteq> registration_revision source
     then Inl Stale
     else
       bindE (w_open Database PREPARATIONS db env) (\<lambda>(db, env).
       bindE (find_row sid db env) (\<lambda>(found, env).
       if found \<noteq> previous then Inl Stale
       else
         bindE (case found of
             Some row \<Rightarrow> bindE (ok_or RevisionExhausted (checked_add64 (cp_settings_revision row) 1)) (\<lambda>n.
               Inr (row\<lparr>cp_settings_revision := n, cp_settings := settings\<rparr>))
           | None \<Rightarrow> Inr \<lparr>cp_namespace_id = source_namespace_id source, cp_source_id = sid,
               cp_settings_revision = 1, cp_settings = settings, cp_outcome_revision = 0,
               cp_outcome = None\<rparr>) (\<lambda>row.
         bindE (prep_encode row) (\<lambda>bs.
         bindE (w_insert Database PREPARATIONS sid bs db env) (\<lambda>(db, env).
         bindE (mapErr source_error (advance_wanted_revision db env)) (\<lambda>(db, env).
         Inr ((db, row), env)))))))))"

text \<open>
  The operations on a database path open the database themselves (\<open>read_view\<close>,
  \<open>finish_commit\<close>, \<open>select_settings\<close>) and, after a failed commit, read the row back to
  learn whether it was kept; those on an open database report a failed commit as a database
  error.
\<close>

definition read_view ::
  "Database \<Rightarrow> bytes \<Rightarrow> env \<Rightarrow>
   PreparationControlError + (CurrentSourceRecord \<times> CurrentPreparation option) \<times> env" where
  "read_view db sid env =
     bindE (pc_check env) (\<lambda>env.
     bindE (pc_io env) (\<lambda>env.
     bindE (read_database db sid env) (\<lambda>(observed, env).
     bindE (pc_io env) (\<lambda>env. Inr (observed, env)))))"

definition finish_commit ::
  "Database \<Rightarrow> Database \<Rightarrow> CurrentPreparation \<Rightarrow> env \<Rightarrow>
   (PreparationControlError + CurrentPreparation) \<times> Database" where
  "finish_commit work db proposed env =
     (case pc_check env of
        Inl e \<Rightarrow> (Inl e, db)
      | Inr env \<Rightarrow> (case w_commit work db env of
          ((ok, db'), env) \<Rightarrow>
            (if ok then Inr proposed
             else bindE (read_view db' (cp_source_id proposed) env) (\<lambda>((_, observed), env).
               if observed = Some proposed then Inr proposed else Inl Stale), db')))"

definition select_settings ::
  "Database \<Rightarrow> bytes \<Rightarrow> PreparationSettings \<Rightarrow> bool \<Rightarrow> env \<Rightarrow>
   (PreparationControlError + CurrentPreparation) \<times> Database" where
  "select_settings db sid settings initialize_only env =
     (if \<not> is_supported settings then (Inl InvalidSettings, db)
      else case read_view db sid env of
        Inl e \<Rightarrow> (Inl e, db)
      | Inr ((source, previous), env) \<Rightarrow>
          (case (if (case previous of None \<Rightarrow> False
                     | Some row \<Rightarrow> initialize_only \<or> cp_settings row = settings)
                 then previous else None) of
             Some row \<Rightarrow> (Inr row, db)
           | None \<Rightarrow> (case bindE (pc_io env) (write_settings sid settings source previous db) of
               Inl e \<Rightarrow> (Inl e, db)
             | Inr ((work, row), env) \<Rightarrow> finish_commit work db row env)))"

definition ensure_preparation_settings ::
  "Database \<Rightarrow> bytes \<Rightarrow> env \<Rightarrow> (PreparationControlError + CurrentPreparation) \<times> Database" where
  "ensure_preparation_settings db sid env =
     (case read_view db sid env of
        Inl e \<Rightarrow> (Inl e, db)
      | Inr ((_, row), env) \<Rightarrow>
          (case row of None \<Rightarrow> select_settings db sid default_settings True env
           | Some row \<Rightarrow> (Inr row, db)))"

definition capture_preparation ::
  "Database \<Rightarrow> bytes \<Rightarrow> env \<Rightarrow> PreparationControlError + PreparationCapture \<times> env" where
  "capture_preparation db sid env =
     bindE (read_view db sid env) (\<lambda>((source, row), env).
     bindE (capture_view source row) (\<lambda>c. Inr (c, env)))"

definition finish_borrowed_commit ::
  "Database \<Rightarrow> Database \<Rightarrow> CurrentPreparation \<Rightarrow> env \<Rightarrow>
   (PreparationControlError + CurrentPreparation) \<times> Database" where
  "finish_borrowed_commit work db proposed env =
     (case pc_check env of
        Inl e \<Rightarrow> (Inl e, db)
      | Inr env \<Rightarrow> (case w_commit work db env of
          ((ok, db'), _) \<Rightarrow> (if ok then Inr proposed else Inl Database, db')))"

definition select_settings_on ::
  "Database \<Rightarrow> bytes \<Rightarrow> PreparationSettings \<Rightarrow> bool \<Rightarrow> env \<Rightarrow>
   (PreparationControlError + CurrentPreparation) \<times> Database" where
  "select_settings_on db sid settings initialize_only env =
     (if \<not> is_supported settings then (Inl InvalidSettings, db)
      else case read_database db sid env of
        Inl e \<Rightarrow> (Inl e, db)
      | Inr ((source, previous), env) \<Rightarrow>
          (case (if (case previous of None \<Rightarrow> False
                     | Some row \<Rightarrow> initialize_only \<or> cp_settings row = settings)
                 then previous else None) of
             Some row \<Rightarrow> (Inr row, db)
           | None \<Rightarrow> (case write_settings sid settings source previous db env of
               Inl e \<Rightarrow> (Inl e, db)
             | Inr ((work, row), env) \<Rightarrow> finish_borrowed_commit work db row env)))"

definition writer_ensure_preparation_settings ::
  "Database \<Rightarrow> bytes \<Rightarrow> env \<Rightarrow> (PreparationControlError + CurrentPreparation) \<times> Database" where
  "writer_ensure_preparation_settings db sid env = select_settings_on db sid default_settings True env"

definition check_outcome :: "PreparationOutcome \<Rightarrow> env \<Rightarrow> PreparationControlError + env" where
  "check_outcome result env =
     bindE (pc_check env) (\<lambda>env.
     case result of
       Ready art \<Rightarrow> if \<not> valid_object art Prepared then Inl InvalidOutcome else Inr env
     | Gap _ \<Rightarrow> Inr env)"

definition is_ready :: "PreparationOutcome \<Rightarrow> bool" where
  "is_ready r \<longleftrightarrow> (case r of Ready _ \<Rightarrow> True | Gap _ \<Rightarrow> False)"

definition write_outcome ::
  "PreparationCapture \<Rightarrow> PreparationOutcome \<Rightarrow> Database \<Rightarrow> env \<Rightarrow>
   PreparationControlError + (Database option \<times> CurrentPreparation) \<times> env" where
  "write_outcome capture result db env =
     bindE (pc_io env) (\<lambda>env.
     bindE (write_source (source_id (pc_source capture)) db env) (\<lambda>((source, db), env).
     if source \<noteq> pc_source capture then Inl Stale
     else
       bindE (w_open Database PREPARATIONS db env) (\<lambda>(db, env).
       bindE (w_get Database PREPARATIONS (source_id source) db env) (\<lambda>(v, env).
       bindE (ok_or Stale v) (\<lambda>v.
       bindE (prep_decode v) (\<lambda>row.
       if cp_namespace_id row \<noteq> source_namespace_id source \<or> cp_source_id row \<noteq> source_id source
          \<or> cp_settings_revision row \<noteq> pc_settings_revision capture
          \<or> cp_settings row \<noteq> pc_settings capture
          \<or> (cp_outcome_revision row, cp_outcome row) \<noteq>
             (pc_expected_outcome_revision capture, pc_expected_outcome capture)
       then Inl Stale
       else if \<not> is_ready result \<and> (case cp_outcome row of None \<Rightarrow> False
                 | Some out \<Rightarrow> matches_input out source (pc_settings capture) \<and> is_ready (bo_result out))
       then Inr ((None, row), env)
       else
         (let outcome = \<lparr>bo_source_row_revision = row_revision source,
                bo_registration_revision = registration_revision source, bo_input = object_ref source,
                bo_settings = pc_settings capture, bo_result = result\<rparr> in
          if cp_outcome row = Some outcome then Inr ((None, row), env)
          else
            bindE (ok_or RevisionExhausted (checked_add64 (cp_outcome_revision row) 1)) (\<lambda>n.
            let row = row\<lparr>cp_outcome_revision := n, cp_outcome := Some outcome\<rparr> in
            bindE (prep_encode row) (\<lambda>bs.
            bindE (w_insert Database PREPARATIONS (source_id source) bs db env) (\<lambda>(db, env).
            bindE (mapErr source_error (advance_wanted_revision db env)) (\<lambda>(db, env).
            Inr ((Some db, row), env))))))))))))"

definition commit_preparation ::
  "Database \<Rightarrow> PreparationCapture \<Rightarrow> PreparationOutcome \<Rightarrow> env \<Rightarrow>
   (PreparationControlError + CurrentPreparation) \<times> Database" where
  "commit_preparation db capture result env =
     (case bindE (check_outcome result env) (\<lambda>env.
           bindE (pc_io env) (write_outcome capture result db)) of
        Inl e \<Rightarrow> (Inl e, db)
      | Inr ((work, row), env) \<Rightarrow>
          (case work of None \<Rightarrow> (Inr row, db)
           | Some work \<Rightarrow> finish_commit work db row env))"

definition writer_commit_preparation ::
  "Database \<Rightarrow> PreparationCapture \<Rightarrow> PreparationOutcome \<Rightarrow> env \<Rightarrow>
   (PreparationControlError + CurrentPreparation) \<times> Database" where
  "writer_commit_preparation db capture result env =
     (case bindE (check_outcome result env) (write_outcome capture result db) of
        Inl e \<Rightarrow> (Inl e, db)
      | Inr ((work, row), env) \<Rightarrow>
          (case work of None \<Rightarrow> (Inr row, db)
           | Some work \<Rightarrow> finish_borrowed_commit work db row env))"

end
