(* ===== verification/PreparationLaws.thy ===== *)
theory PreparationLaws
  imports SourceLaws Preparation
begin

text \<open>
  Laws of preparation rows: the codec (an instance of \<open>codec\<close>), interruption, and the
  uninterrupted reads and writes.
\<close>

section \<open>The row codec\<close>

fun wf_outcome :: "PreparationOutcome \<Rightarrow> bool" where
  "wf_outcome (Ready art) \<longleftrightarrow> wf_object art"
| "wf_outcome (Gap g) \<longleftrightarrow> True"

definition wf_bound :: "BoundPreparationOutcome \<Rightarrow> bool" where
  "wf_bound b \<longleftrightarrow> bo_source_row_revision b < u64_bound \<and> bo_registration_revision b < u64_bound \<and>
     wf_object (bo_input b) \<and> wf_settings (bo_settings b) \<and> wf_outcome (bo_result b)"

definition storable_prep :: "CurrentPreparation \<Rightarrow> bool" where
  "storable_prep row \<longleftrightarrow> length (cp_namespace_id row) = 16 \<and> length (cp_source_id row) = 16 \<and>
     cp_settings_revision row < u64_bound \<and> wf_settings (cp_settings row) \<and>
     cp_outcome_revision row < u64_bound \<and> (\<forall>b. cp_outcome row = Some b \<longrightarrow> wf_bound b)"

lemma pc_take_app [codec_simps]:
  "length c = n \<Longrightarrow> pos + n < u64_bound \<Longrightarrow> pc_take n (c @ rest, pos) = Inr (c, (rest, pos + n))"
  unfolding pc_take_def by (rule rd.rtake_app)

lemma pc_uint_app [codec_simps]:
  "v < 256 ^ k \<Longrightarrow> pos + k < u64_bound \<Longrightarrow> pc_uint k (le_bytes k v @ rest, pos) = Inr (v, (rest, pos + k))"
  unfolding pc_uint_def pc_take_def by (rule rd.rtake_word)

lemma pc_byte_app [codec_simps]:
  "pos + 1 < u64_bound \<Longrightarrow> pc_byte (b # rest, pos) = Inr (b, (rest, pos + 1))"
  using pc_take_app [of "[b]" 1 pos rest] by (simp add: pc_byte_def)

lemma pc_take_Inr: "pc_take n r = Inr (c, r') \<Longrightarrow> length c = n \<and> fst r = c @ fst r'"
  unfolding pc_take_def using rd.rtake_Inr by (cases r) fastforce

lemma pc_uint_Inr: "pc_uint k r = Inr (v, r') \<Longrightarrow> v < 256 ^ k \<and> fst r = le_bytes k v @ fst r'"
  unfolding pc_uint_def pc_take_def using rd.rtake_word_Inr by (cases r) fastforce

lemma pc_byte_Inr: "pc_byte r = Inr (b, r') \<Longrightarrow> fst r = b # fst r'"
  by (auto simp: pc_byte_def res_simps length_Suc_conv dest!: pc_take_Inr)

lemma gap_from_tag_inverse [simp]: "gap_from_tag (gap_tag g) = Some g"
  by (cases g) (simp_all add: gap_from_tag_def)

lemma gap_from_tag_Some: "gap_from_tag t = Some g \<Longrightarrow> t = gap_tag g"
  by (auto simp: gap_from_tag_def split: if_splits)

lemma get_settings_app [codec_simps]:
  "wf_settings s \<Longrightarrow> pos + 12 < u64_bound \<Longrightarrow>
   get_settings (put_settings s @ rest, pos) = Inr (s, (rest, pos + 12))"
  by (simp add: get_settings_def put_settings_def wf_settings_def pc_uint_app)

lemma get_object_app [codec_simps]:
  "wf_object o' \<Longrightarrow> pos + 43 < u64_bound \<Longrightarrow>
   get_object (put_object o' @ rest, pos) = Inr (o', (rest, pos + 43))"
  by (simp add: get_object_def put_object_def wf_object_def pc_uint_app pc_take_app pc_byte_app)

lemma get_object_end [codec_simps]:
  "wf_object o' \<Longrightarrow> pos + 43 < u64_bound \<Longrightarrow> get_object (put_object o', pos) = Inr (o', ([], pos + 43))"
  using get_object_app [of o' pos "[]"] by simp

lemma get_settings_Inr:
  "get_settings r = Inr (s, r') \<Longrightarrow> wf_settings s \<and> fst r = put_settings s @ fst r'"
  by (auto simp: get_settings_def put_settings_def wf_settings_def res_simps dest!: pc_uint_Inr)

lemma get_object_Inr:
  "get_object r = Inr (o', r') \<Longrightarrow> wf_object o' \<and> fst r = put_object o' @ fst r'"
  by (auto simp: get_object_def put_object_def wf_object_def res_simps
      dest!: pc_uint_Inr pc_take_Inr pc_byte_Inr kind_from_tag_Some)

fun result_tag :: "PreparationOutcome \<Rightarrow> byte" where
  "result_tag (Ready _) = 1"
| "result_tag (Gap _) = 2"

fun put_result :: "PreparationOutcome \<Rightarrow> bytes" where
  "put_result (Ready art) = put_object art"
| "put_result (Gap g) = [gap_tag g]"

definition put_bound :: "BoundPreparationOutcome \<Rightarrow> bytes" where
  "put_bound b = le_bytes 8 (bo_source_row_revision b) @ le_bytes 8 (bo_registration_revision b) @
     put_object (bo_input b) @ put_settings (bo_settings b) @ put_result (bo_result b)"

fun put_outcome :: "BoundPreparationOutcome option \<Rightarrow> bytes" where
  "put_outcome None = [0]"
| "put_outcome (Some b) = result_tag (bo_result b) # put_bound b"

definition put_row :: "CurrentPreparation \<Rightarrow> bytes" where
  "put_row row = 1 # cp_namespace_id row @ cp_source_id row @ le_bytes 8 (cp_settings_revision row) @
     put_settings (cp_settings row) @ le_bytes 8 (cp_outcome_revision row) @ put_outcome (cp_outcome row)"

lemma prep_encode_eq: "prep_encode row = bindE (prep_validate row) (\<lambda>_. Inr (put_row row))"
  unfolding prep_encode_def put_row_def
  by (cases "cp_outcome row"; cases "bo_result (the (cp_outcome row))")
    (auto simp: put_bound_def intro!: arg_cong [where f = "bindE _"])

lemma get_result_app:
  "wf_outcome res \<Longrightarrow> pos + 43 < u64_bound \<Longrightarrow>
   \<exists>p. get_result (result_tag res) (put_result res, pos) = Inr (res, ([], p))"
  by (cases res) (auto simp: get_result_def get_object_end pc_byte_app)

lemma get_result_Inr:
  "get_result tag r = Inr (res, r') \<Longrightarrow> wf_outcome res \<and> tag = result_tag res \<and> fst r = put_result res @ fst r'"
  by (auto simp: get_result_def res_simps split: if_splits dest!: get_object_Inr pc_byte_Inr gap_from_tag_Some)

lemma get_outcome_app:
  assumes "wf_bound b" "pos + 114 < u64_bound"
  shows "\<exists>p. get_outcome (result_tag (bo_result b)) (put_bound b, pos) = Inr (Some b, ([], p))"
proof -
  have w: "bo_source_row_revision b < 256 ^ 8" "bo_registration_revision b < 256 ^ 8"
      "wf_object (bo_input b)" "wf_settings (bo_settings b)"
    using assms(1) by (simp_all add: wf_bound_def)
  obtain p where p: "get_result (result_tag (bo_result b)) (put_result (bo_result b), pos + 71) = Inr (bo_result b, ([], p))"
    using get_result_app [of "bo_result b" "pos + 71"] assms by (auto simp: wf_bound_def)
  have "result_tag (bo_result b) \<noteq> 0" by (cases "bo_result b") simp_all
  then show ?thesis using w p assms(2)
    by (simp add: get_outcome_def put_bound_def pc_uint_app get_object_app get_settings_app add.assoc)
qed

lemma get_outcome_Inr:
  assumes "get_outcome tag r = Inr (out, r')"
  shows "(\<forall>b. out = Some b \<longrightarrow> wf_bound b) \<and> tag # fst r = put_outcome out @ fst r'"
  using assms unfolding get_outcome_def
  by (auto simp: res_simps wf_bound_def put_bound_def split: if_splits
      dest!: pc_uint_Inr get_object_Inr get_settings_Inr get_result_Inr)

lemma row_eta:
  "\<lparr>cp_namespace_id = cp_namespace_id row, cp_source_id = cp_source_id row,
     cp_settings_revision = cp_settings_revision row, cp_settings = cp_settings row,
     cp_outcome_revision = cp_outcome_revision row, cp_outcome = cp_outcome row\<rparr> = row"
  by simp

lemma prep_decode_encode:
  assumes "storable_prep row" and "prep_encode row = Inr bs"
  shows "prep_decode bs = Inr row"
proof -
  have v: "prep_validate row = Inr ()" and b: "bs = put_row row"
    using assms(2) by (simp_all add: prep_encode_eq res_simps)
  have w: "length (cp_namespace_id row) = 16" "length (cp_source_id row) = 16"
      "cp_settings_revision row < 256 ^ 8" "wf_settings (cp_settings row)" "cp_outcome_revision row < 256 ^ 8"
    using assms(1) by (simp_all add: storable_prep_def)
  have out: "\<exists>p tag rest. put_outcome (cp_outcome row) = tag # rest \<and>
      get_outcome tag (rest, 62) = Inr (cp_outcome row, ([], p))"
    using assms(1) get_outcome_app [where pos = 62]
    by (cases "cp_outcome row") (auto simp: storable_prep_def get_outcome_def)
  then obtain p tag rest where "put_outcome (cp_outcome row) = tag # rest"
      "get_outcome tag (rest, 62) = Inr (cp_outcome row, ([], p))" by blast
  then show ?thesis using w v
    by (simp add: b put_row_def prep_decode_def pc_byte_app pc_take_app pc_uint_app get_settings_app
        Let_def row_eta)
qed

lemma prep_decode_Inr:
  assumes "prep_decode bs = Inr row"
  shows "storable_prep row \<and> prep_validate row = Inr () \<and> bs = put_row row"
  using assms unfolding prep_decode_def
  by (auto simp: res_simps Let_def storable_prep_def put_row_def split: if_splits
      dest!: pc_byte_Inr pc_take_Inr pc_uint_Inr get_settings_Inr get_outcome_Inr)

lemma prep_encode_decode: "prep_decode bs = Inr row \<Longrightarrow> prep_encode row = Inr bs"
  using prep_decode_Inr [of bs row] by (simp add: prep_encode_eq)

interpretation preps: codec prep_encode prep_decode storable_prep
  by unfold_locales (rule prep_decode_encode prep_encode_decode; assumption)+

section \<open>Interruption\<close>

abbreviation pc_interrupts :: "PreparationControlError set" where
  "pc_interrupts \<equiv> {PreparationControlError.Cancelled, PreparationControlError.Deadline,
     PreparationControlError.Database, PreparationControlError.Corrupt}"

lemma pc_quiet [simp]: "pc_check [] = Inr []" "pc_io [] = Inr []"
  by (simp_all add: pc_check_def pc_io_def)

lemma pc_polls [interruptible_intros]: "polls pc_interrupts pc_check" "polls pc_interrupts pc_io"
  unfolding pc_check_def pc_io_def by (auto intro: polls_check polls_io)

lemma pc_store_interruptible [interruptible_intros]:
  "interruptible pc_interrupts (r_get PreparationControlError.Database t k)"
  "interruptible pc_interrupts (w_open PreparationControlError.Database n db)"
  "interruptible pc_interrupts (w_get PreparationControlError.Database n k db)"
  "interruptible pc_interrupts (w_insert PreparationControlError.Database n k v db)"
  by (auto intro: store_interruptible)

lemma pc_source_interruptible [interruptible_intros]:
  assumes "interruptible sc_interrupts f"
  shows "interruptible pc_interrupts (\<lambda>env. mapErr source_error (f env))"
  using assms by (rule interruptible_mapErr) (auto simp: source_error_def)

lemma read_database_interruptible [interruptible_intros]:
  "interruptible pc_interrupts (read_database db sid)"
  unfolding read_database_def by (intro interruptible_intros)

lemma read_view_interruptible: "interruptible pc_interrupts (read_view db sid)"
  unfolding read_view_def by (intro interruptible_intros)

lemma write_source_interruptible [interruptible_intros]:
  "interruptible pc_interrupts (write_source sid db)"
  unfolding write_source_def by (intro interruptible_intros)

lemma find_row_interruptible [interruptible_intros]:
  "interruptible pc_interrupts (find_row sid db)"
  unfolding find_row_def by (intro interruptible_intros)

lemma write_settings_interruptible:
  "interruptible pc_interrupts (write_settings sid settings source previous db)"
  unfolding write_settings_def by (intro interruptible_intros)

lemma write_outcome_interruptible:
  "interruptible pc_interrupts (write_outcome cap res db)"
  unfolding write_outcome_def Let_def by (intro interruptible_intros)

end
