(* ===== verification/PreparationSafety.thy ===== *)
theory PreparationSafety
  imports SourceSafety PreparationLaws
begin

text \<open>
  Safety of the preparation operations. \<open>root_ok\<close> extends the invariant of the source rows
  with the preparation rows, \<open>prep_of\<close> is the abstract map from source identities to
  preparations and \<open>install\<close> the abstract effect of an outcome: every operation acts on
  that map as an update of one source or not at all, under exactly the captured guards.
\<close>

section \<open>The invariant and the abstract map\<close>

definition preps_inv :: "Database \<Rightarrow> bool" where
  "preps_inv db \<longleftrightarrow> (\<forall>sid bs. preps_of db sid = Some bs \<longrightarrow>
     (\<exists>row. prep_decode bs = Inr row \<and> cp_source_id row = sid \<and>
        st_of db NAMESPACE_KEY = Some (cp_namespace_id row)))"

definition root_ok :: "Database \<Rightarrow> bool" where
  "root_ok db \<longleftrightarrow> control_ok db \<and> preps_inv db"

definition prep_of :: "Database \<Rightarrow> bytes \<Rightarrow> CurrentPreparation option" where
  "prep_of db sid = Option.bind (preps_of db sid) (\<lambda>bs. ok_of (prep_decode bs))"

definition source_at :: "Database \<Rightarrow> bytes \<Rightarrow> CurrentSourceRecord option" where
  "source_at db sid = Option.bind (rows_of db sid) (\<lambda>bs. ok_of (decode_record bs))"

lemma prep_of_row:
  assumes "preps_inv db" "prep_of db sid = Some row"
  shows "cp_source_id row = sid \<and> st_of db NAMESPACE_KEY = Some (cp_namespace_id row) \<and>
    (\<exists>bs. preps_of db sid = Some bs \<and> prep_decode bs = Inr row)"
  using assms by (fastforce simp: prep_of_def preps_inv_def bind_eq_Some_conv res_simps)

lemma prep_of_None: "preps_inv db \<Longrightarrow> prep_of db sid = None \<longleftrightarrow> preps_of db sid = None"
  by (cases "preps_of db sid") (fastforce simp: prep_of_def preps_inv_def)+

lemma prep_of_decode: "preps_of db sid = Some bs \<Longrightarrow> prep_decode bs = Inr row \<Longrightarrow> prep_of db sid = Some row"
  by (simp add: prep_of_def)

lemma source_at_sources:
  assumes "sources_inv ns db"
  shows "source_at db sid = Some r \<longleftrightarrow> sources_of db (locator r) = Some r \<and> source_id r = sid"
proof
  assume "source_at db sid = Some r"
  then obtain bs where b: "rows_of db sid = Some bs" "decode_record bs = Inr r"
    by (auto simp: source_at_def bind_eq_Some_conv res_simps)
  then have "row_ok ns db sid bs" using assms by (auto simp: sources_inv_def)
  then show "sources_of db (locator r) = Some r \<and> source_id r = sid"
    using b by (auto simp: row_ok_def sources_of_def)
next
  assume "sources_of db (locator r) = Some r \<and> source_id r = sid"
  then show "source_at db sid = Some r"
    using sources_of_row [OF assms, of "locator r" r] by (auto simp: source_at_def)
qed

lemma source_at_storable:
  assumes "control_ok db" "source_at db sid = Some r"
  shows "storable_source r \<and> rows_of db sid \<noteq> None \<and> source_id r = sid"
proof -
  obtain bs where b: "rows_of db sid = Some bs" "decode_record bs = Inr r"
    using assms(2) by (auto simp: source_at_def bind_eq_Some_conv res_simps)
  then have "\<not> fresh_control db" using fresh_empty [of db SOURCE_ROWS] by auto
  then obtain ns where "sources_inv ns db" using control_inv [OF assms(1)] by blast
  then have "row_ok ns db sid bs" using b(1) unfolding sources_inv_def by blast
  then show ?thesis using b by (auto simp: row_ok_def)
qed

section \<open>Reads\<close>

lemma r_get_val: "r_get e t k env = Inr (v, env') \<Longrightarrow> v = tbl_get t k"
  by (auto simp: r_get_def res_simps)

lemma read_database_Inr:
  assumes "read_database db sid env = Inr ((source, row), env')" "root_ok db"
  shows "source_at db sid = Some source \<and> row = prep_of db sid \<and> \<not> fresh_control db"
proof -
  have q: "read_database db sid [] = Inr ((source, row), [])"
    using interruptible_Inr [OF read_database_interruptible assms(1)] .
  have c: "control_ok db" "preps_inv db" using assms(2) by (simp_all add: root_ok_def)
  have nf: "\<not> fresh_control db"
    using q schema_of_control [OF c(1)] by (auto simp: read_database_def)
  have src: "source_at db sid = Some source"
    using q schema_of_control [OF c(1)] nf
    by (auto simp: read_database_def read_source_by_id_def res_simps source_at_def the_table_def
        split: option.splits if_splits)
  have "row = prep_of db sid"
  proof (cases "get_table db PREPARATIONS")
    case None
    then show ?thesis using q schema_of_control [OF c(1)] nf
      by (auto simp: read_database_def res_simps prep_of_def the_table_def split: if_splits option.splits)
  next
    case (Some t)
    then have t: "the_table db PREPARATIONS = t" by (simp add: the_table_def)
    show ?thesis using q schema_of_control [OF c(1)] nf Some
      by (cases "tbl_get t sid")
        (auto simp: read_database_def res_simps prep_of_def t split: if_splits dest!: r_get_val)
  qed
  then show ?thesis using src nf by blast
qed

lemma read_view_Inr:
  assumes "read_view db sid env = Inr ((source, row), env')" "root_ok db"
  shows "source_at db sid = Some source \<and> row = prep_of db sid"
proof -
  obtain env1 env2 where "read_database db sid env1 = Inr ((source, row), env2)"
    using assms(1) by (auto simp: read_view_def res_simps)
  from read_database_Inr [OF this assms(2)] show ?thesis by blast
qed

lemma write_source_Inr:
  assumes "write_source sid db [] = Inr ((source, db'), env)"
  shows "env = [] \<and> db' = ensure SOURCE_ROWS (ensure SOURCE_STATE db) \<and> source_at db sid = Some source \<and>
    source_id source = sid \<and> st_of db NAMESPACE_KEY = Some (source_namespace_id source)"
  using assms unfolding write_source_def
  by (auto simp: res_simps source_at_def split: if_splits)

section \<open>The write of a row\<close>

definition prep_write :: "bytes \<Rightarrow> bytes \<Rightarrow> Database \<Rightarrow> Database" where
  "prep_write sid bs db =
     (let w = put_in PREPARATIONS sid bs (ensure PREPARATIONS (ensure SOURCE_ROWS (ensure SOURCE_STATE db))) in
      put_in SOURCE_STATE WANTED_REVISION_KEY (le_bytes 8 (wanted_of db + 1))
        (ensure SOURCE_STATE (ensure SOURCE_STATE w)))"

lemma prep_write_tables:
  assumes "db_ok db"
  shows "rows_of (prep_write sid bs db) k = rows_of db k"
    and "locs_of (prep_write sid bs db) k = locs_of db k"
    and "preps_of (prep_write sid bs db) k = (if k = sid then Some bs else preps_of db k)"
    and "st_of (prep_write sid bs db) k = (if k = WANTED_REVISION_KEY then Some (le_bytes 8 (wanted_of db + 1)) else st_of db k)"
    and "db_ok (prep_write sid bs db)" "db_multimaps (prep_write sid bs db) = db_multimaps db"
  using assms by (simp_all add: prep_write_def Let_def the_table_put_in tb.get_put)

lemma prep_write_keeps [simp]: "keeps_pub db (prep_write sid bs db)"
  by (simp add: prep_write_def Let_def)

lemma prep_write_names:
  "set (list_tables (prep_write sid bs db)) = set (list_tables db) \<union> {SOURCE_STATE, SOURCE_ROWS, PREPARATIONS}"
  by (auto simp: prep_write_def Let_def)

lemma sources_of_cong:
  "(\<And>k. rows_of db k = rows_of db' k) \<Longrightarrow> (\<And>k. locs_of db k = locs_of db' k) \<Longrightarrow> sources_of db = sources_of db'"
  by (rule ext) (simp add: sources_of_def)

lemma prep_write_safe:
  assumes "root_ok db" "rows_of db sid \<noteq> None" "prep_decode bs = Inr row" "cp_source_id row = sid"
    and "st_of db NAMESPACE_KEY = Some (cp_namespace_id row)" "wanted_of db + 1 < u64_bound"
  shows "root_ok (prep_write sid bs db) \<and> sources_of (prep_write sid bs db) = sources_of db \<and>
    prep_of (prep_write sid bs db) = (prep_of db)(sid \<mapsto> row) \<and> wanted_of (prep_write sid bs db) = wanted_of db + 1"
proof -
  let ?w = "prep_write sid bs db"
  have c: "control_ok db" "preps_inv db" using assms(1) by (simp_all add: root_ok_def)
  note ok = control_db_ok [OF c(1)]
  note t = prep_write_tables [OF ok, of sid bs]
  have "\<not> fresh_control db" using fresh_empty [of db SOURCE_ROWS] assms(2) by auto
  then obtain ns where i: "sources_inv ns db" "current_schema db" using c(1) by (auto simp: control_ok_def)
  have inv: "sources_inv ns ?w"
    using i(1) assms(2) t by (auto simp: sources_inv_def row_ok_def locator_ok_def)
  have cur: "current_schema ?w"
  proof -
    have n: "set (list_tables ?w) - PUB = (set (list_tables db) - PUB) \<union> {SOURCE_STATE, SOURCE_ROWS, PREPARATIONS}"
      using prep_write_names [of sid bs db] control_tables_not_pub base_not_pub(2) by blast
    have "pub_ok (set (list_tables ?w))"
      using i(2) prep_write_names [of sid bs db] control_tables_not_pub base_not_pub(2)
      unfolding current_schema_def pub_ok_def by blast
    then show ?thesis using i(2) n unfolding current_schema_def by auto
  qed
  have "control_ok ?w" using inv cur t c(1) by (auto simp: control_ok_def)
  moreover have "preps_inv ?w" using c(2) assms(3-5) t by (auto simp: preps_inv_def split: if_splits)
  moreover have "sources_of ?w = sources_of db" by (rule sources_of_cong) (simp_all add: t)
  moreover have "prep_of ?w = (prep_of db)(sid \<mapsto> row)" using assms(3) by (auto simp: prep_of_def t)
  moreover have "wanted_of ?w = wanted_of db + 1"
    using assms(6) by (simp add: wanted_of_def [of ?w] t of_le_bytes_le_bytes)
  ultimately show ?thesis by (simp add: root_ok_def)
qed

section \<open>Settings\<close>

definition initial_prep :: "CurrentSourceRecord \<Rightarrow> PreparationSettings \<Rightarrow> CurrentPreparation" where
  "initial_prep source settings = \<lparr>cp_namespace_id = source_namespace_id source,
     cp_source_id = source_id source, cp_settings_revision = 1, cp_settings = settings,
     cp_outcome_revision = 0, cp_outcome = None\<rparr>"

definition selected :: "CurrentSourceRecord \<Rightarrow> CurrentPreparation option \<Rightarrow> PreparationSettings \<Rightarrow> CurrentPreparation" where
  "selected source found settings =
     (case found of None \<Rightarrow> initial_prep source settings
      | Some row \<Rightarrow> row\<lparr>cp_settings_revision := cp_settings_revision row + 1, cp_settings := settings\<rparr>)"

lemma find_row_Inr: "find_row sid db [] = Inr (found, env) \<Longrightarrow> found = prep_of db sid \<and> env = []"
  by (cases "preps_of db sid") (auto simp: find_row_def res_simps prep_of_def)

lemma advance_after_put:
  assumes "advance_wanted_revision (put_in PREPARATIONS sid bs (ensure PREPARATIONS (ensure SOURCE_ROWS (ensure SOURCE_STATE db)))) [] = Inr (w, env)"
  shows "w = prep_write sid bs db \<and> wanted_of db + 1 < u64_bound"
proof -
  have "wanted_of (put_in PREPARATIONS sid bs (ensure PREPARATIONS (ensure SOURCE_ROWS (ensure SOURCE_STATE db)))) = wanted_of db"
    by (rule wanted_of_cong) (simp add: the_table_put_in)
  then show ?thesis using advance_wanted_Inr [OF assms] by (simp add: prep_write_def Let_def)
qed

lemma write_settings_Inr:
  assumes "write_settings sid settings source previous db [] = Inr ((w, row), env)"
    and "previous = prep_of db sid" "source_at db sid = Some source" "is_supported settings" "root_ok db"
  shows "row = selected source previous settings \<and>
    (\<exists>bs. w = prep_write sid bs db \<and> prep_decode bs = Inr row) \<and> wanted_of db + 1 < u64_bound \<and>
    st_of db NAMESPACE_KEY = Some (cp_namespace_id row) \<and> cp_source_id row = sid"
proof -
  have pi: "preps_inv db" using assms(5) by (simp add: root_ok_def)
  obtain cur db1 env1 where ws: "write_source sid db [] = Inr ((cur, db1), env1)"
    using assms(1) by (auto simp: write_settings_def res_simps)
  note W = write_source_Inr [OF ws]
  let ?d = "ensure PREPARATIONS (ensure SOURCE_ROWS (ensure SOURCE_STATE db))"
  have cur: "cur = source" using W assms(3) by simp
  obtain found env2 where f: "find_row sid ?d [] = Inr (found, env2)" and fp: "found = previous"
    using assms(1) ws W by (auto simp: write_settings_def res_simps split: if_splits)
  have e2: "env2 = []" using find_row_Inr [OF f] by simp
  obtain bs where row: "row = selected source previous settings" "prep_encode row = Inr bs"
    and rev: "case previous of None \<Rightarrow> True | Some r \<Rightarrow> cp_settings_revision r + 1 < u64_bound"
    and adv: "\<exists>env3. advance_wanted_revision (put_in PREPARATIONS sid bs ?d) [] = Inr (w, env3)"
    using assms(1) ws W f fp e2 cur
    by (cases previous) (auto simp: write_settings_def res_simps selected_def initial_prep_def split: if_splits)
  obtain env3 where a: "advance_wanted_revision (put_in PREPARATIONS sid bs ?d) [] = Inr (w, env3)" using adv by blast
  note A = advance_after_put [OF a]
  have st: "storable_prep row \<and> cp_source_id row = sid \<and> st_of db NAMESPACE_KEY = Some (cp_namespace_id row)"
  proof (cases previous)
    case None
    have "storable_source source"
      using source_at_storable assms(3,5) by (auto simp: root_ok_def)
    then show ?thesis using None row W cur assms(3,4)
      by (simp add: selected_def initial_prep_def storable_prep_def storable_source_def wf_source_def supported_wf)
  next
    case (Some r)
    then have r: "prep_of db sid = Some r" using assms(2) by simp
    from prep_of_row [OF pi this] obtain b where "prep_decode b = Inr r" "cp_source_id r = sid"
      "st_of db NAMESPACE_KEY = Some (cp_namespace_id r)" by blast
    then show ?thesis using Some row rev prep_decode_Inr [of b r] assms(4)
      by (simp add: selected_def storable_prep_def supported_wf)
  qed
  have "prep_decode bs = Inr row" using preps.dec_enc [OF _ row(2)] st by blast
  then show ?thesis using row A st by blast
qed

section \<open>Outcomes\<close>

definition bound_outcome :: "PreparationCapture \<Rightarrow> PreparationOutcome \<Rightarrow> BoundPreparationOutcome" where
  "bound_outcome cap res = \<lparr>bo_source_row_revision = row_revision (pc_source cap),
     bo_registration_revision = registration_revision (pc_source cap),
     bo_input = object_ref (pc_source cap), bo_settings = pc_settings cap, bo_result = res\<rparr>"

definition ready_for :: "CurrentPreparation \<Rightarrow> CurrentSourceRecord \<Rightarrow> bool" where
  "ready_for row source \<longleftrightarrow> (case cp_outcome row of None \<Rightarrow> False
     | Some out \<Rightarrow> matches_input out source (cp_settings row) \<and> is_ready (bo_result out))"

definition install :: "PreparationCapture \<Rightarrow> PreparationOutcome \<Rightarrow> CurrentPreparation \<Rightarrow> CurrentPreparation" where
  "install cap res row =
     (if \<not> is_ready res \<and> ready_for row (pc_source cap) \<or> cp_outcome row = Some (bound_outcome cap res)
      then row
      else row\<lparr>cp_outcome_revision := cp_outcome_revision row + 1, cp_outcome := Some (bound_outcome cap res)\<rparr>)"

definition guards_hold :: "PreparationCapture \<Rightarrow> Database \<Rightarrow> CurrentPreparation \<Rightarrow> bool" where
  "guards_hold cap db row \<longleftrightarrow>
     source_at db (source_id (pc_source cap)) = Some (pc_source cap) \<and>
     prep_of db (source_id (pc_source cap)) = Some row \<and>
     cp_settings row = pc_settings cap \<and> cp_settings_revision row = pc_settings_revision cap \<and>
     cp_outcome row = pc_expected_outcome cap \<and> cp_outcome_revision row = pc_expected_outcome_revision cap"

lemma write_outcome_Inr:
  assumes "write_outcome cap res db [] = Inr ((w, row), env)" "root_ok db" "wf_outcome res"
  shows "\<exists>old. guards_hold cap db old \<and> row = install cap res old \<and>
    (case w of None \<Rightarrow> row = old
     | Some work \<Rightarrow> \<exists>bs. work = prep_write (source_id (pc_source cap)) bs db \<and> prep_decode bs = Inr row \<and>
         cp_source_id row = source_id (pc_source cap) \<and> st_of db NAMESPACE_KEY = Some (cp_namespace_id row) \<and>
         wanted_of db + 1 < u64_bound)"
proof -
  let ?sid = "source_id (pc_source cap)"
  have pi: "control_ok db" "preps_inv db" using assms(2) by (simp_all add: root_ok_def)
  obtain src db1 env1 where ws: "write_source ?sid db [] = Inr ((src, db1), env1)"
    using assms(1) by (auto simp: write_outcome_def res_simps)
  note W = write_source_Inr [OF ws]
  have src: "src = pc_source cap" using assms(1) ws by (auto simp: write_outcome_def split: if_splits)
  let ?d = "ensure PREPARATIONS (ensure SOURCE_ROWS (ensure SOURCE_STATE db))"
  obtain v old where v: "preps_of db ?sid = Some v" "prep_decode v = Inr old"
    using assms(1) ws W src by (auto simp: write_outcome_def res_simps split: if_splits)
  have g: "guards_hold cap db old"
    using assms(1) ws W src v
    by (auto simp: write_outcome_def guards_hold_def prep_of_def split: if_splits)
  note P = prep_of_row [OF pi(2) prep_of_decode [OF v]]
  have ready: "(case cp_outcome old of None \<Rightarrow> False
       | Some out \<Rightarrow> matches_input out src (pc_settings cap) \<and> is_ready (bo_result out)) = ready_for old (pc_source cap)"
    using g src by (simp add: ready_for_def guards_hold_def split: option.splits)
  have same: "cp_namespace_id old = source_namespace_id src \<and> cp_source_id old = source_id src"
    using P W src by auto
  have out: "\<lparr>bo_source_row_revision = row_revision src, bo_registration_revision = registration_revision src,
      bo_input = object_ref src, bo_settings = pc_settings cap, bo_result = res\<rparr> = bound_outcome cap res"
    using src by (simp add: bound_outcome_def)
  show ?thesis
  proof (cases "\<not> is_ready res \<and> ready_for old (pc_source cap) \<or> cp_outcome old = Some (bound_outcome cap res)")
    case True
    then have "row = old" "w = None"
      using assms(1) ws W src v g same ready out by (auto simp: write_outcome_def guards_hold_def Let_def split: if_splits)
    then show ?thesis using g True by (auto simp: install_def)
  next
    case False
    then obtain bs work where row: "row = install cap res old" "prep_encode row = Inr bs"
      and rev: "cp_outcome_revision old + 1 < u64_bound" and w: "w = Some work"
      and a: "\<exists>env3. advance_wanted_revision (put_in PREPARATIONS ?sid bs ?d) [] = Inr (work, env3)"
      using assms(1) ws W src v g same ready out
      by (auto simp: write_outcome_def guards_hold_def install_def Let_def res_simps split: if_splits)
    have A: "work = prep_write ?sid bs db" "wanted_of db + 1 < u64_bound" using a advance_after_put by blast+
    have "storable_source (pc_source cap)" using source_at_storable [OF pi(1)] g by (auto simp: guards_hold_def)
    then have "wf_bound (bound_outcome cap res)"
      using prep_decode_Inr [OF v(2)] g assms(3)
      by (simp add: wf_bound_def bound_outcome_def storable_source_def wf_source_def guards_hold_def storable_prep_def)
    then have "storable_prep row"
      using prep_decode_Inr [OF v(2)] row(1) rev False by (simp add: install_def storable_prep_def)
    then have "prep_decode bs = Inr row" using row(2) by (rule preps.dec_enc)
    then show ?thesis using g row w A P False by (auto simp: install_def)
  qed
qed

section \<open>Finishing a commit\<close>

definition finished ::
  "Database \<Rightarrow> Database \<Rightarrow> CurrentPreparation \<Rightarrow> (PreparationControlError + CurrentPreparation) \<times> Database \<Rightarrow> bool" where
  "finished work db row out \<longleftrightarrow> (snd out = work \<or> snd out = db) \<and>
     (\<forall>x. fst out = Inr x \<longrightarrow> x = row \<and> (snd out = work \<or> prep_of db (cp_source_id row) = Some row))"

lemma finish_commit_finished:
  assumes "root_ok db" "root_ok work"
  shows "finished work db row (finish_commit work db row env)"
proof (cases "pc_check env")
  case (Inl e)
  then show ?thesis by (simp add: finish_commit_def finished_def)
next
  case (Inr env1)
  obtain ok db1 env2 where c: "w_commit work db env1 = ((ok, db1), env2)" by (metis surj_pair)
  note C = w_commit_cases [OF c]
  have ok1: "root_ok db1" using C assms by blast
  have "x = row \<and> prep_of db1 (cp_source_id row) = Some row"
    if "bindE (read_view db1 (cp_source_id row) env2)
        (\<lambda>((_, observed), env). if observed = Some row then Inr row else Inl PreparationControlError.Stale) = Inr x" for x
    using that read_view_Inr [OF _ ok1] by (fastforce simp: res_simps split: if_splits)
  then show ?thesis using Inr c C by (auto simp: finish_commit_def finished_def)
qed

lemma finish_borrowed_finished: "finished work db row (finish_borrowed_commit work db row env)"
proof (cases "pc_check env")
  case (Inl e)
  then show ?thesis by (simp add: finish_borrowed_commit_def finished_def)
next
  case (Inr env1)
  obtain ok db1 env2 where c: "w_commit work db env1 = ((ok, db1), env2)" by (metis surj_pair)
  then show ?thesis using Inr w_commit_cases [OF c] by (auto simp: finish_borrowed_commit_def finished_def)
qed

text \<open>What an operation on the preparation of one source may do.\<close>

definition prep_effect ::
  "Database \<Rightarrow> bytes \<Rightarrow> (CurrentPreparation \<Rightarrow> bool) \<Rightarrow>
   (PreparationControlError + CurrentPreparation) \<times> Database \<Rightarrow> bool" where
  "prep_effect db sid new out \<longleftrightarrow> root_ok (snd out) \<and> keeps_pub db (snd out) \<and> sources_of (snd out) = sources_of db \<and>
     (snd out = db \<or> wanted_of (snd out) = wanted_of db + 1) \<and>
     (case fst out of
        Inr row \<Rightarrow> new row \<and> prep_of (snd out) = (prep_of db)(sid \<mapsto> row)
      | Inl e \<Rightarrow> snd out = db \<or> (\<exists>row. new row \<and> prep_of (snd out) = (prep_of db)(sid \<mapsto> row)))"

lemma prep_effect_error: "root_ok db \<Longrightarrow> prep_effect db sid new (Inl e, db)"
  by (simp add: prep_effect_def)

lemma prep_effect_same: "root_ok db \<Longrightarrow> prep_of db sid = Some row \<Longrightarrow> new row \<Longrightarrow> prep_effect db sid new (Inr row, db)"
  by (auto simp: prep_effect_def map_upd_triv)

lemma prep_effect_finished:
  assumes "finished (prep_write sid bs db) db row out" "root_ok db" "rows_of db sid \<noteq> None"
    and "prep_decode bs = Inr row" "cp_source_id row = sid" "st_of db NAMESPACE_KEY = Some (cp_namespace_id row)"
    and "wanted_of db + 1 < u64_bound" "new row"
  shows "prep_effect db sid new out"
  using assms(1,8) prep_write_safe [OF assms(2-7)] assms(2,5)
  by (cases "fst out") (auto simp: finished_def prep_effect_def map_upd_triv)

lemma write_outcome_effect:
  assumes "write_outcome cap res db env = Inr ((w, row), env')" "root_ok db" "wf_outcome res"
    and "\<And>work. root_ok work \<Longrightarrow> finished work db row (fin work)"
  shows "prep_effect db (source_id (pc_source cap)) (\<lambda>row. \<exists>old. guards_hold cap db old \<and> row = install cap res old)
    (case w of None \<Rightarrow> (Inr row, db) | Some work \<Rightarrow> fin work)"
proof -
  have q: "write_outcome cap res db [] = Inr ((w, row), [])"
    using interruptible_Inr [OF write_outcome_interruptible assms(1)] .
  obtain old where g: "guards_hold cap db old" "row = install cap res old"
    and w: "case w of None \<Rightarrow> row = old
     | Some work \<Rightarrow> \<exists>bs. work = prep_write (source_id (pc_source cap)) bs db \<and> prep_decode bs = Inr row \<and>
         cp_source_id row = source_id (pc_source cap) \<and> st_of db NAMESPACE_KEY = Some (cp_namespace_id row) \<and>
         wanted_of db + 1 < u64_bound"
    using write_outcome_Inr [OF q assms(2,3)] by blast
  have r: "rows_of db (source_id (pc_source cap)) \<noteq> None"
    using g(1) assms(2) source_at_storable by (auto simp: guards_hold_def root_ok_def)
  show ?thesis
  proof (cases w)
    case None
    then show ?thesis using w g assms(2) by (auto intro!: prep_effect_same simp: guards_hold_def)
  next
    case (Some work)
    then obtain bs where b: "work = prep_write (source_id (pc_source cap)) bs db" "prep_decode bs = Inr row"
        "cp_source_id row = source_id (pc_source cap)" "st_of db NAMESPACE_KEY = Some (cp_namespace_id row)"
        "wanted_of db + 1 < u64_bound" using w by auto
    have "finished work db row (fin work)"
      using prep_write_safe [OF assms(2) r b(2-5)] b(1) assms(4) by simp
    then have "prep_effect db (source_id (pc_source cap))
        (\<lambda>row. \<exists>old. guards_hold cap db old \<and> row = install cap res old) (fin work)"
      using b(1) g by (intro prep_effect_finished [OF _ assms(2) r b(2-5)]) auto
    then show ?thesis using Some by simp
  qed
qed

lemma commit_preparation_effect:
  assumes "root_ok db" "wf_outcome res"
  shows "prep_effect db (source_id (pc_source cap)) (\<lambda>row. \<exists>old. guards_hold cap db old \<and> row = install cap res old)
    (commit_preparation db cap res env)"
proof (cases "bindE (check_outcome res env) (\<lambda>env. bindE (pc_io env) (write_outcome cap res db))")
  case (Inl e)
  then show ?thesis using assms(1) by (simp add: commit_preparation_def prep_effect_error)
next
  case (Inr p)
  obtain w row env1 where p: "p = ((w, row), env1)" by (metis surj_pair)
  then obtain env2 where "write_outcome cap res db env2 = Inr ((w, row), env1)"
    using Inr by (auto simp: res_simps)
  from write_outcome_effect [OF this assms finish_commit_finished [OF assms(1)], of "\<lambda>_. env1"]
  show ?thesis using Inr p by (simp add: commit_preparation_def)
qed

lemma writer_commit_preparation_effect:
  assumes "root_ok db" "wf_outcome res"
  shows "prep_effect db (source_id (pc_source cap)) (\<lambda>row. \<exists>old. guards_hold cap db old \<and> row = install cap res old)
    (writer_commit_preparation db cap res env)"
proof (cases "bindE (check_outcome res env) (write_outcome cap res db)")
  case (Inl e)
  then show ?thesis using assms(1) by (simp add: writer_commit_preparation_def prep_effect_error)
next
  case (Inr p)
  obtain w row env1 where p: "p = ((w, row), env1)" by (metis surj_pair)
  then obtain env2 where "write_outcome cap res db env2 = Inr ((w, row), env1)"
    using Inr by (auto simp: res_simps)
  from write_outcome_effect [OF this assms finish_borrowed_finished, of "\<lambda>_. env1"]
  show ?thesis using Inr p by (simp add: writer_commit_preparation_def)
qed

section \<open>The effect of a settings selection\<close>

definition settings_effect ::
  "Database \<Rightarrow> bytes \<Rightarrow> PreparationSettings \<Rightarrow> bool \<Rightarrow> CurrentPreparation \<Rightarrow> bool" where
  "settings_effect db sid settings initialize_only row \<longleftrightarrow>
     (\<exists>source. source_at db sid = Some source \<and>
       (case prep_of db sid of
          Some old \<Rightarrow> row = (if initialize_only \<or> cp_settings old = settings then old
             else selected source (Some old) settings)
        | None \<Rightarrow> row = initial_prep source settings))"

lemma write_settings_effect:
  assumes "write_settings sid settings source (prep_of db sid) db env = Inr ((w, row), env')"
    and "root_ok db" "source_at db sid = Some source" "is_supported settings"
    and "\<not> (\<exists>old. prep_of db sid = Some old \<and> (initialize_only \<or> cp_settings old = settings))"
    and "\<And>work. root_ok work \<Longrightarrow> finished work db row (fin work)"
  shows "prep_effect db sid (settings_effect db sid settings initialize_only) (fin w)"
proof -
  have q: "write_settings sid settings source (prep_of db sid) db [] = Inr ((w, row), [])"
    using interruptible_Inr [OF write_settings_interruptible assms(1)] .
  from write_settings_Inr [OF q refl assms(3,4,2)] obtain bs where
      r: "row = selected source (prep_of db sid) settings" and w: "w = prep_write sid bs db" "prep_decode bs = Inr row"
      "cp_source_id row = sid" "st_of db NAMESPACE_KEY = Some (cp_namespace_id row)" "wanted_of db + 1 < u64_bound"
    by blast
  have n: "rows_of db sid \<noteq> None" using source_at_storable assms(2,3) by (auto simp: root_ok_def)
  have "finished w db row (fin w)" using prep_write_safe [OF assms(2) n w(2-5)] w(1) assms(6) by simp
  moreover have "settings_effect db sid settings initialize_only row"
    using r assms(3,5) by (auto simp: settings_effect_def selected_def split: option.splits)
  ultimately show ?thesis using prep_effect_finished [OF _ assms(2) n w(2-5)] w(1) by simp
qed

lemma select_settings_effect:
  assumes "root_ok db"
  shows "prep_effect db sid (settings_effect db sid settings initialize_only) (select_settings db sid settings initialize_only env)"
proof (cases "is_supported settings \<and> is_ok (read_view db sid env)")
  case False
  then show ?thesis using assms
    by (cases "read_view db sid env") (auto simp: select_settings_def prep_effect_error)
next
  case True
  then obtain source previous env1 where r: "read_view db sid env = Inr ((source, previous), env1)"
    by (auto simp: is_ok_iff)
  note R = read_view_Inr [OF r assms]
  show ?thesis
  proof (cases "\<exists>old. prep_of db sid = Some old \<and> (initialize_only \<or> cp_settings old = settings)")
    case kept: True
    then obtain old where "prep_of db sid = Some old" "initialize_only \<or> cp_settings old = settings" by blast
    then show ?thesis using True r R assms
      by (auto simp: select_settings_def settings_effect_def intro!: prep_effect_same)
  next
    case False
    show ?thesis
    proof (cases "bindE (pc_io env1) (write_settings sid settings source previous db)")
      case (Inl e)
      then show ?thesis using True r R False assms
        by (auto simp: select_settings_def prep_effect_error split: option.splits)
    next
      case (Inr p)
      obtain w row env2 where p: "p = ((w, row), env2)" by (metis surj_pair)
      then obtain env3 where "write_settings sid settings source (prep_of db sid) db env3 = Inr ((w, row), env2)"
        using Inr R by (auto simp: res_simps)
      from write_settings_effect [OF this assms _ _ False finish_commit_finished [OF assms], of "\<lambda>_. env2"]
      show ?thesis using True r R False Inr p by (auto simp: select_settings_def split: option.splits)
    qed
  qed
qed

lemma select_settings_on_effect:
  assumes "root_ok db"
  shows "prep_effect db sid (settings_effect db sid settings initialize_only) (select_settings_on db sid settings initialize_only env)"
proof (cases "is_supported settings \<and> is_ok (read_database db sid env)")
  case False
  then show ?thesis using assms
    by (cases "read_database db sid env") (auto simp: select_settings_on_def prep_effect_error)
next
  case True
  then obtain source previous env1 where r: "read_database db sid env = Inr ((source, previous), env1)"
    by (auto simp: is_ok_iff)
  note R = read_database_Inr [OF r assms]
  show ?thesis
  proof (cases "\<exists>old. prep_of db sid = Some old \<and> (initialize_only \<or> cp_settings old = settings)")
    case kept: True
    then obtain old where "prep_of db sid = Some old" "initialize_only \<or> cp_settings old = settings" by blast
    then show ?thesis using True r R assms
      by (auto simp: select_settings_on_def settings_effect_def intro!: prep_effect_same)
  next
    case False
    show ?thesis
    proof (cases "write_settings sid settings source previous db env1")
      case (Inl e)
      then show ?thesis using True r R False assms
        by (auto simp: select_settings_on_def prep_effect_error split: option.splits)
    next
      case (Inr p)
      obtain w row env2 where p: "p = ((w, row), env2)" by (metis surj_pair)
      then have "write_settings sid settings source (prep_of db sid) db env1 = Inr ((w, row), env2)"
        using Inr R by auto
      from write_settings_effect [OF this assms _ _ False finish_borrowed_finished, of "\<lambda>_. env2"]
      show ?thesis using True r R False Inr p by (auto simp: select_settings_on_def split: option.splits)
    qed
  qed
qed

end
