(* ===== verification/ControlRun.thy ===== *)
theory ControlRun
  imports SourceOps PreparationSafety
begin

text \<open>
  The control database as a state machine: \<open>control_step\<close> is one call of any operation that
  changes it, by any caller and with any interruption, and a run is a sequence of such calls.
  The properties of commits of preparations and of whole runs follow from the effects of the
  single operations.
\<close>

section \<open>Effects of the source operations\<close>

lemma preps_inv_sub:
  assumes "preps_inv db" "\<And>k. preps_of db' k = None \<or> preps_of db' k = preps_of db k"
    and "(\<forall>k. preps_of db k = None) \<or> st_of db' NAMESPACE_KEY = st_of db NAMESPACE_KEY"
  shows "preps_inv db'"
  unfolding preps_inv_def
proof (intro allI impI)
  fix sid bs assume b: "preps_of db' sid = Some bs"
  then have o: "preps_of db sid = Some bs" using assms(2) [of sid] by simp
  then show "\<exists>row. prep_decode bs = Inr row \<and> cp_source_id row = sid \<and>
      st_of db' NAMESPACE_KEY = Some (cp_namespace_id row)"
    using assms(1,3) by (fastforce simp: preps_inv_def)
qed

lemma prep_of_cong: "(\<And>k. preps_of db' k = preps_of db k) \<Longrightarrow> prep_of db' = prep_of db"
  by (rule ext) (simp add: prep_of_def)

lemma fresh_no_preps: "fresh_control db \<Longrightarrow> preps_of db k = None"
  using fresh_empty [of db PREPARATIONS] by simp

lemma commit_body_frame:
  assumes "commit_source_body cap key obj db [] = Inr ((rec, Some work), [])" "root_ok db" "wf_capture cap" "wf_head key obj"
  shows "root_ok work \<and> keeps_pub db work \<and> prep_of work = prep_of db \<and> wanted_of work = wanted_of db + 1 \<and>
    sources_of work = (sources_of db)(sc_locator cap \<mapsto> rec) \<and>
    (\<forall>old. sources_of db (sc_locator cap) = Some old \<longrightarrow>
       source_id rec = source_id old \<and> row_revision rec = row_revision old + 1)"
proof -
  have c: "control_ok db" "preps_inv db" using assms(2) by (simp_all add: root_ok_def)
  note ok = control_db_ok [OF c(1)]
  note S = commit_body_safe [OF assms(1) c(1) assms(3,4)]
  obtain row reg enc where r: "rec = head_record cap key obj row reg" and w: "work = head_write cap enc db"
    and ng: "namespace_guard cap db"
    and g: "new_guard cap db \<or> (\<exists>cur. head_guard cap db cur \<and> row = row_revision cur + 1)"
    using commit_body_Some [OF assms(1) ok] by blast
  have p: "preps_of work k = preps_of db k" for k using head_write_tables [OF ok] w by simp
  have "(\<forall>k. preps_of db k = None) \<or> st_of work NAMESPACE_KEY = st_of db NAMESPACE_KEY"
  proof (cases "sc_expected_namespace cap")
    case None
    have "fresh_control db"
      using control_inv [OF c(1)] ng None by (auto simp: namespace_guard_def sources_inv_def)
    then show ?thesis using fresh_no_preps by blast
  next
    case (Some n)
    then show ?thesis by (simp add: w head_write_tables [OF ok] base_write_tables [OF ok])
  qed
  then have "preps_inv work" using preps_inv_sub [OF c(2)] p by blast
  moreover have "source_id rec = source_id old \<and> row_revision rec = row_revision old + 1"
    if "sources_of db (sc_locator cap) = Some old" for old
    using g that r head_guard_sources [of cap db]
    by (auto simp: new_guard_def head_record_def head_guard_def sources_of_def)
  ultimately show ?thesis using S prep_of_cong [OF p] head_write_keeps [of db cap enc] by (simp add: root_ok_def w)
qed

lemma commit_current_source_cases:
  assumes "commit_current_source db cap key obj env = (res, db')" "control_ok db" "wf_capture cap" "wf_head key obj"
  shows "db' = db \<or> (\<exists>rec. commit_source_body cap key obj db [] = Inr ((rec, Some db'), []))"
proof (cases "bindE (sc_check env) (\<lambda>env. bindE (sc_io env) (\<lambda>env. commit_source_database db cap key obj env))")
  case (Inl e)
  then show ?thesis using assms(1) by (auto simp: commit_current_source_def)
next
  case (Inr p)
  obtain rec committed db1 env1 where p: "p = (((rec, committed), db1), env1)" by (metis surj_pair)
  then obtain env0 where d: "commit_source_database db cap key obj env0 = Inr (((rec, committed), db1), env1)"
    using Inr by (auto simp: res_simps)
  have "db' = db1" using assms(1) Inr p by (auto simp: commit_current_source_def split: if_splits)
  then show ?thesis using commit_database_cases [OF d assms(2-4)] by blast
qed

lemma writer_commit_current_source_cases:
  assumes "writer_commit_current_source db cap key obj env = (res, db')" "control_ok db" "wf_capture cap" "wf_head key obj"
  shows "db' = db \<or> (\<exists>rec. commit_source_body cap key obj db [] = Inr ((rec, Some db'), []))"
proof (cases "commit_source_database db cap key obj env")
  case (Inl e)
  then show ?thesis using assms(1) by (auto simp: writer_commit_current_source_def)
next
  case (Inr p)
  obtain rec committed db1 env1 where p: "p = (((rec, committed), db1), env1)" by (metis surj_pair)
  have d: "commit_source_database db cap key obj env = Inr (((rec, committed), db1), env1)" using Inr p by simp
  have "db' = db1" using assms(1) Inr p by (auto simp: writer_commit_current_source_def)
  then show ?thesis using commit_database_cases [OF d assms(2-4)] by blast
qed

lemma remove_frame:
  assumes "remove_current_sources db expected env = (res, db')" "root_ok db"
  shows "db' = db \<or> root_ok db' \<and> keeps_pub db db' \<and> wanted_of db' = wanted_of db + 1 \<and>
    sources_of db' = sources_of db |` (- locator ` set expected)"
proof (cases "expected = [] \<or> MAX_CURRENT_SOURCES < length expected \<or> (\<exists>e. remove_sources_body expected db env = Inl e)")
  case True
  then show ?thesis using assms(1)
    by (auto simp: remove_current_sources_def remove_sources_database_def split: if_splits)
next
  case False
  then obtain work env1 where b: "remove_sources_body expected db env = Inr (work, env1)"
    by (cases "remove_sources_body expected db env") auto
  have c: "control_ok db" "preps_inv db" using assms(2) by (simp_all add: root_ok_def)
  note R = remove_body_Inr [OF interruptible_Inr [OF remove_body_interruptible b] c(1)]
  have "preps_inv work" using R False by (intro preps_inv_sub [OF c(2)]) auto
  moreover have "keeps_pub db work"
    using remove_body_keeps [OF interruptible_Inr [OF remove_body_interruptible b] control_db_ok [OF c(1)]] .
  ultimately have W: "root_ok work \<and> keeps_pub db work \<and> wanted_of work = wanted_of db + 1 \<and>
      sources_of work = sources_of db |` (- locator ` set expected)"
    using R False by (auto simp: root_ok_def)
  obtain ok db1 env2 where w: "w_commit work db env1 = ((ok, db1), env2)" by (metis surj_pair)
  have "db' = db1"
    using assms(1) False b w by (auto simp: remove_current_sources_def remove_sources_database_def)
  then show ?thesis using w_commit_cases [OF w] W by blast
qed

lemma admit_frame:
  assumes "admit_selection to_vec from_slice rnd sel db env = (res, db')" "root_ok db" "rnd_ok rnd"
  shows "root_ok db' \<and> keeps_pub db db' \<and> wanted_of db' = wanted_of db \<and> sources_of db' = sources_of db \<and>
    prep_of db' = prep_of db"
proof (cases "admit_selection_body to_vec from_slice rnd sel db env")
  case (Inl e)
  then show ?thesis using assms by (auto simp: admit_selection_def)
next
  case (Inr p)
  obtain w env1 where p: "p = (w, env1)" by (cases p)
  have c: "control_ok db" "preps_inv db" using assms(2) by (simp_all add: root_ok_def)
  have q: "admit_selection_body to_vec from_slice rnd sel db [] = Inr (w, [])"
    using interruptible_Inr [OF admit_body_interruptible] Inr p by blast
  note A = admit_body_Inr [OF q c(1) assms(3)]
  show ?thesis
  proof (cases w)
    case None
    then show ?thesis using assms(1,2) Inr p by (auto simp: admit_selection_def)
  next
    case (Some work)
    then have W: "control_ok work" "sources_of work = sources_of db" "wanted_of work = wanted_of db"
        "\<And>k. preps_of work k = preps_of db k" "fresh_control db \<or> st_of work NAMESPACE_KEY = st_of db NAMESPACE_KEY"
      using A by auto
    then have "preps_inv work" using fresh_no_preps by (intro preps_inv_sub [OF c(2)]) auto
    moreover have "keeps_pub db work" using admit_body_keeps [OF q [unfolded Some] c(1) assms(3)] .
    moreover obtain ok db1 env2 where cm: "w_commit work db env1 = ((ok, db1), env2)" by (metis surj_pair)
    moreover have "db' = db1" using assms(1) Inr p Some cm by (auto simp: admit_selection_def)
    ultimately show ?thesis using w_commit_cases [OF cm] W prep_of_cong [of work db] assms(2)
      by (auto simp: root_ok_def)
  qed
qed

section \<open>Steps and runs\<close>

inductive control_step :: "Database \<Rightarrow> Database \<Rightarrow> bool" where
  commit: "wf_capture cap \<Longrightarrow> wf_head key obj \<Longrightarrow>
     commit_current_source db cap key obj env = (sres, db') \<Longrightarrow> control_step db db'"
| writer_commit: "wf_capture cap \<Longrightarrow> wf_head key obj \<Longrightarrow>
     writer_commit_current_source db cap key obj env = (sres, db') \<Longrightarrow> control_step db db'"
| remove: "remove_current_sources db expected env = (ures, db') \<Longrightarrow> control_step db db'"
| admit: "rnd_ok rnd \<Longrightarrow> admit_selection to_vec from_slice rnd sel db env = (ures, db') \<Longrightarrow> control_step db db'"
| ensure_settings: "ensure_preparation_settings db sid env = (pres, db') \<Longrightarrow> control_step db db'"
| writer_ensure_settings: "writer_ensure_preparation_settings db sid env = (pres, db') \<Longrightarrow> control_step db db'"
| outcome: "wf_outcome res \<Longrightarrow> commit_preparation db pcap res env = (pres, db') \<Longrightarrow> control_step db db'"
| writer_outcome: "wf_outcome res \<Longrightarrow> writer_commit_preparation db pcap res env = (pres, db') \<Longrightarrow> control_step db db'"

definition step_effect :: "Database \<Rightarrow> Database \<Rightarrow> bool" where
  "step_effect db db' \<longleftrightarrow> root_ok db' \<and> keeps_pub db db' \<and>
     (sources_of db' = sources_of db \<and> prep_of db' = prep_of db \<and> wanted_of db' = wanted_of db \<or>
      wanted_of db' = wanted_of db + 1) \<and>
     (\<forall>loc r r'. sources_of db loc = Some r \<longrightarrow> sources_of db' loc = Some r' \<longrightarrow>
        source_id r' = source_id r \<and> (r' = r \<or> row_revision r' = row_revision r + 1))"

lemma step_effect_refl: "root_ok db \<Longrightarrow> step_effect db db"
  by (simp add: step_effect_def)

lemma step_effect_commit:
  assumes "db' = db \<or> (\<exists>rec. commit_source_body cap key obj db [] = Inr ((rec, Some db'), []))"
    and "root_ok db" "wf_capture cap" "wf_head key obj"
  shows "step_effect db db'"
  using assms(1)
proof (elim disjE exE)
  fix rec assume "commit_source_body cap key obj db [] = Inr ((rec, Some db'), [])"
  from commit_body_frame [OF this assms(2-4)] show ?thesis
    by (auto simp: step_effect_def split: if_splits)
qed (use assms(2) step_effect_refl in simp)

lemma step_effect_prep: "root_ok db \<Longrightarrow> prep_effect db sid new (res, db') \<Longrightarrow> step_effect db db'"
  by (auto simp: step_effect_def prep_effect_def split: sum.splits)

lemma ensure_settings_effect:
  assumes "root_ok db"
  shows "prep_effect db sid (settings_effect db sid default_settings True) (ensure_preparation_settings db sid env)"
proof (cases "read_view db sid env")
  case (Inl e)
  then show ?thesis using assms by (simp add: ensure_preparation_settings_def prep_effect_error)
next
  case (Inr p)
  obtain source row env1 where p: "p = ((source, row), env1)" by (metis surj_pair)
  have R: "source_at db sid = Some source" "prep_of db sid = row"
    using read_view_Inr [of db sid env source row env1] Inr p assms by auto
  show ?thesis
  proof (cases row)
    case None
    then show ?thesis using select_settings_effect [OF assms, of sid default_settings True env1] Inr p
      by (simp add: ensure_preparation_settings_def)
  next
    case (Some r)
    then have "settings_effect db sid default_settings True r" using R by (simp add: settings_effect_def)
    then show ?thesis using prep_effect_same [OF assms, of sid r] R Some Inr p
      by (simp add: ensure_preparation_settings_def)
  qed
qed

lemma control_step_effect:
  assumes "control_step db db'" "root_ok db"
  shows "step_effect db db'"
  using assms
proof cases
  case (commit cap key obj env sres)
  then show ?thesis using commit_current_source_cases step_effect_commit assms(2) by (metis root_ok_def)
next
  case (writer_commit cap key obj env sres)
  then show ?thesis using writer_commit_current_source_cases step_effect_commit assms(2) by (metis root_ok_def)
next
  case (remove expected env ures)
  from remove_frame [OF this assms(2)] show ?thesis
    using step_effect_refl [OF assms(2)] by (auto simp: step_effect_def restrict_map_def split: if_splits)
next
  case (admit rnd to_vec from_slice sel env ures)
  from admit_frame [OF this(2) assms(2) this(1)] show ?thesis by (simp add: step_effect_def)
next
  case (ensure_settings sid env pres)
  then show ?thesis using ensure_settings_effect [OF assms(2), of sid env] step_effect_prep [OF assms(2)] by simp
next
  case (writer_ensure_settings sid env pres)
  then show ?thesis
    using select_settings_on_effect [OF assms(2), of sid default_settings True env] step_effect_prep [OF assms(2)]
    by (simp add: writer_ensure_preparation_settings_def)
next
  case (outcome res pcap env pres)
  then show ?thesis using commit_preparation_effect [OF assms(2), of res pcap env] step_effect_prep [OF assms(2)] by simp
next
  case (writer_outcome res pcap env pres)
  then show ?thesis using writer_commit_preparation_effect [OF assms(2), of res pcap env] step_effect_prep [OF assms(2)] by simp
qed

lemma run_ok:
  assumes "control_step\<^sup>*\<^sup>* db db'" "root_ok db"
  shows "root_ok db' \<and> wanted_of db \<le> wanted_of db' \<and>
    (wanted_of db' = wanted_of db \<longrightarrow> sources_of db' = sources_of db \<and> prep_of db' = prep_of db)"
  using assms
proof (induction rule: rtranclp_induct)
  case (step y z)
  then show ?case using control_step_effect [of y z] by (auto simp: step_effect_def)
qed simp

lemma fresh_root_ok:
  "db_ok db \<Longrightarrow> db_multimaps db = [] \<Longrightarrow> fresh_control db \<Longrightarrow> root_ok db"
  by (simp add: root_ok_def control_ok_def preps_inv_def fresh_no_preps)

end
