(* ===== verification/ControlProgress.thy ===== *)
theory ControlProgress
  imports ControlRun
begin

text \<open>
  Progress: on a consistent database and without interruption the operations do return.
\<close>

section \<open>Progress of source commits\<close>

lemma source_revisions_new:
  assumes "namespace_guard cap db" "new_guard cap db"
  shows "source_revisions cap db [] = Inr (((1, 1), opened db), [])"
  using assms unfolding source_revisions_def namespace_guard_def new_guard_def
  by (cases "sc_expected_namespace cap") (simp_all add: opened_def)

lemma source_revisions_next:
  assumes "namespace_guard cap db" "head_guard cap db cur" "row_revision cur + 1 < u64_bound"
  shows "source_revisions cap db [] = Inr (((row_revision cur + 1, registration_revision cur), opened db), [])"
  using assms unfolding source_revisions_def namespace_guard_def head_guard_def
  by (cases "sc_expected_namespace cap") (auto simp: opened_def checked_add64_def)

lemma advance_wanted_quiet:
  assumes "\<And>bs. st_of db WANTED_REVISION_KEY = Some bs \<Longrightarrow> length bs = 8" "wanted_of db + 1 < u64_bound"
  shows "\<exists>db'. advance_wanted_revision db [] = Inr (db', [])"
  using assms unfolding advance_wanted_revision_def write_wanted_revision_def
  by (cases "st_of db WANTED_REVISION_KEY") (auto simp: wanted_of_def u64_value_def checked_add64_def)

lemma control_wanted_width:
  assumes "control_ok db" "st_of db WANTED_REVISION_KEY = Some bs"
  shows "length bs = 8"
  using assms fresh_empty [of db SOURCE_STATE] by (auto simp: control_ok_def sources_inv_def)

definition head_storable :: "NativeFileKey \<Rightarrow> ObjectRef \<Rightarrow> bytes \<Rightarrow> bool" where
  "head_storable key obj loc \<longleftrightarrow> wf_head key obj \<and> obj_kind obj = Source \<and>
     format_version obj = SOURCE_OBJECT_FORMAT_VERSION \<and> loc \<noteq> [] \<and> length loc \<le> MAX_LOCATOR_BYTES"

lemma commit_body_progress:
  assumes "control_ok db" "namespace_guard cap db"
    and "new_guard cap db \<or> (\<exists>cur. head_guard cap db cur \<and> row_revision cur + 1 < u64_bound)"
    and "head_storable key obj (sc_locator cap)" "wanted_of db + 1 < u64_bound"
  shows "\<exists>rec w. commit_source_body cap key obj db [] = Inr ((rec, w), [])"
proof -
  have ok: "db_ok db" using assms(1) by (rule control_db_ok)
  obtain row reg where sr: "source_revisions cap db [] = Inr (((row, reg), opened db), [])" "row \<noteq> 0" "reg \<noteq> 0"
    using assms(3) source_revisions_new [OF assms(2)] source_revisions_next [OF assms(2)] decode_record_Inr
    by (force simp: head_guard_def)
  obtain enc where e: "encode_record (head_record cap key obj row reg) = Inr enc"
    using assms(4) sr(2,3) by (auto simp: encode_record_def head_record_def head_storable_def try_from_def
        MAX_LOCATOR_BYTES_def)
  let ?w = "put_in SOURCE_LOCATORS (sc_locator cap) (sc_source_id cap)
      (put_in SOURCE_ROWS (sc_source_id cap) enc (base_write cap db))"
  have st: "st_of ?w WANTED_REVISION_KEY = st_of db WANTED_REVISION_KEY"
    using ok by (simp add: the_table_put_in base_write_tables)
  have "\<exists>db'. advance_wanted_revision ?w [] = Inr (db', [])"
    using control_wanted_width [OF assms(1)] assms(5) st wanted_of_cong [OF st]
    by (intro advance_wanted_quiet) auto
  then obtain db' where a: "advance_wanted_revision ?w [] = Inr (db', [])" by blast
  have u: "\<exists>x. unchanged_head cap key obj db = Inr x"
    using assms(3) by (auto simp: unchanged_head_def new_guard_def head_guard_def)
  then show ?thesis unfolding commit_body_quiet [OF sr(1)] using e a by (auto split: option.splits)
qed

lemma commit_source_progress_aux:
  assumes "control_ok db" "capture_source_database r1 r2 db loc env = Inr (cap, env')" "rnd_ok r1" "rnd_ok r2"
    and "head_storable key obj loc" "wanted_of db + 1 < u64_bound"
    and "case sources_of db loc of None \<Rightarrow> rows_of db (sc_source_id cap) = None | Some r \<Rightarrow> row_revision r + 1 < u64_bound"
  shows "\<exists>rec db'. commit_current_source db cap key obj [] = (Inr rec, db') \<and> sources_of db' loc = Some rec \<and>
    object_ref rec = obj \<and> file_key rec = key"
proof -
  note C = capture_Inr [OF assms(2,1,3,4)]
  have ng: "namespace_guard cap db"
  proof (cases "fresh_control db")
    case True
    then show ?thesis using C fresh_empty [OF True] by (simp add: namespace_guard_def)
  next
    case False
    then show ?thesis using C by (simp add: namespace_guard_def sources_inv_def)
  qed
  have g: "new_guard cap db \<or> (\<exists>cur. head_guard cap db cur \<and> row_revision cur + 1 < u64_bound)"
  proof (cases "sources_of db loc")
    case None
    have "locs_of db loc = None"
    proof (cases "fresh_control db")
      case True
      then show ?thesis using fresh_empty [OF True] by simp
    next
      case False
      then show ?thesis using C sources_of_None None by auto
    qed
    then show ?thesis using C None assms(7) by (simp add: new_guard_def)
  next
    case (Some r)
    have "\<not> fresh_control db" using Some fresh_empty [of db SOURCE_LOCATORS] by (auto simp: sources_of_def)
    then have "sources_inv (sc_namespace_id cap) db" using C by blast
    from sources_of_row [OF this Some] show ?thesis using C Some assms(7) by (auto simp: head_guard_def)
  qed
  have wf: "wf_capture cap" "sc_locator cap = loc" "wf_head key obj" using C assms(5) by (auto simp: head_storable_def)
  obtain rec w where b: "commit_source_body cap key obj db [] = Inr ((rec, w), [])"
    using commit_body_progress [OF assms(1) ng g _ assms(6)] assms(5) wf(2) by blast
  then obtain db' where c: "commit_current_source db cap key obj [] = (Inr rec, db')"
    by (cases w) (auto simp: commit_current_source_def commit_source_database_def)
  show ?thesis
    using c commit_source_refines_registry_aux [OF c assms(1) wf(1,3)] wf(2)
      commit_source_cas_aux [OF assms(2) c assms(1,1,3,4) wf(3)] by auto
qed

section \<open>Progress of preparations\<close>

lemma read_source_by_id_quiet:
  "control_ok db \<Longrightarrow> source_at db sid = Some s \<Longrightarrow> read_source_by_id db sid [] = Inr (Some s, [])"
proof -
  assume a: "control_ok db" "source_at db sid = Some s"
  have S: "rows_of db sid \<noteq> None" "source_id s = sid" using source_at_storable [OF a] by simp_all
  then have "\<not> fresh_control db" using fresh_empty [of db SOURCE_ROWS] by auto
  then have "get_table db SOURCE_ROWS = Some (the_table db SOURCE_ROWS)"
    using a(1) current_tables by (auto simp: control_ok_def)
  then show ?thesis using a(2) S
    by (auto simp: read_source_by_id_def source_at_def bind_eq_Some_conv res_simps split: option.splits)
qed

lemma source_namespace:
  assumes "control_ok db" "source_at db sid = Some s"
  shows "read_namespace db [] = Inr (Some (source_namespace_id s), []) \<and> \<not> fresh_control db \<and>
    st_of db SCHEMA_VERSION_KEY = Some SOURCE_SCHEMA_VERSION \<and> st_of db NAMESPACE_KEY = Some (source_namespace_id s)"
proof -
  have "\<not> fresh_control db"
    using source_at_storable [OF assms] fresh_empty [of db SOURCE_ROWS] by auto
  then obtain ns where i: "sources_inv ns db" "current_schema db" using assms(1) by (auto simp: control_ok_def)
  have "source_namespace_id s = ns"
    using source_at_sources [OF i(1)] assms(2) sources_of_row [OF i(1)] by blast
  then show ?thesis
    using read_namespace_quiet [OF i(2,1)] i \<open>\<not> fresh_control db\<close> by (auto simp: sources_inv_def)
qed

lemma read_database_quiet:
  assumes "root_ok db" "source_at db sid = Some s"
  shows "read_database db sid [] = Inr ((s, prep_of db sid), [])"
proof -
  have c: "control_ok db" "preps_inv db" using assms(1) by (simp_all add: root_ok_def)
  note N = source_namespace [OF c(1) assms(2)]
  note eqs = schema_of_control [OF c(1)] read_source_by_id_quiet [OF c(1) assms(2)]
  show ?thesis
  proof (cases "prep_of db sid")
    case None
    then have "preps_of db sid = None" using prep_of_None [OF c(2)] by blast
    then show ?thesis using None N eqs
      by (cases "get_table db PREPARATIONS") (simp_all add: read_database_def the_table_def)
  next
    case (Some row)
    from prep_of_row [OF c(2) this] obtain bs where b: "preps_of db sid = Some bs" "prep_decode bs = Inr row"
        "cp_source_id row = sid" "st_of db NAMESPACE_KEY = Some (cp_namespace_id row)" by blast
    then show ?thesis using Some N eqs
      by (cases "get_table db PREPARATIONS") (simp_all add: read_database_def the_table_def)
  qed
qed

lemma read_view_quiet:
  "root_ok db \<Longrightarrow> source_at db sid = Some s \<Longrightarrow> read_view db sid [] = Inr ((s, prep_of db sid), [])"
  by (simp add: read_view_def read_database_quiet)

lemma write_source_quiet:
  assumes "control_ok db" "source_at db sid = Some s"
  shows "write_source sid db [] = Inr ((s, ensure SOURCE_ROWS (ensure SOURCE_STATE db)), [])"
proof -
  obtain bs where b: "rows_of db sid = Some bs" "decode_record bs = Inr s"
    using assms(2) by (auto simp: source_at_def bind_eq_Some_conv res_simps)
  show ?thesis using source_namespace [OF assms] source_at_storable [OF assms] b
    by (simp add: write_source_def)
qed

lemma find_row_quiet:
  assumes "preps_inv db"
  shows "find_row sid db [] = Inr (prep_of db sid, [])"
proof (cases "preps_of db sid")
  case None
  then show ?thesis by (simp add: find_row_def prep_of_def)
next
  case (Some bs)
  then show ?thesis using assms by (fastforce simp: find_row_def prep_of_def preps_inv_def)
qed

lemma advance_prep_quiet:
  assumes "control_ok db" "wanted_of db + 1 < u64_bound"
  shows "advance_wanted_revision (put_in PREPARATIONS sid bs (ensure PREPARATIONS (ensure SOURCE_ROWS (ensure SOURCE_STATE db)))) [] =
    Inr (prep_write sid bs db, [])"
proof -
  let ?w = "put_in PREPARATIONS sid bs (ensure PREPARATIONS (ensure SOURCE_ROWS (ensure SOURCE_STATE db)))"
  have st: "st_of ?w WANTED_REVISION_KEY = st_of db WANTED_REVISION_KEY" by (simp add: the_table_put_in)
  obtain w where w: "advance_wanted_revision ?w [] = Inr (w, [])"
    using advance_wanted_quiet [of ?w] control_wanted_width [OF assms(1)] assms(2) st wanted_of_cong [OF st] by auto
  then show ?thesis using advance_after_put [OF w] by simp
qed

lemma preps_inv_opened:
  "preps_inv (ensure PREPARATIONS (ensure SOURCE_ROWS (ensure SOURCE_STATE db))) = preps_inv db"
  "prep_of (ensure PREPARATIONS (ensure SOURCE_ROWS (ensure SOURCE_STATE db))) = prep_of db"
  by (simp_all add: preps_inv_def prep_of_def fun_eq_iff)

lemma ensure_settings_progress:
  assumes "root_ok db" "source_at db sid = Some s" "prep_of db sid = None" "wanted_of db + 1 < u64_bound"
  shows "\<exists>db'. ensure_preparation_settings db sid [] = (Inr (initial_prep s default_settings), db')"
proof -
  have c: "control_ok db" "preps_inv db" using assms(1) by (simp_all add: root_ok_def)
  let ?row = "initial_prep s default_settings"
  have sid: "source_id s = sid" using source_at_storable [OF c(1) assms(2)] by simp
  obtain bs where e: "prep_encode ?row = Inr bs"
    by (auto simp: prep_encode_def prep_validate_def initial_prep_def default_settings_supported)
  have "write_settings sid default_settings s None db [] = Inr ((prep_write sid bs db, ?row), [])"
    using write_source_quiet [OF c(1) assms(2)] find_row_quiet preps_inv_opened c(2) assms(3) e sid
      advance_prep_quiet [OF c(1) assms(4)]
    by (simp add: write_settings_def initial_prep_def)
  then show ?thesis using read_view_quiet [OF assms(1,2)] assms(3)
    by (simp add: ensure_preparation_settings_def select_settings_def default_settings_supported finish_commit_def)
qed

lemma capture_preparation_quiet:
  assumes "root_ok db" "source_at db sid = Some s" "prep_of db sid = Some row"
  shows "\<exists>cap. capture_preparation db sid [] = Inr (cap, []) \<and> guards_hold cap db row \<and> pc_source cap = s"
proof -
  have "source_id s = sid" using source_at_storable assms(1,2) by (auto simp: root_ok_def)
  then show ?thesis using read_view_quiet [OF assms(1,2)] assms(2,3)
    by (simp add: capture_preparation_def capture_view_def guards_hold_def)
qed

lemma capture_preparation_Inr:
  assumes "capture_preparation db sid env = Inr (cap, env')" "root_ok db"
  shows "source_at db sid = Some (pc_source cap) \<and> source_id (pc_source cap) = sid \<and>
    (\<exists>row. prep_of db sid = Some row \<and> guards_hold cap db row)"
proof -
  obtain row env1 where r: "read_view db sid env = Inr ((pc_source cap, Some row), env1)"
    and c: "pc_settings cap = cp_settings row" "pc_settings_revision cap = cp_settings_revision row"
      "pc_expected_outcome_revision cap = cp_outcome_revision row" "pc_expected_outcome cap = cp_outcome row"
    using assms(1) by (auto simp: capture_preparation_def capture_view_def res_simps)
  have "source_at db sid = Some (pc_source cap)" using read_view_Inr [OF r assms(2)] by simp
  moreover then have "source_id (pc_source cap) = sid"
    using source_at_storable assms(2) by (auto simp: root_ok_def)
  ultimately show ?thesis using read_view_Inr [OF r assms(2)] c
    by (auto simp: guards_hold_def intro!: exI [of _ row])
qed

lemma commit_preparation_progress_aux:
  assumes "root_ok db" "guards_hold cap db old" "check_outcome res [] = Inr []"
    and "cp_outcome_revision old + 1 < u64_bound" "wanted_of db + 1 < u64_bound"
  shows "\<exists>db'. commit_preparation db cap res [] = (Inr (install cap res old), db')"
proof -
  let ?sid = "source_id (pc_source cap)" and ?row = "install cap res old"
  have c: "control_ok db" "preps_inv db" using assms(1) by (simp_all add: root_ok_def)
  have g: "source_at db ?sid = Some (pc_source cap)" "prep_of db ?sid = Some old"
    "cp_settings old = pc_settings cap" "cp_settings_revision old = pc_settings_revision cap"
    "cp_outcome old = pc_expected_outcome cap" "cp_outcome_revision old = pc_expected_outcome_revision cap"
    using assms(2) by (simp_all add: guards_hold_def)
  from prep_of_row [OF c(2) g(2)] obtain v where v: "preps_of db ?sid = Some v" "prep_decode v = Inr old"
    "cp_source_id old = ?sid" "st_of db NAMESPACE_KEY = Some (cp_namespace_id old)" by blast
  have ns: "cp_namespace_id old = source_namespace_id (pc_source cap)"
    using source_namespace [OF c(1) g(1)] v(4) by simp
  have val: "prep_validate old = Inr ()" using prep_decode_Inr [OF v(2)] by simp
  obtain b where b: "rows_of db ?sid = Some b" "decode_record b = Inr (pc_source cap)"
    using g(1) by (auto simp: source_at_def bind_eq_Some_conv res_simps)
  note D = decode_record_Inr [OF b(2)]
  have "prep_validate ?row = Inr ()"
  proof (cases "?row = old")
    case False
    then have "?row = old\<lparr>cp_outcome_revision := cp_outcome_revision old + 1, cp_outcome := Some (bound_outcome cap res)\<rparr>"
      unfolding install_def by metis
    then show ?thesis using val D assms(3) g(3)
      by (cases res) (auto simp: prep_validate_def bound_outcome_def valid_object_def check_outcome_def
          SOURCE_OBJECT_FORMAT_VERSION_def split: if_splits)
  qed (use val in simp)
  then obtain bs where e: "prep_encode ?row = Inr bs" by (simp add: prep_encode_eq)
  have ready: "(case cp_outcome old of None \<Rightarrow> False
       | Some out \<Rightarrow> matches_input out (pc_source cap) (pc_settings cap) \<and> is_ready (bo_result out)) = ready_for old (pc_source cap)"
    using g(3) by (simp add: ready_for_def split: option.splits)
  have out: "\<lparr>bo_source_row_revision = row_revision (pc_source cap), bo_registration_revision = registration_revision (pc_source cap),
      bo_input = object_ref (pc_source cap), bo_settings = pc_settings cap, bo_result = res\<rparr> = bound_outcome cap res"
    by (simp add: bound_outcome_def)
  have "\<exists>w. write_outcome cap res db [] = Inr ((w, ?row), []) \<and> (w = None \<or> (\<exists>work. w = Some work))"
  proof (cases "\<not> is_ready res \<and> ready_for old (pc_source cap) \<or> cp_outcome old = Some (bound_outcome cap res)")
    case True
    then show ?thesis
      using write_source_quiet [OF c(1) g(1)] v(1-3) ns g(3-6) ready out
      by (auto simp: write_outcome_def Let_def install_def)
  next
    case False
    then have "?row = old\<lparr>cp_outcome_revision := cp_outcome_revision old + 1, cp_outcome := Some (bound_outcome cap res)\<rparr>"
      by (simp add: install_def)
    then show ?thesis
      using write_source_quiet [OF c(1) g(1)] v(1-3) ns g(3-6) ready out False e assms(4)
        advance_prep_quiet [OF c(1) assms(5)]
      by (auto simp: write_outcome_def Let_def checked_add64_def)
  qed
  then show ?thesis using assms(3) by (auto simp: commit_preparation_def finish_commit_def)
qed

end
