(* ===== verification/ControlProperties.thy ===== *)
theory ControlProperties
  imports ControlProgress
begin

text \<open>
  Properties of source commits that return, of preparations and of whole runs of the control
  database; and a concrete run (a fresh database, a registered source, its settings and a
  first outcome) at which the properties of the control database apply.
\<close>

section \<open>Progress\<close>

text \<open>
  A commit of a captured head does return: on a consistent database, from a capture of that
  database, with a storable head, no exhausted revision, an identity that is not in use (for a
  new locator) and no interruption, \<open>commit_current_source\<close> returns a record with the proposed
  content and the registry has it.
\<close>

theorem commit_source_progress:
  assumes "control_ok db" "capture_source_database r1 r2 db loc env = Inr (cap, env')" "rnd_ok r1" "rnd_ok r2"
    and "head_storable key obj loc" "wanted_of db + 1 < u64_bound"
    and "case sources_of db loc of None \<Rightarrow> rows_of db (sc_source_id cap) = None | Some r \<Rightarrow> row_revision r + 1 < u64_bound"
  shows "\<exists>rec db'. commit_current_source db cap key obj [] = (Inr rec, db') \<and> sources_of db' loc = Some rec \<and>
    object_ref rec = obj \<and> file_key rec = key"
  by (rule commit_source_progress_aux [OF assms])

section \<open>Properties of preparations\<close>

text \<open>
  Rows of the preparation table are read back exactly: the decoder returns the row an
  encoder wrote, accepts nothing but encodings of valid rows, and every row it returns has
  values of the declared widths.
\<close>

theorem preparation_row_roundtrip:
  "(storable_prep row \<longrightarrow> prep_encode row = Inr bs \<longrightarrow> prep_decode bs = Inr row) \<and>
   (prep_decode bs = Inr row \<longrightarrow> prep_encode row = Inr bs \<and> storable_prep row)"
  using preps.dec_enc preps.enc_dec prep_decode_Inr by blast

text \<open>
  C11: Committing an outcome is guarded by everything that was captured: when
  \<open>commit_preparation\<close> returns a row, the source, the settings, their revision and the expected
  outcome were still the captured ones, the row is the old one with the outcome installed
  (\<open>install\<close>: unchanged, or the next outcome revision bound to the captured input), and exactly
  that source's preparation changed. On an error nothing changed, or a commit whose outcome is
  unknown installed the same row. The sources never change and the database stays consistent.
\<close>

theorem commit_preparation_installs:
  assumes "commit_preparation db cap res env = (out, db')" "root_ok db" "wf_outcome res"
  shows "root_ok db' \<and> sources_of db' = sources_of db \<and>
    (case out of
       Inr row \<Rightarrow> (\<exists>old. guards_hold cap db old \<and> row = install cap res old) \<and>
         prep_of db' = (prep_of db)(source_id (pc_source cap) \<mapsto> row)
     | Inl e \<Rightarrow> db' = db \<or> (\<exists>old. guards_hold cap db old \<and>
         prep_of db' = (prep_of db)(source_id (pc_source cap) \<mapsto> install cap res old)))"
  using commit_preparation_effect [OF assms(2,3), of cap env] assms(1)
  by (auto simp: prep_effect_def split: sum.splits)

text \<open>
  C12: No lost outcome: of two captures of one preparation, the first commit that changes the row
  makes the other capture stale. The second commit returns an error and leaves the database as
  it was, so the newer outcome stays.
\<close>

theorem preparation_no_lost_outcome:
  assumes "capture_preparation db0 sid env1 = Inr (cap1, env1')" "capture_preparation db0 sid env2 = Inr (cap2, env2')"
    and "commit_preparation db0 cap1 res1 env3 = (Inr row1, db1)" "prep_of db0 sid \<noteq> Some row1"
    and "commit_preparation db1 cap2 res2 env4 = (out, db2)"
    and "root_ok db0" "wf_outcome res1" "wf_outcome res2"
  shows "(\<exists>e. out = Inl e) \<and> db2 = db1 \<and> prep_of db2 sid = Some row1"
proof -
  have c1: "source_id (pc_source cap1) = sid" and c2: "source_id (pc_source cap2) = sid"
    using capture_preparation_Inr assms(1,2,6) by blast+
  obtain old where old: "prep_of db0 sid = Some old" "guards_hold cap1 db0 old" "guards_hold cap2 db0 old"
    using capture_preparation_Inr [OF assms(1,6)] capture_preparation_Inr [OF assms(2,6)] by auto
  have E1: "root_ok db1" "\<exists>old. guards_hold cap1 db0 old \<and> row1 = install cap1 res1 old"
      "prep_of db1 = (prep_of db0)(sid \<mapsto> row1)"
    using commit_preparation_effect [OF assms(6,7), of cap1 env3] assms(3) c1 by (auto simp: prep_effect_def)
  then have "row1 = install cap1 res1 old" using old c1 by (auto simp: guards_hold_def)
  then have "cp_outcome_revision row1 = cp_outcome_revision old + 1"
    using assms(4) old(1) by (auto simp: install_def split: if_splits)
  then have none: "\<not> guards_hold cap2 db1 x" for x
    using E1(3) old(3) c2 by (auto simp: guards_hold_def)
  then show ?thesis
    using commit_preparation_effect [OF E1(1) assms(8), of cap2 env4] assms(5) E1(3)
    by (auto simp: prep_effect_def split: sum.splits)
qed

text \<open>
  C13: A prepared artifact is never replaced by a failure for the same input: when the row of a
  source has a ready artifact for its current registration, content and settings, no commit of
  a gap, with any capture and any interruption, changes any preparation.
\<close>

theorem ready_is_kept:
  assumes "source_at db sid = Some source" "prep_of db sid = Some row" "ready_for row source"
    and "commit_preparation db cap (Gap g) env = (out, db')" "source_id (pc_source cap) = sid" "root_ok db"
  shows "prep_of db' = prep_of db"
proof -
  have "install cap (Gap g) old = row" if "guards_hold cap db old" for old
    using that assms(1-3,5) by (auto simp: guards_hold_def install_def is_ready_def)
  then show ?thesis
    using commit_preparation_effect [OF assms(6), of "Gap g" cap env] assms(2,4,5)
    by (auto simp: prep_effect_def map_upd_triv split: sum.splits)
qed

text \<open>
  Settings are initialized once: \<open>ensure_preparation_settings\<close> returns the row that is
  already selected and changes no preparation, or, when nothing was selected, installs the
  supported default settings with revision 1 and no outcome for an existing source.
\<close>

theorem ensure_settings_initializes:
  assumes "ensure_preparation_settings db sid env = (Inr row, db')" "root_ok db"
  shows "prep_of db' = (prep_of db)(sid \<mapsto> row) \<and> sources_of db' = sources_of db \<and> root_ok db' \<and>
    (case prep_of db sid of
       Some old \<Rightarrow> row = old
     | None \<Rightarrow> \<exists>source. source_at db sid = Some source \<and> row = initial_prep source default_settings \<and>
         is_supported (cp_settings row))"
  using ensure_settings_effect [OF assms(2), of sid env] assms(1) default_settings_supported
  by (auto simp: prep_effect_def settings_effect_def initial_prep_def split: option.splits)

section \<open>Properties of runs\<close>

text \<open>
  C22: Every database that a run of the operations reaches from a fresh one is consistent: one
  namespace, locators and rows inverse to each other, every row and preparation readable and
  bound to its source, whatever is interrupted or fails on the way. A run commits what its
  callers commit (\<open>control_step\<close>): captures with identities of 16 bytes, file keys and object
  references within their types' widths, and source objects of at most
  \<open>MAX_SOURCE_OBJECT_BYTES\<close>, the bound that the object store enforces before it returns a
  reference; \<open>commit_current_source\<close> itself does not check that bound, and a commit above it
  would store a row that no later operation decodes.
\<close>

theorem runs_stay_consistent:
  assumes "control_step\<^sup>*\<^sup>* db db'" "db_ok db" "db_multimaps db = []" "fresh_control db"
  shows "root_ok db'"
  using run_ok [OF assms(1) fresh_root_ok [OF assms(2-4)]] by blast

text \<open>
  C10: The wanted revision identifies the corpus: it never decreases along a run, and two
  databases of one run with the same wanted revision have the same sources and preparations.
\<close>

theorem wanted_revision_identifies_corpus:
  assumes "root_ok db0" "control_step\<^sup>*\<^sup>* db0 db1" "control_step\<^sup>*\<^sup>* db1 db2"
  shows "wanted_of db1 \<le> wanted_of db2 \<and>
    (wanted_of db1 = wanted_of db2 \<longrightarrow> sources_of db1 = sources_of db2 \<and> prep_of db1 = prep_of db2)"
  using run_ok [OF assms(2,1)] run_ok [OF assms(3)] by auto

text \<open>
  One operation at a time advances a source by at most one revision: a locator registered
  before and after a step keeps its source identity, and its record is the same or has the next
  row revision.
\<close>

theorem steps_advance_rows:
  assumes "control_step db db'" "root_ok db" "sources_of db loc = Some r" "sources_of db' loc = Some r'"
  shows "source_id r' = source_id r \<and> (r' = r \<or> row_revision r' = row_revision r + 1)"
  using control_step_effect [OF assms(1,2)] assms(3,4) unfolding step_effect_def by blast

section \<open>A concrete run\<close>

definition ex_db :: Database where
  "ex_db = \<lparr>db_tables = [(META_TABLE_NAME, [])], db_multimaps = []\<rparr>"

definition ex_loc :: bytes where "ex_loc = as_bytes ''/a''"

definition ex_key :: NativeFileKey where "ex_key = Unix 1 2"

definition ex_object :: "nat \<Rightarrow> ObjectRef" where
  "ex_object n = object_source (replicate 32 7) n"

definition ex_cap :: SourceCapture where
  "ex_cap = \<lparr>sc_namespace_id = replicate 16 1, sc_source_id = replicate 16 2, sc_locator = ex_loc,
     sc_expected_namespace = None, sc_expected_row_revision = None, sc_expected_registration_revision = None\<rparr>"

lemma ex_db_fresh: "fresh_control ex_db" "db_ok ex_db" "db_multimaps ex_db = []"
  by (simp_all add: fresh_control_def ex_db_def list_tables_def db_ok_def pub_ok_def table_name_defs)

lemma ex_control: "control_ok ex_db" "root_ok ex_db"
  using ex_db_fresh fresh_root_ok by (auto simp: control_ok_def)

lemma ex_capture:
  "capture_source_database (Some (replicate 16 1)) (Some (replicate 16 2)) ex_db ex_loc [] = Inr (ex_cap, [])"
  using ex_control ex_db_fresh by (simp add: capture_source_database_def random_id_def ex_cap_def)

lemma ex_head: "n \<le> 100 \<Longrightarrow> head_storable ex_key (ex_object n) ex_loc" "n \<le> 100 \<Longrightarrow> wf_head ex_key (ex_object n)"
  by (simp_all add: head_storable_def wf_head_def ex_key_def ex_object_def object_source_def wf_object_def
      ex_loc_def as_bytes_def MAX_LOCATOR_BYTES_def MAX_SOURCE_OBJECT_BYTES_def SOURCE_OBJECT_FORMAT_VERSION_def)

lemma ex_rnd: "rnd_ok (Some (replicate 16 b))"
  by (simp add: rnd_ok_def)

lemma ex_empty: "wanted_of ex_db = 0" "sources_of ex_db loc = None" "rows_of ex_db sid = None" "prep_of ex_db sid = None"
  using fresh_empty [OF ex_db_fresh(1)] by (simp_all add: wanted_of_def sources_of_def prep_of_def)

definition ex_db1 :: Database where
  "ex_db1 = snd (commit_current_source ex_db ex_cap ex_key (ex_object 8) [])"

definition ex_rec :: CurrentSourceRecord where
  "ex_rec = \<lparr>source_namespace_id = replicate 16 1, source_id = replicate 16 2, row_revision = 1,
     registration_revision = 1, locator = ex_loc, file_key = ex_key, object_ref = ex_object 8\<rparr>"

lemma ex_commit: "commit_current_source ex_db ex_cap ex_key (ex_object 8) [] = (Inr ex_rec, ex_db1)"
proof -
  obtain rec db' where c: "commit_current_source ex_db ex_cap ex_key (ex_object 8) [] = (Inr rec, db')"
    using commit_source_progress_aux [OF ex_control(1) ex_capture ex_rnd ex_rnd ex_head(1), of 8] by (auto simp: ex_empty)
  have wf: "wf_capture ex_cap" by (simp add: wf_capture_def ex_cap_def)
  obtain w where w: "commit_source_body ex_cap ex_key (ex_object 8) ex_db [] = Inr ((rec, w), [])"
    using commit_success_body [OF c ex_control(1) wf ex_head(2)] by auto
  have "rec = ex_rec"
  proof (cases w)
    case None
    then show ?thesis using commit_body_None w ex_empty by (fastforce simp: head_guard_def)
  next
    case (Some work)
    then show ?thesis using commit_body_Some [of ex_cap ex_key "ex_object 8" ex_db rec work "[]"] w ex_empty ex_db_fresh
      by (auto simp: head_guard_def head_record_def ex_rec_def ex_cap_def)
  qed
  then show ?thesis using c by (simp add: ex_db1_def)
qed

lemma ex_db1_facts:
  "control_ok ex_db1" "root_ok ex_db1" "sources_of ex_db1 = [ex_loc \<mapsto> ex_rec]" "wanted_of ex_db1 = 1"
  "prep_of ex_db1 = Map.empty" "source_at ex_db1 (replicate 16 2) = Some ex_rec"
proof -
  have wf: "wf_capture ex_cap" by (simp add: wf_capture_def ex_cap_def)
  have c: "sources_of ex_db1 = (sources_of ex_db)(ex_loc \<mapsto> ex_rec)"
    using commit_source_refines_registry_aux [OF ex_commit ex_control(1) wf ex_head(2)] by (simp add: ex_cap_def)
  then show s: "sources_of ex_db1 = [ex_loc \<mapsto> ex_rec]" using ex_empty by (simp add: fun_eq_iff)
  have "ex_db1 \<noteq> ex_db" using fun_cong [OF s, of ex_loc] ex_empty by auto
  then obtain rec where b: "commit_source_body ex_cap ex_key (ex_object 8) ex_db [] = Inr ((rec, Some ex_db1), [])"
    using commit_current_source_cases [OF ex_commit ex_control(1) wf ex_head(2)] by auto
  note F = commit_body_frame [OF b ex_control(2) wf ex_head(2)]
  show r: "root_ok ex_db1" "wanted_of ex_db1 = 1" using F ex_empty by auto
  show "control_ok ex_db1" using r by (simp add: root_ok_def)
  show "prep_of ex_db1 = Map.empty" using F ex_empty by (auto simp: fun_eq_iff)
  have "\<not> fresh_control ex_db1" using fun_cong [OF s, of ex_loc] fresh_empty [of ex_db1 SOURCE_LOCATORS] by (auto simp: sources_of_def)
  then obtain ns where "sources_inv ns ex_db1" using r(1) control_inv by (auto simp: root_ok_def)
  then show "source_at ex_db1 (replicate 16 2) = Some ex_rec"
    using source_at_sources s by (simp add: ex_rec_def)
qed

lemma ex_db1_tables:
  "\<exists>enc. the_table ex_db1 SOURCE_ROWS = [(replicate 16 2, enc)] \<and> decode_record enc = Inr ex_rec \<and>
     encode_record ex_rec = Inr enc \<and> the_table ex_db1 SOURCE_LOCATORS = [(ex_loc, replicate 16 2)]"
proof -
  have wf: "wf_capture ex_cap" by (simp add: wf_capture_def ex_cap_def)
  have "ex_db1 \<noteq> ex_db" using fun_cong [OF ex_db1_facts(3), of ex_loc] ex_empty by auto
  then obtain rec where b: "commit_source_body ex_cap ex_key (ex_object 8) ex_db [] = Inr ((rec, Some ex_db1), [])"
    using commit_current_source_cases [OF ex_commit ex_control(1) wf ex_head(2)] by auto
  obtain enc where e: "encode_record rec = Inr enc" "ex_db1 = head_write ex_cap enc ex_db"
    using commit_body_Some [OF b ex_db_fresh(2)] by blast
  have r: "rec = ex_rec"
    using commit_body_safe [OF b ex_control(1) wf ex_head(2)] fun_cong [OF ex_db1_facts(3), of ex_loc]
    by (auto simp: ex_cap_def)
  have "storable_source rec" using commit_body_safe [OF b ex_control(1) wf ex_head(2)] by simp
  then have "decode_record enc = Inr ex_rec" using e(1) r rows.dec_enc by blast
  moreover have "the_table ex_db1 SOURCE_ROWS = [(replicate 16 2, enc)]"
      "the_table ex_db1 SOURCE_LOCATORS = [(ex_loc, replicate 16 2)]"
    using fresh_empty [OF ex_db_fresh(1)] ex_db_fresh(2)
    by (simp_all add: e(2) head_write_def Let_def the_table_put_in base_write_tables ex_cap_def)
  ultimately show ?thesis using e(1) r by blast
qed

lemma ex_namespace:
  "read_namespace ex_db1 [] = Inr (Some (replicate 16 1), [])" "\<not> fresh_control ex_db1"
  "st_of ex_db1 SCHEMA_VERSION_KEY = Some SOURCE_SCHEMA_VERSION" "st_of ex_db1 NAMESPACE_KEY = Some (replicate 16 1)"
  using source_namespace [OF ex_db1_facts(1,6)] by (auto simp: ex_rec_def)

lemma ex_inventory: "capture_sources_database ex_db1 [] = Inr ([ex_rec], [])"
proof -
  obtain enc where t: "the_table ex_db1 SOURCE_ROWS = [(replicate 16 2, enc)]" "decode_record enc = Inr ex_rec"
      "the_table ex_db1 SOURCE_LOCATORS = [(ex_loc, replicate 16 2)]" and e: "encode_record ex_rec = Inr enc"
    using ex_db1_tables by blast
  have len: "length enc = 115"
    using e by (auto simp: encode_record_def ex_rec_def ex_loc_def as_bytes_def ex_key_def ex_object_def
        object_source_def try_from_def MAX_LOCATOR_BYTES_def SOURCE_OBJECT_FORMAT_VERSION_def)
  have "current_schema ex_db1" using ex_db1_facts(1) ex_namespace(2) by (auto simp: control_ok_def)
  note g = current_tables [OF this]
  show ?thesis
    using t len ex_namespace(2) g ex_namespace(1) read_source_schema_quiet [OF ex_db1_facts(1)]
    by (simp add: capture_sources_database_def tbl_get_def checked_add64_def MAX_CURRENT_SOURCES_def
        MAX_CURRENT_SOURCE_BYTES_def ex_rec_def ex_loc_def as_bytes_def)
qed

lemma ex_remove: "\<exists>db'. remove_current_sources ex_db1 [ex_rec] [] = (Inr (), db')"
proof -
  obtain enc where t: "the_table ex_db1 SOURCE_ROWS = [(replicate 16 2, enc)]" "decode_record enc = Inr ex_rec"
      "the_table ex_db1 SOURCE_LOCATORS = [(ex_loc, replicate 16 2)]"
    using ex_db1_tables by blast
  have f: "source_id ex_rec = replicate 16 2" "locator ex_rec = ex_loc" "source_namespace_id ex_rec = replicate 16 1"
    by (simp_all add: ex_rec_def)
  let ?o = "opened ex_db1"
  let ?d = "del_in PREPARATIONS (replicate 16 2) (ensure PREPARATIONS
      (del_in SOURCE_LOCATORS ex_loc (del_in SOURCE_ROWS (replicate 16 2) ?o)))"
  have g: "removal_guard (replicate 16 1) [ex_rec] [] [] ?o [] = Inr []"
    using t f by (simp add: tbl_get_def)
  have l: "removal_loop [ex_rec] ?o [] = Inr (?d, [])"
    using t f by (simp add: tbl_get_def the_table_del_in remove_source_preparation_def)
  have st: "st_of ?d WANTED_REVISION_KEY = st_of ex_db1 WANTED_REVISION_KEY" by (simp add: the_table_del_in)
  obtain w where a: "advance_wanted_revision ?d [] = Inr (w, [])"
    using advance_wanted_quiet [of ?d] control_wanted_width [OF ex_db1_facts(1)] wanted_of_cong [OF st] st ex_db1_facts(4)
    by auto
  have "remove_sources_body [ex_rec] ex_db1 [] = Inr (w, [])"
    using g l a ex_namespace(3,4) by (simp add: remove_sources_body_def opened_def id16_def)
  then show ?thesis
    by (simp add: remove_current_sources_def remove_sources_database_def MAX_CURRENT_SOURCES_def)
qed

definition ex_sid :: bytes where "ex_sid = replicate 16 2"

definition ex_db2 :: Database where "ex_db2 = snd (ensure_preparation_settings ex_db1 ex_sid [])"

definition ex_row :: CurrentPreparation where "ex_row = initial_prep ex_rec default_settings"

lemma ex_source_at: "source_at ex_db1 ex_sid = Some ex_rec" "source_id ex_rec = ex_sid"
  using ex_db1_facts(6) by (simp_all add: ex_sid_def ex_rec_def)

lemma ex_settings: "ensure_preparation_settings ex_db1 ex_sid [] = (Inr ex_row, ex_db2)"
  using ensure_settings_progress [OF ex_db1_facts(2) ex_source_at(1)] ex_db1_facts(4,5)
  by (auto simp: ex_db2_def ex_row_def)

lemma ex_db2_facts:
  "root_ok ex_db2" "prep_of ex_db2 = [ex_sid \<mapsto> ex_row]" "source_at ex_db2 ex_sid = Some ex_rec" "wanted_of ex_db2 \<le> 2"
proof -
  have E: "root_ok ex_db2 \<and> sources_of ex_db2 = sources_of ex_db1 \<and> prep_of ex_db2 = (prep_of ex_db1)(ex_sid \<mapsto> ex_row) \<and>
      (ex_db2 = ex_db1 \<or> wanted_of ex_db2 = wanted_of ex_db1 + 1)"
    using ensure_settings_effect [OF ex_db1_facts(2), of ex_sid "[]"] ex_settings by (auto simp: prep_effect_def)
  then show "root_ok ex_db2" "prep_of ex_db2 = [ex_sid \<mapsto> ex_row]" "wanted_of ex_db2 \<le> 2"
    using ex_db1_facts(4,5) by auto
  have s: "sources_of ex_db2 ex_loc = Some ex_rec" using E ex_db1_facts(3) by simp
  then have "\<not> fresh_control ex_db2" using fresh_empty [of ex_db2 SOURCE_LOCATORS] by (auto simp: sources_of_def)
  then obtain ns where "sources_inv ns ex_db2" using E control_inv by (auto simp: root_ok_def)
  then show "source_at ex_db2 ex_sid = Some ex_rec"
    using source_at_sources s by (simp add: ex_rec_def ex_sid_def)
qed

definition ex_pcap :: PreparationCapture where
  "ex_pcap = \<lparr>pc_source = ex_rec, pc_settings = default_settings, pc_settings_revision = 1,
     pc_expected_outcome_revision = 0, pc_expected_outcome = None\<rparr>"

definition ex_ready :: PreparationOutcome where "ex_ready = Ready (object_prepared (replicate 32 9) 100)"

definition ex_db3 :: Database where "ex_db3 = snd (commit_preparation ex_db2 ex_pcap ex_ready [])"

definition ex_row2 :: CurrentPreparation where
  "ex_row2 = ex_row\<lparr>cp_outcome_revision := 1, cp_outcome := Some (bound_outcome ex_pcap ex_ready)\<rparr>"

lemma ex_pcapture: "capture_preparation ex_db2 ex_sid [] = Inr (ex_pcap, [])"
  using read_view_quiet [OF ex_db2_facts(1,3)] ex_db2_facts(2)
  by (simp add: capture_preparation_def capture_view_def ex_pcap_def ex_row_def initial_prep_def)

lemma ex_ready_ok: "wf_outcome ex_ready" "check_outcome ex_ready [] = Inr []" "is_ready ex_ready"
  by (simp_all add: ex_ready_def object_prepared_def wf_object_def check_outcome_def valid_object_def is_ready_def
      SOURCE_OBJECT_FORMAT_VERSION_def)

lemma ex_install: "guards_hold ex_pcap ex_db2 ex_row" "install ex_pcap ex_ready ex_row = ex_row2"
  using ex_db2_facts ex_source_at(2) ex_ready_ok(3)
  by (simp_all add: guards_hold_def ex_pcap_def ex_row_def initial_prep_def install_def ex_row2_def)

lemma ex_outcome: "commit_preparation ex_db2 ex_pcap ex_ready [] = (Inr ex_row2, ex_db3)"
proof -
  have w: "wanted_of ex_db2 + 1 < u64_bound" using ex_db2_facts(4) by simp
  obtain db' where "commit_preparation ex_db2 ex_pcap ex_ready [] = (Inr (install ex_pcap ex_ready ex_row), db')"
    using commit_preparation_progress_aux [OF ex_db2_facts(1) ex_install(1) ex_ready_ok(2) _ w]
    by (auto simp: ex_row_def initial_prep_def)
  then show ?thesis using ex_install(2) by (simp add: ex_db3_def)
qed

lemma ex_db3_facts:
  "root_ok ex_db3" "prep_of ex_db3 = [ex_sid \<mapsto> ex_row2]" "source_at ex_db3 ex_sid = Some ex_rec" "ready_for ex_row2 ex_rec"
proof -
  have E: "root_ok ex_db3 \<and> sources_of ex_db3 = sources_of ex_db2 \<and> prep_of ex_db3 = (prep_of ex_db2)(ex_sid \<mapsto> ex_row2)"
    using commit_preparation_effect [OF ex_db2_facts(1) ex_ready_ok(1), of ex_pcap "[]"] ex_outcome ex_source_at(2)
    by (auto simp: prep_effect_def ex_pcap_def)
  then show "root_ok ex_db3" "prep_of ex_db3 = [ex_sid \<mapsto> ex_row2]" using ex_db2_facts(2) by auto
  have c: "control_ok ex_db2" "control_ok ex_db3" using ex_db2_facts(1) E by (simp_all add: root_ok_def)
  obtain ns where i2: "sources_inv ns ex_db2"
    using source_namespace [OF c(1) ex_db2_facts(3)] control_inv [OF c(1)] by blast
  have s: "sources_of ex_db3 ex_loc = Some ex_rec"
    using source_at_sources [OF i2] ex_db2_facts(3) E by (auto simp: ex_rec_def)
  then have "\<not> fresh_control ex_db3" using fresh_empty [of ex_db3 SOURCE_LOCATORS] by (auto simp: sources_of_def)
  then obtain ns' where "sources_inv ns' ex_db3" using control_inv [OF c(2)] by blast
  then show "source_at ex_db3 ex_sid = Some ex_rec" using source_at_sources s by (simp add: ex_rec_def ex_sid_def)
  show "ready_for ex_row2 ex_rec"
    using ex_ready_ok(3) by (simp add: ready_for_def ex_row2_def bound_outcome_def ex_pcap_def matches_input_def
        ex_row_def initial_prep_def)
qed

section \<open>The properties at the concrete run\<close>

lemma ex_wf_capture: "wf_capture ex_cap"
  by (simp add: wf_capture_def ex_cap_def)

theorem commit_source_refines_registry_witness:
  "control_ok ex_db1 \<and> locator ex_rec = ex_loc \<and> sources_of ex_db1 = (sources_of ex_db)(ex_loc \<mapsto> ex_rec)"
  using commit_source_refines_registry [OF ex_commit ex_control(1) ex_wf_capture ex_head(2)] by (simp add: ex_cap_def)

theorem commit_source_compares_and_swaps_witness:
  "object_ref ex_rec = ex_object 8 \<and> file_key ex_rec = ex_key \<and> row_revision ex_rec = 1 \<and> registration_revision ex_rec = 1"
  using commit_source_compares_and_swaps [OF ex_capture ex_commit ex_control(1,1) ex_rnd ex_rnd ex_head(2)]
  by (simp add: ex_empty)

theorem commit_source_no_lost_update_witness:
  "(\<exists>e. fst (commit_current_source ex_db1 ex_cap ex_key (ex_object 9) []) = Inl e) \<and>
   snd (commit_current_source ex_db1 ex_cap ex_key (ex_object 9) []) = ex_db1 \<and> sources_of ex_db1 ex_loc = Some ex_rec"
proof -
  have n: "sources_of ex_db ex_loc \<noteq> Some ex_rec" by (simp add: ex_empty)
  have "(8::nat) \<le> 100" "(9::nat) \<le> 100" by simp_all
  from commit_source_no_lost_update [OF ex_capture ex_capture ex_commit n prod.collapse [symmetric]
      ex_control(1) ex_rnd ex_rnd ex_rnd ex_rnd ex_head(2) [OF this(1)] ex_head(2) [OF this(2)], of "[]"]
  show ?thesis by auto
qed

theorem commit_source_progress_witness:
  "\<exists>rec db'. commit_current_source ex_db ex_cap ex_key (ex_object 8) [] = (Inr rec, db') \<and>
     sources_of db' ex_loc = Some rec \<and> object_ref rec = ex_object 8 \<and> file_key rec = ex_key"
  by (rule commit_source_progress [OF ex_control(1) ex_capture ex_rnd ex_rnd ex_head(1)]) (simp_all add: ex_empty)

theorem remove_sources_exact_witness:
  "\<exists>db'. remove_current_sources ex_db1 [ex_rec] [] = (Inr (), db') \<and> control_ok db' \<and> sources_of db' = Map.empty"
proof -
  obtain db' where r: "remove_current_sources ex_db1 [ex_rec] [] = (Inr (), db')" using ex_remove by blast
  have "locator ex_rec = ex_loc" by (simp add: ex_rec_def)
  then show ?thesis using remove_sources_exact [OF r ex_db1_facts(1)] r ex_db1_facts(3)
    by (auto simp: restrict_map_def fun_eq_iff)
qed

theorem inventory_is_registry_witness:
  "list_all2 (\<lambda>(key, bs) s. key = source_id s \<and> decode_record bs = Inr s) (the_table ex_db1 SOURCE_ROWS) [ex_rec] \<and>
   locs_of ex_db1 = [ex_loc \<mapsto> source_id ex_rec]"
proof -
  have s: "read_source_schema ex_db1 [] = Inr (True, [])" using ex_db1_facts(1) ex_namespace(2) by simp
  have "locator ex_rec = ex_loc" by (simp add: ex_rec_def)
  then show ?thesis using inventory_is_registry [OF ex_inventory control_db_ok [OF ex_db1_facts(1)] s] by simp
qed

definition ex_to_vec :: "StoredSelection \<Rightarrow> bytes option" where
  "ex_to_vec s = (if ss_version s = 1 then Some ((case ss_kind s of File \<Rightarrow> 0 | Tree \<Rightarrow> 1) # ss_locator s) else None)"

definition ex_from_slice :: "bytes \<Rightarrow> StoredSelection option" where
  "ex_from_slice bs = (case bs of [] \<Rightarrow> None
     | k # loc \<Rightarrow> Some \<lparr>ss_version = 1, ss_locator = loc, ss_kind = (if k = 0 then File else Tree)\<rparr>)"

definition ex_selection :: AdmittedSelection where
  "ex_selection = \<lparr>as_path = ex_loc, as_kind = Tree\<rparr>"

lemma ex_json: "ex_to_vec s = Some bs \<Longrightarrow> ex_from_slice bs = Some s"
  by (auto simp: ex_to_vec_def ex_from_slice_def split: if_splits SelectionKind.splits)

lemma ex_admit: "\<exists>db'. admit_selection ex_to_vec ex_from_slice (Some (replicate 16 1)) ex_selection ex_db [] = (Inr (), db')"
proof -
  let ?t = "tbl_put NAMESPACE_KEY (replicate 16 1) (tbl_put SCHEMA_VERSION_KEY SOURCE_SCHEMA_VERSION [])"
  obtain db1 where e: "ensure_admission_schema (Some (replicate 16 1)) ex_db [] = Inr (db1, [])"
    and t: "the_table db1 SOURCE_STATE = ?t"
    using ex_control(1) ex_db_fresh fresh_empty [OF ex_db_fresh(1), of SOURCE_STATE]
    by (auto simp: ensure_admission_schema_def random_id_def the_table_put_in)
  have k: "\<forall>e \<in> set ?t. \<not> is_selection_key (fst e)" by (auto split: if_splits)
  have ch: "admit_charge key items 1 n [] = Inr []"
    if "\<forall>e \<in> set items. \<not> is_selection_key (fst e)" "n \<le> MAX_CURRENT_SOURCE_BYTES" for key items n
    using that by (induction items) (auto simp: MAX_CURRENT_SOURCES_def)
  have no: "tbl_get ?t (selection_key ex_loc) = None" by (simp add: tb.get_put tb.ok_put del: tbl_put.simps)
  have v: "ex_to_vec \<lparr>ss_version = 1, ss_locator = ex_loc, ss_kind = Tree\<rparr> = Some (1 # ex_loc)" by (simp add: ex_to_vec_def)
  have len: "length (selection_key ex_loc) + length (1 # ex_loc :: bytes) \<le> MAX_CURRENT_SOURCE_BYTES"
    by (simp add: selection_key_def SELECTION_PREFIX_def ex_loc_def MAX_CURRENT_SOURCE_BYTES_def)
  have l: "source_locator_bytes ex_loc = Inr ex_loc"
    by (simp add: source_locator_bytes_def is_absolute_def ex_loc_def as_bytes_def MAX_LOCATOR_BYTES_def)
  have "\<exists>w. admit_selection_body ex_to_vec ex_from_slice (Some (replicate 16 1)) ex_selection ex_db [] = Inr (Some w, [])"
    using e t no v l ch [OF k len] by (simp add: admit_selection_body_def ex_selection_def Let_def del: tbl_put.simps)
  then show ?thesis by (auto simp: admit_selection_def)
qed

theorem admit_selection_records_witness:
  "\<exists>db'. admit_selection ex_to_vec ex_from_slice (Some (replicate 16 1)) ex_selection ex_db [] = (Inr (), db') \<and>
     control_ok db' \<and> selection_of ex_from_slice db' ex_loc = Some ex_selection"
proof -
  obtain db' where r: "admit_selection ex_to_vec ex_from_slice (Some (replicate 16 1)) ex_selection ex_db [] = (Inr (), db')"
    using ex_admit by blast
  show ?thesis using admit_selection_records [OF r ex_control(1) ex_rnd ex_json] r by (auto simp: ex_selection_def)
qed

theorem preparation_row_roundtrip_witness:
  "\<exists>bs. prep_encode ex_row2 = Inr bs \<and> prep_decode bs = Inr ex_row2"
proof -
  obtain bs where b: "prep_decode bs = Inr ex_row2"
    using ex_db3_facts(2) by (auto simp: prep_of_def bind_eq_Some_conv res_simps dest!: fun_cong [where x = ex_sid])
  then show ?thesis using preparation_row_roundtrip [of ex_row2 bs] by blast
qed

theorem commit_preparation_installs_witness:
  "root_ok ex_db3 \<and> (\<exists>old. guards_hold ex_pcap ex_db2 old \<and> ex_row2 = install ex_pcap ex_ready old) \<and>
   prep_of ex_db3 = (prep_of ex_db2)(ex_sid \<mapsto> ex_row2)"
  using commit_preparation_installs [OF ex_outcome ex_db2_facts(1) ex_ready_ok(1)] ex_source_at(2)
  by (simp add: ex_pcap_def)

theorem preparation_no_lost_outcome_witness:
  "(\<exists>e. fst (commit_preparation ex_db3 ex_pcap (Gap GapInvalidUtf8) []) = Inl e) \<and>
   snd (commit_preparation ex_db3 ex_pcap (Gap GapInvalidUtf8) []) = ex_db3 \<and> prep_of ex_db3 ex_sid = Some ex_row2"
proof -
  have n: "prep_of ex_db2 ex_sid \<noteq> Some ex_row2"
    using ex_db2_facts(2) by (simp add: ex_row2_def ex_row_def initial_prep_def)
  have "wf_outcome (Gap GapInvalidUtf8)" by simp
  from preparation_no_lost_outcome [OF ex_pcapture ex_pcapture ex_outcome n prod.collapse [symmetric]
      ex_db2_facts(1) ex_ready_ok(1) this, of "[]"]
  show ?thesis by auto
qed

theorem ready_is_kept_witness:
  "prep_of (snd (commit_preparation ex_db3 ex_pcap (Gap GapInvalidUtf8) [])) = [ex_sid \<mapsto> ex_row2]"
proof -
  have p: "prep_of ex_db3 ex_sid = Some ex_row2" using ex_db3_facts(2) by simp
  have i: "source_id (pc_source ex_pcap) = ex_sid" using ex_source_at(2) by (simp add: ex_pcap_def)
  from ready_is_kept [OF ex_db3_facts(3) p ex_db3_facts(4) prod.collapse [symmetric] i ex_db3_facts(1), of GapInvalidUtf8 "[]"]
  show ?thesis using ex_db3_facts(2) by simp
qed

theorem ensure_settings_initializes_witness:
  "prep_of ex_db2 = [ex_sid \<mapsto> ex_row] \<and> ex_row = initial_prep ex_rec default_settings \<and> is_supported (cp_settings ex_row)"
  using ensure_settings_initializes [OF ex_settings ex_db1_facts(2)] ex_db1_facts(5) ex_source_at(1)
  by (simp add: fun_upd_def)

lemma ex_step: "control_step ex_db ex_db1"
  by (rule control_step.commit [OF ex_wf_capture ex_head(2) ex_commit]) simp

lemma ex_step2: "control_step ex_db1 ex_db2"
  by (rule control_step.ensure_settings [OF ex_settings])

lemma ex_step3: "control_step ex_db2 ex_db3"
  by (rule control_step.outcome [OF ex_ready_ok(1) ex_outcome])

theorem runs_stay_consistent_witness: "root_ok ex_db2"
  using runs_stay_consistent [OF _ ex_db_fresh(2,3,1)] ex_step ex_step2
  by (meson converse_rtranclp_into_rtranclp rtranclp.rtrancl_refl)

theorem wanted_revision_identifies_corpus_witness: "wanted_of ex_db1 \<le> wanted_of ex_db2 \<and> wanted_of ex_db1 = 1"
  using wanted_revision_identifies_corpus [OF ex_control(2) r_into_rtranclp [of control_step, OF ex_step]
      r_into_rtranclp [of control_step, OF ex_step2]] ex_db1_facts(4) by simp

theorem steps_advance_rows_witness: "\<exists>r. sources_of ex_db2 ex_loc = Some r \<and> source_id r = ex_sid"
proof -
  have s: "sources_of ex_db2 ex_loc = Some ex_rec"
    using ensure_settings_effect [OF ex_db1_facts(2), of ex_sid "[]"] ex_settings ex_db1_facts(3)
    by (auto simp: prep_effect_def)
  have "sources_of ex_db1 ex_loc = Some ex_rec" using ex_db1_facts(3) by simp
  from steps_advance_rows [OF ex_step2 ex_db1_facts(2) this s] show ?thesis using s ex_source_at(2) by auto
qed

end
