(* ===== verification/Literal.thy ===== *)
theory Literal
  imports Contracts "HOL-Library.Sublist"
begin

text \<open>
  Literal matching of the exact searches (\<open>bins/eliot-searchd/src/exact_literal.rs\<close>): the
  prefix table of \<open>Literal::new\<close> and the block-wise \<open>Literal::scan\<close> that keeps its state across
  blocks. The inner fall-back loop runs as long as the table says, so it is a partial function:
  \<open>None\<close> is a loop that never ends or an index out of range (a panic). A compiled literal never
  gives \<open>None\<close>, and its scan calls back exactly at every occurrence, in order.
\<close>

section \<open>Model\<close>

datatype QueryFailure = Cancelled | Deadline | Code string

definition BLOCK_BYTES :: nat where "BLOCK_BYTES = 8192"

definition q_check :: "env \<Rightarrow> QueryFailure + env" where
  "q_check = check_with Cancelled Deadline"

definition q_reserve :: "env \<Rightarrow> QueryFailure + env" where
  "q_reserve = reserve_with (Code ''QUERY_ALLOCATION_FAILED'')"

record Literal =
  lit_bytes :: bytes
  lit_prefix :: "nat list"

partial_function (option) fall_back :: "bytes \<Rightarrow> nat list \<Rightarrow> byte \<Rightarrow> nat \<Rightarrow> nat option" where
  "fall_back bs pre b m =
     (if m = 0 then Some 0
      else if length bs \<le> m then None
      else if b = bs ! m then Some m
      else if length pre \<le> m - 1 then None
      else fall_back bs pre b (pre ! (m - 1)))"

definition kmp_step :: "bytes \<Rightarrow> nat list \<Rightarrow> nat \<Rightarrow> byte \<Rightarrow> nat option" where
  "kmp_step bs pre m b =
     Option.bind (fall_back bs pre b m) (\<lambda>m.
     if length bs \<le> m then None else Some (if b = bs ! m then m + 1 else m))"

fun build_prefix :: "bytes \<Rightarrow> nat \<Rightarrow> nat list \<Rightarrow> nat list \<Rightarrow> nat list option" where
  "build_prefix bs m pre [] = Some pre"
| "build_prefix bs m pre (i # indices) =
     Option.bind (kmp_step bs pre m (bs ! i)) (\<lambda>m. build_prefix bs m (pre[i := m]) indices)"

definition literal_new :: "bytes \<Rightarrow> env \<Rightarrow> (QueryFailure + Literal \<times> env) option" where
  "literal_new bs env =
     (case bindE (q_check env) (\<lambda>env.
           if bs = [] then Inl (Code ''EXACT_LITERAL_INVALID'') else q_reserve env) of
        Inl e \<Rightarrow> Some (Inl e)
      | Inr env \<Rightarrow>
          map_option (\<lambda>pre. bindE (q_check env) (\<lambda>env. Inr (\<lparr>lit_bytes = bs, lit_prefix = pre\<rparr>, env)))
            (build_prefix bs 0 (replicate (length bs) 0) [1..<length bs]))"

type_synonym 's found = "nat \<Rightarrow> nat \<Rightarrow> 's \<Rightarrow> env \<Rightarrow> QueryFailure + 's \<times> env"

fun scan_bytes ::
  "Literal \<Rightarrow> 's found \<Rightarrow> nat \<Rightarrow> nat \<Rightarrow> bytes \<Rightarrow> 's \<Rightarrow> env \<Rightarrow>
   (QueryFailure + (nat \<times> 's) \<times> env) option" where
  "scan_bytes lit found pos m [] st env = Some (Inr ((m, st), env))"
| "scan_bytes lit found pos m (b # bs) st env =
     (case kmp_step (lit_bytes lit) (lit_prefix lit) m b of
        None \<Rightarrow> None
      | Some m \<Rightarrow>
          if m \<noteq> length (lit_bytes lit) then scan_bytes lit found (pos + 1) m bs st env
          else (case checked_sub (pos + 1) (length (lit_bytes lit)) of
              None \<Rightarrow> None
            | Some start \<Rightarrow> (case found start (pos + 1) st env of
                  Inl e \<Rightarrow> Some (Inl e)
                | Inr (st, env) \<Rightarrow>
                    if m = 0 \<or> length (lit_prefix lit) \<le> m - 1 then None
                    else scan_bytes lit found (pos + 1) (lit_prefix lit ! (m - 1)) bs st env)))"

fun scan_blocks ::
  "Literal \<Rightarrow> 's found \<Rightarrow> nat \<Rightarrow> nat \<Rightarrow> bytes list \<Rightarrow> 's \<Rightarrow> env \<Rightarrow>
   (QueryFailure + 's \<times> env) option" where
  "scan_blocks lit found pos m [] st env = Some (bindE (q_check env) (\<lambda>env. Inr (st, env)))"
| "scan_blocks lit found pos m (block # blocks) st env =
     (case q_check env of
        Inl e \<Rightarrow> Some (Inl e)
      | Inr env \<Rightarrow> (case scan_bytes lit found pos m block st env of
            None \<Rightarrow> None
          | Some (Inl e) \<Rightarrow> Some (Inl e)
          | Some (Inr ((m, st), env)) \<Rightarrow> scan_blocks lit found (pos + length block) m blocks st env))"

definition literal_scan ::
  "Literal \<Rightarrow> bytes \<Rightarrow> 's found \<Rightarrow> 's \<Rightarrow> env \<Rightarrow> (QueryFailure + 's \<times> env) option" where
  "literal_scan lit input found st env = scan_blocks lit found 0 0 (chunks BLOCK_BYTES input) st env"

definition hex :: "bytes \<Rightarrow> env \<Rightarrow> QueryFailure + string \<times> env" where
  "hex bs env = bindE (q_reserve env) (\<lambda>env. Inr (hex_encode bs, env))"

section \<open>Reference: calling back at every occurrence\<close>

fun ref_bytes :: "bytes \<Rightarrow> 's found \<Rightarrow> bytes \<Rightarrow> bytes \<Rightarrow> 's \<Rightarrow> env \<Rightarrow> QueryFailure + 's \<times> env" where
  "ref_bytes p found seen [] st env = Inr (st, env)"
| "ref_bytes p found seen (b # bs) st env =
     bindE (if suffix p (seen @ [b]) then found (length seen + 1 - length p) (length seen + 1) st env
            else Inr (st, env)) (\<lambda>(st, env). ref_bytes p found (seen @ [b]) bs st env)"

fun ref_blocks :: "bytes \<Rightarrow> 's found \<Rightarrow> bytes \<Rightarrow> bytes list \<Rightarrow> 's \<Rightarrow> env \<Rightarrow> QueryFailure + 's \<times> env" where
  "ref_blocks p found seen [] st env = bindE (q_check env) (\<lambda>env. Inr (st, env))"
| "ref_blocks p found seen (block # blocks) st env =
     bindE (q_check env) (\<lambda>env. bindE (ref_bytes p found seen block st env) (\<lambda>(st, env).
     ref_blocks p found (seen @ block) blocks st env))"

definition ref_scan :: "bytes \<Rightarrow> bytes \<Rightarrow> 's found \<Rightarrow> 's \<Rightarrow> env \<Rightarrow> QueryFailure + 's \<times> env" where
  "ref_scan p input found st env = ref_blocks p found [] (chunks BLOCK_BYTES input) st env"

definition occurrences :: "bytes \<Rightarrow> bytes \<Rightarrow> (nat \<times> nat) list" where
  "occurrences p input =
     map (\<lambda>i. (i, i + length p))
       (filter (\<lambda>i. take (length p) (drop i input) = p) [0..<length input + 1 - length p])"

section \<open>Borders\<close>

text \<open>\<open>longest n p u m\<close>: \<open>m\<close> is the longest prefix of \<open>p\<close> shorter than \<open>n\<close> that ends \<open>u\<close>.\<close>

definition longest :: "nat \<Rightarrow> bytes \<Rightarrow> bytes \<Rightarrow> nat \<Rightarrow> bool" where
  "longest n p u m \<longleftrightarrow> m < n \<and> suffix (take m p) u \<and> (\<forall>k < n. suffix (take k p) u \<longrightarrow> k \<le> m)"

text \<open>The first \<open>n\<close> entries of a table are the longest proper borders.\<close>

definition table_ok :: "bytes \<Rightarrow> nat list \<Rightarrow> nat \<Rightarrow> bool" where
  "table_ok p pre n \<longleftrightarrow> n \<le> length pre \<and> n \<le> length p \<and>
     (\<forall>i < n. longest (Suc i) p (take (Suc i) p) (pre ! i))"

lemma suffix_take_Suc:
  "k < length p \<Longrightarrow> suffix (take (Suc k) p) (u @ [b]) \<longleftrightarrow> suffix (take k p) u \<and> p ! k = b"
  by (auto simp: take_Suc_conv_app_nth)

lemma suffix_shorter:
  assumes "suffix (take m p) u" "k \<le> m" "m \<le> length p"
  shows "suffix (take k p) u \<longleftrightarrow> suffix (take k p) (take m p)"
proof
  assume "suffix (take k p) u"
  then show "suffix (take k p) (take m p)"
    using assms suffix_length_suffix [of "take k p" u "take m p"] by simp
next
  assume "suffix (take k p) (take m p)"
  then show "suffix (take k p) u" using assms(1) suffix_order.trans by blast
qed

lemma fall_back_correct:
  assumes "table_ok p pre m" "m < length p" "suffix (take m p) u"
    and "\<forall>k < length p. suffix (take k p) u \<longrightarrow> p ! k = b \<longrightarrow> k \<le> m"
  shows "\<exists>r. fall_back p pre b m = Some r \<and> r < length p \<and> suffix (take r p) u \<and> (r = 0 \<or> p ! r = b) \<and>
    (\<forall>k < length p. suffix (take k p) u \<longrightarrow> p ! k = b \<longrightarrow> k \<le> r)"
  using assms
proof (induction m rule: less_induct)
  case (less m)
  show ?case
  proof (cases "m = 0 \<or> b = p ! m")
    case True
    then show ?thesis using less.prems by (auto simp: fall_back.simps [of p pre b m])
  next
    case False
    let ?m = "pre ! (m - 1)"
    have b: "longest m p (take m p) ?m" "m \<le> length pre"
      using less.prems(1) False by (auto simp: table_ok_def dest!: spec [of _ "m - 1"])
    have s: "suffix (take ?m p) u" using b(1) less.prems(2,3) suffix_shorter [of m p u ?m] by (auto simp: longest_def)
    have mx: "k \<le> ?m" if k: "k < length p" "suffix (take k p) u" "p ! k = b" for k
    proof -
      have "k < m" using less.prems(4) k False by (metis order_le_less)
      then show ?thesis using b(1) suffix_shorter [of m p u k] less.prems(2,3) k(2) by (auto simp: longest_def)
    qed
    have "?m < m" using b(1) by (simp add: longest_def)
    moreover have "table_ok p pre ?m" using less.prems(1) \<open>?m < m\<close> by (auto simp: table_ok_def)
    ultimately show ?thesis using less.IH [of ?m] less.prems(2) s mx False b(2)
      by (auto simp: fall_back.simps [of p pre b m])
  qed
qed

lemma kmp_step_correct:
  assumes "table_ok p pre m" "longest (length p) p u m"
  shows "\<exists>r. kmp_step p pre m b = Some r \<and> longest (Suc (length p)) p (u @ [b]) r"
proof -
  have l: "m < length p" "suffix (take m p) u" "\<And>k. k < length p \<Longrightarrow> suffix (take k p) u \<Longrightarrow> k \<le> m"
    using assms(2) by (auto simp: longest_def)
  obtain r where r: "fall_back p pre b m = Some r" "r < length p" "suffix (take r p) u" "r = 0 \<or> p ! r = b"
      "\<And>k. k < length p \<Longrightarrow> suffix (take k p) u \<Longrightarrow> p ! k = b \<Longrightarrow> k \<le> r"
    using fall_back_correct [OF assms(1) l(1,2), of b] l(3) by blast
  let ?r = "if b = p ! r then r + 1 else r"
  have "longest (Suc (length p)) p (u @ [b]) ?r"
    unfolding longest_def
  proof (intro conjI allI impI)
    show "?r < Suc (length p)" using r(2) by simp
    show "suffix (take ?r p) (u @ [b])" using r(2-4) suffix_take_Suc [of r p u b] by auto
    fix k assume k: "k < Suc (length p)" "suffix (take k p) (u @ [b])"
    show "k \<le> ?r"
    proof (cases k)
      case (Suc j)
      then have "suffix (take j p) u" "p ! j = b" using k suffix_take_Suc [of j p u b] by auto
      then have "j \<le> r" using r(5) k(1) Suc by simp
      then show ?thesis using Suc \<open>p ! j = b\<close> r(4) by auto
    qed simp
  qed
  then show ?thesis using r(1,2) by (auto simp: kmp_step_def)
qed

lemma longest_shrink:
  "longest (Suc n) p u m \<Longrightarrow> m \<noteq> n \<Longrightarrow> longest n p u m"
  by (auto simp: longest_def)

lemma table_ok_le: "table_ok p pre n \<Longrightarrow> m \<le> n \<Longrightarrow> table_ok p pre m"
  by (auto simp: table_ok_def)

section \<open>The table that \<open>Literal::new\<close> builds\<close>

lemma suffix_tl: "k \<le> i \<Longrightarrow> i < length p \<Longrightarrow> suffix (take k p) (take (Suc i) p) \<longleftrightarrow> suffix (take k p) (tl (take (Suc i) p))"
  by (cases p) (auto simp: suffix_Cons dest!: arg_cong [where f = length])

lemma tl_take_snoc: "0 < i \<Longrightarrow> i < length p \<Longrightarrow> tl (take (Suc i) p) = tl (take i p) @ [p ! i]"
  by (cases p; cases i) (simp_all add: take_Suc_conv_app_nth)

lemma build_prefix_correct:
  assumes "0 < i" "i \<le> length p" "length pre = length p" "table_ok p pre i"
    and "longest (length p) p (tl (take i p)) m"
  shows "\<exists>t. build_prefix p m pre [i..<length p] = Some t \<and> length t = length p \<and> table_ok p t (length p)"
  using assms
proof (induction "length p - i" arbitrary: i m pre)
  case 0
  then show ?case by simp
next
  case (Suc n)
  have i: "i < length p" using Suc(2) by simp
  have "suffix (take m p) (tl (take i p))" using Suc.prems(5) by (simp add: longest_def)
  from suffix_length_le [OF this] have mi: "m < i" using Suc.prems(1,5) i by (simp add: longest_def)
  obtain r where r: "kmp_step p pre m (p ! i) = Some r" "longest (Suc (length p)) p (tl (take (Suc i) p)) r"
    using kmp_step_correct [OF table_ok_le [OF Suc.prems(4)] Suc.prems(5), of "p ! i"] mi
      tl_take_snoc [OF Suc.prems(1) i] by auto
  have "suffix (take r p) (tl (take (Suc i) p))" using r(2) by (simp add: longest_def)
  from suffix_length_le [OF this] have ri: "r \<le> i" using i r(2) by (auto simp: longest_def)
  have new: "longest (Suc i) p (take (Suc i) p) r"
    using r(2) ri suffix_tl [OF _ i] i by (auto simp: longest_def)
  have tok: "table_ok p (pre[i := r]) (Suc i)"
    unfolding table_ok_def using Suc.prems(3,4) i new by (auto simp: table_ok_def nth_list_update less_Suc_eq)
  have "longest (length p) p (tl (take (Suc i) p)) r" using r(2) ri i by (auto simp: longest_def)
  then have "\<exists>t. build_prefix p r (pre[i := r]) [Suc i..<length p] = Some t \<and> length t = length p \<and> table_ok p t (length p)"
    using Suc.hyps(1) [of "Suc i" "pre[i := r]" r] Suc.hyps(2) Suc.prems(3) i tok by simp
  then show ?case using r(1) i by (simp add: upt_conv_Cons)
qed

definition compiled :: "Literal \<Rightarrow> bool" where
  "compiled lit \<longleftrightarrow> lit_bytes lit \<noteq> [] \<and> length (lit_prefix lit) = length (lit_bytes lit) \<and>
     table_ok (lit_bytes lit) (lit_prefix lit) (length (lit_bytes lit))"

lemma build_prefix_total:
  assumes "p \<noteq> []"
  shows "\<exists>t. build_prefix p 0 (replicate (length p) 0) [1..<length p] = Some t \<and> compiled \<lparr>lit_bytes = p, lit_prefix = t\<rparr>"
proof -
  have "tl (take 1 p) = []" using assms by (cases p) auto
  then have "longest (length p) p (tl (take 1 p)) 0" using assms by (auto simp: longest_def)
  moreover have "table_ok p (replicate (length p) 0) 1" using assms by (cases p) (auto simp: table_ok_def longest_def)
  ultimately show ?thesis
    using build_prefix_correct [of 1 p "replicate (length p) 0" 0] assms by (cases p) (auto simp: compiled_def)
qed

lemma literal_new_cases:
  "\<exists>r. literal_new p env = Some r \<and>
     (case r of Inl e \<Rightarrow> e \<in> {Cancelled, Deadline, Code ''QUERY_ALLOCATION_FAILED''} \<or> p = [] \<and> e = Code ''EXACT_LITERAL_INVALID''
      | Inr (lit, env') \<Rightarrow> compiled lit \<and> lit_bytes lit = p)"
proof (cases "bindE (q_check env) (\<lambda>env. if p = [] then Inl (Code ''EXACT_LITERAL_INVALID'') else q_reserve env)")
  case (Inl e)
  then show ?thesis
    by (auto simp: literal_new_def res_simps q_check_def q_reserve_def split: if_splits
        dest: check_with_Inl reserve_with_Inl)
next
  case (Inr env1)
  then have "p \<noteq> []" by (auto simp: res_simps split: if_splits)
  from build_prefix_total [OF this] obtain t where
    t: "build_prefix p 0 (replicate (length p) 0) [1..<length p] = Some t" "compiled \<lparr>lit_bytes = p, lit_prefix = t\<rparr>" by blast
  then show ?thesis using Inr
    by (cases "q_check env1") (auto simp: literal_new_def q_check_def dest: check_with_Inl)
qed

section \<open>The scan is the reference scan\<close>

lemma scan_bytes_ref:
  assumes "compiled lit" "longest (length (lit_bytes lit)) (lit_bytes lit) seen m"
  shows "\<exists>m'. longest (length (lit_bytes lit)) (lit_bytes lit) (seen @ bs) m' \<and>
    scan_bytes lit found (length seen) m bs st env =
      Some (bindE (ref_bytes (lit_bytes lit) found seen bs st env) (\<lambda>(st, env). Inr ((m', st), env)))"
  using assms(2)
proof (induction bs arbitrary: seen m st env)
  case (Cons b bs)
  let ?p = "lit_bytes lit" and ?t = "lit_prefix lit"
  have c: "table_ok ?p ?t (length ?p)" "?p \<noteq> []" "length ?t = length ?p" using assms(1) by (auto simp: compiled_def)
  have m: "m < length ?p" using Cons.prems by (simp add: longest_def)
  obtain r where r: "kmp_step ?p ?t m b = Some r" "longest (Suc (length ?p)) ?p (seen @ [b]) r"
    using kmp_step_correct [OF table_ok_le [OF c(1)] Cons.prems] m by auto
  have occ: "suffix ?p (seen @ [b]) \<longleftrightarrow> r = length ?p"
  proof
    assume "suffix ?p (seen @ [b])"
    then show "r = length ?p" using r(2) unfolding longest_def by (metis le_less_Suc_eq lessI take_all_iff order_refl)
  next
    assume "r = length ?p"
    then show "suffix ?p (seen @ [b])" using r(2) by (simp add: longest_def)
  qed
  let ?r = "if r = length ?p then ?t ! (r - 1) else r"
  have "longest (length ?p) ?p (take (length ?p) ?p) (?t ! (length ?p - 1))"
    using c by (cases "length ?p") (auto simp: table_ok_def)
  then have border: "longest (length ?p) ?p (seen @ [b]) (?t ! (length ?p - 1))" if "suffix ?p (seen @ [b])"
    using that suffix_shorter [of "length ?p" ?p "seen @ [b]"] unfolding longest_def by simp
  have next': "longest (length ?p) ?p (seen @ [b]) ?r"
    using r(2) occ border longest_shrink [of "length ?p" ?p "seen @ [b]" r] by simp
  have len: "length ?p \<le> Suc (length seen)" if "r = length ?p"
    using occ that suffix_length_le by fastforce
  note ih = Cons.IH [OF next']
  show ?case
  proof (cases "r = length ?p")
    case False
    then show ?thesis using ih [of st env] r(1) occ by auto
  next
    case True
    note start = checked_sub_def
    show ?thesis
    proof (cases "found (length seen + 1 - length ?p) (length seen + 1) st env")
      case (Inl e)
      obtain m' where "longest (length ?p) ?p ((seen @ [b]) @ bs) m'" using ih by blast
      then show ?thesis using Inl True r(1) occ len by (auto simp: checked_sub_def)
    next
      case (Inr q)
      obtain st' env' where q: "q = (st', env')" by (cases q)
      show ?thesis using ih [of st' env'] Inr q True r(1) occ len c by (auto simp: checked_sub_def)
    qed
  qed
qed auto

lemma scan_blocks_ref:
  assumes "compiled lit" "longest (length (lit_bytes lit)) (lit_bytes lit) seen m"
  shows "scan_blocks lit found (length seen) m blocks st env = Some (ref_blocks (lit_bytes lit) found seen blocks st env)"
  using assms(2)
proof (induction blocks arbitrary: seen m st env)
  case (Cons block blocks)
  show ?case
  proof (cases "q_check env")
    case (Inr env1)
    obtain m' where l: "longest (length (lit_bytes lit)) (lit_bytes lit) (seen @ block) m'"
      and s: "scan_bytes lit found (length seen) m block st env1 =
        Some (bindE (ref_bytes (lit_bytes lit) found seen block st env1) (\<lambda>(st, env). Inr ((m', st), env)))"
      using scan_bytes_ref [OF assms(1) Cons.prems, of block found st env1] by blast
    show ?thesis
    proof (cases "ref_bytes (lit_bytes lit) found seen block st env1")
      case Inl': (Inl e)
      then show ?thesis using Inr s by simp
    next
      case Inr': (Inr q)
      obtain st' env' where q: "q = (st', env')" by (cases q)
      show ?thesis using Inr Inr' s q Cons.IH [OF l, of st' env'] by simp
    qed
  qed simp
qed simp

lemma literal_scan_ref:
  assumes "compiled lit"
  shows "literal_scan lit input found st env = Some (ref_scan (lit_bytes lit) input found st env)"
proof -
  have "longest (length (lit_bytes lit)) (lit_bytes lit) [] 0" using assms by (auto simp: longest_def compiled_def)
  from scan_blocks_ref [OF assms this] show ?thesis by (simp add: literal_scan_def ref_scan_def)
qed

section \<open>The reference scan calls back at the occurrences\<close>

fun feed :: "'s found \<Rightarrow> (nat \<times> nat) list \<Rightarrow> 's \<Rightarrow> env \<Rightarrow> QueryFailure + 's \<times> env" where
  "feed found [] st env = Inr (st, env)"
| "feed found (x # xs) st env = bindE (found (fst x) (snd x) st env) (\<lambda>(st, env). feed found xs st env)"

definition hits :: "bytes \<Rightarrow> bytes \<Rightarrow> bytes \<Rightarrow> (nat \<times> nat) list" where
  "hits p seen bs = map (\<lambda>j. (j - length p, j))
     (filter (\<lambda>j. suffix p (take j (seen @ bs))) [Suc (length seen)..<Suc (length seen + length bs)])"

lemma hits_Nil [simp]: "hits p seen [] = []"
  by (simp add: hits_def)

lemma hits_Cons: "hits p seen (b # bs) =
    (if suffix p (seen @ [b]) then [(length seen + 1 - length p, length seen + 1)] else []) @ hits p (seen @ [b]) bs"
proof -
  have "[Suc (length seen)..<Suc (length seen + length (b # bs))] =
      Suc (length seen) # [Suc (Suc (length seen))..<Suc (length seen + length (b # bs))]"
    by (rule upt_conv_Cons) simp
  then show ?thesis by (simp add: hits_def)
qed

lemma hits_append: "hits p seen (bs @ cs) = hits p seen bs @ hits p (seen @ bs) cs"
  by (induction bs arbitrary: seen) (simp_all add: hits_Cons)

lemma feed_append: "feed found (xs @ ys) st env = bindE (feed found xs st env) (\<lambda>(st, env). feed found ys st env)"
  by (induction xs arbitrary: st env) (simp_all add: bindE_assoc split_def)

lemma ref_bytes_feed: "ref_bytes p found seen bs st env = feed found (hits p seen bs) st env"
  by (induction bs arbitrary: seen st env) (simp_all add: hits_Cons split_def del: suffix_snoc)

lemma hits_occurrences:
  assumes "p \<noteq> []"
  shows "hits p [] input = occurrences p input"
proof -
  let ?n = "length p" and ?l = "length input"
  have none: "filter (\<lambda>j. suffix p (take j input)) [1..<min ?n (Suc ?l)] = []"
    by (auto simp: filter_empty_conv dest: suffix_length_le)
  have le: "1 \<le> min ?n (Suc ?l)" using assms by (cases p) auto
  have split: "[1..<Suc ?l] = [1..<min ?n (Suc ?l)] @ [min ?n (Suc ?l)..<Suc ?l]"
    using upt_add_eq_append [OF le, of "Suc ?l - min ?n (Suc ?l)"] by simp
  have shift: "[min ?n (Suc ?l)..<Suc ?l] = map (\<lambda>i. i + ?n) [0..<Suc ?l - ?n]"
  proof (cases "?n \<le> Suc ?l")
    case True
    then show ?thesis using map_add_upt [of ?n "Suc ?l - ?n"] by (simp add: min_def add.commute)
  next
    case False
    then show ?thesis by (simp add: min_def)
  qed
  have same: "suffix p (take (i + ?n) input) \<longleftrightarrow> take ?n (drop i input) = p" if "i < Suc ?l - ?n" for i
  proof -
    have t: "take (i + ?n) input = take i input @ take ?n (drop i input)" by (simp add: take_add)
    have len: "length (take ?n (drop i input)) = ?n" using that by simp
    show ?thesis
    proof
      assume "suffix p (take (i + ?n) input)"
      then obtain zs where "take i input @ take ?n (drop i input) = zs @ p" using t by (auto simp: suffix_def)
      then show "take ?n (drop i input) = p" using len by (simp add: append_eq_append_conv)
    qed (metis suffix_def t)
  qed
  have "filter (\<lambda>j. suffix p (take j input)) [1..<Suc ?l] =
      map (\<lambda>i. i + ?n) (filter (\<lambda>i. take ?n (drop i input) = p) [0..<Suc ?l - ?n])"
    unfolding split filter_append none shift by (auto simp: filter_map o_def same intro!: filter_cong)
  then show ?thesis by (simp add: hits_def occurrences_def o_def del: upt_Suc)
qed

lemma feed_interruptible:
  assumes "\<And>s e st. interruptible I (found s e st)"
  shows "interruptible I (feed found xs st)"
proof (induction xs arbitrary: st)
  case Nil
  have eq: "feed found [] st = (\<lambda>env. Inr (st, env))" by (rule ext) simp
  show ?case unfolding eq by (intro interruptible_intros)
next
  case (Cons x xs)
  have eq: "feed found (x # xs) st = (\<lambda>env. bindE (found (fst x) (snd x) st env) (\<lambda>(st, env). feed found xs st env))"
    by (rule ext) simp
  show ?case unfolding eq by (intro interruptible_intros assms Cons.IH)
qed

abbreviation q_interrupts :: "QueryFailure set" where
  "q_interrupts \<equiv> {Cancelled, Deadline, Code ''QUERY_ALLOCATION_FAILED''}"

lemma q_polls [interruptible_intros]: "polls q_interrupts q_check" "polls q_interrupts q_reserve"
  unfolding q_check_def q_reserve_def by (auto intro: polls_check polls_reserve)

lemma q_quiet [simp]: "q_check [] = Inr []" "q_reserve [] = Inr []"
  by (simp_all add: q_check_def q_reserve_def)

lemma hex_interruptible [interruptible_intros]: "interruptible q_interrupts (hex bs)"
  unfolding hex_def by (intro interruptible_intros)

lemma ref_blocks_interruptible:
  assumes "\<And>s e st. interruptible q_interrupts (found s e st)"
  shows "interruptible q_interrupts (ref_blocks p found seen blocks st)"
proof (induction blocks arbitrary: seen st)
  case Nil
  have eq: "ref_blocks p found seen [] st = (\<lambda>env. bindE (q_check env) (\<lambda>env. Inr (st, env)))" by (rule ext) simp
  show ?case unfolding eq by (intro interruptible_intros)
next
  case (Cons block blocks)
  have eq: "ref_blocks p found seen (block # blocks) st =
      (\<lambda>env. bindE (q_check env) (\<lambda>env. bindE (feed found (hits p seen block) st env) (\<lambda>(st, env).
        ref_blocks p found (seen @ block) blocks st env)))"
    by (rule ext) (simp add: ref_bytes_feed)
  show ?case unfolding eq by (intro interruptible_intros feed_interruptible assms Cons.IH)
qed

lemma ref_blocks_quiet:
  assumes "\<And>s e st. interruptible q_interrupts (found s e st)"
  shows "ref_blocks p found seen blocks st [] = feed found (hits p seen (concat blocks)) st []"
proof (induction blocks arbitrary: seen st)
  case (Cons block blocks)
  show ?case
  proof (cases "feed found (hits p seen block) st []")
    case (Inr q)
    obtain st' env where q: "q = (st', env)" by (cases q)
    have "env = []" using interruptible_Inr [OF feed_interruptible [OF assms]] Inr q by fastforce
    then show ?thesis using Inr q Cons.IH by (simp add: ref_bytes_feed hits_append feed_append)
  qed (simp add: ref_bytes_feed hits_append feed_append)
qed simp

lemma ref_scan_feed:
  assumes "\<And>s e st. interruptible q_interrupts (found s e st)" "p \<noteq> []"
  shows "interruptible q_interrupts (ref_scan p input found st)"
    and "ref_scan p input found st [] = feed found (occurrences p input) st []"
proof -
  have eq: "ref_scan p input found st = ref_blocks p found [] (chunks BLOCK_BYTES input) st"
    by (rule ext) (simp add: ref_scan_def)
  show "interruptible q_interrupts (ref_scan p input found st)"
    unfolding eq by (rule ref_blocks_interruptible [OF assms(1)])
  show "ref_scan p input found st [] = feed found (occurrences p input) st []"
    using ref_blocks_quiet [where found = found and p = p and seen = "[]" and blocks = "chunks BLOCK_BYTES input" and st = st, OF assms(1)] hits_occurrences [OF assms(2)]
    by (simp add: ref_scan_def BLOCK_BYTES_def)
qed

section \<open>Properties\<close>

definition collect :: "(nat \<times> nat) list found" where
  "collect s e xs env = Inr (xs @ [(s, e)], env)"

lemma feed_collect: "feed collect xs ys env = Inr (ys @ xs, env)"
  by (induction xs arbitrary: ys) (simp_all add: collect_def)

lemma collect_interruptible: "interruptible I (collect s e st)"
proof -
  have "collect s e st = (\<lambda>env. Inr (st @ [(s, e)], env))" by (rule ext) (simp add: collect_def)
  then show ?thesis by (simp add: interruptible_ret)
qed

text \<open>
  C27: The literal search is the naive one: with the table that \<open>Literal::new\<close> compiled, the
  block-wise scan of any input never loops forever, never indexes out of range and reports
  exactly the occurrences of the literal, overlapping ones included, in order of position;
  it can only be cut short by a cancellation, the deadline or a refused allocation.
\<close>

theorem literal_search_exact:
  assumes "literal_new p env = Some (Inr (lit, env1))"
  shows "\<exists>r. literal_scan lit input collect [] env2 = Some r \<and>
    (case r of Inr (found, env3) \<Rightarrow> found = occurrences p input | Inl e \<Rightarrow> e \<in> q_interrupts)"
proof -
  have c: "compiled lit" "lit_bytes lit = p" using literal_new_cases [of p env] assms by auto
  have p: "p \<noteq> []" using c by (auto simp: compiled_def)
  note R = ref_scan_feed [where found = collect and p = p and input = input and st = "[]", OF collect_interruptible p]
  have q: "ref_scan p input collect [] [] = Inr (occurrences p input, [])" using R(2) by (simp add: feed_collect)
  have "case ref_scan p input collect [] env2 of Inr (found, env3) \<Rightarrow> found = occurrences p input | Inl e \<Rightarrow> e \<in> q_interrupts"
  proof (cases "ref_scan p input collect [] env2")
    case (Inl e)
    then show ?thesis using interruptible_Inl [OF R(1) Inl] q by auto
  next
    case (Inr x)
    obtain found env3 where x: "x = (found, env3)" by (cases x)
    then show ?thesis using interruptible_Inr [OF R(1)] Inr q by force
  qed
  then show ?thesis using literal_scan_ref [OF c(1), of input collect "[]" env2] c(2) by simp
qed

text \<open>
  C28: Compiling a literal always returns: the fall-back loop over the growing table terminates
  and stays in range for every literal, and the only errors are an empty literal, interruption
  and a refused allocation.
\<close>

theorem literal_new_returns:
  "\<exists>r. literal_new p env = Some r \<and>
     (case r of
        Inl e \<Rightarrow> e \<in> q_interrupts \<or> p = [] \<and> e = Code ''EXACT_LITERAL_INVALID''
      | Inr (lit, env') \<Rightarrow> p \<noteq> [] \<and> lit_bytes lit = p \<and> length (lit_prefix lit) = length p)"
  using literal_new_cases [of p env] by (auto simp: compiled_def split: sum.splits)

definition ex_pattern :: bytes where "ex_pattern = [97, 97]"

lemma ex_build: "build_prefix [97, 97] 0 [0, 0] [1] = Some [0, 1]"
  by (simp add: kmp_step_def fall_back.simps)

lemma ex_compile: "literal_new ex_pattern [] = Some (Inr (\<lparr>lit_bytes = ex_pattern, lit_prefix = [0, 1]\<rparr>, []))"
  using ex_build by (simp add: literal_new_def ex_pattern_def upt_rec numeral_eq_Suc)

theorem literal_search_exact_witness:
  "\<exists>r. literal_scan \<lparr>lit_bytes = ex_pattern, lit_prefix = [0, 1]\<rparr> [98, 97, 97, 97] collect [] [] = Some r \<and>
     occurrences ex_pattern [98, 97, 97, 97] = [(1, 3), (2, 4)] \<and>
     (case r of Inr (found, env3) \<Rightarrow> found = [(1, 3), (2, 4)] | Inl e \<Rightarrow> e \<in> q_interrupts)"
proof -
  have o: "occurrences ex_pattern [98, 97, 97, 97] = [(1, 3), (2, 4)]"
    by (simp add: occurrences_def ex_pattern_def upt_rec)
  show ?thesis using literal_search_exact [OF ex_compile, of "[98, 97, 97, 97]" "[]"] unfolding o by blast
qed

end
