(* ===== verification/Protocol.thy ===== *)
theory Protocol
  imports Contracts
begin

text \<open>
  The wire values of the query protocol (crate \<open>search-provider-protocol\<close>, \<open>dto.rs\<close>,
  \<open>error.rs\<close> and the constants of \<open>lib.rs\<close>): requests, results, windows and their
  validations. Identities, codes and hexadecimal digits are strings; query and result text is
  its UTF-8 bytes; a score is the bit pattern of its \<open>f32\<close>. Deserialization itself is the JSON
  library's.
\<close>

section \<open>Model: constants and errors\<close>

definition MAX_FRAME_BYTES :: nat where "MAX_FRAME_BYTES = 8 * 1024 * 1024"
definition FRAME_PREFIX_BYTES :: nat where "FRAME_PREFIX_BYTES = 4"
definition MAX_BODY_BYTES :: nat where "MAX_BODY_BYTES = MAX_FRAME_BYTES - FRAME_PREFIX_BYTES"
definition MAX_QUERY_BYTES :: nat where "MAX_QUERY_BYTES = 4096"
definition MAX_ITEMS :: nat where "MAX_ITEMS = 64"
definition MAX_UNIT_TEXT_BYTES :: nat where "MAX_UNIT_TEXT_BYTES = 65536"
definition MAX_REMAINING_MS :: nat where "MAX_REMAINING_MS = 120000"
definition MAX_CLIENT_FRAME_BYTES :: nat where "MAX_CLIENT_FRAME_BYTES = 6 * MAX_QUERY_BYTES + 4096"
definition QUERY_REQUEST_ID :: nat where "QUERY_REQUEST_ID = 1"
definition DEFAULT_WINDOW_PAGE_SIZE :: nat where "DEFAULT_WINDOW_PAGE_SIZE = 16"
definition MAX_WINDOW_TTL_MS :: nat where "MAX_WINDOW_TTL_MS = 120000"
definition SESSION_WINDOW_ID :: nat where "SESSION_WINDOW_ID = 1"
definition MAX_EXPANSION_BYTES :: nat where "MAX_EXPANSION_BYTES = 65536"

datatype ProtocolError =
  InvalidFrame | FrameTooLarge | InvalidMessage | InvalidCorrelation | ResourceExhausted | Serialization

fun protocol_code :: "ProtocolError \<Rightarrow> string" where
  "protocol_code InvalidFrame = ''QUERY_FRAME_INVALID''"
| "protocol_code FrameTooLarge = ''QUERY_FRAME_TOO_LARGE''"
| "protocol_code InvalidMessage = ''QUERY_MESSAGE_INVALID''"
| "protocol_code InvalidCorrelation = ''QUERY_RESPONSE_MISMATCH''"
| "protocol_code ResourceExhausted = ''QUERY_ALLOCATION_FAILED''"
| "protocol_code Serialization = ''QUERY_SERIALIZATION_FAILED''"

abbreviation refuse_if :: "bool \<Rightarrow> ProtocolError + unit" where
  "refuse_if b \<equiv> guardE InvalidMessage (\<not> b)"

section \<open>Model: spellings\<close>

definition hex_spelling :: "string \<Rightarrow> nat \<Rightarrow> bool" where
  "hex_spelling value len \<longleftrightarrow> length value = len \<and>
     list_all (\<lambda>b. is_ascii_digit b \<or> is_lower_af b) (as_bytes value)"

fun uuid_bytes_ok :: "nat \<Rightarrow> bytes \<Rightarrow> bool" where
  "uuid_bytes_ok i [] \<longleftrightarrow> True"
| "uuid_bytes_ok i (b # bs) \<longleftrightarrow>
     (if i = 8 \<or> i = 13 \<or> i = 18 \<or> i = 23 then b = 45 else is_ascii_digit b \<or> is_lower_af b) \<and>
     uuid_bytes_ok (Suc i) bs"

definition canonical_uuid :: "string \<Rightarrow> bool" where
  "canonical_uuid value \<longleftrightarrow> length value = 36 \<and> uuid_bytes_ok 0 (as_bytes value) \<and>
     list_ex (\<lambda>b. b \<noteq> 48 \<and> b \<noteq> 45) (as_bytes value)"

text \<open>\<open>u64::from_str_radix(s, 16)\<close> on lowercase digits.\<close>

definition hex_number :: "string \<Rightarrow> nat option" where
  "hex_number s =
     (if s = [] then None
      else Option.bind (those (map Contracts.lower_hex (as_bytes s))) (\<lambda>ds.
        try_from u64_bound (foldl (\<lambda>n d. n * 16 + unat d) 0 ds)))"

section \<open>Model: requests\<close>

record SearchRequest =
  sr_query :: bytes
  sr_limit :: nat

definition search_request_validate :: "SearchRequest \<Rightarrow> ProtocolError + unit" where
  "search_request_validate r =
     refuse_if (sr_query r = [] \<or> MAX_QUERY_BYTES < length (sr_query r) \<or> 0 \<in> set (sr_query r)
       \<or> sr_limit r = 0 \<or> MAX_ITEMS < sr_limit r)"

record RawExactRequest =
  rr_literal :: bytes
  rr_source_ids :: "string list option"
  rr_limit :: nat

fun validate_ids :: "string list \<Rightarrow> string list \<Rightarrow> ProtocolError + unit" where
  "validate_ids prior [] = Inr ()"
| "validate_ids prior (i # ids) =
     (if \<not> canonical_uuid i \<or> i \<in> set prior then Inl InvalidMessage else validate_ids (prior @ [i]) ids)"

definition validate_selection :: "string list option \<Rightarrow> ProtocolError + unit" where
  "validate_selection ids = (case ids of None \<Rightarrow> Inr () | Some ids \<Rightarrow> validate_ids [] ids)"

definition raw_request_validate :: "RawExactRequest \<Rightarrow> ProtocolError + unit" where
  "raw_request_validate r =
     bindE (refuse_if (rr_literal r = [] \<or> MAX_QUERY_BYTES < length (rr_literal r) \<or> rr_limit r = 0
       \<or> MAX_ITEMS < rr_limit r)) (\<lambda>_.
     validate_selection (rr_source_ids r))"

record DecodedUtf8Request =
  dr_literal :: bytes
  dr_source_ids :: "string list option"
  dr_limit :: nat

definition decoded_request_validate :: "DecodedUtf8Request \<Rightarrow> ProtocolError + unit" where
  "decoded_request_validate r =
     bindE (refuse_if (dr_literal r = [] \<or> MAX_QUERY_BYTES < length (dr_literal r) \<or> dr_limit r = 0
       \<or> MAX_ITEMS < dr_limit r)) (\<lambda>_.
     validate_selection (dr_source_ids r))"

datatype ClientFrame =
  CQuery nat nat SearchRequest
| CRawExact nat nat RawExactRequest
| CDecodedUtf8 nat nat DecodedUtf8Request
| CCancel nat

definition check_remaining :: "nat \<Rightarrow> ProtocolError + unit" where
  "check_remaining ms = refuse_if (ms = 0 \<or> MAX_REMAINING_MS < ms)"

definition client_frame_validate :: "ClientFrame \<Rightarrow> ProtocolError + unit" where
  "client_frame_validate frame =
     bindE (case frame of
         CQuery request_id remaining request \<Rightarrow>
           bindE (check_remaining remaining) (\<lambda>_. bindE (search_request_validate request) (\<lambda>_. Inr request_id))
       | CRawExact request_id remaining request \<Rightarrow>
           bindE (check_remaining remaining) (\<lambda>_. bindE (raw_request_validate request) (\<lambda>_. Inr request_id))
       | CDecodedUtf8 request_id remaining request \<Rightarrow>
           bindE (check_remaining remaining) (\<lambda>_. bindE (decoded_request_validate request) (\<lambda>_. Inr request_id))
       | CCancel request_id \<Rightarrow> Inr request_id) (\<lambda>request_id.
     guardE InvalidCorrelation (request_id = QUERY_REQUEST_ID))"

section \<open>Model: citations\<close>

datatype ObjectKindDto = SourceDto | PreparedDto

record ObjectRefDto =
  od_version :: nat
  od_kind :: ObjectKindDto
  od_digest :: string
  od_bytes :: nat

definition object_dto_validate :: "ObjectRefDto \<Rightarrow> ObjectKindDto \<Rightarrow> ProtocolError + unit" where
  "object_dto_validate o' expected =
     (let maximum = (case expected of SourceDto \<Rightarrow> 8 * 1024 * 1024 | PreparedDto \<Rightarrow> 64 * 1024 * 1024) in
      refuse_if (od_version o' \<noteq> 1 \<or> od_kind o' \<noteq> expected \<or> \<not> hex_spelling (od_digest o') 64
        \<or> maximum < od_bytes o' \<or> expected = PreparedDto \<and> od_bytes o' = 0))"

record EvidenceMetadata =
  em_generation :: nat
  em_point_id :: string
  em_namespace_id :: string
  em_source_id :: string
  em_input :: ObjectRefDto
  em_prepared :: ObjectRefDto
  em_unit :: nat
  em_start :: nat
  em_end :: nat
  em_line_start :: nat
  em_line_end :: nat
  em_starts_at_line :: bool
  em_ends_at_line :: bool

definition evidence_validate :: "EvidenceMetadata \<Rightarrow> nat \<Rightarrow> ProtocolError + unit" where
  "evidence_validate e generation =
     bindE (refuse_if (generation = 0 \<or> em_generation e \<noteq> generation
       \<or> \<not> hex_spelling (em_point_id e) 32
       \<or> hex_number (take 16 (em_point_id e)) \<noteq> Some generation
       \<or> \<not> canonical_uuid (em_namespace_id e) \<or> \<not> canonical_uuid (em_source_id e)
       \<or> em_end e \<le> em_start e \<or> MAX_UNIT_TEXT_BYTES < em_end e - em_start e
       \<or> em_line_end e \<le> em_line_start e)) (\<lambda>_.
     bindE (object_dto_validate (em_input e) SourceDto) (\<lambda>_.
     bindE (refuse_if (od_bytes (em_input e) < em_end e)) (\<lambda>_.
     object_dto_validate (em_prepared e) PreparedDto)))"

text \<open>The bit pattern of an \<open>f32\<close>; it is finite unless its exponent bits are all set.\<close>

type_synonym f32 = "32 word"

definition is_finite :: "f32 \<Rightarrow> bool" where
  "is_finite x \<longleftrightarrow> x AND 0x7F800000 \<noteq> 0x7F800000"

record SearchHit =
  sh_rank :: nat
  sh_score :: f32
  sh_evidence :: EvidenceMetadata
  sh_unit_text :: bytes

definition failure_code_new :: "string \<Rightarrow> ProtocolError + string" where
  "failure_code_new code =
     (if code = [] \<or> 64 < length code
         \<or> \<not> list_all (\<lambda>b. 65 \<le> b \<and> b \<le> 90 \<or> is_ascii_digit b \<or> b = 95) (as_bytes code)
      then Inl InvalidMessage else Inr code)"

record SearchGap =
  sg_rank :: nat
  sg_score :: f32
  sg_evidence :: EvidenceMetadata
  sg_code :: string

datatype SearchItem = SHit SearchHit | SGap SearchGap

fun item_rank :: "SearchItem \<Rightarrow> nat" where
  "item_rank (SHit hit) = sh_rank hit"
| "item_rank (SGap gap) = sg_rank gap"

fun item_evidence :: "SearchItem \<Rightarrow> EvidenceMetadata" where
  "item_evidence (SHit hit) = sh_evidence hit"
| "item_evidence (SGap gap) = sg_evidence gap"

definition search_item_validate :: "SearchItem \<Rightarrow> nat \<Rightarrow> ProtocolError + unit" where
  "search_item_validate item generation =
     bindE (case item of
         SHit hit \<Rightarrow>
           if MAX_UNIT_TEXT_BYTES < length (sh_unit_text hit)
              \<or> try_from u64_bound (length (sh_unit_text hit)) \<noteq>
                 checked_sub (em_end (sh_evidence hit)) (em_start (sh_evidence hit))
           then Inl InvalidMessage else Inr (sh_score hit)
       | SGap gap \<Rightarrow>
           if sg_code gap \<noteq> ''SOURCE_OBJECT_MISSING'' \<and> sg_code gap \<noteq> ''PREPARED_OBJECT_MISSING''
           then Inl InvalidMessage else Inr (sg_score gap)) (\<lambda>score.
     bindE (refuse_if (\<not> is_finite score)) (\<lambda>_.
     evidence_validate (item_evidence item) generation))"

datatype StopReason = Complete | OutputLimit

section \<open>Model: raw exact results\<close>

record RawSourceRef =
  rs_namespace_id :: string
  rs_source_id :: string
  rs_row_revision :: nat
  rs_registration_revision :: nat
  rs_input :: ObjectRefDto

definition raw_source_validate :: "RawSourceRef \<Rightarrow> ProtocolError + unit" where
  "raw_source_validate s =
     bindE (refuse_if (\<not> canonical_uuid (rs_namespace_id s) \<or> \<not> canonical_uuid (rs_source_id s)
       \<or> rs_row_revision s = 0 \<or> rs_registration_revision s = 0)) (\<lambda>_.
     object_dto_validate (rs_input s) SourceDto)"

record RawExactMatch =
  rm_source :: RawSourceRef
  rm_start :: nat
  rm_end :: nat
  rm_bytes_hex :: string

record RawExactGap =
  rg_source :: RawSourceRef
  rg_code :: string

datatype RawExactItem = RMatch RawExactMatch | RGap RawExactGap

fun raw_item_source :: "RawExactItem \<Rightarrow> RawSourceRef" where
  "raw_item_source (RMatch hit) = rm_source hit"
| "raw_item_source (RGap gap) = rg_source gap"

definition raw_item_validate :: "RawExactItem \<Rightarrow> ProtocolError + unit" where
  "raw_item_validate item =
     bindE (raw_source_validate (raw_item_source item)) (\<lambda>_.
     case item of
       RMatch hit \<Rightarrow>
         bindE (ok_or InvalidMessage (checked_sub (rm_end hit) (rm_start hit))) (\<lambda>len.
         bindE (refuse_if (len = 0)) (\<lambda>_.
         refuse_if (od_bytes (rs_input (rm_source hit)) < rm_end hit \<or> MAX_QUERY_BYTES < len
           \<or> \<not> hex_spelling (rm_bytes_hex hit) (len * 2))))
     | RGap gap \<Rightarrow> refuse_if (rg_code gap \<noteq> ''SOURCE_OBJECT_MISSING''))"

record RawExactResult =
  rx_generation :: nat
  rx_selected_sources :: nat
  rx_scanned_sources :: nat
  rx_missing_sources :: nat
  rx_scanned_bytes :: nat
  rx_matches :: nat
  rx_items :: "RawExactItem list"
  rx_scan_complete :: bool
  rx_complete_negative :: bool
  rx_stop :: StopReason

fun raw_ordered :: "RawExactItem \<Rightarrow> RawExactItem \<Rightarrow> ProtocolError + unit" where
  "raw_ordered previous item =
     (let left = raw_item_source previous; right = raw_item_source item in
      if rs_namespace_id left \<noteq> rs_namespace_id right \<or> rs_source_id right < rs_source_id left
      then Inl InvalidMessage
      else if rs_source_id left = rs_source_id right \<and>
        (left \<noteq> right \<or>
         \<not> (case (previous, item) of (RMatch a, RMatch b) \<Rightarrow> rm_start a < rm_start b | _ \<Rightarrow> False))
      then Inl InvalidMessage else Inr ())"

text \<open>The loop over the items with the previous one, returning the match and gap counts.\<close>

fun raw_items_loop :: "RawExactItem option \<Rightarrow> RawExactItem list \<Rightarrow> nat \<Rightarrow> nat \<Rightarrow> ProtocolError + nat \<times> nat" where
  "raw_items_loop previous [] matches gaps = Inr (matches, gaps)"
| "raw_items_loop previous (item # items) matches gaps =
     bindE (raw_item_validate item) (\<lambda>_.
     bindE (case previous of None \<Rightarrow> Inr () | Some p \<Rightarrow> raw_ordered p item) (\<lambda>_.
     case item of
       RMatch _ \<Rightarrow> raw_items_loop (Some item) items (matches + 1) gaps
     | RGap _ \<Rightarrow> raw_items_loop (Some item) items matches (gaps + 1)))"

definition raw_result_validate :: "RawExactResult \<Rightarrow> nat \<Rightarrow> ProtocolError + unit" where
  "raw_result_validate r requested_limit =
     bindE (ok_or InvalidMessage (checked_add64 (rx_matches r) (rx_missing_sources r))) (\<lambda>total.
     bindE (refuse_if (rx_generation r = 0 \<or> requested_limit = 0 \<or> MAX_ITEMS < requested_limit
       \<or> requested_limit < length (rx_items r)
       \<or> checked_add64 (rx_scanned_sources r) (rx_missing_sources r) \<noteq> Some (rx_selected_sources r)
       \<or> rx_scan_complete r \<noteq> (rx_scanned_sources r = rx_selected_sources r)
       \<or> rx_complete_negative r \<noteq> (rx_scan_complete r \<and> rx_matches r = 0)
       \<or> rx_scanned_bytes r < rx_matches r
       \<or> rx_scanned_sources r = 0 \<and> rx_scanned_bytes r \<noteq> 0
       \<or> total < length (rx_items r)
       \<or> (rx_stop r = Complete) \<noteq> (length (rx_items r) = total))) (\<lambda>_.
     bindE (raw_items_loop None (rx_items r) 0 0) (\<lambda>(matches, gaps).
     refuse_if (rx_matches r < matches \<or> rx_missing_sources r < gaps))))"

fun hex_pairs_match :: "bytes \<Rightarrow> bytes \<Rightarrow> bool" where
  "hex_pairs_match (h # l # hex) (b # bs) \<longleftrightarrow> h = hex_high b \<and> l = hex_low b \<and> hex_pairs_match hex bs"
| "hex_pairs_match _ _ \<longleftrightarrow> True"

definition selection_binds :: "string list option \<Rightarrow> nat \<Rightarrow> string list \<Rightarrow> ProtocolError + unit" where
  "selection_binds ids selected sources =
     (case ids of None \<Rightarrow> Inr ()
      | Some ids \<Rightarrow> refuse_if (try_from u64_bound (length ids) \<noteq> Some selected \<or> \<not> set sources \<subseteq> set ids))"

definition raw_result_validate_request :: "RawExactResult \<Rightarrow> RawExactRequest \<Rightarrow> ProtocolError + unit" where
  "raw_result_validate_request r request =
     bindE (raw_request_validate request) (\<lambda>_.
     bindE (raw_result_validate r (rr_limit request)) (\<lambda>_.
     bindE (selection_binds (rr_source_ids request) (rx_selected_sources r)
         (map (rs_source_id \<circ> raw_item_source) (rx_items r))) (\<lambda>_.
     refuse_if (list_ex (\<lambda>item. case item of
         RMatch hit \<Rightarrow> rm_end hit - rm_start hit \<noteq> length (rr_literal request)
           \<or> \<not> hex_pairs_match (as_bytes (rm_bytes_hex hit)) (rr_literal request)
       | RGap _ \<Rightarrow> False) (rx_items r)))))"

section \<open>Model: decoded exact results\<close>

record DecodedUtf8Match =
  dm_source :: RawSourceRef
  dm_prepared :: ObjectRefDto
  dm_representation_start :: nat
  dm_representation_end :: nat
  dm_source_start :: nat
  dm_source_end :: nat
  dm_text :: bytes

record DecodedUtf8Gap =
  dg_source :: RawSourceRef
  dg_prepared :: "ObjectRefDto option"
  dg_code :: string

datatype DecodedUtf8Item = DMatch DecodedUtf8Match | DGap DecodedUtf8Gap

fun decoded_item_source :: "DecodedUtf8Item \<Rightarrow> RawSourceRef" where
  "decoded_item_source (DMatch hit) = dm_source hit"
| "decoded_item_source (DGap gap) = dg_source gap"

definition decoded_item_validate :: "DecodedUtf8Item \<Rightarrow> ProtocolError + unit" where
  "decoded_item_validate item =
     bindE (raw_source_validate (decoded_item_source item)) (\<lambda>_.
     case item of
       DMatch hit \<Rightarrow>
         bindE (object_dto_validate (dm_prepared hit) PreparedDto) (\<lambda>_.
         refuse_if (dm_representation_end hit \<le> dm_representation_start hit
           \<or> dm_source_start hit \<noteq> dm_representation_start hit
           \<or> dm_source_end hit \<noteq> dm_representation_end hit
           \<or> od_bytes (rs_input (dm_source hit)) < dm_source_end hit
           \<or> MAX_QUERY_BYTES < length (dm_text hit)
           \<or> try_from u64_bound (length (dm_text hit)) \<noteq> checked_sub (dm_source_end hit) (dm_source_start hit)))
     | DGap gap \<Rightarrow>
         (case dg_prepared gap of
            None \<Rightarrow> refuse_if (dg_code gap \<noteq> ''PREPARATION_GAP'')
          | Some prepared \<Rightarrow>
              if dg_code gap = ''SOURCE_OBJECT_MISSING'' \<or> dg_code gap = ''PREPARED_OBJECT_MISSING''
              then object_dto_validate prepared PreparedDto else Inl InvalidMessage))"

record DecodedUtf8Result =
  dx_generation :: nat
  dx_selected_sources :: nat
  dx_scanned_sources :: nat
  dx_gap_sources :: nat
  dx_scanned_bytes :: nat
  dx_matches :: nat
  dx_items :: "DecodedUtf8Item list"
  dx_scan_complete :: bool
  dx_complete_negative :: bool
  dx_stop :: StopReason

fun decoded_ordered :: "DecodedUtf8Item \<Rightarrow> DecodedUtf8Item \<Rightarrow> ProtocolError + unit" where
  "decoded_ordered previous item =
     (let left = decoded_item_source previous; right = decoded_item_source item in
      refuse_if (rs_namespace_id left \<noteq> rs_namespace_id right \<or> rs_source_id right < rs_source_id left
        \<or> rs_source_id left = rs_source_id right \<and>
          (left \<noteq> right \<or>
           \<not> (case (previous, item) of
                (DMatch a, DMatch b) \<Rightarrow>
                  dm_prepared a = dm_prepared b \<and> dm_representation_start a < dm_representation_start b
              | _ \<Rightarrow> False))))"

fun decoded_items_loop ::
  "DecodedUtf8Item option \<Rightarrow> DecodedUtf8Item list \<Rightarrow> nat \<Rightarrow> nat \<Rightarrow> ProtocolError + nat \<times> nat" where
  "decoded_items_loop previous [] matches gaps = Inr (matches, gaps)"
| "decoded_items_loop previous (item # items) matches gaps =
     bindE (decoded_item_validate item) (\<lambda>_.
     bindE (case previous of None \<Rightarrow> Inr () | Some p \<Rightarrow> decoded_ordered p item) (\<lambda>_.
     case item of
       DMatch _ \<Rightarrow> decoded_items_loop (Some item) items (matches + 1) gaps
     | DGap _ \<Rightarrow> decoded_items_loop (Some item) items matches (gaps + 1)))"

definition decoded_result_validate :: "DecodedUtf8Result \<Rightarrow> nat \<Rightarrow> ProtocolError + unit" where
  "decoded_result_validate r requested_limit =
     bindE (ok_or InvalidMessage (checked_add64 (dx_matches r) (dx_gap_sources r))) (\<lambda>total.
     bindE (refuse_if (dx_generation r = 0 \<or> requested_limit = 0 \<or> MAX_ITEMS < requested_limit
       \<or> requested_limit < length (dx_items r)
       \<or> checked_add64 (dx_scanned_sources r) (dx_gap_sources r) \<noteq> Some (dx_selected_sources r)
       \<or> dx_scan_complete r \<noteq> (dx_scanned_sources r = dx_selected_sources r)
       \<or> dx_complete_negative r \<noteq> (dx_scan_complete r \<and> dx_matches r = 0)
       \<or> dx_scanned_bytes r < dx_matches r
       \<or> dx_scanned_sources r = 0 \<and> dx_scanned_bytes r \<noteq> 0
       \<or> total < length (dx_items r)
       \<or> (dx_stop r = Complete) \<noteq> (length (dx_items r) = total))) (\<lambda>_.
     bindE (decoded_items_loop None (dx_items r) 0 0) (\<lambda>(matches, gaps).
     refuse_if (dx_matches r < matches \<or> dx_gap_sources r < gaps))))"

definition decoded_result_validate_request :: "DecodedUtf8Result \<Rightarrow> DecodedUtf8Request \<Rightarrow> ProtocolError + unit" where
  "decoded_result_validate_request r request =
     bindE (decoded_request_validate request) (\<lambda>_.
     bindE (decoded_result_validate r (dr_limit request)) (\<lambda>_.
     bindE (selection_binds (dr_source_ids request) (dx_selected_sources r)
         (map (rs_source_id \<circ> decoded_item_source) (dx_items r))) (\<lambda>_.
     refuse_if (list_ex (\<lambda>item. case item of
         DMatch hit \<Rightarrow> dm_text hit \<noteq> dr_literal request | DGap _ \<Rightarrow> False) (dx_items r)))))"

section \<open>Model: terminals\<close>

datatype QueryOutcome =
  OComplete nat "SearchItem list" StopReason
| ORawExact RawExactResult
| ODecodedUtf8 DecodedUtf8Result
| OCancelled
| OFailed string

record Terminal =
  tm_request_id :: nat
  tm_outcome :: QueryOutcome

fun terminal_items_loop :: "nat \<Rightarrow> SearchItem list \<Rightarrow> SearchItem list \<Rightarrow> ProtocolError + unit" where
  "terminal_items_loop generation prior [] = Inr ()"
| "terminal_items_loop generation prior (item # items) =
     bindE (refuse_if (item_rank item \<noteq> length prior + 1
       \<or> list_ex (\<lambda>p. em_point_id (item_evidence p) = em_point_id (item_evidence item)) prior)) (\<lambda>_.
     bindE (search_item_validate item generation) (\<lambda>_.
     terminal_items_loop generation (prior @ [item]) items))"

definition terminal_validate :: "Terminal \<Rightarrow> nat \<Rightarrow> ProtocolError + unit" where
  "terminal_validate t requested_limit =
     bindE (guardE InvalidCorrelation (tm_request_id t = QUERY_REQUEST_ID)) (\<lambda>_.
     bindE (refuse_if (requested_limit = 0 \<or> MAX_ITEMS < requested_limit)) (\<lambda>_.
     case tm_outcome t of
       OComplete generation items _ \<Rightarrow>
         bindE (refuse_if (generation = 0 \<or> requested_limit < length items)) (\<lambda>_.
         terminal_items_loop generation [] items)
     | ORawExact result \<Rightarrow> raw_result_validate result requested_limit
     | ODecodedUtf8 result \<Rightarrow> decoded_result_validate result requested_limit
     | _ \<Rightarrow> Inr ()))"

end
