(* ===== verification/WindowProtocol.thy ===== *)
theory WindowProtocol
  imports Protocol Utf8
begin

text \<open>
  The session part of the query protocol (\<open>dto.rs\<close> of \<open>search-provider-protocol\<close>): the
  query of a window, the session frames, pages of the stored result prefix, expansions around an
  emitted item, replies, and the validations that bind pages and expansions to the request they
  answer. The validating client is stateless: what it has already received (\<open>emitted\<close>) is an
  argument. The lemmas at the end are the laws the result windows of the daemon are checked
  against.
\<close>

section \<open>Model: session frames\<close>

datatype WindowQuery =
  QSearch SearchRequest
| QRaw RawExactRequest
| QDecodedUtf8 DecodedUtf8Request

fun window_query_validate :: "WindowQuery \<Rightarrow> ProtocolError + unit" where
  "window_query_validate (QSearch request) = search_request_validate request"
| "window_query_validate (QRaw request) = raw_request_validate request"
| "window_query_validate (QDecodedUtf8 request) = decoded_request_validate request"

fun window_query_limit :: "WindowQuery \<Rightarrow> nat" where
  "window_query_limit (QSearch request) = sr_limit request"
| "window_query_limit (QRaw request) = rr_limit request"
| "window_query_limit (QDecodedUtf8 request) = dr_limit request"

record OpenFrame =
  of_request_id :: nat
  of_remaining_ms :: nat
  of_query :: WindowQuery
  of_page_size :: nat
  of_ttl_ms :: nat

record ContinueFrame =
  cf_request_id :: nat
  cf_remaining_ms :: nat
  cf_window_id :: nat
  cf_page_size :: nat

record ExpandFrame =
  xf_request_id :: nat
  xf_remaining_ms :: nat
  xf_window_id :: nat
  xf_item_index :: nat
  xf_before_bytes :: nat
  xf_after_bytes :: nat

datatype SessionClientFrame =
  SOpen OpenFrame
| SContinue ContinueFrame
| SExpand ExpandFrame
| SCancel nat
| SClose nat

definition default_window_page_size :: nat where
  "default_window_page_size = DEFAULT_WINDOW_PAGE_SIZE"

definition default_window_ttl :: nat where
  "default_window_ttl = MAX_WINDOW_TTL_MS"

fun session_request_id :: "SessionClientFrame \<Rightarrow> nat" where
  "session_request_id (SOpen f) = of_request_id f"
| "session_request_id (SContinue f) = cf_request_id f"
| "session_request_id (SExpand f) = xf_request_id f"
| "session_request_id (SCancel request_id) = request_id"
| "session_request_id (SClose request_id) = request_id"

definition validate_page_size :: "nat \<Rightarrow> ProtocolError + unit" where
  "validate_page_size sz = (if sz = 0 \<or> MAX_ITEMS < sz then Inl InvalidMessage else Inr ())"

definition validate_window_id :: "nat \<Rightarrow> ProtocolError + unit" where
  "validate_window_id i = (if i = SESSION_WINDOW_ID then Inr () else Inl InvalidMessage)"

definition session_frame_validate :: "SessionClientFrame \<Rightarrow> ProtocolError + unit" where
  "session_frame_validate frame =
     bindE (guardE InvalidCorrelation (session_request_id frame \<noteq> 0)) (\<lambda>_.
     bindE (case frame of
         SOpen f \<Rightarrow>
           bindE (window_query_validate (of_query f)) (\<lambda>_.
           bindE (validate_page_size (of_page_size f)) (\<lambda>_.
           bindE (refuse_if (of_ttl_ms f = 0 \<or> MAX_WINDOW_TTL_MS < of_ttl_ms f)) (\<lambda>_.
           Inr (Some (of_remaining_ms f)))))
       | SContinue f \<Rightarrow>
           bindE (validate_window_id (cf_window_id f)) (\<lambda>_.
           bindE (validate_page_size (cf_page_size f)) (\<lambda>_.
           Inr (Some (cf_remaining_ms f))))
       | SExpand f \<Rightarrow>
           bindE (validate_window_id (xf_window_id f)) (\<lambda>_.
           bindE (refuse_if (MAX_ITEMS \<le> xf_item_index f \<or>
               (case checked_add64 (xf_before_bytes f) (xf_after_bytes f) of
                  None \<Rightarrow> True | Some n \<Rightarrow> MAX_EXPANSION_BYTES < n))) (\<lambda>_.
           Inr (Some (xf_remaining_ms f))))
       | _ \<Rightarrow> Inr None) (\<lambda>remaining.
     refuse_if (case remaining of None \<Rightarrow> False | Some ms \<Rightarrow> ms = 0 \<or> MAX_REMAINING_MS < ms)))"

section \<open>Model: pages\<close>

datatype WindowItem = WSearch SearchItem | WRaw RawExactItem | WDecoded DecodedUtf8Item

fun window_item_validate :: "WindowItem \<Rightarrow> nat \<Rightarrow> ProtocolError + unit" where
  "window_item_validate (WSearch item) generation = search_item_validate item generation"
| "window_item_validate (WRaw item) generation = raw_item_validate item"
| "window_item_validate (WDecoded item) generation = decoded_item_validate item"

record WindowEntry =
  we_item_index :: nat
  we_item :: WindowItem

record WindowSummary =
  ws_generation :: nat
  ws_retained_items :: nat
  ws_found_matches :: "nat option"
  ws_scan_complete :: "bool option"
  ws_complete_negative :: "bool option"
  ws_result_stop :: StopReason

record WindowPage =
  wp_window_id :: nat
  wp_summary :: WindowSummary
  wp_start_index :: nat
  wp_next_index :: nat
  wp_items :: "WindowEntry list"
  wp_has_more :: bool
  wp_page_stop :: StopReason

fun is_search :: "WindowItem \<Rightarrow> bool" where
  "is_search (WSearch _) = True"
| "is_search (WRaw _) = False"
| "is_search (WDecoded _) = False"

fun page_items_loop :: "WindowSummary \<Rightarrow> nat \<Rightarrow> nat \<Rightarrow> WindowEntry list \<Rightarrow> ProtocolError + unit" where
  "page_items_loop summary start i [] = Inr ()"
| "page_items_loop summary start i (entry # entries) =
     bindE (refuse_if (we_item_index entry \<noteq> start + i)) (\<lambda>_.
     bindE (window_item_validate (we_item entry) (ws_generation summary)) (\<lambda>_.
     bindE (refuse_if (is_search (we_item entry) \<noteq> (ws_found_matches summary = None))) (\<lambda>_.
     bindE (case we_item entry of
         WSearch item \<Rightarrow> refuse_if (item_rank item \<noteq> we_item_index entry + 1)
       | _ \<Rightarrow> Inr ()) (\<lambda>_.
     page_items_loop summary start (i + 1) entries))))"

definition page_validate :: "WindowPage \<Rightarrow> ProtocolError + unit" where
  "page_validate p =
     bindE (validate_window_id (wp_window_id p)) (\<lambda>_.
     let summary = wp_summary p in
     bindE (refuse_if (ws_generation summary = 0 \<or> MAX_ITEMS < ws_retained_items summary
       \<or> wp_next_index p < wp_start_index p \<or> ws_retained_items summary < wp_next_index p
       \<or> wp_next_index p - wp_start_index p \<noteq> length (wp_items p)
       \<or> wp_has_more p \<noteq> (wp_next_index p < ws_retained_items summary)
       \<or> wp_items p = [] \<and> wp_has_more p
       \<or> \<not> (case (ws_found_matches summary, ws_scan_complete summary, ws_complete_negative summary) of
              (None, None, None) \<Rightarrow> True | (Some _, Some _, Some _) \<Rightarrow> True | _ \<Rightarrow> False)
       \<or> (case ws_complete_negative summary of None \<Rightarrow> False
          | Some negative \<Rightarrow> negative \<noteq>
              (ws_scan_complete summary = Some True \<and> ws_found_matches summary = Some 0)))) (\<lambda>_.
     page_items_loop summary (wp_start_index p) 0 (wp_items p)))"

section \<open>Model: expansions and replies\<close>

datatype ExpansionContent = XRaw string | XUtf8 bytes

record WindowExpansion =
  wx_window_id :: nat
  wx_item_index :: nat
  wx_source :: RawSourceRef
  wx_prepared :: "ObjectRefDto option"
  wx_representation_start :: nat
  wx_representation_end :: nat
  wx_source_start :: nat
  wx_source_end :: nat
  wx_content :: ExpansionContent

definition expansion_validate :: "WindowExpansion \<Rightarrow> ProtocolError + unit" where
  "expansion_validate x =
     bindE (validate_window_id (wx_window_id x)) (\<lambda>_.
     bindE (raw_source_validate (wx_source x)) (\<lambda>_.
     bindE (ok_or InvalidMessage (checked_sub (wx_representation_end x) (wx_representation_start x))) (\<lambda>len.
     bindE (refuse_if (len = 0 \<or> MAX_EXPANSION_BYTES < len)) (\<lambda>_.
     bindE (refuse_if (MAX_ITEMS \<le> wx_item_index x
       \<or> wx_source_start x \<noteq> wx_representation_start x
       \<or> wx_source_end x \<noteq> wx_representation_end x
       \<or> od_bytes (rs_input (wx_source x)) < wx_source_end x)) (\<lambda>_.
     case (wx_content x, wx_prepared x) of
       (XRaw bytes_hex, None) \<Rightarrow> refuse_if (\<not> hex_spelling bytes_hex (len * 2))
     | (XUtf8 txt, Some prepared) \<Rightarrow>
         bindE (object_dto_validate prepared PreparedDto) (\<lambda>_.
         refuse_if (try_from u64_bound (length txt) \<noteq> Some len))
     | _ \<Rightarrow> Inl InvalidMessage)))))"

datatype SessionOutcome =
  SPage WindowPage
| SExpanded WindowExpansion
| SClosed
| SExpired
| SCancelled
| SFailed string

record SessionReply =
  rp_request_id :: nat
  rp_outcome :: SessionOutcome

definition session_reply_validate :: "SessionReply \<Rightarrow> ProtocolError + unit" where
  "session_reply_validate reply =
     bindE (guardE InvalidCorrelation (\<not> (rp_request_id reply = 0 \<and> rp_outcome reply \<noteq> SExpired))) (\<lambda>_.
     case rp_outcome reply of
       SPage page \<Rightarrow> page_validate page
     | SExpanded expansion \<Rightarrow> expansion_validate expansion
     | _ \<Rightarrow> Inr ())"

section \<open>Model: pages and expansions against their request\<close>

definition window_item_validate_request :: "WindowItem \<Rightarrow> WindowQuery \<Rightarrow> nat \<Rightarrow> ProtocolError + unit" where
  "window_item_validate_request w query generation =
     bindE (window_item_validate w generation) (\<lambda>_.
     let finish = (\<lambda>ids source.
           refuse_if (case ids of None \<Rightarrow> False | Some ids \<Rightarrow> rs_source_id source \<notin> set ids)) in
     case (w, query) of
       (WSearch _, QSearch _) \<Rightarrow> Inr ()
     | (WRaw item, QRaw request) \<Rightarrow>
         bindE (case item of
             RMatch hit \<Rightarrow> refuse_if (rm_end hit - rm_start hit \<noteq> length (rr_literal request)
               \<or> \<not> hex_pairs_match (as_bytes (rm_bytes_hex hit)) (rr_literal request))
           | RGap _ \<Rightarrow> Inr ()) (\<lambda>_. finish (rr_source_ids request) (raw_item_source item))
     | (WDecoded item, QDecodedUtf8 request) \<Rightarrow>
         bindE (case item of
             DMatch hit \<Rightarrow> refuse_if (dm_text hit \<noteq> dr_literal request)
           | DGap _ \<Rightarrow> Inr ()) (\<lambda>_. finish (dr_source_ids request) (decoded_item_source item))
     | _ \<Rightarrow> Inl InvalidMessage)"

definition validate_window_order :: "WindowItem \<Rightarrow> WindowItem \<Rightarrow> ProtocolError + unit" where
  "validate_window_order left right =
     guardE InvalidMessage (case (left, right) of
         (WSearch a, WSearch b) \<Rightarrow>
           (if item_rank a + 1 < u8_bound then Some (item_rank a + 1) else None) = Some (item_rank b)
       | (WRaw a, WRaw b) \<Rightarrow>
           rs_namespace_id (raw_item_source a) = rs_namespace_id (raw_item_source b) \<and>
           (rs_source_id (raw_item_source a) < rs_source_id (raw_item_source b) \<or>
            raw_item_source a = raw_item_source b \<and>
            (case (a, b) of (RMatch a, RMatch b) \<Rightarrow> rm_start a < rm_start b | _ \<Rightarrow> False))
       | (WDecoded a, WDecoded b) \<Rightarrow>
           rs_namespace_id (decoded_item_source a) = rs_namespace_id (decoded_item_source b) \<and>
           (rs_source_id (decoded_item_source a) < rs_source_id (decoded_item_source b) \<or>
            decoded_item_source a = decoded_item_source b \<and>
            (case (a, b) of
               (DMatch a, DMatch b) \<Rightarrow>
                 dm_prepared a = dm_prepared b \<and> dm_representation_start a < dm_representation_start b
             | _ \<Rightarrow> False))
       | _ \<Rightarrow> False)"

fun same_point :: "SearchItem \<Rightarrow> WindowItem \<Rightarrow> bool" where
  "same_point item (WSearch p) \<longleftrightarrow> em_point_id (item_evidence p) = em_point_id (item_evidence item)"
| "same_point item _ \<longleftrightarrow> False"

text \<open>The loop over all received entries with the earlier ones, counting matches and gaps.\<close>

fun received_loop ::
  "WindowQuery \<Rightarrow> nat \<Rightarrow> WindowItem list \<Rightarrow> WindowItem list \<Rightarrow> nat \<Rightarrow> nat \<Rightarrow> ProtocolError + nat \<times> nat" where
  "received_loop query generation prior [] found gaps = Inr (found, gaps)"
| "received_loop query generation prior (item # items) found gaps =
     bindE (window_item_validate_request item query generation) (\<lambda>_.
     bindE (case item of
         WSearch s \<Rightarrow> bindE (refuse_if (list_ex (same_point s) prior)) (\<lambda>_. Inr (found, gaps))
       | WRaw (RMatch _) \<Rightarrow> Inr (found + 1, gaps)
       | WDecoded (DMatch _) \<Rightarrow> Inr (found + 1, gaps)
       | WRaw (RGap _) \<Rightarrow> Inr (found, gaps + 1)
       | WDecoded (DGap _) \<Rightarrow> Inr (found, gaps + 1)) (\<lambda>(found, gaps).
     bindE (if prior = [] then Inr () else validate_window_order (List.last prior) item) (\<lambda>_.
     received_loop query generation (prior @ [item]) items found gaps)))"

fun is_search_query :: "WindowQuery \<Rightarrow> bool" where
  "is_search_query (QSearch _) = True"
| "is_search_query (QRaw _) = False"
| "is_search_query (QDecodedUtf8 _) = False"

definition page_validate_request :: "WindowPage \<Rightarrow> WindowQuery \<Rightarrow> WindowEntry list \<Rightarrow> nat \<Rightarrow> ProtocolError + unit" where
  "page_validate_request p query emitted page_size =
     bindE (page_validate p) (\<lambda>_.
     bindE (window_query_validate query) (\<lambda>_.
     bindE (validate_page_size page_size) (\<lambda>_.
     let summary = wp_summary p;
         expected = min page_size (ws_retained_items summary - length emitted) in
     bindE (refuse_if (wp_start_index p \<noteq> length emitted
       \<or> window_query_limit query < ws_retained_items summary
       \<or> expected < length (wp_items p)
       \<or> (wp_page_stop p = Complete) \<noteq> (length (wp_items p) = expected)
       \<or> is_search_query query \<noteq> (ws_found_matches summary = None))) (\<lambda>_.
     bindE (received_loop query (ws_generation summary) [] (map we_item (emitted @ wp_items p)) 0 0) (\<lambda>(found, gaps).
     refuse_if (case ws_found_matches summary of None \<Rightarrow> False
       | Some all_found \<Rightarrow> all_found < found \<or> 0 < gaps \<and> ws_scan_complete summary = Some True
           \<or> wp_next_index p = ws_retained_items summary \<and> ws_result_stop summary = Complete
             \<and> (found \<noteq> all_found \<or> ws_scan_complete summary \<noteq> Some (gaps = 0))))))))"

text \<open>The citation of an original item: the parts of the tuple the code builds.\<close>

record Original =
  or_namespace :: string
  or_id :: string
  or_input :: ObjectRefDto
  or_prepared :: "ObjectRefDto option"
  or_start :: nat
  or_end :: nat
  or_text :: "bytes option"
  or_hex :: "string option"
  or_source :: "RawSourceRef option"

fun original_parts :: "WindowItem \<Rightarrow> Original option" where
  "original_parts (WSearch (SHit hit)) =
     (let e = sh_evidence hit in
      Some \<lparr>or_namespace = em_namespace_id e, or_id = em_source_id e, or_input = em_input e,
        or_prepared = Some (em_prepared e), or_start = em_start e, or_end = em_end e,
        or_text = Some (sh_unit_text hit), or_hex = None, or_source = None\<rparr>)"
| "original_parts (WRaw (RMatch hit)) =
     Some \<lparr>or_namespace = rs_namespace_id (rm_source hit), or_id = rs_source_id (rm_source hit),
       or_input = rs_input (rm_source hit), or_prepared = None, or_start = rm_start hit, or_end = rm_end hit,
       or_text = None, or_hex = Some (rm_bytes_hex hit), or_source = Some (rm_source hit)\<rparr>"
| "original_parts (WDecoded (DMatch hit)) =
     Some \<lparr>or_namespace = rs_namespace_id (dm_source hit), or_id = rs_source_id (dm_source hit),
       or_input = rs_input (dm_source hit), or_prepared = Some (dm_prepared hit),
       or_start = dm_representation_start hit, or_end = dm_representation_end hit,
       or_text = Some (dm_text hit), or_hex = None, or_source = Some (dm_source hit)\<rparr>"
| "original_parts _ = None"

text \<open>\<open>str::get\<close> on the digits of an expansion, which are ASCII.\<close>

definition get_range :: "'a list \<Rightarrow> nat \<Rightarrow> nat \<Rightarrow> 'a list option" where
  "get_range xs i j = (if i \<le> j \<and> j \<le> length xs then Some (take (j - i) (drop i xs)) else None)"

definition expansion_validate_request ::
  "WindowExpansion \<Rightarrow> SessionClientFrame \<Rightarrow> WindowItem \<Rightarrow> ProtocolError + unit" where
  "expansion_validate_request x request original =
     bindE (expansion_validate x) (\<lambda>_.
     case request of
       SExpand f \<Rightarrow>
         bindE (ok_or InvalidMessage (original_parts original)) (\<lambda>o'.
         let wanted_start = or_start o' - xf_before_bytes f in
         bindE (ok_or InvalidMessage (checked_add64 (or_end o') (xf_after_bytes f))) (\<lambda>e.
         let wanted_end = min e (od_bytes (or_input o')) in
         bindE (refuse_if (xf_window_id f \<noteq> wx_window_id x \<or> xf_item_index f \<noteq> wx_item_index x
           \<or> rs_namespace_id (wx_source x) \<noteq> or_namespace o' \<or> rs_source_id (wx_source x) \<noteq> or_id o'
           \<or> rs_input (wx_source x) \<noteq> or_input o' \<or> wx_prepared x \<noteq> or_prepared o'
           \<or> (case or_source o' of None \<Rightarrow> False | Some s \<Rightarrow> s \<noteq> wx_source x)
           \<or> wx_representation_start x \<noteq> wanted_start \<or> wx_representation_end x \<noteq> wanted_end)) (\<lambda>_.
         let from = or_start o' - wanted_start; to = or_end o' - wanted_start in
         case (wx_content x, or_text o', or_hex o') of
           (XUtf8 expanded, Some original, None) \<Rightarrow>
             if str_get expanded from to = Some original then Inr () else Inl InvalidMessage
         | (XRaw bytes_hex, None, Some original) \<Rightarrow>
             if get_range bytes_hex (from * 2) (to * 2) = Some original then Inr () else Inl InvalidMessage
         | _ \<Rightarrow> Inl InvalidMessage)))
     | _ \<Rightarrow> Inl InvalidMessage)"

section \<open>Model: bounded sequences\<close>

text \<open>
  \<open>deserialize_items\<close>: the elements the JSON library offers are \<open>parse\<close>d one by one, at most
  64 of them; a further element, only skipped over, is refused.
\<close>

fun visit_seq ::
  "('j \<Rightarrow> 'e + 'a) \<Rightarrow> ('j \<Rightarrow> 'e + unit) \<Rightarrow> 'e \<Rightarrow> 'e \<Rightarrow> 'a list \<Rightarrow> 'j list \<Rightarrow> env \<Rightarrow> 'e + 'a list \<times> env" where
  "visit_seq parse skip too_many no_memory items [] env = Inr (items, env)"
| "visit_seq parse skip too_many no_memory items (j # js) env =
     (if length items < MAX_ITEMS then
        bindE (parse j) (\<lambda>item.
        bindE (reserve_with no_memory env) (\<lambda>env.
        visit_seq parse skip too_many no_memory (items @ [item]) js env))
      else bindE (skip j) (\<lambda>_. Inl too_many))"

definition deserialize_items ::
  "('j \<Rightarrow> 'e + 'a) \<Rightarrow> ('j \<Rightarrow> 'e + unit) \<Rightarrow> 'e \<Rightarrow> 'e \<Rightarrow> 'j list \<Rightarrow> env \<Rightarrow> 'e + 'a list \<times> env" where
  "deserialize_items parse skip too_many no_memory js env = visit_seq parse skip too_many no_memory [] js env"

end
