(* ===== verification/Frame.thy ===== *)
theory Frame
  imports WindowProtocol
begin

text \<open>
  Framing of the query protocol (\<open>frame.rs\<close>): the incremental \<open>FrameBuffer\<close> that accepts one
  length-prefixed frame in any fragmentation, the bounded encoder and decoder, and the selection
  of the largest result prefix that fits a frame. The JSON library is a parameter: \<open>ser v\<close> is the
  sequence of writes that serializing \<open>v\<close> makes, with whether it ends without an error of its
  own, and \<open>parse\<close> reads a whole document.
\<close>

section \<open>Model: the frame buffer\<close>

record FrameBuffer =
  fb_prefix :: bytes
  fb_prefix_used :: nat
  fb_bytes :: bytes
  fb_used :: nat
  fb_maximum :: nat

definition frame_new :: "nat \<Rightarrow> ProtocolError + FrameBuffer" where
  "frame_new maximum =
     (if \<not> (FRAME_PREFIX_BYTES + 1 \<le> maximum \<and> maximum \<le> MAX_FRAME_BYTES) then Inl FrameTooLarge
      else Inr \<lparr>fb_prefix = replicate FRAME_PREFIX_BYTES 0, fb_prefix_used = 0, fb_bytes = [],
        fb_used = 0, fb_maximum = maximum\<rparr>)"

text \<open>\<open>target[i..i + n].copy_from_slice(source)\<close> with \<open>n\<close> the length of the source.\<close>

definition copy_at :: "'a list \<Rightarrow> nat \<Rightarrow> 'a list \<Rightarrow> 'a list" where
  "copy_at target i source = take i target @ source @ drop (i + length source) target"

definition declared_length :: "FrameBuffer \<Rightarrow> env \<Rightarrow> ProtocolError + FrameBuffer \<times> env" where
  "declared_length fb env =
     bindE (ok_or FrameTooLarge (try_from u64_bound (of_le_bytes (fb_prefix fb)))) (\<lambda>body.
     bindE (ok_or FrameTooLarge (checked_add64 body FRAME_PREFIX_BYTES)) (\<lambda>tot.
     if body = 0 then Inl InvalidFrame
     else if fb_maximum fb < tot then Inl FrameTooLarge
     else bindE (reserve_with ResourceExhausted env) (\<lambda>env.
       Inr (fb\<lparr>fb_bytes := copy_at (replicate tot 0) 0 (fb_prefix fb), fb_used := FRAME_PREFIX_BYTES\<rparr>, env))))"

definition push_body :: "FrameBuffer \<Rightarrow> nat \<Rightarrow> bytes \<Rightarrow> FrameBuffer \<times> nat" where
  "push_body fb consumed input =
     (let count = min (length (fb_bytes fb) - fb_used fb) (length input - consumed) in
      (fb\<lparr>fb_bytes := copy_at (fb_bytes fb) (fb_used fb) (take count (drop consumed input)),
          fb_used := fb_used fb + count\<rparr>, consumed + count))"

text \<open>A push returns the consumed count or an error; the buffer is updated in both cases.\<close>

definition frame_push :: "FrameBuffer \<Rightarrow> bytes \<Rightarrow> env \<Rightarrow> (ProtocolError + nat \<times> env) \<times> FrameBuffer" where
  "frame_push fb input env =
     (if fb_prefix_used fb < FRAME_PREFIX_BYTES then
        (let count = min (FRAME_PREFIX_BYTES - fb_prefix_used fb) (length input);
             fb = fb\<lparr>fb_prefix := copy_at (fb_prefix fb) (fb_prefix_used fb) (take count input),
                     fb_prefix_used := fb_prefix_used fb + count\<rparr> in
         if fb_prefix_used fb \<noteq> FRAME_PREFIX_BYTES then (Inr (count, env), fb)
         else (case declared_length fb env of
             Inl e \<Rightarrow> (Inl e, fb)
           | Inr (fb, env) \<Rightarrow> (case push_body fb count input of (fb, n) \<Rightarrow> (Inr (n, env), fb))))
      else (case push_body fb 0 input of (fb, n) \<Rightarrow> (Inr (n, env), fb)))"

definition frame_is_empty :: "FrameBuffer \<Rightarrow> bool" where
  "frame_is_empty fb \<longleftrightarrow> fb_prefix_used fb = 0"

definition frame_is_complete :: "FrameBuffer \<Rightarrow> bool" where
  "frame_is_complete fb \<longleftrightarrow> fb_bytes fb \<noteq> [] \<and> fb_used fb = length (fb_bytes fb)"

definition frame_frame :: "FrameBuffer \<Rightarrow> bytes option" where
  "frame_frame fb = (if frame_is_complete fb then Some (fb_bytes fb) else None)"

section \<open>Model: bounded serialization\<close>

type_synonym 'a serializer = "'a \<Rightarrow> bytes list \<times> bool"

record CappedWriter =
  cw_bytes :: bytes
  cw_maximum :: nat
  cw_failure :: "ProtocolError option"

definition capped_write :: "CappedWriter \<Rightarrow> bytes \<Rightarrow> env \<Rightarrow> (CappedWriter + CappedWriter \<times> env)" where
  "capped_write w input env =
     (if cw_maximum w - length (cw_bytes w) < length input then Inl (w\<lparr>cw_failure := Some FrameTooLarge\<rparr>)
      else (case reserve_with () env of
          Inl _ \<Rightarrow> Inl (w\<lparr>cw_failure := Some ResourceExhausted\<rparr>)
        | Inr env \<Rightarrow> Inr (w\<lparr>cw_bytes := cw_bytes w @ input\<rparr>, env)))"

fun capped_writes :: "CappedWriter \<Rightarrow> bytes list \<Rightarrow> env \<Rightarrow> (CappedWriter + CappedWriter \<times> env)" where
  "capped_writes w [] env = Inr (w, env)"
| "capped_writes w (c # cs) env = bindE (capped_write w c env) (\<lambda>(w, env). capped_writes w cs env)"

definition frame_encode :: "'a serializer \<Rightarrow> 'a \<Rightarrow> nat \<Rightarrow> env \<Rightarrow> ProtocolError + bytes \<times> env" where
  "frame_encode ser value maximum env =
     bindE (reserve_with ResourceExhausted env) (\<lambda>env.
     let output = \<lparr>cw_bytes = replicate FRAME_PREFIX_BYTES 0, cw_maximum = maximum, cw_failure = None\<rparr> in
     case capped_writes output (fst (ser value)) env of
       Inl w \<Rightarrow> Inl (case cw_failure w of Some e \<Rightarrow> e | None \<Rightarrow> Serialization)
     | Inr (w, env) \<Rightarrow>
         if \<not> snd (ser value) then Inl (case cw_failure w of Some e \<Rightarrow> e | None \<Rightarrow> Serialization)
         else bindE (ok_or FrameTooLarge (try_from u32_bound (length (cw_bytes w) - FRAME_PREFIX_BYTES))) (\<lambda>body.
           Inr (copy_at (cw_bytes w) 0 (le_bytes 4 body), env)))"

definition frame_decode :: "(bytes \<Rightarrow> 'a option) \<Rightarrow> bytes \<Rightarrow> nat \<Rightarrow> ProtocolError + 'a" where
  "frame_decode parse frame maximum =
     (if maximum < length frame then Inl FrameTooLarge
      else bindE (ok_or InvalidFrame (get_range frame 0 FRAME_PREFIX_BYTES)) (\<lambda>pre.
        bindE (ok_or FrameTooLarge (try_from u64_bound (of_le_bytes pre))) (\<lambda>body.
        if body = 0 \<or> checked_add64 body FRAME_PREFIX_BYTES \<noteq> Some (length frame) then Inl InvalidFrame
        else ok_or InvalidMessage (parse (drop FRAME_PREFIX_BYTES frame)))))"

record CountWriter =
  ct_length :: nat
  ct_exceeded :: bool

definition count_write :: "CountWriter \<Rightarrow> bytes \<Rightarrow> CountWriter + CountWriter" where
  "count_write w bs =
     (if MAX_BODY_BYTES - ct_length w < length bs then Inl (w\<lparr>ct_exceeded := True\<rparr>)
      else Inr (w\<lparr>ct_length := ct_length w + length bs\<rparr>))"

fun count_writes :: "CountWriter \<Rightarrow> bytes list \<Rightarrow> CountWriter + CountWriter" where
  "count_writes w [] = Inr w"
| "count_writes w (c # cs) = bindE (count_write w c) (\<lambda>w. count_writes w cs)"

definition fits :: "'a serializer \<Rightarrow> 'a \<Rightarrow> ProtocolError + bool" where
  "fits ser value =
     (case count_writes \<lparr>ct_length = 0, ct_exceeded = False\<rparr> (fst (ser value)) of
        Inr w \<Rightarrow> if snd (ser value) then Inr True else if ct_exceeded w then Inr False else Inl Serialization
      | Inl w \<Rightarrow> if ct_exceeded w then Inr False else Inl Serialization)"

section \<open>Model: the messages on the wire\<close>

definition encode_client_frame :: "ClientFrame serializer \<Rightarrow> ClientFrame \<Rightarrow> env \<Rightarrow> ProtocolError + bytes \<times> env" where
  "encode_client_frame ser message env =
     bindE (client_frame_validate message) (\<lambda>_. frame_encode ser message MAX_CLIENT_FRAME_BYTES env)"

definition decode_client_frame :: "(bytes \<Rightarrow> ClientFrame option) \<Rightarrow> bytes \<Rightarrow> ProtocolError + ClientFrame" where
  "decode_client_frame parse frame =
     bindE (frame_decode parse frame MAX_CLIENT_FRAME_BYTES) (\<lambda>message.
     bindE (client_frame_validate message) (\<lambda>_. Inr message))"

definition encode_session_frame ::
  "SessionClientFrame serializer \<Rightarrow> SessionClientFrame \<Rightarrow> env \<Rightarrow> ProtocolError + bytes \<times> env" where
  "encode_session_frame ser message env =
     bindE (session_frame_validate message) (\<lambda>_. frame_encode ser message MAX_CLIENT_FRAME_BYTES env)"

definition decode_session_frame ::
  "(bytes \<Rightarrow> SessionClientFrame option) \<Rightarrow> bytes \<Rightarrow> ProtocolError + SessionClientFrame" where
  "decode_session_frame parse frame =
     bindE (frame_decode parse frame MAX_CLIENT_FRAME_BYTES) (\<lambda>message.
     bindE (session_frame_validate message) (\<lambda>_. Inr message))"

definition encode_session_reply :: "SessionReply serializer \<Rightarrow> SessionReply \<Rightarrow> env \<Rightarrow> ProtocolError + bytes \<times> env" where
  "encode_session_reply ser reply env =
     bindE (session_reply_validate reply) (\<lambda>_. frame_encode ser reply MAX_FRAME_BYTES env)"

definition decode_session_reply :: "(bytes \<Rightarrow> SessionReply option) \<Rightarrow> bytes \<Rightarrow> ProtocolError + SessionReply" where
  "decode_session_reply parse frame =
     bindE (frame_decode parse frame MAX_FRAME_BYTES) (\<lambda>reply.
     bindE (session_reply_validate reply) (\<lambda>_. Inr reply))"

definition encode_terminal_frame :: "Terminal serializer \<Rightarrow> Terminal \<Rightarrow> env \<Rightarrow> ProtocolError + bytes \<times> env" where
  "encode_terminal_frame ser t env =
     bindE (ok_or InvalidMessage (try_from u8_bound MAX_ITEMS)) (\<lambda>limit.
     bindE (terminal_validate t limit) (\<lambda>_. frame_encode ser t MAX_FRAME_BYTES env))"

definition decode_terminal_frame :: "(bytes \<Rightarrow> Terminal option) \<Rightarrow> bytes \<Rightarrow> nat \<Rightarrow> ProtocolError + Terminal" where
  "decode_terminal_frame parse frame requested_limit =
     bindE (frame_decode parse frame MAX_FRAME_BYTES) (\<lambda>t.
     bindE (terminal_validate t requested_limit) (\<lambda>_. Inr t))"

definition prepare_raw_exact :: "Terminal serializer \<Rightarrow> nat \<Rightarrow> RawExactResult \<Rightarrow> env \<Rightarrow> ProtocolError + bytes \<times> env" where
  "prepare_raw_exact ser request_id result env =
     encode_terminal_frame ser \<lparr>tm_request_id = request_id, tm_outcome = ORawExact result\<rparr> env"

definition prepare_decoded_utf8 :: "Terminal serializer \<Rightarrow> nat \<Rightarrow> DecodedUtf8Result \<Rightarrow> env \<Rightarrow> ProtocolError + bytes \<times> env" where
  "prepare_decoded_utf8 ser request_id result env =
     encode_terminal_frame ser \<lparr>tm_request_id = request_id, tm_outcome = ODecodedUtf8 result\<rparr> env"

record CompleteOutcome =
  co_status :: string
  co_generation :: nat
  co_items :: "SearchItem list"
  co_stop :: StopReason

record CompleteWire =
  wi_request_id :: nat
  wi_outcome :: CompleteOutcome

definition complete_wire :: "nat \<Rightarrow> nat \<Rightarrow> SearchItem list \<Rightarrow> CompleteWire" where
  "complete_wire request_id generation items =
     \<lparr>wi_request_id = request_id,
      wi_outcome = \<lparr>co_status = ''complete'', co_generation = generation, co_items = items, co_stop = OutputLimit\<rparr>\<rparr>"

function fit_search ::
  "CompleteWire serializer \<Rightarrow> nat \<Rightarrow> nat \<Rightarrow> SearchItem list \<Rightarrow> nat \<Rightarrow> nat \<Rightarrow> ProtocolError + nat" where
  "fit_search ser request_id generation items low high =
     (if low < high then
        (let middle = low + (high - low + 1) div 2 in
         bindE (fits ser (complete_wire request_id generation (take middle items))) (\<lambda>ok.
         if ok then fit_search ser request_id generation items middle high
         else fit_search ser request_id generation items low (middle - 1)))
      else Inr low)"
  by pat_completeness auto
termination
  by (relation "measure (\<lambda>(_, _, _, _, low, high). high - low)") (auto simp: Let_def)

declare fit_search.simps [simp del]

definition prepare_complete ::
  "Terminal serializer \<Rightarrow> CompleteWire serializer \<Rightarrow> nat \<Rightarrow> nat \<Rightarrow> SearchItem list \<Rightarrow> env \<Rightarrow> ProtocolError + bytes \<times> env" where
  "prepare_complete ser_terminal ser_wire request_id generation items env =
     (let t = \<lparr>tm_request_id = request_id, tm_outcome = OComplete generation items Complete\<rparr> in
      bindE (ok_or InvalidMessage (try_from u8_bound MAX_ITEMS)) (\<lambda>limit.
      bindE (terminal_validate t limit) (\<lambda>_.
      bindE (fits ser_terminal t) (\<lambda>ok.
      if ok then frame_encode ser_terminal t MAX_FRAME_BYTES env
      else bindE (fit_search ser_wire request_id generation items 0 (length items)) (\<lambda>low.
        frame_encode ser_wire (complete_wire request_id generation (take low items)) MAX_FRAME_BYTES env)))))"

end
