(* ===== verification/ProtocolLaws.thy ===== *)
theory ProtocolLaws
  imports WindowProtocol
begin

text \<open>
  Laws of the protocol validations: the protocol's UUID test agrees with the identity parser of
  the contracts, and an accepted exact result can be trusted by a client: its items are in
  strict order, spell the literal, and its negative claim is sound.
\<close>

section \<open>Identities\<close>

lemma uuid_bytes_ok_append:
  assumes "\<And>i. i < length xs \<Longrightarrow> \<not> uuid_dash (p + i)"
  shows "uuid_bytes_ok p (xs @ ys) \<longleftrightarrow> list_all is_hex xs \<and> uuid_bytes_ok (p + length xs) ys"
  using assms
proof (induction xs arbitrary: p)
  case (Cons x xs)
  have "\<not> uuid_dash p" using Cons.prems [of 0] by simp
  moreover have "\<not> uuid_dash (Suc p + i)" if "i < length xs" for i using Cons.prems [of "Suc i"] that by simp
  note Cons.IH [OF this]
  ultimately show ?case by (auto simp: uuid_dash_def is_hex_def)
qed simp

lemma uuid_bytes_ok_shape:
  assumes "length a = 8" "length b = 4" "length c = 4" "length d = 4" "length e = 12"
  shows "uuid_bytes_ok 0 (a @ 45 # b @ 45 # c @ 45 # d @ 45 # e) \<longleftrightarrow> list_all is_hex (a @ b @ c @ d @ e)"
proof -
  have e: "uuid_bytes_ok 24 e \<longleftrightarrow> list_all is_hex e"
    using uuid_bytes_ok_append [of e 24 "[]"] assms by (auto simp: uuid_dash_def)
  have d: "uuid_bytes_ok 19 (d @ 45 # e) \<longleftrightarrow> list_all is_hex d \<and> uuid_bytes_ok 24 e"
    using uuid_bytes_ok_append [of d 19 "45 # e"] assms by (auto simp: uuid_dash_def)
  have c: "uuid_bytes_ok 14 (c @ 45 # d @ 45 # e) \<longleftrightarrow> list_all is_hex c \<and> uuid_bytes_ok 19 (d @ 45 # e)"
    using uuid_bytes_ok_append [of c 14 "45 # d @ 45 # e"] assms by (auto simp: uuid_dash_def)
  have b: "uuid_bytes_ok 9 (b @ 45 # c @ 45 # d @ 45 # e) \<longleftrightarrow> list_all is_hex b \<and> uuid_bytes_ok 14 (c @ 45 # d @ 45 # e)"
    using uuid_bytes_ok_append [of b 9 "45 # c @ 45 # d @ 45 # e"] assms by (auto simp: uuid_dash_def)
  show ?thesis
    using uuid_bytes_ok_append [of a 0 "45 # b @ 45 # c @ 45 # d @ 45 # e"] assms b c d e
    by (auto simp: uuid_dash_def)
qed

lemma uuid_bytes_ok_nth:
  "uuid_bytes_ok p bs \<Longrightarrow> k < length bs \<Longrightarrow> uuid_dash (p + k) \<Longrightarrow> bs ! k = 45"
proof (induction bs arbitrary: p k)
  case (Cons b bs)
  show ?case using Cons.prems Cons.IH [of "Suc p" "k - 1"] by (cases k) (auto simp: uuid_dash_def)
qed simp

lemma uuid_bytes_ok_is_shape: "length bs = 36 \<Longrightarrow> uuid_bytes_ok 0 bs \<Longrightarrow> uuid_shape bs"
  using uuid_bytes_ok_nth [of 0 bs 8] uuid_bytes_ok_nth [of 0 bs 13] uuid_bytes_ok_nth [of 0 bs 18]
    uuid_bytes_ok_nth [of 0 bs 23]
  by (simp add: uuid_shape_def uuid_dash_def)

lemma uuid_pairs_hex:
  assumes "list_all is_hex c" "even (length c)"
  shows "\<exists>bs. uuid_pairs c = Inr bs"
  using assms
proof (induction c rule: uuid_pairs.induct)
  case (1 h l rest)
  obtain a b where d: "lower_hex h = Some a" "lower_hex l = Some b"
    using lower_hex_value [of h] lower_hex_value [of l] 1(2) by (auto split: option.splits)
  obtain bs where "uuid_pairs rest = Inr bs" using 1 d by fastforce
  then show ?case using d by simp
qed auto

lemma uuid_pairs_zero: "set c \<subseteq> {48} \<Longrightarrow> uuid_pairs c = Inr bs \<Longrightarrow> set bs \<subseteq> {0}"
proof (induction c arbitrary: bs rule: uuid_pairs.induct)
  case (1 h l rest)
  have z: "lower_hex h = Some 0" "lower_hex l = Some 0" using 1(2) by (auto simp: lower_hex_def is_ascii_digit_def)
  then obtain out where "uuid_pairs rest = Inr out" "bs = 0 # out" using 1(3) by (auto simp: res_simps)
  then show ?case using 1(1) [of 0 0 out] 1(2) z by auto
qed auto

lemma nil_uuid: "list_all (\<lambda>b. b = 48 \<or> b = 45) (as_bytes (uuid_to_string (replicate 16 0)))"
  by code_simp

lemma canonical_uuid_parses:
  assumes c: "canonical_uuid s"
  shows "\<exists>bs. uuid_parse s = Inr bs \<and> bs \<noteq> replicate 16 0"
proof -
  have sh: "uuid_shape (as_bytes s)" "uuid_bytes_ok 0 (as_bytes s)"
    using c uuid_bytes_ok_is_shape by (auto simp: canonical_uuid_def)
  obtain a b c' d e where r: "as_bytes s = a @ 45 # b @ 45 # c' @ 45 # d @ 45 # e"
    "length a = 8" "length b = 4" "length c' = 4" "length d = 4" "length e = 12"
    using uuid_shape_split [OF sh(1)] .
  have h: "list_all is_hex (a @ b @ c' @ d @ e)" using sh(2) r uuid_bytes_ok_shape by simp
  obtain bs where "uuid_pairs (a @ b @ c' @ d @ e) = Inr bs" using uuid_pairs_hex [OF h] r by auto
  then have p: "uuid_parse s = Inr bs"
    using sh(1) uuid_compact_shape [OF r(2-6)] h r(1) by (simp add: uuid_parse_def)
  have "bs \<noteq> replicate 16 0"
  proof
    assume "bs = replicate 16 0"
    then have "list_all (\<lambda>b. b = 48 \<or> b = 45) (as_bytes s)" using uuid_to_string_parse_aux [OF p] nil_uuid by auto
    then show False using c by (auto simp: canonical_uuid_def list_ex_iff list_all_iff)
  qed
  then show "\<exists>bs. uuid_parse s = Inr bs \<and> bs \<noteq> replicate 16 0" using p by blast
qed

lemma parsed_uuid_canonical:
  assumes p: "uuid_parse s = Inr bs" "bs \<noteq> replicate 16 0"
  shows "canonical_uuid s"
proof -
  have sh: "uuid_shape (as_bytes s)" and "\<exists>c. uuid_compact 0 (as_bytes s) = Inr c \<and> uuid_pairs c = Inr bs"
    using p by (auto simp: uuid_parse_def Let_def res_simps split: if_splits)
  then obtain h where h: "uuid_compact 0 (as_bytes s) = Inr h" "uuid_pairs h = Inr bs" by blast
  obtain a b c d e where r: "as_bytes s = a @ 45 # b @ 45 # c @ 45 # d @ 45 # e"
    "length a = 8" "length b = 4" "length c = 4" "length d = 4" "length e = 12"
    using uuid_shape_split [OF sh] .
  have hh: "h = a @ b @ c @ d @ e" "list_all is_hex h"
    using h(1) r by (auto simp: uuid_compact_shape split: if_splits)
  have "list_ex (\<lambda>b. b \<noteq> 48 \<and> b \<noteq> 45) (as_bytes s)"
  proof (rule ccontr)
    assume "\<not> ?thesis"
    then have "set h \<subseteq> {48, 45}" using r(1) hh(1) by (auto simp: list_ex_iff)
    moreover have "\<not> is_hex 45" by (simp add: is_hex_def is_ascii_digit_def is_lower_af_def)
    ultimately have "set h \<subseteq> {48}" using hh(2) by (auto simp: list_all_iff)
    then have "set bs \<subseteq> {0}" using uuid_pairs_zero h(2) by blast
    moreover have "length bs = 16" using uuid_to_string_parse_aux [OF p(1)] by simp
    ultimately have "bs = replicate 16 0" by (intro replicate_eqI) auto
    then show False using p(2) by simp
  qed
  moreover have "length s = 36" using r by (metis length_as_bytes sh uuid_shape_def)
  ultimately show "canonical_uuid s" using uuid_bytes_ok_shape [OF r(2-6)] hh r(1) by (simp add: canonical_uuid_def)
qed

text \<open>
  The protocol and the contracts agree on identities, except for the nil identity: a string is
  a canonical UUID for the protocol exactly when the parser of the contracts accepts it and does
  not give the all-zero identity.
\<close>

theorem canonical_uuid_iff: "canonical_uuid s \<longleftrightarrow> (\<exists>bs. uuid_parse s = Inr bs \<and> bs \<noteq> replicate 16 0)"
  using canonical_uuid_parses parsed_uuid_canonical by blast

section \<open>Raw exact results\<close>

definition raw_before :: "RawExactItem \<Rightarrow> RawExactItem \<Rightarrow> bool" where
  "raw_before a b \<longleftrightarrow> rs_namespace_id (raw_item_source a) = rs_namespace_id (raw_item_source b) \<and>
     (rs_source_id (raw_item_source a) < rs_source_id (raw_item_source b) \<or>
      raw_item_source a = raw_item_source b \<and>
      (case (a, b) of (RMatch x, RMatch y) \<Rightarrow> rm_start x < rm_start y | _ \<Rightarrow> False))"

lemma raw_before_trans: "raw_before a b \<Longrightarrow> raw_before b c \<Longrightarrow> raw_before a c"
  by (auto simp: raw_before_def split: RawExactItem.splits)

lemma sorted_wrt_distinct: "(\<And>x. \<not> P x x) \<Longrightarrow> sorted_wrt P xs \<Longrightarrow> distinct xs"
  by (induction xs) auto

lemma raw_ordered_before: "raw_ordered a b = Inr () \<longleftrightarrow> raw_before a b"
  by (auto simp: raw_before_def Let_def guardE_def split: if_splits RawExactItem.splits)

lemma raw_items_loop_ok:
  assumes "raw_items_loop previous items m g = Inr (m', g')"
  shows "(\<forall>item \<in> set items. raw_item_validate item = Inr ()) \<and>
    sorted_wrt raw_before (case previous of None \<Rightarrow> items | Some p \<Rightarrow> p # items)"
  using assms
proof (induction items arbitrary: previous m g)
  case (Cons item items)
  have v: "raw_item_validate item = Inr ()" "case previous of None \<Rightarrow> True | Some p \<Rightarrow> raw_before p item"
    and rest: "\<exists>m g. raw_items_loop (Some item) items m g = Inr (m', g')"
    using Cons.prems raw_ordered_before by (auto simp: res_simps split: option.splits RawExactItem.splits)
  from rest obtain m1 g1 where "raw_items_loop (Some item) items m1 g1 = Inr (m', g')" by blast
  note IH = Cons.IH [OF this]
  show ?case using IH v by (auto split: option.splits intro: raw_before_trans)
qed (simp split: option.splits)

lemma hex_pairs_match_all:
  "hex_pairs_match h bs \<Longrightarrow> length h = 2 * length bs \<Longrightarrow> h = hex_bytes bs"
  by (induction h bs rule: hex_pairs_match.induct) (auto simp: length_Suc_conv neq_Nil_conv)

lemma hex_spelling_matches:
  assumes "hex_spelling s (2 * length bs)" "hex_pairs_match (as_bytes s) bs"
  shows "s = hex_encode bs"
  using hex_pairs_match_all [OF assms(2)] assms(1)
  by (metis hex_encode_def hex_spelling_def length_as_bytes of_bytes_as_bytes)

lemma raw_match_valid:
  assumes "raw_item_validate (RMatch hit) = Inr ()"
  shows "raw_source_validate (rm_source hit) = Inr () \<and> rm_start hit < rm_end hit \<and>
    rm_end hit \<le> od_bytes (rs_input (rm_source hit)) \<and> hex_spelling (rm_bytes_hex hit) ((rm_end hit - rm_start hit) * 2)"
  using assms by (auto simp: raw_item_validate_def res_simps checked_sub_def split: if_splits)

text \<open>
  A client that accepts a raw exact result (\<open>RawExactResult::validate_request\<close>) can rely on it: at
  most the requested number of items, all of one namespace and of the selected sources, in strict
  order of source and position and so without repetition; every match lies within its object, has
  the length of the literal and spells exactly its bytes; and a complete negative says that every
  selected source was scanned and that no match, no gap and no item exists.
\<close>

theorem raw_result_trusted:
  assumes "raw_result_validate_request r request = Inr ()"
  shows "length (rx_items r) \<le> rr_limit request \<and> rr_limit request \<le> 64 \<and>
    sorted_wrt raw_before (rx_items r) \<and> distinct (rx_items r) \<and>
    (\<forall>hit. RMatch hit \<in> set (rx_items r) \<longrightarrow>
       rm_end hit = rm_start hit + length (rr_literal request) \<and>
       rm_end hit \<le> od_bytes (rs_input (rm_source hit)) \<and> rm_bytes_hex hit = hex_encode (rr_literal request)) \<and>
    (\<forall>ids. rr_source_ids request = Some ids \<longrightarrow> distinct ids \<and> rx_selected_sources r = length ids \<and>
       (\<forall>item \<in> set (rx_items r). rs_source_id (raw_item_source item) \<in> set ids)) \<and>
    (rx_complete_negative r \<longrightarrow> rx_items r = [] \<and> rx_matches r = 0 \<and> rx_missing_sources r = 0 \<and>
       rx_scanned_sources r = rx_selected_sources r)"
proof -
  have v: "raw_request_validate request = Inr ()" "raw_result_validate r (rr_limit request) = Inr ()"
    and sel: "selection_binds (rr_source_ids request) (rx_selected_sources r)
         (map (rs_source_id \<circ> raw_item_source) (rx_items r)) = Inr ()"
    and lit: "\<And>hit. RMatch hit \<in> set (rx_items r) \<Longrightarrow> rm_end hit - rm_start hit = length (rr_literal request) \<and>
         hex_pairs_match (as_bytes (rm_bytes_hex hit)) (rr_literal request)"
    using assms by (auto simp: raw_result_validate_request_def res_simps list_ex_iff)
  obtain m g where loop: "raw_items_loop None (rx_items r) 0 0 = Inr (m, g)"
    using v(2) by (auto simp: raw_result_validate_def res_simps)
  have counts: "rx_complete_negative r \<Longrightarrow> rx_items r = [] \<and> rx_matches r = 0 \<and> rx_missing_sources r = 0 \<and>
       rx_scanned_sources r = rx_selected_sources r"
    and lim: "length (rx_items r) \<le> rr_limit request" "rr_limit request \<le> 64"
    using v(2) by (auto simp: raw_result_validate_def res_simps checked_add64_def MAX_ITEMS_def split: if_splits)
  have ids: "distinct ids" if "validate_ids prior ids = Inr ()" "distinct prior" for prior ids
  proof -
    have "distinct (prior @ ids)" using that
      by (induction prior ids rule: validate_ids.induct) (auto split: if_splits)
    then show ?thesis by simp
  qed
  have L: "\<forall>item \<in> set (rx_items r). raw_item_validate item = Inr ()" "sorted_wrt raw_before (rx_items r)"
    using raw_items_loop_ok [OF loop] by auto
  have "distinct (rx_items r)"
    by (rule sorted_wrt_distinct [OF _ L(2)]) (simp add: raw_before_def split: RawExactItem.splits)
  moreover have "rm_end hit = rm_start hit + length (rr_literal request) \<and>
       rm_end hit \<le> od_bytes (rs_input (rm_source hit)) \<and> rm_bytes_hex hit = hex_encode (rr_literal request)"
    if "RMatch hit \<in> set (rx_items r)" for hit
    using raw_match_valid [of hit] L(1) lit [OF that] that hex_spelling_matches [of "rm_bytes_hex hit" "rr_literal request"]
    by (auto simp: mult.commute)
  moreover have "distinct ids \<and> rx_selected_sources r = length ids \<and>
       (\<forall>item \<in> set (rx_items r). rs_source_id (raw_item_source item) \<in> set ids)"
    if "rr_source_ids request = Some ids" for ids
    using that sel v(1) ids [of "[]" ids]
    by (auto simp: selection_binds_def raw_request_validate_def validate_selection_def res_simps try_from_def
        split: if_splits)
  ultimately show ?thesis using L(2) lim counts by blast
qed

section \<open>A concrete result\<close>

definition ex_object :: "ObjectKindDto \<Rightarrow> ObjectRefDto" where
  "ex_object kind = \<lparr>od_version = 1, od_kind = kind, od_digest = replicate 64 CHR ''a'', od_bytes = 200\<rparr>"

lemma ex_ids:
  "canonical_uuid ''00000000-0000-4000-8000-000000000001''" "canonical_uuid ''00000000-0000-4000-8000-000000000002''"
  by code_simp+

lemma ex_digest: "hex_spelling (replicate 64 CHR ''a'') 64"
  by code_simp

lemma ex_object_valid: "object_dto_validate (ex_object kind) kind = Inr ()"
  using ex_digest by (cases kind) (simp_all add: object_dto_validate_def ex_object_def)

definition ex_raw_source :: RawSourceRef where
  "ex_raw_source = \<lparr>rs_namespace_id = ''00000000-0000-4000-8000-000000000001'',
     rs_source_id = ''00000000-0000-4000-8000-000000000002'', rs_row_revision = 1, rs_registration_revision = 1,
     rs_input = ex_object SourceDto\<rparr>"

lemma ex_raw_source_valid: "raw_source_validate ex_raw_source = Inr ()"
  using ex_ids ex_object_valid by (simp add: raw_source_validate_def ex_raw_source_def)

definition ex_raw_request :: RawExactRequest where
  "ex_raw_request = \<lparr>rr_literal = [97], rr_source_ids = Some [''00000000-0000-4000-8000-000000000002''], rr_limit = 4\<rparr>"

definition ex_raw_hit :: "nat \<Rightarrow> RawExactItem" where
  "ex_raw_hit i = RMatch \<lparr>rm_source = ex_raw_source, rm_start = i, rm_end = i + 1, rm_bytes_hex = ''61''\<rparr>"

definition ex_raw_result :: RawExactResult where
  "ex_raw_result = \<lparr>rx_generation = 1, rx_selected_sources = 1, rx_scanned_sources = 1, rx_missing_sources = 0,
     rx_scanned_bytes = 200, rx_matches = 2, rx_items = [ex_raw_hit 3, ex_raw_hit 7], rx_scan_complete = True,
     rx_complete_negative = False, rx_stop = Complete\<rparr>"

lemma ex_raw_hit_valid: "i < 100 \<Longrightarrow> raw_item_validate (ex_raw_hit i) = Inr ()"
proof -
  have "hex_spelling ''61'' 2" by code_simp
  then show "i < 100 \<Longrightarrow> raw_item_validate (ex_raw_hit i) = Inr ()"
    using ex_raw_source_valid
    by (simp add: ex_raw_hit_def raw_item_validate_def checked_sub_def MAX_QUERY_BYTES_def ex_raw_source_def ex_object_def)
qed

lemma ex_raw_accepted: "raw_result_validate_request ex_raw_result ex_raw_request = Inr ()"
proof -
  have "hex_pairs_match (as_bytes ''61'') [97]" by code_simp
  moreover have "raw_items_loop None [ex_raw_hit 3, ex_raw_hit 7] 0 0 = Inr (2, 0)"
    using ex_raw_hit_valid [of 3] ex_raw_hit_valid [of 7] by (simp add: ex_raw_hit_def)
  ultimately show ?thesis
    using ex_ids
    by (simp add: raw_result_validate_request_def raw_request_validate_def ex_raw_request_def ex_raw_result_def
        MAX_QUERY_BYTES_def MAX_ITEMS_def validate_selection_def raw_result_validate_def checked_add64_def
        selection_binds_def try_from_def)
      (simp add: ex_raw_hit_def ex_raw_source_def)
qed

theorem raw_result_trusted_witness:
  "raw_result_validate_request ex_raw_result ex_raw_request = Inr () \<and>
   sorted_wrt raw_before (rx_items ex_raw_result) \<and> distinct (rx_items ex_raw_result) \<and>
   rx_selected_sources ex_raw_result = 1"
  using raw_result_trusted [OF ex_raw_accepted] ex_raw_accepted by (simp add: ex_raw_request_def)

end
