(* ===== verification/FrameLaws.thy ===== *)
theory FrameLaws
  imports Frame ProtocolLaws
begin

text \<open>
  Laws of the framing: what a frame buffer has received after any sequence of pushes, the bounded
  writer as the plain concatenation of its chunks, and the binary search for the largest fitting
  prefix. The claims: any fragmentation of a stream yields exactly its first frame and leaves the
  rest, the buffer never holds more than its ceiling, encoding and decoding are inverse to each
  other across a fragmented transport, and the chosen result prefix is the largest that fits.
\<close>

section \<open>The frame buffer\<close>

lemma length_copy_at: "i + length source \<le> length target \<Longrightarrow> length (copy_at target i source) = length target"
  by (simp add: copy_at_def)

lemma take_copy_at: "i + length source \<le> length target \<Longrightarrow>
    take (i + length source) (copy_at target i source) = take i target @ source"
  by (simp add: copy_at_def)

text \<open>What has been received so far, and the states a buffer of ceiling \<open>maximum\<close> can be in.\<close>

definition received :: "FrameBuffer \<Rightarrow> bytes" where
  "received fb = (if fb_bytes fb = [] then take (fb_prefix_used fb) (fb_prefix fb)
                  else take (fb_used fb) (fb_bytes fb))"

definition fb_ok :: "FrameBuffer \<Rightarrow> bool" where
  "fb_ok fb \<longleftrightarrow> length (fb_prefix fb) = 4 \<and> 5 \<le> fb_maximum fb \<and> fb_maximum fb \<le> MAX_FRAME_BYTES \<and>
     (if fb_bytes fb = [] then fb_prefix_used fb \<le> 4 \<and> fb_used fb = 0
      else fb_prefix_used fb = 4 \<and> 4 \<le> fb_used fb \<and> fb_used fb \<le> length (fb_bytes fb) \<and>
        length (fb_bytes fb) = of_le_bytes (fb_prefix fb) + 4 \<and> 0 < of_le_bytes (fb_prefix fb) \<and>
        take 4 (fb_bytes fb) = fb_prefix fb \<and> length (fb_bytes fb) \<le> fb_maximum fb)"

lemma frame_new_ok: "frame_new maximum = Inr fb \<Longrightarrow> fb_ok fb \<and> received fb = [] \<and> fb_maximum fb = maximum \<and> fb_bytes fb = []"
  by (auto simp: frame_new_def fb_ok_def received_def FRAME_PREFIX_BYTES_def split: if_splits)

lemma push_body_ok:
  assumes "fb_ok fb" "fb_bytes fb \<noteq> []" "push_body fb k input = (fb', n)" "k \<le> length input"
  shows "fb_ok fb' \<and> fb_bytes fb' \<noteq> [] \<and> received fb' = received fb @ take (n - k) (drop k input) \<and>
    fb_maximum fb' = fb_maximum fb \<and>
    k \<le> n \<and> n - k = min (length (fb_bytes fb) - fb_used fb) (length input - k) \<and>
    length (fb_bytes fb') = length (fb_bytes fb) \<and> fb_used fb' = fb_used fb + (n - k)"
proof -
  define c where "c = min (length (fb_bytes fb) - fb_used fb) (length input - k)"
  define s where "s = take c (drop k input)"
  define bs where "bs = copy_at (fb_bytes fb) (fb_used fb) s"
  have fb': "fb' = fb\<lparr>fb_bytes := bs, fb_used := fb_used fb + c\<rparr>" "n = k + c"
    using assms(3) by (auto simp: push_body_def Let_def c_def s_def bs_def)
  have u: "4 \<le> fb_used fb" "fb_used fb \<le> length (fb_bytes fb)" using assms(1,2) by (auto simp: fb_ok_def)
  have c: "fb_used fb + c \<le> length (fb_bytes fb)" using u by (simp add: c_def)
  have ls: "length s = c" by (simp add: s_def c_def)
  have len: "length bs = length (fb_bytes fb)" using c ls by (simp add: bs_def length_copy_at)
  have tk: "take (fb_used fb + c) bs = take (fb_used fb) (fb_bytes fb) @ s"
    using take_copy_at [of "fb_used fb" s "fb_bytes fb"] c ls by (simp add: bs_def)
  have t4: "take 4 bs = take 4 (fb_bytes fb)" using u by (simp add: bs_def copy_at_def)
  have ne: "bs \<noteq> []" using len assms(2) by (metis length_0_conv)
  show ?thesis using assms(1,2) ne tk t4 u c len
    by (simp add: fb' fb_ok_def received_def s_def [symmetric]) (simp add: c_def)
qed

text \<open>The outcome of one push.\<close>

text \<open>The reasons for which a declared body length is refused.\<close>

definition refused :: "nat \<Rightarrow> nat \<Rightarrow> env \<Rightarrow> ProtocolError \<Rightarrow> bool" where
  "refused maximum body env e \<longleftrightarrow> e = InvalidFrame \<and> body = 0 \<or> e = FrameTooLarge \<and> maximum < body + 4 \<or>
     e = ResourceExhausted \<and> env \<noteq> []"

lemma declared_length_Inl:
  assumes "declared_length fb env = Inl e" "length (fb_prefix fb) = 4"
  shows "refused (fb_maximum fb) (of_le_bytes (fb_prefix fb)) env e"
proof -
  have "of_le_bytes (fb_prefix fb) < 256 ^ 4" using of_le_bytes_bound [of "fb_prefix fb"] assms(2) by simp
  then show ?thesis using assms(1)
    by (cases env) (auto simp: declared_length_def refused_def try_from_def checked_add64_def FRAME_PREFIX_BYTES_def
        split: if_splits)
qed

definition stuck :: "FrameBuffer \<Rightarrow> bool" where
  "stuck fb \<longleftrightarrow> fb_bytes fb = [] \<and> fb_prefix_used fb = 4"

lemma frame_push_cases:
  assumes "fb_ok fb"
  shows "fb_ok (snd (frame_push fb input env)) \<and> fb_maximum (snd (frame_push fb input env)) = fb_maximum fb \<and>
    (case fst (frame_push fb input env) of
       Inl e \<Rightarrow> stuck (snd (frame_push fb input env)) \<and> 
         received (snd (frame_push fb input env)) = take 4 (received fb @ input) \<and>
         refused (fb_maximum fb) (of_le_bytes (take 4 (received fb @ input))) env e
     | Inr (n, env') \<Rightarrow> n \<le> length input \<and>
         received (snd (frame_push fb input env)) = received fb @ take n input \<and>
         (n < length input \<longrightarrow> stuck fb \<or> frame_is_complete (snd (frame_push fb input env))) \<and>
         (stuck (snd (frame_push fb input env)) \<longleftrightarrow> stuck fb))"
proof (cases "fb_bytes fb = []")
  case False
  then have p: "fb_prefix_used fb = 4" using assms by (auto simp: fb_ok_def)
  obtain fb' n where b: "push_body fb 0 input = (fb', n)" by (cases "push_body fb 0 input")
  note B = push_body_ok [OF assms False b, simplified]
  have "frame_is_complete fb'" if "n < length input"
    using B that assms False by (auto simp: frame_is_complete_def fb_ok_def min_def split: if_splits)
  then show ?thesis using B b p False by (auto simp: frame_push_def FRAME_PREFIX_BYTES_def stuck_def)
next
  case True
  show ?thesis
  proof (cases "fb_prefix_used fb = 4")
    case s: True
    then show ?thesis using True assms
      by (auto simp: frame_push_def FRAME_PREFIX_BYTES_def stuck_def push_body_def copy_at_def fb_ok_def received_def)
  next
    case False
    then have lt: "fb_prefix_used fb < 4" using assms True by (auto simp: fb_ok_def)
    define c where "c = min (4 - fb_prefix_used fb) (length input)"
    have c_le: "c \<le> length input" "fb_prefix_used fb + c \<le> 4" using lt by (auto simp: c_def)
    let ?s = "take c input"
    define fb1 where "fb1 = fb\<lparr>fb_prefix := copy_at (fb_prefix fb) (fb_prefix_used fb) ?s,
      fb_prefix_used := fb_prefix_used fb + c\<rparr>"
    have lp: "length (fb_prefix fb) = 4" using assms by (simp add: fb_ok_def)
    have ls: "length ?s = c" using c_le by simp
    have len: "length (fb_prefix fb1) = 4" using lp c_le length_copy_at [of "fb_prefix_used fb" ?s "fb_prefix fb"]
      unfolding fb1_def ls by simp
    have tk: "take (fb_prefix_used fb + c) (fb_prefix fb1) = take (fb_prefix_used fb) (fb_prefix fb) @ ?s"
      using lp c_le take_copy_at [of "fb_prefix_used fb" ?s "fb_prefix fb"] unfolding fb1_def ls by simp
    have ok1: "fb_ok fb1" "fb_bytes fb1 = []" "fb_maximum fb1 = fb_maximum fb"
      using assms True lt len c_le by (simp_all add: fb1_def fb_ok_def)
    have r1: "received fb1 = received fb @ ?s" using tk ok1(2) True by (simp add: received_def fb1_def)
    have used1: "fb_prefix_used fb1 = fb_prefix_used fb + c" by (simp add: fb1_def)
    have push1: "frame_push fb input env = (if fb_prefix_used fb + c \<noteq> 4 then (Inr (c, env), fb1)
        else case declared_length fb1 env of
             Inl e \<Rightarrow> (Inl e, fb1)
           | Inr (fb, env) \<Rightarrow> (case push_body fb c input of (fb, n) \<Rightarrow> (Inr (n, env), fb)))"
      unfolding frame_push_def FRAME_PREFIX_BYTES_def Let_def c_def [symmetric] fb1_def [symmetric] using lt used1 by simp
    show ?thesis
    proof (cases "fb_prefix_used fb + c = 4")
      case False
      then have c: "c = length input" using lt by (auto simp: c_def)
      have "frame_push fb input env = (Inr (length input, env), fb1)" using push1 False by (simp add: c)
      moreover have "received fb1 = received fb @ input" using r1 unfolding c by simp
      moreover have "fb_prefix_used fb1 \<noteq> 4" using used1 False by simp
      ultimately show ?thesis using ok1 lt by (simp add: stuck_def)
    next
      case full: True
      note push = push1 [unfolded full, simplified]
      show ?thesis
      proof (cases "declared_length fb1 env")
        case (Inl e)
        have p4: "fb_prefix fb1 = take 4 (received fb @ input)"
        proof -
          have "fb_prefix fb1 = received fb @ ?s" using r1 len used1 full ok1(2) by (simp add: received_def)
          moreover have "length (received fb) + c = 4" using full lt lp True by (simp add: received_def)
          ultimately show ?thesis by (metis add_diff_cancel_left' le_add1 take_append take_all)
        qed
        have "received fb1 = fb_prefix fb1" using ok1(2) used1 full len by (simp add: received_def)
        moreover have "refused (fb_maximum fb) (of_le_bytes (fb_prefix fb1)) env e"
          using declared_length_Inl [OF Inl len] ok1(3) by simp
        ultimately show ?thesis using Inl push ok1 full used1 p4 by (simp add: stuck_def)
      next
        case (Inr q)
        obtain fb2 env' where q: "q = (fb2, env')" by (cases q)
        let ?b = "of_le_bytes (fb_prefix fb1)"
        have fb2: "fb2 = fb1\<lparr>fb_bytes := copy_at (replicate (?b + 4) 0) 0 (fb_prefix fb1), fb_used := 4\<rparr>"
          "0 < ?b" "?b + 4 \<le> fb_maximum fb1"
          using Inr q by (auto simp: declared_length_def FRAME_PREFIX_BYTES_def res_simps try_from_def
              split: if_splits)
        have ok2: "fb_ok fb2" "fb_bytes fb2 \<noteq> []"
          using ok1 fb2(2,3) len full used1 by (auto simp: fb2(1) fb_ok_def copy_at_def)
        have r2: "received fb2 = received fb @ ?s"
          using r1 len ok1 full by (simp add: fb2(1) received_def copy_at_def) (simp add: fb1_def)
        obtain fb' n where b: "push_body fb2 c input = (fb', n)" by (cases "push_body fb2 c input")
        note B = push_body_ok [OF ok2 b c_le(1)]
        have rec: "received fb' = received fb @ take n input"
          using B r2 by (metis append_assoc le_add_diff_inverse take_add)
        have fin: "frame_is_complete fb'" if "n < length input"
        proof -
          have "n - c = length (fb_bytes fb2) - fb_used fb2" using B that by linarith
          then have "fb_used fb' = length (fb_bytes fb')" using B ok2 by (simp add: fb_ok_def)
          then show ?thesis using B by (simp add: frame_is_complete_def)
        qed
        have n: "n \<le> length input" using B c_le(1) by linarith
        have "frame_push fb input env = (Inr (n, env'), fb')" using push Inr q b by simp
        moreover have "fb_maximum fb' = fb_maximum fb" using B ok1(3) by (simp add: fb2(1))
        moreover have "\<not> stuck fb'" "\<not> stuck fb" using B lt by (auto simp: stuck_def)
        ultimately show ?thesis using B rec n fin by simp
      qed
    qed
  qed
qed

section \<open>Reassembly\<close>

text \<open>A reader that pushes the fragments of a stream until one is not consumed whole.\<close>

fun push_fragments :: "FrameBuffer \<Rightarrow> bytes list \<Rightarrow> env \<Rightarrow> ProtocolError + (FrameBuffer \<times> bytes) \<times> env" where
  "push_fragments fb [] env = Inr ((fb, []), env)"
| "push_fragments fb (fr # frs) env =
     (case frame_push fb fr env of
        (Inl e, _) \<Rightarrow> Inl e
      | (Inr (n, env), fb) \<Rightarrow>
          if n < length fr then Inr ((fb, drop n fr @ concat frs), env) else push_fragments fb frs env)"

definition framed :: "bytes \<Rightarrow> bytes" where
  "framed body = le_bytes 4 (length body) @ body"

lemma length_framed [simp]: "length (framed body) = length body + 4"
  by (simp add: framed_def)

lemma prefix_of_framed:
  assumes "length body < u32_bound" "xs @ ys = framed body @ rest" "4 \<le> length xs"
  shows "take 4 xs = le_bytes 4 (length body)" "of_le_bytes (take 4 xs) = length body"
proof -
  have "take 4 xs = take 4 (xs @ ys)" using assms(3) by simp
  also have "\<dots> = le_bytes 4 (length body)" unfolding assms(2) by (simp add: framed_def)
  finally show "take 4 xs = le_bytes 4 (length body)" .
  then show "of_le_bytes (take 4 xs) = length body" using assms(1) by (simp add: of_le_bytes_le_bytes)
qed

lemma buffer_length:
  assumes "fb_ok fb" "fb_bytes fb \<noteq> []" "received fb @ ys = framed body @ rest" "length body < u32_bound"
  shows "length (fb_bytes fb) = length body + 4"
proof -
  have "length (received fb) = fb_used fb" "take 4 (received fb) = fb_prefix fb" "4 \<le> fb_used fb"
    using assms(1,2) by (auto simp: fb_ok_def received_def)
  then show ?thesis using prefix_of_framed(2) [OF assms(4,3)] assms(1,2) by (simp add: fb_ok_def)
qed

lemma complete_frame:
  assumes "fb_ok fb" "frame_is_complete fb" "received fb @ ys = framed body @ rest" "length body < u32_bound"
  shows "frame_frame fb = Some (framed body)" "ys = rest"
proof -
  have c: "fb_bytes fb \<noteq> []" "fb_used fb = length (fb_bytes fb)" using assms(2) by (auto simp: frame_is_complete_def)
  then have "received fb = fb_bytes fb" by (simp add: received_def)
  moreover have "length (fb_bytes fb) = length (framed body)" using buffer_length [OF assms(1) c(1) assms(3,4)] by simp
  ultimately have "fb_bytes fb = framed body \<and> ys = rest" using assms(3) by (metis append_eq_append_conv)
  then show "frame_frame fb = Some (framed body)" "ys = rest" using assms(2) by (auto simp: frame_frame_def)
qed

lemma push_fragments_framed:
  assumes "fb_ok fb" "\<not> stuck fb" "received fb @ concat frs = framed body @ rest"
    "body \<noteq> []" "length body < u32_bound" "length body + 4 \<le> fb_maximum fb"
  shows "case push_fragments fb frs env of
      Inl e \<Rightarrow> e = ResourceExhausted \<and> env \<noteq> []
    | Inr ((fb', left), env') \<Rightarrow> frame_frame fb' = Some (framed body) \<and> left = rest"
  using assms(1,2,3,6)
proof (induction frs arbitrary: fb env)
  case Nil
  have r: "received fb @ [] = framed body @ rest" using Nil.prems(3) by simp
  have ne: "fb_bytes fb \<noteq> []"
  proof
    assume "fb_bytes fb = []"
    then have "length (received fb) \<le> 4" using Nil.prems(1) by (auto simp: fb_ok_def received_def)
    moreover have "4 < length (framed body @ rest)" using assms(4) by (cases body) auto
    ultimately show False using r by (metis append_Nil2 not_less)
  qed
  have len: "length (fb_bytes fb) = length body + 4" using buffer_length [OF Nil.prems(1) ne r assms(5)] .
  have "length (received fb) = fb_used fb" "fb_used fb \<le> length (fb_bytes fb)"
    using Nil.prems(1) ne by (auto simp: fb_ok_def received_def)
  then have "fb_used fb = length (fb_bytes fb)" using arg_cong [OF r, of length] len by simp
  then have "frame_is_complete fb" using ne by (simp add: frame_is_complete_def)
  from complete_frame [OF Nil.prems(1) this r assms(5)] show ?case by simp
next
  case (Cons fr frs)
  obtain res fb' where p: "frame_push fb fr env = (res, fb')" by (cases "frame_push fb fr env")
  note C = frame_push_cases [OF Cons.prems(1), of fr env, unfolded p, simplified]
  show ?case
  proof (cases res)
    case (Inl e)
    then have ref: "stuck fb'" "fb_ok fb'" "received fb' = take 4 (received fb @ fr)"
      "refused (fb_maximum fb) (of_le_bytes (take 4 (received fb @ fr))) env e" using C by auto
    then have "length (take 4 (received fb @ fr)) = 4"
      by (metis fb_ok_def length_take min.idem received_def stuck_def)
    then have "of_le_bytes (take 4 (received fb @ fr)) = length body"
      using prefix_of_framed(2) [OF assms(5), of "received fb @ fr" "concat frs" rest] Cons.prems(3) by simp
    then show ?thesis using ref(4) Inl p Cons.prems(4) assms(4) by (auto simp: refused_def)
  next
    case (Inr q)
    obtain n env' where q: "q = (n, env')" by (cases q)
    note C' = C [unfolded Inr q, simplified]
    have split: "received fb' @ drop n fr @ concat frs = framed body @ rest"
      using C' Cons.prems(3) by (metis append_assoc append_take_drop_id concat.simps(2))
    show ?thesis
    proof (cases "n < length fr")
      case True
      then have "frame_is_complete fb'" using C' Cons.prems(2) by auto
      from complete_frame [OF _ this split assms(5)] show ?thesis using C' p Inr q True by simp
    next
      case False
      then have "received fb' @ concat frs = framed body @ rest" using split by simp
      from Cons.IH [OF _ _ this] have "case push_fragments fb' frs env' of
          Inl e \<Rightarrow> e = ResourceExhausted \<and> env' \<noteq> []
        | Inr ((fb', left), env') \<Rightarrow> frame_frame fb' = Some (framed body) \<and> left = rest"
        using C' Cons.prems(2,4) by simp
      moreover have "env' \<noteq> [] \<Longrightarrow> env \<noteq> []"
        using p Inr q by (cases env) (auto simp: frame_push_def declared_length_def Let_def res_simps
            split: if_splits sum.splits prod.splits)
      ultimately show ?thesis using p Inr q False by (auto split: sum.splits)
    qed
  qed
qed

section \<open>The bounded encoder\<close>

lemma capped_writes_Inr:
  "capped_writes w cs env = Inr (w', env') \<Longrightarrow>
   w' = w\<lparr>cw_bytes := cw_bytes w @ concat cs\<rparr> \<and>
   (length (cw_bytes w) \<le> cw_maximum w \<longrightarrow> length (cw_bytes w @ concat cs) \<le> cw_maximum w)"
proof (induction cs arbitrary: w env)
  case (Cons c cs)
  then obtain w1 env1 where 1: "capped_write w c env = Inr (w1, env1)" "capped_writes w1 cs env1 = Inr (w', env')"
    by (auto simp: res_simps)
  then have w1: "w1 = w\<lparr>cw_bytes := cw_bytes w @ c\<rparr>" "length c \<le> cw_maximum w - length (cw_bytes w)"
    by (auto simp: capped_write_def split: if_splits sum.splits)
  show ?case using Cons.IH [OF 1(2)] w1 by auto
qed simp

lemma capped_writes_quiet:
  assumes "length (cw_bytes w) \<le> cw_maximum w"
  shows "if length (cw_bytes w @ concat cs) \<le> cw_maximum w
    then capped_writes w cs [] = Inr (w\<lparr>cw_bytes := cw_bytes w @ concat cs\<rparr>, [])
    else \<exists>w'. capped_writes w cs [] = Inl w' \<and> cw_failure w' = Some FrameTooLarge"
  using assms
proof (induction cs arbitrary: w)
  case (Cons c cs)
  show ?case
  proof (cases "length c \<le> cw_maximum w - length (cw_bytes w)")
    case True
    let ?w = "w\<lparr>cw_bytes := cw_bytes w @ c\<rparr>"
    have "capped_write w c [] = Inr (?w, [])" using True by (simp add: capped_write_def)
    moreover have "length (cw_bytes ?w) \<le> cw_maximum ?w" using True Cons.prems by simp
    moreover have "?w\<lparr>cw_bytes := cw_bytes ?w @ concat cs\<rparr> = w\<lparr>cw_bytes := cw_bytes w @ concat (c # cs)\<rparr>"
      by (cases w) simp
    ultimately show ?thesis using Cons.IH [of ?w] by (simp add: add.assoc)
  next
    case False
    then show ?thesis by (auto simp: capped_write_def)
  qed
qed simp

lemma frame_encode_Inr:
  assumes "frame_encode ser v maximum env = Inr (f, env')" "4 \<le> maximum"
  shows "f = framed (concat (fst (ser v))) \<and> snd (ser v) \<and> length f \<le> maximum \<and> length (concat (fst (ser v))) < u32_bound"
proof -
  let ?w = "\<lparr>cw_bytes = replicate 4 0, cw_maximum = maximum, cw_failure = None\<rparr>"
  obtain env1 where r: "reserve_with ResourceExhausted env = Inr env1"
    using assms(1) by (cases "reserve_with ResourceExhausted env") (auto simp: frame_encode_def)
  have 1: "frame_encode ser v maximum env = (case capped_writes ?w (fst (ser v)) env1 of
       Inl w \<Rightarrow> Inl (case cw_failure w of Some e \<Rightarrow> e | None \<Rightarrow> Serialization)
     | Inr (w, env) \<Rightarrow>
         if \<not> snd (ser v) then Inl (case cw_failure w of Some e \<Rightarrow> e | None \<Rightarrow> Serialization)
         else bindE (ok_or FrameTooLarge (try_from u32_bound (length (cw_bytes w) - 4))) (\<lambda>body.
           Inr (copy_at (cw_bytes w) 0 (le_bytes 4 body), env)))"
    unfolding frame_encode_def FRAME_PREFIX_BYTES_def r by simp
  obtain w env2 where 2: "capped_writes ?w (fst (ser v)) env1 = Inr (w, env2)"
    using 1 assms(1) by (cases "capped_writes ?w (fst (ser v)) env1") auto
  have w: "cw_bytes w = replicate 4 0 @ concat (fst (ser v))" "length (cw_bytes w) \<le> maximum"
    using capped_writes_Inr [OF 2] assms(2) by auto
  show ?thesis using 1 2 w assms by (auto simp: res_simps try_from_def copy_at_def framed_def split: if_splits)
qed

definition wire_size :: "'a serializer \<Rightarrow> 'a \<Rightarrow> nat" where
  "wire_size ser v = 4 + length (concat (fst (ser v)))"

lemma frame_encode_quiet:
  assumes "snd (ser v)" "4 \<le> maximum" "maximum \<le> MAX_FRAME_BYTES"
  shows "frame_encode ser v maximum [] =
    (if wire_size ser v \<le> maximum then Inr (framed (concat (fst (ser v))), []) else Inl FrameTooLarge)"
proof -
  let ?w = "\<lparr>cw_bytes = replicate 4 0, cw_maximum = maximum, cw_failure = None\<rparr>"
  have "length (cw_bytes ?w) \<le> cw_maximum ?w" using assms(2) by simp
  note Q = capped_writes_quiet [OF this, of "fst (ser v)"]
  show ?thesis
  proof (cases "wire_size ser v \<le> maximum")
    case True
    then have "capped_writes ?w (fst (ser v)) [] = Inr (?w\<lparr>cw_bytes := cw_bytes ?w @ concat (fst (ser v))\<rparr>, [])"
      using Q by (simp add: wire_size_def)
    then show ?thesis using True assms
      by (simp add: frame_encode_def FRAME_PREFIX_BYTES_def try_from_def wire_size_def MAX_FRAME_BYTES_def
          copy_at_def framed_def)
  next
    case False
    then obtain w' where "capped_writes ?w (fst (ser v)) [] = Inl w'" "cw_failure w' = Some FrameTooLarge"
      using Q by (auto simp: wire_size_def)
    then show ?thesis using False by (simp add: frame_encode_def FRAME_PREFIX_BYTES_def)
  qed
qed

lemma count_writes_result:
  "ct_length w \<le> MAX_BODY_BYTES \<Longrightarrow> \<not> ct_exceeded w \<Longrightarrow>
   (case count_writes w cs of
      Inl w' \<Rightarrow> ct_exceeded w' \<and> MAX_BODY_BYTES < ct_length w + length (concat cs)
    | Inr w' \<Rightarrow> \<not> ct_exceeded w' \<and> ct_length w + length (concat cs) \<le> MAX_BODY_BYTES)"
proof (induction cs arbitrary: w)
  case (Cons c cs)
  show ?case
  proof (cases "MAX_BODY_BYTES - ct_length w < length c")
    case True
    then show ?thesis using Cons.prems by (auto simp: count_write_def)
  next
    case False
    then have "ct_length w + length c \<le> MAX_BODY_BYTES" using Cons.prems by simp
    then show ?thesis using False Cons.IH [of "w\<lparr>ct_length := ct_length w + length c\<rparr>"] Cons.prems
      by (auto simp: count_write_def add.assoc split: sum.splits)
  qed
qed simp

lemma fits_wire_size:
  "fits ser v = (if wire_size ser v \<le> MAX_FRAME_BYTES then (if snd (ser v) then Inr True else Inl Serialization) else Inr False)"
proof -
  have b: "MAX_BODY_BYTES = MAX_FRAME_BYTES - 4" "4 \<le> MAX_FRAME_BYTES"
    by (simp_all add: MAX_BODY_BYTES_def FRAME_PREFIX_BYTES_def MAX_FRAME_BYTES_def)
  show ?thesis
    using count_writes_result [of "\<lparr>ct_length = 0, ct_exceeded = False\<rparr>" "fst (ser v)"] b
    by (auto simp: fits_def wire_size_def split: sum.splits)
qed

lemma frame_decode_framed:
  assumes "body \<noteq> []" "length body < u32_bound" "length body + 4 \<le> maximum"
  shows "frame_decode parse (framed body) maximum = ok_or InvalidMessage (parse body)"
  using assms by (simp add: frame_decode_def framed_def get_range_def FRAME_PREFIX_BYTES_def of_le_bytes_le_bytes
      try_from_def checked_add64_def)

text \<open>What the JSON library promises: reading a document it wrote gives the value back, and no document is empty.\<close>

definition json_reads :: "'a serializer \<Rightarrow> (bytes \<Rightarrow> 'a option) \<Rightarrow> bool" where
  "json_reads ser parse \<longleftrightarrow> parse [] = None \<and> (\<forall>v. snd (ser v) \<longrightarrow> parse (concat (fst (ser v))) = Some v)"

text \<open>A message encoded under a ceiling crosses any fragmentation and decodes under the same ceiling.\<close>

lemma frame_transport:
  assumes "frame_encode ser v maximum env = Inr (f, env')" "json_reads ser parse"
    "5 \<le> maximum" "maximum \<le> MAX_FRAME_BYTES" "concat fragments = f @ rest"
  shows "\<exists>fb fb'. frame_new maximum = Inr fb \<and> push_fragments fb fragments [] = Inr ((fb', rest), []) \<and>
    frame_frame fb' = Some f" and "frame_decode parse f maximum = Inr v"
proof -
  let ?b = "concat (fst (ser v))"
  have e: "f = framed ?b" "snd (ser v)" "length f \<le> maximum" "length ?b < u32_bound"
    using frame_encode_Inr [OF assms(1)] assms(3) by auto
  have j: "parse ?b = Some v" using assms(2) e(2) by (simp add: json_reads_def)
  then have ne: "?b \<noteq> []" using assms(2) by (metis json_reads_def option.distinct(1))
  show "frame_decode parse f maximum = Inr v" using e j ne frame_decode_framed [of ?b maximum parse] by simp
  obtain fb where fb: "frame_new maximum = Inr fb" using assms(3,4) by (auto simp: frame_new_def FRAME_PREFIX_BYTES_def)
  have "\<not> stuck fb" using fb by (auto simp: frame_new_def stuck_def split: if_splits)
  then have "case push_fragments fb fragments [] of Inl e \<Rightarrow> e = ResourceExhausted \<and> [] \<noteq> ([] :: env)
      | Inr ((fb', left), env') \<Rightarrow> frame_frame fb' = Some f \<and> left = rest"
    unfolding e(1) using push_fragments_framed [of fb fragments ?b rest "[]"] frame_new_ok [OF fb] assms(5) e ne by simp
  moreover have "env' = []" if "push_fragments fb frs [] = Inr (x, env')" for fb frs x env'
    using that
  proof (induction frs arbitrary: fb)
    case (Cons fr frs)
    obtain r fb1 where p: "frame_push fb fr [] = (r, fb1)" by (cases "frame_push fb fr []")
    have "env1 = []" if "r = Inr (n, env1)" for n env1
      using p that by (auto simp: frame_push_def declared_length_def Let_def res_simps split: if_splits sum.splits prod.splits)
    then show ?case using Cons p by (auto split: sum.splits if_splits)
  qed simp
  ultimately show "\<exists>fb fb'. frame_new maximum = Inr fb \<and> push_fragments fb fragments [] = Inr ((fb', rest), []) \<and>
    frame_frame fb' = Some f"
    using fb by (fastforce split: sum.splits)
qed

section \<open>The largest fitting prefix\<close>

lemma fit_search_largest:
  assumes "\<And>m. snd (ser (complete_wire i g (take m items)))"
    and "low \<le> high" "high \<le> n"
    and "low = 0 \<or> wire_size ser (complete_wire i g (take low items)) \<le> MAX_FRAME_BYTES"
    and "\<And>m. high < m \<Longrightarrow> m \<le> n \<Longrightarrow> MAX_FRAME_BYTES < wire_size ser (complete_wire i g (take m items))"
    and mono: "\<And>j k. j \<le> k \<Longrightarrow> k \<le> n \<Longrightarrow>
      wire_size ser (complete_wire i g (take j items)) \<le> wire_size ser (complete_wire i g (take k items))"
  shows "\<exists>k \<le> n. fit_search ser i g items low high = Inr k \<and>
    (k = 0 \<or> wire_size ser (complete_wire i g (take k items)) \<le> MAX_FRAME_BYTES) \<and>
    (\<forall>m \<le> n. k < m \<longrightarrow> MAX_FRAME_BYTES < wire_size ser (complete_wire i g (take m items)))"
  using assms(2-5)
proof (induction "high - low" arbitrary: low high rule: less_induct)
  case less
  let ?s = "\<lambda>m. wire_size ser (complete_wire i g (take m items))"
  show ?case
  proof (cases "low < high")
    case False
    then show ?thesis using less.prems by (subst fit_search.simps) auto
  next
    case True
    define mid where "mid = low + (high - low + 1) div 2"
    have m: "low < mid" "mid \<le> high" using True by (auto simp: mid_def)
    show ?thesis
    proof (cases "?s mid \<le> MAX_FRAME_BYTES")
      case fit: True
      then have "fit_search ser i g items low high = fit_search ser i g items mid high"
        using True assms(1) by (subst fit_search.simps) (simp add: fits_wire_size mid_def)
      then show ?thesis using less.hyps [of high mid] less.prems m fit by auto
    next
      case big: False
      then have eq: "fit_search ser i g items low high = fit_search ser i g items low (mid - 1)"
        using True assms(1) by (subst fit_search.simps) (simp add: fits_wire_size mid_def)
      have "MAX_FRAME_BYTES < ?s j" if "mid - 1 < j" "j \<le> n" for j
        using big mono [of mid j] that m by linarith
      then show ?thesis unfolding eq using less.hyps [of "mid - 1" low] less.prems m by auto
    qed
  qed
qed

section \<open>Properties\<close>

fun push_all :: "FrameBuffer \<Rightarrow> (bytes \<times> env) list \<Rightarrow> FrameBuffer" where
  "push_all fb [] = fb"
| "push_all fb ((input, env) # inputs) = push_all (snd (frame_push fb input env)) inputs"

lemma push_all_ok: "fb_ok fb \<Longrightarrow> fb_ok (push_all fb inputs) \<and> fb_maximum (push_all fb inputs) = fb_maximum fb"
  by (induction fb inputs rule: push_all.induct) (use frame_push_cases in auto)

text \<open>
  C33: Whatever bytes arrive in whatever fragments, a frame buffer never holds more than its
  ceiling, which is at most the protocol's frame limit. A declared length is checked before any
  buffer is allocated: a push fails only for an empty body, for a length beyond the ceiling or for
  a refused allocation, and then holds no body. A complete buffer holds exactly the declared
  length, and not an empty body.
\<close>

theorem frame_buffer_bounded:
  assumes "frame_new maximum = Inr fb"
  shows "length (fb_bytes (push_all fb inputs)) \<le> maximum \<and> maximum \<le> MAX_FRAME_BYTES \<and>
    (case frame_push (push_all fb inputs) input env of
       (Inl e, fb') \<Rightarrow> fb_bytes fb' = [] \<and> refused maximum (of_le_bytes (fb_prefix fb')) env e
     | (Inr (n, env'), fb') \<Rightarrow> n \<le> length input \<and> length (fb_bytes fb') \<le> maximum \<and>
         (case frame_frame fb' of None \<Rightarrow> True
          | Some f \<Rightarrow> of_le_bytes (take 4 f) + 4 = length f \<and> 4 < length f))"
proof -
  let ?fb = "push_all fb inputs"
  have ok: "fb_ok ?fb" "fb_maximum ?fb = maximum"
    using frame_new_ok [OF assms] push_all_ok [of fb inputs] by auto
  obtain r fb' where p: "frame_push ?fb input env = (r, fb')" by (cases "frame_push ?fb input env")
  note C = frame_push_cases [OF ok(1), of input env, unfolded p ok(2), simplified]
  have b: "length (fb_bytes x) \<le> maximum \<and> maximum \<le> MAX_FRAME_BYTES" if "fb_ok x" "fb_maximum x = maximum" for x
    using that by (auto simp: fb_ok_def split: if_splits)
  have f: "of_le_bytes (take 4 f) + 4 = length f \<and> 4 < length f" if "frame_frame x = Some f" "fb_ok x" for x f
    using that by (auto simp: frame_frame_def frame_is_complete_def fb_ok_def split: if_splits)
  show ?thesis
  proof (cases r)
    case (Inl e)
    then have s: "stuck fb'" "fb_ok fb'" "refused maximum (of_le_bytes (received fb')) env e" using C by auto
    then have "received fb' = fb_prefix fb'" by (auto simp: stuck_def fb_ok_def received_def)
    then show ?thesis using Inl p s b [OF ok] by (simp add: stuck_def)
  next
    case (Inr q)
    then show ?thesis using p C b [OF ok] b [of fb'] f [of fb'] by (auto split: prod.splits option.splits)
  qed
qed

text \<open>
  C32: A reply of the session crosses the wire intact: if \<open>encode_session_reply\<close> produced a frame,
  then from any stream that starts with it, cut into any fragments, a fresh buffer collects
  exactly that frame, leaves exactly the bytes after it, and \<open>decode_session_reply\<close> gives the
  original reply. The JSON library is only assumed to read back what it wrote.
\<close>

theorem session_reply_transport:
  assumes "encode_session_reply ser reply env = Inr (f, env')" "json_reads ser parse"
    and "concat fragments = f @ rest"
  shows "\<exists>fb fb'. frame_new MAX_FRAME_BYTES = Inr fb \<and>
    push_fragments fb fragments [] = Inr ((fb', rest), []) \<and> frame_frame fb' = Some f \<and>
    decode_session_reply parse f = Inr reply"
proof -
  have e: "session_reply_validate reply = Inr ()" "frame_encode ser reply MAX_FRAME_BYTES env = Inr (f, env')"
    using assms(1) by (auto simp: encode_session_reply_def res_simps)
  have m: "5 \<le> MAX_FRAME_BYTES" by (simp add: MAX_FRAME_BYTES_def)
  from frame_transport [OF e(2) assms(2) m order_refl assms(3)] show ?thesis
    using e(1) by (auto simp: decode_session_reply_def)
qed

text \<open>
  C34: \<open>prepare_complete\<close> sends the largest prefix that fits: when the whole result does not fit a
  frame, the frame that is sent carries the first \<open>k\<close> items, no longer prefix fits, and \<open>k\<close> items
  do fit unless even the empty result does not, in which case the frame is refused as too
  large. The JSON library is only assumed to serialize and to write more bytes for longer prefixes.
\<close>

theorem prepare_complete_largest:
  assumes "terminal_validate \<lparr>tm_request_id = i, tm_outcome = OComplete g items Complete\<rparr> MAX_ITEMS = Inr ()"
    and "MAX_FRAME_BYTES < wire_size ser_terminal \<lparr>tm_request_id = i, tm_outcome = OComplete g items Complete\<rparr>"
    and "\<And>m. snd (ser_wire (complete_wire i g (take m items)))"
    and "\<And>j k. j \<le> k \<Longrightarrow> k \<le> length items \<Longrightarrow>
      wire_size ser_wire (complete_wire i g (take j items)) \<le> wire_size ser_wire (complete_wire i g (take k items))"
  shows "\<exists>k \<le> length items.
    prepare_complete ser_terminal ser_wire i g items [] =
      (if wire_size ser_wire (complete_wire i g (take k items)) \<le> MAX_FRAME_BYTES
       then Inr (framed (concat (fst (ser_wire (complete_wire i g (take k items))))), [])
       else Inl FrameTooLarge) \<and>
    (k = 0 \<or> wire_size ser_wire (complete_wire i g (take k items)) \<le> MAX_FRAME_BYTES) \<and>
    (\<forall>m \<le> length items. k < m \<longrightarrow> MAX_FRAME_BYTES < wire_size ser_wire (complete_wire i g (take m items)))"
proof -
  obtain k where k: "k \<le> length items" "fit_search ser_wire i g items 0 (length items) = Inr k"
    "k = 0 \<or> wire_size ser_wire (complete_wire i g (take k items)) \<le> MAX_FRAME_BYTES"
    "\<forall>m \<le> length items. k < m \<longrightarrow> MAX_FRAME_BYTES < wire_size ser_wire (complete_wire i g (take m items))"
    using fit_search_largest [of ser_wire i g items 0 "length items" "length items"] assms(3,4) by auto
  have l: "try_from u8_bound MAX_ITEMS = Some MAX_ITEMS" "4 \<le> MAX_FRAME_BYTES"
    by (simp_all add: try_from_def MAX_ITEMS_def MAX_FRAME_BYTES_def)
  have "prepare_complete ser_terminal ser_wire i g items [] =
      frame_encode ser_wire (complete_wire i g (take k items)) MAX_FRAME_BYTES []"
    using assms(1,2) k(2) l(1) by (simp add: prepare_complete_def fits_wire_size)
  then show ?thesis using k frame_encode_quiet [of ser_wire "complete_wire i g (take k items)" MAX_FRAME_BYTES] assms(3) l(2) by auto
qed

section \<open>Concrete messages\<close>

definition ex_buffer :: FrameBuffer where
  "ex_buffer = \<lparr>fb_prefix = [0, 0, 0, 0], fb_prefix_used = 0, fb_bytes = [], fb_used = 0, fb_maximum = 16\<rparr>"

lemma ex_buffer_new: "frame_new 16 = Inr ex_buffer"
  by (simp add: frame_new_def ex_buffer_def FRAME_PREFIX_BYTES_def MAX_FRAME_BYTES_def) (simp add: numeral_eq_Suc)

theorem frame_buffer_bounded_witness:
  "frame_new 16 = Inr ex_buffer \<and>
   length (fb_bytes (push_all ex_buffer [([2, 0], []), ([0, 0, 123], [])])) = 6 \<and>
   length (fb_bytes (push_all ex_buffer [([2, 0], []), ([0, 0, 123], [])])) \<le> 16 \<and> 16 \<le> MAX_FRAME_BYTES"
proof -
  have "length (fb_bytes (push_all ex_buffer [([2, 0], []), ([0, 0, 123], [])])) = 6"
    by (simp add: ex_buffer_def frame_push_def declared_length_def push_body_def copy_at_def FRAME_PREFIX_BYTES_def
        try_from_def checked_add64_def)
  then show ?thesis
    using ex_buffer_new frame_buffer_bounded [OF ex_buffer_new, of "[([2, 0], []), ([0, 0, 123], [])]"] by simp
qed

definition ex_reply :: SessionReply where
  "ex_reply = \<lparr>rp_request_id = 1, rp_outcome = SClosed\<rparr>"

definition ex_ser :: "SessionReply serializer" where
  "ex_ser v = ([[123], [125]], v = ex_reply)"

definition ex_parse :: "bytes \<Rightarrow> SessionReply option" where
  "ex_parse bs = (if bs = [123, 125] then Some ex_reply else None)"

lemma ex_json_reads: "json_reads ex_ser ex_parse"
  by (simp add: json_reads_def ex_ser_def ex_parse_def)

lemma ex_framed: "framed [123, 125] = [2, 0, 0, 0, 123, 125]"
  by code_simp

lemma ex_encoded: "encode_session_reply ex_ser ex_reply [] = Inr ([2, 0, 0, 0, 123, 125], [])"
proof -
  have "frame_encode ex_ser ex_reply MAX_FRAME_BYTES [] = Inr (framed [123, 125], [])"
    by (subst frame_encode_quiet) (simp_all add: ex_ser_def wire_size_def MAX_FRAME_BYTES_def)
  then show ?thesis
    by (simp add: encode_session_reply_def session_reply_validate_def ex_reply_def ex_framed)
qed

theorem session_reply_transport_witness:
  "json_reads ex_ser ex_parse \<and>
   encode_session_reply ex_ser ex_reply [] = Inr ([2, 0, 0, 0, 123, 125], []) \<and>
   (\<exists>fb fb'. frame_new MAX_FRAME_BYTES = Inr fb \<and>
      push_fragments fb [[2, 0], [0, 0, 123], [125, 9]] [] = Inr ((fb', [9]), []) \<and>
      frame_frame fb' = Some [2, 0, 0, 0, 123, 125] \<and>
      decode_session_reply ex_parse [2, 0, 0, 0, 123, 125] = Inr ex_reply)"
  using session_reply_transport [OF ex_encoded ex_json_reads, of "[[2, 0], [0, 0, 123], [125, 9]]" "[9]"]
    ex_encoded ex_json_reads by simp

definition ex_evidence :: EvidenceMetadata where
  "ex_evidence = \<lparr>em_generation = 1, em_point_id = replicate 15 CHR ''0'' @ ''1'' @ replicate 16 CHR ''0'',
     em_namespace_id = ''00000000-0000-4000-8000-000000000001'',
     em_source_id = ''00000000-0000-4000-8000-000000000002'',
     em_input = ex_object SourceDto, em_prepared = ex_object PreparedDto, em_unit = 0, em_start = 0, em_end = 2,
     em_line_start = 0, em_line_end = 1, em_starts_at_line = True, em_ends_at_line = False\<rparr>"

definition ex_items :: "SearchItem list" where
  "ex_items = [SHit \<lparr>sh_rank = 1, sh_score = 0, sh_evidence = ex_evidence, sh_unit_text = [104, 105]\<rparr>]"

definition ex_terminal_ser :: "Terminal serializer" where
  "ex_terminal_ser t = ([replicate MAX_FRAME_BYTES 32], True)"

definition ex_wire_ser :: "CompleteWire serializer" where
  "ex_wire_ser w = ([replicate (if co_items (wi_outcome w) = [] then 2 else MAX_FRAME_BYTES) 32], True)"

lemma ex_point_spelling: "hex_spelling (replicate 15 CHR ''0'' @ ''1'' @ replicate 16 CHR ''0'') 32"
  by code_simp

lemma ex_object_bytes: "od_bytes (ex_object kind) = 200"
  by (simp add: ex_object_def)

lemma those_map_Some: "those (map Some xs) = Some xs"
  by (induction xs) simp_all

lemma ex_point: "hex_number (take 16 (replicate 15 CHR ''0'' @ ''1'' @ replicate 16 CHR ''0'')) = Some 1"
proof -
  have d: "map Contracts.lower_hex (as_bytes (take 16 (replicate 15 CHR ''0'' @ ''1'' @ replicate 16 CHR ''0''))) =
      map Some (replicate 15 0 @ [1])" by code_simp
  have "foldl (\<lambda>n d. n * 16 + unat d) 0 (replicate 15 (0 :: byte) @ [1]) = 1" by (simp add: numeral_eq_Suc)
  then show ?thesis unfolding hex_number_def d those_map_Some by (simp add: try_from_def)
qed

lemma ex_items_valid:
  "terminal_validate \<lparr>tm_request_id = 1, tm_outcome = OComplete 1 ex_items Complete\<rparr> MAX_ITEMS = Inr ()"
proof -
  have "evidence_validate ex_evidence 1 = Inr ()"
    unfolding evidence_validate_def ex_evidence_def
    using ex_ids ex_point_spelling ex_point ex_object_valid ex_object_bytes by (simp add: MAX_UNIT_TEXT_BYTES_def)
  then show ?thesis
    by (simp add: terminal_validate_def ex_items_def search_item_validate_def is_finite_def MAX_ITEMS_def
        QUERY_REQUEST_ID_def MAX_UNIT_TEXT_BYTES_def try_from_def checked_sub_def) (simp add: ex_evidence_def)
qed

theorem prepare_complete_largest_witness:
  "terminal_validate \<lparr>tm_request_id = 1, tm_outcome = OComplete 1 ex_items Complete\<rparr> MAX_ITEMS = Inr () \<and>
   prepare_complete ex_terminal_ser ex_wire_ser 1 1 ex_items [] = Inr (framed (replicate 2 32), [])"
proof -
  have M: "2 \<le> MAX_FRAME_BYTES" by (simp add: MAX_FRAME_BYTES_def)
  have w: "wire_size ex_wire_ser (complete_wire 1 1 xs) = 4 + (if xs = [] then 2 else MAX_FRAME_BYTES)" for xs
    by (simp add: wire_size_def ex_wire_ser_def complete_wire_def)
  have "MAX_FRAME_BYTES < wire_size ex_terminal_ser \<lparr>tm_request_id = 1, tm_outcome = OComplete 1 ex_items Complete\<rparr>"
    by (simp add: wire_size_def ex_terminal_ser_def)
  moreover have "snd (ex_wire_ser (complete_wire 1 1 (take m ex_items)))" for m by (simp add: ex_wire_ser_def)
  moreover have "wire_size ex_wire_ser (complete_wire 1 1 (take j ex_items)) \<le>
      wire_size ex_wire_ser (complete_wire 1 1 (take k ex_items))" if "j \<le> k" "k \<le> length ex_items" for j k
    unfolding w using that M by auto
  ultimately obtain k where k: "k \<le> length ex_items"
    "prepare_complete ex_terminal_ser ex_wire_ser 1 1 ex_items [] =
      (if wire_size ex_wire_ser (complete_wire 1 1 (take k ex_items)) \<le> MAX_FRAME_BYTES
       then Inr (framed (concat (fst (ex_wire_ser (complete_wire 1 1 (take k ex_items))))), [])
       else Inl FrameTooLarge)"
    "k = 0 \<or> wire_size ex_wire_ser (complete_wire 1 1 (take k ex_items)) \<le> MAX_FRAME_BYTES"
    using prepare_complete_largest [OF ex_items_valid, of ex_terminal_ser ex_wire_ser] by blast
  have "k = 0" using k(1,3) unfolding w by (auto simp: ex_items_def split: if_splits)
  then show ?thesis using k(2) ex_items_valid unfolding w
    by (simp add: ex_wire_ser_def complete_wire_def MAX_FRAME_BYTES_def)
qed

end
