(* ===== verification/PlainFiles.thy ===== *)
theory PlainFiles
  imports Contracts "HOL-Library.AList"
begin

text \<open>
  Files of a plain root and the owner's bounded file helpers (\<open>plain_root.rs\<close> of
  \<open>search-runtime-owner\<close>). The file system is an explicit store: an association list from paths
  to entries. An operation maps a world, the files with the environment that answers the polls, to
  a result and the world afterwards, so that what a failed operation leaves behind is part of the
  model. Every system call may fail: it takes one observation, and a set \<open>obs_io\<close> makes it fail.
  A failed write leaves some prefix of its bytes, the parameter \<open>torn\<close>. The root lock excludes
  other writers, so nothing else changes the files.
\<close>

section \<open>Model: files and system calls\<close>

type_synonym path = "string list"

datatype FsEntry = FileEntry bytes | DirEntry | OtherEntry

type_synonym files = "(path \<times> FsEntry) list"
type_synonym world = "files \<times> env"
type_synonym ('e, 'a) fsop = "world \<Rightarrow> ('e + 'a) \<times> world"

definition retW :: "'a \<Rightarrow> ('e, 'a) fsop" where
  "retW x w = (Inr x, w)"

definition failW :: "'e \<Rightarrow> ('e, 'a) fsop" where
  "failW e w = (Inl e, w)"

definition bindW :: "('e, 'a) fsop \<Rightarrow> ('a \<Rightarrow> ('e, 'b) fsop) \<Rightarrow> ('e, 'b) fsop" where
  "bindW m f w = (case m w of (Inl e, w) \<Rightarrow> (Inl e, w) | (Inr x, w) \<Rightarrow> f x w)"

definition liftW :: "'e + 'a \<Rightarrow> ('e, 'a) fsop" where
  "liftW r w = (r, w)"

definition mapErrW :: "('e \<Rightarrow> 'f) \<Rightarrow> ('e, 'a) fsop \<Rightarrow> ('f, 'a) fsop" where
  "mapErrW g m w = (case m w of (r, w) \<Rightarrow> (mapErr g r, w))"

text \<open>A poll or a reservation of the environment; a failed one stops the operation.\<close>

definition pollW :: "(env \<Rightarrow> 'e + env) \<Rightarrow> ('e, unit) fsop" where
  "pollW p w = (case p (snd w) of Inl e \<Rightarrow> (Inl e, (fst w, tl (snd w))) | Inr env \<Rightarrow> (Inr (), (fst w, env)))"

datatype IoErrorKind = NotFound | AlreadyExistsIo | WouldBlock | OtherIo

definition io_fails :: "env \<Rightarrow> bool \<times> env" where
  "io_fails env = (case env of [] \<Rightarrow> (False, []) | ob # env \<Rightarrow> (obs_io ob, env))"

text \<open>A system call: its result is a value, the caller decides what to make of a failure.\<close>

definition sys :: "(files \<Rightarrow> (IoErrorKind + 'a) \<times> files) \<Rightarrow> ('e, IoErrorKind + 'a) fsop" where
  "sys act w = (case io_fails (snd w) of (failed, env) \<Rightarrow>
     if failed then (Inr (Inl OtherIo), (fst w, env))
     else (case act (fst w) of (r, fs) \<Rightarrow> (Inr r, (fs, env))))"

definition fs_get :: "files \<Rightarrow> path \<Rightarrow> FsEntry option" where
  "fs_get fs p = map_of fs p"

definition fs_put :: "path \<Rightarrow> FsEntry \<Rightarrow> files \<Rightarrow> files" where
  "fs_put p e fs = AList.update p e fs"

definition fs_del :: "path \<Rightarrow> files \<Rightarrow> files" where
  "fs_del p fs = AList.delete p fs"

definition fs_stat :: "path \<Rightarrow> files \<Rightarrow> (IoErrorKind + FsEntry) \<times> files" where
  "fs_stat p fs = (case fs_get fs p of None \<Rightarrow> Inl NotFound | Some e \<Rightarrow> Inr e, fs)"

text \<open>Opening a file for reading; the handle stands for its contents.\<close>

definition fs_open :: "path \<Rightarrow> files \<Rightarrow> (IoErrorKind + bytes) \<times> files" where
  "fs_open p fs = (case fs_get fs p of Some (FileEntry bs) \<Rightarrow> Inr bs | None \<Rightarrow> Inl NotFound | _ \<Rightarrow> Inl OtherIo, fs)"

definition fs_open_dir :: "path \<Rightarrow> files \<Rightarrow> (IoErrorKind + unit) \<times> files" where
  "fs_open_dir p fs = (if fs_get fs p = None then Inl NotFound else Inr (), fs)"

definition fs_remove_file :: "path \<Rightarrow> files \<Rightarrow> (IoErrorKind + unit) \<times> files" where
  "fs_remove_file p fs = (case fs_get fs p of
       None \<Rightarrow> (Inl NotFound, fs) | Some DirEntry \<Rightarrow> (Inl OtherIo, fs) | Some _ \<Rightarrow> (Inr (), fs_del p fs))"

definition fs_create_new :: "path \<Rightarrow> files \<Rightarrow> (IoErrorKind + unit) \<times> files" where
  "fs_create_new p fs =
     (if fs_get fs (butlast p) \<noteq> Some DirEntry then (Inl NotFound, fs)
      else if fs_get fs p \<noteq> None then (Inl AlreadyExistsIo, fs)
      else (Inr (), fs_put p (FileEntry []) fs))"

text \<open>A call on an open handle that changes nothing: flush, sync, seek, metadata.\<close>

definition fs_handle :: "'a \<Rightarrow> files \<Rightarrow> (IoErrorKind + 'a) \<times> files" where
  "fs_handle x fs = (Inr x, fs)"

text \<open>Writing the bytes of a fresh file; a failed write leaves its first \<open>torn\<close> bytes.\<close>

definition sys_write :: "nat \<Rightarrow> path \<Rightarrow> bytes \<Rightarrow> ('e, IoErrorKind + unit) fsop" where
  "sys_write torn p bs w = (case io_fails (snd w) of (failed, env) \<Rightarrow>
     if failed then (Inr (Inl OtherIo), (fs_put p (FileEntry (take torn bs)) (fst w), env))
     else (Inr (Inr ()), (fs_put p (FileEntry bs) (fst w), env)))"

text \<open>
  \<open>NamedTempFile::persist_noclobber\<close>: an existing target is never replaced; on success the staged
  name may stay as a second link. Dropping a temporary file removes it if it can.
\<close>

definition sys_persist_noclobber :: "path \<Rightarrow> path \<Rightarrow> bytes \<Rightarrow> ('e, IoErrorKind + unit) fsop" where
  "sys_persist_noclobber stage dest bs w = (case io_fails (snd w) of (failed, env) \<Rightarrow>
     if failed then (Inr (Inl OtherIo), (fst w, env))
     else if fs_get (fst w) dest \<noteq> None then (Inr (Inl AlreadyExistsIo), (fst w, env))
     else (case io_fails env of (kept, env) \<Rightarrow>
       let fs = fs_put dest (FileEntry bs) (fst w) in
       (Inr (Inr ()), (if kept then fs else fs_del stage fs, env))))"

definition drop_stage :: "path \<Rightarrow> world \<Rightarrow> world" where
  "drop_stage stage w = (case io_fails (snd w) of (failed, env) \<Rightarrow>
     (if failed then fst w else fs_del stage (fst w), env))"

definition with_stage :: "path \<Rightarrow> ('e, 'a) fsop \<Rightarrow> ('e, 'a) fsop" where
  "with_stage stage m w = (case m w of (Inl e, w) \<Rightarrow> (Inl e, drop_stage stage w) | (Inr x, w) \<Rightarrow> (Inr x, w))"

section \<open>Model: errors and polls\<close>

datatype PlainRootError =
  InvalidPath | Busy | Absent | Unsupported | Corrupt | NeedsRepair | Archive | IncompleteImport
| WrongState | AlreadyExists | Io | TooLarge | Cancelled | Deadline | Unavailable | ProbeLimit

fun root_code :: "PlainRootError \<Rightarrow> string" where
  "root_code InvalidPath = ''invalid_path''"
| "root_code Busy = ''busy''"
| "root_code Absent = ''absent''"
| "root_code Unsupported = ''unsupported''"
| "root_code Corrupt = ''corrupt''"
| "root_code NeedsRepair = ''needs_repair''"
| "root_code Archive = ''archive''"
| "root_code IncompleteImport = ''incomplete_import''"
| "root_code WrongState = ''wrong_state''"
| "root_code AlreadyExists = ''already_exists''"
| "root_code Io = ''io''"
| "root_code TooLarge = ''too_large''"
| "root_code Cancelled = ''cancelled''"
| "root_code Deadline = ''deadline''"
| "root_code Unavailable = ''unavailable''"
| "root_code ProbeLimit = ''probe_limit''"

definition op_check :: "(PlainRootError, unit) fsop" where
  "op_check = pollW (check_with Cancelled Deadline)"

datatype EntryKind = File | Directory | Other

fun io_error :: "IoErrorKind \<Rightarrow> PlainRootError" where
  "io_error AlreadyExistsIo = AlreadyExists"
| "io_error WouldBlock = Busy"
| "io_error NotFound = Io"
| "io_error OtherIo = Io"

definition after_io :: "IoErrorKind + 'a \<Rightarrow> (PlainRootError, 'a) fsop" where
  "after_io result = bindW op_check (\<lambda>_. liftW (mapErr io_error result))"

section \<open>Model: bounded helpers\<close>

fun entry_kind :: "FsEntry \<Rightarrow> EntryKind" where
  "entry_kind (FileEntry _) = File"
| "entry_kind DirEntry = Directory"
| "entry_kind OtherEntry = Other"

definition path_kind :: "path \<Rightarrow> (PlainRootError, EntryKind option) fsop" where
  "path_kind p =
     bindW op_check (\<lambda>_.
     bindW (sys (fs_stat p)) (\<lambda>metadata.
     case metadata of
       Inr e \<Rightarrow> bindW op_check (\<lambda>_. retW (Some (entry_kind e)))
     | Inl NotFound \<Rightarrow> bindW op_check (\<lambda>_. retW None)
     | Inl k \<Rightarrow> bindW op_check (\<lambda>_. failW (io_error k))))"

definition read_optional_bounded :: "path \<Rightarrow> nat \<Rightarrow> (PlainRootError, bytes option) fsop" where
  "read_optional_bounded p maximum =
     bindW (path_kind p) (\<lambda>kind.
     case kind of
       None \<Rightarrow> retW None
     | Some Directory \<Rightarrow> failW Unsupported
     | Some Other \<Rightarrow> failW Unsupported
     | Some File \<Rightarrow>
         bindW op_check (\<lambda>_.
         bindW (sys (fs_open p)) (\<lambda>file.
         bindW (after_io file) (\<lambda>content.
         bindW op_check (\<lambda>_.
         bindW (sys (fs_handle (length content))) (\<lambda>metadata.
         bindW (after_io metadata) (\<lambda>len.
         if maximum < len then failW TooLarge
         else
           bindW (liftW (ok_or TooLarge (checked_add64 maximum 1))) (\<lambda>limit.
           bindW (liftW (ok_or TooLarge (try_from u64_bound len))) (\<lambda>capacity.
           bindW op_check (\<lambda>_.
           bindW (sys (fs_handle (take limit content))) (\<lambda>got.
           bindW (after_io got) (\<lambda>bs.
           bindW (liftW (ok_or TooLarge (try_from u64_bound (length bs)))) (\<lambda>n.
           if maximum < n then failW TooLarge else retW (Some bs))))))))))))))"

definition metadata_stage_matches :: "path \<Rightarrow> bytes \<Rightarrow> bool \<Rightarrow> (PlainRootError, bool) fsop" where
  "metadata_stage_matches p expected allow_partial =
     bindW (path_kind p) (\<lambda>kind.
     case kind of
       None \<Rightarrow> retW True
     | Some Directory \<Rightarrow> retW False
     | Some Other \<Rightarrow> retW False
     | Some File \<Rightarrow>
         bindW (liftW (ok_or TooLarge (try_from u64_bound (length expected)))) (\<lambda>maximum.
         bindW (read_optional_bounded p maximum) (\<lambda>contents.
         retW (case contents of None \<Rightarrow> True
           | Some contents \<Rightarrow>
               if allow_partial then take (length contents) expected = contents else contents = expected))))"

definition remove_known_file :: "path \<Rightarrow> (PlainRootError, unit) fsop" where
  "remove_known_file p =
     bindW (path_kind p) (\<lambda>kind.
     case kind of
       None \<Rightarrow> retW ()
     | Some File \<Rightarrow>
         bindW op_check (\<lambda>_.
         bindW (sys (fs_remove_file p)) (\<lambda>result.
         bindW op_check (\<lambda>_.
         case result of
           Inr _ \<Rightarrow> retW ()
         | Inl NotFound \<Rightarrow> retW ()
         | Inl k \<Rightarrow> failW (io_error k))))
     | Some Directory \<Rightarrow> failW Unsupported
     | Some Other \<Rightarrow> failW Unsupported)"

definition remove_metadata_stage :: "path \<Rightarrow> bytes \<Rightarrow> bool \<Rightarrow> (PlainRootError, unit) fsop" where
  "remove_metadata_stage p expected allow_partial =
     bindW (metadata_stage_matches p expected allow_partial) (\<lambda>matches.
     if \<not> matches then failW Unsupported else remove_known_file p)"

definition sync_parent_directory :: "path \<Rightarrow> (PlainRootError, unit) fsop" where
  "sync_parent_directory p =
     (if p = [] then failW InvalidPath
      else
        bindW op_check (\<lambda>_.
        bindW (sys (fs_open_dir (butlast p))) (\<lambda>directory.
        bindW (after_io directory) (\<lambda>_.
        bindW op_check (\<lambda>_.
        bindW (sys (fs_handle ())) (\<lambda>synced. after_io synced))))))"

section \<open>Model: publication without replacement\<close>

text \<open>Creating, writing and verifying the stage; a failure after its creation drops it.\<close>

definition write_stage :: "nat \<Rightarrow> path \<Rightarrow> bytes \<Rightarrow> (PlainRootError, unit) fsop" where
  "write_stage torn stage bs =
     bindW (after_io (Inr ())) (\<lambda>_.
     bindW op_check (\<lambda>_.
     bindW (sys_write torn stage bs) (\<lambda>written.
     bindW (after_io written) (\<lambda>_.
     bindW op_check (\<lambda>_.
     bindW (sys (fs_handle ())) (\<lambda>flushed.
     bindW (after_io flushed) (\<lambda>_.
     bindW op_check (\<lambda>_.
     bindW (sys (fs_open stage)) (\<lambda>metadata.
     bindW (after_io metadata) (\<lambda>content.
     bindW (liftW (ok_or TooLarge (try_from u64_bound (length bs)))) (\<lambda>n.
     if length content \<noteq> n then failW Io
     else
       bindW op_check (\<lambda>_.
       bindW (sys (fs_handle ())) (\<lambda>synced.
       bindW (after_io synced) (\<lambda>_.
       bindW op_check (\<lambda>_.
       bindW (sys (fs_handle ())) (\<lambda>sought.
       bindW (after_io sought) (\<lambda>_.
       bindW (liftW (ok_or TooLarge (checked_add64 n 1))) (\<lambda>limit.
       bindW op_check (\<lambda>_.
       bindW (sys (fs_open stage)) (\<lambda>readback.
       bindW op_check (\<lambda>_.
       bindW (liftW (mapErr io_error readback)) (\<lambda>content.
       bindW (if take limit content \<noteq> bs then failW Corrupt else retW ()) (\<lambda>_.
       op_check)))))))))))))))))))))))"

text \<open>After \<open>persist_noclobber\<close>: a failure drops the stage and looks whether the destination is there anyway.\<close>

definition settle_persist :: "path \<Rightarrow> path \<Rightarrow> bytes \<Rightarrow> nat \<Rightarrow> IoErrorKind + unit \<Rightarrow> (PlainRootError, unit) fsop" where
  "settle_persist stage destination bs maximum persisted w =
     (case persisted of
        Inr _ \<Rightarrow> op_check w
      | Inl k \<Rightarrow>
          (case op_check w of
             (Inl e, w) \<Rightarrow> (Inl e, drop_stage stage w)
           | (Inr _, w) \<Rightarrow>
               bindW op_check (\<lambda>_.
               bindW (read_optional_bounded destination maximum) (\<lambda>existing.
               case existing of
                 Some existing \<Rightarrow> if existing = bs then retW () else failW AlreadyExists
               | None \<Rightarrow> failW (io_error k))) (drop_stage stage w)))"

definition finish_publish :: "path \<Rightarrow> path \<Rightarrow> bytes \<Rightarrow> nat \<Rightarrow> (PlainRootError, unit) fsop" where
  "finish_publish stage destination bs maximum =
     bindW op_check (\<lambda>_.
     bindW (read_optional_bounded destination maximum) (\<lambda>existing.
     case existing of
       None \<Rightarrow> failW Io
     | Some existing \<Rightarrow>
         if existing \<noteq> bs then failW Corrupt
         else bindW (remove_metadata_stage stage bs False) (\<lambda>_. sync_parent_directory destination)))"

definition publish_noclobber :: "nat \<Rightarrow> path \<Rightarrow> string \<Rightarrow> bytes \<Rightarrow> nat \<Rightarrow> (PlainRootError, unit) fsop" where
  "publish_noclobber torn destination stage_name bs maximum =
     bindW (liftW (ok_or TooLarge (try_from u64_bound (length bs)))) (\<lambda>n.
     if maximum < n then failW TooLarge
     else if destination = [] then failW InvalidPath
     else
       (let stage = butlast destination @ [stage_name] in
        bindW (read_optional_bounded destination maximum) (\<lambda>existing.
        case existing of
          Some existing \<Rightarrow>
            if existing \<noteq> bs then failW AlreadyExists
            else bindW (remove_metadata_stage stage bs False) (\<lambda>_. sync_parent_directory destination)
        | None \<Rightarrow>
            bindW (remove_metadata_stage stage bs True) (\<lambda>_.
            bindW op_check (\<lambda>_.
            bindW (sys (fs_create_new stage)) (\<lambda>created.
            bindW (case created of
                Inl k \<Rightarrow> after_io (Inl k)
              | Inr _ \<Rightarrow> with_stage stage (write_stage torn stage bs)) (\<lambda>_.
            bindW (sys_persist_noclobber stage destination bs) (\<lambda>persisted.
            bindW (settle_persist stage destination bs maximum persisted) (\<lambda>_.
            finish_publish stage destination bs maximum)))))))))"

definition valid_local_name :: "string \<Rightarrow> bool" where
  "valid_local_name name \<longleftrightarrow> name \<noteq> [] \<and> name \<noteq> ''.'' \<and> name \<noteq> ''..'' \<and> CHR ''/'' \<notin> set name"

definition OBJECT_DIR :: string where "OBJECT_DIR = ''objects''"

definition object_dir :: "path \<Rightarrow> path" where
  "object_dir root = root @ [OBJECT_DIR]"

definition publish_object_noclobber ::
  "nat \<Rightarrow> path \<Rightarrow> string \<Rightarrow> string \<Rightarrow> bytes \<Rightarrow> nat \<Rightarrow> (PlainRootError, unit) fsop" where
  "publish_object_noclobber torn root final_name stage_name bs maximum =
     (if \<not> valid_local_name final_name \<or> \<not> valid_local_name stage_name then failW InvalidPath
      else publish_noclobber torn (object_dir root @ [final_name]) stage_name bs maximum)"

end
