(* ===== verification/ObjectStore.thy ===== *)
theory ObjectStore
  imports PlainFiles Registry
begin

text \<open>
  The immutable object store (\<open>search-revision-store\<close>, \<open>lib.rs\<close>): objects are files of the
  object directory, named by format version, kind and digest. Storing publishes without replacing
  and reads back; reading verifies length and digest before any byte is returned. The hash is the
  parameter \<open>blake3\<close>. The claims: stored objects are read back, reading returns only verified
  bytes, and no operation under any failure ever changes an object that is already there.
\<close>

section \<open>Model\<close>

datatype ObjectStoreError =
  InvalidReference | Missing | NotRegularFile | IntegrityFailure | AllocationFailed
| ImmutableConflict | PublishFailed | ObjectIo | ObjectDeadline | ObjectCancelled

fun object_code :: "ObjectStoreError \<Rightarrow> string" where
  "object_code InvalidReference = ''OBJECT_REFERENCE_INVALID''"
| "object_code Missing = ''OBJECT_MISSING''"
| "object_code NotRegularFile = ''OBJECT_NOT_REGULAR_FILE''"
| "object_code IntegrityFailure = ''OBJECT_INTEGRITY_FAILURE''"
| "object_code AllocationFailed = ''OBJECT_ALLOCATION_FAILED''"
| "object_code ImmutableConflict = ''OBJECT_IMMUTABLE_CONFLICT''"
| "object_code PublishFailed = ''OBJECT_PUBLISH_FAILED''"
| "object_code ObjectIo = ''OBJECT_IO''"
| "object_code ObjectDeadline = ''OBJECT_DEADLINE''"
| "object_code ObjectCancelled = ''OBJECT_CANCELLED''"

definition object_check :: "(ObjectStoreError, unit) fsop" where
  "object_check = pollW (check_with ObjectCancelled ObjectDeadline)"

text \<open>Decimal digits, as \<open>format!\<close> prints an integer.\<close>

fun decimal :: "nat \<Rightarrow> string" where
  "decimal n = (if n < 10 then [char_of (48 + n)] else decimal (n div 10) @ [char_of (48 + n mod 10)])"

declare decimal.simps [simp del]

definition object_name :: "ObjectRef \<Rightarrow> nat \<Rightarrow> ObjectStoreError + string" where
  "object_name r maximum_bytes =
     (if format_version r \<noteq> SOURCE_OBJECT_FORMAT_VERSION \<or> maximum_bytes = 0 \<or> maximum_bytes < byte_length r
         \<or> obj_kind r = Source \<and> MAX_SOURCE_OBJECT_BYTES < byte_length r
      then Inl InvalidReference
      else Inr (''v'' @ decimal (format_version r) @ ''-'' @ kind_name (obj_kind r) @ ''-'' @ hex_encode (digest r)))"

definition object_reference :: "(bytes \<Rightarrow> bytes) \<Rightarrow> ObjectKind \<Rightarrow> bytes \<Rightarrow> nat \<Rightarrow> ObjectStoreError + ObjectRef" where
  "object_reference blake3 kind bs maximum_bytes =
     bindE (ok_or InvalidReference (try_from u64_bound (length bs))) (\<lambda>byte_length.
     if maximum_bytes < byte_length then Inl InvalidReference
     else
       (let d = blake3 bs;
            r = (case kind of Source \<Rightarrow> object_source d byte_length | Prepared \<Rightarrow> object_prepared d byte_length) in
        bindE (object_name r maximum_bytes) (\<lambda>_. Inr r)))"

definition read_object ::
  "(bytes \<Rightarrow> bytes) \<Rightarrow> path \<Rightarrow> ObjectRef \<Rightarrow> nat \<Rightarrow> (ObjectStoreError, bytes) fsop" where
  "read_object blake3 root r maximum_bytes =
     bindW object_check (\<lambda>_.
     bindW (liftW (object_name r maximum_bytes)) (\<lambda>name.
     let p = object_dir root @ [name] in
     bindW (sys (fs_stat p)) (\<lambda>metadata.
     bindW (case metadata of
         Inl NotFound \<Rightarrow> failW Missing
       | Inl _ \<Rightarrow> failW ObjectIo
       | Inr (FileEntry content) \<Rightarrow> retW (length content)
       | Inr _ \<Rightarrow> failW NotRegularFile) (\<lambda>len.
     if len \<noteq> byte_length r \<or> maximum_bytes < len then failW IntegrityFailure
     else
       bindW (sys (fs_open p)) (\<lambda>file.
       bindW (liftW (mapErr (\<lambda>_. ObjectIo) file)) (\<lambda>content.
       bindW (liftW (ok_or InvalidReference (checked_add64 (byte_length r) 1))) (\<lambda>limit.
       bindW (liftW (ok_or InvalidReference (try_from u64_bound (byte_length r)))) (\<lambda>capacity.
       bindW (pollW (reserve_with AllocationFailed)) (\<lambda>_.
       bindW (sys (fs_handle (take limit content))) (\<lambda>got.
       bindW (liftW (mapErr (\<lambda>_. ObjectIo) got)) (\<lambda>bs.
       bindW (if try_from u64_bound (length bs) \<noteq> Some (byte_length r) \<or> blake3 bs \<noteq> digest r
              then retW True
              else
                bindW (sys (fs_handle (length content))) (\<lambda>metadata.
                bindW (liftW (mapErr (\<lambda>_. ObjectIo) metadata)) (\<lambda>len. retW (len \<noteq> byte_length r)))) (\<lambda>bad.
       if bad then failW IntegrityFailure
       else bindW object_check (\<lambda>_. retW bs)))))))))))))"

fun publish_error :: "PlainRootError \<Rightarrow> ObjectStoreError" where
  "publish_error AlreadyExists = ImmutableConflict"
| "publish_error Deadline = ObjectDeadline"
| "publish_error Cancelled = ObjectCancelled"
| "publish_error _ = PublishFailed"

definition store_object ::
  "(bytes \<Rightarrow> bytes) \<Rightarrow> nat \<Rightarrow> path \<Rightarrow> ObjectKind \<Rightarrow> bytes \<Rightarrow> nat \<Rightarrow> (ObjectStoreError, ObjectRef) fsop" where
  "store_object blake3 torn root kind bs maximum_bytes =
     bindW object_check (\<lambda>_.
     bindW (liftW (object_reference blake3 kind bs maximum_bytes)) (\<lambda>r.
     bindW (liftW (object_name r maximum_bytes)) (\<lambda>name.
     let stage = ''.'' @ name @ ''.stage'' in
     bindW (mapErrW publish_error (publish_object_noclobber torn root name stage bs maximum_bytes)) (\<lambda>_.
     bindW (read_object blake3 root r maximum_bytes) (\<lambda>readback.
     if try_from u64_bound (length readback) \<noteq> Some (byte_length r) then failW IntegrityFailure
     else retW r)))))"

section \<open>Footprints\<close>

text \<open>
  What an operation does to the files, whether it succeeds or fails, as a reflexive and
  transitive relation; the rules follow the shape of a definition.
\<close>

definition touches :: "(files \<Rightarrow> files \<Rightarrow> bool) \<Rightarrow> ('e, 'a) fsop \<Rightarrow> bool" where
  "touches R m \<longleftrightarrow> (\<forall>w. R (fst w) (fst (snd (m w))))"

locale footprint =
  fixes R :: "files \<Rightarrow> files \<Rightarrow> bool"
  assumes refl: "R fs fs" and trans: "R a b \<Longrightarrow> R b c \<Longrightarrow> R a c"
begin

lemma ret_ok: "touches R (retW x)"
  by (simp add: touches_def retW_def refl)

lemma fail_ok: "touches R (failW e)"
  by (simp add: touches_def failW_def refl)

lemma lift_ok: "touches R (liftW r)"
  by (simp add: touches_def liftW_def refl)

lemma poll_ok: "touches R (pollW p)"
  by (simp add: touches_def pollW_def refl split: sum.splits)

lemma sys_ok: "(\<And>fs. R fs (snd (act fs))) \<Longrightarrow> touches R (sys act)"
  by (auto simp: touches_def sys_def refl split: prod.splits dest: arg_cong [of _ _ snd]) (metis snd_conv)

lemma bind_ok:
  assumes "touches R m" "\<And>x. touches R (f x)"
  shows "touches R (bindW m f)"
  unfolding touches_def
proof
  fix w
  obtain r w' where m: "m w = (r, w')" by (cases "m w")
  have 1: "R (fst w) (fst w')" using assms(1) m by (metis touches_def snd_conv)
  show "R (fst w) (fst (snd (bindW m f w)))"
  proof (cases r)
    case (Inl e)
    then show ?thesis using m 1 by (simp add: bindW_def)
  next
    case (Inr x)
    have "R (fst w') (fst (snd (f x w')))" using assms(2) [of x] unfolding touches_def by blast
    then show ?thesis using m 1 Inr trans by (auto simp: bindW_def)
  qed
qed

lemma mapErr_ok: "touches R m \<Longrightarrow> touches R (mapErrW g m)"
  by (simp add: touches_def mapErrW_def split_def)

lemma if_ok: "(b \<Longrightarrow> touches R m) \<Longrightarrow> (\<not> b \<Longrightarrow> touches R n) \<Longrightarrow> touches R (if b then m else n)"
  by simp

lemma option_ok: "touches R m \<Longrightarrow> (\<And>x. y = Some x \<Longrightarrow> touches R (f x)) \<Longrightarrow> touches R (case y of None \<Rightarrow> m | Some x \<Rightarrow> f x)"
  by (cases y) auto

lemma check_ok: "touches R op_check" "touches R object_check"
  by (simp_all add: op_check_def object_check_def poll_ok)

lemma after_io_ok: "touches R (after_io r)"
  unfolding after_io_def by (intro bind_ok check_ok lift_ok)

lemma stat_ok: "touches R (sys (fs_stat p))" "touches R (sys (fs_open p))" "touches R (sys (fs_open_dir p))"
    "touches R (sys (fs_handle x))"
  by (auto intro!: sys_ok simp: fs_stat_def fs_open_def fs_open_dir_def fs_handle_def refl)

lemma path_kind_ok: "touches R (path_kind p)"
  unfolding path_kind_def by (intro bind_ok check_ok stat_ok) (auto split: sum.splits IoErrorKind.splits intro!: bind_ok check_ok ret_ok fail_ok)

lemma read_optional_bounded_ok: "touches R (read_optional_bounded p maximum)"
  unfolding read_optional_bounded_def
  by (intro bind_ok path_kind_ok)
    (auto split: option.splits EntryKind.splits intro!: bind_ok check_ok ret_ok fail_ok lift_ok stat_ok after_io_ok)

lemma metadata_stage_matches_ok: "touches R (metadata_stage_matches p bs part)"
  unfolding metadata_stage_matches_def
  by (intro bind_ok path_kind_ok)
    (auto split: option.splits EntryKind.splits intro!: bind_ok ret_ok lift_ok read_optional_bounded_ok)

lemma sync_parent_directory_ok: "touches R (sync_parent_directory p)"
  unfolding sync_parent_directory_def by (intro if_ok fail_ok bind_ok check_ok stat_ok after_io_ok)

lemmas reading_ok = ret_ok fail_ok lift_ok poll_ok bind_ok mapErr_ok if_ok option_ok check_ok after_io_ok stat_ok
  path_kind_ok read_optional_bounded_ok metadata_stage_matches_ok sync_parent_directory_ok

lemma read_object_ok: "touches R (read_object blake3 root r m)"
  unfolding read_object_def Let_def
  by (intro reading_ok) (auto split: sum.splits IoErrorKind.splits FsEntry.splits intro!: reading_ok)

end

interpretation unchanged: footprint "(=)"
  by unfold_locales auto

text \<open>Publishing \<open>bs\<close> at \<open>dest\<close> through \<open>stage\<close>: nothing but these two paths changes, and \<open>dest\<close> only from absent to \<open>bs\<close>.\<close>

definition published :: "path \<Rightarrow> path \<Rightarrow> bytes \<Rightarrow> files \<Rightarrow> files \<Rightarrow> bool" where
  "published dest stage bs fs fs' \<longleftrightarrow>
     (\<forall>p. p \<noteq> stage \<longrightarrow> fs_get fs' p = fs_get fs p \<or>
        p = dest \<and> fs_get fs p = None \<and> fs_get fs' p = Some (FileEntry bs))"

lemma fs_get_put [simp]: "fs_get (fs_put p e fs) q = (if q = p then Some e else fs_get fs q)"
  by (simp add: fs_get_def fs_put_def update_conv')

lemma fs_get_del [simp]: "fs_get (fs_del p fs) q = (if q = p then None else fs_get fs q)"
  by (simp add: fs_get_def fs_del_def delete_conv')

lemma published_trans:
  assumes "published dest stage bs a b" "published dest stage bs b c"
  shows "published dest stage bs a c"
  unfolding published_def
proof (intro allI impI)
  fix p assume "p \<noteq> stage"
  then show "fs_get c p = fs_get a p \<or> p = dest \<and> fs_get a p = None \<and> fs_get c p = Some (FileEntry bs)"
    using assms [unfolded published_def] by (metis option.distinct(1))
qed

interpretation publishing: footprint "published dest stage bs"
  by unfold_locales (simp add: published_def, rule published_trans)

lemma remove_stage_ok: "touches (published dest stage bs) (remove_known_file stage)"
proof -
  have "published dest stage bs fs (snd (fs_remove_file stage fs))" for fs
    by (simp add: fs_remove_file_def published_def split: option.splits FsEntry.splits)
  then have rm: "touches (published dest stage bs) (sys (fs_remove_file stage))" by (rule publishing.sys_ok)
  show ?thesis unfolding remove_known_file_def
    by (intro publishing.bind_ok publishing.path_kind_ok)
      (simp split: option.splits EntryKind.splits sum.splits IoErrorKind.splits,
        intro conjI impI allI publishing.bind_ok publishing.check_ok rm publishing.ret_ok publishing.fail_ok,
        simp split: sum.splits IoErrorKind.splits add: publishing.ret_ok publishing.fail_ok)
qed

lemma remove_metadata_stage_ok: "touches (published dest stage bs) (remove_metadata_stage stage bs' part)"
  unfolding remove_metadata_stage_def by (intro publishing.reading_ok remove_stage_ok)

lemma drop_stage_ok: "published dest stage bs (fst w) (fst (drop_stage stage w))"
  by (auto simp: drop_stage_def published_def split: prod.splits)

lemma write_stage_ok: "touches (published dest stage bs) (write_stage torn stage bs')"
proof -
  have "touches (published dest stage bs) (sys_write torn stage bs')"
    by (auto simp: touches_def sys_write_def published_def split: prod.splits)
  then show ?thesis unfolding write_stage_def by (intro publishing.reading_ok)
qed

lemma with_stage_ok:
  assumes "touches (published dest stage bs) m"
  shows "touches (published dest stage bs) (with_stage stage m)"
  unfolding touches_def
proof
  fix w
  obtain r w' where m: "m w = (r, w')" by (cases "m w")
  then have "published dest stage bs (fst w) (fst w')" using assms by (metis touches_def snd_conv)
  then show "published dest stage bs (fst w) (fst (snd (with_stage stage m w)))"
    using m publishing.trans [OF _ drop_stage_ok] by (cases r) (auto simp: with_stage_def)
qed

lemma persist_ok: "touches (published dest stage bs) (sys_persist_noclobber stage dest bs)"
  by (auto simp: touches_def sys_persist_noclobber_def published_def Let_def split: prod.splits)

lemma settle_persist_ok: "touches (published dest stage bs) (settle_persist stage dest bs' maximum persisted)"
  unfolding touches_def
proof
  fix w
  define m where "m = (\<lambda>k. bindW op_check (\<lambda>_. bindW (read_optional_bounded dest maximum) (\<lambda>existing.
               case existing of
                 Some existing \<Rightarrow> if existing = bs' then retW () else failW AlreadyExists
               | None \<Rightarrow> failW (io_error k))))"
  have m: "touches (published dest stage bs) (m k)" for k
    unfolding m_def by (intro publishing.reading_ok)
  obtain r w' where c: "op_check w = (r, w')" by (cases "op_check w")
  have 1: "published dest stage bs (fst w) (fst w')" using publishing.check_ok(1) c by (metis touches_def snd_conv)
  have 2: "published dest stage bs (fst w) (fst (drop_stage stage w'))" using publishing.trans [OF 1 drop_stage_ok] .
  have 3: "published dest stage bs (fst w) (fst (snd (m k (drop_stage stage w'))))" for k
    using publishing.trans [OF 2] m [of k] unfolding touches_def by blast
  show "published dest stage bs (fst w) (fst (snd (settle_persist stage dest bs' maximum persisted w)))"
    unfolding settle_persist_def using c 1 2 3 [unfolded m_def] by (cases persisted; cases r) simp_all
qed

lemma finish_publish_ok: "touches (published dest stage bs) (finish_publish stage dest bs' maximum)"
  unfolding finish_publish_def by (intro publishing.reading_ok remove_metadata_stage_ok)

lemma publish_noclobber_ok:
  assumes "stage = butlast dest @ [stage_name]"
  shows "touches (published dest stage bs) (publish_noclobber torn dest stage_name bs maximum)"
proof -
  have create: "touches (published dest stage bs) (sys (fs_create_new stage))"
    by (rule publishing.sys_ok) (simp add: fs_create_new_def published_def)
  have staged: "touches (published dest stage bs) (case created of
        Inl k \<Rightarrow> after_io (Inl k) | Inr _ \<Rightarrow> with_stage stage (write_stage torn stage bs))"
    for created :: "IoErrorKind + unit"
    by (cases created) (simp_all add: publishing.after_io_ok with_stage_ok write_stage_ok)
  show ?thesis
    unfolding publish_noclobber_def Let_def assms [symmetric]
    by (intro publishing.reading_ok remove_metadata_stage_ok create staged persist_ok settle_persist_ok finish_publish_ok)
qed

section \<open>Results\<close>

lemma bindW_Inr: "bindW m f w = (Inr y, w') \<longleftrightarrow> (\<exists>x w1. m w = (Inr x, w1) \<and> f x w1 = (Inr y, w'))"
  by (auto simp: bindW_def split: sum.splits prod.splits)

lemma retW_eq [simp]: "retW x w = (r, w') \<longleftrightarrow> r = Inr x \<and> w' = w"
  by (auto simp: retW_def)

lemma failW_eq [simp]: "failW e w = (r, w') \<longleftrightarrow> r = Inl e \<and> w' = w"
  by (auto simp: failW_def)

lemma liftW_eq [simp]: "liftW x w = (r, w') \<longleftrightarrow> x = r \<and> w' = w"
  by (auto simp: liftW_def)

lemma mapErrW_Inr: "mapErrW g m w = (Inr x, w') \<longleftrightarrow> m w = (Inr x, w')"
  by (cases "m w") (auto simp: mapErrW_def mapErr_def split: sum.splits)

lemma bindW_lift: "bindW (liftW (Inr x)) f = f x" "bindW (liftW (Inl e)) f = failW e"
  by (rule ext, simp add: bindW_def liftW_def failW_def)+

lemma unchangedD: "touches (=) m \<Longrightarrow> m w = (r, w') \<Longrightarrow> fst w' = fst w"
  by (metis touches_def snd_conv)

lemma after_io_Inr: "after_io r w = (Inr x, w') \<Longrightarrow> r = Inr x \<and> fst w' = fst w"
  using unchangedD [OF unchanged.after_io_ok [of r], of w "Inr x" w']
  by (auto simp: after_io_def bindW_Inr mapErr_def split: sum.splits)

lemma sys_Inr: "sys act w = (Inr (Inr x), w') \<Longrightarrow> fst (act (fst w)) = Inr x \<and> fst w' = snd (act (fst w))"
  by (auto simp: sys_def split: prod.splits if_splits)

lemma sys_result: "sys act w = (r, w') \<Longrightarrow> \<exists>x. r = Inr x \<and> (x = Inl OtherIo \<or> x = fst (act (fst w)))"
  by (auto simp: sys_def split: prod.splits if_splits)

lemma path_kind_Inr:
  assumes "path_kind p w = (Inr k, w')"
  shows "k = map_option entry_kind (fs_get (fst w) p) \<and> fst w' = fst w"
proof -
  obtain u w1 r w2 where 1: "op_check w = (Inr u, w1)" "(sys (fs_stat p) :: (PlainRootError, _) fsop) w1 = (Inr r, w2)"
    "(case r of Inr e \<Rightarrow> bindW op_check (\<lambda>_. retW (Some (entry_kind e)))
      | Inl NotFound \<Rightarrow> bindW op_check (\<lambda>_. retW None)
      | Inl k \<Rightarrow> bindW op_check (\<lambda>_. failW (io_error k))) w2 = (Inr k, w')"
    using assms unfolding path_kind_def bindW_Inr by blast
  have f: "fst w1 = fst w" using unchangedD [OF unchanged.check_ok(1) 1(1)] .
  then show ?thesis using 1(3) sys_result [OF 1(2)] unchangedD [OF unchanged.path_kind_ok assms]
    by (auto simp: bindW_Inr fs_stat_def split: option.splits)
qed

lemma read_optional_bounded_Inr:
  assumes "read_optional_bounded p maximum w = (Inr r, w')"
  shows "fs_get (fst w) p = map_option FileEntry r \<and> fst w' = fst w"
proof -
  obtain k w1 where k: "path_kind p w = (Inr k, w1)" using assms by (auto simp: read_optional_bounded_def bindW_Inr)
  note K = path_kind_Inr [OF k]
  have same: "fst w' = fst w" using unchangedD [OF unchanged.read_optional_bounded_ok assms] .
  show ?thesis
  proof (cases k)
    case None
    then show ?thesis using K same assms k by (auto simp: read_optional_bounded_def bindW_def)
  next
    case (Some kind)
    have File: "k = Some File" using assms k Some by (cases kind) (auto simp: read_optional_bounded_def bindW_def)
    then obtain c where c: "fs_get (fst w) p = Some (FileEntry c)"
      using K by (cases "fs_get (fst w) p") (auto elim: entry_kind.elims)
    have "r = Some c"
      using assms k File c K
      by (auto simp: read_optional_bounded_def bindW_Inr res_simps fs_handle_def fs_open_def try_from_def split: if_splits
          dest!: after_io_Inr sys_Inr unchangedD [OF unchanged.check_ok(1)])
    then show ?thesis using c same by simp
  qed
qed

lemma remove_known_file_Inr:
  assumes "remove_known_file p w = (Inr (), w')"
  shows "fs_get (fst w') p = None \<and> (\<forall>q. q \<noteq> p \<longrightarrow> fs_get (fst w') q = fs_get (fst w) q)"
proof -
  obtain k w1 where k: "path_kind p w = (Inr k, w1)" using assms by (auto simp: remove_known_file_def bindW_Inr)
  note K = path_kind_Inr [OF k]
  show ?thesis
  proof (cases k)
    case None
    then show ?thesis using K assms k by (auto simp: remove_known_file_def bindW_def)
  next
    case (Some kind)
    have File: "k = Some File" using assms k Some by (cases kind) (auto simp: remove_known_file_def bindW_def)
    then obtain c where c: "fs_get (fst w) p = Some (FileEntry c)"
      using K by (cases "fs_get (fst w) p") (auto elim: entry_kind.elims)
    obtain u w2 r w3 v w4 where s: "op_check w1 = (Inr u, w2)" "(sys (fs_remove_file p) :: (PlainRootError, _) fsop) w2 = (Inr r, w3)"
      "op_check w3 = (Inr v, w4)"
      "(case r of Inr _ \<Rightarrow> retW () | Inl NotFound \<Rightarrow> retW () | Inl k \<Rightarrow> failW (io_error k)) w4 = (Inr (), w')"
      using assms k File by (auto simp: remove_known_file_def bindW_Inr)
    have fs: "fst w2 = fst w" "fst w4 = fst w3"
      using unchangedD [OF unchanged.check_ok(1) s(1)] unchangedD [OF unchanged.check_ok(1) s(3)] K by auto
    have r: "r = Inr ()" using s(4) sys_result [OF s(2)] fs c by (auto simp: fs_remove_file_def)
    then show ?thesis using s(4) sys_Inr [OF s(2) [unfolded r]] fs c by (auto simp: fs_remove_file_def)
  qed
qed

lemma remove_metadata_stage_Inr:
  assumes "remove_metadata_stage p bs part w = (Inr (), w')"
  shows "fs_get (fst w') p = None \<and> (\<forall>q. q \<noteq> p \<longrightarrow> fs_get (fst w') q = fs_get (fst w) q)"
proof -
  obtain b w1 where 1: "metadata_stage_matches p bs part w = (Inr b, w1)" "remove_known_file p w1 = (Inr (), w')"
    using assms by (auto simp: remove_metadata_stage_def bindW_Inr split: if_splits)
  show ?thesis using remove_known_file_Inr [OF 1(2)] unchangedD [OF unchanged.metadata_stage_matches_ok 1(1)] by simp
qed

lemma publish_noclobber_Inr:
  assumes "publish_noclobber torn dest stage_name bs maximum w = (Inr (), w')"
    "stage = butlast dest @ [stage_name]" "dest \<noteq> stage"
  shows "fs_get (fst w') dest = Some (FileEntry bs) \<and> fs_get (fst w') stage = None"
proof -
  have fin: "fs_get (fst w') dest = Some (FileEntry bs) \<and> fs_get (fst w') stage = None"
    if "read_optional_bounded dest maximum w1 = (Inr (Some bs), w2)" "remove_metadata_stage stage bs part w2 = (Inr (), w3)"
      "sync_parent_directory dest w3 = (Inr (), w')" for w1 w2 w3 part
    using read_optional_bounded_Inr [OF that(1)] remove_metadata_stage_Inr [OF that(2)]
      unchangedD [OF unchanged.sync_parent_directory_ok that(3)] assms(3) by simp
  have finish: ?thesis if "finish_publish stage dest bs maximum w1 = (Inr (), w')" for w1
    using that fin unfolding finish_publish_def
    by (auto simp: bindW_Inr split: option.splits if_splits)
  obtain r w1 where r: "read_optional_bounded dest maximum w = (Inr r, w1)"
    using assms(1) by (auto simp: publish_noclobber_def Let_def bindW_Inr split: if_splits)
  show ?thesis
  proof (cases r)
    case (Some c)
    then have "c = bs \<and> (\<exists>w2. remove_metadata_stage stage bs False w1 = (Inr (), w2) \<and>
        sync_parent_directory dest w2 = (Inr (), w'))"
      using assms(1) r unfolding publish_noclobber_def Let_def assms(2) [symmetric]
      by (auto simp: bindW_Inr split: if_splits)
    then show ?thesis using fin r Some by blast
  next
    case None
    have "\<exists>w1. finish_publish stage dest bs maximum w1 = (Inr (), w')"
      using assms(1) r None unfolding publish_noclobber_def Let_def assms(2) [symmetric]
      by (auto simp: bindW_Inr split: if_splits)
    then show ?thesis using finish by blast
  qed
qed

lemma quiet_ops [simp]:
  "object_check (fs, []) = (Inr (), (fs, []))" "pollW (reserve_with e) (fs, []) = (Inr (), (fs, []))"
  "sys act (fs, []) = (Inr (fst (act fs)), (snd (act fs), []))"
  by (simp_all add: object_check_def pollW_def sys_def io_fails_def split_def)

lemma bindW_step: "m w = (Inr x, w1) \<Longrightarrow> bindW m f w = f x w1" "m w = (Inl e, w1) \<Longrightarrow> bindW m f w = (Inl e, w1)"
  by (simp_all add: bindW_def)

text \<open>The bytes an object file must have.\<close>

definition verified :: "(bytes \<Rightarrow> bytes) \<Rightarrow> ObjectRef \<Rightarrow> bytes \<Rightarrow> bool" where
  "verified blake3 r bs \<longleftrightarrow> length bs = byte_length r \<and> blake3 bs = digest r"

lemma object_name_bound: "object_name r m = Inr name \<Longrightarrow> byte_length r \<le> m"
  by (auto simp: object_name_def split: if_splits)

lemma read_object_quiet:
  assumes "byte_length r + 1 < u64_bound"
  shows "read_object blake3 root r m (fs, []) =
    (bindE (object_name r m) (\<lambda>name.
       case fs_get fs (object_dir root @ [name]) of
         None \<Rightarrow> Inl Missing
       | Some (FileEntry bs) \<Rightarrow> if verified blake3 r bs then Inr bs else Inl IntegrityFailure
       | Some _ \<Rightarrow> Inl NotRegularFile), (fs, []))"
proof (cases "object_name r m")
  case (Inl e)
  then show ?thesis by (simp add: read_object_def bindW_def liftW_def)
next
  case (Inr name)
  have le: "byte_length r \<le> m" using object_name_bound [OF Inr] .
  show ?thesis
  proof (cases "fs_get fs (object_dir root @ [name])")
    case None
    then show ?thesis using Inr by (simp add: read_object_def Let_def bindW_def liftW_def failW_def fs_stat_def)
  next
    case (Some e)
    then show ?thesis using Inr le assms
      by (cases e) (auto simp: read_object_def Let_def bindW_def liftW_def failW_def retW_def fs_stat_def fs_open_def
          fs_handle_def verified_def checked_add64_def try_from_def)
  qed
qed

lemma read_object_Inr:
  assumes "read_object blake3 root r m w = (Inr bs, w')"
  shows "verified blake3 r bs \<and> fst w' = fst w \<and>
    (\<exists>name. object_name r m = Inr name \<and> fs_get (fst w) (object_dir root @ [name]) = Some (FileEntry bs))"
proof -
  obtain u w1 name where 1: "object_check w = (Inr u, w1)" "object_name r m = Inr name"
    using assms by (auto simp: read_object_def bindW_Inr)
  let ?p = "object_dir root @ [name]"
  have f1: "fst w1 = fst w" using unchangedD [OF unchanged.check_ok(2) 1(1)] .
  have le: "byte_length r \<le> m" using object_name_bound [OF 1(2)] .
  obtain c where c: "fs_get (fst w) ?p = Some (FileEntry c)" "length c = byte_length r" "bs = c" "blake3 c = digest r"
    using assms 1 f1 le
    by (auto simp: read_object_def bindW_Inr Let_def fs_handle_def fs_open_def fs_stat_def res_simps try_from_def
        mapErr_def checked_add64_def split: if_splits sum.splits IoErrorKind.splits FsEntry.splits option.splits
        dest!: sys_Inr unchangedD [OF unchanged.poll_ok])
  then show ?thesis using 1(2) unchangedD [OF unchanged.read_object_ok assms] by (auto simp: verified_def)
qed

section \<open>Reading under interruption\<close>

text \<open>An operation that only reads, as an operation on the environment over fixed files.\<close>

definition reads :: "files \<Rightarrow> ('e, 'a) fsop \<Rightarrow> env \<Rightarrow> 'e + 'a \<times> env" where
  "reads fs m env = (case m (fs, env) of (Inl e, _) \<Rightarrow> Inl e | (Inr x, w) \<Rightarrow> Inr (x, snd w))"

lemma reads_simps:
  "reads fs (retW x) = (\<lambda>env. Inr (x, env))" "reads fs (failW e) = (\<lambda>env. Inl e)"
  "reads fs (liftW r) = (\<lambda>env. bindE r (\<lambda>x. Inr (x, env)))"
  "reads fs (pollW p) = (\<lambda>env. bindE (p env) (\<lambda>env. Inr ((), env)))"
  by (auto simp: reads_def retW_def failW_def liftW_def pollW_def bindE_def split: sum.splits)

lemma reads_bind:
  assumes "touches (=) m"
  shows "reads fs (bindW m f) = (\<lambda>env. bindE (reads fs m env) (\<lambda>(x, env). reads fs (f x) env))"
proof
  fix env
  obtain r w where m: "m (fs, env) = (r, w)" by (cases "m (fs, env)")
  then have "fst w = fs" using unchangedD [OF assms m] by simp
  then show "reads fs (bindW m f) env = bindE (reads fs m env) (\<lambda>(x, env). reads fs (f x) env)"
    using m by (cases r; cases w) (simp_all add: reads_def bindW_def)
qed

lemma interruptible_sys:
  assumes "\<And>fs. snd (act fs) = fs" "\<And>env. reads fs (k (Inl OtherIo)) env = Inl e" "e \<in> I"
    "interruptible I (reads fs (k (fst (act fs))))"
  shows "interruptible I (reads fs (bindW (sys act) k))"
proof -
  have step: "bindW (sys act) k (fs, env) =
      (case io_fails env of (failed, env) \<Rightarrow> k (if failed then Inl OtherIo else fst (act fs)) (fs, env))" for env
    using assms(1) [of fs] by (cases "act fs"; cases "io_fails env") (simp add: bindW_def sys_def)
  have eq: "reads fs (bindW (sys act) k) env =
      (case io_fails env of (failed, env) \<Rightarrow> if failed then Inl e else reads fs (k (fst (act fs))) env)" for env
    using assms(2) [of "snd (io_fails env)"] step [of env] by (cases "io_fails env") (auto simp: reads_def)
  have "refines_quiet I (reads fs (bindW (sys act) k) env) (reads fs (bindW (sys act) k) [])" for env
    unfolding eq using assms(3,4) by (cases env) (auto simp: io_fails_def interruptible_def refines_quiet_def split: sum.splits)
  then show ?thesis by (simp add: interruptible_def)
qed

abbreviation object_interrupts :: "ObjectStoreError set" where
  "object_interrupts \<equiv> {ObjectCancelled, ObjectDeadline, AllocationFailed, ObjectIo}"

lemma object_check_interruptible: "interruptible object_interrupts (reads fs object_check)"
  unfolding object_check_def reads_simps by (intro interruptible_intros polls_check) auto

lemma reserve_interruptible: "interruptible object_interrupts (reads fs (pollW (reserve_with AllocationFailed)))"
  unfolding reads_simps by (intro interruptible_intros polls_reserve) auto

lemma interruptible_lift: "interruptible I (reads fs (liftW r))"
  unfolding reads_simps by (intro interruptible_intros)

lemma interruptible_bindW:
  assumes "touches (=) m" "interruptible I (reads fs m)" "\<And>x. interruptible I (reads fs (k x))"
  shows "interruptible I (reads fs (bindW m k))"
  unfolding reads_bind [OF assms(1)] by (intro interruptible_intros assms)

lemma interruptible_ifW:
  "(b \<Longrightarrow> interruptible I (reads fs m)) \<Longrightarrow> (\<not> b \<Longrightarrow> interruptible I (reads fs n)) \<Longrightarrow> interruptible I (reads fs (if b then m else n))"
  by simp

lemma interruptible_retW: "interruptible I (reads fs (retW x))" "interruptible I (reads fs (failW e))"
  unfolding reads_simps by (intro interruptible_intros)+

lemma reads_fail: "reads fs (bindW (failW e) k) env = Inl e" "reads fs (bindW (liftW (Inl e)) k) env = Inl e"
  by (simp_all add: reads_def bindW_def failW_def liftW_def)

lemma read_object_interruptible: "interruptible object_interrupts (reads fs (read_object blake3 root r m))"
proof -
  have t: "interruptible object_interrupts (reads fs
      (case x of Inl NotFound \<Rightarrow> failW Missing | Inl _ \<Rightarrow> failW ObjectIo
       | Inr (FileEntry content) \<Rightarrow> retW (length content) | Inr _ \<Rightarrow> failW NotRegularFile))" for x
    by (simp add: interruptible_retW split: sum.splits IoErrorKind.splits FsEntry.splits)
  have u: "touches (=)
      (case x of Inl NotFound \<Rightarrow> failW Missing | Inl _ \<Rightarrow> failW ObjectIo
       | Inr (FileEntry content) \<Rightarrow> retW (length content) | Inr _ \<Rightarrow> failW NotRegularFile)" for x
    by (simp add: unchanged.ret_ok unchanged.fail_ok split: sum.splits IoErrorKind.splits FsEntry.splits)
  note ok = unchanged.ret_ok unchanged.fail_ok unchanged.lift_ok unchanged.poll_ok unchanged.bind_ok unchanged.if_ok
    unchanged.check_ok unchanged.stat_ok u
  show ?thesis
    unfolding read_object_def Let_def
    by (intro interruptible_bindW object_check_interruptible interruptible_lift interruptible_ifW interruptible_retW
        reserve_interruptible ok interruptible_sys [where e = ObjectIo] t)
      (simp_all add: reads_fail fs_stat_def fs_open_def fs_handle_def interruptible_lift mapErr_def)
qed

section \<open>Properties\<close>

lemma object_reference_Inr:
  assumes "object_reference blake3 kind bs m = Inr r"
  shows "byte_length r = length bs \<and> digest r = blake3 bs \<and> obj_kind r = kind \<and> is_ok (object_name r m)"
  using assms by (cases kind) (auto simp: object_reference_def object_source_def object_prepared_def Let_def res_simps try_from_def
      is_ok_def split: if_splits)

lemma object_name_head: "object_name r m = Inr name \<Longrightarrow> \<exists>rest. name = CHR ''v'' # rest"
  by (auto simp: object_name_def split: if_splits)

text \<open>What storing leaves: the footprint of a publication at the object's own name.\<close>

lemma store_object_footprint:
  assumes "object_reference blake3 kind bs m = Inr r" "object_name r m = Inr name"
  shows "touches (published (object_dir root @ [name]) (object_dir root @ [''.'' @ name @ ''.stage'']) bs)
    (store_object blake3 torn root kind bs m)"
proof -
  let ?R = "published (object_dir root @ [name]) (object_dir root @ [''.'' @ name @ ''.stage'']) bs"
  have "touches ?R (publish_object_noclobber torn root name (''.'' @ name @ ''.stage'') bs m)"
    unfolding publish_object_noclobber_def
    by (intro publishing.if_ok publishing.fail_ok publish_noclobber_ok) simp
  then have body: "touches ?R (bindW (mapErrW publish_error (publish_object_noclobber torn root name (''.'' @ name @ ''.stage'') bs m)) (\<lambda>_.
     bindW (read_object blake3 root r m) (\<lambda>readback.
     if try_from u64_bound (length readback) \<noteq> Some (byte_length r) then failW IntegrityFailure else retW r)))"
    by (intro publishing.reading_ok publishing.read_object_ok)
  show ?thesis unfolding store_object_def assms(1) bindW_lift assms(2) Let_def
    by (intro publishing.bind_ok publishing.check_ok body)
qed

text \<open>
  C37: Reading an object is exact, on every branch: it returns the bytes of the object's file only
  if they have the length and the digest of the reference; a reference beyond the limits, a missing
  file, a path that is not a file and bytes that fail the verification give their own errors;
  cancellation, the deadline, a refused allocation and a failed system call only replace the
  result by their error. The files are never changed.
\<close>

theorem read_object_behaviour:
  assumes "byte_length r + 1 < u64_bound"
  shows "fst (snd (read_object blake3 root r m (fs, env))) = fs \<and>
    (fst (read_object blake3 root r m (fs, env)) =
       bindE (object_name r m) (\<lambda>name.
         case fs_get fs (object_dir root @ [name]) of
           None \<Rightarrow> Inl Missing
         | Some (FileEntry bs) \<Rightarrow> if verified blake3 r bs then Inr bs else Inl IntegrityFailure
         | Some _ \<Rightarrow> Inl NotRegularFile) \<or>
     fst (read_object blake3 root r m (fs, env)) \<in> Inl ` object_interrupts)"
proof -
  obtain res w where 1: "read_object blake3 root r m (fs, env) = (res, w)" by (cases "read_object blake3 root r m (fs, env)")
  have w: "fst w = fs" using unchangedD [OF unchanged.read_object_ok 1] by simp
  have "refines_quiet object_interrupts (reads fs (read_object blake3 root r m) env) (reads fs (read_object blake3 root r m) [])"
    using read_object_interruptible by (simp add: interruptible_def)
  then show ?thesis using 1 w read_object_quiet [OF assms, of blake3 root m fs]
    by (cases res) (auto simp: reads_def refines_quiet_def split: sum.splits)
qed

text \<open>
  C36: What was stored is read back: when \<open>store_object\<close> returned a reference, under whatever
  observations and torn writes on the way, the reference has the kind, length and digest of the
  stored bytes, and reading it gives exactly these bytes.
\<close>

theorem stored_object_is_read:
  assumes "store_object blake3 torn root kind bs m (fs, env) = (Inr r, (fs', env'))" "m + 1 < u64_bound"
  shows "obj_kind r = kind \<and> byte_length r = length bs \<and> digest r = blake3 bs \<and>
    read_object blake3 root r m (fs', []) = (Inr bs, (fs', []))"
proof -
  obtain name w1 where n: "object_reference blake3 kind bs m = Inr r" "object_name r m = Inr name"
    "\<exists>w. publish_object_noclobber torn root name (''.'' @ name @ ''.stage'') bs m w = (Inr (), w1)"
    "\<exists>c w2. read_object blake3 root r m w1 = (Inr c, w2) \<and> w2 = (fs', env')"
    using assms(1) by (fastforce simp: store_object_def bindW_Inr Let_def mapErrW_Inr split: if_splits)
  note R = object_reference_Inr [OF n(1)]
  have "fs_get (fst w1) (object_dir root @ [name]) = Some (FileEntry bs)"
    using n(3) publish_noclobber_Inr [where dest = "object_dir root @ [name]" and stage_name = "''.'' @ name @ ''.stage''"
        and bs = bs and torn = torn and maximum = m and w' = w1]
    by (auto simp: publish_object_noclobber_def split: if_splits)
  moreover have "fst w1 = fs'" using n(4) unchangedD [OF unchanged.read_object_ok] by fastforce
  moreover have "byte_length r + 1 < u64_bound" using object_name_bound [OF n(2)] assms(2) by simp
  ultimately show ?thesis using R n(2) by (simp add: read_object_quiet verified_def)
qed

text \<open>
  C35: Objects are immutable: storing any bytes, whether it succeeds, is refused, interrupted or
  fails half-way, leaves every object that could be read before readable with the same bytes, and
  changes no file but the new object and its stage.
\<close>

theorem objects_are_immutable:
  assumes "read_object blake3 root r m (fs, []) = (Inr c, w)" "m + 1 < u64_bound"
    and "store_object blake3 torn root kind bs m' (fs, env) = (res, (fs', env'))"
  shows "read_object blake3 root r m (fs', []) = (Inr c, (fs', [])) \<and>
    (\<forall>p e. fs_get fs p = Some e \<longrightarrow> fs_get fs' p = Some e \<or> (\<exists>name. p = object_dir root @ [''.'' @ name @ ''.stage'']))"
proof -
  have keep: "fs_get fs' p = Some e \<or> (\<exists>name. p = object_dir root @ [''.'' @ name @ ''.stage''])"
    if "fs_get fs p = Some e" for p e
  proof (cases "object_reference blake3 kind bs m'")
    case (Inl x)
    then have "touches (=) (store_object blake3 torn root kind bs m')"
      unfolding store_object_def Inl bindW_lift by (intro unchanged.bind_ok unchanged.check_ok unchanged.fail_ok)
    from unchangedD [OF this assms(3)] show ?thesis using that by simp
  next
    case (Inr r')
    obtain name where "object_name r' m' = Inr name"
      using object_reference_Inr [OF Inr] by (auto simp: is_ok_def split: sum.splits)
    then have "published (object_dir root @ [name]) (object_dir root @ [''.'' @ name @ ''.stage'']) bs fs fs'"
      using store_object_footprint [OF Inr, of name root torn] assms(3) by (metis fst_conv snd_conv touches_def)
    then show ?thesis using that by (auto simp: published_def)
  qed
  obtain name where n: "object_name r m = Inr name" "fs_get fs (object_dir root @ [name]) = Some (FileEntry c)"
    "verified blake3 r c" using read_object_Inr [OF assms(1)] by auto
  have "name \<noteq> ''.'' @ x @ ''.stage''" for x using object_name_head [OF n(1)] by auto
  then have "fs_get fs' (object_dir root @ [name]) = Some (FileEntry c)" using keep [OF n(2)] by auto
  moreover have "byte_length r + 1 < u64_bound" using object_name_bound [OF n(1)] assms(2) by simp
  ultimately show ?thesis using n keep by (simp add: read_object_quiet)
qed

section \<open>A concrete store\<close>

lemma quiet_root_ops [simp]: "op_check (fs, []) = (Inr (), (fs, []))" "drop_stage p (fs, []) = (fs_del p fs, [])"
  "sys_write torn p bs (fs, []) = (Inr (Inr ()), (fs_put p (FileEntry bs) fs, []))"
  by (simp_all add: op_check_def pollW_def drop_stage_def sys_write_def io_fails_def)

lemma quiet_after_io [simp]: "after_io r (fs, []) = (mapErr io_error r, (fs, []))"
  by (simp add: after_io_def bindW_def liftW_def)

lemma quiet_path_kind [simp]: "path_kind p (fs, []) = (Inr (map_option entry_kind (fs_get fs p)), (fs, []))"
  by (simp add: path_kind_def bindW_def fs_stat_def retW_def split: option.splits)

lemma quiet_read_optional [simp]:
  "fs_get fs p = None \<Longrightarrow> read_optional_bounded p m (fs, []) = (Inr None, (fs, []))"
  "fs_get fs p = Some (FileEntry bs) \<Longrightarrow> length bs \<le> m \<Longrightarrow> m + 1 < u64_bound \<Longrightarrow>
   read_optional_bounded p m (fs, []) = (Inr (Some bs), (fs, []))"
  by (simp_all add: read_optional_bounded_def bindW_def retW_def fs_open_def fs_handle_def liftW_def
      checked_add64_def try_from_def)

lemma quiet_remove_stage [simp]:
  "fs_get fs p = None \<Longrightarrow> remove_metadata_stage p bs part (fs, []) = (Inr (), (fs, []))"
  by (simp add: remove_metadata_stage_def metadata_stage_matches_def remove_known_file_def bindW_def retW_def)

lemma quiet_sync [simp]:
  "fs_get fs (butlast p) \<noteq> None \<Longrightarrow> p \<noteq> [] \<Longrightarrow> sync_parent_directory p (fs, []) = (Inr (), (fs, []))"
  by (simp add: sync_parent_directory_def bindW_def fs_open_dir_def fs_handle_def)

lemma quiet_write_stage [simp]:
  "length bs + 1 < u64_bound \<Longrightarrow> write_stage torn p bs (fs, []) = (Inr (), (fs_put p (FileEntry bs) fs, []))"
  by (simp add: write_stage_def bindW_def fs_handle_def fs_open_def liftW_def try_from_def checked_add64_def retW_def)

lemma publish_noclobber_quiet:
  assumes "fs_get fs (d @ [s]) = None" "fs_get fs (d @ [n]) = None" "fs_get fs d = Some DirEntry" "n \<noteq> s"
    "length bs \<le> m" "m + 1 < u64_bound"
  shows "publish_noclobber torn (d @ [n]) s bs m (fs, []) =
    (Inr (), (fs_del (d @ [s]) (fs_put (d @ [n]) (FileEntry bs) (fs_put (d @ [s]) (FileEntry bs)
       (fs_put (d @ [s]) (FileEntry []) fs))), []))"
proof -
  have ne: "d \<noteq> d @ [x]" "d @ [x] \<noteq> d" for x by auto
  show ?thesis using assms
    by (simp add: publish_noclobber_def bindW_def liftW_def try_from_def fs_create_new_def with_stage_def
        sys_persist_noclobber_def io_fails_def settle_persist_def finish_publish_def ne Let_def)
qed

definition ex_hash :: "bytes \<Rightarrow> bytes" where
  "ex_hash bs = replicate 32 (word_of_nat (length bs))"

definition ex_files :: files where
  "ex_files = [([''objects''], DirEntry)]"

definition ex_ref :: ObjectRef where
  "ex_ref = object_source (replicate 32 2) 2"

definition ex_name :: string where
  "ex_name = ''v1-source-'' @ hex_encode (replicate 32 2)"

lemma decimal_1: "decimal 1 = ''1''"
  by code_simp

lemma ex_named: "object_name ex_ref 100 = Inr ex_name" "object_reference ex_hash Source [104, 105] 100 = Inr ex_ref"
  by (simp_all add: object_name_def object_reference_def ex_ref_def ex_name_def object_source_def ex_hash_def
      SOURCE_OBJECT_FORMAT_VERSION_def decimal_1 [simplified] MAX_SOURCE_OBJECT_BYTES_def try_from_def)

lemma hex_encode_no_slash: "CHR ''/'' \<notin> set (hex_encode bs)"
proof
  assume "CHR ''/'' \<in> set (hex_encode bs)"
  then obtain b where b: "b \<in> set (hex_bytes bs)" "char_of (unat b) = CHR ''/''" by (auto simp: hex_encode_def of_bytes_def)
  then have "word_of_nat (of_char (char_of (unat b) :: char)) = (47 :: byte)" by simp
  then have "b = 47" by (metis as_bytes_def as_bytes_of_bytes list.map(1,2) list.inject of_bytes_def)
  then show False using hex_bytes_is_hex [OF b(1)] by (simp add: is_hex_def is_ascii_digit_def is_lower_af_def)
qed

lemma ex_names_valid: "valid_local_name ex_name" "valid_local_name (''.'' @ ex_name @ ''.stage'')"
  using hex_encode_no_slash by (simp_all add: valid_local_name_def ex_name_def)

definition ex_stored :: files where
  "ex_stored = fs_del [''objects'', ''.'' @ ex_name @ ''.stage''] (fs_put [''objects'', ex_name] (FileEntry [104, 105])
     (fs_put [''objects'', ''.'' @ ex_name @ ''.stage''] (FileEntry [104, 105])
     (fs_put [''objects'', ''.'' @ ex_name @ ''.stage''] (FileEntry []) ex_files)))"

lemma ex_publish: "publish_object_noclobber torn [] ex_name (''.'' @ ex_name @ ''.stage'') [104, 105] 100 (ex_files, []) =
    (Inr (), (ex_stored, []))"
proof -
  have "ex_name \<noteq> ''.'' @ ex_name @ ''.stage''" by (simp add: ex_name_def)
  then show ?thesis using ex_names_valid publish_noclobber_quiet [of ex_files "[''objects'']" "''.'' @ ex_name @ ''.stage''" ex_name "[104, 105]" 100 torn]
    by (simp add: publish_object_noclobber_def object_dir_def OBJECT_DIR_def ex_files_def ex_stored_def fs_get_def)
qed

lemma ex_get: "fs_get ex_stored [''objects'', ex_name] = Some (FileEntry [104, 105])"
proof -
  have "ex_name \<noteq> ''.'' @ ex_name @ ''.stage''" by (simp add: ex_name_def)
  then show ?thesis by (simp add: ex_stored_def)
qed

lemma ex_read: "read_object ex_hash [] ex_ref 100 (ex_stored, []) = (Inr [104, 105], (ex_stored, []))"
  using ex_get ex_named(1)
  by (subst read_object_quiet)
    (simp_all add: ex_ref_def object_source_def object_dir_def OBJECT_DIR_def verified_def ex_hash_def)

lemma ex_store: "store_object ex_hash torn [] Source [104, 105] 100 (ex_files, []) = (Inr ex_ref, (ex_stored, []))"
  using ex_named ex_publish ex_read
  by (simp add: store_object_def bindW_def liftW_def Let_def mapErrW_def try_from_def retW_def)
    (simp add: ex_ref_def object_source_def)

theorem read_object_behaviour_witness:
  "byte_length ex_ref = 2 \<and> fs_get ex_stored [''objects'', ex_name] = Some (FileEntry [104, 105]) \<and>
   fst (snd (read_object ex_hash [] ex_ref 100 (ex_stored, []))) = ex_stored"
  using read_object_behaviour [of ex_ref ex_hash "[]" 100 ex_stored "[]"] ex_get by (simp add: ex_ref_def object_source_def)

theorem stored_object_is_read_witness:
  "store_object ex_hash 0 [] Source [104, 105] 100 (ex_files, []) = (Inr ex_ref, (ex_stored, [])) \<and>
   read_object ex_hash [] ex_ref 100 (ex_stored, []) = (Inr [104, 105], (ex_stored, []))"
  using stored_object_is_read [OF ex_store [of 0]] ex_store [of 0] by simp

theorem objects_are_immutable_witness:
  "\<exists>res fs' env'. store_object ex_hash 0 [] Source [1, 2, 3] 100 (ex_stored, []) = (res, (fs', env')) \<and>
     read_object ex_hash [] ex_ref 100 (fs', []) = (Inr [104, 105], (fs', []))"
proof -
  obtain res fs' env' where s: "store_object ex_hash 0 [] Source [1, 2, 3] 100 (ex_stored, []) = (res, (fs', env'))"
    by (metis prod.collapse)
  from objects_are_immutable [OF ex_read _ s] show ?thesis using s by simp
qed

end
