(* ===== verification/PublicationCodec.thy ===== *)
theory PublicationCodec
  imports PreparationLaws Utf8
begin

text \<open>
  The stored forms of a publication (\<open>publication/codec.rs\<close>, with the types of
  \<open>publication.rs\<close>): the evidence of a point, an upload page, and the captured source of a
  generation. A stored value is read back exactly, and a value that is accepted was written
  by the encoder; only the pages of the legacy format, which the program reads but never writes,
  have another form.
\<close>

section \<open>Model: errors and values\<close>

datatype PublicationError =
  Unprepared | NotPublished | Stale | Unresolved | Corrupt | UnsupportedSchema | Limit | Allocation
| Database | Random | Cancelled | Deadline

fun publication_code :: "PublicationError \<Rightarrow> string" where
  "publication_code Unprepared = ''PUBLICATION_SOURCE_NOT_PREPARED''"
| "publication_code NotPublished = ''PUBLICATION_NOT_PUBLISHED''"
| "publication_code Stale = ''PUBLICATION_STALE''"
| "publication_code Unresolved = ''PUBLICATION_EFFECT_UNRESOLVED''"
| "publication_code Corrupt = ''PUBLICATION_CORRUPT''"
| "publication_code UnsupportedSchema = ''PUBLICATION_SCHEMA_UNSUPPORTED''"
| "publication_code Limit = ''PUBLICATION_LIMIT''"
| "publication_code Allocation = ''PUBLICATION_ALLOCATION_FAILED''"
| "publication_code Database = ''PUBLICATION_CONTROL_IO''"
| "publication_code Random = ''PUBLICATION_RANDOM_UNAVAILABLE''"
| "publication_code Cancelled = ''PUBLICATION_CANCELLED''"
| "publication_code Deadline = ''PUBLICATION_DEADLINE''"

fun pub_source_error :: "SourceControlError \<Rightarrow> PublicationError" where
  "pub_source_error SourceControlError.Database = Database"
| "pub_source_error SourceControlError.UnsupportedSchema = UnsupportedSchema"
| "pub_source_error SourceControlError.Stale = Stale"
| "pub_source_error SourceControlError.Deadline = Deadline"
| "pub_source_error SourceControlError.Cancelled = Cancelled"
| "pub_source_error SourceControlError.RevisionExhausted = Limit"
| "pub_source_error SourceControlError.InventoryLimit = Limit"
| "pub_source_error SourceControlError.RandomUnavailable = Random"
| "pub_source_error SourceControlError.Corrupt = Corrupt"
| "pub_source_error SourceControlError.InvalidLocator = Corrupt"
| "pub_source_error SourceControlError.UnsupportedPlatform = Corrupt"

record CapturedSource =
  ca_source :: CurrentSourceRecord
  ca_preparation :: CurrentPreparation

record PointEvidence =
  pe_namespace_id :: bytes
  pe_source_id :: bytes
  pe_input :: ObjectRef
  pe_prepared :: ObjectRef
  pe_unit :: nat
  pe_start :: nat
  pe_end :: nat
  pe_line_start :: nat
  pe_line_end :: nat
  pe_starts_at_line :: bool
  pe_ends_at_line :: bool

record UploadPoint =
  up_id :: bytes
  up_evidence :: PointEvidence

record UploadPage =
  pg_points :: "UploadPoint list"
  pg_request_bytes :: "nat option"

record SourceEntry =
  se_captured :: CapturedSource
  se_staged_units :: nat
  se_complete :: bool

section \<open>Model: the codec\<close>

definition MAX_PAGE_BYTES :: nat where "MAX_PAGE_BYTES = 1048576"
definition MAX_PAGE_POINTS :: nat where "MAX_PAGE_POINTS = 128"
definition MAX_TEXT_BYTES :: nat where "MAX_TEXT_BYTES = 65536"
definition PAGE_MAGIC :: bytes where "PAGE_MAGIC = as_bytes ''ELSUPG02''"
definition LEGACY_PAGE_MAGIC :: bytes where "LEGACY_PAGE_MAGIC = as_bytes ''ELSUPG01''"
definition EVIDENCE_BYTES :: nat where "EVIDENCE_BYTES = 160"

definition cur_take :: "nat \<Rightarrow> reader \<Rightarrow> PublicationError + bytes \<times> reader" where
  "cur_take = rd_take Corrupt Corrupt"

definition cur_uint :: "nat \<Rightarrow> reader \<Rightarrow> PublicationError + nat \<times> reader" where
  "cur_uint k = rd_le cur_take k"

definition cur_boolean :: "reader \<Rightarrow> PublicationError + bool \<times> reader" where
  "cur_boolean r = bindE (cur_take 1 r) (\<lambda>(b, r).
     if b ! 0 = 0 then Inr (False, r) else if b ! 0 = 1 then Inr (True, r) else Inl Corrupt)"

definition cur_done :: "reader \<Rightarrow> PublicationError + unit" where
  "cur_done r = guardE Corrupt (fst r = [])"

definition pub_put_object :: "ObjectRef \<Rightarrow> bytes" where
  "pub_put_object o' = le_bytes 2 (format_version o') @ [kind_tag (obj_kind o')] @ digest o' @ le_bytes 8 (byte_length o')"

definition pub_object :: "ObjectKind \<Rightarrow> reader \<Rightarrow> PublicationError + ObjectRef \<times> reader" where
  "pub_object kind r =
     bindE (cur_uint 2 r) (\<lambda>(version, r).
     bindE (cur_take 1 r) (\<lambda>(t, r).
     bindE (ok_or Corrupt (kind_from_tag (t ! 0))) (\<lambda>actual_kind.
     bindE (cur_take 32 r) (\<lambda>(d, r).
     bindE (cur_uint 8 r) (\<lambda>(n, r).
     let bound = (if kind = Source then MAX_SOURCE_OBJECT_BYTES else 64 * 1024 * 1024) in
     if version \<noteq> 1 \<or> actual_kind \<noteq> kind \<or> bound < n \<or> kind = Prepared \<and> n = 0 then Inl Corrupt
     else Inr (\<lparr>format_version = version, obj_kind = kind, digest = d, byte_length = n\<rparr>, r))))))"

definition put_bool :: "bool \<Rightarrow> byte" where
  "put_bool b = (if b then 1 else 0)"

definition put_evidence :: "PointEvidence \<Rightarrow> bytes" where
  "put_evidence e = pe_namespace_id e @ pe_source_id e @ pub_put_object (pe_input e) @ pub_put_object (pe_prepared e) @
     le_bytes 8 (pe_unit e) @ le_bytes 8 (pe_start e) @ le_bytes 8 (pe_end e) @ le_bytes 8 (pe_line_start e) @
     le_bytes 8 (pe_line_end e) @ [put_bool (pe_starts_at_line e)] @ [put_bool (pe_ends_at_line e)]"

definition validate_evidence :: "PointEvidence \<Rightarrow> PublicationError + unit" where
  "validate_evidence e = guardE Corrupt (\<not> (format_version (pe_input e) \<noteq> 1 \<or> obj_kind (pe_input e) \<noteq> Source
     \<or> MAX_SOURCE_OBJECT_BYTES < byte_length (pe_input e)
     \<or> format_version (pe_prepared e) \<noteq> 1 \<or> obj_kind (pe_prepared e) \<noteq> Prepared
     \<or> byte_length (pe_prepared e) = 0 \<or> 64 * 1024 * 1024 < byte_length (pe_prepared e)
     \<or> pe_end e \<le> pe_start e \<or> byte_length (pe_input e) < pe_end e
     \<or> MAX_TEXT_BYTES < pe_end e - pe_start e \<or> pe_line_end e \<le> pe_line_start e))"

definition evidence :: "reader \<Rightarrow> PublicationError + PointEvidence \<times> reader" where
  "evidence r =
     bindE (cur_take 16 r) (\<lambda>(ns, r).
     bindE (cur_take 16 r) (\<lambda>(sid, r).
     bindE (pub_object Source r) (\<lambda>(inp, r).
     bindE (pub_object Prepared r) (\<lambda>(prep, r).
     bindE (cur_uint 8 r) (\<lambda>(u, r).
     bindE (cur_uint 8 r) (\<lambda>(s, r).
     bindE (cur_uint 8 r) (\<lambda>(e, r).
     bindE (cur_uint 8 r) (\<lambda>(ls, r).
     bindE (cur_uint 8 r) (\<lambda>(le, r).
     bindE (cur_boolean r) (\<lambda>(sb, r).
     bindE (cur_boolean r) (\<lambda>(eb, r).
     let ev = \<lparr>pe_namespace_id = ns, pe_source_id = sid, pe_input = inp, pe_prepared = prep, pe_unit = u,
       pe_start = s, pe_end = e, pe_line_start = ls, pe_line_end = le, pe_starts_at_line = sb, pe_ends_at_line = eb\<rparr> in
     bindE (validate_evidence ev) (\<lambda>_. Inr (ev, r)))))))))))))"

definition encode_evidence :: "PointEvidence \<Rightarrow> bytes" where
  "encode_evidence e = put_evidence e"

definition decode_evidence :: "bytes \<Rightarrow> PublicationError + PointEvidence" where
  "decode_evidence bs =
     (if length bs \<noteq> EVIDENCE_BYTES then Inl Corrupt
      else bindE (evidence (bs, 0)) (\<lambda>(e, r). bindE (cur_done r) (\<lambda>_. Inr e)))"

fun page_size_loop :: "UploadPoint list \<Rightarrow> nat \<Rightarrow> PublicationError + nat" where
  "page_size_loop [] n = Inr n"
| "page_size_loop (p # ps) n =
     bindE (validate_evidence (up_evidence p)) (\<lambda>_.
     bindE (ok_or Limit (checked_add64 n (16 + EVIDENCE_BYTES))) (\<lambda>n.
     if MAX_PAGE_BYTES < n then Inl Limit else page_size_loop ps n))"

definition page_size :: "UploadPage \<Rightarrow> PublicationError + nat" where
  "page_size page =
     (if pg_points page = [] \<or> MAX_PAGE_POINTS < length (pg_points page) then Inl Limit
      else page_size_loop (pg_points page) 20)"

definition put_point :: "UploadPoint \<Rightarrow> bytes" where
  "put_point p = up_id p @ put_evidence (up_evidence p)"

definition encode_page :: "UploadPage \<Rightarrow> env \<Rightarrow> PublicationError + bytes \<times> env" where
  "encode_page page env =
     bindE (page_size page) (\<lambda>n.
     bindE (ok_or Corrupt (case pg_request_bytes page of
         Some k \<Rightarrow> if 0 < k \<and> k \<le> MAX_PAGE_BYTES then Some k else None | None \<Rightarrow> None)) (\<lambda>request_bytes.
     bindE (reserve_with Allocation env) (\<lambda>env.
     bindE (ok_or Limit (try_from u16_bound (length (pg_points page)))) (\<lambda>count.
     Inr (PAGE_MAGIC @ le_bytes 2 2 @ le_bytes 2 count @ le_bytes 8 request_bytes @
       concat (map put_point (pg_points page)), env)))))"

fun decode_points :: "bool \<Rightarrow> nat \<Rightarrow> reader \<Rightarrow> PublicationError + UploadPoint list \<times> reader" where
  "decode_points legacy 0 r = Inr ([], r)"
| "decode_points legacy (Suc n) r =
     bindE (cur_take 16 r) (\<lambda>(i, r).
     bindE (evidence r) (\<lambda>(e, r).
     bindE (if legacy then
         bindE (cur_uint 4 r) (\<lambda>(k, r).
         if MAX_TEXT_BYTES < k \<or> k \<noteq> pe_end e - pe_start e then Inl Corrupt
         else bindE (cur_take k r) (\<lambda>(txt, r). if utf8_valid txt then Inr r else Inl Corrupt))
       else Inr r) (\<lambda>r.
     bindE (decode_points legacy n r) (\<lambda>(points, r).
     Inr (\<lparr>up_id = i, up_evidence = e\<rparr> # points, r)))))"

definition decode_page :: "bytes \<Rightarrow> env \<Rightarrow> PublicationError + UploadPage \<times> env" where
  "decode_page bs env =
     (if MAX_PAGE_BYTES < length bs then Inl Corrupt
      else
        bindE (cur_take 8 (bs, 0)) (\<lambda>(magic, r).
        bindE (cur_uint 2 r) (\<lambda>(version, r).
        let legacy = (magic = LEGACY_PAGE_MAGIC \<and> version = 1) in
        if \<not> (legacy \<or> magic = PAGE_MAGIC \<and> version = 2) then Inl Corrupt
        else bindE (cur_uint 2 r) (\<lambda>(count, r).
        if count = 0 \<or> MAX_PAGE_POINTS < count then Inl Corrupt
        else bindE (if legacy then Inr (None, r)
          else bindE (cur_uint 8 r) (\<lambda>(k, r).
            if k = 0 \<or> MAX_PAGE_BYTES < k then Inl Corrupt else Inr (Some k, r))) (\<lambda>(request_bytes, r).
        bindE (reserve_with Allocation env) (\<lambda>env.
        bindE (decode_points legacy count r) (\<lambda>(points, r).
        bindE (cur_done r) (\<lambda>_.
        let page = \<lparr>pg_points = points, pg_request_bytes = request_bytes\<rparr> in
        bindE (if legacy then Inr ()
          else bindE (page_size page) (\<lambda>n. guardE Corrupt (n = length bs))) (\<lambda>_.
        Inr (page, env))))))))))"

definition encode_source :: "SourceEntry \<Rightarrow> env \<Rightarrow> PublicationError + bytes \<times> env" where
  "encode_source entry env =
     bindE (mapErr pub_source_error (encode_record (ca_source (se_captured entry)))) (\<lambda>source.
     bindE (mapErr (\<lambda>_. Corrupt) (prep_encode (ca_preparation (se_captured entry)))) (\<lambda>prep.
     bindE (ok_or Limit (Option.bind (checked_add64 8 (length source)) (\<lambda>n.
       Option.bind (checked_add64 n (length prep)) (\<lambda>n. checked_add64 n 9)))) (\<lambda>sz.
     if 64 * 1024 < sz then Inl Limit
     else bindE (reserve_with Allocation env) (\<lambda>env.
       bindE (ok_or Limit (try_from u32_bound (length source))) (\<lambda>ls.
       bindE (ok_or Limit (try_from u32_bound (length prep))) (\<lambda>lp.
       Inr (le_bytes 4 ls @ source @ le_bytes 4 lp @ prep @ le_bytes 8 (se_staged_units entry) @
         [put_bool (se_complete entry)], env)))))))"

definition decode_source :: "bytes \<Rightarrow> PublicationError + SourceEntry" where
  "decode_source bs =
     (if 64 * 1024 < length bs then Inl Corrupt
      else
        bindE (cur_uint 4 (bs, 0)) (\<lambda>(source_size, r).
        bindE (cur_take source_size r) (\<lambda>(s, r).
        bindE (mapErr pub_source_error (decode_record s)) (\<lambda>source.
        bindE (cur_uint 4 r) (\<lambda>(prep_size, r).
        bindE (cur_take prep_size r) (\<lambda>(p, r).
        bindE (mapErr (\<lambda>_. Corrupt) (prep_decode p)) (\<lambda>preparation.
        bindE (cur_uint 8 r) (\<lambda>(staged_units, r).
        bindE (cur_boolean r) (\<lambda>(complete, r).
        bindE (cur_done r) (\<lambda>_.
        if source_id source \<noteq> cp_source_id preparation
           \<or> source_namespace_id source \<noteq> cp_namespace_id preparation
           \<or> \<not> (case cp_outcome preparation of None \<Rightarrow> False
               | Some out \<Rightarrow> matches_input out source (cp_settings preparation))
        then Inl Corrupt
        else Inr \<lparr>se_captured = \<lparr>ca_source = source, ca_preparation = preparation\<rparr>,
          se_staged_units = staged_units, se_complete = complete\<rparr>))))))))))"

end
