(* ===== verification/PublicationLaws.thy ===== *)
theory PublicationLaws
  imports PublicationCodec
begin

text \<open>
  Laws of the stored publication values: points, pages and captured sources are read back
  exactly as they were written. Captured sources and evidence are instances of \<open>codec\<close>
  (\<open>SourceLaws\<close>) in an environment that does not refuse memory.
\<close>

section \<open>The cursor\<close>

lemma cur_take_app [codec_simps]:
  "length c = n \<Longrightarrow> pos + n < u64_bound \<Longrightarrow> cur_take n (c @ rest, pos) = Inr (c, (rest, pos + n))"
  unfolding cur_take_def by (rule rd.rtake_app)

lemma cur_uint_app [codec_simps]:
  "v < 256 ^ k \<Longrightarrow> pos + k < u64_bound \<Longrightarrow> cur_uint k (le_bytes k v @ rest, pos) = Inr (v, (rest, pos + k))"
  unfolding cur_uint_def cur_take_def by (rule rd.rtake_word)

lemma cur_boolean_app [codec_simps]:
  "pos + 1 < u64_bound \<Longrightarrow> cur_boolean (put_bool b # rest, pos) = Inr (b, (rest, pos + 1))"
  using cur_take_app [of "[put_bool b]" 1 pos rest] by (simp add: cur_boolean_def put_bool_def)

lemma cur_take_Inr: "cur_take n r = Inr (c, r') \<Longrightarrow> length c = n \<and> fst r = c @ fst r'"
  unfolding cur_take_def using rd.rtake_Inr by (cases r) fastforce

lemma cur_uint_Inr: "cur_uint k r = Inr (v, r') \<Longrightarrow> v < 256 ^ k \<and> fst r = le_bytes k v @ fst r'"
  unfolding cur_uint_def cur_take_def using rd.rtake_word_Inr by (cases r) fastforce

lemma cur_boolean_Inr: "cur_boolean r = Inr (b, r') \<Longrightarrow> fst r = put_bool b # fst r'"
  by (auto simp: cur_boolean_def put_bool_def res_simps length_Suc_conv split: if_splits dest!: cur_take_Inr)

lemmas cur_Inr = cur_take_Inr cur_uint_Inr cur_boolean_Inr

section \<open>Objects and evidence\<close>

definition object_bound :: "ObjectKind \<Rightarrow> nat" where
  "object_bound kind = (if kind = Source then MAX_SOURCE_OBJECT_BYTES else 64 * 1024 * 1024)"

definition pub_object_ok :: "ObjectKind \<Rightarrow> ObjectRef \<Rightarrow> bool" where
  "pub_object_ok kind o' \<longleftrightarrow> format_version o' = 1 \<and> obj_kind o' = kind \<and> length (digest o') = 32 \<and>
     byte_length o' \<le> object_bound kind \<and> (kind = Prepared \<longrightarrow> byte_length o' \<noteq> 0)"

lemma object_bound_small: "object_bound kind < 256 ^ 8"
  by (simp add: object_bound_def MAX_SOURCE_OBJECT_BYTES_def)

lemma pub_object_app:
  assumes "pub_object_ok kind o'" "pos + 43 < u64_bound"
  shows "pub_object kind (pub_put_object o' @ rest, pos) = Inr (o', (rest, pos + 43))"
proof -
  have b: "byte_length o' < 256 ^ 8"
    using assms(1) object_bound_small [of kind] by (simp add: pub_object_ok_def)
  have e: "\<lparr>format_version = 1, obj_kind = kind, digest = digest o', byte_length = byte_length o'\<rparr> = o'"
    using assms(1) by (simp add: pub_object_ok_def)
  show ?thesis using assms b
    unfolding pub_object_def pub_put_object_def append_assoc
    by (simp add: pub_object_ok_def cur_uint_app cur_take_app [of "[t]" 1 for t, simplified] cur_take_app Let_def
        object_bound_def e split del: if_split)
      (auto simp: object_bound_def intro!: ObjectRef.equality)
qed

lemma pub_object_Inr:
  assumes "pub_object kind r = Inr (o', r')"
  shows "pub_object_ok kind o' \<and> fst r = pub_put_object o' @ fst r'"
  using assms unfolding pub_object_def
  by (auto simp: res_simps Let_def pub_object_ok_def pub_put_object_def object_bound_def length_Suc_conv
      split: if_splits dest!: cur_Inr kind_from_tag_Some)

definition wf_evidence :: "PointEvidence \<Rightarrow> bool" where
  "wf_evidence e \<longleftrightarrow> length (pe_namespace_id e) = 16 \<and> length (pe_source_id e) = 16 \<and>
     length (digest (pe_input e)) = 32 \<and> length (digest (pe_prepared e)) = 32 \<and>
     pe_unit e < u64_bound \<and> pe_line_start e < u64_bound \<and> pe_line_end e < u64_bound"

lemma validate_evidence_iff:
  "validate_evidence e = Inr u \<longleftrightarrow>
     format_version (pe_input e) = 1 \<and> obj_kind (pe_input e) = Source \<and>
     byte_length (pe_input e) \<le> MAX_SOURCE_OBJECT_BYTES \<and>
     format_version (pe_prepared e) = 1 \<and> obj_kind (pe_prepared e) = Prepared \<and>
     byte_length (pe_prepared e) \<noteq> 0 \<and> byte_length (pe_prepared e) \<le> 64 * 1024 * 1024 \<and>
     pe_start e < pe_end e \<and> pe_end e \<le> byte_length (pe_input e) \<and>
     pe_end e - pe_start e \<le> MAX_TEXT_BYTES \<and> pe_line_start e < pe_line_end e"
  by (auto simp: validate_evidence_def res_simps)

lemma length_pub_put_object [simp]: "length (digest o') = 32 \<Longrightarrow> length (pub_put_object o') = 43"
  by (simp add: pub_put_object_def)

lemma length_put_evidence [simp]: "wf_evidence e \<Longrightarrow> length (put_evidence e) = EVIDENCE_BYTES"
  by (simp add: put_evidence_def wf_evidence_def EVIDENCE_BYTES_def)

lemma evidence_app [codec_simps]:
  assumes "wf_evidence e" "validate_evidence e = Inr ()" "pos + 160 < u64_bound"
  shows "evidence (put_evidence e @ rest, pos) = Inr (e, (rest, pos + 160))"
proof -
  note v = assms(2) [unfolded validate_evidence_iff]
  have o: "pub_object_ok Source (pe_input e)" "pub_object_ok Prepared (pe_prepared e)"
    using v assms(1) by (simp_all add: pub_object_ok_def object_bound_def wf_evidence_def)
  have n: "pe_start e < 256 ^ 8" "pe_end e < 256 ^ 8"
    using v by (auto simp: MAX_SOURCE_OBJECT_BYTES_def)
  have w: "length (pe_namespace_id e) = 16" "length (pe_source_id e) = 16" "pe_unit e < 256 ^ 8"
      "pe_line_start e < 256 ^ 8" "pe_line_end e < 256 ^ 8"
    using assms(1) by (simp_all add: wf_evidence_def)
  have eta: "\<lparr>pe_namespace_id = pe_namespace_id e, pe_source_id = pe_source_id e, pe_input = pe_input e,
      pe_prepared = pe_prepared e, pe_unit = pe_unit e, pe_start = pe_start e, pe_end = pe_end e,
      pe_line_start = pe_line_start e, pe_line_end = pe_line_end e,
      pe_starts_at_line = pe_starts_at_line e, pe_ends_at_line = pe_ends_at_line e\<rparr> = e" by simp
  show ?thesis
    unfolding evidence_def put_evidence_def append_assoc
    using o n w assms(2,3)
    by (simp add: cur_take_app cur_uint_app pub_object_app cur_boolean_app Let_def eta add.commute)
qed

lemma evidence_Inr:
  assumes "evidence r = Inr (e, r')"
  shows "wf_evidence e \<and> validate_evidence e = Inr () \<and> fst r = put_evidence e @ fst r'"
proof -
  have "wf_evidence e \<and> fst r = put_evidence e @ fst r'"
    using assms unfolding evidence_def
    by (auto simp: res_simps Let_def wf_evidence_def put_evidence_def pub_object_ok_def
        dest!: cur_Inr pub_object_Inr)
  moreover have "validate_evidence e = Inr ()"
    using assms unfolding evidence_def by (auto simp: res_simps Let_def)
  ultimately show ?thesis by simp
qed

definition storable_evidence :: "PointEvidence \<Rightarrow> bool" where
  "storable_evidence e \<longleftrightarrow> wf_evidence e \<and> validate_evidence e = Inr ()"

interpretation evidences: codec "\<lambda>e. Inr (encode_evidence e)" decode_evidence storable_evidence
proof
  fix x bs assume x: "storable_evidence x" and b: "(Inr (encode_evidence x) :: PublicationError + bytes) = Inr bs"
  have "evidence (put_evidence x @ [], 0) = Inr (x, ([], 0 + 160))"
    using x by (intro evidence_app) (simp_all add: storable_evidence_def)
  then show "decode_evidence bs = Inr x"
    using b x by (auto simp: decode_evidence_def encode_evidence_def storable_evidence_def cur_done_def)
next
  fix bs x assume "decode_evidence bs = Inr x"
  then show "Inr (encode_evidence x) = (Inr bs :: PublicationError + bytes)"
    by (auto simp: decode_evidence_def encode_evidence_def cur_done_def res_simps split: if_splits dest!: evidence_Inr)
qed

section \<open>Pages\<close>

definition wf_point :: "UploadPoint \<Rightarrow> bool" where
  "wf_point p \<longleftrightarrow> length (up_id p) = 16 \<and> wf_evidence (up_evidence p)"

definition wf_page :: "UploadPage \<Rightarrow> bool" where
  "wf_page page \<longleftrightarrow> (\<forall>p \<in> set (pg_points page). wf_point p)"

lemma page_size_loop_Inr:
  "page_size_loop ps n = Inr m \<Longrightarrow>
   m = n + 176 * length ps \<and> (\<forall>p \<in> set ps. validate_evidence (up_evidence p) = Inr ()) \<and>
   (ps \<noteq> [] \<longrightarrow> m \<le> MAX_PAGE_BYTES)"
proof (induction ps arbitrary: n)
  case (Cons p ps)
  then have "validate_evidence (up_evidence p) = Inr ()" "n + 176 \<le> MAX_PAGE_BYTES"
      "page_size_loop ps (n + 176) = Inr m"
    by (auto simp: res_simps EVIDENCE_BYTES_def split: if_splits)
  then show ?case using Cons.IH [of "n + 176"] by (cases ps) auto
qed simp

lemma page_size_loop_ok:
  "\<forall>p \<in> set ps. validate_evidence (up_evidence p) = Inr () \<Longrightarrow> n + 176 * length ps \<le> MAX_PAGE_BYTES \<Longrightarrow>
   page_size_loop ps n = Inr (n + 176 * length ps)"
  by (induction ps arbitrary: n) (auto simp: EVIDENCE_BYTES_def checked_add64_def MAX_PAGE_BYTES_def)

lemma page_size_Inr:
  "page_size page = Inr m \<Longrightarrow>
   pg_points page \<noteq> [] \<and> length (pg_points page) \<le> MAX_PAGE_POINTS \<and> m = 20 + 176 * length (pg_points page) \<and>
   (\<forall>p \<in> set (pg_points page). validate_evidence (up_evidence p) = Inr ())"
  by (auto simp: page_size_def split: if_splits dest!: page_size_loop_Inr)

lemma length_put_point [simp]: "wf_point p \<Longrightarrow> length (put_point p) = 176"
  by (simp add: put_point_def wf_point_def EVIDENCE_BYTES_def)

lemma length_put_points:
  "\<forall>p \<in> set ps. wf_point p \<Longrightarrow> length (concat (map put_point ps)) = 176 * length ps"
  by (induction ps) auto

lemma decode_points_app:
  assumes "\<forall>p \<in> set ps. wf_point p" "\<forall>p \<in> set ps. validate_evidence (up_evidence p) = Inr ()"
    "pos + 176 * length ps < u64_bound"
  shows "decode_points False (length ps) (concat (map put_point ps) @ rest, pos) =
    Inr (ps, (rest, pos + 176 * length ps))"
  using assms
proof (induction ps arbitrary: pos)
  case (Cons p ps)
  have "decode_points False (length ps) (concat (map put_point ps) @ rest, pos + 176) =
      Inr (ps, (rest, pos + 176 + 176 * length ps))"
    using Cons.prems by (intro Cons.IH) auto
  moreover have "pos + 16 < u64_bound" "pos + 16 + 160 < u64_bound" using Cons.prems by auto
  ultimately show ?case using Cons.prems
    by (simp add: put_point_def [of p] wf_point_def cur_take_app evidence_app add.commute [of 176 pos] add.assoc)
qed simp

lemma decode_points_Inr:
  assumes "decode_points False n r = Inr (ps, r')"
  shows "length ps = n \<and> (\<forall>p \<in> set ps. wf_point p) \<and> fst r = concat (map put_point ps) @ fst r'"
  using assms
proof (induction n arbitrary: r ps)
  case (Suc n)
  then obtain i r1 e r2 qs where d: "cur_take 16 r = Inr (i, r1)" "evidence r1 = Inr (e, r2)"
      "decode_points False n r2 = Inr (qs, r')" "ps = \<lparr>up_id = i, up_evidence = e\<rparr> # qs"
    by (auto simp: res_simps)
  then show ?case
    using Suc.IH [OF d(3)] cur_take_Inr [OF d(1)] evidence_Inr [OF d(2)]
    by (simp add: wf_point_def put_point_def [of "\<lparr>up_id = i, up_evidence = e\<rparr>"])
qed simp

lemma encode_page_Inr:
  assumes "encode_page page env = Inr (bs, env')"
  obtains k where "pg_request_bytes page = Some k" "0 < k" "k \<le> MAX_PAGE_BYTES"
    "page_size page = Inr (20 + 176 * length (pg_points page))"
    "bs = PAGE_MAGIC @ le_bytes 2 2 @ le_bytes 2 (length (pg_points page)) @ le_bytes 8 k @
       concat (map put_point (pg_points page))"
  using assms page_size_Inr [of page]
  by (auto simp: encode_page_def res_simps try_from_def split: option.splits if_splits)

lemma magic_lengths [simp]: "length PAGE_MAGIC = 8" "length LEGACY_PAGE_MAGIC = 8"
  by (simp_all add: PAGE_MAGIC_def LEGACY_PAGE_MAGIC_def as_bytes_def)

lemma decode_encode_page:
  assumes "wf_page page" "encode_page page env = Inr (bs, env')"
  shows "decode_page bs [] = Inr (page, [])"
proof -
  let ?n = "length (pg_points page)"
  obtain k where k: "pg_request_bytes page = Some k" "0 < k" "k \<le> MAX_PAGE_BYTES" and
      s: "page_size page = Inr (20 + 176 * ?n)" and
      b: "bs = PAGE_MAGIC @ le_bytes 2 2 @ le_bytes 2 ?n @ le_bytes 8 k @ concat (map put_point (pg_points page))"
    by (rule encode_page_Inr [OF assms(2)])
  note p = page_size_Inr [OF s]
  have n: "?n \<noteq> 0" "?n \<le> 128" using p by (simp_all add: MAX_PAGE_POINTS_def)
  have len: "length bs = 20 + 176 * ?n"
    using assms(1) b by (simp add: wf_page_def length_put_points)
  have kb: "k < 256 ^ 8" using k by (simp add: MAX_PAGE_BYTES_def)
  have d: "decode_points False ?n (concat (map put_point (pg_points page)) @ [], 20) =
      Inr (pg_points page, ([], 20 + 176 * ?n))"
    using assms(1) p n by (intro decode_points_app) (auto simp: wf_page_def)
  have eta: "\<lparr>pg_points = pg_points page, pg_request_bytes = Some k\<rparr> = page" using k(1) by simp
  have m: "PAGE_MAGIC \<noteq> LEGACY_PAGE_MAGIC" by (simp add: PAGE_MAGIC_def LEGACY_PAGE_MAGIC_def as_bytes_def)
  have short: "\<not> MAX_PAGE_BYTES < length bs" using len n by (simp add: MAX_PAGE_BYTES_def)
  have run: "decode_page bs [] = bindE (page_size page) (\<lambda>m. bindE (guardE Corrupt (m = length bs)) (\<lambda>_. Inr (page, [])))"
    using short kb k n d m p
    unfolding decode_page_def b
    by (simp add: cur_take_app cur_uint_app Let_def cur_done_def eta bindE_assoc)
  then show ?thesis using s len by simp
qed

lemma encode_decode_page:
  assumes "decode_page bs env = Inr (page, env')" "take 8 bs = PAGE_MAGIC"
  shows "encode_page page [] = Inr (bs, []) \<and> wf_page page"
proof -
  have m: "PAGE_MAGIC \<noteq> LEGACY_PAGE_MAGIC" by (simp add: PAGE_MAGIC_def LEGACY_PAGE_MAGIC_def as_bytes_def)
  obtain k n r r1 r2 r3 r4 where c: "cur_take 8 (bs, 0) = Inr (PAGE_MAGIC, r)" "cur_uint 2 r = Inr (2, r1)"
      "cur_uint 2 r1 = Inr (n, r2)" "n \<noteq> 0" "n \<le> MAX_PAGE_POINTS" "cur_uint 8 r2 = Inr (k, r3)"
      "k \<noteq> 0" "k \<le> MAX_PAGE_BYTES" "decode_points False n r3 = Inr (pg_points page, r4)" "fst r4 = []"
      "pg_request_bytes page = Some k" "page_size page = Inr (length bs)"
    using assms m unfolding decode_page_def
    by (auto simp: res_simps Let_def cur_done_def split: if_splits dest: cur_take_Inr)
  have b: "bs = PAGE_MAGIC @ le_bytes 2 2 @ le_bytes 2 n @ le_bytes 8 k @ concat (map put_point (pg_points page))"
      "length (pg_points page) = n" "wf_page page"
    using c(1,2,3,6,9,10) by (auto simp: wf_page_def dest!: cur_Inr decode_points_Inr)
  have "n < u16_bound" using c(5) by (simp add: MAX_PAGE_POINTS_def)
  then show ?thesis using c(7,8,11,12) b by (simp add: encode_page_def try_from_def)
qed

section \<open>Captured sources\<close>

definition captured_matches :: "CapturedSource \<Rightarrow> bool" where
  "captured_matches c \<longleftrightarrow> source_id (ca_source c) = cp_source_id (ca_preparation c) \<and>
     source_namespace_id (ca_source c) = cp_namespace_id (ca_preparation c) \<and>
     (\<exists>out. cp_outcome (ca_preparation c) = Some out \<and>
       matches_input out (ca_source c) (cp_settings (ca_preparation c)))"

definition storable_entry :: "SourceEntry \<Rightarrow> bool" where
  "storable_entry e \<longleftrightarrow> storable_source (ca_source (se_captured e)) \<and> storable_prep (ca_preparation (se_captured e)) \<and>
     captured_matches (se_captured e) \<and> se_staged_units e < u64_bound"

lemma encode_source_Inr:
  assumes "encode_source entry env = Inr (bs, env')"
  obtains s p where "encode_record (ca_source (se_captured entry)) = Inr s"
    "prep_encode (ca_preparation (se_captured entry)) = Inr p" "length s + length p + 17 \<le> 65536"
    "bs = le_bytes 4 (length s) @ s @ le_bytes 4 (length p) @ p @ le_bytes 8 (se_staged_units entry) @
      [put_bool (se_complete entry)]"
proof -
  obtain s p where e: "encode_record (ca_source (se_captured entry)) = Inr s"
      "prep_encode (ca_preparation (se_captured entry)) = Inr p"
    using assms by (auto simp: encode_source_def res_simps)
  have "length s + length p + 17 \<le> 65536 \<and>
      bs = le_bytes 4 (length s) @ s @ le_bytes 4 (length p) @ p @ le_bytes 8 (se_staged_units entry) @
        [put_bool (se_complete entry)]"
    using assms e
    by (auto simp: encode_source_def res_simps try_from_def bind_eq_Some_conv checked_add64_def split: if_splits)
  then show ?thesis using that e by blast
qed

lemma encode_source_quiet: "encode_source entry env = Inr (bs, env') \<Longrightarrow> encode_source entry [] = Inr (bs, [])"
  by (auto simp: encode_source_def res_simps split: if_splits)

lemma decode_encode_source:
  assumes "storable_entry entry" "encode_source entry env = Inr (bs, env')"
  shows "decode_source bs = Inr entry"
proof -
  let ?c = "se_captured entry"
  obtain s p where e: "encode_record (ca_source ?c) = Inr s" "prep_encode (ca_preparation ?c) = Inr p" and
      n: "length s + length p + 17 \<le> 65536" and
      b: "bs = le_bytes 4 (length s) @ s @ le_bytes 4 (length p) @ p @ le_bytes 8 (se_staged_units entry) @
        [put_bool (se_complete entry)]"
    by (rule encode_source_Inr [OF assms(2)])
  have d: "decode_record s = Inr (ca_source ?c)" "prep_decode p = Inr (ca_preparation ?c)"
    using assms(1) e rows.dec_enc preps.dec_enc by (auto simp: storable_entry_def)
  obtain out where o: "cp_outcome (ca_preparation ?c) = Some out"
      "matches_input out (ca_source ?c) (cp_settings (ca_preparation ?c))"
      "source_id (ca_source ?c) = cp_source_id (ca_preparation ?c)"
      "source_namespace_id (ca_source ?c) = cp_namespace_id (ca_preparation ?c)"
    using assms(1) by (auto simp: storable_entry_def captured_matches_def)
  have "length bs \<le> 65536" using b n by simp
  moreover have "se_staged_units entry < 256 ^ 8" using assms(1) by (simp add: storable_entry_def)
  moreover have "\<lparr>se_captured = \<lparr>ca_source = ca_source ?c, ca_preparation = ca_preparation ?c\<rparr>,
      se_staged_units = se_staged_units entry, se_complete = se_complete entry\<rparr> = entry" by simp
  ultimately show ?thesis using d n o unfolding decode_source_def b
    by (simp add: cur_take_app cur_uint_app cur_boolean_app cur_done_def)
qed

lemma decode_source_Inr:
  assumes "decode_source bs = Inr entry"
  shows "captured_matches (se_captured entry) \<and> se_staged_units entry < u64_bound \<and>
    storable_prep (ca_preparation (se_captured entry)) \<and> wf_source (ca_source (se_captured entry)) \<and>
    byte_length (object_ref (ca_source (se_captured entry))) \<le> MAX_SOURCE_OBJECT_BYTES"
  using assms unfolding decode_source_def
  by (auto simp: res_simps captured_matches_def cur_done_def split: if_splits option.splits
      dest!: cur_Inr prep_decode_Inr decode_record_Inr)

lemma encode_decode_source:
  assumes "decode_source bs = Inr entry" "storable_entry entry"
  shows "encode_source entry [] = Inr (bs, [])"
proof -
  let ?c = "se_captured entry"
  have short: "length bs \<le> 65536" using assms(1) by (auto simp: decode_source_def split: if_splits)
  obtain s p where d: "decode_record s = Inr (ca_source ?c)" "prep_decode p = Inr (ca_preparation ?c)" and
      b: "bs = le_bytes 4 (length s) @ s @ le_bytes 4 (length p) @ p @ le_bytes 8 (se_staged_units entry) @
        [put_bool (se_complete entry)]"
    using assms(1) unfolding decode_source_def
    by (fastforce simp: res_simps cur_done_def split: if_splits dest!: cur_Inr)
  have e: "encode_record (ca_source ?c) = Inr s" "prep_encode (ca_preparation ?c) = Inr p"
    using d assms(2) rows.enc_dec preps.enc_dec by (auto simp: storable_entry_def)
  have "length s + length p + 17 \<le> 65536" using short b by simp
  then show ?thesis using e b by (simp add: encode_source_def checked_add64_def try_from_def)
qed

definition encode_entry :: "SourceEntry \<Rightarrow> PublicationError + bytes" where
  "encode_entry entry = bindE (encode_source entry []) (\<lambda>(bs, _). Inr bs)"

interpretation entries: codec encode_entry decode_source storable_entry
proof
  show "decode_source bs = Inr x" if "storable_entry x" "encode_entry x = Inr bs" for x bs
    using that decode_encode_source by (auto simp: encode_entry_def res_simps)
  show "encode_entry x = Inr bs" if "decode_source bs = Inr x" "storable_entry x" for x bs
    using encode_decode_source [OF that] by (simp add: encode_entry_def)
qed

end
