(* ===== verification/Publication.thy ===== *)
theory Publication
  imports PublicationLaws
begin

text \<open>
  Publication of generations (\<open>crates/search-control-redb/src/publication.rs\<close>): the capture of
  the corpus, the build of a generation in durable steps, the dispatch of its remote effects,
  the switch of the current pointer, retirement, and the reads of a pinned generation. JSON is a
  parameter (record \<open>Json\<close>): headers and retired rows are stored through it. An operation on
  the writer returns its result and the database it leaves: a transaction that fails before its
  commit leaves the database, and a failed commit may have landed.
\<close>

section \<open>Model: generations and state\<close>

definition STATE :: string where "STATE = ''publication_state''"
definition SOURCES :: string where "SOURCES = ''generation_sources''"
definition PAGES :: string where "PAGES = ''generation_pages''"
definition EVIDENCE :: string where "EVIDENCE = ''generation_evidence''"
definition RETIRED :: string where "RETIRED = ''retired_generations''"
definition STATE_KEY :: bytes where "STATE_KEY = as_bytes ''v1''"
definition MAX_SOURCES :: nat where "MAX_SOURCES = 4096"
definition MAX_CAPTURE_BYTES :: nat where "MAX_CAPTURE_BYTES = 16 * 1024 * 1024"
definition MAX_STAGED_BYTES :: nat where "MAX_STAGED_BYTES = 512 * 1024 * 1024"
definition MAX_POINTS :: nat where "MAX_POINTS = 1000000"
definition MAX_RETIRED :: nat where "MAX_RETIRED = 8"

record Generation =
  g_namespace :: bytes
  g_sequence :: nat
  g_wanted_revision :: nat
  g_source_count :: nat
  g_gap_count :: nat
  g_point_count :: nat
  g_page_count :: nat

datatype PendingOperation = Create | Insert nat

record PendingGeneration =
  pd_generation :: Generation
  pd_capture_complete :: bool
  pd_created :: bool
  pd_uploaded_pages :: nat
  pd_in_flight :: "PendingOperation option"
  pd_operation_revision :: nat
  pd_completed_sources :: nat
  pd_staged_bytes :: nat
  pd_source_namespace :: "bytes option"
  pd_expected_current_revision :: nat
  pd_expected_current :: "Generation option"

record State =
  s_version :: nat
  s_namespace :: "bytes option"
  s_next_sequence :: nat
  s_current_revision :: nat
  s_current :: "Generation option"
  s_pending :: "PendingGeneration option"

definition State_default :: State where
  "State_default = \<lparr>s_version = 1, s_namespace = None, s_next_sequence = 0, s_current_revision = 0,
     s_current = None, s_pending = None\<rparr>"

record RetiredGeneration =
  rg_generation :: Generation
  rg_remote_owned :: bool
  rg_unresolved_build :: "PendingGeneration option"

record CorpusCapture =
  cc_sources :: "CapturedSource list"
  cc_current :: "Generation option"
  cc_pending :: "PendingGeneration option"
  cc_source_namespace :: "bytes option"
  cc_wanted_revision :: nat
  cc_state :: State

definition current_matches :: "CorpusCapture \<Rightarrow> bool" where
  "current_matches c \<longleftrightarrow> (case cc_current c of None \<Rightarrow> False | Some g \<Rightarrow> g_wanted_revision g = cc_wanted_revision c)"

definition pending_matches :: "CorpusCapture \<Rightarrow> bool" where
  "pending_matches c \<longleftrightarrow> (case cc_pending c of None \<Rightarrow> False | Some p \<Rightarrow>
     pd_source_namespace p = cc_source_namespace c
     \<and> g_wanted_revision (pd_generation p) = cc_wanted_revision c
     \<and> pd_expected_current_revision p = s_current_revision (cc_state c)
     \<and> pd_expected_current p = cc_current c)"

text \<open>The JSON library on the two stored types: serialization and parsing.\<close>

record Json =
  state_to_vec :: "State \<Rightarrow> bytes option"
  state_from_slice :: "bytes \<Rightarrow> State option"
  retired_to_vec :: "RetiredGeneration \<Rightarrow> bytes option"
  retired_from_slice :: "bytes \<Rightarrow> RetiredGeneration option"

section \<open>Model: transactions\<close>

definition pub_check :: "env \<Rightarrow> PublicationError + env" where
  "pub_check = check_with Cancelled Deadline"

definition pub_io :: "env \<Rightarrow> PublicationError + env" where
  "pub_io = io_with Database"

definition be_bytes :: "nat \<Rightarrow> bytes" where
  "be_bytes n = rev (le_bytes 8 n)"

definition gen_key :: "nat \<Rightarrow> bytes \<Rightarrow> bytes" where
  "gen_key sequence suffix = be_bytes sequence @ suffix"

definition state_bytes :: "Json \<Rightarrow> State \<Rightarrow> PublicationError + bytes" where
  "state_bytes j state =
     bindE (ok_or Corrupt (state_to_vec j state)) (\<lambda>bs.
     if 16 * 1024 < length bs then Inl Limit else Inr bs)"

definition generation_sane :: "State \<Rightarrow> Generation \<Rightarrow> bool" where
  "generation_sane state g \<longleftrightarrow> \<not> (Some (g_namespace g) \<noteq> s_namespace state \<or> g_sequence g = 0
     \<or> s_next_sequence state < g_sequence g \<or> MAX_SOURCES < g_source_count g
     \<or> g_source_count g < g_gap_count g \<or> MAX_POINTS < g_point_count g \<or> MAX_POINTS < g_page_count g)"

definition state_generations :: "State \<Rightarrow> Generation list" where
  "state_generations state =
     (case s_current state of None \<Rightarrow> [] | Some g \<Rightarrow> [g]) @
     (case s_pending state of None \<Rightarrow> [] | Some p \<Rightarrow> [pd_generation p])"

definition pending_insane :: "State \<Rightarrow> PendingGeneration \<Rightarrow> bool" where
  "pending_insane state p \<longleftrightarrow> g_source_count (pd_generation p) < pd_completed_sources p
     \<or> g_page_count (pd_generation p) < pd_uploaded_pages p
     \<or> MAX_STAGED_BYTES < pd_staged_bytes p
     \<or> (case s_current state of None \<Rightarrow> False | Some c \<Rightarrow> g_sequence c = g_sequence (pd_generation p))
     \<or> pd_capture_complete p \<and> pd_completed_sources p \<noteq> g_source_count (pd_generation p)"

definition decode_state :: "Json \<Rightarrow> bytes \<Rightarrow> PublicationError + State" where
  "decode_state j bs =
     (if 16 * 1024 < length bs then Inl Corrupt
      else bindE (ok_or Corrupt (state_from_slice j bs)) (\<lambda>state.
        if s_version state \<noteq> 1 \<or> s_namespace state = None \<or> s_next_sequence state = 0 then Inl Corrupt
        else if \<exists>g \<in> set (state_generations state). \<not> generation_sane state g then Inl Corrupt
        else if (s_current state \<noteq> None) \<noteq> (s_current_revision state \<noteq> 0) then Inl Corrupt
        else if (case s_pending state of None \<Rightarrow> False | Some p \<Rightarrow> pending_insane state p) then Inl Corrupt
        else Inr state))"

definition read_state :: "Json \<Rightarrow> Database \<Rightarrow> env \<Rightarrow> PublicationError + State \<times> env" where
  "read_state j db env =
     bindE (pub_io env) (\<lambda>env.
     case get_table db STATE of
       Some t \<Rightarrow>
         bindE (r_get Database t STATE_KEY env) (\<lambda>(v, env).
         bindE (ok_or Corrupt v) (\<lambda>v.
         bindE (decode_state j v) (\<lambda>state. Inr (state, env))))
     | None \<Rightarrow> Inr (State_default, env))"

definition observe_database ::
  "(Database \<Rightarrow> env \<Rightarrow> PublicationError + 'a \<times> env) \<Rightarrow> Database \<Rightarrow> env \<Rightarrow> PublicationError + 'a \<times> env" where
  "observe_database read db env =
     bindE (pub_check env) (\<lambda>env.
     bindE (pub_io env) (\<lambda>env.
     bindE (read db env) (\<lambda>(v, env).
     bindE (pub_check env) (\<lambda>env. Inr (v, env)))))"

definition observe ::
  "(Database \<Rightarrow> env \<Rightarrow> PublicationError + 'a \<times> env) \<Rightarrow> Database \<Rightarrow> env \<Rightarrow> PublicationError + 'a \<times> env" where
  "observe read db env =
     bindE (pub_check env) (\<lambda>env.
     bindE (pub_io env) (\<lambda>env.
     bindE (observe_database read db env) (\<lambda>(v, env).
     bindE (pub_io env) (\<lambda>env. Inr (v, env)))))"

type_synonym 'a editor = "Database \<Rightarrow> State \<Rightarrow> env \<Rightarrow> PublicationError + ('a \<times> State \<times> Database) \<times> env"
type_synonym 'a dbres = "(PublicationError + 'a \<times> env) \<times> Database"

text \<open>The body of a write transaction up to its commit: the result and the working copy.\<close>

definition edit_body :: "Json \<Rightarrow> 'a editor \<Rightarrow> Database \<Rightarrow> env \<Rightarrow> PublicationError + ('a \<times> Database) \<times> env" where
  "edit_body j write db env =
     bindE (pub_check env) (\<lambda>env.
     bindE (pub_io env) (\<lambda>env.
     bindE (pub_io env) (\<lambda>env.
     let existed = (STATE \<in> set (list_tables db)) in
     bindE (w_open Database SOURCES db env) (\<lambda>(db, env).
     bindE (w_open Database PAGES db env) (\<lambda>(db, env).
     bindE (w_open Database EVIDENCE db env) (\<lambda>(db, env).
     bindE (w_open Database RETIRED db env) (\<lambda>(db, env).
     bindE (w_open Database STATE db env) (\<lambda>(db, env).
     bindE (w_get Database STATE STATE_KEY db env) (\<lambda>(v, env).
     bindE (case v of Some v \<Rightarrow> decode_state j v
       | None \<Rightarrow> if \<not> existed then Inr State_default else Inl Corrupt) (\<lambda>state.
     bindE (write db state env) (\<lambda>((res, state, db), env).
     bindE (state_bytes j state) (\<lambda>bs.
     bindE (w_open Database STATE db env) (\<lambda>(db, env).
     bindE (w_insert Database STATE STATE_KEY bs db env) (\<lambda>(db, env).
     bindE (pub_check env) (\<lambda>env. Inr ((res, db), env))))))))))))))))"

definition edit_database :: "Json \<Rightarrow> 'a editor \<Rightarrow> Database \<Rightarrow> env \<Rightarrow> 'a dbres" where
  "edit_database j write db env =
     (case edit_body j write db env of
        Inl e \<Rightarrow> (Inl e, db)
      | Inr ((res, work), env) \<Rightarrow> (case w_commit work db env of
          ((ok, db'), env) \<Rightarrow> (if ok then Inr (res, env) else Inl Database, db')))"

definition edit :: "Json \<Rightarrow> 'a editor \<Rightarrow> Database \<Rightarrow> env \<Rightarrow> 'a dbres" where
  "edit j write db env =
     (case bindE (pub_check env) pub_io of
        Inl e \<Rightarrow> (Inl e, db)
      | Inr env \<Rightarrow> edit_database j write db env)"

definition bindD :: "'a dbres \<Rightarrow> ('a \<Rightarrow> Database \<Rightarrow> env \<Rightarrow> 'b dbres) \<Rightarrow> 'b dbres" where
  "bindD r k = (case r of (Inl e, db) \<Rightarrow> (Inl e, db) | (Inr (x, env), db) \<Rightarrow> k x db env)"

definition pending_mut :: "State \<Rightarrow> PendingGeneration \<Rightarrow> PublicationError + PendingGeneration" where
  "pending_mut state expected =
     bindE (ok_or Stale (s_pending state)) (\<lambda>pending.
     if g_namespace (pd_generation pending) \<noteq> g_namespace (pd_generation expected)
        \<or> g_sequence (pd_generation pending) \<noteq> g_sequence (pd_generation expected)
     then Inl Stale else Inr pending)"

definition set_pending :: "PendingGeneration \<Rightarrow> State \<Rightarrow> State" where
  "set_pending p state = state\<lparr>s_pending := Some p\<rparr>"

definition check_wanted ::
  "bytes option \<Rightarrow> nat \<Rightarrow> Database \<Rightarrow> env \<Rightarrow> PublicationError + Database \<times> env" where
  "check_wanted namespace revision db env =
     bindE (pub_io env) (\<lambda>env.
     bindE (if SOURCE_STATE \<in> set (list_tables db) then
         bindE (w_open Database SOURCE_STATE db env) (\<lambda>(db, env).
         bindE (w_get Database SOURCE_STATE NAMESPACE_KEY db env) (\<lambda>(v, env).
         bindE (ok_or Corrupt v) (\<lambda>v.
         if length v \<noteq> 16 then Inl Corrupt
         else bindE (mapErr pub_source_error (write_wanted_revision db env)) (\<lambda>((rev, db), env).
           Inr (((Some v, rev), db), env)))))
       else Inr (((None, 0), db), env)) (\<lambda>((actual, db), env).
     if actual \<noteq> (namespace, revision) then Inl Stale else Inr (db, env)))"

section \<open>Model: capture of the corpus\<close>

fun corpus_rows ::
  "table option \<Rightarrow> bytes \<Rightarrow> (bytes \<times> bytes) list \<Rightarrow> CapturedSource list \<Rightarrow> nat \<Rightarrow> env \<Rightarrow>
   PublicationError + CapturedSource list \<times> env" where
  "corpus_rows preparations ns [] sources charged env = Inr (sources, env)"
| "corpus_rows preparations ns ((sid, bs) # rows) sources charged env =
     bindE (pub_check env) (\<lambda>env.
     bindE (pub_io env) (\<lambda>env.
     bindE (ok_or Limit (checked_add64 charged (length bs))) (\<lambda>charged.
     if MAX_SOURCES \<le> length sources \<or> MAX_CAPTURE_BYTES < charged then Inl Limit
     else
       bindE (mapErr pub_source_error (decode_record bs)) (\<lambda>source.
       if sid \<noteq> source_id source \<or> source_namespace_id source \<noteq> ns then Inl Corrupt
       else
         bindE (ok_or Unprepared preparations) (\<lambda>preps.
         bindE (r_get Database preps sid env) (\<lambda>(v, env).
         bindE (ok_or Unprepared v) (\<lambda>v.
         bindE (ok_or Limit (checked_add64 charged (length v))) (\<lambda>charged.
         if MAX_CAPTURE_BYTES < charged then Inl Limit
         else
           bindE (mapErr (\<lambda>_. Corrupt) (prep_decode v)) (\<lambda>preparation.
           if cp_namespace_id preparation \<noteq> ns \<or> cp_source_id preparation \<noteq> source_id source then Inl Corrupt
           else if \<not> (case cp_outcome preparation of None \<Rightarrow> False
             | Some out \<Rightarrow> matches_input out source (cp_settings preparation)) then Inl Unprepared
           else
             bindE (reserve_with Allocation env) (\<lambda>env.
             corpus_rows preparations ns rows
               (sources @ [\<lparr>ca_source = source, ca_preparation = preparation\<rparr>]) charged env))))))))))"

definition read_corpus :: "Json \<Rightarrow> Database \<Rightarrow> env \<Rightarrow> PublicationError + CorpusCapture \<times> env" where
  "read_corpus j db env =
     bindE (pub_io env) (\<lambda>env.
     bindE (pub_io env) (\<lambda>env.
     bindE (mapErr pub_source_error (catalogue_names (list_tables db) (db_multimaps db \<noteq> []))) (\<lambda>has_sources.
     bindE (read_state j db env) (\<lambda>(state, env).
     bindE (if has_sources then
         bindE (mapErr pub_source_error (read_namespace db env)) (\<lambda>(ns, env).
         bindE (ok_or Corrupt ns) (\<lambda>ns.
         bindE (mapErr pub_source_error (wanted_revision db env)) (\<lambda>(revision, env).
         bindE (r_open Database db SOURCE_ROWS env) (\<lambda>(rows, env).
         bindE (pub_io env) (\<lambda>env.
         bindE (pub_io env) (\<lambda>env.
         bindE (corpus_rows (get_table db PREPARATIONS) ns rows [] 0 env) (\<lambda>(sources, env).
         Inr ((sources, Some ns, revision), env))))))))
       else Inr (([], None, 0), env)) (\<lambda>((sources, namespace, revision), env).
     Inr (\<lparr>cc_sources = sources, cc_current = s_current state, cc_pending = s_pending state,
       cc_source_namespace = namespace, cc_wanted_revision = revision, cc_state = state\<rparr>, env))))))"

definition capture_corpus :: "Json \<Rightarrow> Database \<Rightarrow> env \<Rightarrow> PublicationError + CorpusCapture \<times> env" where
  "capture_corpus j = observe_database (read_corpus j)"

definition load_pending :: "Json \<Rightarrow> Database \<Rightarrow> env \<Rightarrow> PublicationError + PendingGeneration option \<times> env" where
  "load_pending j = observe_database (\<lambda>db env. bindE (read_state j db env) (\<lambda>(state, env). Inr (s_pending state, env)))"

section \<open>Model: the start of a build\<close>

definition is_gap :: "CapturedSource \<Rightarrow> bool" where
  "is_gap c \<longleftrightarrow> (case cp_outcome (ca_preparation c) of
     Some out \<Rightarrow> (case bo_result out of Gap _ \<Rightarrow> True | Ready _ \<Rightarrow> False) | None \<Rightarrow> False)"

definition new_pending :: "CorpusCapture \<Rightarrow> bytes \<Rightarrow> State \<Rightarrow> PendingGeneration" where
  "new_pending capture namespace state =
     \<lparr>pd_generation = \<lparr>g_namespace = namespace, g_sequence = s_next_sequence state,
        g_wanted_revision = cc_wanted_revision capture, g_source_count = length (cc_sources capture),
        g_gap_count = length (filter is_gap (cc_sources capture)), g_point_count = 0, g_page_count = 0\<rparr>,
      pd_capture_complete = False, pd_created = False, pd_uploaded_pages = 0, pd_in_flight = None,
      pd_operation_revision = 0, pd_completed_sources = 0, pd_staged_bytes = 0,
      pd_source_namespace = cc_source_namespace capture,
      pd_expected_current_revision = s_current_revision state, pd_expected_current = s_current state\<rparr>"

definition reserve_generation :: "CorpusCapture \<Rightarrow> bytes \<Rightarrow> PendingGeneration editor" where
  "reserve_generation capture namespace db state env =
     bindE (check_wanted (cc_source_namespace capture) (cc_wanted_revision capture) db env) (\<lambda>(db, env).
     if s_current_revision state \<noteq> s_current_revision (cc_state capture)
        \<or> s_current state \<noteq> cc_current capture
        \<or> s_pending state \<noteq> None
        \<or> cc_pending capture \<noteq> None
        \<or> s_namespace state \<noteq> s_namespace (cc_state capture)
        \<or> s_next_sequence state \<noteq> s_next_sequence (cc_state capture)
     then Inl Stale
     else
       bindE (w_open Database RETIRED db env) (\<lambda>(db, env).
       bindE (pub_io env) (\<lambda>env.
       if MAX_RETIRED \<le> length (the_table db RETIRED) then Inl Limit
       else
         bindE (ok_or Limit (checked_add64 (s_next_sequence state) 1)) (\<lambda>next.
         let state = state\<lparr>s_namespace := Some namespace, s_next_sequence := next\<rparr>;
             pending = new_pending capture namespace state in
         Inr ((pending, set_pending pending state, db), env)))))"

fun encode_inputs :: "nat \<Rightarrow> CapturedSource list \<Rightarrow> env \<Rightarrow> PublicationError + (bytes \<times> bytes) list \<times> env" where
  "encode_inputs sequence [] env = Inr ([], env)"
| "encode_inputs sequence (c # cs) env =
     bindE (encode_source \<lparr>se_captured = c, se_staged_units = 0, se_complete = False\<rparr> env) (\<lambda>(bs, env).
     bindE (encode_inputs sequence cs env) (\<lambda>(rest, env).
     Inr ((gen_key sequence (source_id (ca_source c)), bs) # rest, env)))"

fun insert_inputs :: "(bytes \<times> bytes) list \<Rightarrow> Database \<Rightarrow> env \<Rightarrow> PublicationError + Database \<times> env" where
  "insert_inputs [] db env = Inr (db, env)"
| "insert_inputs ((k, bs) # rows) db env =
     bindE (w_get Database SOURCES k db env) (\<lambda>(v, env).
     if v \<noteq> None then Inl Corrupt
     else bindE (w_insert Database SOURCES k bs db env) (\<lambda>(db, env). insert_inputs rows db env))"

definition save_inputs :: "PendingGeneration \<Rightarrow> (bytes \<times> bytes) list \<Rightarrow> unit editor" where
  "save_inputs pending rows db state env =
     bindE (pending_mut state pending) (\<lambda>_.
     bindE (w_open Database SOURCES db env) (\<lambda>(db, env).
     bindE (insert_inputs rows db env) (\<lambda>(db, env). Inr (((), state, db), env))))"

fun persist_chunks ::
  "Json \<Rightarrow> PendingGeneration \<Rightarrow> CapturedSource list list \<Rightarrow> Database \<Rightarrow> env \<Rightarrow> unit dbres" where
  "persist_chunks j pending [] db env = (Inr ((), env), db)"
| "persist_chunks j pending (chunk # rest) db env =
     (case bindE (pub_check env) (encode_inputs (g_sequence (pd_generation pending)) chunk) of
        Inl e \<Rightarrow> (Inl e, db)
      | Inr (rows, env) \<Rightarrow>
          bindD (edit_database j (save_inputs pending rows) db env) (\<lambda>_ db env.
          persist_chunks j pending rest db env))"

definition persist_captured_inputs ::
  "Json \<Rightarrow> PendingGeneration \<Rightarrow> CapturedSource list \<Rightarrow> Database \<Rightarrow> env \<Rightarrow> unit dbres" where
  "persist_captured_inputs j pending sources = persist_chunks j pending (chunks 32 sources)"

definition start_build ::
  "Json \<Rightarrow> bytes option \<Rightarrow> CorpusCapture \<Rightarrow> Database \<Rightarrow> env \<Rightarrow> PendingGeneration dbres" where
  "start_build j rnd capture db env =
     (case (case s_namespace (cc_state capture) of Some n \<Rightarrow> Inr n | None \<Rightarrow> ok_or Random rnd) of
        Inl e \<Rightarrow> (Inl e, db)
      | Inr namespace \<Rightarrow>
          bindD (edit_database j (reserve_generation capture namespace) db env) (\<lambda>pending db env.
          bindD (persist_captured_inputs j pending (cc_sources capture) db env) (\<lambda>_ db env.
          (Inr (pending, env), db))))"

section \<open>Model: staging\<close>

definition ready_artifact :: "CapturedSource \<Rightarrow> ObjectRef option" where
  "ready_artifact c = (case cp_outcome (ca_preparation c) of
     Some out \<Rightarrow> (case bo_result out of Ready art \<Rightarrow> Some art | Gap _ \<Rightarrow> None) | None \<Rightarrow> None)"

fun stage_points ::
  "PendingGeneration \<Rightarrow> UploadPoint list \<Rightarrow> Database \<Rightarrow> env \<Rightarrow>
   PublicationError + (PendingGeneration \<times> Database) \<times> env" where
  "stage_points p [] db env = Inr ((p, db), env)"
| "stage_points p (point # points) db env =
     bindE (pub_check env) (\<lambda>env.
     let g = pd_generation p; index = g_point_count g; ev = up_evidence point in
     if take 8 (up_id point) \<noteq> be_bytes (g_sequence g) \<or> drop 8 (up_id point) \<noteq> be_bytes index then Inl Corrupt
     else
       let source_key = gen_key (g_sequence g) (pe_source_id ev) in
       bindE (w_get Database SOURCES source_key db env) (\<lambda>(v, env).
       bindE (ok_or Corrupt v) (\<lambda>v.
       bindE (decode_source v) (\<lambda>entry.
       let c = se_captured entry in
       if se_complete entry \<or> pe_namespace_id ev \<noteq> source_namespace_id (ca_source c)
          \<or> pe_input ev \<noteq> object_ref (ca_source c) \<or> pe_unit ev \<noteq> se_staged_units entry
          \<or> ready_artifact c \<noteq> Some (pe_prepared ev)
       then Inl Corrupt
       else
         bindE (ok_or Limit (checked_add64 (se_staged_units entry) 1)) (\<lambda>staged.
         bindE (encode_source (entry\<lparr>se_staged_units := staged\<rparr>) env) (\<lambda>(encoded_source, env).
         bindE (w_insert Database SOURCES source_key encoded_source db env) (\<lambda>(db, env).
         let evidence_key = gen_key (g_sequence g) (up_id point) in
         bindE (w_get Database EVIDENCE evidence_key db env) (\<lambda>(old, env).
         if old \<noteq> None then Inl Corrupt
         else
           bindE (w_insert Database EVIDENCE evidence_key (encode_evidence ev) db env) (\<lambda>(db, env).
           bindE (ok_or Limit (Option.bind (checked_add64 index 1)
             (\<lambda>n. if n \<le> MAX_POINTS then Some n else None))) (\<lambda>n.
           stage_points (p\<lparr>pd_generation := g\<lparr>g_point_count := n\<rparr>\<rparr>) points db env))))))))))"

definition save_page :: "PendingGeneration \<Rightarrow> UploadPage \<Rightarrow> bytes \<Rightarrow> unit editor" where
  "save_page pending page bs db state env =
     bindE (pending_mut state pending) (\<lambda>p.
     if pd_capture_complete p \<or> pd_in_flight p \<noteq> None then Inl Stale
     else
       bindE (ok_or Limit (Option.bind (checked_add64 (pd_staged_bytes p) (length bs))
         (\<lambda>n. if n \<le> MAX_STAGED_BYTES then Some n else None))) (\<lambda>staged.
       bindE (w_open Database EVIDENCE db env) (\<lambda>(db, env).
       bindE (w_open Database SOURCES db env) (\<lambda>(db, env).
       bindE (stage_points (p\<lparr>pd_staged_bytes := staged\<rparr>) (pg_points page) db env) (\<lambda>((p, db), env).
       let g = pd_generation p in
       bindE (w_open Database PAGES db env) (\<lambda>(db, env).
       bindE (w_insert Database PAGES (gen_key (g_sequence g) (be_bytes (g_page_count g))) bs db env) (\<lambda>(db, env).
       bindE (ok_or Limit (checked_add64 (g_page_count g) 1)) (\<lambda>n.
       Inr (((), set_pending (p\<lparr>pd_generation := g\<lparr>g_page_count := n\<rparr>\<rparr>) state, db), env)))))))))"

definition stage_page :: "Json \<Rightarrow> PendingGeneration \<Rightarrow> UploadPage \<Rightarrow> Database \<Rightarrow> env \<Rightarrow> unit dbres" where
  "stage_page j pending page db env =
     (case encode_page page env of Inl e \<Rightarrow> (Inl e, db)
      | Inr (bs, env) \<Rightarrow> edit_database j (save_page pending page bs) db env)"

definition complete_source :: "PendingGeneration \<Rightarrow> bytes \<Rightarrow> nat \<Rightarrow> unit editor" where
  "complete_source pending sid units db state env =
     bindE (pending_mut state pending) (\<lambda>p.
     if pd_capture_complete p then Inl Stale
     else
       let source_key = gen_key (g_sequence (pd_generation p)) sid in
       bindE (w_open Database SOURCES db env) (\<lambda>(db, env).
       bindE (w_get Database SOURCES source_key db env) (\<lambda>(v, env).
       bindE (ok_or Corrupt v) (\<lambda>v.
       bindE (decode_source v) (\<lambda>entry.
       if se_complete entry \<or> se_staged_units entry \<noteq> units then Inl Corrupt
       else
         bindE (encode_source (entry\<lparr>se_complete := True\<rparr>) env) (\<lambda>(bs, env).
         bindE (w_insert Database SOURCES source_key bs db env) (\<lambda>(db, env).
         bindE (ok_or Limit (checked_add64 (pd_completed_sources p) 1)) (\<lambda>n.
         Inr (((), set_pending (p\<lparr>pd_completed_sources := n\<rparr>) state, db), env)))))))))"

definition finish_source ::
  "Json \<Rightarrow> PendingGeneration \<Rightarrow> bytes \<Rightarrow> nat \<Rightarrow> Database \<Rightarrow> env \<Rightarrow> unit dbres" where
  "finish_source j pending sid units = edit_database j (complete_source pending sid units)"

definition seal_capture :: "PendingGeneration \<Rightarrow> PendingGeneration editor" where
  "seal_capture pending db state env =
     bindE (pending_mut state pending) (\<lambda>p.
     bindE (check_wanted (pd_source_namespace p) (g_wanted_revision (pd_generation p)) db env) (\<lambda>(db, env).
     if pd_completed_sources p \<noteq> g_source_count (pd_generation p) then Inl Corrupt
     else
       let p = p\<lparr>pd_capture_complete := True\<rparr> in
       Inr ((p, set_pending p state, db), env)))"

definition complete_capture :: "Json \<Rightarrow> PendingGeneration \<Rightarrow> Database \<Rightarrow> env \<Rightarrow> PendingGeneration dbres" where
  "complete_capture j pending = edit_database j (seal_capture pending)"

section \<open>Model: saved pages and sources\<close>

definition read_saved_page ::
  "Json \<Rightarrow> Generation \<Rightarrow> nat \<Rightarrow> Database \<Rightarrow> env \<Rightarrow> PublicationError + UploadPage \<times> env" where
  "read_saved_page j g page db env =
     bindE (read_state j db env) (\<lambda>(state, env).
     if g_page_count g \<le> page \<or> \<not> (s_current state = Some g
        \<or> (case s_pending state of None \<Rightarrow> False | Some p \<Rightarrow> pd_generation p = g)) then Inl Stale
     else
       bindE (r_open Corrupt db PAGES env) (\<lambda>(t, env).
       bindE (r_get Database t (gen_key (g_sequence g) (be_bytes page)) env) (\<lambda>(v, env).
       bindE (ok_or Corrupt v) (\<lambda>v. decode_page v env))))"

definition read_saved_source ::
  "Json \<Rightarrow> Generation \<Rightarrow> bytes \<Rightarrow> Database \<Rightarrow> env \<Rightarrow> PublicationError + CapturedSource \<times> env" where
  "read_saved_source j g sid db env =
     bindE (read_state j db env) (\<lambda>(state, env).
     if \<not> (s_current state = Some g
        \<or> (case s_pending state of None \<Rightarrow> False | Some p \<Rightarrow> pd_capture_complete p \<and> pd_generation p = g)) then Inl Stale
     else
       bindE (r_open Corrupt db SOURCES env) (\<lambda>(t, env).
       bindE (r_get Database t (gen_key (g_sequence g) sid) env) (\<lambda>(v, env).
       bindE (ok_or Corrupt v) (\<lambda>v.
       bindE (decode_source v) (\<lambda>entry.
       if \<not> se_complete entry \<or> source_id (ca_source (se_captured entry)) \<noteq> sid then Inl Corrupt
       else Inr (se_captured entry, env))))))"

definition read_upload_page ::
  "Json \<Rightarrow> Generation \<Rightarrow> nat \<Rightarrow> Database \<Rightarrow> env \<Rightarrow> PublicationError + UploadPage \<times> env" where
  "read_upload_page j g page = observe (read_saved_page j g page)"

definition read_generation_source ::
  "Json \<Rightarrow> Generation \<Rightarrow> bytes \<Rightarrow> Database \<Rightarrow> env \<Rightarrow> PublicationError + CapturedSource \<times> env" where
  "read_generation_source j g sid = observe (read_saved_source j g sid)"

section \<open>Model: dispatch of remote effects\<close>

fun operation_due :: "PendingGeneration \<Rightarrow> PendingOperation \<Rightarrow> bool" where
  "operation_due p Create \<longleftrightarrow> \<not> pd_created p"
| "operation_due p (Insert page) \<longleftrightarrow>
     pd_created p \<and> page = pd_uploaded_pages p \<and> page < g_page_count (pd_generation p)"

definition note_dispatch :: "PendingGeneration \<Rightarrow> PendingOperation \<Rightarrow> nat editor" where
  "note_dispatch pending operation db state env =
     bindE (pending_mut state pending) (\<lambda>p.
     bindE (check_wanted (pd_source_namespace p) (g_wanted_revision (pd_generation p)) db env) (\<lambda>(db, env).
     if pd_in_flight p \<noteq> None then Inl Unresolved
     else if pd_operation_revision p \<noteq> pd_operation_revision pending
        \<or> pd_uploaded_pages p \<noteq> pd_uploaded_pages pending
        \<or> pd_created p \<noteq> pd_created pending then Inl Stale
     else if \<not> pd_capture_complete p \<or> \<not> operation_due p operation then Inl Stale
     else
       bindE (ok_or Limit (checked_add64 (pd_operation_revision p) 1)) (\<lambda>rev.
       Inr ((rev, set_pending (p\<lparr>pd_operation_revision := rev, pd_in_flight := Some operation\<rparr>) state, db), env))))"

definition record_dispatch ::
  "Json \<Rightarrow> PendingGeneration \<Rightarrow> PendingOperation \<Rightarrow> Database \<Rightarrow> env \<Rightarrow> nat dbres" where
  "record_dispatch j pending operation = edit_database j (note_dispatch pending operation)"

definition settle_dispatch :: "PendingGeneration \<Rightarrow> PendingOperation \<Rightarrow> nat \<Rightarrow> bool \<Rightarrow> unit editor" where
  "settle_dispatch pending operation revision applied db state env =
     bindE (pending_mut state pending) (\<lambda>p.
     if pd_in_flight p \<noteq> Some operation \<or> pd_operation_revision p \<noteq> revision then Inl Stale
     else
       bindE (if applied then
           (case operation of
              Create \<Rightarrow> Inr (p\<lparr>pd_created := True\<rparr>)
            | Insert _ \<Rightarrow> bindE (ok_or Limit (checked_add64 (pd_uploaded_pages p) 1)) (\<lambda>n.
                Inr (p\<lparr>pd_uploaded_pages := n\<rparr>)))
         else Inr p) (\<lambda>p.
       Inr (((), set_pending (p\<lparr>pd_in_flight := None\<rparr>) state, db), env)))"

definition finish_dispatch ::
  "Json \<Rightarrow> PendingGeneration \<Rightarrow> PendingOperation \<Rightarrow> nat \<Rightarrow> bool \<Rightarrow> Database \<Rightarrow> env \<Rightarrow> unit dbres" where
  "finish_dispatch j pending operation revision applied =
     edit_database j (settle_dispatch pending operation revision applied)"

section \<open>Model: the switch of the current pointer\<close>

definition insert_retired :: "Json \<Rightarrow> RetiredGeneration \<Rightarrow> Database \<Rightarrow> env \<Rightarrow> PublicationError + Database \<times> env" where
  "insert_retired j retired db env =
     bindE (ok_or Corrupt (retired_to_vec j retired)) (\<lambda>bs.
     bindE (w_open Database RETIRED db env) (\<lambda>(db, env).
     w_insert Database RETIRED (be_bytes (g_sequence (rg_generation retired))) bs db env))"

definition switch_current :: "Json \<Rightarrow> PendingGeneration \<Rightarrow> Generation editor" where
  "switch_current j pending db state env =
     bindE (pending_mut state pending) (\<lambda>p.
     if p \<noteq> pending then Inl Stale
     else
       bindE (check_wanted (pd_source_namespace p) (g_wanted_revision (pd_generation p)) db env) (\<lambda>(db, env).
       if pd_in_flight p \<noteq> None then Inl Unresolved
       else if \<not> pd_capture_complete p \<or> \<not> pd_created p
          \<or> pd_uploaded_pages p \<noteq> g_page_count (pd_generation p)
          \<or> s_current_revision state \<noteq> pd_expected_current_revision p
          \<or> s_current state \<noteq> pd_expected_current p then Inl Stale
       else
         bindE (case s_current state of None \<Rightarrow> Inr (db, env)
           | Some old \<Rightarrow> insert_retired j \<lparr>rg_generation = old, rg_remote_owned = True, rg_unresolved_build = None\<rparr> db env)
           (\<lambda>(db, env).
         bindE (ok_or Limit (checked_add64 (s_current_revision state) 1)) (\<lambda>rev.
         Inr ((pd_generation p, state\<lparr>s_current_revision := rev, s_current := Some (pd_generation p),
           s_pending := None\<rparr>, db), env)))))"

text \<open>
  The polls of the transaction and those of the re-observation after a failure of the database
  are the two environments.
\<close>

definition confirm_commit ::
  "Json \<Rightarrow> PendingGeneration \<Rightarrow> Database \<Rightarrow> env \<Rightarrow> PublicationError + Generation \<times> env" where
  "confirm_commit j pending db env =
     bindE (read_state j db env) (\<lambda>(state, env).
     if s_current state = Some (pd_generation pending) \<and> s_pending state = None
        \<and> checked_add64 (pd_expected_current_revision pending) 1 = Some (s_current_revision state)
     then Inr (pd_generation pending, env) else Inl Database)"

definition commit_generation ::
  "Json \<Rightarrow> PendingGeneration \<Rightarrow> Database \<Rightarrow> env \<Rightarrow> env \<Rightarrow> Generation dbres" where
  "commit_generation j pending db env env2 =
     (case edit j (switch_current j pending) db env of
        (Inl e, db') \<Rightarrow> (if e = Database then observe (confirm_commit j pending) db' env2 else Inl e, db')
      | (Inr r, db') \<Rightarrow> (Inr r, db'))"

section \<open>Model: abandonment\<close>

definition drop_pending :: "Json \<Rightarrow> PendingGeneration \<Rightarrow> unit editor" where
  "drop_pending j pending db state env =
     bindE (pending_mut state pending) (\<lambda>p.
     if p \<noteq> pending then Inl Stale
     else if pd_in_flight p \<noteq> None then Inl Unresolved
     else
       bindE (insert_retired j \<lparr>rg_generation = pd_generation p, rg_remote_owned = pd_created p,
         rg_unresolved_build = None\<rparr> db env) (\<lambda>(db, env).
       Inr (((), state\<lparr>s_pending := None\<rparr>, db), env)))"

definition abandon_build :: "Json \<Rightarrow> PendingGeneration \<Rightarrow> Database \<Rightarrow> env \<Rightarrow> unit dbres" where
  "abandon_build j pending = edit_database j (drop_pending j pending)"

definition unresolved_shape :: "PendingGeneration \<Rightarrow> bool" where
  "unresolved_shape p \<longleftrightarrow> pd_capture_complete p \<and> pd_operation_revision p \<noteq> 0 \<and>
     (case pd_in_flight p of
        Some Create \<Rightarrow> \<not> pd_created p \<and> pd_uploaded_pages p = 0
      | Some (Insert page) \<Rightarrow> pd_created p \<and> page = pd_uploaded_pages p \<and> page < g_page_count (pd_generation p)
      | None \<Rightarrow> False)"

definition set_aside :: "Json \<Rightarrow> PendingGeneration \<Rightarrow> unit editor" where
  "set_aside j expected db state env =
     bindE (pending_mut state expected) (\<lambda>p.
     if p \<noteq> expected then Inl Stale
     else if \<not> unresolved_shape p then Inl Unresolved
     else
       bindE (ok_or Corrupt (retired_to_vec j \<lparr>rg_generation = pd_generation p, rg_remote_owned = pd_created p,
         rg_unresolved_build = Some p\<rparr>)) (\<lambda>bs.
       if 4096 < length bs then Inl Limit
       else
         bindE (w_open Database RETIRED db env) (\<lambda>(db, env).
         bindE (pub_io env) (\<lambda>env.
         if MAX_RETIRED \<le> length (the_table db RETIRED) then Inl Limit
         else
           let k = be_bytes (g_sequence (pd_generation p)) in
           bindE (w_get Database RETIRED k db env) (\<lambda>(old, env).
           if old \<noteq> None then Inl Corrupt
           else
             bindE (w_insert Database RETIRED k bs db env) (\<lambda>(db, env).
             Inr (((), state\<lparr>s_pending := None\<rparr>, db), env)))))))"

definition supersede_unknown_build :: "Json \<Rightarrow> PendingGeneration \<Rightarrow> Database \<Rightarrow> env \<Rightarrow> unit dbres" where
  "supersede_unknown_build j expected = edit_database j (set_aside j expected)"

section \<open>Model: retirement\<close>

fun retired_rows ::
  "Json \<Rightarrow> State \<Rightarrow> (bytes \<times> bytes) list \<Rightarrow> env \<Rightarrow> PublicationError + RetiredGeneration list \<times> env" where
  "retired_rows j state [] env = Inr ([], env)"
| "retired_rows j state ((k, v) # rows) env =
     bindE (pub_io env) (\<lambda>env.
     if 4096 < length v then Inl Corrupt
     else
       bindE (ok_or Corrupt (retired_from_slice j v)) (\<lambda>retired.
       let g = rg_generation retired in
       if k \<noteq> be_bytes (g_sequence g) \<or> s_namespace state \<noteq> Some (g_namespace g) \<or> g_sequence g = 0
          \<or> s_next_sequence state < g_sequence g
          \<or> (case s_current state of None \<Rightarrow> False | Some c \<Rightarrow> g_sequence c = g_sequence g)
          \<or> (case s_pending state of None \<Rightarrow> False | Some p \<Rightarrow> g_sequence (pd_generation p) = g_sequence g)
       then Inl Corrupt
       else if (case rg_unresolved_build retired of None \<Rightarrow> False | Some p \<Rightarrow>
           rg_remote_owned retired \<noteq> pd_created p \<or> pd_generation p \<noteq> g \<or> \<not> unresolved_shape p)
       then Inl Corrupt
       else bindE (retired_rows j state rows env) (\<lambda>(rest, env). Inr (retired # rest, env))))"

definition read_retirements :: "Json \<Rightarrow> Database \<Rightarrow> env \<Rightarrow> PublicationError + RetiredGeneration list \<times> env" where
  "read_retirements j db env =
     bindE (read_state j db env) (\<lambda>(state, env).
     if s_namespace state = None then Inr ([], env)
     else
       bindE (r_open Corrupt db RETIRED env) (\<lambda>(t, env).
       bindE (pub_io env) (\<lambda>env.
       if MAX_RETIRED < length t then Inl Limit
       else bindE (pub_io env) (\<lambda>env. retired_rows j state t env))))"

definition retired_generations :: "Json \<Rightarrow> Database \<Rightarrow> env \<Rightarrow> PublicationError + RetiredGeneration list \<times> env" where
  "retired_generations j = observe_database (read_retirements j)"

definition check_retired :: "Json \<Rightarrow> State \<Rightarrow> RetiredGeneration \<Rightarrow> Database \<Rightarrow> env \<Rightarrow> PublicationError + Database \<times> env" where
  "check_retired j state retired db env =
     (let g = rg_generation retired in
      if s_namespace state \<noteq> Some (g_namespace g)
         \<or> (case s_current state of None \<Rightarrow> False | Some c \<Rightarrow> g_sequence c = g_sequence g)
         \<or> (case s_pending state of None \<Rightarrow> False | Some p \<Rightarrow> g_sequence (pd_generation p) = g_sequence g)
      then Inl Stale
      else
        bindE (w_open Database RETIRED db env) (\<lambda>(db, env).
        bindE (w_get Database RETIRED (be_bytes (g_sequence g)) db env) (\<lambda>(v, env).
        bindE (ok_or Stale v) (\<lambda>v.
        bindE (ok_or Corrupt (retired_from_slice j v)) (\<lambda>actual.
        if rg_generation actual \<noteq> g \<or> rg_remote_owned actual \<noteq> rg_remote_owned retired
           \<or> rg_unresolved_build actual \<noteq> rg_unresolved_build retired
        then Inl Stale else Inr (db, env))))))"

text \<open>The rows from the prefix on, in key order.\<close>

definition from_prefix :: "bytes \<Rightarrow> table \<Rightarrow> table" where
  "from_prefix pre t = dropWhile (\<lambda>e. fst e < pre) t"

definition starts_with :: "bytes \<Rightarrow> bytes \<Rightarrow> bool" where
  "starts_with pre k \<longleftrightarrow> take (length pre) k = pre"

fun prefix_keys :: "bytes \<Rightarrow> (bytes \<times> bytes) list \<Rightarrow> env \<Rightarrow> PublicationError + bytes list \<times> env" where
  "prefix_keys pre [] env = Inr ([], env)"
| "prefix_keys pre ((k, v) # rows) env =
     bindE (pub_io env) (\<lambda>env.
     if \<not> starts_with pre k then Inr ([], env)
     else bindE (prefix_keys pre rows env) (\<lambda>(keys, env). Inr (k # keys, env)))"

datatype DataTable = SourcesTable | PagesTable | EvidenceTable

fun data_table :: "DataTable \<Rightarrow> string" where
  "data_table SourcesTable = SOURCES"
| "data_table PagesTable = PAGES"
| "data_table EvidenceTable = EVIDENCE"

definition retirement_keys :: "DataTable \<Rightarrow> bytes \<Rightarrow> Database \<Rightarrow> env \<Rightarrow> PublicationError + bytes list \<times> env" where
  "retirement_keys d pre db env =
     bindE (r_open Corrupt db (data_table d) env) (\<lambda>(t, env).
     bindE (pub_io env) (\<lambda>env.
     prefix_keys pre (take 32 (from_prefix pre t)) env))"

fun remove_keys :: "string \<Rightarrow> bytes list \<Rightarrow> Database \<Rightarrow> env \<Rightarrow> PublicationError + Database \<times> env" where
  "remove_keys name [] db env = Inr (db, env)"
| "remove_keys name (k # ks) db env =
     bindE (w_remove Database name k db env) (\<lambda>((_, db), env). remove_keys name ks db env)"

definition remove_rows :: "Json \<Rightarrow> RetiredGeneration \<Rightarrow> string \<Rightarrow> bytes list \<Rightarrow> unit editor" where
  "remove_rows j retired name keys db state env =
     bindE (check_retired j state retired db env) (\<lambda>(db, env).
     bindE (w_open Database name db env) (\<lambda>(db, env).
     bindE (remove_keys name keys db env) (\<lambda>(db, env). Inr (((), state, db), env))))"

end
