(* ===== verification/Retirement.thy ===== *)
theory Retirement
  imports Publication
begin

text \<open>
  Interruption of the publication operations, what an accepted write transaction did, and the
  chunked removal of a retired generation (\<open>finish_retirement\<close> of \<open>publication.rs\<close>), whose loops
  end because every accepted chunk removes rows.
\<close>

section \<open>Interruption\<close>

abbreviation pub_interrupts :: "PublicationError set" where
  "pub_interrupts \<equiv> {Cancelled, Deadline, Database, Corrupt, Allocation, Limit}"

lemma pub_quiet [simp]: "pub_check [] = Inr []" "pub_io [] = Inr []"
  by (simp_all add: pub_check_def pub_io_def)

lemma pub_polls [interruptible_intros]:
  "polls pub_interrupts pub_check" "polls pub_interrupts pub_io"
  "polls pub_interrupts (reserve_with Allocation)"
  unfolding pub_check_def pub_io_def by (auto intro: polls_check polls_io polls_reserve)

lemma pub_store_interruptible [interruptible_intros]:
  "interruptible pub_interrupts (r_open Corrupt db n)" "interruptible pub_interrupts (r_open Database db n)"
  "interruptible pub_interrupts (r_get Database t k)"
  "interruptible pub_interrupts (w_open Database n db)" "interruptible pub_interrupts (w_get Database n k db)"
  "interruptible pub_interrupts (w_insert Database n k v db)"
  "interruptible pub_interrupts (w_remove Database n k db)"
  by (auto intro: store_interruptible)

lemma pub_source_interruptible [interruptible_intros]:
  assumes "interruptible sc_interrupts f"
  shows "interruptible pub_interrupts (\<lambda>env. mapErr pub_source_error (f env))"
  using assms by (rule interruptible_mapErr) auto

lemma wanted_interruptible [interruptible_intros]:
  "interruptible sc_interrupts (wanted_revision db)" "interruptible sc_interrupts (write_wanted_revision db)"
  unfolding wanted_revision_def write_wanted_revision_def by (intro interruptible_intros)+

lemma encode_source_interruptible [interruptible_intros]: "interruptible pub_interrupts (encode_source e)"
  unfolding encode_source_def by (intro interruptible_intros)

lemma encode_page_interruptible [interruptible_intros]: "interruptible pub_interrupts (encode_page p)"
  unfolding encode_page_def by (intro interruptible_intros)

lemma decode_page_interruptible [interruptible_intros]: "interruptible pub_interrupts (decode_page bs)"
  unfolding decode_page_def Let_def by (intro interruptible_intros)

lemma read_state_interruptible [interruptible_intros]: "interruptible pub_interrupts (read_state j db)"
  unfolding read_state_def by (intro interruptible_intros)

lemma check_wanted_interruptible [interruptible_intros]:
  "interruptible pub_interrupts (check_wanted ns w db)"
  unfolding check_wanted_def by (intro interruptible_intros)

lemma observe_database_interruptible [interruptible_intros]:
  "(\<And>db. interruptible pub_interrupts (read db)) \<Longrightarrow> interruptible pub_interrupts (observe_database read db)"
  unfolding observe_database_def by (intro interruptible_intros)

lemma observe_interruptible [interruptible_intros]:
  "(\<And>db. interruptible pub_interrupts (read db)) \<Longrightarrow> interruptible pub_interrupts (observe read db)"
  unfolding observe_def by (intro interruptible_intros)

lemma edit_body_interruptible:
  "(\<And>db state. interruptible pub_interrupts (write db state)) \<Longrightarrow> interruptible pub_interrupts (edit_body j write db)"
  unfolding edit_body_def Let_def by (intro interruptible_intros)

lemma check_retired_interruptible [interruptible_intros]:
  "interruptible pub_interrupts (check_retired j state retired db)"
  unfolding check_retired_def Let_def by (intro interruptible_intros)

text \<open>Loops are interruptible by induction, one equation of the loop at a time.\<close>

lemma interruptible_eq: "(\<And>env. f env = g env) \<Longrightarrow> interruptible I g \<Longrightarrow> interruptible I f"
  by (simp add: interruptible_def)

lemma remove_keys_interruptible [interruptible_intros]: "interruptible pub_interrupts (remove_keys n ks db)"
proof (induction ks arbitrary: db)
  case Nil
  show ?case by (rule interruptible_eq [OF remove_keys.simps(1)]) (intro interruptible_intros)
next
  case (Cons k ks)
  show ?case by (rule interruptible_eq [OF remove_keys.simps(2)]) (intro interruptible_intros Cons.IH)
qed

lemma remove_rows_interruptible [interruptible_intros]:
  "interruptible pub_interrupts (remove_rows j retired n ks db state)"
  unfolding remove_rows_def by (intro interruptible_intros)

section \<open>Accepted transactions\<close>

definition atomic_editor :: "'a editor \<Rightarrow> bool" where
  "atomic_editor write \<longleftrightarrow> (\<forall>db state. interruptible pub_interrupts (write db state))"

definition pub_opened :: "Database \<Rightarrow> Database" where
  "pub_opened db = ensure STATE (ensure RETIRED (ensure EVIDENCE (ensure PAGES (ensure SOURCES db))))"

lemma the_table_pub_opened [simp]: "the_table (pub_opened db) n = the_table db n"
  by (simp add: pub_opened_def)

lemma ok_pub_opened [simp]: "db_ok db \<Longrightarrow> db_ok (pub_opened db)"
  by (simp add: pub_opened_def)

abbreviation pub_value :: "Database \<Rightarrow> bytes option" where
  "pub_value db \<equiv> tbl_get (the_table db STATE) STATE_KEY"

text \<open>The state a transaction starts from: that of the header, or the default of a fresh root.\<close>

definition state_at :: "Json \<Rightarrow> Database \<Rightarrow> State option" where
  "state_at j db = (case pub_value db of Some v \<Rightarrow> ok_of (decode_state j v)
     | None \<Rightarrow> if STATE \<in> set (list_tables db) then None else Some State_default)"

definition edited ::
  "Json \<Rightarrow> 'a editor \<Rightarrow> Database \<Rightarrow> 'a \<Rightarrow> Database \<Rightarrow> bool" where
  "edited j write db res work \<longleftrightarrow> (\<exists>state state' db1 bs. state_at j db = Some state \<and>
     write (pub_opened db) state [] = Inr ((res, state', db1), []) \<and>
     state_bytes j state' = Inr bs \<and> work = put_in STATE STATE_KEY bs (ensure STATE db1))"

lemma not_existed: "STATE \<notin> set (list_tables db) \<Longrightarrow> pub_value db = None"
  using get_table_iff [of db STATE] by (auto simp: the_table_def)

lemma edit_body_Inr:
  assumes "edit_body j write db env = Inr ((res, work), env')"
    and "atomic_editor write"
  shows "edited j write db res work"
proof -
  have "edit_body j write db [] = Inr ((res, work), [])"
    using interruptible_Inr [OF edit_body_interruptible assms(1)] assms(2) by (simp add: atomic_editor_def)
  then obtain state r where
      s: "(case pub_value db of Some v \<Rightarrow> decode_state j v
        | None \<Rightarrow> if STATE \<notin> set (list_tables db) then Inr State_default else Inl Corrupt) = Inr state"
      and r: "write (pub_opened db) state [] = Inr r"
      "bindE (Inr r) (\<lambda>((res, state, db), env).
         bindE (state_bytes j state) (\<lambda>bs.
         bindE (w_open Database STATE db env) (\<lambda>(db, env).
         bindE (w_insert Database STATE STATE_KEY bs db env) (\<lambda>(db, env).
         bindE (pub_check env) (\<lambda>env. Inr ((res, db), env)))))) = Inr ((res, work), [])"
    unfolding edit_body_def Let_def
    by (simp add: pub_opened_def del: bindE_simps(1)) (auto simp: res_simps split: option.splits)
  obtain res1 state1 db1 env1 where p: "r = ((res1, state1, db1), env1)" by (metis surj_pair)
  then have "env1 = []"
    using interruptible_Inr [OF assms(2) [unfolded atomic_editor_def, rule_format] r(1) [unfolded p]] r(1) by simp
  moreover have "state_at j db = Some state"
    using s by (auto simp: state_at_def split: option.splits if_splits)
  ultimately show ?thesis using r p unfolding edited_def by (auto simp: res_simps)
qed

lemma edit_database_cases:
  assumes "edit_database j write db env = (res, db')"
    and "atomic_editor write"
  shows "(\<exists>e. res = Inl e \<and> db' = db) \<or>
    (\<exists>x. edited j write db x db' \<and> (res = Inl Database \<or> (\<exists>env'. res = Inr (x, env'))))"
proof (cases "edit_body j write db env")
  case (Inl e)
  then show ?thesis using assms(1) by (auto simp: edit_database_def)
next
  case (Inr p)
  obtain x work env1 where p: "p = ((x, work), env1)" by (metis surj_pair)
  obtain ok db1 env2 where w: "w_commit work db env1 = ((ok, db1), env2)" by (metis surj_pair)
  have "edited j write db x work" using edit_body_Inr [of j "write" db env x work env1] assms(2) Inr p by simp
  moreover have "res = (if ok then Inr (x, env2) else Inl Database)" "db' = db1"
    using assms(1) Inr p w by (auto simp: edit_database_def)
  ultimately show ?thesis using w_commit_cases [OF w] by auto
qed

lemma edit_cases:
  assumes "edit j write db env = (res, db')"
    and "atomic_editor write"
  shows "(\<exists>e. res = Inl e \<and> db' = db) \<or>
    (\<exists>x. edited j write db x db' \<and> (res = Inl Database \<or> (\<exists>env'. res = Inr (x, env'))))"
  using assms(1) edit_database_cases [of j "write" _ _ res db'] assms(2)
  by (cases "bindE (pub_check env) pub_io") (auto simp: edit_def)

section \<open>Table names\<close>

lemmas pub_table_defs = STATE_def SOURCES_def PAGES_def EVIDENCE_def RETIRED_def

lemma pub_names_distinct [simp]:
  "STATE \<noteq> SOURCES" "SOURCES \<noteq> STATE" "STATE \<noteq> PAGES" "PAGES \<noteq> STATE" "STATE \<noteq> EVIDENCE" "EVIDENCE \<noteq> STATE"
  "STATE \<noteq> RETIRED" "RETIRED \<noteq> STATE" "SOURCES \<noteq> PAGES" "PAGES \<noteq> SOURCES" "SOURCES \<noteq> EVIDENCE"
  "EVIDENCE \<noteq> SOURCES" "SOURCES \<noteq> RETIRED" "RETIRED \<noteq> SOURCES" "PAGES \<noteq> EVIDENCE" "EVIDENCE \<noteq> PAGES"
  "PAGES \<noteq> RETIRED" "RETIRED \<noteq> PAGES" "EVIDENCE \<noteq> RETIRED" "RETIRED \<noteq> EVIDENCE"
  by (simp_all add: pub_table_defs)

lemma data_table_names [simp]:
  "data_table d \<noteq> STATE" "STATE \<noteq> data_table d" "data_table d \<noteq> RETIRED" "RETIRED \<noteq> data_table d"
  by (cases d; simp)+

section \<open>Removed rows\<close>

definition del_keys :: "bytes list \<Rightarrow> table \<Rightarrow> table" where
  "del_keys ks t = filter (\<lambda>e. fst e \<notin> set ks) t"

lemma tbl_get_del_keys: "tbl_get (del_keys ks t) k = (if k \<in> set ks then None else tbl_get t k)"
  by (induction t) (auto simp: del_keys_def tbl_get_def)

lemma remove_keys_Inr:
  assumes "remove_keys n ks db [] = Inr (db', env)"
  shows "(\<forall>m. the_table db' m = (if m = n then del_keys ks (the_table db n) else the_table db m)) \<and>
    (db_ok db \<longrightarrow> db_ok db') \<and> db_multimaps db' = db_multimaps db \<and>
    set (list_tables db') \<subseteq> insert n (set (list_tables db)) \<and> set (list_tables db) \<subseteq> set (list_tables db')"
  using assms
proof (induction ks arbitrary: db)
  case (Cons k ks)
  then show ?case
    using Cons.IH [of "del_in n k db"]
    by (auto simp: the_table_del_in del_keys_def tbl_del_def intro!: filter_cong)
qed (auto simp: del_keys_def)

lemma check_retired_Inr:
  assumes "check_retired j state retired db [] = Inr (db', env)"
  shows "env = [] \<and> db' = ensure RETIRED db \<and> s_namespace state = Some (g_namespace (rg_generation retired)) \<and>
    (\<forall>c. s_current state = Some c \<longrightarrow> g_sequence c \<noteq> g_sequence (rg_generation retired)) \<and>
    (\<forall>p. s_pending state = Some p \<longrightarrow> g_sequence (pd_generation p) \<noteq> g_sequence (rg_generation retired))"
  using assms by (auto simp: check_retired_def Let_def res_simps split: if_splits option.splits)

lemma remove_rows_atomic: "atomic_editor (remove_rows j retired n ks)"
  unfolding atomic_editor_def by (intro allI interruptible_intros)

lemma remove_rows_edited:
  assumes "edited j (remove_rows j retired (data_table d) ks) db u work"
  shows "the_table work (data_table d) = del_keys ks (the_table db (data_table d))"
  using assms unfolding edited_def remove_rows_def
  by (auto simp: res_simps the_table_put_in dest!: check_retired_Inr remove_keys_Inr)

lemma prefix_keys_quiet:
  "prefix_keys pre rows [] = Inr (map fst (takeWhile (\<lambda>e. starts_with pre (fst e)) rows), [])"
  by (induction rows) auto

lemma prefix_keys_interruptible [interruptible_intros]: "interruptible pub_interrupts (prefix_keys pre rows)"
proof (induction rows)
  case Nil
  show ?case by (rule interruptible_eq [OF prefix_keys.simps(1)]) (intro interruptible_intros)
next
  case (Cons r rows)
  obtain k v where r: "r = (k, v)" by (cases r)
  show ?case unfolding r by (rule interruptible_eq [OF prefix_keys.simps(2)]) (intro interruptible_intros Cons.IH)
qed

lemma retirement_keys_interruptible [interruptible_intros]:
  "interruptible pub_interrupts (retirement_keys d pre db)"
  unfolding retirement_keys_def by (intro interruptible_intros)

lemma observed_keys:
  assumes "observe_database (retirement_keys d pre) db env = Inr (keys, env')"
  shows "keys = map fst (takeWhile (\<lambda>e. starts_with pre (fst e)) (take 32 (from_prefix pre (the_table db (data_table d)))))"
proof -
  have "observe_database (retirement_keys d pre) db [] = Inr (keys, [])"
    using interruptible_Inr [OF observe_database_interruptible assms] retirement_keys_interruptible by blast
  then show ?thesis
    by (auto simp: observe_database_def retirement_keys_def res_simps prefix_keys_quiet the_table_def)
qed

lemma observed_keys_in:
  "observe_database (retirement_keys d pre) db env = Inr (keys, env') \<Longrightarrow> k \<in> set keys \<Longrightarrow>
   k \<in> fst ` set (the_table db (data_table d)) \<and> starts_with pre k"
  by (auto simp: from_prefix_def dest!: observed_keys set_takeWhileD in_set_takeD set_dropWhileD)

lemma del_keys_shorter:
  assumes "ks \<noteq> []" "set ks \<subseteq> fst ` set t"
  shows "length (del_keys ks t) < length t"
proof -
  obtain e where "e \<in> set t" "fst e \<in> set ks" using assms by (cases ks) auto
  then show ?thesis unfolding del_keys_def by (intro length_filter_less) auto
qed

lemma retire_shrinks:
  assumes "observe_database (retirement_keys d pre) db env = Inr (keys, env1)" "keys \<noteq> []"
    and "edit_database j (remove_rows j retired (data_table d) keys) db env1 = (Inr (u, env2), db2)"
  shows "length (the_table db2 (data_table d)) < length (the_table db (data_table d))"
proof -
  have "edited j (remove_rows j retired (data_table d) keys) db u db2"
    using edit_database_cases [OF assms(3) remove_rows_atomic] by auto
  then have "the_table db2 (data_table d) = del_keys keys (the_table db (data_table d))"
    by (rule remove_rows_edited)
  moreover have "set keys \<subseteq> fst ` set (the_table db (data_table d))"
    using observed_keys_in [OF assms(1)] by blast
  ultimately show ?thesis using del_keys_shorter assms(2) by simp
qed

section \<open>Model: the removal of a retired generation\<close>

function retire_table ::
  "Json \<Rightarrow> RetiredGeneration \<Rightarrow> DataTable \<Rightarrow> Database \<Rightarrow> env \<Rightarrow> unit dbres" where
  "retire_table j retired d db env =
     (case observe_database (retirement_keys d (be_bytes (g_sequence (rg_generation retired)))) db env of
        Inl e \<Rightarrow> (Inl e, db)
      | Inr (keys, env) \<Rightarrow>
          if keys = [] then (Inr ((), env), db)
          else (case edit_database j (remove_rows j retired (data_table d) keys) db env of
              (Inl e, db) \<Rightarrow> (Inl e, db)
            | (Inr (_, env), db) \<Rightarrow> retire_table j retired d db env))"
  by pat_completeness auto
termination
  by (relation "measure (\<lambda>(j, retired, d, db, env). length (the_table db (data_table d)))")
    (simp_all, metis retire_shrinks)

declare retire_table.simps [simp del]

definition forget_retired :: "Json \<Rightarrow> RetiredGeneration \<Rightarrow> unit editor" where
  "forget_retired j retired db state env =
     bindE (check_retired j state retired db env) (\<lambda>(db, env).
     bindE (w_open Database RETIRED db env) (\<lambda>(db, env).
     bindE (w_remove Database RETIRED (be_bytes (g_sequence (rg_generation retired))) db env) (\<lambda>((_, db), env).
     Inr (((), state, db), env))))"

definition finish_retirement :: "Json \<Rightarrow> RetiredGeneration \<Rightarrow> Database \<Rightarrow> env \<Rightarrow> unit dbres" where
  "finish_retirement j retired db env =
     (if rg_unresolved_build retired \<noteq> None then (Inl Unresolved, db)
      else
        bindD (retire_table j retired SourcesTable db env) (\<lambda>_ db env.
        bindD (retire_table j retired PagesTable db env) (\<lambda>_ db env.
        bindD (retire_table j retired EvidenceTable db env) (\<lambda>_ db env.
        edit_database j (forget_retired j retired) db env))))"

end
