(* ===== verification/PublicationFrame.thy ===== *)
theory PublicationFrame
  imports Retirement PreparationSafety
begin

text \<open>
  What the transactions of a publication may touch. Keys of different generations differ, a
  publication transaction changes publication tables only and so keeps the corpus, and every
  transaction is all or nothing whatever the environment does.
\<close>

section \<open>Keys\<close>

lemma length_be_bytes [simp]: "length (be_bytes n) = 8"
  by (simp add: be_bytes_def)

lemma be_bytes_inject: "m < u64_bound \<Longrightarrow> n < u64_bound \<Longrightarrow> be_bytes m = be_bytes n \<longleftrightarrow> m = n"
  by (simp add: be_bytes_def le_bytes_eq_iff)

lemma gen_key_inject:
  "m < u64_bound \<Longrightarrow> n < u64_bound \<Longrightarrow> gen_key m s = gen_key n t \<longleftrightarrow> m = n \<and> s = t"
  by (auto simp: gen_key_def be_bytes_inject)

lemma gen_key_same [simp]: "gen_key n s = gen_key n t \<longleftrightarrow> s = t"
  by (simp add: gen_key_def)

lemma starts_with_gen_key: "starts_with (be_bytes n) k \<longleftrightarrow> (\<exists>s. k = gen_key n s)"
proof
  assume "starts_with (be_bytes n) k"
  then have "k = gen_key n (drop 8 k)" by (metis append_take_drop_id gen_key_def length_be_bytes starts_with_def)
  then show "\<exists>s. k = gen_key n s" ..
qed (auto simp: starts_with_def gen_key_def)

section \<open>The footprint of a transaction\<close>

definition pub_frame :: "Database \<Rightarrow> Database \<Rightarrow> bool" where
  "pub_frame db db' \<longleftrightarrow> (\<forall>n. n \<notin> PUB \<longrightarrow> get_table db' n = get_table db n) \<and>
     (db_ok db \<longrightarrow> db_ok db') \<and> db_multimaps db' = db_multimaps db \<and>
     set (list_tables db) \<subseteq> set (list_tables db')"

lemma pub_frame_refl [simp]: "pub_frame db db"
  by (simp add: pub_frame_def)

lemma pub_frame_trans: "pub_frame a b \<Longrightarrow> pub_frame b c \<Longrightarrow> pub_frame a c"
  by (auto simp: pub_frame_def)

lemma pub_frame_writes:
  "n \<in> PUB \<Longrightarrow> pub_frame db (ensure n db)" "n \<in> PUB \<Longrightarrow> pub_frame db (put_in n k v db)"
  "n \<in> PUB \<Longrightarrow> pub_frame db (del_in n k db)"
  by (auto simp: pub_frame_def intro!: get_table_writes)

lemma pub_names [simp]: "STATE \<in> PUB" "SOURCES \<in> PUB" "PAGES \<in> PUB" "EVIDENCE \<in> PUB" "RETIRED \<in> PUB"
  by (simp_all add: pub_table_defs PUBLICATION_TABLE_NAMES_def)

lemma pub_names_all: "PUB = {STATE, SOURCES, PAGES, EVIDENCE, RETIRED}"
  by (auto simp: pub_table_defs PUBLICATION_TABLE_NAMES_def)

lemma data_table_pub [simp]: "data_table d \<in> PUB"
  by (cases d) simp_all

lemma pub_frame_opened: "pub_frame db (pub_opened db)"
  by (auto simp: pub_opened_def pub_frame_def pub_names_all get_table_writes)

lemma pub_opened_names: "PUB \<subseteq> set (list_tables (pub_opened db))"
  by (simp add: pub_opened_def pub_names_all)

lemma pub_frame_the: "pub_frame db db' \<Longrightarrow> n \<notin> PUB \<Longrightarrow> the_table db' n = the_table db n"
  by (simp add: pub_frame_def the_table_def)

lemma pub_frame_corpus:
  assumes "pub_frame db db'"
  shows "st_of db' = st_of db" "rows_of db' = rows_of db" "locs_of db' = locs_of db" "preps_of db' = preps_of db"
    "sources_of db' = sources_of db" "prep_of db' = prep_of db" "source_at db' = source_at db" "wanted_of db' = wanted_of db"
proof -
  have t: "the_table db' n = the_table db n" if "n \<in> {SOURCE_STATE, SOURCE_ROWS, SOURCE_LOCATORS, PREPARATIONS}" for n
    using pub_frame_the [OF assms] that base_not_pub by auto
  then show "st_of db' = st_of db" "rows_of db' = rows_of db" "locs_of db' = locs_of db" "preps_of db' = preps_of db"
    by simp_all
  then show "sources_of db' = sources_of db" "prep_of db' = prep_of db" "source_at db' = source_at db" "wanted_of db' = wanted_of db"
    by (simp_all add: fun_eq_iff sources_of_def prep_of_def source_at_def wanted_of_def)
qed

lemma pub_frame_names: "pub_frame db db' \<Longrightarrow> set (list_tables db') - PUB = set (list_tables db) - PUB"
proof (intro set_eqI iffI; elim DiffE; intro DiffI)
  fix x assume f: "pub_frame db db'" and x: "x \<notin> PUB"
  have "get_table db' x = get_table db x" using f x by (simp add: pub_frame_def)
  then show "x \<in> set (list_tables db') \<Longrightarrow> x \<in> set (list_tables db)"
      "x \<in> set (list_tables db) \<Longrightarrow> x \<in> set (list_tables db')"
    using get_table_iff by metis+
qed

lemma pub_frame_root:
  assumes "pub_frame db db'" "root_ok db" "PUB \<subseteq> set (list_tables db')"
  shows "root_ok db'"
proof -
  note c = pub_frame_corpus [OF assms(1)] and n = pub_frame_names [OF assms(1)]
  have p: "SourceLaws.pub_ok (set (list_tables db'))" using assms(3) by (simp add: pub_ok_def)
  have "fresh_control db \<Longrightarrow> fresh_control db'" "current_schema db \<Longrightarrow> current_schema db'"
    using p n by (auto simp: fresh_control_def current_schema_def)
  moreover have "sources_inv ns db \<Longrightarrow> sources_inv ns db'" for ns
    by (simp add: sources_inv_def row_ok_def locator_ok_def c)
  moreover have "preps_inv db \<Longrightarrow> preps_inv db'" by (simp add: preps_inv_def c)
  moreover have "db_ok db \<Longrightarrow> db_ok db'" "db_multimaps db' = db_multimaps db"
    using assms(1) by (auto simp: pub_frame_def)
  ultimately show ?thesis using assms(2) by (auto simp: root_ok_def control_ok_def)
qed

section \<open>The corpus guard\<close>

definition namespace_of :: "Database \<Rightarrow> bytes option" where
  "namespace_of db = (if SOURCE_STATE \<in> set (list_tables db) then st_of db NAMESPACE_KEY else None)"

lemma ensure_present: "n \<in> set (list_tables db) \<Longrightarrow> ensure n db = db"
  using get_table_iff [of db n] by (auto simp: ensure_def)

lemma check_wanted_Inr:
  assumes "check_wanted ns w db [] = Inr (db', env)"
  shows "env = [] \<and> db' = db \<and> w = wanted_of db \<and> ns = namespace_of db"
  using assms not_listed [of SOURCE_STATE db]
  by (auto simp: check_wanted_def res_simps write_wanted_revision_def ensure_present namespace_of_def wanted_of_def
      u64_value_def split: if_splits option.splits)

lemma pending_mut_Inr:
  "pending_mut state expected = Inr p \<Longrightarrow> s_pending state = Some p \<and>
     g_namespace (pd_generation p) = g_namespace (pd_generation expected) \<and>
     g_sequence (pd_generation p) = g_sequence (pd_generation expected)"
  by (auto simp: pending_mut_def res_simps split: if_splits)

lemma set_pending_simps [simp]:
  "s_version (set_pending p s) = s_version s" "s_namespace (set_pending p s) = s_namespace s"
  "s_next_sequence (set_pending p s) = s_next_sequence s" "s_current_revision (set_pending p s) = s_current_revision s"
  "s_current (set_pending p s) = s_current s" "s_pending (set_pending p s) = Some p"
  by (simp_all add: set_pending_def)

section \<open>Every transaction is atomic\<close>

lemma insert_inputs_interruptible [interruptible_intros]: "interruptible pub_interrupts (insert_inputs rows db)"
proof (induction rows arbitrary: db)
  case Nil
  show ?case by (rule interruptible_eq [OF insert_inputs.simps(1)]) (intro interruptible_intros)
next
  case (Cons r rows)
  obtain k v where r: "r = (k, v)" by (cases r)
  show ?case unfolding r by (rule interruptible_eq [OF insert_inputs.simps(2)]) (intro interruptible_intros Cons.IH)
qed

lemma stage_points_interruptible [interruptible_intros]: "interruptible pub_interrupts (stage_points p points db)"
proof (induction points arbitrary: p db)
  case Nil
  show ?case by (rule interruptible_eq [OF stage_points.simps(1)]) (intro interruptible_intros)
next
  case (Cons r points)
  show ?case
    by (rule interruptible_eq [OF stage_points.simps(2)], unfold Let_def) (intro interruptible_intros Cons.IH)
qed

lemma encode_inputs_interruptible [interruptible_intros]: "interruptible pub_interrupts (encode_inputs n cs)"
proof (induction cs)
  case Nil
  show ?case by (rule interruptible_eq [OF encode_inputs.simps(1)]) (intro interruptible_intros)
next
  case (Cons c cs)
  show ?case by (rule interruptible_eq [OF encode_inputs.simps(2)]) (intro interruptible_intros Cons.IH)
qed

lemma insert_retired_interruptible [interruptible_intros]: "interruptible pub_interrupts (insert_retired j r db)"
  unfolding insert_retired_def by (intro interruptible_intros)

lemma editors_atomic:
  "atomic_editor (reserve_generation cap ns)" "atomic_editor (save_inputs p rows)"
  "atomic_editor (save_page p page bs)" "atomic_editor (complete_source p sid units)"
  "atomic_editor (seal_capture p)" "atomic_editor (note_dispatch p op)"
  "atomic_editor (settle_dispatch p op n applied)" "atomic_editor (switch_current j p)"
  "atomic_editor (drop_pending j p)" "atomic_editor (set_aside j p)" "atomic_editor (forget_retired j r)"
  unfolding atomic_editor_def reserve_generation_def save_inputs_def save_page_def complete_source_def
    seal_capture_def note_dispatch_def settle_dispatch_def switch_current_def drop_pending_def set_aside_def
    forget_retired_def Let_def
  by (intro allI interruptible_intros)+

end
