(* ===== verification/PublicationInvariant.thy ===== *)
theory PublicationInvariant
  imports PublicationFrame
begin

text \<open>
  The invariant of the publication tables. The header decodes and is sane, rows of every
  generation are addressed by a sequence that was reserved, the rows of the pending and of the
  current generation are consistent with the counters of their headers, every counted point
  resolves to its source, and retired obligations are of other generations.
\<close>

section \<open>Abstract rows of a generation\<close>

abbreviation row_in :: "Database \<Rightarrow> DataTable \<Rightarrow> nat \<Rightarrow> bytes \<Rightarrow> bytes option" where
  "row_in db d n suffix \<equiv> tbl_get (the_table db (data_table d)) (gen_key n suffix)"

definition entry_of :: "Database \<Rightarrow> nat \<Rightarrow> bytes \<Rightarrow> SourceEntry option" where
  "entry_of db n sid = Option.bind (row_in db SourcesTable n sid) (\<lambda>v. ok_of (decode_source v))"

definition rows_for :: "Database \<Rightarrow> nat \<Rightarrow> bytes set" where
  "rows_for db n = {sid. row_in db SourcesTable n sid \<noteq> None}"

definition done_for :: "Database \<Rightarrow> nat \<Rightarrow> bytes set" where
  "done_for db n = {sid. \<exists>e. entry_of db n sid = Some e \<and> se_complete e}"

definition binds :: "PointEvidence \<Rightarrow> SourceEntry \<Rightarrow> bool" where
  "binds ev e \<longleftrightarrow> (let c = se_captured e in pe_source_id ev = source_id (ca_source c) \<and>
     pe_namespace_id ev = source_namespace_id (ca_source c) \<and> pe_input ev = object_ref (ca_source c) \<and>
     ready_artifact c = Some (pe_prepared ev) \<and> pe_unit ev < se_staged_units e)"

definition point_ok :: "Database \<Rightarrow> nat \<Rightarrow> nat \<Rightarrow> bool" where
  "point_ok db n i \<longleftrightarrow> (\<exists>ev e. row_in db EvidenceTable n (be_bytes n @ be_bytes i) = Some (encode_evidence ev) \<and>
     storable_evidence ev \<and> entry_of db n (pe_source_id ev) = Some e \<and> binds ev e)"

definition page_ok :: "Database \<Rightarrow> nat \<Rightarrow> nat \<Rightarrow> bool" where
  "page_ok db n i \<longleftrightarrow> (\<exists>bs page. row_in db PagesTable n (be_bytes i) = Some bs \<and> decode_page bs [] = Inr (page, []))"

definition entries_ok :: "Database \<Rightarrow> nat \<Rightarrow> bool" where
  "entries_ok db n \<longleftrightarrow> (\<forall>sid \<in> rows_for db n. \<exists>e. entry_of db n sid = Some e \<and> storable_entry e \<and>
     source_id (ca_source (se_captured e)) = sid)"

definition data_ok :: "Database \<Rightarrow> Generation \<Rightarrow> bool" where
  "data_ok db g \<longleftrightarrow> (let n = g_sequence g in entries_ok db n \<and> card (rows_for db n) \<le> g_source_count g \<and>
     (\<forall>i < g_point_count g. point_ok db n i) \<and> (\<forall>i < g_page_count g. page_ok db n i) \<and>
     g_page_count g \<le> g_point_count g)"

definition published_ok :: "Database \<Rightarrow> Generation \<Rightarrow> bool" where
  "published_ok db g \<longleftrightarrow> data_ok db g \<and> rows_for db (g_sequence g) = done_for db (g_sequence g) \<and>
     card (rows_for db (g_sequence g)) = g_source_count g"

definition pending_ok :: "Database \<Rightarrow> PendingGeneration \<Rightarrow> bool" where
  "pending_ok db p \<longleftrightarrow> data_ok db (pd_generation p) \<and>
     card (done_for db (g_sequence (pd_generation p))) = pd_completed_sources p \<and>
     (pd_created p \<longrightarrow> pd_capture_complete p) \<and> (\<not> pd_created p \<longrightarrow> pd_uploaded_pages p = 0) \<and>
     (\<forall>op. pd_in_flight p = Some op \<longrightarrow> pd_capture_complete p \<and> operation_due p op \<and> pd_operation_revision p \<noteq> 0)"

definition sane :: "State \<Rightarrow> bool" where
  "sane s \<longleftrightarrow> s_version s = 1 \<and> s_namespace s \<noteq> None \<and> s_next_sequence s \<noteq> 0 \<and>
     (\<forall>g. s_current s = Some g \<longrightarrow> generation_sane s g) \<and>
     (\<forall>p. s_pending s = Some p \<longrightarrow> generation_sane s (pd_generation p) \<and> \<not> pending_insane s p) \<and>
     (s_current s \<noteq> None \<longleftrightarrow> s_current_revision s \<noteq> 0)"

definition other_than :: "State \<Rightarrow> nat \<Rightarrow> bool" where
  "other_than s n \<longleftrightarrow> (\<forall>c. s_current s = Some c \<longrightarrow> g_sequence c \<noteq> n) \<and>
     (\<forall>p. s_pending s = Some p \<longrightarrow> g_sequence (pd_generation p) \<noteq> n)"

definition retired_ok :: "Json \<Rightarrow> State \<Rightarrow> bytes \<Rightarrow> bytes \<Rightarrow> bool" where
  "retired_ok j s k v \<longleftrightarrow> (\<exists>r. retired_from_slice j v = Some r \<and> k = be_bytes (g_sequence (rg_generation r)) \<and>
     s_namespace s = Some (g_namespace (rg_generation r)) \<and> g_sequence (rg_generation r) \<noteq> 0 \<and>
     g_sequence (rg_generation r) \<le> s_next_sequence s \<and> other_than s (g_sequence (rg_generation r)) \<and>
     (\<forall>p. rg_unresolved_build r = Some p \<longrightarrow>
        rg_remote_owned r = pd_created p \<and> pd_generation p = rg_generation r \<and> unresolved_shape p))"

definition pub_state_ok :: "Json \<Rightarrow> Database \<Rightarrow> State \<Rightarrow> bool" where
  "pub_state_ok j db s \<longleftrightarrow> (s = State_default \<or> sane s) \<and> s_next_sequence s < u64_bound \<and>
     (\<forall>d k v. tbl_get (the_table db (data_table d)) k = Some v \<longrightarrow> (\<exists>n suffix. k = gen_key n suffix \<and> n \<le> s_next_sequence s)) \<and>
     (\<forall>g. s_current s = Some g \<longrightarrow> published_ok db g) \<and>
     (\<forall>p. s_pending s = Some p \<longrightarrow> pending_ok db p) \<and>
     (\<forall>k v. tbl_get (the_table db RETIRED) k = Some v \<longrightarrow> retired_ok j s k v) \<and>
     length (the_table db RETIRED) + (if s_pending s = None then 0 else 1) \<le> MAX_RETIRED"

lemma pub_state_okI:
  assumes "s = State_default \<or> sane s" "s_next_sequence s < u64_bound"
    "\<And>d k v. tbl_get (the_table db (data_table d)) k = Some v \<Longrightarrow> \<exists>n suffix. k = gen_key n suffix \<and> n \<le> s_next_sequence s"
    "\<And>g. s_current s = Some g \<Longrightarrow> published_ok db g" "\<And>p. s_pending s = Some p \<Longrightarrow> pending_ok db p"
    "\<And>k v. tbl_get (the_table db RETIRED) k = Some v \<Longrightarrow> retired_ok j s k v"
    "length (the_table db RETIRED) + (if s_pending s = None then 0 else 1) \<le> MAX_RETIRED"
  shows "pub_state_ok j db s"
  using assms unfolding pub_state_ok_def by blast

lemma pub_state_okD:
  assumes "pub_state_ok j db s"
  shows "s = State_default \<or> sane s" "s_next_sequence s < u64_bound"
    "\<And>d k v. tbl_get (the_table db (data_table d)) k = Some v \<Longrightarrow> \<exists>n suffix. k = gen_key n suffix \<and> n \<le> s_next_sequence s"
    "\<And>g. s_current s = Some g \<Longrightarrow> published_ok db g" "\<And>p. s_pending s = Some p \<Longrightarrow> pending_ok db p"
    "\<And>k v. tbl_get (the_table db RETIRED) k = Some v \<Longrightarrow> retired_ok j s k v"
    "length (the_table db RETIRED) + (if s_pending s = None then 0 else 1) \<le> MAX_RETIRED"
  using assms unfolding pub_state_ok_def by blast+

definition pub_inv :: "Json \<Rightarrow> Database \<Rightarrow> bool" where
  "pub_inv j db \<longleftrightarrow> (\<exists>s. state_at j db = Some s \<and> pub_state_ok j db s)"

text \<open>The JSON library reads back what it wrote.\<close>

definition json_ok :: "Json \<Rightarrow> bool" where
  "json_ok j \<longleftrightarrow> (\<forall>s bs. state_to_vec j s = Some bs \<longrightarrow> state_from_slice j bs = Some s) \<and>
     (\<forall>r bs. retired_to_vec j r = Some bs \<longrightarrow> retired_from_slice j bs = Some r)"

section \<open>Headers\<close>

lemma decode_state_sane: "decode_state j bs = Inr s \<Longrightarrow> sane s"
  by (auto simp: decode_state_def sane_def state_generations_def res_simps split: if_splits option.splits)

lemma sane_decode_state:
  assumes "sane s" "state_bytes j s = Inr bs" "json_ok j"
  shows "decode_state j bs = Inr s"
proof -
  have b: "state_to_vec j s = Some bs" "length bs \<le> 16384"
    using assms(2) by (auto simp: state_bytes_def res_simps split: if_splits)
  have f: "state_from_slice j bs = Some s" using assms(3) b(1) by (auto simp: json_ok_def)
  show ?thesis using assms(1) b(2) f
    by (cases "s_current s"; cases "s_pending s") (auto simp: decode_state_def sane_def state_generations_def)
qed

section \<open>Agreement of databases on a generation\<close>

definition same_gen :: "nat \<Rightarrow> Database \<Rightarrow> Database \<Rightarrow> bool" where
  "same_gen n db db' \<longleftrightarrow> (\<forall>d suffix. row_in db' d n suffix = row_in db d n suffix)"

lemma same_gen_refl [simp]: "same_gen n db db"
  by (simp add: same_gen_def)

lemma same_gen_trans: "same_gen n a b \<Longrightarrow> same_gen n b c \<Longrightarrow> same_gen n a c"
  by (simp add: same_gen_def)

lemma same_gen_get:
  assumes "same_gen n db db'"
  shows "tbl_get (the_table db' SOURCES) (gen_key n s) = tbl_get (the_table db SOURCES) (gen_key n s)"
    "tbl_get (the_table db' PAGES) (gen_key n s) = tbl_get (the_table db PAGES) (gen_key n s)"
    "tbl_get (the_table db' EVIDENCE) (gen_key n s) = tbl_get (the_table db EVIDENCE) (gen_key n s)"
  using assms unfolding same_gen_def by (metis data_table.simps)+

lemma same_gen_entries: "same_gen n db db' \<Longrightarrow> entry_of db' n = entry_of db n"
  by (rule ext) (simp add: entry_of_def same_gen_get)

lemma same_gen_rows: "same_gen n db db' \<Longrightarrow> rows_for db' n = rows_for db n"
  by (simp add: rows_for_def same_gen_get)

lemma same_gen_done: "same_gen n db db' \<Longrightarrow> done_for db' n = done_for db n"
  using same_gen_entries [of n db db'] by (simp add: done_for_def)

lemma same_gen_points: "same_gen n db db' \<Longrightarrow> point_ok db' n i = point_ok db n i"
  by (simp add: point_ok_def same_gen_get same_gen_entries)

lemma same_gen_pages: "same_gen n db db' \<Longrightarrow> page_ok db' n i = page_ok db n i"
  by (simp add: page_ok_def same_gen_get)

lemma same_gen_data: "same_gen (g_sequence g) db db' \<Longrightarrow> data_ok db' g = data_ok db g"
  by (simp add: data_ok_def entries_ok_def Let_def same_gen_entries same_gen_rows same_gen_points same_gen_pages)

lemma same_gen_published: "same_gen (g_sequence g) db db' \<Longrightarrow> published_ok db' g = published_ok db g"
  by (simp add: published_ok_def same_gen_data same_gen_rows same_gen_done)

lemma same_gen_pending: "same_gen (g_sequence (pd_generation p)) db db' \<Longrightarrow> pending_ok db' p = pending_ok db p"
  by (simp add: pending_ok_def same_gen_data same_gen_done)

text \<open>Two databases with the same publication rows.\<close>

definition same_rows :: "Database \<Rightarrow> Database \<Rightarrow> bool" where
  "same_rows db db' \<longleftrightarrow> (\<forall>d. the_table db' (data_table d) = the_table db (data_table d)) \<and>
     the_table db' RETIRED = the_table db RETIRED"

lemma same_rows_gen: "same_rows db db' \<Longrightarrow> same_gen n db db'"
  by (simp add: same_rows_def same_gen_def)

lemma same_rows_state:
  assumes "same_rows db db'"
  shows "pub_state_ok j db' s = pub_state_ok j db s"
proof -
  have "published_ok db' g = published_ok db g" "pending_ok db' p = pending_ok db p" for g p
    using same_rows_gen [OF assms] same_gen_published same_gen_pending by blast+
  then show ?thesis using assms by (simp add: pub_state_ok_def same_rows_def)
qed

lemma same_rows_simps [simp]:
  "same_rows db db" "same_rows db (ensure n db)" "same_rows db (put_in STATE k v db)" "same_rows db (pub_opened db)"
  by (simp_all add: same_rows_def the_table_put_in)

lemma same_rows_trans: "same_rows a b \<Longrightarrow> same_rows b c \<Longrightarrow> same_rows a c"
  by (simp add: same_rows_def)

section \<open>Transactions and the invariant\<close>

text \<open>
  An editor keeps the invariant at a state and a working copy when it takes them to a sane and
  consistent pair, touching publication tables only.
\<close>

definition safe_edit :: "Json \<Rightarrow> 'a editor \<Rightarrow> Database \<Rightarrow> State \<Rightarrow> bool" where
  "safe_edit j write db s \<longleftrightarrow> (\<forall>x s' db'. write db s [] = Inr ((x, s', db'), []) \<longrightarrow>
     sane s' \<and> pub_state_ok j db' s' \<and> pub_frame db db')"

definition safe_editor :: "Json \<Rightarrow> 'a editor \<Rightarrow> bool" where
  "safe_editor j write \<longleftrightarrow> (\<forall>db s. db_ok db \<longrightarrow> pub_state_ok j db s \<longrightarrow> safe_edit j write db s)"

lemma pub_inv_frame:
  assumes "pub_inv j db" "the_table db' STATE = the_table db STATE" "same_rows db db'"
    "STATE \<in> set (list_tables db') \<longleftrightarrow> STATE \<in> set (list_tables db)"
  shows "pub_inv j db'"
proof -
  have "state_at j db' = state_at j db" using assms(2,4) by (simp add: state_at_def split: option.splits)
  then show ?thesis using assms(1) same_rows_state [OF assms(3)] by (simp add: pub_inv_def)
qed

lemma edited_safe:
  assumes e: "edited j write db x work" and j: "json_ok j"
    and w: "\<And>s. state_at j db = Some s \<Longrightarrow> db_ok db \<Longrightarrow> pub_state_ok j (pub_opened db) s \<Longrightarrow>
      safe_edit j write (pub_opened db) s"
    and inv: "pub_inv j db" and root: "root_ok db"
  obtains s s' db1 where "state_at j db = Some s" "pub_state_ok j db s"
    "write (pub_opened db) s [] = Inr ((x, s', db1), [])" "state_at j work = Some s'"
    "same_rows db1 work" "pub_inv j work" "root_ok work" "pub_frame db work" "pub_state_ok j work s'"
proof -
  obtain s s' db1 bs where s: "state_at j db = Some s"
      and wr: "write (pub_opened db) s [] = Inr ((x, s', db1), [])"
      and b: "state_bytes j s' = Inr bs" and wk: "work = put_in STATE STATE_KEY bs (ensure STATE db1)"
    using e unfolding edited_def by blast
  have ok: "db_ok db" using root by (simp add: root_ok_def control_ok_def)
  have ps: "pub_state_ok j db s" using inv s by (auto simp: pub_inv_def)
  then have "pub_state_ok j (pub_opened db) s" using same_rows_state [of db "pub_opened db"] by simp
  then have n: "sane s'" "pub_state_ok j db1 s'" "pub_frame (pub_opened db) db1"
    using w [OF s ok] wr unfolding safe_edit_def by blast+
  have ok1: "db_ok db1" using n(3) ok by (simp add: pub_frame_def)
  have r: "same_rows db1 work" using wk same_rows_trans same_rows_simps(2,3) by blast
  have "pub_value work = Some bs" using ok1 wk by (simp add: the_table_put_in tb.get_put)
  then have st: "state_at j work = Some s'" using sane_decode_state [OF n(1) b j] by (simp add: state_at_def)
  have pw: "pub_state_ok j work s'" using same_rows_state [OF r] n(2) by simp
  have f1: "pub_frame (pub_opened db) work"
    unfolding wk using pub_frame_trans [OF n(3) pub_frame_trans [OF pub_frame_writes(1) pub_frame_writes(2)]] by simp
  have f: "pub_frame db work" using pub_frame_trans [OF pub_frame_opened f1] .
  have "PUB \<subseteq> set (list_tables work)" using f1 pub_opened_names [of db] by (auto simp: pub_frame_def)
  then have "root_ok work" using pub_frame_root [OF f root] by simp
  then show ?thesis using that s ps wr st r f pw by (auto simp: pub_inv_def)
qed

section \<open>Changes to one generation\<close>

definition only_gen :: "nat \<Rightarrow> Database \<Rightarrow> Database \<Rightarrow> bool" where
  "only_gen n db db' \<longleftrightarrow> (\<forall>d k. (\<forall>suffix. k \<noteq> gen_key n suffix) \<longrightarrow>
     tbl_get (the_table db' (data_table d)) k = tbl_get (the_table db (data_table d)) k) \<and>
     the_table db' RETIRED = the_table db RETIRED"

lemma only_gen_refl [simp]: "only_gen n db db"
  by (simp add: only_gen_def)

lemma only_gen_trans: "only_gen n a b \<Longrightarrow> only_gen n b c \<Longrightarrow> only_gen n a c"
  by (simp add: only_gen_def)

lemma get_put_in:
  "db_ok db \<Longrightarrow> tbl_get (the_table (put_in n k v db) m) i = (if m = n \<and> i = k then Some v else tbl_get (the_table db m) i)"
  by (simp add: the_table_put_in tb.get_put)

lemma only_gen_put: "db_ok db \<Longrightarrow> only_gen n db (put_in (data_table d) (gen_key n suffix) v db)"
  by (auto simp: only_gen_def the_table_put_in tb.get_put)

lemma only_gen_ensure [simp]: "only_gen n db (ensure m db)"
  by (simp add: only_gen_def)

lemma only_gen_same: "only_gen n db db' \<Longrightarrow> n < u64_bound \<Longrightarrow> m < u64_bound \<Longrightarrow> m \<noteq> n \<Longrightarrow> same_gen m db db'"
  by (simp add: only_gen_def same_gen_def gen_key_inject)

lemma pending_sane: "pub_state_ok j db s \<Longrightarrow> s_pending s = Some p \<Longrightarrow> sane s"
  by (auto simp: pub_state_ok_def State_default_def)

lemma pending_sequence:
  "pub_state_ok j db s \<Longrightarrow> s_pending s = Some p \<Longrightarrow> g_sequence (pd_generation p) < u64_bound \<and>
   g_sequence (pd_generation p) \<le> s_next_sequence s"
  using pending_sane [of j db s p] by (auto simp: pub_state_ok_def sane_def generation_sane_def)

lemma current_sequence:
  "pub_state_ok j db s \<Longrightarrow> s_current s = Some g \<Longrightarrow> g_sequence g < u64_bound \<and> g_sequence g \<le> s_next_sequence s"
  by (auto simp: pub_state_ok_def sane_def generation_sane_def State_default_def)

lemma current_not_pending:
  "pub_state_ok j db s \<Longrightarrow> s_pending s = Some p \<Longrightarrow> s_current s = Some g \<Longrightarrow> g_sequence g \<noteq> g_sequence (pd_generation p)"
  using pending_sane [of j db s p] by (auto simp: sane_def pending_insane_def)

lemma update_pending:
  assumes ok: "pub_state_ok j db s" and p: "s_pending s = Some p"
    and q: "g_sequence (pd_generation q) = g_sequence (pd_generation p)" "generation_sane s (pd_generation q)"
      "\<not> pending_insane s q" "pending_ok db' q"
    and only: "only_gen (g_sequence (pd_generation p)) db db'"
  shows "sane (set_pending q s) \<and> pub_state_ok j db' (set_pending q s)"
proof -
  let ?n = "g_sequence (pd_generation p)"
  have sn: "sane s" by (rule pending_sane [OF ok p])
  then have sq: "sane (set_pending q s)" using q(2,3)
    by (auto simp: sane_def generation_sane_def pending_insane_def)
  have n: "?n < u64_bound" "?n \<le> s_next_sequence s" using pending_sequence [OF ok p] by auto
  have cur: "published_ok db' g" if g: "s_current s = Some g" for g
  proof -
    have "same_gen (g_sequence g) db db'"
      using only_gen_same [OF only n(1)] current_sequence [OF ok g] current_not_pending [OF ok p g] by auto
    then show ?thesis using ok g same_gen_published by (auto simp: pub_state_ok_def)
  qed
  have keys: "\<exists>m suffix. k = gen_key m suffix \<and> m \<le> s_next_sequence s"
    if "tbl_get (the_table db' (data_table d)) k = Some v" for d k v
  proof (cases "\<exists>suffix. k = gen_key ?n suffix")
    case True
    then show ?thesis using n(2) by blast
  next
    case False
    then have "tbl_get (the_table db (data_table d)) k = Some v" using only that by (auto simp: only_gen_def)
    then show ?thesis using ok unfolding pub_state_ok_def by blast
  qed
  have oth: "other_than (set_pending q s) m = other_than s m" for m
    using p q(1) by (simp add: other_than_def)
  have ret: "retired_ok j (set_pending q s) k v = retired_ok j s k v" for k v
    by (simp add: retired_ok_def oth)
  have "the_table db' RETIRED = the_table db RETIRED" using only by (simp add: only_gen_def)
  then show ?thesis using sq cur keys q(4) p ret pub_state_okD [OF ok] by (intro conjI pub_state_okI) simp_all
qed

lemma update_header:
  assumes ok: "pub_state_ok j db s" and p: "s_pending s = Some p"
    and q: "pd_generation q = pd_generation p" "\<not> pending_insane s q" "pending_ok db q"
  shows "sane (set_pending q s) \<and> pub_state_ok j db (set_pending q s)"
  using update_pending [OF ok p, of q db] q pending_sane [OF ok p] p by (auto simp: sane_def)

section \<open>Editors of the header\<close>

lemma seal_safe: "safe_editor j (seal_capture pending)"
  unfolding safe_editor_def safe_edit_def
proof (intro allI impI)
  fix db s x s' db'
  assume ok: "pub_state_ok j db s" and w: "seal_capture pending db s [] = Inr ((x, s', db'), [])"
  obtain p where p: "s_pending s = Some p" "db' = db" "s' = set_pending (p\<lparr>pd_capture_complete := True\<rparr>) s"
      "pd_completed_sources p = g_source_count (pd_generation p)"
    using w by (auto simp: seal_capture_def Let_def res_simps split: if_splits dest!: pending_mut_Inr check_wanted_Inr)
  let ?q = "p\<lparr>pd_capture_complete := True\<rparr>"
  have "\<not> pending_insane s ?q" using pending_sane [OF ok p(1)] p by (auto simp: sane_def pending_insane_def)
  moreover have "operation_due ?q op = operation_due p op" for op by (cases op) simp_all
  then have "pending_ok db ?q" using ok p(1) by (auto simp: pub_state_ok_def pending_ok_def)
  ultimately show "sane s' \<and> pub_state_ok j db' s' \<and> pub_frame db db'"
    using update_header [OF ok p(1), of ?q] p by simp
qed

lemma dispatch_safe: "safe_editor j (note_dispatch pending op)"
  unfolding safe_editor_def safe_edit_def
proof (intro allI impI)
  fix db s x s' db'
  assume ok: "pub_state_ok j db s" and w: "note_dispatch pending op db s [] = Inr ((x, s', db'), [])"
  obtain p where p: "s_pending s = Some p" "db' = db" "pd_capture_complete p" "operation_due p op"
      "s' = set_pending (p\<lparr>pd_operation_revision := pd_operation_revision p + 1, pd_in_flight := Some op\<rparr>) s"
    using w by (auto simp: note_dispatch_def res_simps split: if_splits dest!: pending_mut_Inr check_wanted_Inr)
  let ?q = "p\<lparr>pd_operation_revision := pd_operation_revision p + 1, pd_in_flight := Some op\<rparr>"
  have "\<not> pending_insane s ?q" using pending_sane [OF ok p(1)] p by (auto simp: sane_def pending_insane_def)
  moreover have "operation_due ?q op = operation_due p op" by (cases op) simp_all
  then have "pending_ok db ?q" using ok p by (auto simp: pub_state_ok_def pending_ok_def)
  ultimately show "sane s' \<and> pub_state_ok j db' s' \<and> pub_frame db db'"
    using update_header [OF ok p(1), of ?q] p by simp
qed

lemma settle_safe: "safe_editor j (settle_dispatch pending op n applied)"
  unfolding safe_editor_def safe_edit_def
proof (intro allI impI)
  fix db s x s' db'
  assume ok: "pub_state_ok j db s" and w: "settle_dispatch pending op n applied db s [] = Inr ((x, s', db'), [])"
  obtain p q where p: "s_pending s = Some p" "pd_in_flight p = Some op" "db' = db" "s' = set_pending (q\<lparr>pd_in_flight := None\<rparr>) s"
      and q: "q = p \<or> op = Create \<and> q = p\<lparr>pd_created := True\<rparr> \<or>
        (\<exists>i. op = Insert i \<and> q = p\<lparr>pd_uploaded_pages := pd_uploaded_pages p + 1\<rparr>)"
    using w by (auto simp: settle_dispatch_def res_simps split: if_splits PendingOperation.splits dest!: pending_mut_Inr)
  have po: "pending_ok db p" using ok p(1) by (simp add: pub_state_ok_def)
  have f: "pd_capture_complete p" "operation_due p op" using po p(2) by (auto simp: pending_ok_def)
  have "\<not> pending_insane s (q\<lparr>pd_in_flight := None\<rparr>)"
    using pending_sane [OF ok p(1)] p q f by (auto simp: sane_def pending_insane_def)
  moreover have "pending_ok db (q\<lparr>pd_in_flight := None\<rparr>)"
    using po q f by (auto simp: pending_ok_def)
  ultimately show "sane s' \<and> pub_state_ok j db' s' \<and> pub_frame db db'"
    using update_header [OF ok p(1), of "q\<lparr>pd_in_flight := None\<rparr>"] p q by auto
qed

section \<open>Editors that end a build\<close>

lemma put_retired_length: "length (tbl_put k v t) \<le> length t + 1"
  by (induction t) auto

lemma retired_put:
  assumes "db_ok db" "\<And>k v. tbl_get (the_table db RETIRED) k = Some v \<Longrightarrow> retired_ok j s k v" "retired_ok j s k' v'"
    "tbl_get (the_table (put_in RETIRED k' v' db) RETIRED) k = Some v"
  shows "retired_ok j s k v"
  using assms by (auto simp: get_put_in split: if_splits)

lemma retired_ok_mono:
  assumes "retired_ok j s k v" "s_namespace s' = s_namespace s" "s_next_sequence s \<le> s_next_sequence s'"
    "\<And>m. m \<le> s_next_sequence s \<Longrightarrow> other_than s m \<Longrightarrow> other_than s' m"
  shows "retired_ok j s' k v"
proof -
  obtain r where r: "retired_from_slice j v = Some r" "k = be_bytes (g_sequence (rg_generation r))"
      "s_namespace s = Some (g_namespace (rg_generation r))" "g_sequence (rg_generation r) \<noteq> 0"
      "g_sequence (rg_generation r) \<le> s_next_sequence s" "other_than s (g_sequence (rg_generation r))"
      "\<forall>p. rg_unresolved_build r = Some p \<longrightarrow>
        rg_remote_owned r = pd_created p \<and> pd_generation p = rg_generation r \<and> unresolved_shape p"
    using assms(1) unfolding retired_ok_def by blast
  have "other_than s' (g_sequence (rg_generation r))" using assms(4) r by simp
  moreover have "g_sequence (rg_generation r) \<le> s_next_sequence s'" using r(5) assms(3) by simp
  ultimately show ?thesis unfolding retired_ok_def assms(2) using r by blast
qed

text \<open>
  A build ends when its generation becomes retired or current: the header keeps its sequence
  counter, the rows are unchanged and one obligation of another generation is added.
\<close>

lemma end_build:
  assumes ok: "pub_state_ok j db s" and p: "s_pending s = Some p" and dbok: "db_ok db" and js: "json_ok j"
    and s': "s_pending s' = None" "s_namespace s' = s_namespace s" "s_next_sequence s' = s_next_sequence s" "sane s'"
      "\<And>g. s_current s' = Some g \<Longrightarrow> published_ok db g"
      "\<And>m. other_than s m \<Longrightarrow> other_than s' m"
    and r: "retired_to_vec j r = Some bs" "other_than s' (g_sequence (rg_generation r))"
      "generation_sane s (rg_generation r)"
      "\<And>q. rg_unresolved_build r = Some q \<Longrightarrow>
        rg_remote_owned r = pd_created q \<and> pd_generation q = rg_generation r \<and> unresolved_shape q"
    and db': "db' = put_in RETIRED (be_bytes (g_sequence (rg_generation r))) bs (ensure RETIRED db)"
  shows "pub_state_ok j db' s' \<and> pub_frame db db'"
proof -
  have fs: "retired_from_slice j bs = Some r" using js r(1) by (auto simp: json_ok_def)
  have new: "retired_ok j s' (be_bytes (g_sequence (rg_generation r))) bs"
  proof -
    have "Some (g_namespace (rg_generation r)) = s_namespace s'" "g_sequence (rg_generation r) \<noteq> 0"
        "g_sequence (rg_generation r) \<le> s_next_sequence s'"
      using r(3) s'(2,3) by (auto simp: generation_sane_def)
    then show ?thesis unfolding retired_ok_def using fs r(2,4) by metis
  qed
  have old: "retired_ok j s' k v" if "tbl_get (the_table (ensure RETIRED db) RETIRED) k = Some v" for k v
  proof -
    have "retired_ok j s k v" using ok that by (simp add: pub_state_ok_def)
    then show ?thesis by (rule retired_ok_mono) (use s' in simp_all)
  qed
  have gens: "same_gen n db db'" for n by (simp add: db' same_gen_def the_table_put_in)
  have "length (the_table db' RETIRED) \<le> MAX_RETIRED"
    using ok p put_retired_length [of "be_bytes (g_sequence (rg_generation r))" bs "the_table db RETIRED"]
    by (auto simp: pub_state_ok_def db' the_table_put_in)
  moreover have "retired_ok j s' k v" if "tbl_get (the_table db' RETIRED) k = Some v" for k v
    using retired_put [OF _ old new that [unfolded db']] dbok by simp
  moreover have "published_ok db' g" if "s_current s' = Some g" for g
    using s'(5) [OF that] same_gen_published [OF gens] by simp
  moreover have "the_table db' (data_table d) = the_table db (data_table d)" for d
    by (simp add: db' the_table_put_in)
  moreover note d = pub_state_okD [OF ok]
  ultimately have "pub_state_ok j db' s'" using s'(1,3,4) d(2,3) by (intro pub_state_okI) simp_all
  moreover have "pub_frame db db'"
    unfolding db' using pub_frame_trans [OF pub_frame_writes(1) pub_frame_writes(2)] by simp
  ultimately show ?thesis ..
qed

lemma no_pending_sane:
  "pub_state_ok j db s \<Longrightarrow> s_pending s = Some p \<Longrightarrow> sane (s\<lparr>s_pending := None\<rparr>)"
  using pending_sane [of j db s p] by (auto simp: sane_def generation_sane_def)

lemma pending_other: "sane s \<Longrightarrow> s_pending s = Some p \<Longrightarrow>
  other_than (s\<lparr>s_pending := None\<rparr>) (g_sequence (pd_generation p))"
  by (auto simp: other_than_def sane_def pending_insane_def)

text \<open>The build becomes an obligation.\<close>

lemma retire_pending:
  assumes ok: "pub_state_ok j db s" and p: "s_pending s = Some p" and dbok: "db_ok db" and js: "json_ok j"
    and r: "retired_to_vec j r = Some bs" "rg_generation r = pd_generation p"
      "\<And>q. rg_unresolved_build r = Some q \<Longrightarrow>
        rg_remote_owned r = pd_created q \<and> pd_generation q = rg_generation r \<and> unresolved_shape q"
    and db': "db' = put_in RETIRED (be_bytes (g_sequence (rg_generation r))) bs (ensure RETIRED db)"
  shows "sane (s\<lparr>s_pending := None\<rparr>) \<and> pub_state_ok j db' (s\<lparr>s_pending := None\<rparr>) \<and> pub_frame db db'"
proof -
  let ?s = "s\<lparr>s_pending := None\<rparr>"
  have sn: "sane s" by (rule pending_sane [OF ok p])
  have s': "sane ?s" by (rule no_pending_sane [OF ok p])
  have "published_ok db g" if "s_current ?s = Some g" for g using ok that by (simp add: pub_state_ok_def)
  moreover have "other_than s m \<Longrightarrow> other_than ?s m" for m by (simp add: other_than_def)
  moreover have "other_than ?s (g_sequence (rg_generation r))" using pending_other [OF sn p] r(2) by simp
  moreover have "generation_sane s (rg_generation r)" using sn p r(2) by (simp add: sane_def)
  ultimately have "pub_state_ok j db' ?s \<and> pub_frame db db'"
    using s' by (intro end_build [OF ok p dbok js _ _ _ _ _ _ r(1) _ _ r(3) db']) simp_all
  then show ?thesis using s' by simp
qed

lemma drop_safe: "json_ok j \<Longrightarrow> safe_editor j (drop_pending j pending)"
  unfolding safe_editor_def safe_edit_def
proof (intro allI impI)
  fix db s x s' db'
  assume js: "json_ok j" and dbok: "db_ok db" and ok: "pub_state_ok j db s"
    and w: "drop_pending j pending db s [] = Inr ((x, s', db'), [])"
  obtain p bs where p: "s_pending s = Some p" "s' = s\<lparr>s_pending := None\<rparr>"
      "retired_to_vec j \<lparr>rg_generation = pd_generation p, rg_remote_owned = pd_created p, rg_unresolved_build = None\<rparr> = Some bs"
      "db' = put_in RETIRED (be_bytes (g_sequence (pd_generation p))) bs (ensure RETIRED db)"
    using w by (auto simp: drop_pending_def insert_retired_def res_simps split: if_splits dest!: pending_mut_Inr)
  show "sane s' \<and> pub_state_ok j db' s' \<and> pub_frame db db'"
    unfolding p(2) by (rule retire_pending [OF ok p(1) dbok js p(3)]) (simp_all add: p(4))
qed

lemma set_aside_safe: "json_ok j \<Longrightarrow> safe_editor j (set_aside j pending)"
  unfolding safe_editor_def safe_edit_def
proof (intro allI impI)
  fix db s x s' db'
  assume js: "json_ok j" and dbok: "db_ok db" and ok: "pub_state_ok j db s"
    and w: "set_aside j pending db s [] = Inr ((x, s', db'), [])"
  obtain p bs where p: "s_pending s = Some p" "s' = s\<lparr>s_pending := None\<rparr>" "unresolved_shape p"
      "retired_to_vec j \<lparr>rg_generation = pd_generation p, rg_remote_owned = pd_created p, rg_unresolved_build = Some p\<rparr> = Some bs"
      "db' = put_in RETIRED (be_bytes (g_sequence (pd_generation p))) bs (ensure RETIRED db)"
    using w by (auto simp: set_aside_def Let_def res_simps split: if_splits dest!: pending_mut_Inr)
  show "sane s' \<and> pub_state_ok j db' s' \<and> pub_frame db db'"
    unfolding p(2) by (rule retire_pending [OF ok p(1) dbok js p(4)]) (use p(3) in \<open>simp_all add: p(5)\<close>)
qed

text \<open>All sources of a sealed build are complete.\<close>

lemma finite_rows: "finite (rows_for db n)"
proof (rule finite_subset)
  show "rows_for db n \<subseteq> (drop 8 \<circ> fst) ` set (the_table db SOURCES)"
  proof
    fix sid assume "sid \<in> rows_for db n"
    then obtain v where "(gen_key n sid, v) \<in> set (the_table db SOURCES)"
      by (auto simp: rows_for_def tbl_get_def dest: map_of_SomeD)
    then show "sid \<in> (drop 8 \<circ> fst) ` set (the_table db SOURCES)"
      by (rule rev_image_eqI) (simp add: gen_key_def)
  qed
qed simp

lemma done_rows: "done_for db n \<subseteq> rows_for db n"
  by (auto simp: done_for_def rows_for_def entry_of_def bind_eq_Some_conv)

lemma sealed_published:
  assumes "pending_ok db p" "pd_completed_sources p = g_source_count (pd_generation p)"
  shows "published_ok db (pd_generation p)"
proof -
  let ?n = "g_sequence (pd_generation p)"
  have "card (rows_for db ?n) \<le> card (done_for db ?n)"
    using assms by (auto simp: pending_ok_def data_ok_def Let_def)
  then have "rows_for db ?n = done_for db ?n"
    using card_seteq [OF finite_rows done_rows, of db ?n] by simp
  then show ?thesis using assms by (simp add: published_ok_def pending_ok_def)
qed

lemma switch_safe: "json_ok j \<Longrightarrow> safe_editor j (switch_current j pending)"
  unfolding safe_editor_def safe_edit_def
proof (intro allI impI)
  fix db s x s' db'
  assume js: "json_ok j" and dbok: "db_ok db" and ok: "pub_state_ok j db s"
    and w: "switch_current j pending db s [] = Inr ((x, s', db'), [])"
  obtain p where p: "s_pending s = Some p" "pd_capture_complete p"
      "s' = s\<lparr>s_current_revision := s_current_revision s + 1, s_current := Some (pd_generation p), s_pending := None\<rparr>"
      and cases: "s_current s = None \<and> db' = db \<or>
        (\<exists>old bs. s_current s = Some old \<and>
          retired_to_vec j \<lparr>rg_generation = old, rg_remote_owned = True, rg_unresolved_build = None\<rparr> = Some bs \<and>
          db' = put_in RETIRED (be_bytes (g_sequence old)) bs (ensure RETIRED db))"
    using w by (auto simp: switch_current_def insert_retired_def res_simps split: if_splits option.splits
        dest!: pending_mut_Inr check_wanted_Inr)
  have sn: "sane s" by (rule pending_sane [OF ok p(1)])
  have s': "sane s'" using sn p(1) by (auto simp: p(3) sane_def generation_sane_def)
  have po: "pending_ok db p" using ok p(1) by (simp add: pub_state_ok_def)
  have "pd_completed_sources p = g_source_count (pd_generation p)"
    using sn p(1,2) by (auto simp: sane_def pending_insane_def)
  then have pb: "published_ok db (pd_generation p)" by (rule sealed_published [OF po])
  have oth: "other_than s m \<Longrightarrow> other_than s' m" for m using p(1) by (simp add: p(3) other_than_def)
  have "pub_state_ok j db' s' \<and> pub_frame db db'"
    using cases
  proof (elim disjE conjE exE)
    assume "s_current s = None" "db' = db"
    moreover have "retired_ok j s' k v" if "retired_ok j s k v" for k v
      using that by (rule retired_ok_mono) (use oth in \<open>simp_all add: p(3)\<close>)
    ultimately show ?thesis using pb p(1) s' pub_state_okD [OF ok]
      by (intro conjI pub_state_okI) (simp_all add: p(3))
  next
    fix old bs
    assume o: "s_current s = Some old" and
      b: "retired_to_vec j \<lparr>rg_generation = old, rg_remote_owned = True, rg_unresolved_build = None\<rparr> = Some bs"
      "db' = put_in RETIRED (be_bytes (g_sequence old)) bs (ensure RETIRED db)"
    have "other_than s' (g_sequence old)"
      using current_not_pending [OF ok p(1) o] by (simp add: p(3) other_than_def)
    moreover have "generation_sane s old" using sn o by (simp add: sane_def)
    moreover have "s_current s' = Some g \<Longrightarrow> published_ok db g" for g using pb by (simp add: p(3))
    moreover have "s_pending s' = None" "s_namespace s' = s_namespace s" "s_next_sequence s' = s_next_sequence s"
      by (simp_all add: p(3))
    ultimately show ?thesis
      using s' oth by (intro end_build [OF ok p(1) dbok js _ _ _ _ _ _ b(1)]) (simp_all add: b(2))
  qed
  then show "sane s' \<and> pub_state_ok j db' s' \<and> pub_frame db db'" using s' by simp
qed

end
