(* ===== verification/PublicationEditors.thy ===== *)
theory PublicationEditors
  imports PublicationInvariant
begin

text \<open>
  The editors that change rows of a generation: completing a source, staging a page, reserving a
  generation, saving its inputs and removing a retired one. Each keeps the invariant of
  \<open>PublicationInvariant\<close>.
\<close>

section \<open>Rows of one source\<close>

lemma entry_row: "entry_of db n sid = Some e \<Longrightarrow> sid \<in> rows_for db n"
  by (auto simp: entry_of_def rows_for_def bind_eq_Some_conv)

lemma entry_of_decode: "row_in db SourcesTable n sid = Some v \<Longrightarrow> decode_source v = Inr e \<Longrightarrow> entry_of db n sid = Some e"
  by (simp add: entry_of_def)

lemma entries_okD:
  "entries_ok db n \<Longrightarrow> entry_of db n sid = Some e \<Longrightarrow> storable_entry e \<and> source_id (ca_source (se_captured e)) = sid"
  using entry_row [of db n sid e] by (force simp: entries_ok_def)

definition put_entry :: "nat \<Rightarrow> bytes \<Rightarrow> bytes \<Rightarrow> Database \<Rightarrow> Database" where
  "put_entry n sid v db = put_in SOURCES (gen_key n sid) v db"

lemma put_entry_facts:
  assumes "db_ok db" "decode_source v = Inr e"
  shows "entry_of (put_entry n sid v db) n = (entry_of db n)(sid \<mapsto> e)"
    "rows_for (put_entry n sid v db) n = insert sid (rows_for db n)"
    "row_in (put_entry n sid v db) EvidenceTable n suffix = row_in db EvidenceTable n suffix"
    "row_in (put_entry n sid v db) PagesTable n suffix = row_in db PagesTable n suffix"
  using assms by (auto simp: put_entry_def entry_of_def rows_for_def get_put_in fun_eq_iff)

lemma put_entry_only: "db_ok db \<Longrightarrow> only_gen n db (put_entry n sid v db)"
  unfolding put_entry_def using only_gen_put [of db n SourcesTable] by simp

text \<open>An entry may be replaced by one with the same capture and at least as many units.\<close>

definition entry_grows :: "SourceEntry \<Rightarrow> SourceEntry \<Rightarrow> bool" where
  "entry_grows e e' \<longleftrightarrow> se_captured e' = se_captured e \<and> se_staged_units e \<le> se_staged_units e'"

lemma put_entry_data:
  assumes "db_ok db" "data_ok db g" "entry_of db (g_sequence g) sid = Some e" "decode_source v = Inr e'"
    "storable_entry e'" "entry_grows e e'"
  shows "data_ok (put_entry (g_sequence g) sid v db) g"
proof -
  let ?n = "g_sequence g" and ?db = "put_entry (g_sequence g) sid v db"
  note f = put_entry_facts [OF assms(1,4), of ?n sid]
  have ent: "entries_ok db ?n" using assms(2) by (simp add: data_ok_def Let_def)
  have r: "rows_for ?db ?n = rows_for db ?n" using f(2) entry_row [OF assms(3)] by auto
  have "entries_ok ?db ?n"
    using ent entries_okD [OF ent assms(3)] assms(5,6) unfolding entries_ok_def r by (simp add: f(1) entry_grows_def)
  moreover have "point_ok ?db ?n i" if i: "point_ok db ?n i" for i
  proof -
    obtain ev e0 where o: "row_in db EvidenceTable ?n (be_bytes ?n @ be_bytes i) = Some (encode_evidence ev)"
        "storable_evidence ev" "entry_of db ?n (pe_source_id ev) = Some e0" "binds ev e0"
      using i unfolding point_ok_def by blast
    have "\<exists>e1. entry_of ?db ?n (pe_source_id ev) = Some e1 \<and> binds ev e1"
      using o(3,4) assms(3,6) by (auto simp: f(1) binds_def Let_def entry_grows_def)
    then show ?thesis using o(1,2) unfolding point_ok_def f(3) by blast
  qed
  moreover have "page_ok ?db ?n i = page_ok db ?n i" for i unfolding page_ok_def f(4) ..
  ultimately show ?thesis using assms(2) by (simp add: data_ok_def Let_def r)
qed

lemma encode_source_entry [simp]: "encode_source e [] = bindE (encode_entry e) (\<lambda>bs. Inr (bs, []))"
  using encode_source_quiet [of e "[]"] by (cases "encode_source e []") (auto simp: encode_entry_def)

text \<open>What was captured for a source does not change.\<close>

definition keeps_captures :: "nat \<Rightarrow> Database \<Rightarrow> Database \<Rightarrow> bool" where
  "keeps_captures n db db' \<longleftrightarrow> (\<forall>sid e'. entry_of db' n sid = Some e' \<longrightarrow>
     (\<exists>e. entry_of db n sid = Some e \<and> se_captured e' = se_captured e))"

lemma keeps_captures_refl [simp]: "keeps_captures n db db"
  by (simp add: keeps_captures_def)

lemma keeps_captures_trans: "keeps_captures n a b \<Longrightarrow> keeps_captures n b c \<Longrightarrow> keeps_captures n a c"
  unfolding keeps_captures_def by metis

lemma same_gen_captures: "same_gen n db db' \<Longrightarrow> keeps_captures n db db'"
  by (simp add: keeps_captures_def same_gen_entries)

lemma put_entry_captures:
  assumes "db_ok db" "entry_of db n sid = Some e" "decode_source v = Inr e'" "se_captured e' = se_captured e"
  shows "keeps_captures n db (put_entry n sid v db)"
  using assms by (auto simp: keeps_captures_def put_entry_facts(1) [OF assms(1,3)])

section \<open>Completing a source\<close>

lemma complete_safe: "safe_editor j (complete_source pending sid units)"
  unfolding safe_editor_def safe_edit_def
proof (intro allI impI)
  fix db s x s' db'
  assume dbok: "db_ok db" and ok: "pub_state_ok j db s" and w: "complete_source pending sid units db s [] = Inr ((x, s', db'), [])"
  obtain p v e bs where p: "s_pending s = Some p" "\<not> pd_capture_complete p" and
      v: "row_in db SourcesTable (g_sequence (pd_generation p)) sid = Some v" "decode_source v = Inr e" "\<not> se_complete e" and
      b: "encode_entry (e\<lparr>se_complete := True\<rparr>) = Inr bs"
      "db' = put_entry (g_sequence (pd_generation p)) sid bs (ensure SOURCES db)"
      "s' = set_pending (p\<lparr>pd_completed_sources := pd_completed_sources p + 1\<rparr>) s"
    using w by (auto simp: complete_source_def put_entry_def Let_def res_simps split: if_splits
        dest!: pending_mut_Inr)
  let ?n = "g_sequence (pd_generation p)" and ?e = "e\<lparr>se_complete := True\<rparr>"
    and ?q = "p\<lparr>pd_completed_sources := pd_completed_sources p + 1\<rparr>" and ?db = "ensure SOURCES db"
  have po: "pending_ok ?db p" and d: "data_ok ?db (pd_generation p)"
    using pub_state_okD(5) [OF ok p(1)] same_gen_pending [of p db ?db] same_rows_gen [of db ?db] same_rows_simps(2)
    by (auto simp: pending_ok_def)
  have ent: "entry_of ?db ?n sid = Some e" using entry_of_decode v by simp
  have se: "storable_entry e" using entries_okD [OF _ ent] d by (simp add: data_ok_def Let_def)
  then have st: "storable_entry ?e" by (simp add: storable_entry_def)
  have dec: "decode_source bs = Inr ?e" by (rule entries.dec_enc [OF st b(1)])
  have okd: "db_ok ?db" using dbok by simp
  note f = put_entry_facts [OF okd dec, of ?n sid]
  have data: "data_ok db' (pd_generation p)"
    unfolding b(2) by (rule put_entry_data [OF okd d ent dec st]) (simp add: entry_grows_def)
  have dn: "done_for db' ?n = insert sid (done_for ?db ?n)" "sid \<notin> done_for ?db ?n"
    using ent v(3) by (auto simp: done_for_def b(2) f(1))
  have fin: "finite (done_for ?db ?n)" using finite_subset [OF done_rows finite_rows] .
  have cd: "card (done_for db' ?n) = pd_completed_sources p + 1" using dn fin po by (simp add: pending_ok_def)
  have "card (done_for db' ?n) \<le> card (rows_for db' ?n)" by (rule card_mono [OF finite_rows done_rows])
  also have "\<dots> \<le> g_source_count (pd_generation p)" using data by (simp add: data_ok_def Let_def)
  finally have le: "pd_completed_sources p + 1 \<le> g_source_count (pd_generation p)" using cd by simp
  have "operation_due ?q op = operation_due p op" for op by (cases op) simp_all
  then have "pending_ok db' ?q" using po data cd by (simp add: pending_ok_def)
  moreover have "\<not> pending_insane s ?q"
    using pending_sane [OF ok p(1)] p le by (auto simp: sane_def pending_insane_def)
  moreover have "generation_sane s (pd_generation ?q)" using pending_sane [OF ok p(1)] p(1) by (simp add: sane_def)
  moreover have "only_gen ?n db db'"
    unfolding b(2) using only_gen_trans [OF only_gen_ensure put_entry_only [OF okd]] .
  ultimately have "sane s' \<and> pub_state_ok j db' s'"
    unfolding b(3) by (intro update_pending [OF ok p(1)]) simp_all
  moreover have "pub_frame db db'"
    unfolding b(2) put_entry_def using pub_frame_trans [OF pub_frame_writes(1) pub_frame_writes(2)] by simp
  ultimately show "sane s' \<and> pub_state_ok j db' s' \<and> pub_frame db db'" by simp
qed

section \<open>Staging points\<close>

definition put_evidence_row :: "nat \<Rightarrow> bytes \<Rightarrow> PointEvidence \<Rightarrow> Database \<Rightarrow> Database" where
  "put_evidence_row n i ev db = put_in EVIDENCE (gen_key n i) (encode_evidence ev) db"

lemma put_evidence_facts:
  assumes "db_ok db"
  shows "entry_of (put_evidence_row n i ev db) m = entry_of db m" "rows_for (put_evidence_row n i ev db) m = rows_for db m"
    "row_in (put_evidence_row n i ev db) EvidenceTable n suffix =
       (if suffix = i then Some (encode_evidence ev) else row_in db EvidenceTable n suffix)"
    "row_in (put_evidence_row n i ev db) PagesTable n suffix = row_in db PagesTable n suffix"
  using assms by (auto simp: put_evidence_row_def entry_of_def rows_for_def get_put_in fun_eq_iff)

abbreviation with_points :: "Generation \<Rightarrow> nat \<Rightarrow> Generation" where
  "with_points g n \<equiv> g\<lparr>g_point_count := n\<rparr>"

lemma put_evidence_data:
  assumes dbok: "db_ok db" and d: "data_ok db g" and b: "g_point_count g < u64_bound" "g_sequence g < u64_bound"
    and ev: "storable_evidence ev" "entry_of db (g_sequence g) (pe_source_id ev) = Some e" "binds ev e"
  shows "data_ok (put_evidence_row (g_sequence g) (be_bytes (g_sequence g) @ be_bytes (g_point_count g)) ev db)
    (with_points g (g_point_count g + 1))"
proof -
  let ?n = "g_sequence g" and ?k = "be_bytes (g_sequence g) @ be_bytes (g_point_count g)"
  let ?db = "put_evidence_row ?n ?k ev db"
  note f = put_evidence_facts [OF dbok, of ?n ?k ev]
  have old: "point_ok ?db ?n i" if "i < g_point_count g" for i
  proof -
    have "be_bytes i \<noteq> be_bytes (g_point_count g)" using that b(1) by (simp add: be_bytes_inject)
    moreover have "point_ok db ?n i" using d that by (simp add: data_ok_def Let_def)
    ultimately show ?thesis unfolding point_ok_def f(1,3) by auto
  qed
  have new: "point_ok ?db ?n (g_point_count g)" unfolding point_ok_def f(1,3) using ev by auto
  have "point_ok ?db ?n i" if "i < g_point_count g + 1" for i
    using old new that by (cases "i = g_point_count g") auto
  moreover have "page_ok ?db ?n i = page_ok db ?n i" for i unfolding page_ok_def f(4) ..
  moreover have "entries_ok ?db ?n = entries_ok db ?n" unfolding entries_ok_def f(1,2) ..
  ultimately show ?thesis using d by (auto simp: data_ok_def Let_def f(2))
qed

definition staged :: "PendingGeneration \<Rightarrow> nat \<Rightarrow> PendingGeneration" where
  "staged p n = p\<lparr>pd_generation := with_points (pd_generation p) (g_point_count (pd_generation p) + n)\<rparr>"

lemma staged_simps [simp]:
  "g_sequence (pd_generation (staged p n)) = g_sequence (pd_generation p)"
  "g_point_count (pd_generation (staged p n)) = g_point_count (pd_generation p) + n"
  "staged (staged p m) n = staged p (m + n)" "staged p 0 = p"
  by (simp_all add: staged_def add.assoc)

lemma stage_points_Inr:
  assumes "stage_points p points db [] = Inr ((q, db'), env)" "db_ok db" "data_ok db (pd_generation p)"
    "g_sequence (pd_generation p) < u64_bound" "g_point_count (pd_generation p) \<le> MAX_POINTS"
    "\<And>pt. pt \<in> set points \<Longrightarrow> wf_point pt \<and> validate_evidence (up_evidence pt) = Inr ()"
  shows "env = [] \<and> q = staged p (length points) \<and> g_point_count (pd_generation q) \<le> MAX_POINTS \<and>
    db_ok db' \<and> data_ok db' (pd_generation q) \<and>
    done_for db' (g_sequence (pd_generation p)) = done_for db (g_sequence (pd_generation p)) \<and>
    keeps_captures (g_sequence (pd_generation p)) db db' \<and>
    only_gen (g_sequence (pd_generation p)) db db' \<and> pub_frame db db'"
  using assms
proof (induction points arbitrary: p db)
  case Nil
  then show ?case by (auto simp: staged_def)
next
  case (Cons pt points)
  let ?g = "pd_generation p"
  let ?n = "g_sequence ?g" and ?i = "g_point_count ?g" and ?ev = "up_evidence pt"
  obtain v e bs where k: "take 8 (up_id pt) = be_bytes ?n" "drop 8 (up_id pt) = be_bytes ?i" and
      v: "row_in db SourcesTable ?n (pe_source_id ?ev) = Some v" "decode_source v = Inr e" and
      c: "\<not> se_complete e" "pe_namespace_id ?ev = source_namespace_id (ca_source (se_captured e))"
        "pe_input ?ev = object_ref (ca_source (se_captured e))" "pe_unit ?ev = se_staged_units e"
        "ready_artifact (se_captured e) = Some (pe_prepared ?ev)" "se_staged_units e + 1 < u64_bound" and
      b: "encode_entry (e\<lparr>se_staged_units := se_staged_units e + 1\<rparr>) = Inr bs" "?i + 1 \<le> MAX_POINTS" and
      r: "stage_points (staged p 1) points
        (put_evidence_row ?n (up_id pt) ?ev (put_entry ?n (pe_source_id ?ev) bs db)) [] = Inr ((q, db'), env)"
    using Cons.prems(1)
    by (auto simp: Let_def res_simps put_evidence_row_def put_entry_def staged_def bind_eq_Some_conv split: if_splits)
  let ?e = "e\<lparr>se_staged_units := se_staged_units e + 1\<rparr>"
    and ?db1 = "put_entry ?n (pe_source_id ?ev) bs db"
  let ?db2 = "put_evidence_row ?n (up_id pt) ?ev ?db1"
  have uid: "up_id pt = be_bytes ?n @ be_bytes ?i" using k by (metis append_take_drop_id)
  have ent: "entry_of db ?n (pe_source_id ?ev) = Some e" using entry_of_decode v by simp
  have se: "storable_entry e" "source_id (ca_source (se_captured e)) = pe_source_id ?ev"
    using entries_okD [OF _ ent] Cons.prems(3) by (auto simp: data_ok_def Let_def)
  have st: "storable_entry ?e" using se(1) c(6) by (simp add: storable_entry_def)
  have dec: "decode_source bs = Inr ?e" by (rule entries.dec_enc [OF st b(1)])
  note f = put_entry_facts [OF Cons.prems(2) dec, of ?n "pe_source_id ?ev"]
  have ok1: "db_ok ?db1" and ok2: "db_ok ?db2" using Cons.prems(2) by (simp_all add: put_entry_def put_evidence_row_def)
  have d1: "data_ok ?db1 ?g"
    by (rule put_entry_data [OF Cons.prems(2,3) ent dec st]) (simp add: entry_grows_def)
  have "storable_evidence ?ev" using Cons.prems(6) [of pt] by (auto simp: storable_evidence_def wf_point_def)
  moreover have "entry_of ?db1 ?n (pe_source_id ?ev) = Some ?e" by (simp add: f(1))
  moreover have "binds ?ev ?e" using c se(2) by (simp add: binds_def Let_def)
  ultimately have "data_ok ?db2 (with_points ?g (?i + 1))"
    unfolding uid using b(2) Cons.prems(4) by (intro put_evidence_data [OF ok1 d1]) (simp_all add: MAX_POINTS_def)
  then have d2: "data_ok ?db2 (pd_generation (staged p 1))" by (simp add: staged_def)
  have dn: "done_for ?db2 ?n = done_for db ?n"
    unfolding done_for_def put_evidence_facts(1) [OF ok1] f(1) using ent c(1) by auto
  have "keeps_captures ?n ?db1 ?db2" by (simp add: keeps_captures_def put_evidence_facts(1) [OF ok1])
  then have kc: "keeps_captures ?n db ?db2"
    using keeps_captures_trans [OF put_entry_captures [OF Cons.prems(2) ent dec]] by simp
  have og: "only_gen ?n db ?db2"
    using only_gen_trans [OF put_entry_only only_gen_put, of db ?n _ _ EvidenceTable] Cons.prems(2) ok1
    by (simp add: put_evidence_row_def)
  have fr: "pub_frame db ?db2"
    unfolding put_entry_def put_evidence_row_def using pub_frame_trans [OF pub_frame_writes(2) pub_frame_writes(2)] by simp
  have "env = [] \<and> q = staged (staged p 1) (length points) \<and> g_point_count (pd_generation q) \<le> MAX_POINTS \<and>
    db_ok db' \<and> data_ok db' (pd_generation q) \<and> done_for db' ?n = done_for ?db2 ?n \<and>
    keeps_captures ?n ?db2 db' \<and> only_gen ?n ?db2 db' \<and> pub_frame ?db2 db'"
    using Cons.IH [OF r ok2 d2] Cons.prems(4,6) b(2) by auto
  then show ?case using dn keeps_captures_trans [OF kc] only_gen_trans [OF og] pub_frame_trans [OF fr] by auto
qed

lemma put_page_data:
  assumes dbok: "db_ok db" and d: "data_ok db g" and n: "g_page_count g < g_point_count g" "g_point_count g < u64_bound"
    and pg: "decode_page bs [] = Inr (page, [])"
  shows "data_ok (put_in PAGES (gen_key (g_sequence g) (be_bytes (g_page_count g))) bs db)
    (g\<lparr>g_page_count := g_page_count g + 1\<rparr>)"
proof -
  let ?n = "g_sequence g"
  let ?db = "put_in PAGES (gen_key ?n (be_bytes (g_page_count g))) bs db"
  have e: "entry_of ?db ?n = entry_of db ?n" "rows_for ?db ?n = rows_for db ?n"
      "row_in ?db EvidenceTable ?n s = row_in db EvidenceTable ?n s" for s
    using dbok by (auto simp: entry_of_def rows_for_def get_put_in fun_eq_iff)
  have "page_ok ?db ?n i" if "i < g_page_count g + 1" for i
  proof (cases "i = g_page_count g")
    case True
    then show ?thesis using pg dbok by (auto simp: page_ok_def get_put_in)
  next
    case False
    then have "be_bytes i \<noteq> be_bytes (g_page_count g)" "page_ok db ?n i"
      using that n d by (simp_all add: be_bytes_inject data_ok_def Let_def)
    then show ?thesis using dbok by (simp add: page_ok_def get_put_in)
  qed
  moreover have "point_ok ?db ?n i = point_ok db ?n i" for i unfolding point_ok_def e(1,3) ..
  moreover have "entries_ok ?db ?n = entries_ok db ?n" unfolding entries_ok_def e(1,2) ..
  ultimately show ?thesis using d n(1) by (auto simp: data_ok_def Let_def e(2))
qed

lemma save_page_Inr:
  assumes "save_page pending page bs db s [] = Inr ((x, s', db'), [])"
  obtains p q db1 n where "s_pending s = Some p" "\<not> pd_capture_complete p" "pd_in_flight p = None"
    "n \<le> MAX_STAGED_BYTES"
    "stage_points (p\<lparr>pd_staged_bytes := n\<rparr>) (pg_points page) (ensure SOURCES (ensure EVIDENCE db)) [] = Inr ((q, db1), [])"
    "db' = put_in PAGES (gen_key (g_sequence (pd_generation q)) (be_bytes (g_page_count (pd_generation q)))) bs (ensure PAGES db1)"
    "s' = set_pending (q\<lparr>pd_generation := (pd_generation q)\<lparr>g_page_count := g_page_count (pd_generation q) + 1\<rparr>\<rparr>) s"
proof -
  obtain p n r where p: "s_pending s = Some p" "\<not> pd_capture_complete p" "pd_in_flight p = None" "n \<le> MAX_STAGED_BYTES"
      "stage_points (p\<lparr>pd_staged_bytes := n\<rparr>) (pg_points page) (ensure SOURCES (ensure EVIDENCE db)) [] = Inr r"
      and r: "bindE (Inr r) (\<lambda>((p, db), env).
       let g = pd_generation p in
       bindE (w_open Database PAGES db env) (\<lambda>(db, env).
       bindE (w_insert Database PAGES (gen_key (g_sequence g) (be_bytes (g_page_count g))) bs db env) (\<lambda>(db, env).
       bindE (ok_or Limit (checked_add64 (g_page_count g) 1)) (\<lambda>n.
       Inr (((), set_pending (p\<lparr>pd_generation := g\<lparr>g_page_count := n\<rparr>\<rparr>) s, db), env))))) = Inr ((x, s', db'), [])"
    using assms unfolding save_page_def
    by (auto simp: bindE_Inr [of "stage_points _ _ _ _"] bind_eq_Some_conv res_simps split: if_splits dest!: pending_mut_Inr)
  obtain q db1 env where q: "r = ((q, db1), env)" by (metis surj_pair)
  have "env = []" using interruptible_Inr [OF stage_points_interruptible p(5) [unfolded q]] p(5) q by simp
  then show ?thesis using that [OF p(1-4)] p(5) r q by (auto simp: Let_def res_simps)
qed

lemma page_counts:
  assumes "pub_state_ok j db s" "s_pending s = Some p"
  shows "g_point_count (pd_generation p) \<le> MAX_POINTS"
  using pending_sane [OF assms] assms(2) by (auto simp: sane_def generation_sane_def)

lemma save_page_effect:
  assumes enc: "encode_page page env = Inr (bs, env')" and wf: "wf_page page"
    and dbok: "db_ok db" and ok: "pub_state_ok j db s" and w: "save_page pending page bs db s [] = Inr ((x, s', db'), [])"
  obtains p q db1 m where "s_pending s = Some p" "\<not> pd_capture_complete p" "pd_in_flight p = None" "m \<le> MAX_STAGED_BYTES"
    "db' = put_in PAGES (gen_key (g_sequence (pd_generation q)) (be_bytes (g_page_count (pd_generation q)))) bs (ensure PAGES db1)"
    "s' = set_pending (q\<lparr>pd_generation := (pd_generation q)\<lparr>g_page_count := g_page_count (pd_generation q) + 1\<rparr>\<rparr>) s"
    "q = staged (p\<lparr>pd_staged_bytes := m\<rparr>) (length (pg_points page))" "g_point_count (pd_generation q) \<le> MAX_POINTS"
    "db_ok db1" "data_ok db1 (pd_generation q)" "pending_ok (ensure SOURCES (ensure EVIDENCE db)) p"
    "done_for db1 (g_sequence (pd_generation p)) = done_for db (g_sequence (pd_generation p))"
    "only_gen (g_sequence (pd_generation p)) db db1" "pub_frame db db1"
    "keeps_captures (g_sequence (pd_generation p)) db db1"
proof -
  let ?db = "ensure SOURCES (ensure EVIDENCE db)"
  obtain p q db1 m where p: "s_pending s = Some p" "\<not> pd_capture_complete p" "pd_in_flight p = None" "m \<le> MAX_STAGED_BYTES" and
      sp: "stage_points (p\<lparr>pd_staged_bytes := m\<rparr>) (pg_points page) ?db [] = Inr ((q, db1), [])" and
      db': "db' = put_in PAGES (gen_key (g_sequence (pd_generation q)) (be_bytes (g_page_count (pd_generation q)))) bs (ensure PAGES db1)" and
      s': "s' = set_pending (q\<lparr>pd_generation := (pd_generation q)\<lparr>g_page_count := g_page_count (pd_generation q) + 1\<rparr>\<rparr>) s"
    by (rule save_page_Inr [OF w])
  let ?n = "g_sequence (pd_generation p)"
  obtain sz where sz: "page_size page = Inr sz" using enc by (auto simp: encode_page_def res_simps)
  have sr: "same_rows db ?db" using same_rows_trans same_rows_simps(2) by blast
  have po: "pending_ok ?db p" using pub_state_okD(5) [OF ok p(1)] same_gen_pending [OF same_rows_gen [OF sr]] by simp
  have S: "q = staged (p\<lparr>pd_staged_bytes := m\<rparr>) (length (pg_points page))" "g_point_count (pd_generation q) \<le> MAX_POINTS" "db_ok db1"
      "data_ok db1 (pd_generation q)" "done_for db1 ?n = done_for ?db ?n" "only_gen ?n ?db db1" "pub_frame ?db db1"
      "keeps_captures ?n ?db db1"
    using stage_points_Inr [OF sp] dbok po pending_sequence [OF ok p(1)] page_counts [OF ok p(1)] wf page_size_Inr [OF sz]
    by (auto simp: pending_ok_def wf_page_def)
  have "done_for db1 ?n = done_for db ?n" using S(5) same_gen_done [OF same_rows_gen [OF sr]] by simp
  moreover have "only_gen ?n db db1" using S(6) only_gen_trans [OF only_gen_trans [OF only_gen_ensure only_gen_ensure]] by blast
  moreover have "pub_frame db ?db" using pub_frame_trans [OF pub_frame_writes(1) pub_frame_writes(1)] by simp
  then have "pub_frame db db1" using S(7) pub_frame_trans by blast
  moreover have "keeps_captures ?n db db1"
    using keeps_captures_trans [OF same_gen_captures [OF same_rows_gen [OF sr]] S(8)] .
  ultimately show ?thesis using that p db' s' S(1-4) po by blast
qed

lemma save_page_safe:
  assumes enc: "encode_page page env = Inr (bs, env')" and wf: "wf_page page"
  shows "safe_editor j (save_page pending page bs)"
  unfolding safe_editor_def safe_edit_def
proof (intro allI impI)
  fix db s x s' db'
  assume dbok: "db_ok db" and ok: "pub_state_ok j db s" and w: "save_page pending page bs db s [] = Inr ((x, s', db'), [])"
  obtain p q db1 m where p: "s_pending s = Some p" "\<not> pd_capture_complete p" "pd_in_flight p = None" "m \<le> MAX_STAGED_BYTES" and
      db': "db' = put_in PAGES (gen_key (g_sequence (pd_generation q)) (be_bytes (g_page_count (pd_generation q)))) bs (ensure PAGES db1)" and
      s': "s' = set_pending (q\<lparr>pd_generation := (pd_generation q)\<lparr>g_page_count := g_page_count (pd_generation q) + 1\<rparr>\<rparr>) s" and
      S: "q = staged (p\<lparr>pd_staged_bytes := m\<rparr>) (length (pg_points page))" "g_point_count (pd_generation q) \<le> MAX_POINTS"
        "db_ok db1" "data_ok db1 (pd_generation q)" and po: "pending_ok (ensure SOURCES (ensure EVIDENCE db)) p" and
      T: "done_for db1 (g_sequence (pd_generation p)) = done_for db (g_sequence (pd_generation p))"
        "only_gen (g_sequence (pd_generation p)) db db1" "pub_frame db db1"
    by (rule save_page_effect [OF enc wf dbok ok w])
  let ?g = "pd_generation p" and ?k = "length (pg_points page)"
  let ?n = "g_sequence ?g"
  obtain sz where sz: "page_size page = Inr sz" using enc by (auto simp: encode_page_def res_simps)
  note pg = page_size_Inr [OF sz]
  have dec: "decode_page bs [] = Inr (page, [])" by (rule decode_encode_page [OF wf enc])
  have gq: "pd_generation q = with_points ?g (g_point_count ?g + ?k)" by (simp add: S(1) staged_def)
  let ?q = "q\<lparr>pd_generation := (pd_generation q)\<lparr>g_page_count := g_page_count (pd_generation q) + 1\<rparr>\<rparr>"
  have "g_page_count ?g \<le> g_point_count ?g" using po by (simp add: pending_ok_def data_ok_def Let_def)
  then have lt: "g_page_count (pd_generation q) < g_point_count (pd_generation q)"
    using pg by (cases "pg_points page") (simp_all add: gq)
  have d1: "data_ok (ensure PAGES db1) (pd_generation q)"
    using S(4) same_gen_data [OF same_rows_gen [OF same_rows_simps(2)]] by simp
  have d: "data_ok db' (pd_generation ?q)"
    unfolding db' using put_page_data [OF _ d1 lt _ dec] S(2,3) by (simp add: MAX_POINTS_def)
  have dn: "done_for db' ?n = done_for db ?n"
    using S(3) T(1) by (auto simp: done_for_def entry_of_def db' get_put_in)
  have "pending_ok db' ?q"
    using pub_state_okD(5) [OF ok p(1)] d dn p(2,3) by (auto simp: pending_ok_def S(1) staged_def)
  moreover have "\<not> pending_insane s ?q"
    using pending_sane [OF ok p(1)] p by (auto simp: sane_def pending_insane_def S(1) staged_def)
  moreover have "generation_sane s (pd_generation ?q)"
    using pending_sane [OF ok p(1)] p(1) S(2) lt by (auto simp: sane_def generation_sane_def gq)
  moreover have "only_gen ?n db db'"
  proof -
    have "only_gen ?n (ensure PAGES db1) db'"
      unfolding db' gq using only_gen_put [of "ensure PAGES db1" ?n PagesTable] S(3) by simp
    then show ?thesis using T(2) only_gen_trans only_gen_ensure by blast
  qed
  ultimately have "sane s' \<and> pub_state_ok j db' s'"
    unfolding s' using gq by (intro update_pending [OF ok p(1)]) simp_all
  moreover have "pub_frame db1 db'"
    unfolding db' using pub_frame_trans [OF pub_frame_writes(1) pub_frame_writes(2)] by simp
  then have "pub_frame db db'" using T(3) pub_frame_trans by blast
  ultimately show "sane s' \<and> pub_state_ok j db' s' \<and> pub_frame db db'" by simp
qed

section \<open>Reserving a generation\<close>

lemma fresh_rows:
  assumes "pub_state_ok j db s" "s_next_sequence s < n" "n < u64_bound"
  shows "row_in db d n suffix = None"
proof (rule ccontr)
  assume "row_in db d n suffix \<noteq> None"
  then obtain m t where "gen_key n suffix = gen_key m t" "m \<le> s_next_sequence s"
    using pub_state_okD(3) [OF assms(1)] by blast
  then show False using assms(2,3) gen_key_inject [of n m] by auto
qed

definition reserves :: "CorpusCapture \<Rightarrow> bytes \<Rightarrow> bool" where
  "reserves capture namespace \<longleftrightarrow> length (cc_sources capture) \<le> MAX_SOURCES \<and>
     (\<forall>n. s_namespace (cc_state capture) = Some n \<longrightarrow> n = namespace)"

lemma reserve_Inr:
  assumes "reserve_generation capture namespace db s [] = Inr ((x, s', db'), [])"
  shows "s_pending s = None \<and> s_namespace s = s_namespace (cc_state capture) \<and> s_next_sequence s + 1 < u64_bound \<and>
    length (the_table db RETIRED) < MAX_RETIRED \<and> db' = ensure RETIRED db \<and>
    cc_wanted_revision capture = wanted_of db \<and> cc_source_namespace capture = namespace_of db \<and>
    x = new_pending capture namespace (s\<lparr>s_namespace := Some namespace, s_next_sequence := s_next_sequence s + 1\<rparr>) \<and>
    s' = set_pending x (s\<lparr>s_namespace := Some namespace, s_next_sequence := s_next_sequence s + 1\<rparr>)"
  using assms by (auto simp: reserve_generation_def Let_def res_simps split: if_splits dest!: check_wanted_Inr)

lemma reserve_safe:
  assumes r: "reserves capture namespace"
  shows "safe_editor j (reserve_generation capture namespace)"
  unfolding safe_editor_def safe_edit_def
proof (intro allI impI)
  fix db s x s' db'
  assume ok: "pub_state_ok j db s" and w: "reserve_generation capture namespace db s [] = Inr ((x, s', db'), [])"
  let ?s = "s\<lparr>s_namespace := Some namespace, s_next_sequence := s_next_sequence s + 1\<rparr>"
  note R = reserve_Inr [OF w]
  have x: "x = new_pending capture namespace ?s" and s': "s' = set_pending x ?s" and db': "db' = ensure RETIRED db"
    and np: "s_pending s = None" using R by auto
  let ?n = "s_next_sequence s + 1"
  have g: "g_sequence (pd_generation x) = ?n" "g_point_count (pd_generation x) = 0" "g_page_count (pd_generation x) = 0"
    by (simp_all add: x new_pending_def)
  have empty: "row_in db d ?n t = None" for d t using fresh_rows [OF ok] R by simp
  have e: "rows_for db ?n = {}" "done_for db ?n = {}"
    using empty [of SourcesTable] by (simp_all add: rows_for_def done_for_def entry_of_def)
  have "pending_ok db x"
    by (simp add: pending_ok_def data_ok_def Let_def g e [simplified] entries_ok_def) (simp add: x new_pending_def)
  then have po: "pending_ok db' x" unfolding db' using same_gen_pending [OF same_rows_gen [OF same_rows_simps(2)]] by simp
  have d: "s = State_default \<or> sane s" by (rule pub_state_okD(1) [OF ok])
  have ns: "s = State_default \<or> s_namespace s = Some namespace"
    using d R r by (auto simp: sane_def reserves_def)
  have sx: "generation_sane s' (pd_generation x)"
    using r by (simp add: generation_sane_def s' x new_pending_def reserves_def MAX_POINTS_def not_less)
  have ix: "\<not> pending_insane s' x"
    using current_sequence [OF ok] by (auto simp: pending_insane_def s' x new_pending_def split: option.splits)
  have cur: "generation_sane s' c" if "s_current s = Some c" for c
    using d ns that by (auto simp: State_default_def sane_def generation_sane_def s')
  have sn: "sane s'" using d sx ix cur by (auto simp: sane_def s' State_default_def)
  have ret: "retired_ok j s' k v" if "retired_ok j s k v" for k v
  proof (rule retired_ok_mono [OF that])
    show "s_namespace s' = s_namespace s" using ns that by (auto simp: s' retired_ok_def State_default_def)
  qed (use g(1) in \<open>auto simp: s' other_than_def\<close>)
  have "pub_state_ok j db' s'"
  proof (rule pub_state_okI)
    show "s' = State_default \<or> sane s'" using sn by simp
    show "s_next_sequence s' < u64_bound" using R by (simp add: s')
    show "\<exists>n suffix. k = gen_key n suffix \<and> n \<le> s_next_sequence s'"
      if "tbl_get (the_table db' (data_table d)) k = Some v" for d k v
      using pub_state_okD(3) [OF ok, of d k v] that by (auto simp: db' s' intro: le_SucI)
    show "published_ok db' g" if "s_current s' = Some g" for g
      using pub_state_okD(4) [OF ok, of g] that same_gen_published [OF same_rows_gen [OF same_rows_simps(2)]]
      by (simp add: db' s')
    show "pending_ok db' p" if "s_pending s' = Some p" for p using po that by (simp add: s')
    show "retired_ok j s' k v" if "tbl_get (the_table db' RETIRED) k = Some v" for k v
      using ret pub_state_okD(6) [OF ok, of k v] that by (simp add: db')
    show "length (the_table db' RETIRED) + (if s_pending s' = None then 0 else 1) \<le> MAX_RETIRED"
      using R by (simp add: s')
  qed
  then show "sane s' \<and> pub_state_ok j db' s' \<and> pub_frame db db'"
    using sn pub_frame_writes(1) by (simp add: db')
qed

section \<open>Saving the inputs\<close>

definition fresh_entry :: "CapturedSource \<Rightarrow> SourceEntry" where
  "fresh_entry c = \<lparr>se_captured = c, se_staged_units = 0, se_complete = False\<rparr>"

abbreviation captured_id :: "CapturedSource \<Rightarrow> bytes" where
  "captured_id c \<equiv> source_id (ca_source c)"

definition input_row :: "nat \<Rightarrow> CapturedSource \<Rightarrow> bytes \<times> bytes \<Rightarrow> bool" where
  "input_row n c row \<longleftrightarrow> fst row = gen_key n (captured_id c) \<and> encode_entry (fresh_entry c) = Inr (snd row)"

lemma encode_inputs_Inr:
  assumes "encode_inputs n cs env = Inr (rows, env')"
  shows "list_all2 (input_row n) cs rows"
proof -
  have "encode_inputs n cs [] = Inr (rows, [])"
    by (rule interruptible_Inr [OF encode_inputs_interruptible assms])
  then show ?thesis
    by (induction cs arbitrary: rows) (auto simp: res_simps input_row_def fresh_entry_def)
qed

definition saved :: "nat \<Rightarrow> CapturedSource list \<Rightarrow> Database \<Rightarrow> Database \<Rightarrow> bool" where
  "saved n cs db db' \<longleftrightarrow> rows_for db' n = rows_for db n \<union> captured_id ` set cs \<and>
     card (rows_for db' n) = card (rows_for db n) + length cs \<and>
     (\<forall>c \<in> set cs. entry_of db' n (captured_id c) = Some (fresh_entry c)) \<and>
     (\<forall>sid \<in> rows_for db n. entry_of db' n sid = entry_of db n sid) \<and>
     (\<forall>t. row_in db' EvidenceTable n t = row_in db EvidenceTable n t) \<and>
     (\<forall>t. row_in db' PagesTable n t = row_in db PagesTable n t) \<and>
     only_gen n db db' \<and> pub_frame db db'"

lemma saved_Nil: "saved n [] db db"
  by (simp add: saved_def)

lemma saved_Cons:
  assumes "db_ok db" "decode_source v = Inr (fresh_entry c)" "captured_id c \<notin> rows_for db n"
    and "saved n cs (put_entry n (captured_id c) v db) db'"
  shows "saved n (c # cs) db db'"
proof -
  let ?db = "put_entry n (captured_id c) v db"
  note f = put_entry_facts [OF assms(1,2), of n "captured_id c"] and S = assms(4) [unfolded saved_def]
  have "card (rows_for ?db n) = card (rows_for db n) + 1" using assms(3) finite_rows by (simp add: f(2))
  then have "card (rows_for db' n) = card (rows_for db n) + length (c # cs)" using S by (metis add.assoc add.commute length_Cons plus_1_eq_Suc)
  moreover have "\<forall>d \<in> set cs. entry_of db' n (captured_id d) = Some (fresh_entry d)" using S by blast
  moreover have "entry_of db' n (captured_id c) = Some (fresh_entry c)" using S by (simp add: f(1,2))
  moreover have "\<forall>sid \<in> rows_for db n. entry_of db' n sid = entry_of db n sid"
    using S assms(3) by (auto simp: f(1,2))
  moreover have "only_gen n db db'" using S only_gen_trans [OF put_entry_only [OF assms(1)]] by blast
  moreover have "pub_frame db db'"
    using S pub_frame_trans [OF pub_frame_writes(2)] pub_names unfolding put_entry_def by blast
  moreover have "rows_for db' n = rows_for db n \<union> captured_id ` set (c # cs)" using S by (auto simp: f(2))
  moreover have "\<forall>t. row_in db' EvidenceTable n t = row_in db EvidenceTable n t"
      "\<forall>t. row_in db' PagesTable n t = row_in db PagesTable n t"
    using S f(3,4) by auto
  ultimately show ?thesis unfolding saved_def by (metis set_ConsD)
qed

lemma insert_inputs_Inr:
  assumes "list_all2 (input_row n) cs rows" "insert_inputs rows db [] = Inr (db', env)" "db_ok db"
    "\<And>c. c \<in> set cs \<Longrightarrow> storable_entry (fresh_entry c)"
  shows "env = [] \<and> db_ok db' \<and> saved n cs db db'"
  using assms
proof (induction cs rows arbitrary: db rule: list_all2_induct)
  case Nil
  then show ?case by (simp add: saved_Nil)
next
  case (Cons c cs row rows)
  obtain v where r: "row = (gen_key n (captured_id c), v)" "encode_entry (fresh_entry c) = Inr v"
    using Cons.hyps(1) by (cases row) (auto simp: input_row_def)
  have new: "captured_id c \<notin> rows_for db n" and
      rest: "insert_inputs rows (put_entry n (captured_id c) v db) [] = Inr (db', env)"
    using Cons.prems(1) by (auto simp: r rows_for_def put_entry_def split: if_splits)
  have dec: "decode_source v = Inr (fresh_entry c)"
    using entries.dec_enc [OF _ r(2)] Cons.prems(3) by simp
  have ok: "db_ok (put_entry n (captured_id c) v db)" using Cons.prems(2) by (simp add: put_entry_def)
  show ?case
    using Cons.IH [OF rest ok] Cons.prems(2,3) saved_Cons [OF Cons.prems(2) dec new] by auto
qed

lemma saved_data:
  assumes s: "saved n cs db db'" and d: "data_ok db g" and g: "g_sequence g = n"
    and st: "\<And>c. c \<in> set cs \<Longrightarrow> storable_entry (fresh_entry c)"
    and c: "card (rows_for db n) + length cs \<le> g_source_count g"
  shows "data_ok db' g \<and> done_for db' n = done_for db n"
proof -
  note S = s [unfolded saved_def]
  have keep: "entry_of db' n sid = Some e" if "entry_of db n sid = Some e" for sid e
    using S entry_row [OF that] that by simp
  have new: "entry_of db' n sid = Some e \<Longrightarrow> entry_of db n sid = Some e \<or> (\<exists>c \<in> set cs. sid = captured_id c \<and> e = fresh_entry c)" for sid e
    using S entry_row [of db' n sid e] by auto
  have "entries_ok db' n"
    unfolding entries_ok_def
  proof
    fix sid assume "sid \<in> rows_for db' n"
    then consider "sid \<in> rows_for db n" | c where "c \<in> set cs" "sid = captured_id c" using S by auto
    then show "\<exists>e. entry_of db' n sid = Some e \<and> storable_entry e \<and> source_id (ca_source (se_captured e)) = sid"
    proof cases
      case 1
      then show ?thesis using d g keep by (force simp: data_ok_def Let_def entries_ok_def)
    next
      case 2
      then show ?thesis using S st by (auto simp: fresh_entry_def)
    qed
  qed
  moreover have "point_ok db' n i" if "point_ok db n i" for i
    using that keep S unfolding point_ok_def by fastforce
  moreover have "page_ok db' n i" if "page_ok db n i" for i using that S unfolding page_ok_def by simp
  moreover have "done_for db' n = done_for db n"
    using keep new unfolding done_for_def by (fastforce simp: fresh_entry_def)
  moreover have "card (rows_for db' n) \<le> g_source_count g" using S c by linarith
  ultimately show ?thesis using d g by (simp add: data_ok_def Let_def)
qed

lemma save_inputs_safe:
  assumes ok: "pub_state_ok j db s" and dbok: "db_ok db" and p: "s_pending s = Some p"
    and rows: "list_all2 (input_row (g_sequence (pd_generation p))) cs rows"
    and st: "\<And>c. c \<in> set cs \<Longrightarrow> storable_entry (fresh_entry c)"
    and c: "card (rows_for db (g_sequence (pd_generation p))) + length cs \<le> g_source_count (pd_generation p)"
    and w: "save_inputs pending rows db s [] = Inr ((x, s', db'), [])"
  shows "s' = s \<and> sane s \<and> pub_state_ok j db' s \<and> pub_frame db db' \<and>
    saved (g_sequence (pd_generation p)) cs (ensure SOURCES db) db'"
proof -
  let ?n = "g_sequence (pd_generation p)" and ?db = "ensure SOURCES db"
  obtain env where i: "insert_inputs rows ?db [] = Inr (db', env)" and s': "s' = s"
    using w by (auto simp: save_inputs_def res_simps dest!: pending_mut_Inr)
  have S: "saved ?n cs ?db db'" using insert_inputs_Inr [OF rows i] dbok st by simp
  have sg: "same_gen ?n db ?db" by (rule same_rows_gen) simp
  have po: "pending_ok ?db p" using pub_state_okD(5) [OF ok p] same_gen_pending [OF sg] by simp
  have D: "data_ok db' (pd_generation p)" "done_for db' ?n = done_for ?db ?n"
    using saved_data [OF S _ refl st] po c same_gen_rows [OF sg] by (auto simp: pending_ok_def)
  have pd: "pending_ok db' p" using po D by (simp add: pending_ok_def)
  have og: "only_gen ?n db db'" using S only_gen_trans [OF only_gen_ensure] unfolding saved_def by blast
  have sn: "sane s" by (rule pending_sane [OF ok p])
  then have gs: "generation_sane s (pd_generation p)" "\<not> pending_insane s p" using p by (simp_all add: sane_def)
  have "set_pending p s = s" using p by (simp add: set_pending_def)
  then have "pub_state_ok j db' s" using update_pending [OF ok p refl gs pd og] by simp
  moreover have "pub_frame ?db db'" using S unfolding saved_def by blast
  then have "pub_frame db db'" using pub_frame_trans [OF pub_frame_writes(1) [of SOURCES db]] pub_names(2) by blast
  ultimately show ?thesis using S s' sn by simp
qed

section \<open>Removing a retired generation\<close>

text \<open>Rows of a generation that is neither current nor pending may be removed.\<close>

lemma remove_gen:
  assumes ok: "pub_state_ok j db s" and o: "other_than s n" and n: "n < u64_bound"
    and t: "\<And>d k v. tbl_get (the_table db' (data_table d)) k = Some v \<Longrightarrow> tbl_get (the_table db (data_table d)) k = Some v"
    and only: "\<And>m. m < u64_bound \<Longrightarrow> m \<noteq> n \<Longrightarrow> same_gen m db db'"
    and r: "\<And>k v. tbl_get (the_table db' RETIRED) k = Some v \<Longrightarrow> tbl_get (the_table db RETIRED) k = Some v"
      "length (the_table db' RETIRED) \<le> length (the_table db RETIRED)"
  shows "pub_state_ok j db' s"
proof (rule pub_state_okI)
  show "published_ok db' g" if "s_current s = Some g" for g
  proof -
    have "same_gen (g_sequence g) db db'" using only current_sequence [OF ok that] o that by (auto simp: other_than_def)
    then show ?thesis using pub_state_okD(4) [OF ok that] same_gen_published by simp
  qed
  show "pending_ok db' p" if "s_pending s = Some p" for p
  proof -
    have "same_gen (g_sequence (pd_generation p)) db db'"
      using only pending_sequence [OF ok that] o that by (auto simp: other_than_def)
    then show ?thesis using pub_state_okD(5) [OF ok that] same_gen_pending by simp
  qed
qed (use pub_state_okD [OF ok] t r in \<open>blast+, auto\<close>)

lemma check_retired_other:
  "check_retired j s retired db [] = Inr (db', env) \<Longrightarrow>
   env = [] \<and> db' = ensure RETIRED db \<and> other_than s (g_sequence (rg_generation retired)) \<and>
   s_namespace s = Some (g_namespace (rg_generation retired)) \<and>
   tbl_get (the_table db RETIRED) (be_bytes (g_sequence (rg_generation retired))) \<noteq> None"
  by (auto simp: other_than_def check_retired_def Let_def res_simps split: if_splits option.splits)

lemma retired_not_default: "s = State_default \<or> sane s \<Longrightarrow> s_namespace s = Some n \<Longrightarrow> sane s"
  by (auto simp: State_default_def)

lemma remove_rows_safe:
  assumes n: "g_sequence (rg_generation retired) < u64_bound"
    and ks: "\<And>k. k \<in> set ks \<Longrightarrow> starts_with (be_bytes (g_sequence (rg_generation retired))) k"
  shows "safe_editor j (remove_rows j retired (data_table d) ks)"
  unfolding safe_editor_def safe_edit_def
proof (intro allI impI)
  fix db s x s' db'
  assume dbok: "db_ok db" and ok: "pub_state_ok j db s"
    and w: "remove_rows j retired (data_table d) ks db s [] = Inr ((x, s', db'), [])"
  let ?n = "g_sequence (rg_generation retired)" and ?db = "ensure (data_table d) (ensure RETIRED db)"
  obtain env where c: "other_than s ?n" "s_namespace s = Some (g_namespace (rg_generation retired))" "s' = s"
      and r: "remove_keys (data_table d) ks ?db [] = Inr (db', env)"
    using w by (auto simp: remove_rows_def res_simps dest!: check_retired_other)
  note R = remove_keys_Inr [OF r]
  have t: "the_table db' m = (if m = data_table d then del_keys ks (the_table db m) else the_table db m)" for m
    using R by simp
  have "same_gen m db db'" if "m < u64_bound" "m \<noteq> ?n" for m
  proof -
    have "gen_key m suffix \<notin> set ks" for suffix
      using ks [of "gen_key m suffix"] that n by (auto simp: starts_with_gen_key gen_key_inject)
    then show ?thesis by (simp add: same_gen_def t tbl_get_del_keys)
  qed
  then have "pub_state_ok j db' s"
    by (intro remove_gen [OF ok c(1) n]) (auto simp: t tbl_get_del_keys split: if_splits)
  moreover have "sane s" using retired_not_default pub_state_okD(1) [OF ok] c(2) by blast
  moreover have "pub_frame db db'"
  proof -
    have "get_table db' m = get_table db m" if "m \<notin> PUB" for m
    proof -
      have ne: "m \<noteq> data_table d" "m \<noteq> RETIRED" using that data_table_pub pub_names by blast+
      have "m \<in> set (list_tables db') \<longleftrightarrow> m \<in> set (list_tables db)" using R ne by auto
      then show ?thesis using t [of m] ne(1) get_table_the not_listed get_table_iff by (metis the_table_def option.case_eq_if option.expand)
    qed
    then show ?thesis using R dbok by (auto simp: pub_frame_def)
  qed
  ultimately show "sane s' \<and> pub_state_ok j db' s' \<and> pub_frame db db'" using c(3) by simp
qed

lemma length_tbl_del [simp]: "length (tbl_del k t) \<le> length t"
  by (simp add: tbl_del_def)

lemma forget_safe:
  assumes n: "g_sequence (rg_generation retired) < u64_bound"
  shows "safe_editor j (forget_retired j retired)"
  unfolding safe_editor_def safe_edit_def
proof (intro allI impI)
  fix db s x s' db'
  assume dbok: "db_ok db" and ok: "pub_state_ok j db s" and w: "forget_retired j retired db s [] = Inr ((x, s', db'), [])"
  let ?n = "g_sequence (rg_generation retired)"
  have c: "other_than s ?n" "s_namespace s = Some (g_namespace (rg_generation retired))" "s' = s"
      "db' = del_in RETIRED (be_bytes ?n) (ensure RETIRED (ensure RETIRED db))"
    using w by (auto simp: forget_retired_def res_simps dest!: check_retired_other)
  have "pub_state_ok j db' s"
    by (rule remove_gen [OF ok c(1) n])
      (auto simp: c(4) the_table_del_in same_gen_def tbl_get_del split: if_splits)
  moreover have "sane s" using retired_not_default pub_state_okD(1) [OF ok] c(2) by blast
  moreover have "pub_frame db db'" unfolding c(4)
    using pub_frame_trans [OF pub_frame_trans [OF pub_frame_writes(1) pub_frame_writes(1)] pub_frame_writes(3)] by simp
  ultimately show "sane s' \<and> pub_state_ok j db' s' \<and> pub_frame db db'" using c(3) by simp
qed

end
