(* ===== verification/PublishedReads.thy ===== *)
theory PublishedReads
  imports Publication
begin

text \<open>
  Reads of a published generation: the pinned view of \<open>publication.rs\<close> with its inventory and the
  resolution of points, and the exhaustive verification of a saved generation
  (\<open>publication/verify.rs\<close>). The snapshot a view owns is the database at the time of pinning.
\<close>

section \<open>Model: the pinned view\<close>

record PublishedView =
  pv_generation :: Generation
  pv_transaction :: Database

record ResolvedPoint =
  rp_evidence :: PointEvidence
  rp_captured :: CapturedSource

definition view_source ::
  "Json \<Rightarrow> PublishedView \<Rightarrow> bytes \<Rightarrow> env \<Rightarrow> PublicationError + CapturedSource \<times> env" where
  "view_source j view sid env =
     bindE (pub_check env) (\<lambda>env.
     bindE (read_saved_source j (pv_generation view) sid (pv_transaction view) env) (\<lambda>(source, env).
     bindE (pub_check env) (\<lambda>env. Inr (source, env))))"

definition add_units :: "nat \<Rightarrow> nat \<Rightarrow> PublicationError + nat" where
  "add_units units n = ok_or Corrupt (Option.bind (checked_add64 units n)
     (\<lambda>v. if v \<le> MAX_POINTS then Some v else None))"

fun inventory_entries ::
  "nat \<Rightarrow> bytes \<Rightarrow> (bytes \<times> bytes) list \<Rightarrow> CapturedSource list \<Rightarrow> bytes option \<Rightarrow> nat \<Rightarrow> nat \<Rightarrow> env \<Rightarrow>
   PublicationError + (CapturedSource list \<times> nat \<times> nat) \<times> env" where
  "inventory_entries count pre [] inventory namespace gaps units env = Inr ((inventory, gaps, units), env)"
| "inventory_entries count pre ((k, v) # rows) inventory namespace gaps units env =
     bindE (pub_check env) (\<lambda>env.
     bindE (pub_io env) (\<lambda>env.
     if \<not> starts_with pre k then Inr ((inventory, gaps, units), env)
     else if length k \<noteq> 24 \<or> count \<le> length inventory then Inl Corrupt
     else
       bindE (decode_source v) (\<lambda>entry.
       let source = ca_source (se_captured entry) in
       if \<not> se_complete entry \<or> drop 8 k \<noteq> source_id source
          \<or> (case namespace of None \<Rightarrow> False | Some expected \<Rightarrow> expected \<noteq> source_namespace_id source)
       then Inl Corrupt
       else
         bindE (ok_or Corrupt (cp_outcome (ca_preparation (se_captured entry)))) (\<lambda>out.
         bindE (case bo_result out of
             Ready _ \<Rightarrow> if (byte_length (object_ref source) = 0) \<noteq> (se_staged_units entry = 0)
               then Inl Corrupt else Inr gaps
           | Gap _ \<Rightarrow> if se_staged_units entry \<noteq> 0 then Inl Corrupt else Inr (gaps + 1)) (\<lambda>gaps.
         bindE (add_units units (se_staged_units entry)) (\<lambda>units.
         inventory_entries count pre rows (inventory @ [se_captured entry])
           (Some (source_namespace_id source)) gaps units env))))))"

definition source_inventory :: "PublishedView \<Rightarrow> env \<Rightarrow> PublicationError + CapturedSource list \<times> env" where
  "source_inventory view env =
     (let g = pv_generation view; pre = be_bytes (g_sequence g) in
      bindE (pub_check env) (\<lambda>env.
      bindE (ok_or Corrupt (try_from u64_bound (g_source_count g))) (\<lambda>count.
      if MAX_SOURCES < count then Inl Corrupt
      else
        bindE (r_open Corrupt (pv_transaction view) SOURCES env) (\<lambda>(t, env).
        bindE (reserve_with Allocation env) (\<lambda>env.
        bindE (pub_io env) (\<lambda>env.
        bindE (inventory_entries count pre (from_prefix pre t) [] None 0 0 env) (\<lambda>((inventory, gaps, units), env).
        if length inventory \<noteq> count \<or> gaps \<noteq> g_gap_count g \<or> units \<noteq> g_point_count g then Inl Corrupt
        else bindE (pub_check env) (\<lambda>env. Inr (inventory, env)))))))))"

definition of_be_bytes :: "bytes \<Rightarrow> nat" where
  "of_be_bytes bs = of_le_bytes (rev bs)"

definition resolve_point :: "PublishedView \<Rightarrow> bytes \<Rightarrow> env \<Rightarrow> PublicationError + ResolvedPoint \<times> env" where
  "resolve_point view i env =
     (let g = pv_generation view; db = pv_transaction view in
      if take 8 i \<noteq> be_bytes (g_sequence g) \<or> g_point_count g \<le> of_be_bytes (drop 8 i) then Inl Corrupt
      else
        bindE (r_open Corrupt db EVIDENCE env) (\<lambda>(t, env).
        bindE (r_get Database t (gen_key (g_sequence g) i) env) (\<lambda>(v, env).
        bindE (ok_or Corrupt v) (\<lambda>v.
        bindE (decode_evidence v) (\<lambda>ev.
        bindE (r_open Corrupt db SOURCES env) (\<lambda>(sources, env).
        bindE (r_get Database sources (gen_key (g_sequence g) (pe_source_id ev)) env) (\<lambda>(s, env).
        bindE (ok_or Corrupt s) (\<lambda>s.
        bindE (decode_source s) (\<lambda>entry.
        let c = se_captured entry in
        if \<not> se_complete entry \<or> pe_source_id ev \<noteq> source_id (ca_source c)
           \<or> se_staged_units entry \<le> pe_unit ev
           \<or> pe_namespace_id ev \<noteq> source_namespace_id (ca_source c)
           \<or> pe_input ev \<noteq> object_ref (ca_source c)
           \<or> ready_artifact c \<noteq> Some (pe_prepared ev)
        then Inl Corrupt
        else Inr (\<lparr>rp_evidence = ev, rp_captured = c\<rparr>, env))))))))))"

definition view_close :: "PublishedView \<Rightarrow> env \<Rightarrow> PublicationError + unit \<times> env" where
  "view_close view env = bindE (pub_io env) (\<lambda>env. Inr ((), env))"

definition pin_published :: "Json \<Rightarrow> Database \<Rightarrow> env \<Rightarrow> PublicationError + PublishedView \<times> env" where
  "pin_published j db env =
     bindE (pub_check env) (\<lambda>env.
     bindE (pub_io env) (\<lambda>env.
     bindE (pub_io env) (\<lambda>env.
     bindE (read_state j db env) (\<lambda>(state, env).
     bindE (ok_or NotPublished (s_current state)) (\<lambda>g.
     bindE (r_open Corrupt db SOURCES env) (\<lambda>(_, env).
     bindE (r_open Corrupt db EVIDENCE env) (\<lambda>(_, env).
     bindE (r_open Corrupt db PAGES env) (\<lambda>(_, env).
     bindE (pub_check env) (\<lambda>env.
     Inr (\<lparr>pv_generation = g, pv_transaction = db\<rparr>, env))))))))))"

section \<open>Model: verification of a generation\<close>

record SourceProgress =
  sp_id :: bytes
  sp_namespace :: bytes
  sp_input :: ObjectRef
  sp_prepared :: "ObjectRef option"
  sp_units :: nat
  sp_seen :: nat
  sp_byte_end :: nat

definition progress_from_entry :: "SourceEntry \<Rightarrow> PublicationError + SourceProgress" where
  "progress_from_entry entry =
     (if \<not> se_complete entry \<or> MAX_POINTS < se_staged_units entry then Inl Corrupt
      else
        let source = ca_source (se_captured entry) in
        bindE (ok_or Corrupt (cp_outcome (ca_preparation (se_captured entry)))) (\<lambda>out.
        bindE (case bo_result out of
            Ready art \<Rightarrow> if (byte_length (object_ref source) = 0) \<noteq> (se_staged_units entry = 0)
              then Inl Corrupt else Inr (Some art)
          | Gap _ \<Rightarrow> if se_staged_units entry \<noteq> 0 then Inl Corrupt else Inr None) (\<lambda>prepared.
        Inr \<lparr>sp_id = source_id source, sp_namespace = source_namespace_id source, sp_input = object_ref source,
          sp_prepared = prepared, sp_units = se_staged_units entry, sp_seen = 0, sp_byte_end = 0\<rparr>)))"

definition progress_accept :: "PointEvidence \<Rightarrow> SourceProgress \<Rightarrow> PublicationError + SourceProgress" where
  "progress_accept ev sp =
     (if pe_namespace_id ev \<noteq> sp_namespace sp \<or> pe_source_id ev \<noteq> sp_id sp \<or> pe_input ev \<noteq> sp_input sp
         \<or> Some (pe_prepared ev) \<noteq> sp_prepared sp \<or> pe_unit ev \<noteq> sp_seen sp \<or> pe_start ev \<noteq> sp_byte_end sp
         \<or> byte_length (sp_input sp) < pe_end ev \<or> sp_units sp \<le> sp_seen sp
      then Inl Corrupt
      else bindE (ok_or Limit (checked_add64 (sp_seen sp) 1)) (\<lambda>n.
        Inr (sp\<lparr>sp_seen := n, sp_byte_end := pe_end ev\<rparr>)))"

definition progress_complete :: "SourceProgress \<Rightarrow> bool" where
  "progress_complete sp \<longleftrightarrow> sp_seen sp = sp_units sp \<and>
     (sp_prepared sp = None \<or> sp_byte_end sp = byte_length (sp_input sp))"

fun verify_rows ::
  "nat \<Rightarrow> bytes \<Rightarrow> (bytes \<times> bytes) list \<Rightarrow> SourceProgress list \<Rightarrow> bytes option \<Rightarrow> nat \<Rightarrow> nat \<Rightarrow> env \<Rightarrow>
   PublicationError + (SourceProgress list \<times> nat \<times> nat) \<times> env" where
  "verify_rows count pre [] progress namespace gaps units env = Inr ((progress, gaps, units), env)"
| "verify_rows count pre ((k, v) # rows) progress namespace gaps units env =
     bindE (pub_check env) (\<lambda>env.
     bindE (pub_io env) (\<lambda>env.
     if \<not> starts_with pre k then Inr ((progress, gaps, units), env)
     else if length k \<noteq> 24 \<or> count \<le> length progress then Inl Corrupt
     else
       bindE (decode_source v) (\<lambda>entry.
       bindE (progress_from_entry entry) (\<lambda>source.
       if drop 8 k \<noteq> sp_id source
          \<or> (case namespace of None \<Rightarrow> False | Some expected \<Rightarrow> expected \<noteq> sp_namespace source)
       then Inl Corrupt
       else
         bindE (add_units units (sp_units source)) (\<lambda>units.
         verify_rows count pre rows (progress @ [source]) (Some (sp_namespace source))
           (gaps + (if sp_prepared source = None then 1 else 0)) units env)))))"

definition verify_sources ::
  "Database \<Rightarrow> Generation \<Rightarrow> env \<Rightarrow> PublicationError + SourceProgress list \<times> env" where
  "verify_sources db g env =
     bindE (ok_or Corrupt (try_from u64_bound (g_source_count g))) (\<lambda>count.
     if MAX_SOURCES < count then Inl Corrupt
     else
       let pre = be_bytes (g_sequence g) in
       bindE (r_open Corrupt db SOURCES env) (\<lambda>(t, env).
       bindE (reserve_with Allocation env) (\<lambda>env.
       bindE (pub_io env) (\<lambda>env.
       bindE (verify_rows count pre (from_prefix pre t) [] None 0 0 env) (\<lambda>((progress, gaps, units), env).
       if length progress \<noteq> count \<or> gaps \<noteq> g_gap_count g \<or> units \<noteq> g_point_count g then Inl Corrupt
       else Inr (progress, env))))))"

text \<open>
  The progress of a source is found by its identity: the rows are in key order, so the
  identities are strictly ascending and a binary search finds the only match.
\<close>

fun accept_in :: "PointEvidence \<Rightarrow> SourceProgress list \<Rightarrow> PublicationError + SourceProgress list" where
  "accept_in ev [] = Inl Corrupt"
| "accept_in ev (sp # sps) =
     (if sp_id sp = pe_source_id ev then bindE (progress_accept ev sp) (\<lambda>sp. Inr (sp # sps))
      else bindE (accept_in ev sps) (\<lambda>sps. Inr (sp # sps)))"

definition verify_point ::
  "Generation \<Rightarrow> UploadPoint \<Rightarrow> nat \<Rightarrow> bytes \<Rightarrow> SourceProgress list \<Rightarrow> PublicationError + SourceProgress list" where
  "verify_point g point ordinal saved progress =
     (if take 8 (up_id point) \<noteq> be_bytes (g_sequence g) \<or> drop 8 (up_id point) \<noteq> be_bytes ordinal then Inl Corrupt
      else
        bindE (decode_evidence saved) (\<lambda>ev.
        if ev \<noteq> up_evidence point then Inl Corrupt
        else accept_in (up_evidence point) progress))"

fun verify_points ::
  "Generation \<Rightarrow> table \<Rightarrow> UploadPoint list \<Rightarrow> nat \<Rightarrow> SourceProgress list \<Rightarrow> env \<Rightarrow>
   PublicationError + (nat \<times> SourceProgress list) \<times> env" where
  "verify_points g ev [] point_count progress env = Inr ((point_count, progress), env)"
| "verify_points g ev (saved # points) point_count progress env =
     bindE (pub_check env) (\<lambda>env.
     if g_point_count g \<le> point_count then Inl Corrupt
     else
       bindE (r_get Database ev (gen_key (g_sequence g) (up_id saved)) env) (\<lambda>(v, env).
       bindE (ok_or Corrupt v) (\<lambda>v.
       bindE (verify_point g saved point_count v progress) (\<lambda>progress.
       bindE (ok_or Corrupt (checked_add64 point_count 1)) (\<lambda>point_count.
       verify_points g ev points point_count progress env)))))"

fun verify_pages ::
  "Generation \<Rightarrow> table \<Rightarrow> (bytes \<times> bytes) list \<Rightarrow> nat \<Rightarrow> nat \<Rightarrow> nat \<Rightarrow> SourceProgress list \<Rightarrow> env \<Rightarrow>
   PublicationError + (nat \<times> nat \<times> SourceProgress list) \<times> env" where
  "verify_pages g ev [] page_count point_count charged progress env = Inr ((page_count, point_count, progress), env)"
| "verify_pages g ev ((k, v) # rows) page_count point_count charged progress env =
     bindE (pub_check env) (\<lambda>env.
     bindE (pub_io env) (\<lambda>env.
     if \<not> starts_with (be_bytes (g_sequence g)) k then Inr ((page_count, point_count, progress), env)
     else if g_page_count g \<le> page_count \<or> k \<noteq> gen_key (g_sequence g) (be_bytes page_count) then Inl Corrupt
     else
       bindE (ok_or Corrupt (try_from u64_bound (length v))) (\<lambda>n.
       bindE (ok_or Corrupt (Option.bind (checked_add64 charged n)
         (\<lambda>n. if n \<le> MAX_STAGED_BYTES then Some n else None))) (\<lambda>charged.
       bindE (decode_page v env) (\<lambda>(page, env).
       bindE (verify_points g ev (pg_points page) point_count progress env) (\<lambda>((point_count, progress), env).
       bindE (ok_or Corrupt (checked_add64 page_count 1)) (\<lambda>page_count.
       verify_pages g ev rows page_count point_count charged progress env)))))))"

fun count_evidence ::
  "Generation \<Rightarrow> (bytes \<times> bytes) list \<Rightarrow> nat \<Rightarrow> env \<Rightarrow> PublicationError + nat \<times> env" where
  "count_evidence g [] count env = Inr (count, env)"
| "count_evidence g ((k, v) # rows) count env =
     bindE (pub_check env) (\<lambda>env.
     bindE (pub_io env) (\<lambda>env.
     if \<not> starts_with (be_bytes (g_sequence g)) k then Inr (count, env)
     else if length k \<noteq> 24 \<or> take 8 (drop 8 k) \<noteq> be_bytes (g_sequence g) then Inl Corrupt
     else if g_point_count g \<le> of_be_bytes (drop 16 k) then Inl Corrupt
     else
       bindE (ok_or Corrupt (Option.bind (checked_add64 count 1)
         (\<lambda>n. if n \<le> g_point_count g then Some n else None))) (\<lambda>count.
       count_evidence g rows count env)))"

definition evidence_count :: "Database \<Rightarrow> Generation \<Rightarrow> env \<Rightarrow> PublicationError + unit \<times> env" where
  "evidence_count db g env =
     bindE (r_open Corrupt db EVIDENCE env) (\<lambda>(t, env).
     bindE (pub_io env) (\<lambda>env.
     bindE (count_evidence g (from_prefix (be_bytes (g_sequence g)) t) 0 env) (\<lambda>(count, env).
     if count \<noteq> g_point_count g then Inl Corrupt else Inr ((), env))))"

definition verify_generation :: "Database \<Rightarrow> Generation \<Rightarrow> env \<Rightarrow> PublicationError + unit \<times> env" where
  "verify_generation db g env =
     bindE (verify_sources db g env) (\<lambda>(progress, env).
     bindE (r_open Corrupt db PAGES env) (\<lambda>(pages, env).
     bindE (r_open Corrupt db EVIDENCE env) (\<lambda>(ev, env).
     bindE (pub_io env) (\<lambda>env.
     bindE (verify_pages g ev (from_prefix (be_bytes (g_sequence g)) pages) 0 0 0 progress env)
       (\<lambda>((page_count, point_count, progress), env).
     if page_count \<noteq> g_page_count g \<or> point_count \<noteq> g_point_count g
        \<or> (\<exists>sp \<in> set progress. \<not> progress_complete sp) then Inl Corrupt
     else evidence_count db g env)))))"

definition validate_generation ::
  "Json \<Rightarrow> Generation \<Rightarrow> Database \<Rightarrow> env \<Rightarrow> PublicationError + unit \<times> env" where
  "validate_generation j g =
     observe (\<lambda>db env.
       bindE (read_state j db env) (\<lambda>(state, env).
       if \<not> (s_current state = Some g
          \<or> (case s_pending state of None \<Rightarrow> False | Some p \<Rightarrow> pd_capture_complete p \<and> pd_generation p = g))
       then Inl Stale else verify_generation db g env))"

definition open_published :: "Json \<Rightarrow> Database \<Rightarrow> env \<Rightarrow> PublicationError + PublishedView \<times> env" where
  "open_published j db env =
     bindE (pin_published j db env) (\<lambda>(view, env).
     bindE (verify_generation (pv_transaction view) (pv_generation view) env) (\<lambda>(_, env).
     Inr (view, env)))"

end
