(* ===== verification/PublicationRun.thy ===== *)
theory PublicationRun
  imports PublicationEditors PublishedReads ControlRun
begin

text \<open>
  The operations of a publication as calls: each keeps the invariant of the publication tables with
  any interruption, and what it leaves of the corpus. The machine that interleaves them with the
  operations on sources and preparations is in \<open>PublicationSystem\<close>.
\<close>

section \<open>Operations keep the invariant\<close>

lemma safe_edited:
  assumes "edited j write db x work" "safe_editor j write" "json_ok j" "pub_inv j db" "root_ok db"
  obtains s s' db1 where "state_at j db = Some s" "pub_state_ok j db s"
    "write (pub_opened db) s [] = Inr ((x, s', db1), [])" "state_at j work = Some s'"
    "same_rows db1 work" "pub_inv j work" "root_ok work" "pub_frame db work" "pub_state_ok j work s'"
  by (rule edited_safe [OF assms(1,3) _ assms(4,5)]) (use assms(2) in \<open>simp add: safe_editor_def\<close>)

definition good :: "Json \<Rightarrow> Database \<Rightarrow> bool" where
  "good j db \<longleftrightarrow> json_ok j \<and> pub_inv j db \<and> root_ok db"

lemma edit_good:
  assumes "edit_database j write db env = (res, db')" "atomic_editor write" "safe_editor j write" "good j db"
  shows "good j db' \<and> pub_frame db db'"
  using edit_database_cases [OF assms(1,2)] assms(3,4)
  by (auto simp: good_def elim: safe_edited)

lemma edit_path_good:
  assumes "edit j write db env = (res, db')" "atomic_editor write" "safe_editor j write" "good j db"
  shows "good j db' \<and> pub_frame db db'"
  using edit_cases [OF assms(1,2)] assms(3,4)
  by (auto simp: good_def elim: safe_edited)

section \<open>Builds and the corpus\<close>

definition same_build :: "PendingGeneration \<Rightarrow> PendingGeneration \<Rightarrow> bool" where
  "same_build p q \<longleftrightarrow> g_sequence (pd_generation q) = g_sequence (pd_generation p) \<and>
     g_wanted_revision (pd_generation q) = g_wanted_revision (pd_generation p) \<and>
     g_source_count (pd_generation q) = g_source_count (pd_generation p)"

definition build_kept :: "State \<Rightarrow> Database \<Rightarrow> State \<Rightarrow> Database \<Rightarrow> bool" where
  "build_kept s db s' db' \<longleftrightarrow> (\<forall>q. s_pending s' = Some q \<longrightarrow> (\<exists>p. s_pending s = Some p \<and> same_build p q \<and>
     keeps_captures (g_sequence (pd_generation p)) db db')) \<and>
     (\<forall>g. s_current s' = Some g \<longrightarrow> same_gen (g_sequence g) db db' \<and>
       (s_current s = Some g \<or> (\<exists>p. s_pending s = Some p \<and> pd_generation p = g)))"

lemma same_gen_other [simp]:
  "same_gen n db (put_in RETIRED k v db') = same_gen n db db'" "same_gen n db (del_in RETIRED k db') = same_gen n db db'"
  "same_gen n db (ensure m db') = same_gen n db db'"
  by (simp_all add: same_gen_def the_table_put_in the_table_del_in)

lemma current_same:
  assumes "pub_state_ok j db s" "s_pending s = Some p" "s_current s = Some g" "only_gen (g_sequence (pd_generation p)) db db'"
  shows "same_gen (g_sequence g) db db'"
  using only_gen_same [OF assms(4)] pending_sequence [OF assms(1,2)] current_sequence [OF assms(1,3)]
    current_not_pending [OF assms(1-3)] by auto

definition keeps_build :: "Json \<Rightarrow> 'a editor \<Rightarrow> bool" where
  "keeps_build j write \<longleftrightarrow> (\<forall>db s x s' db'. db_ok db \<longrightarrow> pub_state_ok j db s \<longrightarrow>
     write db s [] = Inr ((x, s', db'), []) \<longrightarrow> build_kept s db s' db')"

lemma build_kept_header:
  assumes "s_pending s = Some p" "\<And>n. same_gen n db db'" "\<And>q. s_pending s' = Some q \<Longrightarrow> same_build p q"
    "s_current s' = s_current s \<or> s_current s' = Some (pd_generation p)"
  shows "build_kept s db s' db'"
  using assms same_gen_captures [OF assms(2)] unfolding build_kept_def by auto

lemma header_keeps_build:
  "keeps_build j (seal_capture p)" "keeps_build j (note_dispatch p op)" "keeps_build j (settle_dispatch p op n applied)"
  "keeps_build j (switch_current j p)" "keeps_build j (drop_pending j p)" "keeps_build j (set_aside j p)"
proof -
  show "keeps_build j (seal_capture p)"
    by (auto simp: keeps_build_def build_kept_def seal_capture_def Let_def same_build_def res_simps split: if_splits
        dest!: pending_mut_Inr check_wanted_Inr)
  show "keeps_build j (note_dispatch p op)"
    by (auto simp: keeps_build_def build_kept_def note_dispatch_def same_build_def res_simps split: if_splits
        dest!: pending_mut_Inr check_wanted_Inr)
  show "keeps_build j (settle_dispatch p op n applied)"
    unfolding keeps_build_def
  proof (intro allI impI)
    fix db s x s' db' assume "settle_dispatch p op n applied db s [] = Inr ((x, s', db'), [])"
    then obtain q r where "s_pending s = Some q" "db' = db" "s' = set_pending r s" "same_build q r"
      by (cases op) (auto simp: settle_dispatch_def res_simps same_build_def split: if_splits dest!: pending_mut_Inr)
    then show "build_kept s db s' db'" by (intro build_kept_header) auto
  qed
  show "keeps_build j (switch_current j p)"
    unfolding keeps_build_def
  proof (intro allI impI)
    fix db s x s' db' assume "switch_current j p db s [] = Inr ((x, s', db'), [])"
    then obtain q where "s_pending s = Some q" "\<And>n. same_gen n db db'" "s_current s' = Some (pd_generation q)" "s_pending s' = None"
      by (auto simp: switch_current_def insert_retired_def res_simps split: if_splits option.splits
          dest!: pending_mut_Inr check_wanted_Inr)
    then show "build_kept s db s' db'" by (intro build_kept_header) auto
  qed
  show "keeps_build j (drop_pending j p)"
    unfolding keeps_build_def
  proof (intro allI impI)
    fix db s x s' db' assume "drop_pending j p db s [] = Inr ((x, s', db'), [])"
    then obtain q where "s_pending s = Some q" "\<And>n. same_gen n db db'" "s_current s' = s_current s" "s_pending s' = None"
      by (auto simp: drop_pending_def insert_retired_def res_simps split: if_splits dest!: pending_mut_Inr)
    then show "build_kept s db s' db'" by (intro build_kept_header) auto
  qed
  show "keeps_build j (set_aside j p)"
    unfolding keeps_build_def
  proof (intro allI impI)
    fix db s x s' db' assume "set_aside j p db s [] = Inr ((x, s', db'), [])"
    then obtain q where "s_pending s = Some q" "\<And>n. same_gen n db db'" "s_current s' = s_current s" "s_pending s' = None"
      by (auto simp: set_aside_def Let_def res_simps split: if_splits dest!: pending_mut_Inr)
    then show "build_kept s db s' db'" by (intro build_kept_header) auto
  qed
qed

lemma complete_keeps_build: "keeps_build j (complete_source pending sid units)"
  unfolding keeps_build_def
proof (intro allI impI)
  fix db s x s' db'
  assume dbok: "db_ok db" and ok: "pub_state_ok j db s" and w: "complete_source pending sid units db s [] = Inr ((x, s', db'), [])"
  obtain p v e bs where p: "s_pending s = Some p" and
      v: "row_in db SourcesTable (g_sequence (pd_generation p)) sid = Some v" "decode_source v = Inr e" and
      b: "encode_entry (e\<lparr>se_complete := True\<rparr>) = Inr bs"
      "db' = put_entry (g_sequence (pd_generation p)) sid bs (ensure SOURCES db)"
      "s' = set_pending (p\<lparr>pd_completed_sources := pd_completed_sources p + 1\<rparr>) s"
    using w by (auto simp: complete_source_def put_entry_def Let_def res_simps split: if_splits dest!: pending_mut_Inr)
  let ?n = "g_sequence (pd_generation p)" and ?db = "ensure SOURCES db"
  have ent: "entry_of ?db ?n sid = Some e" using entry_of_decode v by simp
  have po: "pending_ok ?db p"
    using pub_state_okD(5) [OF ok p] same_gen_pending [of p db ?db] same_rows_gen [of db ?db] by simp
  then have "storable_entry e" using entries_okD [OF _ ent] by (auto simp: pending_ok_def data_ok_def Let_def)
  then have dec: "decode_source bs = Inr (e\<lparr>se_complete := True\<rparr>)"
    using entries.dec_enc [OF _ b(1)] by (simp add: storable_entry_def)
  have "keeps_captures ?n ?db db'"
    unfolding b(2) by (rule put_entry_captures [OF _ ent dec]) (use dbok in simp_all)
  then have "keeps_captures ?n db db'"
    using keeps_captures_trans [OF same_gen_captures [OF same_rows_gen [of db ?db]]] by simp
  moreover have "only_gen ?n db db'"
    unfolding b(2) using only_gen_trans [OF only_gen_ensure put_entry_only] dbok by simp
  then have "same_gen (g_sequence g) db db'" if "s_current s = Some g" for g using current_same [OF ok p that] by simp
  ultimately show "build_kept s db s' db'" using p b(3) by (simp add: build_kept_def same_build_def)
qed

lemma save_page_keeps_build:
  assumes "encode_page page env = Inr (bs, env')" "wf_page page"
  shows "keeps_build j (save_page pending page bs)"
  unfolding keeps_build_def
proof (intro allI impI)
  fix db s x s' db'
  assume dbok: "db_ok db" and ok: "pub_state_ok j db s" and w: "save_page pending page bs db s [] = Inr ((x, s', db'), [])"
  obtain p q db1 m where p: "s_pending s = Some p" and
      db': "db' = put_in PAGES (gen_key (g_sequence (pd_generation q)) (be_bytes (g_page_count (pd_generation q)))) bs (ensure PAGES db1)" and
      s': "s' = set_pending (q\<lparr>pd_generation := (pd_generation q)\<lparr>g_page_count := g_page_count (pd_generation q) + 1\<rparr>\<rparr>) s" and
      q: "q = staged (p\<lparr>pd_staged_bytes := m\<rparr>) (length (pg_points page))" and ok1: "db_ok db1" and
      k: "keeps_captures (g_sequence (pd_generation p)) db db1" and
      og: "only_gen (g_sequence (pd_generation p)) db db1"
    by (rule save_page_effect [OF assms dbok ok w])
  have "keeps_captures n db1 db'" for n
    using ok1 by (simp add: keeps_captures_def entry_of_def db' get_put_in)
  then have "keeps_captures (g_sequence (pd_generation p)) db db'" using k keeps_captures_trans by blast
  moreover have "only_gen (g_sequence (pd_generation p)) (ensure PAGES db1) db'"
    unfolding db' using only_gen_put [of "ensure PAGES db1" _ PagesTable] ok1 by (simp add: q)
  then have "only_gen (g_sequence (pd_generation p)) db db'"
    using only_gen_trans [OF og only_gen_trans [OF only_gen_ensure]] by blast
  then have "same_gen (g_sequence g) db db'" if "s_current s = Some g" for g using current_same [OF ok p that] by simp
  ultimately show "build_kept s db s' db'" using p by (simp add: build_kept_def same_build_def s' q staged_def)
qed

lemma retire_keeps_build:
  assumes "g_sequence (rg_generation retired) < u64_bound"
    and "\<And>k. k \<in> set ks \<Longrightarrow> starts_with (be_bytes (g_sequence (rg_generation retired))) k"
  shows "keeps_build j (remove_rows j retired (data_table d) ks)" "keeps_build j (forget_retired j retired)"
proof -
  show "keeps_build j (remove_rows j retired (data_table d) ks)"
    unfolding keeps_build_def
  proof (intro allI impI)
    fix db s x s' db'
    assume ok: "pub_state_ok j db s" and w: "remove_rows j retired (data_table d) ks db s [] = Inr ((x, s', db'), [])"
    obtain env where s': "s' = s" and r: "remove_keys (data_table d) ks (ensure (data_table d) (ensure RETIRED db)) [] = Inr (db', env)"
      using w by (auto simp: remove_rows_def res_simps dest!: check_retired_other)
    have t: "the_table db' m = (if m = data_table d then del_keys ks (the_table db m) else the_table db m)" for m
      using remove_keys_Inr [OF r] by simp
    have "keeps_captures n db db'" for n
      by (auto simp: keeps_captures_def entry_of_def t tbl_get_del_keys bind_eq_Some_conv split: if_splits)
    moreover have "same_gen (g_sequence g) db db'" if g: "s_current s = Some g" for g
    proof -
      have "g_sequence g \<noteq> g_sequence (rg_generation retired)"
        using w g by (auto simp: remove_rows_def res_simps other_than_def dest!: check_retired_other)
      then have "gen_key (g_sequence g) t \<notin> set ks" for t
        using assms(2) [of "gen_key (g_sequence g) t"] assms(1) current_sequence [OF ok g]
        by (auto simp: starts_with_gen_key gen_key_inject)
      then show ?thesis by (simp add: same_gen_def t tbl_get_del_keys)
    qed
    ultimately show "build_kept s db s' db'" by (simp add: build_kept_def s' same_build_def)
  qed
  show "keeps_build j (forget_retired j retired)"
    unfolding keeps_build_def
  proof (intro allI impI)
    fix db s x s' db'
    assume ok: "pub_state_ok j db s" and w: "forget_retired j retired db s [] = Inr ((x, s', db'), [])"
    have "s' = s" "db' = del_in RETIRED (be_bytes (g_sequence (rg_generation retired))) (ensure RETIRED (ensure RETIRED db))"
      using w by (auto simp: forget_retired_def res_simps dest!: check_retired_other)
    then show "build_kept s db s' db'"
      by (simp add: build_kept_def same_build_def keeps_captures_def entry_of_def the_table_del_in)
  qed
qed

text \<open>
  A build is faithful when, as long as nothing wanted has changed, its rows hold the current
  sources with their current preparations and it counts all of them.
\<close>

definition holds_corpus :: "Database \<Rightarrow> Generation \<Rightarrow> bool" where
  "holds_corpus db g \<longleftrightarrow> (\<forall>sid e. entry_of db (g_sequence g) sid = Some e \<longrightarrow>
       source_at db sid = Some (ca_source (se_captured e)) \<and> prep_of db sid = Some (ca_preparation (se_captured e))) \<and>
     g_source_count g = card (dom (source_at db))"

definition faithful :: "Database \<Rightarrow> Generation \<Rightarrow> bool" where
  "faithful db g \<longleftrightarrow> g_wanted_revision g \<le> wanted_of db \<and> (g_wanted_revision g = wanted_of db \<longrightarrow> holds_corpus db g)"

definition builds_faithful :: "Json \<Rightarrow> Database \<Rightarrow> bool" where
  "builds_faithful j db \<longleftrightarrow> (\<forall>s. state_at j db = Some s \<longrightarrow>
     (\<forall>p. s_pending s = Some p \<longrightarrow> faithful db (pd_generation p)) \<and> (\<forall>g. s_current s = Some g \<longrightarrow> faithful db g))"

lemma faithful_kept:
  assumes "faithful db (pd_generation p)" "same_build p q" "keeps_captures (g_sequence (pd_generation p)) db db'" "pub_frame db db'"
  shows "faithful db' (pd_generation q)"
proof -
  note c = pub_frame_corpus [OF assms(4)]
  have "holds_corpus db (pd_generation p) \<Longrightarrow> holds_corpus db' (pd_generation q)"
    using assms(2,3) unfolding holds_corpus_def same_build_def keeps_captures_def by (fastforce simp: c)
  then show ?thesis using assms(1,2) by (auto simp: faithful_def same_build_def c)
qed

lemma faithful_same:
  "faithful db g \<Longrightarrow> same_gen (g_sequence g) db db' \<Longrightarrow> pub_frame db db' \<Longrightarrow> faithful db' g"
  by (auto simp: faithful_def holds_corpus_def same_gen_entries pub_frame_corpus)

lemma edited_faithful:
  assumes "edited j write db x work" "safe_editor j write" "keeps_build j write" "good j db" "builds_faithful j db"
  shows "builds_faithful j work"
proof -
  have g: "json_ok j" "pub_inv j db" "root_ok db" using assms(4) by (simp_all add: good_def)
  obtain s s' db1 where s: "state_at j db = Some s" "pub_state_ok j db s"
      "write (pub_opened db) s [] = Inr ((x, s', db1), [])" "state_at j work = Some s'" "same_rows db1 work" "pub_frame db work"
    by (rule safe_edited [OF assms(1,2) g])
  have ok: "db_ok (pub_opened db)" using g(3) by (simp add: root_ok_def control_ok_def)
  have o: "same_rows db (pub_opened db)" by simp
  then have "pub_state_ok j (pub_opened db) s" using same_rows_state [OF o] s(2) by simp
  then have k: "build_kept s (pub_opened db) s' db1"
    using assms(3) ok s(3) unfolding keeps_build_def by blast
  have "faithful work (pd_generation q)" if q: "s_pending s' = Some q" for q
  proof -
    obtain p where p: "s_pending s = Some p" "same_build p q" "keeps_captures (g_sequence (pd_generation p)) (pub_opened db) db1"
      using k q unfolding build_kept_def by blast
    have "keeps_captures (g_sequence (pd_generation p)) db work"
      using keeps_captures_trans [OF same_gen_captures [OF same_rows_gen [OF o]]
          keeps_captures_trans [OF p(3) same_gen_captures [OF same_rows_gen [OF s(5)]]]] .
    moreover have "faithful db (pd_generation p)" using assms(5) s(1) p(1) by (simp add: builds_faithful_def)
    ultimately show ?thesis using faithful_kept p(2) s(6) by blast
  qed
  moreover have "faithful work g" if g: "s_current s' = Some g" for g
  proof -
    have "same_gen (g_sequence g) (pub_opened db) db1" using k g unfolding build_kept_def by blast
    then have "same_gen (g_sequence g) db work"
      using same_gen_trans [OF same_rows_gen [OF o] same_gen_trans [OF _ same_rows_gen [OF s(5)]]] by blast
    moreover have "faithful db g" using k g assms(5) s(1) unfolding build_kept_def builds_faithful_def by blast
    ultimately show ?thesis using faithful_same s(6) by blast
  qed
  ultimately show ?thesis using s(4) by (simp add: builds_faithful_def)
qed

definition system_ok :: "Json \<Rightarrow> Database \<Rightarrow> bool" where
  "system_ok j db \<longleftrightarrow> good j db \<and> builds_faithful j db"

lemma edit_system:
  assumes "edit_database j write db env = (res, db')" "atomic_editor write" "safe_editor j write" "keeps_build j write"
    "system_ok j db"
  shows "system_ok j db' \<and> pub_frame db db'"
  using edit_good [OF assms(1-3)] edit_database_cases [OF assms(1,2)] edited_faithful [OF _ assms(3,4)] assms(5)
  by (auto simp: system_ok_def)

lemma edit_path_system:
  assumes "edit j write db env = (res, db')" "atomic_editor write" "safe_editor j write" "keeps_build j write"
    "system_ok j db"
  shows "system_ok j db' \<and> pub_frame db db'"
  using edit_path_good [OF assms(1-3)] edit_cases [OF assms(1,2)] edited_faithful [OF _ assms(3,4)] assms(5)
  by (auto simp: system_ok_def)

end
