(* ===== verification/PublicationCorpus.thy ===== *)
theory PublicationCorpus
  imports PublicationRun
begin

text \<open>
  Captures of the corpus and the start of a build. A capture of a consistent root holds every
  current source exactly once, with its current preparation, and the wanted revision it was
  read at; a build started from it holds those sources.
\<close>

section \<open>What a capture reads\<close>

definition captured_from :: "table option \<Rightarrow> bytes \<Rightarrow> bytes \<times> bytes \<Rightarrow> CapturedSource \<Rightarrow> bool" where
  "captured_from preps ns row c \<longleftrightarrow> decode_record (snd row) = Inr (ca_source c) \<and>
     fst row = source_id (ca_source c) \<and> source_namespace_id (ca_source c) = ns \<and> captured_matches c \<and>
     (\<exists>t v. preps = Some t \<and> tbl_get t (fst row) = Some v \<and> prep_decode v = Inr (ca_preparation c))"

lemma corpus_rows_Inr:
  assumes "corpus_rows preps ns rows acc n [] = Inr (out, env)" "length acc \<le> MAX_SOURCES"
  shows "length out \<le> MAX_SOURCES \<and> (\<exists>cs. out = acc @ cs \<and> list_all2 (captured_from preps ns) rows cs)"
  using assms
proof (induction rows arbitrary: acc n)
  case (Cons row rows)
  obtain sid bs where row: "row = (sid, bs)" by (cases row)
  obtain t v source prep n' where r: "decode_record bs = Inr source" "sid = source_id source" "source_namespace_id source = ns"
      "preps = Some t" "tbl_get t sid = Some v" "prep_decode v = Inr prep" "cp_namespace_id prep = ns"
      "cp_source_id prep = source_id source" "length acc < MAX_SOURCES"
      "\<exists>out. cp_outcome prep = Some out \<and> matches_input out source (cp_settings prep)" and
      rest: "corpus_rows preps ns rows (acc @ [\<lparr>ca_source = source, ca_preparation = prep\<rparr>]) n' [] = Inr (out, env)"
    using Cons.prems(1) unfolding row
    by (auto simp: res_simps r_get_def split: if_splits option.splits)
  let ?c = "\<lparr>ca_source = source, ca_preparation = prep\<rparr>"
  have "captured_from preps ns row ?c"
    using r by (simp add: captured_from_def captured_matches_def row)
  then show ?case using Cons.IH [OF rest] r(9) by (auto simp: row)
qed simp

definition captures_corpus :: "CorpusCapture \<Rightarrow> Database \<Rightarrow> bool" where
  "captures_corpus c db \<longleftrightarrow> distinct (map captured_id (cc_sources c)) \<and>
     captured_id ` set (cc_sources c) = dom (source_at db) \<and>
     (\<forall>x \<in> set (cc_sources c). source_at db (captured_id x) = Some (ca_source x) \<and>
        prep_of db (captured_id x) = Some (ca_preparation x))"

definition capture_ok :: "CorpusCapture \<Rightarrow> Database \<Rightarrow> bool" where
  "capture_ok c db \<longleftrightarrow> length (cc_sources c) \<le> MAX_SOURCES \<and>
     (\<forall>x \<in> set (cc_sources c). storable_entry (fresh_entry x)) \<and> cc_wanted_revision c \<le> wanted_of db \<and>
     (cc_wanted_revision c = wanted_of db \<longrightarrow> captures_corpus c db)"

lemma fresh_source_at: "fresh_control db \<Longrightarrow> source_at db = Map.empty \<and> wanted_of db = 0"
  by (auto simp: source_at_def wanted_of_def fresh_empty fun_eq_iff)

lemma source_at_row:
  assumes "sources_inv ns db" "rows_of db sid = Some bs" "decode_record bs = Inr r"
  shows "storable_source r \<and> source_at db sid = Some r"
proof -
  have "row_ok ns db sid bs" using assms(1,2) by (simp add: sources_inv_def)
  then show ?thesis using assms(2,3) by (auto simp: row_ok_def source_at_def)
qed

lemma source_at_dom: "sources_inv ns db \<Longrightarrow> dom (source_at db) = dom (rows_of db)"
  unfolding dom_def source_at_def by (fastforce simp: sources_inv_def row_ok_def bind_eq_Some_conv)

lemma captured_storable:
  assumes "sources_inv ns db" "captured_from (get_table db PREPARATIONS) ns (sid, bs) c" "rows_of db sid = Some bs"
  shows "storable_entry (fresh_entry c) \<and> source_at db (captured_id c) = Some (ca_source c) \<and>
    prep_of db (captured_id c) = Some (ca_preparation c)"
proof -
  obtain t v where c: "decode_record bs = Inr (ca_source c)" "sid = captured_id c" "captured_matches c"
      "get_table db PREPARATIONS = Some t" "tbl_get t sid = Some v" "prep_decode v = Inr (ca_preparation c)"
    using assms(2) by (auto simp: captured_from_def)
  have "preps_of db sid = Some v" using c(4,5) by (simp add: the_table_def)
  then have "prep_of db sid = Some (ca_preparation c)" using c(6) by (rule prep_of_decode)
  moreover have "storable_prep (ca_preparation c)" using prep_decode_Inr [OF c(6)] by simp
  ultimately show ?thesis
    using source_at_row [OF assms(1,3) c(1)] c(2,3) by (simp add: storable_entry_def fresh_entry_def)
qed

lemma rows_captured:
  assumes "sources_inv ns db" "db_ok db"
    and "list_all2 (captured_from (get_table db PREPARATIONS) ns) (the_table db SOURCE_ROWS) cs"
  shows "(\<forall>x \<in> set cs. storable_entry (fresh_entry x) \<and> source_at db (captured_id x) = Some (ca_source x) \<and>
      prep_of db (captured_id x) = Some (ca_preparation x)) \<and>
    map captured_id cs = map fst (the_table db SOURCE_ROWS)"
proof
  have ids: "list_all2 (captured_from p ns) rows cs \<Longrightarrow> map captured_id cs = map fst rows" for p rows cs
    by (induction rows cs rule: list_all2_induct) (auto simp: captured_from_def)
  have from_row: "list_all2 (captured_from p ns) rows cs \<Longrightarrow> x \<in> set cs \<Longrightarrow> \<exists>row \<in> set rows. captured_from p ns row x"
    for p rows cs x by (induction rows cs rule: list_all2_induct) auto
  show "map captured_id cs = map fst (the_table db SOURCE_ROWS)" using ids assms(3) .
  show "\<forall>x \<in> set cs. storable_entry (fresh_entry x) \<and> source_at db (captured_id x) = Some (ca_source x) \<and>
      prep_of db (captured_id x) = Some (ca_preparation x)"
  proof
    fix x assume "x \<in> set cs"
    then obtain row where "row \<in> set (the_table db SOURCE_ROWS)" "captured_from (get_table db PREPARATIONS) ns row x"
      using from_row assms(3) by blast
    then obtain sid bs where "(sid, bs) \<in> set (the_table db SOURCE_ROWS)"
        "captured_from (get_table db PREPARATIONS) ns (sid, bs) x"
      by (metis surj_pair)
    then show "storable_entry (fresh_entry x) \<and> source_at db (captured_id x) = Some (ca_source x) \<and>
        prep_of db (captured_id x) = Some (ca_preparation x)"
      using captured_storable [OF assms(1)] tbl_get_iff [of "the_table db SOURCE_ROWS"] assms(2) by simp
  qed
qed

lemma corpus_rows_interruptible [interruptible_intros]:
  "interruptible pub_interrupts (corpus_rows preps ns rows acc n)"
proof (induction rows arbitrary: acc n)
  case Nil
  show ?case by (rule interruptible_eq [OF corpus_rows.simps(1)]) (intro interruptible_intros)
next
  case (Cons r rows)
  obtain k v where r: "r = (k, v)" by (cases r)
  show ?case unfolding r by (rule interruptible_eq [OF corpus_rows.simps(2)]) (intro interruptible_intros Cons.IH)
qed

lemma read_corpus_interruptible [interruptible_intros]: "interruptible pub_interrupts (read_corpus j db)"
  unfolding read_corpus_def by (intro interruptible_intros)

lemma quiet_env: "interruptible I f \<Longrightarrow> f [] = Inr (x, env) \<Longrightarrow> env = []"
  using interruptible_Inr [of I f "[]" x env] by simp

lemmas read_quiet = quiet_env [OF read_state_interruptible] quiet_env [OF wanted_interruptible(1)]
  quiet_env [OF read_interruptible(2)]

lemma wanted_revision_Inr: "wanted_revision db [] = Inr (n, env) \<Longrightarrow> n = wanted_of db"
  by (auto simp: wanted_revision_def wanted_of_def u64_value_def res_simps r_open_def r_get_def the_table_def
      split: if_splits option.splits)

lemma read_corpus_Inr:
  assumes "read_corpus j db [] = Inr (c, env)" "root_ok db"
  shows "capture_ok c db"
proof -
  have ok: "control_ok db" "db_ok db" using assms(2) by (simp_all add: root_ok_def control_ok_def)
  show ?thesis
  proof (cases "fresh_control db")
    case True
    then have "cc_sources c = []" "cc_wanted_revision c = 0"
      using assms(1) by (auto simp: read_corpus_def res_simps schema_of_control [OF ok(1)])
    then show ?thesis using fresh_source_at [OF True] by (simp add: capture_ok_def captures_corpus_def)
  next
    case False
    then obtain ns where ns: "current_schema db" "sources_inv ns db"
      using ok by (auto simp: control_ok_def)
    note t = current_tables [OF ns(1), of SOURCE_ROWS]
    note R0 = assms(1) [unfolded read_corpus_def schema_of_control [OF ok(1)]]
    obtain s where s: "read_state j db [] = Inr (s, [])"
      using R0 read_quiet(1) by (cases "read_state j db []") auto
    obtain rev where v: "wanted_revision db [] = Inr (rev, [])"
      using R0 False s read_quiet(2) by (cases "wanted_revision db []") (auto simp: read_namespace_quiet [OF ns])
    have r: "corpus_rows (get_table db PREPARATIONS) ns (the_table db SOURCE_ROWS) [] 0 [] = Inr (cc_sources c, env)"
        "cc_wanted_revision c = rev"
      using R0 False by (auto simp: s v t read_namespace_quiet [OF ns] r_open_def res_simps)
    have L: "length (cc_sources c) \<le> MAX_SOURCES"
        "list_all2 (captured_from (get_table db PREPARATIONS) ns) (the_table db SOURCE_ROWS) (cc_sources c)"
      using corpus_rows_Inr [OF r(1)] by auto
    note R = rows_captured [OF ns(2) ok(2) L(2)]
    have "distinct (map captured_id (cc_sources c))" using R ok(2) tbl_ok_distinct by simp
    moreover have "captured_id ` set (cc_sources c) = dom (source_at db)"
    proof -
      have "captured_id ` set (cc_sources c) = set (map captured_id (cc_sources c))" by simp
      also have "\<dots> = fst ` set (the_table db SOURCE_ROWS)" using R by simp
      also have "\<dots> = dom (rows_of db)" by (simp add: tbl_get_def [abs_def] dom_map_of_conv_image_fst)
      finally show ?thesis using source_at_dom [OF ns(2)] by simp
    qed
    ultimately show ?thesis
      using R L(1) wanted_revision_Inr [OF v] r(2) by (simp add: capture_ok_def captures_corpus_def)
  qed
qed

lemma capture_corpus_ok:
  assumes "capture_corpus j db env = Inr (c, env')" "root_ok db"
  shows "capture_ok c db"
proof -
  have "capture_corpus j db [] = Inr (c, [])"
    using assms(1) unfolding capture_corpus_def
    by (rule interruptible_Inr [OF observe_database_interruptible [OF read_corpus_interruptible]])
  then obtain env where "read_corpus j db [] = Inr (c, env)"
    by (auto simp: capture_corpus_def observe_database_def res_simps)
  then show ?thesis using read_corpus_Inr assms(2) by blast
qed

section \<open>Changes of the corpus\<close>

definition corpus_moves :: "Database \<Rightarrow> Database \<Rightarrow> bool" where
  "corpus_moves db db' \<longleftrightarrow> wanted_of db < wanted_of db' \<or>
     wanted_of db' = wanted_of db \<and> source_at db' = source_at db \<and> prep_of db' = prep_of db"

lemma corpus_moves_frame: "pub_frame db db' \<Longrightarrow> corpus_moves db db'"
  by (simp add: corpus_moves_def pub_frame_corpus)

lemma capture_moves: "capture_ok c db \<Longrightarrow> corpus_moves db db' \<Longrightarrow> capture_ok c db'"
  by (auto simp: capture_ok_def corpus_moves_def captures_corpus_def)

lemma source_at_iff:
  assumes "root_ok db"
  shows "source_at db sid = Some r \<longleftrightarrow> sources_of db (locator r) = Some r \<and> source_id r = sid"
proof (cases "fresh_control db")
  case True
  then show ?thesis using fresh_source_at by (auto simp: sources_of_def fresh_empty)
next
  case False
  then show ?thesis using source_at_sources control_inv assms by (metis root_ok_def)
qed

lemma step_effect_moves:
  assumes "step_effect db db'" "root_ok db"
  shows "corpus_moves db db'"
proof -
  have "source_at db' = source_at db" if "sources_of db' = sources_of db"
  proof
    fix sid show "source_at db' sid = source_at db sid"
      using source_at_iff [OF assms(2), of sid] source_at_iff [of db' sid] assms(1) that
      by (cases "source_at db' sid"; cases "source_at db sid") (auto simp: step_effect_def)
  qed
  then show ?thesis using assms(1) by (auto simp: step_effect_def corpus_moves_def)
qed

lemma faithful_moves:
  assumes "faithful db g" "corpus_moves db db'" "same_gen (g_sequence g) db db'"
  shows "faithful db' g"
  using assms by (auto simp: faithful_def corpus_moves_def holds_corpus_def same_gen_entries)

lemma pub_kept:
  assumes "keeps_pub db db'"
  shows "state_at j db' = state_at j db" "same_rows db db'"
proof -
  have g: "get_table db' n = get_table db n" if "n \<in> PUB" for n using assms that by (simp add: keeps_pub_def)
  then have t: "the_table db' n = the_table db n" if "n \<in> PUB" for n using that by (simp add: the_table_def)
  have "STATE \<in> set (list_tables db') \<longleftrightarrow> STATE \<in> set (list_tables db)"
    using g [of STATE] get_table_iff [of db' STATE] get_table_iff [of db STATE] by simp
  then show "state_at j db' = state_at j db" by (simp add: state_at_def t)
  show "same_rows db db'" by (simp add: same_rows_def t)
qed

lemma control_system:
  assumes "control_step db db'" "system_ok j db"
  shows "system_ok j db' \<and> corpus_moves db db'"
proof -
  have g: "json_ok j" "pub_inv j db" "root_ok db" "builds_faithful j db"
    using assms(2) by (simp_all add: system_ok_def good_def)
  note e = control_step_effect [OF assms(1) g(3)]
  then have k: "keeps_pub db db'" "root_ok db'" by (simp_all add: step_effect_def)
  note p = pub_kept [OF k(1)] and m = step_effect_moves [OF e g(3)]
  have "pub_inv j db'" using g(2) same_rows_state [OF p(2)] p(1) by (simp add: pub_inv_def)
  moreover have "builds_faithful j db'"
    using g(4) faithful_moves [OF _ m same_rows_gen [OF p(2)]] by (auto simp: builds_faithful_def p(1))
  ultimately show ?thesis using g(1) k(2) m by (simp add: system_ok_def good_def)
qed

section \<open>The start of a build\<close>

definition inputs_ok :: "nat \<Rightarrow> CapturedSource list \<Rightarrow> Database \<Rightarrow> bool" where
  "inputs_ok w cs db \<longleftrightarrow> (\<forall>c \<in> set cs. storable_entry (fresh_entry c) \<and> (w = wanted_of db \<longrightarrow>
     source_at db (captured_id c) = Some (ca_source c) \<and> prep_of db (captured_id c) = Some (ca_preparation c)))"

lemma inputs_frame: "pub_frame db db' \<Longrightarrow> inputs_ok w cs db' = inputs_ok w cs db"
  by (simp add: inputs_ok_def pub_frame_corpus)

lemma save_step:
  assumes e: "edited j (save_inputs pending rows) db x work" and y: "system_ok j db"
    and st: "state_at j db = Some s" "s_pending s = Some p"
    and rows: "list_all2 (input_row (g_sequence (pd_generation p))) cs rows"
    and inp: "inputs_ok (g_wanted_revision (pd_generation p)) cs db"
    and c: "card (rows_for db (g_sequence (pd_generation p))) + length cs \<le> g_source_count (pd_generation p)"
  shows "system_ok j work \<and> pub_frame db work \<and> state_at j work = Some s \<and>
    card (rows_for work (g_sequence (pd_generation p))) = card (rows_for db (g_sequence (pd_generation p))) + length cs"
proof -
  let ?n = "g_sequence (pd_generation p)" and ?o = "pub_opened db"
  have g: "json_ok j" "pub_inv j db" "root_ok db" "builds_faithful j db" "db_ok db"
    using y by (simp_all add: system_ok_def good_def root_ok_def control_ok_def)
  have sg: "same_gen ?n db ?o" by (rule same_rows_gen) simp
  have stc: "storable_entry (fresh_entry c)" if "c \<in> set cs" for c using inp that by (simp add: inputs_ok_def)
  have c': "card (rows_for ?o ?n) + length cs \<le> g_source_count (pd_generation p)" using c same_gen_rows [OF sg] by simp
  have ok: "db_ok ?o" using g(5) by simp
  note safe = save_inputs_safe [OF _ ok st(2) rows stc c']
  have se: "safe_edit j (save_inputs pending rows) ?o s2" if "state_at j db = Some s2" "pub_state_ok j ?o s2" for s2
    unfolding safe_edit_def
  proof (intro allI impI)
    fix x s' db' assume "save_inputs pending rows ?o s2 [] = Inr ((x, s', db'), [])"
    moreover have "s2 = s" using that(1) st(1) by simp
    ultimately show "sane s' \<and> pub_state_ok j db' s' \<and> pub_frame ?o db'" using safe that(2) by metis
  qed
  obtain s1 s' db1 where w: "state_at j db = Some s1" "pub_state_ok j db s1"
      "save_inputs pending rows ?o s1 [] = Inr ((x, s', db1), [])" "state_at j work = Some s'" "same_rows db1 work"
      "pub_inv j work" "root_ok work" "pub_frame db work"
    by (rule edited_safe [OF e g(1) _ g(2,3)]) (use se in blast)
  have s1: "s1 = s" using w(1) st(1) by simp
  have ps: "pub_state_ok j ?o s" using w(2) same_rows_state [of db ?o] s1 by simp
  note S = safe [OF ps _ w(3) [unfolded s1], simplified]
  have sv: "saved ?n cs (ensure SOURCES ?o) db1" and s': "s' = s" using S by auto
  have r0: "same_gen ?n db (ensure SOURCES ?o)" by (rule same_gen_trans [OF sg same_rows_gen]) simp
  have r1: "same_gen ?n db1 work" using same_rows_gen [OF w(5)] .
  have card: "card (rows_for work ?n) = card (rows_for db ?n) + length cs"
    using sv same_gen_rows [OF r0] same_gen_rows [OF r1] unfolding saved_def by metis
  have new: "entry_of db ?n sid = Some e \<or> (\<exists>c \<in> set cs. sid = captured_id c \<and> e = fresh_entry c)"
    if "entry_of work ?n sid = Some e" for sid e
  proof -
    have "entry_of db1 ?n sid = Some e" using that same_gen_entries [OF r1] by simp
    then show ?thesis
      using sv entry_row [of db1 ?n sid e] same_gen_entries [OF r0] same_gen_rows [OF r0] unfolding saved_def by auto
  qed
  have "faithful db (pd_generation p)" using g(4) st by (simp add: builds_faithful_def)
  then have "faithful work (pd_generation p)"
    using new inp by (fastforce simp: faithful_def holds_corpus_def pub_frame_corpus [OF w(8)] inputs_ok_def fresh_entry_def)
  moreover have "faithful work c" if c: "s_current s = Some c" for c
  proof -
    have "only_gen ?n db (ensure SOURCES ?o)" by (simp add: only_gen_def)
    moreover have "only_gen ?n (ensure SOURCES ?o) db1" using sv unfolding saved_def by blast
    ultimately have "same_gen (g_sequence c) db db1" using current_same [OF w(2) [unfolded s1] st(2) c] only_gen_trans by blast
    then have "same_gen (g_sequence c) db work" using same_gen_trans same_rows_gen [OF w(5)] by blast
    moreover have "faithful db c" using g(4) st(1) c by (simp add: builds_faithful_def)
    ultimately show ?thesis using faithful_same w(8) by blast
  qed
  ultimately have "builds_faithful j work" using w(4) s' st(2) by (simp add: builds_faithful_def)
  then show ?thesis using w g(1) card s' by (simp add: system_ok_def good_def)
qed

lemma persist_system:
  assumes "persist_chunks j p css db env = (res, db')" "system_ok j db"
    "state_at j db = Some s" "s_pending s = Some p"
    "inputs_ok (g_wanted_revision (pd_generation p)) (concat css) db"
    "card (rows_for db (g_sequence (pd_generation p))) + length (concat css) \<le> g_source_count (pd_generation p)"
  shows "system_ok j db' \<and> pub_frame db db' \<and> state_at j db' = Some s"
  using assms
proof (induction css arbitrary: db env)
  case (Cons cs css)
  let ?n = "g_sequence (pd_generation p)" and ?w = "g_wanted_revision (pd_generation p)"
  have inp: "inputs_ok ?w cs db" "inputs_ok ?w (concat css) db"
    using Cons.prems(5) by (auto simp: inputs_ok_def)
  have c: "card (rows_for db ?n) + length cs \<le> g_source_count (pd_generation p)" using Cons.prems(6) by simp
  show ?case
  proof (cases "bindE (pub_check env) (encode_inputs ?n cs)")
    case (Inl e)
    then show ?thesis using Cons.prems by simp
  next
    case (Inr q)
    obtain rows env1 where q: "q = (rows, env1)" by (cases q)
    have rows: "list_all2 (input_row ?n) cs rows" using Inr q encode_inputs_Inr by (auto simp: res_simps)
    obtain r db1 where e: "edit_database j (save_inputs p rows) db env1 = (r, db1)" by (metis surj_pair)
    have p: "bindD (r, db1) (\<lambda>_ db env. persist_chunks j p css db env) = (res, db')"
      using Cons.prems(1) Inr q e by simp
    note save = save_step [OF _ Cons.prems(2-4) rows inp(1) c]
    have one: "system_ok j db1 \<and> pub_frame db db1 \<and> state_at j db1 = Some s"
      using edit_database_cases [OF e editors_atomic(2)] save Cons.prems(2,3) by auto
    show ?thesis
    proof (cases r)
      case (Inl e)
      then show ?thesis using p one by (auto simp: bindD_def)
    next
      case (Inr u)
      then obtain env2 where u: "r = Inr ((), env2)" by (cases u) auto
      have d: "card (rows_for db1 ?n) = card (rows_for db ?n) + length cs"
        using edit_database_cases [OF e editors_atomic(2)] save u by auto
      have rest: "persist_chunks j p css db1 env2 = (res, db')" using p u by (simp add: bindD_def)
      show ?thesis
        using Cons.IH [OF rest _ _ Cons.prems(4)] one d inp(2) inputs_frame Cons.prems(6) pub_frame_trans by auto
    qed
  qed
qed (simp add: assms)

lemma capture_card: "captures_corpus c db \<Longrightarrow> length (cc_sources c) = card (dom (source_at db))"
  unfolding captures_corpus_def by (metis distinct_card length_map list.set_map)

lemma capture_inputs: "capture_ok c db \<Longrightarrow> inputs_ok (cc_wanted_revision c) (cc_sources c) db"
  by (auto simp: capture_ok_def inputs_ok_def captures_corpus_def)

lemma reserve_step:
  assumes e: "edited j (reserve_generation c ns) db p work" and y: "system_ok j db" and c: "capture_ok c db"
    and ns: "\<forall>n. s_namespace (cc_state c) = Some n \<longrightarrow> n = ns"
  shows "system_ok j work \<and> pub_frame db work \<and> (\<exists>s. state_at j work = Some s \<and> s_pending s = Some p) \<and>
    rows_for work (g_sequence (pd_generation p)) = {} \<and> g_source_count (pd_generation p) = length (cc_sources c) \<and>
    g_wanted_revision (pd_generation p) = cc_wanted_revision c"
proof -
  have g: "json_ok j" "pub_inv j db" "root_ok db" using y by (simp_all add: system_ok_def good_def)
  have "safe_editor j (reserve_generation c ns)"
    using reserve_safe c ns by (simp add: reserves_def capture_ok_def)
  then obtain s s' db1 where w: "state_at j db = Some s" "pub_state_ok j db s"
      "reserve_generation c ns (pub_opened db) s [] = Inr ((p, s', db1), [])" "state_at j work = Some s'"
      "same_rows db1 work" "pub_inv j work" "root_ok work" "pub_frame db work"
    by (rule safe_edited [OF e _ g])
  note R = reserve_Inr [OF w(3)]
  let ?n = "s_next_sequence s + 1"
  have p: "g_sequence (pd_generation p) = ?n" "g_source_count (pd_generation p) = length (cc_sources c)"
      "g_wanted_revision (pd_generation p) = cc_wanted_revision c"
    using R by (simp_all add: new_pending_def)
  have wd: "cc_wanted_revision c = wanted_of db" using R pub_frame_corpus(8) [OF pub_frame_opened] by simp
  have "row_in work d ?n t = None" for d t
    using fresh_rows [OF w(2), of ?n] R w(5) by (simp add: same_rows_def)
  then have e: "rows_for work ?n = {}" "entry_of work ?n = Map.empty"
    using data_table.simps(1) by (simp_all add: rows_for_def entry_of_def fun_eq_iff flip: data_table.simps(1))
  have "faithful work (pd_generation p)"
    using c wd capture_card by (simp add: faithful_def holds_corpus_def p e [simplified] capture_ok_def pub_frame_corpus [OF w(8)])
  moreover have "faithful work g" if "s_current s = Some g" for g
  proof -
    have "same_gen (g_sequence g) db db1" using R same_rows_gen same_rows_trans same_rows_simps(2,4) by metis
    then have "same_gen (g_sequence g) db work" using same_gen_trans same_rows_gen [OF w(5)] by blast
    moreover have "faithful db g" using y w(1) that by (simp add: system_ok_def builds_faithful_def)
    ultimately show ?thesis using faithful_same w(8) by blast
  qed
  ultimately have "builds_faithful j work" using w(4) R by (simp add: builds_faithful_def)
  then show ?thesis using w R g(1) p e by (auto simp: system_ok_def good_def)
qed

lemma start_system:
  assumes "start_build j rnd c db env = (res, db')" "system_ok j db" "capture_ok c db"
  shows "system_ok j db' \<and> pub_frame db db'"
proof (cases "case s_namespace (cc_state c) of Some n \<Rightarrow> Inr n | None \<Rightarrow> ok_or Random rnd")
  case (Inl e)
  then show ?thesis using assms(1,2) by (simp add: start_build_def)
next
  case (Inr ns)
  then have ns: "\<forall>n. s_namespace (cc_state c) = Some n \<longrightarrow> n = ns" by auto
  obtain r db1 where e: "edit_database j (reserve_generation c ns) db env = (r, db1)" by (metis surj_pair)
  note reserve = reserve_step [OF _ assms(2,3) ns]
  have one: "system_ok j db1 \<and> pub_frame db db1"
    using edit_database_cases [OF e editors_atomic(1)] reserve assms(2) by auto
  show ?thesis
  proof (cases r)
    case (Inl e)
    then show ?thesis using assms(1) Inr one \<open>edit_database _ _ _ _ = _\<close> by (auto simp: start_build_def bindD_def)
  next
    case (Inr q)
    obtain p env1 where q: "q = (p, env1)" by (cases q)
    have "edited j (reserve_generation c ns) db p db1"
      using edit_database_cases [OF e editors_atomic(1)] Inr q by auto
    from reserve [OF this] obtain s where R: "state_at j db1 = Some s" "s_pending s = Some p"
        "rows_for db1 (g_sequence (pd_generation p)) = {}"
        "g_source_count (pd_generation p) = length (cc_sources c)" "g_wanted_revision (pd_generation p) = cc_wanted_revision c"
      by blast
    have cc: "concat (chunks 32 (cc_sources c)) = cc_sources c" by simp
    obtain r2 db2 where k: "persist_captured_inputs j p (cc_sources c) db1 env1 = (r2, db2)" by (metis surj_pair)
    have "capture_ok c db1" using capture_moves [OF assms(3) corpus_moves_frame] one by simp
    then have "system_ok j db2 \<and> pub_frame db1 db2 \<and> state_at j db2 = Some s"
      using one R capture_inputs [of c db1]
      by (intro persist_system [OF k [unfolded persist_captured_inputs_def]]) (simp_all add: cc)
    moreover have "db' = db2"
      using assms(1) \<open>(case _ of None \<Rightarrow> _ | Some n \<Rightarrow> _) = Inr ns\<close> e Inr q k
      by (auto simp: start_build_def bindD_def split: sum.splits)
    ultimately show ?thesis using one pub_frame_trans by blast
  qed
qed

end
