(* ===== verification/PublicationSystem.thy ===== *)
theory PublicationSystem
  imports PublicationCorpus
begin

text \<open>
  The control database as one machine: \<open>system_step\<close> is one call of any operation on sources,
  preparations or generations, by any caller and with any interruption. A caller starts builds
  from captures it was given at any earlier moment. The invariant of the machine and what it
  says of a commit and of a published generation follow.
\<close>

section \<open>Retirement\<close>

lemma retire_table_system:
  assumes "retire_table j retired d db env = (res, db')" "g_sequence (rg_generation retired) < u64_bound" "system_ok j db"
  shows "system_ok j db' \<and> pub_frame db db'"
  using assms
proof (induction j retired d db env arbitrary: res db' rule: retire_table.induct)
  case (1 j retired d db env)
  let ?pre = "be_bytes (g_sequence (rg_generation retired))"
  show ?case
  proof (cases "observe_database (retirement_keys d ?pre) db env")
    case (Inl e)
    then show ?thesis using "1.prems" by (simp add: retire_table.simps)
  next
    case (Inr q)
    obtain keys env1 where q: "q = (keys, env1)" by (cases q)
    note o = Inr [unfolded q]
    show ?thesis
    proof (cases "keys = []")
      case True
      then show ?thesis using "1.prems" o by (simp add: retire_table.simps)
    next
      case False
      obtain r db1 where e: "edit_database j (remove_rows j retired (data_table d) keys) db env1 = (r, db1)"
        by (metis surj_pair)
      have k: "starts_with ?pre k" if "k \<in> set keys" for k using observed_keys_in [OF o that] by simp
      note s = edit_system [OF e remove_rows_atomic remove_rows_safe [OF "1.prems"(2) k]
          retire_keeps_build(1) [OF "1.prems"(2) k] "1.prems"(3)]
      show ?thesis
      proof (cases r)
        case (Inl x)
        then show ?thesis using "1.prems"(1) o e False s by (simp add: retire_table.simps)
      next
        case (Inr u)
        obtain env2 where u: "u = ((), env2)" by (cases u) simp
        have "retire_table j retired d db1 env2 = (res, db')"
          using "1.prems"(1) o e False Inr u by (simp add: retire_table.simps)
        from "1.IH" [OF o refl False e [unfolded Inr u, symmetric] refl refl this "1.prems"(2)] s
        show ?thesis using pub_frame_trans by blast
      qed
    qed
  qed
qed

lemma bindD_system:
  assumes "bindD (r, db1) k = (res, db')" "system_ok j db1 \<and> pub_frame db db1"
    and "\<And>x env res db'. k x db1 env = (res, db') \<Longrightarrow> system_ok j db' \<and> pub_frame db1 db'"
  shows "system_ok j db' \<and> pub_frame db db'"
proof (cases r)
  case (Inr q)
  then show ?thesis using assms(1,2) assms(3) [of "fst q" "snd q" res db'] pub_frame_trans
    by (auto simp: bindD_def split: prod.splits)
qed (use assms(1,2) in \<open>auto simp: bindD_def\<close>)

lemma finish_retirement_system:
  assumes "finish_retirement j retired db env = (res, db')" "g_sequence (rg_generation retired) < u64_bound" "system_ok j db"
  shows "system_ok j db' \<and> pub_frame db db'"
proof (cases "rg_unresolved_build retired \<noteq> None")
  case True
  then show ?thesis using assms by (auto simp: finish_retirement_def)
next
  case False
  let ?t = "retire_table j retired" and ?last = "\<lambda>_. edit_database j (forget_retired j retired)"
  let ?third = "\<lambda>_ db env. bindD (?t EvidenceTable db env) ?last"
  let ?second = "\<lambda>_ db env. bindD (?t PagesTable db env) ?third"
  have last: "system_ok j db' \<and> pub_frame db db'" if "?last u db env = (r, db')" "system_ok j db" for u db env r db'
    using edit_system [OF that(1) editors_atomic(11) forget_safe [OF assms(2)]
        retire_keeps_build(2) [OF assms(2), of "[]"] that(2)] by simp
  have third: "system_ok j db' \<and> pub_frame db db'" if "?third u db env = (r, db')" "system_ok j db" for u db env r db'
  proof -
    obtain r1 db1 where t: "?t EvidenceTable db env = (r1, db1)" by (metis surj_pair)
    note s = retire_table_system [OF t assms(2) that(2)]
    show ?thesis using bindD_system [OF that(1) [unfolded t] s] last s by blast
  qed
  have second: "system_ok j db' \<and> pub_frame db db'" if "?second u db env = (r, db')" "system_ok j db" for u db env r db'
  proof -
    obtain r1 db1 where t: "?t PagesTable db env = (r1, db1)" by (metis surj_pair)
    note s = retire_table_system [OF t assms(2) that(2)]
    show ?thesis using bindD_system [OF that(1) [unfolded t] s] third s by blast
  qed
  obtain r1 db1 where t: "?t SourcesTable db env = (r1, db1)" by (metis surj_pair)
  note s = retire_table_system [OF t assms(2,3)]
  have "bindD (r1, db1) ?second = (res, db')" using assms(1) False t by (simp add: finish_retirement_def)
  then show ?thesis using bindD_system s second by blast
qed

section \<open>Steps\<close>

type_synonym system = "Database \<times> CorpusCapture list"

inductive system_step :: "Json \<Rightarrow> system \<Rightarrow> system \<Rightarrow> bool" for j where
  control: "control_step db db' \<Longrightarrow> system_step j (db, cs) (db', cs)"
| capture: "capture_corpus j db env = Inr (c, env') \<Longrightarrow> system_step j (db, cs) (db, c # cs)"
| start: "c \<in> set cs \<Longrightarrow> start_build j rnd c db env = (res, db') \<Longrightarrow> system_step j (db, cs) (db', cs)"
| stage: "wf_page page \<Longrightarrow> stage_page j p page db env = (ures, db') \<Longrightarrow> system_step j (db, cs) (db', cs)"
| finish: "finish_source j p sid units db env = (ures, db') \<Longrightarrow> system_step j (db, cs) (db', cs)"
| seal: "complete_capture j p db env = (res, db') \<Longrightarrow> system_step j (db, cs) (db', cs)"
| dispatch: "record_dispatch j p op db env = (nres, db') \<Longrightarrow> system_step j (db, cs) (db', cs)"
| settle: "finish_dispatch j p op revision applied db env = (ures, db') \<Longrightarrow> system_step j (db, cs) (db', cs)"
| commit: "commit_generation j p db env env2 = (gres, db') \<Longrightarrow> system_step j (db, cs) (db', cs)"
| abandon: "abandon_build j p db env = (ures, db') \<Longrightarrow> system_step j (db, cs) (db', cs)"
| supersede: "supersede_unknown_build j p db env = (ures, db') \<Longrightarrow> system_step j (db, cs) (db', cs)"
| retire: "g_sequence (rg_generation retired) < u64_bound \<Longrightarrow> finish_retirement j retired db env = (ures, db') \<Longrightarrow>
     system_step j (db, cs) (db', cs)"

definition system_inv :: "Json \<Rightarrow> system \<Rightarrow> bool" where
  "system_inv j = (\<lambda>(db, cs). system_ok j db \<and> (\<forall>c \<in> set cs. capture_ok c db))"

lemma system_inv_moves:
  "system_inv j (db, cs) \<Longrightarrow> system_ok j db' \<and> corpus_moves db db' \<Longrightarrow> system_inv j (db', cs)"
  using capture_moves by (auto simp: system_inv_def)

lemma system_inv_frame:
  "system_inv j (db, cs) \<Longrightarrow> system_ok j db' \<and> pub_frame db db' \<Longrightarrow> system_inv j (db', cs)"
  using system_inv_moves corpus_moves_frame by blast

lemma stage_system:
  assumes "stage_page j p page db env = (res, db')" "wf_page page" "system_ok j db"
  shows "system_ok j db' \<and> pub_frame db db'"
proof (cases "encode_page page env")
  case (Inl e)
  then show ?thesis using assms(1,3) by (simp add: stage_page_def)
next
  case (Inr q)
  obtain bs env1 where q: "q = (bs, env1)" by (cases q)
  note e = Inr [unfolded q]
  have "edit_database j (save_page p page bs) db env1 = (res, db')" using assms(1) e by (simp add: stage_page_def)
  then show ?thesis
    using editors_atomic(3) save_page_safe [OF e assms(2)] save_page_keeps_build [OF e assms(2)] assms(3)
    by (rule edit_system)
qed

lemma commit_path:
  assumes "commit_generation j p db env env2 = (res, db')"
  shows "\<exists>r. edit j (switch_current j p) db env = (r, db')"
  using assms by (auto simp: commit_generation_def split: prod.splits sum.splits)

lemma finish_system:
  "finish_source j p sid units db env = (res, db') \<Longrightarrow> system_ok j db \<Longrightarrow> system_ok j db' \<and> pub_frame db db'"
  using edit_system [OF _ editors_atomic(4) complete_safe complete_keeps_build] by (auto simp: finish_source_def)

lemma seal_system:
  "complete_capture j p db env = (res, db') \<Longrightarrow> system_ok j db \<Longrightarrow> system_ok j db' \<and> pub_frame db db'"
  using edit_system [OF _ editors_atomic(5) seal_safe header_keeps_build(1)] by (auto simp: complete_capture_def)

lemma dispatch_system:
  "record_dispatch j p op db env = (res, db') \<Longrightarrow> system_ok j db \<Longrightarrow> system_ok j db' \<and> pub_frame db db'"
  using edit_system [OF _ editors_atomic(6) dispatch_safe header_keeps_build(2)] by (auto simp: record_dispatch_def)

lemma settle_system:
  "finish_dispatch j p op revision applied db env = (res, db') \<Longrightarrow> system_ok j db \<Longrightarrow> system_ok j db' \<and> pub_frame db db'"
  using edit_system [OF _ editors_atomic(7) settle_safe header_keeps_build(3)] by (auto simp: finish_dispatch_def)

lemma system_json: "system_ok j db \<Longrightarrow> json_ok j"
  by (simp add: system_ok_def good_def)

lemma commit_system:
  "commit_generation j p db env env2 = (res, db') \<Longrightarrow> system_ok j db \<Longrightarrow> system_ok j db' \<and> pub_frame db db'"
  using commit_path edit_path_system [OF _ editors_atomic(8) switch_safe header_keeps_build(4)] system_json by blast

lemma abandon_system:
  "abandon_build j p db env = (res, db') \<Longrightarrow> system_ok j db \<Longrightarrow> system_ok j db' \<and> pub_frame db db'"
  using edit_system [OF _ editors_atomic(9) drop_safe header_keeps_build(5)] system_json by (auto simp: abandon_build_def)

lemma supersede_system:
  "supersede_unknown_build j p db env = (res, db') \<Longrightarrow> system_ok j db \<Longrightarrow> system_ok j db' \<and> pub_frame db db'"
  using edit_system [OF _ editors_atomic(10) set_aside_safe header_keeps_build(6)] system_json
  by (auto simp: supersede_unknown_build_def)

text \<open>
  A step of publication: one that is not a step of the control database, so it leaves the sources,
  the preparations and every other table outside of the publication as they are.
\<close>

definition publication_step :: "Json \<Rightarrow> system \<Rightarrow> system \<Rightarrow> bool" where
  "publication_step j st st' \<longleftrightarrow> system_step j st st' \<and> (system_inv j st \<longrightarrow> system_ok j (fst st') \<and> pub_frame (fst st) (fst st'))"

lemma system_invD: "system_inv j (db, cs) \<Longrightarrow> system_ok j db" "system_inv j (db, cs) \<Longrightarrow> c \<in> set cs \<Longrightarrow> capture_ok c db"
  by (auto simp: system_inv_def)

lemma publication_stepI:
  assumes "system_step j (db, cs) (db', cs')"
    and "system_ok j db \<Longrightarrow> (\<And>c. c \<in> set cs \<Longrightarrow> capture_ok c db) \<Longrightarrow> system_ok j db' \<and> pub_frame db db'"
  shows "publication_step j (db, cs) (db', cs')"
  using assms system_invD by (auto simp: publication_step_def)

lemma publication_steps:
  "capture_corpus j db env = Inr (c, env') \<Longrightarrow> publication_step j (db, cs) (db, c # cs)"
  "c \<in> set cs \<Longrightarrow> start_build j rnd c db env = (res, db') \<Longrightarrow> publication_step j (db, cs) (db', cs)"
  "wf_page page \<Longrightarrow> stage_page j p page db env = (ures, db') \<Longrightarrow> publication_step j (db, cs) (db', cs)"
  "finish_source j p sid units db env = (ures, db') \<Longrightarrow> publication_step j (db, cs) (db', cs)"
  "complete_capture j p db env = (pres, db') \<Longrightarrow> publication_step j (db, cs) (db', cs)"
  "record_dispatch j p op db env = (nres, db') \<Longrightarrow> publication_step j (db, cs) (db', cs)"
  "finish_dispatch j p op revision applied db env = (ures, db') \<Longrightarrow> publication_step j (db, cs) (db', cs)"
  "commit_generation j p db env env2 = (gres, db') \<Longrightarrow> publication_step j (db, cs) (db', cs)"
  "abandon_build j p db env = (ures, db') \<Longrightarrow> publication_step j (db, cs) (db', cs)"
  "supersede_unknown_build j p db env = (ures, db') \<Longrightarrow> publication_step j (db, cs) (db', cs)"
  "g_sequence (rg_generation retired) < u64_bound \<Longrightarrow> finish_retirement j retired db env = (ures, db') \<Longrightarrow>
     publication_step j (db, cs) (db', cs)"
proof (goal_cases)
  case 1
  then show ?case by (intro publication_stepI system_step.capture) auto
next
  case 2
  then show ?case by (intro publication_stepI system_step.start) (blast dest: start_system)+
next
  case 3
  then show ?case by (intro publication_stepI system_step.stage) (blast dest: stage_system)+
next
  case 4
  then show ?case by (intro publication_stepI system_step.finish finish_system)
next
  case 5
  then show ?case by (intro publication_stepI system_step.seal seal_system)
next
  case 6
  then show ?case by (intro publication_stepI system_step.dispatch dispatch_system)
next
  case 7
  then show ?case by (intro publication_stepI system_step.settle settle_system)
next
  case 8
  then show ?case by (intro publication_stepI system_step.commit commit_system)
next
  case 9
  then show ?case by (intro publication_stepI system_step.abandon abandon_system)
next
  case 10
  then show ?case by (intro publication_stepI system_step.supersede supersede_system)
next
  case 11
  then show ?case by (intro publication_stepI system_step.retire finish_retirement_system)
qed

lemma system_step_inv:
  assumes "system_step j st st'" "system_inv j st"
  shows "system_inv j st'"
  using assms
proof (induction rule: system_step.induct)
  case (control db db' cs)
  then show ?case using control_system system_inv_moves by (auto simp: system_inv_def)
next
  case (capture db env c env' cs)
  then show ?case using capture_corpus_ok by (auto simp: system_inv_def system_ok_def good_def)
next
  case (start c cs rnd db env res db')
  then show ?case using start_system system_inv_frame system_invD by blast
next
  case (stage page p db env ures db' cs)
  then show ?case using stage_system system_inv_frame system_invD(1) by blast
next
  case (finish p sid units db env ures db' cs)
  then show ?case using finish_system system_inv_frame system_invD(1) by blast
next
  case (seal p db env res db' cs)
  then show ?case using seal_system system_inv_frame system_invD(1) by blast
next
  case (dispatch p op db env nres db' cs)
  then show ?case using dispatch_system system_inv_frame system_invD(1) by blast
next
  case (settle p op revision applied db env ures db' cs)
  then show ?case using settle_system system_inv_frame system_invD(1) by blast
next
  case (commit p db env env2 gres db' cs)
  then show ?case using commit_system system_inv_frame system_invD(1) by blast
next
  case (abandon p db env ures db' cs)
  then show ?case using abandon_system system_inv_frame system_invD(1) by blast
next
  case (supersede p db env ures db' cs)
  then show ?case using supersede_system system_inv_frame system_invD(1) by blast
next
  case (retire retired db env ures db' cs)
  then show ?case using finish_retirement_system system_inv_frame system_invD(1) by blast
qed

text \<open>Runs of publication steps are runs of the machine which keep what is outside of the publication.\<close>

lemma publication_run:
  assumes "(publication_step j)\<^sup>*\<^sup>* (db, cs) (db', cs')" "system_inv j (db, cs)"
  shows "(system_step j)\<^sup>*\<^sup>* (db, cs) (db', cs') \<and> system_inv j (db', cs') \<and> pub_frame db db'"
  using assms
proof (induction "(db', cs')" arbitrary: db' cs' rule: rtranclp_induct)
  case (step st)
  obtain db1 cs1 where st: "st = (db1, cs1)" by (cases st)
  have i: "(system_step j)\<^sup>*\<^sup>* (db, cs) (db1, cs1)" "system_inv j (db1, cs1)" "pub_frame db db1"
    using step.hyps(3) [OF st step.prems] by auto
  have "system_step j (db1, cs1) (db', cs')" "pub_frame db1 db'"
    using step.hyps(2) i(2) by (auto simp: st publication_step_def)
  then show ?case using i system_step_inv pub_frame_trans by (blast intro: rtranclp.rtrancl_into_rtrancl)
qed simp

end
