(* ===== verification/PublicationExample.thy ===== *)
theory PublicationExample
  imports PublicationSystem ControlProperties
begin

text \<open>
  A concrete run of the whole control database: the source and the preparation of the control
  example are captured, built into a generation of one point, dispatched and committed. JSON is
  instantiated by a table of the headers that occur.
\<close>

section \<open>Uninterrupted transactions\<close>

text \<open>A transaction whose editor accepts, with a header that can be stored, commits.\<close>

lemma edit_body_runs:
  assumes "state_at j db = Some s" "wr (pub_opened db) s [] = Inr ((x, s', db1), [])" "state_bytes j s' = Inr bs"
  shows "edit_body j wr db [] = Inr ((x, put_in STATE STATE_KEY bs (ensure STATE db1)), [])"
proof -
  have "(case pub_value db of None \<Rightarrow> if STATE \<notin> set (list_tables db) then Inr State_default else Inl Corrupt
      | Some v \<Rightarrow> decode_state j v) = Inr s"
    using assms(1) by (auto simp: state_at_def res_simps split: option.splits if_splits)
  then show ?thesis
    using assms(2,3) unfolding edit_body_def Let_def by (simp add: pub_opened_def)
qed

lemma edit_runs:
  assumes st: "state_at j db = Some s" "json_ok j"
    and w: "wr (pub_opened db) s [] = Inr ((x, s', db1), [])" and b: "state_bytes j s' = Inr bs" and ok1: "db_ok db1"
    and y: "\<And>work. edited j wr db x work \<Longrightarrow> system_ok j work \<and> pub_frame db work"
  obtains db' where "edit_database j wr db [] = (Inr (x, []), db')" "edit j wr db [] = (Inr (x, []), db')"
    "state_at j db' = Some s'" "system_ok j db'" "same_rows db1 db'" "pub_frame db db'"
proof -
  let ?db = "put_in STATE STATE_KEY bs (ensure STATE db1)"
  have e: "edit_database j wr db [] = (Inr (x, []), ?db)"
    using edit_body_runs [of j db s wr x s' db1 bs] st(1) w b by (simp add: edit_database_def)
  have E: "edited j wr db x ?db" using st(1) w b unfolding edited_def by blast
  obtain s2 where s2: "state_at j ?db = Some s2" using y [OF E] by (auto simp: system_ok_def good_def pub_inv_def)
  have "pub_value ?db = Some bs" using ok1 by (simp add: get_put_in)
  then have "decode_state j bs = Inr s2" using s2 by (simp add: state_at_def res_simps)
  moreover have "state_from_slice j bs = Some s'" using st(2) b by (auto simp: json_ok_def state_bytes_def res_simps split: if_splits)
  ultimately have "s2 = s'" by (auto simp: decode_state_def res_simps split: if_splits)
  moreover have "same_rows db1 ?db" using same_rows_trans same_rows_simps(2,3) by blast
  ultimately show ?thesis using that [OF e] e y [OF E] s2 by (simp add: edit_def)
qed

text \<open>The same for an editor that is safe everywhere and keeps builds faithful.\<close>

lemma safe_edit_system:
  assumes "edited j write db x work" "safe_editor j write" "keeps_build j write" "system_ok j db"
  shows "system_ok j work \<and> pub_frame db work"
proof -
  have g: "json_ok j" "pub_inv j db" "root_ok db" "good j db" "builds_faithful j db"
    using assms(4) by (simp_all add: system_ok_def good_def)
  show ?thesis
    using safe_edited [OF assms(1,2) g(1-3)] edited_faithful [OF assms(1-3) g(4,5)] g(1)
    by (metis good_def system_ok_def)
qed

lemma check_wanted_quiet:
  assumes "control_ok db" "\<not> fresh_control db"
  shows "check_wanted (namespace_of db) (wanted_of db) db [] = Inr (db, [])"
proof -
  have t: "SOURCE_STATE \<in> set (list_tables db)" using assms by (auto simp: control_ok_def current_schema_def)
  obtain ns where ns: "sources_inv ns db" using assms control_inv by blast
  then have "namespace_of db = Some ns" "length ns = 16" "st_of db NAMESPACE_KEY = Some ns" using t by (simp_all add: namespace_of_def sources_inv_def)
  moreover have "write_wanted_revision db [] = Inr ((wanted_of db, db), [])"
    using ns t by (auto simp: write_wanted_revision_def wanted_of_def ensure_present u64_value_def sources_inv_def split: option.splits)
  ultimately show ?thesis using t by (simp add: check_wanted_def ensure_present)
qed

section \<open>JSON as a table\<close>

definition table_json :: "State list \<Rightarrow> Json" where
  "table_json ss = \<lparr>
     state_to_vec = (\<lambda>s. if s \<in> set ss then Some [of_nat (length (takeWhile (\<lambda>t. t \<noteq> s) ss))] else None),
     state_from_slice = (\<lambda>bs. if bs \<noteq> [] \<and> unat (hd bs) < length ss then Some (ss ! unat (hd bs)) else None),
     retired_to_vec = (\<lambda>_. None), retired_from_slice = (\<lambda>_. None)\<rparr>"

lemma index_of: "s \<in> set ss \<Longrightarrow> length (takeWhile (\<lambda>t. t \<noteq> s) ss) < length ss \<and> ss ! length (takeWhile (\<lambda>t. t \<noteq> s) ss) = s"
  by (induction ss) auto

lemma table_json_ok: "length ss < 256 \<Longrightarrow> json_ok (table_json ss)"
  using index_of [of _ ss] by (fastforce simp: json_ok_def table_json_def unat_of_nat)

lemma table_json_bytes: "s \<in> set ss \<Longrightarrow> \<exists>bs. state_bytes (table_json ss) s = Inr bs"
  by (simp add: state_bytes_def table_json_def)

section \<open>The captured corpus\<close>

lemma single_row:
  assumes "tbl_ok t" "dom (tbl_get t) = {k}"
  shows "\<exists>v. t = [(k, v)] \<and> tbl_get t k = Some v"
proof -
  have "set (map fst t) = {k}" using assms(2) by (simp add: tbl_get_def [abs_def] dom_map_of_conv_image_fst)
  then have "length t = 1" using tbl_ok_distinct [OF assms(1)] distinct_card [of "map fst t"] by simp
  then show ?thesis using \<open>set (map fst t) = {k}\<close> by (cases t) (auto simp: tbl_get_def)
qed

lemma ex_not_fresh: "control_ok ex_db3" "\<not> fresh_control ex_db3" "db_ok ex_db3"
    "read_namespace ex_db3 [] = Inr (Some (replicate 16 1), [])"
proof -
  show c: "control_ok ex_db3" "db_ok ex_db3" using ex_db3_facts(1) by (simp_all add: root_ok_def control_ok_def)
  show "\<not> fresh_control ex_db3" "read_namespace ex_db3 [] = Inr (Some (replicate 16 1), [])"
    using source_namespace [OF c(1) ex_db3_facts(3)] by (simp_all add: ex_rec_def)
qed

lemma ex_only_source: "source_at ex_db3 = [ex_sid \<mapsto> ex_rec]"
proof
  fix sid
  have s: "sources_of ex_db3 = [ex_loc \<mapsto> ex_rec]"
    using commit_preparation_effect [OF ex_db2_facts(1) ex_ready_ok(1), of ex_pcap "[]"] ex_outcome
      ensure_settings_effect [OF ex_db1_facts(2), of ex_sid "[]"] ex_settings ex_db1_facts(3)
    by (auto simp: prep_effect_def)
  show "source_at ex_db3 sid = [ex_sid \<mapsto> ex_rec] sid"
  proof (cases "source_at ex_db3 sid")
    case None
    then show ?thesis using ex_db3_facts(3) by auto
  next
    case (Some r)
    then have "sources_of ex_db3 (locator r) = Some r" "source_id r = sid" using source_at_iff [OF ex_db3_facts(1)] by auto
    then have "r = ex_rec" using s by (auto split: if_splits)
    then show ?thesis using Some \<open>source_id r = sid\<close> ex_source_at(2) by auto
  qed
qed

lemma ex_db3_rows:
  obtains enc v t where "get_table ex_db3 SOURCE_ROWS = Some [(ex_sid, enc)]" "decode_record enc = Inr ex_rec" "length enc = 115"
    "encode_record ex_rec = Inr enc"
    "get_table ex_db3 PREPARATIONS = Some t" "tbl_get t ex_sid = Some v" "prep_decode v = Inr ex_row2"
    "prep_encode ex_row2 = Inr v" "length v \<le> 300"
proof -
  obtain ns where ns: "sources_inv ns ex_db3" using ex_not_fresh(1,2) control_inv by blast
  have cs: "current_schema ex_db3" using ex_not_fresh(1,2) by (auto simp: control_ok_def)
  have "dom (rows_of ex_db3) = {ex_sid}" using source_at_dom [OF ns] ex_only_source by simp
  then obtain enc where enc: "the_table ex_db3 SOURCE_ROWS = [(ex_sid, enc)]" "rows_of ex_db3 ex_sid = Some enc"
    using single_row db_ok_the [OF ex_not_fresh(3)] by blast
  have g: "get_table ex_db3 SOURCE_ROWS = Some [(ex_sid, enc)]" using current_tables [OF cs, of SOURCE_ROWS] enc by simp
  have d: "decode_record enc = Inr ex_rec" using ex_db3_facts(3) enc(2) by (auto simp: source_at_def res_simps)
  moreover have "storable_source ex_rec" using source_at_row [OF ns enc(2) d] by simp
  ultimately have e: "encode_record ex_rec = Inr enc" by (rule encode_decode_record)
  then have len: "length enc = 115"
    by (auto simp: encode_record_def ex_rec_def ex_loc_def as_bytes_def ex_key_def ex_object_def
        object_source_def try_from_def MAX_LOCATOR_BYTES_def SOURCE_OBJECT_FORMAT_VERSION_def)
  obtain v where v: "preps_of ex_db3 ex_sid = Some v" "prep_decode v = Inr ex_row2"
    using prep_of_row [of ex_db3 ex_sid ex_row2] ex_db3_facts(1,2) by (auto simp: root_ok_def)
  then obtain t where t: "get_table ex_db3 PREPARATIONS = Some t" "tbl_get t ex_sid = Some v"
    by (auto simp: the_table_def tbl_get_def split: option.splits)
  have "v = put_row ex_row2" using prep_decode_Inr [OF v(2)] by simp
  then have "length v \<le> 300"
    by (simp add: put_row_def ex_row2_def ex_row_def initial_prep_def ex_rec_def bound_outcome_def put_bound_def
        ex_pcap_def ex_ready_def put_settings_def put_object_def ex_object_def object_source_def object_prepared_def default_settings_def)
  then show ?thesis using that [OF g d len e t v(2) prep_encode_decode [OF v(2)]] by blast
qed

lemma ex_no_publication: "n \<in> PUB \<Longrightarrow> get_table ex_db3 n = None"
proof -
  assume n: "n \<in> PUB"
  have "keeps_pub ex_db ex_db1" "keeps_pub ex_db1 ex_db2" "keeps_pub ex_db2 ex_db3"
    using control_step_effect [OF ex_step] control_step_effect [OF ex_step2] control_step_effect [OF ex_step3]
      ex_control(2) ex_db1_facts(2) ex_db2_facts(1) by (simp_all add: step_effect_def)
  moreover have "get_table ex_db n = None"
    using n by (auto simp: get_table_def ex_db_def table_name_defs)
  ultimately show ?thesis using n unfolding keeps_pub_def by metis
qed

lemma ex_no_rows [simp]: "the_table ex_db3 (data_table d) = []" "the_table ex_db3 STATE = []" "the_table ex_db3 RETIRED = []"
  "the_table ex_db3 SOURCES = []" "the_table ex_db3 PAGES = []" "the_table ex_db3 EVIDENCE = []"
  using ex_no_publication pub_names data_table_pub by (simp_all add: the_table_def)

lemma ex_default_state: "STATE \<notin> set (list_tables ex_db3)" "state_at j ex_db3 = Some State_default"
  "read_state j ex_db3 [] = Inr (State_default, [])"
proof -
  show n: "STATE \<notin> set (list_tables ex_db3)" using ex_no_publication get_table_iff [of ex_db3 STATE] by auto
  then show "state_at j ex_db3 = Some State_default" by (simp add: state_at_def)
  show "read_state j ex_db3 [] = Inr (State_default, [])" using ex_no_publication [of STATE] by (simp add: read_state_def)
qed

definition ex_captured :: CapturedSource where
  "ex_captured = \<lparr>ca_source = ex_rec, ca_preparation = ex_row2\<rparr>"

definition ex_corpus :: CorpusCapture where
  "ex_corpus = \<lparr>cc_sources = [ex_captured], cc_current = None, cc_pending = None,
     cc_source_namespace = Some (replicate 16 1), cc_wanted_revision = wanted_of ex_db3, cc_state = State_default\<rparr>"

lemma ex_matches: "cp_outcome ex_row2 = Some (bound_outcome ex_pcap ex_ready)"
    "matches_input (bound_outcome ex_pcap ex_ready) ex_rec (cp_settings ex_row2)"
    "cp_namespace_id ex_row2 = replicate 16 1" "cp_source_id ex_row2 = ex_sid" "source_namespace_id ex_rec = replicate 16 1"
  using ex_source_at(2)
  by (simp_all add: ex_row2_def bound_outcome_def ex_pcap_def matches_input_def ex_row_def initial_prep_def ex_rec_def)

lemma ex_capture_corpus: "capture_corpus j ex_db3 [] = Inr (ex_corpus, [])"
proof -
  obtain enc v t where r: "get_table ex_db3 SOURCE_ROWS = Some [(ex_sid, enc)]" "decode_record enc = Inr ex_rec" "length enc = 115"
    "get_table ex_db3 PREPARATIONS = Some t" "tbl_get t ex_sid = Some v" "prep_decode v = Inr ex_row2" "length v \<le> 300"
    by (rule ex_db3_rows)
  have c: "corpus_rows (get_table ex_db3 PREPARATIONS) (replicate 16 1) [(ex_sid, enc)] [] 0 [] = Inr ([ex_captured], [])"
    using r ex_matches ex_source_at(2)
    by (simp add: checked_add64_def MAX_SOURCES_def MAX_CAPTURE_BYTES_def r_get_def ex_captured_def)
  have "wanted_revision ex_db3 [] = Inr (wanted_of ex_db3, [])"
    using current_tables [of ex_db3 SOURCE_STATE] ex_not_fresh(1,2) control_wanted_width [OF ex_not_fresh(1)]
    by (auto simp: wanted_revision_def wanted_of_def u64_value_def r_open_def r_get_def control_ok_def split: option.splits)
  then show ?thesis
    using c r(1) ex_not_fresh ex_default_state(3) schema_of_control [OF ex_not_fresh(1)]
    by (simp add: capture_corpus_def observe_database_def read_corpus_def r_open_def ex_corpus_def State_default_def)
qed

section \<open>The build\<close>

definition ex_namespace_id :: bytes where "ex_namespace_id = replicate 16 3"

definition ex_gen :: "nat \<Rightarrow> Generation" where
  "ex_gen k = \<lparr>g_namespace = ex_namespace_id, g_sequence = 1, g_wanted_revision = wanted_of ex_db3, g_source_count = 1,
     g_gap_count = 0, g_point_count = k, g_page_count = k\<rparr>"

definition ex_build ::
  "nat \<Rightarrow> nat \<Rightarrow> bool \<Rightarrow> bool \<Rightarrow> nat \<Rightarrow> PendingOperation option \<Rightarrow> nat \<Rightarrow> PendingGeneration" where
  "ex_build k completed sealed created uploaded flight revision =
     \<lparr>pd_generation = ex_gen k, pd_capture_complete = sealed, pd_created = created, pd_uploaded_pages = uploaded,
      pd_in_flight = flight, pd_operation_revision = revision, pd_completed_sources = completed,
      pd_staged_bytes = 196 * k, pd_source_namespace = Some (replicate 16 1),
      pd_expected_current_revision = 0, pd_expected_current = None\<rparr>"

definition ex_header :: "PendingGeneration \<Rightarrow> State" where
  "ex_header p = \<lparr>s_version = 1, s_namespace = Some ex_namespace_id, s_next_sequence = 1, s_current_revision = 0,
     s_current = None, s_pending = Some p\<rparr>"

definition ex_published :: State where
  "ex_published = \<lparr>s_version = 1, s_namespace = Some ex_namespace_id, s_next_sequence = 1, s_current_revision = 1,
     s_current = Some (ex_gen 1), s_pending = None\<rparr>"

definition ex_builds :: "PendingGeneration list" where
  "ex_builds = [ex_build 0 0 False False 0 None 0, ex_build 1 0 False False 0 None 0, ex_build 1 1 False False 0 None 0,
     ex_build 1 1 True False 0 None 0, ex_build 1 1 True False 0 (Some Create) 1, ex_build 1 1 True True 0 None 1,
     ex_build 1 1 True True 0 (Some (Insert 0)) 2, ex_build 1 1 True True 1 None 2]"

definition ex_json :: Json where
  "ex_json = table_json (ex_published # map ex_header ex_builds)"

lemma ex_json_ok: "json_ok ex_json"
  unfolding ex_json_def by (rule table_json_ok) (simp add: ex_builds_def)

lemma ex_json_bytes:
  "\<exists>bs. state_bytes ex_json ex_published = Inr bs" "p \<in> set ex_builds \<Longrightarrow> \<exists>bs. state_bytes ex_json (ex_header p) = Inr bs"
  unfolding ex_json_def by (rule table_json_bytes; simp)+

definition ex_entry :: "nat \<Rightarrow> bool \<Rightarrow> SourceEntry" where
  "ex_entry n b = \<lparr>se_captured = ex_captured, se_staged_units = n, se_complete = b\<rparr>"

lemma ex_entry_bytes: "n \<le> 1 \<Longrightarrow> \<exists>bs. encode_entry (ex_entry n b) = Inr bs \<and> decode_source bs = Inr (ex_entry n b)"
proof -
  assume n: "n \<le> 1"
  obtain enc v where r: "encode_record ex_rec = Inr enc" "length enc = 115" "prep_encode ex_row2 = Inr v" "length v \<le> 300"
    by (rule ex_db3_rows)
  then have "\<exists>bs. encode_source (ex_entry n b) [] = Inr (bs, [])"
    by (simp add: encode_source_def ex_entry_def ex_captured_def checked_add64_def try_from_def)
  moreover have "storable_entry (ex_entry n b)"
  proof -
    have "capture_ok ex_corpus ex_db3" using capture_corpus_ok [OF ex_capture_corpus ex_db3_facts(1)] .
    then have "storable_entry (fresh_entry ex_captured)" by (simp add: capture_ok_def ex_corpus_def)
    then show ?thesis using n by (simp add: storable_entry_def fresh_entry_def ex_entry_def)
  qed
  ultimately show ?thesis using entries.dec_enc by (auto simp: res_simps)
qed

lemma ex_wanted:
  assumes "pub_frame ex_db3 db"
  shows "check_wanted (Some (replicate 16 1)) (wanted_of ex_db3) (pub_opened db) [] = Inr (pub_opened db, [])"
proof -
  have f: "pub_frame ex_db3 (pub_opened db)" using pub_frame_trans [OF assms pub_frame_opened] .
  have "root_ok (pub_opened db)" using pub_frame_root [OF f ex_db3_facts(1) pub_opened_names] .
  then have c: "control_ok (pub_opened db)" by (simp add: root_ok_def)
  have "source_at (pub_opened db) ex_sid = Some ex_rec" using ex_db3_facts(3) pub_frame_corpus(7) [OF f] by simp
  note n = source_namespace [OF c this]
  have "SOURCE_STATE \<in> set (list_tables (pub_opened db))" using n c by (auto simp: control_ok_def current_schema_def)
  then have "namespace_of (pub_opened db) = Some (replicate 16 1)" using n by (simp add: namespace_of_def ex_matches(5))
  then show ?thesis using check_wanted_quiet [OF c] n pub_frame_corpus(8) [OF f] by simp
qed

definition ex_at :: "PendingGeneration \<Rightarrow> SourceEntry option \<Rightarrow> Database \<Rightarrow> bool" where
  "ex_at p e db \<longleftrightarrow> system_ok ex_json db \<and> state_at ex_json db = Some (ex_header p) \<and> pub_frame ex_db3 db \<and>
     entry_of db 1 ex_sid = e \<and> (e = None \<longrightarrow> rows_for db 1 = {}) \<and>
     (g_point_count (pd_generation p) = 0 \<longrightarrow> the_table db EVIDENCE = [])"

lemma ex_start_state: "system_ok ex_json ex_db3"
proof -
  have "fresh_control ex_db" "db_ok ex_db" "db_multimaps ex_db = []" using ex_db_fresh by simp_all
  have "pub_state_ok ex_json ex_db3 State_default"
    by (rule pub_state_okI) (simp_all add: State_default_def MAX_RETIRED_def)
  then show ?thesis using ex_json_ok ex_db3_facts(1) ex_default_state(2)
    by (simp add: system_ok_def good_def pub_inv_def builds_faithful_def State_default_def)
qed

lemma ex_first_pending:
  "new_pending ex_corpus ex_namespace_id
     (State_default\<lparr>s_namespace := Some ex_namespace_id, s_next_sequence := 1\<rparr>) = ex_build 0 0 False False 0 None 0"
  using ex_matches(1)
  by (simp add: new_pending_def ex_corpus_def ex_build_def ex_gen_def State_default_def is_gap_def ex_captured_def
      bound_outcome_def ex_ready_def)

lemma ex_reserve:
  obtains db where "edit_database ex_json (reserve_generation ex_corpus ex_namespace_id) ex_db3 [] =
      (Inr (ex_build 0 0 False False 0 None 0, []), db)" "ex_at (ex_build 0 0 False False 0 None 0) None db"
proof -
  let ?p = "ex_build 0 0 False False 0 None 0"
  have c: "capture_ok ex_corpus ex_db3" using capture_corpus_ok [OF ex_capture_corpus ex_db3_facts(1)] .
  have w: "reserve_generation ex_corpus ex_namespace_id (pub_opened ex_db3) State_default [] =
      Inr ((?p, ex_header ?p, ensure RETIRED (pub_opened ex_db3)), [])"
    using ex_wanted [OF pub_frame_refl] ex_first_pending
    by (simp add: reserve_generation_def ex_corpus_def [abs_def] State_default_def MAX_RETIRED_def checked_add64_def
        Let_def ex_header_def set_pending_def)
  obtain bs where b: "state_bytes ex_json (ex_header ?p) = Inr bs" using ex_json_bytes(2) [of ?p] by (auto simp: ex_builds_def)
  have r: "system_ok ex_json work \<and> pub_frame ex_db3 work \<and> rows_for work 1 = {}"
    if "edited ex_json (reserve_generation ex_corpus ex_namespace_id) ex_db3 ?p work" for work
    using reserve_step [OF that ex_start_state c] by (simp add: ex_corpus_def State_default_def ex_build_def ex_gen_def)
  obtain db where d: "edit_database ex_json (reserve_generation ex_corpus ex_namespace_id) ex_db3 [] = (Inr (?p, []), db)"
      "state_at ex_json db = Some (ex_header ?p)" "system_ok ex_json db" "same_rows (ensure RETIRED (pub_opened ex_db3)) db"
      "pub_frame ex_db3 db"
    by (rule edit_runs [where wr = "reserve_generation ex_corpus ex_namespace_id", OF ex_default_state(2) ex_json_ok w b])
      (use r ex_not_fresh(3) in auto)
  have "rows_for db 1 = {}"
    using same_gen_rows [OF same_rows_gen [OF d(4)], of 1] by (simp add: rows_for_def)
  moreover from this have "entry_of db 1 ex_sid = None" by (simp add: rows_for_def entry_of_def)
  moreover have "the_table db EVIDENCE = []" using d(4) unfolding same_rows_def by (metis data_table.simps(3) ex_no_rows(6) the_table_ensure the_table_pub_opened)
  ultimately have "ex_at ?p None db" using d by (simp add: ex_at_def)
  then show ?thesis using that d(1) by blast
qed

lemma ex_moves:
  assumes at: "ex_at p e db" and q: "q \<in> set ex_builds" and ok: "db_ok db1"
    and w: "wr (pub_opened db) (ex_header p) [] = Inr ((x, ex_header q, db1), [])" and en: "entry_of db1 1 ex_sid = Some e'"
    and ev: "g_point_count (pd_generation q) = 0 \<Longrightarrow> the_table db1 EVIDENCE = []"
    and y: "\<And>work. edited ex_json wr db x work \<Longrightarrow> system_ok ex_json work \<and> pub_frame db work"
  obtains db' where "edit_database ex_json wr db [] = (Inr (x, []), db')" "ex_at q (Some e') db'" "same_rows db1 db'"
proof -
  have A: "system_ok ex_json db" "state_at ex_json db = Some (ex_header p)" "pub_frame ex_db3 db"
    using at by (simp_all add: ex_at_def)
  obtain bs where b: "state_bytes ex_json (ex_header q) = Inr bs" using ex_json_bytes(2) [OF q] by blast
  obtain db' where d: "edit_database ex_json wr db [] = (Inr (x, []), db')" "state_at ex_json db' = Some (ex_header q)"
      "system_ok ex_json db'" "same_rows db1 db'" "pub_frame db db'"
    by (rule edit_runs [where wr = wr, OF A(2) ex_json_ok w b ok y])
  have "entry_of db' 1 ex_sid = Some e'" using en same_gen_entries [OF same_rows_gen [OF d(4)]] by simp
  moreover have "the_table db' EVIDENCE = the_table db1 EVIDENCE" using d(4) unfolding same_rows_def by (metis data_table.simps(3))
  ultimately have "ex_at q (Some e') db'" using ev d pub_frame_trans [OF A(3) d(5)] by (simp add: ex_at_def)
  then show ?thesis using that d by blast
qed

lemma ex_at_ok: "ex_at p e db \<Longrightarrow> db_ok (pub_opened db)"
  by (simp add: ex_at_def system_ok_def good_def root_ok_def control_ok_def)

lemma ex_build_simps [simp]:
  "g_sequence (ex_gen k) = 1" "pd_generation (ex_build k c s cr u f r) = ex_gen k"
  by (simp_all add: ex_gen_def ex_build_def)

lemma ex_save:
  assumes at: "ex_at (ex_build 0 0 False False 0 None 0) None db"
  obtains db' where "persist_captured_inputs ex_json (ex_build 0 0 False False 0 None 0) [ex_captured] db [] = (Inr ((), []), db')"
    "ex_at (ex_build 0 0 False False 0 None 0) (Some (ex_entry 0 False)) db'"
proof -
  let ?p = "ex_build 0 0 False False 0 None 0"
  obtain bs where bs: "encode_entry (ex_entry 0 False) = Inr bs" "decode_source bs = Inr (ex_entry 0 False)"
    using ex_entry_bytes [of 0 False] by auto
  have id: "captured_id ex_captured = ex_sid" using ex_source_at(2) by (simp add: ex_captured_def)
  let ?row = "(gen_key 1 ex_sid, bs)"
  have e: "encode_inputs 1 [ex_captured] [] = Inr ([?row], [])"
    using bs(1) id by (simp add: ex_entry_def)
  let ?db1 = "put_in SOURCES (gen_key 1 ex_sid) bs (ensure SOURCES (pub_opened db))"
  note ok = ex_at_ok [OF at]
  have none: "row_in db SourcesTable 1 ex_sid = None" "the_table db EVIDENCE = []"
    using at by (auto simp: ex_at_def rows_for_def ex_gen_def)
  have w: "save_inputs ?p [?row] (pub_opened db) (ex_header ?p) [] = Inr (((), ex_header ?p, ?db1), [])"
    using none by (simp add: save_inputs_def pending_mut_def ex_header_def)
  have en: "entry_of ?db1 1 ex_sid = Some (ex_entry 0 False)"
    using put_entry_facts(1) [of "ensure SOURCES (pub_opened db)" bs "ex_entry 0 False" 1 ex_sid] ok bs(2)
    by (simp add: put_entry_def)
  have c: "capture_ok ex_corpus ex_db3" using capture_corpus_ok [OF ex_capture_corpus ex_db3_facts(1)] .
  have "inputs_ok (wanted_of ex_db3) [ex_captured] db"
    using capture_inputs [OF capture_moves [OF c corpus_moves_frame]] at by (simp add: ex_at_def ex_corpus_def)
  moreover have "rows_for db 1 = {}" using at by (simp add: ex_at_def)
  ultimately have y: "system_ok ex_json work \<and> pub_frame db work" if "edited ex_json (save_inputs ?p [?row]) db () work" for work
    using save_step [OF that, of "ex_header ?p" ?p "[ex_captured]"] at bs(1) id
    by (simp add: ex_at_def ex_header_def input_row_def ex_gen_def ex_entry_def fresh_entry_def)
  obtain db' where d: "edit_database ex_json (save_inputs ?p [?row]) db [] = (Inr ((), []), db')"
      "ex_at ?p (Some (ex_entry 0 False)) db'"
    by (rule ex_moves [where wr = "save_inputs ?p [?row]", OF at _ _ w en _ y])
      (use ok none(2) in \<open>simp_all add: ex_builds_def the_table_put_in\<close>)
  have "chunks 32 [ex_captured] = [[ex_captured]]" by (simp add: chunks.simps)
  then have "persist_captured_inputs ex_json ?p [ex_captured] db [] = (Inr ((), []), db')"
    using e d(1) by (simp add: persist_captured_inputs_def bindD_def del: encode_inputs.simps)
  then show ?thesis using that d(2) by blast
qed

lemma ex_started:
  obtains db where "start_build ex_json (Some ex_namespace_id) ex_corpus ex_db3 [] =
      (Inr (ex_build 0 0 False False 0 None 0, []), db)" "ex_at (ex_build 0 0 False False 0 None 0) (Some (ex_entry 0 False)) db"
proof -
  let ?p = "ex_build 0 0 False False 0 None 0"
  obtain db1 where r: "edit_database ex_json (reserve_generation ex_corpus ex_namespace_id) ex_db3 [] = (Inr (?p, []), db1)"
      "ex_at ?p None db1" by (rule ex_reserve)
  obtain db2 where p: "persist_captured_inputs ex_json ?p [ex_captured] db1 [] = (Inr ((), []), db2)"
      "ex_at ?p (Some (ex_entry 0 False)) db2" by (rule ex_save [OF r(2)])
  have n: "s_namespace (cc_state ex_corpus) = None" "cc_sources ex_corpus = [ex_captured]"
    by (simp_all add: ex_corpus_def State_default_def)
  have "start_build ex_json (Some ex_namespace_id) ex_corpus ex_db3 [] = (Inr (?p, []), db2)"
    using r(1) p(1) n by (simp add: start_build_def bindD_def)
  then show ?thesis using that p(2) by blast
qed

definition ex_evidence :: PointEvidence where
  "ex_evidence = \<lparr>pe_namespace_id = replicate 16 1, pe_source_id = ex_sid, pe_input = ex_object 8,
     pe_prepared = object_prepared (replicate 32 9) 100, pe_unit = 0, pe_start = 0, pe_end = 8, pe_line_start = 0,
     pe_line_end = 1, pe_starts_at_line = True, pe_ends_at_line = True\<rparr>"

definition ex_page :: UploadPage where
  "ex_page = \<lparr>pg_points = [\<lparr>up_id = be_bytes 1 @ be_bytes 0, up_evidence = ex_evidence\<rparr>], pg_request_bytes = Some 100\<rparr>"

lemma ex_evidence_ok: "wf_evidence ex_evidence" "validate_evidence ex_evidence = Inr ()"
  by (simp_all add: wf_evidence_def validate_evidence_def ex_evidence_def ex_sid_def ex_object_def object_source_def
      object_prepared_def SOURCE_OBJECT_FORMAT_VERSION_def MAX_SOURCE_OBJECT_BYTES_def MAX_TEXT_BYTES_def)

lemma ex_page_ok: "wf_page ex_page" "\<exists>bs. encode_page ex_page [] = Inr (bs, []) \<and> length bs = 196"
proof -
  show "wf_page ex_page" using ex_evidence_ok(1) by (simp add: wf_page_def wf_point_def ex_page_def)
  have "length (put_evidence ex_evidence) = 160" using length_put_evidence [OF ex_evidence_ok(1)] by (simp add: EVIDENCE_BYTES_def)
  then show "\<exists>bs. encode_page ex_page [] = Inr (bs, []) \<and> length bs = 196"
    using ex_evidence_ok(2)
    by (simp add: encode_page_def page_size_def ex_page_def checked_add64_def EVIDENCE_BYTES_def MAX_PAGE_BYTES_def
        MAX_PAGE_POINTS_def try_from_def put_point_def)
qed

lemma ex_entry_row:
  assumes "entry_of db 1 ex_sid = Some (ex_entry n b)"
  shows "\<exists>v. tbl_get (the_table db SOURCES) (gen_key 1 ex_sid) = Some v \<and> decode_source v = Inr (ex_entry n b)"
  using assms by (auto simp: entry_of_def bind_eq_Some_conv res_simps)

lemma ex_put_entry:
  assumes "db_ok db" "decode_source bs = Inr (ex_entry n b)"
  shows "entry_of (put_in SOURCES (gen_key 1 ex_sid) bs db) 1 ex_sid = Some (ex_entry n b)"
  using put_entry_facts(1) [OF assms, of 1 ex_sid] by (simp add: put_entry_def)

lemma ex_stage:
  assumes at: "ex_at (ex_build 0 0 False False 0 None 0) (Some (ex_entry 0 False)) db"
  obtains db' where "stage_page ex_json (ex_build 0 0 False False 0 None 0) ex_page db [] = (Inr ((), []), db')"
    "ex_at (ex_build 1 0 False False 0 None 0) (Some (ex_entry 1 False)) db'"
proof -
  let ?p = "ex_build 0 0 False False 0 None 0" and ?q = "ex_build 1 0 False False 0 None 0"
  obtain page where e: "encode_page ex_page [] = Inr (page, [])" "length page = 196" using ex_page_ok(2) by blast
  obtain v where v: "tbl_get (the_table db SOURCES) (gen_key 1 ex_sid) = Some v" "decode_source v = Inr (ex_entry 0 False)"
    using ex_entry_row at unfolding ex_at_def by blast
  obtain bs where bs: "encode_entry (ex_entry 1 False) = Inr bs" "decode_source bs = Inr (ex_entry 1 False)"
    using ex_entry_bytes [of 1 False] by auto
  have ev: "the_table db EVIDENCE = []" using at by (simp add: ex_at_def ex_gen_def)
  let ?d1 = "put_in SOURCES (gen_key 1 ex_sid) bs (ensure SOURCES (ensure EVIDENCE (pub_opened db)))"
  let ?d2 = "put_in EVIDENCE (gen_key 1 (be_bytes 1 @ be_bytes 0)) (encode_evidence ex_evidence) ?d1"
  let ?d3 = "put_in PAGES (gen_key 1 (be_bytes 0)) page (ensure PAGES ?d2)"
  note ok = ex_at_ok [OF at]
  have g: "encode_source (ex_entry 0 False\<lparr>se_staged_units := 1\<rparr>) [] = Inr (bs, [])" using bs(1) by (simp add: ex_entry_def)
  have c: "ready_artifact ex_captured = Some (pe_prepared ex_evidence)" "pe_source_id ex_evidence = ex_sid"
      "pe_namespace_id ex_evidence = source_namespace_id (ca_source ex_captured)"
      "pe_input ex_evidence = object_ref (ca_source ex_captured)" "pe_unit ex_evidence = 0"
    using ex_matches by (simp_all add: ready_artifact_def ex_captured_def ex_evidence_def bound_outcome_def ex_ready_def ex_rec_def)
  have st: "stage_points (?p\<lparr>pd_staged_bytes := 196\<rparr>) (pg_points ex_page) (ensure SOURCES (ensure EVIDENCE (pub_opened db))) [] =
      Inr ((?p\<lparr>pd_staged_bytes := 196, pd_generation := (ex_gen 0)\<lparr>g_point_count := 1\<rparr>\<rparr>, ?d2), [])"
    using v g c ev
    by (simp add: ex_page_def Let_def checked_add64_def MAX_POINTS_def the_table_put_in tbl_get_def ex_gen_def ex_entry_def)
  have w: "save_page ?p ex_page page (pub_opened db) (ex_header ?p) [] = Inr (((), ex_header ?q, ?d3), [])"
    using st e(2)
    by (simp add: save_page_def pending_mut_def ex_header_def checked_add64_def MAX_STAGED_BYTES_def Let_def set_pending_def
        ex_build_def ex_gen_def)
  have en: "entry_of ?d3 1 ex_sid = Some (ex_entry 1 False)"
    using ex_put_entry [of "ensure SOURCES (ensure EVIDENCE (pub_opened db))" bs 1 False] ok bs(2)
    by (simp add: entry_of_def the_table_put_in)
  obtain db' where d: "edit_database ex_json (save_page ?p ex_page page) db [] = (Inr ((), []), db')"
      "ex_at ?q (Some (ex_entry 1 False)) db'"
    by (rule ex_moves [where wr = "save_page ?p ex_page page", OF at _ _ w en])
      (use ok at safe_edit_system [OF _ save_page_safe [OF e(1) ex_page_ok(1)] save_page_keeps_build [OF e(1) ex_page_ok(1)]]
        in \<open>simp_all add: ex_builds_def ex_gen_def ex_at_def\<close>)
  have "stage_page ex_json ?p ex_page db [] = (Inr ((), []), db')" using e(1) d(1) by (simp add: stage_page_def)
  then show ?thesis using that d(2) by blast
qed

lemma ex_finish:
  assumes at: "ex_at (ex_build 1 0 False False 0 None 0) (Some (ex_entry 1 False)) db"
  obtains db' where "finish_source ex_json (ex_build 1 0 False False 0 None 0) ex_sid 1 db [] = (Inr ((), []), db')"
    "ex_at (ex_build 1 1 False False 0 None 0) (Some (ex_entry 1 True)) db'"
proof -
  let ?p = "ex_build 1 0 False False 0 None 0" and ?q = "ex_build 1 1 False False 0 None 0"
  obtain v where v: "tbl_get (the_table db SOURCES) (gen_key 1 ex_sid) = Some v" "decode_source v = Inr (ex_entry 1 False)"
    using ex_entry_row at unfolding ex_at_def by blast
  obtain bs where bs: "encode_entry (ex_entry 1 True) = Inr bs" "decode_source bs = Inr (ex_entry 1 True)"
    using ex_entry_bytes [of 1 True] by auto
  have g: "encode_source (ex_entry 1 False\<lparr>se_complete := True\<rparr>) [] = Inr (bs, [])" using bs(1) by (simp add: ex_entry_def)
  let ?d = "put_in SOURCES (gen_key 1 ex_sid) bs (ensure SOURCES (pub_opened db))"
  note ok = ex_at_ok [OF at]
  have w: "complete_source ?p ex_sid 1 (pub_opened db) (ex_header ?p) [] = Inr (((), ex_header ?q, ?d), [])"
    using v g
    by (simp add: complete_source_def pending_mut_def ex_header_def checked_add64_def Let_def set_pending_def ex_entry_def ex_build_def)
  have en: "entry_of ?d 1 ex_sid = Some (ex_entry 1 True)"
    using ex_put_entry [of "ensure SOURCES (pub_opened db)" bs 1 True] ok bs(2) by simp
  obtain db' where d: "edit_database ex_json (complete_source ?p ex_sid 1) db [] = (Inr ((), []), db')"
      "ex_at ?q (Some (ex_entry 1 True)) db'"
    by (rule ex_moves [where wr = "complete_source ?p ex_sid 1", OF at _ _ w en])
      (use ok at safe_edit_system [OF _ complete_safe complete_keeps_build] in \<open>simp_all add: ex_builds_def ex_gen_def ex_at_def\<close>)
  then show ?thesis using that by (simp add: finish_source_def)
qed

lemma ex_header_moves:
  assumes at: "ex_at p (Some e) db" and q: "q \<in> set ex_builds" "g_point_count (pd_generation q) \<noteq> 0"
    and w: "wr (pub_opened db) (ex_header p) [] = Inr ((x, ex_header q, pub_opened db), [])"
    and s: "safe_editor ex_json wr" "keeps_build ex_json wr"
  obtains db' where "edit_database ex_json wr db [] = (Inr (x, []), db')" "ex_at q (Some e) db'"
proof -
  have en: "entry_of (pub_opened db) 1 ex_sid = Some e" using at by (simp add: ex_at_def entry_of_def)
  show ?thesis
    by (rule ex_moves [where wr = wr, OF at q(1) ex_at_ok [OF at] w en])
      (use q(2) at safe_edit_system [OF _ s] that in \<open>auto simp: ex_at_def\<close>)
qed

lemma ex_pub_frame: "ex_at p e db \<Longrightarrow> pub_frame ex_db3 db"
  by (simp add: ex_at_def)

lemma ex_seal:
  assumes at: "ex_at (ex_build 1 1 False False 0 None 0) (Some e) db"
  obtains db' where "complete_capture ex_json (ex_build 1 1 False False 0 None 0) db [] = (Inr (ex_build 1 1 True False 0 None 0, []), db')"
    "ex_at (ex_build 1 1 True False 0 None 0) (Some e) db'"
proof -
  let ?p = "ex_build 1 1 False False 0 None 0" and ?q = "ex_build 1 1 True False 0 None 0"
  have w: "seal_capture ?p (pub_opened db) (ex_header ?p) [] = Inr ((?q, ex_header ?q, pub_opened db), [])"
    using ex_wanted [OF ex_pub_frame [OF at]]
    by (simp add: seal_capture_def pending_mut_def ex_header_def Let_def set_pending_def ex_build_def ex_gen_def)
  show ?thesis unfolding complete_capture_def
    by (rule ex_header_moves [where wr = "seal_capture ?p", OF at _ _ w seal_safe header_keeps_build(1)])
      (use that in \<open>auto simp: ex_builds_def ex_gen_def complete_capture_def\<close>)
qed

lemma ex_dispatch:
  assumes at: "ex_at (ex_build 1 1 True cr up None r) (Some e) db"
    and q: "ex_build 1 1 True cr up (Some op) (r + 1) \<in> set ex_builds" "operation_due (ex_build 1 1 True cr up None r) op" "r \<le> 1"
  obtains db' where "record_dispatch ex_json (ex_build 1 1 True cr up None r) op db [] = (Inr (r + 1, []), db')"
    "ex_at (ex_build 1 1 True cr up (Some op) (r + 1)) (Some e) db'"
proof -
  let ?p = "ex_build 1 1 True cr up None r" and ?q = "ex_build 1 1 True cr up (Some op) (r + 1)"
  have w: "note_dispatch ?p op (pub_opened db) (ex_header ?p) [] = Inr ((r + 1, ex_header ?q, pub_opened db), [])"
    using ex_wanted [OF ex_pub_frame [OF at]] q(2,3)
    by (simp add: note_dispatch_def pending_mut_def ex_header_def set_pending_def ex_build_def ex_gen_def checked_add64_def)
  show ?thesis unfolding record_dispatch_def
    by (rule ex_header_moves [where wr = "note_dispatch ?p op", OF at q(1) _ w dispatch_safe header_keeps_build(2)])
      (use that in \<open>auto simp: ex_gen_def record_dispatch_def\<close>)
qed

lemma ex_settle:
  assumes at: "ex_at (ex_build 1 1 True cr 0 (Some op) r) (Some e) db"
    and q: "cr' = (cr \<or> op = Create)" "up = (if op = Create then 0 else 1)" "ex_build 1 1 True cr' up None r \<in> set ex_builds"
  obtains db' where "finish_dispatch ex_json (ex_build 1 1 True cr 0 (Some op) r) op r True db [] = (Inr ((), []), db')"
    "ex_at (ex_build 1 1 True cr' up None r) (Some e) db'"
proof -
  let ?p = "ex_build 1 1 True cr 0 (Some op) r" and ?q = "ex_build 1 1 True cr' up None r"
  have w: "settle_dispatch ?p op r True (pub_opened db) (ex_header ?p) [] = Inr (((), ex_header ?q, pub_opened db), [])"
    using q(1,2)
    by (cases op) (simp_all add: settle_dispatch_def pending_mut_def ex_header_def set_pending_def ex_build_def checked_add64_def)
  show ?thesis unfolding finish_dispatch_def
    by (rule ex_header_moves [where wr = "settle_dispatch ?p op r True", OF at q(3) _ w settle_safe header_keeps_build(3)])
      (use that in \<open>auto simp: ex_gen_def finish_dispatch_def\<close>)
qed

lemma ex_commit_build:
  assumes at: "ex_at (ex_build 1 1 True True 1 None 2) (Some e) db"
  obtains db' where "commit_generation ex_json (ex_build 1 1 True True 1 None 2) db [] [] = (Inr (ex_gen 1, []), db')"
    "state_at ex_json db' = Some ex_published" "pub_frame ex_db3 db'" "system_ok ex_json db'"
proof -
  let ?p = "ex_build 1 1 True True 1 None 2"
  have A: "system_ok ex_json db" "state_at ex_json db = Some (ex_header ?p)" "pub_frame ex_db3 db"
    using at by (simp_all add: ex_at_def)
  have w: "switch_current ex_json ?p (pub_opened db) (ex_header ?p) [] = Inr ((ex_gen 1, ex_published, pub_opened db), [])"
    using ex_wanted [OF A(3)]
    by (simp add: switch_current_def pending_mut_def ex_header_def ex_build_def ex_gen_def checked_add64_def ex_published_def)
  obtain bs where b: "state_bytes ex_json ex_published = Inr bs" using ex_json_bytes(1) by blast
  obtain db' where d: "edit ex_json (switch_current ex_json ?p) db [] = (Inr (ex_gen 1, []), db')"
      "state_at ex_json db' = Some ex_published" "system_ok ex_json db'" "pub_frame db db'"
    by (rule edit_runs [where wr = "switch_current ex_json ?p", OF A(2) ex_json_ok w b ex_at_ok [OF at]
        safe_edit_system [OF _ switch_safe [OF ex_json_ok] header_keeps_build(4) A(1)]])
  then show ?thesis using that pub_frame_trans [OF A(3) d(4)] by (simp add: commit_generation_def)
qed

section \<open>The run\<close>

abbreviation ex_reaches :: "Database \<Rightarrow> bool" where
  "ex_reaches db \<equiv> (system_step ex_json)\<^sup>*\<^sup>* (ex_db, []) (db, [ex_corpus])"

lemma ex_reaches_next: "ex_reaches db \<Longrightarrow> system_step ex_json (db, [ex_corpus]) (db', [ex_corpus]) \<Longrightarrow> ex_reaches db'"
  by (rule rtranclp.rtrancl_into_rtrancl)

lemma ex_reaches_captured: "ex_reaches ex_db3"
proof -
  have "system_step ex_json (ex_db, []) (ex_db1, [])" "system_step ex_json (ex_db1, []) (ex_db2, [])"
      "system_step ex_json (ex_db2, []) (ex_db3, [])"
    using system_step.control ex_step ex_step2 ex_step3 by blast+
  moreover have "system_step ex_json (ex_db3, []) (ex_db3, [ex_corpus])"
    by (rule system_step.capture [OF ex_capture_corpus])
  ultimately show ?thesis by (meson rtranclp.rtrancl_into_rtrancl rtranclp.rtrancl_refl)
qed

lemma ex_reaches_built:
  obtains db where "ex_reaches db" "ex_at (ex_build 1 1 True True 1 None 2) (Some (ex_entry 1 True)) db"
proof -
  obtain d1 where 1: "start_build ex_json (Some ex_namespace_id) ex_corpus ex_db3 [] = (Inr (ex_build 0 0 False False 0 None 0, []), d1)"
      "ex_at (ex_build 0 0 False False 0 None 0) (Some (ex_entry 0 False)) d1" by (rule ex_started)
  have r1: "ex_reaches d1" by (rule ex_reaches_next [OF ex_reaches_captured system_step.start [OF _ 1(1)]]) simp
  obtain d2 where 2: "stage_page ex_json (ex_build 0 0 False False 0 None 0) ex_page d1 [] = (Inr ((), []), d2)"
      "ex_at (ex_build 1 0 False False 0 None 0) (Some (ex_entry 1 False)) d2" by (rule ex_stage [OF 1(2)])
  have r2: "ex_reaches d2" by (rule ex_reaches_next [OF r1 system_step.stage [OF ex_page_ok(1) 2(1)]])
  obtain d3 where 3: "finish_source ex_json (ex_build 1 0 False False 0 None 0) ex_sid 1 d2 [] = (Inr ((), []), d3)"
      "ex_at (ex_build 1 1 False False 0 None 0) (Some (ex_entry 1 True)) d3" by (rule ex_finish [OF 2(2)])
  have r3: "ex_reaches d3" by (rule ex_reaches_next [OF r2 system_step.finish [OF 3(1)]])
  obtain d4 where 4: "complete_capture ex_json (ex_build 1 1 False False 0 None 0) d3 [] = (Inr (ex_build 1 1 True False 0 None 0, []), d4)"
      "ex_at (ex_build 1 1 True False 0 None 0) (Some (ex_entry 1 True)) d4" by (rule ex_seal [OF 3(2)])
  have r4: "ex_reaches d4" by (rule ex_reaches_next [OF r3 system_step.seal [OF 4(1)]])
  obtain d5 where 5: "record_dispatch ex_json (ex_build 1 1 True False 0 None 0) Create d4 [] = (Inr (0 + 1, []), d5)"
      "ex_at (ex_build 1 1 True False 0 (Some Create) (0 + 1)) (Some (ex_entry 1 True)) d5"
    by (rule ex_dispatch [OF 4(2), of Create]) (simp_all add: ex_builds_def, simp add: ex_build_def)
  have r5: "ex_reaches d5" by (rule ex_reaches_next [OF r4 system_step.dispatch [OF 5(1)]])
  obtain d6 where 6: "finish_dispatch ex_json (ex_build 1 1 True False 0 (Some Create) (0 + 1)) Create (0 + 1) True d5 [] = (Inr ((), []), d6)"
      "ex_at (ex_build 1 1 True True 0 None (0 + 1)) (Some (ex_entry 1 True)) d6"
    by (rule ex_settle [OF 5(2), of True 0]) (simp_all add: ex_builds_def)
  have r6: "ex_reaches d6" by (rule ex_reaches_next [OF r5 system_step.settle [OF 6(1)]])
  obtain d7 where 7: "record_dispatch ex_json (ex_build 1 1 True True 0 None (0 + 1)) (Insert 0) d6 [] = (Inr (0 + 1 + 1, []), d7)"
      "ex_at (ex_build 1 1 True True 0 (Some (Insert 0)) (0 + 1 + 1)) (Some (ex_entry 1 True)) d7"
    by (rule ex_dispatch [OF 6(2), of "Insert 0"]) (simp_all add: ex_builds_def, simp_all add: ex_build_def ex_gen_def)
  have r7: "ex_reaches d7" by (rule ex_reaches_next [OF r6 system_step.dispatch [OF 7(1)]])
  obtain d8 where 8: "finish_dispatch ex_json (ex_build 1 1 True True 0 (Some (Insert 0)) (0 + 1 + 1)) (Insert 0) (0 + 1 + 1) True d7 [] =
        (Inr ((), []), d8)"
      "ex_at (ex_build 1 1 True True 1 None (0 + 1 + 1)) (Some (ex_entry 1 True)) d8"
    by (rule ex_settle [OF 7(2), of True 1]) (simp_all add: ex_builds_def numeral_2_eq_2)
  have r8: "ex_reaches d8" by (rule ex_reaches_next [OF r7 system_step.settle [OF 8(1)]])
  show ?thesis using that [OF r8] 8(2) by (simp add: numeral_2_eq_2)
qed

lemma ex_reaches_published:
  obtains db db' where "ex_reaches db"
    "commit_generation ex_json (ex_build 1 1 True True 1 None 2) db [] [] = (Inr (ex_gen 1, []), db')"
    "ex_reaches db'" "state_at ex_json db' = Some ex_published" "wanted_of db' = wanted_of ex_db3"
    "source_at db' = [ex_sid \<mapsto> ex_rec]" "prep_of db' = [ex_sid \<mapsto> ex_row2]"
proof -
  obtain db where r: "ex_reaches db" "ex_at (ex_build 1 1 True True 1 None 2) (Some (ex_entry 1 True)) db" by (rule ex_reaches_built)
  obtain db' where c: "commit_generation ex_json (ex_build 1 1 True True 1 None 2) db [] [] = (Inr (ex_gen 1, []), db')"
      "state_at ex_json db' = Some ex_published" "pub_frame ex_db3 db'" by (rule ex_commit_build [OF r(2)])
  have "ex_reaches db'" by (rule ex_reaches_next [OF r(1) system_step.commit [OF c(1)]])
  then show ?thesis using that [OF r(1) c(1) _ c(2)] pub_frame_corpus [OF c(3)] ex_only_source ex_db3_facts(2) by simp
qed

end
