(* ===== verification/PublicationProperties.thy ===== *)
theory PublicationProperties
  imports PublicationExample
begin

text \<open>
  What a published generation is worth: in every reachable state the current generation can be
  pinned, each of its points resolves to the captured source it was staged for, and while the
  wanted revision has not moved its sources are exactly the current corpus. A commit that
  returns publishes; a refused operation changes nothing.
\<close>

section \<open>Reachable states\<close>

definition fresh_system :: "Database \<Rightarrow> bool" where
  "fresh_system db \<longleftrightarrow> db_ok db \<and> db_multimaps db = [] \<and> fresh_control db \<and> PUB \<inter> set (list_tables db) = {}"

lemma fresh_system_inv:
  assumes "fresh_system db" "json_ok j"
  shows "system_inv j (db, [])"
proof -
  have t: "the_table db n = []" if "n \<in> PUB" for n
    using assms(1) that not_listed [of n db] unfolding fresh_system_def by blast
  have e: "the_table db STATE = []" "the_table db RETIRED = []" "the_table db (data_table d) = []" for d
    using t pub_names data_table_pub by blast+
  have n: "STATE \<notin> set (list_tables db)" using assms(1) pub_names unfolding fresh_system_def by blast
  then have s: "state_at j db = Some State_default" by (simp add: state_at_def e)
  have "pub_state_ok j db State_default"
    by (rule pub_state_okI) (simp_all add: State_default_def e MAX_RETIRED_def)
  then show ?thesis
    using s assms fresh_root_ok
    by (simp add: system_inv_def system_ok_def good_def pub_inv_def builds_faithful_def fresh_system_def State_default_def)
qed

lemma reachable_inv:
  assumes "(system_step j)\<^sup>*\<^sup>* (db0, []) (db, cs)" "fresh_system db0" "json_ok j"
  shows "system_inv j (db, cs)"
  using assms(1) by (induction "(db, cs)" arbitrary: db cs rule: rtranclp_induct)
    (use fresh_system_inv assms system_step_inv in auto)

lemma read_state_at: "state_at j db = Some s \<Longrightarrow> read_state j db [] = Inr (s, [])"
  using get_table_iff [of db STATE]
  by (auto simp: state_at_def read_state_def r_get_def the_table_def res_simps split: option.splits if_splits)

lemma system_state:
  assumes "system_inv j (db, cs)"
  obtains s where "state_at j db = Some s" "pub_state_ok j db s" "read_state j db [] = Inr (s, [])"
    "\<And>g. s_current s = Some g \<Longrightarrow> faithful db g"
  using assms read_state_at by (auto simp: system_inv_def system_ok_def good_def pub_inv_def builds_faithful_def)

lemma current_tables_exist:
  assumes "system_inv j (db, cs)" "state_at j db = Some s" "s_current s = Some g" "n \<in> PUB"
  shows "get_table db n = Some (the_table db n)"
proof (rule get_table_the)
  have "STATE \<in> set (list_tables db)"
    using assms(2,3) not_existed [of db] by (auto simp: state_at_def State_default_def split: option.splits if_splits)
  moreover have "SourceLaws.pub_ok (set (list_tables db))"
    using assms(1)
    by (auto simp: system_inv_def system_ok_def good_def root_ok_def control_ok_def fresh_control_def current_schema_def)
  ultimately show "n \<in> set (list_tables db)" using assms(4) pub_names(1) unfolding SourceLaws.pub_ok_def by blast
qed

lemma pin_interruptible: "interruptible pub_interrupts (pin_published j db)"
  unfolding pin_published_def by (intro interruptible_intros)

lemma pin_current:
  assumes "system_inv j (db, cs)" "state_at j db = Some s"
  shows "pin_published j db [] = (case s_current s of
    None \<Rightarrow> Inl NotPublished | Some g \<Rightarrow> Inr (\<lparr>pv_generation = g, pv_transaction = db\<rparr>, []))"
  using read_state_at [OF assms(2)] current_tables_exist [OF assms]
  by (cases "s_current s") (simp_all add: pin_published_def r_open_def)

lemma pinned:
  assumes "pin_published j db env = Inr (view, env')" "system_inv j (db, cs)"
  obtains s g where "state_at j db = Some s" "s_current s = Some g" "view = \<lparr>pv_generation = g, pv_transaction = db\<rparr>"
    "published_ok db g" "faithful db g" "g_sequence g < u64_bound"
proof -
  obtain s where s: "state_at j db = Some s" "pub_state_ok j db s" "\<And>g. s_current s = Some g \<Longrightarrow> faithful db g"
    using system_state [OF assms(2)] by blast
  have "pin_published j db [] = Inr (view, [])" by (rule interruptible_Inr [OF pin_interruptible assms(1)])
  then obtain g where "s_current s = Some g" "view = \<lparr>pv_generation = g, pv_transaction = db\<rparr>"
    using pin_current [OF assms(2) s(1)] by (cases "s_current s") simp_all
  then show ?thesis using that s pub_state_okD(4) [OF s(2)] current_sequence [OF s(2)] by blast
qed

lemma published_entry:
  assumes "published_ok db g"
  shows "entry_of db (g_sequence g) sid = None \<longleftrightarrow> sid \<notin> rows_for db (g_sequence g)"
proof -
  have "rows_for db (g_sequence g) = done_for db (g_sequence g)" using assms by (simp add: published_ok_def)
  then show ?thesis using entry_row [of db "g_sequence g" sid] unfolding done_for_def by fastforce
qed

lemma saved_source:
  assumes "system_inv j (db, cs)" "state_at j db = Some s" "s_current s = Some g" "published_ok db g"
  shows "view_source j \<lparr>pv_generation = g, pv_transaction = db\<rparr> sid [] =
    (case entry_of db (g_sequence g) sid of None \<Rightarrow> Inl Corrupt | Some e \<Rightarrow> Inr (se_captured e, []))"
proof -
  note t = current_tables_exist [OF assms(1-3) pub_names(2)]
  have row: "entry_of db (g_sequence g) sid = None \<longleftrightarrow> row_in db SourcesTable (g_sequence g) sid = None"
    using published_entry [OF assms(4)] by (simp add: rows_for_def)
  have e: "se_complete e \<and> source_id (ca_source (se_captured e)) = sid" if "entry_of db (g_sequence g) sid = Some e" for e
  proof -
    have "sid \<in> done_for db (g_sequence g)" "entries_ok db (g_sequence g)"
      using assms(4) entry_row [OF that] by (auto simp: published_ok_def data_ok_def Let_def)
    then show ?thesis using that entry_row [OF that] by (auto simp: done_for_def entries_ok_def)
  qed
  show ?thesis
  proof (cases "row_in db SourcesTable (g_sequence g) sid")
    case None
    then show ?thesis using read_state_at [OF assms(2)] t row assms(3)
      by (simp add: view_source_def read_saved_source_def r_open_def r_get_def)
  next
    case (Some v)
    then obtain x where x: "entry_of db (g_sequence g) sid = Some x" "decode_source v = Inr x"
      using row by (auto simp: entry_of_def res_simps)
    then show ?thesis using read_state_at [OF assms(2)] t Some e assms(3)
      by (simp add: view_source_def read_saved_source_def r_open_def r_get_def)
  qed
qed

lemma resolved:
  assumes "system_inv j (db, cs)" "state_at j db = Some s" "s_current s = Some g" "published_ok db g" "faithful db g"
    and i: "i < g_point_count g" "g_sequence g < u64_bound" "g_point_count g \<le> MAX_POINTS"
  shows "\<exists>ev e. entry_of db (g_sequence g) (pe_source_id ev) = Some e \<and> pe_source_id ev = captured_id (se_captured e) \<and>
    resolve_point \<lparr>pv_generation = g, pv_transaction = db\<rparr> (be_bytes (g_sequence g) @ be_bytes i) [] =
      Inr (\<lparr>rp_evidence = ev, rp_captured = se_captured e\<rparr>, [])"
proof -
  let ?n = "g_sequence g"
  note t = current_tables_exist [OF assms(1-3)] pub_names
  have "point_ok db ?n i" using assms(4) i(1) by (simp add: published_ok_def data_ok_def Let_def)
  then obtain ev e where p: "row_in db EvidenceTable ?n (be_bytes ?n @ be_bytes i) = Some (encode_evidence ev)"
      "storable_evidence ev" "entry_of db ?n (pe_source_id ev) = Some e" "binds ev e"
    unfolding point_ok_def by blast
  have dec: "decode_evidence (encode_evidence ev) = Inr ev" using evidences.dec_enc [OF p(2)] by simp
  obtain v where v: "row_in db SourcesTable ?n (pe_source_id ev) = Some v" "decode_source v = Inr e"
    using p(3) by (auto simp: entry_of_def bind_eq_Some_conv res_simps)
  have c: "se_complete e" using assms(4) entry_row [OF p(3)] p(3) by (auto simp: published_ok_def done_for_def)
  have ord: "of_be_bytes (be_bytes i) = i" using i by (simp add: of_be_bytes_def be_bytes_def MAX_POINTS_def of_le_bytes_le_bytes)
  show ?thesis
    using p(1,4) dec v c ord i(1) t p(3)
    by (intro exI [of _ ev] exI [of _ e])
      (simp add: resolve_point_def Let_def r_open_def r_get_def binds_def)
qed

lemma finite_sources: "root_ok db \<Longrightarrow> finite (dom (source_at db))"
proof (cases "fresh_control db")
  case False
  assume "root_ok db"
  then obtain ns where "sources_inv ns db" using False control_inv by (auto simp: root_ok_def)
  then show ?thesis by (simp add: source_at_dom tbl_get_def [abs_def] finite_dom_map_of)
qed (simp add: fresh_source_at)

lemma published_rows:
  assumes "published_ok db g" "holds_corpus db g" "root_ok db"
  shows "rows_for db (g_sequence g) = dom (source_at db)"
proof (rule card_subset_eq [OF finite_sources [OF assms(3)]])
  show "rows_for db (g_sequence g) \<subseteq> dom (source_at db)"
    using assms(1,2) by (force simp: published_ok_def done_for_def holds_corpus_def)
  show "card (rows_for db (g_sequence g)) = card (dom (source_at db))"
    using assms(1,2) unfolding published_ok_def holds_corpus_def by metis
qed

lemma switch_edited:
  assumes "edited j (switch_current j p) db g work" "system_ok j db"
  shows "\<exists>s s'. state_at j db = Some s \<and> state_at j work = Some s' \<and> s_current s' = Some g \<and> s_pending s' = None \<and>
    s_pending s = Some p \<and> g = pd_generation p \<and> g_wanted_revision g = wanted_of work"
proof -
  have k: "json_ok j" "pub_inv j db" "root_ok db" using assms(2) by (simp_all add: system_ok_def good_def)
  obtain s s' db1 where w: "state_at j db = Some s" "pub_state_ok j db s"
      "switch_current j p (pub_opened db) s [] = Inr ((g, s', db1), [])" "state_at j work = Some s'" "pub_frame db work"
    by (rule safe_edited [OF assms(1) switch_safe [OF k(1)] k])
  have "s_current s' = Some g \<and> s_pending s' = None \<and> s_pending s = Some p \<and> g = pd_generation p \<and>
      g_wanted_revision g = wanted_of (pub_opened db)"
    using w(3) by (auto simp: switch_current_def res_simps split: if_splits dest!: pending_mut_Inr check_wanted_Inr)
  then show ?thesis using w(1,4) pub_frame_corpus(8) [OF w(5)] pub_frame_corpus(8) [OF pub_frame_opened] by auto
qed

lemma confirm_Inr:
  assumes "observe (confirm_commit j p) db env = Inr (g, env')"
  shows "\<exists>s. read_state j db [] = Inr (s, []) \<and> s_current s = Some g \<and> g = pd_generation p"
proof -
  have "interruptible pub_interrupts (confirm_commit j p db)" for db
    unfolding confirm_commit_def by (intro interruptible_intros)
  then have "observe (confirm_commit j p) db [] = Inr (g, [])"
    using interruptible_Inr [OF observe_interruptible assms] by blast
  then obtain env where "confirm_commit j p db [] = Inr (g, env)"
    by (auto simp: observe_def observe_database_def res_simps)
  then obtain s env1 where s: "read_state j db [] = Inr (s, env1)" "s_current s = Some g" "g = pd_generation p"
    by (auto simp: confirm_commit_def res_simps split: if_splits)
  then show ?thesis using read_quiet(1) [OF s(1)] by blast
qed

lemma edit_database_refused:
  "edit_database j write db env = (Inl e, db') \<Longrightarrow> atomic_editor write \<Longrightarrow> e \<noteq> Database \<Longrightarrow> db' = db"
  using edit_database_cases [of j "write" db env "Inl e" db'] by auto

lemma edit_refused:
  "edit j write db env = (Inl e, db') \<Longrightarrow> atomic_editor write \<Longrightarrow> e \<noteq> Database \<Longrightarrow> db' = db"
  using edit_cases [of j "write" db env "Inl e" db'] by auto

lemma poll_Inl: "pub_check env = Inl e \<Longrightarrow> e = Cancelled \<or> e = Deadline" "pub_io env = Inl e \<Longrightarrow> e = Database"
  by (cases env; simp add: pub_check_def pub_io_def split: if_splits)+

lemma io_Inl: "io_with d env = Inl e \<Longrightarrow> e = d"
  by (cases env) (auto split: if_splits)

lemma decode_state_Inl: "decode_state j bs = Inl e \<Longrightarrow> e = Corrupt"
  by (auto simp: decode_state_def res_simps split: if_splits)

lemma read_state_Inl: "read_state j db env = Inl e \<Longrightarrow> e = Database \<or> e = Corrupt"
  by (cases "get_table db STATE") (auto simp: read_state_def r_get_def res_simps dest: poll_Inl io_Inl decode_state_Inl)

lemma confirm_Inl:
  assumes "observe (confirm_commit j p) db env = Inl e"
  shows "e \<in> {Database, Corrupt, Cancelled, Deadline}"
proof -
  have "confirm_commit j p db env = Inl e \<Longrightarrow> e = Database \<or> e = Corrupt" for env
    by (auto simp: confirm_commit_def res_simps split: if_splits dest: read_state_Inl)
  then show ?thesis using assms poll_Inl by (auto simp: observe_def observe_database_def res_simps)
qed

section \<open>Properties\<close>

text \<open>
  C5: No point of a published generation is orphaned: in every state that any sequence of
  operations reaches from a fresh root, when the current generation can be pinned, every point
  below its point count resolves, and the source the point resolves to is read back from the
  same view, complete and with the same preparation.
\<close>

theorem published_points_resolve:
  assumes "(system_step j)\<^sup>*\<^sup>* (db0, []) (db, cs)" "fresh_system db0" "json_ok j"
    and "pin_published j db env = Inr (view, env')" "i < g_point_count (pv_generation view)"
  shows "\<exists>r. resolve_point view (be_bytes (g_sequence (pv_generation view)) @ be_bytes i) [] = Inr (r, []) \<and>
    view_source j view (source_id (ca_source (rp_captured r))) [] = Inr (rp_captured r, [])"
proof -
  note inv = reachable_inv [OF assms(1-3)]
  obtain s g where g: "state_at j db = Some s" "s_current s = Some g" "view = \<lparr>pv_generation = g, pv_transaction = db\<rparr>"
      "published_ok db g" "faithful db g" "g_sequence g < u64_bound"
    by (rule pinned [OF assms(4) inv])
  obtain s' where "state_at j db = Some s'" "pub_state_ok j db s'" by (rule system_state [OF inv])
  then have "g_point_count g \<le> MAX_POINTS"
    using pub_state_okD(1) [of j db s] g(1,2) by (auto simp: State_default_def sane_def generation_sane_def)
  then show ?thesis
    using resolved [OF inv g(1,2,4,5)] saved_source [OF inv g(1,2,4)] assms(5) g(3,6) by fastforce
qed

text \<open>
  C4: A published generation is the corpus it was captured from: in every reachable state, as
  long as the wanted revision is still that of the pinned generation, the sources of the
  generation are exactly the registered sources of the root, each with its current preparation.
\<close>

theorem published_is_corpus:
  assumes "(system_step j)\<^sup>*\<^sup>* (db0, []) (db, cs)" "fresh_system db0" "json_ok j"
    and "pin_published j db env = Inr (view, env')" "g_wanted_revision (pv_generation view) = wanted_of db"
  shows "view_source j view sid [] = (case source_at db sid of None \<Rightarrow> Inl Corrupt
    | Some source \<Rightarrow> (case prep_of db sid of None \<Rightarrow> Inl Unprepared
      | Some prep \<Rightarrow> Inr (\<lparr>ca_source = source, ca_preparation = prep\<rparr>, [])))"
proof -
  note inv = reachable_inv [OF assms(1-3)]
  obtain s g where g: "state_at j db = Some s" "s_current s = Some g" "view = \<lparr>pv_generation = g, pv_transaction = db\<rparr>"
      "published_ok db g" "faithful db g" "g_sequence g < u64_bound"
    by (rule pinned [OF assms(4) inv])
  have h: "holds_corpus db g" using g(3,5) assms(5) by (simp add: faithful_def)
  have root: "root_ok db" using inv by (simp add: system_inv_def system_ok_def good_def)
  have rows: "rows_for db (g_sequence g) = dom (source_at db)" by (rule published_rows [OF g(4) h root])
  then have "entry_of db (g_sequence g) sid = None \<longleftrightarrow> source_at db sid = None"
    using published_entry [OF g(4)] by (simp add: domIff)
  then show ?thesis
    using saved_source [OF inv g(1,2,4), of sid] h unfolding g(3) holds_corpus_def
    by (cases "entry_of db (g_sequence g) sid") auto
qed

text \<open>
  C6: A commit that returns has published: the generation it returns is that of the build, is the
  one a reader pins from then on, and, unless the commit had already landed, the wanted revision
  has not moved since the corpus of that build was captured.
\<close>

theorem commit_publishes:
  assumes "(system_step j)\<^sup>*\<^sup>* (db0, []) (db, cs)" "fresh_system db0" "json_ok j"
    and "commit_generation j p db env env2 = (Inr (g, env'), db')"
  shows "pin_published j db' [] = Inr (\<lparr>pv_generation = g, pv_transaction = db'\<rparr>, []) \<and> g = pd_generation p \<and>
    (db' = db \<or> g_wanted_revision g = wanted_of db')"
proof -
  note inv = reachable_inv [OF assms(1-3)]
  then have ok: "system_ok j db" by (simp add: system_inv_def)
  have inv': "system_inv j (db', cs)" using system_step_inv [OF system_step.commit [OF assms(4)] inv] .
  obtain r where r: "edit j (switch_current j p) db env = (r, db')" using commit_path [OF assms(4)] by blast
  obtain s' where s': "state_at j db' = Some s'" "read_state j db' [] = Inr (s', [])" by (rule system_state [OF inv'])
  note E = edit_cases [OF r editors_atomic(8)] switch_edited [OF _ ok]
  have "s_current s' = Some g \<and> g = pd_generation p"
  proof (cases r)
    case (Inl e)
    then have "observe (confirm_commit j p) db' env2 = Inr (g, env')"
      using assms(4) r by (auto simp: commit_generation_def split: if_splits)
    then show ?thesis using confirm_Inr s'(2) by fastforce
  next
    case (Inr q)
    then have "edited j (switch_current j p) db g db'" using assms(4) r E(1) by (auto simp: commit_generation_def)
    then show ?thesis using E(2) s'(1) by fastforce
  qed
  moreover have "db' = db \<or> g_wanted_revision (pd_generation p) = wanted_of db'" using E by blast
  ultimately show ?thesis using pin_current [OF inv' s'(1)] by simp
qed

section \<open>The properties at the concrete run\<close>

lemma ex_fresh_system: "fresh_system ex_db"
  using ex_db_fresh by (auto simp: fresh_system_def ex_db_def list_tables_def table_name_defs)

lemma ex_pin:
  assumes "ex_reaches db" "state_at ex_json db = Some ex_published"
  shows "pin_published ex_json db [] = Inr (\<lparr>pv_generation = ex_gen 1, pv_transaction = db\<rparr>, [])"
  using pin_current [OF reachable_inv [OF assms(1) ex_fresh_system ex_json_ok] assms(2)] by (simp add: ex_published_def)

theorem published_points_resolve_witness:
  "\<exists>db view r. ex_reaches db \<and> pin_published ex_json db [] = Inr (view, []) \<and> g_point_count (pv_generation view) = 1 \<and>
     resolve_point view (be_bytes 1 @ be_bytes 0) [] = Inr (r, [])"
proof -
  obtain db where r: "ex_reaches db" "state_at ex_json db = Some ex_published" by (rule ex_reaches_published) blast
  show ?thesis
    using published_points_resolve [OF r(1) ex_fresh_system ex_json_ok ex_pin [OF r], of 0] ex_pin [OF r] r(1)
    by (auto simp: ex_gen_def)
qed

theorem published_is_corpus_witness:
  "\<exists>db view. ex_reaches db \<and> pin_published ex_json db [] = Inr (view, []) \<and>
     view_source ex_json view ex_sid [] = Inr (ex_captured, [])"
proof -
  obtain db where r: "ex_reaches db" "state_at ex_json db = Some ex_published" "wanted_of db = wanted_of ex_db3"
      "source_at db = [ex_sid \<mapsto> ex_rec]" "prep_of db = [ex_sid \<mapsto> ex_row2]" by (rule ex_reaches_published) blast
  show ?thesis
    using published_is_corpus [OF r(1) ex_fresh_system ex_json_ok ex_pin [OF r(1,2)], of ex_sid] ex_pin [OF r(1,2)] r
    by (auto simp: ex_gen_def ex_captured_def)
qed

theorem commit_publishes_witness:
  "\<exists>db db'. ex_reaches db \<and>
     commit_generation ex_json (ex_build 1 1 True True 1 None 2) db [] [] = (Inr (ex_gen 1, []), db') \<and>
     pin_published ex_json db' [] = Inr (\<lparr>pv_generation = ex_gen 1, pv_transaction = db'\<rparr>, [])"
proof -
  obtain db db' where r: "ex_reaches db"
      "commit_generation ex_json (ex_build 1 1 True True 1 None 2) db [] [] = (Inr (ex_gen 1, []), db')"
    by (rule ex_reaches_published) blast
  show ?thesis using commit_publishes [OF r(1) ex_fresh_system ex_json_ok r(2)] r by blast
qed

end
