(* ===== verification/ExactSearch.thy ===== *)
theory ExactSearch
  imports PublishedReads Artifact Literal ObjectStore WindowProtocol
begin

text \<open>
  The exact searches of the daemon (\<open>bins/eliot-searchd/src\<close>): selection of sources and
  citations (\<open>exact_literal.rs\<close>), the search of raw bytes (\<open>raw_exact.rs\<close>) and of the prepared
  UTF-8 representation (\<open>decoded_exact.rs\<close>). Both searches scan the selected sources of one pinned
  view in order and tally matches, gaps and the first items; the locale \<open>exact_scan\<close> states what
  a scan of one source promises and gives the closed form of the whole loop once. The files are
  read-only here; \<open>None\<close> is a scan that does not end or panics.
\<close>

section \<open>Model: failures\<close>

fun publication_failure :: "PublicationError \<Rightarrow> QueryFailure" where
  "publication_failure PublicationError.Cancelled = QueryFailure.Cancelled"
| "publication_failure PublicationError.Deadline = QueryFailure.Deadline"
| "publication_failure other = Code (publication_code other)"

fun object_failure :: "ObjectStoreError \<Rightarrow> QueryFailure" where
  "object_failure ObjectCancelled = QueryFailure.Cancelled"
| "object_failure ObjectDeadline = QueryFailure.Deadline"
| "object_failure other = Code (object_code other)"

fun prepared_failure :: "PreparationError \<Rightarrow> QueryFailure" where
  "prepared_failure PreparationError.Cancelled = QueryFailure.Cancelled"
| "prepared_failure PreparationError.Deadline = QueryFailure.Deadline"
| "prepared_failure other = Code (prep_code other)"

definition protocol_failure :: "ProtocolError \<Rightarrow> QueryFailure" where
  "protocol_failure e = Code (protocol_code e)"

definition range_invalid :: QueryFailure where
  "range_invalid = Code ''EVIDENCE_RANGE_INVALID''"

definition input_limit :: QueryFailure where
  "input_limit = Code ''EXACT_INPUT_LIMIT''"

text \<open>Sequencing of computations that may not return.\<close>

definition bindO :: "('e + 'a) option \<Rightarrow> ('a \<Rightarrow> ('e + 'b) option) \<Rightarrow> ('e + 'b) option" where
  "bindO m f = (case m of None \<Rightarrow> None | Some (Inl e) \<Rightarrow> Some (Inl e) | Some (Inr x) \<Rightarrow> f x)"

lemma bindO_Inr: "bindO m f = Some (Inr y) \<longleftrightarrow> (\<exists>x. m = Some (Inr x) \<and> f x = Some (Inr y))"
  by (auto simp: bindO_def split: option.splits sum.splits)

fun for_each ::
  "('s \<Rightarrow> 'r \<Rightarrow> env \<Rightarrow> ('e + 'r \<times> env) option) \<Rightarrow> 's list \<Rightarrow> 'r \<Rightarrow> env \<Rightarrow> ('e + 'r \<times> env) option" where
  "for_each body [] result env = Some (Inr (result, env))"
| "for_each body (entry # entries) result env =
     bindO (body entry result env) (\<lambda>(result, env). for_each body entries result env)"

section \<open>Model: citations and selection\<close>

fun object_kind_dto :: "ObjectKind \<Rightarrow> ObjectKindDto" where
  "object_kind_dto Source = SourceDto"
| "object_kind_dto Prepared = PreparedDto"

definition object_dto :: "ObjectRef \<Rightarrow> env \<Rightarrow> QueryFailure + ObjectRefDto \<times> env" where
  "object_dto r env =
     bindE (hex (digest r) env) (\<lambda>(text, env).
     Inr (\<lparr>od_version = format_version r, od_kind = object_kind_dto (obj_kind r), od_digest = text,
       od_bytes = byte_length r\<rparr>, env))"

definition source_ref :: "CurrentSourceRecord \<Rightarrow> env \<Rightarrow> QueryFailure + RawSourceRef \<times> env" where
  "source_ref source env =
     bindE (object_dto (object_ref source) env) (\<lambda>(input, env).
     Inr (\<lparr>rs_namespace_id = uuid_to_string (source_namespace_id source),
       rs_source_id = uuid_to_string (source_id source), rs_row_revision = row_revision source,
       rs_registration_revision = registration_revision source, rs_input = input\<rparr>, env))"

text \<open>
  The identities of an inventory are strictly ascending (\<open>source_inventory_Inr\<close> in \<open>PublishedInventory\<close>),
  so the binary search finds an identity exactly when the inventory has it.
\<close>

fun parse_selection ::
  "CapturedSource list \<Rightarrow> bytes list \<Rightarrow> string list \<Rightarrow> env \<Rightarrow> QueryFailure + bytes list \<times> env" where
  "parse_selection inventory selected [] env = Inr (selected, env)"
| "parse_selection inventory selected (i # ids) env =
     bindE (q_check env) (\<lambda>env.
     bindE (mapErr (\<lambda>_. Code ''EXACT_SELECTION_INVALID'') (uuid_parse i)) (\<lambda>i.
     if i \<notin> set (map (source_id \<circ> ca_source) inventory) then Inl (Code ''EXACT_SOURCE_NOT_PUBLISHED'')
     else parse_selection inventory (selected @ [i]) ids env))"

definition select_sources ::
  "CapturedSource list \<Rightarrow> string list option \<Rightarrow> env \<Rightarrow> QueryFailure + CapturedSource list \<times> env" where
  "select_sources inventory ids env =
     bindE (case ids of
         None \<Rightarrow> Inr (inventory, env)
       | Some ids \<Rightarrow>
           bindE (q_reserve env) (\<lambda>env.
           bindE (parse_selection inventory [] ids env) (\<lambda>(selected, env).
           Inr (filter (\<lambda>entry. source_id (ca_source entry) \<in> set selected) inventory, env)))) (\<lambda>(inventory, env).
     bindE (q_check env) (\<lambda>env. Inr (inventory, env)))"

section \<open>Model: reading an object\<close>

text \<open>
  The match on \<open>read_object\<close> that both searches make: the bytes, \<open>None\<close> for a missing object, or
  the failure.
\<close>

definition object_bytes ::
  "(bytes \<Rightarrow> bytes) \<Rightarrow> files \<Rightarrow> path \<Rightarrow> ObjectRef \<Rightarrow> nat \<Rightarrow> env \<Rightarrow> QueryFailure + bytes option \<times> env" where
  "object_bytes blake3 fs root r maximum env =
     (case read_object blake3 root r maximum (fs, env) of
        (Inr bs, w) \<Rightarrow> Inr (Some bs, snd w)
      | (Inl Missing, w) \<Rightarrow> Inr (None, snd w)
      | (Inl e, w) \<Rightarrow> Inl (object_failure e))"

section \<open>Model: the raw search\<close>

definition raw_found ::
  "RawSourceRef \<Rightarrow> bytes \<Rightarrow> nat \<Rightarrow> RawExactResult found" where
  "raw_found binding bs limit start end' result env =
     bindE (ok_or input_limit (checked_add64 (rx_matches result) 1)) (\<lambda>n.
     let result = result\<lparr>rx_matches := n\<rparr> in
     if length (rx_items result) < limit then
       bindE (ok_or range_invalid (get_range bs start end')) (\<lambda>matched.
       bindE (ok_or range_invalid (try_from u64_bound start)) (\<lambda>start.
       bindE (ok_or range_invalid (try_from u64_bound end')) (\<lambda>end'.
       bindE (hex matched env) (\<lambda>(text, env).
       Inr (result\<lparr>rx_items := rx_items result @
         [RMatch \<lparr>rm_source = binding, rm_start = start, rm_end = end', rm_bytes_hex = text\<rparr>]\<rparr>, env)))))
     else Inr (result, env))"

definition raw_scan_source ::
  "(bytes \<Rightarrow> bytes) \<Rightarrow> files \<Rightarrow> path \<Rightarrow> Literal \<Rightarrow> nat \<Rightarrow> CurrentSourceRecord \<Rightarrow> RawExactResult \<Rightarrow> env \<Rightarrow>
   (QueryFailure + RawExactResult \<times> env) option" where
  "raw_scan_source blake3 fs root lit limit source result env =
     bindO (Some (bindE (q_check env) (\<lambda>env.
       bindE (source_ref source env) (\<lambda>(binding, env).
       bindE (object_bytes blake3 fs root (object_ref source) MAX_SOURCE_OBJECT_BYTES env) (\<lambda>(bs, env).
       Inr ((binding, bs), env)))))) (\<lambda>((binding, bs), env).
     case bs of
       None \<Rightarrow>
         let result = result\<lparr>rx_missing_sources := rx_missing_sources result + 1\<rparr> in
         Some (if length (rx_items result) < limit then
             bindE (mapErr protocol_failure (failure_code_new ''SOURCE_OBJECT_MISSING'')) (\<lambda>code.
             Inr (result\<lparr>rx_items := rx_items result @ [RGap \<lparr>rg_source = binding, rg_code = code\<rparr>]\<rparr>, env))
           else Inr (result, env))
     | Some bs \<Rightarrow>
         bindO (literal_scan lit bs (raw_found binding bs limit) result env) (\<lambda>(result, env).
         let result = result\<lparr>rx_scanned_sources := rx_scanned_sources result + 1\<rparr> in
         Some (bindE (ok_or input_limit (checked_add64 (rx_scanned_bytes result) (byte_length (object_ref source)))) (\<lambda>n.
           Inr (result\<lparr>rx_scanned_bytes := n\<rparr>, env)))))"

definition raw_finish :: "RawExactRequest \<Rightarrow> RawExactResult \<Rightarrow> env \<Rightarrow> QueryFailure + RawExactResult \<times> env" where
  "raw_finish request result env =
     bindE (q_check env) (\<lambda>env.
     let result = result\<lparr>rx_scan_complete := rx_missing_sources result = 0\<rparr>;
         result = result\<lparr>rx_complete_negative := rx_scan_complete result \<and> rx_matches result = 0\<rparr> in
     bindE (ok_or input_limit (checked_add64 (rx_matches result) (rx_missing_sources result))) (\<lambda>total.
     let result = (if try_from u64_bound (length (rx_items result)) \<noteq> Some total
           then result\<lparr>rx_stop := OutputLimit\<rparr> else result) in
     bindE (mapErr protocol_failure (raw_result_validate_request result request)) (\<lambda>_.
     Inr (result, env))))"

definition raw_execute ::
  "(bytes \<Rightarrow> bytes) \<Rightarrow> files \<Rightarrow> path \<Rightarrow> PublishedView \<Rightarrow> RawExactRequest \<Rightarrow> env \<Rightarrow>
   (QueryFailure + RawExactResult \<times> env) option" where
  "raw_execute blake3 fs root view request env =
     bindO (Some (bindE (q_check env) (\<lambda>env.
       bindE (mapErr protocol_failure (raw_request_validate request)) (\<lambda>_. Inr env)))) (\<lambda>env.
     bindO (literal_new (rr_literal request) env) (\<lambda>(lit, env).
     bindO (Some (bindE (mapErr publication_failure (source_inventory view env)) (\<lambda>(inventory, env).
       bindE (select_sources inventory (rr_source_ids request) env) (\<lambda>(inventory, env).
       bindE (ok_or input_limit (try_from u64_bound (length inventory))) (\<lambda>selected.
       bindE (q_reserve env) (\<lambda>env.
       Inr ((inventory, \<lparr>rx_generation = g_sequence (pv_generation view), rx_selected_sources = selected,
         rx_scanned_sources = 0, rx_missing_sources = 0, rx_scanned_bytes = 0, rx_matches = 0,
         rx_items = [], rx_scan_complete = False, rx_complete_negative = False,
         rx_stop = Complete\<rparr>), env))))))) (\<lambda>((inventory, result), env).
     bindO (for_each (\<lambda>entry. raw_scan_source blake3 fs root lit (rr_limit request) (ca_source entry))
         inventory result env) (\<lambda>(result, env).
     Some (raw_finish request result env)))))"

section \<open>Model: the decoded search\<close>

record RepresentationGap =
  gp_prepared :: "ObjectRef option"
  gp_code :: string

definition search_limits :: PreparationLimits where
  "search_limits = \<lparr>pl_max_input_bytes = 8 * 1024 * 1024, pl_max_output_bytes = 8 * 1024 * 1024,
     pl_max_lines = 1000000, pl_max_units = 1000000, pl_max_encoded_bytes = 64 * 1024 * 1024\<rparr>"

text \<open>
  The representation that \<open>visit_representation\<close> hands to its callback: \<open>Inl\<close> of a gap, or the
  artifact and its accepted text. The visit then runs the callback on the caller's state.
\<close>

definition representation ::
  "(bytes \<Rightarrow> bytes) \<Rightarrow> files \<Rightarrow> path \<Rightarrow> CapturedSource \<Rightarrow> env \<Rightarrow>
   QueryFailure + (RepresentationGap + ObjectRef \<times> PreparedUtf8) \<times> env" where
  "representation blake3 fs root captured env =
     bindE (q_check env) (\<lambda>env.
     bindE (ok_or (Code ''EVIDENCE_BINDING_INVALID'') (cp_outcome (ca_preparation captured))) (\<lambda>out.
     case bo_result out of
       Gap _ \<Rightarrow> Inr (Inl \<lparr>gp_prepared = None, gp_code = ''PREPARATION_GAP''\<rparr>, env)
     | Ready art \<Rightarrow>
         bindE (object_bytes blake3 fs root (object_ref (ca_source captured)) MAX_SOURCE_OBJECT_BYTES env) (\<lambda>(source, env).
         case source of
           None \<Rightarrow> Inr (Inl \<lparr>gp_prepared = Some art, gp_code = ''SOURCE_OBJECT_MISSING''\<rparr>, env)
         | Some source \<Rightarrow>
             bindE (object_bytes blake3 fs root art (64 * 1024 * 1024) env) (\<lambda>(bs, env).
             case bs of
               None \<Rightarrow> Inr (Inl \<lparr>gp_prepared = Some art, gp_code = ''PREPARED_OBJECT_MISSING''\<rparr>, env)
             | Some bs \<Rightarrow>
                 bindE (mapErr prepared_failure (decode_prepared_utf8 blake3 bs (ca_source captured)
                   (cp_settings (ca_preparation captured)) search_limits env)) (\<lambda>(view, env).
                 if pu_text view \<noteq> source then Inl (Code ''EVIDENCE_TEXT_MISMATCH'')
                 else bindE (q_check env) (\<lambda>env. Inr (Inr (art, view), env)))))))"

definition visit_representation ::
  "(bytes \<Rightarrow> bytes) \<Rightarrow> files \<Rightarrow> path \<Rightarrow> CapturedSource \<Rightarrow>
   (ObjectRef \<Rightarrow> PreparedUtf8 \<Rightarrow> 's \<Rightarrow> env \<Rightarrow> (QueryFailure + 's \<times> env) option) \<Rightarrow> 's \<Rightarrow> env \<Rightarrow>
   (QueryFailure + (RepresentationGap option \<times> 's) \<times> env) option" where
  "visit_representation blake3 fs root captured visit st env =
     bindO (Some (representation blake3 fs root captured env)) (\<lambda>(r, env).
     case r of
       Inl gap \<Rightarrow> Some (Inr ((Some gap, st), env))
     | Inr (art, view) \<Rightarrow>
         bindO (visit art view st env) (\<lambda>(st, env). Some (Inr ((None, st), env))))"

definition decoded_found ::
  "RawSourceRef \<Rightarrow> ObjectRefDto \<Rightarrow> bytes \<Rightarrow> nat \<Rightarrow> DecodedUtf8Result found" where
  "decoded_found binding prepared txt limit start end' result env =
     bindE (ok_or input_limit (checked_add64 (dx_matches result) 1)) (\<lambda>n.
     let result = result\<lparr>dx_matches := n\<rparr> in
     if length (dx_items result) < limit then
       bindE (ok_or range_invalid (str_get txt start end')) (\<lambda>matched.
       bindE (q_reserve env) (\<lambda>env.
       bindE (ok_or range_invalid (try_from u64_bound start)) (\<lambda>start.
       bindE (ok_or range_invalid (try_from u64_bound end')) (\<lambda>end'.
       Inr (result\<lparr>dx_items := dx_items result @
         [DMatch \<lparr>dm_source = binding, dm_prepared = prepared, dm_representation_start = start,
            dm_representation_end = end', dm_source_start = start, dm_source_end = end',
            dm_text = matched\<rparr>]\<rparr>, env)))))
     else Inr (result, env))"

definition decoded_visit ::
  "Literal \<Rightarrow> nat \<Rightarrow> RawSourceRef \<Rightarrow> nat \<Rightarrow> ObjectRef \<Rightarrow> PreparedUtf8 \<Rightarrow> DecodedUtf8Result \<Rightarrow> env \<Rightarrow>
   (QueryFailure + DecodedUtf8Result \<times> env) option" where
  "decoded_visit lit limit binding bytes_read art view result env =
     bindO (Some (object_dto art env)) (\<lambda>(prepared, env).
     bindO (literal_scan lit (pu_text view) (decoded_found binding prepared (pu_text view) limit) result env) (\<lambda>(result, env).
     let result = result\<lparr>dx_scanned_sources := dx_scanned_sources result + 1\<rparr> in
     Some (bindE (ok_or input_limit (checked_add64 (dx_scanned_bytes result) bytes_read)) (\<lambda>n.
       Inr (result\<lparr>dx_scanned_bytes := n\<rparr>, env)))))"

definition decoded_scan_source ::
  "(bytes \<Rightarrow> bytes) \<Rightarrow> files \<Rightarrow> path \<Rightarrow> Literal \<Rightarrow> nat \<Rightarrow> CapturedSource \<Rightarrow> DecodedUtf8Result \<Rightarrow> env \<Rightarrow>
   (QueryFailure + DecodedUtf8Result \<times> env) option" where
  "decoded_scan_source blake3 fs root lit limit captured result env =
     bindO (Some (source_ref (ca_source captured) env)) (\<lambda>(binding, env).
     bindO (visit_representation blake3 fs root captured
         (decoded_visit lit limit binding (byte_length (object_ref (ca_source captured)))) result env) (\<lambda>((gap, result), env).
     Some (case gap of
         None \<Rightarrow> Inr (result, env)
       | Some gap \<Rightarrow>
           let result = result\<lparr>dx_gap_sources := dx_gap_sources result + 1\<rparr> in
           if length (dx_items result) < limit then
             bindE (case gp_prepared gap of
                 None \<Rightarrow> Inr (None, env)
               | Some r \<Rightarrow> bindE (object_dto r env) (\<lambda>(dto, env). Inr (Some dto, env))) (\<lambda>(prepared, env).
             bindE (mapErr protocol_failure (failure_code_new (gp_code gap))) (\<lambda>code.
             Inr (result\<lparr>dx_items := dx_items result @
               [DGap \<lparr>dg_source = binding, dg_prepared = prepared, dg_code = code\<rparr>]\<rparr>, env)))
           else Inr (result, env))))"

definition decoded_finish ::
  "DecodedUtf8Request \<Rightarrow> DecodedUtf8Result \<Rightarrow> env \<Rightarrow> QueryFailure + DecodedUtf8Result \<times> env" where
  "decoded_finish request result env =
     bindE (q_check env) (\<lambda>env.
     let result = result\<lparr>dx_scan_complete := dx_gap_sources result = 0\<rparr>;
         result = result\<lparr>dx_complete_negative := dx_scan_complete result \<and> dx_matches result = 0\<rparr> in
     bindE (ok_or input_limit (checked_add64 (dx_matches result) (dx_gap_sources result))) (\<lambda>total.
     let result = (if try_from u64_bound (length (dx_items result)) \<noteq> Some total
           then result\<lparr>dx_stop := OutputLimit\<rparr> else result) in
     bindE (mapErr protocol_failure (decoded_result_validate_request result request)) (\<lambda>_.
     Inr (result, env))))"

definition decoded_execute ::
  "(bytes \<Rightarrow> bytes) \<Rightarrow> files \<Rightarrow> path \<Rightarrow> PublishedView \<Rightarrow> DecodedUtf8Request \<Rightarrow> env \<Rightarrow>
   (QueryFailure + DecodedUtf8Result \<times> env) option" where
  "decoded_execute blake3 fs root view request env =
     bindO (Some (bindE (q_check env) (\<lambda>env.
       bindE (mapErr protocol_failure (decoded_request_validate request)) (\<lambda>_. Inr env)))) (\<lambda>env.
     bindO (literal_new (dr_literal request) env) (\<lambda>(lit, env).
     bindO (Some (bindE (mapErr publication_failure (source_inventory view env)) (\<lambda>(inventory, env).
       bindE (select_sources inventory (dr_source_ids request) env) (\<lambda>(inventory, env).
       bindE (ok_or input_limit (try_from u64_bound (length inventory))) (\<lambda>selected.
       bindE (q_reserve env) (\<lambda>env.
       Inr ((inventory, \<lparr>dx_generation = g_sequence (pv_generation view), dx_selected_sources = selected,
         dx_scanned_sources = 0, dx_gap_sources = 0, dx_scanned_bytes = 0, dx_matches = 0,
         dx_items = [], dx_scan_complete = False, dx_complete_negative = False,
         dx_stop = Complete\<rparr>), env))))))) (\<lambda>((inventory, result), env).
     bindO (for_each (decoded_scan_source blake3 fs root lit (dr_limit request)) inventory result env) (\<lambda>(result, env).
     Some (decoded_finish request result env)))))"

end
