(* ===== verification/ExactSearchLaws.thy ===== *)
theory ExactSearchLaws
  imports ExactSearch Retirement
begin

text \<open>
  Laws of the exact searches: an interruption never changes what a scan finds, a scan always
  ends, and the tally of the whole loop in closed form (locale \<open>exact_scan\<close>, interpreted for the
  raw and for the decoded scan of one source). The claims say that a returned result is exactly
  the first items of the naive search over the selected sources, with exact counts.
\<close>

section \<open>Interruption\<close>

abbreviation search_interrupts :: "QueryFailure set" where
  "search_interrupts \<equiv> publication_failure ` pub_interrupts \<union> object_failure ` object_interrupts
     \<union> prepared_failure ` prep_interrupts \<union> q_interrupts"

definition scans :: "(env \<Rightarrow> (QueryFailure + 'a \<times> env) option) \<Rightarrow> bool" where
  "scans f \<longleftrightarrow> (\<exists>g. f = (\<lambda>env. Some (g env)) \<and> interruptible search_interrupts g)"

named_theorems scan_intros \<open>scans that end whatever the environment\<close>

lemma scans_Some [scan_intros]: "interruptible search_interrupts g \<Longrightarrow> scans (\<lambda>env. Some (g env))"
  by (auto simp: scans_def)

lemma bindO_Some [simp]: "bindO (Some r) f = (case r of Inl e \<Rightarrow> Some (Inl e) | Inr x \<Rightarrow> f x)"
  by (simp add: bindO_def)

lemma scans_bind [scan_intros]:
  assumes "scans f" "\<And>x. scans (k x)"
  shows "scans (\<lambda>env. bindO (f env) (\<lambda>(x, env). k x env))"
proof -
  obtain g where g: "f = (\<lambda>env. Some (g env))" "interruptible search_interrupts g" using assms(1) by (auto simp: scans_def)
  have "\<forall>x. \<exists>h. k x = (\<lambda>env. Some (h env)) \<and> interruptible search_interrupts h" using assms(2) by (simp add: scans_def)
  then obtain h where h: "\<And>x. k x = (\<lambda>env. Some (h x env))" "\<And>x. interruptible search_interrupts (h x)" by metis
  have "(\<lambda>env. bindO (f env) (\<lambda>(x, env). k x env)) = (\<lambda>env. Some (bindE (g env) (\<lambda>(x, env). h x env)))"
    by (rule ext) (simp add: g(1) h(1) bindE_def split: sum.split prod.split)
  then show ?thesis using g(2) h(2) by (simp add: scans_def) (intro exI conjI, rule refl, intro interruptible_intros)
qed

lemma scans_poll [scan_intros]:
  assumes "polls search_interrupts p" "scans k"
  shows "scans (\<lambda>env. bindO (Some (p env)) k)"
proof -
  obtain g where g: "k = (\<lambda>env. Some (g env))" "interruptible search_interrupts g" using assms(2) by (auto simp: scans_def)
  have "(\<lambda>env. bindO (Some (p env)) k) = (\<lambda>env. Some (bindE (p env) g))"
    by (rule ext) (simp add: g(1) bindE_def split: sum.split)
  then show ?thesis using g(2) assms(1) by (simp add: scans_def) (intro exI conjI, rule refl, intro interruptible_intros)
qed

lemma scans_option [scan_intros]:
  "(x = None \<Longrightarrow> scans f) \<Longrightarrow> (\<And>y. x = Some y \<Longrightarrow> scans (k y)) \<Longrightarrow>
   scans (\<lambda>env. case x of None \<Rightarrow> f env | Some y \<Rightarrow> k y env)"
  by (cases x) simp_all

lemma scans_sum [scan_intros]:
  "(\<And>a. x = Inl a \<Longrightarrow> scans (f a)) \<Longrightarrow> (\<And>b. x = Inr b \<Longrightarrow> scans (k b)) \<Longrightarrow>
   scans (\<lambda>env. case x of Inl a \<Rightarrow> f a env | Inr b \<Rightarrow> k b env)"
  by (cases x) simp_all

lemma scans_prod [scan_intros]:
  "(\<And>a b. p = (a, b) \<Longrightarrow> scans (k a b)) \<Longrightarrow> scans (\<lambda>env. case p of (a, b) \<Rightarrow> k a b env)"
  by (cases p) simp

lemma scans_prod_fun [scan_intros]:
  "(\<And>a b. p = (a, b) \<Longrightarrow> scans (k a b)) \<Longrightarrow> scans (case p of (a, b) \<Rightarrow> k a b)"
  by (cases p) simp

lemma scans_returns: "scans f \<Longrightarrow> \<exists>r. f env = Some r"
  by (auto simp: scans_def)

lemma scansE:
  assumes "scans f"
  obtains g where "\<And>env. f env = Some (g env)" "interruptible search_interrupts g"
  using assms unfolding scans_def by blast

lemma scans_Inr:
  assumes "scans f" "f env = Some (Inr (x, env'))"
  shows "f [] = Some (Inr (x, []))"
proof -
  obtain g where g: "\<And>env. f env = Some (g env)" "interruptible search_interrupts g" by (rule scansE [OF assms(1)]) blast
  then show ?thesis using interruptible_Inr [OF g(2), of env x env'] assms(2) by simp
qed

lemma scans_Inl:
  assumes "scans f" "f env = Some (Inl e)"
  shows "e \<in> search_interrupts \<or> f [] = Some (Inl e)"
proof -
  obtain g where g: "\<And>env. f env = Some (g env)" "interruptible search_interrupts g" by (rule scansE [OF assms(1)]) blast
  have "g env = Inl e" using assms(2) g(1) by simp
  from interruptible_Inl [OF g(2) this] show ?thesis unfolding g(1) by blast
qed

lemma scans_quiet: "scans f \<Longrightarrow> f [] = Some (Inr (x, env)) \<Longrightarrow> env = []"
  using scans_Inr [of f "[]" x env] by simp

lemma scans_for_each [scan_intros]:
  assumes "\<And>s r. scans (body s r)"
  shows "scans (for_each body xs r)"
proof (induction xs arbitrary: r)
  case Nil
  have eq: "for_each body [] r = (\<lambda>env. Some (Inr (r, env)))" by (rule ext) simp
  show ?case unfolding eq by (intro scan_intros interruptible_intros)
next
  case (Cons x xs)
  have eq: "for_each body (x # xs) r = (\<lambda>env. bindO (body x r env) (\<lambda>(r, env). for_each body xs r env))" by (rule ext) simp
  show ?case unfolding eq by (intro scan_intros assms Cons.IH)
qed

lemma interruptible_mono:
  assumes "interruptible I f" "I \<subseteq> J"
  shows "interruptible J f"
  unfolding interruptible_def
proof
  fix env
  show "refines_quiet J (f env) (f [])"
    using assms interruptible_Inl [OF assms(1), of env] interruptible_Inr [OF assms(1), of env]
    by (cases "f env") (auto simp: refines_quiet_def)
qed

lemma search_polls [interruptible_intros]: "polls search_interrupts q_check" "polls search_interrupts q_reserve"
  unfolding q_check_def q_reserve_def by (auto intro: polls_check polls_reserve)

lemma hex_search [interruptible_intros]: "interruptible search_interrupts (hex bs)"
  unfolding hex_def by (intro interruptible_intros)

lemma object_dto_interruptible [interruptible_intros]: "interruptible search_interrupts (object_dto r)"
  unfolding object_dto_def by (intro interruptible_intros)

lemma source_ref_interruptible [interruptible_intros]: "interruptible search_interrupts (source_ref s)"
  unfolding source_ref_def by (intro interruptible_intros)

lemma parse_selection_interruptible [interruptible_intros]:
  "interruptible search_interrupts (parse_selection inventory selected ids)"
proof (induction ids arbitrary: selected)
  case Nil
  show ?case by (rule interruptible_eq [OF parse_selection.simps(1)]) (intro interruptible_intros)
next
  case (Cons i ids)
  show ?case by (rule interruptible_eq [OF parse_selection.simps(2)]) (intro interruptible_intros Cons.IH)
qed

lemma select_sources_interruptible [interruptible_intros]: "interruptible search_interrupts (select_sources inventory ids)"
  unfolding select_sources_def by (intro interruptible_intros)

lemma literal_scan_scans:
  assumes "compiled lit" "\<And>s e st. interruptible q_interrupts (found s e st)"
  shows "scans (literal_scan lit input found st)"
    and "literal_scan lit input found st [] = Some (feed found (occurrences (lit_bytes lit) input) st [])"
proof -
  have p: "lit_bytes lit \<noteq> []" using assms(1) by (simp add: compiled_def)
  note F = ref_scan_feed [where found = found and p = "lit_bytes lit" and input = input and st = st, OF assms(2) p]
  have eq: "literal_scan lit input found st = (\<lambda>env. Some (ref_scan (lit_bytes lit) input found st env))"
    by (rule ext) (rule literal_scan_ref [OF assms(1)])
  have "interruptible search_interrupts (ref_scan (lit_bytes lit) input found st)"
    by (rule interruptible_mono [OF F(1)]) simp
  then show "scans (literal_scan lit input found st)" unfolding eq by (intro scan_intros)
  show "literal_scan lit input found st [] = Some (feed found (occurrences (lit_bytes lit) input) st [])"
    unfolding eq by (simp add: F(2))
qed

lemma literal_new_scans [scan_intros]: "scans (literal_new p)"
proof -
  have t: "\<exists>t. build_prefix p 0 (replicate (length p) 0) [1..<length p] = Some t" if "p \<noteq> []"
    using build_prefix_total [OF that] by blast
  define t where "t = the (build_prefix p 0 (replicate (length p) 0) [1..<length p])"
  have b: "build_prefix p 0 (replicate (length p) 0) [1..<length p] = Some t" if "p \<noteq> []"
    using t [OF that] by (auto simp: t_def)
  have "literal_new p = (\<lambda>env. Some (bindE (q_check env) (\<lambda>env.
      if p = [] then Inl (Code ''EXACT_LITERAL_INVALID'')
      else bindE (q_reserve env) (\<lambda>env. bindE (q_check env) (\<lambda>env. Inr (\<lparr>lit_bytes = p, lit_prefix = t\<rparr>, env))))))"
    by (rule ext) (cases "p = []", auto simp: literal_new_def b [unfolded One_nat_def] bindE_def split: sum.splits)
  then show ?thesis by (simp only:) (intro scan_intros interruptible_intros)
qed

section \<open>Objects\<close>

text \<open>The object file, and what reading it means when nothing interferes.\<close>

definition object_content ::
  "(bytes \<Rightarrow> bytes) \<Rightarrow> files \<Rightarrow> path \<Rightarrow> ObjectRef \<Rightarrow> nat \<Rightarrow> ObjectStoreError + bytes" where
  "object_content blake3 fs root r maximum =
     bindE (object_name r maximum) (\<lambda>name.
     case fs_get fs (object_dir root @ [name]) of
       None \<Rightarrow> Inl Missing
     | Some (FileEntry bs) \<Rightarrow> if verified blake3 r bs then Inr bs else Inl ObjectStoreError.IntegrityFailure
     | Some _ \<Rightarrow> Inl NotRegularFile)"

lemma read_object_content:
  assumes "maximum + 1 < u64_bound"
  shows "read_object blake3 root r maximum (fs, []) = (object_content blake3 fs root r maximum, (fs, []))"
proof (cases "byte_length r \<le> maximum")
  case True
  then show ?thesis using read_object_quiet [of r blake3 root maximum fs] assms by (simp add: object_content_def)
next
  case False
  then have "object_name r maximum = Inl InvalidReference" by (simp add: object_name_def)
  then show ?thesis by (simp add: object_content_def read_object_def bindW_def liftW_def)
qed

lemma object_bytes_quiet:
  assumes "maximum + 1 < u64_bound"
  shows "object_bytes blake3 fs root r maximum [] =
    (case object_content blake3 fs root r maximum of
       Inr bs \<Rightarrow> Inr (Some bs, []) | Inl Missing \<Rightarrow> Inr (None, []) | Inl e \<Rightarrow> Inl (object_failure e))"
  using read_object_content [OF assms, of blake3 root r fs]
  by (simp add: object_bytes_def split: sum.splits ObjectStoreError.splits)

lemma object_bytes_interruptible:
  assumes "maximum + 1 < u64_bound"
  shows "interruptible search_interrupts (object_bytes blake3 fs root r maximum)"
  unfolding interruptible_def refines_quiet_def
proof
  fix env
  obtain x w where x: "read_object blake3 root r maximum (fs, env) = (x, w)" by (cases "read_object blake3 root r maximum (fs, env)")
  note I = read_object_interruptible [of fs blake3 root r maximum]
  show "case object_bytes blake3 fs root r maximum env of
      Inl e \<Rightarrow> e \<in> search_interrupts \<or> object_bytes blake3 fs root r maximum [] = Inl e
    | Inr (y, _) \<Rightarrow> object_bytes blake3 fs root r maximum [] = Inr (y, [])"
  proof (cases x)
    case (Inr bs)
    then have "reads fs (read_object blake3 root r maximum) env = Inr (bs, snd w)" using x by (simp add: reads_def)
    from interruptible_Inr [OF I this] have "object_content blake3 fs root r maximum = Inr bs"
      by (simp add: reads_def read_object_content [OF assms] split: sum.splits)
    then have "object_bytes blake3 fs root r maximum [] = Inr (Some bs, [])" by (simp add: object_bytes_quiet [OF assms])
    then show ?thesis using x Inr by (simp add: object_bytes_def [of blake3 fs root r maximum env])
  next
    case (Inl e)
    then have "reads fs (read_object blake3 root r maximum) env = Inl e" using x by (simp add: reads_def)
    from interruptible_Inl [OF I this] have d: "e \<in> object_interrupts \<or> object_content blake3 fs root r maximum = Inl e"
      by (simp add: reads_def read_object_content [OF assms] split: sum.splits)
    show ?thesis
    proof (cases "e = Missing")
      case True
      then have "object_content blake3 fs root r maximum = Inl Missing" using d by simp
      then have "object_bytes blake3 fs root r maximum [] = Inr (None, [])" by (simp add: object_bytes_quiet [OF assms])
      then show ?thesis using x Inl True by (simp add: object_bytes_def [of blake3 fs root r maximum env])
    next
      case False
      have "object_bytes blake3 fs root r maximum env = Inl (object_failure e)"
        using x Inl False by (cases e) (simp_all add: object_bytes_def)
      moreover have "object_content blake3 fs root r maximum = Inl e \<Longrightarrow> object_bytes blake3 fs root r maximum [] = Inl (object_failure e)"
        using False by (cases e) (simp_all add: object_bytes_quiet [OF assms])
      ultimately show ?thesis using d by auto
    qed
  qed
qed

lemma object_bounds: "MAX_SOURCE_OBJECT_BYTES + 1 < u64_bound" "64 * 1024 * 1024 + 1 < u64_bound"
  by (simp_all add: MAX_SOURCE_OBJECT_BYTES_def)

lemmas objects_interruptible [interruptible_intros] =
  object_bytes_interruptible [OF object_bounds(1)] object_bytes_interruptible [OF object_bounds(2)]
lemmas objects_quiet = object_bytes_quiet [OF object_bounds(1)] object_bytes_quiet [OF object_bounds(2)]

section \<open>The tally of a search\<close>

text \<open>What one source contributes: its matches and the bytes read, or a gap.\<close>

datatype 'i Found = Hits "'i list" nat | Missed 'i

fun found_items :: "'i Found \<Rightarrow> 'i list" where
  "found_items (Hits is n) = is"
| "found_items (Missed i) = [i]"

fun found_hits :: "'i Found \<Rightarrow> 'i list" where
  "found_hits (Hits is n) = is"
| "found_hits (Missed i) = []"

fun found_bytes :: "'i Found \<Rightarrow> nat" where
  "found_bytes (Hits is n) = n"
| "found_bytes (Missed i) = 0"

fun is_missed :: "'i Found \<Rightarrow> bool" where
  "is_missed (Hits is n) = False"
| "is_missed (Missed i) = True"

record 'i Tally =
  ta_scanned :: nat
  ta_gaps :: nat
  ta_bytes :: nat
  ta_matches :: nat
  ta_items :: "'i list"

definition add_items :: "nat \<Rightarrow> 'i list \<Rightarrow> 'i list \<Rightarrow> 'i list" where
  "add_items limit items new = items @ take (limit - length items) new"

lemma add_items_append: "add_items limit (add_items limit items xs) ys = add_items limit items (xs @ ys)"
  by (cases "limit - length items \<le> length xs") (simp_all add: add_items_def)

lemma add_items_simps [simp]: "add_items limit items [] = items" "add_items limit [] items = take limit items"
  by (simp_all add: add_items_def)

lemma add_items_one: "add_items limit items [x] = (if length items < limit then items @ [x] else items)"
  by (cases "limit - length items") (auto simp: add_items_def)

definition tally_all :: "nat \<Rightarrow> 'i Found list \<Rightarrow> 'i Tally \<Rightarrow> 'i Tally" where
  "tally_all limit fs t =
     \<lparr>ta_scanned = ta_scanned t + length (filter (\<lambda>f. \<not> is_missed f) fs),
      ta_gaps = ta_gaps t + length (filter is_missed fs),
      ta_bytes = ta_bytes t + sum_list (map found_bytes fs),
      ta_matches = ta_matches t + length (concat (map found_hits fs)),
      ta_items = add_items limit (ta_items t) (concat (map found_items fs))\<rparr>"

lemma tally_all_Nil [simp]: "tally_all limit [] t = t"
  by (simp add: tally_all_def)

lemma tally_all_Cons: "tally_all limit (f # fs) t = tally_all limit fs (tally_all limit [f] t)"
  by (cases f) (simp_all add: tally_all_def add_items_append)

definition tally_fits :: "'i Tally \<Rightarrow> bool" where
  "tally_fits t \<longleftrightarrow> ta_matches t < u64_bound \<and> ta_bytes t < u64_bound"

text \<open>
  What a scan of one source promises: it always ends, an interruption only fails, and what it
  adds to the tally is what the source contributes; the rest of the result is kept.
\<close>

locale exact_scan =
  fixes scan :: "'s \<Rightarrow> 'r \<Rightarrow> env \<Rightarrow> (QueryFailure + 'r \<times> env) option"
    and look :: "'s \<Rightarrow> QueryFailure + 'i Found"
    and tally :: "'r \<Rightarrow> 'i Tally" and rest :: "'r \<Rightarrow> 'k" and limit :: nat
  assumes scan_ends: "scans (scan s r)"
    and scan_tally: "scan s r [] = Some (Inr (r', env)) \<Longrightarrow>
      \<exists>f. look s = Inr f \<and> tally r' = tally_all limit [f] (tally r) \<and> rest r' = rest r"
begin

lemma all_end: "scans (for_each scan ss r)"
  by (intro scans_for_each scan_ends)

lemma all_tally_quiet:
  "for_each scan ss r [] = Some (Inr (r', env)) \<Longrightarrow>
   \<exists>fs. map look ss = map Inr fs \<and> tally r' = tally_all limit fs (tally r) \<and> rest r' = rest r"
proof (induction ss arbitrary: r)
  case Nil
  show ?case by (rule exI [of _ "[]"]) (use Nil in simp)
next
  case (Cons s ss)
  obtain r1 env1 where 1: "scan s r [] = Some (Inr (r1, env1))" "for_each scan ss r1 env1 = Some (Inr (r', env))"
    using Cons.prems by (auto simp: bindO_def split: option.splits sum.splits)
  have "env1 = []" using scans_quiet [OF scan_ends 1(1)] .
  then obtain fs where fs: "map look ss = map Inr fs" "tally r' = tally_all limit fs (tally r1)" "rest r' = rest r1"
    using Cons.IH 1(2) by blast
  obtain f where "look s = Inr f" "tally r1 = tally_all limit [f] (tally r)" "rest r1 = rest r"
    using scan_tally [OF 1(1)] by blast
  then show ?case using fs by (intro exI [of _ "f # fs"]) (simp add: tally_all_Cons [of limit f fs])
qed

lemma all_tally:
  assumes "for_each scan ss r env = Some (Inr (r', env'))"
  shows "\<exists>fs. map look ss = map Inr fs \<and> tally r' = tally_all limit fs (tally r) \<and> rest r' = rest r"
  using all_tally_quiet [OF scans_Inr [OF all_end assms]] .

end

text \<open>A scan that also succeeds whenever the source can be read and the counters stay within their width.\<close>

locale exact_scan_total = exact_scan +
  assumes scan_found: "look s = Inr f \<Longrightarrow> tally_fits (tally_all limit [f] (tally r)) \<Longrightarrow> \<exists>r' env. scan s r [] = Some (Inr (r', env))"
begin

lemma all_found:
  "map look ss = map Inr fs \<Longrightarrow> tally_fits (tally_all limit fs (tally r)) \<Longrightarrow> \<exists>r'. for_each scan ss r [] = Some (Inr (r', []))"
proof (induction ss arbitrary: fs r)
  case (Cons s ss)
  obtain f gs where fs: "fs = f # gs" "look s = Inr f" "map look ss = map Inr gs" using Cons.prems(1) by (cases fs) auto
  have "tally_fits (tally_all limit [f] (tally r))"
    using Cons.prems(2) by (auto simp: fs(1) tally_fits_def tally_all_def)
  then obtain r1 env where 1: "scan s r [] = Some (Inr (r1, env))" using scan_found [OF fs(2)] by blast
  have e: "env = []" using scans_quiet [OF scan_ends 1] .
  have "tally r1 = tally_all limit [f] (tally r)" using scan_tally [OF 1] fs(2) by auto
  then have "tally_fits (tally_all limit gs (tally r1))"
    using Cons.prems(2) by (simp add: fs(1) tally_all_Cons [of limit f gs])
  then show ?case using Cons.IH [OF fs(3)] 1 e by simp
qed simp

end

section \<open>Compiled literals and occurrences\<close>

definition compile :: "bytes \<Rightarrow> Literal" where
  "compile p = \<lparr>lit_bytes = p, lit_prefix = the (build_prefix p 0 (replicate (length p) 0) [1..<length p])\<rparr>"

lemma compile_bytes [simp]: "lit_bytes (compile p) = p"
  by (simp add: compile_def)

lemma compile_compiled: "p \<noteq> [] \<Longrightarrow> compiled (compile p)"
  using build_prefix_total [of p] by (auto simp: compile_def)

lemma literal_new_compile:
  assumes "literal_new p env = Some (Inr (lit, env'))"
  shows "p \<noteq> [] \<and> lit = compile p"
  using assms by (auto simp: literal_new_def compile_def res_simps split: sum.splits if_splits)

lemma occurrences_range:
  assumes "(i, j) \<in> set (occurrences p bs)"
  shows "i \<le> j \<and> j \<le> length bs \<and> j - i = length p \<and> take (length p) (drop i bs) = p"
  using assms by (auto simp: occurrences_def)

section \<open>The raw scan\<close>

definition dto_of :: "ObjectRef \<Rightarrow> ObjectRefDto" where
  "dto_of r = \<lparr>od_version = format_version r, od_kind = object_kind_dto (obj_kind r),
     od_digest = hex_encode (digest r), od_bytes = byte_length r\<rparr>"

definition citation :: "CurrentSourceRecord \<Rightarrow> RawSourceRef" where
  "citation source = \<lparr>rs_namespace_id = uuid_to_string (source_namespace_id source),
     rs_source_id = uuid_to_string (source_id source), rs_row_revision = row_revision source,
     rs_registration_revision = registration_revision source, rs_input = dto_of (object_ref source)\<rparr>"

lemma hex_quiet [simp]: "hex bs [] = Inr (hex_encode bs, [])"
  by (simp add: hex_def)

lemma object_dto_quiet [simp]: "object_dto r [] = Inr (dto_of r, [])"
  by (simp add: object_dto_def dto_of_def)

lemma source_ref_quiet [simp]: "source_ref s [] = Inr (citation s, [])"
  by (simp add: source_ref_def citation_def)

definition raw_match :: "bytes \<Rightarrow> RawSourceRef \<Rightarrow> nat \<times> nat \<Rightarrow> RawExactItem" where
  "raw_match p binding r = RMatch \<lparr>rm_source = binding, rm_start = fst r, rm_end = snd r, rm_bytes_hex = hex_encode p\<rparr>"

definition raw_gap :: "RawSourceRef \<Rightarrow> RawExactItem" where
  "raw_gap binding = RGap \<lparr>rg_source = binding, rg_code = ''SOURCE_OBJECT_MISSING''\<rparr>"

definition raw_look ::
  "(bytes \<Rightarrow> bytes) \<Rightarrow> files \<Rightarrow> path \<Rightarrow> bytes \<Rightarrow> CapturedSource \<Rightarrow> QueryFailure + RawExactItem Found" where
  "raw_look blake3 fs root p captured =
     (let source = ca_source captured in
      case object_content blake3 fs root (object_ref source) MAX_SOURCE_OBJECT_BYTES of
        Inl Missing \<Rightarrow> Inr (Missed (raw_gap (citation source)))
      | Inl e \<Rightarrow> Inl (object_failure e)
      | Inr bs \<Rightarrow> Inr (Hits (map (raw_match p (citation source)) (occurrences p bs)) (length bs)))"

definition raw_tally :: "RawExactResult \<Rightarrow> RawExactItem Tally" where
  "raw_tally r = \<lparr>ta_scanned = rx_scanned_sources r, ta_gaps = rx_missing_sources r,
     ta_bytes = rx_scanned_bytes r, ta_matches = rx_matches r, ta_items = rx_items r\<rparr>"

definition raw_rest :: "RawExactResult \<Rightarrow> nat \<times> nat \<times> StopReason" where
  "raw_rest r = (rx_generation r, rx_selected_sources r, rx_stop r)"

lemma raw_found_interruptible [interruptible_intros]:
  "interruptible q_interrupts (raw_found binding bs limit s e st)"
  unfolding raw_found_def Let_def by (intro interruptible_intros)

lemma raw_found_quiet:
  assumes "(s, e) \<in> set (occurrences p bs)" "length bs < u64_bound"
  shows "raw_found binding bs limit s e r [] =
    (if rx_matches r + 1 < u64_bound
     then Inr (r\<lparr>rx_matches := rx_matches r + 1,
       rx_items := add_items limit (rx_items r) [raw_match p binding (s, e)]\<rparr>, [])
     else Inl input_limit)"
  using occurrences_range [OF assms(1)] assms(2)
  by (simp add: raw_found_def Let_def checked_add64_def get_range_def try_from_def add_items_one raw_match_def)

lemma raw_feed:
  assumes "set xs \<subseteq> set (occurrences p bs)" "length bs < u64_bound"
  shows "feed (raw_found binding bs limit) xs r [] =
    (if xs = [] \<or> rx_matches r + length xs < u64_bound
     then Inr (r\<lparr>rx_matches := rx_matches r + length xs,
       rx_items := add_items limit (rx_items r) (map (raw_match p binding) xs)\<rparr>, [])
     else Inl input_limit)"
  using assms(1)
proof (induction xs arbitrary: r)
  case (Cons x xs)
  obtain s e where x: "x = (s, e)" by (cases x)
  have "(s, e) \<in> set (occurrences p bs)" using Cons.prems(1) x by simp
  note F = raw_found_quiet [OF this assms(2), of binding limit r]
  show ?case
  proof (cases "rx_matches r + 1 < u64_bound")
    case True
    then show ?thesis
      using Cons.IH [of "r\<lparr>rx_matches := rx_matches r + 1, rx_items := add_items limit (rx_items r) [raw_match p binding (s, e)]\<rparr>"]
        Cons.prems F by (simp add: x add_items_append)
  qed (simp add: x F)
qed simp

lemma object_content_length:
  assumes "object_content blake3 fs root r maximum = Inr bs"
  shows "verified blake3 r bs \<and> length bs = byte_length r \<and> length bs \<le> maximum"
proof (cases "object_name r maximum")
  case (Inr name)
  then show ?thesis using assms object_name_bound [OF Inr]
    by (cases "fs_get fs (object_dir root @ [name])")
      (auto simp: object_content_def verified_def split: FsEntry.splits if_splits)
qed (use assms in \<open>simp add: object_content_def\<close>)

lemma missing_code [simp]: "failure_code_new ''SOURCE_OBJECT_MISSING'' = Inr ''SOURCE_OBJECT_MISSING''"
    "failure_code_new ''PREPARED_OBJECT_MISSING'' = Inr ''PREPARED_OBJECT_MISSING''"
    "failure_code_new ''PREPARATION_GAP'' = Inr ''PREPARATION_GAP''"
  by code_simp+

lemma raw_scan_ends:
  assumes "compiled lit"
  shows "scans (raw_scan_source blake3 fs root lit limit source result)"
  unfolding raw_scan_source_def Let_def
  by (intro scan_intros interruptible_intros literal_scan_scans [OF assms] raw_found_interruptible)

lemma raw_scan_tally:
  assumes "raw_scan_source blake3 fs root (compile p) limit (ca_source c) r [] = Some (Inr (r', env))" "p \<noteq> []"
  shows "\<exists>f. raw_look blake3 fs root p c = Inr f \<and> raw_tally r' = tally_all limit [f] (raw_tally r) \<and> raw_rest r' = raw_rest r"
proof (cases "object_content blake3 fs root (object_ref (ca_source c)) MAX_SOURCE_OBJECT_BYTES")
  case (Inl e)
  then show ?thesis using assms(1)
    by (cases e) (auto simp: raw_scan_source_def raw_look_def Let_def objects_quiet raw_tally_def raw_rest_def
        tally_all_def add_items_one raw_gap_def split: if_splits)
next
  case (Inr bs)
  let ?b = "citation (ca_source c)"
  have len: "length bs = byte_length (object_ref (ca_source c))" "length bs < u64_bound"
    using object_content_length [OF Inr] by (auto simp: MAX_SOURCE_OBJECT_BYTES_def)
  note L = literal_scan_scans(2) [where found = "raw_found ?b bs limit" and input = bs and st = r, OF compile_compiled [OF assms(2)] raw_found_interruptible]
  show ?thesis using assms(1) Inr len
    by (auto simp: raw_scan_source_def raw_look_def Let_def objects_quiet L raw_feed [OF subset_refl] raw_tally_def
        raw_rest_def tally_all_def res_simps split: if_splits)
qed

lemma raw_scan_found:
  assumes "raw_look blake3 fs root p c = Inr f" "tally_fits (tally_all limit [f] (raw_tally r))" "p \<noteq> []"
  shows "\<exists>r' env. raw_scan_source blake3 fs root (compile p) limit (ca_source c) r [] = Some (Inr (r', env))"
proof (cases "object_content blake3 fs root (object_ref (ca_source c)) MAX_SOURCE_OBJECT_BYTES")
  case (Inl e)
  then show ?thesis using assms(1) by (cases e) (auto simp: raw_scan_source_def raw_look_def Let_def objects_quiet)
next
  case (Inr bs)
  let ?b = "citation (ca_source c)"
  have len: "length bs = byte_length (object_ref (ca_source c))" "length bs < u64_bound"
    using object_content_length [OF Inr] by (auto simp: MAX_SOURCE_OBJECT_BYTES_def)
  note L = literal_scan_scans(2) [where found = "raw_found ?b bs limit" and input = bs and st = r, OF compile_compiled [OF assms(3)] raw_found_interruptible]
  have "f = Hits (map (raw_match p ?b) (occurrences p bs)) (length bs)" using assms(1) Inr by (simp add: raw_look_def)
  then have "rx_matches r + length (occurrences p bs) < u64_bound" "rx_scanned_bytes r + length bs < u64_bound"
    using assms(2) by (simp_all add: tally_fits_def tally_all_def raw_tally_def)
  then show ?thesis using Inr len
    by (simp add: raw_scan_source_def Let_def objects_quiet L raw_feed [OF subset_refl] checked_add64_def)
qed

interpretation raw_scan: exact_scan_total
  "\<lambda>c. raw_scan_source blake3 fs root (compile (b # p)) limit (ca_source c)" "raw_look blake3 fs root (b # p)"
  raw_tally raw_rest limit for blake3 fs root b p limit
  by unfold_locales (auto intro: raw_scan_ends compile_compiled dest: raw_scan_tally raw_scan_found)

section \<open>The decoded scan\<close>

definition decoded_match :: "bytes \<Rightarrow> RawSourceRef \<Rightarrow> ObjectRefDto \<Rightarrow> nat \<times> nat \<Rightarrow> DecodedUtf8Item" where
  "decoded_match p binding prepared r =
     DMatch \<lparr>dm_source = binding, dm_prepared = prepared, dm_representation_start = fst r,
       dm_representation_end = snd r, dm_source_start = fst r, dm_source_end = snd r, dm_text = p\<rparr>"

definition decoded_gap :: "RawSourceRef \<Rightarrow> RepresentationGap \<Rightarrow> DecodedUtf8Item" where
  "decoded_gap binding gap = DGap \<lparr>dg_source = binding, dg_prepared = map_option dto_of (gp_prepared gap), dg_code = gp_code gap\<rparr>"

definition decoded_look ::
  "(bytes \<Rightarrow> bytes) \<Rightarrow> files \<Rightarrow> path \<Rightarrow> bytes \<Rightarrow> CapturedSource \<Rightarrow> QueryFailure + DecodedUtf8Item Found" where
  "decoded_look blake3 fs root p captured =
     (let source = ca_source captured in
      case representation blake3 fs root captured [] of
        Inl e \<Rightarrow> Inl e
      | Inr (Inl gap, _) \<Rightarrow> Inr (Missed (decoded_gap (citation source) gap))
      | Inr (Inr (art, view), _) \<Rightarrow>
          Inr (Hits (map (decoded_match p (citation source) (dto_of art)) (occurrences p (pu_text view)))
            (byte_length (object_ref source))))"

definition decoded_tally :: "DecodedUtf8Result \<Rightarrow> DecodedUtf8Item Tally" where
  "decoded_tally r = \<lparr>ta_scanned = dx_scanned_sources r, ta_gaps = dx_gap_sources r,
     ta_bytes = dx_scanned_bytes r, ta_matches = dx_matches r, ta_items = dx_items r\<rparr>"

definition decoded_rest :: "DecodedUtf8Result \<Rightarrow> nat \<times> nat \<times> StopReason" where
  "decoded_rest r = (dx_generation r, dx_selected_sources r, dx_stop r)"

lemma prepared_search_interruptible [interruptible_intros]:
  "interruptible search_interrupts (\<lambda>env. mapErr prepared_failure (decode_prepared_utf8 blake3 bs source settings limits env))"
  by (rule interruptible_mapErr [OF decode_interruptible]) auto

lemma representation_interruptible [interruptible_intros]:
  "interruptible search_interrupts (representation blake3 fs root captured)"
proof -
  have r: "interruptible search_interrupts (\<lambda>env. case x of Gap g \<Rightarrow> f env | Ready art \<Rightarrow> k art env)"
    if "interruptible search_interrupts f" "\<And>art. interruptible search_interrupts (k art)"
    for x and f and k :: "ObjectRef \<Rightarrow> env \<Rightarrow> QueryFailure + (RepresentationGap + ObjectRef \<times> PreparedUtf8) \<times> env"
    using that by (cases x) simp_all
  show ?thesis unfolding representation_def by (intro interruptible_intros r)
qed

lemma decoded_found_interruptible [interruptible_intros]:
  "interruptible q_interrupts (decoded_found binding prepared txt limit s e st)"
  unfolding decoded_found_def Let_def by (intro interruptible_intros)

lemma decoded_scan_ends:
  assumes "compiled lit"
  shows "scans (decoded_scan_source blake3 fs root lit limit captured result)"
  unfolding decoded_scan_source_def visit_representation_def decoded_visit_def Let_def
  by (intro scan_intros interruptible_intros literal_scan_scans [OF assms] decoded_found_interruptible)

lemma decoded_feed:
  assumes "set xs \<subseteq> set (occurrences p txt)"
    and "feed (decoded_found binding prepared txt limit) xs r [] = Inr (r', env)"
  shows "r' = r\<lparr>dx_matches := dx_matches r + length xs,
     dx_items := add_items limit (dx_items r) (map (decoded_match p binding prepared) xs)\<rparr>"
  using assms
proof (induction xs arbitrary: r)
  case (Cons x xs)
  obtain s e where x: "x = (s, e)" by (cases x)
  have oc: "e - s = length p" "take (length p) (drop s txt) = p"
    using Cons.prems(1) x by (auto dest!: subsetD occurrences_range)
  obtain r1 env1 where 1: "decoded_found binding prepared txt limit s e r [] = Inr (r1, env1)"
      "feed (decoded_found binding prepared txt limit) xs r1 env1 = Inr (r', env)"
    using Cons.prems(2) x by (auto simp: res_simps)
  have "r1 = r\<lparr>dx_matches := dx_matches r + 1,
      dx_items := add_items limit (dx_items r) [decoded_match p binding prepared (s, e)]\<rparr> \<and> env1 = []"
    using 1(1) oc by (auto simp: decoded_found_def Let_def res_simps str_get_def add_items_one decoded_match_def split: if_splits)
  then show ?case using Cons.IH [of r1] Cons.prems(1) 1(2) by (simp add: x add_items_append)
qed simp


lemma scans_bind_quiet:
  assumes "scans f" "\<And>x. f [] = Some (Inr (x, [])) \<Longrightarrow> scans (k x)"
  shows "scans (\<lambda>env. bindO (f env) (\<lambda>(x, env). k x env))"
proof -
  let ?k = "\<lambda>x. if f [] = Some (Inr (x, [])) then k x else (\<lambda>env. Some (Inl QueryFailure.Cancelled))"
  have "(\<lambda>env. bindO (f env) (\<lambda>(x, env). k x env)) = (\<lambda>env. bindO (f env) (\<lambda>(x, env). ?k x env))"
    using scans_Inr [OF assms(1)] by (intro ext) (auto simp: bindO_def split: option.split sum.split)
  moreover have "scans (\<lambda>env. bindO (f env) (\<lambda>(x, env). ?k x env))"
    by (intro scans_bind assms(1)) (use assms(2) in \<open>auto intro: scan_intros interruptible_intros\<close>)
  ultimately show ?thesis by simp
qed

lemma quiet_bind:
  "interruptible I f \<Longrightarrow> bindE (f []) (case_prod k) = (case f [] of Inl e \<Rightarrow> Inl e | Inr (x, _) \<Rightarrow> k x [])"
  using interruptible_Inr [of I f "[]"] by (cases "f []") auto

text \<open>The representation when nothing interferes.\<close>

lemma representation_quiet:
  "representation blake3 fs root c [] =
     (case cp_outcome (ca_preparation c) of
        None \<Rightarrow> Inl (Code ''EVIDENCE_BINDING_INVALID'')
      | Some out \<Rightarrow> (case bo_result out of
          Gap _ \<Rightarrow> Inr (Inl \<lparr>gp_prepared = None, gp_code = ''PREPARATION_GAP''\<rparr>, [])
        | Ready art \<Rightarrow> (case object_bytes blake3 fs root (object_ref (ca_source c)) MAX_SOURCE_OBJECT_BYTES [] of
            Inl e \<Rightarrow> Inl e
          | Inr (None, _) \<Rightarrow> Inr (Inl \<lparr>gp_prepared = Some art, gp_code = ''SOURCE_OBJECT_MISSING''\<rparr>, [])
          | Inr (Some source, _) \<Rightarrow> (case object_bytes blake3 fs root art (64 * 1024 * 1024) [] of
              Inl e \<Rightarrow> Inl e
            | Inr (None, _) \<Rightarrow> Inr (Inl \<lparr>gp_prepared = Some art, gp_code = ''PREPARED_OBJECT_MISSING''\<rparr>, [])
            | Inr (Some bs, _) \<Rightarrow> (case mapErr prepared_failure (decode_prepared_utf8 blake3 bs
                  (ca_source c) (cp_settings (ca_preparation c)) search_limits []) of
                Inl e \<Rightarrow> Inl e
              | Inr (view, _) \<Rightarrow> if pu_text view \<noteq> source then Inl (Code ''EVIDENCE_TEXT_MISMATCH'')
                  else Inr (Inr (art, view), []))))))"
  unfolding representation_def
  by (simp add: quiet_bind [OF objects_interruptible(1)] quiet_bind [OF objects_interruptible(2), simplified]
      quiet_bind [OF prepared_search_interruptible] split: option.split PreparationOutcome.split sum.split prod.split)

lemma representation_gap:
  assumes "representation blake3 fs root c [] = Inr (Inl gap, env)"
  shows "failure_code_new (gp_code gap) = Inr (gp_code gap)"
  using assms unfolding representation_quiet
  by (auto split: option.splits PreparationOutcome.splits sum.splits prod.splits if_splits)

lemma decoded_scan_tally:
  assumes "decoded_scan_source blake3 fs root (compile p) limit c r [] = Some (Inr (r', env))" "p \<noteq> []"
  shows "\<exists>f. decoded_look blake3 fs root p c = Inr f \<and> decoded_tally r' = tally_all limit [f] (decoded_tally r) \<and>
    decoded_rest r' = decoded_rest r"
proof (cases "representation blake3 fs root c []")
  case (Inl e)
  then show ?thesis using assms(1) by (simp add: decoded_scan_source_def visit_representation_def)
next
  case (Inr x)
  obtain y env1 where x: "x = (y, env1)" by (cases x)
  have e: "env1 = []" using interruptible_Inr [OF representation_interruptible Inr [unfolded x]] Inr x by simp
  let ?b = "citation (ca_source c)"
  show ?thesis
  proof (cases y)
    case (Inl gap)
    have R: "representation blake3 fs root c [] = Inr (Inl gap, [])" using Inr x e Inl by simp
    show ?thesis using assms(1) representation_gap [OF R]
      by (cases "gp_prepared gap") (auto simp: decoded_scan_source_def visit_representation_def R decoded_look_def Let_def
          decoded_tally_def decoded_rest_def tally_all_def add_items_one decoded_gap_def split: if_splits)
  next
    case Inr': (Inr q)
    obtain art view where q: "q = (art, view)" by (cases q)
    have R: "representation blake3 fs root c [] = Inr (Inr (art, view), [])" using Inr x e Inr' q by simp
    note L = literal_scan_scans(2) [where found = "decoded_found ?b (dto_of art) (pu_text view) limit" and input = "pu_text view" and st = r,
        OF compile_compiled [OF assms(2)] decoded_found_interruptible]
    obtain r1 env2 where f: "feed (decoded_found ?b (dto_of art) (pu_text view) limit) (occurrences p (pu_text view)) r [] = Inr (r1, env2)"
        "r' = r1\<lparr>dx_scanned_sources := dx_scanned_sources r1 + 1,
          dx_scanned_bytes := dx_scanned_bytes r1 + byte_length (object_ref (ca_source c))\<rparr>"
      using assms(1) by (auto simp: decoded_scan_source_def visit_representation_def R decoded_visit_def L Let_def res_simps
          split: sum.splits)
    show ?thesis using decoded_feed [OF subset_refl f(1)] f(2)
      by (simp add: decoded_look_def R Let_def decoded_tally_def decoded_rest_def tally_all_def)
  qed
qed

interpretation decoded_scan: exact_scan
  "decoded_scan_source blake3 fs root (compile (b # p)) limit" "decoded_look blake3 fs root (b # p)"
  decoded_tally decoded_rest limit for blake3 fs root b p limit
  by unfold_locales (auto intro: decoded_scan_ends compile_compiled dest: decoded_scan_tally)

end
