(* ===== verification/PublishedInventory.thy ===== *)
theory PublishedInventory
  imports PublicationFrame PublishedReads
begin

text \<open>
  The inventory of a pinned generation: in an ordered table the rows that carry the generation's
  prefix are one contiguous run, so the range read of \<open>source_inventory\<close> returns exactly the
  sources of the generation, in ascending order of identity and all of one namespace.
\<close>

lemma starts_with_le: "starts_with pre k \<Longrightarrow> pre \<le> k"
  unfolding starts_with_def
proof (induction pre arbitrary: k)
  case (Cons a pre)
  then show ?case by (cases k) auto
qed simp

lemma starts_with_between:
  "starts_with pre k' \<Longrightarrow> pre \<le> k \<Longrightarrow> k \<le> k' \<Longrightarrow> starts_with pre k"
  unfolding starts_with_def
proof (induction pre arbitrary: k k')
  case (Cons a pre)
  then show ?case by (cases k; cases k') auto
qed simp

lemma prefix_run:
  assumes "tbl_ok t"
  shows "takeWhile (\<lambda>e. starts_with pre (fst e)) (from_prefix pre t) = filter (\<lambda>e. starts_with pre (fst e)) t"
  using assms
proof (induction t)
  case (Cons e t)
  have ok: "tbl_ok t" and le: "\<And>f. f \<in> set t \<Longrightarrow> fst e < fst f" using Cons.prems by (auto simp: tbl_ok_def)
  show ?case
  proof (cases "fst e < pre")
    case True
    then have "\<not> starts_with pre (fst e)" using starts_with_le leD by blast
    then show ?thesis using True Cons.IH [OF ok] by (simp add: from_prefix_def)
  next
    case False
    then have all: "from_prefix pre (e # t) = e # t" by (simp add: from_prefix_def)
    have same: "from_prefix pre t = t"
    proof (cases t)
      case (Cons f r)
      then have "\<not> fst f < pre" using le [of f] False by auto
      then show ?thesis using Cons by (simp add: from_prefix_def)
    qed (simp add: from_prefix_def)
    show ?thesis
    proof (cases "starts_with pre (fst e)")
      case True
      then show ?thesis using Cons.IH [OF ok] all same by simp
    next
      case not: False
      have "\<not> starts_with pre (fst f)" if "f \<in> set t" for f
        using starts_with_between [of pre "fst f" "fst e"] not False le [OF that]
        by (auto simp: linorder_not_less dest: order.strict_implies_order)
      then show ?thesis using not all by (simp add: filter_empty_conv)
    qed
  qed
qed (simp add: from_prefix_def)

text \<open>A row of the source table and the captured source it holds.\<close>

definition row_captured :: "bytes \<times> bytes \<Rightarrow> CapturedSource \<Rightarrow> bool" where
  "row_captured row c \<longleftrightarrow> length (fst row) = 24 \<and> drop 8 (fst row) = source_id (ca_source c) \<and>
     (\<exists>entry. decode_source (snd row) = Inr entry \<and> se_complete entry \<and> se_captured entry = c)"

lemma inventory_entries_Inr:
  assumes "inventory_entries count pre rows cs ns gaps units env = Inr ((cs', gaps', units'), env')"
  shows "\<exists>new. cs' = cs @ new \<and> list_all2 row_captured (takeWhile (\<lambda>e. starts_with pre (fst e)) rows) new \<and>
    (\<forall>c \<in> set new. \<forall>n. ns = Some n \<longrightarrow> source_namespace_id (ca_source c) = n) \<and>
    (\<exists>n. \<forall>c \<in> set new. source_namespace_id (ca_source c) = n)"
  using assms
proof (induction rows arbitrary: cs ns gaps units env)
  case (Cons row rows)
  obtain k v where row: "row = (k, v)" by (cases row)
  show ?case
  proof (cases "starts_with pre k")
    case False
    then show ?thesis using Cons.prems row by (auto simp: res_simps)
  next
    case True
    obtain entry gaps1 units1 env1 where e: "decode_source v = Inr entry" "length k = 24" "se_complete entry"
        "drop 8 k = source_id (ca_source (se_captured entry))"
        "\<And>n. ns = Some n \<Longrightarrow> source_namespace_id (ca_source (se_captured entry)) = n"
        "inventory_entries count pre rows (cs @ [se_captured entry]) (Some (source_namespace_id (ca_source (se_captured entry))))
           gaps1 units1 env1 = Inr ((cs', gaps', units'), env')"
      using Cons.prems row True
      by (auto simp: res_simps Let_def split: if_splits option.splits)
    obtain new where new: "cs' = (cs @ [se_captured entry]) @ new"
        "list_all2 row_captured (takeWhile (\<lambda>e. starts_with pre (fst e)) rows) new"
        "\<forall>c \<in> set new. source_namespace_id (ca_source c) = source_namespace_id (ca_source (se_captured entry))"
      using Cons.IH [OF e(6)] by auto
    have "row_captured row (se_captured entry)" using e row by (auto simp: row_captured_def)
    then show ?thesis using new e(5) row True by (intro exI [of _ "se_captured entry # new"]) auto
  qed
qed auto

definition generation_rows :: "PublishedView \<Rightarrow> (bytes \<times> bytes) list" where
  "generation_rows view = filter (\<lambda>e. starts_with (be_bytes (g_sequence (pv_generation view))) (fst e))
     (the_table (pv_transaction view) SOURCES)"

lemma append_less_same: "(xs @ a < xs @ (b :: bytes)) \<longleftrightarrow> a < b"
  by (induction xs) simp_all

lemma list_all2_right: "list_all2 R xs ys \<Longrightarrow> y \<in> set ys \<Longrightarrow> \<exists>x \<in> set xs. R x y"
  by (induction rule: list_all2_induct) auto

lemma rows_ascending:
  assumes "list_all2 row_captured rows cs" "sorted_wrt (<) (map fst rows)" "\<forall>e \<in> set rows. starts_with (be_bytes n) (fst e)"
  shows "sorted_wrt (\<lambda>a b. source_id (ca_source a) < source_id (ca_source b)) cs"
proof -
  have key: "fst e = be_bytes n @ source_id (ca_source c)" if "row_captured e c" "starts_with (be_bytes n) (fst e)" for e c
    using that by (auto simp: row_captured_def starts_with_gen_key gen_key_def)
  from assms show ?thesis
  proof (induction rule: list_all2_induct)
    case (Cons e rows c cs)
    have "source_id (ca_source c) < source_id (ca_source d)" if d: "d \<in> set cs" for d
    proof -
      obtain f where f: "f \<in> set rows" "row_captured f d"
        using list_all2_right [OF Cons.hyps(2) d] by blast
      then show ?thesis using Cons.prems key [OF Cons.hyps(1)] key [OF f(2)] by (auto simp: append_less_same)
    qed
    then show ?case using Cons by simp
  qed simp
qed

lemma source_inventory_Inr:
  assumes "source_inventory view env = Inr (cs, env')" "db_ok (pv_transaction view)"
  shows "list_all2 row_captured (generation_rows view) cs"
    and "\<exists>n. \<forall>c \<in> set cs. source_namespace_id (ca_source c) = n"
    and "sorted_wrt (\<lambda>a b. source_id (ca_source a) < source_id (ca_source b)) cs"
    and "length cs = g_source_count (pv_generation view)" "length cs \<le> MAX_SOURCES"
proof -
  let ?pre = "be_bytes (g_sequence (pv_generation view))"
  obtain t count env1 gaps units env2 where t: "get_table (pv_transaction view) SOURCES = Some t"
      "inventory_entries count ?pre (from_prefix ?pre t) [] None 0 0 env1 = Inr ((cs, gaps, units), env2)"
    and n: "length cs = g_source_count (pv_generation view)" "length cs \<le> MAX_SOURCES"
    using assms(1) by (auto simp: source_inventory_def Let_def res_simps r_open_def split: if_splits)
  have ok: "tbl_ok t" using assms(2) t(1) by (fastforce simp: db_ok_def get_table_def dest: map_of_SomeD)
  have rows: "takeWhile (\<lambda>e. starts_with ?pre (fst e)) (from_prefix ?pre t) = generation_rows view"
    using prefix_run [OF ok] t(1) by (simp add: generation_rows_def the_table_def)
  from inventory_entries_Inr [OF t(2)] show L: "list_all2 row_captured (generation_rows view) cs"
    and "\<exists>n. \<forall>c \<in> set cs. source_namespace_id (ca_source c) = n"
    by (auto simp: rows)
  have "sorted_wrt (<) (map fst (generation_rows view))"
    using ok t(1) by (simp add: generation_rows_def the_table_def tbl_ok_def sorted_wrt_map sorted_wrt_filter)
  from rows_ascending [OF L this] show "sorted_wrt (\<lambda>a b. source_id (ca_source a) < source_id (ca_source b)) cs"
    by (auto simp: generation_rows_def)
  show "length cs = g_source_count (pv_generation view)" "length cs \<le> MAX_SOURCES" by fact+
qed

lemma inventory_entries_interruptible [interruptible_intros]:
  "interruptible pub_interrupts (inventory_entries count pre rows cs ns gaps units)"
proof (induction rows arbitrary: cs ns gaps units)
  case Nil
  show ?case by (rule interruptible_eq [OF inventory_entries.simps(1)]) (intro interruptible_intros)
next
  case (Cons row rows)
  obtain k v where row: "row = (k, v)" by (cases row)
  show ?case unfolding row
    by (rule interruptible_eq [OF inventory_entries.simps(2)], unfold Let_def) (intro interruptible_intros Cons.IH)
qed

lemma source_inventory_interruptible [interruptible_intros]: "interruptible pub_interrupts (source_inventory view)"
  unfolding source_inventory_def Let_def by (intro interruptible_intros)

lemma captured_row_id:
  assumes "list_all2 row_captured rows cs" "c \<in> set cs"
  shows "length (source_id (ca_source c)) = 16"
proof -
  obtain e where "row_captured e c" using list_all2_right [OF assms] by blast
  then have "length (fst e) = 24" "source_id (ca_source c) = drop 8 (fst e)" by (simp_all add: row_captured_def)
  then show ?thesis by simp
qed

end
