(* ===== verification/ExactProperties.thy ===== *)
theory ExactProperties
  imports ExactSearchLaws PublishedInventory ProtocolLaws
begin

text \<open>
  The exact searches against their specification: a returned result is the naive search over the
  files of the chosen sources. The reference results are built from the files directly, without
  prefix tables, blocks, tallies or interruptions.
\<close>

section \<open>Selection\<close>

definition selected_from :: "CapturedSource list \<Rightarrow> string list option \<Rightarrow> CapturedSource list" where
  "selected_from cs ids = (case ids of None \<Rightarrow> cs
     | Some l \<Rightarrow> filter (\<lambda>c. uuid_to_string (source_id (ca_source c)) \<in> set l) cs)"

lemma parse_selection_Inr:
  assumes "parse_selection cs acc ids env = Inr (chosen, env')"
  shows "\<exists>xs. chosen = acc @ xs \<and> map uuid_parse ids = map Inr xs \<and> set xs \<subseteq> source_id ` ca_source ` set cs"
  using assms
proof (induction ids arbitrary: acc env)
  case (Cons i ids)
  obtain x env1 where x: "uuid_parse i = Inr x" "x \<in> source_id ` ca_source ` set cs"
      "parse_selection cs (acc @ [x]) ids env1 = Inr (chosen, env')"
    using Cons.prems by (auto simp: res_simps image_image split: if_splits)
  obtain xs where "chosen = (acc @ [x]) @ xs" "map uuid_parse ids = map Inr xs" "set xs \<subseteq> source_id ` ca_source ` set cs"
    using Cons.IH [OF x(3)] by blast
  then show ?case using x by (intro exI [of _ "x # xs"]) simp
qed auto

lemma select_sources_Inr:
  assumes "select_sources cs ids env = Inr (sel, env')" "\<And>c. c \<in> set cs \<Longrightarrow> length (source_id (ca_source c)) = 16"
  shows "sel = selected_from cs ids \<and> (\<forall>l. ids = Some l \<longrightarrow> set l \<subseteq> (\<lambda>c. uuid_to_string (source_id (ca_source c))) ` set cs)"
proof (cases ids)
  case None
  then show ?thesis using assms(1) by (auto simp: select_sources_def selected_from_def res_simps)
next
  case (Some l)
  obtain chosen env1 env2 where s: "parse_selection cs [] l env1 = Inr (chosen, env2)"
      "sel = filter (\<lambda>c. source_id (ca_source c) \<in> set chosen) cs"
    using assms(1) Some by (auto simp: select_sources_def res_simps)
  obtain xs where xs: "chosen = xs" "map uuid_parse l = map Inr xs" "set xs \<subseteq> source_id ` ca_source ` set cs"
    using parse_selection_Inr [OF s(1)] by auto
  have l: "l = map uuid_to_string xs"
  proof (rule nth_equalityI)
    show len: "length l = length (map uuid_to_string xs)" using arg_cong [OF xs(2), of length] by simp
    show "l ! i = map uuid_to_string xs ! i" if "i < length l" for i
      using arg_cong [OF xs(2), of "\<lambda>y. y ! i"] that len uuid_to_string_parse_aux [of "l ! i" "xs ! i"] by simp
  qed
  have "source_id (ca_source c) \<in> set xs \<longleftrightarrow> uuid_to_string (source_id (ca_source c)) \<in> set l" if c: "c \<in> set cs" for c
  proof
    assume "uuid_to_string (source_id (ca_source c)) \<in> set l"
    then obtain x where x: "x \<in> set xs" "uuid_to_string x = uuid_to_string (source_id (ca_source c))" using l by auto
    obtain d where d: "d \<in> set cs" "x = source_id (ca_source d)" using x(1) xs(3) by blast
    have "uuid_parse (uuid_to_string x) = Inr x" using uuid_parse_to_string_aux assms(2) [OF d(1)] d(2) by blast
    then have "x = source_id (ca_source c)" unfolding x(2) uuid_parse_to_string_aux [OF assms(2) [OF c]] by simp
    then show "source_id (ca_source c) \<in> set xs" using x(1) by simp
  qed (simp add: l)
  then show ?thesis using s(2) xs(1,3) Some l by (auto simp: selected_from_def cong: filter_cong)
qed

section \<open>The reference result of a raw search\<close>

definition object_at :: "files \<Rightarrow> path \<Rightarrow> ObjectRef \<Rightarrow> nat \<Rightarrow> bytes option" where
  "object_at fs root r maximum =
     (case object_name r maximum of
        Inl _ \<Rightarrow> None
      | Inr name \<Rightarrow> (case fs_get fs (object_dir root @ [name]) of Some (FileEntry bs) \<Rightarrow> Some bs | _ \<Rightarrow> None))"

definition source_content :: "files \<Rightarrow> path \<Rightarrow> CapturedSource \<Rightarrow> bytes option" where
  "source_content fs root c = object_at fs root (object_ref (ca_source c)) MAX_SOURCE_OBJECT_BYTES"

lemma object_content_at:
  "object_content blake3 fs root r maximum = Inr bs \<Longrightarrow> object_at fs root r maximum = Some bs \<and> verified blake3 r bs"
  "object_content blake3 fs root r maximum = Inl Missing \<Longrightarrow> object_at fs root r maximum = None"
  by (cases "object_name r maximum"; cases "fs_get fs (object_dir root @ [projr (object_name r maximum)])";
      auto simp: object_content_def object_at_def object_name_def split: FsEntry.splits if_splits)+

definition raw_items :: "files \<Rightarrow> path \<Rightarrow> bytes \<Rightarrow> CapturedSource \<Rightarrow> RawExactItem list" where
  "raw_items fs root p c =
     (case source_content fs root c of
        None \<Rightarrow> [raw_gap (citation (ca_source c))]
      | Some bs \<Rightarrow> map (raw_match p (citation (ca_source c))) (occurrences p bs))"

definition raw_hits :: "files \<Rightarrow> path \<Rightarrow> bytes \<Rightarrow> CapturedSource \<Rightarrow> (nat \<times> nat) list" where
  "raw_hits fs root p c = (case source_content fs root c of None \<Rightarrow> [] | Some bs \<Rightarrow> occurrences p bs)"

definition raw_reference :: "files \<Rightarrow> path \<Rightarrow> nat \<Rightarrow> bytes \<Rightarrow> nat \<Rightarrow> CapturedSource list \<Rightarrow> RawExactResult" where
  "raw_reference fs root g p limit sel =
     (let items = concat (map (raw_items fs root p) sel);
          matches = length (concat (map (raw_hits fs root p) sel));
          missing = length (filter (\<lambda>c. source_content fs root c = None) sel) in
      \<lparr>rx_generation = g, rx_selected_sources = length sel,
       rx_scanned_sources = length (filter (\<lambda>c. source_content fs root c \<noteq> None) sel),
       rx_missing_sources = missing,
       rx_scanned_bytes = sum_list (map (\<lambda>c. case source_content fs root c of None \<Rightarrow> 0 | Some bs \<Rightarrow> length bs) sel),
       rx_matches = matches, rx_items = take limit items,
       rx_scan_complete = (missing = 0), rx_complete_negative = (missing = 0 \<and> matches = 0),
       rx_stop = (if length items \<le> limit then Complete else OutputLimit)\<rparr>)"

lemma raw_look_Inr:
  assumes "raw_look blake3 fs root p c = Inr f"
  shows "found_items f = raw_items fs root p c \<and> length (found_hits f) = length (raw_hits fs root p c) \<and>
    is_missed f = (source_content fs root c = None) \<and>
    found_bytes f = (case source_content fs root c of None \<Rightarrow> 0 | Some bs \<Rightarrow> length bs) \<and>
    (\<forall>bs. source_content fs root c = Some bs \<longrightarrow> verified blake3 (object_ref (ca_source c)) bs)"
proof (cases "object_content blake3 fs root (object_ref (ca_source c)) MAX_SOURCE_OBJECT_BYTES")
  case (Inl e)
  then show ?thesis using assms object_content_at(2) [of blake3 fs root "object_ref (ca_source c)" MAX_SOURCE_OBJECT_BYTES]
    by (cases e) (auto simp: raw_look_def Let_def source_content_def raw_items_def raw_hits_def)
next
  case (Inr bs)
  then show ?thesis using assms object_content_at(1) [OF Inr]
    by (auto simp: raw_look_def Let_def source_content_def raw_items_def raw_hits_def)
qed

lemma inventory_search_interruptible [interruptible_intros]:
  "interruptible search_interrupts (\<lambda>env. mapErr publication_failure (source_inventory view env))"
  by (rule interruptible_mapErr [OF source_inventory_interruptible]) auto

lemma raw_finish_interruptible [interruptible_intros]: "interruptible search_interrupts (raw_finish request r)"
  unfolding raw_finish_def Let_def by (intro interruptible_intros)

lemma raw_execute_ends: "scans (raw_execute blake3 fs root view request)"
proof -
  have c: "scans (for_each (\<lambda>entry. raw_scan_source blake3 fs root lit (rr_limit request) (ca_source entry)) cs r)"
    if "literal_new (rr_literal request) [] = Some (Inr (lit, []))" for lit cs r
    using literal_new_compile [OF that] by (auto intro!: scans_for_each raw_scan_ends compile_compiled)
  show ?thesis
    unfolding raw_execute_def
    by (intro scans_poll interruptible_intros scans_bind_quiet [OF literal_new_scans] scans_bind scans_Some c
        scans_prod_fun)
qed

lemma tally_items:
  assumes "list_all2 (\<lambda>c f. found_items f = its c \<and> length (found_hits f) = length (hs c) \<and>
      is_missed f = ms c \<and> found_bytes f = bc c) sel fs"
  shows "concat (map found_items fs) = concat (map its sel)"
    and "length (concat (map found_hits fs)) = length (concat (map hs sel))"
    and "length (filter is_missed fs) = length (filter ms sel)"
    and "length (filter (\<lambda>f. \<not> is_missed f) fs) = length (filter (\<lambda>c. \<not> ms c) sel)"
    and "sum_list (map found_bytes fs) = sum_list (map bc sel)"
  using assms by (induction rule: list_all2_induct; simp)+

lemma tally_total: "length (concat (map found_items fs)) = length (concat (map found_hits fs)) + length (filter is_missed fs)"
proof (induction fs)
  case (Cons f fs)
  then show ?case by (cases f) auto
qed simp

lemma raw_execute_Inr:
  assumes "raw_execute blake3 fs root view request env = Some (Inr (res, env'))"
  shows "\<exists>cs sel r. source_inventory view [] = Inr (cs, []) \<and> select_sources cs (rr_source_ids request) [] = Inr (sel, []) \<and>
    rr_literal request \<noteq> [] \<and> raw_request_validate request = Inr () \<and> length sel < u64_bound \<and>
    for_each (\<lambda>entry. raw_scan_source blake3 fs root (compile (rr_literal request)) (rr_limit request) (ca_source entry)) sel
      \<lparr>rx_generation = g_sequence (pv_generation view), rx_selected_sources = length sel,
         rx_scanned_sources = 0, rx_missing_sources = 0, rx_scanned_bytes = 0, rx_matches = 0,
         rx_items = [], rx_scan_complete = False, rx_complete_negative = False, rx_stop = Complete\<rparr> [] = Some (Inr (r, [])) \<and>
    raw_finish request r [] = Inr (res, [])"
proof -
  have q: "raw_execute blake3 fs root view request [] = Some (Inr (res, []))" by (rule scans_Inr [OF raw_execute_ends assms])
  obtain lit env1 where l: "literal_new (rr_literal request) [] = Some (Inr (lit, env1))"
    using q by (auto simp: raw_execute_def bindO_Inr res_simps simp del: bindO_Some)
  have e1: "env1 = []" by (rule scans_quiet [OF literal_new_scans l])
  have lit: "rr_literal request \<noteq> []" "lit = compile (rr_literal request)" using literal_new_compile [OF l] by auto
  obtain cs env2 where cs: "source_inventory view [] = Inr (cs, env2)"
    using q l e1 by (auto simp: raw_execute_def bindO_Inr res_simps simp del: bindO_Some)
  have e2: "env2 = []" using interruptible_Inr [OF source_inventory_interruptible cs] cs by simp
  obtain sel env3 where sel: "select_sources cs (rr_source_ids request) [] = Inr (sel, env3)"
    using q l e1 cs e2 by (auto simp: raw_execute_def bindO_Inr res_simps simp del: bindO_Some)
  have e3: "env3 = []" using interruptible_Inr [OF select_sources_interruptible sel] sel by simp
  let ?r = "\<lparr>rx_generation = g_sequence (pv_generation view), rx_selected_sources = length sel,
         rx_scanned_sources = 0, rx_missing_sources = 0, rx_scanned_bytes = 0, rx_matches = 0,
         rx_items = [], rx_scan_complete = False, rx_complete_negative = False, rx_stop = Complete\<rparr>"
  obtain r env4 where r: "for_each (\<lambda>entry. raw_scan_source blake3 fs root lit (rr_limit request) (ca_source entry)) sel ?r [] = Some (Inr (r, env4))"
      "raw_finish request r env4 = Inr (res, [])" "length sel < u64_bound" "raw_request_validate request = Inr ()"
    using q l e1 cs e2 sel e3 by (auto simp: raw_execute_def bindO_Inr res_simps simp del: bindO_Some)
  have "env4 = []"
    by (rule scans_quiet [OF scans_for_each r(1)]) (use lit in \<open>auto intro: raw_scan_ends compile_compiled\<close>)
  then show ?thesis using cs e2 sel e3 r lit by blast
qed

section \<open>The reference result of a decoded search\<close>

text \<open>The representation a source has in the files: a gap, or its artifact and its text.\<close>

definition source_text :: "files \<Rightarrow> path \<Rightarrow> CapturedSource \<Rightarrow> RepresentationGap + ObjectRef \<times> bytes" where
  "source_text fs root c =
     (case ready_artifact c of
        None \<Rightarrow> Inl \<lparr>gp_prepared = None, gp_code = ''PREPARATION_GAP''\<rparr>
      | Some art \<Rightarrow> (case source_content fs root c of
            None \<Rightarrow> Inl \<lparr>gp_prepared = Some art, gp_code = ''SOURCE_OBJECT_MISSING''\<rparr>
          | Some bs \<Rightarrow> if object_at fs root art (64 * 1024 * 1024) = None
              then Inl \<lparr>gp_prepared = Some art, gp_code = ''PREPARED_OBJECT_MISSING''\<rparr> else Inr (art, bs)))"

definition decoded_items :: "files \<Rightarrow> path \<Rightarrow> bytes \<Rightarrow> CapturedSource \<Rightarrow> DecodedUtf8Item list" where
  "decoded_items fs root p c =
     (case source_text fs root c of
        Inl gap \<Rightarrow> [decoded_gap (citation (ca_source c)) gap]
      | Inr (art, bs) \<Rightarrow> map (decoded_match p (citation (ca_source c)) (dto_of art)) (occurrences p bs))"

definition decoded_hits :: "files \<Rightarrow> path \<Rightarrow> bytes \<Rightarrow> CapturedSource \<Rightarrow> (nat \<times> nat) list" where
  "decoded_hits fs root p c = (case source_text fs root c of Inl _ \<Rightarrow> [] | Inr (_, bs) \<Rightarrow> occurrences p bs)"

definition decoded_reference :: "files \<Rightarrow> path \<Rightarrow> nat \<Rightarrow> bytes \<Rightarrow> nat \<Rightarrow> CapturedSource list \<Rightarrow> DecodedUtf8Result" where
  "decoded_reference fs root g p limit sel =
     (let items = concat (map (decoded_items fs root p) sel);
          matches = length (concat (map (decoded_hits fs root p) sel));
          gaps = length (filter (\<lambda>c. \<not> is_ok (source_text fs root c)) sel) in
      \<lparr>dx_generation = g, dx_selected_sources = length sel,
       dx_scanned_sources = length (filter (\<lambda>c. is_ok (source_text fs root c)) sel), dx_gap_sources = gaps,
       dx_scanned_bytes = sum_list (map (\<lambda>c. case source_text fs root c of Inl _ \<Rightarrow> 0 | Inr (_, bs) \<Rightarrow> length bs) sel),
       dx_matches = matches, dx_items = take limit items,
       dx_scan_complete = (gaps = 0), dx_complete_negative = (gaps = 0 \<and> matches = 0),
       dx_stop = (if length items \<le> limit then Complete else OutputLimit)\<rparr>)"

text \<open>What stands behind the text of a source: the verified source bytes and an artifact that encodes exactly them.\<close>

definition text_backed :: "(bytes \<Rightarrow> bytes) \<Rightarrow> files \<Rightarrow> path \<Rightarrow> CapturedSource \<Rightarrow> bool" where
  "text_backed blake3 fs root c \<longleftrightarrow> (case source_text fs root c of
     Inl _ \<Rightarrow> True
   | Inr (art, bs) \<Rightarrow> verified blake3 (object_ref (ca_source c)) bs \<and> utf8_valid bs \<and>
       (\<exists>units. object_at fs root art (64 * 1024 * 1024) =
            Some (artifact_bytes (ca_source c) (cp_settings (ca_preparation c)) bs units) \<and>
          verified blake3 art (artifact_bytes (ca_source c) (cp_settings (ca_preparation c)) bs units)))"

lemma object_bytes_at:
  assumes "object_bytes blake3 fs root r maximum [] = Inr (x, env)" "maximum + 1 < u64_bound"
  shows "object_at fs root r maximum = x \<and> (\<forall>bs. x = Some bs \<longrightarrow> verified blake3 r bs \<and> length bs = byte_length r)"
  using assms(1) object_content_at [of blake3 fs root r maximum] object_content_length [of blake3 fs root r maximum]
  unfolding object_bytes_quiet [OF assms(2)] by (auto split: sum.splits ObjectStoreError.splits)

lemma representation_source:
  assumes "representation blake3 fs root c [] = Inr (x, env)"
  shows "(case x of Inl gap \<Rightarrow> source_text fs root c = Inl gap
     | Inr (art, view) \<Rightarrow> source_text fs root c = Inr (art, pu_text view) \<and> length (pu_text view) = byte_length (object_ref (ca_source c))) \<and>
    text_backed blake3 fs root c"
proof -
  obtain out where o': "cp_outcome (ca_preparation c) = Some out"
    using assms by (cases "cp_outcome (ca_preparation c)") (auto simp: representation_quiet)
  show ?thesis
  proof (cases "bo_result out")
    case (Gap g)
    then show ?thesis using assms o'
      by (auto simp: representation_quiet source_text_def ready_artifact_def text_backed_def)
  next
    case (Ready art)
    then have art: "ready_artifact c = Some art" using o' by (simp add: ready_artifact_def)
    obtain s e1 where s: "object_bytes blake3 fs root (object_ref (ca_source c)) MAX_SOURCE_OBJECT_BYTES [] = Inr (s, e1)"
      using assms o' Ready by (auto simp: representation_quiet split: sum.splits)
    note S = object_bytes_at [OF s object_bounds(1)]
    show ?thesis
    proof (cases s)
      case None
      then show ?thesis using assms o' Ready s S art
        by (auto simp: representation_quiet source_text_def text_backed_def source_content_def)
    next
      case (Some body)
      obtain a e2 where a: "object_bytes blake3 fs root art (64 * 1024 * 1024) [] = Inr (a, e2)"
        using assms o' Ready s Some by (auto simp: representation_quiet split: sum.splits)
      note A = object_bytes_at [OF a object_bounds(2)]
      show ?thesis
      proof (cases a)
        case None
        then show ?thesis using assms o' Ready s S art Some a A
          by (auto simp: representation_quiet source_text_def text_backed_def source_content_def)
      next
        case Some': (Some bs)
        obtain view e3 where d: "decode_prepared_utf8 blake3 bs (ca_source c) (cp_settings (ca_preparation c)) search_limits [] = Inr (view, e3)"
            "pu_text view = body" "x = Inr (art, view)"
          using assms o' Ready s Some a Some' by (auto simp: representation_quiet mapErr_def split: sum.splits if_splits)
        have st: "source_text fs root c = Inr (art, body)"
          using art S A Some Some' by (simp add: source_text_def source_content_def)
        show ?thesis using decode_Inr [OF d(1)] d(2,3) st S A Some Some' by (auto simp: text_backed_def)
      qed
    qed
  qed
qed

lemma decoded_look_Inr:
  assumes "decoded_look blake3 fs root p c = Inr f"
  shows "(found_items f = decoded_items fs root p c \<and> length (found_hits f) = length (decoded_hits fs root p c) \<and>
    is_missed f = (\<not> is_ok (source_text fs root c)) \<and>
    found_bytes f = (case source_text fs root c of Inl _ \<Rightarrow> 0 | Inr (_, bs) \<Rightarrow> length bs)) \<and> text_backed blake3 fs root c"
proof (cases "representation blake3 fs root c []")
  case (Inr x)
  obtain y env where x: "x = (y, env)" by (cases x)
  show ?thesis using assms representation_source [OF Inr [unfolded x]]
    by (cases y) (auto simp: decoded_look_def Let_def Inr x decoded_items_def decoded_hits_def)
qed (use assms in \<open>simp add: decoded_look_def\<close>)

abbreviation decoded_start :: "PublishedView \<Rightarrow> nat \<Rightarrow> DecodedUtf8Result" where
  "decoded_start view n \<equiv> \<lparr>dx_generation = g_sequence (pv_generation view), dx_selected_sources = n,
     dx_scanned_sources = 0, dx_gap_sources = 0, dx_scanned_bytes = 0, dx_matches = 0, dx_items = [],
     dx_scan_complete = False, dx_complete_negative = False, dx_stop = Complete\<rparr>"

lemma decoded_finish_interruptible [interruptible_intros]: "interruptible search_interrupts (decoded_finish request r)"
  unfolding decoded_finish_def Let_def by (intro interruptible_intros)

lemma decoded_execute_ends: "scans (decoded_execute blake3 fs root view request)"
proof -
  have c: "scans (for_each (decoded_scan_source blake3 fs root lit (dr_limit request)) cs r)"
    if "literal_new (dr_literal request) [] = Some (Inr (lit, []))" for lit cs r
    using literal_new_compile [OF that] by (auto intro!: scans_for_each decoded_scan_ends compile_compiled)
  show ?thesis
    unfolding decoded_execute_def
    by (intro scans_poll interruptible_intros scans_bind_quiet [OF literal_new_scans] scans_bind scans_Some c
        scans_prod_fun)
qed

lemma decoded_execute_Inr:
  assumes "decoded_execute blake3 fs root view request env = Some (Inr (res, env'))"
  shows "\<exists>cs sel r. source_inventory view [] = Inr (cs, []) \<and> select_sources cs (dr_source_ids request) [] = Inr (sel, []) \<and>
    dr_literal request \<noteq> [] \<and>
    for_each (decoded_scan_source blake3 fs root (compile (dr_literal request)) (dr_limit request)) sel
      (decoded_start view (length sel)) [] = Some (Inr (r, [])) \<and>
    decoded_finish request r [] = Inr (res, [])"
proof -
  have q: "decoded_execute blake3 fs root view request [] = Some (Inr (res, []))"
    by (rule scans_Inr [OF decoded_execute_ends assms])
  obtain lit env1 where l: "literal_new (dr_literal request) [] = Some (Inr (lit, env1))"
    using q by (auto simp: decoded_execute_def bindO_Inr res_simps simp del: bindO_Some)
  have e1: "env1 = []" by (rule scans_quiet [OF literal_new_scans l])
  have lit: "dr_literal request \<noteq> []" "lit = compile (dr_literal request)" using literal_new_compile [OF l] by auto
  obtain cs env2 where cs: "source_inventory view [] = Inr (cs, env2)"
    using q l e1 by (auto simp: decoded_execute_def bindO_Inr res_simps simp del: bindO_Some)
  have e2: "env2 = []" using interruptible_Inr [OF source_inventory_interruptible cs] cs by simp
  obtain sel env3 where sel: "select_sources cs (dr_source_ids request) [] = Inr (sel, env3)"
    using q l e1 cs e2 by (auto simp: decoded_execute_def bindO_Inr res_simps simp del: bindO_Some)
  have e3: "env3 = []" using interruptible_Inr [OF select_sources_interruptible sel] sel by simp
  obtain r env4 where r: "for_each (decoded_scan_source blake3 fs root lit (dr_limit request)) sel
        (decoded_start view (length sel)) [] = Some (Inr (r, env4))"
      "decoded_finish request r env4 = Inr (res, [])"
    using q l e1 cs e2 sel e3 by (auto simp: decoded_execute_def bindO_Inr res_simps simp del: bindO_Some)
  have "env4 = []"
    by (rule scans_quiet [OF scans_for_each r(1)]) (use lit in \<open>auto intro: decoded_scan_ends compile_compiled\<close>)
  then show ?thesis using cs e2 sel e3 r lit by blast
qed

end
