(* ===== verification/ExactAnswers.thy ===== *)
theory ExactAnswers
  imports ExactProperties
begin

text \<open>
  The exact searches answer: over a well-formed published view whose objects are intact or missing
  nothing but an interruption refuses a valid request. The core is that the daemon and the client
  agree: the result the daemon builds always passes the validation of the protocol, which checks
  the order of the spelled identities while the daemon scans in the order of their bytes.
\<close>

section \<open>The spelling of identities keeps their order\<close>

lemma append_less_iff:
  "length a = length b \<Longrightarrow> (a @ x < b @ y) \<longleftrightarrow> a < b \<or> a = b \<and> x < (y :: 'a :: linorder list)"
  by (induction a b rule: list_induct2) auto

lemma hex_digits_less:
  assumes "i < j" "j < 16"
  shows "hex_digits ! i < hex_digits ! j"
proof -
  have "sorted_wrt (<) hex_digits" by (simp add: hex_digits_def)
  moreover have "length hex_digits = 16" by (simp add: hex_digits_def)
  ultimately show ?thesis using assms by (simp add: sorted_wrt_iff_nth_less)
qed

lemma hex_pair_less:
  assumes "b < c"
  shows "hex_high b < hex_high c \<or> hex_high b = hex_high c \<and> hex_low b < hex_low c"
proof -
  have m: "x AND 15 = take_bit 4 x" for x :: byte by (simp add: take_bit_eq_mask mask_eq_exp_minus_1)
  have n: "unat (drop_bit 4 x) = unat x div 16" "unat (x AND 15) = unat x mod 16" for x :: byte
    by (simp_all add: m drop_bit_eq_div take_bit_eq_mod unat_div unat_mod)
  have u: "unat b < unat c" using assms by (simp add: word_less_nat_alt)
  have "unat c < 256" by (rule unat_byte_bound)
  then have h: "unat b div 16 < 16" "unat c div 16 < 16" using u by auto
  consider "unat b div 16 < unat c div 16" | "unat b div 16 = unat c div 16" "unat b mod 16 < unat c mod 16"
    using u by (metis div_mult_mod_eq div_le_mono le_neq_implies_less less_imp_le_nat nat_add_left_cancel_less)
  then show ?thesis
  proof cases
    case 1
    then show ?thesis using hex_digits_less [OF 1 h(2)] by (simp add: hex_high_def n)
  next
    case 2
    then show ?thesis using hex_digits_less [OF 2(2)] by (simp add: hex_high_def hex_low_def n)
  qed
qed

lemma hex_bytes_less: "length bs = length cs \<Longrightarrow> bs < cs \<Longrightarrow> hex_bytes bs < hex_bytes cs"
  by (induction bs cs rule: list_induct2) (auto dest: hex_pair_less)

lemma layout_less:
  assumes "length h = 32" "length k = 32" "h < k"
  shows "uuid_layout h < uuid_layout k"
proof -
  have split: "x = take 8 x @ take 4 (drop 8 x) @ take 4 (drop 12 x) @ take 4 (drop 16 x) @ take 12 (drop 20 x)"
    if "length x = 32" for x :: bytes
    using that by (simp add: list_eq_iff_nth_eq nth_append)
  from assms(3) show ?thesis
    by (subst (asm) split [OF assms(1)], subst (asm) split [OF assms(2)])
      (auto simp: uuid_layout_def append_less_iff assms(1,2))
qed

lemma as_bytes_less: "s < t \<longleftrightarrow> as_bytes s < as_bytes t"
proof (induction s arbitrary: t)
  case Nil
  then show ?case by (cases t) (auto simp: as_bytes_def)
next
  case (Cons c s)
  have "(word_of_nat (of_char c) :: byte) < word_of_nat (of_char d) \<longleftrightarrow> c < d" for d
    by (simp add: less_char_def word_less_nat_alt unat_of_nat of_char_bound)
  moreover have "(word_of_nat (of_char c) :: byte) = word_of_nat (of_char d) \<longleftrightarrow> c = d" for d
    using as_bytes_eq_iff [of "[c]" "[d]"] by (simp add: as_bytes_def)
  ultimately show ?case using Cons.IH by (cases t) (auto simp: as_bytes_def)
qed

lemma uuid_to_string_less:
  "length a = 16 \<Longrightarrow> length b = 16 \<Longrightarrow> a < b \<Longrightarrow> uuid_to_string a < uuid_to_string b"
  by (simp add: as_bytes_less as_bytes_uuid_to_string layout_less hex_bytes_less)

section \<open>Citations are valid\<close>

text \<open>What the validation of the protocol expects of a cited source row.\<close>

definition citable :: "CapturedSource \<Rightarrow> bool" where
  "citable c \<longleftrightarrow> (let s = ca_source c in
     length (source_namespace_id s) = 16 \<and> source_namespace_id s \<noteq> replicate 16 0 \<and>
     length (source_id s) = 16 \<and> source_id s \<noteq> replicate 16 0 \<and>
     row_revision s \<noteq> 0 \<and> registration_revision s \<noteq> 0 \<and>
     format_version (object_ref s) = 1 \<and> obj_kind (object_ref s) = Source \<and>
     length (digest (object_ref s)) = 32 \<and> byte_length (object_ref s) \<le> MAX_SOURCE_OBJECT_BYTES)"

lemma canonical_spelling: "length bs = 16 \<Longrightarrow> bs \<noteq> replicate 16 0 \<Longrightarrow> canonical_uuid (uuid_to_string bs)"
  by (rule parsed_uuid_canonical [OF uuid_parse_to_string_aux])

lemma hex_encode_spelling: "hex_spelling (hex_encode bs) (2 * length bs)"
  using hex_bytes_is_hex [of _ bs] by (auto simp: hex_spelling_def hex_encode_def list_all_iff is_hex_def)

lemma hex_encode_pairs: "hex_pairs_match (as_bytes (hex_encode bs)) bs"
  unfolding hex_encode_def as_bytes_of_bytes by (induction bs) simp_all

lemma citable_citation: "citable c \<Longrightarrow> raw_source_validate (citation (ca_source c)) = Inr ()"
  using hex_encode_spelling [of "digest (object_ref (ca_source c))"]
  by (simp add: citable_def Let_def raw_source_validate_def citation_def dto_of_def canonical_spelling
      object_dto_validate_def MAX_SOURCE_OBJECT_BYTES_def)

section \<open>The items are valid and in order\<close>

fun is_match :: "RawExactItem \<Rightarrow> bool" where
  "is_match (RMatch _) = True"
| "is_match (RGap _) = False"

definition prior_items :: "RawExactItem option \<Rightarrow> RawExactItem list \<Rightarrow> RawExactItem list" where
  "prior_items previous items = (case previous of None \<Rightarrow> items | Some p \<Rightarrow> p # items)"

lemma raw_items_loop_run:
  assumes "\<forall>item \<in> set items. raw_item_validate item = Inr ()" "sorted_wrt raw_before (prior_items previous items)"
  shows "raw_items_loop previous items m g =
    Inr (m + length (filter is_match items), g + length (filter (\<lambda>i. \<not> is_match i) items))"
  using assms
proof (induction items arbitrary: previous m g)
  case (Cons item items)
  have b: "case previous of None \<Rightarrow> True | Some p \<Rightarrow> raw_ordered p item = Inr ()"
    using Cons.prems(2) raw_ordered_before by (cases previous) (auto simp: prior_items_def)
  have "sorted_wrt raw_before (prior_items (Some item) items)"
    using Cons.prems(2) by (cases previous) (auto simp: prior_items_def)
  note IH = Cons.IH [OF _ this]
  show ?case using b Cons.prems(1) IH
    by (cases item; cases previous) (simp_all del: raw_ordered.simps)
qed simp

lemma occurrences_sorted: "sorted_wrt (\<lambda>a b. fst a < fst b) (occurrences p bs)"
  by (simp add: occurrences_def sorted_wrt_map sorted_wrt_filter)

lemma occurrences_count: "p \<noteq> [] \<Longrightarrow> length (occurrences p bs) \<le> length bs"
  unfolding occurrences_def length_map by (rule le_trans [OF length_filter_le]) (cases p, auto)

definition intact :: "files \<Rightarrow> path \<Rightarrow> CapturedSource \<Rightarrow> bool" where
  "intact fs root c \<longleftrightarrow> (\<forall>bs. source_content fs root c = Some bs \<longrightarrow> length bs = byte_length (object_ref (ca_source c)))"

lemma raw_items_valid:
  assumes "citable c" "intact fs root c" "p \<noteq> []" "length p \<le> MAX_QUERY_BYTES" "item \<in> set (raw_items fs root p c)"
  shows "raw_item_validate item = Inr ()" and "raw_item_source item = citation (ca_source c)"
proof -
  have v: "raw_source_validate (citation (ca_source c)) = Inr ()" by (rule citable_citation [OF assms(1)])
  have "raw_item_validate item = Inr () \<and> raw_item_source item = citation (ca_source c)"
  proof (cases "source_content fs root c")
    case None
    then show ?thesis using v assms(5) by (simp add: raw_items_def raw_gap_def raw_item_validate_def)
  next
    case (Some bs)
    then obtain i j where ij: "(i, j) \<in> set (occurrences p bs)" "item = raw_match p (citation (ca_source c)) (i, j)"
      using assms(5) by (auto simp: raw_items_def)
    have r: "i \<le> j" "j \<le> length bs" "j - i = length p" using occurrences_range [OF ij(1)] by auto
    have "length bs = byte_length (object_ref (ca_source c))" using assms(2) Some by (simp add: intact_def)
    then have "j \<le> od_bytes (rs_input (citation (ca_source c)))" using r by (simp add: citation_def dto_of_def)
    then show ?thesis using v r assms(3,4) hex_encode_spelling [of p]
      by (simp add: ij(2) raw_match_def raw_item_validate_def checked_sub_def mult.commute)
  qed
  then show "raw_item_validate item = Inr ()" and "raw_item_source item = citation (ca_source c)" by auto
qed

lemma raw_items_before:
  assumes "sorted_wrt (\<lambda>a b. source_id (ca_source a) < source_id (ca_source b)) sel"
    and "\<forall>c \<in> set sel. length (source_id (ca_source c)) = 16 \<and> source_namespace_id (ca_source c) = ns"
  shows "sorted_wrt raw_before (concat (map (raw_items fs root p) sel))"
  using assms
proof (induction sel)
  case (Cons c sel)
  have src: "raw_item_source i = citation (ca_source d)" if "i \<in> set (raw_items fs root p d)" for i d
    using that by (auto simp: raw_items_def raw_gap_def raw_match_def split: option.splits)
  have own: "sorted_wrt raw_before (raw_items fs root p c)"
    by (auto simp: raw_items_def sorted_wrt_map raw_match_def raw_before_def split: option.splits
        intro: sorted_wrt_mono_rel [OF _ occurrences_sorted])
  have "raw_before i j" if i: "i \<in> set (raw_items fs root p c)" and j: "j \<in> set (raw_items fs root p d)" and d: "d \<in> set sel" for i j d
    using src [OF i] src [OF j] d Cons.prems uuid_to_string_less [of "source_id (ca_source c)" "source_id (ca_source d)"]
    by (auto simp: raw_before_def citation_def)
  then show ?case using own Cons by (auto simp: sorted_wrt_append)
qed simp

section \<open>The reference result is valid\<close>

lemma count_matches: "length (filter is_match (concat (map (raw_items fs root p) sel))) = length (concat (map (raw_hits fs root p) sel))"
proof (induction sel)
  case (Cons c sel)
  have "filter is_match (raw_items fs root p c) = map (raw_match p (citation (ca_source c))) (raw_hits fs root p c)"
    by (auto simp: raw_items_def raw_hits_def raw_gap_def raw_match_def filter_map o_def split: option.splits)
  then show ?case using Cons by simp
qed simp

lemma count_gaps: "length (filter (\<lambda>i. \<not> is_match i) (concat (map (raw_items fs root p) sel))) =
    length (filter (\<lambda>c. source_content fs root c = None) sel)"
proof (induction sel)
  case (Cons c sel)
  have "length (filter (\<lambda>i. \<not> is_match i) (raw_items fs root p c)) = (if source_content fs root c = None then 1 else 0)"
    by (auto simp: raw_items_def raw_gap_def raw_match_def filter_map o_def split: option.splits)
  then show ?case using Cons by simp
qed simp

lemma hits_bytes:
  assumes "p \<noteq> []"
  shows "length (concat (map (raw_hits fs root p) sel)) \<le>
    sum_list (map (\<lambda>c. case source_content fs root c of None \<Rightarrow> 0 | Some bs \<Rightarrow> length bs) sel)"
proof (induction sel)
  case (Cons c sel)
  have "length (raw_hits fs root p c) \<le> (case source_content fs root c of None \<Rightarrow> 0 | Some bs \<Rightarrow> length bs)"
    using occurrences_count [OF assms] by (auto simp: raw_hits_def split: option.splits)
  then show ?case using Cons by simp
qed simp

lemma filter_take_le: "length (filter P (take n xs)) \<le> length (filter P xs)"
  by (metis append_take_drop_id filter_append le_add1 length_append)

text \<open>A selection that the validation of a result accepts.\<close>

definition well_selected :: "CapturedSource list \<Rightarrow> string list option \<Rightarrow> bool" where
  "well_selected sel ids \<longleftrightarrow>
     sorted_wrt (\<lambda>a b. source_id (ca_source a) < source_id (ca_source b)) sel \<and>
     (\<exists>ns. \<forall>c \<in> set sel. source_namespace_id (ca_source c) = ns) \<and>
     (case ids of None \<Rightarrow> True
      | Some l \<Rightarrow> distinct l \<and> set l = (\<lambda>c. uuid_to_string (source_id (ca_source c))) ` set sel)"

lemma selection_count:
  assumes "well_selected sel (Some l)" "\<forall>c \<in> set sel. length (source_id (ca_source c)) = 16"
  shows "length l = length sel"
proof -
  let ?f = "\<lambda>c. uuid_to_string (source_id (ca_source c))"
  have "sorted_wrt (<) (map ?f sel)"
    using assms by (auto simp: well_selected_def sorted_wrt_map intro: sorted_wrt_mono_rel [rotated] uuid_to_string_less)
  then have "distinct (map ?f sel)" by (rule sorted_wrt_distinct [rotated]) simp
  then show ?thesis using assms(1) distinct_card [of l] distinct_card [of "map ?f sel"] by (simp add: well_selected_def)
qed

lemma raw_bytes_bound:
  assumes "\<forall>c \<in> set sel. citable c \<and> intact fs root c" "length sel \<le> MAX_SOURCES"
  shows "sum_list (map (\<lambda>c. case source_content fs root c of None \<Rightarrow> 0 | Some bs \<Rightarrow> length bs) sel) \<le> 2 ^ 35"
proof -
  have "sum_list (map (\<lambda>c. case source_content fs root c of None \<Rightarrow> 0 | Some bs \<Rightarrow> length bs) sel) \<le>
      sum_list (map (\<lambda>c. MAX_SOURCE_OBJECT_BYTES) sel)"
    using assms(1) by (intro sum_list_mono) (auto simp: citable_def intact_def Let_def split: option.splits)
  also have "\<dots> \<le> MAX_SOURCES * MAX_SOURCE_OBJECT_BYTES"
    using assms(2) by (simp add: sum_list_triv)
  finally show ?thesis by (simp add: MAX_SOURCES_def MAX_SOURCE_OBJECT_BYTES_def)
qed

lemma raw_reference_valid:
  assumes "raw_request_validate request = Inr ()" "g \<noteq> 0" "length sel \<le> MAX_SOURCES"
    and "\<forall>c \<in> set sel. citable c \<and> intact fs root c" "well_selected sel (rr_source_ids request)"
  shows "raw_result_validate_request (raw_reference fs root g (rr_literal request) (rr_limit request) sel) request = Inr ()"
proof -
  let ?p = "rr_literal request" and ?n = "rr_limit request"
  let ?all = "concat (map (raw_items fs root ?p) sel)"
  let ?m = "length (concat (map (raw_hits fs root ?p) sel))"
  let ?g = "length (filter (\<lambda>c. source_content fs root c = None) sel)"
  let ?b = "sum_list (map (\<lambda>c. case source_content fs root c of None \<Rightarrow> 0 | Some bs \<Rightarrow> length bs) sel)"
  let ?r = "raw_reference fs root g ?p ?n sel"
  have req: "?p \<noteq> []" "length ?p \<le> MAX_QUERY_BYTES" "?n \<noteq> 0" "?n \<le> MAX_ITEMS"
    using assms(1) by (auto simp: raw_request_validate_def res_simps)
  have mb: "?m \<le> ?b" by (rule hits_bytes [OF req(1)])
  have bb: "?b \<le> 2 ^ 35" by (rule raw_bytes_bound [OF assms(4,3)])
  have gl: "?g \<le> length sel" by (rule length_filter_le)
  have sl: "length sel \<le> 4096" using assms(3) by (simp add: MAX_SOURCES_def)
  have "?m + ?g \<le> 2 ^ 35 + 4096" using mb bb gl sl by linarith
  also have "2 ^ 35 + 4096 < u64_bound" by simp
  finally have small: "?m + ?g < u64_bound" "length sel < u64_bound" using sl by simp_all
  have total: "length ?all = ?m + ?g"
    using sum_length_filter_compl [of is_match ?all] unfolding count_matches count_gaps by simp
  have scanned: "length (filter (\<lambda>c. source_content fs root c \<noteq> None) sel) + ?g = length sel"
    using sum_length_filter_compl [of "\<lambda>c. source_content fs root c \<noteq> None" sel] by simp
  have all_scanned: "(filter (\<lambda>c. source_content fs root c = None) sel = []) =
      (length (filter (\<lambda>c. source_content fs root c \<noteq> None) sel) = length sel)"
    using scanned by (metis add_cancel_right_right length_0_conv)
  have none: "?b = 0" if "filter (\<lambda>c. source_content fs root c \<noteq> None) sel = []"
    using that by (induction sel) (auto split: if_splits)
  obtain ns where ns: "\<forall>c \<in> set sel. source_namespace_id (ca_source c) = ns" using assms(5) by (auto simp: well_selected_def)
  have ids: "\<forall>c \<in> set sel. length (source_id (ca_source c)) = 16" using assms(4) by (simp add: citable_def Let_def)
  have "sorted_wrt raw_before ?all"
    by (rule raw_items_before) (use assms(5) ns ids in \<open>auto simp: well_selected_def\<close>)
  then have srt: "sorted_wrt raw_before (prior_items None (take ?n ?all))"
    by (simp add: prior_items_def sorted_wrt_take)
  have src: "\<exists>c \<in> set sel. item \<in> set (raw_items fs root ?p c)" if "item \<in> set (take ?n ?all)" for item
    using in_set_takeD [OF that] by auto
  have val: "\<forall>item \<in> set (take ?n ?all). raw_item_validate item = Inr ()"
    using src raw_items_valid(1) [OF _ _ req(1,2)] assms(4) by blast
  note loop = raw_items_loop_run [OF val srt, of 0 0]
  have lm: "length (filter is_match (take ?n ?all)) \<le> ?m" "length (filter (\<lambda>i. \<not> is_match i) (take ?n ?all)) \<le> ?g"
    using filter_take_le [of is_match ?n ?all] filter_take_le [of "\<lambda>i. \<not> is_match i" ?n ?all]
    unfolding count_matches count_gaps by auto
  have "raw_result_validate ?r ?n = Inr ()"
    using req assms(2) small total scanned all_scanned none lm mb loop
    by (simp add: raw_result_validate_def raw_reference_def Let_def checked_add64_def)
  moreover have "selection_binds (rr_source_ids request) (rx_selected_sources ?r) (map (rs_source_id \<circ> raw_item_source) (rx_items ?r)) = Inr ()"
  proof (cases "rr_source_ids request")
    case (Some l)
    have "rs_source_id (raw_item_source item) \<in> set l" if "item \<in> set (take ?n ?all)" for item
      using src [OF that] raw_items_valid(2) [OF _ _ req(1,2)] assms(4,5) Some by (auto simp: well_selected_def citation_def)
    then have sub: "(\<lambda>x. rs_source_id (raw_item_source x)) ` set (take ?n ?all) \<subseteq> set l" by blast
    have "length l = length sel" using Some selection_count [of sel l] assms(5) ids by simp
    then show ?thesis using Some sub small(2)
      by (simp add: selection_binds_def raw_reference_def Let_def try_from_def)
  qed (simp add: selection_binds_def)
  moreover have "\<not> list_ex (\<lambda>item. case item of
         RMatch hit \<Rightarrow> rm_end hit - rm_start hit \<noteq> length ?p \<or> \<not> hex_pairs_match (as_bytes (rm_bytes_hex hit)) ?p
       | RGap _ \<Rightarrow> False) (rx_items ?r)"
  proof -
    have "case item of RMatch hit \<Rightarrow> rm_end hit - rm_start hit = length ?p \<and> hex_pairs_match (as_bytes (rm_bytes_hex hit)) ?p
       | RGap _ \<Rightarrow> True" if it: "item \<in> set (raw_items fs root ?p c)" for item c
    proof (cases "source_content fs root c")
      case (Some bs)
      then obtain x where x: "x \<in> set (occurrences ?p bs)" "item = raw_match ?p (citation (ca_source c)) x"
        using it by (auto simp: raw_items_def)
      then show ?thesis using occurrences_range [of "fst x" "snd x" ?p bs] hex_encode_pairs [of ?p] by (simp add: raw_match_def)
    qed (use it in \<open>simp add: raw_items_def raw_gap_def\<close>)
    then have "\<forall>item \<in> set (take ?n ?all). case item of
        RMatch hit \<Rightarrow> rm_end hit - rm_start hit = length ?p \<and> hex_pairs_match (as_bytes (rm_bytes_hex hit)) ?p
      | RGap _ \<Rightarrow> True" using src by blast
    then show ?thesis by (auto simp: list_ex_iff raw_reference_def Let_def dest!: bspec split: RawExactItem.splits)
  qed
  ultimately show ?thesis using assms(1) by (simp add: raw_result_validate_request_def)
qed

section \<open>Progress\<close>

lemma literal_new_quiet: "p \<noteq> [] \<Longrightarrow> literal_new p [] = Some (Inr (compile p, []))"
  using build_prefix_total [of p] by (auto simp: literal_new_def compile_def)

lemma parse_selection_run:
  assumes "\<forall>i \<in> set l. \<exists>c \<in> set cs. i = uuid_to_string (source_id (ca_source c)) \<and> length (source_id (ca_source c)) = 16"
  shows "\<exists>xs. parse_selection cs acc l [] = Inr (xs, [])"
  using assms
proof (induction l arbitrary: acc)
  case (Cons i l)
  obtain c where c: "c \<in> set cs" "i = uuid_to_string (source_id (ca_source c))" "length (source_id (ca_source c)) = 16"
    using Cons.prems by auto
  have "uuid_parse i = Inr (source_id (ca_source c))" using uuid_parse_to_string_aux [OF c(3)] c(2) by simp
  then show ?case using Cons c(1) by auto
qed simp

lemma validate_ids_distinct: "validate_ids prior ids = Inr () \<Longrightarrow> distinct prior \<Longrightarrow> distinct (prior @ ids)"
  by (induction prior ids rule: validate_ids.induct) (auto split: if_splits)

lemma selected_well:
  assumes "source_inventory view [] = Inr (cs, [])" "db_ok (pv_transaction view)" "validate_selection ids = Inr ()"
    and "\<And>l. ids = Some l \<Longrightarrow> set l \<subseteq> (\<lambda>c. uuid_to_string (source_id (ca_source c))) ` set cs"
  shows "well_selected (selected_from cs ids) ids" and "length (selected_from cs ids) \<le> MAX_SOURCES"
    and "select_sources cs ids [] = Inr (selected_from cs ids, [])"
proof -
  note I = source_inventory_Inr [OF assms(1,2)]
  have id: "\<And>c. c \<in> set cs \<Longrightarrow> length (source_id (ca_source c)) = 16" using captured_row_id [OF I(1)] .
  have srt: "sorted_wrt (\<lambda>a b. source_id (ca_source a) < source_id (ca_source b)) (selected_from cs ids)"
    using I(3) by (cases ids) (auto simp: selected_from_def sorted_wrt_filter)
  have sub: "set (selected_from cs ids) \<subseteq> set cs" by (cases ids) (auto simp: selected_from_def)
  show "well_selected (selected_from cs ids) ids"
  proof (cases ids)
    case None
    then show ?thesis using srt I(2) sub by (auto simp: well_selected_def)
  next
    case (Some l)
    have "distinct l" using assms(3) Some validate_ids_distinct [of "[]" l] by (simp add: validate_selection_def)
    moreover have "set l = (\<lambda>c. uuid_to_string (source_id (ca_source c))) ` set (selected_from cs ids)"
      using assms(4) [OF Some] Some by (auto simp: selected_from_def)
    ultimately show ?thesis using srt I(2) sub Some by (auto simp: well_selected_def)
  qed
  have "length (selected_from cs ids) \<le> length cs" by (cases ids) (simp_all add: selected_from_def)
  then show "length (selected_from cs ids) \<le> MAX_SOURCES" using I(5) by simp
  have "\<exists>sel. select_sources cs ids [] = Inr (sel, [])"
  proof (cases ids)
    case (Some l)
    obtain xs where "parse_selection cs [] l [] = Inr (xs, [])"
      using parse_selection_run [of l cs "[]"] assms(4) [OF Some] id by blast
    then show ?thesis using Some by (simp add: select_sources_def)
  qed (simp add: select_sources_def)
  then show "select_sources cs ids [] = Inr (selected_from cs ids, [])" using select_sources_Inr [OF _ id] by blast
qed

lemma raw_finish_reference:
  assumes "raw_tally r = tally_all (rr_limit request) fs' \<lparr>ta_scanned = 0, ta_gaps = 0, ta_bytes = 0, ta_matches = 0, ta_items = []\<rparr>"
    and "raw_rest r = (g, length sel, Complete)"
    and "list_all2 (\<lambda>c f. found_items f = raw_items fs root (rr_literal request) c
      \<and> length (found_hits f) = length (raw_hits fs root (rr_literal request) c)
      \<and> is_missed f = (source_content fs root c = None)
      \<and> found_bytes f = (case source_content fs root c of None \<Rightarrow> 0 | Some bs \<Rightarrow> length bs)) sel fs'"
    and "rx_matches r + rx_missing_sources r < u64_bound"
    and "raw_result_validate_request (raw_reference fs root g (rr_literal request) (rr_limit request) sel) request = Inr ()"
  shows "raw_finish request r [] = Inr (raw_reference fs root g (rr_literal request) (rr_limit request) sel, [])"
proof -
  let ?r = "r\<lparr>rx_scan_complete := rx_missing_sources r = 0,
      rx_complete_negative := rx_missing_sources r = 0 \<and> rx_matches r = 0,
      rx_stop := if length (rx_items r) \<noteq> rx_matches r + rx_missing_sources r then OutputLimit else rx_stop r\<rparr>"
  have "length (rx_items r) \<le> rx_matches r + rx_missing_sources r"
    using assms(1) tally_total [of fs'] by (simp add: raw_tally_def tally_all_def)
  then have eq: "raw_finish request r [] = bindE (mapErr protocol_failure (raw_result_validate_request ?r request)) (\<lambda>_. Inr (?r, []))"
    using assms(4) by (simp add: raw_finish_def Let_def checked_add64_def try_from_def)
  have "?r = raw_reference fs root g (rr_literal request) (rr_limit request) sel"
    using assms(1,2) tally_items [OF assms(3)] tally_total [of fs']
    by (auto simp: raw_reference_def Let_def raw_tally_def raw_rest_def tally_all_def)
  then show ?thesis unfolding eq using assms(5) by simp
qed

lemma raw_runs:
  assumes "db_ok (pv_transaction view)" "source_inventory view [] = Inr (cs, [])" "g_sequence (pv_generation view) \<noteq> 0"
    and "raw_request_validate request = Inr ()"
    and "\<And>l. rr_source_ids request = Some l \<Longrightarrow> set l \<subseteq> (\<lambda>c. uuid_to_string (source_id (ca_source c))) ` set cs"
    and "\<And>c. c \<in> set (selected_from cs (rr_source_ids request)) \<Longrightarrow> citable c \<and> is_ok (raw_look blake3 fs root (rr_literal request) c)"
  shows "raw_execute blake3 fs root view request [] = Some (Inr (raw_reference fs root (g_sequence (pv_generation view))
    (rr_literal request) (rr_limit request) (selected_from cs (rr_source_ids request)), []))"
proof -
  let ?sel = "selected_from cs (rr_source_ids request)" and ?p = "rr_literal request"
  let ?ref = "raw_reference fs root (g_sequence (pv_generation view)) ?p (rr_limit request) ?sel"
  have req: "?p \<noteq> []" "validate_selection (rr_source_ids request) = Inr ()"
    using assms(4) by (auto simp: raw_request_validate_def res_simps)
  note S = selected_well [OF assms(2,1) req(2) assms(5)]
  have "\<forall>c \<in> set ?sel. \<exists>f. raw_look blake3 fs root ?p c = Inr f" using assms(6) by (auto simp: is_ok_iff)
  then obtain F where F: "\<forall>c \<in> set ?sel. raw_look blake3 fs root ?p c = Inr (F c)" by metis
  let ?fs = "map F ?sel"
  have look: "map (raw_look blake3 fs root ?p) ?sel = map Inr ?fs" using F by simp
  have T: "list_all2 (\<lambda>c f. found_items f = raw_items fs root ?p c \<and> length (found_hits f) = length (raw_hits fs root ?p c)
      \<and> is_missed f = (source_content fs root c = None)
      \<and> found_bytes f = (case source_content fs root c of None \<Rightarrow> 0 | Some bs \<Rightarrow> length bs)) ?sel ?fs"
    using F raw_look_Inr by (auto simp: list_all2_map2 intro!: list.rel_refl_strong)
  have cit: "\<forall>c \<in> set ?sel. citable c \<and> intact fs root c"
    using assms(6) F raw_look_Inr by (auto simp: intact_def verified_def)
  note V = raw_reference_valid [OF assms(4,3) S(2) cit S(1)]
  have small: "ta_matches (tally_all (rr_limit request) ?fs t) \<le> ta_matches t + 2 ^ 35"
      "ta_bytes (tally_all (rr_limit request) ?fs t) \<le> ta_bytes t + 2 ^ 35" for t
    using tally_items [OF T] hits_bytes [OF req(1), of fs root ?sel] raw_bytes_bound [OF cit S(2)]
    by (simp_all add: tally_all_def)
  obtain b p where p: "?p = b # p" using req(1) by (cases ?p) auto
  let ?r = "\<lparr>rx_generation = g_sequence (pv_generation view), rx_selected_sources = length ?sel,
         rx_scanned_sources = 0, rx_missing_sources = 0, rx_scanned_bytes = 0, rx_matches = 0,
         rx_items = [], rx_scan_complete = False, rx_complete_negative = False, rx_stop = Complete\<rparr>"
  have "tally_fits (tally_all (rr_limit request) ?fs (raw_tally ?r))"
    using small [of "raw_tally ?r"] by (auto simp: tally_fits_def raw_tally_def)
  then obtain r where r: "for_each (\<lambda>entry. raw_scan_source blake3 fs root (compile ?p) (rr_limit request) (ca_source entry))
      ?sel ?r [] = Some (Inr (r, []))"
    using raw_scan.all_found [OF look [unfolded p]] unfolding p by blast
  obtain gs where gs: "map (raw_look blake3 fs root ?p) ?sel = map Inr gs" "raw_tally r = tally_all (rr_limit request) gs (raw_tally ?r)"
      "raw_rest r = raw_rest ?r"
    using raw_scan.all_tally [OF r [unfolded p]] unfolding p by blast
  have "gs = ?fs" using gs(1) look by (simp add: inj_map_eq_map [OF inj_Inr] del: map_map)
  then have rt: "raw_tally r = tally_all (rr_limit request) ?fs (raw_tally ?r)" using gs(2) by simp
  have len: "length ?sel < u64_bound" using S(2) by (simp add: MAX_SOURCES_def)
  have m: "rx_matches r \<le> 2 ^ 35"
    using small(1) [of "raw_tally ?r"] arg_cong [OF rt, of ta_matches] by (simp add: raw_tally_def)
  have "rx_missing_sources r \<le> length ?fs" using rt by (simp add: raw_tally_def tally_all_def)
  then have "rx_missing_sources r \<le> 4096" using S(2) by (simp add: MAX_SOURCES_def)
  then have "rx_matches r + rx_missing_sources r \<le> 2 ^ 35 + 4096" using m by linarith
  also have "2 ^ 35 + 4096 < u64_bound" by simp
  finally have sum: "rx_matches r + rx_missing_sources r < u64_bound" .
  have fin: "raw_finish request r [] = Inr (?ref, [])"
    by (rule raw_finish_reference [OF _ _ T sum V]) (use rt gs(3) in \<open>simp_all add: raw_tally_def raw_rest_def\<close>)
  show ?thesis
    using assms(2,4) S(3) len r fin literal_new_quiet [OF req(1)]
    by (simp add: raw_execute_def try_from_def)
qed

lemma raw_answers:
  assumes "db_ok (pv_transaction view)" "source_inventory view [] = Inr (cs, [])" "g_sequence (pv_generation view) \<noteq> 0"
    and "raw_request_validate request = Inr ()"
    and "\<And>l. rr_source_ids request = Some l \<Longrightarrow> set l \<subseteq> (\<lambda>c. uuid_to_string (source_id (ca_source c))) ` set cs"
    and "\<And>c. c \<in> set (selected_from cs (rr_source_ids request)) \<Longrightarrow> citable c \<and> is_ok (raw_look blake3 fs root (rr_literal request) c)"
  shows "case raw_execute blake3 fs root view request env of
      None \<Rightarrow> False
    | Some (Inl e) \<Rightarrow> e \<in> search_interrupts
    | Some (Inr (res, _)) \<Rightarrow> res = raw_reference fs root (g_sequence (pv_generation view)) (rr_literal request)
        (rr_limit request) (selected_from cs (rr_source_ids request))"
  using raw_runs [OF assms] scans_returns [OF raw_execute_ends, of blake3 fs root view request env]
    scans_Inl [OF raw_execute_ends, of blake3 fs root view request env]
    scans_Inr [OF raw_execute_ends, of blake3 fs root view request env]
  by (auto split: sum.splits)

end
