(* ===== verification/ExactExample.thy ===== *)
theory ExactExample
  imports ExactAnswers
begin

text \<open>
  A concrete published generation of one prepared source, with its objects on disk, for the exact
  searches: the source and the artifact of the preparation example.
\<close>

definition xs_artifact :: bytes where
  "xs_artifact = fst (projr (prepare_utf8 Artifact.ex_hash Artifact.ex_source Artifact.ex_text Artifact.ex_settings Artifact.ex_limits []))"

definition xs_ref :: ObjectRef where
  "xs_ref = object_prepared (Artifact.ex_hash xs_artifact) (length xs_artifact)"

definition xs_captured :: CapturedSource where
  "xs_captured = \<lparr>ca_source = Artifact.ex_source,
     ca_preparation = \<lparr>cp_namespace_id = replicate 16 1, cp_source_id = replicate 16 2, cp_settings_revision = 1,
       cp_settings = Artifact.ex_settings, cp_outcome_revision = 1,
       cp_outcome = Some \<lparr>bo_source_row_revision = 1, bo_registration_revision = 1,
         bo_input = object_ref Artifact.ex_source, bo_settings = Artifact.ex_settings, bo_result = Ready xs_ref\<rparr>\<rparr>\<rparr>"

definition xs_entry :: SourceEntry where
  "xs_entry = \<lparr>se_captured = xs_captured, se_staged_units = 3, se_complete = True\<rparr>"

definition xs_view :: PublishedView where
  "xs_view = \<lparr>pv_generation = \<lparr>g_namespace = replicate 16 3, g_sequence = 1, g_wanted_revision = 1, g_source_count = 1,
       g_gap_count = 0, g_point_count = 3, g_page_count = 1\<rparr>,
     pv_transaction = \<lparr>db_tables = [(SOURCES, [(gen_key 1 (replicate 16 2), projr (encode_entry xs_entry))]),
       (STATE, [(STATE_KEY, [1])]), (EVIDENCE, []), (PAGES, [])],
       db_multimaps = []\<rparr>\<rparr>"

definition xs_name :: "ObjectRef \<Rightarrow> string" where
  "xs_name r = ''v'' @ decimal 1 @ ''-'' @ kind_name (obj_kind r) @ ''-'' @ hex_encode (digest r)"

definition xs_files :: files where
  "xs_files = [(object_dir [] @ [xs_name (object_ref Artifact.ex_source)], FileEntry Artifact.ex_text),
     (object_dir [] @ [xs_name xs_ref], FileEntry xs_artifact)]"

definition xs_id :: string where "xs_id = ''02020202-0202-0202-0202-020202020202''"

definition xs_units :: "UnitSpan list" where
  "xs_units = [\<lparr>us_start = 0, us_end = 3, us_line_start = 0, us_line_end = 1, us_starts_at_line = True, us_ends_at_line = True\<rparr>,
     \<lparr>us_start = 3, us_end = 5, us_line_start = 1, us_line_end = 2, us_starts_at_line = True, us_ends_at_line = False\<rparr>,
     \<lparr>us_start = 5, us_end = 8, us_line_start = 1, us_line_end = 2, us_starts_at_line = False, us_ends_at_line = True\<rparr>]"

lemma xs_prepared:
  "xs_artifact = artifact_bytes Artifact.ex_source Artifact.ex_settings Artifact.ex_text xs_units"
  "units_from (fit_end Artifact.ex_text (max_unit_bytes Artifact.ex_settings)) Artifact.ex_text 0 xs_units"
  "length xs_artifact \<le> 1024"
proof -
  obtain art where p: "prepare_utf8 Artifact.ex_hash Artifact.ex_source Artifact.ex_text Artifact.ex_settings Artifact.ex_limits [] = Inr (art, [])"
    using Artifact.ex_prepared by blast
  then have a: "xs_artifact = art" by (simp add: xs_artifact_def)
  obtain units where u: "art = artifact_bytes Artifact.ex_source Artifact.ex_settings Artifact.ex_text units"
      "units_from (good_end Artifact.ex_text (max_unit_bytes Artifact.ex_settings)) Artifact.ex_text 0 units"
      "length art \<le> pl_max_encoded_bytes Artifact.ex_limits"
      "unitize_text (materialized Artifact.ex_text) Artifact.ex_settings Artifact.ex_limits [] = Inr (units, [])"
    using prepare_Inr [OF p Artifact.ex_wf(1)] .
  have "units = xs_units" using u(4) Artifact.ex_units by (simp add: xs_units_def)
  then show "xs_artifact = artifact_bytes Artifact.ex_source Artifact.ex_settings Artifact.ex_text xs_units"
    "units_from (fit_end Artifact.ex_text (max_unit_bytes Artifact.ex_settings)) Artifact.ex_text 0 xs_units"
    "length xs_artifact \<le> 1024"
    using units_from_mono [OF u(2)] good_end_fit u(1,3) a by (auto simp: Artifact.ex_limits_def)
qed

lemma xs_decoded:
  "decode_prepared_utf8 Artifact.ex_hash xs_artifact Artifact.ex_source Artifact.ex_settings search_limits [] =
     Inr (\<lparr>pu_text = Artifact.ex_text, pu_units = xs_units\<rparr>, [])"
proof -
  have adm: "admitted Artifact.ex_source Artifact.ex_settings search_limits"
    using Artifact.ex_wf
    by (simp add: admitted_def search_limits_def Artifact.ex_source_def object_source_def MAX_SOURCE_OBJECT_BYTES_def
        prep_limits_validate_def mul_fits_isize_def checked_mul64_def size_of_LineSpan_def size_of_UnitSpan_def)
  have "length xs_units = 3" by (simp add: xs_units_def)
  then show ?thesis
    using decode_app [OF Artifact.ex_wf(1) adm Artifact.ex_admitted(2) Artifact.ex_valid xs_prepared(2)] xs_prepared(1,3)
    by (simp add: Artifact.ex_split search_limits_def)
qed

section \<open>The inventory of the example\<close>

lemma xs_ref_ok: "wf_object xs_ref" "obj_kind xs_ref = Prepared" "format_version xs_ref = 1" "length (digest xs_ref) = 32"
    "byte_length xs_ref = length xs_artifact" "length xs_artifact \<le> 1024" "valid_object xs_ref Prepared"
proof -
  show len: "length xs_artifact \<le> 1024" by (rule xs_prepared(3))
  show "obj_kind xs_ref = Prepared" "format_version xs_ref = 1" "length (digest xs_ref) = 32"
    "byte_length xs_ref = length xs_artifact"
    by (simp_all add: xs_ref_def object_prepared_def Artifact.ex_hash_def SOURCE_OBJECT_FORMAT_VERSION_def)
  moreover have "xs_artifact \<noteq> []"
    unfolding xs_prepared(1) by (simp add: artifact_bytes_def Artifact.ex_text_def)
  ultimately show "wf_object xs_ref" "valid_object xs_ref Prepared"
    using len by (simp_all add: wf_object_def valid_object_def SOURCE_OBJECT_FORMAT_VERSION_def)
qed

lemma xs_storable: "storable_entry xs_entry"
  using xs_ref_ok Artifact.ex_wf
  by (simp add: storable_entry_def xs_entry_def xs_captured_def captured_matches_def matches_input_def storable_source_def
      storable_prep_def wf_bound_def Artifact.ex_source_def Artifact.ex_settings_def object_source_def as_bytes_def
      MAX_SOURCE_OBJECT_BYTES_def MAX_LOCATOR_BYTES_def wf_source_def wf_settings_def wf_object_def)

lemma xs_encoded: "\<exists>bs. encode_entry xs_entry = Inr bs \<and> decode_source bs = Inr xs_entry"
proof -
  have "\<exists>s. encode_record Artifact.ex_source = Inr s \<and> length s \<le> 200"
    by (simp add: encode_record_def Artifact.ex_source_def object_source_def as_bytes_def try_from_def Artifact.ex_hash_def
      MAX_LOCATOR_BYTES_def SOURCE_OBJECT_FORMAT_VERSION_def)
  moreover have "\<exists>p. prep_encode (ca_preparation xs_captured) = Inr p \<and> length p \<le> 300"
    using xs_ref_ok Artifact.ex_wf(2)
    by (simp add: prep_encode_def prep_validate_def xs_captured_def Artifact.ex_source_def object_source_def valid_object_def
      MAX_SOURCE_OBJECT_BYTES_def Let_def put_settings_def put_object_def Artifact.ex_hash_def SOURCE_OBJECT_FORMAT_VERSION_def)
  ultimately have "\<exists>bs. encode_entry xs_entry = Inr bs"
    by (auto simp: encode_entry_def encode_source_def xs_entry_def xs_captured_def checked_add64_def try_from_def)
  then show ?thesis using entries.dec_enc [OF xs_storable] by blast
qed

lemma xs_view_ok: "db_ok (pv_transaction xs_view)"
  by (simp add: xs_view_def db_ok_def tbl_ok_def list_tables_def SOURCES_def STATE_def EVIDENCE_def PAGES_def)

lemma xs_inventory: "source_inventory xs_view [] = Inr ([xs_captured], [])"
proof -
  obtain bs where bs: "encode_entry xs_entry = Inr bs" "decode_source bs = Inr xs_entry" using xs_encoded by blast
  have t: "from_prefix (be_bytes 1) [(gen_key 1 (replicate 16 2), bs)] = [(gen_key 1 (replicate 16 2), bs)]"
    using starts_with_le [of "be_bytes 1" "gen_key 1 (replicate 16 2)"]
    by (auto simp: from_prefix_def gen_key_def starts_with_def)
  show ?thesis
    using bs t
    by (simp add: source_inventory_def xs_view_def Let_def try_from_def MAX_SOURCES_def r_open_def get_table_def
      inventory_entries.simps starts_with_gen_key gen_key_def xs_entry_def xs_captured_def add_units_def
      checked_add64_def MAX_POINTS_def Artifact.ex_source_def object_source_def)
qed

section \<open>The raw search of the example\<close>

definition xs_raw :: RawExactRequest where
  "xs_raw = \<lparr>rr_literal = [99, 100], rr_source_ids = Some [xs_id], rr_limit = 4\<rparr>"

lemma xs_citable: "citable xs_captured"
  by (simp add: citable_def xs_captured_def Artifact.ex_source_def object_source_def Artifact.ex_hash_def Let_def
      MAX_SOURCE_OBJECT_BYTES_def SOURCE_OBJECT_FORMAT_VERSION_def)

lemma xs_objects:
  "object_content Artifact.ex_hash xs_files [] (object_ref Artifact.ex_source) MAX_SOURCE_OBJECT_BYTES = Inr Artifact.ex_text"
  "object_content Artifact.ex_hash xs_files [] xs_ref (64 * 1024 * 1024) = Inr xs_artifact"
proof -
  let ?src = "object_ref Artifact.ex_source"
  have src: "obj_kind ?src = Source" "format_version ?src = 1" "byte_length ?src = 8" "digest ?src = Artifact.ex_hash Artifact.ex_text"
    by (simp_all add: Artifact.ex_source_def object_source_def SOURCE_OBJECT_FORMAT_VERSION_def)
  have n: "object_name ?src MAX_SOURCE_OBJECT_BYTES = Inr (xs_name ?src)"
      "object_name xs_ref (64 * 1024 * 1024) = Inr (xs_name xs_ref)" "xs_name xs_ref \<noteq> xs_name ?src"
    using src xs_ref_ok by (simp_all add: object_name_def xs_name_def SOURCE_OBJECT_FORMAT_VERSION_def MAX_SOURCE_OBJECT_BYTES_def)
  have g: "fs_get xs_files (object_dir [] @ [xs_name ?src]) = Some (FileEntry Artifact.ex_text)"
      "fs_get xs_files (object_dir [] @ [xs_name xs_ref]) = Some (FileEntry xs_artifact)"
    using n(3) by (simp_all add: fs_get_def xs_files_def)
  have v: "verified Artifact.ex_hash ?src Artifact.ex_text" "verified Artifact.ex_hash xs_ref xs_artifact"
    using src xs_ref_ok(5) by (simp_all add: verified_def Artifact.ex_text_def xs_ref_def object_prepared_def)
  show "object_content Artifact.ex_hash xs_files [] ?src MAX_SOURCE_OBJECT_BYTES = Inr Artifact.ex_text"
    using n g v by (simp add: object_content_def)
  show "object_content Artifact.ex_hash xs_files [] xs_ref (64 * 1024 * 1024) = Inr xs_artifact"
    using n(2) g v by (simp add: object_content_def)
qed

lemma xs_occurrences: "occurrences [99, 100] Artifact.ex_text = [(3, 5)]"
  by (simp add: Artifact.ex_text_def) code_simp

lemma xs_id_of: "uuid_to_string (source_id Artifact.ex_source) = xs_id"
  by (simp add: Artifact.ex_source_def xs_id_def) code_simp

lemma xs_raw_valid: "raw_request_validate xs_raw = Inr ()"
  by (simp add: xs_raw_def) code_simp

lemma xs_raw_look:
  "raw_look Artifact.ex_hash xs_files [] [99, 100] xs_captured =
     Inr (Hits [raw_match [99, 100] (citation Artifact.ex_source) (3, 5)] 8)"
  using xs_objects(1) xs_occurrences by (simp add: raw_look_def Let_def xs_captured_def) (simp add: Artifact.ex_text_def)

lemma xs_content: "source_content xs_files [] xs_captured = Some Artifact.ex_text"
  using object_content_at(1) [OF xs_objects(1)] by (simp add: source_content_def xs_captured_def)

lemma xs_selected: "selected_from [xs_captured] (Some [xs_id]) = [xs_captured]"
  using xs_id_of by (simp add: selected_from_def xs_captured_def)

lemma xs_raw_answer:
  "raw_reference xs_files [] 1 [99, 100] 4 [xs_captured] =
     \<lparr>rx_generation = 1, rx_selected_sources = 1, rx_scanned_sources = 1, rx_missing_sources = 0, rx_scanned_bytes = 8,
       rx_matches = 1, rx_items = [raw_match [99, 100] (citation Artifact.ex_source) (3, 5)],
       rx_scan_complete = True, rx_complete_negative = False, rx_stop = Complete\<rparr>"
  using xs_content xs_occurrences
  by (simp add: raw_reference_def raw_items_def raw_hits_def Let_def) (simp add: Artifact.ex_text_def xs_captured_def)

lemma xs_raw_facts:
  "g_sequence (pv_generation xs_view) = 1" "rr_literal xs_raw = [99, 100]" "rr_source_ids xs_raw = Some [xs_id]" "rr_limit xs_raw = 4"
  by (simp_all add: xs_view_def xs_raw_def)

lemma xs_raw_ready:
  "db_ok (pv_transaction xs_view)" "source_inventory xs_view [] = Inr ([xs_captured], [])"
  "g_sequence (pv_generation xs_view) \<noteq> 0" "raw_request_validate xs_raw = Inr ()"
  "\<And>l. rr_source_ids xs_raw = Some l \<Longrightarrow> set l \<subseteq> (\<lambda>c. uuid_to_string (source_id (ca_source c))) ` set [xs_captured]"
  "\<And>c. c \<in> set (selected_from [xs_captured] (rr_source_ids xs_raw)) \<Longrightarrow>
     citable c \<and> is_ok (raw_look Artifact.ex_hash xs_files [] (rr_literal xs_raw) c)"
  using xs_view_ok xs_inventory xs_raw_valid xs_id_of xs_raw_look xs_citable
  by (simp_all add: xs_raw_facts xs_selected) (simp_all add: xs_captured_def is_ok_def)

lemma xs_raw_run:
  "raw_execute Artifact.ex_hash xs_files [] xs_view xs_raw [] = Some (Inr (raw_reference xs_files [] 1 [99, 100] 4 [xs_captured], []))"
  using raw_runs [OF xs_raw_ready] by (simp add: xs_raw_facts xs_selected)

section \<open>The decoded search of the example\<close>

definition xs_decoded_request :: DecodedUtf8Request where
  "xs_decoded_request = \<lparr>dr_literal = [99, 100], dr_source_ids = None, dr_limit = 4\<rparr>"

lemma xs_source_text: "source_text xs_files [] xs_captured = Inr (xs_ref, Artifact.ex_text)"
proof -
  have "ready_artifact xs_captured = Some xs_ref" by (simp add: ready_artifact_def xs_captured_def)
  then show ?thesis using xs_content object_content_at(1) [OF xs_objects(2)] by (simp add: source_text_def)
qed

lemma xs_decoded_answer:
  "decoded_reference xs_files [] 1 [99, 100] 4 [xs_captured] =
     \<lparr>dx_generation = 1, dx_selected_sources = 1, dx_scanned_sources = 1, dx_gap_sources = 0, dx_scanned_bytes = 8,
       dx_matches = 1, dx_items = [decoded_match [99, 100] (citation Artifact.ex_source) (dto_of xs_ref) (3, 5)],
       dx_scan_complete = True, dx_complete_negative = False, dx_stop = Complete\<rparr>"
  using xs_source_text xs_occurrences
  by (simp add: decoded_reference_def decoded_items_def decoded_hits_def Let_def is_ok_def) (simp add: Artifact.ex_text_def xs_captured_def)

lemma xs_representation:
  "representation Artifact.ex_hash xs_files [] xs_captured [] =
     Inr (Inr (xs_ref, \<lparr>pu_text = Artifact.ex_text, pu_units = xs_units\<rparr>), [])"
proof -
  have o': "cp_outcome (ca_preparation xs_captured) = Some \<lparr>bo_source_row_revision = 1, bo_registration_revision = 1,
         bo_input = object_ref Artifact.ex_source, bo_settings = Artifact.ex_settings, bo_result = Ready xs_ref\<rparr>"
      "ca_source xs_captured = Artifact.ex_source" "cp_settings (ca_preparation xs_captured) = Artifact.ex_settings"
    by (simp_all add: xs_captured_def)
  show ?thesis
    unfolding representation_quiet o' using xs_decoded
    by (simp add: objects_quiet [simplified] xs_objects(1) xs_objects(2) [simplified])
qed

lemma xs_decoded_scan:
  "decoded_scan_source Artifact.ex_hash xs_files [] (compile [99, 100]) 4 xs_captured (decoded_start xs_view 1) [] =
     Some (Inr ((decoded_start xs_view 1)\<lparr>dx_scanned_sources := 1, dx_scanned_bytes := 8, dx_matches := 1,
       dx_items := [decoded_match [99, 100] (citation Artifact.ex_source) (dto_of xs_ref) (3, 5)]\<rparr>, []))"
proof -
  let ?b = "citation Artifact.ex_source" and ?r = "decoded_start xs_view 1"
  note L = literal_scan_scans(2) [where found = "decoded_found ?b (dto_of xs_ref) Artifact.ex_text 4" and input = Artifact.ex_text and st = ?r,
        OF compile_compiled [of "[99, 100]"] decoded_found_interruptible, simplified, unfolded xs_occurrences]
  have "str_get Artifact.ex_text 3 5 = Some [99, 100]" by (simp add: Artifact.ex_text_def) code_simp
  then have "decoded_found ?b (dto_of xs_ref) Artifact.ex_text 4 3 5 ?r [] =
      Inr (?r\<lparr>dx_matches := 1, dx_items := [decoded_match [99, 100] ?b (dto_of xs_ref) (3, 5)]\<rparr>, [])"
    by (simp add: decoded_found_def Let_def checked_add64_def try_from_def decoded_match_def)
  then show ?thesis using xs_representation L
    by (simp add: decoded_scan_source_def visit_representation_def decoded_visit_def Let_def checked_add64_def xs_captured_def
      Artifact.ex_source_def object_source_def)
qed

lemma xs_prepared_citation: "object_dto_validate (dto_of xs_ref) PreparedDto = Inr ()"
  using xs_ref_ok hex_encode_spelling [of "digest xs_ref"] xs_ref_ok(7)
  by (simp add: object_dto_validate_def dto_of_def valid_object_def MAX_SOURCE_OBJECT_BYTES_def)

lemma xs_decoded_run:
  "decoded_execute Artifact.ex_hash xs_files [] xs_view xs_decoded_request [] =
     Some (Inr (decoded_reference xs_files [] 1 [99, 100] 4 [xs_captured], []))"
proof -
  have v: "decoded_request_validate xs_decoded_request = Inr ()" by (simp add: xs_decoded_request_def) code_simp
  have "citation Artifact.ex_source = citation (ca_source xs_captured)" by (simp add: xs_captured_def)
  then have i: "decoded_item_validate (decoded_match [99, 100] (citation Artifact.ex_source) (dto_of xs_ref) (3, 5)) = Inr ()"
    using citable_citation [OF xs_citable] xs_prepared_citation
    by (simp add: decoded_item_validate_def decoded_match_def MAX_QUERY_BYTES_def checked_sub_def try_from_def)
      (simp add: citation_def dto_of_def xs_captured_def Artifact.ex_source_def object_source_def)
  have s: "select_sources [xs_captured] None [] = Inr ([xs_captured], [])" by (simp add: select_sources_def)
  have "decoded_finish xs_decoded_request ((decoded_start xs_view 1)\<lparr>dx_scanned_sources := 1, dx_scanned_bytes := 8, dx_matches := 1,
       dx_items := [decoded_match [99, 100] (citation Artifact.ex_source) (dto_of xs_ref) (3, 5)]\<rparr>) [] =
     Inr (decoded_reference xs_files [] 1 [99, 100] 4 [xs_captured], [])"
    using v i by (simp add: decoded_finish_def Let_def checked_add64_def try_from_def decoded_result_validate_request_def
        decoded_result_validate_def selection_binds_def xs_decoded_request_def xs_raw_facts xs_decoded_answer [unfolded One_nat_def] MAX_ITEMS_def)
      (simp add: decoded_match_def)
  then show ?thesis
    using v s xs_inventory xs_decoded_scan literal_new_quiet [of "[99, 100]"]
    by (simp add: decoded_execute_def try_from_def xs_decoded_request_def bindO_def)
qed

end
