(* ===== verification/ExactClaims.thy ===== *)
theory ExactClaims
  imports ExactExample
begin

text \<open>
  The claims about the exact searches, each with a run on the concrete generation of
  \<open>ExactExample\<close>.
\<close>

text \<open>
  C29: A raw exact search returns exactly the naive search: the result is the reference built
  directly from the files of the selected published sources (all occurrences, overlapping ones
  included, in order of source identity and position; the exact counts of matches, missing
  sources and scanned bytes; the first items up to the limit; the complete-negative flag), and
  every file it reports on has the recorded length and hash. Tables, blocks and interruptions
  leave no trace in a returned result.
\<close>

theorem raw_search_exact:
  assumes "raw_execute blake3 fs root view request env = Some (Inr (res, env'))" "db_ok (pv_transaction view)"
  shows "\<exists>cs. source_inventory view [] = Inr (cs, []) \<and>
    res = raw_reference fs root (g_sequence (pv_generation view)) (rr_literal request) (rr_limit request)
      (selected_from cs (rr_source_ids request)) \<and>
    (\<forall>c \<in> set (selected_from cs (rr_source_ids request)). \<forall>bs.
       source_content fs root c = Some bs \<longrightarrow> verified blake3 (object_ref (ca_source c)) bs)"
proof -
  obtain cs sel r where E: "source_inventory view [] = Inr (cs, [])" "select_sources cs (rr_source_ids request) [] = Inr (sel, [])"
      "for_each (\<lambda>entry. raw_scan_source blake3 fs root (compile (rr_literal request)) (rr_limit request) (ca_source entry)) sel
      \<lparr>rx_generation = g_sequence (pv_generation view), rx_selected_sources = length sel,
         rx_scanned_sources = 0, rx_missing_sources = 0, rx_scanned_bytes = 0, rx_matches = 0,
         rx_items = [], rx_scan_complete = False, rx_complete_negative = False, rx_stop = Complete\<rparr> [] = Some (Inr (r, []))"
      "raw_finish request r [] = Inr (res, [])" "rr_literal request \<noteq> []"
    using raw_execute_Inr [OF assms(1)] by blast
  obtain b p where p: "rr_literal request = b # p" using E(5) by (cases "rr_literal request") auto
  have id: "\<And>c. c \<in> set cs \<Longrightarrow> length (source_id (ca_source c)) = 16"
    using captured_row_id [OF source_inventory_Inr(1) [OF E(1) assms(2)]] .
  have sel: "sel = selected_from cs (rr_source_ids request)" using select_sources_Inr [OF E(2) id] by blast
  let ?look = "raw_look blake3 fs root (rr_literal request)"
  obtain fs' where f: "map ?look sel = map Inr fs'" "raw_tally r = tally_all (rr_limit request) fs' \<lparr>ta_scanned = 0,
       ta_gaps = 0, ta_bytes = 0, ta_matches = 0, ta_items = []\<rparr>"
      "raw_rest r = (g_sequence (pv_generation view), length sel, Complete)"
    using raw_scan.all_tally [OF E(3) [unfolded p]] by (auto simp: p raw_tally_def raw_rest_def)
  have L: "list_all2 (\<lambda>c f. ?look c = Inr f) sel fs'"
    using f(1) by (metis list_all2_map1 list_all2_map2 list_all2_eq)
  have T: "list_all2 (\<lambda>c f. found_items f = raw_items fs root (rr_literal request) c
      \<and> length (found_hits f) = length (raw_hits fs root (rr_literal request) c)
      \<and> is_missed f = (source_content fs root c = None)
      \<and> found_bytes f = (case source_content fs root c of None \<Rightarrow> 0 | Some bs \<Rightarrow> length bs)) sel fs'"
    using L by (rule list_all2_mono) (use raw_look_Inr in blast)
  have V: "\<forall>c \<in> set sel. \<forall>bs. source_content fs root c = Some bs \<longrightarrow> verified blake3 (object_ref (ca_source c)) bs"
    using L raw_look_Inr by (auto simp: list_all2_conv_all_nth in_set_conv_nth) metis
  have "res = raw_reference fs root (g_sequence (pv_generation view)) (rr_literal request) (rr_limit request) sel"
    using E(4) f(2,3) tally_items [OF T] tally_total [of fs']
    by (auto simp: raw_finish_def raw_reference_def Let_def res_simps raw_tally_def raw_rest_def tally_all_def try_from_def
        split: if_splits)
  then show ?thesis using E(1) V sel by blast
qed

theorem raw_search_exact_witness:
  "\<exists>res. raw_execute Artifact.ex_hash xs_files [] xs_view xs_raw [] = Some (Inr (res, [])) \<and>
     rx_matches res = 1 \<and> rx_items res = [raw_match [99, 100] (citation Artifact.ex_source) (3, 5)]"
  using raw_search_exact [OF xs_raw_run xs_view_ok] xs_raw_run xs_raw_answer xs_inventory
  by (auto simp: xs_raw_facts xs_selected)

text \<open>
  C30: A decoded exact search returns exactly the naive search over the text of the selected
  sources: every source is searched whose prepared artifact is published and stored together
  with its source bytes, every other is a gap with its reason; and a searched text is the
  verified source bytes, valid UTF-8, and what the verified artifact encodes.
\<close>

theorem decoded_search_exact:
  assumes "decoded_execute blake3 fs root view request env = Some (Inr (res, env'))" "db_ok (pv_transaction view)"
  shows "\<exists>cs. source_inventory view [] = Inr (cs, []) \<and>
    res = decoded_reference fs root (g_sequence (pv_generation view)) (dr_literal request) (dr_limit request)
      (selected_from cs (dr_source_ids request)) \<and>
    (\<forall>c \<in> set (selected_from cs (dr_source_ids request)). text_backed blake3 fs root c)"
proof -
  obtain cs sel r where E: "source_inventory view [] = Inr (cs, [])" "select_sources cs (dr_source_ids request) [] = Inr (sel, [])"
      "for_each (decoded_scan_source blake3 fs root (compile (dr_literal request)) (dr_limit request)) sel
        (decoded_start view (length sel)) [] = Some (Inr (r, []))"
      "decoded_finish request r [] = Inr (res, [])" "dr_literal request \<noteq> []"
    using decoded_execute_Inr [OF assms(1)] by blast
  obtain b p where p: "dr_literal request = b # p" using E(5) by (cases "dr_literal request") auto
  have id: "\<And>c. c \<in> set cs \<Longrightarrow> length (source_id (ca_source c)) = 16"
    using captured_row_id [OF source_inventory_Inr(1) [OF E(1) assms(2)]] .
  have sel: "sel = selected_from cs (dr_source_ids request)" using select_sources_Inr [OF E(2) id] by blast
  let ?look = "decoded_look blake3 fs root (dr_literal request)"
  obtain fs' where f: "map ?look sel = map Inr fs'" "decoded_tally r = tally_all (dr_limit request) fs' \<lparr>ta_scanned = 0,
       ta_gaps = 0, ta_bytes = 0, ta_matches = 0, ta_items = []\<rparr>"
      "decoded_rest r = (g_sequence (pv_generation view), length sel, Complete)"
    using decoded_scan.all_tally [OF E(3) [unfolded p]] by (auto simp: p decoded_tally_def decoded_rest_def)
  have L: "list_all2 (\<lambda>c f. ?look c = Inr f) sel fs'"
    using f(1) by (metis list_all2_map1 list_all2_map2 list_all2_eq)
  have T: "list_all2 (\<lambda>c f. found_items f = decoded_items fs root (dr_literal request) c
      \<and> length (found_hits f) = length (decoded_hits fs root (dr_literal request) c)
      \<and> is_missed f = (\<not> is_ok (source_text fs root c))
      \<and> found_bytes f = (case source_text fs root c of Inl _ \<Rightarrow> 0 | Inr (_, bs) \<Rightarrow> length bs)) sel fs'"
    using L by (rule list_all2_mono) (use decoded_look_Inr in blast)
  have V: "\<forall>c \<in> set sel. text_backed blake3 fs root c"
    using L decoded_look_Inr by (auto simp: list_all2_conv_all_nth in_set_conv_nth) metis
  have "res = decoded_reference fs root (g_sequence (pv_generation view)) (dr_literal request) (dr_limit request) sel"
    using E(4) f(2,3) tally_items [OF T] tally_total [of fs']
    by (auto simp: decoded_finish_def decoded_reference_def Let_def res_simps decoded_tally_def decoded_rest_def tally_all_def
        try_from_def split: if_splits)
  then show ?thesis using E(1) V sel by blast
qed

theorem decoded_search_exact_witness:
  "\<exists>res. decoded_execute Artifact.ex_hash xs_files [] xs_view xs_decoded_request [] = Some (Inr (res, [])) \<and>
     dx_matches res = 1 \<and> dx_items res = [decoded_match [99, 100] (citation Artifact.ex_source) (dto_of xs_ref) (3, 5)]"
  using decoded_search_exact [OF xs_decoded_run xs_view_ok] xs_decoded_run xs_decoded_answer xs_inventory
  by (auto simp: xs_raw_facts xs_decoded_request_def selected_from_def)

text \<open>
  C31: A raw exact search answers, under these conditions: the generation has a nonzero
  sequence, its source inventory reads back, the request is valid and names only sources of the
  inventory, and every selected source can be cited (none of its identities is nil; the daemon
  can publish a source with a nil identity, which the response's validation then refuses) and
  has a stored file that the scan can read. Then the search always returns, only an interruption
  refuses it, and the answer is the naive search over the selected sources: the result that the
  daemon builds always passes the validation that the client repeats.
\<close>

theorem raw_search_answers:
  assumes "db_ok (pv_transaction view)" "source_inventory view [] = Inr (cs, [])" "g_sequence (pv_generation view) \<noteq> 0"
    and "raw_request_validate request = Inr ()"
    and "\<And>l. rr_source_ids request = Some l \<Longrightarrow> set l \<subseteq> (\<lambda>c. uuid_to_string (source_id (ca_source c))) ` set cs"
    and "\<And>c. c \<in> set (selected_from cs (rr_source_ids request)) \<Longrightarrow> citable c \<and> is_ok (raw_look blake3 fs root (rr_literal request) c)"
  shows "case raw_execute blake3 fs root view request env of
      None \<Rightarrow> False
    | Some (Inl e) \<Rightarrow> e \<in> search_interrupts
    | Some (Inr (res, _)) \<Rightarrow> res = raw_reference fs root (g_sequence (pv_generation view)) (rr_literal request)
        (rr_limit request) (selected_from cs (rr_source_ids request))"
  by (rule raw_answers [OF assms])

theorem raw_search_answers_witness:
  "raw_execute Artifact.ex_hash xs_files [] xs_view xs_raw [] \<noteq> None \<and>
   (case raw_execute Artifact.ex_hash xs_files [] xs_view xs_raw [] of
      None \<Rightarrow> False
    | Some (Inl e) \<Rightarrow> e \<in> search_interrupts
    | Some (Inr (res, _)) \<Rightarrow> rx_complete_negative res = False \<and> rx_matches res = 1)"
  using raw_search_answers [OF xs_raw_ready, where env = "[]"] xs_raw_answer
  by (auto simp: xs_raw_facts xs_selected split: option.splits sum.splits)

end
