(* ===== verification/VerifiedQuery.thy ===== *)
theory VerifiedQuery
  imports ExactProperties
begin

text \<open>
  The verified query of the daemon (\<open>verified_query.rs\<close>): the index only nominates points; each is
  resolved against the pinned view, its source and artifact are read and decoded, and the answer
  shows the unit of the verified text. The index service (key, connection, schema check and text
  query) is the parameter \<open>backend\<close>: from the collection, the query and the limit it gives the
  nominated hits or a failure.
\<close>

section \<open>Model: points\<close>

record Hit =
  hit_id :: bytes
  hit_source_id :: bytes
  hit_score :: f32

record RankedPoint =
  rk_rank :: nat
  rk_hit :: Hit
  rk_resolved :: ResolvedPoint

type_synonym backend = "string \<Rightarrow> bytes \<Rightarrow> nat \<Rightarrow> env \<Rightarrow> QueryFailure + Hit list \<times> env"

definition collection :: "Generation \<Rightarrow> string" where
  "collection g = ''eliot_'' @ hex_encode (g_namespace g) @ ''_g'' @ decimal (g_sequence g)"

definition object_metadata :: "ObjectRef \<Rightarrow> ObjectRefDto" where
  "object_metadata r = \<lparr>od_version = format_version r, od_kind = object_kind_dto (obj_kind r),
     od_digest = hex_encode (digest r), od_bytes = byte_length r\<rparr>"

definition point_metadata :: "nat \<Rightarrow> RankedPoint \<Rightarrow> EvidenceMetadata" where
  "point_metadata generation point =
     (let e = rp_evidence (rk_resolved point) in
      \<lparr>em_generation = generation, em_point_id = hex_encode (hit_id (rk_hit point)),
       em_namespace_id = uuid_to_string (pe_namespace_id e), em_source_id = uuid_to_string (pe_source_id e),
       em_input = object_metadata (pe_input e), em_prepared = object_metadata (pe_prepared e),
       em_unit = pe_unit e, em_start = pe_start e, em_end = pe_end e,
       em_line_start = pe_line_start e, em_line_end = pe_line_end e,
       em_starts_at_line = pe_starts_at_line e, em_ends_at_line = pe_ends_at_line e\<rparr>)"

definition query_gap :: "nat \<Rightarrow> RankedPoint \<Rightarrow> string \<Rightarrow> QueryFailure + SearchItem" where
  "query_gap generation point code =
     bindE (mapErr (\<lambda>_. Code ''QUERY_INTERNAL_ERROR'') (failure_code_new code)) (\<lambda>code.
     Inr (SGap \<lparr>sg_rank = rk_rank point, sg_score = hit_score (rk_hit point),
       sg_evidence = point_metadata generation point, sg_code = code\<rparr>))"

definition same_group :: "RankedPoint \<Rightarrow> RankedPoint \<Rightarrow> bool" where
  "same_group left right \<longleftrightarrow>
     rp_captured (rk_resolved left) = rp_captured (rk_resolved right) \<and>
     pe_prepared (rp_evidence (rk_resolved left)) = pe_prepared (rp_evidence (rk_resolved right))"

definition nth_opt :: "'a list \<Rightarrow> nat \<Rightarrow> 'a option" where
  "nth_opt xs i = (if i < length xs then Some (xs ! i) else None)"

definition verify_unit :: "bytes \<Rightarrow> PreparedUtf8 \<Rightarrow> PointEvidence \<Rightarrow> QueryFailure + bytes" where
  "verify_unit source prepared e =
     bindE (ok_or range_invalid (try_from u64_bound (pe_unit e))) (\<lambda>ordinal.
     bindE (ok_or range_invalid (nth_opt (pu_units prepared) ordinal)) (\<lambda>u.
     if try_from u64_bound (us_start u) \<noteq> Some (pe_start e) \<or> try_from u64_bound (us_end u) \<noteq> Some (pe_end e)
        \<or> us_line_start u \<noteq> pe_line_start e \<or> us_line_end u \<noteq> pe_line_end e
        \<or> us_starts_at_line u \<noteq> pe_starts_at_line e \<or> us_ends_at_line u \<noteq> pe_ends_at_line e
     then Inl (Code ''EVIDENCE_RANGE_MISMATCH'')
     else
       bindE (ok_or range_invalid (str_get (pu_text prepared) (us_start u) (us_end u))) (\<lambda>txt.
       bindE (ok_or range_invalid (get_range source (us_start u) (us_end u))) (\<lambda>original.
       if original \<noteq> txt \<or> 65536 < length txt then Inl (Code ''EVIDENCE_TEXT_MISMATCH'') else Inr txt))))"

section \<open>Model: one group of points\<close>

fun fill_gaps ::
  "nat \<Rightarrow> RankedPoint list \<Rightarrow> string \<Rightarrow> nat list \<Rightarrow> SearchItem option list \<Rightarrow> QueryFailure + SearchItem option list" where
  "fill_gaps generation points code [] slots = Inr slots"
| "fill_gaps generation points code (i # indices) slots =
     bindE (query_gap generation (points ! i) code) (\<lambda>item.
     fill_gaps generation points code indices (slots[i := Some item]))"

fun fill_hits ::
  "nat \<Rightarrow> RankedPoint list \<Rightarrow> bytes \<Rightarrow> PreparedUtf8 \<Rightarrow> nat list \<Rightarrow> SearchItem option list \<Rightarrow> env \<Rightarrow>
   QueryFailure + SearchItem option list \<times> env" where
  "fill_hits generation points source prepared [] slots env = Inr (slots, env)"
| "fill_hits generation points source prepared (i # indices) slots env =
     bindE (q_check env) (\<lambda>env.
     let point = points ! i in
     bindE (verify_unit source prepared (rp_evidence (rk_resolved point))) (\<lambda>txt.
     bindE (q_reserve env) (\<lambda>env.
     fill_hits generation points source prepared indices
       (slots[i := Some (SHit \<lparr>sh_rank = rk_rank point, sh_score = hit_score (rk_hit point),
          sh_evidence = point_metadata generation point, sh_unit_text = txt\<rparr>)]) env)))"

definition fill_group ::
  "(bytes \<Rightarrow> bytes) \<Rightarrow> files \<Rightarrow> path \<Rightarrow> nat \<Rightarrow> nat \<Rightarrow> RankedPoint list \<Rightarrow> SearchItem option list \<Rightarrow> env \<Rightarrow>
   QueryFailure + SearchItem option list \<times> env" where
  "fill_group blake3 fs root generation first points slots env =
     (let binding = rk_resolved (points ! first);
          indices = filter (\<lambda>i. same_group (points ! first) (points ! i)) [0..<length points] in
      bindE (object_bytes blake3 fs root (pe_input (rp_evidence binding)) MAX_SOURCE_OBJECT_BYTES env) (\<lambda>(source, env).
      case source of
        None \<Rightarrow> bindE (fill_gaps generation points ''SOURCE_OBJECT_MISSING'' indices slots) (\<lambda>slots. Inr (slots, env))
      | Some source \<Rightarrow>
          bindE (object_bytes blake3 fs root (pe_prepared (rp_evidence binding)) (64 * 1024 * 1024) env) (\<lambda>(art, env).
          case art of
            None \<Rightarrow> bindE (fill_gaps generation points ''PREPARED_OBJECT_MISSING'' indices slots) (\<lambda>slots. Inr (slots, env))
          | Some art \<Rightarrow>
              bindE (mapErr prepared_failure (decode_prepared_utf8 blake3 art (ca_source (rp_captured binding))
                (cp_settings (ca_preparation (rp_captured binding))) search_limits env)) (\<lambda>(prepared, env).
              if pu_text prepared \<noteq> source then Inl (Code ''EVIDENCE_TEXT_MISMATCH'')
              else fill_hits generation points source prepared indices slots env))))"

section \<open>Model: the query\<close>

fun rank_points ::
  "PublishedView \<Rightarrow> nat \<Rightarrow> Hit list \<Rightarrow> RankedPoint list \<Rightarrow> env \<Rightarrow> QueryFailure + RankedPoint list \<times> env" where
  "rank_points view index [] points env = Inr (points, env)"
| "rank_points view index (hit # others) points env =
     bindE (q_check env) (\<lambda>env.
     bindE (mapErr publication_failure (resolve_point view (hit_id hit) env)) (\<lambda>(resolved, env).
     if hit_source_id hit \<noteq> pe_source_id (rp_evidence resolved) \<or> \<not> is_finite (hit_score hit)
     then Inl (Code ''QUERY_POINT_ROUTE_MISMATCH'')
     else
       bindE (ok_or (Code ''QUERY_LIMIT'') (try_from u8_bound (index + 1))) (\<lambda>rank.
       rank_points view (index + 1) others
         (points @ [\<lparr>rk_rank = rank, rk_hit = hit, rk_resolved = resolved\<rparr>]) env)))"

fun emit_items ::
  "(bytes \<Rightarrow> bytes) \<Rightarrow> files \<Rightarrow> path \<Rightarrow> nat \<Rightarrow> RankedPoint list \<Rightarrow> nat list \<Rightarrow> SearchItem option list \<Rightarrow>
   SearchItem list \<Rightarrow> env \<Rightarrow> QueryFailure + SearchItem list \<times> env" where
  "emit_items blake3 fs root generation points [] slots items env = Inr (items, env)"
| "emit_items blake3 fs root generation points (index # indices) slots items env =
     bindE (if slots ! index = None then fill_group blake3 fs root generation index points slots env
       else Inr (slots, env)) (\<lambda>(slots, env).
     bindE (ok_or (Code ''QUERY_INTERNAL_ERROR'') (slots ! index)) (\<lambda>item.
     emit_items blake3 fs root generation points indices (slots[index := None]) (items @ [item]) env))"

definition verified_execute ::
  "(bytes \<Rightarrow> bytes) \<Rightarrow> files \<Rightarrow> path \<Rightarrow> backend \<Rightarrow> PublishedView \<Rightarrow> SearchRequest \<Rightarrow> env \<Rightarrow>
   QueryFailure + SearchItem list \<times> env" where
  "verified_execute blake3 fs root backend view request env =
     bindE (q_check env) (\<lambda>env.
     bindE (mapErr protocol_failure (search_request_validate request)) (\<lambda>_.
     bindE (backend (collection (pv_generation view)) (sr_query request) (sr_limit request) env) (\<lambda>(nominated, env).
     bindE (q_reserve env) (\<lambda>env.
     bindE (rank_points view 0 nominated [] env) (\<lambda>(points, env).
     bindE (q_reserve env) (\<lambda>env.
     bindE (emit_items blake3 fs root (g_sequence (pv_generation view)) points [0..<length points]
       (replicate (length points) None) [] env) (\<lambda>(items, env).
     bindE (q_check env) (\<lambda>env. Inr (items, env)))))))))"

section \<open>The reference answer\<close>

text \<open>
  What stands behind a nominated point: nothing when an object is missing, or the source bytes,
  the bytes of its artifact and the unit of the evidence.
\<close>

definition point_gap :: "files \<Rightarrow> path \<Rightarrow> PointEvidence \<Rightarrow> string option" where
  "point_gap fs root e =
     (if object_at fs root (pe_input e) MAX_SOURCE_OBJECT_BYTES = None then Some ''SOURCE_OBJECT_MISSING''
      else if object_at fs root (pe_prepared e) (64 * 1024 * 1024) = None then Some ''PREPARED_OBJECT_MISSING''
      else None)"

definition point_item :: "files \<Rightarrow> path \<Rightarrow> nat \<Rightarrow> RankedPoint \<Rightarrow> SearchItem" where
  "point_item fs root generation point =
     (let e = rp_evidence (rk_resolved point) in
      case point_gap fs root e of
        Some code \<Rightarrow> SGap \<lparr>sg_rank = rk_rank point, sg_score = hit_score (rk_hit point),
          sg_evidence = point_metadata generation point, sg_code = code\<rparr>
      | None \<Rightarrow> SHit \<lparr>sh_rank = rk_rank point, sh_score = hit_score (rk_hit point),
          sh_evidence = point_metadata generation point,
          sh_unit_text = take (pe_end e - pe_start e) (drop (pe_start e)
            (the (object_at fs root (pe_input e) MAX_SOURCE_OBJECT_BYTES)))\<rparr>)"

text \<open>
  The evidence is backed by the files: the source bytes have the recorded length and hash, the
  artifact is the encoding of exactly these bytes, and the point is one of its units.
\<close>

definition evidence_unit :: "PointEvidence \<Rightarrow> UnitSpan" where
  "evidence_unit e = \<lparr>us_start = pe_start e, us_end = pe_end e, us_line_start = pe_line_start e,
     us_line_end = pe_line_end e, us_starts_at_line = pe_starts_at_line e, us_ends_at_line = pe_ends_at_line e\<rparr>"

definition point_backed :: "(bytes \<Rightarrow> bytes) \<Rightarrow> files \<Rightarrow> path \<Rightarrow> ResolvedPoint \<Rightarrow> bool" where
  "point_backed blake3 fs root r \<longleftrightarrow>
     (let e = rp_evidence r; c = rp_captured r in
      point_gap fs root e = None \<longrightarrow>
      (\<exists>bs units. object_at fs root (pe_input e) MAX_SOURCE_OBJECT_BYTES = Some bs \<and> verified blake3 (pe_input e) bs \<and>
         utf8_valid bs \<and>
         object_at fs root (pe_prepared e) (64 * 1024 * 1024) =
           Some (artifact_bytes (ca_source c) (cp_settings (ca_preparation c)) bs units) \<and>
         verified blake3 (pe_prepared e) (artifact_bytes (ca_source c) (cp_settings (ca_preparation c)) bs units) \<and>
         pe_unit e < length units \<and> units ! pe_unit e = evidence_unit e \<and>
         pe_start e \<le> pe_end e \<and> pe_end e \<le> length bs \<and> pe_end e - pe_start e \<le> 65536))"

section \<open>The query gives the reference answer\<close>

lemma resolve_interruptible [interruptible_intros]: "interruptible pub_interrupts (resolve_point view i)"
  unfolding resolve_point_def Let_def by (intro interruptible_intros)

lemma resolve_search_interruptible [interruptible_intros]:
  "interruptible search_interrupts (\<lambda>env. mapErr publication_failure (resolve_point view i env))"
  by (rule interruptible_mapErr [OF resolve_interruptible]) auto

definition bound_point :: "PublishedView \<Rightarrow> RankedPoint \<Rightarrow> bool" where
  "bound_point view point \<longleftrightarrow>
     resolve_point view (hit_id (rk_hit point)) [] = Inr (rk_resolved point, []) \<and>
     hit_source_id (rk_hit point) = pe_source_id (rp_evidence (rk_resolved point)) \<and> is_finite (hit_score (rk_hit point))"

lemma resolve_binds:
  assumes "resolve_point view i [] = Inr (r, [])"
  shows "pe_input (rp_evidence r) = object_ref (ca_source (rp_captured r))"
  using assms by (auto simp: resolve_point_def Let_def res_simps split: if_splits)

lemma rank_points_Inr:
  assumes "rank_points view n hs points env = Inr (points', env')"
  shows "\<exists>new. points' = points @ new \<and> map rk_hit new = hs \<and> map rk_rank new = [Suc n..<Suc (n + length hs)] \<and>
    (\<forall>p \<in> set new. bound_point view p)"
  using assms
proof (induction hs arbitrary: n points env)
  case (Cons h hs)
  obtain r env1 env2 where r: "resolve_point view (hit_id h) env1 = Inr (r, env2)" "hit_source_id h = pe_source_id (rp_evidence r)"
      "is_finite (hit_score h)"
      "rank_points view (n + 1) hs (points @ [\<lparr>rk_rank = n + 1, rk_hit = h, rk_resolved = r\<rparr>]) env2 = Inr (points', env')"
    using Cons.prems by (auto simp: res_simps split: if_splits)
  let ?p = "\<lparr>rk_rank = n + 1, rk_hit = h, rk_resolved = r\<rparr>"
  obtain new where new: "points' = (points @ [?p]) @ new" "map rk_hit new = hs"
      "map rk_rank new = [Suc (n + 1)..<Suc (n + 1 + length hs)]" "\<forall>p \<in> set new. bound_point view p"
    using Cons.IH [OF r(4)] by blast
  have "bound_point view ?p" using interruptible_Inr [OF resolve_interruptible r(1)] r(2,3) by (simp add: bound_point_def)
  then show ?case using new by (intro exI [of _ "?p # new"]) (simp add: upt_rec)
qed simp

lemma verify_unit_Inr:
  assumes "verify_unit bs prepared e = Inr txt"
  shows "pe_unit e < length (pu_units prepared) \<and> pu_units prepared ! pe_unit e = evidence_unit e \<and>
    txt = take (pe_end e - pe_start e) (drop (pe_start e) bs) \<and> pe_start e \<le> pe_end e \<and> pe_end e \<le> length bs \<and>
    pe_end e - pe_start e \<le> 65536"
  using assms
  by (auto simp: verify_unit_def res_simps nth_opt_def get_range_def evidence_unit_def split: if_splits)

lemma query_gap_Inr:
  "query_gap generation point code = Inr item \<Longrightarrow>
   item = SGap \<lparr>sg_rank = rk_rank point, sg_score = hit_score (rk_hit point),
     sg_evidence = point_metadata generation point, sg_code = code\<rparr>"
  by (auto simp: query_gap_def failure_code_new_def res_simps split: if_splits)

lemma fill_gaps_Inr:
  assumes "fill_gaps generation points code indices slots = Inr slots'" "\<forall>j \<in> set indices. j < length slots"
  shows "length slots' = length slots \<and> (\<forall>j < length slots. slots' ! j =
    (if j \<in> set indices then Some (SGap \<lparr>sg_rank = rk_rank (points ! j), sg_score = hit_score (rk_hit (points ! j)),
       sg_evidence = point_metadata generation (points ! j), sg_code = code\<rparr>) else slots ! j))"
  using assms
proof (induction indices arbitrary: slots)
  case (Cons i indices)
  then show ?case by (auto simp: res_simps nth_list_update dest!: query_gap_Inr)
qed simp

lemma fill_hits_Inr:
  assumes "fill_hits generation points source prepared indices slots env = Inr (slots', env')"
    and "\<forall>j \<in> set indices. j < length slots"
  shows "length slots' = length slots \<and> (\<forall>j < length slots. j \<notin> set indices \<longrightarrow> slots' ! j = slots ! j) \<and>
    (\<forall>j \<in> set indices. \<exists>txt. verify_unit source prepared (rp_evidence (rk_resolved (points ! j))) = Inr txt \<and>
      slots' ! j = Some (SHit \<lparr>sh_rank = rk_rank (points ! j), sh_score = hit_score (rk_hit (points ! j)),
        sh_evidence = point_metadata generation (points ! j), sh_unit_text = txt\<rparr>))"
  using assms
proof (induction indices arbitrary: slots env)
  case (Cons i indices)
  obtain tx env1 where t: "verify_unit source prepared (rp_evidence (rk_resolved (points ! i))) = Inr tx"
      "fill_hits generation points source prepared indices (slots[i := Some (SHit \<lparr>sh_rank = rk_rank (points ! i),
         sh_score = hit_score (rk_hit (points ! i)), sh_evidence = point_metadata generation (points ! i),
         sh_unit_text = tx\<rparr>)]) env1 = Inr (slots', env')"
    using Cons.prems(1) by (auto simp: res_simps Let_def)
  have b: "i < length slots" "\<forall>j \<in> set indices. j < length slots" using Cons.prems(2) by auto
  note IH = Cons.IH [OF t(2), simplified, OF b(2)]
  show ?case
  proof (cases "i \<in> set indices")
    case True
    then show ?thesis using IH b by auto
  next
    case False
    then show ?thesis using IH b t(1) by (auto simp: nth_list_update)
  qed
qed simp

lemma object_bytes_any:
  assumes "object_bytes blake3 fs root r maximum env = Inr (x, env')" "maximum + 1 < u64_bound"
  shows "object_at fs root r maximum = x \<and> (\<forall>bs. x = Some bs \<longrightarrow> verified blake3 r bs \<and> length bs = byte_length r)"
  using object_bytes_at [OF interruptible_Inr [OF object_bytes_interruptible [OF assms(2)] assms(1)] assms(2)] .

lemma fill_group_Inr:
  assumes "fill_group blake3 fs root generation first points slots env = Inr (slots', env')"
    and "length slots = length points" "first < length points"
    and bound: "\<forall>p \<in> set points. bound_point view p"
  shows "length slots' = length slots \<and> (\<forall>j < length slots.
    if same_group (points ! first) (points ! j)
    then slots' ! j = Some (point_item fs root generation (points ! j)) \<and> point_backed blake3 fs root (rk_resolved (points ! j))
    else slots' ! j = slots ! j)"
proof -
  let ?r = "rk_resolved (points ! first)" and ?in = "\<lambda>j. j < length points \<and> same_group (points ! first) (points ! j)"
  let ?indices = "filter (\<lambda>i. same_group (points ! first) (points ! i)) [0..<length points]"
  have idx: "\<forall>j \<in> set ?indices. j < length slots" using assms(2) by simp
  have same: "pe_input (rp_evidence (rk_resolved (points ! j))) = pe_input (rp_evidence ?r) \<and>
      pe_prepared (rp_evidence (rk_resolved (points ! j))) = pe_prepared (rp_evidence ?r) \<and>
      rp_captured (rk_resolved (points ! j)) = rp_captured ?r" if j: "?in j" for j
  proof -
    have in': "pe_input (rp_evidence (rk_resolved p)) = object_ref (ca_source (rp_captured (rk_resolved p)))" if p: "p \<in> set points" for p
      using bound p resolve_binds by (auto simp: bound_point_def)
    show ?thesis using j in' [of "points ! j"] in' [of "points ! first"] assms(3) by (simp add: same_group_def)
  qed
  obtain source env1 where s: "object_bytes blake3 fs root (pe_input (rp_evidence ?r)) MAX_SOURCE_OBJECT_BYTES env = Inr (source, env1)"
    using assms(1) by (auto simp: fill_group_def Let_def res_simps)
  note S = object_bytes_any [OF s object_bounds(1)]
  show ?thesis
  proof (cases source)
    case None
    then have "fill_gaps generation points ''SOURCE_OBJECT_MISSING'' ?indices slots = Inr slots'"
      using assms(1) s by (auto simp: fill_group_def Let_def res_simps)
    from fill_gaps_Inr [OF this idx] show ?thesis
      using S None same assms(2) by (auto simp: point_item_def point_gap_def point_backed_def Let_def)
  next
    case (Some bs)
    obtain art env2 where a: "object_bytes blake3 fs root (pe_prepared (rp_evidence ?r)) (64 * 1024 * 1024) env1 = Inr (art, env2)"
      using assms(1) s Some by (auto simp: fill_group_def Let_def res_simps)
    note A = object_bytes_any [OF a object_bounds(2)]
    show ?thesis
    proof (cases art)
      case None
      then have "fill_gaps generation points ''PREPARED_OBJECT_MISSING'' ?indices slots = Inr slots'"
        using assms(1) s a Some by (auto simp: fill_group_def Let_def res_simps)
      from fill_gaps_Inr [OF this idx] show ?thesis
        using S A None Some same assms(2) by (auto simp: point_item_def point_gap_def point_backed_def Let_def)
    next
      case Some': (Some body)
      obtain prepared env3 where d: "decode_prepared_utf8 blake3 body (ca_source (rp_captured ?r))
            (cp_settings (ca_preparation (rp_captured ?r))) search_limits env2 = Inr (prepared, env3)" "pu_text prepared = bs"
          "fill_hits generation points bs prepared ?indices slots env3 = Inr (slots', env')"
        using assms(1) s a Some Some' by (auto simp: fill_group_def Let_def res_simps split: if_splits)
      note D = decode_Inr [OF d(1)] and H = fill_hits_Inr [OF d(3) idx]
      show ?thesis
      proof (intro conjI allI impI)
        show "length slots' = length slots" using H by blast
        fix j assume j: "j < length slots"
        show "if same_group (points ! first) (points ! j)
          then slots' ! j = Some (point_item fs root generation (points ! j)) \<and> point_backed blake3 fs root (rk_resolved (points ! j))
          else slots' ! j = slots ! j"
        proof (cases "same_group (points ! first) (points ! j)")
          case True
          then obtain tx where t: "verify_unit bs prepared (rp_evidence (rk_resolved (points ! j))) = Inr tx"
              "slots' ! j = Some (SHit \<lparr>sh_rank = rk_rank (points ! j), sh_score = hit_score (rk_hit (points ! j)),
                sh_evidence = point_metadata generation (points ! j), sh_unit_text = tx\<rparr>)"
            using H j assms(2) by auto
          have "?in j" using True j assms(2) by simp
          then show ?thesis using True same [of j] t verify_unit_Inr [OF t(1)] S A Some Some' D d(2)
            by (auto simp: point_item_def point_gap_def point_backed_def Let_def)
        next
          case False
          then show ?thesis using H j by auto
        qed
      qed
    qed
  qed
qed

lemma emit_items_Inr:
  assumes "emit_items blake3 fs root generation points [k..<length points] slots items env = Inr (items', env')"
    and "length slots = length points" "\<forall>p \<in> set points. bound_point view p"
    and "\<forall>j < length points. k \<le> j \<longrightarrow> slots ! j \<noteq> None \<longrightarrow>
      slots ! j = Some (point_item fs root generation (points ! j)) \<and> point_backed blake3 fs root (rk_resolved (points ! j))"
  shows "items' = items @ map (point_item fs root generation) (drop k points) \<and>
    (\<forall>p \<in> set (drop k points). point_backed blake3 fs root (rk_resolved p))"
  using assms(1,2,4)
proof (induction "length points - k" arbitrary: k slots items env)
  case (Suc n)
  then have k: "k < length points" by simp
  obtain slots1 env1 item where e: "(if slots ! k = None then fill_group blake3 fs root generation k points slots env
        else Inr (slots, env)) = Inr (slots1, env1)" "slots1 ! k = Some item"
      "emit_items blake3 fs root generation points [Suc k..<length points] (slots1[k := None]) (items @ [item]) env1 = Inr (items', env')"
    using Suc.prems(1) k by (auto simp: upt_conv_Cons res_simps)
  have G: "length slots1 = length points \<and> (\<forall>j < length points. k \<le> j \<longrightarrow> slots1 ! j \<noteq> None \<longrightarrow>
      slots1 ! j = Some (point_item fs root generation (points ! j)) \<and> point_backed blake3 fs root (rk_resolved (points ! j)))"
  proof (cases "slots ! k = None")
    case True
    then show ?thesis
      using fill_group_Inr [of blake3 fs root generation k points slots env slots1 env1, OF _ Suc.prems(2) k assms(3)] e(1) Suc.prems(2,3)
      by (auto split: if_splits)
  next
    case False
    then have "slots1 = slots" using e(1) by (simp only: if_False) simp
    then show ?thesis using Suc.prems(2,3) by simp
  qed
  have "items' = (items @ [item]) @ map (point_item fs root generation) (drop (Suc k) points) \<and>
    (\<forall>p \<in> set (drop (Suc k) points). point_backed blake3 fs root (rk_resolved p))"
    by (rule Suc.hyps(1) [OF _ e(3)]) (use Suc.hyps(2) G in auto)
  then show ?case using G e(2) k by (auto simp: Cons_nth_drop_Suc [symmetric])
qed simp

lemma verified_execute_Inr:
  assumes "verified_execute blake3 fs root backend view request env = Inr (items, env')"
  shows "\<exists>env1 env2 nominated points. backend (collection (pv_generation view)) (sr_query request) (sr_limit request) env1 = Inr (nominated, env2) \<and>
    map rk_hit points = nominated \<and> map rk_rank points = [1..<Suc (length nominated)] \<and> (\<forall>p \<in> set points. bound_point view p) \<and>
    items = map (point_item fs root (g_sequence (pv_generation view))) points \<and>
    (\<forall>p \<in> set points. point_backed blake3 fs root (rk_resolved p))"
proof -
  obtain env1 nominated env2 env3 points env4 env5 env6 where e:
      "backend (collection (pv_generation view)) (sr_query request) (sr_limit request) env1 = Inr (nominated, env2)"
      "rank_points view 0 nominated [] env3 = Inr (points, env4)"
      "emit_items blake3 fs root (g_sequence (pv_generation view)) points [0..<length points]
         (replicate (length points) None) [] env5 = Inr (items, env6)"
    using assms by (auto simp: verified_execute_def res_simps)
  have P: "map rk_hit points = nominated" "map rk_rank points = [1..<Suc (length nominated)]" "\<forall>p \<in> set points. bound_point view p"
    using rank_points_Inr [OF e(2)] by auto
  have "items = map (point_item fs root (g_sequence (pv_generation view))) points \<and>
      (\<forall>p \<in> set points. point_backed blake3 fs root (rk_resolved p))"
    using emit_items_Inr [OF e(3) _ P(3)] by simp
  then show ?thesis using e(1) P by blast
qed

end
