(* ===== verification/QueryClaims.thy ===== *)
theory QueryClaims
  imports VerifiedQuery ExactExample
begin

text \<open>
  The claim about the verified query, with a run on the concrete generation of \<open>ExactExample\<close>
  whose second unit the index nominates.
\<close>

text \<open>
  C17: A verified query answers every hit that the index nominates, in the order and with the score
  of the index: each item is the reference item of the point that the pinned view resolves for
  it, a gap exactly when its source object or its artifact is missing from the files, and
  otherwise the unit of the evidence cut from source bytes that have the recorded length and hash
  and that the verified artifact encodes. No text of the index reaches the answer.
\<close>

theorem verified_query_exact:
  assumes "verified_execute blake3 fs root backend view request env = Inr (items, env')"
  shows "\<exists>env1 env2 nominated points.
    backend (collection (pv_generation view)) (sr_query request) (sr_limit request) env1 = Inr (nominated, env2) \<and>
    map rk_hit points = nominated \<and> map rk_rank points = [1..<Suc (length nominated)] \<and>
    (\<forall>p \<in> set points. bound_point view p) \<and>
    items = map (point_item fs root (g_sequence (pv_generation view))) points \<and>
    (\<forall>p \<in> set points. point_backed blake3 fs root (rk_resolved p))"
  using verified_execute_Inr [OF assms] .

definition xs_evidence :: PointEvidence where
  "xs_evidence = \<lparr>pe_namespace_id = replicate 16 1, pe_source_id = replicate 16 2, pe_input = object_ref Artifact.ex_source,
     pe_prepared = xs_ref, pe_unit = 1, pe_start = 3, pe_end = 5, pe_line_start = 1, pe_line_end = 2,
     pe_starts_at_line = True, pe_ends_at_line = False\<rparr>"

definition xs_points_view :: PublishedView where
  "xs_points_view = \<lparr>pv_generation = pv_generation xs_view,
     pv_transaction = \<lparr>db_tables = [(SOURCES, [(gen_key 1 (replicate 16 2), projr (encode_entry xs_entry))]),
       (EVIDENCE, [(gen_key 1 (be_bytes 1 @ be_bytes 1), encode_evidence xs_evidence)])], db_multimaps = []\<rparr>\<rparr>"

definition xs_hit :: Hit where
  "xs_hit = \<lparr>hit_id = be_bytes 1 @ be_bytes 1, hit_source_id = replicate 16 2, hit_score = 0x3F800000\<rparr>"

definition xs_resolved :: ResolvedPoint where
  "xs_resolved = \<lparr>rp_evidence = xs_evidence, rp_captured = xs_captured\<rparr>"

definition xs_point :: RankedPoint where
  "xs_point = \<lparr>rk_rank = 1, rk_hit = xs_hit, rk_resolved = xs_resolved\<rparr>"

definition xs_search :: SearchRequest where
  "xs_search = \<lparr>sr_query = [99], sr_limit = 4\<rparr>"

definition xs_backend :: backend where
  "xs_backend name query limit env = Inr ([xs_hit], env)"

lemma xs_resolves: "resolve_point xs_points_view (hit_id xs_hit) [] = Inr (xs_resolved, [])"
proof -
  obtain bs where bs: "encode_entry xs_entry = Inr bs" "decode_source bs = Inr xs_entry" using xs_encoded by blast
  have "storable_evidence xs_evidence"
    using xs_ref_ok by (simp add: storable_evidence_def wf_evidence_def validate_evidence_def xs_evidence_def
      Artifact.ex_source_def object_source_def wf_object_def Artifact.ex_hash_def SOURCE_OBJECT_FORMAT_VERSION_def
      MAX_SOURCE_OBJECT_BYTES_def MAX_TEXT_BYTES_def valid_object_def)
  then have e: "decode_evidence (encode_evidence xs_evidence) = Inr xs_evidence" using evidences.dec_enc by blast
  have "of_be_bytes (be_bytes 1) = 1" by (simp add: of_be_bytes_def be_bytes_def of_le_bytes_le_bytes)
  then show ?thesis
    using bs e by (simp add: resolve_point_def Let_def xs_points_view_def xs_view_def xs_hit_def r_open_def r_get_def get_table_def
      tbl_get_def SOURCES_def EVIDENCE_def xs_evidence_def xs_entry_def xs_captured_def Artifact.ex_source_def object_source_def
      ready_artifact_def xs_resolved_def)
qed

lemma xs_query_run:
  "verified_execute Artifact.ex_hash xs_files [] xs_backend xs_points_view xs_search [] =
     Inr ([point_item xs_files [] 1 xs_point], [])"
proof -
  let ?view = "\<lparr>pu_text = Artifact.ex_text, pu_units = xs_units\<rparr>"
  have r: "rank_points xs_points_view 0 [xs_hit] [] [] = Inr ([xs_point], [])"
  proof -
    have "is_finite (hit_score xs_hit)" by (simp add: is_finite_def xs_hit_def)
    then show ?thesis using xs_resolves
      by (simp add: xs_point_def try_from_def) (simp add: xs_hit_def xs_resolved_def xs_evidence_def)
  qed
  have in': "pe_input (rp_evidence (rk_resolved xs_point)) = object_ref Artifact.ex_source"
      "pe_prepared (rp_evidence (rk_resolved xs_point)) = xs_ref" "rp_captured (rk_resolved xs_point) = xs_captured"
    by (simp_all add: xs_point_def xs_resolved_def xs_evidence_def)
  have c: "ca_source xs_captured = Artifact.ex_source" "cp_settings (ca_preparation xs_captured) = Artifact.ex_settings"
    by (simp_all add: xs_captured_def)
  have at: "object_at xs_files [] (object_ref Artifact.ex_source) MAX_SOURCE_OBJECT_BYTES = Some Artifact.ex_text"
      "object_at xs_files [] xs_ref 67108864 = Some xs_artifact"
    using object_content_at(1) [OF xs_objects(1)] object_content_at(1) [OF xs_objects(2)] by auto
  have u: "verify_unit Artifact.ex_text ?view xs_evidence = Inr [99, 100]"
  proof -
    have "str_get Artifact.ex_text 3 5 = Some [99, 100]" by (simp add: Artifact.ex_text_def) code_simp
    then show ?thesis
      by (simp add: verify_unit_def xs_evidence_def xs_units_def nth_opt_def try_from_def get_range_def) (simp add: Artifact.ex_text_def)
  qed
  have f: "fill_group Artifact.ex_hash xs_files [] 1 0 [xs_point] [None] [] = Inr ([Some (point_item xs_files [] 1 xs_point)], [])"
    unfolding fill_group_def Let_def
    using xs_decoded u in' c at
    by (simp add: objects_quiet [simplified] xs_objects(1) xs_objects(2) [simplified] same_group_def point_item_def point_gap_def Let_def)
      (simp add: xs_point_def xs_resolved_def xs_evidence_def Artifact.ex_text_def)
  have "search_request_validate xs_search = Inr ()" by (simp add: xs_search_def search_request_validate_def MAX_QUERY_BYTES_def MAX_ITEMS_def)
  then show ?thesis
    using r f by (simp add: verified_execute_def xs_backend_def xs_points_view_def xs_raw_facts)
qed

theorem verified_query_exact_witness:
  "\<exists>items points. verified_execute Artifact.ex_hash xs_files [] xs_backend xs_points_view xs_search [] = Inr (items, []) \<and>
     map rk_hit points = [xs_hit] \<and> map rk_rank points = [1] \<and> items = map (point_item xs_files [] 1) points \<and>
     point_gap xs_files [] xs_evidence = None"
proof -
  have "point_gap xs_files [] xs_evidence = None"
    using object_content_at(1) [OF xs_objects(1)] object_content_at(1) [OF xs_objects(2)]
    by (simp add: point_gap_def xs_evidence_def)
  moreover have "nominated = [xs_hit]" if if': "xs_backend name query limit env1 = Inr (nominated, env2)" for name query limit env1 nominated env2
    using if' by (simp add: xs_backend_def)
  moreover have "g_sequence (pv_generation xs_points_view) = 1" "[1..<Suc (length [xs_hit])] = [1]"
    by (simp_all add: xs_points_view_def xs_raw_facts)
  ultimately show ?thesis using verified_query_exact [OF xs_query_run] xs_query_run by metis
qed

end
