(* ===== verification/Window.thy ===== *)
theory Window
  imports VerifiedQuery Frame
begin

text \<open>
  The result window of a session (\<open>framed_search/window.rs\<close>, \<open>window/expand.rs\<close>): one pinned view, the
  vector of original items, and a cursor that only a flushed page moves. A page is cut to what
  fits a frame; an expansion shows more of the representation around an item that was already
  emitted. The root's files, the hash, the JSON libraries, the opening of the root and the index
  service are parameters.
\<close>

section \<open>Model: the window\<close>

fun root_failure :: "PlainRootError \<Rightarrow> QueryFailure" where
  "root_failure PlainRootError.Cancelled = QueryFailure.Cancelled"
| "root_failure PlainRootError.Deadline = QueryFailure.Deadline"
| "root_failure PlainRootError.Busy = Code ''ROOT_BUSY''"
| "root_failure PlainRootError.Absent = Code ''ROOT_ABSENT''"
| "root_failure PlainRootError.InvalidPath = Code ''ROOT_INVALID_PATH''"
| "root_failure PlainRootError.Unsupported = Code ''ROOT_UNSUPPORTED''"
| "root_failure PlainRootError.Corrupt = Code ''ROOT_CORRUPT''"
| "root_failure PlainRootError.NeedsRepair = Code ''ROOT_NEEDS_REPAIR''"
| "root_failure PlainRootError.Archive = Code ''ROOT_ARCHIVE''"
| "root_failure PlainRootError.IncompleteImport = Code ''ROOT_INCOMPLETE_IMPORT''"
| "root_failure PlainRootError.WrongState = Code ''ROOT_WRONG_STATE''"
| "root_failure PlainRootError.AlreadyExists = Code ''ROOT_ALREADY_EXISTS''"
| "root_failure PlainRootError.Io = Code ''ROOT_IO''"
| "root_failure PlainRootError.TooLarge = Code ''ROOT_TOO_LARGE''"
| "root_failure PlainRootError.Unavailable = Code ''ROOT_UNAVAILABLE''"
| "root_failure PlainRootError.ProbeLimit = Code ''ROOT_PROBE_LIMIT''"

text \<open>
  What the worker of a session works on: the parameters of the model in one record. The lock on the
  root keeps the files and the control database fixed while a window is open.
\<close>

record Service =
  sv_blake3 :: "bytes \<Rightarrow> bytes"
  sv_files :: files
  sv_root :: path
  sv_json :: Json
  sv_control :: Database
  sv_open_plain :: "env \<Rightarrow> PlainRootError + env"
  sv_backend :: "backend option"
  sv_serialize :: "SessionReply serializer"

record Window =
  wn_view :: PublishedView
  wn_expires :: nat
  wn_items :: "WindowItem list"
  wn_summary :: WindowSummary
  wn_cursor :: nat

text \<open>The query of the window: its items and the summary that the exact searches report.\<close>

definition window_results ::
  "Service \<Rightarrow> PublishedView \<Rightarrow> WindowQuery \<Rightarrow> env \<Rightarrow> (QueryFailure + (WindowItem list \<times> WindowSummary) \<times> env) option" where
  "window_results sv view query env =
     (let summary = \<lparr>ws_generation = g_sequence (pv_generation view), ws_retained_items = 0, ws_found_matches = None,
        ws_scan_complete = None, ws_complete_negative = None, ws_result_stop = Complete\<rparr> in
      case query of
        QSearch request \<Rightarrow>
          Some (bindE (ok_or (Code ''QUERY_ENDPOINT_REQUIRED'') (sv_backend sv)) (\<lambda>backend.
          bindE (verified_execute (sv_blake3 sv) (sv_files sv) (sv_root sv) backend view request env) (\<lambda>(items, env).
          Inr ((map WSearch items, summary), env))))
      | QRaw request \<Rightarrow>
          bindO (raw_execute (sv_blake3 sv) (sv_files sv) (sv_root sv) view request env) (\<lambda>(result, env).
          Some (Inr ((map WRaw (rx_items result), summary\<lparr>ws_found_matches := Some (rx_matches result),
            ws_scan_complete := Some (rx_scan_complete result),
            ws_complete_negative := Some (rx_complete_negative result), ws_result_stop := rx_stop result\<rparr>), env)))
      | QDecodedUtf8 request \<Rightarrow>
          bindO (decoded_execute (sv_blake3 sv) (sv_files sv) (sv_root sv) view request env) (\<lambda>(result, env).
          Some (Inr ((map WDecoded (dx_items result), summary\<lparr>ws_found_matches := Some (dx_matches result),
            ws_scan_complete := Some (dx_scan_complete result),
            ws_complete_negative := Some (dx_complete_negative result), ws_result_stop := dx_stop result\<rparr>), env))))"

definition window_open :: "Service \<Rightarrow> WindowQuery \<Rightarrow> nat \<Rightarrow> env \<Rightarrow> (QueryFailure + Window \<times> env) option" where
  "window_open sv query expires env =
     bindO (Some (bindE (q_check env) (\<lambda>env.
       bindE (mapErr protocol_failure (window_query_validate query)) (\<lambda>_.
       bindE (q_reserve env) (\<lambda>env.
       bindE (mapErr root_failure (sv_open_plain sv env)) (\<lambda>env.
       mapErr publication_failure (pin_published (sv_json sv) (sv_control sv) env))))))) (\<lambda>(view, env).
     bindO (window_results sv view query env) (\<lambda>((items, summary), env).
     Some (bindE (ok_or (Code ''WINDOW_ITEM_LIMIT'') (try_from u8_bound (length items))) (\<lambda>retained.
       bindE (q_check env) (\<lambda>env.
       Inr (\<lparr>wn_view = view, wn_expires = expires, wn_items = items,
         wn_summary = summary\<lparr>ws_retained_items := retained\<rparr>, wn_cursor = 0\<rparr>, env))))))"

section \<open>Model: pages\<close>

record PreparedPage =
  pp_bytes :: bytes
  pp_expected_cursor :: nat
  pp_next_cursor :: nat

text \<open>
  One attempt to encode a reply, with what is left of the environment when it fails: the writer
  takes one reservation for each chunk until the frame is full.
\<close>

fun writes_left :: "CappedWriter \<Rightarrow> bytes list \<Rightarrow> env \<Rightarrow> env" where
  "writes_left w [] env = env"
| "writes_left w (c # cs) env =
     (case capped_write w c env of
        Inr (w, env) \<Rightarrow> writes_left w cs env
      | Inl w \<Rightarrow> if cw_failure w = Some FrameTooLarge then env else tl env)"

definition encode_attempt :: "SessionReply serializer \<Rightarrow> SessionReply \<Rightarrow> env \<Rightarrow> (ProtocolError + bytes) \<times> env" where
  "encode_attempt ser reply env =
     (case encode_session_reply ser reply env of
        Inr (bs, env) \<Rightarrow> (Inr bs, env)
      | Inl e \<Rightarrow> (Inl e,
          case session_reply_validate reply of
            Inl _ \<Rightarrow> env
          | Inr _ \<Rightarrow> (case reserve_with ResourceExhausted env of
                Inl _ \<Rightarrow> tl env
              | Inr env \<Rightarrow> writes_left \<lparr>cw_bytes = replicate FRAME_PREFIX_BYTES 0, cw_maximum = MAX_FRAME_BYTES,
                  cw_failure = None\<rparr> (fst (ser reply)) env)))"

definition page_reply :: "nat \<Rightarrow> WindowPage \<Rightarrow> SessionReply" where
  "page_reply request_id page = \<lparr>rp_request_id = request_id, rp_outcome = SPage page\<rparr>"

definition page_shrunk :: "WindowPage \<Rightarrow> WindowPage" where
  "page_shrunk page = page\<lparr>wp_items := butlast (wp_items page), wp_next_index := wp_next_index page - 1,
     wp_has_more := True, wp_page_stop := OutputLimit\<rparr>"

function page_fit ::
  "SessionReply serializer \<Rightarrow> nat \<Rightarrow> WindowPage \<Rightarrow> env \<Rightarrow> QueryFailure + (bytes \<times> WindowPage) \<times> env" where
  "page_fit ser request_id page env =
     bindE (q_check env) (\<lambda>env.
     case encode_attempt ser (page_reply request_id page) env of
       (encoded, env) \<Rightarrow>
         bindE (q_check env) (\<lambda>env.
         case encoded of
           Inr bs \<Rightarrow> Inr ((bs, page), env)
         | Inl e \<Rightarrow>
             if e = FrameTooLarge then
               if length (wp_items page) \<le> 1 then Inl (Code ''WINDOW_ITEM_TOO_LARGE'')
               else page_fit ser request_id (page_shrunk page) env
             else Inl (protocol_failure e)))"
  by pat_completeness auto
termination
  by (relation "measure (\<lambda>(_, _, page, _). length (wp_items page))") (auto simp: page_shrunk_def)

declare page_fit.simps [simp del]

fun window_entries :: "WindowItem list \<Rightarrow> nat list \<Rightarrow> QueryFailure + WindowEntry list" where
  "window_entries items [] = Inr []"
| "window_entries items (index # indices) =
     bindE (ok_or (Code ''WINDOW_ITEM_LIMIT'') (try_from u8_bound index)) (\<lambda>i.
     bindE (window_entries items indices) (\<lambda>entries.
     Inr (\<lparr>we_item_index = i, we_item = items ! index\<rparr> # entries)))"

definition window_page ::
  "SessionReply serializer \<Rightarrow> Window \<Rightarrow> nat \<Rightarrow> nat \<Rightarrow> env \<Rightarrow> QueryFailure + PreparedPage \<times> env" where
  "window_page ser w request_id sz env =
     bindE (q_check env) (\<lambda>env.
     let end' = min (length (wn_items w)) (wn_cursor w + sz) in
     bindE (q_reserve env) (\<lambda>env.
     bindE (window_entries (wn_items w) [wn_cursor w..<end']) (\<lambda>entries.
     bindE (ok_or (Code ''WINDOW_ITEM_LIMIT'') (try_from u8_bound end')) (\<lambda>next_index.
     bindE (page_fit ser request_id \<lparr>wp_window_id = SESSION_WINDOW_ID, wp_summary = wn_summary w,
         wp_start_index = wn_cursor w, wp_next_index = next_index, wp_items = entries,
         wp_has_more = (end' < length (wn_items w)), wp_page_stop = Complete\<rparr> env) (\<lambda>((bs, page), env).
     Inr (\<lparr>pp_bytes = bs, pp_expected_cursor = wn_cursor w, pp_next_cursor = wp_next_index page\<rparr>, env))))))"

definition commit_page :: "Window \<Rightarrow> nat \<Rightarrow> nat \<Rightarrow> QueryFailure + Window" where
  "commit_page w expected next_cursor =
     (if wn_cursor w \<noteq> expected \<or> next_cursor < expected \<or> length (wn_items w) < next_cursor
      then Inl (Code ''WINDOW_CURSOR_STALE'')
      else Inr (w\<lparr>wn_cursor := next_cursor\<rparr>))"

section \<open>Model: expansions\<close>

record Anchor =
  an_id :: string
  an_namespace_id :: string
  an_input :: ObjectRefDto
  an_source :: "RawSourceRef option"
  an_prepared :: "ObjectRefDto option"
  an_start :: nat
  an_end :: nat
  an_original :: bytes

fun anchor_from_item :: "WindowItem \<Rightarrow> QueryFailure + Anchor" where
  "anchor_from_item (WSearch (SHit hit)) =
     (let e = sh_evidence hit in
      Inr \<lparr>an_id = em_source_id e, an_namespace_id = em_namespace_id e, an_input = em_input e, an_source = None,
        an_prepared = Some (em_prepared e), an_start = em_start e, an_end = em_end e,
        an_original = sh_unit_text hit\<rparr>)"
| "anchor_from_item (WRaw (RMatch hit)) =
     Inr \<lparr>an_id = rs_source_id (rm_source hit), an_namespace_id = rs_namespace_id (rm_source hit),
       an_input = rs_input (rm_source hit), an_source = Some (rm_source hit), an_prepared = None,
       an_start = rm_start hit, an_end = rm_end hit, an_original = as_bytes (rm_bytes_hex hit)\<rparr>"
| "anchor_from_item (WDecoded (DMatch hit)) =
     Inr \<lparr>an_id = rs_source_id (dm_source hit), an_namespace_id = rs_namespace_id (dm_source hit),
       an_input = rs_input (dm_source hit), an_source = Some (dm_source hit), an_prepared = Some (dm_prepared hit),
       an_start = dm_representation_start hit, an_end = dm_representation_end hit, an_original = dm_text hit\<rparr>"
| "anchor_from_item _ = Inl (Code ''WINDOW_ITEM_UNAVAILABLE'')"

definition window_range_invalid :: QueryFailure where
  "window_range_invalid = Code ''WINDOW_RANGE_INVALID''"

definition anchor_context :: "Anchor \<Rightarrow> nat \<Rightarrow> nat \<Rightarrow> QueryFailure + nat \<times> nat" where
  "anchor_context an before after =
     bindE (ok_or window_range_invalid (checked_sub (an_start an) before)) (\<lambda>s.
     bindE (ok_or window_range_invalid (Option.bind (checked_add64 (an_end an) after)
       (\<lambda>e. if e \<le> od_bytes (an_input an) then Some e else None))) (\<lambda>e.
     if an_end an \<le> an_start an \<or> MAX_EXPANSION_BYTES < e - s then Inl (Code ''WINDOW_EXPANSION_LIMIT'')
     else
       bindE (ok_or window_range_invalid (try_from u64_bound s)) (\<lambda>s.
       bindE (ok_or window_range_invalid (try_from u64_bound e)) (\<lambda>e. Inr (s, e)))))"

definition expand_visit ::
  "Anchor \<Rightarrow> nat \<Rightarrow> nat \<Rightarrow> nat \<Rightarrow> nat \<Rightarrow> ObjectRefDto \<Rightarrow> ObjectRef \<Rightarrow> PreparedUtf8 \<Rightarrow> WindowExpansion \<Rightarrow> env \<Rightarrow>
   (QueryFailure + WindowExpansion \<times> env) option" where
  "expand_visit an ostart oend s e expected art utf8 expansion env =
     Some (bindE (object_dto art env) (\<lambda>(prepared, env).
     if prepared \<noteq> expected \<or> str_get (pu_text utf8) ostart oend \<noteq> Some (an_original an)
     then Inl (Code ''EVIDENCE_TEXT_MISMATCH'')
     else
       bindE (ok_or (Code ''WINDOW_UTF8_BOUNDARY'') (str_get (pu_text utf8) s e)) (\<lambda>txt.
       bindE (q_reserve env) (\<lambda>env.
       Inr (expansion\<lparr>wx_prepared := Some prepared, wx_content := XUtf8 txt\<rparr>, env)))))"

definition expand_raw ::
  "Service \<Rightarrow> CapturedSource \<Rightarrow> Anchor \<Rightarrow> nat \<Rightarrow> nat \<Rightarrow> nat \<Rightarrow> nat \<Rightarrow> WindowExpansion \<Rightarrow> env \<Rightarrow>
   QueryFailure + WindowExpansion \<times> env" where
  "expand_raw sv captured an ostart oend s e expansion env =
     (case read_object (sv_blake3 sv) (sv_root sv) (object_ref (ca_source captured)) MAX_SOURCE_OBJECT_BYTES (sv_files sv, env) of
        (Inl err, w) \<Rightarrow> Inl (object_failure err)
      | (Inr bs, w) \<Rightarrow>
          bindE (ok_or window_range_invalid (get_range bs ostart oend)) (\<lambda>original.
          bindE (hex original (snd w)) (\<lambda>(digits, env).
          if as_bytes digits \<noteq> an_original an then Inl (Code ''EVIDENCE_TEXT_MISMATCH'')
          else
            bindE (ok_or window_range_invalid (get_range bs s e)) (\<lambda>bs.
            bindE (hex bs env) (\<lambda>(digits, env).
            Inr (expansion\<lparr>wx_content := XRaw digits\<rparr>, env))))))"

definition expand_source ::
  "Service \<Rightarrow> PublishedView \<Rightarrow> nat \<Rightarrow> WindowItem \<Rightarrow> nat \<Rightarrow> nat \<Rightarrow> env \<Rightarrow>
   QueryFailure + (Anchor \<times> CapturedSource \<times> nat \<times> nat \<times> WindowExpansion) \<times> env" where
  "expand_source sv view item_index item before after env =
     bindE (q_check env) (\<lambda>env.
     bindE (anchor_from_item item) (\<lambda>an.
     bindE (anchor_context an before after) (\<lambda>(s, e).
     bindE (ok_or window_range_invalid (try_from u64_bound (an_start an))) (\<lambda>ostart.
     bindE (ok_or window_range_invalid (try_from u64_bound (an_end an))) (\<lambda>oend.
     bindE (mapErr (\<lambda>_. Code ''EVIDENCE_BINDING_INVALID'') (uuid_parse (an_id an))) (\<lambda>i.
     bindE (mapErr publication_failure (view_source (sv_json sv) view i env)) (\<lambda>(captured, env).
     bindE (source_ref (ca_source captured) env) (\<lambda>(source, env).
     if rs_input source \<noteq> an_input an \<or> rs_namespace_id source \<noteq> an_namespace_id an
        \<or> (case an_source an of None \<Rightarrow> False | Some expected \<Rightarrow> expected \<noteq> source)
     then Inl (Code ''EVIDENCE_BINDING_INVALID'')
     else
       bindE (ok_or window_range_invalid (try_from u64_bound s)) (\<lambda>rs.
       bindE (ok_or window_range_invalid (try_from u64_bound e)) (\<lambda>re.
       Inr ((an, captured, s, e, \<lparr>wx_window_id = SESSION_WINDOW_ID, wx_item_index = item_index, wx_source = source,
         wx_prepared = None, wx_representation_start = rs, wx_representation_end = re, wx_source_start = rs,
         wx_source_end = re, wx_content = XRaw []\<rparr>), env)))))))))))"

definition expand_content ::
  "Service \<Rightarrow> CapturedSource \<Rightarrow> Anchor \<Rightarrow> nat \<Rightarrow> nat \<Rightarrow> WindowExpansion \<Rightarrow> env \<Rightarrow>
   (QueryFailure + WindowExpansion \<times> env) option" where
  "expand_content sv captured an s e expansion env =
     (case an_prepared an of
        Some expected \<Rightarrow>
          bindO (visit_representation (sv_blake3 sv) (sv_files sv) (sv_root sv) captured
            (expand_visit an (an_start an) (an_end an) s e expected) expansion env) (\<lambda>((gap, expansion), env).
          Some (case gap of None \<Rightarrow> Inr (expansion, env) | Some gap \<Rightarrow> Inl (Code (gp_code gap))))
      | None \<Rightarrow> Some (expand_raw sv captured an (an_start an) (an_end an) s e expansion env))"

definition expand_execute ::
  "Service \<Rightarrow> PublishedView \<Rightarrow> nat \<Rightarrow> WindowItem \<Rightarrow> nat \<Rightarrow> nat \<Rightarrow> env \<Rightarrow> (QueryFailure + WindowExpansion \<times> env) option" where
  "expand_execute sv view item_index item before after env =
     bindO (Some (expand_source sv view item_index item before after env)) (\<lambda>((an, captured, s, e, expansion), env).
     bindO (expand_content sv captured an s e expansion env) (\<lambda>(expansion, env).
     Some (bindE (q_check env) (\<lambda>env.
       bindE (mapErr protocol_failure (expansion_validate expansion)) (\<lambda>_.
       Inr (expansion, env))))))"

definition window_expand ::
  "Service \<Rightarrow> Window \<Rightarrow> nat \<Rightarrow> nat \<Rightarrow> nat \<Rightarrow> env \<Rightarrow> (QueryFailure + WindowExpansion \<times> env) option" where
  "window_expand sv w item_index before after env =
     (if wn_cursor w \<le> item_index then Some (Inl (Code ''WINDOW_ITEM_NOT_EMITTED''))
      else case nth_opt (wn_items w) item_index of
          None \<Rightarrow> Some (Inl (Code ''WINDOW_ITEM_NOT_EMITTED''))
        | Some item \<Rightarrow> expand_execute sv (wn_view w) item_index item before after env)"

end
