(* ===== verification/Session.thy ===== *)
theory Session
  imports Window
begin

text \<open>
  A session over standard input and output (\<open>framed_search/session.rs\<close>, \<open>session/worker.rs\<close>): the
  exchange, which reads frames, keeps at most one request in work and one reply in output, and the
  worker thread, which owns the window and serves commands in the order they were sent. Instants
  are numbers; \<open>Instant::now\<close> reads the next entry of a clock, the one-shot reply channels are the
  list of sent replies, and the shared cancellation flag of a job is its request id in a list.
\<close>

section \<open>Model: replies and commands\<close>

record Ready =
  rd_bytes :: bytes
  rd_commit :: "(nat \<times> nat) option"
  rd_end :: bool

record Job =
  jb_message :: SessionClientFrame
  jb_deadline :: nat
  jb_expires :: "nat option"

datatype Command = Execute Job | Commit nat nat | Shutdown

definition session_outcome ::
  "SessionReply serializer \<Rightarrow> nat \<Rightarrow> SessionOutcome \<Rightarrow> bool \<Rightarrow> env \<Rightarrow> string + Ready \<times> env" where
  "session_outcome ser request_id outcome end' env =
     bindE (mapErr protocol_code (encode_session_reply ser
       \<lparr>rp_request_id = request_id, rp_outcome = outcome\<rparr> env)) (\<lambda>(bs, env).
     Inr (\<lparr>rd_bytes = bs, rd_commit = None, rd_end = end'\<rparr>, env))"

definition failure_outcome :: "QueryFailure \<Rightarrow> string + SessionOutcome" where
  "failure_outcome f =
     (case f of
        QueryFailure.Cancelled \<Rightarrow> Inr SCancelled
      | QueryFailure.Deadline \<Rightarrow> bindE (mapErr protocol_code (failure_code_new ''QUERY_DEADLINE'')) (\<lambda>c. Inr (SFailed c))
      | Code code \<Rightarrow> bindE (mapErr protocol_code (failure_code_new code)) (\<lambda>c. Inr (SFailed c)))"

definition session_failure :: "SessionReply serializer \<Rightarrow> nat \<Rightarrow> QueryFailure \<Rightarrow> env \<Rightarrow> string + Ready \<times> env" where
  "session_failure ser request_id f env =
     bindE (failure_outcome f) (\<lambda>outcome. session_outcome ser request_id outcome False env)"

section \<open>Model: the worker\<close>

record Worker =
  wk_window :: "Window option"
  wk_expires :: "nat option"
  wk_running :: bool

definition worker_page :: "Service \<Rightarrow> Window option \<Rightarrow> Job \<Rightarrow> nat \<Rightarrow> env \<Rightarrow> QueryFailure + Ready \<times> env" where
  "worker_page sv window job sz env =
     bindE (ok_or (Code ''WINDOW_NOT_OPEN'') window) (\<lambda>w.
     bindE (window_page (sv_serialize sv) w (session_request_id (jb_message job)) sz env) (\<lambda>(page, env).
     Inr (\<lparr>rd_bytes = pp_bytes page, rd_commit = Some (pp_expected_cursor page, pp_next_cursor page),
       rd_end = False\<rparr>, env)))"

text \<open>The window is updated even when the operation fails; \<open>None\<close> is a search that does not return.\<close>

definition worker_execute ::
  "Service \<Rightarrow> Window option \<Rightarrow> Job \<Rightarrow> env \<Rightarrow> ((QueryFailure + Ready \<times> env) \<times> Window option) option" where
  "worker_execute sv window job env =
     (case q_check env of
        Inl e \<Rightarrow> Some (Inl e, window)
      | Inr env \<Rightarrow>
          (case jb_message job of
             SOpen f \<Rightarrow>
               (case jb_expires job of
                  None \<Rightarrow> Some (Inl (Code ''WINDOW_NOT_OPEN''), window)
                | Some expires \<Rightarrow>
                    (case window_open sv (of_query f) expires env of
                       None \<Rightarrow> None
                     | Some (Inl e) \<Rightarrow> Some (Inl e, window)
                     | Some (Inr (w, env)) \<Rightarrow> Some (worker_page sv (Some w) job (of_page_size f) env, Some w)))
           | SContinue f \<Rightarrow> Some (worker_page sv window job (cf_page_size f) env, window)
           | SExpand f \<Rightarrow>
               (case window of
                  None \<Rightarrow> Some (Inl (Code ''WINDOW_NOT_OPEN''), window)
                | Some w \<Rightarrow>
                    (case window_expand sv w (xf_item_index f) (xf_before_bytes f) (xf_after_bytes f) env of
                       None \<Rightarrow> None
                     | Some (Inl e) \<Rightarrow> Some (Inl e, window)
                     | Some (Inr (expansion, env)) \<Rightarrow>
                         Some (mapErr Code (session_outcome (sv_serialize sv) (session_request_id (jb_message job))
                           (SExpanded expansion) False env), window)))
           | SClose _ \<Rightarrow>
               Some (mapErr Code (session_outcome (sv_serialize sv) (session_request_id (jb_message job)) SClosed True env), None)
           | SCancel _ \<Rightarrow> Some (Inl (Code ''SESSION_CONTROL_INVALID''), window)))"

definition is_close :: "SessionClientFrame \<Rightarrow> bool" where
  "is_close m = (case m of SClose _ \<Rightarrow> True | _ \<Rightarrow> False)"

definition expired :: "nat option \<Rightarrow> nat \<Rightarrow> bool" where
  "expired expires now = (case expires of None \<Rightarrow> False | Some e \<Rightarrow> e \<le> now)"

fun failure_text :: "QueryFailure \<Rightarrow> string" where
  "failure_text (Code code) = code"
| "failure_text QueryFailure.Cancelled = ''QUERY_CANCELLED''"
| "failure_text QueryFailure.Deadline = ''QUERY_DEADLINE''"

text \<open>
  The reply to a finished job: an ended lifetime or a set cancellation flag replaces the result, and
  a failure becomes a failure reply; \<open>late\<close> is the environment of that second encoding.
\<close>

definition job_reply ::
  "Service \<Rightarrow> Job \<Rightarrow> bool \<Rightarrow> bool \<Rightarrow> env \<Rightarrow> QueryFailure + Ready \<times> env \<Rightarrow> string + Ready" where
  "job_reply sv job lifetime_ended cancelled late result =
     (let request_id = session_request_id (jb_message job);
          result = (if lifetime_ended then mapErr Code (session_outcome (sv_serialize sv) request_id SExpired True late)
            else if cancelled \<and> \<not> is_close (jb_message job) then Inl QueryFailure.Cancelled else result);
          result = (case result of
              Inr (ready, env) \<Rightarrow> Inr ready
            | Inl e \<Rightarrow> bindE (mapErr Code (session_failure (sv_serialize sv) request_id e late)) (\<lambda>(ready, env). Inr ready)) in
      mapErr failure_text result)"

text \<open>
  One command: the worker afterwards and the reply sent, if any. \<open>now\<close> and \<open>later\<close> are the clock
  before and after the operation, \<open>cancelled\<close> the flag when it ends.
\<close>

definition worker_command ::
  "Service \<Rightarrow> Worker \<Rightarrow> Command \<Rightarrow> nat \<Rightarrow> nat \<Rightarrow> bool \<Rightarrow> env \<Rightarrow> env \<Rightarrow> (Worker \<times> (nat \<times> (string + Ready)) option) option" where
  "worker_command sv wk command now later cancelled env late =
     (case command of
        Shutdown \<Rightarrow> Some (wk\<lparr>wk_running := False\<rparr>, None)
      | Commit expected next_cursor \<Rightarrow>
          if expired (wk_expires wk) now then Some (wk\<lparr>wk_running := False\<rparr>, None)
          else (case wk_window wk of
              None \<Rightarrow> Some (wk\<lparr>wk_running := False\<rparr>, None)
            | Some w \<Rightarrow> (case commit_page w expected next_cursor of
                  Inl _ \<Rightarrow> Some (wk\<lparr>wk_running := False\<rparr>, None)
                | Inr w \<Rightarrow> Some (wk\<lparr>wk_window := Some w\<rparr>, None)))
      | Execute job \<Rightarrow>
          let request_id = session_request_id (jb_message job) in
          if expired (wk_expires wk) now then
            Some (wk\<lparr>wk_window := None, wk_running := False\<rparr>,
              Some (request_id, bindE (session_outcome (sv_serialize sv) request_id SExpired True late) (\<lambda>(ready, env). Inr ready)))
          else
            let expires = (if jb_expires job = None then wk_expires wk else jb_expires job) in
            (case worker_execute sv (wk_window wk) job env of
               None \<Rightarrow> None
             | Some (result, window) \<Rightarrow>
                 let lifetime_ended = expired expires later;
                     reply = job_reply sv job lifetime_ended cancelled late result;
                     ended = (case reply of Inr ready \<Rightarrow> rd_end ready | Inl _ \<Rightarrow> False) in
                 Some (\<lparr>wk_window = if lifetime_ended then None else window, wk_expires = expires,
                     wk_running = \<not> (lifetime_ended \<or> ended)\<rparr>, Some (request_id, reply))))"

section \<open>Model: the exchange\<close>

definition CLEANUP_ALLOWANCE :: nat where "CLEANUP_ALLOWANCE = 5000"

record Active =
  ac_id :: nat
  ac_deadline :: nat
  ac_stopped :: "QueryFailure option"
  ac_cleanup :: "nat option"

record Output =
  op_id :: nat
  op_ready :: Ready
  op_cursor :: nat
  op_deadline :: nat

record Deferred =
  de_message :: SessionClientFrame
  de_started :: nat
  de_cancelled :: bool

record Exchange =
  ex_input :: FrameBuffer
  ex_frame_started :: "nat option"
  ex_opened :: bool
  ex_last_id :: nat
  ex_completed_id :: "nat option"
  ex_expires :: "nat option"
  ex_active :: "Active option"
  ex_output :: "Output option"
  ex_deferred :: "Deferred option"

text \<open>
  What the exchange shares with its surroundings: the channel to the worker and whether it is
  connected, the cancellation flags, the clock and the environment of its own allocations.
\<close>

record Shared =
  sh_queue :: "Command list"
  sh_connected :: bool
  sh_cancelled :: "nat list"
  sh_clock :: "nat list"
  sh_env :: env

definition clock_now :: "Shared \<Rightarrow> nat \<times> Shared" where
  "clock_now sh = (case sh_clock sh of [] \<Rightarrow> (0, sh) | t # ts \<Rightarrow> (t, sh\<lparr>sh_clock := ts\<rparr>))"

definition send_command :: "Command \<Rightarrow> Shared \<Rightarrow> string + Shared" where
  "send_command command sh =
     (if sh_connected sh then Inr (sh\<lparr>sh_queue := sh_queue sh @ [command]\<rparr>) else Inl ''QUERY_WORKER_PANICKED'')"

text \<open>\<open>Instant::checked_add\<close>: instants are bounded by the 64-bit seconds of the platform.\<close>

definition instant_bound :: nat where "instant_bound = 2 ^ 63 * 1000"

definition instant_add :: "nat \<Rightarrow> nat \<Rightarrow> string + nat" where
  "instant_add t d = (if t + d < instant_bound then Inr (t + d) else Inl ''QUERY_DEADLINE'')"

definition exchange_new :: "string + Exchange" where
  "exchange_new =
     bindE (mapErr protocol_code (frame_new MAX_CLIENT_FRAME_BYTES)) (\<lambda>input.
     Inr \<lparr>ex_input = input, ex_frame_started = None, ex_opened = False, ex_last_id = 0, ex_completed_id = None,
       ex_expires = None, ex_active = None, ex_output = None, ex_deferred = None\<rparr>)"

definition cancel_active :: "Exchange \<Rightarrow> Shared \<Rightarrow> Shared" where
  "cancel_active ex sh =
     (case ex_active ex of None \<Rightarrow> sh | Some active \<Rightarrow> sh\<lparr>sh_cancelled := ac_id active # sh_cancelled sh\<rparr>)"

definition exchange_failure ::
  "SessionReply serializer \<Rightarrow> nat \<Rightarrow> QueryFailure \<Rightarrow> Shared \<Rightarrow> string + Ready \<times> Shared" where
  "exchange_failure ser request_id f sh =
     bindE (session_failure ser request_id f (sh_env sh)) (\<lambda>(ready, env). Inr (ready, sh\<lparr>sh_env := env\<rparr>))"

definition exchange_reject ::
  "SessionReply serializer \<Rightarrow> nat \<Rightarrow> string \<Rightarrow> Exchange \<times> Shared \<Rightarrow> string + Exchange \<times> Shared" where
  "exchange_reject ser i code = (\<lambda>(ex, sh).
     bindE (exchange_failure ser i (Code code) sh) (\<lambda>(ready, sh).
     case clock_now sh of
       (now, sh) \<Rightarrow>
         bindE (instant_add now CLEANUP_ALLOWANCE) (\<lambda>deadline.
         Inr (ex\<lparr>ex_output := Some \<lparr>op_id = i, op_ready = ready, op_cursor = 0, op_deadline = deadline\<rparr>\<rparr>, sh))))"

definition cancel_work ::
  "SessionReply serializer \<Rightarrow> nat \<Rightarrow> Exchange \<times> Shared \<Rightarrow> string + Exchange \<times> Shared" where
  "cancel_work ser i = (\<lambda>(ex, sh).
     case ex_active ex of
       Some active \<Rightarrow>
         if ac_id active \<noteq> i then Inl ''QUERY_RESPONSE_MISMATCH''
         else
           (case clock_now (sh\<lparr>sh_cancelled := i # sh_cancelled sh\<rparr>) of
              (now, sh) \<Rightarrow>
                bindE (instant_add now CLEANUP_ALLOWANCE) (\<lambda>cleanup.
                Inr (ex\<lparr>ex_active := Some (active\<lparr>
                    ac_stopped := Some (case ac_stopped active of Some f \<Rightarrow> f | None \<Rightarrow> QueryFailure.Cancelled),
                    ac_cleanup := Some (case ac_cleanup active of Some t \<Rightarrow> t | None \<Rightarrow> cleanup)\<rparr>)\<rparr>, sh)))
     | None \<Rightarrow>
         (case ex_output ex of
            Some output \<Rightarrow>
              if op_id output \<noteq> i then Inl ''QUERY_RESPONSE_MISMATCH''
              else if op_cursor output \<noteq> 0 then Inl ''SESSION_PARTIAL_OUTPUT_CANCELLED''
              else
                bindE (exchange_failure ser i QueryFailure.Cancelled sh) (\<lambda>(ready, sh).
                Inr (ex\<lparr>ex_output := Some (output\<lparr>op_ready := ready\<rparr>)\<rparr>, sh))
          | None \<Rightarrow> exchange_reject ser i ''SESSION_NO_ACTIVE_REQUEST'' (ex, sh)))"

definition exchange_cancel ::
  "SessionReply serializer \<Rightarrow> nat \<Rightarrow> Exchange \<times> Shared \<Rightarrow> string + Exchange \<times> Shared" where
  "exchange_cancel ser i = (\<lambda>(ex, sh).
     if (case ex_completed_id ex of None \<Rightarrow> False | Some completed \<Rightarrow> i \<le> completed) then Inr (ex, sh)
     else
       case ex_deferred ex of
         Some deferred \<Rightarrow>
           if session_request_id (de_message deferred) = i \<and> \<not> is_close (de_message deferred)
           then Inr (ex\<lparr>ex_deferred := Some (deferred\<lparr>de_cancelled := True\<rparr>)\<rparr>, sh)
           else cancel_work ser i (ex, sh)
       | None \<Rightarrow> cancel_work ser i (ex, sh))"

text \<open>The job of an accepted request goes to the worker; \<open>expires\<close> is given for an opening.\<close>

definition dispatch ::
  "SessionClientFrame \<Rightarrow> nat \<Rightarrow> nat \<Rightarrow> nat option \<Rightarrow> Exchange \<times> Shared \<Rightarrow> string + Exchange \<times> Shared" where
  "dispatch message started remaining expires = (\<lambda>(ex, sh).
     bindE (instant_add started remaining) (\<lambda>deadline.
     let deadline = (case ex_expires ex of None \<Rightarrow> deadline | Some e \<Rightarrow> min deadline e) in
     bindE (send_command (Execute \<lparr>jb_message = message, jb_deadline = deadline, jb_expires = expires\<rparr>) sh) (\<lambda>sh.
     Inr (ex\<lparr>ex_active := Some \<lparr>ac_id = session_request_id message, ac_deadline = deadline, ac_stopped = None,
       ac_cleanup = None\<rparr>\<rparr>, sh))))"

definition start_request ::
  "SessionReply serializer \<Rightarrow> SessionClientFrame \<Rightarrow> nat \<Rightarrow> Exchange \<times> Shared \<Rightarrow> string + Exchange \<times> Shared" where
  "start_request ser message started = (\<lambda>(ex, sh).
     let i = session_request_id message; ex = ex\<lparr>ex_last_id := i\<rparr> in
     case clock_now sh of
       (now, sh) \<Rightarrow>
         (case message of
            SOpen f \<Rightarrow>
              if ex_opened ex then exchange_reject ser i ''WINDOW_ALREADY_OPEN'' (ex, sh)
              else
                let ex = ex\<lparr>ex_opened := True\<rparr> in
                bindE (instant_add now (of_ttl_ms f)) (\<lambda>expires.
                dispatch message started (of_remaining_ms f) (Some expires) (ex\<lparr>ex_expires := Some expires\<rparr>, sh))
          | SContinue f \<Rightarrow>
              if \<not> ex_opened ex then exchange_reject ser i ''WINDOW_NOT_OPEN'' (ex, sh)
              else dispatch message started (cf_remaining_ms f) None (ex, sh)
          | SExpand f \<Rightarrow>
              if \<not> ex_opened ex then exchange_reject ser i ''WINDOW_NOT_OPEN'' (ex, sh)
              else dispatch message started (xf_remaining_ms f) None (ex, sh)
          | SClose _ \<Rightarrow> dispatch message started 5000 None (ex, sh)
          | SCancel _ \<Rightarrow> Inl ''SESSION_CONTROL_INVALID''))"

definition accept_idle ::
  "SessionReply serializer \<Rightarrow> SessionClientFrame \<Rightarrow> nat \<Rightarrow> Exchange \<times> Shared \<Rightarrow> string + Exchange \<times> Shared" where
  "accept_idle ser message started = (\<lambda>(ex, sh).
     if ex_active ex \<noteq> None then
       if \<not> is_close message then Inl ''SESSION_REQUEST_IN_FLIGHT''
       else start_request ser message started (ex\<lparr>ex_active := None\<rparr>, cancel_active ex sh)
     else start_request ser message started (ex, sh))"

definition exchange_accept ::
  "SessionReply serializer \<Rightarrow> SessionClientFrame \<Rightarrow> nat \<Rightarrow> Exchange \<times> Shared \<Rightarrow> string + Exchange \<times> Shared" where
  "exchange_accept ser message started = (\<lambda>(ex, sh).
     let i = session_request_id message in
     case message of
       SCancel _ \<Rightarrow> exchange_cancel ser i (ex, sh)
     | _ \<Rightarrow>
         if i \<le> ex_last_id ex then
           if ex_active ex \<noteq> None \<or> ex_output ex \<noteq> None then Inl ''SESSION_REQUEST_ID_INVALID''
           else exchange_reject ser i ''SESSION_REQUEST_ID_INVALID'' (ex, sh)
         else
           (case ex_output ex of
              Some output \<Rightarrow>
                if is_close message \<and> op_cursor output = 0 then
                  accept_idle ser message started (ex\<lparr>ex_output := None, ex_deferred := None\<rparr>, sh)
                else if is_close message \<and> op_cursor output \<noteq> length (rd_bytes (op_ready output)) then
                  Inl ''SESSION_PARTIAL_OUTPUT_CLOSE''
                else if ex_deferred ex \<noteq> None \<and> \<not> is_close message then Inl ''SESSION_REQUEST_IN_FLIGHT''
                else Inr (ex\<lparr>ex_deferred := Some \<lparr>de_message = message, de_started = started, de_cancelled = False\<rparr>\<rparr>, sh)
            | None \<Rightarrow> accept_idle ser message started (ex, sh)))"

text \<open>The frames that complete in a chunk of input are accepted in order.\<close>

function exchange_consume ::
  "SessionReply serializer \<Rightarrow> (bytes \<Rightarrow> SessionClientFrame option) \<Rightarrow> bytes \<Rightarrow> Exchange \<times> Shared \<Rightarrow>
   string + Exchange \<times> Shared" where
  "exchange_consume ser parse bs (ex, sh) =
     (if bs = [] then Inr (ex, sh)
      else
        case (if frame_is_empty (ex_input ex) then clock_now sh else (0, sh)) of
          (now, sh) \<Rightarrow>
            let ex = (if frame_is_empty (ex_input ex) then ex\<lparr>ex_frame_started := Some now\<rparr> else ex) in
            (case frame_push (ex_input ex) bs (sh_env sh) of
               (Inl e, _) \<Rightarrow> Inl (protocol_code e)
             | (Inr (count, env), input) \<Rightarrow>
                 let ex = ex\<lparr>ex_input := input\<rparr>; sh = sh\<lparr>sh_env := env\<rparr> in
                 if count = 0 then Inl ''QUERY_FRAME_INVALID''
                 else
                   bindE (case frame_frame input of
                       None \<Rightarrow> Inr (ex, sh)
                     | Some frame \<Rightarrow>
                         bindE (mapErr protocol_code (decode_session_frame parse frame)) (\<lambda>message.
                         bindE (ok_or ''QUERY_FRAME_INVALID'' (ex_frame_started ex)) (\<lambda>started.
                         bindE (mapErr protocol_code (frame_new MAX_CLIENT_FRAME_BYTES)) (\<lambda>fresh.
                         exchange_accept ser message started (ex\<lparr>ex_frame_started := None, ex_input := fresh\<rparr>, sh))))) (\<lambda>st.
                   exchange_consume ser parse (drop count bs) st)))"
  by pat_completeness auto
termination
  by (relation "measure (\<lambda>(_, _, bs, _). length bs)") auto

declare exchange_consume.simps [simp del]

definition exchange_received ::
  "SessionReply serializer \<Rightarrow> (string + Ready) \<Rightarrow> Exchange \<times> Shared \<Rightarrow> string + Exchange \<times> Shared" where
  "exchange_received ser reply = (\<lambda>(ex, sh).
     bindE (ok_or ''SESSION_NO_ACTIVE_REQUEST'' (ex_active ex)) (\<lambda>active.
     bindE reply (\<lambda>ready.
     bindE (case ac_stopped active of
         Some f \<Rightarrow> if rd_end ready then Inr (ready, sh) else exchange_failure ser (ac_id active) f sh
       | None \<Rightarrow> Inr (ready, sh)) (\<lambda>(ready, sh).
     Inr (ex\<lparr>ex_active := None, ex_output := Some \<lparr>op_id = ac_id active, op_ready = ready, op_cursor = 0,
       op_deadline = (case ac_cleanup active of Some t \<Rightarrow> t | None \<Rightarrow> ac_deadline active)\<rparr>\<rparr>, sh)))))"

definition exchange_deadline :: "Exchange \<Rightarrow> nat \<Rightarrow> nat" where
  "exchange_deadline ex idle =
     (let e = (case ex_expires ex of None \<Rightarrow> idle | Some t \<Rightarrow> t);
          e = (case ex_active ex of None \<Rightarrow> e
            | Some active \<Rightarrow> min e (case ac_cleanup active of Some t \<Rightarrow> t | None \<Rightarrow> ac_deadline active));
          e = (case ex_output ex of None \<Rightarrow> e | Some output \<Rightarrow> min e (op_deadline output)) in
      case ex_frame_started ex of
        None \<Rightarrow> e
      | Some started \<Rightarrow> (case instant_add started MAX_REMAINING_MS of Inl _ \<Rightarrow> e | Inr partial \<Rightarrow> min e partial))"

definition exchange_timed_out :: "Exchange \<times> Shared \<Rightarrow> string + Exchange \<times> Shared" where
  "exchange_timed_out = (\<lambda>(ex, sh).
     case ex_active ex of
       None \<Rightarrow> Inl ''QUERY_DEADLINE''
     | Some active \<Rightarrow>
         if ac_cleanup active \<noteq> None then Inl ''QUERY_CLEANUP_EXPIRED''
         else
           (case clock_now (sh\<lparr>sh_cancelled := ac_id active # sh_cancelled sh\<rparr>) of
              (now, sh) \<Rightarrow>
                Inr (ex\<lparr>ex_active := Some (active\<lparr>ac_stopped := Some QueryFailure.Deadline,
                    ac_cleanup := ok_of (instant_add now CLEANUP_ALLOWANCE)\<rparr>)\<rparr>, sh)))"

text \<open>The output is flushed: its page is committed, and a deferred request comes next.\<close>

definition take_deferred :: "SessionReply serializer \<Rightarrow> Exchange \<times> Shared \<Rightarrow> string + Exchange \<times> Shared" where
  "take_deferred ser = (\<lambda>(ex, sh).
     case ex_deferred ex of
       None \<Rightarrow> Inr (ex, sh)
     | Some deferred \<Rightarrow>
         let ex = ex\<lparr>ex_deferred := None\<rparr> in
         if de_cancelled deferred then
           let i = session_request_id (de_message deferred); ex = ex\<lparr>ex_last_id := i\<rparr> in
           bindE (exchange_failure ser i QueryFailure.Cancelled sh) (\<lambda>(ready, sh).
           case clock_now sh of
             (now, sh) \<Rightarrow>
               bindE (instant_add now CLEANUP_ALLOWANCE) (\<lambda>deadline.
               Inr (ex\<lparr>ex_output := Some \<lparr>op_id = i, op_ready = ready, op_cursor = 0, op_deadline = deadline\<rparr>\<rparr>, sh)))
         else exchange_accept ser (de_message deferred) (de_started deferred) (ex, sh))"

definition exchange_flushed ::
  "SessionReply serializer \<Rightarrow> Exchange \<times> Shared \<Rightarrow> string + bool \<times> Exchange \<times> Shared" where
  "exchange_flushed ser = (\<lambda>(ex, sh).
     bindE (ok_or ''QUERY_OUTPUT_IO'' (ex_output ex)) (\<lambda>output.
     bindE (case rd_commit (op_ready output) of
         None \<Rightarrow> Inr sh
       | Some (expected, next_cursor) \<Rightarrow> send_command (Commit expected next_cursor) sh) (\<lambda>sh.
     let ex = ex\<lparr>ex_output := None, ex_completed_id := Some (op_id output)\<rparr> in
     if rd_end (op_ready output) then Inr (True, ex, sh)
     else bindE (take_deferred ser (ex, sh)) (\<lambda>st. Inr (False, st)))))"

text \<open>The last words of an expired session: the request id of the expiry reply.\<close>

definition exchange_expire :: "SessionReply serializer \<Rightarrow> Exchange \<Rightarrow> env \<Rightarrow> string + Ready \<times> env" where
  "exchange_expire ser ex env =
     (if (case ex_output ex of None \<Rightarrow> False | Some output \<Rightarrow> op_cursor output \<noteq> 0)
      then Inl ''WINDOW_EXPIRED_PARTIAL_OUTPUT''
      else
        let i = (case ex_active ex of
            Some active \<Rightarrow> ac_id active
          | None \<Rightarrow> (case ex_output ex of None \<Rightarrow> 0 | Some output \<Rightarrow> op_id output)) in
        session_outcome ser i SExpired True env)"

section \<open>Model: the session as a whole\<close>

record SessionState =
  st_exchange :: Exchange
  st_shared :: Shared
  st_worker :: Worker
  st_replies :: "(nat \<times> (string + Ready)) list"
  st_flushed :: "Ready list"
  st_over :: bool

definition session_start :: "SessionState \<Rightarrow> bool" where
  "session_start s \<longleftrightarrow> exchange_new = Inr (st_exchange s) \<and> sh_queue (st_shared s) = [] \<and>
     st_worker s = \<lparr>wk_window = None, wk_expires = None, wk_running = True\<rparr> \<and> st_replies s = [] \<and>
     st_flushed s = [] \<and> \<not> st_over s"

text \<open>
  The steps: input arrives, the reply of the active request is received, some bytes of the output
  are written, a wholly written output is flushed, the deadline passes, the session expires with its
  last words, and the worker serves a command, times out or drops its channel. An operation that
  returns an error ends the program, so it makes no step.
\<close>

inductive session_step ::
  "Service \<Rightarrow> (bytes \<Rightarrow> SessionClientFrame option) \<Rightarrow> SessionState \<Rightarrow> SessionState \<Rightarrow> bool" for sv parse where
  step_input: "\<not> st_over s \<Longrightarrow>
    exchange_consume (sv_serialize sv) parse chunk (st_exchange s, st_shared s) = Inr (ex, sh) \<Longrightarrow>
    session_step sv parse s (s\<lparr>st_exchange := ex, st_shared := sh\<rparr>)"
| step_received: "\<not> st_over s \<Longrightarrow> ex_output (st_exchange s) = None \<Longrightarrow> ex_active (st_exchange s) = Some active \<Longrightarrow>
    (ac_id active, reply) \<in> set (st_replies s) \<Longrightarrow>
    exchange_received (sv_serialize sv) reply (st_exchange s, st_shared s) = Inr (ex, sh) \<Longrightarrow>
    session_step sv parse s (s\<lparr>st_exchange := ex, st_shared := sh\<rparr>)"
| step_wrote: "\<not> st_over s \<Longrightarrow> ex_output (st_exchange s) = Some output \<Longrightarrow> 0 < count \<Longrightarrow>
    op_cursor output + count \<le> length (rd_bytes (op_ready output)) \<Longrightarrow>
    session_step sv parse s (s\<lparr>st_exchange := (st_exchange s)\<lparr>ex_output := Some (output\<lparr>op_cursor := op_cursor output + count\<rparr>)\<rparr>\<rparr>)"
| step_flushed: "\<not> st_over s \<Longrightarrow> ex_output (st_exchange s) = Some output \<Longrightarrow>
    op_cursor output = length (rd_bytes (op_ready output)) \<Longrightarrow>
    exchange_flushed (sv_serialize sv) (st_exchange s, st_shared s) = Inr (over, ex, sh) \<Longrightarrow>
    session_step sv parse s (s\<lparr>st_exchange := ex, st_shared := sh, st_flushed := st_flushed s @ [op_ready output], st_over := over\<rparr>)"
| step_timed_out: "\<not> st_over s \<Longrightarrow> exchange_timed_out (st_exchange s, st_shared s) = Inr (ex, sh) \<Longrightarrow>
    session_step sv parse s (s\<lparr>st_exchange := ex, st_shared := sh\<rparr>)"
| step_expired: "\<not> st_over s \<Longrightarrow> exchange_expire (sv_serialize sv) (st_exchange s) env = Inr (ready, env') \<Longrightarrow>
    session_step sv parse s (s\<lparr>st_flushed := st_flushed s @ [ready], st_over := True\<rparr>)"
| step_command: "wk_running (st_worker s) \<Longrightarrow> sh_queue (st_shared s) = command # queue \<Longrightarrow>
    cancelled = (case command of Execute job \<Rightarrow> session_request_id (jb_message job) \<in> set (sh_cancelled (st_shared s)) | _ \<Rightarrow> False) \<Longrightarrow>
    worker_command sv (st_worker s) command now later cancelled env late = Some (wk, reply) \<Longrightarrow>
    session_step sv parse s (s\<lparr>st_shared := (st_shared s)\<lparr>sh_queue := queue\<rparr>, st_worker := wk,
      st_replies := st_replies s @ (case reply of None \<Rightarrow> [] | Some r \<Rightarrow> [r])\<rparr>)"
| step_worker_timeout: "wk_running (st_worker s) \<Longrightarrow>
    session_step sv parse s (s\<lparr>st_worker := (st_worker s)\<lparr>wk_running := False\<rparr>\<rparr>)"
| step_worker_gone: "\<not> wk_running (st_worker s) \<Longrightarrow>
    session_step sv parse s (s\<lparr>st_worker := (st_worker s)\<lparr>wk_window := None\<rparr>,
      st_shared := (st_shared s)\<lparr>sh_connected := False\<rparr>\<rparr>)"

end
