(* ===== verification/SessionLaws.thy ===== *)
theory SessionLaws
  imports Session FrameLaws
begin

text \<open>
  Laws of a session: a page is a slice of the original items, every operation of the exchange keeps
  at most one request in flight and sends its job last (\<open>ex_inv\<close>); \<open>SessionRun\<close> builds the
  invariant of whole runs on them. The locale \<open>exchange_contract\<close> states what the exchange needs of a property of
  replies to preserve it: every refusal has it.
\<close>

section \<open>Pages are slices\<close>

definition original_page :: "Window \<Rightarrow> nat \<Rightarrow> nat \<Rightarrow> StopReason \<Rightarrow> WindowPage" where
  "original_page w from to stop =
     \<lparr>wp_window_id = SESSION_WINDOW_ID, wp_summary = wn_summary w, wp_start_index = from, wp_next_index = to,
      wp_items = map (\<lambda>i. \<lparr>we_item_index = i, we_item = wn_items w ! i\<rparr>) [from..<to],
      wp_has_more = (to < length (wn_items w)), wp_page_stop = stop\<rparr>"

lemma original_page_shrunk:
  "from < to \<Longrightarrow> to \<le> length (wn_items w) \<Longrightarrow> page_shrunk (original_page w from to stop) = original_page w from (to - 1) OutputLimit"
  by (cases to) (simp_all add: page_shrunk_def original_page_def)

lemma encode_attempt_Inr:
  "encode_attempt ser reply env = (Inr bs, env') \<Longrightarrow> encode_session_reply ser reply env = Inr (bs, env')"
  by (auto simp: encode_attempt_def split: sum.splits prod.splits)

lemma page_fit_Inr:
  assumes "page_fit ser i (original_page w from to stop) env = Inr ((bs, page), env')" "from \<le> to" "to \<le> length (wn_items w)"
  shows "\<exists>to' stop' env1 env2. page = original_page w from to' stop' \<and> from \<le> to' \<and> to' \<le> to \<and> (from < to \<longrightarrow> from < to') \<and>
    (stop' \<noteq> stop \<longrightarrow> stop' = OutputLimit \<and> to' < to) \<and> (to' < to \<longrightarrow> stop' = OutputLimit) \<and>
    encode_session_reply ser (page_reply i page) env1 = Inr (bs, env2)"
  using assms
proof (induction "to - from" arbitrary: to stop env rule: less_induct)
  case less
  let ?p = "original_page w from to stop"
  obtain env1 where q1: "q_check env = Inr env1"
    using less.prems(1) unfolding page_fit.simps [of ser i ?p env] by (auto simp: res_simps)
  obtain enc env2 where a: "encode_attempt ser (page_reply i ?p) env1 = (enc, env2)" by fastforce
  obtain env3 where q2: "q_check env2 = Inr env3"
    using less.prems(1) unfolding page_fit.simps [of ser i ?p env] by (auto simp: res_simps q1 a)
  have r: "(case enc of Inr bs \<Rightarrow> Inr ((bs, ?p), env3) | Inl e \<Rightarrow> if e = FrameTooLarge then
         if length (wp_items ?p) \<le> 1 then Inl (Code ''WINDOW_ITEM_TOO_LARGE'') else page_fit ser i (page_shrunk ?p) env3
         else Inl (protocol_failure e)) = Inr ((bs, page), env')"
    using less.prems(1) unfolding page_fit.simps [of ser i ?p env] by (simp add: q1 a q2)
  show ?case
  proof (cases enc)
    case (Inr bs')
    then have "encode_session_reply ser (page_reply i ?p) env1 = Inr (bs, env2)" "page = ?p"
      using a r encode_attempt_Inr by auto
    then show ?thesis using less.prems(2) by blast
  next
    case (Inl err)
    then have f: "1 < length (wp_items ?p)" "page_fit ser i (page_shrunk ?p) env3 = Inr ((bs, page), env')"
      using r by (auto split: if_splits)
    then have lt: "from + 1 < to" by (simp add: original_page_def)
    have s: "page_shrunk ?p = original_page w from (to - 1) OutputLimit"
      using original_page_shrunk lt less.prems(3) by simp
    from less.hyps [OF _ f(2) [unfolded s]] lt less.prems(3)
    obtain to' stop' env1 env2 where "page = original_page w from to' stop'" "from < to'" "to' \<le> to - 1" "stop' = OutputLimit"
        "encode_session_reply ser (page_reply i page) env1 = Inr (bs, env2)"
      by fastforce
    then show ?thesis using lt by (intro exI [of _ to'] exI [of _ stop'] exI [of _ env1] exI [of _ env2]) auto
  qed
qed

lemma window_entries_Inr:
  "window_entries items indices = Inr entries \<Longrightarrow> entries = map (\<lambda>i. \<lparr>we_item_index = i, we_item = items ! i\<rparr>) indices"
  by (induction indices arbitrary: entries) (auto simp: res_simps)

lemma window_page_Inr:
  assumes "window_page ser w i sz env = Inr (p, env')" "wn_cursor w \<le> length (wn_items w)"
  shows "\<exists>to stop env1 env2. pp_expected_cursor p = wn_cursor w \<and> pp_next_cursor p = to \<and>
    wn_cursor w \<le> to \<and> to \<le> min (length (wn_items w)) (wn_cursor w + sz) \<and>
    (wn_cursor w < min (length (wn_items w)) (wn_cursor w + sz) \<longrightarrow> wn_cursor w < to) \<and>
    (stop = Complete \<longleftrightarrow> to = min (length (wn_items w)) (wn_cursor w + sz)) \<and>
    encode_session_reply ser (page_reply i (original_page w (wn_cursor w) to stop)) env1 = Inr (pp_bytes p, env2)"
proof -
  let ?stop_at = "min (length (wn_items w)) (wn_cursor w + sz)"
  obtain env0 where q0: "q_check env = Inr env0"
    using assms(1) by (cases "q_check env") (simp_all add: window_page_def)
  obtain env1 where q1: "q_reserve env0 = Inr env1"
    using assms(1) by (cases "q_reserve env0") (simp_all add: window_page_def q0 Let_def)
  obtain entries where q2: "window_entries (wn_items w) [wn_cursor w..<?stop_at] = Inr entries"
    using assms(1) by (cases "window_entries (wn_items w) [wn_cursor w..<?stop_at]") (simp_all add: window_page_def q0 q1 Let_def)
  have q3: "?stop_at < 256"
    using assms(1) by (cases "?stop_at < 256") (simp_all add: window_page_def q0 q1 q2 Let_def try_from_def)
  have "\<exists>bs page env2. page_fit ser i \<lparr>wp_window_id = SESSION_WINDOW_ID, wp_summary = wn_summary w,
         wp_start_index = wn_cursor w, wp_next_index = ?stop_at, wp_items = entries,
         wp_has_more = (?stop_at < length (wn_items w)), wp_page_stop = Complete\<rparr> env1 = Inr ((bs, page), env2) \<and>
      p = \<lparr>pp_bytes = bs, pp_expected_cursor = wn_cursor w, pp_next_cursor = wp_next_index page\<rparr>"
    (is "\<exists>bs page env2. ?fit = _ \<and> _")
    using assms(1) by (cases ?fit) (auto simp: window_page_def q0 q1 q2 q3 Let_def try_from_def)
  then obtain bs page env2 where f0: "page_fit ser i \<lparr>wp_window_id = SESSION_WINDOW_ID, wp_summary = wn_summary w,
         wp_start_index = wn_cursor w, wp_next_index = ?stop_at, wp_items = entries,
         wp_has_more = (?stop_at < length (wn_items w)), wp_page_stop = Complete\<rparr> env1 = Inr ((bs, page), env2)"
      "p = \<lparr>pp_bytes = bs, pp_expected_cursor = wn_cursor w, pp_next_cursor = wp_next_index page\<rparr>"
    by blast
  have "\<lparr>wp_window_id = SESSION_WINDOW_ID, wp_summary = wn_summary w,
         wp_start_index = wn_cursor w, wp_next_index = ?stop_at, wp_items = entries,
         wp_has_more = (?stop_at < length (wn_items w)), wp_page_stop = Complete\<rparr> = original_page w (wn_cursor w) ?stop_at Complete"
    using window_entries_Inr [OF q2] by (simp add: original_page_def)
  note f = f0(1) [unfolded this] f0(2)
  have le: "wn_cursor w \<le> ?stop_at" "?stop_at \<le> length (wn_items w)" using assms(2) by auto
  obtain to stop env3 env4 where g: "page = original_page w (wn_cursor w) to stop \<and> wn_cursor w \<le> to \<and> to \<le> ?stop_at \<and>
      (wn_cursor w < ?stop_at \<longrightarrow> wn_cursor w < to) \<and> (stop \<noteq> Complete \<longrightarrow> stop = OutputLimit \<and> to < ?stop_at) \<and>
      (to < ?stop_at \<longrightarrow> stop = OutputLimit) \<and> encode_session_reply ser (page_reply i page) env3 = Inr (bs, env4)"
    using page_fit_Inr [OF f(1) le] by (elim exE)
  from g have "to \<le> ?stop_at" "stop \<noteq> Complete \<Longrightarrow> to < ?stop_at" "to < ?stop_at \<Longrightarrow> stop = OutputLimit" by simp_all
  then have "stop = Complete \<longleftrightarrow> to = ?stop_at" by (cases "to = ?stop_at") (metis less_irrefl, metis StopReason.distinct(1) le_neq_implies_less)
  moreover have "pp_expected_cursor p = wn_cursor w" "pp_next_cursor p = to" "pp_bytes p = bs"
    using f(2) g by (simp_all add: original_page_def)
  ultimately show ?thesis using g by blast
qed

section \<open>Replies\<close>

text \<open>A reply without a page, and the page that follows a position of a window.\<close>

definition plain :: "SessionReply serializer \<Rightarrow> Ready \<Rightarrow> bool" where
  "plain ser r \<longleftrightarrow> rd_commit r = None \<and> (\<exists>reply env env'. encode_session_reply ser reply env = Inr (rd_bytes r, env') \<and>
     (\<forall>page. rp_outcome reply \<noteq> SPage page))"

definition paged :: "SessionReply serializer \<Rightarrow> Window \<Rightarrow> nat \<Rightarrow> nat \<Rightarrow> Ready \<Rightarrow> bool" where
  "paged ser w from to r \<longleftrightarrow> rd_commit r = Some (from, to) \<and> from \<le> to \<and> to \<le> length (wn_items w) \<and>
     (\<exists>i stop env env'. encode_session_reply ser (page_reply i (original_page w from to stop)) env = Inr (rd_bytes r, env'))"

definition next_ready :: "SessionReply serializer \<Rightarrow> Window \<Rightarrow> nat \<Rightarrow> Ready \<Rightarrow> bool" where
  "next_ready ser w c r \<longleftrightarrow> plain ser r \<or> (\<exists>to. paged ser w c to r)"

lemma outcome_plain:
  "session_outcome ser i out b env = Inr (r, env') \<Longrightarrow> (\<And>page. out \<noteq> SPage page) \<Longrightarrow> plain ser r"
  unfolding plain_def
  by (rule conjI, force simp: session_outcome_def res_simps,
      intro exI [of _ "\<lparr>rp_request_id = i, rp_outcome = out\<rparr>"], force simp: session_outcome_def res_simps)

lemma failure_plain: "session_failure ser i f env = Inr (r, env') \<Longrightarrow> plain ser r"
  by (auto simp: session_failure_def failure_outcome_def res_simps intro!: outcome_plain split: QueryFailure.splits)

lemma exchange_failure_plain:
  "exchange_failure ser i f sh = Inr (r, sh') \<Longrightarrow> plain ser r \<and> sh' = sh\<lparr>sh_env := sh_env sh'\<rparr>"
  by (auto simp: exchange_failure_def res_simps dest: failure_plain)

section \<open>The exchange\<close>

fun jobs :: "Command list \<Rightarrow> Job list" where
  "jobs [] = []"
| "jobs (Execute j # q) = j # jobs q"
| "jobs (Commit e n # q) = jobs q"
| "jobs (Shutdown # q) = jobs q"

lemma jobs_append [simp]: "jobs (p @ q) = jobs p @ jobs q"
  by (induction p rule: jobs.induct) auto

lemma jobs_map [simp]: "jobs (map Execute js) = js"
  by (induction js) auto

abbreviation job_id :: "Job \<Rightarrow> nat" where
  "job_id j \<equiv> session_request_id (jb_message j)"

definition is_open :: "Job \<Rightarrow> bool" where
  "is_open j = (case jb_message j of SOpen _ \<Rightarrow> True | _ \<Rightarrow> False)"

text \<open>The active job is not followed by anything in the queue.\<close>

definition job_last :: "nat \<Rightarrow> Command list \<Rightarrow> bool" where
  "job_last i q \<longleftrightarrow> (\<forall>pre j post. q = pre @ Execute j # post \<longrightarrow> job_id j = i \<longrightarrow> post = [])"

lemma job_last_snoc:
  assumes "\<forall>j \<in> set (jobs q). job_id j < i"
  shows "job_last i (q @ [Execute job])"
  unfolding job_last_def
proof (intro allI impI)
  fix pre j post
  assume e: "q @ [Execute job] = pre @ Execute j # post" "job_id j = i"
  show "post = []"
  proof (cases post rule: rev_cases)
    case (snoc post' c)
    then have "q = pre @ Execute j # post'" using e(1) by simp
    then have "j \<in> set (jobs q)" by simp
    then show ?thesis using assms e(2) by auto
  qed
qed

lemma job_last_tl: "job_last i (c # q) \<Longrightarrow> job_last i q"
  unfolding job_last_def
proof (intro allI impI)
  fix pre j post
  assume a: "\<forall>pre j post. c # q = pre @ Execute j # post \<longrightarrow> job_id j = i \<longrightarrow> post = []" "q = pre @ Execute j # post" "job_id j = i"
  show "post = []" using a(1) [rule_format, of "c # pre" j post] a(2,3) by simp
qed

definition ex_inv :: "(Ready \<Rightarrow> bool) \<Rightarrow> (nat \<times> (string + Ready)) set \<Rightarrow> Exchange \<Rightarrow> Command list \<Rightarrow> bool" where
  "ex_inv P R ex q \<longleftrightarrow>
     (ex_active ex = None \<or> ex_output ex = None) \<and>
     (\<forall>out. ex_output ex = Some out \<longrightarrow> P (op_ready out)) \<and>
     (\<forall>d. ex_deferred ex = Some d \<longrightarrow> ex_output ex \<noteq> None \<and> ex_last_id ex < session_request_id (de_message d)) \<and>
     (\<forall>j \<in> set (jobs q). job_id j \<le> ex_last_id ex) \<and> (\<forall>(i, r) \<in> R. i \<le> ex_last_id ex) \<and>
     (\<forall>a. ex_active ex = Some a \<longrightarrow> ac_id a \<le> ex_last_id ex \<and> job_last (ac_id a) q \<and>
        (\<forall>r. (ac_id a, Inr r) \<in> R \<longrightarrow> P r)) \<and>
     length (filter is_open (jobs q)) \<le> (if ex_opened ex then 1 else 0)"

text \<open>What an operation may do to the channel: append jobs, and an opening only once.\<close>

definition extends :: "Exchange \<times> Shared \<Rightarrow> Exchange \<times> Shared \<Rightarrow> bool" where
  "extends st st' \<longleftrightarrow> (\<exists>js. sh_queue (snd st') = sh_queue (snd st) @ map Execute js \<and>
     sh_connected (snd st') = sh_connected (snd st) \<and>
     (ex_opened (fst st) \<longrightarrow> ex_opened (fst st') \<and> (\<forall>j \<in> set js. \<not> is_open j)))"

lemma extends_refl: "sh_queue sh' = sh_queue sh \<Longrightarrow> sh_connected sh' = sh_connected sh \<Longrightarrow> ex_opened ex' = ex_opened ex \<Longrightarrow>
    extends (ex, sh) (ex', sh')"
  unfolding extends_def by (intro exI [of _ "[]"]) simp

lemma extends_trans: "extends a b \<Longrightarrow> extends b c \<Longrightarrow> extends a c"
  unfolding extends_def
proof (elim exE conjE)
  fix js js'
  assume "sh_queue (snd b) = sh_queue (snd a) @ map Execute js" "sh_connected (snd b) = sh_connected (snd a)"
    "ex_opened (fst a) \<longrightarrow> ex_opened (fst b) \<and> (\<forall>j \<in> set js. \<not> is_open j)"
    "sh_queue (snd c) = sh_queue (snd b) @ map Execute js'" "sh_connected (snd c) = sh_connected (snd b)"
    "ex_opened (fst b) \<longrightarrow> ex_opened (fst c) \<and> (\<forall>j \<in> set js'. \<not> is_open j)"
  then show "\<exists>js. sh_queue (snd c) = sh_queue (snd a) @ map Execute js \<and> sh_connected (snd c) = sh_connected (snd a) \<and>
      (ex_opened (fst a) \<longrightarrow> ex_opened (fst c) \<and> (\<forall>j \<in> set js. \<not> is_open j))"
    by (intro exI [of _ "js @ js'"]) auto
qed

lemma clock_now_same:
  "clock_now sh = (t, sh') \<Longrightarrow> sh_queue sh' = sh_queue sh \<and> sh_connected sh' = sh_connected sh"
  by (cases "sh_clock sh") (auto simp: clock_now_def)

lemma exchange_failure_same:
  "exchange_failure ser i f sh = Inr (r, sh') \<Longrightarrow> plain ser r \<and> sh_queue sh' = sh_queue sh \<and> sh_connected sh' = sh_connected sh"
  by (auto simp: exchange_failure_def res_simps dest: failure_plain)

text \<open>What each operation returns.\<close>

lemma reject_Inr:
  assumes "exchange_reject ser i code (ex, sh) = Inr (ex', sh')"
  shows "\<exists>r d. plain ser r \<and> ex' = ex\<lparr>ex_output := Some \<lparr>op_id = i, op_ready = r, op_cursor = 0, op_deadline = d\<rparr>\<rparr> \<and>
    sh_queue sh' = sh_queue sh \<and> sh_connected sh' = sh_connected sh"
proof -
  obtain r sh1 where r: "exchange_failure ser i (Code code) sh = Inr (r, sh1)"
    using assms by (cases "exchange_failure ser i (Code code) sh") (auto simp: exchange_reject_def)
  obtain t sh2 where t: "clock_now sh1 = (t, sh2)" by fastforce
  have "\<exists>d. ex' = ex\<lparr>ex_output := Some \<lparr>op_id = i, op_ready = r, op_cursor = 0, op_deadline = d\<rparr>\<rparr> \<and> sh' = sh2"
    using assms by (cases "instant_add t CLEANUP_ALLOWANCE") (auto simp: exchange_reject_def r t)
  then show ?thesis using exchange_failure_same [OF r] clock_now_same [OF t] by auto
qed

lemma cancel_work_active:
  assumes "cancel_work ser i (ex, sh) = Inr (ex', sh')" "ex_active ex = Some a"
  shows "\<exists>a'. ac_id a' = ac_id a \<and> ex' = ex\<lparr>ex_active := Some a'\<rparr> \<and> sh_queue sh' = sh_queue sh \<and> sh_connected sh' = sh_connected sh"
proof -
  obtain t sh1 where t: "clock_now (sh\<lparr>sh_cancelled := i # sh_cancelled sh\<rparr>) = (t, sh1)" by fastforce
  have "\<exists>f c. ex' = ex\<lparr>ex_active := Some (a\<lparr>ac_stopped := f, ac_cleanup := c\<rparr>)\<rparr> \<and> sh' = sh1"
    using assms by (cases "instant_add t CLEANUP_ALLOWANCE") (auto simp: cancel_work_def t split: if_splits)
  then obtain f c where "ex' = ex\<lparr>ex_active := Some (a\<lparr>ac_stopped := f, ac_cleanup := c\<rparr>)\<rparr>" "sh' = sh1" by blast
  then show ?thesis using clock_now_same [OF t] by (intro exI [of _ "a\<lparr>ac_stopped := f, ac_cleanup := c\<rparr>"]) simp
qed

lemma cancel_work_output:
  assumes "cancel_work ser i (ex, sh) = Inr (ex', sh')" "ex_active ex = None" "ex_output ex = Some out"
  shows "\<exists>r. plain ser r \<and> ex' = ex\<lparr>ex_output := Some (out\<lparr>op_ready := r\<rparr>)\<rparr> \<and> sh_queue sh' = sh_queue sh \<and> sh_connected sh' = sh_connected sh"
  using assms by (cases "exchange_failure ser i QueryFailure.Cancelled sh")
    (auto simp: cancel_work_def split: if_splits dest: exchange_failure_same)

lemma cancel_work_idle:
  assumes "cancel_work ser i (ex, sh) = Inr (ex', sh')" "ex_active ex = None" "ex_output ex = None"
  shows "exchange_reject ser i ''SESSION_NO_ACTIVE_REQUEST'' (ex, sh) = Inr (ex', sh')"
  using assms by (simp add: cancel_work_def)

lemma cancel_Inr:
  assumes "exchange_cancel ser i (ex, sh) = Inr (ex', sh')"
  shows "cancel_work ser i (ex, sh) = Inr (ex', sh') \<or> sh' = sh \<and> (ex' = ex \<or>
    (\<exists>d. ex_deferred ex = Some d \<and> ex' = ex\<lparr>ex_deferred := Some (d\<lparr>de_cancelled := True\<rparr>)\<rparr>))"
  using assms by (auto simp: exchange_cancel_def split: if_splits option.splits)

lemma dispatch_Inr:
  assumes "dispatch message started remaining expires (ex, sh) = Inr (ex', sh')"
  shows "\<exists>deadline. sh_queue sh' = sh_queue sh @ [Execute \<lparr>jb_message = message, jb_deadline = deadline, jb_expires = expires\<rparr>] \<and>
    sh_connected sh' = sh_connected sh \<and>
    ex' = ex\<lparr>ex_active := Some \<lparr>ac_id = session_request_id message, ac_deadline = deadline, ac_stopped = None, ac_cleanup = None\<rparr>\<rparr>"
  using assms by (auto simp: dispatch_def Let_def res_simps send_command_def split: if_splits)

text \<open>How the invariant survives single changes of the exchange.\<close>

lemma ex_inv_output: "ex_inv P R ex q \<Longrightarrow> ex_active ex = None \<Longrightarrow> P (op_ready out) \<Longrightarrow> ex_inv P R (ex\<lparr>ex_output := Some out\<rparr>) q"
  unfolding ex_inv_def by auto

lemma ex_inv_active: "ex_inv P R ex q \<Longrightarrow> ex_active ex = Some a \<Longrightarrow> ac_id a' = ac_id a \<Longrightarrow> ex_inv P R (ex\<lparr>ex_active := Some a'\<rparr>) q"
  unfolding ex_inv_def by auto

lemma ex_inv_idle: "ex_inv P R ex q \<Longrightarrow> ex_inv P R (ex\<lparr>ex_active := None\<rparr>) q"
  unfolding ex_inv_def by auto

lemma ex_inv_silent: "ex_inv P R ex q \<Longrightarrow> ex_inv P R (ex\<lparr>ex_output := None, ex_deferred := None\<rparr>) q"
  unfolding ex_inv_def by auto

lemma ex_inv_deferred:
  "ex_inv P R ex q \<Longrightarrow> ex_output ex \<noteq> None \<Longrightarrow> ex_last_id ex < session_request_id (de_message d) \<Longrightarrow>
   ex_inv P R (ex\<lparr>ex_deferred := Some d\<rparr>) q"
  unfolding ex_inv_def by auto

lemma ex_inv_other:
  "ex_inv P R ex q \<Longrightarrow> ex_inv P R (ex\<lparr>ex_expires := t\<rparr>) q"
  "ex_inv P R ex q \<Longrightarrow> ex_inv P R (ex\<lparr>ex_completed_id := c\<rparr>) q"
  "ex_inv P R ex q \<Longrightarrow> ex_inv P R (ex\<lparr>ex_input := fb\<rparr>) q"
  "ex_inv P R ex q \<Longrightarrow> ex_inv P R (ex\<lparr>ex_frame_started := t\<rparr>) q"
  unfolding ex_inv_def by simp_all

lemma ex_inv_opened: "ex_inv P R ex q \<Longrightarrow> ex_inv P R (ex\<lparr>ex_opened := True\<rparr>) q"
  unfolding ex_inv_def by (auto split: if_splits)

text \<open>A new request: the exchange is idle and the identity is larger than all before.\<close>

lemma ex_inv_dispatch:
  assumes "ex_inv P R ex q" "ex_active ex = None" "ex_output ex = None" "ex_last_id ex < job_id job"
    and "is_open job \<Longrightarrow> b \<and> \<not> ex_opened ex" "ex_opened ex \<Longrightarrow> b"
    and "ex_output ex' = None" "ex_deferred ex' = ex_deferred ex" "ex_last_id ex' = job_id job" "ex_opened ex' = b"
    and "ex_active ex' = Some a" "ac_id a = job_id job"
  shows "ex_inv P R ex' (q @ [Execute job])"
proof -
  have i: "\<forall>j \<in> set (jobs q). job_id j \<le> ex_last_id ex" "\<forall>(i, r) \<in> R. i \<le> ex_last_id ex" "ex_deferred ex = None"
      "length (filter is_open (jobs q)) \<le> (if ex_opened ex then 1 else 0)"
    using assms(1,3) unfolding ex_inv_def by auto
  have "\<forall>j \<in> set (jobs q). job_id j < job_id job" using i(1) assms(4) by auto
  then have l: "job_last (job_id job) (q @ [Execute job])" by (rule job_last_snoc)
  have r: "\<forall>(i, r) \<in> R. i < job_id job" using i(2) assms(4) by auto
  have o': "length (filter is_open (jobs q @ [job])) \<le> (if b then 1 else 0)"
    using i(4) assms(5,6) by (cases "is_open job") (auto split: if_splits)
  have n: "\<forall>r. (job_id job, Inr r) \<notin> R" using r by auto
  have js: "\<forall>j \<in> set (jobs (q @ [Execute job])). job_id j \<le> job_id job" using i(1) assms(4) by auto
  have rs: "\<forall>(i, r) \<in> R. i \<le> job_id job" using r by auto
  show ?thesis
    unfolding ex_inv_def assms(7-10) using js rs l n o' i(3) assms(11,12) by simp
qed

locale exchange_contract =
  fixes ser :: "SessionReply serializer" and P :: "Ready \<Rightarrow> bool"
  assumes plain_ok: "plain ser r \<Longrightarrow> P r"
begin

definition kept :: "(nat \<times> (string + Ready)) set \<Rightarrow> Exchange \<times> Shared \<Rightarrow> Exchange \<times> Shared \<Rightarrow> bool" where
  "kept R st st' \<longleftrightarrow> ex_inv P R (fst st') (sh_queue (snd st')) \<and> extends st st'"

lemma kept_trans: "kept R a b \<Longrightarrow> extends c a \<Longrightarrow> kept R c b"
  by (auto simp: kept_def intro: extends_trans)

lemma reject_keeps:
  assumes "ex_inv P R ex (sh_queue sh)" "ex_active ex = None" "exchange_reject ser i code (ex, sh) = Inr st'"
  shows "kept R (ex, sh) st'"
proof -
  obtain ex' sh' where st: "st' = (ex', sh')" by (cases st')
  obtain r d where r: "plain ser r" "ex' = ex\<lparr>ex_output := Some \<lparr>op_id = i, op_ready = r, op_cursor = 0, op_deadline = d\<rparr>\<rparr>"
      "sh_queue sh' = sh_queue sh" "sh_connected sh' = sh_connected sh"
    using reject_Inr assms(3) st by blast
  then show ?thesis using assms(1,2) plain_ok by (simp add: st kept_def ex_inv_output extends_refl)
qed

lemma cancel_keeps:
  assumes "ex_inv P R ex (sh_queue sh)" "exchange_cancel ser i (ex, sh) = Inr st'"
  shows "kept R (ex, sh) st'"
proof -
  obtain ex' sh' where st: "st' = (ex', sh')" by (cases st')
  consider (work) "cancel_work ser i (ex, sh) = Inr (ex', sh')" | (same) "sh' = sh" "ex' = ex"
    | (deferred) d where "sh' = sh" "ex_deferred ex = Some d" "ex' = ex\<lparr>ex_deferred := Some (d\<lparr>de_cancelled := True\<rparr>)\<rparr>"
    using cancel_Inr assms(2) st by blast
  then show ?thesis
  proof cases
    case work
    show ?thesis
    proof (cases "ex_active ex")
      case (Some a)
      then show ?thesis using cancel_work_active [OF work Some] assms(1) by (auto simp: st kept_def ex_inv_active extends_refl)
    next
      case None
      show ?thesis
      proof (cases "ex_output ex")
        case (Some out)
        then show ?thesis using cancel_work_output [OF work None Some] assms(1) None plain_ok
          by (auto simp: st kept_def ex_inv_output extends_refl)
      next
        case None': None
        then show ?thesis using reject_keeps [OF assms(1) None] cancel_work_idle [OF work None] st by blast
      qed
    qed
  next
    case same
    then show ?thesis using assms(1) by (simp add: st kept_def extends_refl)
  next
    case deferred
    then have "ex_output ex \<noteq> None" "ex_last_id ex < session_request_id (de_message d)"
      using assms(1) unfolding ex_inv_def by auto
    then show ?thesis using deferred assms(1) by (simp add: st kept_def ex_inv_deferred extends_refl)
  qed
qed

lemma dispatch_keeps:
  assumes "ex_inv P R ex (sh_queue sh)" "ex_active ex = None" "ex_output ex = None"
    and "ex_last_id ex < session_request_id message" "(\<exists>f. message = SOpen f) \<Longrightarrow> b \<and> \<not> ex_opened ex" "ex_opened ex \<Longrightarrow> b"
    and "sh_queue sh1 = sh_queue sh" "sh_connected sh1 = sh_connected sh"
    and "dispatch message started remaining expires
      (ex\<lparr>ex_last_id := session_request_id message, ex_opened := b, ex_expires := t\<rparr>, sh1) = Inr st'"
  shows "kept R (ex, sh) st'"
proof -
  obtain ex' sh' where st: "st' = (ex', sh')" by (cases st')
  obtain deadline where d: "sh_queue sh' = sh_queue sh @ [Execute \<lparr>jb_message = message, jb_deadline = deadline, jb_expires = expires\<rparr>]"
      "sh_connected sh' = sh_connected sh"
      "ex' = ex\<lparr>ex_last_id := session_request_id message, ex_opened := b, ex_expires := t, ex_active := Some \<lparr>ac_id = session_request_id message,
        ac_deadline = deadline, ac_stopped = None, ac_cleanup = None\<rparr>\<rparr>"
    using dispatch_Inr [OF assms(9) [unfolded st]] assms(7,8) by auto
  let ?job = "\<lparr>jb_message = message, jb_deadline = deadline, jb_expires = expires\<rparr>"
  have op: "is_open ?job \<Longrightarrow> b \<and> \<not> ex_opened ex"
    using assms(5) by (auto simp: is_open_def split: SessionClientFrame.splits)
  have "ex_inv P R ex' (sh_queue sh @ [Execute ?job])"
    by (rule ex_inv_dispatch [OF assms(1-3), where b = b]) (use assms(3,4,6) op d(3) in auto)
  moreover have "extends (ex, sh) (ex', sh')"
    unfolding extends_def using d op assms(6) by (intro exI [of _ "[?job]"]) auto
  ultimately show ?thesis using d(1) by (simp add: st kept_def)
qed

lemma start_keeps:
  assumes "ex_inv P R ex (sh_queue sh)" "ex_active ex = None" "ex_output ex = None"
    and "ex_last_id ex < session_request_id message" "start_request ser message started (ex, sh) = Inr st'"
  shows "kept R (ex, sh) st'"
proof -
  let ?i = "session_request_id message"
  obtain t sh1 where t: "clock_now sh = (t, sh1)" by fastforce
  note q = clock_now_same [OF t]
  have last: "ex_inv P R (ex\<lparr>ex_last_id := ?i\<rparr>) (sh_queue sh1)"
  proof -
    have "ex_deferred ex = None" using assms(1,3) unfolding ex_inv_def by auto
    then show ?thesis using assms(1-4) q unfolding ex_inv_def by (auto intro: less_imp_le order.strict_trans1)
  qed
  have rej: "kept R (ex, sh) st'" if r: "exchange_reject ser ?i code (ex\<lparr>ex_last_id := ?i\<rparr>, sh1) = Inr st'" for code
    using kept_trans [OF reject_keeps [OF last _ r] extends_refl] q assms(2) by simp
  have run: "kept R (ex, sh) st'" if r: "dispatch message started remaining None (ex\<lparr>ex_last_id := ?i\<rparr>, sh1) = Inr st'"
    "\<not> (\<exists>f. message = SOpen f)" for remaining
    using dispatch_keeps [OF assms(1-4), where b = "ex_opened ex" and t = "ex_expires ex" and ?sh1.0 = sh1 and st' = st'] r q by simp
  show ?thesis
  proof (cases message)
    case (SOpen f)
    show ?thesis
    proof (cases "ex_opened ex")
      case True
      then show ?thesis using assms(5) rej by (simp add: start_request_def Let_def t SOpen)
    next
      case False
      obtain expires where "dispatch message started (of_remaining_ms f) (Some expires)
          (ex\<lparr>ex_last_id := ?i, ex_opened := True, ex_expires := Some expires\<rparr>, sh1) = Inr st'"
        using assms(5) False by (auto simp: start_request_def Let_def t SOpen res_simps)
      then show ?thesis using dispatch_keeps [OF assms(1-4), where b = True and t = "Some expires" and ?sh1.0 = sh1] q False by blast
    qed
  qed (use assms(5) rej run in \<open>auto simp: start_request_def Let_def t split: if_splits\<close>)
qed

lemma accept_idle_keeps:
  assumes "ex_inv P R ex (sh_queue sh)" "ex_output ex = None"
    and "ex_last_id ex < session_request_id message" "accept_idle ser message started (ex, sh) = Inr st'"
  shows "kept R (ex, sh) st'"
proof (cases "ex_active ex")
  case None
  then show ?thesis using start_keeps [OF assms(1) None assms(2,3)] assms(4) by (simp add: accept_idle_def)
next
  case (Some a)
  let ?sh = "cancel_active ex sh"
  have sh: "sh_queue ?sh = sh_queue sh" "sh_connected ?sh = sh_connected sh" by (simp_all add: cancel_active_def Some)
  have "start_request ser message started (ex\<lparr>ex_active := None\<rparr>, ?sh) = Inr st'"
    using assms(4) Some by (auto simp: accept_idle_def split: if_splits)
  then have "kept R (ex\<lparr>ex_active := None\<rparr>, ?sh) st'"
    using start_keeps [of R "ex\<lparr>ex_active := None\<rparr>" ?sh] assms(1-3) sh ex_inv_idle by simp
  then show ?thesis by (rule kept_trans) (simp add: sh extends_refl)
qed

lemma accept_keeps:
  assumes "ex_inv P R ex (sh_queue sh)" "exchange_accept ser message started (ex, sh) = Inr st'"
  shows "kept R (ex, sh) st'"
proof -
  let ?i = "session_request_id message"
  consider (cancel) "exchange_cancel ser ?i (ex, sh) = Inr st'"
    | (old) "ex_active ex = None" "exchange_reject ser ?i ''SESSION_REQUEST_ID_INVALID'' (ex, sh) = Inr st'"
    | (close) "ex_last_id ex < ?i" "accept_idle ser message started (ex\<lparr>ex_output := None, ex_deferred := None\<rparr>, sh) = Inr st'"
    | (later) "ex_last_id ex < ?i" "ex_output ex \<noteq> None"
        "st' = (ex\<lparr>ex_deferred := Some \<lparr>de_message = message, de_started = started, de_cancelled = False\<rparr>\<rparr>, sh)"
    | (idle) "ex_last_id ex < ?i" "ex_output ex = None" "accept_idle ser message started (ex, sh) = Inr st'"
    using assms(2) unfolding exchange_accept_def Let_def
    by (cases message; cases "?i \<le> ex_last_id ex"; cases "ex_output ex") (auto split: if_splits)
  then show ?thesis
  proof cases
    case cancel
    then show ?thesis using cancel_keeps assms(1) by blast
  next
    case old
    then show ?thesis using reject_keeps assms(1) by blast
  next
    case close
    have "kept R (ex\<lparr>ex_output := None, ex_deferred := None\<rparr>, sh) st'"
      by (rule accept_idle_keeps) (use close assms(1) ex_inv_silent in simp_all)
    then show ?thesis by (rule kept_trans) (simp add: extends_refl)
  next
    case later
    then show ?thesis using assms(1) by (simp add: kept_def ex_inv_deferred extends_refl)
  next
    case idle
    then show ?thesis using accept_idle_keeps assms(1) by blast
  qed
qed

lemma consume_step:
  assumes "exchange_consume ser parse bs (ex, sh) = Inr st'" "bs \<noteq> []"
  shows "\<exists>count t fb sh1 st1. 0 < count \<and> sh_queue sh1 = sh_queue sh \<and> sh_connected sh1 = sh_connected sh \<and>
    (st1 = (ex\<lparr>ex_frame_started := t, ex_input := fb\<rparr>, sh1) \<or>
     (\<exists>message started. exchange_accept ser message started (ex\<lparr>ex_frame_started := t, ex_input := fb\<rparr>, sh1) = Inr st1)) \<and>
    exchange_consume ser parse (drop count bs) st1 = Inr st'"
proof -
  obtain now sh0 where t: "(if frame_is_empty (ex_input ex) then clock_now sh else (0, sh)) = (now, sh0)" by fastforce
  have q: "sh_queue sh0 = sh_queue sh" "sh_connected sh0 = sh_connected sh"
    using t clock_now_same [of sh now sh0] by (auto split: if_splits)
  obtain ex0 where e0: "(if frame_is_empty (ex_input ex) then ex\<lparr>ex_frame_started := Some now\<rparr> else ex) = ex0" by blast
  have i: "ex_input ex0 = ex_input ex" "ex0 = ex\<lparr>ex_frame_started := ex_frame_started ex0\<rparr>"
    unfolding e0 [symmetric] by simp_all
  have step: "(case frame_push (ex_input ex) bs (sh_env sh0) of
       (Inl e, _) \<Rightarrow> Inl (protocol_code e)
     | (Inr (count, env), input) \<Rightarrow>
         if count = 0 then Inl ''QUERY_FRAME_INVALID''
         else bindE (case frame_frame input of
             None \<Rightarrow> Inr (ex0\<lparr>ex_input := input\<rparr>, sh0\<lparr>sh_env := env\<rparr>)
           | Some frame \<Rightarrow>
               bindE (mapErr protocol_code (decode_session_frame parse frame)) (\<lambda>message.
               bindE (ok_or ''QUERY_FRAME_INVALID'' (ex_frame_started (ex0\<lparr>ex_input := input\<rparr>))) (\<lambda>started.
               bindE (mapErr protocol_code (frame_new MAX_CLIENT_FRAME_BYTES)) (\<lambda>fresh.
               exchange_accept ser message started (ex0\<lparr>ex_input := input, ex_frame_started := None, ex_input := fresh\<rparr>, sh0\<lparr>sh_env := env\<rparr>)))))
           (\<lambda>st. exchange_consume ser parse (drop count bs) st)) = Inr st'"
    using assms(1) unfolding exchange_consume.simps [of ser parse bs] t Let_def e0 i(1) prod.case if_not_P [OF assms(2)] .
  show ?thesis
  proof (cases "frame_push (ex_input ex) bs (sh_env sh0)")
    case (Pair r input)
    show ?thesis
    proof (cases r)
      case (Inl e)
      then show ?thesis using step Pair by simp
    next
      case (Inr ce)
      obtain count env where ce: "ce = (count, env)" by (cases ce)
      have c: "0 < count" using step by (cases count) (simp_all add: Pair Inr ce)
      note st = step [unfolded Pair Inr ce prod.case sum.case if_not_P [OF c [THEN less_imp_neq, symmetric]]]
      show ?thesis
      proof (cases "frame_frame input")
        case None
        have x: "ex0\<lparr>ex_input := input\<rparr> = ex\<lparr>ex_frame_started := ex_frame_started ex0, ex_input := input\<rparr>"
          by (subst i(2)) simp
        have "exchange_consume ser parse (drop count bs)
            (ex\<lparr>ex_frame_started := ex_frame_started ex0, ex_input := input\<rparr>, sh0\<lparr>sh_env := env\<rparr>) = Inr st'"
          using st by (simp add: None x)
        then show ?thesis using c q
          by (intro exI [of _ count] exI [of _ "ex_frame_started ex0"] exI [of _ input] exI [of _ "sh0\<lparr>sh_env := env\<rparr>"] exI) auto
      next
        case (Some frame)
        have x: "ex0\<lparr>ex_input := input, ex_frame_started := None, ex_input := fresh\<rparr> = ex\<lparr>ex_frame_started := None, ex_input := fresh\<rparr>" for fresh
          by (subst i(2)) simp
        obtain message started fresh st1 where a:
            "exchange_accept ser message started (ex\<lparr>ex_frame_started := None, ex_input := fresh\<rparr>, sh0\<lparr>sh_env := env\<rparr>) = Inr st1"
            "exchange_consume ser parse (drop count bs) st1 = Inr st'"
          using st unfolding Some option.case x bindE_Inr by blast
        then show ?thesis using c q
          by (intro exI [of _ count] exI [of _ None] exI [of _ fresh] exI [of _ "sh0\<lparr>sh_env := env\<rparr>"] exI [of _ st1]) auto
      qed
    qed
  qed
qed

lemma consume_keeps:
  "exchange_consume ser parse bs (ex, sh) = Inr st' \<Longrightarrow> ex_inv P R ex (sh_queue sh) \<Longrightarrow> kept R (ex, sh) st'"
proof (induction "length bs" arbitrary: bs ex sh rule: less_induct)
  case less
  show ?case
  proof (cases "bs = []")
    case True
    then show ?thesis using less.prems by (auto simp: exchange_consume.simps kept_def extends_refl)
  next
    case False
    obtain count t fb sh1 st1 where s: "0 < count" "sh_queue sh1 = sh_queue sh" "sh_connected sh1 = sh_connected sh"
        "st1 = (ex\<lparr>ex_frame_started := t, ex_input := fb\<rparr>, sh1) \<or>
         (\<exists>message started. exchange_accept ser message started (ex\<lparr>ex_frame_started := t, ex_input := fb\<rparr>, sh1) = Inr st1)"
        "exchange_consume ser parse (drop count bs) st1 = Inr st'"
      using consume_step [OF less.prems(1) False] by blast
    let ?ex = "ex\<lparr>ex_frame_started := t, ex_input := fb\<rparr>"
    have i: "ex_inv P R ?ex (sh_queue sh1)" using less.prems(2) s(2) by (simp add: ex_inv_other)
    have x: "extends (ex, sh) (?ex, sh1)" using s(2,3) by (intro extends_refl) simp_all
    have "kept R (?ex, sh1) st1"
      using s(4)
    proof (elim disjE exE)
      assume "st1 = (?ex, sh1)"
      then show ?thesis using i by (simp add: kept_def extends_refl)
    qed (rule accept_keeps [OF i])
    then have k: "kept R (ex, sh) st1" using kept_trans x by blast
    obtain ex1 sh2 where st1: "st1 = (ex1, sh2)" by (cases st1)
    have "length (drop count bs) < length bs" using s(1) False by simp
    from less.hyps [OF this s(5) [unfolded st1]] k st1
    show ?thesis using kept_trans [of R st1 st' "(ex, sh)"] by (simp add: kept_def)
  qed
qed

lemma received_keeps:
  assumes "ex_inv P R ex (sh_queue sh)" "ex_active ex = Some a" "ex_output ex = None" "(ac_id a, reply) \<in> R"
    and "exchange_received ser reply (ex, sh) = Inr st'"
  shows "kept R (ex, sh) st'"
proof -
  obtain ready where r: "reply = Inr ready" using assms(2,5) by (cases reply) (simp_all add: exchange_received_def)
  obtain ready' sh' d where o': "P ready'" "sh_queue sh' = sh_queue sh" "sh_connected sh' = sh_connected sh"
      "st' = (ex\<lparr>ex_active := None, ex_output := Some \<lparr>op_id = ac_id a, op_ready = ready', op_cursor = 0, op_deadline = d\<rparr>\<rparr>, sh')"
  proof (cases "ac_stopped a = None \<or> rd_end ready")
    case True
    have "P ready" using assms(1,2,4) r unfolding ex_inv_def by auto
    then show ?thesis using that [of ready sh] assms(2,5) True r
      by (auto simp: exchange_received_def split: option.splits)
  next
    case False
    then obtain f ready' sh' where "exchange_failure ser (ac_id a) f sh = Inr (ready', sh')"
        "st' = (ex\<lparr>ex_active := None, ex_output := Some \<lparr>op_id = ac_id a, op_ready = ready', op_cursor = 0,
          op_deadline = (case ac_cleanup a of Some t \<Rightarrow> t | None \<Rightarrow> ac_deadline a)\<rparr>\<rparr>, sh')"
      using assms(2,5) r by (auto simp: exchange_received_def res_simps)
    then show ?thesis using that exchange_failure_same plain_ok by blast
  qed
  have "ex_inv P R (ex\<lparr>ex_active := None, ex_output := Some \<lparr>op_id = ac_id a, op_ready = ready', op_cursor = 0, op_deadline = d\<rparr>\<rparr>) (sh_queue sh)"
    using ex_inv_output [OF ex_inv_idle [OF assms(1)]] o'(1) by simp
  then show ?thesis using o' by (simp add: kept_def extends_refl)
qed

lemma timed_out_keeps:
  assumes "ex_inv P R ex (sh_queue sh)" "exchange_timed_out (ex, sh) = Inr st'"
  shows "kept R (ex, sh) st'"
proof -
  obtain a where a: "ex_active ex = Some a" using assms(2) by (cases "ex_active ex") (simp_all add: exchange_timed_out_def)
  obtain t sh1 where t: "clock_now (sh\<lparr>sh_cancelled := ac_id a # sh_cancelled sh\<rparr>) = (t, sh1)" by fastforce
  have "st' = (ex\<lparr>ex_active := Some (a\<lparr>ac_stopped := Some QueryFailure.Deadline,
      ac_cleanup := ok_of (instant_add t CLEANUP_ALLOWANCE)\<rparr>)\<rparr>, sh1)"
    using assms(2) by (simp add: exchange_timed_out_def a t split: if_splits)
  then show ?thesis using ex_inv_active [OF assms(1) a] clock_now_same [OF t] by (simp add: kept_def extends_refl)
qed

lemma take_deferred_keeps:
  assumes "ex_inv P R ex' (sh_queue sh)" "ex' = ex\<lparr>ex_deferred := None\<rparr>" "ex_output ex = None" "ex_active ex = None"
    and "\<And>d. ex_deferred ex = Some d \<Longrightarrow> ex_last_id ex < session_request_id (de_message d)"
    and "take_deferred ser (ex, sh) = Inr st'"
  shows "kept R (ex', sh) st'"
proof (cases "ex_deferred ex")
  case None
  then have "ex' = ex" using assms(2) by simp
  then show ?thesis using None assms(1,6) by (auto simp: take_deferred_def kept_def extends_refl)
next
  case (Some d)
  let ?i = "session_request_id (de_message d)"
  show ?thesis
  proof (cases "de_cancelled d")
    case False
    then have "exchange_accept ser (de_message d) (de_started d) (ex', sh) = Inr st'"
      using assms(2,6) Some by (simp add: take_deferred_def Let_def)
    then show ?thesis using accept_keeps assms(1) by blast
  next
    case True
    then obtain ready sh1 where f: "exchange_failure ser ?i QueryFailure.Cancelled sh = Inr (ready, sh1)"
      using assms(6) Some by (auto simp: take_deferred_def Let_def res_simps)
    obtain t sh2 where t: "clock_now sh1 = (t, sh2)" by fastforce
    obtain d' where st: "st' = (ex'\<lparr>ex_last_id := ?i, ex_output := Some \<lparr>op_id = ?i, op_ready = ready, op_cursor = 0, op_deadline = d'\<rparr>\<rparr>, sh2)"
      using assms(2,6) Some True by (auto simp: take_deferred_def Let_def res_simps f t)
    have "ex_inv P R (ex'\<lparr>ex_last_id := ?i\<rparr>) (sh_queue sh)"
      using assms(1-5) Some unfolding ex_inv_def by (fastforce intro: order.trans less_imp_le)
    then have "ex_inv P R (ex'\<lparr>ex_last_id := ?i, ex_output := Some \<lparr>op_id = ?i, op_ready = ready, op_cursor = 0, op_deadline = d'\<rparr>\<rparr>) (sh_queue sh)"
      by (rule ex_inv_output) (use assms(2,4) plain_ok exchange_failure_same [OF f] in simp_all)
    then show ?thesis using exchange_failure_same [OF f] clock_now_same [OF t] by (simp add: st kept_def extends_refl)
  qed
qed

end

end
