(* ===== verification/SessionRun.thy ===== *)
theory SessionRun
  imports SessionLaws
begin

text \<open>
  Runs of a session: the worker's replies are refusals or the next page of the window, commands move
  the window's cursor only along flushed pages, and the invariant \<open>session_inv\<close> holds in every
  reachable state (rule induction over \<open>session_step\<close>).
\<close>

section \<open>What the worker replies\<close>

definition opened_window :: "Service \<Rightarrow> Window \<Rightarrow> bool" where
  "opened_window sv w \<longleftrightarrow> (\<exists>query expires env env'. window_open sv query expires env = Some (Inr (w, env')))"

lemma opened_window_cursor: "opened_window sv w \<Longrightarrow> wn_cursor w = 0"
  unfolding opened_window_def window_open_def
  by (simp only: bindO_Inr option.inject) (auto simp: res_simps bindO_Inr split: prod.splits)

lemma original_page_cursor [simp]: "original_page (w\<lparr>wn_cursor := k\<rparr>) = original_page w"
  by (simp add: original_page_def fun_eq_iff)

lemma paged_cursor [simp]: "paged ser (w\<lparr>wn_cursor := k\<rparr>) = paged ser w"
  by (simp add: paged_def fun_eq_iff)

lemma worker_page_Inr:
  assumes "worker_page sv window job sz env = Inr (r, env')"
  shows "\<exists>w. window = Some w \<and> (wn_cursor w \<le> length (wn_items w) \<longrightarrow> (\<exists>to. paged (sv_serialize sv) w (wn_cursor w) to r))"
proof -
  obtain w where w: "window = Some w" using assms by (cases window) (simp_all add: worker_page_def)
  obtain p env1 where p: "window_page (sv_serialize sv) w (job_id job) sz env = Inr (p, env1)"
      "r = \<lparr>rd_bytes = pp_bytes p, rd_commit = Some (pp_expected_cursor p, pp_next_cursor p), rd_end = False\<rparr>"
    using assms w by (auto simp: worker_page_def res_simps)
  show ?thesis
  proof (intro exI [of _ w] conjI w impI)
    assume "wn_cursor w \<le> length (wn_items w)"
    then show "\<exists>to. paged (sv_serialize sv) w (wn_cursor w) to r"
      using window_page_Inr [OF p(1)] p(2) unfolding paged_def by auto
  qed
qed

text \<open>What serving a job does to the window, and what it replies.\<close>

definition page_of :: "Service \<Rightarrow> Window option \<Rightarrow> Ready \<Rightarrow> bool" where
  "page_of sv window r \<longleftrightarrow> plain (sv_serialize sv) r \<or>
     (\<exists>w. window = Some w \<and> (wn_cursor w \<le> length (wn_items w) \<longrightarrow> (\<exists>to. paged (sv_serialize sv) w (wn_cursor w) to r)))"

definition window_next :: "Service \<Rightarrow> Job \<Rightarrow> Window option \<Rightarrow> Window option \<Rightarrow> bool" where
  "window_next sv job window window' \<longleftrightarrow>
     window' = None \<or> window' = window \<or> is_open job \<and> (\<exists>w. window' = Some w \<and> opened_window sv w)"

lemma worker_page_page_of: "worker_page sv window job sz env = Inr (r, env') \<Longrightarrow> page_of sv window r"
  using worker_page_Inr by (auto simp: page_of_def)

lemma outcome_page_of:
  "session_outcome (sv_serialize sv) i out b env = Inr (r, env') \<Longrightarrow> (\<And>page. out \<noteq> SPage page) \<Longrightarrow> page_of sv window r"
  by (simp add: page_of_def outcome_plain)

lemma worker_execute_served:
  assumes "worker_execute sv window job env = Some (result, window')"
  shows "window_next sv job window window'" "result = Inr (r, env') \<Longrightarrow> page_of sv window' r"
proof -
  show "window_next sv job window window'"
    using assms unfolding worker_execute_def window_next_def opened_window_def is_open_def
    by (auto split: sum.splits SessionClientFrame.splits option.splits prod.splits)
  show "page_of sv window' r" if "result = Inr (r, env')"
    using assms that unfolding worker_execute_def
    by (auto split: sum.splits SessionClientFrame.splits option.splits prod.splits
        dest: worker_page_page_of outcome_page_of simp: res_simps)
qed

text \<open>
  The reply that leaves the worker: a refusal, or a page at the cursor of the window that remains.
\<close>

lemma job_reply_page_of:
  assumes "job_reply sv job lifetime_ended cancelled late result = Inr r" "\<And>r env. result = Inr (r, env) \<Longrightarrow> page_of sv window r"
    and "lifetime_ended \<Longrightarrow> window' = None" "\<not> lifetime_ended \<Longrightarrow> window' = window"
  shows "page_of sv window' r"
proof -
  have plain: "page_of sv window' r" if "plain (sv_serialize sv) r" using that by (simp add: page_of_def)
  have fail: "plain (sv_serialize sv) r" if "session_failure (sv_serialize sv) (job_id job) e late = Inr (r, env)" for e env
    using failure_plain that .
  show ?thesis
  proof (cases "lifetime_ended")
    case True
    then show ?thesis using assms(1) plain fail
      by (auto simp: job_reply_def Let_def res_simps split: sum.splits prod.splits dest!: outcome_plain)
  next
    case False
    then show ?thesis using assms(1,2) assms(4) [OF False] plain fail
      by (auto simp: job_reply_def Let_def res_simps split: sum.splits prod.splits if_splits)
  qed
qed

lemma worker_command_Execute:
  assumes "worker_command sv wk (Execute job) now later cancelled env late = Some (wk', sent)"
  shows "\<exists>reply. sent = Some (job_id job, reply) \<and> (\<forall>r. reply = Inr r \<longrightarrow> page_of sv (wk_window wk') r) \<and>
    window_next sv job (wk_window wk) (wk_window wk')"
proof (cases "expired (wk_expires wk) now")
  case True
  then show ?thesis using assms outcome_page_of
    by (auto simp: worker_command_def Let_def window_next_def res_simps)
next
  case False
  obtain result window where e: "worker_execute sv (wk_window wk) job env = Some (result, window)"
    using assms False by (cases "worker_execute sv (wk_window wk) job env") (auto simp: worker_command_def Let_def)
  define expires where "expires = (if jb_expires job = None then wk_expires wk else jb_expires job)"
  have w: "wk_window wk' = (if expired expires later then None else window)"
      "sent = Some (job_id job, job_reply sv job (expired expires later) cancelled late result)"
    using assms False by (auto simp: worker_command_def Let_def e expires_def)
  have "\<forall>r. job_reply sv job (expired expires later) cancelled late result = Inr r \<longrightarrow> page_of sv (wk_window wk') r"
    using job_reply_page_of worker_execute_served(2) [OF e] w(1) by (metis (full_types))
  moreover have "window_next sv job (wk_window wk) (wk_window wk')"
    using worker_execute_served(1) [OF e] w(1) by (auto simp: window_next_def)
  ultimately show ?thesis using w(2) by blast
qed

lemma worker_command_Commit:
  assumes "worker_command sv wk (Commit a b) now later cancelled env late = Some (wk', sent)" "wk_running wk'"
  shows "sent = None \<and> (\<exists>w. wk_window wk = Some w \<and> wn_cursor w = a \<and> wk_window wk' = Some (w\<lparr>wn_cursor := b\<rparr>))"
  using assms by (auto simp: worker_command_def commit_page_def split: if_splits option.splits)

section \<open>The invariant\<close>

fun commits :: "Command list \<Rightarrow> (nat \<times> nat) list" where
  "commits [] = []"
| "commits (Execute j # q) = commits q"
| "commits (Commit a b # q) = (a, b) # commits q"
| "commits (Shutdown # q) = commits q"

lemma commits_append [simp]: "commits (p @ q) = commits p @ commits q"
  by (induction p rule: commits.induct) auto

lemma commits_map [simp]: "commits (map Execute js) = []"
  by (induction js) auto

text \<open>Movements that follow each other from one position to another, within the window.\<close>

fun moves :: "nat \<Rightarrow> nat \<Rightarrow> (nat \<times> nat) list \<Rightarrow> nat \<Rightarrow> bool" where
  "moves n c [] c' \<longleftrightarrow> c = c' \<and> c \<le> n"
| "moves n c ((a, b) # xs) c' \<longleftrightarrow> a = c \<and> a \<le> b \<and> moves n b xs c'"

lemma moves_snoc: "moves n c xs a \<Longrightarrow> a \<le> b \<Longrightarrow> b \<le> n \<Longrightarrow> moves n c (xs @ [(a, b)]) b"
  by (induction xs arbitrary: c) auto

lemma moves_le: "moves n c xs c' \<Longrightarrow> c \<le> c' \<and> c' \<le> n"
  by (induction xs arbitrary: c) fastforce+

text \<open>The flushed replies: refusals and consecutive pages.\<close>

fun chained :: "SessionReply serializer \<Rightarrow> Window \<Rightarrow> nat \<Rightarrow> Ready list \<Rightarrow> nat \<Rightarrow> bool" where
  "chained ser w c [] c' \<longleftrightarrow> c = c'"
| "chained ser w c (r # rs) c' \<longleftrightarrow>
     plain ser r \<and> chained ser w c rs c' \<or> (\<exists>to. paged ser w c to r \<and> chained ser w to rs c')"

lemma chained_plain: "chained ser w c rs c' \<Longrightarrow> plain ser r \<Longrightarrow> chained ser w c (rs @ [r]) c'"
  by (induction rs arbitrary: c) auto

lemma chained_paged: "chained ser w c rs c' \<Longrightarrow> paged ser w c' to r \<Longrightarrow> chained ser w c (rs @ [r]) to"
  by (induction rs arbitrary: c) auto

lemma chained_refusals: "\<forall>r \<in> set rs. plain ser r \<Longrightarrow> chained ser w c rs c"
  by (induction rs) auto

text \<open>
  Before the window is open nothing but refusals leaves the worker; afterwards the window of the
  worker differs from the opened one in its cursor only, and the queued commits lead from there to
  the position that the flushed pages have reached.
\<close>

definition pristine :: "Service \<Rightarrow> SessionState \<Rightarrow> bool" where
  "pristine sv s \<longleftrightarrow> (\<forall>r \<in> set (st_flushed s). plain (sv_serialize sv) r) \<and>
     (\<not> st_over s \<longrightarrow>
        ex_inv (plain (sv_serialize sv)) (set (st_replies s)) (st_exchange s) (sh_queue (st_shared s)) \<and>
        (wk_running (st_worker s) \<longrightarrow> commits (sh_queue (st_shared s)) = [] \<and> wk_window (st_worker s) = None))"

definition worker_at :: "Window \<Rightarrow> nat \<Rightarrow> Exchange \<Rightarrow> Command list \<Rightarrow> Worker \<Rightarrow> bool" where
  "worker_at w0 c ex q wk \<longleftrightarrow> (wk_running wk \<longrightarrow> ex_opened ex \<and> (\<forall>j \<in> set (jobs q). \<not> is_open j) \<and>
     (\<forall>w. wk_window wk = Some w \<longrightarrow> w = w0\<lparr>wn_cursor := wn_cursor w\<rparr> \<and>
        moves (length (wn_items w0)) (wn_cursor w) (commits q) c))"

definition windowed :: "Service \<Rightarrow> Window \<Rightarrow> nat \<Rightarrow> SessionState \<Rightarrow> bool" where
  "windowed sv w0 c s \<longleftrightarrow> opened_window sv w0 \<and> chained (sv_serialize sv) w0 0 (st_flushed s) c \<and>
     (\<not> st_over s \<longrightarrow>
        ex_inv (next_ready (sv_serialize sv) w0 c) (set (st_replies s)) (st_exchange s) (sh_queue (st_shared s)) \<and>
        worker_at w0 c (st_exchange s) (sh_queue (st_shared s)) (st_worker s))"

definition session_inv :: "Service \<Rightarrow> SessionState \<Rightarrow> bool" where
  "session_inv sv s \<longleftrightarrow> pristine sv s \<or> (\<exists>w0 c. windowed sv w0 c s)"

section \<open>Steps of the exchange\<close>

lemma ex_inv_mono: "ex_inv P R ex q \<Longrightarrow> (\<And>r. P r \<Longrightarrow> Q r) \<Longrightarrow> ex_inv Q R ex q"
  unfolding ex_inv_def by auto

lemma ex_inv_tail: "ex_inv P R ex (c # q) \<Longrightarrow> ex_inv P R ex q"
  unfolding ex_inv_def by (cases c) (auto dest: job_last_tl split: if_splits)

lemma job_last_head: "job_last (job_id job) (Execute job # q) \<Longrightarrow> q = []"
  unfolding job_last_def by (metis append_Nil)

lemma ex_inv_execute:
  assumes "ex_inv P R ex (Execute job # q)"
    and "\<And>a r. ex_active ex = Some a \<Longrightarrow> ac_id a = job_id job \<Longrightarrow> q = [] \<Longrightarrow> reply = Inr r \<Longrightarrow> P r"
  shows "ex_inv P (insert (job_id job, reply) R) ex q"
proof -
  have i: "ex_inv P R ex q" by (rule ex_inv_tail [OF assms(1)])
  have l: "job_id job \<le> ex_last_id ex" using assms(1) unfolding ex_inv_def by simp
  have p: "P r" if "ex_active ex = Some a" "(ac_id a, Inr r) = (job_id job, reply)" for a r
  proof -
    have "job_last (job_id job) (Execute job # q)" using assms(1) that unfolding ex_inv_def by auto
    then show ?thesis using assms(2) that job_last_head by simp
  qed
  show ?thesis using i l p unfolding ex_inv_def by auto
qed

lemma ex_inv_flushed:
  assumes "ex_inv P R ex q" "ex_output ex = Some out" "jobs cs = []"
  shows "ex_inv Q R (ex\<lparr>ex_output := None, ex_completed_id := c, ex_deferred := None\<rparr>) (q @ cs)"
  using assms unfolding ex_inv_def by auto

definition commit_of :: "Ready \<Rightarrow> Command list" where
  "commit_of r = (case rd_commit r of None \<Rightarrow> [] | Some (a, b) \<Rightarrow> [Commit a b])"

lemma jobs_commit_of [simp]: "jobs (commit_of r) = []"
  by (simp add: commit_of_def split: option.splits prod.splits)

text \<open>The steps of the exchange that neither flush nor end the session.\<close>

definition quiet_move ::
  "Service \<Rightarrow> (bytes \<Rightarrow> SessionClientFrame option) \<Rightarrow> SessionState \<Rightarrow> Exchange \<Rightarrow> Shared \<Rightarrow> bool" where
  "quiet_move sv parse s ex sh \<longleftrightarrow>
     (\<exists>chunk. exchange_consume (sv_serialize sv) parse chunk (st_exchange s, st_shared s) = Inr (ex, sh)) \<or>
     (\<exists>a reply. ex_output (st_exchange s) = None \<and> ex_active (st_exchange s) = Some a \<and> (ac_id a, reply) \<in> set (st_replies s) \<and>
        exchange_received (sv_serialize sv) reply (st_exchange s, st_shared s) = Inr (ex, sh)) \<or>
     (\<exists>out k. ex_output (st_exchange s) = Some out \<and> ex = (st_exchange s)\<lparr>ex_output := Some (out\<lparr>op_cursor := k\<rparr>)\<rparr> \<and>
        sh = st_shared s) \<or>
     exchange_timed_out (st_exchange s, st_shared s) = Inr (ex, sh)"

context exchange_contract
begin

lemma wrote_keeps:
  assumes "ex_inv P R ex (sh_queue sh)" "ex_output ex = Some out"
  shows "kept R (ex, sh) (ex\<lparr>ex_output := Some (out\<lparr>op_cursor := k\<rparr>)\<rparr>, sh)"
proof -
  have "ex_active ex = None" "P (op_ready out)" using assms unfolding ex_inv_def by auto
  then show ?thesis using assms(1) by (simp add: kept_def extends_refl ex_inv_output)
qed

lemma quiet_keeps:
  assumes "quiet_move sv parse s ex sh" "sv_serialize sv = ser"
    and "ex_inv P (set (st_replies s)) (st_exchange s) (sh_queue (st_shared s))"
  shows "kept (set (st_replies s)) (st_exchange s, st_shared s) (ex, sh)"
  using assms(1) unfolding quiet_move_def
proof (elim disjE exE conjE)
  fix chunk
  assume "exchange_consume (sv_serialize sv) parse chunk (st_exchange s, st_shared s) = Inr (ex, sh)"
  then show ?thesis using consume_keeps assms(2,3) by blast
next
  fix a reply
  assume "ex_output (st_exchange s) = None" "ex_active (st_exchange s) = Some a" "(ac_id a, reply) \<in> set (st_replies s)"
    "exchange_received (sv_serialize sv) reply (st_exchange s, st_shared s) = Inr (ex, sh)"
  then show ?thesis using received_keeps assms(2,3) by blast
next
  fix out k
  assume "ex_output (st_exchange s) = Some out" "ex = (st_exchange s)\<lparr>ex_output := Some (out\<lparr>op_cursor := k\<rparr>)\<rparr>" "sh = st_shared s"
  then show ?thesis using wrote_keeps [OF assms(3)] by simp
next
  assume "exchange_timed_out (st_exchange s, st_shared s) = Inr (ex, sh)"
  then show ?thesis using timed_out_keeps assms(3) by blast
qed

text \<open>A flush commits the page; what \<open>P\<close> says may change with it, since nothing is in flight.\<close>

lemma flushed_keeps:
  assumes "ex_inv P0 R ex (sh_queue sh)" "ex_output ex = Some out" "exchange_flushed ser (ex, sh) = Inr (False, ex', sh')"
  shows "\<exists>js. sh_queue sh' = sh_queue sh @ commit_of (op_ready out) @ map Execute js \<and> ex_inv P R ex' (sh_queue sh') \<and>
    (ex_opened ex \<longrightarrow> ex_opened ex' \<and> (\<forall>j \<in> set js. \<not> is_open j))"
proof -
  let ?ex = "ex\<lparr>ex_output := None, ex_completed_id := Some (op_id out)\<rparr>"
  have r: "ex_active ex = None" "\<And>d. ex_deferred ex = Some d \<Longrightarrow> ex_last_id ex < session_request_id (de_message d)"
    using assms(1,2) unfolding ex_inv_def by auto
  have "\<exists>sh1. sh_queue sh1 = sh_queue sh @ commit_of (op_ready out) \<and> take_deferred ser (?ex, sh1) = Inr (ex', sh')"
  proof (cases "rd_commit (op_ready out)")
    case None
    then show ?thesis using assms(2,3) by (intro exI [of _ sh])
      (auto simp: exchange_flushed_def commit_of_def res_simps Let_def split: if_splits)
  next
    case (Some ab)
    obtain a b where "ab = (a, b)" by (cases ab)
    then show ?thesis using assms(2,3) Some by (intro exI [of _ "sh\<lparr>sh_queue := sh_queue sh @ [Commit a b]\<rparr>"])
      (auto simp: exchange_flushed_def send_command_def commit_of_def res_simps Let_def split: if_splits)
  qed
  then obtain sh1 where s: "sh_queue sh1 = sh_queue sh @ commit_of (op_ready out)" "take_deferred ser (?ex, sh1) = Inr (ex', sh')"
    by blast
  have i: "ex_inv P R (ex\<lparr>ex_output := None, ex_completed_id := Some (op_id out), ex_deferred := None\<rparr>) (sh_queue sh1)"
    unfolding s(1) by (rule ex_inv_flushed [OF assms(1,2)]) simp
  have "kept R (?ex\<lparr>ex_deferred := None\<rparr>, sh1) (ex', sh')"
    by (rule take_deferred_keeps [of R _ sh1 ?ex]) (use i r s(2) in simp_all)
  then show ?thesis using s(1) by (auto simp: kept_def extends_def)
qed

end

interpretation refusals: exchange_contract ser "plain ser" for ser
  by unfold_locales

interpretation pages: exchange_contract ser "next_ready ser w c" for ser w c
  by unfold_locales (simp add: next_ready_def)

section \<open>The invariant holds\<close>

lemma pristine_quiet:
  assumes "pristine sv s" "\<not> st_over s" "quiet_move sv parse s ex sh"
  shows "pristine sv (s\<lparr>st_exchange := ex, st_shared := sh\<rparr>)"
proof -
  have "ex_inv (plain (sv_serialize sv)) (set (st_replies s)) (st_exchange s) (sh_queue (st_shared s))"
    using assms(1,2) by (simp add: pristine_def)
  from refusals.quiet_keeps [OF assms(3) refl this]
  show ?thesis using assms(1,2) by (auto simp: pristine_def refusals.kept_def extends_def)
qed

lemma worker_at_extends:
  assumes "worker_at w0 c ex (sh_queue sh) wk" "extends (ex, sh) (ex', sh')"
  shows "worker_at w0 c ex' (sh_queue sh') wk"
  using assms unfolding worker_at_def extends_def by auto

lemma windowed_quiet:
  assumes "windowed sv w0 c s" "\<not> st_over s" "quiet_move sv parse s ex sh"
  shows "windowed sv w0 c (s\<lparr>st_exchange := ex, st_shared := sh\<rparr>)"
proof -
  have "ex_inv (next_ready (sv_serialize sv) w0 c) (set (st_replies s)) (st_exchange s) (sh_queue (st_shared s))"
    using assms(1,2) by (simp add: windowed_def)
  from pages.quiet_keeps [OF assms(3) refl this]
  show ?thesis using assms(1,2) worker_at_extends by (auto simp: windowed_def pages.kept_def)
qed

lemma pristine_flushed:
  assumes "pristine sv s" "\<not> st_over s" "ex_output (st_exchange s) = Some out"
    and "exchange_flushed (sv_serialize sv) (st_exchange s, st_shared s) = Inr (over, ex, sh)"
  shows "pristine sv (s\<lparr>st_exchange := ex, st_shared := sh, st_flushed := st_flushed s @ [op_ready out], st_over := over\<rparr>)"
proof -
  have i: "ex_inv (plain (sv_serialize sv)) (set (st_replies s)) (st_exchange s) (sh_queue (st_shared s))"
    using assms(1,2) by (simp add: pristine_def)
  then have p: "plain (sv_serialize sv) (op_ready out)" using assms(3) unfolding ex_inv_def by simp
  then have n: "commit_of (op_ready out) = []" by (simp add: plain_def commit_of_def)
  show ?thesis
  proof (cases over)
    case True
    then show ?thesis using assms(1) p by (auto simp: pristine_def)
  next
    case False
    show ?thesis using refusals.flushed_keeps [OF i assms(3) assms(4) [unfolded False [THEN Eq_FalseI]]] assms(1,2) p n False
      by (auto simp: pristine_def)
  qed
qed

lemma windowed_flushed:
  assumes "windowed sv w0 c s" "\<not> st_over s" "ex_output (st_exchange s) = Some out"
    and "exchange_flushed (sv_serialize sv) (st_exchange s, st_shared s) = Inr (over, ex, sh)"
  shows "\<exists>c'. windowed sv w0 c' (s\<lparr>st_exchange := ex, st_shared := sh, st_flushed := st_flushed s @ [op_ready out], st_over := over\<rparr>)"
proof -
  let ?ser = "sv_serialize sv"
  have i: "ex_inv (next_ready ?ser w0 c) (set (st_replies s)) (st_exchange s) (sh_queue (st_shared s))"
    and w: "worker_at w0 c (st_exchange s) (sh_queue (st_shared s)) (st_worker s)"
    and o': "opened_window sv w0" "chained ?ser w0 0 (st_flushed s) c"
    using assms(1,2) by (simp_all add: windowed_def)
  have "next_ready ?ser w0 c (op_ready out)" using i assms(3) unfolding ex_inv_def by simp
  then consider (plain) "plain ?ser (op_ready out)" | (paged) to where "paged ?ser w0 c to (op_ready out)"
    unfolding next_ready_def by blast
  then obtain c' where c: "chained ?ser w0 0 (st_flushed s @ [op_ready out]) c'"
      "commit_of (op_ready out) = [] \<and> c' = c \<or> commit_of (op_ready out) = [Commit c c'] \<and> c \<le> c' \<and> c' \<le> length (wn_items w0)"
  proof cases
    case plain
    moreover have "commit_of (op_ready out) = []" using plain by (simp add: plain_def commit_of_def)
    ultimately show ?thesis using that [of c] chained_plain [OF o'(2)] by blast
  next
    case paged
    moreover have "commit_of (op_ready out) = [Commit c to]" "c \<le> to" "to \<le> length (wn_items w0)"
      using paged by (simp_all add: paged_def commit_of_def)
    ultimately show ?thesis using that [of to] chained_paged [OF o'(2)] by blast
  qed
  show ?thesis
  proof (cases over)
    case True
    then show ?thesis using o'(1) c(1) by (intro exI [of _ c']) (simp add: windowed_def)
  next
    case False
    obtain js where q: "sh_queue sh = sh_queue (st_shared s) @ commit_of (op_ready out) @ map Execute js"
        "ex_inv (next_ready ?ser w0 c') (set (st_replies s)) ex (sh_queue sh)"
        "ex_opened (st_exchange s) \<longrightarrow> ex_opened ex \<and> (\<forall>j \<in> set js. \<not> is_open j)"
      using pages.flushed_keeps [OF i assms(3) assms(4) [unfolded False [THEN Eq_FalseI]]] by blast
    have "moves n k (commits (sh_queue (st_shared s))) c \<Longrightarrow> n = length (wn_items w0) \<Longrightarrow> moves n k (commits (sh_queue sh)) c'" for n k
      using c(2) q(1) moves_snoc [of n k "commits (sh_queue (st_shared s))" c c'] by auto
    then have "worker_at w0 c' ex (sh_queue sh) (st_worker s)"
      using w q(1,3) unfolding worker_at_def by auto
    then show ?thesis using o'(1) c(1) q(2) by (intro exI [of _ c']) (simp add: windowed_def)
  qed
qed

text \<open>A command of the worker: the state that it leads to.\<close>

definition commanded :: "SessionState \<Rightarrow> Command list \<Rightarrow> Worker \<Rightarrow> (nat \<times> (string + Ready)) option \<Rightarrow> SessionState" where
  "commanded s q wk reply = s\<lparr>st_shared := (st_shared s)\<lparr>sh_queue := q\<rparr>, st_worker := wk,
     st_replies := st_replies s @ (case reply of None \<Rightarrow> [] | Some r \<Rightarrow> [r])\<rparr>"

lemma commanded_sel [simp]:
  "st_exchange (commanded s q wk reply) = st_exchange s" "st_flushed (commanded s q wk reply) = st_flushed s"
  "st_over (commanded s q wk reply) = st_over s" "sh_queue (st_shared (commanded s q wk reply)) = q"
  "st_worker (commanded s q wk reply) = wk"
  "set (st_replies (commanded s q wk None)) = set (st_replies s)"
  "set (st_replies (commanded s q wk (Some r))) = insert r (set (st_replies s))"
  by (simp_all add: commanded_def)

lemma page_of_None: "page_of sv None r \<Longrightarrow> plain (sv_serialize sv) r"
  by (simp add: page_of_def)

lemma page_of_Some:
  "page_of sv (Some w) r \<Longrightarrow> w = w0\<lparr>wn_cursor := k\<rparr> \<Longrightarrow> k \<le> length (wn_items w0) \<Longrightarrow> next_ready (sv_serialize sv) w0 k r"
  by (auto simp: page_of_def next_ready_def)

lemma pristine_command:
  assumes "pristine sv s" "\<not> st_over s" "wk_running (st_worker s)" "sh_queue (st_shared s) = command # q"
    and "worker_command sv (st_worker s) command now later cancelled env late = Some (wk, reply)"
  shows "session_inv sv (commanded s q wk reply)"
proof -
  have p: "\<forall>r \<in> set (st_flushed s). plain (sv_serialize sv) r"
      "ex_inv (plain (sv_serialize sv)) (set (st_replies s)) (st_exchange s) (command # q)"
      "commits (command # q) = []" "wk_window (st_worker s) = None"
    using assms(1-4) by (simp_all add: pristine_def)
  show ?thesis
  proof (cases command)
    case (Execute job)
    obtain rep where r: "reply = Some (job_id job, rep)" "\<forall>r. rep = Inr r \<longrightarrow> page_of sv (wk_window wk) r"
        "window_next sv job None (wk_window wk)"
      using worker_command_Execute assms(5) p(4) Execute by metis
    note i = p(2) [unfolded Execute]
    show ?thesis
    proof (cases "wk_window wk")
      case None
      have "ex_inv (plain (sv_serialize sv)) (insert (job_id job, rep) (set (st_replies s))) (st_exchange s) q"
        by (rule ex_inv_execute [OF i]) (use r(2) None page_of_None in auto)
      then have "pristine sv (commanded s q wk reply)"
        using p(1,3) r(1) None Execute by (simp add: pristine_def)
      then show ?thesis by (simp add: session_inv_def)
    next
      case (Some w)
      then have w: "is_open job" "opened_window sv w" using r(3) by (auto simp: window_next_def)
      have c: "w = w\<lparr>wn_cursor := 0\<rparr>" using opened_window_cursor [OF w(2)] by simp
      have "ex_inv (next_ready (sv_serialize sv) w 0) (set (st_replies s)) (st_exchange s) (Execute job # q)"
        by (rule ex_inv_mono [OF i]) (simp add: next_ready_def)
      then have "ex_inv (next_ready (sv_serialize sv) w 0) (insert (job_id job, rep) (set (st_replies s))) (st_exchange s) q"
        by (rule ex_inv_execute) (use r(2) Some page_of_Some [OF _ c] in auto)
      moreover have "worker_at w 0 (st_exchange s) q wk"
        using i w p(3) Some opened_window_cursor [OF w(2)] unfolding worker_at_def ex_inv_def
        by (auto simp: Execute filter_empty_conv split: if_splits)
      ultimately have "windowed sv w 0 (commanded s q wk reply)"
        using p(1) w(2) r(1) by (simp add: windowed_def chained_refusals)
      then show ?thesis by (auto simp: session_inv_def)
    qed
  next
    case (Commit a b)
    then show ?thesis using p(3) by simp
  next
    case Shutdown
    then have "wk = (st_worker s)\<lparr>wk_running := False\<rparr>" "reply = None" using assms(5) by (auto simp: worker_command_def)
    then have "pristine sv (commanded s q wk reply)" using p(1) ex_inv_tail [OF p(2)] by (simp add: pristine_def)
    then show ?thesis by (simp add: session_inv_def)
  qed
qed

lemma windowed_command:
  assumes "windowed sv w0 c s" "\<not> st_over s" "wk_running (st_worker s)" "sh_queue (st_shared s) = command # q"
    and "worker_command sv (st_worker s) command now later cancelled env late = Some (wk, reply)"
  shows "windowed sv w0 c (commanded s q wk reply)"
proof -
  let ?P = "next_ready (sv_serialize sv) w0 c" and ?R = "set (st_replies s)" and ?ex = "st_exchange s"
  have o': "opened_window sv w0" "chained (sv_serialize sv) w0 0 (st_flushed s) c"
    and i: "ex_inv ?P ?R ?ex (command # q)" and at: "worker_at w0 c ?ex (command # q) (st_worker s)"
    using assms(1,2,4) by (simp_all add: windowed_def)
  have w: "ex_opened ?ex" "\<forall>j \<in> set (jobs (command # q)). \<not> is_open j"
      "\<And>w. wk_window (st_worker s) = Some w \<Longrightarrow> w = w0\<lparr>wn_cursor := wn_cursor w\<rparr> \<and>
         moves (length (wn_items w0)) (wn_cursor w) (commits (command # q)) c"
    using at assms(3) unfolding worker_at_def by blast+
  have "ex_inv ?P (set (st_replies (commanded s q wk reply))) ?ex q \<and> worker_at w0 c ?ex q wk"
  proof (cases command)
    case (Execute job)
    obtain rep where r: "reply = Some (job_id job, rep)" "\<forall>r. rep = Inr r \<longrightarrow> page_of sv (wk_window wk) r"
        "window_next sv job (wk_window (st_worker s)) (wk_window wk)"
      using worker_command_Execute assms(5) Execute by metis
    have same: "wk_window wk = None \<or> wk_window wk = wk_window (st_worker s)"
      using r(3) w(2) Execute by (auto simp: window_next_def)
    have "ex_inv ?P (insert (job_id job, rep) ?R) ?ex q"
    proof (rule ex_inv_execute [OF i [unfolded Execute]])
      fix r'
      assume q: "q = []" "rep = Inr r'"
      show "?P r'"
      proof (cases "wk_window wk")
        case None
        then show ?thesis using r(2) q(2) page_of_None by (auto simp: next_ready_def)
      next
        case (Some w)
        then have v: "w = w0\<lparr>wn_cursor := wn_cursor w\<rparr>" "moves (length (wn_items w0)) (wn_cursor w) [] c"
          using same w(3) [of w] q(1) Execute by auto
        then show ?thesis using page_of_Some [OF _ v(1)] r(2) q(2) Some by auto
      qed
    qed
    moreover have "worker_at w0 c ?ex q wk"
      using same w Execute unfolding worker_at_def by auto
    ultimately show ?thesis using r(1) by simp
  next
    case (Commit a b)
    have "worker_at w0 c ?ex q wk"
      unfolding worker_at_def
    proof (intro impI conjI allI)
      fix w'
      assume run: "wk_running wk" and w': "wk_window wk = Some w'"
      obtain v where "wk_window (st_worker s) = Some v" "wn_cursor v = a" "w' = v\<lparr>wn_cursor := b\<rparr>"
        using worker_command_Commit [OF assms(5) [unfolded Commit] run] w' by auto
      then have "v = w0\<lparr>wn_cursor := a\<rparr>" "w' = v\<lparr>wn_cursor := b\<rparr>" "moves (length (wn_items w0)) b (commits q) c"
        using w(3) [of v] Commit by simp_all
      then show "w' = w0\<lparr>wn_cursor := wn_cursor w'\<rparr>" "moves (length (wn_items w0)) (wn_cursor w') (commits q) c"
        by simp_all
    qed (use w Commit in auto)
    moreover have "reply = None"
      using assms(5) Commit by (auto simp: worker_command_def split: if_splits option.splits sum.splits)
    ultimately show ?thesis using ex_inv_tail [OF i] by simp
  next
    case Shutdown
    then have "wk = (st_worker s)\<lparr>wk_running := False\<rparr>" "reply = None" using assms(5) by (auto simp: worker_command_def)
    then show ?thesis using ex_inv_tail [OF i] by (simp add: worker_at_def)
  qed
  then show ?thesis using o' by (simp add: windowed_def)
qed

lemma session_inv_over:
  "session_inv sv s \<Longrightarrow> st_over s' \<Longrightarrow> st_flushed s' = st_flushed s \<Longrightarrow> session_inv sv s'"
  by (auto simp: session_inv_def pristine_def windowed_def)

lemma session_inv_worker:
  assumes "session_inv sv s" "\<not> wk_running wk" "sh_queue sh = sh_queue (st_shared s)"
  shows "session_inv sv (s\<lparr>st_worker := wk, st_shared := sh\<rparr>)"
  using assms by (auto simp: session_inv_def pristine_def windowed_def worker_at_def)

lemma session_inv_start:
  assumes "session_start s"
  shows "session_inv sv s"
proof -
  have e: "exchange_new = Inr (st_exchange s)" and s: "sh_queue (st_shared s) = []" "wk_window (st_worker s) = None"
      "st_replies s = []" "st_flushed s = []"
    using assms by (simp_all add: session_start_def)
  obtain input where "\<lparr>ex_input = input, ex_frame_started = None, ex_opened = False, ex_last_id = 0,
      ex_completed_id = None, ex_expires = None, ex_active = None, ex_output = None, ex_deferred = None\<rparr> = st_exchange s"
    using e by (cases "frame_new MAX_CLIENT_FRAME_BYTES") (simp_all add: exchange_new_def)
  note this [symmetric]
  then have "pristine sv s" using s by (simp add: pristine_def ex_inv_def)
  then show ?thesis by (simp add: session_inv_def)
qed

lemma quiet_moveI:
  "exchange_consume (sv_serialize sv) parse chunk (st_exchange s, st_shared s) = Inr (ex, sh) \<Longrightarrow> quiet_move sv parse s ex sh"
  "ex_output (st_exchange s) = None \<Longrightarrow> ex_active (st_exchange s) = Some a \<Longrightarrow> (ac_id a, reply) \<in> set (st_replies s) \<Longrightarrow>
   exchange_received (sv_serialize sv) reply (st_exchange s, st_shared s) = Inr (ex, sh) \<Longrightarrow> quiet_move sv parse s ex sh"
  "ex_output (st_exchange s) = Some out \<Longrightarrow>
   quiet_move sv parse s ((st_exchange s)\<lparr>ex_output := Some (out\<lparr>op_cursor := k\<rparr>)\<rparr>) (st_shared s)"
  "exchange_timed_out (st_exchange s, st_shared s) = Inr (ex, sh) \<Longrightarrow> quiet_move sv parse s ex sh"
  unfolding quiet_move_def by blast+

theorem session_inv_step:
  assumes "session_step sv parse s s'" "session_inv sv s"
  shows "session_inv sv s'"
proof -
  have quiet: "session_inv sv (s\<lparr>st_exchange := ex, st_shared := sh\<rparr>)" if "quiet_move sv parse s ex sh" "\<not> st_over s" for ex sh
    using assms(2) that pristine_quiet windowed_quiet by (meson session_inv_def)
  show ?thesis
    using assms(1)
  proof cases
    case (step_input chunk ex sh)
    show ?thesis unfolding step_input(1) by (rule quiet [OF quiet_moveI(1) [OF step_input(3)] step_input(2)])
  next
    case (step_received active reply ex sh)
    show ?thesis unfolding step_received(1) by (rule quiet [OF quiet_moveI(2) [OF step_received(3-6)] step_received(2)])
  next
    case (step_wrote output' count)
    show ?thesis using quiet [OF quiet_moveI(3) [OF step_wrote(3)] step_wrote(2)] step_wrote(1) by simp
  next
    case (step_flushed output' over ex sh)
    then show ?thesis using assms(2) pristine_flushed windowed_flushed unfolding session_inv_def by meson
  next
    case (step_timed_out ex sh)
    show ?thesis unfolding step_timed_out(1) by (rule quiet [OF quiet_moveI(4) [OF step_timed_out(3)] step_timed_out(2)])
  next
    case (step_expired env ready env')
    have "plain (sv_serialize sv) ready"
      using step_expired(3) by (auto simp: exchange_expire_def split: if_splits intro: outcome_plain)
    then show ?thesis using assms(2) step_expired(1) chained_plain
      by (fastforce simp: session_inv_def pristine_def windowed_def)
  next
    case (step_command command queue cancelled now later env late wk reply)
    show ?thesis
    proof (cases "st_over s")
      case True
      then show ?thesis using session_inv_over [OF assms(2)] step_command(1) by simp
    next
      case False
      have "session_inv sv (commanded s queue wk reply)"
        using assms(2) pristine_command [OF _ False step_command(2,3,5)] windowed_command [OF _ False step_command(2,3,5)]
        unfolding session_inv_def by blast
      then show ?thesis using step_command(1) by (simp add: commanded_def)
    qed
  next
    case step_worker_timeout
    then show ?thesis using session_inv_worker [OF assms(2), of "(st_worker s)\<lparr>wk_running := False\<rparr>" "st_shared s"] by simp
  next
    case step_worker_gone
    then show ?thesis using session_inv_worker [OF assms(2), of "(st_worker s)\<lparr>wk_window := None\<rparr>"
      "(st_shared s)\<lparr>sh_connected := False\<rparr>"] by simp
  qed
qed

theorem session_inv_run:
  "(session_step sv parse)\<^sup>*\<^sup>* s0 s \<Longrightarrow> session_start s0 \<Longrightarrow> session_inv sv s"
  by (induction rule: rtranclp_induct) (auto intro: session_inv_start session_inv_step)

end
