(* ===== verification/SessionExample.thy ===== *)
theory SessionExample
  imports ExactExample SessionRun
begin

text \<open>
  A concrete session: the client opens a window over the raw search of \<open>ExactExample\<close>, the worker
  answers with the only page, and the page is written, flushed and committed.
\<close>

section \<open>The service\<close>

definition wx_state :: State where
  "wx_state = State_default\<lparr>s_version := 1, s_namespace := Some (replicate 16 3), s_next_sequence := 1,
     s_current := Some (pv_generation xs_view), s_current_revision := 1\<rparr>"

definition wx_json :: Json where
  "wx_json = \<lparr>state_to_vec = \<lambda>s. if s = wx_state then Some [1] else None,
     state_from_slice = \<lambda>bs. if bs = [1] then Some wx_state else None,
     retired_to_vec = \<lambda>_. None, retired_from_slice = \<lambda>_. None\<rparr>"

definition wx_open :: OpenFrame where
  "wx_open = \<lparr>of_request_id = 1, of_remaining_ms = 1000, of_query = QRaw xs_raw, of_page_size = 4, of_ttl_ms = 60000\<rparr>"

definition wx_window :: Window where
  "wx_window = \<lparr>wn_view = xs_view, wn_expires = 60000,
     wn_items = [WRaw (raw_match [99, 100] (citation Artifact.ex_source) (3, 5))],
     wn_summary = \<lparr>ws_generation = 1, ws_retained_items = 1, ws_found_matches = Some 1, ws_scan_complete = Some True,
       ws_complete_negative = Some False, ws_result_stop = Complete\<rparr>, wn_cursor = 0\<rparr>"

definition wx_reply :: SessionReply where
  "wx_reply = page_reply 1 (original_page wx_window 0 1 Complete)"

definition wx_serialize :: "SessionReply serializer" where
  "wx_serialize v = ([[123], [125]], v = wx_reply)"

definition wx_read :: "bytes \<Rightarrow> SessionReply option" where
  "wx_read bs = (if bs = [123, 125] then Some wx_reply else None)"

definition wx_service :: Service where
  "wx_service = \<lparr>sv_blake3 = Artifact.ex_hash, sv_files = xs_files, sv_root = [], sv_json = wx_json,
     sv_control = pv_transaction xs_view, sv_open_plain = Inr, sv_backend = None, sv_serialize = wx_serialize\<rparr>"

definition wx_parse :: "bytes \<Rightarrow> SessionClientFrame option" where
  "wx_parse bs = (if bs = [7] then Some (SOpen wx_open) else None)"

lemma wx_json_reads: "json_reads (sv_serialize wx_service) wx_read"
  by (simp add: json_reads_def wx_service_def wx_serialize_def wx_read_def)

lemma wx_read_state: "read_state wx_json (pv_transaction xs_view) [] = Inr (wx_state, [])"
proof -
  have "decode_state wx_json [1] = Inr wx_state"
    by (simp add: decode_state_def wx_json_def wx_state_def state_generations_def generation_sane_def xs_view_def
        State_default_def MAX_SOURCES_def MAX_POINTS_def)
  then show ?thesis
    by (simp add: read_state_def xs_view_def get_table_def SOURCES_def STATE_def r_get_def tbl_get_def)
qed

lemma wx_current: "s_current wx_state = Some (pv_generation xs_view)"
  by (simp add: wx_state_def)

lemma wx_pinned: "pin_published wx_json (pv_transaction xs_view) [] = Inr (xs_view, [])"
  using wx_read_state wx_current
  by (simp add: pin_published_def r_open_def) (simp add: xs_view_def get_table_def SOURCES_def STATE_def EVIDENCE_def PAGES_def)

lemma wx_opened: "window_open wx_service (QRaw xs_raw) 60000 [] = Some (Inr (wx_window, []))"
  using wx_pinned xs_raw_run xs_raw_answer xs_raw_valid
  by (simp add: window_open_def window_results_def wx_service_def wx_window_def Let_def bindO_def try_from_def)
    (simp add: xs_view_def)

section \<open>The run\<close>

definition wx_idle :: Exchange where
  "wx_idle = \<lparr>ex_input = \<lparr>fb_prefix = [0, 0, 0, 0], fb_prefix_used = 0, fb_bytes = [], fb_used = 0,
       fb_maximum = MAX_CLIENT_FRAME_BYTES\<rparr>, ex_frame_started = None, ex_opened = False, ex_last_id = 0,
     ex_completed_id = None, ex_expires = None, ex_active = None, ex_output = None, ex_deferred = None\<rparr>"

definition wx_shared :: Shared where
  "wx_shared = \<lparr>sh_queue = [], sh_connected = True, sh_cancelled = [], sh_clock = [], sh_env = []\<rparr>"

definition wx_job :: Job where
  "wx_job = \<lparr>jb_message = SOpen wx_open, jb_deadline = 1000, jb_expires = Some 60000\<rparr>"

definition wx_ready :: Ready where
  "wx_ready = \<lparr>rd_bytes = [2, 0, 0, 0, 123, 125], rd_commit = Some (0, 1), rd_end = False\<rparr>"

definition wx_working :: Exchange where
  "wx_working = wx_idle\<lparr>ex_opened := True, ex_last_id := 1, ex_expires := Some 60000,
     ex_active := Some \<lparr>ac_id = 1, ac_deadline = 1000, ac_stopped = None, ac_cleanup = None\<rparr>\<rparr>"

definition wx_writing :: "nat \<Rightarrow> Exchange" where
  "wx_writing k = wx_working\<lparr>ex_active := None,
     ex_output := Some \<lparr>op_id = 1, op_ready = wx_ready, op_cursor = k, op_deadline = 1000\<rparr>\<rparr>"

definition wx_done :: Exchange where
  "wx_done = wx_working\<lparr>ex_active := None, ex_completed_id := Some 1\<rparr>"

definition wx_start :: SessionState where
  "wx_start = \<lparr>st_exchange = wx_idle, st_shared = wx_shared,
     st_worker = \<lparr>wk_window = None, wk_expires = None, wk_running = True\<rparr>, st_replies = [], st_flushed = [], st_over = False\<rparr>"

definition wx_serving :: SessionState where
  "wx_serving = wx_start\<lparr>st_exchange := wx_working,
     st_worker := \<lparr>wk_window = Some wx_window, wk_expires = Some 60000, wk_running = True\<rparr>, st_replies := [(1, Inr wx_ready)]\<rparr>"

definition wx_flushed :: SessionState where
  "wx_flushed = wx_serving\<lparr>st_exchange := wx_done, st_shared := wx_shared\<lparr>sh_queue := [Commit 0 1]\<rparr>, st_flushed := [wx_ready]\<rparr>"

lemma wx_fresh: "frame_new MAX_CLIENT_FRAME_BYTES = Inr (ex_input wx_idle)"
proof -
  have "replicate 4 (0 :: 8 word) = [0, 0, 0, 0]" by (simp add: numeral_eq_Suc)
  then show ?thesis
    by (simp add: wx_idle_def frame_new_def FRAME_PREFIX_BYTES_def MAX_FRAME_BYTES_def MAX_CLIENT_FRAME_BYTES_def MAX_QUERY_BYTES_def)
qed

lemma wx_new: "exchange_new = Inr wx_idle"
  using wx_fresh by (simp add: exchange_new_def) (simp add: wx_idle_def)

lemma wx_message: "decode_session_frame wx_parse [1, 0, 0, 0, 7] = Inr (SOpen wx_open)"
proof -
  have "session_frame_validate (SOpen wx_open) = Inr ()"
    using xs_raw_valid by (simp add: session_frame_validate_def wx_open_def validate_page_size_def guardE_def
      MAX_ITEMS_def MAX_WINDOW_TTL_MS_def MAX_REMAINING_MS_def)
  then show ?thesis
    by (simp add: decode_session_frame_def frame_decode_def wx_parse_def MAX_CLIENT_FRAME_BYTES_def get_range_def
      FRAME_PREFIX_BYTES_def try_from_def checked_add64_def)
qed

lemma wx_input:
  "exchange_consume wx_serialize wx_parse [1, 0, 0, 0, 7] (wx_idle, wx_shared) =
     Inr (wx_working, wx_shared\<lparr>sh_queue := [Execute wx_job]\<rparr>)"
proof -
  have p: "frame_push (ex_input wx_idle) [1, 0, 0, 0, 7] [] = (Inr (5, []), \<lparr>fb_prefix = [1, 0, 0, 0], fb_prefix_used = 4,
      fb_bytes = [1, 0, 0, 0, 7], fb_used = 5, fb_maximum = MAX_CLIENT_FRAME_BYTES\<rparr>)"
    by (simp add: wx_idle_def frame_push_def declared_length_def push_body_def copy_at_def FRAME_PREFIX_BYTES_def
        try_from_def checked_add64_def MAX_CLIENT_FRAME_BYTES_def)
  have a: "exchange_accept wx_serialize (SOpen wx_open) 0 (wx_idle, wx_shared) =
      Inr (wx_working, wx_shared\<lparr>sh_queue := [Execute wx_job]\<rparr>)"
    by (simp add: exchange_accept_def accept_idle_def start_request_def dispatch_def Let_def wx_idle_def wx_shared_def
        wx_working_def wx_job_def wx_open_def clock_now_def instant_add_def instant_bound_def send_command_def)
  show ?thesis
    using p a wx_fresh wx_message
    by (simp add: exchange_consume.simps frame_is_empty_def frame_frame_def frame_is_complete_def clock_now_def Let_def)
       (simp add: wx_idle_def wx_shared_def exchange_consume.simps Let_def frame_frame_def frame_is_complete_def)
qed

lemma wx_item_valid: "raw_item_validate (raw_match [99, 100] (citation Artifact.ex_source) (3, 5)) = Inr ()"
proof -
  have c: "ca_source xs_captured = Artifact.ex_source" by (simp add: xs_captured_def)
  have i: "intact xs_files [] xs_captured"
    using xs_content by (simp add: intact_def c) (simp add: Artifact.ex_source_def Artifact.ex_text_def object_source_def)
  have m: "raw_match [99, 100] (citation Artifact.ex_source) (3, 5) \<in> set (raw_items xs_files [] [99, 100] xs_captured)"
    using xs_content xs_occurrences by (simp add: raw_items_def c)
  show ?thesis by (rule raw_items_valid(1) [OF xs_citable i _ _ m]) (simp_all add: MAX_QUERY_BYTES_def)
qed

lemma wx_reply_valid: "session_reply_validate wx_reply = Inr ()"
  using wx_item_valid
  by (simp add: session_reply_validate_def wx_reply_def page_reply_def page_validate_def original_page_def wx_window_def
      validate_window_id_def MAX_ITEMS_def Let_def)

lemma wx_encoded: "encode_session_reply wx_serialize wx_reply [] = Inr ([2, 0, 0, 0, 123, 125], [])"
proof -
  have "frame_encode wx_serialize wx_reply MAX_FRAME_BYTES [] = Inr (framed [123, 125], [])"
    by (subst frame_encode_quiet) (simp_all add: wx_serialize_def wire_size_def MAX_FRAME_BYTES_def)
  then show ?thesis by (simp add: encode_session_reply_def wx_reply_valid ex_framed)
qed

lemma wx_page: "worker_page wx_service (Some wx_window) wx_job 4 [] = Inr (wx_ready, [])"
proof -
  have p: "\<lparr>wp_window_id = SESSION_WINDOW_ID, wp_summary = wn_summary wx_window, wp_start_index = 0, wp_next_index = 1,
      wp_items = [\<lparr>we_item_index = 0, we_item = WRaw (raw_match [99, 100] (citation Artifact.ex_source) (3, 5))\<rparr>],
      wp_has_more = False, wp_page_stop = Complete\<rparr> = original_page wx_window 0 1 Complete"
    by (simp add: original_page_def wx_window_def)
  have f: "page_fit wx_serialize 1 (original_page wx_window 0 1 Complete) [] =
      Inr (([2, 0, 0, 0, 123, 125], original_page wx_window 0 1 Complete), [])"
    using wx_encoded by (subst page_fit.simps) (simp add: encode_attempt_def wx_reply_def)
  have w: "wn_cursor wx_window = 0" "wn_items wx_window = [WRaw (raw_match [99, 100] (citation Artifact.ex_source) (3, 5))]"
    by (simp_all add: wx_window_def)
  have n: "wp_next_index (original_page wx_window 0 1 Complete) = 1" by (simp add: original_page_def)
  have "window_page wx_serialize wx_window 1 4 [] =
      Inr (\<lparr>pp_bytes = [2, 0, 0, 0, 123, 125], pp_expected_cursor = 0, pp_next_cursor = 1\<rparr>, [])"
    unfolding window_page_def using f p w n by (simp add: Let_def try_from_def)
  then show ?thesis
    by (simp add: worker_page_def wx_service_def wx_job_def wx_open_def wx_ready_def)
qed

lemma wx_served:
  "worker_command wx_service (st_worker wx_start) (Execute wx_job) 0 0 False [] [] =
     Some (st_worker wx_serving, Some (1, Inr wx_ready))"
proof -
  have e: "worker_execute wx_service None wx_job [] = Some (Inr (wx_ready, []), Some wx_window)"
    using wx_opened wx_page by (simp add: worker_execute_def wx_job_def wx_open_def)
  have j: "jb_expires wx_job = Some 60000" "job_id wx_job = 1" by (simp_all add: wx_job_def wx_open_def)
  have r: "job_reply wx_service wx_job False False [] (Inr (wx_ready, [])) = Inr wx_ready"
    by (simp add: job_reply_def Let_def)
  have s: "st_worker wx_start = \<lparr>wk_window = None, wk_expires = None, wk_running = True\<rparr>" "\<not> rd_end wx_ready"
      "st_worker wx_serving = \<lparr>wk_window = Some wx_window, wk_expires = Some 60000, wk_running = True\<rparr>"
    by (simp_all add: wx_start_def wx_serving_def wx_ready_def)
  show ?thesis
    using e r by (simp add: worker_command_def s j expired_def Let_def)
qed

lemma wx_service_simps: "sv_serialize wx_service = wx_serialize"
  by (simp add: wx_service_def)

lemma wx_received:
  "exchange_received wx_serialize (Inr wx_ready) (wx_working, wx_shared) = Inr (wx_writing 0, wx_shared)"
  by (simp add: exchange_received_def wx_working_def wx_writing_def)

lemma wx_flush:
  "exchange_flushed wx_serialize (wx_writing 6, wx_shared) = Inr (False, wx_done, wx_shared\<lparr>sh_queue := [Commit 0 1]\<rparr>)"
  by (simp add: exchange_flushed_def take_deferred_def wx_writing_def wx_done_def wx_working_def wx_idle_def wx_ready_def
      wx_shared_def send_command_def Let_def)

lemma wx_started: "session_start wx_start"
  by (simp add: session_start_def wx_start_def wx_new) (simp add: wx_shared_def)

definition wx_at :: "Exchange \<Rightarrow> SessionState" where
  "wx_at ex = wx_serving\<lparr>st_exchange := ex\<rparr>"

lemma wx_at_simps [simp]:
  "st_exchange (wx_at ex) = ex" "st_shared (wx_at ex) = wx_shared" "\<not> st_over (wx_at ex)"
  "st_replies (wx_at ex) = [(1, Inr wx_ready)]" "st_flushed (wx_at ex) = []" "(wx_at ex)\<lparr>st_exchange := ex'\<rparr> = wx_at ex'"
  "(wx_at ex)\<lparr>st_shared := wx_shared\<rparr> = wx_at ex"
  by (simp_all add: wx_at_def wx_serving_def wx_start_def)

lemma wx_steps:
  "session_step wx_service wx_parse wx_start (wx_start\<lparr>st_exchange := wx_working, st_shared := wx_shared\<lparr>sh_queue := [Execute wx_job]\<rparr>\<rparr>)"
  "session_step wx_service wx_parse
     (wx_start\<lparr>st_exchange := wx_working, st_shared := wx_shared\<lparr>sh_queue := [Execute wx_job]\<rparr>\<rparr>) (wx_at wx_working)"
  "session_step wx_service wx_parse (wx_at wx_working) (wx_at (wx_writing 0))"
  "session_step wx_service wx_parse (wx_at (wx_writing 0)) (wx_at (wx_writing 4))"
  "session_step wx_service wx_parse (wx_at (wx_writing 4)) (wx_at (wx_writing 6))"
  "session_step wx_service wx_parse (wx_at (wx_writing 6)) wx_flushed"
proof -
  show "session_step wx_service wx_parse wx_start
      (wx_start\<lparr>st_exchange := wx_working, st_shared := wx_shared\<lparr>sh_queue := [Execute wx_job]\<rparr>\<rparr>)"
    by (rule step_input [of _ _ _ "[1, 0, 0, 0, 7]"]) (use wx_input in \<open>simp_all add: wx_start_def wx_service_simps\<close>)
  let ?s = "wx_start\<lparr>st_exchange := wx_working, st_shared := wx_shared\<lparr>sh_queue := [Execute wx_job]\<rparr>\<rparr>"
  have "session_step wx_service wx_parse ?s (?s\<lparr>st_shared := (st_shared ?s)\<lparr>sh_queue := []\<rparr>, st_worker := st_worker wx_serving,
      st_replies := st_replies ?s @ (case Some (1, Inr wx_ready) of None \<Rightarrow> [] | Some r \<Rightarrow> [r])\<rparr>)"
    by (rule step_command [of _ "Execute wx_job" _ False _ 0 0 "[]" "[]"])
      (use wx_served in \<open>simp_all add: wx_start_def wx_shared_def\<close>)
  then show "session_step wx_service wx_parse ?s (wx_at wx_working)"
    by (simp add: wx_at_def wx_serving_def wx_start_def wx_shared_def)
  have k: "ex_output wx_working = None"
      "ex_active wx_working = Some \<lparr>ac_id = 1, ac_deadline = 1000, ac_stopped = None, ac_cleanup = None\<rparr>"
    by (simp_all add: wx_working_def wx_idle_def)
  show "session_step wx_service wx_parse (wx_at wx_working) (wx_at (wx_writing 0))"
    using step_received [of "wx_at wx_working" _ "Inr wx_ready" wx_service "wx_writing 0" wx_shared wx_parse] wx_received
    by (simp add: wx_service_simps k)
  have w: "ex_output (wx_writing k) = Some \<lparr>op_id = 1, op_ready = wx_ready, op_cursor = k, op_deadline = 1000\<rparr>"
    "(wx_writing k)\<lparr>ex_output := Some \<lparr>op_id = 1, op_ready = wx_ready, op_cursor = k', op_deadline = 1000\<rparr>\<rparr> = wx_writing k'" for k k'
    by (simp_all add: wx_writing_def)
  have l: "length (rd_bytes wx_ready) = 6" by (simp add: wx_ready_def)
  show "session_step wx_service wx_parse (wx_at (wx_writing 0)) (wx_at (wx_writing 4))"
    using step_wrote [of "wx_at (wx_writing 0)" _ 4 wx_service wx_parse] by (simp add: w l del: One_nat_def)
  show "session_step wx_service wx_parse (wx_at (wx_writing 4)) (wx_at (wx_writing 6))"
    using step_wrote [of "wx_at (wx_writing 4)" _ 2 wx_service wx_parse] by (simp add: w l del: One_nat_def)
  have "session_step wx_service wx_parse (wx_at (wx_writing 6)) ((wx_at (wx_writing 6))\<lparr>st_exchange := wx_done,
      st_shared := wx_shared\<lparr>sh_queue := [Commit 0 1]\<rparr>, st_flushed := [wx_ready], st_over := False\<rparr>)"
    using step_flushed [of "wx_at (wx_writing 6)" "\<lparr>op_id = 1, op_ready = wx_ready, op_cursor = 6, op_deadline = 1000\<rparr>"
      wx_service False wx_done "wx_shared\<lparr>sh_queue := [Commit 0 1]\<rparr>" wx_parse] wx_flush
    by (simp add: w l wx_service_simps)
  then show "session_step wx_service wx_parse (wx_at (wx_writing 6)) wx_flushed"
    by (simp add: wx_flushed_def wx_at_def wx_serving_def wx_start_def)
qed

lemma wx_run: "(session_step wx_service wx_parse)\<^sup>*\<^sup>* wx_start wx_flushed"
proof -
  note step = converse_rtranclp_into_rtranclp [of "session_step wx_service wx_parse"]
  show ?thesis
    by (rule step, rule wx_steps(1), rule step, rule wx_steps(2), rule step, rule wx_steps(3), rule step, rule wx_steps(4),
        rule step, rule wx_steps(5), rule r_into_rtranclp, rule wx_steps(6))
qed

end
