(* ===== verification/SessionClaims.thy ===== *)
theory SessionClaims
  imports SessionExample
begin

text \<open>
  What a client of a session reads: the pages decoded from the flushed replies are consecutive
  pieces of the items of one window, whatever the client sends, however the writes are split, and
  wherever the worker, the clock and the deadlines interfere.
\<close>

section \<open>What the client reads\<close>

definition reply_pages :: "(bytes \<Rightarrow> SessionReply option) \<Rightarrow> Ready \<Rightarrow> WindowPage list" where
  "reply_pages parse r =
     (case decode_session_reply parse (rd_bytes r) of
        Inl _ \<Rightarrow> []
      | Inr reply \<Rightarrow> (case rp_outcome reply of SPage page \<Rightarrow> [page] | _ \<Rightarrow> []))"

definition session_pages :: "(bytes \<Rightarrow> SessionReply option) \<Rightarrow> SessionState \<Rightarrow> WindowPage list" where
  "session_pages parse s = concat (map (reply_pages parse) (st_flushed s))"

definition window_slice :: "Window \<Rightarrow> nat \<Rightarrow> nat \<Rightarrow> WindowEntry list" where
  "window_slice w from to = map (\<lambda>i. \<lparr>we_item_index = i, we_item = wn_items w ! i\<rparr>) [from..<to]"

lemma window_slice_append: "a \<le> b \<Longrightarrow> b \<le> c \<Longrightarrow> window_slice w a b @ window_slice w b c = window_slice w a c"
  unfolding window_slice_def map_append [symmetric] by (metis le_Suc_ex upt_add_eq_append)

lemma decode_encoded:
  "encode_session_reply ser reply env = Inr (f, env') \<Longrightarrow> json_reads ser parse \<Longrightarrow> decode_session_reply parse f = Inr reply"
  using frame_transport(2) [of ser reply MAX_FRAME_BYTES env f env' parse "[f]" "[]"]
  by (auto simp: encode_session_reply_def decode_session_reply_def res_simps MAX_FRAME_BYTES_def)

lemma reply_pages_plain: "plain ser r \<Longrightarrow> json_reads ser parse \<Longrightarrow> reply_pages parse r = []"
  by (auto simp: plain_def reply_pages_def decode_encoded split: SessionOutcome.splits)

lemma reply_pages_paged:
  "paged ser w a b r \<Longrightarrow> json_reads ser parse \<Longrightarrow> \<exists>stop. reply_pages parse r = [original_page w a b stop]"
  by (auto simp: paged_def reply_pages_def decode_encoded page_reply_def)

lemma chained_pages:
  assumes "chained ser w a rs b" "json_reads ser parse" "a \<le> length (wn_items w)"
  shows "a \<le> b \<and> b \<le> length (wn_items w) \<and>
    concat (map wp_items (concat (map (reply_pages parse) rs))) = window_slice w a b \<and>
    (\<forall>p \<in> set (concat (map (reply_pages parse) rs)). \<exists>from to stop. p = original_page w from to stop \<and> from \<le> to \<and> to \<le> b)"
  using assms(1,3)
proof (induction rs arbitrary: a)
  case Nil
  then show ?case by (simp add: window_slice_def)
next
  case (Cons r rs)
  then consider (plain) "plain ser r" "chained ser w a rs b" | (paged) to where "paged ser w a to r" "chained ser w to rs b"
    by auto
  then show ?case
  proof cases
    case plain
    then show ?thesis using Cons.IH [OF plain(2) Cons.prems(2)] reply_pages_plain [OF plain(1) assms(2)] by simp
  next
    case paged
    obtain stop where p: "reply_pages parse r = [original_page w a to stop]"
      using reply_pages_paged [OF paged(1) assms(2)] by blast
    have to: "a \<le> to" "to \<le> length (wn_items w)" using paged(1) by (simp_all add: paged_def)
    note ih = Cons.IH [OF paged(2) to(2)]
    have "wp_items (original_page w a to stop) = window_slice w a to" by (simp add: original_page_def window_slice_def)
    then show ?thesis using ih p to window_slice_append [of a to b w] by auto
  qed
qed

lemma session_pages_refused:
  assumes "\<forall>r \<in> set (st_flushed s). plain ser r" "json_reads ser parse"
  shows "session_pages parse s = []"
  using assms reply_pages_plain by (fastforce simp: session_pages_def)

text \<open>
  C14: The pages of a session never skip or repeat an item. In every reachable state of a session,
  after any interleaving of input, worker steps, partial writes, cancellations, deadlines, expiry
  and a worker that stops, either the client has read no page, or there is one window that the
  worker opened such that the pages read so far, put together in the order they were flushed, are
  exactly the first \<open>k\<close> items of that window with their indices; each page carries the window's
  summary and its own range of indices, and announces more items exactly when its end is before the
  end of the window.
\<close>

theorem session_pages_contiguous:
  assumes "session_start s0" "(session_step sv parse)\<^sup>*\<^sup>* s0 s" "json_reads (sv_serialize sv) parse_reply"
  shows "session_pages parse_reply s = [] \<or>
    (\<exists>w k. opened_window sv w \<and> k \<le> length (wn_items w) \<and>
       concat (map wp_items (session_pages parse_reply s)) = window_slice w 0 k \<and>
       (\<forall>p \<in> set (session_pages parse_reply s). wp_summary p = wn_summary w \<and>
          wp_items p = window_slice w (wp_start_index p) (wp_next_index p) \<and> wp_next_index p \<le> k \<and>
          wp_has_more p = (wp_next_index p < length (wn_items w))))"
proof -
  have "session_inv sv s" by (rule session_inv_run [OF assms(2,1)])
  then consider "pristine sv s" | w c where "windowed sv w c s" by (auto simp: session_inv_def)
  then show ?thesis
  proof cases
    case 1
    then show ?thesis using session_pages_refused assms(3) by (auto simp: pristine_def)
  next
    case 2
    then have w: "opened_window sv w" "chained (sv_serialize sv) w 0 (st_flushed s) c" by (simp_all add: windowed_def)
    note c = chained_pages [OF w(2) assms(3) le0]
    have "\<forall>p \<in> set (session_pages parse_reply s). wp_summary p = wn_summary w \<and>
          wp_items p = window_slice w (wp_start_index p) (wp_next_index p) \<and> wp_next_index p \<le> c \<and>
          wp_has_more p = (wp_next_index p < length (wn_items w))"
      using c unfolding session_pages_def by (fastforce simp: original_page_def window_slice_def)
    then show ?thesis using c w(1) unfolding session_pages_def by blast
  qed
qed

lemma wx_pages: "session_pages wx_read wx_flushed = [original_page wx_window 0 1 Complete]"
proof -
  have "decode_session_reply wx_read [2, 0, 0, 0, 123, 125] = Inr wx_reply"
    using decode_encoded [OF wx_encoded] wx_json_reads by (simp add: wx_service_simps)
  then show ?thesis
    by (simp add: session_pages_def wx_flushed_def reply_pages_def wx_ready_def) (simp add: wx_reply_def page_reply_def)
qed

theorem session_pages_contiguous_witness:
  "session_start wx_start \<and> (session_step wx_service wx_parse)\<^sup>*\<^sup>* wx_start wx_flushed \<and>
   json_reads (sv_serialize wx_service) wx_read \<and>
   session_pages wx_read wx_flushed = [original_page wx_window 0 1 Complete] \<and>
   (\<exists>w k. opened_window wx_service w \<and> k \<le> length (wn_items w) \<and>
      concat (map wp_items (session_pages wx_read wx_flushed)) = window_slice w 0 k)"
  using session_pages_contiguous [OF wx_started wx_run wx_json_reads] wx_started wx_run wx_json_reads wx_pages
  by auto

end
