(* ===== verification/Expansion.thy ===== *)
theory Expansion
  imports SessionExample
begin

text \<open>
  What an expansion shows (\<open>window/expand.rs\<close>): the bytes around an emitted item, cut from the
  same verified content of the same captured source that the item was found in.
\<close>

section \<open>The bytes of an expansion\<close>

definition piece :: "bytes \<Rightarrow> nat \<Rightarrow> nat \<Rightarrow> bytes" where
  "piece bs i j = take (j - i) (drop i bs)"

text \<open>A raw item is shown in hexadecimal, the others as text.\<close>

definition shown :: "Anchor \<Rightarrow> bytes \<Rightarrow> bytes" where
  "shown an bs = (if an_prepared an = None then as_bytes (hex_encode bs) else bs)"

definition shown_content :: "Anchor \<Rightarrow> bytes \<Rightarrow> ExpansionContent" where
  "shown_content an bs = (if an_prepared an = None then XRaw (hex_encode bs) else XUtf8 bs)"

lemma get_range_piece: "get_range bs i j = Some p \<Longrightarrow> p = piece bs i j \<and> i \<le> j \<and> j \<le> length bs"
  by (auto simp: get_range_def piece_def split: if_splits)

lemma str_get_piece: "str_get bs i j = Some p \<Longrightarrow> p = piece bs i j \<and> i \<le> j \<and> j \<le> length bs"
  by (auto simp: str_get_def piece_def is_char_boundary_def split: if_splits)

lemma hex_Inr: "hex bs env = Inr (d, env') \<Longrightarrow> d = hex_encode bs"
  using interruptible_Inr [OF hex_search] by fastforce

lemma object_dto_Inr: "object_dto r env = Inr (d, env') \<Longrightarrow> d = dto_of r"
  using interruptible_Inr [OF object_dto_interruptible] by fastforce

lemma source_ref_Inr: "source_ref s env = Inr (d, env') \<Longrightarrow> d = citation s"
  using interruptible_Inr [OF source_ref_interruptible] by fastforce

lemma anchor_context_Inr:
  "anchor_context an before after = Inr (s, e) \<Longrightarrow>
   before \<le> an_start an \<and> s = an_start an - before \<and> e = an_end an + after \<and> e - s \<le> MAX_EXPANSION_BYTES \<and> an_start an < an_end an"
  by (auto simp: anchor_context_def res_simps checked_sub_def checked_add64_def try_from_def Option.bind_eq_Some_conv split: if_splits)

lemma expand_source_Inr:
  assumes "expand_source sv view i item before after env = Inr ((an, c, s, e, x), env')"
  shows "anchor_from_item item = Inr an \<and> before \<le> an_start an \<and> s = an_start an - before \<and> e = an_end an + after \<and>
    e - s \<le> MAX_EXPANSION_BYTES \<and> an_start an < an_end an \<and>
    (\<exists>u env1 env2. uuid_parse (an_id an) = Inr u \<and> view_source (sv_json sv) view u env1 = Inr (c, env2)) \<and>
    wx_source x = citation (ca_source c) \<and> wx_item_index x = i \<and> wx_representation_start x = s \<and> wx_representation_end x = e \<and>
    wx_prepared x = None \<and> (\<forall>r. an_source an = Some r \<longrightarrow> r = citation (ca_source c))"
  using assms unfolding expand_source_def
  by (auto simp: res_simps try_from_def dest!: anchor_context_Inr source_ref_Inr split: if_splits option.splits)

lemma expand_raw_Inr:
  assumes "expand_raw sv c an i j s e x env = Inr (x', env')"
  shows "\<exists>bs. source_content (sv_files sv) (sv_root sv) c = Some bs \<and> verified (sv_blake3 sv) (object_ref (ca_source c)) bs \<and>
    an_original an = as_bytes (hex_encode (piece bs i j)) \<and> e \<le> length bs \<and> x' = x\<lparr>wx_content := XRaw (hex_encode (piece bs s e))\<rparr>"
proof -
  obtain bs w where r: "read_object (sv_blake3 sv) (sv_root sv) (object_ref (ca_source c)) MAX_SOURCE_OBJECT_BYTES (sv_files sv, env) = (Inr bs, w)"
    using assms by (auto simp: expand_raw_def split: sum.splits prod.splits)
  have "reads (sv_files sv) (read_object (sv_blake3 sv) (sv_root sv) (object_ref (ca_source c)) MAX_SOURCE_OBJECT_BYTES) env = Inr (bs, snd w)"
    using r by (simp add: reads_def)
  from interruptible_Inr [OF read_object_interruptible this]
  have "object_content (sv_blake3 sv) (sv_files sv) (sv_root sv) (object_ref (ca_source c)) MAX_SOURCE_OBJECT_BYTES = Inr bs"
    using read_object_content [of MAX_SOURCE_OBJECT_BYTES] by (simp add: reads_def MAX_SOURCE_OBJECT_BYTES_def split: sum.splits)
  note b = object_content_at(1) [OF this]
  show ?thesis
    using assms b r unfolding expand_raw_def
    by (intro exI [of _ bs]) (auto simp: source_content_def res_simps dest!: get_range_piece hex_Inr split: if_splits prod.splits)
qed

lemma visit_Inr:
  assumes "visit_representation blake3 fs root c (expand_visit an i j s e expected) x env = Some (Inr ((None, x'), env'))"
  shows "\<exists>bs art. source_content fs root c = Some bs \<and> verified blake3 (object_ref (ca_source c)) bs \<and>
    an_original an = piece bs i j \<and> e \<le> length bs \<and> ready_artifact c = Some art \<and> dto_of art = expected \<and>
    x' = x\<lparr>wx_prepared := Some expected, wx_content := XUtf8 (piece bs s e)\<rparr>"
proof -
  obtain r env1 where r: "representation blake3 fs root c env = Inr (r, env1)"
    using assms by (cases "representation blake3 fs root c env") (auto simp: visit_representation_def)
  have q: "representation blake3 fs root c [] = Inr (r, [])"
    using interruptible_Inr [OF representation_interruptible r] .
  obtain art view where a: "r = Inr (art, view)"
    using assms r by (cases r) (auto simp: visit_representation_def)
  have t: "source_text fs root c = Inr (art, pu_text view)" "text_backed blake3 fs root c"
    using representation_source [OF q] a by simp_all
  then have b: "source_content fs root c = Some (pu_text view)" "ready_artifact c = Some art"
      "verified blake3 (object_ref (ca_source c)) (pu_text view)"
    by (auto simp: source_text_def text_backed_def split: option.splits if_splits)
  obtain env2 where "expand_visit an i j s e expected art view x env1 = Some (Inr (x', env2))"
    using assms r a by (auto simp: visit_representation_def bindO_Inr)
  then show ?thesis
    using b by (intro exI [of _ "pu_text view"] exI [of _ art])
      (auto simp: expand_visit_def res_simps dest!: object_dto_Inr str_get_piece split: if_splits)
qed

text \<open>
  C16: An expansion shows the surroundings of an item and nothing else. If \<open>Window::expand\<close> answers,
  the item was already emitted, the pinned generation has a captured source \<open>c\<close> with the identity
  that the item names and the expansion cites exactly that source, the stored content of the source
  exists and matches its hash, the item itself is exactly the content at the item's range, the
  expansion is exactly the content from \<open>before\<close> bytes before the item to \<open>after\<close> bytes after it
  (nothing was clipped or moved, and the end does not pass the end of the content), in the same form
  as the item (hexadecimal or text, with the same prepared artifact), within the limit, and the
  client's own validation accepts it.
\<close>

theorem expansion_exact:
  assumes "window_expand sv w i before after env = Some (Inr (x, env'))"
  shows "i < wn_cursor w \<and> i < length (wn_items w) \<and> expansion_validate x = Inr () \<and>
    (\<exists>an c u env1 env2 bs. anchor_from_item (wn_items w ! i) = Inr an \<and> uuid_parse (an_id an) = Inr u \<and>
       view_source (sv_json sv) (wn_view w) u env1 = Inr (c, env2) \<and>
       source_content (sv_files sv) (sv_root sv) c = Some bs \<and> verified (sv_blake3 sv) (object_ref (ca_source c)) bs \<and>
       before \<le> an_start an \<and> an_end an + after \<le> length bs \<and> before + (an_end an - an_start an) + after \<le> MAX_EXPANSION_BYTES \<and>
       an_original an = shown an (piece bs (an_start an) (an_end an)) \<and>
       wx_content x = shown_content an (piece bs (an_start an - before) (an_end an + after)) \<and>
       wx_item_index x = i \<and> wx_source x = citation (ca_source c) \<and> wx_prepared x = an_prepared an \<and>
       wx_representation_start x = an_start an - before \<and> wx_representation_end x = an_end an + after)"
proof -
  obtain item where item: "i < wn_cursor w" "nth_opt (wn_items w) i = Some item"
      "expand_execute sv (wn_view w) i item before after env = Some (Inr (x, env'))"
    using assms by (auto simp: window_expand_def split: if_splits option.splits)
  have it: "i < length (wn_items w)" "item = wn_items w ! i"
    using item(2) by (auto simp: nth_opt_def split: if_splits)
  obtain an c s e x0 env1 where q1: "expand_source sv (wn_view w) i item before after env = Inr ((an, c, s, e, x0), env1)"
    using item(3) by (cases "expand_source sv (wn_view w) i item before after env") (auto simp: expand_execute_def)
  obtain x1 env2 where q2: "expand_content sv c an s e x0 env1 = Some (Inr (x1, env2))"
    using item(3) q1 by (auto simp: expand_execute_def bindO_Inr)
  have q3: "expansion_validate x1 = Inr ()" "x = x1"
    using item(3) q1 q2 by (auto simp: expand_execute_def bindO_Inr res_simps)
  note src = expand_source_Inr [OF q1]
  have "\<exists>bs. source_content (sv_files sv) (sv_root sv) c = Some bs \<and> verified (sv_blake3 sv) (object_ref (ca_source c)) bs \<and>
      an_original an = shown an (piece bs (an_start an) (an_end an)) \<and> e \<le> length bs \<and>
      x = x0\<lparr>wx_prepared := an_prepared an, wx_content := shown_content an (piece bs s e)\<rparr>"
  proof (cases "an_prepared an")
    case None
    then have "expand_raw sv c an (an_start an) (an_end an) s e x0 env1 = Inr (x1, env2)" using q2 by (simp add: expand_content_def)
    from expand_raw_Inr [OF this] show ?thesis using None q3(2) src by (auto simp: shown_def shown_content_def)
  next
    case (Some expected)
    then have "visit_representation (sv_blake3 sv) (sv_files sv) (sv_root sv) c
        (expand_visit an (an_start an) (an_end an) s e expected) x0 env1 = Some (Inr ((None, x1), env2))"
      using q2 by (auto simp: expand_content_def bindO_Inr split: option.splits)
    from visit_Inr [OF this] show ?thesis using Some q3(2) by (auto simp: shown_def shown_content_def)
  qed
  then obtain bs where b: "source_content (sv_files sv) (sv_root sv) c = Some bs" "verified (sv_blake3 sv) (object_ref (ca_source c)) bs"
      "an_original an = shown an (piece bs (an_start an) (an_end an))" "e \<le> length bs"
      "x = x0\<lparr>wx_prepared := an_prepared an, wx_content := shown_content an (piece bs s e)\<rparr>"
    by blast
  have a: "anchor_from_item item = Inr an" "before \<le> an_start an" "s = an_start an - before" "e = an_end an + after"
      "e - s \<le> MAX_EXPANSION_BYTES" "an_start an < an_end an"
    using src by blast+
  obtain u env3 env4 where u: "uuid_parse (an_id an) = Inr u" "view_source (sv_json sv) (wn_view w) u env3 = Inr (c, env4)"
    using src by blast
  have f: "wx_item_index x = i" "wx_source x = citation (ca_source c)" "wx_prepared x = an_prepared an"
      "wx_representation_start x = an_start an - before" "wx_representation_end x = an_end an + after"
      "wx_content x = shown_content an (piece bs (an_start an - before) (an_end an + after))"
    using src b(5) a(3,4) by simp_all
  have m: "before + (an_end an - an_start an) + after \<le> MAX_EXPANSION_BYTES" using a(2-6) by arith
  have l: "an_end an + after \<le> length bs" using a(4) b(4) by simp
  have v: "expansion_validate x = Inr ()" using q3 by simp
  show ?thesis using item(1) it(1) v a(1) [unfolded it(2)] u b(1-3) a(2) l m f by blast
qed

section \<open>A concrete expansion\<close>

lemma wx_source: "view_source wx_json xs_view (replicate 16 2) [] = Inr (xs_captured, [])"
proof -
  obtain bs where bs: "encode_entry xs_entry = Inr bs" "decode_source bs = Inr xs_entry" using xs_encoded by blast
  have t: "get_table (pv_transaction xs_view) SOURCES = Some [(gen_key 1 (replicate 16 2), bs)]"
    using bs(1) by (simp add: xs_view_def get_table_def)
  have g: "g_sequence (pv_generation xs_view) = 1" by (simp add: xs_view_def)
  have e: "se_complete xs_entry" "se_captured xs_entry = xs_captured" "source_id (ca_source xs_captured) = replicate 16 2"
    by (simp_all add: xs_entry_def xs_captured_def Artifact.ex_source_def object_source_def)
  show ?thesis
    using bs(2) t wx_read_state wx_current e g by (simp add: view_source_def read_saved_source_def r_open_def r_get_def tbl_get_def)
qed

definition wx_read_window :: Window where
  "wx_read_window = wx_window\<lparr>wn_cursor := 1\<rparr>"

definition wx_expansion :: WindowExpansion where
  "wx_expansion = \<lparr>wx_window_id = SESSION_WINDOW_ID, wx_item_index = 0, wx_source = citation Artifact.ex_source,
     wx_prepared = None, wx_representation_start = 2, wx_representation_end = 7, wx_source_start = 2, wx_source_end = 7,
     wx_content = XRaw (hex_encode (piece Artifact.ex_text 2 7))\<rparr>"

definition wx_anchor :: Anchor where
  "wx_anchor = \<lparr>an_id = xs_id, an_namespace_id = rs_namespace_id (citation Artifact.ex_source),
     an_input = rs_input (citation Artifact.ex_source), an_source = Some (citation Artifact.ex_source), an_prepared = None,
     an_start = 3, an_end = 5, an_original = as_bytes (hex_encode [99, 100])\<rparr>"

lemma wx_anchored: "anchor_from_item (WRaw (raw_match [99, 100] (citation Artifact.ex_source) (3, 5))) = Inr wx_anchor"
  using xs_id_of by (simp add: raw_match_def wx_anchor_def citation_def)

lemma wx_uuid: "uuid_parse xs_id = Inr (replicate 16 2)"
  by code_simp

lemma wx_bytes: "od_bytes (rs_input (citation Artifact.ex_source)) = 8"
  by (simp add: citation_def dto_of_def Artifact.ex_source_def object_source_def)

lemma wx_sourced:
  "expand_source wx_service xs_view 0 (WRaw (raw_match [99, 100] (citation Artifact.ex_source) (3, 5))) 1 2 [] =
     Inr ((wx_anchor, xs_captured, 2, 7, wx_expansion\<lparr>wx_content := XRaw []\<rparr>), [])"
proof -
  have a: "an_start wx_anchor = 3" "an_end wx_anchor = 5" "an_id wx_anchor = xs_id" "an_source wx_anchor = Some (citation Artifact.ex_source)"
      "an_input wx_anchor = rs_input (citation Artifact.ex_source)" "an_namespace_id wx_anchor = rs_namespace_id (citation Artifact.ex_source)"
    by (simp_all add: wx_anchor_def)
  have "anchor_context wx_anchor 1 2 = Inr (2, 7)"
    by (simp add: anchor_context_def a wx_bytes checked_sub_def checked_add64_def try_from_def MAX_EXPANSION_BYTES_def)
  moreover have "ca_source xs_captured = Artifact.ex_source" by (simp add: xs_captured_def)
  moreover have "view_source (sv_json wx_service) xs_view (replicate 16 2) [] = Inr (xs_captured, [])"
    using wx_source by (simp add: wx_service_def)
  ultimately show ?thesis
    using wx_anchored wx_uuid by (simp add: expand_source_def a try_from_def) (simp add: wx_expansion_def)
qed

lemma wx_content_read: "expand_content wx_service xs_captured wx_anchor 2 7 (wx_expansion\<lparr>wx_content := XRaw []\<rparr>) [] = Some (Inr (wx_expansion, []))"
proof -
  have "read_object Artifact.ex_hash [] (object_ref Artifact.ex_source) MAX_SOURCE_OBJECT_BYTES (xs_files, []) = (Inr Artifact.ex_text, (xs_files, []))"
    using xs_objects(1) read_object_content [of MAX_SOURCE_OBJECT_BYTES Artifact.ex_hash "[]" "object_ref Artifact.ex_source" xs_files]
    by (simp add: MAX_SOURCE_OBJECT_BYTES_def)
  moreover have "get_range Artifact.ex_text 3 5 = Some [99, 100]" "get_range Artifact.ex_text 2 7 = Some (piece Artifact.ex_text 2 7)"
    by (simp_all add: get_range_def piece_def Artifact.ex_text_def)
  moreover have "ca_source xs_captured = Artifact.ex_source" by (simp add: xs_captured_def)
  ultimately show ?thesis
    by (simp add: expand_content_def expand_raw_def wx_service_def wx_anchor_def) (simp add: wx_expansion_def)
qed

lemma wx_expansion_valid: "expansion_validate wx_expansion = Inr ()"
proof -
  have "raw_source_validate (citation Artifact.ex_source) = Inr ()"
    using citable_citation [OF xs_citable] by (simp add: xs_captured_def)
  moreover have "length (piece Artifact.ex_text 2 7) = 5" by (simp add: piece_def Artifact.ex_text_def)
  then have "hex_spelling (hex_encode (piece Artifact.ex_text 2 7)) 10"
    using hex_encode_spelling [of "piece Artifact.ex_text 2 7"] by simp
  ultimately show ?thesis
    by (simp add: expansion_validate_def wx_expansion_def validate_window_id_def checked_sub_def MAX_EXPANSION_BYTES_def
        MAX_ITEMS_def wx_bytes)
qed

lemma wx_expanded: "window_expand wx_service wx_read_window 0 1 2 [] = Some (Inr (wx_expansion, []))"
proof -
  have "wn_view wx_read_window = xs_view" "wn_cursor wx_read_window = 1"
      "nth_opt (wn_items wx_read_window) 0 = Some (WRaw (raw_match [99, 100] (citation Artifact.ex_source) (3, 5)))"
    by (simp_all add: wx_read_window_def wx_window_def nth_opt_def)
  then show ?thesis
    using wx_sourced wx_content_read wx_expansion_valid by (simp add: window_expand_def expand_execute_def bindO_def)
qed

theorem expansion_exact_witness:
  "window_expand wx_service wx_read_window 0 1 2 [] = Some (Inr (wx_expansion, [])) \<and>
   wx_content wx_expansion = XRaw (hex_encode (piece Artifact.ex_text 2 7)) \<and>
   wx_source wx_expansion = citation Artifact.ex_source \<and> expansion_validate wx_expansion = Inr ()"
proof -
  have "expansion_validate wx_expansion = Inr ()" using expansion_exact [OF wx_expanded] by blast
  then show ?thesis using wx_expanded by (simp add: wx_expansion_def)
qed

end
