(* ===== verification/PreparedSource.thy ===== *)
theory PreparedSource
  imports PreparationSafety ControlProgress ObjectStore ExactSearch
begin

text \<open>
  Preparing one source and answering with one of its units (\<open>prepared_source.rs\<close> of the daemon):
  the composition of the control database, the object store and the preparation of text. The
  operations work on the database and the files of the root; \<open>es i\<close> is what the \<open>i\<close>-th call
  observes of cancellation, the clock, the storage and the allocator.
\<close>

section \<open>Model: preparing\<close>

record PreparedSource =
  ps_source :: CurrentSourceRecord
  ps_current :: CurrentPreparation
  ps_stored :: "(ObjectRef \<times> bytes) option"

definition ps_limits :: PreparationLimits where
  "ps_limits = \<lparr>pl_max_input_bytes = 8 * 1024 * 1024, pl_max_output_bytes = 8 * 1024 * 1024,
     pl_max_lines = 1000000, pl_max_units = 1000000, pl_max_encoded_bytes = 64 * 1024 * 1024\<rparr>"

definition ps_check :: "env \<Rightarrow> string + env" where
  "ps_check = check_with ''PREPARATION_CANCELLED'' ''PREPARATION_DEADLINE''"

fun preparation_gap :: "PreparationError \<Rightarrow> PreparationGap option" where
  "preparation_gap PreparationError.BinaryContent = Some GapBinaryContent"
| "preparation_gap PreparationError.InvalidUtf8 = Some GapInvalidUtf8"
| "preparation_gap PreparationError.InputTooLarge = Some GapInputTooLarge"
| "preparation_gap PreparationError.OutputTooLarge = Some GapOutputTooLarge"
| "preparation_gap PreparationError.TooManyLines = Some GapTooManyLines"
| "preparation_gap TooManyUnits = Some GapTooManyUnits"
| "preparation_gap UnitTooLarge = Some GapUnitTooLarge"
| "preparation_gap EncodedTooLarge = Some GapEncodedTooLarge"
| "preparation_gap _ = None"

definition create_outcome ::
  "(bytes \<Rightarrow> bytes) \<Rightarrow> nat \<Rightarrow> path \<Rightarrow> CurrentSourceRecord \<Rightarrow> PreparationSettings \<Rightarrow> PreparationLimits \<Rightarrow>
   (nat \<Rightarrow> env) \<Rightarrow> files \<Rightarrow> (string + PreparationOutcome) \<times> files" where
  "create_outcome blake3 torn root source settings budget es fs =
     (case try_from u64_bound (pl_max_input_bytes budget) of
        None \<Rightarrow> (Inl ''PREPARATION_LIMITS_INVALID'', fs)
      | Some input_max \<Rightarrow>
          if input_max < byte_length (object_ref source) then (Inr (Gap GapInputTooLarge), fs)
          else (case read_object blake3 root (object_ref source) (min input_max MAX_SOURCE_OBJECT_BYTES) (fs, es 0) of
              (Inl e, (fs, _)) \<Rightarrow> (Inl (object_code e), fs)
            | (Inr bs, (fs, _)) \<Rightarrow>
                (case prepare_utf8 blake3 source bs settings budget (es 1) of
                   Inr (encoded, _) \<Rightarrow>
                     (case try_from u64_bound (pl_max_encoded_bytes budget) of
                        None \<Rightarrow> (Inl ''PREPARATION_LIMITS_INVALID'', fs)
                      | Some maximum \<Rightarrow>
                          (case store_object blake3 torn root Prepared encoded maximum (fs, es 2) of
                             (Inl e, (fs, _)) \<Rightarrow> (Inl (object_code e), fs)
                           | (Inr art, (fs, _)) \<Rightarrow> (Inr (Ready art), fs)))
                 | Inl error \<Rightarrow>
                     ((case preparation_gap error of None \<Rightarrow> Inl (prep_code error) | Some why \<Rightarrow> Inr (Gap why)), fs))))"

text \<open>An artifact is read back from the store and accepted by the decoder before it is used.\<close>

definition read_artifact ::
  "(bytes \<Rightarrow> bytes) \<Rightarrow> path \<Rightarrow> CurrentSourceRecord \<Rightarrow> PreparationSettings \<Rightarrow> ObjectRef \<Rightarrow> nat \<Rightarrow> (nat \<Rightarrow> env) \<Rightarrow> files \<Rightarrow>
   (string + bytes) \<times> files" where
  "read_artifact blake3 root source settings art maximum es fs =
     (case read_object blake3 root art maximum (fs, es 0) of
        (Inl e, (fs, _)) \<Rightarrow> (Inl (object_code e), fs)
      | (Inr stored, (fs, _)) \<Rightarrow>
          ((case decode_prepared_utf8 blake3 stored source settings ps_limits (es 1) of
              Inl e \<Rightarrow> Inl (prep_code e)
            | Inr _ \<Rightarrow> Inr stored), fs))"

text \<open>With a borrowed writer the operations run on its open database.\<close>

definition ensure_on ::
  "bool \<Rightarrow> Database \<Rightarrow> bytes \<Rightarrow> env \<Rightarrow> (PreparationControlError + CurrentPreparation) \<times> Database" where
  "ensure_on writer = (if writer then writer_ensure_preparation_settings else ensure_preparation_settings)"

definition capture_on ::
  "bool \<Rightarrow> Database \<Rightarrow> bytes \<Rightarrow> env \<Rightarrow> PreparationControlError + PreparationCapture \<times> env" where
  "capture_on writer = (if writer then writer_capture_preparation else capture_preparation)"

definition commit_on ::
  "bool \<Rightarrow> Database \<Rightarrow> PreparationCapture \<Rightarrow> PreparationOutcome \<Rightarrow> env \<Rightarrow>
   (PreparationControlError + CurrentPreparation) \<times> Database" where
  "commit_on writer = (if writer then writer_commit_preparation else commit_preparation)"

text \<open>The artifact of an outcome that is already ready for the captured input.\<close>

definition reusable :: "PreparationCapture \<Rightarrow> ObjectRef option" where
  "reusable capture =
     (case pc_expected_outcome capture of
        None \<Rightarrow> None
      | Some out \<Rightarrow>
          if matches_input out (pc_source capture) (pc_settings capture)
          then (case bo_result out of Ready art \<Rightarrow> Some art | Gap _ \<Rightarrow> None) else None)"

definition settle_outcome ::
  "(bytes \<Rightarrow> bytes) \<Rightarrow> path \<Rightarrow> bool \<Rightarrow> PreparationCapture \<Rightarrow> nat \<Rightarrow> PreparationOutcome \<Rightarrow> (nat \<Rightarrow> env) \<Rightarrow> Database \<times> files \<Rightarrow>
   (string + PreparedSource) \<times> Database \<times> files" where
  "settle_outcome blake3 root writer capture maximum result es = (\<lambda>(db, fs).
     let source = pc_source capture; settings = pc_settings capture in
     case result of
       Ready art \<Rightarrow>
         (case read_artifact blake3 root source settings art maximum es fs of
            (Inl e, fs) \<Rightarrow> (Inl e, db, fs)
          | (Inr stored, fs) \<Rightarrow>
              (case commit_on writer db capture result (es 2) of
                 (Inl e, db) \<Rightarrow> (Inl (preparation_control_code e), db, fs)
               | (Inr current, db) \<Rightarrow>
                   (Inr \<lparr>ps_source = source, ps_current = current, ps_stored = Some (art, stored)\<rparr>, db, fs)))
     | Gap why \<Rightarrow>
         (case commit_on writer db capture result (es 2) of
            (Inl e, db) \<Rightarrow> (Inl (preparation_control_code e), db, fs)
          | (Inr current, db) \<Rightarrow>
              (case map_option bo_result (cp_outcome current) of
                 Some (Ready art) \<Rightarrow>
                   (case read_artifact blake3 root source settings art maximum es fs of
                      (Inl e, fs) \<Rightarrow> (Inl e, db, fs)
                    | (Inr stored, fs) \<Rightarrow>
                        (Inr \<lparr>ps_source = source, ps_current = current, ps_stored = Some (art, stored)\<rparr>, db, fs))
               | Some (Gap actual) \<Rightarrow>
                   if actual = why then (Inr \<lparr>ps_source = source, ps_current = current, ps_stored = None\<rparr>, db, fs)
                   else (Inl ''PREPARATION_CONTROL_CORRUPT'', db, fs)
               | None \<Rightarrow> (Inl ''PREPARATION_CONTROL_CORRUPT'', db, fs))))"

definition prepare_source ::
  "(bytes \<Rightarrow> bytes) \<Rightarrow> nat \<Rightarrow> path \<Rightarrow> bool \<Rightarrow> bytes \<Rightarrow> (nat \<Rightarrow> env) \<Rightarrow> Database \<times> files \<Rightarrow>
   (string + PreparedSource) \<times> Database \<times> files" where
  "prepare_source blake3 torn root writer sid es = (\<lambda>(db, fs).
     case ps_check (es 0) of
       Inl e \<Rightarrow> (Inl e, db, fs)
     | Inr _ \<Rightarrow>
         (case ensure_on writer db sid (es 1) of
            (Inl e, db) \<Rightarrow> (Inl (preparation_control_code e), db, fs)
          | (Inr _, db) \<Rightarrow>
              (case capture_on writer db sid (es 2) of
                 Inl e \<Rightarrow> (Inl (preparation_control_code e), db, fs)
               | Inr (capture, _) \<Rightarrow>
                   (case try_from u64_bound (pl_max_encoded_bytes ps_limits) of
                      None \<Rightarrow> (Inl ''PREPARATION_LIMITS_INVALID'', db, fs)
                    | Some maximum \<Rightarrow>
                        (case (case reusable capture of
                            Some art \<Rightarrow> (Inr (Ready art), fs)
                          | None \<Rightarrow> create_outcome blake3 torn root (pc_source capture) (pc_settings capture) ps_limits
                              (\<lambda>i. es (3 + i)) fs) of
                           (Inl e, fs) \<Rightarrow> (Inl e, db, fs)
                         | (Inr result, fs) \<Rightarrow>
                             settle_outcome blake3 root writer capture maximum result (\<lambda>i. es (6 + i)) (db, fs))))))"

section \<open>Model: the response\<close>

text \<open>
  The JSON document of a response, by its keys: the base (source, row and settings), the state, and
  the members that are null unless set.
\<close>

record UnitView =
  uv_ordinal :: nat
  uv_unit :: UnitSpan
  uv_text :: bytes

record SourceResponse =
  sr_source :: CurrentSourceRecord
  sr_current :: CurrentPreparation
  sr_state :: string
  sr_artifact :: "ObjectRef option"
  sr_representation_bytes :: "nat option"
  sr_unit_count :: "nat option"
  sr_unit :: "UnitView option"
  sr_gap :: "string option"

definition response_base :: "CurrentSourceRecord \<Rightarrow> CurrentPreparation \<Rightarrow> SourceResponse" where
  "response_base source state = \<lparr>sr_source = source, sr_current = state, sr_state = ''gap'', sr_artifact = None,
     sr_representation_bytes = None, sr_unit_count = None, sr_unit = None, sr_gap = None\<rparr>"

definition ready_response ::
  "CurrentSourceRecord \<Rightarrow> CurrentPreparation \<Rightarrow> ObjectRef \<Rightarrow> PreparedUtf8 \<Rightarrow> nat \<Rightarrow> string + SourceResponse" where
  "ready_response source state art view ordinal =
     (let response = (response_base source state)\<lparr>sr_artifact := Some art,
            sr_representation_bytes := Some (length (pu_text view)), sr_unit_count := Some (length (pu_units view))\<rparr> in
      if pu_units view = [] then
        if pu_text view \<noteq> [] then Inl ''PREPARATION_ARTIFACT_INVALID''
        else if ordinal \<noteq> 0 then Inl ''PREPARATION_UNIT_OUT_OF_RANGE''
        else Inr (response\<lparr>sr_state := ''empty''\<rparr>)
      else
        bindE (ok_or ''PREPARATION_UNIT_OUT_OF_RANGE'' (get_at (pu_units view) ordinal)) (\<lambda>u.
        bindE (ok_or ''PREPARATION_ARTIFACT_INVALID'' (str_get (pu_text view) (us_start u) (us_end u))) (\<lambda>txt.
        Inr (response\<lparr>sr_state := ''ready'', sr_unit := Some \<lparr>uv_ordinal = ordinal, uv_unit = u, uv_text = txt\<rparr>\<rparr>))))"

definition source_response ::
  "(bytes \<Rightarrow> bytes) \<Rightarrow> PreparedSource \<Rightarrow> nat \<Rightarrow> env \<Rightarrow> string + SourceResponse" where
  "source_response blake3 prepared ordinal env =
     (let state = ps_current prepared in
      case map_option bo_result (cp_outcome state) of
        Some (Ready art) \<Rightarrow>
          bindE (ok_or ''PREPARATION_CONTROL_CORRUPT'' (case ps_stored prepared of
              None \<Rightarrow> None | Some (r, stored) \<Rightarrow> if r = art then Some (r, stored) else None)) (\<lambda>(r, stored).
          bindE (mapErr prep_code (decode_prepared_utf8 blake3 stored (ps_source prepared) (cp_settings state) ps_limits env))
            (\<lambda>(view, env). ready_response (ps_source prepared) state r view ordinal))
      | Some (Gap why) \<Rightarrow> Inr ((response_base (ps_source prepared) state)\<lparr>sr_gap := Some (gap_code why)\<rparr>)
      | None \<Rightarrow> Inl ''PREPARATION_CONTROL_CORRUPT'')"

end
