(* ===== verification/PreparedSourceLaws.thy ===== *)
theory PreparedSourceLaws
  imports PreparedSource ControlRun ExactSearchLaws
begin

text \<open>
  Laws of preparing a source: what a prepared source that is returned promises about the database
  and the files, and what the response shows of it.
\<close>

section \<open>What a prepared source promises\<close>

definition accepted ::
  "(bytes \<Rightarrow> bytes) \<Rightarrow> CurrentSourceRecord \<Rightarrow> PreparationSettings \<Rightarrow> bytes \<Rightarrow> bytes \<Rightarrow> UnitSpan list \<Rightarrow> bool" where
  "accepted blake3 source settings stored body units \<longleftrightarrow>
     stored = artifact_bytes source settings body units \<and> utf8_valid body \<and> input_of blake3 source body \<and>
     units_from (fit_end body (max_unit_bytes settings)) body 0 units"

definition prepared_ok :: "(bytes \<Rightarrow> bytes) \<Rightarrow> path \<Rightarrow> nat \<Rightarrow> files \<Rightarrow> PreparedSource \<Rightarrow> bool" where
  "prepared_ok blake3 root maximum fs p \<longleftrightarrow>
     (\<exists>out. cp_outcome (ps_current p) = Some out \<and> matches_input out (ps_source p) (cp_settings (ps_current p)) \<and>
       (case bo_result out of
          Gap why \<Rightarrow> ps_stored p = None
        | Ready art \<Rightarrow> (\<exists>stored body units. ps_stored p = Some (art, stored) \<and>
            object_content blake3 fs root art maximum = Inr stored \<and>
            accepted blake3 (ps_source p) (cp_settings (ps_current p)) stored body units \<and>
            decode_prepared_utf8 blake3 stored (ps_source p) (cp_settings (ps_current p)) ps_limits [] =
              Inr (\<lparr>pu_text = body, pu_units = units\<rparr>, []))))"

lemma object_content_read:
  assumes "read_object blake3 root r m (fs, env) = (Inr bs, w)"
  shows "fst w = fs \<and> object_content blake3 fs root r m = Inr bs"
  using read_object_Inr [OF assms] by (auto simp: object_content_def)

lemma read_object_files: "read_object blake3 root r m (fs, env) = (x, w) \<Longrightarrow> fst w = fs"
  using unchangedD [OF unchanged.read_object_ok] by fastforce

lemma read_artifact_Inr:
  assumes "read_artifact blake3 root source settings art m es fs = (Inr stored, fs')"
  shows "fs' = fs \<and> object_content blake3 fs root art m = Inr stored \<and>
    (\<exists>body units. accepted blake3 source settings stored body units \<and>
       decode_prepared_utf8 blake3 stored source settings ps_limits [] = Inr (\<lparr>pu_text = body, pu_units = units\<rparr>, []))"
proof -
  obtain w where r: "read_object blake3 root art m (fs, es 0) = (Inr stored, w)" "fs' = fst w"
    using assms by (auto simp: read_artifact_def split: sum.splits prod.splits)
  obtain view env where d: "decode_prepared_utf8 blake3 stored source settings ps_limits (es 1) = Inr (view, env)"
    using assms r(1) by (auto simp: read_artifact_def split: sum.splits prod.splits)
  have q: "decode_prepared_utf8 blake3 stored source settings ps_limits [] = Inr (view, [])"
    using interruptible_Inr [OF decode_interruptible d] .
  have v: "view = \<lparr>pu_text = pu_text view, pu_units = pu_units view\<rparr>" by simp
  show ?thesis using object_content_read [OF r(1)] r(2) decode_Inr [OF d] q v unfolding accepted_def by metis
qed

section \<open>The operations on a path and on a writer\<close>

lemma ensure_on_effect:
  "root_ok db \<Longrightarrow> prep_effect db sid (settings_effect db sid default_settings True) (ensure_on writer db sid env)"
  using ensure_settings_effect select_settings_on_effect
  by (simp add: ensure_on_def writer_ensure_preparation_settings_def)

lemma commit_on_effect:
  "root_ok db \<Longrightarrow> wf_outcome res \<Longrightarrow>
   prep_effect db (source_id (pc_source cap)) (\<lambda>row. \<exists>old. guards_hold cap db old \<and> row = install cap res old)
     (commit_on writer db cap res env)"
  using commit_preparation_effect writer_commit_preparation_effect by (simp add: commit_on_def)

lemma capture_on_Inr:
  assumes "capture_on writer db sid env = Inr (cap, env')" "root_ok db"
  shows "source_at db sid = Some (pc_source cap) \<and> source_id (pc_source cap) = sid \<and> (\<exists>row. guards_hold cap db row)"
proof (cases writer)
  case True
  obtain row env1 where r: "read_database db sid env = Inr ((pc_source cap, Some row), env1)"
    and c: "pc_settings cap = cp_settings row" "pc_settings_revision cap = cp_settings_revision row"
      "pc_expected_outcome_revision cap = cp_outcome_revision row" "pc_expected_outcome cap = cp_outcome row"
    using assms(1) True by (auto simp: capture_on_def writer_capture_preparation_def capture_view_def res_simps)
  have s: "source_at db sid = Some (pc_source cap)" using read_database_Inr [OF r assms(2)] by simp
  then have "source_id (pc_source cap) = sid" using source_at_storable assms(2) by (auto simp: root_ok_def)
  moreover have "prep_of db sid = Some row" using read_database_Inr [OF r assms(2)] by simp
  ultimately have "guards_hold cap db row" using s c by (simp add: guards_hold_def)
  then show ?thesis using s \<open>source_id (pc_source cap) = sid\<close> by blast
next
  case False
  then show ?thesis using capture_preparation_Inr assms by (simp add: capture_on_def) blast
qed

lemma commit_on_Inr:
  assumes "commit_on writer db cap res env = (Inr row, db')" "root_ok db" "wf_outcome res"
  shows "root_ok db' \<and> sources_of db' = sources_of db \<and> prep_of db' = (prep_of db)(source_id (pc_source cap) \<mapsto> row) \<and>
    cp_settings row = pc_settings cap \<and>
    (cp_outcome row = Some (bound_outcome cap res) \<or> \<not> is_ready res \<and> ready_for row (pc_source cap))"
proof -
  have E: "root_ok db'" "sources_of db' = sources_of db" "prep_of db' = (prep_of db)(source_id (pc_source cap) \<mapsto> row)"
    "\<exists>old. guards_hold cap db old \<and> row = install cap res old"
    using commit_on_effect [OF assms(2,3), of cap writer env] assms(1) by (simp_all add: prep_effect_def)
  then obtain old where old: "cp_settings old = pc_settings cap" "row = install cap res old"
    by (auto simp: guards_hold_def)
  then show ?thesis using E(1-3) by (simp add: install_def)
qed

lemma bound_matches: "matches_input (bound_outcome cap res) (pc_source cap) (pc_settings cap)"
  by (simp add: matches_input_def bound_outcome_def)

section \<open>Settling an outcome\<close>

lemma settle_outcome_Inr:
  assumes "settle_outcome blake3 root writer cap m res es (db, fs) = (Inr p, (db', fs'))" "root_ok db" "wf_outcome res"
  shows "fs' = fs \<and> root_ok db' \<and> sources_of db' = sources_of db \<and> ps_source p = pc_source cap \<and>
    cp_settings (ps_current p) = pc_settings cap \<and>
    prep_of db' = (prep_of db)(source_id (pc_source cap) \<mapsto> ps_current p) \<and> prepared_ok blake3 root m fs p"
proof (cases res)
  case (Ready art)
  obtain stored fs1 where r: "read_artifact blake3 root (pc_source cap) (pc_settings cap) art m es fs = (Inr stored, fs1)"
    using assms(1) Ready by (auto simp: settle_outcome_def Let_def split: sum.splits prod.splits)
  obtain row where c: "commit_on writer db cap res (es 2) = (Inr row, db')"
      "p = \<lparr>ps_source = pc_source cap, ps_current = row, ps_stored = Some (art, stored)\<rparr>" "fs' = fs1"
    using assms(1) Ready r by (auto simp: settle_outcome_def Let_def split: sum.splits prod.splits)
  note C = commit_on_Inr [OF c(1) assms(2,3)]
  have o': "cp_outcome row = Some (bound_outcome cap res)" using C Ready by (simp add: is_ready_def)
  have m: "matches_input (bound_outcome cap res) (pc_source cap) (cp_settings row)" using bound_matches C by simp
  have b: "bo_result (bound_outcome cap res) = Ready art" by (simp add: bound_outcome_def Ready)
  have "prepared_ok blake3 root m fs p"
    unfolding prepared_ok_def using read_artifact_Inr [OF r] C c(2) o' m b by auto
  then show ?thesis using C c(2,3) read_artifact_Inr [OF r] by simp
next
  case (Gap why)
  obtain row where c: "commit_on writer db cap res (es 2) = (Inr row, db')"
    using assms(1) Gap by (auto simp: settle_outcome_def Let_def split: sum.splits prod.splits option.splits PreparationOutcome.splits if_splits)
  note C = commit_on_Inr [OF c(1) assms(2,3)]
  obtain out where out: "cp_outcome row = Some out"
    using C by (cases "cp_outcome row") (auto simp: ready_for_def)
  have m: "matches_input out (pc_source cap) (cp_settings row)"
    using C out bound_matches by (auto simp: ready_for_def)
  show ?thesis
  proof (cases "bo_result out")
    case (Ready art)
    obtain stored where r: "read_artifact blake3 root (pc_source cap) (pc_settings cap) art m es fs = (Inr stored, fs')"
        "p = \<lparr>ps_source = pc_source cap, ps_current = row, ps_stored = Some (art, stored)\<rparr>"
      using assms(1) Gap c out Ready by (auto simp: settle_outcome_def Let_def split: sum.splits prod.splits)
    have "prepared_ok blake3 root m fs p"
      unfolding prepared_ok_def using read_artifact_Inr [OF r(1)] C r(2) out m Ready by auto
    then show ?thesis using C r(2) read_artifact_Inr [OF r(1)] by simp
  next
    case Gap': (Gap actual)
    have "p = \<lparr>ps_source = pc_source cap, ps_current = row, ps_stored = None\<rparr> \<and> fs' = fs"
      using assms(1) Gap c out Gap' by (auto simp: settle_outcome_def Let_def split: if_splits)
    then show ?thesis using C out m Gap' by (auto simp: prepared_ok_def)
  qed
qed

lemma create_outcome_wf:
  assumes "create_outcome blake3 torn root source settings budget es fs = (Inr res, fs')" "\<And>bs. length (blake3 bs) = 32"
  shows "wf_outcome res"
proof (cases res)
  case (Ready art)
  then obtain encoded m w w' where s: "store_object blake3 torn root Prepared encoded m w = (Inr art, w')"
    using assms(1) by (auto simp: create_outcome_def split: option.splits if_splits sum.splits prod.splits)
  have "object_reference blake3 Prepared encoded m = Inr art"
    using s by (auto simp: store_object_def bindW_Inr Let_def split: if_splits)
  then show ?thesis using Ready assms(2)
    by (auto simp: object_reference_def object_prepared_def wf_object_def res_simps Let_def try_from_def
        SOURCE_OBJECT_FORMAT_VERSION_def split: if_splits)
qed simp

lemma reusable_wf:
  assumes "reusable cap = Some art" "guards_hold cap db row" "root_ok db"
  shows "wf_outcome (Ready art)"
proof -
  obtain out where o': "cp_outcome row = Some out" "bo_result out = Ready art"
    using assms(1,2) by (auto simp: reusable_def guards_hold_def split: option.splits if_splits PreparationOutcome.splits)
  have "preps_inv db" "prep_of db (source_id (pc_source cap)) = Some row"
    using assms(2,3) by (simp_all add: root_ok_def guards_hold_def)
  from prep_of_row [OF this] obtain bs where "prep_decode bs = Inr row" by blast
  then have "storable_prep row" using prep_decode_Inr by blast
  then show ?thesis using o' by (auto simp: storable_prep_def wf_bound_def)
qed

lemma source_at_kept:
  assumes "root_ok db" "root_ok db'" "sources_of db' = sources_of db" "source_at db sid = Some s"
  shows "source_at db' sid = Some s"
proof -
  have c: "control_ok db" "control_ok db'" using assms(1,2) by (simp_all add: root_ok_def)
  obtain ns where i: "sources_inv ns db" using source_namespace [OF c(1) assms(4)] control_inv [OF c(1)] by blast
  have s: "sources_of db' (locator s) = Some s" "source_id s = sid" using source_at_sources [OF i] assms(3,4) by auto
  then have "\<not> fresh_control db'" using fresh_empty [of db' SOURCE_LOCATORS] by (auto simp: sources_of_def)
  then obtain ns' where "sources_inv ns' db'" using control_inv [OF c(2)] by blast
  then show ?thesis using source_at_sources s by auto
qed

lemma prepare_source_exact_aux:
  assumes "prepare_source blake3 torn root writer sid es (db, fs) = (Inr p, (db', fs'))" "root_ok db"
    and "\<And>bs. length (blake3 bs) = 32"
  shows "root_ok db' \<and> sources_of db' = sources_of db \<and> source_at db' sid = Some (ps_source p) \<and>
    prep_of db' = (prep_of db)(sid \<mapsto> ps_current p) \<and>
    cp_settings (ps_current p) = (case prep_of db sid of Some old \<Rightarrow> cp_settings old | None \<Rightarrow> default_settings) \<and>
    prepared_ok blake3 root (64 * 1024 * 1024) fs' p"
proof -
  obtain row0 db1 where e: "ensure_on writer db sid (es 1) = (Inr row0, db1)"
    using assms(1) by (auto simp: prepare_source_def split: sum.splits prod.splits)
  obtain cap env where c: "capture_on writer db1 sid (es 2) = Inr (cap, env)"
    using assms(1) e by (auto simp: prepare_source_def split: sum.splits prod.splits)
  obtain res fs1 where o: "(case reusable cap of Some art \<Rightarrow> (Inr (Ready art), fs)
        | None \<Rightarrow> create_outcome blake3 torn root (pc_source cap) (pc_settings cap) ps_limits (\<lambda>i. es (3 + i)) fs) = (Inr res, fs1)"
      "settle_outcome blake3 root writer cap (64 * 1024 * 1024) res (\<lambda>i. es (6 + i)) (db1, fs1) = (Inr p, (db', fs'))"
    using assms(1) e c
    by (auto simp: prepare_source_def try_from_def ps_limits_def split: sum.splits prod.splits option.splits)
  have E: "root_ok db1" "sources_of db1 = sources_of db" "settings_effect db sid default_settings True row0"
      "prep_of db1 = (prep_of db)(sid \<mapsto> row0)"
    using ensure_on_effect [OF assms(2), of sid writer "es 1"] e by (simp_all add: prep_effect_def)
  obtain row where C: "source_at db1 sid = Some (pc_source cap)" "source_id (pc_source cap) = sid" "guards_hold cap db1 row"
    using capture_on_Inr [OF c E(1)] by blast
  have "wf_outcome res"
    using o(1) reusable_wf [OF _ C(3) E(1)] create_outcome_wf [OF _ assms(3)] by (auto split: option.splits)
  note S = settle_outcome_Inr [OF o(2) E(1) this]
  have "row = row0" using C(2,3) E(4) by (simp add: guards_hold_def)
  then have "cp_settings (ps_current p) = cp_settings row0" using S C(3) by (simp add: guards_hold_def)
  moreover have "cp_settings row0 = (case prep_of db sid of Some old \<Rightarrow> cp_settings old | None \<Rightarrow> default_settings)"
    using E(3) by (auto simp: settings_effect_def initial_prep_def split: option.splits)
  ultimately show ?thesis using S E C source_at_kept [OF E(1) _ _ C(1)] by simp
qed

text \<open>
  C18: Preparing a source: under any observations of cancellation, the clock, the storage and the
  allocator, on its own path or on a borrowed writer, a prepared source that is returned is the one
  the database holds: the source is the current one, its preparation row is the only row that
  changed and keeps the settings selected before (the defaults when there were none), the row's
  outcome matches the source and the settings, and a ready outcome names an object that is stored,
  holds the returned bytes and decodes to the text of the source with its units.
\<close>

theorem prepare_source_exact:
  assumes "prepare_source blake3 torn root writer sid es (db, fs) = (Inr p, (db', fs'))" "root_ok db"
    and "\<And>bs. length (blake3 bs) = 32"
  shows "root_ok db' \<and> sources_of db' = sources_of db \<and> source_at db' sid = Some (ps_source p) \<and>
    prep_of db' = (prep_of db)(sid \<mapsto> ps_current p) \<and>
    cp_settings (ps_current p) = (case prep_of db sid of Some old \<Rightarrow> cp_settings old | None \<Rightarrow> default_settings) \<and>
    prepared_ok blake3 root (64 * 1024 * 1024) fs' p"
  by (rule prepare_source_exact_aux [OF assms])

section \<open>What the response shows\<close>

lemma unit_text:
  "units_from (fit_end body h) body s us \<Longrightarrow> is_char_boundary body s \<Longrightarrow> u \<in> set us \<Longrightarrow>
   str_get body (us_start u) (us_end u) = Some (Artifact.unit_slice body u)"
proof (induction us arbitrary: s)
  case (Cons v us)
  have v: "us_start v = s" "fit_end body h s (us_end v)"
    using Cons.prems(1) by (simp_all add: span_of_def) (metis UnitSpan.select_convs(1))
  show ?case
  proof (cases "u = v")
    case True
    then show ?thesis using v Cons.prems(2) by (simp add: fit_end_def str_get_def Artifact.unit_slice_def)
  next
    case False
    have "units_from (fit_end body h) body (us_end v) us" using Cons.prems(1) by simp
    moreover have "is_char_boundary body (us_end v)" "u \<in> set us" using v(2) Cons.prems(3) False by (simp_all add: fit_end_def)
    ultimately show ?thesis by (rule Cons.IH)
  qed
qed simp

text \<open>
  C19: The response to a prepared source: a gap is reported with its reason; of a ready artifact the
  response gives the length of the text, the number of units and, at an ordinal below that number,
  that unit with exactly its slice of the text; an empty text has the response \<open>empty\<close> at ordinal 0;
  any other ordinal is out of range. No other error is possible without interruption.
\<close>

theorem source_response_exact:
  assumes "prepared_ok blake3 root m fs p"
  shows "\<exists>out. cp_outcome (ps_current p) = Some out \<and>
    (let base = response_base (ps_source p) (ps_current p) in
     case bo_result out of
       Gap why \<Rightarrow> source_response blake3 p ordinal [] = Inr (base\<lparr>sr_gap := Some (gap_code why)\<rparr>)
     | Ready art \<Rightarrow> \<exists>stored body units. ps_stored p = Some (art, stored) \<and>
         accepted blake3 (ps_source p) (cp_settings (ps_current p)) stored body units \<and>
         source_response blake3 p ordinal [] =
           (let ready = base\<lparr>sr_artifact := Some art, sr_representation_bytes := Some (length body),
                sr_unit_count := Some (length units)\<rparr> in
            if ordinal < length units then Inr (ready\<lparr>sr_state := ''ready'',
              sr_unit := Some \<lparr>uv_ordinal = ordinal, uv_unit = units ! ordinal, uv_text = Artifact.unit_slice body (units ! ordinal)\<rparr>\<rparr>)
            else if ordinal = 0 \<and> body = [] then Inr (ready\<lparr>sr_state := ''empty''\<rparr>)
            else Inl ''PREPARATION_UNIT_OUT_OF_RANGE''))"
proof -
  obtain out where o': "cp_outcome (ps_current p) = Some out" using assms by (auto simp: prepared_ok_def)
  show ?thesis
  proof (cases "bo_result out")
    case (Gap why)
    then show ?thesis using o' by (simp add: source_response_def Let_def)
  next
    case (Ready art)
    obtain stored body units where s: "ps_stored p = Some (art, stored)"
        "accepted blake3 (ps_source p) (cp_settings (ps_current p)) stored body units"
        "decode_prepared_utf8 blake3 stored (ps_source p) (cp_settings (ps_current p)) ps_limits [] =
           Inr (\<lparr>pu_text = body, pu_units = units\<rparr>, [])"
      using assms o' Ready by (auto simp: prepared_ok_def)
    have u: "units_from (fit_end body (max_unit_bytes (cp_settings (ps_current p)))) body 0 units"
      using s(2) by (simp add: accepted_def)
    have e: "units = [] \<longleftrightarrow> body = []" using units_from_Nil [OF u] by auto
    have t: "ordinal < length units \<Longrightarrow>
        str_get body (us_start (units ! ordinal)) (us_end (units ! ordinal)) = Some (Artifact.unit_slice body (units ! ordinal))"
      using unit_text [OF u] by (simp add: is_char_boundary_def)
    have d: "source_response blake3 p ordinal [] =
        ready_response (ps_source p) (ps_current p) art \<lparr>pu_text = body, pu_units = units\<rparr> ordinal"
      using o' Ready s(1,3) by (simp add: source_response_def Let_def)
    have "ready_response (ps_source p) (ps_current p) art \<lparr>pu_text = body, pu_units = units\<rparr> ordinal =
        (let ready = (response_base (ps_source p) (ps_current p))\<lparr>sr_artifact := Some art,
             sr_representation_bytes := Some (length body), sr_unit_count := Some (length units)\<rparr> in
         if ordinal < length units then Inr (ready\<lparr>sr_state := ''ready'',
           sr_unit := Some \<lparr>uv_ordinal = ordinal, uv_unit = units ! ordinal, uv_text = Artifact.unit_slice body (units ! ordinal)\<rparr>\<rparr>)
         else if ordinal = 0 \<and> body = [] then Inr (ready\<lparr>sr_state := ''empty''\<rparr>)
         else Inl ''PREPARATION_UNIT_OUT_OF_RANGE'')"
      using e t by (cases "units = []") (simp_all add: ready_response_def Let_def get_at_def)
    note r = trans [OF d this]
    show ?thesis
      by (rule exI [of _ out], simp add: o' Ready s(1), intro exI [of _ body] exI [of _ units])
        (rule conjI [OF s(2) r])
  qed
qed

end
