(* ===== verification/PreparedSourceProgress.thy ===== *)
theory PreparedSourceProgress
  imports PreparedSourceLaws ControlProperties
begin

text \<open>
  Preparing a source for the first time without interruption: the steps return, and the source is
  ready. The last section runs it on the concrete control database of \<open>ControlProperties\<close>.
\<close>

section \<open>Storing without interruption\<close>

lemma decimal_no_slash: "CHR ''/'' \<notin> set (decimal SOURCE_OBJECT_FORMAT_VERSION)"
  by code_simp

lemma object_names_valid:
  assumes "object_name r m = Inr name"
  shows "valid_local_name name \<and> valid_local_name (''.'' @ name @ ''.stage'') \<and> name \<noteq> ''.'' @ name @ ''.stage''"
  using assms hex_encode_no_slash decimal_no_slash
  by (cases "obj_kind r") (auto simp: object_name_def valid_local_name_def split: if_splits)

text \<open>What an attempt that was cut off may leave for an object: its stage with a part of its bytes, or the object.\<close>

definition stage_left :: "files \<Rightarrow> path \<Rightarrow> bytes \<Rightarrow> bool \<Rightarrow> bool" where
  "stage_left fs p bs part \<longleftrightarrow> (case fs_get fs p of None \<Rightarrow> True
     | Some (FileEntry c) \<Rightarrow> if part then take (length c) bs = c else c = bs | _ \<Rightarrow> False)"

lemma remove_stage_quiet:
  assumes "stage_left fs p bs part" "length bs + 1 < u64_bound"
  shows "\<exists>fs'. remove_metadata_stage p bs part (fs, []) = (Inr (), (fs', [])) \<and> fs_get fs' p = None \<and>
    (\<forall>q. q \<noteq> p \<longrightarrow> fs_get fs' q = fs_get fs q)"
proof (cases "fs_get fs p")
  case None
  then show ?thesis by simp
next
  case (Some e)
  then obtain c where c: "fs_get fs p = Some (FileEntry c)" "if part then take (length c) bs = c else c = bs"
    using assms(1) by (cases e) (auto simp: stage_left_def)
  then have "length c \<le> length bs" by (metis length_take min.cobounded1 order_refl)
  then have "metadata_stage_matches p bs part (fs, []) = (Inr True, (fs, []))"
    using c assms(2) by (cases part) (simp_all add: metadata_stage_matches_def bindW_def retW_def liftW_def try_from_def)
  moreover have "remove_known_file p (fs, []) = (Inr (), (fs_del p fs, []))"
    using c by (simp add: remove_known_file_def bindW_def retW_def fs_remove_file_def)
  ultimately show ?thesis by (simp add: remove_metadata_stage_def bindW_def)
qed

lemma publish_noclobber_retry:
  assumes "fs_get fs (d @ [n]) = None \<and> stage_left fs (d @ [s]) bs True \<or>
      fs_get fs (d @ [n]) = Some (FileEntry bs) \<and> stage_left fs (d @ [s]) bs False"
    and "fs_get fs d = Some DirEntry" "n \<noteq> s" "length bs \<le> m" "m + 1 < u64_bound"
  shows "\<exists>fs'. publish_noclobber torn (d @ [n]) s bs m (fs, []) = (Inr (), (fs', [])) \<and>
    fs_get fs' (d @ [n]) = Some (FileEntry bs) \<and> (\<forall>q. q \<noteq> d @ [n] \<longrightarrow> q \<noteq> d @ [s] \<longrightarrow> fs_get fs' q = fs_get fs q)"
proof -
  have ne: "d \<noteq> d @ [x]" "d @ [x] \<noteq> d" for x by auto
  have len: "length bs + 1 < u64_bound" using assms(4,5) by simp
  show ?thesis
  proof (cases "fs_get fs (d @ [n])")
    case None
    then obtain fs1 where "remove_metadata_stage (d @ [s]) bs True (fs, []) = (Inr (), (fs1, []))"
        "fs_get fs1 (d @ [s]) = None" "\<forall>q. q \<noteq> d @ [s] \<longrightarrow> fs_get fs1 q = fs_get fs q"
      using remove_stage_quiet [OF _ len] assms(1) by auto blast
    then show ?thesis using assms(2-5) None
      by (simp add: publish_noclobber_def bindW_def liftW_def try_from_def fs_create_new_def with_stage_def
          sys_persist_noclobber_def io_fails_def settle_persist_def finish_publish_def ne Let_def)
  next
    case (Some e)
    then have e: "fs_get fs (d @ [n]) = Some (FileEntry bs)" "stage_left fs (d @ [s]) bs False" using assms(1) by auto
    obtain fs1 where "remove_metadata_stage (d @ [s]) bs False (fs, []) = (Inr (), (fs1, []))"
        "fs_get fs1 (d @ [s]) = None" "\<forall>q. q \<noteq> d @ [s] \<longrightarrow> fs_get fs1 q = fs_get fs q"
      using remove_stage_quiet [OF e(2) len] by blast
    then show ?thesis using assms(2-5) e
      by (simp add: publish_noclobber_def bindW_def liftW_def try_from_def ne Let_def)
  qed
qed

text \<open>The same for an object of the store: nothing of it, or what an earlier attempt left.\<close>

definition object_left :: "files \<Rightarrow> path \<Rightarrow> string \<Rightarrow> bytes \<Rightarrow> bool" where
  "object_left fs root name bs \<longleftrightarrow>
     (let stage = object_dir root @ [''.'' @ name @ ''.stage''] in
      fs_get fs (object_dir root @ [name]) = None \<and> stage_left fs stage bs True \<or>
      fs_get fs (object_dir root @ [name]) = Some (FileEntry bs) \<and> stage_left fs stage bs False)"

lemma store_object_quiet:
  assumes "object_reference blake3 kind bs m = Inr r" "object_name r m = Inr name" "m + 1 < u64_bound"
    and "fs_get fs (object_dir root) = Some DirEntry" "object_left fs root name bs"
  shows "\<exists>fs'. store_object blake3 torn root kind bs m (fs, []) = (Inr r, (fs', [])) \<and>
    (\<forall>env. read_object blake3 root r m (fs', []) = (Inr bs, (fs', [])))"
proof -
  let ?stage = "''.'' @ name @ ''.stage''" and ?d = "object_dir root"
  note N = object_names_valid [OF assms(2)]
  note R = object_reference_Inr [OF assms(1)]
  have le: "byte_length r \<le> m" using object_name_bound [OF assms(2)] .
  obtain fs' where p: "publish_noclobber torn (?d @ [name]) ?stage bs m (fs, []) = (Inr (), (fs', []))"
      "fs_get fs' (?d @ [name]) = Some (FileEntry bs)"
    using publish_noclobber_retry [where d = ?d and n = name and s = ?stage and fs = fs and bs = bs and m = m] N R le assms(3-5)
    by (auto simp: object_left_def Let_def)
  have rd: "read_object blake3 root r m (fs', []) = (Inr bs, (fs', []))"
    using R le p(2) assms(2,3) by (simp add: read_object_quiet verified_def)
  have "store_object blake3 torn root kind bs m (fs, []) = (Inr r, (fs', []))"
    using assms(1-3) R le p(1) rd N
    by (simp add: store_object_def bindW_def liftW_def Let_def mapErrW_def try_from_def retW_def publish_object_noclobber_def)
  then show ?thesis using rd by blast
qed

section \<open>The borrowed writer\<close>

text \<open>Without interruption the operations on a borrowed writer do what the standalone ones do.\<close>

lemma writer_ensure_quiet:
  assumes "root_ok db" "source_at db sid = Some s"
  shows "writer_ensure_preparation_settings db sid [] = ensure_preparation_settings db sid []"
proof (cases "prep_of db sid")
  case (Some row)
  then show ?thesis using read_view_quiet [OF assms] read_database_quiet [OF assms]
    by (simp add: writer_ensure_preparation_settings_def select_settings_on_def ensure_preparation_settings_def
        default_settings_supported)
next
  case None
  have "env = []" if "write_settings sid default_settings s None db [] = Inr (x, env)" for x env
    using interruptible_Inr [OF write_settings_interruptible that] that by simp
  then show ?thesis using None read_view_quiet [OF assms] read_database_quiet [OF assms]
    by (cases "write_settings sid default_settings s None db []")
      (auto simp: writer_ensure_preparation_settings_def select_settings_on_def ensure_preparation_settings_def
        select_settings_def default_settings_supported finish_commit_def finish_borrowed_commit_def)
qed

lemma writer_capture_quiet:
  assumes "root_ok db" "source_at db sid = Some s"
  shows "writer_capture_preparation db sid [] = capture_preparation db sid []"
  using read_view_quiet [OF assms] read_database_quiet [OF assms]
  by (simp add: writer_capture_preparation_def capture_preparation_def)

lemma writer_commit_quiet:
  assumes "check_outcome res [] = Inr []"
  shows "writer_commit_preparation db cap res [] = commit_preparation db cap res []"
proof -
  have "env = []" if "write_outcome cap res db [] = Inr (x, env)" for x env
    using interruptible_Inr [OF write_outcome_interruptible that] that by simp
  then show ?thesis using assms
    by (cases "write_outcome cap res db []")
      (auto simp: writer_commit_preparation_def commit_preparation_def finish_commit_def finish_borrowed_commit_def
        split: option.splits)
qed

section \<open>Preparing for the first time\<close>

lemma ps_limits_ok: "prep_limits_validate ps_limits = Inr ()"
  by (simp add: ps_limits_def prep_limits_validate_def mul_fits_isize_def checked_mul64_def size_of_LineSpan_def
      size_of_UnitSpan_def)

lemma source_admitted:
  assumes "control_ok db" "source_at db sid = Some s" "is_supported settings" "byte_length (object_ref s) \<le> 8 * 1024 * 1024"
  shows "admitted s settings ps_limits \<and> wf_source s"
proof -
  obtain bs where "decode_record bs = Inr s" using assms(2) by (auto simp: source_at_def bind_eq_Some_conv res_simps)
  from decode_record_Inr [OF this] show ?thesis
    using assms(3,4) ps_limits_ok by (simp add: admitted_def ps_limits_def)
qed

lemma object_content_Inr:
  assumes "object_content blake3 fs root r m = Inr bs"
  shows "length bs = byte_length r \<and> blake3 bs = digest r"
proof -
  obtain name where n: "object_name r m = Inr name" using assms by (auto simp: object_content_def res_simps)
  show ?thesis using assms n
    by (cases "fs_get fs (object_dir root @ [name])")
      (auto simp: object_content_def verified_def split: FsEntry.splits if_splits)
qed

definition prepared_name :: "(bytes \<Rightarrow> bytes) \<Rightarrow> bytes \<Rightarrow> string" where
  "prepared_name blake3 bs = ''v1-prepared-'' @ hex_encode (blake3 bs)"

lemma create_outcome_quiet:
  assumes "wf_source s" "admitted s settings ps_limits" "4 \<le> max_unit_bytes settings"
    and "object_content blake3 fs root (object_ref s) (8 * 1024 * 1024) = Inr body"
    and "preparable body ps_limits" "settings = default_settings"
    and "fs_get fs (object_dir root) = Some DirEntry"
    and "\<And>units. object_left fs root (prepared_name blake3 (artifact_bytes s settings body units)) (artifact_bytes s settings body units)"
  shows "\<exists>units fs' art. create_outcome blake3 torn root s settings ps_limits (\<lambda>i. []) fs = (Inr (Ready art), fs') \<and>
    art = object_prepared (blake3 (artifact_bytes s settings body units)) (length (artifact_bytes s settings body units)) \<and>
    read_artifact blake3 root s settings art (64 * 1024 * 1024) (\<lambda>i. []) fs' = (Inr (artifact_bytes s settings body units), fs')"
proof -
  have inp: "input_of blake3 s body" using object_content_Inr [OF assms(4)] by (simp add: input_of_def)
  have size: "length body \<le> 8 * 1024 * 1024"
    using assms(2) inp by (simp add: admitted_def input_of_def ps_limits_def)
  then have small: "byte_length (object_ref s) < u64_bound - 1" using inp by (simp add: input_of_def)
  let ?n = "unit_bound (16 * 1024) (length body)"
  have "length body div 16381 \<le> 8 * 1024 * 1024 div 16381" using size by (rule div_le_mono)
  then have n: "?n \<le> 1026" by (simp add: unit_bound_def)
  obtain units where u: "prepare_utf8 blake3 s body settings ps_limits [] = Inr (artifact_bytes s settings body units, [])"
      "units_from (good_end body (max_unit_bytes settings)) body 0 units" "length units \<le> ?n"
    using prepare_total_bounded [OF assms(1,2) inp assms(5)] n size assms(6)
    by (auto simp: default_settings_def ps_limits_def HEADER_BYTES_val UNIT_BYTES_def)
  let ?bs = "artifact_bytes s settings body units"
  define art where "art = object_prepared (blake3 ?bs) (length ?bs)"
  have "length ?bs \<le> pl_max_encoded_bytes ps_limits" by (rule prepare_Inr [OF u(1) assms(1)])
  then have len: "length ?bs \<le> 64 * 1024 * 1024" by (simp add: ps_limits_def)
  have ref: "object_reference blake3 Prepared ?bs (64 * 1024 * 1024) = Inr art"
      "object_name art (64 * 1024 * 1024) = Inr (prepared_name blake3 ?bs)"
    using len decimal_1 by (simp_all add: prepared_name_def object_reference_def art_def object_prepared_def object_name_def try_from_def
        SOURCE_OBJECT_FORMAT_VERSION_def)
  obtain fs' where st: "store_object blake3 torn root Prepared ?bs (64 * 1024 * 1024) (fs, []) = (Inr art, (fs', []))"
      "read_object blake3 root art (64 * 1024 * 1024) (fs', []) = (Inr ?bs, (fs', []))"
    using store_object_quiet [where torn = torn, OF ref(1,2) _ assms(7,8)] by auto
  have rd: "read_object blake3 root (object_ref s) (8 * 1024 * 1024) (fs, []) = (Inr body, (fs, []))"
    using assms(4) small by (simp add: read_object_quiet object_content_def)
  have c: "create_outcome blake3 torn root s settings ps_limits (\<lambda>i. []) fs = (Inr (Ready art), fs')"
    using rd u(1) st(1) assms(2)
    by (simp add: create_outcome_def try_from_def ps_limits_def MAX_SOURCE_OBJECT_BYTES_def admitted_def)
  have "decode_prepared_utf8 blake3 ?bs s settings ps_limits [] = Inr (\<lparr>pu_text = body, pu_units = units\<rparr>, [])"
  proof (rule decode_app [OF assms(1,2) inp])
    show "utf8_valid body" "length (split_lines body) \<le> pl_max_lines ps_limits" using assms(5) by (simp_all add: preparable_def)
    show "units_from (fit_end body (max_unit_bytes settings)) body 0 units"
      using units_from_mono [OF u(2)] good_end_fit by blast
    show "length units \<le> pl_max_units ps_limits" using u(3) n by (simp add: ps_limits_def)
    show "length ?bs \<le> pl_max_encoded_bytes ps_limits" "length ?bs < u64_bound" using len by (simp_all add: ps_limits_def)
  qed
  then have "read_artifact blake3 root s settings art (64 * 1024 * 1024) (\<lambda>i. []) fs' = (Inr ?bs, fs')"
    using st(2) by (simp add: read_artifact_def)
  then show ?thesis using c art_def by blast
qed

lemma prepare_source_first_aux:
  assumes "root_ok db" "source_at db sid = Some s" "prep_of db sid = None" "wanted_of db + 2 < u64_bound"
    and "object_content blake3 fs root (object_ref s) (8 * 1024 * 1024) = Inr body" "preparable body ps_limits"
    and "fs_get fs (object_dir root) = Some DirEntry"
    and "\<And>units. object_left fs root (prepared_name blake3 (artifact_bytes s default_settings body units))
      (artifact_bytes s default_settings body units)"
  shows "\<exists>p db' fs' art units. prepare_source blake3 torn root writer sid (\<lambda>i. []) (db, fs) = (Inr p, (db', fs')) \<and>
    ps_source p = s \<and> map_option bo_result (cp_outcome (ps_current p)) = Some (Ready art) \<and>
    ps_stored p = Some (art, artifact_bytes s default_settings body units)"
proof -
  have c: "control_ok db" using assms(1) by (simp add: root_ok_def)
  have sid: "source_id s = sid" using source_at_storable [OF c assms(2)] by simp
  let ?set = default_settings and ?row = "initial_prep s default_settings"
  obtain db1 where e: "ensure_preparation_settings db sid [] = (Inr ?row, db1)"
    using ensure_settings_progress [OF assms(1-3)] assms(4) by auto
  have E: "root_ok db1" "sources_of db1 = sources_of db" "prep_of db1 = (prep_of db)(sid \<mapsto> ?row)"
      "wanted_of db1 \<le> wanted_of db + 1"
    using ensure_settings_effect [OF assms(1), of sid "[]"] e by (auto simp: prep_effect_def)
  have src: "source_at db1 sid = Some s" using source_at_kept [OF assms(1) E(1,2) assms(2)] .
  obtain cap where cap: "capture_preparation db1 sid [] = Inr (cap, [])" "guards_hold cap db1 ?row" "pc_source cap = s"
    using capture_preparation_quiet [OF E(1) src] E(3) by auto
  have set: "pc_settings cap = ?set" "pc_expected_outcome cap = None"
    using cap(2) by (simp_all add: guards_hold_def initial_prep_def)
  have "byte_length (object_ref s) \<le> 8 * 1024 * 1024"
    using assms(5) object_name_bound by (fastforce simp: object_content_def res_simps)
  note adm = source_admitted [OF c assms(2) default_settings_supported this]
  have "4 \<le> max_unit_bytes ?set" by (simp add: default_settings_def MAX_PREPARATION_UNIT_BYTES_def)
  from create_outcome_quiet [OF _ _ this assms(5,6) refl assms(7,8)] adm obtain units fs' art where k:
      "create_outcome blake3 torn root s ?set ps_limits (\<lambda>i. []) fs = (Inr (Ready art), fs')"
      "art = object_prepared (blake3 (artifact_bytes s ?set body units)) (length (artifact_bytes s ?set body units))"
      "read_artifact blake3 root s ?set art (64 * 1024 * 1024) (\<lambda>i. []) fs' = (Inr (artifact_bytes s ?set body units), fs')"
    by blast
  have out: "check_outcome (Ready art) [] = Inr []"
    using k(2) by (simp add: check_outcome_def valid_object_def object_prepared_def SOURCE_OBJECT_FORMAT_VERSION_def artifact_bytes_def)
  from commit_preparation_progress_aux [OF E(1) cap(2) this] obtain db' where
      m: "commit_preparation db1 cap (Ready art) [] = (Inr (install cap (Ready art) ?row), db')"
    using E(4) assms(4) by (auto simp: initial_prep_def)
  have on: "ensure_on writer db sid [] = (Inr ?row, db1)" "capture_on writer db1 sid [] = Inr (cap, [])"
      "commit_on writer db1 cap (Ready art) [] = (Inr (install cap (Ready art) ?row), db')"
    using e cap(1) m writer_ensure_quiet [OF assms(1,2)] writer_capture_quiet [OF E(1) src] writer_commit_quiet [OF out, of db1 cap]
    by (simp_all add: ensure_on_def capture_on_def commit_on_def)
  have o': "cp_outcome (install cap (Ready art) ?row) = Some (bound_outcome cap (Ready art))"
    by (simp add: install_def is_ready_def)
  have "prepare_source blake3 torn root writer sid (\<lambda>i. []) (db, fs) =
      (Inr \<lparr>ps_source = s, ps_current = install cap (Ready art) ?row, ps_stored = Some (art, artifact_bytes s ?set body units)\<rparr>, (db', fs'))"
    using on cap(3) set k(1,3)
    by (simp add: prepare_source_def ps_check_def reusable_def settle_outcome_def try_from_def ps_limits_def)
  then show ?thesis using o' by (auto simp: bound_outcome_def)
qed

text \<open>
  C20: The first preparation of a source succeeds, under these conditions: the control database is
  consistent and its wanted revision is not within two of its end; the source is registered and not
  prepared yet; its stored object is text that can be prepared, of any size up to the 8 MiB that the
  reader accepts; the object directory exists and holds, under the names of the artifact itself, at
  most what an earlier interrupted attempt leaves there (a partial stage, or the finished object);
  and the run is not interrupted. Then preparing it, on its own or through the borrowed writer,
  returns the source with a ready outcome and the stored artifact of its text.
\<close>

theorem prepare_source_first:
  assumes "root_ok db" "source_at db sid = Some s" "prep_of db sid = None" "wanted_of db + 2 < u64_bound"
    and "object_content blake3 fs root (object_ref s) (8 * 1024 * 1024) = Inr body" "preparable body ps_limits"
    and "fs_get fs (object_dir root) = Some DirEntry"
    and "\<And>units. object_left fs root (prepared_name blake3 (artifact_bytes s default_settings body units))
      (artifact_bytes s default_settings body units)"
  shows "\<exists>p db' fs' art units. prepare_source blake3 torn root writer sid (\<lambda>i. []) (db, fs) = (Inr p, (db', fs')) \<and>
    ps_source p = s \<and> map_option bo_result (cp_outcome (ps_current p)) = Some (Ready art) \<and>
    ps_stored p = Some (art, artifact_bytes s default_settings body units)"
  by (rule prepare_source_first_aux [OF assms])

section \<open>A concrete preparation\<close>

definition pe_hash :: "bytes \<Rightarrow> bytes" where
  "pe_hash bs = replicate 32 7"

definition pe_files :: files where
  "pe_files = [(object_dir [], DirEntry),
     (object_dir [] @ [''v1-source-'' @ hex_encode (replicate 32 7)], FileEntry Artifact.ex_text)]"

lemma pe_body:
  "object_content pe_hash pe_files [] (object_ref ex_rec) (8 * 1024 * 1024) = Inr Artifact.ex_text"
  "preparable Artifact.ex_text ps_limits"
proof -
  have n: "object_name (object_ref ex_rec) (8 * 1024 * 1024) = Inr (''v1-source-'' @ hex_encode (replicate 32 7))"
    using decimal_1 by (simp add: object_name_def ex_rec_def ex_object_def object_source_def SOURCE_OBJECT_FORMAT_VERSION_def
        MAX_SOURCE_OBJECT_BYTES_def)
  show "object_content pe_hash pe_files [] (object_ref ex_rec) (8 * 1024 * 1024) = Inr Artifact.ex_text"
    unfolding object_content_def n
    by (simp add: pe_files_def fs_get_def object_dir_def verified_def pe_hash_def ex_rec_def
        ex_object_def object_source_def Artifact.ex_text_def)
  show "preparable Artifact.ex_text ps_limits"
    using Artifact.ex_preparable(1) by (simp add: preparable_def Artifact.ex_limits_def ps_limits_def)
qed

lemma pe_files_free: "fs_get pe_files (object_dir []) = Some DirEntry" "object_left pe_files [] (prepared_name pe_hash bs) bs"
  by (simp_all add: pe_files_def fs_get_def object_dir_def object_left_def prepared_name_def stage_left_def)

lemma pe_run:
  "\<exists>p db' fs' art units. prepare_source pe_hash 0 [] False ex_sid (\<lambda>i. []) (ex_db1, pe_files) = (Inr p, (db', fs')) \<and>
    ps_source p = ex_rec \<and> map_option bo_result (cp_outcome (ps_current p)) = Some (Ready art) \<and>
    ps_stored p = Some (art, artifact_bytes ex_rec default_settings Artifact.ex_text units)"
  by (rule prepare_source_first_aux [OF ex_db1_facts(2) ex_source_at(1) _ _ pe_body pe_files_free(1)])
    (simp_all add: ex_db1_facts pe_files_free)

theorem prepare_source_first_witness:
  "\<exists>p db' fs'. prepare_source pe_hash 0 [] True ex_sid (\<lambda>i. []) (ex_db1, pe_files) = (Inr p, (db', fs')) \<and>
    ps_source p = ex_rec \<and> ps_stored p \<noteq> None"
proof -
  have "prep_of ex_db1 ex_sid = None" "wanted_of ex_db1 + 2 < u64_bound" using ex_db1_facts by simp_all
  from prepare_source_first [OF ex_db1_facts(2) ex_source_at(1) this pe_body pe_files_free(1,2), where torn = 0 and writer = True]
  show ?thesis by auto
qed

theorem prepare_source_exact_witness:
  "\<exists>p db' fs'. prepare_source pe_hash 0 [] False ex_sid (\<lambda>i. []) (ex_db1, pe_files) = (Inr p, (db', fs')) \<and>
    source_at db' ex_sid = Some ex_rec \<and> prep_of db' = [ex_sid \<mapsto> ps_current p]"
proof -
  obtain p db' fs' where r: "prepare_source pe_hash 0 [] False ex_sid (\<lambda>i. []) (ex_db1, pe_files) = (Inr p, (db', fs'))"
    "ps_source p = ex_rec" using pe_run by blast
  then show ?thesis using prepare_source_exact [OF r(1) ex_db1_facts(2)] ex_db1_facts(5) by (auto simp: pe_hash_def)
qed

lemma pe_ok: "\<exists>p fs'. prepared_ok pe_hash [] (64 * 1024 * 1024) fs' p \<and> ps_stored p \<noteq> None"
proof -
  obtain p db' fs' art units where r:
      "prepare_source pe_hash 0 [] False ex_sid (\<lambda>i. []) (ex_db1, pe_files) = (Inr p, (db', fs'))"
      "ps_stored p = Some (art, artifact_bytes ex_rec default_settings Artifact.ex_text units)" using pe_run by blast
  show ?thesis using prepare_source_exact_aux [OF r(1) ex_db1_facts(2)] r(2) by (auto simp: pe_hash_def)
qed

theorem source_response_exact_witness:
  "\<exists>p r. source_response pe_hash p 0 [] = Inr r \<and> sr_state r \<in> {''ready'', ''empty''}"
proof -
  obtain p fs' where p: "prepared_ok pe_hash [] (64 * 1024 * 1024) fs' p" "ps_stored p \<noteq> None" using pe_ok by blast
  obtain out where o': "cp_outcome (ps_current p) = Some out"
    using p(1) by (auto simp: prepared_ok_def)
  obtain art where art: "bo_result out = Ready art"
    using p o' by (cases "bo_result out") (auto simp: prepared_ok_def)
  obtain body units stored where b: "accepted pe_hash (ps_source p) (cp_settings (ps_current p)) stored body units"
      "source_response pe_hash p 0 [] = (let ready = (response_base (ps_source p) (ps_current p))\<lparr>sr_artifact := Some art,
             sr_representation_bytes := Some (length body), sr_unit_count := Some (length units)\<rparr> in
         if 0 < length units then Inr (ready\<lparr>sr_state := ''ready'',
           sr_unit := Some \<lparr>uv_ordinal = 0, uv_unit = units ! 0, uv_text = Artifact.unit_slice body (units ! 0)\<rparr>\<rparr>)
         else if (0::nat) = 0 \<and> body = [] then Inr (ready\<lparr>sr_state := ''empty''\<rparr>)
         else Inl ''PREPARATION_UNIT_OUT_OF_RANGE'')"
    using source_response_exact [OF p(1), of 0] o' art by (auto simp only: Let_def option.inject PreparationOutcome.case)
  have "units = [] \<longrightarrow> body = []" using b(1) units_from_Nil [of body _ 0 units] by (auto simp: accepted_def)
  then show ?thesis using b(2) by (intro exI [of _ p]) (cases "units = []"; simp add: Let_def)
qed

end
