(* ===== verification/Bridge.thy ===== *)
theory Bridge
  imports VerifiedQuery
begin

text \<open>
  The bridge to the index service (crate \<open>search-qdrant-bridge\<close>): limits, requests and their
  waiting, the fixed collection schema, batches, exact verification of points, ranked queries and
  the readiness canary. The service itself, its SDK and the transport are a parameter: a record of
  the remote calls, each from the remote state \<open>'r\<close> to an answer and the state after it, and the
  size of an encoded message.
\<close>

section \<open>Model: errors and limits\<close>

datatype BackendError = InvalidEndpoint | InvalidLimits | InvalidInput | RequestTooLarge | ResponseTooLarge
  | AllocationFailed | Authentication | UnsupportedServer | SchemaMismatch | PointMismatch | MalformedResponse
  | ReadinessNotProven | Cancelled | Deadline | Transport | BackendRefused | UnknownDispatch

fun backend_code :: "BackendError \<Rightarrow> string" where
  "backend_code BackendError.InvalidEndpoint = ''BACKEND_ENDPOINT_INVALID''"
| "backend_code BackendError.InvalidLimits = ''BACKEND_LIMITS_INVALID''"
| "backend_code BackendError.InvalidInput = ''BACKEND_INPUT_INVALID''"
| "backend_code BackendError.RequestTooLarge = ''BACKEND_REQUEST_TOO_LARGE''"
| "backend_code BackendError.ResponseTooLarge = ''BACKEND_RESPONSE_TOO_LARGE''"
| "backend_code BackendError.AllocationFailed = ''BACKEND_ALLOCATION_FAILED''"
| "backend_code BackendError.Authentication = ''BACKEND_AUTHENTICATION_FAILED''"
| "backend_code BackendError.UnsupportedServer = ''BACKEND_VERSION_UNSUPPORTED''"
| "backend_code BackendError.SchemaMismatch = ''BACKEND_SCHEMA_MISMATCH''"
| "backend_code BackendError.PointMismatch = ''BACKEND_POINT_MISMATCH''"
| "backend_code BackendError.MalformedResponse = ''BACKEND_RESPONSE_MALFORMED''"
| "backend_code BackendError.ReadinessNotProven = ''BACKEND_READINESS_NOT_PROVEN''"
| "backend_code BackendError.Cancelled = ''BACKEND_CANCELLED''"
| "backend_code BackendError.Deadline = ''BACKEND_DEADLINE''"
| "backend_code BackendError.Transport = ''BACKEND_TRANSPORT_FAILED''"
| "backend_code BackendError.BackendRefused = ''BACKEND_REFUSED''"
| "backend_code BackendError.UnknownDispatch = ''BACKEND_UNKNOWN_DISPATCH''"

definition MAX_REQUEST_BYTES :: nat where "MAX_REQUEST_BYTES = 1048576"
definition MAX_RESPONSE_BYTES :: nat where "MAX_RESPONSE_BYTES = 2097152"
definition MAX_HITS :: nat where "MAX_HITS = 64"
definition MAX_POINT_TEXT_BYTES :: nat where "MAX_POINT_TEXT_BYTES = 65536"

record BackendLimits =
  bl_max_batch_points :: nat
  bl_max_request_bytes :: nat
  bl_max_response_bytes :: nat
  bl_max_query_bytes :: nat
  bl_max_hits :: nat

definition backend_limits_default :: BackendLimits where
  "backend_limits_default = \<lparr>bl_max_batch_points = MAX_PAGE_POINTS, bl_max_request_bytes = MAX_REQUEST_BYTES,
     bl_max_response_bytes = MAX_RESPONSE_BYTES, bl_max_query_bytes = MAX_QUERY_BYTES, bl_max_hits = MAX_HITS\<rparr>"

definition backend_limits_validate :: "BackendLimits \<Rightarrow> BackendError + unit" where
  "backend_limits_validate limits =
     (if \<exists>(sel, maximum) \<in> set [(bl_max_batch_points limits, MAX_PAGE_POINTS), (bl_max_request_bytes limits, MAX_REQUEST_BYTES),
           (bl_max_response_bytes limits, MAX_RESPONSE_BYTES), (bl_max_query_bytes limits, MAX_QUERY_BYTES),
           (bl_max_hits limits, MAX_HITS)]. sel = 0 \<or> maximum < sel
      then Inl BackendError.InvalidLimits else Inr ())"

record PointInput =
  pt_id :: bytes
  pt_source_id :: bytes
  pt_text :: bytes

definition is_name_byte :: "char \<Rightarrow> bool" where
  "is_name_byte c \<longleftrightarrow> (CHR ''0'' \<le> c \<and> c \<le> CHR ''9'') \<or> (CHR ''a'' \<le> c \<and> c \<le> CHR ''z'')
     \<or> (CHR ''A'' \<le> c \<and> c \<le> CHR ''Z'') \<or> c = CHR ''_'' \<or> c = CHR ''-''"

definition collection_name :: "string \<Rightarrow> BackendError + unit" where
  "collection_name name =
     (if name = [] \<or> 255 < length name \<or> \<not> list_all is_name_byte name then Inl BackendError.InvalidInput else Inr ())"

section \<open>Model: messages\<close>

text \<open>
  The messages of the SDK, by the fields the bridge sets or reads; all others are the SDK's default.
  Enumerations travel as numbers; a number the bridge does not name is the last constructor of its
  type. The two scoring constants are fractions.
\<close>

datatype TokenizerType = TokenizerCode | OtherTokenizer
datatype MemoryKind = Pinned | OtherMemory
datatype ScoringType = Bm25 | OtherScoring
datatype StemmingParams = StemmerDisabled | OtherStemmer
datatype ShardingMethod = ShardingAuto | OtherSharding
datatype CollectionStatus = Green | OtherCollectionStatus
datatype PayloadSchemaType = TextSchema | OtherSchema
datatype FieldType = FieldText | OtherFieldType
datatype UpdateStatus = UpdateCompleted | ClockRejected | OtherUpdateStatus
datatype VectorsConfig = ParamsMap nat | SingleParams

record TextIndexParams =
  ti_tokenizer :: TokenizerType
  ti_lowercase :: "bool option"
  ti_ascii_folding :: "bool option"
  ti_phrase_matching :: "bool option"
  ti_enable_hnsw :: "bool option"
  ti_memory :: "MemoryKind option"
  ti_scoring :: "ScoringType option"
  ti_stemmer :: "StemmingParams option option"
  ti_stopwords :: bool
  ti_min_token_len :: "nat option"
  ti_max_token_len :: "nat option"
  ti_nested :: bool

record CollectionParams =
  cn_shard_number :: nat
  cn_replication_factor :: "nat option"
  cn_write_consistency_factor :: "nat option"
  cn_sharding_method :: "ShardingMethod option"
  cn_vectors_config :: "VectorsConfig option option"
  cn_sparse_vectors :: "nat option"

record PayloadSchema =
  sc_data_type :: PayloadSchemaType
  sc_params :: "TextIndexParams option option"

record CollectionInfo =
  ci_status :: CollectionStatus
  ci_params :: "CollectionParams option"
  ci_payload_schema :: "(string \<times> PayloadSchema) list"

record CreateCollection =
  cr_name :: string
  cr_shard_number :: "nat option"
  cr_replication_factor :: "nat option"
  cr_write_consistency_factor :: "nat option"
  cr_sharding_method :: "ShardingMethod option"

record CreateFieldIndex =
  fi_name :: string
  fi_field :: string
  fi_type :: "FieldType option"
  fi_params :: TextIndexParams
  fi_wait :: "bool option"

datatype PointIdOptions = Num nat | Uuid string
datatype PayloadKind = StringValue bytes | OtherValue
type_synonym payload = "(string \<times> PayloadKind option) list"

record PointStruct =
  st_id :: "PointIdOptions option"
  st_vectors :: nat
  st_payload :: payload

record UpsertPoints =
  ups_name :: string
  ups_wait :: "bool option"
  ups_points :: "PointStruct list"
  ups_insert_only :: bool

record GetPoints =
  gt_name :: string
  gt_ids :: "PointIdOptions option list"
  gt_with_vectors :: "bool option"
  gt_payload :: "string list option"

record CountPoints =
  ct_name :: string
  ct_exact :: "bool option"

record QueryPoints =
  qp_name :: string
  qp_text :: bytes
  qp_k :: "nat \<times> nat"
  qp_b :: "nat \<times> nat"
  qp_idf_corpus :: "string option option"
  qp_using :: string
  qp_has_id :: "PointIdOptions option option"
  qp_limit :: "nat option"
  qp_with_vectors :: "bool option"
  qp_payload :: "string list option"

record RetrievedPoint =
  rt_id :: "PointIdOptions option option"
  rt_payload :: payload
  rt_vectors :: bool

record ScoredPoint =
  sp_point :: RetrievedPoint
  sp_score :: f32

datatype Message =
    HealthCheck | ListCollections
  | CreateMessage CreateCollection | IndexMessage CreateFieldIndex
  | InfoMessage string | ExistsMessage string | DeleteMessage string
  | UpsertMessage UpsertPoints | GetMessage GetPoints
  | CountMessage CountPoints | QueryMessage QueryPoints

datatype StatusCode = Unauthenticated | PermissionDenied | CodeCancelled | DeadlineExceeded | Unavailable | CodeUnknown | OtherCode

fun read_error :: "StatusCode \<Rightarrow> BackendError" where
  "read_error Unauthenticated = BackendError.Authentication"
| "read_error PermissionDenied = BackendError.Authentication"
| "read_error CodeCancelled = BackendError.Cancelled"
| "read_error DeadlineExceeded = BackendError.Deadline"
| "read_error Unavailable = BackendError.Transport"
| "read_error CodeUnknown = BackendError.Transport"
| "read_error OtherCode = BackendError.BackendRefused"

text \<open>The remote calls: an answer of the service or a status, and the remote state after it.\<close>

type_synonym ('r, 'a) remote = "'r \<Rightarrow> (StatusCode + 'a) \<times> 'r"

record 'r Server =
  sv_encoded_len :: "Message \<Rightarrow> nat"
  sv_connect :: "('r, unit) remote"
  sv_health :: "('r, string) remote"
  sv_list :: "('r, unit) remote"
  sv_create :: "CreateCollection \<Rightarrow> ('r, bool) remote"
  sv_index :: "CreateFieldIndex \<Rightarrow> ('r, UpdateStatus option) remote"
  sv_info :: "string \<Rightarrow> ('r, CollectionInfo option) remote"
  sv_exists :: "string \<Rightarrow> ('r, bool option) remote"
  sv_delete :: "string \<Rightarrow> ('r, bool) remote"
  sv_upsert :: "UpsertPoints \<Rightarrow> ('r, UpdateStatus option) remote"
  sv_get :: "GetPoints \<Rightarrow> ('r, RetrievedPoint list) remote"
  sv_count :: "CountPoints \<Rightarrow> ('r, nat option) remote"
  sv_query :: "QueryPoints \<Rightarrow> ('r, ScoredPoint list) remote"

section \<open>Model: calls\<close>

definition backend_check :: "env \<Rightarrow> BackendError + env" where
  "backend_check = check_with BackendError.Cancelled BackendError.Deadline"

text \<open>The rest of the time until the deadline; there may be none.\<close>

fun time_left :: "env \<Rightarrow> BackendError + env" where
  "time_left [] = Inr []"
| "time_left (ob # env) = (if obs_expired ob then Inl BackendError.Deadline else Inr env)"

text \<open>Calls from an asynchronous runtime are refused; the environment says where the caller runs.\<close>

definition synchronous :: "env \<Rightarrow> BackendError + env" where
  "synchronous = io_with BackendError.InvalidInput"

definition stopped :: "BackendError \<Rightarrow> bool \<Rightarrow> bool \<Rightarrow> BackendError" where
  "stopped error mutation dispatched = (if mutation \<and> dispatched then BackendError.UnknownDispatch else error)"

type_synonym ('r, 'a) rop = "env \<Rightarrow> 'r \<Rightarrow> (BackendError + 'a \<times> env) \<times> 'r"

definition retR :: "'a \<Rightarrow> ('r, 'a) rop" where
  "retR x = (\<lambda>env r. (Inr (x, env), r))"

definition failR :: "BackendError \<Rightarrow> ('r, 'a) rop" where
  "failR e = (\<lambda>env r. (Inl e, r))"

definition bindR :: "('r, 'a) rop \<Rightarrow> ('a \<Rightarrow> ('r, 'b) rop) \<Rightarrow> ('r, 'b) rop" where
  "bindR m k = (\<lambda>env r. case m env r of (Inl e, r) \<Rightarrow> (Inl e, r) | (Inr (x, env), r) \<Rightarrow> k x env r)"

definition liftR :: "BackendError + 'a \<Rightarrow> ('r, 'a) rop" where
  "liftR res = (\<lambda>env r. (case res of Inl e \<Rightarrow> Inl e | Inr x \<Rightarrow> Inr (x, env), r))"

definition localR :: "(env \<Rightarrow> BackendError + 'a \<times> env) \<Rightarrow> ('r, 'a) rop" where
  "localR f = (\<lambda>env r. (f env, r))"

definition pollR :: "(env \<Rightarrow> BackendError + env) \<Rightarrow> ('r, unit) rop" where
  "pollR p = localR (\<lambda>env. bindE (p env) (\<lambda>env. Inr ((), env)))"

definition mapErrR :: "(BackendError \<Rightarrow> BackendError) \<Rightarrow> ('r, 'a) rop \<Rightarrow> ('r, 'a) rop" where
  "mapErrR f m = (\<lambda>env r. case m env r of (res, r) \<Rightarrow> (mapErr f res, r))"

text \<open>
  Waiting for an answer in slices of the remaining time (\<open>run\<close>): before each slice cancellation and
  the clock are read. \<open>obs_io\<close> says that the slice ends without the answer, \<open>obs_landed\<close> that the
  request reached the service in it; \<open>reply\<close> is the answer of a request that did.
\<close>

fun await :: "bool \<Rightarrow> bool \<Rightarrow> (BackendError + 'a) option \<Rightarrow> ('r \<Rightarrow> (BackendError + 'a) \<times> 'r) \<Rightarrow> ('r, 'a) rop" where
  "await mutation dispatched reply act [] r =
     (let (answer, r) = (case reply of Some answer \<Rightarrow> (answer, r) | None \<Rightarrow> act r) in
      (case answer of Inl e \<Rightarrow> Inl (stopped e mutation True) | Inr x \<Rightarrow> Inr (x, []), r))"
| "await mutation dispatched reply act (ob # env) r =
     (if obs_cancelled ob then (Inl (stopped BackendError.Cancelled mutation dispatched), r)
      else if obs_expired ob then (Inl (stopped BackendError.Deadline mutation dispatched), r)
      else
        let (reply, r) = (if reply = None \<and> (obs_landed ob \<or> \<not> obs_io ob)
              then (case act r of (answer, r) \<Rightarrow> (Some answer, r)) else (reply, r)) in
        if obs_io ob then await mutation True reply act env r
        else (case reply of
                Some (Inl e) \<Rightarrow> (Inl (stopped e mutation True), r)
              | Some (Inr x) \<Rightarrow> (Inr (x, env), r)
              | None \<Rightarrow> (Inl BackendError.Transport, r)))"

definition rpc_run :: "bool \<Rightarrow> ('r \<Rightarrow> (BackendError + 'a) \<times> 'r) \<Rightarrow> ('r, 'a) rop" where
  "rpc_run mutation act = bindR (pollR backend_check) (\<lambda>_. await mutation False None act)"

definition rpc_call :: "bool \<Rightarrow> ('r, 'a) remote \<Rightarrow> ('r, 'a) rop" where
  "rpc_call mutation act =
     bindR (pollR synchronous) (\<lambda>_.
     rpc_run mutation (\<lambda>r. case act r of (res, r) \<Rightarrow> (mapErr read_error res, r)))"

definition request :: "'r Server \<Rightarrow> BackendLimits \<Rightarrow> Message \<Rightarrow> ('r, unit) rop" where
  "request srv limits message =
     bindR (pollR backend_check) (\<lambda>_.
     if bl_max_request_bytes limits < sv_encoded_len srv message then failR BackendError.RequestTooLarge
     else pollR time_left)"

section \<open>Model: the schema\<close>

definition TEXT_FIELD :: string where "TEXT_FIELD = ''retrieval_text''"

definition create_collection :: "string \<Rightarrow> CreateCollection" where
  "create_collection name = \<lparr>cr_name = name, cr_shard_number = Some 1, cr_replication_factor = Some 1,
     cr_write_consistency_factor = Some 1, cr_sharding_method = Some ShardingAuto\<rparr>"

definition text_params :: TextIndexParams where
  "text_params = \<lparr>ti_tokenizer = TokenizerCode, ti_lowercase = Some True, ti_ascii_folding = Some False,
     ti_phrase_matching = Some False, ti_enable_hnsw = Some False, ti_memory = Some Pinned, ti_scoring = Some Bm25,
     ti_stemmer = Some (Some StemmerDisabled), ti_stopwords = False, ti_min_token_len = None, ti_max_token_len = None,
     ti_nested = False\<rparr>"

definition create_text_index :: "string \<Rightarrow> CreateFieldIndex" where
  "create_text_index name = \<lparr>fi_name = name, fi_field = TEXT_FIELD, fi_type = Some FieldText,
     fi_params = text_params, fi_wait = Some True\<rparr>"

definition verify_text :: "TextIndexParams \<Rightarrow> BackendError + unit" where
  "verify_text p =
     (if ti_tokenizer p \<noteq> TokenizerCode \<or> ti_lowercase p \<noteq> Some True \<or> ti_ascii_folding p \<noteq> Some False
         \<or> ti_phrase_matching p \<noteq> Some False \<or> ti_enable_hnsw p \<noteq> Some False \<or> ti_memory p \<noteq> Some Pinned
         \<or> ti_scoring p \<noteq> Some Bm25 \<or> ti_stemmer p \<noteq> Some (Some StemmerDisabled)
         \<or> ti_stopwords p \<or> ti_min_token_len p \<noteq> None \<or> ti_max_token_len p \<noteq> None \<or> ti_nested p
      then Inl BackendError.SchemaMismatch else Inr ())"

definition verify_info :: "CollectionInfo \<Rightarrow> BackendError + unit" where
  "verify_info info =
     (if ci_status info \<noteq> Green then Inl BackendError.BackendRefused
      else
        bindE (ok_or BackendError.SchemaMismatch (ci_params info)) (\<lambda>params.
        if cn_shard_number params \<noteq> 1 \<or> cn_replication_factor params \<noteq> Some 1
           \<or> cn_write_consistency_factor params \<noteq> Some 1 \<or> cn_sharding_method params \<noteq> Some ShardingAuto
        then Inl BackendError.SchemaMismatch
        else if cn_vectors_config params \<notin> {None, Some (Some (ParamsMap 0))} then Inl BackendError.SchemaMismatch
        else if cn_sparse_vectors params \<notin> {None, Some 0} \<or> length (ci_payload_schema info) \<noteq> 1
        then Inl BackendError.SchemaMismatch
        else
          bindE (ok_or BackendError.SchemaMismatch (map_of (ci_payload_schema info) TEXT_FIELD)) (\<lambda>text.
          if sc_data_type text \<noteq> TextSchema then Inl BackendError.SchemaMismatch
          else (case sc_params text of Some (Some params) \<Rightarrow> verify_text params | _ \<Rightarrow> Inl BackendError.SchemaMismatch))))"

fun completed :: "UpdateStatus \<Rightarrow> BackendError + unit" where
  "completed UpdateCompleted = Inr ()"
| "completed ClockRejected = Inl BackendError.BackendRefused"
| "completed OtherUpdateStatus = Inl BackendError.UnknownDispatch"

section \<open>Model: batches and identities\<close>

definition uuid_text :: "bytes \<Rightarrow> string" where
  "uuid_text bs = concat (map (\<lambda>(i, b). (if i \<in> {4, 6, 8, 10} then ''-'' else []) @ hex_encode [b]) (List.enumerate 0 bs))"

definition point_id :: "bytes \<Rightarrow> PointIdOptions option" where
  "point_id bs = Some (Uuid (uuid_text bs))"

definition hex_value :: "byte \<Rightarrow> BackendError + byte" where
  "hex_value b = (if 48 \<le> b \<and> b \<le> 57 then Inr (b - 48)
     else if 97 \<le> b \<and> b \<le> 102 then Inr (b - 97 + 10) else Inl BackendError.MalformedResponse)"

text \<open>The identity at the cursor: \<open>n\<close> bytes are left, \<open>16 - n\<close> is the index of the next one.\<close>

fun decode_digits :: "nat \<Rightarrow> bytes \<Rightarrow> BackendError + bytes" where
  "decode_digits 0 bs = Inr []"
| "decode_digits (Suc n) bs =
     bindE (if 16 - Suc n \<in> {4, 6, 8, 10}
         then (case bs of b # bs \<Rightarrow> if b = 45 then Inr bs else Inl BackendError.MalformedResponse
               | [] \<Rightarrow> Inl BackendError.MalformedResponse)
         else Inr bs) (\<lambda>bs.
     case bs of
       h # l # rest \<Rightarrow>
         bindE (hex_value h) (\<lambda>high.
         bindE (hex_value l) (\<lambda>low.
         bindE (decode_digits n rest) (\<lambda>out. Inr ((high * 16 + low) # out))))
     | _ \<Rightarrow> Inl BackendError.MalformedResponse)"

definition decode_id :: "PointIdOptions option option \<Rightarrow> BackendError + bytes" where
  "decode_id i =
     (case i of
        Some (Some (Uuid text)) \<Rightarrow>
          if length text \<noteq> 36 then Inl BackendError.MalformedResponse else decode_digits 16 (as_bytes text)
      | _ \<Rightarrow> Inl BackendError.MalformedResponse)"

definition payload_string :: "payload \<Rightarrow> string \<Rightarrow> BackendError + bytes" where
  "payload_string p key =
     (case map_of p key of Some (Some (StringValue txt)) \<Rightarrow> Inr txt | _ \<Rightarrow> Inl BackendError.MalformedResponse)"

definition payload_source_id :: "payload \<Rightarrow> BackendError + bytes" where
  "payload_source_id p =
     bindE (payload_string p ''source_id'') (\<lambda>txt.
     if length txt \<noteq> 36 then Inl BackendError.MalformedResponse
     else mapErr (\<lambda>_. BackendError.MalformedResponse) (uuid_parse (of_bytes txt)))"

definition point_struct :: "PointInput \<Rightarrow> PointStruct" where
  "point_struct p = \<lparr>st_id = point_id (pt_id p), st_vectors = 0,
     st_payload = [(''source_id'', Some (StringValue (as_bytes (uuid_to_string (pt_source_id p))))),
       (TEXT_FIELD, Some (StringValue (pt_text p)))]\<rparr>"

fun batch_scan :: "PointInput list \<Rightarrow> bytes set \<Rightarrow> nat \<Rightarrow> env \<Rightarrow> BackendError + env" where
  "batch_scan [] ids lower env = Inr env"
| "batch_scan (p # ps) ids lower env =
     bindE (backend_check env) (\<lambda>env.
     if pt_text p = [] \<or> pt_id p \<in> ids then Inl BackendError.InvalidInput
     else if MAX_POINT_TEXT_BYTES < length (pt_text p) then Inl BackendError.RequestTooLarge
     else
       bindE (ok_or BackendError.RequestTooLarge (checked_add64 lower (length (pt_text p)))) (\<lambda>lower.
       if MAX_REQUEST_BYTES < lower then Inl BackendError.RequestTooLarge
       else batch_scan ps (insert (pt_id p) ids) lower env))"

definition encode_batch :: "'r Server \<Rightarrow> string \<Rightarrow> PointInput list \<Rightarrow> env \<Rightarrow> BackendError + UpsertPoints \<times> env" where
  "encode_batch srv name points env =
     bindE (backend_check env) (\<lambda>env.
     bindE (collection_name name) (\<lambda>_.
     if points = [] then Inl BackendError.InvalidInput
     else if MAX_PAGE_POINTS < length points then Inl BackendError.RequestTooLarge
     else
       bindE (batch_scan points {} (length name) env) (\<lambda>env.
       bindE (reserve_with BackendError.AllocationFailed env) (\<lambda>env.
       bindE (poll_each backend_check points env) (\<lambda>env.
       let message = \<lparr>ups_name = name, ups_wait = Some True, ups_points = map point_struct points, ups_insert_only = True\<rparr> in
       if MAX_REQUEST_BYTES < sv_encoded_len srv (UpsertMessage message) then Inl BackendError.RequestTooLarge
       else bindE (backend_check env) (\<lambda>env. Inr (message, env)))))))"

section \<open>Model: operations on collections\<close>

definition verify_schema :: "'r Server \<Rightarrow> BackendLimits \<Rightarrow> string \<Rightarrow> ('r, unit) rop" where
  "verify_schema srv limits name =
     bindR (liftR (collection_name name)) (\<lambda>_.
     bindR (request srv limits (InfoMessage name)) (\<lambda>_.
     bindR (rpc_call False (sv_info srv name)) (\<lambda>info.
     liftR (bindE (ok_or BackendError.MalformedResponse info) verify_info))))"

definition index_generation :: "'r Server \<Rightarrow> BackendLimits \<Rightarrow> string \<Rightarrow> ('r, unit) rop" where
  "index_generation srv limits name =
     bindR (request srv limits (IndexMessage (create_text_index name))) (\<lambda>_.
     bindR (rpc_call True (sv_index srv (create_text_index name))) (\<lambda>status.
     bindR (liftR (bindE (ok_or BackendError.UnknownDispatch status) completed)) (\<lambda>_.
     verify_schema srv limits name)))"

definition create_generation :: "'r Server \<Rightarrow> BackendLimits \<Rightarrow> string \<Rightarrow> ('r, unit) rop" where
  "create_generation srv limits name =
     bindR (liftR (collection_name name)) (\<lambda>_.
     bindR (request srv limits (CreateMessage (create_collection name))) (\<lambda>_.
     bindR (rpc_call True (sv_create srv (create_collection name))) (\<lambda>created.
     if \<not> created then failR BackendError.BackendRefused
     else mapErrR (\<lambda>_. BackendError.UnknownDispatch) (index_generation srv limits name))))"

definition collection_exists :: "'r Server \<Rightarrow> BackendLimits \<Rightarrow> string \<Rightarrow> ('r, bool) rop" where
  "collection_exists srv limits name =
     bindR (liftR (collection_name name)) (\<lambda>_.
     bindR (request srv limits (ExistsMessage name)) (\<lambda>_.
     bindR (rpc_call False (sv_exists srv name)) (\<lambda>found.
     liftR (ok_or BackendError.MalformedResponse found))))"

definition delete_generation :: "'r Server \<Rightarrow> BackendLimits \<Rightarrow> string \<Rightarrow> ('r, unit) rop" where
  "delete_generation srv limits name =
     bindR (liftR (collection_name name)) (\<lambda>_.
     bindR (collection_exists srv limits name) (\<lambda>found.
     if \<not> found then retR ()
     else
       bindR (request srv limits (DeleteMessage name)) (\<lambda>_.
       bindR (rpc_call True (sv_delete srv name)) (\<lambda>deleted.
       if \<not> deleted then failR BackendError.BackendRefused
       else bindR (collection_exists srv limits name) (\<lambda>found.
         if found then failR BackendError.BackendRefused else retR ())))))"

section \<open>Model: operations on points\<close>

definition batch_request_bytes :: "'r Server \<Rightarrow> string \<Rightarrow> PointInput list \<Rightarrow> env \<Rightarrow> BackendError + nat \<times> env" where
  "batch_request_bytes srv name points env =
     bindE (encode_batch srv name points env) (\<lambda>(message, env). Inr (sv_encoded_len srv (UpsertMessage message), env))"

definition insert_only :: "'r Server \<Rightarrow> BackendLimits \<Rightarrow> string \<Rightarrow> PointInput list \<Rightarrow> ('r, unit) rop" where
  "insert_only srv limits name points =
     (if bl_max_batch_points limits < length points then failR BackendError.RequestTooLarge
      else
        bindR (localR (encode_batch srv name points)) (\<lambda>message.
        bindR (request srv limits (UpsertMessage message)) (\<lambda>_.
        bindR (rpc_call True (sv_upsert srv message)) (\<lambda>status.
        liftR (bindE (ok_or BackendError.UnknownDispatch status) completed)))))"

fun match_points :: "PointInput list \<Rightarrow> RetrievedPoint list \<Rightarrow> bytes set \<Rightarrow> env \<Rightarrow> BackendError + unit \<times> env" where
  "match_points wanted [] seen env = Inr ((), env)"
| "match_points wanted (p # ps) seen env =
     bindE (backend_check env) (\<lambda>env.
     bindE (decode_id (rt_id p)) (\<lambda>i.
     if i \<in> seen \<or> rt_vectors p \<or> length (rt_payload p) \<noteq> 2 then Inl BackendError.PointMismatch
     else
       bindE (ok_or BackendError.PointMismatch (find (\<lambda>w. pt_id w = i) wanted)) (\<lambda>w.
       bindE (payload_source_id (rt_payload p)) (\<lambda>sid.
       if sid \<noteq> pt_source_id w then Inl BackendError.PointMismatch
       else
         bindE (payload_string (rt_payload p) TEXT_FIELD) (\<lambda>txt.
         if txt \<noteq> pt_text w then Inl BackendError.PointMismatch
         else match_points wanted ps (insert i seen) env)))))"

definition get_points :: "string \<Rightarrow> PointInput list \<Rightarrow> GetPoints" where
  "get_points name wanted = \<lparr>gt_name = name, gt_ids = map (\<lambda>p. point_id (pt_id p)) wanted, gt_with_vectors = Some False,
     gt_payload = Some [''source_id'', ''retrieval_text'']\<rparr>"

definition backend_verify_points :: "'r Server \<Rightarrow> BackendLimits \<Rightarrow> string \<Rightarrow> PointInput list \<Rightarrow> ('r, unit) rop" where
  "backend_verify_points srv limits name wanted =
     bindR (pollR backend_check) (\<lambda>_.
     bindR (liftR (collection_name name)) (\<lambda>_.
     if wanted = [] then retR ()
     else if bl_max_batch_points limits < length wanted then failR BackendError.RequestTooLarge
     else
       bindR (localR (encode_batch srv name wanted)) (\<lambda>_.
       bindR (request srv limits (GetMessage (get_points name wanted))) (\<lambda>_.
       bindR (rpc_call False (sv_get srv (get_points name wanted))) (\<lambda>found.
       if length wanted < length found then failR BackendError.ResponseTooLarge
       else if length found \<noteq> length wanted then failR BackendError.PointMismatch
       else localR (match_points wanted found {}))))))"

definition count_points :: "string \<Rightarrow> CountPoints" where
  "count_points name = \<lparr>ct_name = name, ct_exact = Some True\<rparr>"

definition count_exact :: "'r Server \<Rightarrow> BackendLimits \<Rightarrow> string \<Rightarrow> ('r, nat) rop" where
  "count_exact srv limits name =
     bindR (liftR (collection_name name)) (\<lambda>_.
     bindR (request srv limits (CountMessage (count_points name))) (\<lambda>_.
     bindR (rpc_call False (sv_count srv (count_points name))) (\<lambda>count.
     liftR (ok_or BackendError.MalformedResponse count))))"

section \<open>Model: queries\<close>

text \<open>
  The characters of a text, each as its UTF-8 bytes. Which characters are alphanumeric is decided by
  the Unicode tables of the standard library, a parameter here.
\<close>

function scalars :: "bytes \<Rightarrow> bytes list" where
  "scalars bs = (case scalar_width bs of None \<Rightarrow> [] | Some n \<Rightarrow> take n bs # scalars (drop n bs))"
  by pat_completeness auto
termination
  by (relation "measure length") (auto dest!: scalar_width_bounds)

declare scalars.simps [simp del]

definition separator :: "(bytes \<Rightarrow> bool) \<Rightarrow> bytes \<Rightarrow> bool" where
  "separator alnum c \<longleftrightarrow> \<not> alnum c \<and> c \<noteq> [95]"

text \<open>The non-overlapping occurrences of a non-empty pattern, from the left.\<close>

function match_indices :: "bytes \<Rightarrow> bytes \<Rightarrow> nat \<Rightarrow> nat list" where
  "match_indices txt p i =
     (if length txt < i + length p \<or> p = [] then []
      else if take (length p) (drop i txt) = p then i # match_indices txt p (i + length p)
      else match_indices txt p (i + 1))"
  by pat_completeness auto
termination
  by (relation "measure (\<lambda>(txt, p, i). length txt - i)")
    (auto simp flip: length_greater_0_conv simp del: length_greater_0_conv)

declare match_indices.simps [simp del]

fun saved_at :: "(bytes \<Rightarrow> bool) \<Rightarrow> bytes \<Rightarrow> bytes \<Rightarrow> nat list \<Rightarrow> env \<Rightarrow> BackendError + bool \<times> env" where
  "saved_at alnum txt p [] env = bindE (backend_check env) (\<lambda>env. Inr (False, env))"
| "saved_at alnum txt p (start # starts) env =
     bindE (backend_check env) (\<lambda>env.
     let before = scalars (take start txt); after = scalars (drop (start + length p) txt) in
     if (before = [] \<or> separator alnum (last before)) \<and> (after = [] \<or> separator alnum (hd after)) then Inr (True, env)
     else saved_at alnum txt p starts env)"

definition saved_word :: "(bytes \<Rightarrow> bool) \<Rightarrow> bytes \<Rightarrow> bytes \<Rightarrow> env \<Rightarrow> BackendError + bool \<times> env" where
  "saved_word alnum txt p env = saved_at alnum txt p (match_indices txt p 0) env"

definition query_message :: "string \<Rightarrow> PointInput \<Rightarrow> bytes \<Rightarrow> QueryPoints" where
  "query_message name wanted q = \<lparr>qp_name = name, qp_text = q, qp_k = (12, 10), qp_b = (75, 100),
     qp_idf_corpus = Some None, qp_using = TEXT_FIELD, qp_has_id = Some (point_id (pt_id wanted)), qp_limit = Some 1,
     qp_with_vectors = Some False, qp_payload = Some [''source_id'']\<rparr>"

definition not_positive :: "f32 \<Rightarrow> bool" where
  "not_positive score \<longleftrightarrow> bit score 31 \<or> score = 0"

definition verify_hit :: "ScoredPoint list \<Rightarrow> PointInput \<Rightarrow> BackendError + unit" where
  "verify_hit points wanted =
     (case points of
        [point] \<Rightarrow>
          if \<not> is_finite (sp_score point) \<or> rt_vectors (sp_point point) \<or> length (rt_payload (sp_point point)) \<noteq> 1
          then Inl BackendError.MalformedResponse
          else
            bindE (decode_id (rt_id (sp_point point))) (\<lambda>i.
            if i \<noteq> pt_id wanted then Inl BackendError.PointMismatch
            else
              bindE (payload_source_id (rt_payload (sp_point point))) (\<lambda>sid.
              if sid \<noteq> pt_source_id wanted then Inl BackendError.PointMismatch
              else if not_positive (sp_score point) then Inl BackendError.ReadinessNotProven
              else Inr ()))
      | [] \<Rightarrow> Inl BackendError.ReadinessNotProven
      | _ \<Rightarrow> Inl BackendError.ResponseTooLarge)"

definition verify_canary ::
  "(bytes \<Rightarrow> bool) \<Rightarrow> 'r Server \<Rightarrow> BackendLimits \<Rightarrow> string \<Rightarrow> PointInput \<Rightarrow> bytes \<Rightarrow> ('r, unit) rop" where
  "verify_canary alnum srv limits name wanted q =
     bindR (pollR backend_check) (\<lambda>_.
     bindR (liftR (collection_name name)) (\<lambda>_.
     if pt_text wanted = [] \<or> MAX_POINT_TEXT_BYTES < length (pt_text wanted) \<or> q = []
        \<or> (\<exists>c \<in> set (scalars q). separator alnum c) \<or> \<not> (\<exists>c \<in> set (scalars q). alnum c)
     then failR BackendError.InvalidInput
     else if bl_max_query_bytes limits < length q then failR BackendError.RequestTooLarge
     else
       bindR (localR (saved_word alnum (pt_text wanted) q)) (\<lambda>saved.
       if \<not> saved then failR BackendError.InvalidInput
       else
         bindR (request srv limits (QueryMessage (query_message name wanted q))) (\<lambda>_.
         bindR (rpc_call False (sv_query srv (query_message name wanted q))) (\<lambda>reply.
         bindR (pollR backend_check) (\<lambda>_.
         liftR (verify_hit reply wanted)))))))"

fun read_hits :: "ScoredPoint list \<Rightarrow> bytes set \<Rightarrow> env \<Rightarrow> BackendError + Hit list \<times> env" where
  "read_hits [] seen env = Inr ([], env)"
| "read_hits (p # ps) seen env =
     bindE (backend_check env) (\<lambda>env.
     bindE (decode_id (rt_id (sp_point p))) (\<lambda>i.
     if i \<in> seen \<or> \<not> is_finite (sp_score p) \<or> rt_vectors (sp_point p) \<or> length (rt_payload (sp_point p)) \<noteq> 1
     then Inl BackendError.MalformedResponse
     else
       bindE (payload_source_id (rt_payload (sp_point p))) (\<lambda>sid.
       bindE (read_hits ps (insert i seen) env) (\<lambda>(rest, env).
       Inr (\<lparr>hit_id = i, hit_source_id = sid, hit_score = sp_score p\<rparr> # rest, env)))))"

definition text_query :: "string \<Rightarrow> bytes \<Rightarrow> nat \<Rightarrow> QueryPoints" where
  "text_query name txt limit = \<lparr>qp_name = name, qp_text = txt, qp_k = (12, 10), qp_b = (75, 100),
     qp_idf_corpus = Some None, qp_using = TEXT_FIELD, qp_has_id = None, qp_limit = Some limit,
     qp_with_vectors = Some False, qp_payload = Some [''source_id'']\<rparr>"

definition query_text :: "'r Server \<Rightarrow> BackendLimits \<Rightarrow> string \<Rightarrow> bytes \<Rightarrow> nat \<Rightarrow> ('r, Hit list) rop" where
  "query_text srv limits name txt limit =
     bindR (pollR backend_check) (\<lambda>_.
     bindR (liftR (collection_name name)) (\<lambda>_.
     if txt = [] \<or> limit = 0 \<or> bl_max_hits limits < limit then failR BackendError.InvalidInput
     else if bl_max_query_bytes limits < length txt then failR BackendError.RequestTooLarge
     else
       bindR (request srv limits (QueryMessage (text_query name txt limit))) (\<lambda>_.
       bindR (rpc_call False (sv_query srv (text_query name txt limit))) (\<lambda>reply.
       if limit < length reply then failR BackendError.ResponseTooLarge
       else
         bindR (pollR (reserve_with BackendError.AllocationFailed)) (\<lambda>_.
         localR (read_hits reply {}))))))"

section \<open>Model: connecting\<close>

text \<open>
  An endpoint is \<open>scheme://authority\<close>; parsing the authority as a socket address is the standard
  library's, given here as whether the address is a loopback one and its port.
\<close>

fun split_once :: "string \<Rightarrow> (string \<times> string) option" where
  "split_once [] = None"
| "split_once (c # cs) =
     (if take 3 (c # cs) = ''://'' then Some ([], drop 3 (c # cs))
      else map_option (\<lambda>(a, b). (c # a, b)) (split_once cs))"

definition validate_endpoint :: "(string \<Rightarrow> (bool \<times> nat) option) \<Rightarrow> string \<Rightarrow> BackendError + bool" where
  "validate_endpoint socket endpoint =
     (if 256 < length endpoint then Inl BackendError.InvalidEndpoint
      else
        bindE (ok_or BackendError.InvalidEndpoint (split_once endpoint)) (\<lambda>(scheme, authority).
        if scheme \<noteq> ''http'' \<and> scheme \<noteq> ''https'' then Inl BackendError.InvalidEndpoint
        else
          bindE (ok_or BackendError.InvalidEndpoint (socket authority)) (\<lambda>(loopback, port).
          if \<not> loopback \<or> port = 0 then Inl BackendError.InvalidEndpoint else Inr (scheme = ''https''))))"

definition verify_connection :: "'r Server \<Rightarrow> BackendLimits \<Rightarrow> ('r, unit) rop" where
  "verify_connection srv limits =
     bindR (request srv limits HealthCheck) (\<lambda>_.
     bindR (rpc_call False (sv_health srv)) (\<lambda>version.
     if version \<noteq> ''1.20.0'' then failR BackendError.UnsupportedServer
     else
       bindR (request srv limits ListCollections) (\<lambda>_.
       rpc_call False (sv_list srv))))"

text \<open>The key is checked for its length; that it is a header value is part of \<open>obs_io\<close>.\<close>

definition backend_connect ::
  "(string \<Rightarrow> (bool \<times> nat) option) \<Rightarrow> 'r Server \<Rightarrow> string \<Rightarrow> string option \<Rightarrow> BackendLimits \<Rightarrow> ('r, unit) rop" where
  "backend_connect socket srv endpoint api_key limits =
     bindR (pollR synchronous) (\<lambda>_.
     bindR (pollR backend_check) (\<lambda>_.
     bindR (liftR (backend_limits_validate limits)) (\<lambda>_.
     bindR (liftR (validate_endpoint socket endpoint)) (\<lambda>tls.
     bindR (case api_key of None \<Rightarrow> retR ()
       | Some value \<Rightarrow> if value = [] \<or> 4096 < length value then failR BackendError.InvalidInput
           else pollR (io_with BackendError.InvalidInput)) (\<lambda>_.
     bindR (pollR (io_with BackendError.Transport)) (\<lambda>_.
     bindR (pollR time_left) (\<lambda>_.
     bindR (pollR (io_with BackendError.InvalidEndpoint)) (\<lambda>_.
     bindR (if tls then pollR (io_with BackendError.Transport) else retR ()) (\<lambda>_.
     bindR (rpc_run False (\<lambda>r. case sv_connect srv r of (res, r) \<Rightarrow> (mapErr (\<lambda>_. BackendError.Transport) res, r))) (\<lambda>_.
     verify_connection srv limits))))))))))"

end
