(* ===== verification/PublishedCorpus.thy ===== *)
theory PublishedCorpus
  imports Bridge PublicationProperties
begin

text \<open>
  Publication of the corpus (\<open>published_corpus.rs\<close> of the daemon): capture of the corpus, staging of
  its units into pages, upload to the index service, exhaustive verification of what the service
  holds, the switch of the current generation, and the cleanup of retired ones. The operations of
  \<open>publication.rs\<close> and of the bridge are the modelled ones. An operation works on a world: the
  control database, the state of the remote service and the observations left; every call takes the
  next environment of the observations.
\<close>

section \<open>Model: worlds and drivers\<close>

record 'r world =
  wd_db :: Database
  wd_remote :: 'r
  wd_obs :: "nat \<Rightarrow> env"

text \<open>What a publication is given: the hash, the root and its files, the JSON library, the service.\<close>

record 'r Site =
  site_hash :: "bytes \<Rightarrow> bytes"
  site_root :: path
  site_files :: files
  site_json :: Json
  site_server :: "'r Server"
  site_alnum :: "bytes \<Rightarrow> bool"
  site_random :: "bytes option"
  site_close_error :: string

type_synonym ('r, 'a) driver = "'r world \<Rightarrow> (string + 'a) \<times> 'r world"

definition skip_obs :: "'r world \<Rightarrow> 'r world" where
  "skip_obs w = w\<lparr>wd_obs := (\<lambda>i. wd_obs w (Suc i))\<rparr>"

definition retV :: "'a \<Rightarrow> ('r, 'a) driver" where
  "retV x = (\<lambda>w. (Inr x, w))"

definition failV :: "string \<Rightarrow> ('r, 'a) driver" where
  "failV e = (\<lambda>w. (Inl e, w))"

definition bindV :: "('r, 'a) driver \<Rightarrow> ('a \<Rightarrow> ('r, 'b) driver) \<Rightarrow> ('r, 'b) driver" where
  "bindV m k = (\<lambda>w. case m w of (Inl e, w) \<Rightarrow> (Inl e, w) | (Inr x, w) \<Rightarrow> k x w)"

definition liftV :: "string + 'a \<Rightarrow> ('r, 'a) driver" where
  "liftV res = (\<lambda>w. (res, w))"

text \<open>A call without effects, a read of the database, a transaction on it, and a remote operation.\<close>

definition localV :: "('e \<Rightarrow> string) \<Rightarrow> (env \<Rightarrow> 'e + 'a \<times> env) \<Rightarrow> ('r, 'a) driver" where
  "localV code f = (\<lambda>w. (mapErr code (bindE (f (wd_obs w 0)) (\<lambda>(x, _). Inr x)), skip_obs w))"

definition pollV :: "(env \<Rightarrow> string + env) \<Rightarrow> ('r, unit) driver" where
  "pollV p = localV (\<lambda>e. e) (\<lambda>env. bindE (p env) (\<lambda>env. Inr ((), env)))"

definition readV :: "(Database \<Rightarrow> env \<Rightarrow> PublicationError + 'a \<times> env) \<Rightarrow> ('r, 'a) driver" where
  "readV f = (\<lambda>w. localV publication_code (f (wd_db w)) w)"

definition editV :: "(Database \<Rightarrow> env \<Rightarrow> 'a dbres) \<Rightarrow> ('r, 'a) driver" where
  "editV f = (\<lambda>w. case f (wd_db w) (wd_obs w 0) of (res, db) \<Rightarrow>
     (mapErr publication_code (bindE res (\<lambda>(x, _). Inr x)), (skip_obs w)\<lparr>wd_db := db\<rparr>))"

definition tryV :: "('r, 'a) rop \<Rightarrow> ('r, BackendError + 'a) driver" where
  "tryV m = (\<lambda>w. case m (wd_obs w 0) (wd_remote w) of (res, r) \<Rightarrow>
     (Inr (bindE res (\<lambda>(x, _). Inr x)), (skip_obs w)\<lparr>wd_remote := r\<rparr>))"

definition remoteV :: "('r, 'a) rop \<Rightarrow> ('r, 'a) driver" where
  "remoteV m = bindV (tryV m) (\<lambda>res. liftV (mapErr backend_code res))"

lemma bindV_cong [fundef_cong]:
  "m w = m' w' \<Longrightarrow> (\<And>x w1. m' w' = (Inr x, w1) \<Longrightarrow> k x w1 = k' x w1) \<Longrightarrow> bindV m k w = bindV m' k' w'"
  by (auto simp: bindV_def split: sum.splits prod.splits)

definition corpus_check :: "('r, unit) driver" where
  "corpus_check = pollV (check_with ''PUBLICATION_CANCELLED'' ''PUBLICATION_DEADLINE'')"

definition corpus_limits :: PreparationLimits where
  "corpus_limits = \<lparr>pl_max_input_bytes = 8 * 1024 * 1024, pl_max_output_bytes = 8 * 1024 * 1024,
     pl_max_lines = 1000000, pl_max_units = 1000000, pl_max_encoded_bytes = 64 * 1024 * 1024\<rparr>"

definition corpus_alloc :: "('r, unit) driver" where
  "corpus_alloc = pollV (reserve_with ''PUBLICATION_ALLOCATION_FAILED'')"

section \<open>Model: hydration of points\<close>

record HydratedPoint =
  hp_point :: UploadPoint
  hp_text :: bytes

definition page_inputs :: "HydratedPoint list \<Rightarrow> PointInput list" where
  "page_inputs page = map (\<lambda>p. \<lparr>pt_id = up_id (hp_point p), pt_source_id = pe_source_id (up_evidence (hp_point p)),
     pt_text = hp_text p\<rparr>) page"

definition unit_text :: "PreparedUtf8 \<Rightarrow> PointEvidence \<Rightarrow> string + bytes" where
  "unit_text view e =
     bindE (ok_or ''PUBLICATION_CORRUPT'' (try_from u64_bound (pe_unit e))) (\<lambda>i.
     bindE (ok_or ''PUBLICATION_CORRUPT'' (get_at (pu_units view) i)) (\<lambda>u.
     if try_from u64_bound (us_start u) \<noteq> Some (pe_start e) \<or> try_from u64_bound (us_end u) \<noteq> Some (pe_end e)
        \<or> us_line_start u \<noteq> pe_line_start e \<or> us_line_end u \<noteq> pe_line_end e
        \<or> us_starts_at_line u \<noteq> pe_starts_at_line e \<or> us_ends_at_line u \<noteq> pe_ends_at_line e
     then Inl ''PUBLICATION_CORRUPT''
     else ok_or ''PUBLICATION_CORRUPT'' (str_get (pu_text view) (us_start u) (us_end u))))"

definition hydrate_point :: "PreparedUtf8 \<Rightarrow> CurrentSourceRecord \<Rightarrow> ObjectRef \<Rightarrow> UploadPoint \<Rightarrow> ('r, HydratedPoint) driver" where
  "hydrate_point view source art point =
     (if pe_namespace_id (up_evidence point) \<noteq> source_namespace_id source
         \<or> pe_input (up_evidence point) \<noteq> object_ref source \<or> pe_prepared (up_evidence point) \<noteq> art
      then failV ''PUBLICATION_CORRUPT''
      else
        bindV (liftV (unit_text view (up_evidence point))) (\<lambda>text.
        bindV corpus_alloc (\<lambda>_. retV \<lparr>hp_point = point, hp_text = text\<rparr>)))"

text \<open>The text of a ready artifact, read from the store and accepted by the decoder.\<close>

definition artifact_view :: "'r Site \<Rightarrow> CapturedSource \<Rightarrow> ObjectRef \<Rightarrow> ('r, PreparedUtf8) driver" where
  "artifact_view site captured art =
     bindV (localV object_code (\<lambda>env. case read_object (site_hash site) (site_root site) art (64 * 1024 * 1024) (site_files site, env) of
         (Inl e, _) \<Rightarrow> Inl e | (Inr stored, _) \<Rightarrow> Inr (stored, []))) (\<lambda>stored.
     localV prep_code (decode_prepared_utf8 (site_hash site) stored (ca_source captured)
       (cp_settings (ca_preparation captured)) corpus_limits))"

definition upload_page_on :: "'r Site \<Rightarrow> bool \<Rightarrow> Generation \<Rightarrow> nat \<Rightarrow> ('r, UploadPage) driver" where
  "upload_page_on site writer g number =
     readV (if writer then observe_database (read_saved_page (site_json site) g number)
            else read_upload_page (site_json site) g number)"

definition generation_source_on :: "'r Site \<Rightarrow> bool \<Rightarrow> Generation \<Rightarrow> bytes \<Rightarrow> ('r, CapturedSource) driver" where
  "generation_source_on site writer g sid =
     readV (if writer then observe_database (read_saved_source (site_json site) g sid)
            else read_generation_source (site_json site) g sid)"

record OpenSource =
  os_captured :: CapturedSource
  os_artifact :: ObjectRef
  os_view :: PreparedUtf8

definition open_source :: "'r Site \<Rightarrow> bool \<Rightarrow> Generation \<Rightarrow> bytes \<Rightarrow> ('r, OpenSource) driver" where
  "open_source site writer g sid =
     bindV corpus_check (\<lambda>_.
     bindV (generation_source_on site writer g sid) (\<lambda>captured.
     case ready_artifact captured of
       None \<Rightarrow> failV ''PUBLICATION_CORRUPT''
     | Some art \<Rightarrow>
         bindV (artifact_view site captured art) (\<lambda>view.
         retV \<lparr>os_captured = captured, os_artifact = art, os_view = view\<rparr>)))"

text \<open>
  A page whose points are hydrated: its measured size must be the recorded one, then it is visited.
  The result is the page after it, unless it was the last one.
\<close>

definition visit_page ::
  "'r Site \<Rightarrow> Generation \<Rightarrow> (nat \<Rightarrow> HydratedPoint list \<Rightarrow> 'v \<Rightarrow> ('r, 'v) driver) \<Rightarrow> nat \<Rightarrow> nat option \<Rightarrow>
   HydratedPoint list \<Rightarrow> 'v \<Rightarrow> ('r, 'v \<times> nat) driver" where
  "visit_page site g visit number request_bytes page v =
     bindV (localV backend_code (batch_request_bytes (site_server site) (collection g) (page_inputs page))) (\<lambda>wire.
     if (case request_bytes of None \<Rightarrow> False | Some recorded \<Rightarrow> try_from u64_bound wire \<noteq> Some recorded)
     then failV ''PUBLICATION_CORRUPT''
     else
       bindV (visit number page v) (\<lambda>v.
       bindV (liftV (ok_or ''PUBLICATION_LIMIT'' (checked_add64 number 1))) (\<lambda>number.
       retV (v, number))))"

text \<open>
  The pass over the pages (\<open>visit_pages\<close>): \<open>current\<close> is the source whose view is held. Points of that
  source are hydrated; when the next point is of another source, the view is given up and the next
  one opened; when the page is used up it is visited and the next page read. The loop ends because
  an opened source is that of the next point.
\<close>

lemma open_source_Inr:
  assumes "open_source site writer g sid w = (Inr os, w')"
  shows "source_id (ca_source (os_captured os)) = sid"
proof -
  have "source_id (ca_source c) = sid" if "read_saved_source j g sid db env = Inr (c, env')" for c j db env env'
    using that by (auto simp: read_saved_source_def res_simps split: if_splits)
  then have g: "source_id (ca_source c) = sid" if "generation_source_on site writer g sid w = (Inr c, w1)" for c w w1
    using that by (auto simp: generation_source_on_def readV_def localV_def read_generation_source_def observe_def
        observe_database_def res_simps mapErr_Inr split: if_splits)
  show ?thesis using assms g
    by (auto simp: open_source_def bindV_def retV_def failV_def split: sum.splits prod.splits option.splits)
qed

definition source_held :: "OpenSource option \<Rightarrow> UploadPoint list \<Rightarrow> nat" where
  "source_held current points = (case (current, points) of
     (None, _) \<Rightarrow> 1
   | (Some os, p # _) \<Rightarrow> (if pe_source_id (up_evidence p) = source_id (ca_source (os_captured os)) then 0 else 2)
   | (Some _, []) \<Rightarrow> 0)"

function visit_loop ::
  "'r Site \<Rightarrow> bool \<Rightarrow> Generation \<Rightarrow> nat \<Rightarrow> (nat \<Rightarrow> HydratedPoint list \<Rightarrow> 'v \<Rightarrow> ('r, 'v) driver) \<Rightarrow>
   nat \<Rightarrow> nat option \<Rightarrow> HydratedPoint list \<Rightarrow> OpenSource option \<Rightarrow> UploadPoint list \<Rightarrow> 'v \<Rightarrow> ('r, 'v) driver" where
  "visit_loop site writer g final visit number request_bytes hydrated None [] v w = failV ''PUBLICATION_CORRUPT'' w"
| "visit_loop site writer g final visit number request_bytes hydrated None (first # points) v w =
     bindV (open_source site writer g (pe_source_id (up_evidence first))) (\<lambda>os.
     visit_loop site writer g final visit number request_bytes hydrated (Some os) (first # points) v) w"
| "visit_loop site writer g final visit number request_bytes hydrated (Some os) (p # points) v w =
     (if pe_source_id (up_evidence p) = source_id (ca_source (os_captured os)) then
        bindV (bindV corpus_check (\<lambda>_. hydrate_point (os_view os) (ca_source (os_captured os)) (os_artifact os) p)) (\<lambda>h.
        visit_loop site writer g final visit number request_bytes (hydrated @ [h]) (Some os) points v) w
      else visit_loop site writer g final visit number request_bytes hydrated None (p # points) v w)"
| "visit_loop site writer g final visit number request_bytes hydrated (Some os) [] v w =
     bindV (visit_page site g visit number request_bytes hydrated v) (\<lambda>(v, following).
     if following = final then retV v
     else
       bindV (bindV corpus_check (\<lambda>_. upload_page_on site writer g following)) (\<lambda>page.
       bindV corpus_alloc (\<lambda>_.
       visit_loop site writer g final visit following (pg_request_bytes page) [] (Some os) (pg_points page) v))) w"
  by pat_completeness auto
termination
proof (relation "measures [\<lambda>(site, writer, g, final, visit, number, req, hydrated, current, points, v, w). u64_bound - number,
    \<lambda>(site, writer, g, final, visit, number, req, hydrated, current, points, v, w). length points,
    \<lambda>(site, writer, g, final, visit, number, req, hydrated, current, points, v, w). source_held current points]", goal_cases)
  case (2 site writer g final visit number req hydrated first points v w os w1)
  then show ?case by (auto simp: source_held_def dest!: open_source_Inr)
next
  case (5 site writer g final visit number req hydrated os v w pr w1 v' following)
  then show ?case
    by (auto simp: visit_page_def bindV_def retV_def failV_def liftV_def checked_add64_def split: sum.splits prod.splits if_splits)
qed (auto simp: source_held_def)

definition visit_pages ::
  "'r Site \<Rightarrow> bool \<Rightarrow> Generation \<Rightarrow> nat \<Rightarrow> nat \<Rightarrow> (nat \<Rightarrow> HydratedPoint list \<Rightarrow> 'v \<Rightarrow> ('r, 'v) driver) \<Rightarrow> 'v \<Rightarrow> ('r, 'v) driver" where
  "visit_pages site writer g start final visit v =
     (if final \<le> start then retV v
      else
        bindV (upload_page_on site writer g start) (\<lambda>page.
        bindV corpus_alloc (\<lambda>_.
        visit_loop site writer g final visit start (pg_request_bytes page) [] None (pg_points page) v)))"

section \<open>Model: staging\<close>

definition staged_inputs :: "PreparedUtf8 \<Rightarrow> UploadPoint list \<Rightarrow> string + PointInput list" where
  "staged_inputs view points = foldr (\<lambda>p rest. bindE (unit_text view (up_evidence p)) (\<lambda>text.
     bindE rest (\<lambda>rest. Inr (\<lparr>pt_id = up_id p, pt_source_id = pe_source_id (up_evidence p), pt_text = text\<rparr> # rest))))
     points (Inr [])"

definition oversized :: "UploadPage \<Rightarrow> BackendError + nat \<Rightarrow> string + bool" where
  "oversized page wire =
     (case page_size page of
        Inl e \<Rightarrow> if e = Limit then Inr True else Inl (publication_code e)
      | Inr n \<Rightarrow>
          if MAX_PAGE_BYTES < n then Inr True
          else (case wire of
              Inr n \<Rightarrow> Inr (MAX_REQUEST_BYTES < n)
            | Inl e \<Rightarrow> if e = BackendError.RequestTooLarge then Inr True else Inl (backend_code e)))"

text \<open>Pages too large for the table or the wire are halved until they fit; \<open>stack\<close> has the next page first.\<close>

function stage_stack :: "'r Site \<Rightarrow> PendingGeneration \<Rightarrow> PreparedUtf8 \<Rightarrow> UploadPage list \<Rightarrow> ('r, unit) driver" where
  "stage_stack site pending view [] w = retV () w"
| "stage_stack site pending view (page # stack) w =
     bindV corpus_check (\<lambda>_.
     bindV (liftV (staged_inputs view (pg_points page))) (\<lambda>wanted.
     bindV (localV (\<lambda>e. e) (\<lambda>env. Inr (bindE (batch_request_bytes (site_server site) (collection (pd_generation pending)) wanted env)
       (\<lambda>(n, _). Inr n), []))) (\<lambda>wire.
     bindV (liftV (oversized page wire)) (\<lambda>large.
     if large then
       if length (pg_points page) \<le> 1 then failV ''PUBLICATION_UNIT_TOO_LARGE''
       else
         let half = length (pg_points page) div 2 in
         stage_stack site pending view
           (page\<lparr>pg_points := take half (pg_points page)\<rparr>
            # \<lparr>pg_points = drop half (pg_points page), pg_request_bytes = None\<rparr> # stack)
     else
       bindV (liftV (mapErr backend_code wire)) (\<lambda>n.
       bindV (liftV (ok_or ''PUBLICATION_LIMIT'' (try_from u64_bound n))) (\<lambda>n.
       bindV (editV (stage_page (site_json site) pending (page\<lparr>pg_request_bytes := Some n\<rparr>))) (\<lambda>_.
       stage_stack site pending view stack))))))) w"
  by pat_completeness auto
termination
proof (relation "measures [\<lambda>(site, pending, view, stack, w). sum_list (map (\<lambda>p. 2 * length (pg_points p) - 1) stack),
    \<lambda>(site, pending, view, stack, w). length stack]", goal_cases)
  case (2 site pending view page stack)
  then show ?case by auto
qed auto

definition stage_complete_page ::
  "'r Site \<Rightarrow> PendingGeneration \<Rightarrow> UploadPage \<Rightarrow> PreparedUtf8 \<Rightarrow> ('r, unit) driver" where
  "stage_complete_page site pending page view = stage_stack site pending view [page]"

definition empty_page :: UploadPage where
  "empty_page = \<lparr>pg_points = [], pg_request_bytes = None\<rparr>"

definition unit_point ::
  "PendingGeneration \<Rightarrow> CapturedSource \<Rightarrow> ObjectRef \<Rightarrow> nat \<Rightarrow> nat \<Rightarrow> UnitSpan \<Rightarrow> UploadPoint" where
  "unit_point pending captured art point ordinal u =
     \<lparr>up_id = be_bytes (g_sequence (pd_generation pending)) @ be_bytes point,
      up_evidence = \<lparr>pe_namespace_id = source_namespace_id (ca_source captured), pe_source_id = source_id (ca_source captured),
        pe_input = object_ref (ca_source captured), pe_prepared = art, pe_unit = ordinal,
        pe_start = us_start u, pe_end = us_end u, pe_line_start = us_line_start u, pe_line_end = us_line_end u,
        pe_starts_at_line = us_starts_at_line u, pe_ends_at_line = us_ends_at_line u\<rparr>\<rparr>"

text \<open>The units of a source, from ordinal \<open>ordinal\<close>; the result is the last page and the next point.\<close>

fun stage_units ::
  "'r Site \<Rightarrow> PendingGeneration \<Rightarrow> CapturedSource \<Rightarrow> ObjectRef \<Rightarrow> PreparedUtf8 \<Rightarrow> nat \<Rightarrow> UnitSpan list \<Rightarrow> nat \<Rightarrow>
   UploadPage \<Rightarrow> ('r, UploadPage \<times> nat) driver" where
  "stage_units site pending captured art view ordinal [] point page = retV (page, point)"
| "stage_units site pending captured art view ordinal (u # us) point page =
     bindV corpus_check (\<lambda>_.
     bindV (liftV (ok_or ''PUBLICATION_LIMIT'' (checked_add64 point 1))) (\<lambda>next_point.
     bindV corpus_alloc (\<lambda>_.
     bindV (liftV (if {ordinal, us_start u, us_end u} \<subseteq> {..<u64_bound} then Inr () else Inl ''PUBLICATION_LIMIT'')) (\<lambda>_.
     let page = page\<lparr>pg_points := pg_points page @ [unit_point pending captured art point ordinal u]\<rparr> in
     if length (pg_points page) = MAX_PAGE_POINTS \<or> page_size page = Inl Limit
     then
       bindV (stage_complete_page site pending page view) (\<lambda>_.
       stage_units site pending captured art view (Suc ordinal) us next_point empty_page)
     else stage_units site pending captured art view (Suc ordinal) us next_point page))))"

definition stage_source :: "'r Site \<Rightarrow> PendingGeneration \<Rightarrow> CapturedSource \<Rightarrow> nat \<Rightarrow> ('r, nat) driver" where
  "stage_source site pending captured point =
     bindV (liftV (ok_or ''PUBLICATION_SOURCE_NOT_PREPARED'' (cp_outcome (ca_preparation captured)))) (\<lambda>out.
     case bo_result out of
       Gap _ \<Rightarrow> bindV (editV (finish_source (site_json site) pending (source_id (ca_source captured)) 0)) (\<lambda>_. retV point)
     | Ready art \<Rightarrow>
         bindV (artifact_view site captured art) (\<lambda>view.
         bindV (stage_units site pending captured art view 0 (pu_units view) point empty_page) (\<lambda>(page, point).
         bindV (if pg_points page \<noteq> [] then stage_complete_page site pending page view else retV ()) (\<lambda>_.
         bindV (liftV (ok_or ''PUBLICATION_LIMIT'' (try_from u64_bound (length (pu_units view))))) (\<lambda>n.
         bindV (editV (finish_source (site_json site) pending (source_id (ca_source captured)) n)) (\<lambda>_. retV point))))))"

fun stage_sources :: "'r Site \<Rightarrow> PendingGeneration \<Rightarrow> CapturedSource list \<Rightarrow> nat \<Rightarrow> ('r, unit) driver" where
  "stage_sources site pending [] point = retV ()"
| "stage_sources site pending (c # cs) point =
     bindV (stage_source site pending c point) (\<lambda>point. stage_sources site pending cs point)"

definition stage_capture :: "'r Site \<Rightarrow> PendingGeneration \<Rightarrow> CapturedSource list \<Rightarrow> ('r, PendingGeneration) driver" where
  "stage_capture site pending sources =
     bindV (stage_sources site pending sources 0) (\<lambda>_.
     editV (complete_capture (site_json site) pending))"

section \<open>Model: upload\<close>

definition settle_effect ::
  "'r Site \<Rightarrow> PendingGeneration \<Rightarrow> PendingOperation \<Rightarrow> nat \<Rightarrow> BackendError + unit \<Rightarrow> ('r, unit) driver" where
  "settle_effect site pending operation revision result =
     (if result = Inl BackendError.UnknownDispatch then failV (backend_code BackendError.UnknownDispatch)
      else
        bindV (editV (finish_dispatch (site_json site) pending operation revision (is_ok result))) (\<lambda>_.
        liftV (mapErr backend_code result)))"

definition reload_pending :: "'r Site \<Rightarrow> ('r, PendingGeneration) driver" where
  "reload_pending site =
     bindV (readV (load_pending (site_json site))) (\<lambda>pending.
     liftV (ok_or ''PUBLICATION_STALE'' pending))"

text \<open>One remote effect: recorded, dispatched, settled; the pending generation is read back.\<close>

definition dispatch_effect ::
  "'r Site \<Rightarrow> PendingGeneration \<Rightarrow> PendingOperation \<Rightarrow> ('r, unit) rop \<Rightarrow> ('r, PendingGeneration) driver" where
  "dispatch_effect site pending operation act =
     bindV (editV (record_dispatch (site_json site) pending operation)) (\<lambda>revision.
     bindV (tryV act) (\<lambda>result.
     bindV (settle_effect site pending operation revision result) (\<lambda>_.
     reload_pending site)))"

definition create_remote :: "'r Site \<Rightarrow> PendingGeneration \<Rightarrow> ('r, PendingGeneration) driver" where
  "create_remote site pending =
     (if pd_created pending then retV pending
      else
        bindV (remoteV (collection_exists (site_server site) backend_limits_default (collection (pd_generation pending)))) (\<lambda>found.
        if found then failV ''PUBLICATION_COLLECTION_CONFLICT''
        else dispatch_effect site pending Create
          (create_generation (site_server site) backend_limits_default (collection (pd_generation pending)))))"

definition upload_page ::
  "'r Site \<Rightarrow> string \<Rightarrow> nat \<Rightarrow> HydratedPoint list \<Rightarrow> PendingGeneration \<Rightarrow> ('r, PendingGeneration) driver" where
  "upload_page site name number page pending = dispatch_effect site pending (Insert number)
     (insert_only (site_server site) backend_limits_default name (page_inputs page))"

definition upload :: "'r Site \<Rightarrow> PendingGeneration \<Rightarrow> ('r, PendingGeneration) driver" where
  "upload site pending =
     bindV (create_remote site pending) (\<lambda>pending.
     bindV (remoteV (verify_schema (site_server site) backend_limits_default (collection (pd_generation pending)))) (\<lambda>_.
     bindV (visit_pages site True (pd_generation pending) (pd_uploaded_pages pending) (g_page_count (pd_generation pending))
       (upload_page site (collection (pd_generation pending))) pending) (\<lambda>_.
     reload_pending site)))"

section \<open>Model: verification of the service\<close>

text \<open>The maximal runs of alphanumeric characters and underscores.\<close>

fun code_words :: "(bytes \<Rightarrow> bool) \<Rightarrow> bytes list \<Rightarrow> bytes \<Rightarrow> bytes list" where
  "code_words alnum [] word = [word]"
| "code_words alnum (c # cs) word =
     (if separator alnum c then word # code_words alnum cs [] else code_words alnum cs (word @ c))"

definition has_alnum :: "(bytes \<Rightarrow> bool) \<Rightarrow> bytes \<Rightarrow> bool" where
  "has_alnum alnum text \<longleftrightarrow> list_ex alnum (scalars text)"

definition canary_query :: "(bytes \<Rightarrow> bool) \<Rightarrow> bytes \<Rightarrow> bytes option" where
  "canary_query alnum text =
     find (\<lambda>word. length word \<le> MAX_QUERY_BYTES \<and> has_alnum alnum word) (code_words alnum (scalars text) [])"

record Readiness =
  rd_canary :: bool
  rd_tokenless :: bool
  rd_points :: nat

fun check_words ::
  "'r Site \<Rightarrow> string \<Rightarrow> HydratedPoint list \<Rightarrow> Readiness \<Rightarrow> ('r, Readiness) driver" where
  "check_words site name [] v = retV v"
| "check_words site name (p # page) v =
     (let v = v\<lparr>rd_tokenless := rd_tokenless v \<and> \<not> has_alnum (site_alnum site) (hp_text p)\<rparr> in
      case (if rd_canary v then None else canary_query (site_alnum site) (hp_text p)) of
        None \<Rightarrow> check_words site name page v
      | Some word \<Rightarrow>
          bindV (remoteV (verify_canary (site_alnum site) (site_server site) backend_limits_default name
            (hd (page_inputs [p])) word)) (\<lambda>_.
          check_words site name page (v\<lparr>rd_canary := True\<rparr>)))"

definition verify_page :: "'r Site \<Rightarrow> string \<Rightarrow> nat \<Rightarrow> HydratedPoint list \<Rightarrow> Readiness \<Rightarrow> ('r, Readiness) driver" where
  "verify_page site name number page v =
     bindV corpus_check (\<lambda>_.
     bindV (remoteV (backend_verify_points (site_server site) backend_limits_default name (page_inputs page))) (\<lambda>_.
     bindV (check_words site name page v) (\<lambda>v.
     bindV (liftV (ok_or ''PUBLICATION_LIMIT'' (try_from u64_bound (length page)))) (\<lambda>n.
     bindV (liftV (ok_or ''PUBLICATION_LIMIT'' (checked_add64 (rd_points v) n))) (\<lambda>n.
     retV (v\<lparr>rd_points := n\<rparr>))))))"

definition verify_remote :: "'r Site \<Rightarrow> Generation \<Rightarrow> ('r, unit) driver" where
  "verify_remote site g =
     bindV (readV (validate_generation (site_json site) g)) (\<lambda>_.
     bindV (remoteV (verify_schema (site_server site) backend_limits_default (collection g))) (\<lambda>_.
     bindV (visit_pages site False g 0 (g_page_count g) (verify_page site (collection g))
       \<lparr>rd_canary = False, rd_tokenless = True, rd_points = 0\<rparr>) (\<lambda>v.
     bindV (remoteV (count_exact (site_server site) backend_limits_default (collection g))) (\<lambda>remote_count.
     if remote_count \<noteq> g_point_count g \<or> rd_points v \<noteq> g_point_count g then failV ''PUBLICATION_POINT_COUNT_MISMATCH''
     else if rd_points v \<noteq> 0 \<and> \<not> rd_canary v \<and> \<not> rd_tokenless v then failV ''PUBLICATION_READINESS_NOT_PROVEN''
     else retV ()))))"

section \<open>Model: cleanup\<close>

definition delete_remote :: "'r Site \<Rightarrow> RetiredGeneration \<Rightarrow> ('r, unit) driver" where
  "delete_remote site retired =
     (if \<not> rg_remote_owned retired then retV ()
      else
        let name = collection (rg_generation retired) in
        bindV (remoteV (delete_generation (site_server site) backend_limits_default name)) (\<lambda>_.
        bindV (remoteV (collection_exists (site_server site) backend_limits_default name)) (\<lambda>found.
        if found then failV ''PUBLICATION_CLEANUP_UNRESOLVED'' else retV ())))"

fun cleanup_each :: "'r Site \<Rightarrow> RetiredGeneration list \<Rightarrow> ('r, unit) driver" where
  "cleanup_each site [] = retV ()"
| "cleanup_each site (retired # rest) =
     bindV corpus_check (\<lambda>_.
     if rg_unresolved_build retired \<noteq> None then cleanup_each site rest
     else
       bindV (delete_remote site retired) (\<lambda>_.
       bindV (editV (finish_retirement (site_json site) retired)) (\<lambda>_.
       cleanup_each site rest)))"

definition cleanup :: "'r Site \<Rightarrow> ('r, unit) driver" where
  "cleanup site = bindV (readV (retired_generations (site_json site))) (cleanup_each site)"

section \<open>Model: publication\<close>

definition capture_on_writer :: "'r Site \<Rightarrow> ('r, CorpusCapture) driver" where
  "capture_on_writer site = readV (capture_corpus (site_json site))"

text \<open>A build whose remote effect is unknown is set aside; the capture is then taken again.\<close>

definition resume_capture :: "'r Site \<Rightarrow> ('r, CorpusCapture \<times> bool) driver" where
  "resume_capture site =
     bindV (capture_on_writer site) (\<lambda>capture.
     case cc_pending capture of
       None \<Rightarrow> retV (capture, False)
     | Some pending \<Rightarrow>
         if pd_in_flight pending \<noteq> None then
           bindV (editV (supersede_unknown_build (site_json site) pending)) (\<lambda>_.
           bindV (capture_on_writer site) (\<lambda>capture. retV (capture, True)))
         else retV (capture, False))"

definition drop_stale :: "'r Site \<Rightarrow> CorpusCapture \<Rightarrow> ('r, unit) driver" where
  "drop_stale site capture =
     (case cc_pending capture of
        None \<Rightarrow> retV ()
      | Some pending \<Rightarrow>
          if \<not> pd_capture_complete pending \<or> \<not> pending_matches capture then
            bindV (editV (abandon_build (site_json site) pending)) (\<lambda>_. failV ''PUBLICATION_STALE'')
          else retV ())"

definition build_pending :: "'r Site \<Rightarrow> CorpusCapture \<Rightarrow> ('r, PendingGeneration) driver" where
  "build_pending site capture =
     (case cc_pending capture of
        Some pending \<Rightarrow> retV pending
      | None \<Rightarrow>
          bindV (editV (start_build (site_json site) (site_random site) capture)) (\<lambda>pending.
          stage_capture site pending (cc_sources capture)))"

definition prepare_build :: "'r Site \<Rightarrow> ('r, Generation \<times> PendingGeneration option) driver" where
  "prepare_build site =
     bindV (resume_capture site) (\<lambda>(capture, superseded).
     bindV (drop_stale site capture) (\<lambda>_.
     bindV (cleanup site) (\<lambda>_.
     if cc_pending capture = None \<and> current_matches capture \<and> \<not> superseded then
       bindV (liftV (ok_or ''PUBLICATION_NOT_PUBLISHED'' (cc_current capture))) (\<lambda>g. retV (g, None))
     else
       bindV (build_pending site capture) (\<lambda>pending.
       bindV (upload site pending) (\<lambda>pending. retV (pd_generation pending, Some pending))))))"

text \<open>
  The writer is closed in any case; the polls before and after the close are reported first, then a
  failure of the close itself, whose code the store decides.
\<close>

definition control_check :: "('r, unit) driver" where
  "control_check = pollV (check_with ''cancelled'' ''deadline'')"

definition close_writer :: "'r Site \<Rightarrow> ('r, unit) driver" where
  "close_writer site w =
     (case control_check w of (before, w) \<Rightarrow>
      (case pollV (io_with (site_close_error site)) w of (closed, w) \<Rightarrow>
       (case control_check w of (after, w) \<Rightarrow>
        (bindE before (\<lambda>_. bindE after (\<lambda>_. closed)), w))))"

definition commit_build :: "'r Site \<Rightarrow> PendingGeneration \<Rightarrow> ('r, Generation) driver" where
  "commit_build site pending w =
     editV (\<lambda>db env. commit_generation (site_json site) pending db env (wd_obs w 1))
       (w\<lparr>wd_obs := (\<lambda>i. if i = 0 then wd_obs w 0 else wd_obs w (Suc i))\<rparr>)"

definition finish_publication ::
  "'r Site \<Rightarrow> Generation \<times> PendingGeneration option \<Rightarrow> ('r, PublishedView) driver" where
  "finish_publication site = (\<lambda>(g, pending).
     bindV (verify_remote site g) (\<lambda>_.
     bindV (case pending of None \<Rightarrow> retV g | Some pending \<Rightarrow> commit_build site pending) (\<lambda>g.
     bindV (readV (open_published (site_json site))) (\<lambda>view.
     if pv_generation view \<noteq> g then failV ''PUBLICATION_STALE'' else retV view))))"

definition prepare_view :: "'r Site \<Rightarrow> ('r, PublishedView) driver" where
  "prepare_view site w =
     (case prepare_build site w of (prepared, w) \<Rightarrow>
      bindV (close_writer site) (\<lambda>_. bindV (liftV prepared) (finish_publication site)) w)"

record PublicationResponse =
  pr_collection :: string
  pr_generation :: nat
  pr_source_count :: nat
  pr_gap_count :: nat
  pr_point_count :: nat
  pr_page_count :: nat

definition publication_response :: "PublishedView \<Rightarrow> PublicationResponse" where
  "publication_response view =
     (let g = pv_generation view in
      \<lparr>pr_collection = collection g, pr_generation = g_sequence g, pr_source_count = g_source_count g,
       pr_gap_count = g_gap_count g, pr_point_count = g_point_count g, pr_page_count = g_page_count g\<rparr>)"

definition backend_api_key :: "bytes option \<Rightarrow> string + string option" where
  "backend_api_key variable =
     (case variable of
        None \<Rightarrow> Inr None
      | Some value \<Rightarrow>
          if \<not> utf8_valid value \<or> value = [] \<or> 4096 < length value \<or> 0 \<in> set value
          then Inl ''BACKEND_AUTHENTICATION_FAILED'' else Inr (Some (of_bytes value)))"

definition publish ::
  "(string \<Rightarrow> (bool \<times> nat) option) \<Rightarrow> 'r Site \<Rightarrow> string \<Rightarrow> bytes option \<Rightarrow> ('r, PublishedView) driver" where
  "publish socket site endpoint variable w =
     (case bindV (liftV (backend_api_key variable)) (\<lambda>key.
        remoteV (backend_connect socket (site_server site) endpoint key backend_limits_default)) w of
        (Inr _, w) \<Rightarrow> prepare_view site w
      | (Inl e, w) \<Rightarrow> bindV (close_writer site) (\<lambda>_. failV e) w)"

end
