(* ===== verification/BridgeLaws.thy ===== *)
theory BridgeLaws
  imports Bridge "HOL-Library.Multiset"
begin

text \<open>
  Laws of the bridge: identities are spelled canonically and read back, a mutation that fails
  definitely had no effect, points that verify are exactly the expected ones, and the hits of a
  query are distinct and finite.
\<close>

section \<open>Identities\<close>

lemma hex_value_lower: "hex_value b = ok_or BackendError.MalformedResponse (lower_hex b)"
  by (simp add: hex_value_def lower_hex_def is_ascii_digit_def is_lower_af_def)

lemma nibbles_join:
  "list_all (\<lambda>h. list_all (\<lambda>l. (word_of_nat h :: byte) * 16 + word_of_nat l =
     push_bit 4 (word_of_nat h) OR word_of_nat l) [0..<16]) [0..<16]"
  by code_simp

lemma join_nibbles:
  assumes "unat h < 16" "unat l < 16"
  shows "h * 16 + l = (push_bit 4 h OR l :: byte)"
proof -
  have "(word_of_nat m :: byte) * 16 + word_of_nat n = push_bit 4 (word_of_nat m) OR word_of_nat n"
    if "m < 16" "n < 16" for m n using nibbles_join that by (auto simp: list_all_iff)
  from this [OF assms] show ?thesis by simp
qed

text \<open>The spelling of the last bytes of an identity, as the decoder walks it.\<close>

fun spelled :: "bytes \<Rightarrow> bytes" where
  "spelled [] = []"
| "spelled (b # bs) = (if 16 - Suc (length bs) \<in> {4, 6, 8, 10} then [45] else []) @ hex_bytes [b] @ spelled bs"

lemma decode_digits_spelled: "decode_digits (length bs) (spelled bs @ rest) = Inr bs"
proof (induction bs)
  case (Cons b bs)
  obtain h l where v: "lower_hex (hex_high b) = Some h" "lower_hex (hex_low b) = Some l" "push_bit 4 h OR l = b"
    using hex_digits_of_byte [of b] by (auto split: option.splits)
  have "unat h < 16" "unat l < 16"
    using lower_hex_value [of "hex_high b"] lower_hex_value [of "hex_low b"] v by simp_all
  then have "h * 16 + l = b" using join_nibbles v(3) by simp
  then show ?case using Cons.IH v by (simp add: hex_value_lower)
qed simp

lemma hex_digits_back:
  assumes "hex_value h = Inr x" "hex_value l = Inr y"
  shows "hex_bytes [x * 16 + y] = [h, l]"
proof -
  have v: "lower_hex h = Some x" "lower_hex l = Some y" using assms by (simp_all add: hex_value_lower res_simps)
  then have b: "unat x < 16" "hex_digits ! unat x = h" "unat y < 16" "hex_digits ! unat y = l"
    using lower_hex_value [of h] lower_hex_value [of l] by auto
  then show ?thesis by (simp add: join_nibbles hex_of_join)
qed

lemma decode_digits_Inr:
  "decode_digits n cs = Inr bs \<Longrightarrow> length bs = n \<and> (\<exists>rest. cs = spelled bs @ rest)"
proof (induction n arbitrary: cs bs)
  case (Suc n)
  obtain cs' where d: "cs = (if 16 - Suc n \<in> {4, 6, 8, 10} then [45] else []) @ cs'"
      "(case cs' of h # l # rest \<Rightarrow>
         bindE (hex_value h) (\<lambda>high. bindE (hex_value l) (\<lambda>low.
         bindE (decode_digits n rest) (\<lambda>out. Inr ((high * 16 + low) # out))))
     | _ \<Rightarrow> Inl BackendError.MalformedResponse) = Inr bs"
    using Suc.prems by (fastforce simp: res_simps split: if_splits list.splits)
  obtain h l rest x y out where p: "cs' = h # l # rest" "hex_value h = Inr x" "hex_value l = Inr y"
      "decode_digits n rest = Inr out" "bs = (x * 16 + y) # out"
    using d(2) by (auto simp: res_simps split: list.splits)
  obtain r where "length out = n" "rest = spelled out @ r" using Suc.IH [OF p(4)] by blast
  then show ?case using d(1) p(1,5) hex_digits_back [OF p(2,3)] by simp
qed simp

lemma length_spelled:
  "length bs \<le> 16 \<Longrightarrow> length (spelled bs) = 2 * length bs + of_bool (5 < length bs) + of_bool (7 < length bs)
     + of_bool (9 < length bs) + of_bool (11 < length bs)"
  by (induction bs) auto

lemma uuid_text_spelled: "length bs = 16 \<Longrightarrow> uuid_text bs = of_bytes (spelled bs)"
proof -
  have "length bs \<le> 16 \<Longrightarrow> concat (map (\<lambda>(i, b). (if i \<in> {4, 6, 8, 10} then ''-'' else []) @ hex_encode [b])
      (List.enumerate (16 - length bs) bs)) = of_bytes (spelled bs)"
  proof (induction bs)
    case (Cons b bs)
    then have "Suc (16 - Suc (length bs)) = 16 - length bs" by simp
    moreover have "CHR ''-'' = char_of (45 :: nat)" by code_simp
    ultimately show ?case using Cons by (simp add: hex_encode_def of_bytes_def)
  qed (simp add: of_bytes_def)
  then show "length bs = 16 \<Longrightarrow> ?thesis" by (simp add: uuid_text_def)
qed

lemma decode_id_iff: "length bs = 16 \<Longrightarrow> decode_id (Some i) = Inr bs \<longleftrightarrow> i = point_id bs"
proof
  assume len: "length bs = 16" and "i = point_id bs"
  then show "decode_id (Some i) = Inr bs"
    using decode_digits_spelled [of bs "[]"] length_spelled [of bs] by (simp add: decode_id_def point_id_def uuid_text_spelled)
next
  assume len: "length bs = 16" and d: "decode_id (Some i) = Inr bs"
  obtain cs where t: "i = Some (Uuid cs)" "length cs = 36" "decode_digits 16 (as_bytes cs) = Inr bs"
    using d by (auto simp: decode_id_def split: option.splits PointIdOptions.splits if_splits)
  obtain rest where r: "as_bytes cs = spelled bs @ rest" using decode_digits_Inr [OF t(3)] by blast
  then have "36 + length rest = length (as_bytes cs)" using length_spelled [of bs] len by simp
  then have "rest = []" using t(2) by simp
  then show "i = point_id bs" using r len t(1) by (metis append_Nil2 of_bytes_as_bytes point_id_def uuid_text_spelled)
qed

section \<open>Calls\<close>

named_theorems rop_simps \<open>inversion of remote operations\<close>

lemma bindR_Inr [rop_simps]:
  "bindR m k env r = (Inr y, r') \<longleftrightarrow> (\<exists>x env1 r1. m env r = (Inr (x, env1), r1) \<and> k x env1 r1 = (Inr y, r'))"
  by (auto simp: bindR_def split: sum.splits prod.splits)

lemma bindR_Inl [rop_simps]:
  "bindR m k env r = (Inl e, r') \<longleftrightarrow>
     m env r = (Inl e, r') \<or> (\<exists>x env1 r1. m env r = (Inr (x, env1), r1) \<and> k x env1 r1 = (Inl e, r'))"
  by (auto simp: bindR_def split: sum.splits prod.splits)

lemma basic_rops [rop_simps]:
  "retR x env r = (res, r') \<longleftrightarrow> res = Inr (x, env) \<and> r' = r"
  "failR e env r = (res, r') \<longleftrightarrow> res = Inl e \<and> r' = r"
  "localR f env r = (res, r') \<longleftrightarrow> f env = res \<and> r' = r"
  by (auto simp: retR_def failR_def localR_def)

lemma liftR_Inr [rop_simps]: "liftR res env r = (Inr (x, env'), r') \<longleftrightarrow> res = Inr x \<and> env' = env \<and> r' = r"
  by (auto simp: liftR_def split: sum.splits)

lemma liftR_Inl [rop_simps]: "liftR res env r = (Inl e, r') \<longleftrightarrow> res = Inl e \<and> r' = r"
  by (auto simp: liftR_def split: sum.splits)

lemma pollR_state [rop_simps]:
  "pollR p env r = (Inr (u, env'), r') \<longleftrightarrow> p env = Inr env' \<and> r' = r"
  "pollR p env r = (Inl e, r') \<longleftrightarrow> p env = Inl e \<and> r' = r"
  by (auto simp: pollR_def localR_def res_simps)

lemma await_Inr:
  "await mutation d reply act env r = (Inr (x, env'), r') \<Longrightarrow>
   (case reply of None \<Rightarrow> act r = (Inr x, r') | Some a \<Rightarrow> a = Inr x \<and> r' = r)"
proof (induction env arbitrary: d reply r)
  case Nil
  then show ?case by (auto split: option.splits sum.splits prod.splits)
next
  case (Cons ob env)
  obtain reply1 r1 where s: "(if reply = None \<and> (obs_landed ob \<or> \<not> obs_io ob)
      then (case act r of (answer, r) \<Rightarrow> (Some answer, r)) else (reply, r)) = (reply1, r1)" by (metis surj_pair)
  have u: "\<not> obs_cancelled ob" "\<not> obs_expired ob" using Cons.prems by (auto split: if_splits)
  have "case reply1 of None \<Rightarrow> act r1 = (Inr x, r') | Some a \<Rightarrow> a = Inr x \<and> r' = r1"
  proof (cases "obs_io ob")
    case True
    then show ?thesis using Cons.prems u s Cons.IH by (simp add: Let_def)
  next
    case False
    then show ?thesis using Cons.prems u s by (auto simp: Let_def split: option.splits sum.splits prod.splits if_splits)
  qed
  then show ?case using s by (cases reply) (auto split: if_splits prod.splits)
qed

lemma await_dispatched:
  "await True True reply act env r = (Inl e, r') \<Longrightarrow> e = BackendError.UnknownDispatch"
proof (induction env arbitrary: reply r)
  case Nil
  then show ?case by (auto simp: stopped_def Let_def split: option.splits sum.splits prod.splits)
next
  case (Cons ob env)
  obtain reply1 r1 where s: "(if reply = None \<and> (obs_landed ob \<or> \<not> obs_io ob)
      then (case act r of (answer, r) \<Rightarrow> (Some answer, r)) else (reply, r)) = (reply1, r1)" by (metis surj_pair)
  have n: "\<not> obs_io ob \<Longrightarrow> reply1 \<noteq> None" using s by (auto split: if_splits prod.splits)
  show ?case
  proof (cases "obs_cancelled ob \<or> obs_expired ob")
    case True
    then show ?thesis using Cons.prems by (auto simp: stopped_def split: if_splits)
  next
    case False
    then show ?thesis using Cons.prems s n Cons.IH
      by (cases "obs_io ob") (auto simp: stopped_def Let_def split: option.splits sum.splits)
  qed
qed

lemma await_fresh:
  assumes "await True False None act env r = (Inl e, r')" "e \<noteq> BackendError.UnknownDispatch"
  shows "r' = r"
proof (cases env)
  case Nil
  then show ?thesis using assms by (auto simp: stopped_def Let_def split: sum.splits prod.splits)
next
  case (Cons ob env1)
  then show ?thesis using assms
    by (auto simp: stopped_def Let_def split: if_splits sum.splits prod.splits dest: await_dispatched)
qed

lemma rpc_call_Inr: "rpc_call mutation act env r = (Inr (x, env'), r') \<Longrightarrow> act r = (Inr x, r')"
  by (auto simp: rpc_call_def rpc_run_def rop_simps res_simps dest!: await_Inr split: prod.splits)

lemma rpc_call_refused:
  "rpc_call True act env r = (Inl e, r') \<Longrightarrow> e = BackendError.UnknownDispatch \<or> r' = r"
  using await_fresh by (fastforce simp: rpc_call_def rpc_run_def rop_simps)

lemma request_state: "request srv limits m env r = (res, r') \<Longrightarrow> r' = r"
  by (cases res) (auto simp: request_def rop_simps split: if_splits)

section \<open>Mutations\<close>

lemma bindR_refused:
  assumes "bindR m k env r = (Inl e, r')"
  obtains "m env r = (Inl e, r')"
  | x env1 r1 where "m env r = (Inr (x, env1), r1)" "k x env1 r1 = (Inl e, r')"
  using assms by (cases "m env r") (auto simp: bindR_def split: sum.splits)

lemma completed_refused:
  "bindE (ok_or BackendError.UnknownDispatch s) completed = Inl e \<Longrightarrow>
   e = BackendError.UnknownDispatch \<or> e = BackendError.BackendRefused"
  by (cases s; cases "the s") auto

lemma insert_only_refused:
  assumes "insert_only srv limits name points env r = (Inl e, r')"
    and "e \<noteq> BackendError.UnknownDispatch" "e \<noteq> BackendError.BackendRefused"
  shows "r' = r"
proof (cases "bl_max_batch_points limits < length points")
  case True
  then show ?thesis using assms by (simp add: insert_only_def basic_rops)
next
  case False
  then have "bindR (localR (encode_batch srv name points)) (\<lambda>message.
      bindR (request srv limits (UpsertMessage message)) (\<lambda>_.
      bindR (rpc_call True (sv_upsert srv message)) (\<lambda>status.
      liftR (bindE (ok_or BackendError.UnknownDispatch status) completed)))) env r = (Inl e, r')"
    using assms(1) by (simp add: insert_only_def)
  then show ?thesis
  proof (elim bindR_refused)
    fix m env1 r1 u env2 r2 status env3 r3
    assume "liftR (bindE (ok_or BackendError.UnknownDispatch status) completed) env3 r3 = (Inl e, r')"
    then show ?thesis using completed_refused assms(2,3) by (auto simp: liftR_Inl)
  qed (use assms(2) in \<open>auto simp: basic_rops dest!: request_state rpc_call_refused\<close>)
qed

lemma create_generation_refused:
  assumes "create_generation srv limits name env r = (Inl e, r')"
    and "e \<noteq> BackendError.UnknownDispatch" "e \<noteq> BackendError.BackendRefused"
  shows "r' = r"
  using assms(1) unfolding create_generation_def
proof (elim bindR_refused)
  fix u env1 r1 v env2 r2 created env3 r3
  assume "(if \<not> created then failR BackendError.BackendRefused
      else mapErrR (\<lambda>_. BackendError.UnknownDispatch) (index_generation srv limits name)) env3 r3 = (Inl e, r')"
  then show ?thesis using assms(2,3)
    by (cases "index_generation srv limits name env3 r3") (auto simp: basic_rops mapErrR_def mapErr_def split: if_splits sum.splits)
qed (use assms(2) in \<open>auto simp: basic_rops liftR_Inl liftR_Inr dest!: request_state rpc_call_refused\<close>)

section \<open>Verified points\<close>

lemma batch_scan_Inr:
  "batch_scan ps ids n env = Inr env' \<Longrightarrow>
   distinct (map pt_id ps) \<and> ids \<inter> pt_id ` set ps = {} \<and> (\<forall>p \<in> set ps. pt_text p \<noteq> [] \<and> length (pt_text p) \<le> MAX_POINT_TEXT_BYTES)"
proof (induction ps arbitrary: ids n env)
  case (Cons p ps)
  then show ?case by (fastforce simp: res_simps split: if_splits)
qed simp

lemma encode_batch_Inr:
  assumes "encode_batch srv name points env = Inr (message, env')"
  shows "distinct (map pt_id points) \<and> points \<noteq> [] \<and> length points \<le> MAX_PAGE_POINTS \<and>
    (\<forall>p \<in> set points. pt_text p \<noteq> [] \<and> length (pt_text p) \<le> MAX_POINT_TEXT_BYTES) \<and>
    message = \<lparr>ups_name = name, ups_wait = Some True, ups_points = map point_struct points, ups_insert_only = True\<rparr> \<and>
    sv_encoded_len srv (UpsertMessage message) \<le> MAX_REQUEST_BYTES"
  using assms by (auto simp: encode_batch_def res_simps Let_def split: if_splits dest!: batch_scan_Inr)

text \<open>The point a service returned, as the bridge reads it.\<close>

definition point_of :: "RetrievedPoint \<Rightarrow> PointInput option" where
  "point_of p = (case (decode_id (rt_id p), payload_source_id (rt_payload p), payload_string (rt_payload p) TEXT_FIELD) of
     (Inr i, Inr sid, Inr txt) \<Rightarrow> Some \<lparr>pt_id = i, pt_source_id = sid, pt_text = txt\<rparr> | _ \<Rightarrow> None)"

lemma match_points_Inr:
  "match_points wanted found seen env = Inr ((), env') \<Longrightarrow>
   \<exists>ws. map point_of found = map Some ws \<and> set ws \<subseteq> set wanted \<and> distinct (map pt_id ws) \<and> seen \<inter> pt_id ` set ws = {}"
proof (induction found arbitrary: seen env)
  case (Cons p found)
  obtain env1 i w where p: "decode_id (rt_id p) = Inr i" "i \<notin> seen" "find (\<lambda>w. pt_id w = i) wanted = Some w"
      "payload_source_id (rt_payload p) = Inr (pt_source_id w)" "payload_string (rt_payload p) TEXT_FIELD = Inr (pt_text w)"
      "match_points wanted found (insert i seen) env1 = Inr ((), env')"
    using Cons.prems by (auto simp: res_simps split: if_splits)
  have w: "w \<in> set wanted" "pt_id w = i" using p(3) by (auto simp: find_Some_iff)
  obtain ws where ws: "map point_of found = map Some ws" "set ws \<subseteq> set wanted" "distinct (map pt_id ws)"
      "insert i seen \<inter> pt_id ` set ws = {}" using Cons.IH [OF p(6)] by blast
  have "point_of p = Some w" using p(1,4,5) w(2) by (simp add: point_of_def)
  then show ?case using ws w p(2) by (intro exI [of _ "w # ws"]) auto
qed simp

lemma verified_points:
  assumes "backend_verify_points srv limits name wanted env r = (Inr ((), env'), r')" "wanted \<noteq> []"
  shows "\<exists>found. sv_get srv (get_points name wanted) r = (Inr found, r') \<and>
    mset (map point_of found) = mset (map Some wanted) \<and> distinct (map pt_id wanted) \<and>
    (\<forall>w \<in> set wanted. pt_text w \<noteq> [])"
proof -
  obtain message env1 env2 where e: "encode_batch srv name wanted env1 = Inr (message, env2)"
    using assms by (auto simp: backend_verify_points_def rop_simps Let_def split: if_splits)
  note W = encode_batch_Inr [OF e]
  obtain found env3 env4 where f: "sv_get srv (get_points name wanted) r = (Inr found, r')"
      "length found = length wanted" "match_points wanted found {} env3 = Inr ((), env4)"
    using assms by (auto simp: backend_verify_points_def rop_simps Let_def split: if_splits dest!: request_state rpc_call_Inr)
  obtain ws where ws: "map point_of found = map Some ws" "set ws \<subseteq> set wanted" "distinct (map pt_id ws)"
    using match_points_Inr [OF f(3)] by blast
  have len: "length ws = length wanted" using ws(1) f(2) by (metis length_map)
  have d: "distinct ws" "distinct wanted" using ws(3) W by (auto simp: distinct_map)
  then have "card (set ws) = card (set wanted)" using len by (simp add: distinct_card)
  then have "set ws = set wanted" using ws(2) by (simp add: card_subset_eq)
  then have "mset ws = mset wanted" using d by (simp add: set_eq_iff_mset_eq_distinct)
  then have "mset (map point_of found) = mset (map Some wanted)" using ws(1) by simp
  then show ?thesis using f(1) W by blast
qed

end
