(* ===== verification/PublishedCorpusLaws.thy ===== *)
theory PublishedCorpusLaws
  imports PublishedCorpus BridgeLaws
begin

text \<open>
  A publication as a run of the machine of the control database: every driver, whatever the service
  answers and wherever it stops, makes only steps of \<open>publication_step\<close>, so every result about reachable
  states holds of the states it passes.
\<close>

section \<open>Drivers as runs\<close>

text \<open>
  The outcome of a driver from the world \<open>w\<close>: from any consistent machine state over its database
  that has the captures \<open>C\<close>, the machine reaches a state over the resulting database that has at
  least the same captures, and a result satisfies \<open>Q\<close> with the captures reached.
\<close>

definition runs_to ::
  "Json \<Rightarrow> CorpusCapture set \<Rightarrow> ('a \<Rightarrow> CorpusCapture set \<Rightarrow> bool) \<Rightarrow> 'r world \<Rightarrow> (string + 'a) \<times> 'r world \<Rightarrow> bool" where
  "runs_to j C Q w out \<longleftrightarrow> (\<forall>cs. system_inv j (wd_db w, cs) \<and> C \<subseteq> set cs \<longrightarrow>
     (\<exists>cs'. set cs \<subseteq> set cs' \<and> (publication_step j)\<^sup>*\<^sup>* (wd_db w, cs) (wd_db (snd out), cs') \<and>
       (\<forall>x. fst out = Inr x \<longrightarrow> Q x (set cs'))))"

definition runs :: "Json \<Rightarrow> CorpusCapture set \<Rightarrow> ('a \<Rightarrow> CorpusCapture set \<Rightarrow> bool) \<Rightarrow> ('r, 'a) driver \<Rightarrow> bool" where
  "runs j C Q m \<longleftrightarrow> (\<forall>w. runs_to j C Q w (m w))"

abbreviation "anything \<equiv> (\<lambda>_ _. True)"

named_theorems runs_intros \<open>composition of drivers\<close>

lemma steps_inv: "(publication_step j)\<^sup>*\<^sup>* (db, cs) (db', cs') \<Longrightarrow> system_inv j (db, cs) \<Longrightarrow> system_inv j (db', cs')"
  using publication_run by blast

lemma runsD: "runs j C Q m \<Longrightarrow> runs_to j C Q w (m w)"
  by (simp add: runs_def)

lemma runs_to_weaken: "runs_to j C Q w out \<Longrightarrow> (\<And>x D. Q x D \<Longrightarrow> R x D) \<Longrightarrow> runs_to j C R w out"
  unfolding runs_to_def by blast

lemma runs_to_more: "runs_to j C Q w out \<Longrightarrow> C \<subseteq> D \<Longrightarrow> runs_to j D Q w out"
  unfolding runs_to_def by blast

lemma runs_weaken: "runs j C Q m \<Longrightarrow> (\<And>x D. Q x D \<Longrightarrow> R x D) \<Longrightarrow> runs j C R m"
  unfolding runs_def using runs_to_weaken by blast

lemma runs_more: "runs j C Q m \<Longrightarrow> C \<subseteq> D \<Longrightarrow> runs j D Q m"
  unfolding runs_def using runs_to_more by blast

lemma runs_to_bind:
  assumes m: "runs_to j C Q w (m w)"
    and k: "\<And>x w1 D. m w = (Inr x, w1) \<Longrightarrow> Q x D \<Longrightarrow> C \<subseteq> D \<Longrightarrow> runs_to j D R w1 (k x w1)"
  shows "runs_to j C R w (bindV m k w)"
proof (cases "m w")
  case (Pair res w1)
  show ?thesis
  proof (cases res)
    case (Inl e)
    then show ?thesis using m Pair unfolding runs_to_def by (fastforce simp: bindV_def)
  next
    case (Inr x)
    show ?thesis unfolding runs_to_def
    proof (intro allI impI)
      fix cs assume c: "system_inv j (wd_db w, cs) \<and> C \<subseteq> set cs"
      then obtain cs1 where 1: "set cs \<subseteq> set cs1" "(publication_step j)\<^sup>*\<^sup>* (wd_db w, cs) (wd_db w1, cs1)" "Q x (set cs1)"
        using m Pair Inr unfolding runs_to_def by fastforce
      have "runs_to j (set cs1) R w1 (k x w1)" using k 1 c Pair Inr by blast
      moreover have "system_inv j (wd_db w1, cs1)" using steps_inv [OF 1(2)] c by blast
      ultimately obtain cs2 where 2: "set cs1 \<subseteq> set cs2" "(publication_step j)\<^sup>*\<^sup>* (wd_db w1, cs1) (wd_db (snd (k x w1)), cs2)"
          "\<forall>y. fst (k x w1) = Inr y \<longrightarrow> R y (set cs2)"
        unfolding runs_to_def by blast
      have "bindV m k w = k x w1" using Pair Inr by (simp add: bindV_def)
      then show "\<exists>cs'. set cs \<subseteq> set cs' \<and> (publication_step j)\<^sup>*\<^sup>* (wd_db w, cs) (wd_db (snd (bindV m k w)), cs') \<and>
          (\<forall>y. fst (bindV m k w) = Inr y \<longrightarrow> R y (set cs'))"
        using 1(1,2) 2 rtranclp_trans by (intro exI [of _ cs2]) (auto intro: rtranclp_trans)
    qed
  qed
qed

lemma runs_to_then:
  assumes "runs_to j C Q w (m w)" "\<And>x w1. m w = (Inr x, w1) \<Longrightarrow> runs_to j C R w1 (k x w1)"
  shows "runs_to j C R w (bindV m k w)"
  by (rule runs_to_bind [where m = m, OF assms(1)]) (use assms(2) runs_to_more in blast)

lemma runs_bind:
  assumes "runs j C Q m" "\<And>x D. Q x D \<Longrightarrow> C \<subseteq> D \<Longrightarrow> runs j D R (k x)"
  shows "runs j C R (bindV m k)"
  unfolding runs_def
proof
  fix w
  show "runs_to j C R w (bindV m k w)"
    by (rule runs_to_bind [where m = m, OF runsD [OF assms(1)]]) (use assms(2) runsD in blast)
qed

lemma runs_quiet:
  fixes m :: "('r, 'a) driver"
  assumes "\<And>w. wd_db (snd (m w)) = wd_db w" "\<And>w x D. fst (m w) = Inr x \<Longrightarrow> C \<subseteq> D \<Longrightarrow> Q x D"
  shows "runs j C Q m"
  unfolding runs_def runs_to_def
proof (intro allI impI)
  fix w :: "'r world" and cs assume c: "system_inv j (wd_db w, cs) \<and> C \<subseteq> set cs"
  show "\<exists>cs'. set cs \<subseteq> set cs' \<and> (publication_step j)\<^sup>*\<^sup>* (wd_db w, cs) (wd_db (snd (m w)), cs') \<and>
      (\<forall>x. fst (m w) = Inr x \<longrightarrow> Q x (set cs'))"
    using assms c by (intro exI [of _ cs]) auto
qed

lemma runs_ret: "(\<And>D. C \<subseteq> D \<Longrightarrow> Q x D) \<Longrightarrow> runs j C Q (retV x)"
  by (rule runs_quiet) (auto simp: retV_def)

lemma runs_basic [runs_intros]:
  "runs j C anything (retV x)" "runs j C Q (failV e)" "runs j C anything (liftV res)"
  "runs j C anything (localV code f)" "runs j C anything (pollV p)" "runs j C anything (readV g)"
  "runs j C anything corpus_check" "runs j C anything corpus_alloc" "runs j C anything (tryV act)"
  by (rule runs_quiet; auto simp: retV_def failV_def liftV_def localV_def pollV_def readV_def tryV_def skip_obs_def
      corpus_check_def corpus_alloc_def split: prod.splits)+

lemma runs_seq [runs_intros]:
  "runs j C anything m \<Longrightarrow> (\<And>x. runs j C R (k x)) \<Longrightarrow> runs j C R (bindV m k)"
  using runs_bind [of j C anything m R k] runs_more by blast

lemma runs_if [runs_intros]: "(b \<Longrightarrow> runs j C Q m) \<Longrightarrow> (\<not> b \<Longrightarrow> runs j C Q m') \<Longrightarrow> runs j C Q (if b then m else m')"
  by simp

lemma runs_remote [runs_intros]: "runs j C anything (remoteV act)"
  unfolding remoteV_def by (intro runs_intros)

text \<open>A transaction that is a step of the machine.\<close>

lemma runs_edit:
  fixes f :: "Database \<Rightarrow> env \<Rightarrow> 'a dbres"
  assumes "\<And>cs db env res db'. C \<subseteq> set cs \<Longrightarrow> f db env = (res, db') \<Longrightarrow> publication_step j (db, cs) (db', cs)"
  shows "runs j C anything (editV f :: ('r, 'a) driver)"
  unfolding runs_def runs_to_def
proof (intro allI impI)
  fix w :: "'r world" and cs assume c: "system_inv j (wd_db w, cs) \<and> C \<subseteq> set cs"
  obtain res db' where f: "f (wd_db w) (wd_obs w 0) = (res, db')" by (metis surj_pair)
  have "publication_step j (wd_db w, cs) (db', cs)" using assms f c by blast
  moreover have "wd_db (snd (editV f w)) = db'" using f by (simp add: editV_def skip_obs_def)
  ultimately show "\<exists>cs'. set cs \<subseteq> set cs' \<and> (publication_step j)\<^sup>*\<^sup>* (wd_db w, cs) (wd_db (snd (editV f w)), cs') \<and>
      (\<forall>x. fst (editV f w) = Inr x \<longrightarrow> True)" by (intro exI [of _ cs]) auto
qed

lemma runs_edits [runs_intros]:
  "runs j C anything (editV (finish_source j p sid units))"
  "runs j C anything (editV (complete_capture j p))"
  "runs j C anything (editV (record_dispatch j p op))"
  "runs j C anything (editV (finish_dispatch j p op revision applied))"
  "runs j C anything (editV (abandon_build j p))"
  "runs j C anything (editV (supersede_unknown_build j p))"
  "wf_page page \<Longrightarrow> runs j C anything (editV (stage_page j p page))"
  "c \<in> C \<Longrightarrow> runs j C anything (editV (start_build j rnd c))"
  "g_sequence (rg_generation retired) < u64_bound \<Longrightarrow> runs j C anything (editV (finish_retirement j retired))"
  by (rule runs_edit; auto intro: publication_steps)+

section \<open>The pass over the pages\<close>

lemma runs_hydrate [runs_intros]: "runs j C anything (hydrate_point view source art p)"
  unfolding hydrate_point_def by (intro runs_intros)

lemma runs_artifact [runs_intros]: "runs j C anything (artifact_view site captured art)"
  unfolding artifact_view_def by (intro runs_intros)

lemma runs_reads [runs_intros]:
  "runs j C anything (upload_page_on site writer g n)" "runs j C anything (generation_source_on site writer g sid)"
  unfolding upload_page_on_def generation_source_on_def by (intro runs_intros)+

lemma runs_open [runs_intros]: "runs j C anything (open_source site writer g sid)"
  unfolding open_source_def
proof (intro runs_intros)
  fix captured :: CapturedSource
  show "runs j C anything (case ready_artifact captured of None \<Rightarrow> failV ''PUBLICATION_CORRUPT''
      | Some art \<Rightarrow> bindV (artifact_view site captured art) (\<lambda>view.
          retV \<lparr>os_captured = captured, os_artifact = art, os_view = view\<rparr>))"
    by (cases "ready_artifact captured") (auto intro!: runs_intros)
qed

lemma runs_visit_page [runs_intros]:
  "(\<And>page v. runs j C anything (visit number page v)) \<Longrightarrow> runs j C anything (visit_page site g visit number req hydrated v)"
  unfolding visit_page_def by (intro runs_intros)

lemma runs_visit_loop:
  assumes visit: "\<And>n page v. runs j C anything (visit n page v)"
  shows "runs_to j C anything w (visit_loop site writer g final visit number req hydrated current points v w)"
  using visit
proof (induction site writer g final visit number req hydrated current points v w rule: visit_loop.induct)
  case (1 site writer g final visit number req hydrated v w)
  then show ?case by (simp add: runsD runs_intros)
next
  case (2 site writer g final visit number req hydrated first points v w)
  show ?case
    by (subst visit_loop.simps(2), rule runs_to_then [OF runsD [OF runs_open]]) (rule "2.IH" [OF _ "2.prems"])
next
  case (3 site writer g final visit number req hydrated os p points v w)
  show ?case
  proof (cases "pe_source_id (up_evidence p) = source_id (ca_source (os_captured os))")
    case True
    have "runs j C anything (bindV corpus_check (\<lambda>_. hydrate_point (os_view os) (ca_source (os_captured os)) (os_artifact os) p))"
      by (intro runs_intros)
    from runsD [OF this] have "runs_to j C anything w (bindV (bindV corpus_check (\<lambda>_. hydrate_point (os_view os)
        (ca_source (os_captured os)) (os_artifact os) p)) (\<lambda>h. visit_loop site writer g final visit number req
        (hydrated @ [h]) (Some os) points v) w)"
      by (rule runs_to_then) (rule "3.IH"(1) [OF True _ "3.prems"])
    then show ?thesis using True by simp
  next
    case False
    then show ?thesis using "3.IH"(2) [OF False "3.prems"] by simp
  qed
next
  case (4 site writer g final visit number req hydrated os v w)
  show ?case
  proof (subst visit_loop.simps(4), rule runs_to_then [OF runsD [OF runs_visit_page [OF "4.prems"]]])
    fix x w1 assume m: "visit_page site g visit number req hydrated v w = (Inr x, w1)"
    obtain v' following where x: "x = (v', following)" by (cases x)
    have r: "runs j C anything (bindV corpus_check (\<lambda>_. upload_page_on site writer g following))" by (intro runs_intros)
    show "runs_to j C anything w1 ((case x of (v, following) \<Rightarrow> if following = final then retV v
       else bindV (bindV corpus_check (\<lambda>_. upload_page_on site writer g following)) (\<lambda>page.
         bindV corpus_alloc (\<lambda>_. visit_loop site writer g final visit following (pg_request_bytes page) []
           (Some os) (pg_points page) v))) w1)"
    proof (cases "following = final")
      case True
      then show ?thesis using x by (simp add: runsD runs_intros)
    next
      case False
      have "runs_to j C anything w1 (bindV (bindV corpus_check (\<lambda>_. upload_page_on site writer g following)) (\<lambda>page.
         bindV corpus_alloc (\<lambda>_. visit_loop site writer g final visit following (pg_request_bytes page) []
           (Some os) (pg_points page) v')) w1)"
        by (intro runs_to_then [OF runsD [OF r]] runs_to_then [OF runsD [OF runs_basic(8)]] "4.IH" [OF m x [symmetric] False])
          (use "4.prems" in auto)
      then show ?thesis using x False by simp
    qed
  qed
qed

lemma runs_visit_pages [runs_intros]:
  assumes "\<And>n page v. runs j C anything (visit n page v)"
  shows "runs j C anything (visit_pages site writer g start final visit v)"
proof -
  have "runs j C anything (visit_loop site writer g final visit n req hydrated current points v)" for n req hydrated current points v
    unfolding runs_def by (intro allI runs_visit_loop) (rule assms)
  then show ?thesis unfolding visit_pages_def by (intro runs_intros)
qed

section \<open>Staging\<close>

lemma runs_storable:
  fixes m :: "('r, 'a) driver"
  assumes "(\<And>c x. c \<in> C \<Longrightarrow> x \<in> set (cc_sources c) \<Longrightarrow> storable_entry (fresh_entry x)) \<Longrightarrow> runs j C Q m"
  shows "runs j C Q m"
  unfolding runs_def runs_to_def
proof (intro allI impI)
  fix w :: "'r world" and cs assume c: "system_inv j (wd_db w, cs) \<and> C \<subseteq> set cs"
  then have "\<And>c x. c \<in> C \<Longrightarrow> x \<in> set (cc_sources c) \<Longrightarrow> storable_entry (fresh_entry x)"
    by (auto simp: system_inv_def capture_ok_def)
  then have "runs j C Q m" by (intro assms)
  note r = runsD [OF this, of w, unfolded runs_to_def, rule_format, OF c]
  show "\<exists>cs'. set cs \<subseteq> set cs' \<and> (publication_step j)\<^sup>*\<^sup>* (wd_db w, cs) (wd_db (snd (m w)), cs') \<and>
      (\<forall>x. fst (m w) = Inr x \<longrightarrow> Q x (set cs'))"
    using r by simp
qed

definition page_weight :: "nat \<Rightarrow> nat" where
  "page_weight n = (if n \<le> 1 then 1 else 2 * n - 1)"

definition stack_weight :: "UploadPage list \<Rightarrow> nat" where
  "stack_weight stack = sum_list (map (\<lambda>p. page_weight (length (pg_points p))) stack)"

lemma halves_weight: "\<not> n \<le> 1 \<Longrightarrow> page_weight (n div 2) + page_weight (n - n div 2) < page_weight n"
  by (auto simp: page_weight_def)

lemma runs_stage_stack:
  "\<forall>p \<in> set stack. wf_page p \<Longrightarrow> runs (site_json site) C anything (stage_stack site pending view stack)"
proof (induction "stack_weight stack" arbitrary: stack rule: less_induct)
  case less
  show ?case
  proof (cases stack)
    case Nil
    then have "stage_stack site pending view stack = retV ()" by (simp add: fun_eq_iff)
    then show ?thesis by (simp add: runs_intros)
  next
    case (Cons page rest)
    let ?n = "length (pg_points page)"
    let ?halves = "page\<lparr>pg_points := take (?n div 2) (pg_points page)\<rparr>
            # \<lparr>pg_points = drop (?n div 2) (pg_points page), pg_request_bytes = None\<rparr> # rest"
    have w: "wf_page page" "\<forall>p \<in> set rest. wf_page p" using less.prems Cons by simp_all
    have rest: "runs (site_json site) C anything (stage_stack site pending view rest)"
      using less.hyps [of rest] w(2) Cons by (simp add: stack_weight_def page_weight_def)
    have halves: "runs (site_json site) C anything (stage_stack site pending view ?halves)" if "\<not> ?n \<le> 1"
    proof (rule less.hyps)
      have "min ?n (?n div 2) = ?n div 2" by simp
      then show "stack_weight ?halves < stack_weight stack"
        using halves_weight [OF that] Cons by (simp add: stack_weight_def)
      show "\<forall>p \<in> set ?halves. wf_page p"
        using w by (auto simp: wf_page_def dest: in_set_takeD in_set_dropD)
    qed
    have page: "wf_page (page\<lparr>pg_request_bytes := Some n\<rparr>)" for n using w(1) by (simp add: wf_page_def)
    have "stage_stack site pending view stack = bindV corpus_check (\<lambda>_.
     bindV (liftV (staged_inputs view (pg_points page))) (\<lambda>wanted.
     bindV (localV (\<lambda>e. e) (\<lambda>env. Inr (bindE (batch_request_bytes (site_server site) (collection (pd_generation pending)) wanted env)
       (\<lambda>(n, _). Inr n), []))) (\<lambda>wire.
     bindV (liftV (oversized page wire)) (\<lambda>large.
     if large then
       if ?n \<le> 1 then failV ''PUBLICATION_UNIT_TOO_LARGE'' else stage_stack site pending view ?halves
     else
       bindV (liftV (mapErr backend_code wire)) (\<lambda>n.
       bindV (liftV (ok_or ''PUBLICATION_LIMIT'' (try_from u64_bound n))) (\<lambda>n.
       bindV (editV (stage_page (site_json site) pending (page\<lparr>pg_request_bytes := Some n\<rparr>))) (\<lambda>_.
       stage_stack site pending view rest)))))))"
      unfolding Cons by (rule ext, subst stage_stack.simps(2)) (simp only: Let_def)
    then show ?thesis by (simp only:) (intro runs_intros rest halves page)
  qed
qed

lemma unit_point_wf:
  assumes "storable_entry (fresh_entry captured)" "length (digest art) = 32" "wf_unit u" "ordinal < u64_bound"
  shows "wf_point (unit_point pending captured art point ordinal u)"
  using assms
  by (simp add: wf_point_def wf_evidence_def unit_point_def storable_entry_def fresh_entry_def storable_source_def
      wf_source_def wf_object_def wf_unit_def)

lemma units_fit_wf: "units_from (fit_end bs h) bs s us \<Longrightarrow> length bs < u64_bound \<Longrightarrow> \<forall>u \<in> set us. wf_unit u"
proof (induction us arbitrary: s)
  case (Cons u us)
  then have u: "u = span_of bs s (us_end u)" "s < us_end u" "us_end u \<le> length bs" by (auto simp: fit_end_def)
  then show ?case using Cons span_of_wf [OF Cons.prems(2) u(2,3)] by auto
qed simp

lemma view_units_wf:
  assumes "decode_prepared_utf8 blake3 stored source settings limits env = Inr (p, env')"
  shows "\<forall>u \<in> set (pu_units p). wf_unit u"
  using decode_Inr [OF assms]
  by (intro units_fit_wf [where s = 0]) (auto simp: input_of_def admitted_def MAX_SOURCE_OBJECT_BYTES_def)

lemma artifact_view_units:
  "artifact_view site captured art w = (Inr view, w') \<Longrightarrow> \<forall>u \<in> set (pu_units view). wf_unit u"
  by (auto simp: artifact_view_def bindV_def localV_def mapErr_Inr res_simps split: sum.splits prod.splits
      dest!: view_units_wf)

lemma runs_then:
  assumes "runs j C anything m" "\<And>w x w1. m w = (Inr x, w1) \<Longrightarrow> runs j C R (k x)"
  shows "runs j C R (bindV m k)"
  unfolding runs_def by (intro allI runs_to_then [OF runsD [OF assms(1)]]) (rule runsD [OF assms(2)])

abbreviation wf_rest :: "UploadPage \<times> nat \<Rightarrow> CorpusCapture set \<Rightarrow> bool" where
  "wf_rest \<equiv> \<lambda>(page, point) _. wf_page page"

lemma empty_page_wf: "wf_page empty_page"
  by (simp add: wf_page_def empty_page_def)

lemma runs_stage_units:
  fixes site :: "'r Site"
  assumes "storable_entry (fresh_entry captured)" "length (digest art) = 32"
  shows "\<forall>u \<in> set us. wf_unit u \<Longrightarrow> wf_page page \<Longrightarrow>
    runs (site_json site) C wf_rest (stage_units site pending captured art view ordinal us point page)"
proof (induction us arbitrary: ordinal point page)
  case Nil
  then show ?case by (simp add: runs_ret)
next
  case (Cons u us)
  let ?page = "page\<lparr>pg_points := pg_points page @ [unit_point pending captured art point ordinal u]\<rparr>"
  have rest: "runs (site_json site) C wf_rest (stage_units site pending captured art view (Suc ordinal) us n q)"
    if "wf_page q" for n q using Cons that by simp
  have page: "wf_page ?page" if "ordinal < u64_bound"
    using Cons.prems unit_point_wf [OF assms _ that] by (auto simp: wf_page_def)
  have full: "runs (site_json site) C anything (stage_complete_page site pending ?page view)" if "ordinal < u64_bound"
    unfolding stage_complete_page_def using page [OF that] by (intro runs_stage_stack) simp
  have last: "runs (site_json site) C wf_rest (bindV (liftV (if {ordinal, us_start u, us_end u} \<subseteq> {..<u64_bound} then Inr ()
      else Inl ''PUBLICATION_LIMIT'')) (\<lambda>_.
     if length (pg_points ?page) = MAX_PAGE_POINTS \<or> page_size ?page = Inl Limit
     then bindV (stage_complete_page site pending ?page view) (\<lambda>_.
       stage_units site pending captured art view (Suc ordinal) us n empty_page)
     else stage_units site pending captured art view (Suc ordinal) us n ?page))" (is "runs _ _ _ (bindV ?m ?k)") for n
  proof (rule runs_then)
    fix w :: "'r world" and x :: unit and w1
    assume "?m w = (Inr x, w1)"
    then have b: "ordinal < u64_bound" by (simp add: liftV_def split: if_splits)
    show "runs (site_json site) C wf_rest (?k x)"
      by (intro runs_intros full [OF b] rest empty_page_wf page [OF b])
  qed (rule runs_intros)
  show ?case unfolding stage_units.simps Let_def by (intro runs_intros last)
qed

lemma ready_digest:
  assumes "storable_entry (fresh_entry captured)" "cp_outcome (ca_preparation captured) = Some out" "bo_result out = Ready art"
  shows "length (digest art) = 32"
  using assms by (auto simp: storable_entry_def fresh_entry_def storable_prep_def wf_bound_def wf_object_def)

lemma runs_stage_source:
  assumes "storable_entry (fresh_entry captured)"
  shows "runs (site_json site) C anything (stage_source site pending captured point)"
  unfolding stage_source_def
proof (rule runs_then [OF runs_basic(3)])
  fix w x and w1 :: "'a world"
  assume "liftV (ok_or ''PUBLICATION_SOURCE_NOT_PREPARED'' (cp_outcome (ca_preparation captured))) w = (Inr x, w1)"
  then have out: "cp_outcome (ca_preparation captured) = Some x" by (simp add: liftV_def ok_or_def split: option.splits)
  show "runs (site_json site) C anything (case bo_result x of
       Gap _ \<Rightarrow> bindV (editV (finish_source (site_json site) pending (source_id (ca_source captured)) 0)) (\<lambda>_. retV point)
     | Ready art \<Rightarrow>
         bindV (artifact_view site captured art) (\<lambda>view.
         bindV (stage_units site pending captured art view 0 (pu_units view) point empty_page) (\<lambda>(page, point).
         bindV (if pg_points page \<noteq> [] then stage_complete_page site pending page view else retV ()) (\<lambda>_.
         bindV (liftV (ok_or ''PUBLICATION_LIMIT'' (try_from u64_bound (length (pu_units view))))) (\<lambda>n.
         bindV (editV (finish_source (site_json site) pending (source_id (ca_source captured)) n)) (\<lambda>_. retV point))))))"
  proof (cases "bo_result x")
    case (Gap g)
    then show ?thesis by (auto intro: runs_intros)
  next
    case (Ready art)
    have rest: "runs (site_json site) D anything (bindV (if pg_points page \<noteq> [] then stage_complete_page site pending page view else retV ()) (\<lambda>_.
         bindV (liftV (ok_or ''PUBLICATION_LIMIT'' (try_from u64_bound (length (pu_units view))))) (\<lambda>n.
         bindV (editV (finish_source (site_json site) pending (source_id (ca_source captured)) n)) (\<lambda>_. retV m))))"
      if "wf_page page" for page view m D
      unfolding stage_complete_page_def using that by (intro runs_intros runs_stage_stack) simp
    have "runs (site_json site) C anything (bindV (stage_units site pending captured art view 0 (pu_units view) point empty_page) (\<lambda>(page, point).
         bindV (if pg_points page \<noteq> [] then stage_complete_page site pending page view else retV ()) (\<lambda>_.
         bindV (liftV (ok_or ''PUBLICATION_LIMIT'' (try_from u64_bound (length (pu_units view))))) (\<lambda>n.
         bindV (editV (finish_source (site_json site) pending (source_id (ca_source captured)) n)) (\<lambda>_. retV point)))))"
      if "\<forall>u \<in> set (pu_units view). wf_unit u" for view
    proof (rule runs_bind [OF runs_stage_units [OF assms ready_digest [OF assms out Ready] that empty_page_wf]], goal_cases)
      case (1 q D)
      obtain page m where q: "q = (page, m)" by (cases q)
      have "wf_page page" using 1(1) q by simp
      from rest [OF this] show ?case unfolding q prod.case .
    qed
    then show ?thesis using Ready by (simp, intro runs_then [OF runs_artifact]) (use artifact_view_units in blast)
  qed
qed

lemma runs_stage_sources:
  "\<forall>c \<in> set cs. storable_entry (fresh_entry c) \<Longrightarrow> runs (site_json site) C anything (stage_sources site pending cs point)"
  by (induction cs arbitrary: point) (auto intro!: runs_intros runs_stage_source)

lemma runs_stage_capture:
  assumes "c \<in> C"
  shows "runs (site_json site) C anything (stage_capture site pending (cc_sources c))"
  unfolding stage_capture_def
  by (rule runs_storable) (use assms in \<open>intro runs_intros runs_stage_sources; blast\<close>)

section \<open>Upload, verification and cleanup\<close>

lemma runs_reload [runs_intros]: "runs (site_json site) C anything (reload_pending site)"
  unfolding reload_pending_def by (intro runs_intros)

lemma runs_settle [runs_intros]: "runs (site_json site) C anything (settle_effect site pending operation revision res)"
  unfolding settle_effect_def by (intro runs_intros)

lemma runs_dispatch [runs_intros]: "runs (site_json site) C anything (dispatch_effect site pending operation act)"
  unfolding dispatch_effect_def by (intro runs_intros)

lemma runs_create [runs_intros]: "runs (site_json site) C anything (create_remote site pending)"
  unfolding create_remote_def by (intro runs_intros)

lemma runs_upload [runs_intros]: "runs (site_json site) C anything (upload site pending)"
  unfolding upload_def by (intro runs_intros) (simp add: upload_page_def runs_intros)

lemma runs_check_words [runs_intros]: "runs j C anything (check_words site name page v)"
proof (induction page arbitrary: v)
  case Nil
  then show ?case by (simp add: runs_intros)
next
  case (Cons p page)
  then show ?case by (auto simp: Let_def split: option.splits intro!: runs_intros)
qed

lemma runs_verify [runs_intros]: "runs j C anything (verify_page site name n page v)" "runs j C anything (verify_remote site g)"
  unfolding verify_page_def verify_remote_def by (intro runs_intros; simp add: verify_page_def; intro runs_intros)+

lemma runs_delete [runs_intros]: "runs j C anything (delete_remote site retired)"
  unfolding delete_remote_def Let_def by (intro runs_intros)

lemma runs_cleanup_each:
  "\<forall>g \<in> set rs. g_sequence (rg_generation g) < u64_bound \<Longrightarrow> runs (site_json site) C anything (cleanup_each site rs)"
  by (induction rs) (auto intro!: runs_intros)

lemma retired_rows_Inr:
  "retired_rows j state rows env = Inr (rs, env') \<Longrightarrow> \<forall>g \<in> set rs. g_sequence (rg_generation g) \<le> s_next_sequence state"
  by (induction j state rows env arbitrary: rs env' rule: retired_rows.induct)
    (fastforce simp: res_simps Let_def split: if_splits)+

lemma retired_sequences:
  assumes "retired_generations j db env = Inr (rs, env')" "system_inv j (db, cs)"
  shows "\<forall>g \<in> set rs. g_sequence (rg_generation g) < u64_bound"
proof -
  obtain s where s: "pub_state_ok j db s" "read_state j db [] = Inr (s, [])" using system_state [OF assms(2)] .
  have "read_state j db env1 = Inr (state, env2) \<Longrightarrow> state = s" for env1 state env2
    using interruptible_Inr [OF read_state_interruptible, of j db env1 state env2] s(2) by simp
  then have "rs = [] \<or> (\<exists>rows env1 env2. retired_rows j s rows env1 = Inr (rs, env2))"
    using assms(1) by (auto simp: retired_generations_def observe_database_def read_retirements_def res_simps split: if_splits)
  then show ?thesis using retired_rows_Inr pub_state_okD(2) [OF s(1)] by fastforce
qed

lemma runs_read:
  fixes f :: "Database \<Rightarrow> env \<Rightarrow> PublicationError + 'a \<times> env"
  assumes "\<And>db cs env x env'. system_inv j (db, cs) \<Longrightarrow> f db env = Inr (x, env') \<Longrightarrow> Q x"
  shows "runs j C (\<lambda>x _. Q x) (readV f :: ('r, 'a) driver)"
  unfolding runs_def runs_to_def
proof (intro allI impI)
  fix w :: "'r world" and cs assume c: "system_inv j (wd_db w, cs) \<and> C \<subseteq> set cs"
  then have "\<forall>x. fst (readV f w) = Inr x \<longrightarrow> Q x"
    using assms by (auto simp: readV_def localV_def mapErr_Inr res_simps)
  then show "\<exists>cs'. set cs \<subseteq> set cs' \<and> (publication_step j)\<^sup>*\<^sup>* (wd_db w, cs) (wd_db (snd (readV f w)), cs') \<and>
      (\<forall>x. fst (readV f w) = Inr x \<longrightarrow> Q x)"
    by (intro exI [of _ cs]) (simp add: readV_def localV_def skip_obs_def)
qed

lemma runs_cleanup [runs_intros]: "runs (site_json site) C anything (cleanup site)"
  unfolding cleanup_def
  by (rule runs_bind [OF runs_read [where Q = "\<lambda>rs. \<forall>g \<in> set rs. g_sequence (rg_generation g) < u64_bound"]])
    (use retired_sequences in \<open>blast intro: runs_cleanup_each\<close>)+

section \<open>Publication\<close>

lemma runs_capture: "runs (site_json site) C (\<lambda>c D. c \<in> D) (capture_on_writer site)"
  unfolding runs_def runs_to_def
proof (intro allI impI)
  fix w :: "'a world" and cs
  let ?m = "capture_on_writer site" and ?j = "site_json site"
  show "\<exists>cs'. set cs \<subseteq> set cs' \<and> (publication_step ?j)\<^sup>*\<^sup>* (wd_db w, cs) (wd_db (snd (?m w)), cs') \<and>
      (\<forall>x. fst (?m w) = Inr x \<longrightarrow> x \<in> set cs')"
  proof (cases "capture_corpus ?j (wd_db w) (wd_obs w 0)")
    case (Inl e)
    then show ?thesis by (intro exI [of _ cs]) (simp add: capture_on_writer_def readV_def localV_def skip_obs_def)
  next
    case (Inr q)
    obtain c env' where q: "q = (c, env')" by (cases q)
    have "publication_step ?j (wd_db w, cs) (wd_db w, c # cs)" using Inr q by (auto intro: publication_steps(1))
    then show ?thesis using Inr q
      by (intro exI [of _ "c # cs"]) (auto simp: capture_on_writer_def readV_def localV_def skip_obs_def)
  qed
qed

lemma runs_resume: "runs (site_json site) C (\<lambda>(c, superseded) D. c \<in> D) (resume_capture site)"
  unfolding resume_capture_def
proof (rule runs_bind [OF runs_capture])
  fix c :: CorpusCapture and D assume c: "c \<in> D"
  have again: "runs (site_json site) D (\<lambda>(c, superseded) D. c \<in> D) (bindV (capture_on_writer site) (\<lambda>c. retV (c, b)))" for b
    by (rule runs_bind [OF runs_capture]) (auto intro: runs_ret)
  have keep: "runs (site_json site) D (\<lambda>(c, superseded) D. c \<in> D) (retV (c, b))" for b
    by (rule runs_ret) (use c in auto)
  show "runs (site_json site) D (\<lambda>(c, superseded) D. c \<in> D) (case cc_pending c of None \<Rightarrow> retV (c, False)
     | Some pending \<Rightarrow> if pd_in_flight pending \<noteq> None then
           bindV (editV (supersede_unknown_build (site_json site) pending)) (\<lambda>_.
           bindV (capture_on_writer site) (\<lambda>capture. retV (capture, True)))
         else retV (c, False))"
    by (cases "cc_pending c") (auto intro!: again keep runs_seq runs_edits)
qed

lemma runs_drop [runs_intros]: "runs (site_json site) C anything (drop_stale site c)"
  unfolding drop_stale_def by (cases "cc_pending c") (auto intro!: runs_intros)

lemma runs_build: "c \<in> C \<Longrightarrow> runs (site_json site) C anything (build_pending site c)"
  unfolding build_pending_def by (cases "cc_pending c") (auto intro!: runs_intros runs_stage_capture)

lemma runs_prepare [runs_intros]: "runs (site_json site) C anything (prepare_build site)"
  unfolding prepare_build_def
proof (rule runs_bind [OF runs_resume], goal_cases)
  case (1 x D)
  obtain c superseded where x: "x = (c, superseded)" by (cases x)
  have "c \<in> D" using 1 x by simp
  then show ?case unfolding x prod.case by (intro runs_intros runs_build)
qed

lemma runs_control [runs_intros]: "runs j C anything control_check"
  unfolding control_check_def by (intro runs_intros)

lemma runs_quiet_world:
  assumes "\<And>w. wd_db (snd (m w)) = wd_db w"
  shows "runs j C anything m"
  by (rule runs_quiet) (use assms in auto)

lemma poll_db: "pollV p w = (res, w') \<Longrightarrow> wd_db w' = wd_db w"
  by (auto simp: pollV_def localV_def skip_obs_def)

lemma close_db: "wd_db (snd (close_writer site w)) = wd_db w"
proof -
  obtain b w1 c w2 a w3 where m: "control_check w = (b, w1)" "pollV (io_with (site_close_error site)) w1 = (c, w2)"
      "control_check w2 = (a, w3)"
    by (metis surj_pair)
  then have "wd_db w3 = wd_db w" unfolding control_check_def using poll_db by metis
  then show ?thesis using m by (simp add: close_writer_def)
qed

lemma runs_close [runs_intros]: "runs j C anything (close_writer site)"
  by (rule runs_quiet) (simp_all add: close_db)

lemma runs_commit [runs_intros]: "runs (site_json site) C anything (commit_build site pending)"
  unfolding runs_def
proof
  fix w :: "'a world"
  let ?w = "w\<lparr>wd_obs := (\<lambda>i. if i = 0 then wd_obs w 0 else wd_obs w (Suc i))\<rparr>"
  have "runs (site_json site) C anything
      (editV (\<lambda>db env. commit_generation (site_json site) pending db env (wd_obs w 1)) :: ('a, Generation) driver)"
    by (rule runs_edit) (auto intro: publication_steps)
  from runsD [OF this, of ?w] show "runs_to (site_json site) C anything w (commit_build site pending w)"
    by (simp add: commit_build_def runs_to_def)
qed

lemma runs_finish [runs_intros]: "runs (site_json site) C anything (finish_publication site prepared)"
  unfolding finish_publication_def by (cases prepared; cases "snd prepared") (auto intro!: runs_intros)

lemma runs_to_after:
  fixes m :: "('r, 'a) driver"
  assumes "runs_to j C anything w (m w)" "\<And>res. runs j C R (k res)"
  shows "runs_to j C R w (case m w of (res, w1) \<Rightarrow> k res w1)"
proof -
  obtain res w1 where m: "m w = (res, w1)" by (metis surj_pair)
  have "runs_to j C anything w (Inr res :: string + (string + 'a), w1)" using assms(1) m unfolding runs_to_def by simp
  then have "runs_to j C R w (bindV (\<lambda>_. (Inr res, w1)) k w)"
    using assms(2) by (intro runs_to_then) (auto dest: runsD)
  then show ?thesis using m by (simp add: bindV_def)
qed

lemma runs_view [runs_intros]: "runs (site_json site) C anything (prepare_view site)"
  unfolding runs_def prepare_view_def
  by (intro allI runs_to_after runsD [OF runs_prepare]) (intro runs_intros)

lemma runs_publish: "runs (site_json site) C anything (publish socket site endpoint variable)"
  unfolding runs_def
proof
  fix w :: "'a world"
  let ?m = "bindV (liftV (backend_api_key variable)) (\<lambda>key.
      remoteV (backend_connect socket (site_server site) endpoint key backend_limits_default)) :: ('a, _) driver"
  let ?k = "case_sum (\<lambda>e. bindV (close_writer site) (\<lambda>_. failV e)) (\<lambda>_. prepare_view site)"
  have "runs (site_json site) C anything ?m" by (intro runs_intros)
  moreover have "runs (site_json site) C anything (?k res)" for res by (cases res) (auto intro: runs_intros)
  ultimately have "runs_to (site_json site) C anything w (case ?m w of (res, w) \<Rightarrow> ?k res w)"
    by (intro runs_to_after runsD)
  also have "(case ?m w of (res, w) \<Rightarrow> ?k res w) = publish socket site endpoint variable w"
    unfolding publish_def by (cases "?m w"; cases "fst (?m w)") simp_all
  finally show "runs_to (site_json site) C anything w (publish socket site endpoint variable w)" .
qed

text \<open>
  Every publication is a run of the control database, whatever the service answers, wherever it
  is interrupted and whatever it returns: from a state reached from a fresh database, \<open>publish\<close> makes
  only steps of the machine, so the invariant of the machine, and with it every property of its
  reachable states, holds of the database it leaves, also when it stops in the middle; and the
  registered sources, their preparations and the wanted revision are the ones it found.
\<close>

lemma publish_is_run:
  assumes "(system_step (site_json site))\<^sup>*\<^sup>* (db0, []) (wd_db w, cs)" "fresh_system db0" "json_ok (site_json site)"
    and "publish socket site endpoint variable w = (res, w')"
  shows "\<exists>cs'. set cs \<subseteq> set cs' \<and> (system_step (site_json site))\<^sup>*\<^sup>* (wd_db w, cs) (wd_db w', cs') \<and>
    system_inv (site_json site) (wd_db w', cs') \<and> sources_of (wd_db w') = sources_of (wd_db w) \<and>
    prep_of (wd_db w') = prep_of (wd_db w) \<and> wanted_of (wd_db w') = wanted_of (wd_db w)"
proof -
  have i: "system_inv (site_json site) (wd_db w, cs)" using reachable_inv assms(1-3) by blast
  then obtain cs' where c: "set cs \<subseteq> set cs'" "(publication_step (site_json site))\<^sup>*\<^sup>* (wd_db w, cs) (wd_db w', cs')"
    using runsD [OF runs_publish, of site "{}" w socket endpoint variable] assms(4) unfolding runs_to_def by auto
  then show ?thesis using publication_run [OF c(2) i] pub_frame_corpus by blast
qed

end
