(* ===== verification/CorpusVerified.thy ===== *)
theory CorpusVerified
  imports PublishedCorpusLaws
begin

text \<open>
  What a publication has verified when it returns: of every page, that the service gives back exactly
  its points, with the texts their artifacts have, and that it counts no others. The service's reads
  leave its state as it is; that is the only thing assumed of it.
\<close>

section \<open>Steady drivers\<close>

definition reads_only :: "'r Server \<Rightarrow> bool" where
  "reads_only srv \<longleftrightarrow> (\<forall>r name g c q. snd (sv_info srv name r) = r \<and> snd (sv_get srv g r) = r \<and>
     snd (sv_count srv c r) = r \<and> snd (sv_query srv q r) = r)"

definition calm :: "('r, 'a) rop \<Rightarrow> bool" where
  "calm act \<longleftrightarrow> (\<forall>env r. snd (act env r) = r)"

definition steady :: "('r, 'a) driver \<Rightarrow> bool" where
  "steady m \<longleftrightarrow> (\<forall>w. wd_db (snd (m w)) = wd_db w \<and> wd_remote (snd (m w)) = wd_remote w)"

named_theorems calm_intros \<open>operations and drivers that leave the state as it is\<close>

lemma calm_basic [calm_intros]:
  "calm (retR x)" "calm (failR e)" "calm (liftR res)" "calm (localR f)" "calm (pollR p)"
  by (simp_all add: calm_def retR_def failR_def liftR_def localR_def pollR_def)

lemma calm_bind [calm_intros]: "calm m \<Longrightarrow> (\<And>x. calm (k x)) \<Longrightarrow> calm (bindR m k)"
  unfolding calm_def
proof (intro allI)
  fix env r assume c: "\<forall>env r. snd (m env r) = r" "\<And>x. \<forall>env r. snd (k x env r) = r"
  obtain res r1 where m: "m env r = (res, r1)" by (metis surj_pair)
  then have "r1 = r" using c(1) by (metis snd_conv)
  then show "snd (bindR m k env r) = r" using m c(2) by (simp add: bindR_def split: sum.splits prod.splits)
qed

lemma calm_if [calm_intros]: "(b \<Longrightarrow> calm m) \<Longrightarrow> (\<not> b \<Longrightarrow> calm m') \<Longrightarrow> calm (if b then m else m')"
  by simp

lemma calm_request [calm_intros]: "calm (request srv limits m)"
  unfolding request_def by (intro calm_intros)

lemma await_calm:
  assumes "\<And>r. snd (act r) = r"
  shows "snd (await mutation dispatched reply act env r) = r"
proof (induction env arbitrary: dispatched reply)
  case Nil
  obtain a where "act r = (a, r)" using assms by (metis prod.collapse)
  then show ?case by (simp split: option.splits)
next
  case (Cons ob env)
  obtain a where "act r = (a, r)" using assms by (metis prod.collapse)
  then show ?case using Cons.IH by (simp add: Let_def split: option.splits sum.splits)
qed

lemma calm_rpc [calm_intros]: "(\<And>r. snd (act r) = r) \<Longrightarrow> calm (rpc_call mutation act)"
proof -
  assume a: "\<And>r. snd (act r) = r"
  have "calm (await mutation False None (\<lambda>r. case act r of (res, r) \<Rightarrow> (mapErr read_error res, r)))"
    unfolding calm_def by (intro allI await_calm) (simp add: a case_prod_beta)
  then show ?thesis unfolding rpc_call_def rpc_run_def by (intro calm_intros)
qed

lemma calm_reads [calm_intros]:
  assumes "reads_only srv"
  shows "calm (verify_schema srv limits name)" "calm (backend_verify_points srv limits name wanted)"
    "calm (count_exact srv limits name)" "calm (verify_canary alnum srv limits name p q)"
  unfolding verify_schema_def backend_verify_points_def count_exact_def verify_canary_def Let_def
  by (intro calm_intros; use assms in \<open>simp add: reads_only_def\<close>)+

lemma steady_basic [calm_intros]:
  "steady (retV x)" "steady (failV e)" "steady (liftV res)" "steady (localV code f)" "steady (pollV p)" "steady (readV g)"
  "steady corpus_check" "steady corpus_alloc" "steady control_check"
  unfolding steady_def retV_def failV_def liftV_def localV_def pollV_def readV_def skip_obs_def
    corpus_check_def corpus_alloc_def control_check_def
  by (intro allI; simp)+

lemma steady_bind [calm_intros]: "steady m \<Longrightarrow> (\<And>x. steady (k x)) \<Longrightarrow> steady (bindV m k)"
  unfolding steady_def
proof (intro allI)
  fix w :: "'a world"
  assume c: "\<forall>w :: 'a world. wd_db (snd (m w)) = wd_db w \<and> wd_remote (snd (m w)) = wd_remote w"
    "\<And>x. \<forall>w :: 'a world. wd_db (snd (k x w)) = wd_db w \<and> wd_remote (snd (k x w)) = wd_remote w"
  obtain res w1 where m: "m w = (res, w1)" by (metis surj_pair)
  then have "wd_db w1 = wd_db w" "wd_remote w1 = wd_remote w" using c(1) by (metis snd_conv)+
  then show "wd_db (snd (bindV m k w)) = wd_db w \<and> wd_remote (snd (bindV m k w)) = wd_remote w"
    using m c(2) by (simp add: bindV_def split: sum.splits)
qed

lemma steady_if [calm_intros]: "(b \<Longrightarrow> steady m) \<Longrightarrow> (\<not> b \<Longrightarrow> steady m') \<Longrightarrow> steady (if b then m else m')"
  by simp

lemma steady_remote [calm_intros]: "calm act \<Longrightarrow> steady (remoteV act)"
  unfolding remoteV_def
  by (intro calm_intros) (auto simp: calm_def steady_def tryV_def skip_obs_def case_prod_beta)

lemma steady_check_words [calm_intros]: "reads_only (site_server site) \<Longrightarrow> steady (check_words site name page v)"
proof (induction page arbitrary: v)
  case Nil
  then show ?case by (simp add: calm_intros)
next
  case (Cons p page)
  then show ?case by (auto simp: Let_def split: option.splits intro!: calm_intros)
qed

lemma steady_verify_page [calm_intros]: "reads_only (site_server site) \<Longrightarrow> steady (verify_page site name n page v)"
  unfolding verify_page_def by (intro calm_intros)

lemma steady_pass [calm_intros]:
  "steady (hydrate_point view source art p)" "steady (artifact_view site captured art)"
  "steady (upload_page_on site writer g n)" "steady (generation_source_on site writer g sid)"
  unfolding hydrate_point_def artifact_view_def upload_page_on_def generation_source_on_def by (intro calm_intros)+

lemma steady_open [calm_intros]: "steady (open_source site writer g sid)"
  unfolding open_source_def
proof (intro calm_intros)
  fix captured :: CapturedSource
  show "steady (case ready_artifact captured of None \<Rightarrow> failV ''PUBLICATION_CORRUPT''
      | Some art \<Rightarrow> bindV (artifact_view site captured art) (\<lambda>view.
          retV \<lparr>os_captured = captured, os_artifact = art, os_view = view\<rparr>))"
    by (cases "ready_artifact captured") (auto intro!: calm_intros)
qed

lemma steadyD:
  "steady m \<Longrightarrow> m w = (res, w') \<Longrightarrow> wd_db w' = wd_db w \<and> wd_remote w' = wd_remote w"
  unfolding steady_def by (metis snd_conv)

section \<open>What the pass has seen\<close>

text \<open>
  A source as the pass holds it, read from the database: its artifact was decoded to a text with the
  length and the digest registered for the source. A hydrated point carries the slice of that text
  its evidence names.
\<close>

definition source_seen :: "'r Site \<Rightarrow> Database \<Rightarrow> Generation \<Rightarrow> CapturedSource \<Rightarrow> bytes \<Rightarrow> bool" where
  "source_seen site db g captured body \<longleftrightarrow>
     read_saved_source (site_json site) g (source_id (ca_source captured)) db [] = Inr (captured, []) \<and>
     ready_artifact captured \<noteq> None \<and> input_of (site_hash site) (ca_source captured) body \<and> utf8_valid body"

definition point_seen :: "'r Site \<Rightarrow> Database \<Rightarrow> Generation \<Rightarrow> HydratedPoint \<Rightarrow> bool" where
  "point_seen site db g h \<longleftrightarrow> (\<exists>captured body. source_seen site db g captured body \<and>
     pe_source_id (up_evidence (hp_point h)) = source_id (ca_source captured) \<and>
     pe_input (up_evidence (hp_point h)) = object_ref (ca_source captured) \<and>
     Some (pe_prepared (up_evidence (hp_point h))) = ready_artifact captured \<and>
     str_get body (pe_start (up_evidence (hp_point h))) (pe_end (up_evidence (hp_point h))) = Some (hp_text h))"

definition page_seen :: "'r Site \<Rightarrow> Database \<Rightarrow> Generation \<Rightarrow> nat \<Rightarrow> HydratedPoint list \<Rightarrow> bool" where
  "page_seen site db g n H \<longleftrightarrow> (\<forall>h \<in> set H. point_seen site db g h) \<and>
     (\<exists>page. read_saved_page (site_json site) g n db [] = Inr (page, []) \<and> map hp_point H = pg_points page)"

definition open_ok :: "'r Site \<Rightarrow> Database \<Rightarrow> Generation \<Rightarrow> OpenSource \<Rightarrow> bool" where
  "open_ok site db g os \<longleftrightarrow> source_seen site db g (os_captured os) (pu_text (os_view os)) \<and>
     ready_artifact (os_captured os) = Some (os_artifact os)"

text \<open>The visits the pass made, of the pages \<open>Hs\<close> from number \<open>n\<close> on, each in the same state.\<close>

fun visited ::
  "(nat \<Rightarrow> HydratedPoint list \<Rightarrow> 'v \<Rightarrow> ('r, 'v) driver) \<Rightarrow> Database \<Rightarrow> 'r \<Rightarrow> nat \<Rightarrow> HydratedPoint list list \<Rightarrow> 'v \<Rightarrow> 'v \<Rightarrow> bool" where
  "visited visit db r n [] v v' \<longleftrightarrow> v = v'"
| "visited visit db r n (H # Hs) v v' \<longleftrightarrow> H \<noteq> [] \<and>
     (\<exists>w w1 v1. wd_db w = db \<and> wd_remote w = r \<and> visit n H v w = (Inr v1, w1) \<and> visited visit db r (Suc n) Hs v1 v')"

lemma bindV_Inr:
  "bindV m k w = (Inr y, w') \<longleftrightarrow> (\<exists>x w1. m w = (Inr x, w1) \<and> k x w1 = (Inr y, w'))"
  by (auto simp: bindV_def split: sum.splits prod.splits)

lemma simple_drivers_Inr:
  "retV x w = (Inr y, w') \<longleftrightarrow> y = x \<and> w' = w" "failV e w = (Inr y, w') \<longleftrightarrow> False"
  "liftV res w = (Inr y, w') \<longleftrightarrow> res = Inr y \<and> w' = w"
  "localV code f w = (Inr y, w') \<longleftrightarrow> (\<exists>env'. f (wd_obs w 0) = Inr (y, env')) \<and> w' = skip_obs w"
  "readV f2 w = (Inr y, w') \<longleftrightarrow> (\<exists>env'. f2 (wd_db w) (wd_obs w 0) = Inr (y, env')) \<and> w' = skip_obs w"
  by (auto simp: retV_def failV_def liftV_def localV_def readV_def mapErr_Inr res_simps)

lemmas driver_Inr = bindV_Inr simple_drivers_Inr

lemma decode_page_calm [interruptible_intros]: "interruptible pub_interrupts (decode_page bs)"
  unfolding decode_page_def Let_def by (intro interruptible_intros)

lemma saved_reads_interruptible [interruptible_intros]:
  "interruptible pub_interrupts (read_saved_page j g n db)" "interruptible pub_interrupts (read_saved_source j g sid db)"
  unfolding read_saved_page_def read_saved_source_def by (intro interruptible_intros)+

lemma observed_Inr:
  fixes f :: "Database \<Rightarrow> env \<Rightarrow> PublicationError + 'a \<times> env"
  assumes "observe_database f db env = Inr (x, env') \<or> observe f db env = Inr (x, env')" "interruptible pub_interrupts (f db)"
  shows "f db [] = Inr (x, [])"
proof -
  have "\<exists>env1 env2. f db env1 = Inr (x, env2)"
    using assms(1) by (auto simp: observe_database_def observe_def res_simps split: if_splits)
  then show ?thesis using interruptible_Inr [OF assms(2)] by blast
qed

lemma page_read:
  assumes "upload_page_on site writer g n w = (Inr x, w')"
  shows "read_saved_page (site_json site) g n (wd_db w) [] = Inr (x, [])"
proof -
  obtain env' where "observe_database (read_saved_page (site_json site) g n) (wd_db w) (wd_obs w 0) = Inr (x, env') \<or>
      observe (read_saved_page (site_json site) g n) (wd_db w) (wd_obs w 0) = Inr (x, env')"
    using assms by (cases writer) (auto simp: upload_page_on_def read_upload_page_def generation_source_on_def
        read_generation_source_def simple_drivers_Inr)
  then show ?thesis by (rule observed_Inr) (rule saved_reads_interruptible)
qed

lemma source_read:
  assumes "generation_source_on site writer g sid w = (Inr x, w')"
  shows "read_saved_source (site_json site) g sid (wd_db w) [] = Inr (x, [])"
proof -
  obtain env' where "observe_database (read_saved_source (site_json site) g sid) (wd_db w) (wd_obs w 0) = Inr (x, env') \<or>
      observe (read_saved_source (site_json site) g sid) (wd_db w) (wd_obs w 0) = Inr (x, env')"
    using assms by (cases writer) (auto simp: upload_page_on_def read_upload_page_def generation_source_on_def
        read_generation_source_def simple_drivers_Inr)
  then show ?thesis by (rule observed_Inr) (rule saved_reads_interruptible)
qed

lemma unit_text_Inr: "unit_text view e = Inr txt \<Longrightarrow> str_get (pu_text view) (pe_start e) (pe_end e) = Some txt"
  by (auto simp: unit_text_def res_simps ok_or_def try_from_def split: if_splits option.splits)

lemma opened_ok:
  assumes "open_source site writer g sid w = (Inr os, w')"
  shows "open_ok site (wd_db w) g os \<and> source_id (ca_source (os_captured os)) = sid"
proof -
  obtain u c w1 w2 where r: "corpus_check w = (Inr u, w1)" "generation_source_on site writer g sid w1 = (Inr c, w2)"
      and k: "(case ready_artifact c of None \<Rightarrow> failV ''PUBLICATION_CORRUPT''
        | Some art \<Rightarrow> bindV (artifact_view site c art) (\<lambda>view.
            retV \<lparr>os_captured = c, os_artifact = art, os_view = view\<rparr>)) w2 = (Inr os, w')"
    using assms unfolding open_source_def bindV_Inr by blast
  obtain art where art: "ready_artifact c = Some art" using k by (cases "ready_artifact c") (simp_all add: simple_drivers_Inr)
  then have "bindV (artifact_view site c art) (\<lambda>view. retV \<lparr>os_captured = c, os_artifact = art, os_view = view\<rparr>) w2 = (Inr os, w')"
    using k by simp
  then obtain view w3 where v: "artifact_view site c art w2 = (Inr view, w3)" "os = \<lparr>os_captured = c, os_artifact = art, os_view = view\<rparr>"
    unfolding bindV_Inr simple_drivers_Inr by blast
  have "wd_db w1 = wd_db w" using steadyD [OF steady_basic(7) r(1)] by simp
  then have c: "read_saved_source (site_json site) g sid (wd_db w) [] = Inr (c, [])" using source_read [OF r(2)] by simp
  obtain stored env1 env2 where d: "decode_prepared_utf8 (site_hash site) stored (ca_source c) (cp_settings (ca_preparation c))
      corpus_limits env1 = Inr (view, env2)"
    using v(1) unfolding artifact_view_def bindV_Inr simple_drivers_Inr by blast
  have "source_id (ca_source c) = sid" using open_source_Inr [OF assms] v(2) by simp
  then show ?thesis using c decode_Inr [OF d] art v(2) by (simp add: open_ok_def source_seen_def)
qed

lemma hydrated_ok:
  assumes "hydrate_point (os_view os) (ca_source (os_captured os)) (os_artifact os) p w = (Inr h, w')"
    "open_ok site db g os" "pe_source_id (up_evidence p) = source_id (ca_source (os_captured os))"
  shows "point_seen site db g h \<and> hp_point h = p"
proof -
  let ?s = "ca_source (os_captured os)" and ?e = "up_evidence p"
  have b: "pe_input ?e = object_ref ?s" "pe_prepared ?e = os_artifact os"
    using assms(1) by (auto simp: hydrate_point_def simple_drivers_Inr split: if_splits)
  obtain b where t: "unit_text (os_view os) ?e = Inr b" "h = \<lparr>hp_point = p, hp_text = b\<rparr>"
    using assms(1) by (auto simp: hydrate_point_def driver_Inr split: if_splits)
  have "point_seen site db g h"
    using assms(2,3) b unit_text_Inr [OF t(1)] t(2) unfolding point_seen_def open_ok_def
    by (intro exI [of _ "os_captured os"] exI [of _ "pu_text (os_view os)"]) simp
  then show ?thesis using t(2) by simp
qed

text \<open>The outcome of the pass from page \<open>n\<close>, of which the points \<open>points\<close> are still to be hydrated.\<close>

definition seen_from ::
  "'r Site \<Rightarrow> (nat \<Rightarrow> HydratedPoint list \<Rightarrow> 'v \<Rightarrow> ('r, 'v) driver) \<Rightarrow> Database \<Rightarrow> 'r \<Rightarrow> Generation \<Rightarrow> nat \<Rightarrow> nat \<Rightarrow>
   UploadPoint list \<Rightarrow> 'v \<Rightarrow> 'v \<Rightarrow> bool" where
  "seen_from site visit db r g n final points v v' \<longleftrightarrow> (\<exists>H Hs. visited visit db r n (H # Hs) v v' \<and>
     map hp_point H = points \<and> (\<forall>h \<in> set H. point_seen site db g h) \<and> final = n + length (H # Hs) \<and>
     (\<forall>i < length Hs. page_seen site db g (Suc n + i) (Hs ! i)))"

lemma visit_page_Inr:
  assumes "visit_page site g visit n req H v w = (Inr (v1, m), w')" "\<And>n H v. steady (visit n H v)"
  shows "m = Suc n \<and> H \<noteq> [] \<and> wd_db w' = wd_db w \<and> wd_remote w' = wd_remote w \<and>
    (\<exists>w1 w2. wd_db w1 = wd_db w \<and> wd_remote w1 = wd_remote w \<and> visit n H v w1 = (Inr v1, w2))"
proof -
  obtain wire w1 env w2 where p: "batch_request_bytes (site_server site) (collection g) (page_inputs H) (wd_obs w 0) = Inr (wire, env)"
      "w1 = skip_obs w" "visit n H v w1 = (Inr v1, w2)" "m = Suc n" "w' = w2"
    using assms(1) by (auto simp: visit_page_def driver_Inr checked_add64_def res_simps split: if_splits)
  have "page_inputs H \<noteq> []" using p(1) encode_batch_Inr by (fastforce simp: batch_request_bytes_def res_simps)
  then have "H \<noteq> []" by (auto simp: page_inputs_def)
  moreover have "wd_db w1 = wd_db w \<and> wd_remote w1 = wd_remote w" using p(2) by (simp add: skip_obs_def)
  ultimately show ?thesis using p steadyD [OF assms(2) p(3)] by metis
qed

lemma visited_first:
  "visit n H v w = (Inr v1, w1) \<Longrightarrow> H \<noteq> [] \<Longrightarrow> visited visit (wd_db w) (wd_remote w) (Suc n) Hs v1 v' \<Longrightarrow>
   visited visit (wd_db w) (wd_remote w) n (H # Hs) v v'"
  by auto

lemma visit_loop_seen:
  assumes "visit_loop site writer g final visit n req hydrated current points v w = (Inr v', w')"
    and "\<And>n H v. steady (visit n H v)" "\<And>os. current = Some os \<Longrightarrow> open_ok site (wd_db w) g os"
    and "\<forall>h \<in> set hydrated. point_seen site (wd_db w) g h"
  shows "seen_from site visit (wd_db w) (wd_remote w) g n final (map hp_point hydrated @ points) v v' \<and>
    wd_db w' = wd_db w \<and> wd_remote w' = wd_remote w"
  using assms
proof (induction site writer g final visit n req hydrated current points v w rule: visit_loop.induct)
  case (1 site writer g final visit n req hydrated v w)
  then show ?case by (simp add: simple_drivers_Inr)
next
  case (2 site writer g final visit n req hydrated first points v w)
  obtain os w1 where o1: "open_source site writer g (pe_source_id (up_evidence first)) w = (Inr os, w1)"
      "visit_loop site writer g final visit n req hydrated (Some os) (first # points) v w1 = (Inr v', w')"
    using "2.prems"(1) unfolding visit_loop.simps(2) bindV_Inr by blast
  note s = steadyD [OF steady_open o1(1)]
  show ?case using "2.IH" [OF o1(1,2) "2.prems"(2)] opened_ok [OF o1(1)] s "2.prems"(4) by simp
next
  case (3 site writer g final visit n req hydrated os p points v w)
  show ?case
  proof (cases "pe_source_id (up_evidence p) = source_id (ca_source (os_captured os))")
    case True
    let ?h = "bindV corpus_check (\<lambda>_. hydrate_point (os_view os) (ca_source (os_captured os)) (os_artifact os) p)"
    have "bindV ?h (\<lambda>h. visit_loop site writer g final visit n req (hydrated @ [h]) (Some os) points v) w = (Inr v', w')"
      using "3.prems"(1) True by simp
    then obtain h w1 where h: "?h w = (Inr h, w1)"
        "visit_loop site writer g final visit n req (hydrated @ [h]) (Some os) points v w1 = (Inr v', w')"
      unfolding bindV_Inr [of ?h] by blast
    have "steady ?h" by (intro calm_intros)
    note s = steadyD [OF this h(1)]
    obtain u w0 where "corpus_check w = (Inr u, w0)"
        "hydrate_point (os_view os) (ca_source (os_captured os)) (os_artifact os) p w0 = (Inr h, w1)"
      using h(1) unfolding bindV_Inr by blast
    note ok = hydrated_ok [OF this(2) "3.prems"(3) [OF refl] True]
    show ?thesis using "3.IH"(1) [OF True h(1,2) "3.prems"(2)] "3.prems"(3,4) s ok by simp
  next
    case False
    then have "visit_loop site writer g final visit n req hydrated None (p # points) v w = (Inr v', w')"
      using "3.prems"(1) by simp
    then show ?thesis using "3.IH"(2) [OF False _ "3.prems"(2)] "3.prems"(4) by simp
  qed
next
  case (4 site writer g final visit n req hydrated os v w)
  obtain x w1 where x: "visit_page site g visit n req hydrated v w = (Inr x, w1)" using "4.prems"(1)
    unfolding visit_loop.simps(4) bindV_Inr by blast
  obtain v1 m where xm: "x = (v1, m)" by (cases x)
  note V = visit_page_Inr [OF x [unfolded xm] "4.prems"(2)]
  show ?case
  proof (cases "m = final")
    case True
    then have "v' = v1 \<and> w' = w1" using "4.prems"(1) x xm by (simp add: bindV_def retV_def)
    then have "visited visit (wd_db w) (wd_remote w) n (hydrated # []) v v'" using V by auto
    then show ?thesis unfolding seen_from_def using V True "4.prems"(4) \<open>v' = v1 \<and> w' = w1\<close>
      by (intro conjI exI [of _ hydrated] exI [of _ "[]"]) auto
  next
    case False
    let ?r = "bindV corpus_check (\<lambda>_. upload_page_on site writer g m)"
    have "bindV ?r (\<lambda>page. bindV corpus_alloc (\<lambda>_.
       visit_loop site writer g final visit m (pg_request_bytes page) [] (Some os) (pg_points page) v1)) w1 = (Inr v', w')"
      using "4.prems"(1) x xm False unfolding visit_loop.simps(4) by (simp add: bindV_def)
    then obtain page w2 u w3 where p: "?r w1 = (Inr page, w2)" "corpus_alloc w2 = (Inr u, w3)"
        "visit_loop site writer g final visit m (pg_request_bytes page) [] (Some os) (pg_points page) v1 w3 = (Inr v', w')"
      unfolding bindV_Inr [of ?r] bindV_Inr [of corpus_alloc] by blast
    have "steady ?r" by (intro calm_intros)
    note s = steadyD [OF this p(1)] steadyD [OF steady_basic(8) p(2)]
    obtain u2 w4 where "corpus_check w1 = (Inr u2, w4)" "upload_page_on site writer g m w4 = (Inr page, w2)"
      using p(1) unfolding bindV_Inr by blast
    then have page: "read_saved_page (site_json site) g m (wd_db w) [] = Inr (page, [])"
      using page_read steadyD [OF steady_basic(7)] V by metis
    have "seen_from site visit (wd_db w) (wd_remote w) g m final (pg_points page) v1 v' \<and>
        wd_db w' = wd_db w \<and> wd_remote w' = wd_remote w"
      using "4.IH" [OF x xm [symmetric] False p(3) "4.prems"(2)] "4.prems"(3) s V by simp
    then obtain H Hs where I: "visited visit (wd_db w) (wd_remote w) m (H # Hs) v1 v'" "map hp_point H = pg_points page"
        "\<forall>h \<in> set H. point_seen site (wd_db w) g h" "final = m + length (H # Hs)"
        "\<forall>i < length Hs. page_seen site (wd_db w) g (Suc m + i) (Hs ! i)" and w': "wd_db w' = wd_db w" "wd_remote w' = wd_remote w"
      unfolding seen_from_def by blast
    have "page_seen site (wd_db w) g m H" using page I(2,3) by (simp add: page_seen_def)
    then have all: "\<forall>i < length (H # Hs). page_seen site (wd_db w) g (Suc n + i) ((H # Hs) ! i)"
      using I(5) V by (auto simp: less_Suc_eq_0_disj)
    obtain w5 w6 where v: "visit n hydrated v w5 = (Inr v1, w6)" "wd_db w5 = wd_db w" "wd_remote w5 = wd_remote w" using V by blast
    have "visited visit (wd_db w5) (wd_remote w5) (Suc n) (H # Hs) v1 v'" using V I(1) v(2,3) by simp
    then have "visited visit (wd_db w) (wd_remote w) n (hydrated # H # Hs) v v'"
      using visited_first [where visit = visit and v = v, OF v(1)] V v(2,3) by metis
    then show ?thesis unfolding seen_from_def using all I(4) V w' "4.prems"(4)
      by (intro conjI exI [of _ hydrated] exI [of _ "H # Hs"]) auto
  qed
qed

section \<open>The service holds the generation\<close>

text \<open>
  The collection \<open>name\<close> of the remote state \<open>r\<close> gives back the page: asked for the identities of its
  points it returns one point for each, with the source and the text of that point.
\<close>

definition page_served :: "'r Server \<Rightarrow> string \<Rightarrow> 'r \<Rightarrow> HydratedPoint list \<Rightarrow> bool" where
  "page_served srv name r H \<longleftrightarrow> (\<exists>found.
     sv_get srv (get_points name (page_inputs H)) r = (Inr found, r) \<and>
     mset (map point_of found) = mset (map Some (page_inputs H)) \<and> distinct (map pt_id (page_inputs H)) \<and>
     (\<forall>h \<in> set H. hp_text h \<noteq> []))"

definition generation_served :: "'r Site \<Rightarrow> Database \<Rightarrow> Generation \<Rightarrow> 'r \<Rightarrow> bool" where
  "generation_served site db g r \<longleftrightarrow> (\<exists>Hs. length Hs = g_page_count g \<and>
     (\<forall>n < g_page_count g. page_seen site db g n (Hs ! n) \<and> page_served (site_server site) (collection g) r (Hs ! n)) \<and>
     sum_list (map length Hs) = g_point_count g \<and>
     sv_count (site_server site) (count_points (collection g)) r = (Inr (Some (g_point_count g)), r))"

lemma remoteV_Inr:
  "remoteV act w = (Inr x, w') \<longleftrightarrow> (\<exists>env' r'. act (wd_obs w 0) (wd_remote w) = (Inr (x, env'), r') \<and>
     w' = (skip_obs w)\<lparr>wd_remote := r'\<rparr>)"
proof -
  obtain res r1 where a: "act (wd_obs w 0) (wd_remote w) = (res, r1)" by (metis surj_pair)
  show ?thesis by (cases res) (auto simp: a remoteV_def bindV_def tryV_def liftV_def)
qed

lemma check_words_points: "check_words site name page v w = (Inr v', w') \<Longrightarrow> rd_points v' = rd_points v"
proof (induction page arbitrary: v w)
  case (Cons p page)
  then show ?case by (auto simp: Let_def driver_Inr split: option.splits)
qed (simp add: driver_Inr)

lemma verify_page_Inr:
  assumes "verify_page site name n H v w = (Inr v', w')" "reads_only (site_server site)" "H \<noteq> []"
  shows "page_served (site_server site) name (wd_remote w) H \<and> rd_points v' = rd_points v + length H"
proof -
  obtain u w1 u2 w2 v2 w3 where p: "corpus_check w = (Inr u, w1)"
      "remoteV (backend_verify_points (site_server site) backend_limits_default name (page_inputs H)) w1 = (Inr u2, w2)"
      "check_words site name H v w2 = (Inr v2, w3)" "rd_points v' = rd_points v2 + length H"
    using assms(1) by (auto simp: verify_page_def driver_Inr checked_add64_def try_from_def res_simps ok_or_def
        split: if_splits option.splits)
  obtain env' r' where b: "backend_verify_points (site_server site) backend_limits_default name (page_inputs H) (wd_obs w1 0) (wd_remote w1)
      = (Inr (u2, env'), r')"
    using p(2) unfolding remoteV_Inr by blast
  have r: "wd_remote w1 = wd_remote w" using steadyD [OF steady_basic(7) p(1)] by simp
  have "page_inputs H \<noteq> []" using assms(3) by (simp add: page_inputs_def)
  then obtain found where f: "sv_get (site_server site) (get_points name (page_inputs H)) (wd_remote w) = (Inr found, r')"
      "mset (map point_of found) = mset (map Some (page_inputs H))" "distinct (map pt_id (page_inputs H))"
      "\<forall>x \<in> set (page_inputs H). pt_text x \<noteq> []"
    using verified_points [of _ _ _ "page_inputs H"] b r by (cases u2) force
  have "r' = wd_remote w" using f(1) assms(2) unfolding reads_only_def by (metis snd_conv)
  then show ?thesis using f p(4) check_words_points [OF p(3)] by (auto simp: page_served_def page_inputs_def)
qed

lemma visited_pages:
  "visited (verify_page site name) db r n Hs v v' \<Longrightarrow> reads_only (site_server site) \<Longrightarrow>
   (\<forall>H \<in> set Hs. page_served (site_server site) name r H) \<and> rd_points v' = rd_points v + sum_list (map length Hs)"
  by (induction Hs arbitrary: n v) (auto dest!: verify_page_Inr)

lemma visit_pages_seen:
  assumes "visit_pages site writer g 0 (g_page_count g) visit v w = (Inr v', w')" "\<And>n H v. steady (visit n H v)"
  shows "\<exists>Hs. visited visit (wd_db w) (wd_remote w) 0 Hs v v' \<and> length Hs = g_page_count g \<and>
    (\<forall>n < g_page_count g. page_seen site (wd_db w) g n (Hs ! n)) \<and> wd_db w' = wd_db w \<and> wd_remote w' = wd_remote w"
proof (cases "g_page_count g")
  case 0
  then show ?thesis using assms(1) by (intro exI [of _ "[]"]) (simp add: visit_pages_def simple_drivers_Inr)
next
  case (Suc k)
  then have "bindV (upload_page_on site writer g 0) (\<lambda>page. bindV corpus_alloc (\<lambda>_.
      visit_loop site writer g (g_page_count g) visit 0 (pg_request_bytes page) [] None (pg_points page) v)) w = (Inr v', w')"
    using assms(1) by (simp add: visit_pages_def)
  then obtain page w1 u w2 where p: "upload_page_on site writer g 0 w = (Inr page, w1)" "corpus_alloc w1 = (Inr u, w2)"
      "visit_loop site writer g (g_page_count g) visit 0 (pg_request_bytes page) [] None (pg_points page) v w2 = (Inr v', w')"
    unfolding bindV_Inr [of "upload_page_on site writer g 0"] bindV_Inr [of corpus_alloc] by blast
  note s = steadyD [OF steady_pass(3) p(1)] steadyD [OF steady_basic(8) p(2)]
  have "seen_from site visit (wd_db w) (wd_remote w) g 0 (g_page_count g) (pg_points page) v v' \<and>
      wd_db w' = wd_db w \<and> wd_remote w' = wd_remote w"
    using visit_loop_seen [OF p(3) assms(2)] s by simp
  then obtain H Hs where I: "visited visit (wd_db w) (wd_remote w) 0 (H # Hs) v v'" "map hp_point H = pg_points page"
      "\<forall>h \<in> set H. point_seen site (wd_db w) g h" "g_page_count g = 0 + length (H # Hs)"
      "\<forall>i < length Hs. page_seen site (wd_db w) g (Suc 0 + i) (Hs ! i)" and w': "wd_db w' = wd_db w" "wd_remote w' = wd_remote w"
    unfolding seen_from_def by blast
  have "page_seen site (wd_db w) g 0 H" using page_read [OF p(1)] I(2,3) by (simp add: page_seen_def)
  then have "\<forall>n < g_page_count g. page_seen site (wd_db w) g n ((H # Hs) ! n)"
    using I(4,5) by (auto simp: less_Suc_eq_0_disj)
  then show ?thesis using I(1,4) w' by (intro exI [of _ "H # Hs"]) simp
qed

lemma count_exact_Inr:
  assumes "count_exact srv limits name env r = (Inr (n, env'), r')"
  shows "sv_count srv (count_points name) r = (Inr (Some n), r')"
  using assms by (auto simp: count_exact_def rop_simps ok_or_def res_simps split: option.splits dest!: request_state rpc_call_Inr)

lemma generation_is_served:
  assumes "verify_remote site g w = (Inr (), w')" "reads_only (site_server site)"
  shows "generation_served site (wd_db w) g (wd_remote w) \<and> wd_db w' = wd_db w \<and> wd_remote w' = wd_remote w"
proof -
  let ?srv = "site_server site" and ?name = "collection g"
  let ?v = "\<lparr>rd_canary = False, rd_tokenless = True, rd_points = 0\<rparr>"
  obtain u1 w1 u2 w2 v w3 n w4 where p: "readV (validate_generation (site_json site) g) w = (Inr u1, w1)"
      "remoteV (verify_schema ?srv backend_limits_default ?name) w1 = (Inr u2, w2)"
      "visit_pages site False g 0 (g_page_count g) (verify_page site ?name) ?v w2 = (Inr v, w3)"
      "remoteV (count_exact ?srv backend_limits_default ?name) w3 = (Inr n, w4)"
      and k: "(if n \<noteq> g_point_count g \<or> rd_points v \<noteq> g_point_count g then failV ''PUBLICATION_POINT_COUNT_MISMATCH''
     else if rd_points v \<noteq> 0 \<and> \<not> rd_canary v \<and> \<not> rd_tokenless v then failV ''PUBLICATION_READINESS_NOT_PROVEN''
     else retV ()) w4 = (Inr (), w')"
    using assms(1) unfolding verify_remote_def bindV_Inr by blast
  have n: "n = g_point_count g" "rd_points v = g_point_count g" "w' = w4"
    using k by (auto simp: simple_drivers_Inr split: if_splits)
  have s: "wd_db w1 = wd_db w" "wd_remote w1 = wd_remote w" "wd_db w2 = wd_db w1" "wd_remote w2 = wd_remote w1"
      "wd_db w4 = wd_db w3" "wd_remote w4 = wd_remote w3"
    using steadyD [OF steady_basic(6) p(1)] steadyD [OF steady_remote [OF calm_reads(1) [OF assms(2)]] p(2)]
      steadyD [OF steady_remote [OF calm_reads(3) [OF assms(2)]] p(4)] by auto
  obtain Hs where H: "visited (verify_page site ?name) (wd_db w2) (wd_remote w2) 0 Hs ?v v" "length Hs = g_page_count g"
      "\<forall>n < g_page_count g. page_seen site (wd_db w2) g n (Hs ! n)" "wd_db w3 = wd_db w2" "wd_remote w3 = wd_remote w2"
    using visit_pages_seen [OF p(3) steady_verify_page [OF assms(2)]] by blast
  note V = visited_pages [OF H(1) assms(2)]
  obtain env' r' where "count_exact ?srv backend_limits_default ?name (wd_obs w3 0) (wd_remote w3) = (Inr (n, env'), r')"
    using p(4) unfolding remoteV_Inr by blast
  from count_exact_Inr [OF this] have c: "sv_count ?srv (count_points ?name) (wd_remote w) = (Inr (Some n), r')" using H(5) s by simp
  then have "r' = wd_remote w" using assms(2) unfolding reads_only_def by (metis snd_conv)
  then have "generation_served site (wd_db w) g (wd_remote w)"
    unfolding generation_served_def using H V n c s by (intro exI [of _ Hs]) auto
  then show ?thesis using H(4,5) s n by simp
qed

section \<open>A returned view\<close>

lemma open_published_pins: "open_published j db env = Inr (view, env') \<Longrightarrow> pin_published j db [] = Inr (view, []) \<and> pv_transaction view = db"
proof -
  assume a: "open_published j db env = Inr (view, env')"
  then obtain env1 where p: "pin_published j db env = Inr (view, env1)" by (auto simp: open_published_def res_simps)
  have "pv_transaction view = db" using p by (auto simp: pin_published_def res_simps)
  then show ?thesis using interruptible_Inr [OF pin_interruptible p] by simp
qed

lemma commit_is_build:
  assumes "commit_generation j p db env env2 = (Inr (g, env'), db')"
  shows "g = pd_generation p"
proof -
  obtain r where r: "edit j (switch_current j p) db env = (r, db')" using commit_path [OF assms] by blast
  show ?thesis
  proof (cases r)
    case (Inl e)
    then have "observe (confirm_commit j p) db' env2 = Inr (g, env')"
      using assms r by (auto simp: commit_generation_def split: if_splits)
    then show ?thesis using confirm_Inr by blast
  next
    case (Inr q)
    then have "edited j (switch_current j p) db g db'"
      using assms r edit_cases [OF r editors_atomic(8)] by (auto simp: commit_generation_def)
    then show ?thesis
      by (auto simp: edited_def switch_current_def res_simps split: if_splits dest!: pending_mut_Inr)
  qed
qed

lemma commit_build_Inr:
  assumes "commit_build site p w = (Inr g, w')"
  shows "wd_remote w' = wd_remote w \<and> (\<exists>env env2 env'.
    commit_generation (site_json site) p (wd_db w) env env2 = (Inr (g, env'), wd_db w'))"
proof -
  obtain res db' where c: "commit_generation (site_json site) p (wd_db w) (wd_obs w 0) (wd_obs w 1) = (res, db')" by (metis surj_pair)
  then have "(\<exists>env'. res = Inr (g, env')) \<and> wd_db w' = db' \<and> wd_remote w' = wd_remote w"
    using assms by (auto simp: commit_build_def editV_def skip_obs_def mapErr_Inr res_simps)
  then show ?thesis using c by blast
qed

text \<open>How a view came out: the generation was served as the database had it, then it was committed from there.\<close>

definition committed_from :: "Json \<Rightarrow> Database \<Rightarrow> Generation \<Rightarrow> Database \<Rightarrow> bool" where
  "committed_from j db g db' \<longleftrightarrow> db' = db \<or> (\<exists>p env env2 env'. g = pd_generation p \<and>
     commit_generation j p db env env2 = (Inr (g, env'), db'))"

lemma finish_publication_Inr:
  assumes "finish_publication site (g, pending) w = (Inr view, w')" "reads_only (site_server site)"
    and "\<And>p. pending = Some p \<Longrightarrow> g = pd_generation p"
  shows "generation_served site (wd_db w) g (wd_remote w) \<and> wd_remote w' = wd_remote w \<and> pv_generation view = g \<and>
    pin_published (site_json site) (wd_db w') [] = Inr (view, []) \<and> committed_from (site_json site) (wd_db w) g (wd_db w')"
proof -
  let ?j = "site_json site"
  obtain u w1 h w2 v w3 where p: "verify_remote site g w = (Inr u, w1)"
      "(case pending of None \<Rightarrow> retV g | Some pending \<Rightarrow> commit_build site pending) w1 = (Inr h, w2)"
      "readV (open_published ?j) w2 = (Inr v, w3)"
      and k: "(if pv_generation v \<noteq> h then failV ''PUBLICATION_STALE'' else retV v) w3 = (Inr view, w')"
    using assms(1) unfolding finish_publication_def prod.case bindV_Inr by blast
  have v: "pv_generation view = h" "view = v" "w' = w3" using k by (auto simp: simple_drivers_Inr split: if_splits)
  have "verify_remote site g w = (Inr (), w1)" using p(1) by (cases u) simp
  note s = generation_is_served [OF this assms(2)] steadyD [OF steady_basic(6) p(3)]
  have "h = g \<and> wd_remote w2 = wd_remote w1 \<and> committed_from ?j (wd_db w1) g (wd_db w2)"
  proof (cases pending)
    case None
    then show ?thesis using p(2) by (simp add: simple_drivers_Inr committed_from_def)
  next
    case (Some x)
    then have c: "commit_build site x w1 = (Inr h, w2)" using p(2) by simp
    note C = commit_build_Inr [OF c]
    then show ?thesis using commit_is_build assms(3) [OF Some] unfolding committed_from_def by metis
  qed
  moreover have "pin_published ?j (wd_db w2) [] = Inr (view, [])"
    using p(3) v(2) open_published_pins by (auto simp: simple_drivers_Inr)
  ultimately show ?thesis using s v by simp
qed

lemma prepare_build_pending:
  assumes "prepare_build site w = (Inr (g, Some p), w')"
  shows "g = pd_generation p"
  using assms unfolding prepare_build_def
  by (auto simp: driver_Inr split: prod.splits if_splits)

text \<open>
  C1: A view is returned only when the service holds the generation. Whenever \<open>publish\<close> returns a
  view and the service's reads leave its state alone, the view pins the current generation of the
  database left behind; every page of that generation is held by the remote collection as it is
  now: asked for the page's points it returns exactly those, each with the source of its evidence and the text
  that the artifact of that source, decoded from the store and matching the registered digest, has
  between the offsets of the evidence; and the service counts no further points. The database the
  pages were read from is the final one, or the one the generation was committed from.
\<close>

theorem published_view_is_served:
  assumes "publish socket site endpoint variable w = (Inr view, w')" "reads_only (site_server site)"
  shows "pin_published (site_json site) (wd_db w') [] = Inr (view, []) \<and>
    (\<exists>db. generation_served site db (pv_generation view) (wd_remote w') \<and>
       committed_from (site_json site) db (pv_generation view) (wd_db w'))"
proof -
  obtain w1 where "prepare_view site w1 = (Inr view, w')"
    using assms(1) unfolding publish_def by (auto simp: driver_Inr split: prod.splits sum.splits)
  then obtain prepared w2 where b: "prepare_build site w1 = (prepared, w2)"
      "bindV (close_writer site) (\<lambda>_. bindV (liftV prepared) (finish_publication site)) w2 = (Inr view, w')"
    by (auto simp: prepare_view_def split: prod.splits)
  obtain u w3 q w4 where f: "prepared = Inr q" "finish_publication site q w4 = (Inr view, w')"
    using b(2) unfolding bindV_Inr simple_drivers_Inr by blast
  obtain g pending where q: "q = (g, pending)" by (cases q)
  have "\<And>p. pending = Some p \<Longrightarrow> g = pd_generation p" using prepare_build_pending b(1) f(1) q by blast
  from finish_publication_Inr [OF f(2) [unfolded q] assms(2) this] show ?thesis by auto
qed

end
