(* ===== verification/CorpusExample.thy ===== *)
theory CorpusExample
  imports CorpusVerified ExactExample
begin

text \<open>
  A publication that succeeds, computed: a database whose current generation has one page with the
  three units of the source of the search example, a store with its artifact, and a service that
  holds the page. The publication finds nothing to build, verifies the service and returns the view.
\<close>

section \<open>The service that holds a list of points\<close>

definition stored_point :: "PointInput \<Rightarrow> RetrievedPoint" where
  "stored_point p = \<lparr>rt_id = Some (point_id (pt_id p)), rt_payload = st_payload (point_struct p), rt_vectors = False\<rparr>"

definition wf_input :: "PointInput \<Rightarrow> bool" where
  "wf_input p \<longleftrightarrow> length (pt_id p) = 16 \<and> length (pt_source_id p) = 16"

lemma stored_reads:
  assumes "wf_input p"
  shows "decode_id (Some (point_id (pt_id p))) = Inr (pt_id p)"
    "payload_source_id [(''source_id'', Some (StringValue (as_bytes (uuid_to_string (pt_source_id p)))))] = Inr (pt_source_id p)"
    "payload_source_id (st_payload (point_struct p)) = Inr (pt_source_id p)"
    "payload_string (st_payload (point_struct p)) TEXT_FIELD = Inr (pt_text p)"
proof -
  show "decode_id (Some (point_id (pt_id p))) = Inr (pt_id p)" using assms decode_id_iff by (simp add: wf_input_def)
  have "length (as_bytes (uuid_to_string (pt_source_id p))) = 36"
    using assms unfolding as_bytes_uuid_to_string by (simp add: wf_input_def uuid_layout_def)
  moreover have "of_bytes (as_bytes (uuid_to_string (pt_source_id p))) = uuid_to_string (pt_source_id p)"
      "uuid_parse (uuid_to_string (pt_source_id p)) = Inr (pt_source_id p)"
    using assms uuid_parse_to_string_aux by (simp_all add: wf_input_def)
  ultimately show "payload_source_id [(''source_id'', Some (StringValue (as_bytes (uuid_to_string (pt_source_id p)))))] = Inr (pt_source_id p)"
    "payload_source_id (st_payload (point_struct p)) = Inr (pt_source_id p)"
    by (simp_all add: payload_source_id_def payload_string_def point_struct_def)
  show "payload_string (st_payload (point_struct p)) TEXT_FIELD = Inr (pt_text p)"
    by (simp add: payload_string_def point_struct_def TEXT_FIELD_def)
qed

lemma stored_match:
  assumes "distinct (map pt_id wanted)"
  shows "\<forall>p \<in> set ps. p \<in> set wanted \<and> wf_input p \<Longrightarrow> distinct (map pt_id ps) \<Longrightarrow> seen \<inter> pt_id ` set ps = {} \<Longrightarrow>
    match_points wanted (map stored_point ps) seen [] = Inr ((), [])"
proof (induction ps arbitrary: seen)
  case (Cons p ps)
  have "find (\<lambda>w. pt_id w = pt_id p) wanted = Some p"
  proof (cases "find (\<lambda>w. pt_id w = pt_id p) wanted")
    case None
    then show ?thesis using Cons.prems(1) by (auto simp: find_None_iff)
  next
    case (Some w)
    then have "w \<in> set wanted" "pt_id w = pt_id p" by (auto simp: find_Some_iff)
    then show ?thesis using Some assms Cons.prems(1) by (auto simp: distinct_map dest: inj_onD)
  qed
  moreover have "wf_input p" using Cons.prems(1) by simp
  ultimately show ?case using Cons stored_reads [of p]
    by (auto simp: stored_point_def backend_check_def point_struct_def)
qed simp

definition xp_alnum :: "bytes \<Rightarrow> bool" where
  "xp_alnum c \<longleftrightarrow> c \<noteq> [10]"

section \<open>The generation\<close>

definition xp_points :: "UploadPoint list" where
  "xp_points = map (\<lambda>i. unit_point (ex_build 0 0 False False 0 None 0) xs_captured xs_ref i i (xs_units ! i)) [0, 1, 2]"

definition xp_page :: UploadPage where
  "xp_page = \<lparr>pg_points = xp_points, pg_request_bytes = Some 1000\<rparr>"

definition xp_hydrated :: "HydratedPoint list" where
  "xp_hydrated = map (\<lambda>(p, t). \<lparr>hp_point = p, hp_text = t\<rparr>) (zip xp_points [[97, 98, 10], [99, 100], [101, 102, 103]])"

definition xp_gen :: Generation where
  "xp_gen = \<lparr>g_namespace = replicate 16 3, g_sequence = 1, g_wanted_revision = 0, g_source_count = 1, g_gap_count = 0,
     g_point_count = 3, g_page_count = 1\<rparr>"

definition xp_state :: State where
  "xp_state = \<lparr>s_version = 1, s_namespace = Some (replicate 16 3), s_next_sequence = 1, s_current_revision = 1,
     s_current = Some xp_gen, s_pending = None\<rparr>"

definition xp_entry :: bytes where "xp_entry = projr (encode_entry xs_entry)"
definition xp_bytes :: bytes where "xp_bytes = fst (projr (encode_page xp_page []))"

definition xp_db :: Database where
  "xp_db = \<lparr>db_tables = [(META_TABLE_NAME, []), (STATE, [(STATE_KEY, [0])]),
     (SOURCES, [(gen_key 1 (replicate 16 2), xp_entry)]), (PAGES, [(gen_key 1 (be_bytes 0), xp_bytes)]),
     (EVIDENCE, map (\<lambda>p. (gen_key 1 (up_id p), encode_evidence (up_evidence p))) xp_points), (RETIRED, [])],
     db_multimaps = []\<rparr>"

definition xp_server :: "unit Server" where
  "xp_server = \<lparr>sv_encoded_len = (\<lambda>_. 1000), sv_connect = Pair (Inr ()), sv_health = Pair (Inr ''1.20.0''),
     sv_list = Pair (Inr ()), sv_create = (\<lambda>_. Pair (Inr True)), sv_index = (\<lambda>_. Pair (Inr (Some UpdateCompleted))),
     sv_info = (\<lambda>_. Pair (Inr (Some \<lparr>ci_status = Green,
       ci_params = Some \<lparr>cn_shard_number = 1, cn_replication_factor = Some 1, cn_write_consistency_factor = Some 1,
         cn_sharding_method = Some ShardingAuto, cn_vectors_config = None, cn_sparse_vectors = None\<rparr>,
       ci_payload_schema = [(TEXT_FIELD, \<lparr>sc_data_type = TextSchema, sc_params = Some (Some text_params)\<rparr>)]\<rparr>))),
     sv_exists = (\<lambda>_. Pair (Inr (Some True))), sv_delete = (\<lambda>_. Pair (Inr True)),
     sv_upsert = (\<lambda>_. Pair (Inr (Some UpdateCompleted))),
     sv_get = (\<lambda>_. Pair (Inr (map stored_point (page_inputs xp_hydrated)))), sv_count = (\<lambda>_. Pair (Inr (Some 3))),
     sv_query = (\<lambda>q. Pair (Inr [\<lparr>sp_point = \<lparr>rt_id = qp_has_id q,
       rt_payload = [(''source_id'', Some (StringValue (as_bytes (uuid_to_string (replicate 16 2)))))], rt_vectors = False\<rparr>,
       sp_score = 0x3F800000\<rparr>]))\<rparr>"

definition xp_site :: "unit Site" where
  "xp_site = \<lparr>site_hash = Artifact.ex_hash, site_root = [], site_files = xs_files, site_json = table_json [xp_state],
     site_server = xp_server, site_alnum = xp_alnum, site_random = None, site_close_error = ''''\<rparr>"

definition xp_world :: "unit world" where
  "xp_world = \<lparr>wd_db = xp_db, wd_remote = (), wd_obs = (\<lambda>_. [])\<rparr>"

lemma xp_reads_only: "reads_only xp_server"
  by (simp add: reads_only_def xp_server_def)

lemma xp_evidence:
  assumes "p \<in> set xp_points"
  shows "wf_point p" "storable_evidence (up_evidence p)"
proof -
  have "wf_point p \<and> validate_evidence (up_evidence p) = Inr ()"
    using assms xs_ref_ok
    by (auto simp: xp_points_def unit_point_def wf_point_def wf_evidence_def validate_evidence_iff xs_units_def xs_captured_def
        Artifact.ex_source_def object_source_def Artifact.ex_hash_def SOURCE_OBJECT_FORMAT_VERSION_def
        MAX_SOURCE_OBJECT_BYTES_def MAX_TEXT_BYTES_def ex_build_def ex_gen_def valid_object_def)
  then show "wf_point p" "storable_evidence (up_evidence p)" by (simp_all add: storable_evidence_def wf_point_def)
qed

lemma xp_page_bytes: "decode_page xp_bytes [] = Inr (xp_page, [])" "length xp_bytes \<le> MAX_PAGE_BYTES"
proof -
  have v: "validate_evidence (up_evidence p) = Inr ()" if "p \<in> set xp_points" for p
    using xp_evidence(2) [OF that] by (simp add: storable_evidence_def)
  have "\<exists>bs. encode_page xp_page [] = Inr (bs, [])"
    using v by (simp add: encode_page_def xp_page_def page_size_def xp_points_def EVIDENCE_BYTES_def checked_add64_def
        MAX_PAGE_BYTES_def MAX_PAGE_POINTS_def try_from_def)
  then obtain bs where e: "encode_page xp_page [] = Inr (bs, [])" by blast
  have "wf_page xp_page" using xp_evidence(1) by (simp add: wf_page_def xp_page_def)
  from decode_encode_page [OF this e] show d: "decode_page xp_bytes [] = Inr (xp_page, [])" by (simp add: xp_bytes_def e)
  then show "length xp_bytes \<le> MAX_PAGE_BYTES" by (auto simp: decode_page_def split: if_splits)
qed

lemma xp_source_row: "decode_source xp_entry = Inr xs_entry"
  using xs_encoded by (auto simp: xp_entry_def)

section \<open>The calls of the run\<close>

lemma xp_state_read: "read_state (table_json [xp_state]) xp_db [] = Inr (xp_state, [])"
  by (simp add: read_state_def xp_db_def get_table_def r_get_def tbl_get_def pub_table_defs META_TABLE_NAME_def STATE_KEY_def
      decode_state_def table_json_def state_generations_def xp_state_def generation_sane_def xp_gen_def
      MAX_SOURCES_def MAX_POINTS_def)

lemma xp_tables:
  "get_table xp_db SOURCES = Some [(gen_key 1 (replicate 16 2), xp_entry)]"
  "get_table xp_db PAGES = Some [(gen_key 1 (be_bytes 0), xp_bytes)]"
  "get_table xp_db EVIDENCE = Some (map (\<lambda>p. (gen_key 1 (up_id p), encode_evidence (up_evidence p))) xp_points)"
  "get_table xp_db RETIRED = Some []"
  by (simp_all add: xp_db_def get_table_def pub_table_defs META_TABLE_NAME_def)

lemma xp_capture:
  "capture_corpus (table_json [xp_state]) xp_db [] = Inr (\<lparr>cc_sources = [], cc_current = Some xp_gen, cc_pending = None,
     cc_source_namespace = None, cc_wanted_revision = 0, cc_state = xp_state\<rparr>, [])"
proof -
  have "catalogue_names (list_tables xp_db) (db_multimaps xp_db \<noteq> []) = Inr False"
    by (simp add: catalogue_names_def xp_db_def list_tables_def PUBLICATION_TABLE_NAMES_def pub_table_defs META_TABLE_NAME_def)
  then show ?thesis using xp_state_read by (simp add: capture_corpus_def observe_database_def read_corpus_def xp_state_def)
qed

lemma xp_retired: "retired_generations (table_json [xp_state]) xp_db [] = Inr ([], [])"
  using xp_state_read xp_tables
  by (simp add: retired_generations_def observe_database_def read_retirements_def xp_state_def r_open_def)

lemma from_prefix_all: "\<forall>e \<in> set t. \<exists>x. fst e = gen_key 1 x \<Longrightarrow> from_prefix (be_bytes 1) t = t"
  using starts_with_le [of "be_bytes 1"]
  by (cases t) (auto simp: from_prefix_def gen_key_def starts_with_def leD)

lemma xp_prefix:
  "from_prefix (be_bytes 1) [(gen_key 1 (replicate 16 2), xp_entry)] = [(gen_key 1 (replicate 16 2), xp_entry)]"
  "from_prefix (be_bytes 1) [(gen_key 1 (be_bytes 0), xp_bytes)] = [(gen_key 1 (be_bytes 0), xp_bytes)]"
  "from_prefix (be_bytes 1) (map (\<lambda>p. (gen_key 1 (up_id p), encode_evidence (up_evidence p))) xp_points) =
     map (\<lambda>p. (gen_key 1 (up_id p), encode_evidence (up_evidence p))) xp_points"
  by (rule from_prefix_all; auto)+

abbreviation xp_progress :: "nat \<Rightarrow> nat \<Rightarrow> SourceProgress" where
  "xp_progress n e \<equiv> \<lparr>sp_id = replicate 16 2, sp_namespace = replicate 16 1, sp_input = object_ref Artifact.ex_source,
     sp_prepared = Some xs_ref, sp_units = 3, sp_seen = n, sp_byte_end = e\<rparr>"

lemma xp_sources_ok: "verify_sources xp_db xp_gen [] = Inr ([xp_progress 0 0], [])"
proof -
  have "progress_from_entry xs_entry = Inr (xp_progress 0 0)"
    by (simp add: progress_from_entry_def xs_entry_def xs_captured_def MAX_POINTS_def Artifact.ex_source_def object_source_def)
  then show ?thesis
    using xp_tables(1) xp_prefix(1) xp_source_row
    by (simp add: verify_sources_def xp_gen_def try_from_def MAX_SOURCES_def r_open_def starts_with_gen_key add_units_def
        checked_add64_def MAX_POINTS_def) (simp add: gen_key_def)
qed

definition xp_evidence_of :: "nat \<Rightarrow> PointEvidence" where
  "xp_evidence_of i = up_evidence (xp_points ! i)"

lemma xp_points_list:
  "xp_points = map (\<lambda>i. \<lparr>up_id = be_bytes 1 @ be_bytes i, up_evidence = xp_evidence_of i\<rparr>) [0, 1, 2]"
  by (simp add: xp_points_def xp_evidence_of_def unit_point_def ex_build_def ex_gen_def numeral_2_eq_2)

lemma xp_evidence_of:
  assumes "i \<le> 2"
  shows "xp_evidence_of i = \<lparr>pe_namespace_id = replicate 16 1, pe_source_id = replicate 16 2, pe_input = object_ref Artifact.ex_source,
    pe_prepared = xs_ref, pe_unit = i, pe_start = us_start (xs_units ! i), pe_end = us_end (xs_units ! i),
    pe_line_start = us_line_start (xs_units ! i), pe_line_end = us_line_end (xs_units ! i),
    pe_starts_at_line = us_starts_at_line (xs_units ! i), pe_ends_at_line = us_ends_at_line (xs_units ! i)\<rparr>"
  "decode_evidence (encode_evidence (xp_evidence_of i)) = Inr (xp_evidence_of i)"
proof -
  have "length xp_points = 3" by (simp add: xp_points_def)
  then have "xp_points ! i \<in> set xp_points" using assms by (intro nth_mem) simp
  then show "decode_evidence (encode_evidence (xp_evidence_of i)) = Inr (xp_evidence_of i)"
    using evidences.dec_enc [OF xp_evidence(2)] by (simp add: xp_evidence_of_def)
  have "i \<in> {0, 1, 2}" using assms by auto
  then show "xp_evidence_of i = \<lparr>pe_namespace_id = replicate 16 1, pe_source_id = replicate 16 2, pe_input = object_ref Artifact.ex_source,
    pe_prepared = xs_ref, pe_unit = i, pe_start = us_start (xs_units ! i), pe_end = us_end (xs_units ! i),
    pe_line_start = us_line_start (xs_units ! i), pe_line_end = us_line_end (xs_units ! i),
    pe_starts_at_line = us_starts_at_line (xs_units ! i), pe_ends_at_line = us_ends_at_line (xs_units ! i)\<rparr>"
    by (auto simp: xp_evidence_of_def xp_points_def unit_point_def xs_captured_def Artifact.ex_source_def)
qed

lemma be_bytes_eq: "be_bytes i = be_bytes k \<Longrightarrow> i < u64_bound \<Longrightarrow> k < u64_bound \<Longrightarrow> i = k"
  by (simp add: be_bytes_inject)

lemma xp_row:
  assumes "i \<le> 2"
  shows "tbl_get (map (\<lambda>p. (gen_key 1 (up_id p), encode_evidence (up_evidence p))) xp_points)
    (gen_key 1 (be_bytes 1 @ be_bytes i)) = Some (encode_evidence (xp_evidence_of i))"
proof -
  have "i \<in> {0, 1, 2}" using assms by auto
  then show ?thesis
    using be_bytes_eq [of 0 1] be_bytes_eq [of 0 2] be_bytes_eq [of 1 2]
    by (auto simp: xp_points_list tbl_get_def gen_key_def)
qed

lemma xp_accepts:
  assumes "i \<le> 2" "e = (if i = 0 then 0 else us_end (xs_units ! (i - 1)))"
  shows "progress_accept (xp_evidence_of i) (xp_progress i e) = Inr (xp_progress (Suc i) (us_end (xs_units ! i)))"
proof -
  have "i \<in> {0, 1, 2}" using assms by auto
  then show ?thesis using assms(2) xp_evidence_of(1) [OF assms(1)]
    by (auto simp: progress_accept_def checked_add64_def xs_units_def Artifact.ex_source_def object_source_def)
qed

lemma xp_verified_points:
  "verify_points xp_gen (map (\<lambda>p. (gen_key 1 (up_id p), encode_evidence (up_evidence p))) xp_points)
     xp_points 0 [xp_progress 0 0] [] = Inr ((3, [xp_progress 3 8]), [])"
proof -
  have one: "verify_points xp_gen (map (\<lambda>p. (gen_key 1 (up_id p), encode_evidence (up_evidence p))) xp_points)
     (\<lparr>up_id = be_bytes 1 @ be_bytes i, up_evidence = xp_evidence_of i\<rparr> # ps) i [xp_progress i e] [] =
     verify_points xp_gen (map (\<lambda>p. (gen_key 1 (up_id p), encode_evidence (up_evidence p))) xp_points)
     ps (Suc i) [xp_progress (Suc i) (us_end (xs_units ! i))] []"
    if "i \<le> 2" "e = (if i = 0 then 0 else us_end (xs_units ! (i - 1)))" for i e ps
    using xp_row [OF that(1)] xp_evidence_of [OF that(1)] xp_accepts [OF that] that(1)
    by (simp add: xp_gen_def r_get_def verify_point_def checked_add64_def)
  let ?v = "verify_points xp_gen (map (\<lambda>p. (gen_key 1 (up_id p), encode_evidence (up_evidence p))) xp_points)"
  let ?p = "\<lambda>i. \<lparr>up_id = be_bytes 1 @ be_bytes i, up_evidence = xp_evidence_of i\<rparr>"
  have "?v [?p 0, ?p 1, ?p 2] 0 [xp_progress 0 0] [] = ?v [?p 1, ?p 2] (Suc 0) [xp_progress (Suc 0) 3] []"
    using one [of 0 0] by (simp add: xs_units_def)
  also have "\<dots> = ?v [?p 2] 2 [xp_progress 2 5] []" using one [of 1 3] by (simp add: xs_units_def numeral_2_eq_2)
  also have "\<dots> = Inr ((3, [xp_progress 3 8]), [])" using one [of 2 5] by (simp add: xs_units_def numeral_3_eq_3)
  finally have "?v [?p 0, ?p 1, ?p 2] 0 [xp_progress 0 0] [] = Inr ((3, [xp_progress 3 8]), [])" .
  then show ?thesis by (subst (2) xp_points_list) simp
qed

lemma of_be_bytes_be: "n < u64_bound \<Longrightarrow> of_be_bytes (be_bytes n) = n"
  by (simp add: of_be_bytes_def be_bytes_def of_le_bytes_le_bytes)

lemma xp_gen_facts [simp]:
  "g_sequence xp_gen = 1" "g_page_count xp_gen = 1" "g_point_count xp_gen = 3" "g_wanted_revision xp_gen = 0"
  by (simp_all add: xp_gen_def)

lemma xp_adds: "checked_add64 0 1 = Some 1" "checked_add64 1 1 = Some 2" "checked_add64 2 1 = Some 3"
  by (simp_all add: checked_add64_def)

lemma xp_counted:
  "count_evidence xp_gen (map (\<lambda>p. (gen_key 1 (up_id p), encode_evidence (up_evidence p))) xp_points) 0 [] = Inr (3, [])"
  using xp_adds by (simp add: xp_points_list starts_with_def gen_key_def of_be_bytes_be)

lemma xp_verified: "verify_generation xp_db xp_gen [] = Inr ((), [])"
proof -
  have p: "verify_pages xp_gen (map (\<lambda>p. (gen_key 1 (up_id p), encode_evidence (up_evidence p))) xp_points)
      [(gen_key 1 (be_bytes 0), xp_bytes)] 0 0 0 [xp_progress 0 0] [] = Inr ((1, 3, [xp_progress 3 8]), [])"
    using xp_page_bytes xp_verified_points
    by (simp add: starts_with_gen_key try_from_def checked_add64_def MAX_STAGED_BYTES_def MAX_PAGE_BYTES_def xp_page_def)
  have c: "progress_complete (xp_progress 3 8)"
    by (simp add: progress_complete_def Artifact.ex_source_def object_source_def)
  have "evidence_count xp_db xp_gen [] = Inr ((), [])"
    using xp_counted xp_tables(3) xp_prefix(3) by (simp add: evidence_count_def r_open_def)
  then show ?thesis
    using xp_sources_ok xp_tables xp_prefix(2) p c
    by (simp add: verify_generation_def r_open_def del: verify_pages.simps)
qed

lemma xp_validated: "validate_generation (table_json [xp_state]) xp_gen xp_db [] = Inr ((), [])"
  using xp_state_read xp_verified by (simp add: validate_generation_def observe_def observe_database_def) (simp add: xp_state_def)

lemma xp_opened: "open_published (table_json [xp_state]) xp_db [] = Inr (\<lparr>pv_generation = xp_gen, pv_transaction = xp_db\<rparr>, [])"
proof -
  have "s_current xp_state = Some xp_gen" by (simp add: xp_state_def)
  then show ?thesis using xp_state_read xp_verified xp_tables by (simp add: open_published_def pin_published_def r_open_def)
qed

section \<open>The pass over the page\<close>

abbreviation xp_view :: PreparedUtf8 where
  "xp_view \<equiv> \<lparr>pu_text = Artifact.ex_text, pu_units = xs_units\<rparr>"

lemma xp_decoded:
  "decode_prepared_utf8 Artifact.ex_hash xs_artifact Artifact.ex_source Artifact.ex_settings corpus_limits [] = Inr (xp_view, [])"
proof -
  have adm: "admitted Artifact.ex_source Artifact.ex_settings corpus_limits"
    using Artifact.ex_wf
    by (simp add: admitted_def corpus_limits_def Artifact.ex_source_def object_source_def MAX_SOURCE_OBJECT_BYTES_def
        prep_limits_validate_def mul_fits_isize_def checked_mul64_def size_of_LineSpan_def size_of_UnitSpan_def)
  have "length xs_units = 3" by (simp add: xs_units_def)
  then show ?thesis
    using decode_app [OF Artifact.ex_wf(1) adm Artifact.ex_admitted(2) Artifact.ex_valid xs_prepared(2)] xs_prepared(1,3)
    by (simp add: Artifact.ex_split corpus_limits_def)
qed

lemma xp_world_simps [simp]: "skip_obs xp_world = xp_world" "wd_db xp_world = xp_db" "wd_remote xp_world = ()" "wd_obs xp_world i = []"
  by (simp_all add: skip_obs_def xp_world_def)

lemma xp_site_simps [simp]:
  "site_hash xp_site = Artifact.ex_hash" "site_root xp_site = []" "site_files xp_site = xs_files"
  "site_json xp_site = table_json [xp_state]" "site_server xp_site = xp_server" "site_alnum xp_site = xp_alnum"
  by (simp_all add: xp_site_def)

lemma xp_polls [simp]: "corpus_check xp_world = (Inr (), xp_world)" "corpus_alloc xp_world = (Inr (), xp_world)"
  "control_check xp_world = (Inr (), xp_world)" "pollV (io_with e) xp_world = (Inr (), xp_world)"
  by (simp_all add: corpus_check_def corpus_alloc_def control_check_def pollV_def localV_def)

lemma xp_artifact: "artifact_view xp_site xs_captured xs_ref xp_world = (Inr xp_view, xp_world)"
proof -
  have "byte_length xs_ref + 1 < u64_bound" using xs_ref_ok by simp
  from read_object_quiet [OF this, of Artifact.ex_hash "[]" "64 * 1024 * 1024" xs_files]
  have "read_object Artifact.ex_hash [] xs_ref (64 * 1024 * 1024) (xs_files, []) = (Inr xs_artifact, (xs_files, []))"
    using xs_objects(2) by (simp add: object_content_def)
  then show ?thesis using xp_decoded by (simp add: artifact_view_def bindV_def localV_def xs_captured_def)
qed

lemma xp_page_read: "upload_page_on xp_site False xp_gen 0 xp_world = (Inr xp_page, xp_world)"
proof -
  have "s_current xp_state = Some xp_gen" by (simp add: xp_state_def)
  moreover have "tbl_get [(gen_key 1 (be_bytes 0), xp_bytes)] (gen_key 1 (be_bytes 0)) = Some xp_bytes" by (simp add: tbl_get_def)
  ultimately show ?thesis
    using xp_state_read xp_tables(2) xp_page_bytes(1)
    by (simp add: upload_page_on_def readV_def localV_def read_upload_page_def observe_def observe_database_def
        read_saved_page_def r_open_def r_get_def)
qed

lemma xp_source_read: "generation_source_on xp_site False xp_gen (replicate 16 2) xp_world = (Inr xs_captured, xp_world)"
proof -
  have "s_current xp_state = Some xp_gen" by (simp add: xp_state_def)
  moreover have "tbl_get [(gen_key 1 (replicate 16 2), xp_entry)] (gen_key 1 (replicate 16 2)) = Some xp_entry" by (simp add: tbl_get_def)
  moreover have "se_captured xs_entry = xs_captured" "se_complete xs_entry" "source_id (ca_source xs_captured) = replicate 16 2"
    by (simp_all add: xs_entry_def xs_captured_def Artifact.ex_source_def)
  ultimately show ?thesis
    using xp_state_read xp_tables(1) xp_source_row
    by (simp add: generation_source_on_def readV_def localV_def read_generation_source_def observe_def observe_database_def
        read_saved_source_def r_open_def r_get_def)
qed

abbreviation xp_open :: OpenSource where
  "xp_open \<equiv> \<lparr>os_captured = xs_captured, os_artifact = xs_ref, os_view = xp_view\<rparr>"

lemma xp_opened_source: "open_source xp_site False xp_gen (replicate 16 2) xp_world = (Inr xp_open, xp_world)"
proof -
  have "ready_artifact xs_captured = Some xs_ref" by (simp add: ready_artifact_def xs_captured_def)
  then show ?thesis using xp_source_read xp_artifact by (simp add: open_source_def bindV_def retV_def)
qed

definition xp_text_of :: "nat \<Rightarrow> bytes" where
  "xp_text_of i = [[97, 98, 10], [99, 100], [101, 102, 103]] ! i"

abbreviation xp_point :: "nat \<Rightarrow> HydratedPoint" where
  "xp_point i \<equiv> \<lparr>hp_point = \<lparr>up_id = be_bytes 1 @ be_bytes i, up_evidence = xp_evidence_of i\<rparr>, hp_text = xp_text_of i\<rparr>"

lemma xp_hydrate:
  assumes "i \<le> 2"
  shows "hydrate_point xp_view Artifact.ex_source xs_ref \<lparr>up_id = be_bytes 1 @ be_bytes i, up_evidence = xp_evidence_of i\<rparr> xp_world
    = (Inr (xp_point i), xp_world)"
proof -
  have "i \<in> {0, 1, 2}" using assms by auto
  then have "unit_text xp_view (xp_evidence_of i) = Inr (xp_text_of i)"
    using xp_evidence_of(1) [OF assms]
    by (auto simp: unit_text_def try_from_def get_at_def xs_units_def str_get_def is_char_boundary_def is_cont_def Artifact.ex_text_def xp_text_of_def)
  then show ?thesis
    using xp_evidence_of(1) [OF assms] by (simp add: hydrate_point_def bindV_def liftV_def retV_def Artifact.ex_source_def)
qed

lemma xp_hydrated_list: "xp_hydrated = [xp_point 0, xp_point 1, xp_point 2]"
  by (simp add: xp_hydrated_def xp_points_list xp_text_of_def numeral_2_eq_2)

lemma xp_inputs:
  "page_inputs xp_hydrated = map (\<lambda>i. \<lparr>pt_id = be_bytes 1 @ be_bytes i, pt_source_id = replicate 16 2, pt_text = xp_text_of i\<rparr>) [0, 1, 2]"
  using xp_evidence_of(1) [of 0] xp_evidence_of(1) [of 1] xp_evidence_of(1) [of 2]
  by (simp add: xp_hydrated_list page_inputs_def)

lemma xp_name: "collection_name (collection xp_gen) = Inr ()" "length (collection xp_gen) \<le> 255"
proof -
  show n: "collection_name (collection xp_gen) = Inr ()" by code_simp
  then show "length (collection xp_gen) \<le> 255" by (auto simp: collection_name_def split: if_splits)
qed

lemma xp_distinct: "distinct (map pt_id (page_inputs xp_hydrated))"
  using be_bytes_eq [of 0 1] be_bytes_eq [of 0 2] be_bytes_eq [of 1 2] by (auto simp: xp_inputs)

lemma xp_texts: "xp_text_of 0 = [97, 98, 10]" "xp_text_of (Suc 0) = [99, 100]" "xp_text_of 2 = [101, 102, 103]"
  by (simp_all add: xp_text_of_def)

lemma xp_encoded: "\<exists>m. encode_batch xp_server (collection xp_gen) (page_inputs xp_hydrated) [] = Inr (m, [])"
proof -
  have "batch_scan (page_inputs xp_hydrated) {} (length (collection xp_gen)) [] = Inr []"
    using xp_distinct xp_name(2)
    by (auto simp: xp_inputs xp_texts backend_check_def MAX_POINT_TEXT_BYTES_def MAX_REQUEST_BYTES_def checked_add64_def)
  moreover have "poll_each backend_check (page_inputs xp_hydrated) [] = Inr []"
    by (simp add: xp_inputs backend_check_def)
  moreover have "page_inputs xp_hydrated \<noteq> []" "length (page_inputs xp_hydrated) = 3" by (simp_all add: xp_inputs)
  ultimately show ?thesis
    using xp_name(1) by (simp add: encode_batch_def backend_check_def Let_def MAX_PAGE_POINTS_def xp_server_def MAX_REQUEST_BYTES_def)
qed

lemma xp_wire: "batch_request_bytes xp_server (collection xp_gen) (page_inputs xp_hydrated) [] = Inr (1000, [])"
  using xp_encoded by (auto simp: batch_request_bytes_def) (simp add: xp_server_def)

lemma xp_rops [simp]:
  "pollR backend_check [] r = (Inr ((), []), r)" "pollR synchronous [] r = (Inr ((), []), r)"
  by (simp_all add: pollR_def localR_def backend_check_def synchronous_def)

lemma xp_request [simp]: "request xp_server backend_limits_default m [] r = (Inr ((), []), r)"
  by (simp add: request_def bindR_def xp_server_def backend_limits_default_def MAX_REQUEST_BYTES_def)
    (simp add: pollR_def localR_def)

lemma xp_rpc: "act r = (Inr x, r) \<Longrightarrow> rpc_call mutation act [] r = (Inr (x, []), r)"
  by (simp add: rpc_call_def rpc_run_def bindR_def)

lemma xp_schema: "verify_schema xp_server backend_limits_default (collection xp_gen) [] () = (Inr ((), []), ())"
  using xp_name(1)
  by (simp add: verify_schema_def bindR_def liftR_def xp_rpc xp_server_def [THEN arg_cong, of sv_info])
    (simp add: verify_info_def TEXT_FIELD_def verify_text_def text_params_def)

lemma xp_points_held: "backend_verify_points xp_server backend_limits_default (collection xp_gen) (page_inputs xp_hydrated) [] () = (Inr ((), []), ())"
proof -
  have "match_points (page_inputs xp_hydrated) (map stored_point (page_inputs xp_hydrated)) {} [] = Inr ((), [])"
    by (rule stored_match [OF xp_distinct]) (simp_all add: xp_distinct, simp add: xp_inputs wf_input_def)
  moreover have "page_inputs xp_hydrated \<noteq> []" "length (page_inputs xp_hydrated) = 3" by (simp_all add: xp_inputs)
  moreover have "sv_get xp_server m () = (Inr (map stored_point (page_inputs xp_hydrated)), ())" for m
    by (simp add: xp_server_def)
  ultimately show ?thesis
    using xp_name(1) xp_encoded
    by (auto simp: backend_verify_points_def bindR_def liftR_def localR_def xp_rpc Let_def backend_limits_default_def [THEN arg_cong, of bl_max_batch_points]
        MAX_PAGE_POINTS_def)
qed

lemma xp_remote: "act [] () = (Inr (x, []), ()) \<Longrightarrow> remoteV act xp_world = (Inr x, xp_world)"
  by (simp add: remoteV_def tryV_def bindV_def liftV_def)

lemma xp_words:
  "canary_query xp_alnum (xp_text_of 0) = Some [97, 98]" "has_alnum xp_alnum (xp_text_of 0)"
  "scalars [97, 98] = [[97], [98]]" "saved_word xp_alnum (xp_text_of 0) [97, 98] [] = Inr (True, [])"
  by code_simp+

abbreviation xp_first :: PointInput where
  "xp_first \<equiv> \<lparr>pt_id = be_bytes 1 @ be_bytes 0, pt_source_id = replicate 16 2, pt_text = xp_text_of 0\<rparr>"

lemma xp_hit:
  "verify_hit [\<lparr>sp_point = \<lparr>rt_id = Some (point_id (pt_id xp_first)), rt_payload = [(''source_id'', Some (StringValue
     (as_bytes (uuid_to_string (replicate 16 2)))))], rt_vectors = False\<rparr>, sp_score = 0x3F800000\<rparr>] xp_first = Inr ()"
proof -
  have "wf_input xp_first" by (simp add: wf_input_def)
  note r = stored_reads [OF this]
  have "is_finite 0x3F800000" "\<not> not_positive 0x3F800000" by code_simp+
  then show ?thesis using r(1,2) by (simp add: verify_hit_def)
qed

lemma limit_facts: "bl_max_query_bytes backend_limits_default = 4096" "bl_max_batch_points backend_limits_default = MAX_PAGE_POINTS"
  by (simp_all add: backend_limits_default_def MAX_QUERY_BYTES_def)

lemma xp_canary: "verify_canary xp_alnum xp_server backend_limits_default (collection xp_gen) xp_first [97, 98] [] () = (Inr ((), []), ())"
proof -
  let ?q = "query_message (collection xp_gen) xp_first [97, 98]"
  have "sv_query xp_server ?q () = (Inr [\<lparr>sp_point = \<lparr>rt_id = Some (point_id (pt_id xp_first)), rt_payload = [(''source_id'',
      Some (StringValue (as_bytes (uuid_to_string (replicate 16 2)))))], rt_vectors = False\<rparr>, sp_score = 0x3F800000\<rparr>], ())"
    by (simp add: xp_server_def query_message_def)
  moreover have "xp_text_of 0 \<noteq> []" "length (xp_text_of 0) = 3" by (simp_all add: xp_texts)
  ultimately show ?thesis
    using xp_name(1) xp_words(3,4) xp_hit
    by (simp add: verify_canary_def bindR_def liftR_def localR_def xp_rpc separator_def xp_alnum_def
        limit_facts MAX_POINT_TEXT_BYTES_def)
qed

lemma xp_checked_words:
  "check_words xp_site (collection xp_gen) xp_hydrated \<lparr>rd_canary = False, rd_tokenless = True, rd_points = 0\<rparr> xp_world =
     (Inr \<lparr>rd_canary = True, rd_tokenless = False, rd_points = 0\<rparr>, xp_world)"
proof -
  have "hd (page_inputs [xp_point 0]) = xp_first" using xp_evidence_of(1) [of 0] by (simp add: page_inputs_def)
  then have "remoteV (verify_canary xp_alnum xp_server backend_limits_default (collection xp_gen) (hd (page_inputs [xp_point 0])) [97, 98]) xp_world
      = (Inr (), xp_world)"
    using xp_remote xp_canary by simp
  then show ?thesis
    using xp_words(1,2) by (simp add: xp_hydrated_list bindV_def retV_def)
qed

lemma xp_page_verified:
  "verify_page xp_site (collection xp_gen) 0 xp_hydrated \<lparr>rd_canary = False, rd_tokenless = True, rd_points = 0\<rparr> xp_world =
     (Inr \<lparr>rd_canary = True, rd_tokenless = False, rd_points = 3\<rparr>, xp_world)"
proof -
  have "length xp_hydrated = 3" by (simp add: xp_hydrated_list)
  moreover have "remoteV (backend_verify_points xp_server backend_limits_default (collection xp_gen) (page_inputs xp_hydrated)) xp_world
      = (Inr (), xp_world)" by (simp add: xp_remote xp_points_held)
  ultimately show ?thesis
    using xp_checked_words
    by (simp add: verify_page_def bindV_def liftV_def retV_def try_from_def checked_add64_def)
qed

lemma xp_visited:
  "visit_pages xp_site False xp_gen 0 1 (verify_page xp_site (collection xp_gen)) \<lparr>rd_canary = False, rd_tokenless = True, rd_points = 0\<rparr> xp_world =
     (Inr \<lparr>rd_canary = True, rd_tokenless = False, rd_points = 3\<rparr>, xp_world)"
proof -
  let ?v = "\<lparr>rd_canary = False, rd_tokenless = True, rd_points = 0\<rparr>"
  let ?p = "\<lambda>i. \<lparr>up_id = be_bytes 1 @ be_bytes i, up_evidence = xp_evidence_of i\<rparr>"
  let ?loop = "visit_loop xp_site False xp_gen 1 (verify_page xp_site (collection xp_gen)) 0 (Some 1000)"
  have ids: "pe_source_id (xp_evidence_of 0) = replicate 16 2" "pe_source_id (xp_evidence_of (Suc 0)) = replicate 16 2"
      "pe_source_id (xp_evidence_of 2) = replicate 16 2"
    using xp_evidence_of(1) [of 0] xp_evidence_of(1) [of 1] xp_evidence_of(1) [of 2] by simp_all
  have src: "ca_source xs_captured = Artifact.ex_source" "source_id Artifact.ex_source = replicate 16 2"
    by (simp_all add: xs_captured_def Artifact.ex_source_def)
  have page: "visit_page xp_site xp_gen (verify_page xp_site (collection xp_gen)) 0 (Some 1000) xp_hydrated ?v xp_world =
      (Inr (\<lparr>rd_canary = True, rd_tokenless = False, rd_points = 3\<rparr>, 1), xp_world)"
    using xp_wire xp_page_verified
    by (simp add: visit_page_def bindV_def localV_def liftV_def retV_def try_from_def checked_add64_def)
  have "?loop [] None [?p 0, ?p 1, ?p 2] ?v xp_world = ?loop xp_hydrated (Some xp_open) [] ?v xp_world"
    using xp_opened_source ids src xp_hydrate [of 0] xp_hydrate [of 1] xp_hydrate [of 2]
    by (simp add: bindV_def xp_hydrated_list del: visit_loop.simps(4))
  also have "\<dots> = (Inr \<lparr>rd_canary = True, rd_tokenless = False, rd_points = 3\<rparr>, xp_world)"
    using page by (simp add: bindV_def retV_def)
  finally show ?thesis
    using xp_page_read by (simp add: visit_pages_def bindV_def xp_page_def xp_points_list numeral_2_eq_2)
qed

section \<open>The run\<close>

lemma xp_counts: "count_exact xp_server backend_limits_default (collection xp_gen) [] () = (Inr (3, []), ())"
proof -
  have "sv_count xp_server (count_points (collection xp_gen)) () = (Inr (Some 3), ())" by (simp add: xp_server_def)
  then show ?thesis using xp_name(1) by (simp add: count_exact_def bindR_def liftR_def xp_rpc)
qed

lemma xp_verified_remote: "verify_remote xp_site xp_gen xp_world = (Inr (), xp_world)"
proof -
  have "readV (validate_generation (table_json [xp_state]) xp_gen) xp_world = (Inr (), xp_world)"
    using xp_validated by (simp add: readV_def localV_def)
  then show ?thesis
    using xp_visited
    by (simp add: verify_remote_def bindV_def retV_def xp_remote xp_schema xp_counts)
qed

lemma xp_prepared: "prepare_build xp_site xp_world = (Inr (xp_gen, None), xp_world)"
proof -
  let ?c = "\<lparr>cc_sources = [], cc_current = Some xp_gen, cc_pending = None,
     cc_source_namespace = None, cc_wanted_revision = 0, cc_state = xp_state\<rparr>"
  have "capture_on_writer xp_site xp_world = (Inr ?c, xp_world)"
    using xp_capture by (simp add: capture_on_writer_def readV_def localV_def)
  then have "resume_capture xp_site xp_world = (Inr (?c, False), xp_world)"
    by (simp add: resume_capture_def bindV_def retV_def)
  moreover have "drop_stale xp_site ?c xp_world = (Inr (), xp_world)" by (simp add: drop_stale_def retV_def)
  moreover have "cleanup xp_site xp_world = (Inr (), xp_world)"
    using xp_retired by (simp add: cleanup_def readV_def localV_def bindV_def retV_def)
  moreover have "current_matches ?c" by (simp add: current_matches_def)
  ultimately show ?thesis by (simp add: prepare_build_def bindV_def liftV_def retV_def)
qed

abbreviation xp_published :: PublishedView where
  "xp_published \<equiv> \<lparr>pv_generation = xp_gen, pv_transaction = xp_db\<rparr>"

lemma xp_prepared_view: "prepare_view xp_site xp_world = (Inr xp_published, xp_world)"
proof -
  have "readV (open_published (table_json [xp_state])) xp_world = (Inr xp_published, xp_world)"
    using xp_opened by (simp add: readV_def localV_def)
  then have "finish_publication xp_site (xp_gen, None) xp_world = (Inr xp_published, xp_world)"
    using xp_verified_remote by (simp add: finish_publication_def bindV_def retV_def)
  moreover have "close_writer xp_site xp_world = (Inr (), xp_world)" by (simp add: close_writer_def)
  ultimately show ?thesis using xp_prepared by (simp add: prepare_view_def bindV_def liftV_def)
qed

definition xp_socket :: "string \<Rightarrow> (bool \<times> nat) option" where
  "xp_socket authority = (if authority = ''127.0.0.1:6334'' then Some (True, 6334) else None)"

lemma xp_connected: "backend_connect xp_socket xp_server ''http://127.0.0.1:6334'' None backend_limits_default [] () = (Inr ((), []), ())"
proof -
  have e: "validate_endpoint xp_socket ''http://127.0.0.1:6334'' = Inr False" "backend_limits_validate backend_limits_default = Inr ()"
    by (simp_all add: validate_endpoint_def xp_socket_def backend_limits_validate_def backend_limits_default_def
        MAX_PAGE_POINTS_def MAX_REQUEST_BYTES_def MAX_RESPONSE_BYTES_def MAX_QUERY_BYTES_def MAX_HITS_def)
  have c: "sv_connect xp_server () = (Inr (), ())" "sv_health xp_server () = (Inr ''1.20.0'', ())" "sv_list xp_server () = (Inr (), ())"
    by (simp_all add: xp_server_def)
  have "verify_connection xp_server backend_limits_default [] () = (Inr ((), []), ())"
    by (simp add: verify_connection_def bindR_def xp_rpc c)
  moreover have "pollR (io_with x) [] () = (Inr ((), []), ())" "pollR time_left [] () = (Inr ((), []), ())" for x
    by (simp_all add: pollR_def localR_def)
  ultimately show ?thesis by (simp add: backend_connect_def bindR_def liftR_def retR_def e rpc_run_def c)
qed

theorem published_view_is_served_witness:
  "publish xp_socket xp_site ''http://127.0.0.1:6334'' None xp_world = (Inr xp_published, xp_world) \<and>
   (\<exists>db. generation_served xp_site db xp_gen ())"
proof -
  have p: "publish xp_socket xp_site ''http://127.0.0.1:6334'' None xp_world = (Inr xp_published, xp_world)"
    using xp_prepared_view
    by (simp add: publish_def backend_api_key_def bindV_def liftV_def xp_remote xp_connected)
  show ?thesis using published_view_is_served [OF p] p xp_reads_only by auto
qed

end
