(* ===== verification/CommandLine.thy ===== *)
theory CommandLine
  imports WindowProtocol ObjectStore
begin

text \<open>
  The command line of the client (\<open>bins/eliot-search/src/app.rs\<close>, \<open>app/watch.rs\<close>): bounded capture of
  the arguments, the commands and their options, and the settings that are passed on to the daemon.
  An argument is its encoded bytes; \<open>to_str\<close> is the UTF-8 check of the standard library. The loops
  over an index are recursions over the arguments that remain; \<open>arguments.get(index + 1)\<close> is the
  head of what follows the option.
\<close>

section \<open>Model: commands and arguments\<close>

definition CLI_MAX_ARGUMENTS :: nat where "CLI_MAX_ARGUMENTS = 256"
definition CLI_MAX_ARGUMENT_BYTES :: nat where "CLI_MAX_ARGUMENT_BYTES = 256 * 1024"
definition CLI_MAX_PATH_BYTES :: nat where "CLI_MAX_PATH_BYTES = 32 * 1024"

datatype RootCommand =
  Inspect | Initialize | CheckExistingOwner | DiscardIncomplete | RetainFile | PrepareSource
| PublishPrepared | Index | Search

fun command_name :: "RootCommand \<Rightarrow> string" where
  "command_name Inspect = ''inspect-data-root''"
| "command_name Initialize = ''initialize-data-root''"
| "command_name CheckExistingOwner = ''check-existing-root-owner''"
| "command_name DiscardIncomplete = ''discard-incomplete-data-root''"
| "command_name RetainFile = ''retain-file''"
| "command_name PrepareSource = ''prepare-source''"
| "command_name PublishPrepared = ''publish-prepared''"
| "command_name Index = ''index''"
| "command_name Search = ''search''"

fun daemon_flag :: "RootCommand \<Rightarrow> string" where
  "daemon_flag Inspect = ''--inspect-data-root''"
| "daemon_flag Initialize = ''--initialize-data-root''"
| "daemon_flag CheckExistingOwner = ''--check-existing-root-owner''"
| "daemon_flag DiscardIncomplete = ''--discard-incomplete-data-root''"
| "daemon_flag RetainFile = ''--retain-file''"
| "daemon_flag PrepareSource = ''--prepare-source''"
| "daemon_flag PublishPrepared = ''--publish-prepared''"
| "daemon_flag Index = ''--index''"
| "daemon_flag Search = ''--search-stdio''"

definition USAGE :: string where "USAGE = ''USAGE_ERROR''"

definition to_str :: "bytes \<Rightarrow> bytes option" where
  "to_str value = (if utf8_valid value then Some value else None)"

definition argument_is :: "bytes \<Rightarrow> string \<Rightarrow> bool" where
  "argument_is value name \<longleftrightarrow> value = as_bytes name"

definition str_matches :: "bytes \<Rightarrow> string list \<Rightarrow> bool" where
  "str_matches value names \<longleftrightarrow> list_ex (\<lambda>name. to_str value = Some (as_bytes name)) names"

fun total_bytes :: "nat \<Rightarrow> bytes list \<Rightarrow> nat option" where
  "total_bytes n [] = Some n"
| "total_bytes n (a # as) = Option.bind (checked_add64 n (length a)) (\<lambda>n. total_bytes n as)"

text \<open>The arguments after the program's name, of which at most one more than the limit is taken.\<close>

definition capture_arguments :: "bytes list \<Rightarrow> string + bytes list" where
  "capture_arguments args =
     (let arguments = take (CLI_MAX_ARGUMENTS + 1) args in
      if CLI_MAX_ARGUMENTS < length arguments
         \<or> (case total_bytes 0 arguments of None \<Rightarrow> True | Some n \<Rightarrow> CLI_MAX_ARGUMENT_BYTES < n)
      then Inl ''ARGUMENT_LIMIT_EXCEEDED'' else Inr arguments)"

definition is_help_flag :: "bytes \<Rightarrow> bool" where
  "is_help_flag value = str_matches value [''--help'', ''-h'']"

definition is_version_flag :: "bytes \<Rightarrow> bool" where
  "is_version_flag value = str_matches value [''--version'', ''-V'']"

definition is_help_command :: "bytes \<Rightarrow> bool" where
  "is_help_command value = argument_is value ''help''"

definition is_version_command :: "bytes \<Rightarrow> bool" where
  "is_version_command value = argument_is value ''version''"

definition root_commands :: "RootCommand list" where
  "root_commands = [Inspect, Initialize, CheckExistingOwner, DiscardIncomplete, RetainFile, PrepareSource,
     PublishPrepared, Index, Search]"

definition command :: "bytes \<Rightarrow> RootCommand option" where
  "command value = find (\<lambda>c. to_str value = Some (as_bytes (command_name c))) root_commands"

definition is_daemon_root_flag :: "bytes \<Rightarrow> bool" where
  "is_daemon_root_flag value = str_matches value
     [''--inspect-data-root'', ''--initialize-data-root'', ''--check-existing-root-owner'',
      ''--discard-incomplete-data-root'', ''--retain-file'', ''--prepare-source'', ''--publish-prepared'',
      ''--index'', ''--search-stdio'', ''--session-stdio'']"

definition validate_path :: "bytes \<Rightarrow> string + unit" where
  "validate_path value =
     (if value = [] \<or> CLI_MAX_PATH_BYTES < length value \<or> 0 \<in> set value then Inl USAGE else Inr ())"

definition next_value :: "bytes list \<Rightarrow> bytes option" where
  "next_value rest = (case rest of [] \<Rightarrow> None | value # _ \<Rightarrow> Some value)"

definition path_option :: "bytes list \<Rightarrow> string + bytes" where
  "path_option rest =
     bindE (ok_or USAGE (next_value rest)) (\<lambda>value.
     bindE (validate_path value) (\<lambda>_.
     if is_help_flag value \<or> is_version_flag value \<or> is_daemon_root_flag value then Inl USAGE else Inr value))"

definition uuid_spelling :: "bytes \<Rightarrow> bool" where
  "uuid_spelling value \<longleftrightarrow> length value = 36 \<and> uuid_bytes_ok 0 value"

text \<open>\<open>str::parse\<close> of an unsigned integer: an optional plus sign and digits below the bound.\<close>

definition parse_unsigned :: "nat \<Rightarrow> bytes \<Rightarrow> nat option" where
  "parse_unsigned bound value =
     (let digits = (case value of b # bs \<Rightarrow> if b = 43 then bs else value | [] \<Rightarrow> []) in
      if digits = [] \<or> \<not> list_all is_ascii_digit digits then None
      else try_from bound (foldl (\<lambda>n b. n * 10 + (unat b - 48)) 0 digits))"

definition canonical_decimal :: "bytes \<Rightarrow> bool \<Rightarrow> nat option" where
  "canonical_decimal value allow_zero =
     Option.bind (parse_unsigned u64_bound value) (\<lambda>parsed.
     if \<not> allow_zero \<and> parsed = 0 \<or> as_bytes (decimal parsed) \<noteq> value then None else Some parsed)"

section \<open>Model: options of a request\<close>

record PreparationRequest =
  pq_source_id :: "bytes option"
  pq_unit :: "nat option"

record PublicationRequest =
  pb_endpoint :: "bytes option"
  pb_query :: "bytes option"
  pb_limit :: "nat option"

definition no_preparation :: PreparationRequest where
  "no_preparation = \<lparr>pq_source_id = None, pq_unit = None\<rparr>"

definition no_publication :: PublicationRequest where
  "no_publication = \<lparr>pb_endpoint = None, pb_query = None, pb_limit = None\<rparr>"

definition source_id_option :: "bytes list \<Rightarrow> RootCommand \<Rightarrow> string + bytes" where
  "source_id_option rest cmd =
     (if cmd \<noteq> PrepareSource then Inl USAGE
      else bindE (ok_or USAGE (next_value rest)) (\<lambda>value.
        bindE (ok_or USAGE (to_str value)) (\<lambda>source_id.
        if \<not> uuid_spelling source_id then Inl USAGE else Inr value)))"

definition unit_option :: "bytes list \<Rightarrow> RootCommand \<Rightarrow> string + bytes \<times> nat" where
  "unit_option rest cmd =
     (if cmd \<noteq> PrepareSource then Inl USAGE
      else bindE (ok_or USAGE (next_value rest)) (\<lambda>value.
        bindE (ok_or USAGE (Option.bind (to_str value) (\<lambda>s. canonical_decimal s True))) (\<lambda>u.
        Inr (value, u))))"

text \<open>
  An option of a preparation: whether it was taken, with the request and the settings afterwards.
\<close>

definition preparation_take_option ::
  "RootCommand \<Rightarrow> bytes \<Rightarrow> bytes list \<Rightarrow> PreparationRequest \<Rightarrow> bytes list \<Rightarrow>
   string + bool \<times> PreparationRequest \<times> bytes list" where
  "preparation_take_option cmd argument rest p settings =
     (if argument_is argument ''--source-id'' then
        if pq_source_id p \<noteq> None then Inl USAGE
        else bindE (source_id_option rest cmd) (\<lambda>value.
          Inr (True, p\<lparr>pq_source_id := Some value\<rparr>, settings @ [argument, value]))
      else if argument_is argument ''--unit'' then
        if pq_unit p \<noteq> None then Inl USAGE
        else bindE (unit_option rest cmd) (\<lambda>(value, u).
          Inr (True, p\<lparr>pq_unit := Some u\<rparr>, settings @ [argument, value]))
      else Inr (False, p, settings))"

definition publication_take_option ::
  "RootCommand \<Rightarrow> bytes \<Rightarrow> bytes list \<Rightarrow> PublicationRequest \<Rightarrow> bytes list \<Rightarrow>
   string + bool \<times> PublicationRequest \<times> bytes list" where
  "publication_take_option cmd argument rest p settings =
     (if \<not> argument_is argument ''--qdrant-url'' \<and> \<not> argument_is argument ''--query''
         \<and> \<not> argument_is argument ''--limit''
      then Inr (False, p, settings)
      else if cmd \<noteq> PublishPrepared \<and> cmd \<noteq> Index \<and> cmd \<noteq> Search then Inl USAGE
      else if cmd \<noteq> Search \<and> \<not> argument_is argument ''--qdrant-url'' then Inl USAGE
      else
        bindE (ok_or USAGE (Option.bind (next_value rest) to_str)) (\<lambda>value.
        bindE (if argument_is argument ''--limit'' then
            if pb_limit p \<noteq> None then Inl USAGE
            else bindE (ok_or USAGE (Option.bind (canonical_decimal value False) (\<lambda>n.
                if 0 < n \<and> n \<le> 64 then Some n else None))) (\<lambda>n.
              Inr (p\<lparr>pb_limit := Some n\<rparr>))
          else if value = [] \<or> 4096 < length value \<or> 0 \<in> set value then Inl USAGE
          else if argument_is argument ''--query'' then
            if pb_query p \<noteq> None then Inl USAGE else Inr (p\<lparr>pb_query := Some value\<rparr>)
          else if pb_endpoint p \<noteq> None then Inl USAGE else Inr (p\<lparr>pb_endpoint := Some value\<rparr>)) (\<lambda>p.
        Inr (True, p, if cmd \<noteq> Search \<or> argument_is argument ''--qdrant-url''
          then settings @ [argument, value] else settings))))"

definition validate_request_selection ::
  "RootCommand \<Rightarrow> bool \<Rightarrow> bool \<Rightarrow> PreparationRequest \<Rightarrow> PublicationRequest \<Rightarrow> string + unit" where
  "validate_request_selection cmd file index_path p q =
     (let i = pq_source_id p \<noteq> None;
          valid_source = (case cmd of RetainFile \<Rightarrow> file \<and> \<not> i | PrepareSource \<Rightarrow> i \<and> \<not> file | _ \<Rightarrow> \<not> file \<and> \<not> i) in
      if \<not> valid_source then Inl USAGE
      else if (cmd = PublishPrepared \<or> cmd = Index \<or> cmd = Search) \<noteq> (pb_endpoint q \<noteq> None)
        \<or> index_path \<and> cmd \<noteq> Index
        \<or> pb_limit q \<noteq> None \<and> pb_query q = None
        \<or> cmd = Search \<and> pb_query q = None
      then Inl USAGE else Inr ())"

section \<open>Model: commands on a root\<close>

record WatchRequest =
  wr_settings :: "bytes list"
  wr_daemon :: "bytes option"
  wr_interval :: nat

datatype Parsed =
  Help
| Version
| Watch WatchRequest
| SessionCommand "bytes list" "bytes option"
| RawExactCommand "bytes list" "bytes option" RawExactRequest
| DecodedUtf8Command "bytes list" "bytes option" DecodedUtf8Request
| RootRequest RootCommand "bytes list" "bytes option" PreparationRequest PublicationRequest

record ParseState =
  pa_settings :: "bytes list"
  pa_daemon :: "bytes option"
  pa_data_root_seen :: bool
  pa_positional_root_seen :: bool
  pa_config_seen :: bool
  pa_source_file_seen :: bool
  pa_index_path_seen :: bool
  pa_preparation :: PreparationRequest
  pa_publication :: PublicationRequest

definition parse_start :: ParseState where
  "parse_start = \<lparr>pa_settings = [], pa_daemon = None, pa_data_root_seen = False,
     pa_positional_root_seen = False, pa_config_seen = False, pa_source_file_seen = False,
     pa_index_path_seen = False, pa_preparation = no_preparation, pa_publication = no_publication\<rparr>"

text \<open>One argument: the state afterwards and how many arguments were consumed.\<close>

definition parse_positional :: "RootCommand \<Rightarrow> bytes \<Rightarrow> ParseState \<Rightarrow> string + ParseState \<times> nat" where
  "parse_positional cmd argument st =
     bindE (validate_path argument) (\<lambda>_.
     bindE (if cmd = Index then
         if pa_index_path_seen st then Inl USAGE
         else Inr (st\<lparr>pa_index_path_seen := True, pa_settings := pa_settings st @ [as_bytes ''--index-path'']\<rparr>)
       else if pa_positional_root_seen st \<or> pa_data_root_seen st then Inl USAGE
       else Inr (st\<lparr>pa_positional_root_seen := True\<rparr>)) (\<lambda>st.
     Inr (st\<lparr>pa_settings := pa_settings st @ [argument]\<rparr>, 1)))"

definition parse_argument ::
  "RootCommand \<Rightarrow> bytes \<Rightarrow> bytes list \<Rightarrow> ParseState \<Rightarrow> string + ParseState \<times> nat" where
  "parse_argument cmd argument rest st =
     (if is_help_flag argument \<or> is_version_flag argument \<or> is_daemon_root_flag argument then Inl USAGE
      else if argument_is argument ''--daemon'' then
        if pa_daemon st \<noteq> None then Inl USAGE
        else bindE (path_option rest) (\<lambda>value. Inr (st\<lparr>pa_daemon := Some value\<rparr>, 2))
      else if argument_is argument ''--data-root'' then
        if pa_data_root_seen st \<or> pa_positional_root_seen st then Inl USAGE
        else bindE (path_option rest) (\<lambda>value.
          Inr (st\<lparr>pa_data_root_seen := True, pa_settings := pa_settings st @ [argument, value]\<rparr>, 2))
      else if argument_is argument ''--config-file'' then
        if pa_config_seen st then Inl USAGE
        else bindE (path_option rest) (\<lambda>value.
          Inr (st\<lparr>pa_config_seen := True, pa_settings := pa_settings st @ [argument, value]\<rparr>, 2))
      else if argument_is argument ''--file'' then
        if pa_source_file_seen st \<or> cmd \<noteq> RetainFile then Inl USAGE
        else bindE (ok_or USAGE (next_value rest)) (\<lambda>value.
          bindE (validate_path value) (\<lambda>_.
          Inr (st\<lparr>pa_settings := pa_settings st @ [as_bytes ''--source-file'', value], pa_source_file_seen := True\<rparr>, 2)))
      else
        bindE (preparation_take_option cmd argument rest (pa_preparation st) (pa_settings st)) (\<lambda>(taken, p, settings).
        let st = st\<lparr>pa_preparation := p, pa_settings := settings\<rparr> in
        if taken then Inr (st, 2)
        else
          bindE (publication_take_option cmd argument rest (pa_publication st) (pa_settings st)) (\<lambda>(taken, q, settings).
          let st = st\<lparr>pa_publication := q, pa_settings := settings\<rparr> in
          if taken then Inr (st, 2)
          else if (pa_index_path_seen st \<or> cmd \<noteq> Index) \<and>
              (case to_str argument of None \<Rightarrow> False | Some value \<Rightarrow> take 2 value = as_bytes ''--'')
            then Inl ''UNKNOWN_ARGUMENT''
          else parse_positional cmd argument st)))"

fun parse_loop :: "RootCommand \<Rightarrow> ParseState \<Rightarrow> nat \<Rightarrow> bytes list \<Rightarrow> string + ParseState" where
  "parse_loop cmd st n [] = Inr st"
| "parse_loop cmd st (Suc n) (argument # rest) = parse_loop cmd st n rest"
| "parse_loop cmd st 0 (argument # rest) =
     bindE (parse_argument cmd argument rest st) (\<lambda>(st, n). parse_loop cmd st (n - 1) rest)"

section \<open>Model: sessions, exact searches and watching\<close>

text \<open>The path options that every command shares: root, configuration and daemon.\<close>

record PathState =
  ph_settings :: "bytes list"
  ph_daemon :: "bytes option"
  ph_root_seen :: bool
  ph_config_seen :: bool

definition path_start :: PathState where
  "path_start = \<lparr>ph_settings = [], ph_daemon = None, ph_root_seen = False, ph_config_seen = False\<rparr>"

definition take_root_option :: "bytes \<Rightarrow> bytes list \<Rightarrow> 'a PathState_scheme \<Rightarrow> string + 'a PathState_scheme" where
  "take_root_option argument rest st =
     (if (if argument_is argument ''--data-root'' then ph_root_seen st else ph_config_seen st) then Inl USAGE
      else bindE (path_option rest) (\<lambda>value.
        let st = (if argument_is argument ''--data-root'' then st\<lparr>ph_root_seen := True\<rparr> else st\<lparr>ph_config_seen := True\<rparr>) in
        Inr (st\<lparr>ph_settings := ph_settings st @ [argument, value]\<rparr>)))"

definition take_daemon_option :: "bytes list \<Rightarrow> 'a PathState_scheme \<Rightarrow> string + 'a PathState_scheme" where
  "take_daemon_option rest st =
     (if ph_daemon st \<noteq> None then Inl USAGE
      else bindE (path_option rest) (\<lambda>value. Inr (st\<lparr>ph_daemon := Some value\<rparr>)))"

record ExactState = PathState +
  xs_decoded :: "bool option"
  xs_literal :: "bytes option"
  xs_source_id :: "bytes option"
  xs_limit :: "nat option"

definition exact_argument :: "bytes \<Rightarrow> bytes list \<Rightarrow> ExactState \<Rightarrow> string + ExactState \<times> nat" where
  "exact_argument argument rest st =
     (if str_matches argument [''--raw'', ''--decoded-utf8''] then
        if xs_decoded st \<noteq> None then Inl USAGE
        else Inr (st\<lparr>xs_decoded := Some (argument_is argument ''--decoded-utf8'')\<rparr>, 1)
      else if str_matches argument [''--literal'', ''--source-id''] then
        bindE (ok_or USAGE (Option.bind (next_value rest) to_str)) (\<lambda>value.
        if argument_is argument ''--literal'' then
          if xs_literal st \<noteq> None then Inl USAGE else Inr (st\<lparr>xs_literal := Some value\<rparr>, 2)
        else if xs_source_id st \<noteq> None then Inl USAGE else Inr (st\<lparr>xs_source_id := Some value\<rparr>, 2))
      else if str_matches argument [''--limit''] then
        if xs_limit st \<noteq> None then Inl USAGE
        else bindE (ok_or USAGE (Option.bind (Option.bind (Option.bind (next_value rest) to_str)
            (\<lambda>v. canonical_decimal v False)) (\<lambda>n. Option.bind (try_from u8_bound n)
            (\<lambda>n. if n \<le> MAX_ITEMS then Some n else None)))) (\<lambda>n.
          Inr (st\<lparr>xs_limit := Some n\<rparr>, 2))
      else if str_matches argument [''--data-root'', ''--config-file''] then
        bindE (take_root_option argument rest st) (\<lambda>st. Inr (st, 2))
      else if str_matches argument [''--daemon''] then bindE (take_daemon_option rest st) (\<lambda>st. Inr (st, 2))
      else Inl ''UNKNOWN_ARGUMENT'')"

fun exact_loop :: "ExactState \<Rightarrow> nat \<Rightarrow> bytes list \<Rightarrow> string + ExactState" where
  "exact_loop st n [] = Inr st"
| "exact_loop st (Suc n) (argument # rest) = exact_loop st n rest"
| "exact_loop st 0 (argument # rest) =
     bindE (exact_argument argument rest st) (\<lambda>(st, n). exact_loop st (n - 1) rest)"

definition build_exact_request ::
  "bool \<Rightarrow> bytes \<Rightarrow> string list option \<Rightarrow> nat \<Rightarrow> bytes list \<Rightarrow> bytes option \<Rightarrow> string + Parsed" where
  "build_exact_request decoded_utf8 literal source_ids limit settings daemon =
     (if decoded_utf8 then
        let request = \<lparr>dr_literal = literal, dr_source_ids = source_ids, dr_limit = limit\<rparr> in
        bindE (mapErr (\<lambda>_. USAGE) (decoded_request_validate request)) (\<lambda>_.
        Inr (DecodedUtf8Command settings daemon request))
      else
        let request = \<lparr>rr_literal = literal, rr_source_ids = source_ids, rr_limit = limit\<rparr> in
        bindE (mapErr (\<lambda>_. USAGE) (raw_request_validate request)) (\<lambda>_.
        Inr (RawExactCommand settings daemon request)))"

definition parse_exact :: "bytes list \<Rightarrow> string + Parsed" where
  "parse_exact arguments =
     bindE (exact_loop (PathState.extend path_start
         \<lparr>xs_decoded = None, xs_literal = None, xs_source_id = None, xs_limit = None\<rparr>) 0 (tl arguments)) (\<lambda>st.
     if \<not> ph_root_seen st then Inl USAGE
     else
       bindE (ok_or USAGE (xs_decoded st)) (\<lambda>decoded.
       bindE (ok_or USAGE (xs_literal st)) (\<lambda>literal.
       build_exact_request decoded literal (map_option (\<lambda>i. [of_bytes i]) (xs_source_id st))
         (case xs_limit st of Some n \<Rightarrow> n | None \<Rightarrow> 10) (ph_settings st) (ph_daemon st))))"

record QdrantState = PathState +
  qs_qdrant_seen :: bool

definition session_argument :: "bytes \<Rightarrow> bytes list \<Rightarrow> QdrantState \<Rightarrow> string + QdrantState" where
  "session_argument argument rest st =
     (if str_matches argument [''--data-root'', ''--config-file''] then take_root_option argument rest st
      else if str_matches argument [''--daemon''] then take_daemon_option rest st
      else if str_matches argument [''--qdrant-url''] then
        if qs_qdrant_seen st then Inl USAGE
        else bindE (ok_or USAGE (Option.bind (next_value rest) to_str)) (\<lambda>value.
          if value = [] \<or> 4096 < length value \<or> 0 \<in> set value then Inl USAGE
          else Inr (st\<lparr>qs_qdrant_seen := True, ph_settings := ph_settings st @ [argument, value]\<rparr>))
      else Inl ''UNKNOWN_ARGUMENT'')"

fun session_loop :: "QdrantState \<Rightarrow> bytes list \<Rightarrow> string + QdrantState" where
  "session_loop st [] = Inr st"
| "session_loop st (argument # rest) =
     bindE (session_argument argument rest st) (\<lambda>st.
     case rest of [] \<Rightarrow> Inr st | _ # rest \<Rightarrow> session_loop st rest)"

definition parse_session :: "bytes list \<Rightarrow> string + Parsed" where
  "parse_session arguments =
     bindE (session_loop (PathState.extend path_start \<lparr>qs_qdrant_seen = False\<rparr>) (tl arguments)) (\<lambda>st.
     if \<not> ph_root_seen st then Inl USAGE
     else Inr (SessionCommand (ph_settings st) (ph_daemon st)))"

definition DEFAULT_INTERVAL_MS :: nat where "DEFAULT_INTERVAL_MS = 30000"

record WatchState = PathState +
  ws_interval_ms :: "nat option"
  ws_publication :: PublicationRequest

definition watch_argument :: "bytes \<Rightarrow> bytes list \<Rightarrow> WatchState \<Rightarrow> string + WatchState" where
  "watch_argument argument rest st =
     (if str_matches argument [''--daemon''] then take_daemon_option rest st
      else if str_matches argument [''--data-root'', ''--config-file''] then take_root_option argument rest st
      else if str_matches argument [''--interval-ms''] then
        if ws_interval_ms st \<noteq> None then Inl USAGE
        else bindE (ok_or USAGE (Option.bind (Option.bind (next_value rest) to_str) (\<lambda>v. canonical_decimal v False))) (\<lambda>n.
          Inr (st\<lparr>ws_interval_ms := Some n\<rparr>))
      else
        bindE (publication_take_option Index argument rest (ws_publication st) (ph_settings st)) (\<lambda>(taken, q, settings).
        if taken then Inr (st\<lparr>ws_publication := q, ph_settings := settings\<rparr>) else Inl USAGE))"

fun watch_loop :: "WatchState \<Rightarrow> bytes list \<Rightarrow> string + WatchState" where
  "watch_loop st [] = Inr st"
| "watch_loop st (argument # rest) =
     bindE (watch_argument argument rest st) (\<lambda>st.
     case rest of [] \<Rightarrow> Inr st | _ # rest \<Rightarrow> watch_loop st rest)"

text \<open>\<open>in_range\<close> tells whether the interval can be added to the current instant.\<close>

definition parse_watch :: "(nat \<Rightarrow> bool) \<Rightarrow> bytes list \<Rightarrow> string + Parsed" where
  "parse_watch in_range arguments =
     bindE (watch_loop (PathState.extend path_start
         \<lparr>ws_interval_ms = None, ws_publication = no_publication\<rparr>) (tl arguments)) (\<lambda>st.
     bindE (validate_request_selection Index False False no_preparation (ws_publication st)) (\<lambda>_.
     let interval = (case ws_interval_ms st of Some n \<Rightarrow> n | None \<Rightarrow> DEFAULT_INTERVAL_MS) in
     if \<not> in_range interval then Inl USAGE
     else Inr (Watch \<lparr>wr_settings = ph_settings st, wr_daemon = ph_daemon st, wr_interval = interval\<rparr>)))"

section \<open>Model: the whole command line\<close>

definition standalone_invocation :: "(nat \<Rightarrow> bool) \<Rightarrow> bytes list \<Rightarrow> (string + Parsed) option" where
  "standalone_invocation in_range arguments =
     (case arguments of
        [] \<Rightarrow> Some (Inr Help)
      | first # others \<Rightarrow>
          if argument_is first ''watch'' then Some (parse_watch in_range arguments)
          else if argument_is first ''exact'' then Some (parse_exact arguments)
          else if argument_is first ''session'' then Some (parse_session arguments)
          else if others = [] \<and> (is_help_flag first \<or> is_help_command first) then Some (Inr Help)
          else if others = [] \<and> (is_version_flag first \<or> is_version_command first) then Some (Inr Version)
          else None)"

definition parse_root :: "bytes list \<Rightarrow> string + Parsed" where
  "parse_root arguments =
     bindE (ok_or ''UNKNOWN_COMMAND'' (command (hd arguments))) (\<lambda>cmd.
     bindE (parse_loop cmd parse_start 0 (tl arguments)) (\<lambda>st.
     bindE (validate_request_selection cmd (pa_source_file_seen st) (pa_index_path_seen st)
       (pa_preparation st) (pa_publication st)) (\<lambda>_.
     Inr (RootRequest cmd (pa_settings st) (pa_daemon st) (pa_preparation st) (pa_publication st)))))"

definition parse :: "(nat \<Rightarrow> bool) \<Rightarrow> bytes list \<Rightarrow> string + Parsed" where
  "parse in_range arguments =
     (case standalone_invocation in_range arguments of
        Some local \<Rightarrow> local
      | None \<Rightarrow> parse_root arguments)"

text \<open>The arguments of the daemon that a parsed command starts (\<open>capture_child\<close>, \<open>run_main\<close>).\<close>

fun daemon_arguments :: "Parsed \<Rightarrow> bytes list option" where
  "daemon_arguments (RootRequest cmd settings _ _ _) = Some (as_bytes (daemon_flag cmd) # settings)"
| "daemon_arguments (RawExactCommand settings _ _) = Some (as_bytes ''--search-stdio'' # settings)"
| "daemon_arguments (DecodedUtf8Command settings _ _) = Some (as_bytes ''--search-stdio'' # settings)"
| "daemon_arguments (SessionCommand settings _) = Some (as_bytes ''--session-stdio'' # settings)"
| "daemon_arguments (Watch request) =
     Some (as_bytes ''--index'' # as_bytes ''--index-owner-stdio'' # wr_settings request)"
| "daemon_arguments Help = None"
| "daemon_arguments Version = None"

end
