(* ===== verification/Bootstrap.thy ===== *)
theory Bootstrap
  imports CommandLine
begin

text \<open>
  The daemon's command line (\<open>bins/eliot-searchd/src/app/bootstrap.rs\<close>, \<open>app.rs\<close>): commands, options
  and the layers (command line, environment, configuration file) that give the data root. The
  configuration file and its TOML parser, the environment variables and the working directory are
  parameters; paths are those of a Unix system.
\<close>

section \<open>Model: commands\<close>

definition MAX_CONFIG_BYTES :: nat where "MAX_CONFIG_BYTES = 64 * 1024"
definition MAX_ENV_BYTES :: nat where "MAX_ENV_BYTES = 4 * 1024"
definition BOOT_MAX_PATH_BYTES :: nat where "BOOT_MAX_PATH_BYTES = 32 * 1024"
definition ENV_PREFIX :: bytes where "ENV_PREFIX = as_bytes ''ELIOT_SEARCH__''"
definition DATA_ROOT_ENV :: bytes where "DATA_ROOT_ENV = as_bytes ''ELIOT_SEARCH__BOOTSTRAP__DATA_ROOT''"

datatype DaemonCommand =
  DInspect | DInitialize | DCheckExistingOwner | DDiscardIncomplete | DRetainFile | DPrepareSource
| DPublishPrepared | DIndex | DSearch | DSession

fun daemon_operation :: "DaemonCommand \<Rightarrow> string" where
  "daemon_operation DInspect = ''inspect-data-root''"
| "daemon_operation DInitialize = ''initialize-data-root''"
| "daemon_operation DCheckExistingOwner = ''check-existing-root-owner''"
| "daemon_operation DDiscardIncomplete = ''discard-incomplete-data-root''"
| "daemon_operation DRetainFile = ''retain-file''"
| "daemon_operation DPrepareSource = ''prepare-source''"
| "daemon_operation DPublishPrepared = ''publish-prepared''"
| "daemon_operation DIndex = ''index''"
| "daemon_operation DSearch = ''search''"
| "daemon_operation DSession = ''session''"

definition invalid :: "string \<Rightarrow> string" where
  "invalid kind = ''BOOTSTRAP_SETTINGS_INVALID:'' @ kind"

definition BOUNDS :: string where "BOUNDS = ''BOOTSTRAP_SETTINGS_BOUNDS_EXCEEDED''"

definition command_flags :: "(string \<times> DaemonCommand) list" where
  "command_flags =
     [(''--inspect-data-root'', DInspect), (''--initialize-data-root'', DInitialize),
      (''--check-existing-root-owner'', DCheckExistingOwner), (''--discard-incomplete-data-root'', DDiscardIncomplete),
      (''--retain-file'', DRetainFile), (''--prepare-source'', DPrepareSource),
      (''--publish-prepared'', DPublishPrepared), (''--index'', DIndex), (''--search-stdio'', DSearch),
      (''--session-stdio'', DSession)]"

definition is_command :: "bytes \<Rightarrow> DaemonCommand option" where
  "is_command value = map_option snd (find (\<lambda>(name, _). to_str value = Some (as_bytes name)) command_flags)"

definition bounded_path :: "bytes \<Rightarrow> string \<Rightarrow> string + bytes" where
  "bounded_path value kind =
     (if value = [] then Inl (invalid kind)
      else if BOOT_MAX_PATH_BYTES < length value then Inl BOUNDS
      else if 0 \<in> set value then Inl (invalid kind)
      else Inr value)"

definition option_value :: "bytes list \<Rightarrow> string \<Rightarrow> string + bytes" where
  "option_value rest kind =
     bindE (ok_or (invalid kind) (next_value rest)) (\<lambda>value.
     if is_help_flag value \<or> is_version_flag value \<or> is_command value \<noteq> None
     then Inl (invalid ''conflicting_command'') else Inr value)"

definition select_path_option :: "bytes option \<Rightarrow> bytes list \<Rightarrow> string \<Rightarrow> string + bytes option" where
  "select_path_option chosen rest kind =
     (if chosen \<noteq> None then Inl (invalid (kind @ ''_duplicate''))
      else bindE (option_value rest (kind @ ''_value'')) (\<lambda>value.
        bindE (bounded_path value kind) (\<lambda>path. Inr (Some path))))"

definition unit_index :: "bytes \<Rightarrow> string + nat" where
  "unit_index value =
     bindE (ok_or (invalid ''unit'') (to_str value)) (\<lambda>txt.
     bindE (ok_or (invalid ''unit'') (parse_unsigned u64_bound txt)) (\<lambda>parsed.
     if as_bytes (decimal parsed) \<noteq> txt then Inl (invalid ''unit'') else Inr parsed))"

section \<open>Model: options\<close>

record BootState =
  bs_command :: "DaemonCommand option"
  bs_data_root :: "bytes option"
  bs_config_file :: "bytes option"
  bs_source_file :: "bytes option"
  bs_index_path :: "bytes option"
  bs_owner_stdio :: bool
  bs_source_id :: "bytes option"
  bs_unit :: "nat option"
  bs_endpoint :: "bytes option"
  bs_positional_root :: "bytes option"

definition boot_start :: BootState where
  "boot_start = \<lparr>bs_command = None, bs_data_root = None, bs_config_file = None, bs_source_file = None,
     bs_index_path = None, bs_owner_stdio = False, bs_source_id = None, bs_unit = None, bs_endpoint = None,
     bs_positional_root = None\<rparr>"

text \<open>The number of consumed arguments, or \<open>None\<close> when the argument is no such option.\<close>

definition index_take_option :: "bytes \<Rightarrow> bytes list \<Rightarrow> BootState \<Rightarrow> string + (nat \<times> BootState) option" where
  "index_take_option argument rest st =
     (if str_matches argument [''--index-path''] then
        if bs_index_path st \<noteq> None \<or> bs_command st \<noteq> Some DIndex then Inl (invalid ''index_path'')
        else bindE (ok_or (invalid ''index_path_value'') (next_value rest)) (\<lambda>value.
          bindE (bounded_path value ''index_path'') (\<lambda>path. Inr (Some (2, st\<lparr>bs_index_path := Some path\<rparr>))))
      else if str_matches argument [''--index-owner-stdio''] then
        if bs_owner_stdio st \<or> bs_command st \<noteq> Some DIndex then Inl (invalid ''index_owner_stdio'')
        else Inr (Some (1, st\<lparr>bs_owner_stdio := True\<rparr>))
      else Inr None)"

definition endpoint_take_option :: "bytes \<Rightarrow> bytes list \<Rightarrow> BootState \<Rightarrow> string + BootState option" where
  "endpoint_take_option argument rest st =
     (if argument_is argument ''--qdrant-url'' then
        bindE (ok_or (invalid ''publication_argument'') (Option.bind (Option.bind (next_value rest) to_str)
            (\<lambda>v. if v \<noteq> [] \<and> length v \<le> 4096 \<and> 0 \<notin> set v then Some v else None))) (\<lambda>value.
        if bs_endpoint st \<noteq> None then Inl (invalid ''publication_duplicate'')
        else Inr (Some (st\<lparr>bs_endpoint := Some value\<rparr>)))
      else Inr None)"

definition boot_positional :: "bytes \<Rightarrow> BootState \<Rightarrow> string + BootState \<times> nat" where
  "boot_positional argument st =
     (if (case to_str argument of None \<Rightarrow> False | Some value \<Rightarrow> take 2 value = as_bytes ''--'') then Inl ''UNKNOWN_ARGUMENT''
     else if bs_positional_root st \<noteq> None then Inl USAGE
     else bindE (bounded_path argument ''data_root'') (\<lambda>path. Inr (st\<lparr>bs_positional_root := Some path\<rparr>, 1)))"

definition boot_argument :: "bytes \<Rightarrow> bytes list \<Rightarrow> BootState \<Rightarrow> string + BootState \<times> nat" where
  "boot_argument argument rest st =
     (if is_help_flag argument \<or> is_version_flag argument then Inl (invalid ''conflicting_command'')
      else
        case is_command argument of
          Some parsed \<Rightarrow> if bs_command st \<noteq> None then Inl USAGE else Inr (st\<lparr>bs_command := Some parsed\<rparr>, 1)
        | None \<Rightarrow>
            if argument_is argument ''--data-root'' then
              bindE (select_path_option (bs_data_root st) rest ''data_root'') (\<lambda>p. Inr (st\<lparr>bs_data_root := p\<rparr>, 2))
            else if argument_is argument ''--config-file'' then
              bindE (select_path_option (bs_config_file st) rest ''config_file'') (\<lambda>p. Inr (st\<lparr>bs_config_file := p\<rparr>, 2))
            else if argument_is argument ''--source-file'' then
              bindE (select_path_option (bs_source_file st) rest ''source_file'') (\<lambda>p. Inr (st\<lparr>bs_source_file := p\<rparr>, 2))
            else
              bindE (index_take_option argument rest st) (\<lambda>consumed.
              case consumed of
                Some (n, st) \<Rightarrow> Inr (st, n)
              | None \<Rightarrow>
                  if argument_is argument ''--source-id'' then
                    if bs_source_id st \<noteq> None then Inl (invalid ''source_id_duplicate'')
                    else bindE (option_value rest ''source_id'') (\<lambda>value.
                      bindE (ok_or (invalid ''source_id'') (to_str value)) (\<lambda>value.
                      bindE (mapErr (\<lambda>_. invalid ''source_id'') (uuid_parse (of_bytes value))) (\<lambda>i.
                      Inr (st\<lparr>bs_source_id := Some i\<rparr>, 2))))
                  else if argument_is argument ''--unit'' then
                    if bs_unit st \<noteq> None then Inl (invalid ''unit_duplicate'')
                    else bindE (option_value rest ''unit'') (\<lambda>value.
                      bindE (unit_index value) (\<lambda>u. Inr (st\<lparr>bs_unit := Some u\<rparr>, 2)))
                  else
                    bindE (endpoint_take_option argument rest st) (\<lambda>taken.
                    case taken of
                      Some st \<Rightarrow> Inr (st, 2)
                    | None \<Rightarrow> boot_positional argument st)))"

fun boot_loop :: "BootState \<Rightarrow> nat \<Rightarrow> bytes list \<Rightarrow> string + BootState" where
  "boot_loop st n [] = Inr st"
| "boot_loop st (Suc n) (argument # rest) = boot_loop st n rest"
| "boot_loop st 0 (argument # rest) =
     bindE (boot_argument argument rest st) (\<lambda>(st, n). boot_loop st (n - 1) rest)"

section \<open>Model: the parsed invocation\<close>

record RootCli =
  rc_command :: DaemonCommand
  rc_data_root :: "bytes option"
  rc_config_file :: "bytes option"
  rc_source_file :: "bytes option"
  rc_index_path :: "bytes option"
  rc_index_owner_stdio :: bool
  rc_source_id :: "bytes option"
  rc_unit :: "nat option"
  rc_publication :: "bytes option"
  rc_search_endpoint :: "bytes option"

datatype BootParsed = BHelp | BVersion | BRoot RootCli

definition publication_finish :: "bytes option \<Rightarrow> DaemonCommand \<Rightarrow> string + bytes option \<times> bytes option" where
  "publication_finish endpoint cmd =
     (if cmd = DSearch \<or> cmd = DSession then Inr (None, endpoint)
      else if (cmd = DPublishPrepared \<or> cmd = DIndex) \<noteq> (endpoint \<noteq> None) then Inl (invalid ''publication_selection'')
      else Inr (endpoint, None))"

definition validate_source_selection :: "DaemonCommand \<Rightarrow> bool \<Rightarrow> bool \<Rightarrow> bool \<Rightarrow> string + unit" where
  "validate_source_selection cmd file i u =
     (if (cmd = DRetainFile) \<noteq> file then Inl (invalid ''source_file_required'')
      else if (cmd = DPrepareSource) \<noteq> i \<or> u \<and> cmd \<noteq> DPrepareSource then Inl (invalid ''source_id_or_unit'')
      else Inr ())"

definition local_invocation :: "bytes list \<Rightarrow> BootParsed option" where
  "local_invocation arguments =
     (case arguments of
        [] \<Rightarrow> Some BHelp
      | [a] \<Rightarrow>
          if is_help_flag a \<or> is_help_command a then Some BHelp
          else if is_version_flag a \<or> is_version_command a then Some BVersion else None
      | _ \<Rightarrow> None)"

definition boot_finish :: "BootState \<Rightarrow> string + BootParsed" where
  "boot_finish st =
     bindE (ok_or ''UNKNOWN_ARGUMENT'' (bs_command st)) (\<lambda>cmd.
     bindE (publication_finish (bs_endpoint st) cmd) (\<lambda>(publication, search_endpoint).
     bindE (validate_source_selection cmd (bs_source_file st \<noteq> None) (bs_source_id st \<noteq> None) (bs_unit st \<noteq> None)) (\<lambda>_.
     if (bs_index_path st \<noteq> None \<or> bs_owner_stdio st) \<and> cmd \<noteq> DIndex then Inl (invalid ''index_path'')
     else if bs_data_root st \<noteq> None \<and> bs_positional_root st \<noteq> None then Inl (invalid ''data_root_duplicate'')
     else Inr (BRoot \<lparr>rc_command = cmd,
       rc_data_root = (case bs_data_root st of Some p \<Rightarrow> Some p | None \<Rightarrow> bs_positional_root st),
       rc_config_file = bs_config_file st, rc_source_file = bs_source_file st, rc_index_path = bs_index_path st,
       rc_index_owner_stdio = bs_owner_stdio st, rc_source_id = bs_source_id st, rc_unit = bs_unit st,
       rc_publication = publication, rc_search_endpoint = search_endpoint\<rparr>))))"

definition boot_parse :: "bytes list \<Rightarrow> string + BootParsed" where
  "boot_parse arguments =
     (case local_invocation arguments of
        Some local \<Rightarrow> Inr local
      | None \<Rightarrow> bindE (boot_loop boot_start 0 arguments) boot_finish)"

section \<open>Model: the layers of settings\<close>

text \<open>\<open>Path::path_absolute\<close>, \<open>Path::join\<close> and \<open>Path::parent\<close> on Unix.\<close>

definition path_absolute :: "bytes \<Rightarrow> bool" where
  "path_absolute path \<longleftrightarrow> take 1 path = [47]"

definition resolve_layer_path :: "bytes \<Rightarrow> bytes \<Rightarrow> bytes" where
  "resolve_layer_path path base =
     (if path_absolute path then path
      else if base = [] \<or> List.last base = 47 then base @ path else base @ 47 # path)"

text \<open>
  What the configuration file looks like: no metadata, something that is not a regular file, or a
  file of a length whose reading gives bytes or an error. \<open>toml\<close> gives the \<open>data_root\<close> member.
\<close>

datatype ConfigEntry = NoEntry | NotAFile | AFile nat "bytes option"

definition read_config ::
  "(bytes \<Rightarrow> bytes option option) \<Rightarrow> (bytes \<Rightarrow> bytes option) \<Rightarrow> (bytes \<Rightarrow> ConfigEntry) \<Rightarrow> bytes \<Rightarrow> bytes \<Rightarrow>
   string + bytes option" where
  "read_config toml parent fs path startup_cwd =
     (case fs path of
        AFile len contents \<Rightarrow>
          if MAX_CONFIG_BYTES < len then Inl BOUNDS
          else bindE (ok_or (invalid ''config_file'') contents) (\<lambda>bs.
            let bs = take (MAX_CONFIG_BYTES + 1) bs in
            if MAX_CONFIG_BYTES < length bs then Inl BOUNDS
            else bindE (ok_or (invalid ''config_utf8'') (to_str bs)) (\<lambda>txt.
              bindE (ok_or (invalid ''config_toml'') (toml txt)) (\<lambda>parsed.
              case parsed of
                None \<Rightarrow> Inr None
              | Some root \<Rightarrow>
                  bindE (bounded_path root ''data_root'') (\<lambda>root.
                  Inr (Some (resolve_layer_path root (case parent path of Some base \<Rightarrow> base | None \<Rightarrow> startup_cwd)))))))
      | _ \<Rightarrow> Inl (invalid ''config_file''))"

fun environment_loop :: "bytes \<Rightarrow> bytes option \<Rightarrow> (bytes \<times> bytes) list \<Rightarrow> string + bytes option" where
  "environment_loop cwd root [] = Inr root"
| "environment_loop cwd root ((name, value) # vars) =
     (if take (length ENV_PREFIX) name \<noteq> ENV_PREFIX then environment_loop cwd root vars
      else if name \<noteq> DATA_ROOT_ENV then Inl (invalid ''environment_name'')
      else if MAX_ENV_BYTES < length value then Inl BOUNDS
      else if root \<noteq> None then Inl (invalid ''environment_duplicate'')
      else bindE (bounded_path value ''data_root'') (\<lambda>value.
        environment_loop cwd (Some (resolve_layer_path value cwd)) vars))"

definition read_environment :: "(bytes \<times> bytes) list \<Rightarrow> bytes \<Rightarrow> string + bytes option" where
  "read_environment vars cwd = environment_loop cwd None vars"

record RootInvocation =
  ri_command :: DaemonCommand
  ri_data_root :: bytes
  ri_source_file :: "bytes option"
  ri_index_path :: "bytes option"
  ri_index_owner_stdio :: bool
  ri_source_id :: "bytes option"
  ri_unit :: "nat option"
  ri_publication :: "bytes option"
  ri_search_endpoint :: "bytes option"

definition or_layer :: "'a option \<Rightarrow> 'a option \<Rightarrow> 'a option" where
  "or_layer a b = (case a of Some x \<Rightarrow> Some x | None \<Rightarrow> b)"

definition boot_resolve ::
  "(bytes \<Rightarrow> bytes option option) \<Rightarrow> (bytes \<Rightarrow> bytes option) \<Rightarrow> (bytes \<Rightarrow> ConfigEntry) \<Rightarrow> (bytes \<times> bytes) list \<Rightarrow>
   RootCli \<Rightarrow> bytes \<Rightarrow> string + RootInvocation" where
  "boot_resolve toml parent fs vars cli startup_cwd =
     bindE (case rc_config_file cli of
         Some config_file \<Rightarrow> read_config toml parent fs (resolve_layer_path config_file startup_cwd) startup_cwd
       | None \<Rightarrow> Inr None) (\<lambda>file_layer.
     bindE (read_environment vars startup_cwd) (\<lambda>environment_layer.
     bindE (ok_or (invalid ''missing_data_root'')
         (or_layer (or_layer (map_option (\<lambda>p. resolve_layer_path p startup_cwd) (rc_data_root cli)) environment_layer)
           file_layer)) (\<lambda>root.
     Inr \<lparr>ri_command = rc_command cli, ri_data_root = root,
       ri_source_file = map_option (\<lambda>p. resolve_layer_path p startup_cwd) (rc_source_file cli),
       ri_index_path = map_option (\<lambda>p. resolve_layer_path p startup_cwd) (rc_index_path cli),
       ri_index_owner_stdio = rc_index_owner_stdio cli, ri_source_id = rc_source_id cli, ri_unit = rc_unit cli,
       ri_publication = rc_publication cli, ri_search_endpoint = rc_search_endpoint cli\<rparr>)))"

end
