(* ===== verification/CommandLaws.thy ===== *)
theory CommandLaws
  imports Bootstrap ProtocolLaws
begin

text \<open>
  The two command lines fit together: whatever the client accepts and turns into settings, the
  daemon parses to the invocation that the user's arguments mean. The meaning is read off the
  arguments alone: the value of every option and the operands. The daemon consumes the settings
  chunk by chunk, each chunk being what one argument of the client produced, and its state is at
  every point what was read so far.
\<close>

section \<open>Spellings\<close>

lemma utf8_valid_ascii: "list_all (\<lambda>b. b < 128) bs \<Longrightarrow> utf8_valid bs"
proof (induction bs)
  case (Cons b bs)
  have b: "utf8_valid [b]" using Cons.prems by (simp add: utf8_valid.simps)
  show ?case using utf8_valid_append [OF b] Cons by simp
qed simp

lemma to_str_Some [simp]: "to_str v = Some s \<longleftrightarrow> s = v \<and> utf8_valid v"
  by (auto simp: to_str_def)

lemma str_matches_iff: "str_matches v names \<longleftrightarrow> utf8_valid v \<and> (\<exists>n \<in> set names. v = as_bytes n)"
  by (auto simp: str_matches_def list_ex_iff)

lemma ascii_literal: "list_all (\<lambda>c. (of_char c :: nat) < 128) s \<Longrightarrow> utf8_valid (as_bytes s)"
proof (rule utf8_valid_ascii)
  assume "list_all (\<lambda>c. (of_char c :: nat) < 128) s"
  then show "list_all (\<lambda>b. b < 128) (as_bytes s)"
    by (auto simp: as_bytes_def list_all_iff word_less_nat_alt unat_of_nat)
qed



text \<open>The names of the options are neither commands nor requests for help.\<close>

definition plain_option :: "bytes \<Rightarrow> bool" where
  "plain_option argument \<longleftrightarrow> \<not> is_help_flag argument \<and> \<not> is_version_flag argument \<and> \<not> is_daemon_root_flag argument"

lemma plain_options [simp]:
  "plain_option (as_bytes ''--data-root'')" "plain_option (as_bytes ''--config-file'')"
  "plain_option (as_bytes ''--source-file'')" "plain_option (as_bytes ''--index-path'')"
  "plain_option (as_bytes ''--index-owner-stdio'')" "plain_option (as_bytes ''--source-id'')"
  "plain_option (as_bytes ''--unit'')" "plain_option (as_bytes ''--qdrant-url'')"
  by (simp_all add: plain_option_def is_daemon_root_flag_def is_help_flag_def is_version_flag_def str_matches_iff)

lemma valid_options [simp]:
  "utf8_valid (as_bytes ''--index-path'')" "utf8_valid (as_bytes ''--index-owner-stdio'')"
  by (simp_all add: ascii_literal)


definition path_value :: "bytes \<Rightarrow> bool" where
  "path_value v \<longleftrightarrow> v \<noteq> [] \<and> length v \<le> CLI_MAX_PATH_BYTES \<and> 0 \<notin> set v"

lemma validate_path_Inr [simp]: "validate_path v = Inr u \<longleftrightarrow> path_value v"
  by (auto simp: validate_path_def path_value_def)


















text \<open>A positional argument is one that no option spells.\<close>

lemma dashed_option: "to_str a = None \<or> take 2 a \<noteq> as_bytes ''--'' \<Longrightarrow> \<not> (utf8_valid a \<and> a = as_bytes (CHR ''-'' # CHR ''-'' # s))"
  by (auto simp: to_str_def as_bytes_def split: if_splits)


section \<open>The daemon follows the client\<close>



section \<open>What the arguments mean\<close>












section \<open>The state of the daemon is what was read\<close>








definition consumes :: "BootState \<Rightarrow> bytes list \<Rightarrow> BootState \<Rightarrow> bool" where
  "consumes bs chunk bs' \<longleftrightarrow> (\<forall>tail. boot_loop bs 0 (chunk @ tail) = boot_loop bs' 0 tail)"





lemma consumes_Nil [simp]: "consumes bs [] bs"
  by (simp add: consumes_def)





















section \<open>Parsed commands\<close>







section \<open>Sessions, exact searches and watching\<close>


























section \<open>The claim\<close>














end
