(* ===== verification/SafeReader.thy ===== *)
theory SafeReader
  imports Registry
begin

text \<open>
  The read of one selected file (\<open>search-safe-reader/src/lib.rs\<close>, on Unix): the file is opened
  without following a link, observed, read through the one handle and observed again. The file lives
  on while it is read: a handle shows a history of states, and every system call takes the next one.
\<close>

section \<open>Model: a file while it is read\<close>

datatype SourceReadError =
  NotRegularFile | OpenFailed | TooLarge | IdentityUnavailable | ChangedDuringRead
  | AllocationFailed | Deadline | Cancelled | Io

fun source_read_code :: "SourceReadError \<Rightarrow> string" where
  "source_read_code NotRegularFile = ''SOURCE_NOT_REGULAR_FILE''"
| "source_read_code OpenFailed = ''SOURCE_OPEN_FAILED''"
| "source_read_code TooLarge = ''SOURCE_TOO_LARGE''"
| "source_read_code IdentityUnavailable = ''SOURCE_IDENTITY_UNAVAILABLE''"
| "source_read_code ChangedDuringRead = ''SOURCE_CHANGED_DURING_READ''"
| "source_read_code AllocationFailed = ''SOURCE_ALLOCATION_FAILED''"
| "source_read_code Deadline = ''SOURCE_DEADLINE''"
| "source_read_code Cancelled = ''SOURCE_CANCELLED''"
| "source_read_code Io = ''SOURCE_IO''"

















section \<open>What a successful read is\<close>









end
