(* ===== verification/Spec2Isabelle.thy ===== *)
theory Spec2Isabelle
  imports Artifact ControlProperties Literal FrameLaws ObjectStore PublicationProperties ExactClaims QueryClaims SessionClaims Expansion PreparedSourceProgress CorpusExample CommandLaws SafeReader
begin

text \<open>
  A verification development of eliot-search, a local search service written in Rust. The
  program keeps a control database of registered source files, retains their bytes as immutable
  objects, prepares each source (decodes UTF-8 text, finds its lines and cuts it into units),
  publishes prepared artifacts to an index in numbered generations and answers searches through a
  daemon, once per process or in a session whose result window is paged and expanded.

  \<^bold>\<open>How the parts interact.\<close> A registered source is a row of the control database whose object the
  store holds. Preparing it reads the object, builds an artifact, stores that and commits an outcome
  row. A publication captures the rows of all sources, builds the next generation page by page,
  sends each page to the index service, verifies the service against the pages and commits the
  generation; the old one is retired. Queries pin the committed generation, let the index nominate
  points (or scan the objects, for an exact search) and read everything they show back from the
  objects. A session keeps the items of its one query and serves them by pages. Every message goes
  through the framed protocol, whose validations a client repeats.

  \<^bold>\<open>What is modelled, and where.\<close>

  Foundations.
  \<^item> \<open>Prelude\<close>: results (\<open>'e + 'a\<close>), the environment of a run, machine bounds, little-endian
    integers, readers and their contract (locale \<open>byte_reader\<close>).
  \<^item> \<open>Contracts\<close> (\<open>crates/search-contracts/src/ids.rs\<close>, \<open>error.rs\<close>): UUID parsing and printing,
    lowercase hexadecimal.
  \<^item> \<open>Registry\<close> (\<open>crates/search-source/search-source-registry/src/lib.rs\<close>): settings, object
    references, native file keys, source rows.
  \<^item> \<open>Utf8\<close>: the standard library's UTF-8 validation and character boundaries.
  \<^item> \<open>Store\<close>: the embedded key-value store by its documented interface (named ordered tables,
    atomic write transactions whose commit may fail with an unknown outcome; locale
    \<open>table_laws\<close>).

  Preparation and objects.
  \<^item> \<open>Materializer\<close> (\<open>crates/search-prep/search-materializer\<close>): refusal of binary content and the
    line scan of \<open>materialize_utf8\<close>.
  \<^item> \<open>Unitizer\<close> and \<open>Artifact\<close> (\<open>crates/search-prep/search-unitizer\<close>): the unit layout
    (\<open>layout.rs\<close>), encoding, decoding and acceptance of prepared artifacts (\<open>prepared.rs\<close>,
    \<open>prepared/\<close>).
  \<^item> \<open>PlainFiles\<close> (\<open>crates/search-runtime/search-runtime-owner/src/plain_root.rs\<close>, the bounded file
    helpers) and \<open>ObjectStore\<close> (\<open>crates/search-source/search-revision-store/src/lib.rs\<close>): files that
    are written aside, synced and linked; objects addressed by their digest.
  \<^item> \<open>PreparedSource\<close>, \<open>PreparedSourceLaws\<close>, \<open>PreparedSourceProgress\<close>
    (\<open>bins/eliot-searchd/src/prepared_source.rs\<close>): preparing one source across the database and the
    store, and the response that shows one of its units.

  The control database (\<open>crates/search-control-redb/src\<close>).
  \<^item> \<open>SourceControl\<close>, \<open>SourceLaws\<close>, \<open>SourceSafety\<close>, \<open>SourceOps\<close> (\<open>current_source.rs\<close>): the row codec
    (locale \<open>codec\<close>), captures, conditional commits, removal, the inventory and admitted selections.
  \<^item> \<open>Preparation\<close>, \<open>PreparationLaws\<close>, \<open>PreparationSafety\<close> (\<open>current_preparation.rs\<close>): preparation
    rows, settings and conditional outcomes.
  \<^item> \<open>ControlRun\<close>, \<open>ControlProgress\<close>, \<open>ControlProperties\<close>: all operations on sources and preparations
    as one step relation, progress without interruption, properties of runs, a concrete run.
  \<^item> \<open>PublicationCodec\<close>, \<open>PublicationLaws\<close> (\<open>publication/codec.rs\<close>): stored points, pages, captured
    sources and evidence, and that they read back. \<open>Publication\<close>, \<open>Retirement\<close>, \<open>PublishedReads\<close>
    (\<open>publication.rs\<close>): captures, builds, staging, dispatch, commit, the chunked removal of a retired
    generation, and the reads of a pinned generation.
  \<^item> \<open>PublicationFrame\<close>, \<open>PublicationInvariant\<close>, \<open>PublicationEditors\<close>, \<open>PublicationRun\<close>,
    \<open>PublicationCorpus\<close>, \<open>PublicationSystem\<close>: what a transaction may touch, the invariant of the
    publication tables, each operation keeps it, and the machine \<open>system_step\<close> of all operations of
    the control database. \<open>PublishedInventory\<close>: the range read of an inventory is exact.
    \<open>PublicationExample\<close> computes a run; \<open>PublicationProperties\<close> holds the claims.

  The protocol (\<open>crates/search-provider-protocol/src\<close>).
  \<^item> \<open>Protocol\<close>, \<open>WindowProtocol\<close>, \<open>ProtocolLaws\<close> (\<open>dto.rs\<close>): requests, results, session frames, pages,
    expansions and the validations a client makes. \<open>Frame\<close>, \<open>FrameLaws\<close> (\<open>frame.rs\<close>): the
    incremental frame buffer, bounded encoding, the largest prefix that fits.

  The daemon (\<open>bins/eliot-searchd/src\<close>).
  \<^item> \<open>Literal\<close> (\<open>exact_literal.rs\<close>): literal matching over blocks. \<open>ExactSearch\<close>, \<open>ExactSearchLaws\<close>,
    \<open>ExactProperties\<close>, \<open>ExactAnswers\<close>, \<open>ExactExample\<close>, \<open>ExactClaims\<close> (\<open>raw_exact.rs\<close>,
    \<open>decoded_exact.rs\<close>): the exact searches, their specification as naive searches, that they answer.
  \<^item> \<open>VerifiedQuery\<close>, \<open>QueryClaims\<close> (\<open>verified_query.rs\<close>): nominated points are shown only after their
    evidence and objects verify.
  \<^item> \<open>Window\<close>, \<open>Session\<close>, \<open>SessionLaws\<close>, \<open>SessionRun\<close>, \<open>SessionExample\<close>, \<open>SessionClaims\<close>, \<open>Expansion\<close>
    (\<open>framed_search/\<close>): the result window, the exchange and the worker of a session as the step
    relation \<open>session_step\<close>, and what a client reads.
  \<^item> \<open>Bridge\<close>, \<open>BridgeLaws\<close> (\<open>crates/search-qdrant-bridge/src\<close>): the requests to the index service and
    the acceptance of its answers. \<open>PublishedCorpus\<close>, \<open>PublishedCorpusLaws\<close>, \<open>CorpusVerified\<close>,
    \<open>CorpusExample\<close> (\<open>published_corpus.rs\<close>): a publication across the database, the store and the
    service; it makes only steps of \<open>system_step\<close>, and a view it returns is what the service holds.

  \<^bold>\<open>How the code is rendered.\<close> A function that may fail returns \<open>Inl\<close> an error value or \<open>Inr\<close> a
  result; every early return is a branch. Cancellation, deadlines, refused allocations and
  storage failures are what the environment argument \<open>env\<close> observes at each poll in order (an
  exhausted environment is quiet); theorems quantify over all environments, so over every
  interleaving of interruptions. Integers are natural numbers with their width written where it
  is checked (\<open>checked_add64\<close>, \<open>try_from\<close>) and in the \<open>wf_\<close> predicates; bytes are 8-bit words;
  strings of the code are their UTF-8 bytes where the code works on bytes. A write transaction
  is a working copy of the database that is dropped or committed. The hash function, the random
  identities, the JSON library, the clock, the index service, the tables of alphanumeric characters
  and the opening of a root are parameters; what a theorem needs of them is among its
  hypotheses.

  A publication works on a world (database, state of the remote service, observations), and each
  call takes the next environment of a list; the reads of the service are assumed to leave its
  state as it is only in \<open>published_view_is_served\<close>. The steps of one build are not interleaved with
  other writers, which the owner of a root excludes. A command of a session's worker is one step, at
  its end; the exchange, the worker and the client interleave freely, a deadline or an expiry may come
  at any step, and an operation that returns an error ends the program and makes no step. Binary
  searches over inventories are rendered as the membership they decide, which
  \<open>source_inventory_Inr\<close> justifies. Recursion terminates, and no fuel is used; a search whose loop is
  not bounded by its input is a \<open>partial_function (option)\<close>, and the claims state that it returns.

  \<^bold>\<open>What the lemmas show.\<close> For preparation: the products are exact (lines, units, bytes), the
  artifact decodes to what was encoded and nothing else is accepted, ceilings and interruptions
  only refuse. For objects: a stored object is read back, an intact one is never replaced. For the
  control database: each operation keeps one invariant under every environment and acts on the
  abstract registry and preparation map as an update guarded by everything that was captured; no
  update is lost; the wanted revision identifies the corpus along every run; the operations return
  when nothing interferes. For publication: the current generation of every reachable state can be
  pinned, its points resolve to the captured sources, it is the current corpus while the wanted
  revision has not moved, and what the daemon announces as published the service serves. For
  searches: an answer is the naive search over the files of the chosen sources, a negative answer
  is sound, a shown hit is in the object it names. For sessions: the pages are consecutive pieces of
  one window whatever interferes, and expansions are cut from the cited object. For the protocol:
  any fragmentation yields the frames that were sent, what is accepted is bounded, ordered and bound
  to its request.

  \<^bold>\<open>Not modelled\<close>: the provider client and the command line (processes and terminals), file
  watching and the safe reading of files, the legacy inventory, the lifecycle of a root (creation,
  migration, locks), the service commands of the daemon and the printing of \<open>published_corpus\<close>, and
  the vendored store itself.
\<close>

end
